(* ===== verification/Go_Lib.thy ===== *)
theory Go_Lib
  imports Main "HOL-Library.AList"
begin

text \<open>
  The prelude of the development: the pieces of the Go language and of its
  standard library which the code of bendo uses, and the generic lemmas that the
  components share.

  \<^item> A Go \<^verbatim>\<open>string\<close> is a sequence of bytes, and so is a \<^verbatim>\<open>[]byte\<close>; both are
    char lists (a HOL \<^verbatim>\<open>char\<close> is one byte).
  \<^item> A Go \<^verbatim>\<open>map\<close> is an association list with distinct keys; iteration visits
    the list in order. Go leaves the order of iteration open, so the properties
    of the library speak about the map, or about the set of its keys.
  \<^item> \<^verbatim>\<open>int\<close> and \<^verbatim>\<open>int64\<close> are HOL integers; \<open>strconv.ParseInt\<close> checks
    the 64 bit range.
  \<^item> \<^verbatim>\<open>time.Time\<close> is an integer number of nanoseconds, with 0 as the zero time;
    every operation that reads the clock takes the time as an argument.
  \<^item> A pair \<^verbatim>\<open>(value, error)\<close> of which only one part is meaningful is a
    sum, with the error on the left.
\<close>

section \<open>Types\<close>

type_synonym bytes = "char list"
type_synonym time = int
type_synonym ('k, 'v) gomap = "('k \<times> 'v) list"

datatype bag_kind = ErrExtraFile | ErrMissingFile | ErrChecksum

datatype error =
    EOF
  | IOError string               \<comment> \<open>an error of the operating system or of a remote service\<close>
  | ErrTooLong                   \<comment> \<open>bufio.Scanner: token too long\<close>
  | Panic string                 \<comment> \<open>a run-time panic\<close>
  | Blocked                      \<comment> \<open>the call waits for a lock held by another writer\<close>
  | NoItemKey string             \<comment> \<open>store.Memory: no such key\<close>
  | ErrKeyExists
  | ErrKeyContainsSlash
  | ErrKeyContainsNonUnicode
  | ErrKeyContainsWhiteSpace
  | ErrKeyContainsControlChar
  | ErrNotExist
  | ErrNoETag
  | ErrCacheFull
  | ErrPutPending
  | ErrStopped
  | BagError bag_kind string
  | ErrNotFound
  | ErrZip                       \<comment> \<open>zip: not a valid zip file\<close>
  | ErrJSON                      \<comment> \<open>json: cannot decode\<close>
  | ErrNoItem
  | ErrNoStore
  | ErrDeleted
  | NoBlobError string int
  | ErrCommitSize string int int int
  | ErrCommitHash string bytes bytes
  | ErrExistingTransaction
  | ErrBadCommand
  | ErrNumSyntax string          \<comment> \<open>strconv: invalid syntax or value out of range\<close>
  | ErrMessage string            \<comment> \<open>fmt.Errorf with the message given\<close>
  | ErrInvalidPos
  | ErrWhence
  | ErrLengthMismatch int int
  | ErrUnexpectedResp
  | ErrChecksumMismatch
  | ErrTransaction
  | ErrTimeout

type_synonym 'a result = "error + 'a"

section \<open>Simp rules shared by the components\<close>

named_theorems go_simps \<open>unfolding of library functions on concrete shapes\<close>

section \<open>Maps\<close>

definition gget :: "('k, 'v) gomap \<Rightarrow> 'k \<Rightarrow> 'v option" where
  "gget m k = map_of m k"

definition gset :: "'k \<Rightarrow> 'v \<Rightarrow> ('k, 'v) gomap \<Rightarrow> ('k, 'v) gomap" where
  "gset k v m = AList.update k v m"

definition gdel :: "'k \<Rightarrow> ('k, 'v) gomap \<Rightarrow> ('k, 'v) gomap" where
  "gdel k m = AList.delete k m"

definition gkeys :: "('k, 'v) gomap \<Rightarrow> 'k list" where
  "gkeys m = map fst m"

definition gmap_ok :: "('k, 'v) gomap \<Rightarrow> bool" where
  "gmap_ok m = distinct (map fst m)"

lemma gget_Nil [simp]: "gget [] k = None"
  by (simp add: gget_def)

lemma gget_Cons [simp]: "gget ((k', v) # m) k = (if k' = k then Some v else gget m k)"
  by (simp add: gget_def)

lemma gget_gset [simp]: "gget (gset k v m) = (gget m)(k \<mapsto> v)"
  by (rule ext) (simp add: gget_def gset_def update_conv')

lemma gget_gdel [simp]: "gget (gdel k m) = (gget m)(k := None)"
  by (rule ext) (simp add: gget_def gdel_def delete_conv')

lemma gset_Nil [simp]: "gset k v [] = [(k, v)]"
  by (simp add: gset_def)

lemma gset_Cons [simp]:
  "gset k v (p # m) = (if fst p = k then (k, v) # m else p # gset k v m)"
  by (simp add: gset_def)

lemma gdel_Nil [simp]: "gdel k [] = []"
  by (simp add: gdel_def)

lemma gdel_Cons [simp]: "gdel k (p # m) = (if fst p = k then gdel k m else p # gdel k m)"
  by (cases p) (simp add: gdel_def)

lemma gmap_ok_Nil [simp]: "gmap_ok []"
  by (simp add: gmap_ok_def)

lemma gmap_ok_gset [simp]: "gmap_ok m \<Longrightarrow> gmap_ok (gset k v m)"
  by (simp add: gmap_ok_def gset_def distinct_update)

lemma gmap_ok_gdel [simp]: "gmap_ok m \<Longrightarrow> gmap_ok (gdel k m)"
  by (simp add: gmap_ok_def gdel_def distinct_delete)

lemma set_gkeys: "set (gkeys m) = dom (gget m)"
  by (induction m) (auto simp: gkeys_def dom_def)

lemma gget_in_set: "gget m k = Some v \<Longrightarrow> (k, v) \<in> set m"
  by (simp add: gget_def map_of_SomeD)

lemma gget_unique: "gmap_ok m \<Longrightarrow> gget m k = Some v \<longleftrightarrow> (k, v) \<in> set m"
  by (simp add: gmap_ok_def gget_def)

lemma gdel_id: "gget m k = None \<Longrightarrow> gdel k m = m"
  by (induction m) (auto split: if_splits)

lemma sum_list_gdel:
  fixes f :: "'k \<times> 'v \<Rightarrow> int"
  assumes "gmap_ok m" and "gget m k = Some v"
  shows "sum_list (map f (gdel k m)) = sum_list (map f m) - f (k, v)"
  using assms
proof (induction m)
  case Nil
  then show ?case by simp
next
  case (Cons p m)
  show ?case
  proof (cases "fst p = k")
    case True
    with Cons.prems have "gget m k = None"
      by (cases p) (auto simp: gmap_ok_def gget_def map_of_eq_None_iff)
    with True Cons.prems show ?thesis by (cases p) (simp add: gdel_id)
  next
    case False
    with Cons show ?thesis by (cases p) (simp add: gmap_ok_def)
  qed
qed

lemma sum_list_gset_new:
  fixes f :: "'k \<times> 'v \<Rightarrow> int"
  assumes "gget m k = None"
  shows "sum_list (map f (gset k v m)) = sum_list (map f m) + f (k, v)"
  using assms by (induction m) (auto split: if_splits)

section \<open>Lists\<close>

lemma option_eqI: "(\<And>x. a = Some x \<longleftrightarrow> b = Some x) \<Longrightarrow> a = b"
  by (cases a; cases b) auto

lemma take_drop_length: "take n xs @ drop (length (take n xs)) xs = xs"
  by (cases "n \<le> length xs") simp_all

section \<open>Package strings\<close>

definition has_prefix :: "string \<Rightarrow> string \<Rightarrow> bool" where
  "has_prefix s p = (take (length p) s = p)"

definition trim_prefix :: "string \<Rightarrow> string \<Rightarrow> string" where
  "trim_prefix s p = (if has_prefix s p then drop (length p) s else s)"

definition has_suffix :: "string \<Rightarrow> string \<Rightarrow> bool" where
  "has_suffix s p = has_prefix (rev s) (rev p)"

definition trim_suffix :: "string \<Rightarrow> string \<Rightarrow> string" where
  "trim_suffix s p = (if has_suffix s p then take (length s - length p) s else s)"

text \<open>\<open>strings.Index\<close> and \<open>strings.LastIndex\<close> for a separator of one byte.\<close>

fun index_char :: "char \<Rightarrow> string \<Rightarrow> nat option" where
  "index_char c [] = None"
| "index_char c (x # xs) = (if x = c then Some 0 else map_option Suc (index_char c xs))"

definition last_index_char :: "char \<Rightarrow> string \<Rightarrow> nat option" where
  "last_index_char c s = map_option (\<lambda>j. length s - Suc j) (index_char c (rev s))"

text \<open>\<open>strings.SplitN(s, c, 2)\<close> and \<open>strings.Split(s, c)\<close>.\<close>

definition split2 :: "char \<Rightarrow> string \<Rightarrow> string list" where
  "split2 c s = (case index_char c s of None \<Rightarrow> [s] | Some j \<Rightarrow> [take j s, drop (Suc j) s])"

fun split_all :: "char \<Rightarrow> string \<Rightarrow> string list" where
  "split_all c [] = [[]]"
| "split_all c (x # xs) =
     (if x = c then [] # split_all c xs
      else case split_all c xs of [] \<Rightarrow> [[x]] | p # ps \<Rightarrow> (x # p) # ps)"

text \<open>White space of \<open>strings.Fields\<close> and \<open>strings.TrimSpace\<close>, on ASCII text.\<close>

definition is_space :: "char \<Rightarrow> bool" where
  "is_space c = (c = CHR '' '' \<or> (9 \<le> (of_char c :: nat) \<and> (of_char c :: nat) \<le> 13))"

definition trim_space :: "string \<Rightarrow> string" where
  "trim_space s = rev (dropWhile is_space (rev (dropWhile is_space s)))"

function fields :: "string \<Rightarrow> string list" where
  "fields s =
     (let t = dropWhile is_space s in
      if t = [] then []
      else takeWhile (\<lambda>c. \<not> is_space c) t # fields (dropWhile (\<lambda>c. \<not> is_space c) t))"
  by pat_completeness auto
termination
proof (relation "measure length", goal_cases)
  case 1
  then show ?case by simp
next
  case (2 s t)
  then obtain x xs where t: "t = x # xs" by (meson neq_Nil_conv)
  with 2 have "\<not> is_space x" by (metis hd_dropWhile list.sel(1))
  then have "length (dropWhile (\<lambda>c. \<not> is_space c) t) < length t"
    by (simp add: t less_Suc_eq_le length_dropWhile_le)
  also have "length t \<le> length s" using 2 by (simp add: length_dropWhile_le)
  finally show ?case by simp
qed

declare fields.simps [simp del]

lemma has_prefix_append [simp]: "has_prefix (p @ s) p"
  by (simp add: has_prefix_def)

lemma has_prefix_Nil [simp]: "has_prefix s []"
  by (simp add: has_prefix_def)

lemma has_prefix_iff: "has_prefix s p \<longleftrightarrow> (\<exists>t. s = p @ t)"
  by (metis append_eq_conv_conj has_prefix_def)

lemma has_prefixE: "has_prefix s p \<Longrightarrow> (\<And>t. s = p @ t \<Longrightarrow> P) \<Longrightarrow> P"
  by (auto simp: has_prefix_iff)

lemma has_prefix_append_same [simp]: "has_prefix (p @ s) (p @ q) = has_prefix s q"
  by (auto simp: has_prefix_iff)

lemma trim_prefix_append [simp]: "trim_prefix (p @ s) p = s"
  by (simp add: trim_prefix_def)

lemma trim_suffix_append [simp]: "trim_suffix (s @ p) p = s"
  by (simp add: trim_suffix_def has_suffix_def)

lemma index_char_None: "index_char c s = None \<longleftrightarrow> c \<notin> set s"
  by (induction s) auto

lemma index_char_append: "c \<notin> set p \<Longrightarrow> index_char c (p @ c # t) = Some (length p)"
  by (induction p) auto

lemma last_index_char_append:
  assumes "c \<notin> set t"
  shows "last_index_char c (p @ c # t) = Some (length p)"
  using index_char_append[of c "rev t" "rev p"] assms by (simp add: last_index_char_def)

lemma split_all_line: "c \<notin> set l \<Longrightarrow> split_all c (l @ c # rest) = l # split_all c rest"
  by (induction l) auto

lemma split_all_single: "c \<notin> set s \<Longrightarrow> split_all c s = [s]"
  by (induction s) auto

lemma split2_append: "c \<notin> set p \<Longrightarrow> split2 c (p @ c # t) = [p, t]"
  by (simp add: split2_def index_char_append)

lemma split2_single: "c \<notin> set s \<Longrightarrow> split2 c s = [s]"
  by (simp add: split2_def index_char_None[symmetric])

end
