(* ===== verification/Go_Format.thy ===== *)
theory Go_Format
  imports Go_Lib
begin

text \<open>
  Formatting and parsing of the Go standard library, as far as the code of bendo
  uses them: \<^verbatim>\<open>%d\<close> and \<^verbatim>\<open>%04d\<close> of package fmt, \<open>strconv.ParseInt\<close> in
  base 10, package encoding/hex and the line scanner of package bufio.
  The lemmas are the round trips between printing and parsing.
\<close>

section \<open>Decimal numbers\<close>

definition digit_char :: "nat \<Rightarrow> char" where
  "digit_char d = char_of (48 + d)"

definition digit_val :: "char \<Rightarrow> nat option" where
  "digit_val c = (let n = of_char c in if 48 \<le> n \<and> n \<le> 57 then Some (n - 48) else None)"

fun nat_digits :: "nat \<Rightarrow> string" where
  "nat_digits n = (if n < 10 then [digit_char n] else nat_digits (n div 10) @ [digit_char (n mod 10)])"

declare nat_digits.simps [simp del]

text \<open>The verbs \<^verbatim>\<open>%d\<close> and \<^verbatim>\<open>%04d\<close>; a sign counts for the width.\<close>

definition fmt_d :: "int \<Rightarrow> string" where
  "fmt_d n = (if n < 0 then CHR ''-'' # nat_digits (nat (- n)) else nat_digits (nat n))"

definition zero_pad :: "nat \<Rightarrow> string \<Rightarrow> string" where
  "zero_pad w s = replicate (w - length s) (CHR ''0'') @ s"

definition fmt_04d :: "int \<Rightarrow> string" where
  "fmt_04d n =
     (if n < 0 then CHR ''-'' # zero_pad 3 (nat_digits (nat (- n))) else zero_pad 4 (nat_digits (nat n)))"

fun parse_digits :: "nat \<Rightarrow> string \<Rightarrow> nat option" where
  "parse_digits acc [] = Some acc"
| "parse_digits acc (c # cs) =
     (case digit_val c of None \<Rightarrow> None | Some d \<Rightarrow> parse_digits (10 * acc + d) cs)"

definition parse_nat :: "string \<Rightarrow> nat option" where
  "parse_nat s = (if s = [] then None else parse_digits 0 s)"

text \<open>\<open>strconv.ParseInt(s, 10, 64)\<close> and \<open>strconv.Atoi\<close> on a 64 bit machine: an
  optional sign, at least one digit, and a value in the range of int64.\<close>

definition parse_int :: "string \<Rightarrow> int option" where
  "parse_int s =
     (let (neg, t) = (case s of [] \<Rightarrow> (False, []) |
                        c # cs \<Rightarrow> if c = CHR ''-'' then (True, cs)
                                   else if c = CHR ''+'' then (False, cs) else (False, s))
      in case parse_nat t of
           None \<Rightarrow> None
         | Some n \<Rightarrow> if neg then (if n \<le> 2 ^ 63 then Some (- int n) else None)
                     else (if n < 2 ^ 63 then Some (int n) else None))"

definition int64_ok :: "int \<Rightarrow> bool" where
  "int64_ok n = (- (2 ^ 63) \<le> n \<and> n < 2 ^ 63)"

lemma digit_char_0: "digit_char 0 = CHR ''0''"
  unfolding digit_char_def by code_simp

lemma digit_val_char [simp]: "d < 10 \<Longrightarrow> digit_val (digit_char d) = Some d"
  by (simp add: digit_val_def digit_char_def)

lemma digit_char_range: "d < 10 \<Longrightarrow> of_char (digit_char d) = 48 + d"
  by (simp add: digit_char_def)

lemma nat_digits_set: "c \<in> set (nat_digits n) \<Longrightarrow> \<exists>d<10. c = digit_char d"
proof (induction n arbitrary: c rule: nat_digits.induct)
  case (1 n)
  have "\<exists>d<10. digit_char (n mod 10) = digit_char d" by (rule exI[of _ "n mod 10"]) simp
  with 1 show ?case
    by (cases "n < 10") (auto simp: nat_digits.simps[of n])
qed

lemma nat_digits_nonempty [simp]: "nat_digits n \<noteq> []"
  by (subst nat_digits.simps) simp

lemma parse_digits_append:
  "parse_digits a (xs @ ys) = Option.bind (parse_digits a xs) (\<lambda>b. parse_digits b ys)"
  by (induction xs arbitrary: a) (auto split: option.splits)

lemma parse_digits_nat_digits: "parse_digits 0 (nat_digits n) = Some n"
proof (induction n rule: nat_digits.induct)
  case (1 n)
  show ?case
  proof (cases "n < 10")
    case True
    then show ?thesis by (simp add: nat_digits.simps[of n])
  next
    case False
    with 1 have "parse_digits 0 (nat_digits (n div 10)) = Some (n div 10)" by simp
    with False show ?thesis by (simp add: nat_digits.simps[of n] parse_digits_append)
  qed
qed

lemma parse_digits_zeros: "parse_digits 0 (replicate k (CHR ''0'') @ s) = parse_digits 0 s"
  by (induction k) (auto simp: digit_val_def)

lemma parse_nat_zero_pad: "parse_nat (zero_pad w (nat_digits n)) = Some n"
  by (simp add: parse_nat_def zero_pad_def parse_digits_zeros parse_digits_nat_digits)

lemma parse_nat_digits: "parse_nat (nat_digits n) = Some n"
  by (simp add: parse_nat_def parse_digits_nat_digits)

lemma digit_char_not_sign: "d < 10 \<Longrightarrow> digit_char d \<noteq> CHR ''-'' \<and> digit_char d \<noteq> CHR ''+''"
  by (auto dest: arg_cong[where f = "of_char :: char \<Rightarrow> nat"] simp: digit_char_range)

lemma not_digit_in_digits:
  assumes "\<And>d. d < 10 \<Longrightarrow> c \<noteq> digit_char d"
  shows "c \<notin> set (nat_digits n)" and "c \<notin> set (zero_pad w (nat_digits n))"
proof -
  show 1: "c \<notin> set (nat_digits n)" using assms nat_digits_set by blast
  with digit_char_0 show "c \<notin> set (zero_pad w (nat_digits n))"
    using assms[of 0] 1 by (auto simp: zero_pad_def)
qed

lemma nat_digits_hd:
  "\<exists>d<10. hd (nat_digits n) = digit_char d" "\<exists>d<10. hd (zero_pad w (nat_digits n)) = digit_char d"
proof -
  show 1: "\<exists>d<10. hd (nat_digits n) = digit_char d"
    by (meson hd_in_set nat_digits_nonempty nat_digits_set)
  show "\<exists>d<10. hd (zero_pad w (nat_digits n)) = digit_char d"
  proof (cases "w - length (nat_digits n)")
    case 0
    with 1 show ?thesis by (simp add: zero_pad_def)
  next
    case (Suc k)
    then show ?thesis by (auto simp: zero_pad_def digit_char_0 intro!: exI[of _ 0])
  qed
qed

lemma parse_int_unsigned:
  assumes "parse_nat s = Some n" and "\<exists>d<10. hd s = digit_char d" and "s \<noteq> []" and "n < 2 ^ 63"
  shows "parse_int s = Some (int n)"
proof (cases s)
  case Nil
  with assms show ?thesis by simp
next
  case (Cons c cs)
  with assms(2) digit_char_not_sign have "c \<noteq> CHR ''-''" "c \<noteq> CHR ''+''" by auto
  with Cons assms show ?thesis by (simp add: parse_int_def)
qed

lemma parse_int_negative:
  assumes "parse_nat s = Some n" and "n \<le> 2 ^ 63"
  shows "parse_int (CHR ''-'' # s) = Some (- int n)"
  using assms by (simp add: parse_int_def)

theorem parse_int_fmt_d: "int64_ok n \<Longrightarrow> parse_int (fmt_d n) = Some n"
  by (auto simp: fmt_d_def int64_ok_def nat_digits_hd parse_nat_digits
      intro!: parse_int_unsigned[THEN trans] parse_int_negative[THEN trans])

theorem parse_int_fmt_04d: "int64_ok n \<Longrightarrow> parse_int (fmt_04d n) = Some n"
proof -
  have ne: "zero_pad w (nat_digits k) \<noteq> []" for w k by (simp add: zero_pad_def)
  assume "int64_ok n"
  then show ?thesis
    by (auto simp: fmt_04d_def int64_ok_def nat_digits_hd parse_nat_zero_pad ne
        intro!: parse_int_unsigned[THEN trans] parse_int_negative[THEN trans])
qed

lemma fmt_d_chars: "c \<in> set (fmt_d n) \<Longrightarrow> c = CHR ''-'' \<or> (\<exists>d<10. c = digit_char d)"
  using nat_digits_set by (auto simp: fmt_d_def split: if_splits)

lemma digit_char_neq:
  assumes "d < 10" and "(of_char c :: nat) < 48 \<or> 57 < (of_char c :: nat)"
  shows "c \<noteq> digit_char d"
  using assms digit_char_range[OF assms(1)] by auto

lemma fmt_04d_nonneg_chars:
  assumes "0 \<le> n" and "(of_char c :: nat) < 48 \<or> 57 < (of_char c :: nat)"
  shows "c \<notin> set (fmt_04d n)"
  using assms not_digit_in_digits(2)[OF digit_char_neq] by (simp add: fmt_04d_def)

section \<open>Package encoding/hex\<close>

definition hex_digit :: "nat \<Rightarrow> char" where
  "hex_digit d = (if d < 10 then char_of (48 + d) else char_of (87 + d))"

definition hex_val :: "char \<Rightarrow> nat option" where
  "hex_val c = (let n = of_char c in
     if 48 \<le> n \<and> n \<le> 57 then Some (n - 48)
     else if 97 \<le> n \<and> n \<le> 102 then Some (n - 87)
     else if 65 \<le> n \<and> n \<le> 70 then Some (n - 55)
     else None)"

fun hex_encode :: "bytes \<Rightarrow> string" where
  "hex_encode [] = []"
| "hex_encode (b # bs) = hex_digit (of_char b div 16) # hex_digit (of_char b mod 16) # hex_encode bs"

text \<open>\<open>hex.DecodeString\<close>: the bytes decoded before the first error, and whether
  there was an error (a byte that is no hexadecimal digit, or an odd length).\<close>

fun hex_decode :: "string \<Rightarrow> bytes \<times> bool" where
  "hex_decode [] = ([], False)"
| "hex_decode [c] = ([], True)"
| "hex_decode (c # d # cs) =
     (case (hex_val c, hex_val d) of
        (Some a, Some b) \<Rightarrow> (let (bs, e) = hex_decode cs in (char_of (16 * a + b) # bs, e))
      | _ \<Rightarrow> ([], True))"

lemma hex_val_digit [simp]: "d < 16 \<Longrightarrow> hex_val (hex_digit d) = Some d"
  by (simp add: hex_val_def hex_digit_def)

lemma of_char_lt: "(of_char c :: nat) < 256"
  by (rule nat_of_char_less_256)

theorem hex_decode_encode [simp]: "hex_decode (hex_encode bs) = (bs, False)"
proof (induction bs)
  case (Cons b bs)
  have "(of_char b :: nat) div 16 < 16" using of_char_lt[of b] by linarith
  with Cons show ?case by simp
qed simp

lemma hex_encode_inj: "hex_encode xs = hex_encode ys \<Longrightarrow> xs = ys"
  by (metis hex_decode_encode prod.inject)

lemma length_hex_encode [simp]: "length (hex_encode bs) = 2 * length bs"
  by (induction bs) auto

section \<open>bufio.Scanner over lines\<close>

text \<open>A line ends at a line feed, and a carriage return before it is dropped. A
  line of 64 KiB or more does not fit in the buffer and stops the scan.\<close>

definition max_token :: int where
  "max_token = 65536"

definition drop_cr :: "string \<Rightarrow> string" where
  "drop_cr s = (if s \<noteq> [] \<and> last s = char_of (13 :: nat) then butlast s else s)"

fun scan_lines_at :: "int \<Rightarrow> string \<Rightarrow> bytes \<Rightarrow> string list \<times> error option" where
  "scan_lines_at n cur [] = (if cur = [] then ([], None) else ([drop_cr (rev cur)], None))"
| "scan_lines_at n cur (c # cs) =
     (if c = char_of (10 :: nat)
      then (let (ls, e) = scan_lines_at 0 [] cs in (drop_cr (rev cur) # ls, e))
      else if max_token \<le> n + 1 then ([], Some ErrTooLong)
      else scan_lines_at (n + 1) (c # cur) cs)"

definition scan_lines :: "bytes \<Rightarrow> string list \<times> error option" where
  "scan_lines s = scan_lines_at 0 [] s"

definition newline :: char where
  "newline = char_of (10 :: nat)"

definition plain_line :: "string \<Rightarrow> bool" where
  "plain_line l = (newline \<notin> set l \<and> int (length l) < max_token \<and> drop_cr l = l)"

lemma scan_lines_at_plain:
  assumes "newline \<notin> set l" and "n + int (length l) < max_token"
  shows "scan_lines_at n cur (l @ newline # rest) =
         (let (ls, e) = scan_lines_at 0 [] rest in (drop_cr (rev cur @ l) # ls, e))"
  using assms
proof (induction l arbitrary: n cur)
  case Nil
  then show ?case by (simp add: newline_def)
next
  case (Cons c l)
  then have "c \<noteq> char_of (10 :: nat)" "\<not> max_token \<le> n + 1" by (auto simp: newline_def)
  with Cons show ?case by simp
qed

lemma scan_lines_Nil [simp]: "scan_lines [] = ([], None)"
  by (simp add: scan_lines_def)

lemma scan_lines_line:
  "plain_line l \<Longrightarrow> scan_lines (l @ newline # rest) = (let (ls, e) = scan_lines rest in (l # ls, e))"
  by (simp add: scan_lines_def plain_line_def scan_lines_at_plain)

definition unlines :: "string list \<Rightarrow> string" where
  "unlines ls = concat (map (\<lambda>l. l @ [newline]) ls)"

lemma unlines_simps [simp]: "unlines [] = []" "unlines (l # ls) = l @ newline # unlines ls"
  by (simp_all add: unlines_def)

theorem scan_lines_unlines: "\<forall>l \<in> set ls. plain_line l \<Longrightarrow> scan_lines (unlines ls) = (ls, None)"
  by (induction ls) (auto simp: scan_lines_line)

end
