(* ===== verification/Store_Interface.thy ===== *)
theory Store_Interface
  imports Go_Format
begin

text \<open>
  The interface \<open>store.Store\<close> of src/store/store.go, the reader built on top of
  \<open>io.ReaderAt\<close> by \<open>NewReader\<close>, and the wrapper of src/store/prefix.go.

  An implementation is a record of operations over a state \<open>'s\<close> and handles
  \<open>'w\<close> of open writers; every client takes such a record as an argument, as the
  Go code takes a value of the interface. \<open>Open\<close> returns the content of the object,
  on which \<open>ReadAt\<close> is a function; the size that the Go method also returns is the
  length of the content.

  The locale \<open>store\<close> states the contract: what is stored (\<open>cont\<close>), what each open
  writer has received (\<open>wst\<close>), which keys are accepted and which state invariant
  every operation keeps. The wrapper \<open>prefixstore\<close> of a store is again a store:
  this is the sublocale at the end.
\<close>

section \<open>The interface\<close>

record ('s, 'w) store_ops =
  op_list :: "'s \<Rightarrow> string list"
  op_list_prefix :: "'s \<Rightarrow> string \<Rightarrow> string list result"
  op_open :: "'s \<Rightarrow> string \<Rightarrow> bytes result \<times> 's"
  op_read_at :: "bytes \<Rightarrow> int \<Rightarrow> nat \<Rightarrow> bytes \<times> error option"
  op_create :: "'s \<Rightarrow> string \<Rightarrow> 'w result \<times> 's"
  op_write :: "'s \<Rightarrow> 'w \<Rightarrow> bytes \<Rightarrow> (nat \<times> error option) \<times> 's"
  op_close :: "'s \<Rightarrow> 'w \<Rightarrow> error option \<times> 's"
  op_delete :: "'s \<Rightarrow> string \<Rightarrow> error option \<times> 's"

text \<open>The contract of \<open>ReadAt(p, off)\<close> for a buffer of \<open>n\<close> bytes: the bytes at the
  offset, and an end-of-file error at the latest when nothing is left.\<close>

definition read_at_ok :: "(bytes \<Rightarrow> int \<Rightarrow> nat \<Rightarrow> bytes \<times> error option) \<Rightarrow> bool" where
  "read_at_ok ra = (\<forall>b off n. 0 \<le> off \<longrightarrow>
     fst (ra b off n) = take n (drop (nat off) b) \<and>
     (snd (ra b off n) = None \<or> snd (ra b off n) = Some EOF) \<and>
     (0 < n \<longrightarrow> length b \<le> nat off \<longrightarrow> snd (ra b off n) = Some EOF) \<and>
     (0 < n \<longrightarrow> snd (ra b off n) = Some EOF \<longrightarrow> length b \<le> nat off + n))"

section \<open>NewReader: a reader over a ReaderAt\<close>

record reader =
  rd_r :: bytes
  rd_off :: int

definition NewReader :: "bytes \<Rightarrow> reader" where
  "NewReader b = \<lparr>rd_r = b, rd_off = 0\<rparr>"

definition reader_Read ::
  "(bytes \<Rightarrow> int \<Rightarrow> nat \<Rightarrow> bytes \<times> error option) \<Rightarrow> reader \<Rightarrow> nat \<Rightarrow> (bytes \<times> error option) \<times> reader" where
  "reader_Read ra r n =
     (let (p, err) = ra (rd_r r) (rd_off r) n;
          r' = r\<lparr>rd_off := rd_off r + int (length p)\<rparr>
      in if err = Some EOF \<and> 0 < length p then ((p, None), r') else ((p, err), r'))"

text \<open>The loop of \<open>io.Copy\<close> over such a reader with a buffer of \<open>n\<close> bytes: what is
  read until the first error; an end of file is not an error.\<close>

partial_function (option) reader_copy ::
  "(bytes \<Rightarrow> int \<Rightarrow> nat \<Rightarrow> bytes \<times> error option) \<Rightarrow> nat \<Rightarrow> reader \<Rightarrow> bytes \<Rightarrow> (bytes \<times> error option) option" where
  "reader_copy ra n r acc =
     (let ((p, err), r') = reader_Read ra r n in
      case err of
        None \<Rightarrow> reader_copy ra n r' (acc @ p)
      | Some e \<Rightarrow> Some (acc @ p, if e = EOF then None else Some e))"

lemma read_at_okD:
  assumes "read_at_ok ra" and "0 \<le> off"
  shows "fst (ra b off n) = take n (drop (nat off) b)"
    and "snd (ra b off n) = None \<or> snd (ra b off n) = Some EOF"
    and "0 < n \<Longrightarrow> length b \<le> nat off \<Longrightarrow> snd (ra b off n) = Some EOF"
    and "0 < n \<Longrightarrow> snd (ra b off n) = Some EOF \<Longrightarrow> length b \<le> nat off + n"
  using assms by (auto simp: read_at_ok_def)

lemma reader_copy_from:
  assumes ok: "read_at_ok ra" and n: "0 < n"
  shows "reader_copy ra n \<lparr>rd_r = b, rd_off = int k\<rparr> acc = Some (acc @ drop k b, None)"
proof (induction "length b - k" arbitrary: k acc rule: less_induct)
  case less
  obtain p err where ra: "ra b (int k) n = (p, err)" by fastforce
  note D = read_at_okD[where off = "int k" and b = b and n = n, OF ok, unfolded ra, simplified]
  show ?case
  proof (cases "length p = 0")
    case True
    with D(1) n have end_reached: "length b \<le> k" by simp
    with D(3) n have "err = Some EOF" by simp
    with True end_reached show ?thesis
      by (subst reader_copy.simps) (simp add: reader_Read_def ra)
  next
    case False
    with D(1) have lt: "k < length b" by (cases "length b \<le> k") auto
    from D(1) False lt have "length b - (k + length p) < length b - k" by simp
    from less[OF this] have IH: "reader_copy ra n \<lparr>rd_r = b, rd_off = int (k + length p)\<rparr> (acc @ p)
        = Some ((acc @ p) @ drop (k + length p) b, None)" .
    from False have nonempty: "p \<noteq> []" by simp
    have none: "err = None \<or> err = Some EOF \<and> p \<noteq> []" using D(2) nonempty by blast
    have "p @ drop (k + length p) b = drop k b"
      using take_drop_length[of n "drop k b"] D(1) by (simp add: add.commute)
    with IH none show ?thesis
      by (subst reader_copy.simps) (auto simp: reader_Read_def ra)
  qed
qed

section \<open>prefixstore\<close>

definition prefix_List :: "('s, 'w, 'm) store_ops_scheme \<Rightarrow> string \<Rightarrow> 's \<Rightarrow> string list" where
  "prefix_List S p s = map (drop (length p)) (filter (\<lambda>key. has_prefix key p) (op_list S s))"

definition prefix_ListPrefix ::
  "('s, 'w, 'm) store_ops_scheme \<Rightarrow> string \<Rightarrow> 's \<Rightarrow> string \<Rightarrow> string list result" where
  "prefix_ListPrefix S p s prefix =
     (case op_list_prefix S s (p @ prefix) of
        Inl e \<Rightarrow> Inl e
      | Inr keys \<Rightarrow> Inr (map (drop (length p)) (filter (\<lambda>key. has_prefix key p) keys)))"

definition NewWithPrefix :: "('s, 'w, 'm) store_ops_scheme \<Rightarrow> string \<Rightarrow> ('s, 'w) store_ops" where
  "NewWithPrefix S p = \<lparr>
     op_list = prefix_List S p,
     op_list_prefix = prefix_ListPrefix S p,
     op_open = (\<lambda>s key. op_open S s (p @ key)),
     op_read_at = op_read_at S,
     op_create = (\<lambda>s key. op_create S s (p @ key)),
     op_write = op_write S,
     op_close = op_close S,
     op_delete = (\<lambda>s key. op_delete S s (p @ key))\<rparr>"

section \<open>Saving an object in one go\<close>

text \<open>\<open>Create\<close>, one \<open>Write\<close> and \<open>Close\<close>, as the clients which hold the whole object in
  memory do. The first error is the result.\<close>

definition store_put ::
  "('s, 'w, 'm) store_ops_scheme \<Rightarrow> 's \<Rightarrow> string \<Rightarrow> bytes \<Rightarrow> error option \<times> 's" where
  "store_put S s key b =
     (case op_create S s key of
        (Inl e, s1) \<Rightarrow> (Some e, s1)
      | (Inr w, s1) \<Rightarrow>
          (let ((n, err), s2) = op_write S s1 w b;
               (err2, s3) = op_close S s2 w
           in (if err = None then err2 else err, s3)))"

section \<open>The contract\<close>

locale store =
  fixes S :: "('s, 'w) store_ops"
    and cont :: "'s \<Rightarrow> string \<Rightarrow> bytes option"
    and wst :: "'s \<Rightarrow> 'w \<Rightarrow> (string \<times> bytes) option"
    and okkey :: "string \<Rightarrow> bool"
    and okpre :: "string \<Rightarrow> bool"
    and sinv :: "'s \<Rightarrow> bool"
  assumes list_iff:
      "sinv s \<Longrightarrow> \<forall>w b. wst s w \<noteq> Some (k, b) \<Longrightarrow> k \<in> set (op_list S s) \<longleftrightarrow> cont s k \<noteq> None"
    and list_prefix_ok: "sinv s \<Longrightarrow> okpre p \<Longrightarrow> \<exists>ks. op_list_prefix S s p = Inr ks"
    and list_prefix_iff:
      "sinv s \<Longrightarrow> okpre p \<Longrightarrow> op_list_prefix S s p = Inr ks \<Longrightarrow> \<forall>w b. wst s w \<noteq> Some (k, b) \<Longrightarrow>
       k \<in> set ks \<longleftrightarrow> cont s k \<noteq> None \<and> has_prefix k p"
    and open_hit:
      "sinv s \<Longrightarrow> okkey k \<Longrightarrow> cont s k = Some b \<Longrightarrow>
       \<exists>s'. op_open S s k = (Inr b, s') \<and> sinv s' \<and> cont s' = cont s \<and> wst s' = wst s"
    and open_miss:
      "sinv s \<Longrightarrow> okkey k \<Longrightarrow> cont s k = None \<Longrightarrow>
       \<exists>e s'. op_open S s k = (Inl e, s') \<and> sinv s' \<and> cont s' = cont s \<and> wst s' = wst s"
    and create_ok:
      "sinv s \<Longrightarrow> okkey k \<Longrightarrow> cont s k = None \<Longrightarrow> \<forall>w b. wst s w \<noteq> Some (k, b) \<Longrightarrow>
       \<exists>w s'. op_create S s k = (Inr w, s') \<and> sinv s' \<and> cont s' = cont s \<and>
              wst s w = None \<and> wst s' = (wst s)(w \<mapsto> (k, []))"
    and write_ok:
      "sinv s \<Longrightarrow> wst s w = Some (k, b) \<Longrightarrow>
       \<exists>s'. op_write S s w p = ((length p, None), s') \<and> sinv s' \<and> cont s' = cont s \<and>
            wst s' = (wst s)(w \<mapsto> (k, b @ p))"
    and close_ok:
      "sinv s \<Longrightarrow> wst s w = Some (k, b) \<Longrightarrow> cont s k = None \<Longrightarrow>
       \<exists>s'. op_close S s w = (None, s') \<and> sinv s' \<and> cont s' = (cont s)(k \<mapsto> b) \<and>
            wst s' = (wst s)(w := None)"
    and delete_ok:
      "sinv s \<Longrightarrow> okkey k \<Longrightarrow> \<forall>w b. wst s w \<noteq> Some (k, b) \<Longrightarrow>
       \<exists>s'. op_delete S s k = (None, s') \<and> sinv s' \<and> cont s' = (cont s)(k := None) \<and> wst s' = wst s"
    and read_at: "read_at_ok (op_read_at S)"
begin

lemma put_ok:
  assumes "sinv s" and "okkey k" and "cont s k = None" and "\<forall>w b. wst s w \<noteq> Some (k, b)"
  obtains s' where "store_put S s k b = (None, s')" and "sinv s'"
    and "cont s' = (cont s)(k \<mapsto> b)" and "wst s' = wst s"
proof -
  obtain w s1 where s1: "op_create S s k = (Inr w, s1)" "sinv s1" "cont s1 = cont s"
      "wst s w = None" "wst s1 = (wst s)(w \<mapsto> (k, []))"
    using create_ok[OF assms] by blast
  then obtain s2 where s2: "op_write S s1 w b = ((length b, None), s2)" "sinv s2" "cont s2 = cont s"
      "wst s2 = (wst s)(w \<mapsto> (k, b))"
    using write_ok[of s1 w k "[]" b] by auto
  then obtain s3 where s3: "op_close S s2 w = (None, s3)" "sinv s3" "cont s3 = (cont s)(k \<mapsto> b)"
      "wst s3 = (wst s)(w := None)"
    using close_ok[of s2 w k b] assms(3) by auto
  have "wst s3 = wst s" using s3(4) s1(4) by auto
  then show thesis using that s1 s2 s3 by (simp add: store_put_def)
qed

lemma delete_put_ok:
  assumes "sinv s" and "okkey k" and "\<forall>w b. wst s w \<noteq> Some (k, b)"
  obtains s1 s2 where "op_delete S s k = (None, s1)" and "store_put S s1 k b = (None, s2)"
    and "sinv s2" and "cont s2 = (cont s)(k \<mapsto> b)" and "wst s2 = wst s"
proof -
  obtain s1 where s1: "op_delete S s k = (None, s1)" "sinv s1" "cont s1 = (cont s)(k := None)" "wst s1 = wst s"
    using delete_ok[OF assms] by blast
  then obtain s2 where "store_put S s1 k b = (None, s2)" "sinv s2"
      "cont s2 = (cont s1)(k \<mapsto> b)" "wst s2 = wst s1"
    using put_ok[of s1 k b] assms by auto
  with s1 that show thesis by simp
qed

end

section \<open>A prefixed store is a store\<close>

definition prefix_wst ::
  "('s \<Rightarrow> 'w \<Rightarrow> (string \<times> bytes) option) \<Rightarrow> string \<Rightarrow> 's \<Rightarrow> 'w \<Rightarrow> (string \<times> bytes) option" where
  "prefix_wst wst p s w =
     (case wst s w of
        None \<Rightarrow> None
      | Some (k, b) \<Rightarrow> if has_prefix k p then Some (drop (length p) k, b) else None)"

lemma prefix_wst_Some:
  "prefix_wst wst p s w = Some (k, b) \<longleftrightarrow> wst s w = Some (p @ k, b)"
  by (auto simp: prefix_wst_def has_prefix_iff split: option.splits)

lemma prefix_wst_upd:
  "wst s' = (wst s)(w \<mapsto> (p @ k, b)) \<Longrightarrow> prefix_wst wst p s' = (prefix_wst wst p s)(w \<mapsto> (k, b))"
  by (rule ext) (simp add: prefix_wst_def)

lemma prefix_wst_del:
  "wst s' = (wst s)(w := None) \<Longrightarrow> prefix_wst wst p s' = (prefix_wst wst p s)(w := None)"
  by (rule ext) (simp add: prefix_wst_def)

lemma prefix_wst_cong: "wst s' = wst s \<Longrightarrow> prefix_wst wst p s' = prefix_wst wst p s"
  by (rule ext) (simp add: prefix_wst_def)

lemma mem_prefix_strip:
  "k \<in> drop (length p) ` {x \<in> ks. has_prefix x p} \<longleftrightarrow> p @ k \<in> ks"
  by (force simp: has_prefix_iff image_iff)

locale prefixed_store = store S cont wst okkey okpre sinv
  for S :: "('s, 'w) store_ops" and cont wst okkey okpre sinv +
  fixes p :: string

sublocale prefixed_store \<subseteq> pre: store "NewWithPrefix S p" "\<lambda>s k. cont s (p @ k)" "prefix_wst wst p"
    "\<lambda>k. okkey (p @ k)" "\<lambda>k. okpre (p @ k)" sinv
proof (unfold_locales, goal_cases)
  case (1 s k)
  then show ?case
    using list_iff[of s "p @ k"]
    by (simp add: NewWithPrefix_def prefix_List_def mem_prefix_strip prefix_wst_Some)
next
  case (2 s q)
  then show ?case using list_prefix_ok[of s "p @ q"]
    by (auto simp: NewWithPrefix_def prefix_ListPrefix_def)
next
  case (3 s q ks k)
  then obtain ks0 where ks0: "op_list_prefix S s (p @ q) = Inr ks0"
    using list_prefix_ok[of s "p @ q"] by blast
  with 3 have "ks = map (drop (length p)) (filter (\<lambda>key. has_prefix key p) ks0)"
    by (simp add: NewWithPrefix_def prefix_ListPrefix_def)
  with 3 ks0 list_prefix_iff[of s "p @ q" ks0 "p @ k"] show ?case
    by (simp add: mem_prefix_strip prefix_wst_Some)
next
  case (4 s k b)
  then obtain s' where "op_open S s (p @ k) = (Inr b, s')" "sinv s'" "cont s' = cont s" "wst s' = wst s"
    using open_hit[of s "p @ k" b] by blast
  then show ?case
    by (intro exI[of _ s']) (simp add: NewWithPrefix_def prefix_wst_cong[of wst s' s])
next
  case (5 s k)
  then obtain e s' where "op_open S s (p @ k) = (Inl e, s')" "sinv s'" "cont s' = cont s" "wst s' = wst s"
    using open_miss[of s "p @ k"] by blast
  then show ?case
    by (intro exI[of _ e] exI[of _ s']) (simp add: NewWithPrefix_def prefix_wst_cong[of wst s' s])
next
  case (6 s k)
  then obtain w s' where w: "op_create S s (p @ k) = (Inr w, s')" "sinv s'" "cont s' = cont s"
      "wst s w = None" "wst s' = (wst s)(w \<mapsto> (p @ k, []))"
    using create_ok[of s "p @ k"] by (auto simp: prefix_wst_Some)
  then show ?case
    by (intro exI[of _ w] exI[of _ s']) (simp add: NewWithPrefix_def prefix_wst_upd[of wst s' s w p k], simp add: prefix_wst_def)
next
  case (7 s w k b q)
  then obtain s' where "op_write S s w q = ((length q, None), s')" "sinv s'" "cont s' = cont s"
      "wst s' = (wst s)(w \<mapsto> (p @ k, b @ q))"
    using write_ok[of s w "p @ k" b q] by (auto simp: prefix_wst_Some)
  then show ?case
    by (intro exI[of _ s']) (simp add: NewWithPrefix_def prefix_wst_upd[of wst s' s w p k])
next
  case (8 s w k b)
  then obtain s' where "op_close S s w = (None, s')" "sinv s'" "cont s' = (cont s)(p @ k \<mapsto> b)"
      "wst s' = (wst s)(w := None)"
    using close_ok[of s w "p @ k" b] by (auto simp: prefix_wst_Some)
  then show ?case
    by (intro exI[of _ s']) (simp add: NewWithPrefix_def prefix_wst_del[of wst s' s w] fun_eq_iff)
next
  case (9 s k)
  then obtain s' where "op_delete S s (p @ k) = (None, s')" "sinv s'" "cont s' = (cont s)(p @ k := None)"
      "wst s' = wst s"
    using delete_ok[of s "p @ k"] by (auto simp: prefix_wst_Some)
  then show ?case
    by (intro exI[of _ s']) (simp add: NewWithPrefix_def prefix_wst_cong[of wst s' s] fun_eq_iff)
next
  case 10
  then show ?case using read_at by (simp add: NewWithPrefix_def)
qed

end
