(* ===== verification/Memory_Store.thy ===== *)
theory Memory_Store
  imports Store_Interface
begin

text \<open>
  The in-memory store of src/store/memory.go. The Go map holds pointers to
  buffers, and a writer keeps its pointer after the key has been deleted or
  created again, so the model has a heap of buffers (a list, addresses are
  positions) beside the map from keys to addresses.

  \<open>Create\<close> takes the write lock of a new buffer and \<open>Close\<close> gives it back; \<open>Open\<close>
  takes the read lock and so waits for an open writer. A call that would wait is
  the error \<open>Blocked\<close>. Read locks never block another operation of the store (a
  write lock is only taken on a new buffer) and are left out.

  The interpretation at the end shows that the model satisfies the contract of the
  interface.
\<close>

section \<open>State\<close>

record buf =
  iswrite :: bool
  b_bytes :: bytes

record memory =
  m_store :: "(string, nat) gomap"
  m_heap :: "buf list"

definition NewMemory :: memory where
  "NewMemory = \<lparr>m_store = [], m_heap = []\<rparr>"

section \<open>Operations\<close>

definition mem_List :: "memory \<Rightarrow> string list" where
  "mem_List ms = gkeys (m_store ms)"

definition mem_ListPrefix :: "memory \<Rightarrow> string \<Rightarrow> string list result" where
  "mem_ListPrefix ms pre = Inr (filter (\<lambda>k. has_prefix k pre) (gkeys (m_store ms)))"

definition mem_Open :: "memory \<Rightarrow> string \<Rightarrow> bytes result \<times> memory" where
  "mem_Open ms key =
     (case gget (m_store ms) key of
        None \<Rightarrow> (Inl (NoItemKey key), ms)
      | Some a \<Rightarrow> if iswrite (m_heap ms ! a) then (Inl Blocked, ms)
                  else (Inr (b_bytes (m_heap ms ! a)), ms))"

definition buf_ReadAt :: "bytes \<Rightarrow> int \<Rightarrow> nat \<Rightarrow> bytes \<times> error option" where
  "buf_ReadAt b off n =
     (if int (length b) \<le> off then ([], Some EOF)
      else if off < 0 then ([], Some (Panic ''slice bounds out of range''))
      else (take n (drop (nat off) b), None))"

definition buf_Write :: "memory \<Rightarrow> nat \<Rightarrow> bytes \<Rightarrow> (nat \<times> error option) \<times> memory" where
  "buf_Write ms a p =
     ((length p, None),
      ms\<lparr>m_heap := (m_heap ms)[a := (m_heap ms ! a)\<lparr>b_bytes := b_bytes (m_heap ms ! a) @ p\<rparr>]\<rparr>)"

definition buf_Close :: "memory \<Rightarrow> nat \<Rightarrow> error option \<times> memory" where
  "buf_Close ms a =
     (if iswrite (m_heap ms ! a)
      then (None, ms\<lparr>m_heap := (m_heap ms)[a := (m_heap ms ! a)\<lparr>iswrite := False\<rparr>]\<rparr>)
      else (None, ms))"

definition mem_Create :: "memory \<Rightarrow> string \<Rightarrow> nat result \<times> memory" where
  "mem_Create ms key =
     (let a = length (m_heap ms) in
      (Inr a, ms\<lparr>m_heap := m_heap ms @ [\<lparr>iswrite = True, b_bytes = []\<rparr>],
                 m_store := gset key a (m_store ms)\<rparr>))"

definition mem_Delete :: "memory \<Rightarrow> string \<Rightarrow> error option \<times> memory" where
  "mem_Delete ms key = (None, ms\<lparr>m_store := gdel key (m_store ms)\<rparr>)"

text \<open>\<open>Dump\<close>: one line for each key, with at most 50 bytes of a content longer than 300.\<close>

definition mem_Dump :: "memory \<Rightarrow> string" where
  "mem_Dump ms = unlines (map (\<lambda>(k, a).
     (let s = b_bytes (m_heap ms ! a);
          s' = (if 300 < length s then take 50 s else s)
      in k @ '': '' @ s')) (m_store ms))"

definition mem_ops :: "(memory, nat) store_ops" where
  "mem_ops = \<lparr>
     op_list = mem_List,
     op_list_prefix = mem_ListPrefix,
     op_open = mem_Open,
     op_read_at = buf_ReadAt,
     op_create = mem_Create,
     op_write = buf_Write,
     op_close = buf_Close,
     op_delete = mem_Delete\<rparr>"

section \<open>Abstraction\<close>

text \<open>The invariant: addresses are in the heap and no two keys share a buffer.\<close>

definition mem_inv :: "memory \<Rightarrow> bool" where
  "mem_inv ms = (gmap_ok (m_store ms) \<and> distinct (map snd (m_store ms)) \<and>
     (\<forall>a \<in> set (map snd (m_store ms)). a < length (m_heap ms)))"

definition mem_cont :: "memory \<Rightarrow> string \<Rightarrow> bytes option" where
  "mem_cont ms k =
     (case gget (m_store ms) k of
        None \<Rightarrow> None
      | Some a \<Rightarrow> if iswrite (m_heap ms ! a) then None else Some (b_bytes (m_heap ms ! a)))"

definition mem_key_of :: "memory \<Rightarrow> nat \<Rightarrow> string option" where
  "mem_key_of ms a = gget (map (\<lambda>(k, a). (a, k)) (m_store ms)) a"

definition mem_wst :: "memory \<Rightarrow> nat \<Rightarrow> (string \<times> bytes) option" where
  "mem_wst ms a =
     (case mem_key_of ms a of
        None \<Rightarrow> None
      | Some k \<Rightarrow> if iswrite (m_heap ms ! a) then Some (k, b_bytes (m_heap ms ! a)) else None)"

lemmas mem_ops_simps =
  mem_ops_def mem_List_def mem_ListPrefix_def mem_Open_def mem_Create_def buf_Write_def buf_Close_def mem_Delete_def

lemma mem_key_of_iff:
  assumes "mem_inv ms"
  shows "mem_key_of ms a = Some k \<longleftrightarrow> gget (m_store ms) k = Some a"
proof -
  have sw: "map fst (map (\<lambda>(k, a). (a, k)) (m_store ms)) = map snd (m_store ms)" by auto
  have "gmap_ok (map (\<lambda>(k, a). (a, k)) (m_store ms))"
    using assms unfolding gmap_ok_def sw by (simp add: mem_inv_def)
  then have "mem_key_of ms a = Some k \<longleftrightarrow> (k, a) \<in> set (m_store ms)"
    by (auto simp: mem_key_of_def gget_unique)
  also have "\<dots> \<longleftrightarrow> gget (m_store ms) k = Some a"
    using assms by (simp add: gget_unique mem_inv_def)
  finally show ?thesis .
qed

lemma mem_wst_iff:
  assumes "mem_inv ms"
  shows "mem_wst ms a = Some (k, b) \<longleftrightarrow>
         gget (m_store ms) k = Some a \<and> iswrite (m_heap ms ! a) \<and> b = b_bytes (m_heap ms ! a)"
  by (auto simp: mem_wst_def mem_key_of_iff[OF assms, symmetric] split: option.splits)

lemma mem_addr_lt:
  assumes "mem_inv ms" and "gget (m_store ms) k = Some a"
  shows "a < length (m_heap ms)"
  using assms gget_in_set[OF assms(2)] by (force simp: mem_inv_def)

lemma mem_addr_inj:
  assumes "mem_inv ms" and "gget (m_store ms) k = Some a" and "gget (m_store ms) k' = Some a"
  shows "k = k'"
  using assms mem_key_of_iff[OF assms(1)] by (metis option.inject)

lemma gset_fresh: "gget m k = None \<Longrightarrow> gset k v m = m @ [(k, v)]"
  by (induction m) (auto split: if_splits)

lemma gdel_sub: "x \<in> set (gdel k m) \<Longrightarrow> x \<in> set m"
  by (induction m) (auto split: if_splits)

lemma gdel_distinct_snd: "distinct (map snd m) \<Longrightarrow> distinct (map snd (gdel k m))"
  by (induction m) (auto dest: gdel_sub)

lemma mem_inv_gdel: "mem_inv s \<Longrightarrow> mem_inv (s\<lparr>m_store := gdel k (m_store s)\<rparr>)"
  by (auto simp: mem_inv_def gdel_distinct_snd dest: gdel_sub)

lemma mem_inv_heap_upd [simp]:
  "mem_inv (ms\<lparr>m_heap := (m_heap ms)[a := x]\<rparr>) = mem_inv ms"
  by (simp add: mem_inv_def)

lemma mem_not_open:
  assumes "mem_inv ms" and "\<forall>w b. mem_wst ms w \<noteq> Some (k, b)"
  shows "mem_cont ms k = map_option (\<lambda>a. b_bytes (m_heap ms ! a)) (gget (m_store ms) k)"
proof (cases "gget (m_store ms) k")
  case None
  then show ?thesis by (simp add: mem_cont_def)
next
  case (Some a)
  with assms(2) mem_wst_iff[OF assms(1), of a k "b_bytes (m_heap ms ! a)"]
  have "\<not> iswrite (m_heap ms ! a)" by blast
  with Some show ?thesis by (simp add: mem_cont_def)
qed

section \<open>The contract holds\<close>

lemma mem_create_contract:
  assumes inv: "mem_inv s" and new: "mem_cont s k = None" and unopened: "\<forall>w b. mem_wst s w \<noteq> Some (k, b)"
  shows "\<exists>w s'. mem_Create s k = (Inr w, s') \<and> mem_inv s' \<and> mem_cont s' = mem_cont s \<and>
     mem_wst s w = None \<and> mem_wst s' = (mem_wst s)(w \<mapsto> (k, []))"
proof -
  let ?a = "length (m_heap s)"
  from mem_not_open[OF inv unopened] new have fresh: "gget (m_store s) k = None" by simp
  define s' where "s' = s\<lparr>m_heap := m_heap s @ [\<lparr>iswrite = True, b_bytes = []\<rparr>], m_store := m_store s @ [(k, ?a)]\<rparr>"
  have lt: "gget (m_store s) k' = Some a \<Longrightarrow> a < ?a" for k' a using mem_addr_lt[OF inv] by blast
  have inv': "mem_inv s'"
    using inv fresh by (auto simp: mem_inv_def s'_def gmap_ok_def gget_def map_of_eq_None_iff)
  have get': "gget (m_store s') = (gget (m_store s))(k \<mapsto> ?a)"
    using gset_fresh[OF fresh, of ?a] gget_gset[of k ?a "m_store s"] by (simp add: s'_def)
  have heap': "m_heap s' = m_heap s @ [\<lparr>iswrite = True, b_bytes = []\<rparr>]" by (simp add: s'_def)
  have create: "mem_Create s k = (Inr ?a, s')"
    by (simp add: mem_Create_def Let_def s'_def gset_fresh[OF fresh])
  have cont': "mem_cont s' = mem_cont s"
    using fresh lt by (auto simp: mem_cont_def get' heap' nth_append fun_eq_iff split: option.splits)
  have none: "mem_wst s ?a = None"
    using lt mem_wst_iff[OF inv, of ?a] by (cases "mem_wst s ?a") fastforce+
  have "mem_wst s' w = ((mem_wst s)(?a \<mapsto> (k, []))) w" for w
  proof (rule option_eqI)
    fix x :: "string \<times> bytes"
    obtain k' b where x: "x = (k', b)" by fastforce
    show "mem_wst s' w = Some x \<longleftrightarrow> ((mem_wst s)(?a \<mapsto> (k, []))) w = Some x"
      using mem_wst_iff[OF inv', of w k' b] mem_wst_iff[OF inv, of w k' b] lt fresh
      by (cases "k' = k"; cases "w = ?a") (auto simp: x get' heap' nth_append)
  qed
  then have "mem_wst s' = (mem_wst s)(?a \<mapsto> (k, []))" by (rule ext)
  with create inv' cont' none show ?thesis by blast
qed

lemma mem_heap_upd_wst:
  assumes inv: "mem_inv s" and a: "gget (m_store s) k = Some a"
  shows "mem_wst (s\<lparr>m_heap := (m_heap s)[a := x]\<rparr>) =
         (mem_wst s)(a := (if iswrite x then Some (k, b_bytes x) else None))" (is "mem_wst ?t = _")
proof
  fix w
  have "mem_key_of ?t w = mem_key_of s w" by (simp add: mem_key_of_def)
  moreover have "mem_key_of s a = Some k" using mem_key_of_iff[OF inv] a by simp
  ultimately show "mem_wst ?t w = ((mem_wst s)(a := (if iswrite x then Some (k, b_bytes x) else None))) w"
    using mem_addr_lt[OF inv a] by (auto simp: mem_wst_def split: option.splits)
qed

lemma mem_heap_upd_cont:
  assumes inv: "mem_inv s" and a: "gget (m_store s) k = Some a"
  shows "mem_cont (s\<lparr>m_heap := (m_heap s)[a := x]\<rparr>) =
         (mem_cont s)(k := (if iswrite x then None else Some (b_bytes x)))"
proof
  fix k'
  show "mem_cont (s\<lparr>m_heap := (m_heap s)[a := x]\<rparr>) k' =
        ((mem_cont s)(k := (if iswrite x then None else Some (b_bytes x)))) k'"
  proof (cases "k' = k")
    case True
    with a mem_addr_lt[OF inv a] show ?thesis by (simp add: mem_cont_def)
  next
    case False
    then have "gget (m_store s) k' \<noteq> Some a" using mem_addr_inj[OF inv a] by blast
    with False show ?thesis by (auto simp: mem_cont_def split: option.splits)
  qed
qed

lemma mem_delete_wst:
  assumes inv: "mem_inv s" and unopened: "\<forall>w b. mem_wst s w \<noteq> Some (k, b)"
  shows "mem_wst (s\<lparr>m_store := gdel k (m_store s)\<rparr>) = mem_wst s" (is "mem_wst ?t = _")
proof -
  have inv': "mem_inv ?t" using inv by (rule mem_inv_gdel)
  show ?thesis
  proof (rule ext, rule option_eqI)
    fix w and x :: "string \<times> bytes"
    obtain k' b where x: "x = (k', b)" by fastforce
    show "mem_wst ?t w = Some x \<longleftrightarrow> mem_wst s w = Some x"
      using mem_wst_iff[OF inv', of w k' b] mem_wst_iff[OF inv, of w k' b] unopened
      by (cases "k' = k") (auto simp: x)
  qed
qed

lemma mem_read_at_ok: "read_at_ok buf_ReadAt"
  by (auto simp: read_at_ok_def buf_ReadAt_def)

interpretation mem: store mem_ops mem_cont mem_wst "\<lambda>_. True" "\<lambda>_. True" mem_inv
proof (unfold_locales, goal_cases)
  case (1 s k)
  then show ?case using mem_not_open[of s k] by (auto simp: mem_ops_simps set_gkeys)
next
  case (2 s p)
  then show ?case by (simp add: mem_ops_simps)
next
  case (3 s p ks k)
  then show ?case using mem_not_open[of s k] by (auto simp: mem_ops_simps set_gkeys)
next
  case (4 s k b)
  then show ?case by (auto simp: mem_ops_simps mem_cont_def split: option.splits if_splits)
next
  case (5 s k)
  then show ?case by (auto simp: mem_ops_simps mem_cont_def split: option.splits if_splits)
next
  case (6 s k)
  then show ?case using mem_create_contract[of s k] by (simp add: mem_ops_def)
next
  case (7 s w k b p)
  then have w: "gget (m_store s) k = Some w" "iswrite (m_heap s ! w)" "b = b_bytes (m_heap s ! w)"
    using mem_wst_iff[of s w k b] by simp_all
  have "mem_cont s k = None" using w by (simp add: mem_cont_def)
  then have "(mem_cont s)(k := None) = mem_cont s" by auto
  with w 7(1) show ?case
    by (simp add: mem_ops_simps mem_heap_upd_wst mem_heap_upd_cont)
next
  case (8 s w k b)
  then have w: "gget (m_store s) k = Some w" "iswrite (m_heap s ! w)" "b = b_bytes (m_heap s ! w)"
    using mem_wst_iff[of s w k b] by simp_all
  with 8(1) show ?case
    by (simp add: mem_ops_simps mem_heap_upd_wst mem_heap_upd_cont)
next
  case (9 s k)
  have "mem_inv (s\<lparr>m_store := gdel k (m_store s)\<rparr>)"
    using 9(1) by (rule mem_inv_gdel)
  moreover have "mem_cont (s\<lparr>m_store := gdel k (m_store s)\<rparr>) = (mem_cont s)(k := None)"
    by (auto simp: mem_cont_def fun_eq_iff split: option.splits)
  ultimately show ?case using mem_delete_wst[OF 9(1,3)] by (simp add: mem_ops_simps)
next
  case 10
  then show ?case by (simp add: mem_ops_def mem_read_at_ok)
qed

lemma mem_inv_New [simp]: "mem_inv NewMemory" "mem_cont NewMemory k = None" "mem_wst NewMemory w = None"
  by (simp_all add: NewMemory_def mem_inv_def mem_cont_def mem_wst_def mem_key_of_def)

end
