(* ===== verification/JSON_Store.thy ===== *)
theory JSON_Store
  imports Memory_Store
begin

text \<open>
  src/fragment/json.go: a store that keeps values as JSON text. The encoder and
  the decoder of encoding/json are a parameter \<open>J\<close>; \<open>json_rt J v\<close> says that the value
  \<open>v\<close> survives the trip through its text, which the documentation of the package
  promises for values whose strings are valid UTF-8.
\<close>

record 'v json =
  j_enc :: "'v \<Rightarrow> bytes"
  j_dec :: "bytes \<Rightarrow> 'v result"

definition json_rt :: "'v json \<Rightarrow> 'v \<Rightarrow> bool" where
  "json_rt J v = (j_dec J (j_enc J v) = Inr v)"

definition json_Open :: "('s, 'w, 'm) store_ops_scheme \<Rightarrow> 'v json \<Rightarrow> 's \<Rightarrow> string \<Rightarrow> 'v result \<times> 's" where
  "json_Open S J s key =
     (case op_open S s key of
        (Inl e, s1) \<Rightarrow> (Inl e, s1)
      | (Inr b, s1) \<Rightarrow> (j_dec J b, s1))"

definition json_Save :: "('s, 'w, 'm) store_ops_scheme \<Rightarrow> 'v json \<Rightarrow> 's \<Rightarrow> string \<Rightarrow> 'v \<Rightarrow> error option \<times> 's" where
  "json_Save S J s key v =
     (case op_delete S s key of
        (Some e, s1) \<Rightarrow> (Some e, s1)
      | (None, s1) \<Rightarrow> store_put S s1 key (j_enc J v))"

definition json_Create :: "('s, 'w, 'm) store_ops_scheme \<Rightarrow> 'v json \<Rightarrow> 's \<Rightarrow> string \<Rightarrow> 'v \<Rightarrow> error option \<times> 's" where
  "json_Create S J s key v = json_Save S J s key v"

context store
begin

lemma json_Save_ok:
  assumes "sinv s" and "okkey k" and "\<forall>w b. wst s w \<noteq> Some (k, b)"
  obtains s' where "json_Save S J s k v = (None, s')" and "sinv s'"
    and "cont s' = (cont s)(k \<mapsto> j_enc J v)" and "wst s' = wst s"
proof -
  obtain s1 s2 where "op_delete S s k = (None, s1)" "store_put S s1 k (j_enc J v) = (None, s2)"
      "sinv s2" "cont s2 = (cont s)(k \<mapsto> j_enc J v)" "wst s2 = wst s"
    by (rule delete_put_ok[OF assms, of "j_enc J v"])
  then show thesis by (intro that[of s2]) (simp_all add: json_Save_def)
qed

lemma json_Open_ok:
  assumes "sinv s" and "okkey k" and "cont s k = Some (j_enc J v)" and "json_rt J v"
  obtains s' where "json_Open S J s k = (Inr v, s')" and "sinv s'" and "cont s' = cont s" and "wst s' = wst s"
proof -
  obtain s' where "op_open S s k = (Inr (j_enc J v), s')" "sinv s'" "cont s' = cont s" "wst s' = wst s"
    using open_hit[OF assms(1-3)] by blast
  with assms(4) show thesis by (intro that[of s']) (simp_all add: json_Open_def json_rt_def)
qed

lemma json_Save_Open:
  assumes "sinv s" and "okkey k" and "\<forall>w b. wst s w \<noteq> Some (k, b)" and "json_rt J v"
  shows "fst (json_Save S J s k v) = None \<and> fst (json_Open S J (snd (json_Save S J s k v)) k) = Inr v"
proof -
  obtain s' where s': "json_Save S J s k v = (None, s')" "sinv s'" "cont s' = (cont s)(k \<mapsto> j_enc J v)"
    using json_Save_ok[OF assms(1-3)] by metis
  moreover obtain s'' where "json_Open S J s' k = (Inr v, s'')"
    using json_Open_ok[OF s'(2) assms(2) _ assms(4)] s'(3) by auto
  ultimately show ?thesis by simp
qed

end

end
