(* ===== verification/Hashing.thy ===== *)
theory Hashing
  imports Go_Format
begin

text \<open>
  src/util/hashwriter.go. The hash functions of the standard library are a
  parameter \<open>H\<close>: their code is not part of the repository, and what bendo relies on
  is only that equal bytes have equal hashes. A \<open>hash.Hash\<close> is represented by the
  bytes written to it so far, and \<open>Sum(nil)\<close> by the function of the parameter.
\<close>

record hashes =
  h_md5 :: "bytes \<Rightarrow> bytes"
  h_sha256 :: "bytes \<Rightarrow> bytes"

text \<open>The documented sizes of the two hash values.\<close>

definition hashes_ok :: "hashes \<Rightarrow> bool" where
  "hashes_ok H = ((\<forall>b. length (h_md5 H b) = 16) \<and> (\<forall>b. length (h_sha256 H b) = 32))"

text \<open>A \<open>HashWriter\<close>: which of the two hashes it computes, and what they have received.\<close>

record hash_writer =
  hw_md5 :: "bytes option"
  hw_sha256 :: "bytes option"

definition NewHashWriter :: hash_writer where
  "NewHashWriter = \<lparr>hw_md5 = Some [], hw_sha256 = Some []\<rparr>"

definition NewMD5Writer :: hash_writer where
  "NewMD5Writer = \<lparr>hw_md5 = Some [], hw_sha256 = None\<rparr>"

definition NewHashWriterPlain :: hash_writer where
  "NewHashWriterPlain = \<lparr>hw_md5 = Some [], hw_sha256 = Some []\<rparr>"

text \<open>The \<open>io.MultiWriter\<close> hands a block to the hashes only after the wrapped writer
  has taken all of it; \<open>n\<close> and \<open>err\<close> are the results of that writer.\<close>

definition hw_Write :: "hash_writer \<Rightarrow> bytes \<Rightarrow> nat \<times> error option \<Rightarrow> (nat \<times> error option) \<times> hash_writer" where
  "hw_Write hw p res =
     (let (n, err) = res in
      if err \<noteq> None then ((n, err), hw)
      else if n \<noteq> length p then ((n, Some (IOError ''short write'')), hw)
      else ((n, None), hw\<lparr>hw_md5 := map_option (\<lambda>d. d @ p) (hw_md5 hw),
                          hw_sha256 := map_option (\<lambda>d. d @ p) (hw_sha256 hw)\<rparr>))"

definition CheckMD5 :: "hashes \<Rightarrow> hash_writer \<Rightarrow> bytes \<Rightarrow> bytes \<times> bool" where
  "CheckMD5 H hw goal =
     (let computed = (case hw_md5 hw of None \<Rightarrow> [] | Some d \<Rightarrow> h_md5 H d);
          ok = (length goal = 0 \<or> goal = computed)
      in (computed, ok))"

definition CheckSHA256 :: "hashes \<Rightarrow> hash_writer \<Rightarrow> bytes \<Rightarrow> bytes \<times> bool" where
  "CheckSHA256 H hw goal =
     (let computed = (case hw_sha256 hw of None \<Rightarrow> [] | Some d \<Rightarrow> h_sha256 H d);
          ok = (length goal = 0 \<or> goal = computed)
      in (computed, ok))"

text \<open>\<open>VerifyStreamHash\<close> on a stream that delivers \<open>data\<close> and ends with \<open>err\<close> (None for
  an end of file).\<close>

definition VerifyStreamHash :: "hashes \<Rightarrow> bytes \<times> error option \<Rightarrow> bytes \<Rightarrow> bytes \<Rightarrow> bool \<times> error option" where
  "VerifyStreamHash H r md5 sha256 =
     (if length md5 = 0 \<and> length sha256 = 0 then (True, None)
      else
        (let hw = snd (hw_Write NewHashWriterPlain (fst r) (length (fst r), None));
             result1 = (if 0 < length md5 then snd (CheckMD5 H hw md5) else True);
             result = (if 0 < length sha256 then result1 \<and> snd (CheckSHA256 H hw sha256) else result1)
         in (result, snd r)))"

lemma hw_Write_ok [simp]:
  "hw_Write hw p (length p, None) =
     ((length p, None), hw\<lparr>hw_md5 := map_option (\<lambda>d. d @ p) (hw_md5 hw),
                           hw_sha256 := map_option (\<lambda>d. d @ p) (hw_sha256 hw)\<rparr>)"
  by (simp add: hw_Write_def)

lemma VerifyStreamHash_iff:
  "fst (VerifyStreamHash H (data, err) md5 sha256) \<longleftrightarrow>
     (md5 = [] \<or> md5 = h_md5 H data) \<and> (sha256 = [] \<or> sha256 = h_sha256 H data)"
  by (auto simp: VerifyStreamHash_def CheckMD5_def CheckSHA256_def NewHashWriterPlain_def Let_def)

lemma VerifyStreamHash_err:
  "snd (VerifyStreamHash H (data, err) md5 sha256) = (if md5 = [] \<and> sha256 = [] then None else err)"
  by (simp add: VerifyStreamHash_def Let_def)

end
