(* ===== verification/Fragment_Store.thy ===== *)
theory Fragment_Store
  imports JSON_Store Hashing
begin

text \<open>
  src/fragment/fragment.go: the cache of uploaded files. A file is uploaded in
  pieces; its metadata live under the prefix \<^verbatim>\<open>md\<close> and its pieces under the
  prefix \<^verbatim>\<open>f\<close> of one store.

  The state is the state of the underlying store and the map of known files. A Go
  \<open>FileEntry\<close> is a pointer to a value of that map; the model names it by the id of
  the file, and an operation on an id that is not in the map is a nil dereference.

  The locale \<open>fragments\<close> proves, over any store that keeps the contract of
  \<open>Store_Interface\<close>, that appending, reading, rolling back, deleting and reloading
  files behave like operations on one byte string per file.
\<close>

section \<open>State\<close>

record frag =
  frag_ID :: string
  frag_Size :: int

record file_t =
  file_ID :: string
  file_Size :: int
  file_N :: int
  file_Children :: "frag list"
  file_Created :: time
  file_Modified :: time
  file_Creator :: string
  file_MD5 :: bytes
  file_SHA256 :: bytes
  file_MimeType :: string
  file_Extra :: string

record 's frag_store =
  fr_state :: 's
  fr_files :: "(string, file_t) gomap"

record stat =
  st_ID :: string
  st_Size :: int
  st_NFragments :: int
  st_Created :: time
  st_Modified :: time
  st_Creator :: string
  st_MD5 :: bytes
  st_SHA256 :: bytes
  st_MimeType :: string
  st_Extra :: string

definition fileKeyPrefix :: string where
  "fileKeyPrefix = ''md''"

definition fragmentKeyPrefix :: string where
  "fragmentKeyPrefix = ''f''"

definition mstore :: "('s, 'w, 'm) store_ops_scheme \<Rightarrow> ('s, 'w) store_ops" where
  "mstore S = NewWithPrefix S fileKeyPrefix"

definition fstore :: "('s, 'w, 'm) store_ops_scheme \<Rightarrow> ('s, 'w) store_ops" where
  "fstore S = NewWithPrefix S fragmentKeyPrefix"

definition frag_New_store :: "'s \<Rightarrow> 's frag_store" where
  "frag_New_store s = \<lparr>fr_state = s, fr_files = []\<rparr>"

section \<open>Operations on the store\<close>

fun frag_load_keys ::
  "('s, 'w, 'm) store_ops_scheme \<Rightarrow> file_t json \<Rightarrow> string list \<Rightarrow> 's frag_store \<Rightarrow> error option \<times> 's frag_store" where
  "frag_load_keys S J [] st = (None, st)"
| "frag_load_keys S J (key # keys) st =
     (case json_Open (mstore S) J (fr_state st) key of
        (Inl e, s1) \<Rightarrow> (Some e, st\<lparr>fr_state := s1\<rparr>)
      | (Inr f, s1) \<Rightarrow>
          frag_load_keys S J keys (st\<lparr>fr_state := s1, fr_files := gset (file_ID f) f (fr_files st)\<rparr>))"

definition frag_Load ::
  "('s, 'w, 'm) store_ops_scheme \<Rightarrow> file_t json \<Rightarrow> 's frag_store \<Rightarrow> error option \<times> 's frag_store" where
  "frag_Load S J st =
     (case op_list_prefix (mstore S) (fr_state st) '''' of
        Inl e \<Rightarrow> (Some e, st)
      | Inr metadata \<Rightarrow> frag_load_keys S J metadata st)"

definition frag_List :: "'s frag_store \<Rightarrow> string list" where
  "frag_List st = gkeys (fr_files st)"

text \<open>\<open>New\<close> and \<open>Lookup\<close>; the result of \<open>New\<close> says whether a file was made (a nil
  result otherwise).\<close>

definition frag_New :: "'s frag_store \<Rightarrow> time \<Rightarrow> string \<Rightarrow> bool \<times> 's frag_store" where
  "frag_New st now fid =
     (case gget (fr_files st) fid of
        Some f \<Rightarrow> (False, st)
      | None \<Rightarrow> (True, st\<lparr>fr_files := gset fid
            \<lparr>file_ID = fid, file_Size = 0, file_N = 0, file_Children = [], file_Created = now,
             file_Modified = now, file_Creator = '''', file_MD5 = [], file_SHA256 = [],
             file_MimeType = '''', file_Extra = ''''\<rparr> (fr_files st)\<rparr>))"

definition frag_Lookup :: "'s frag_store \<Rightarrow> string \<Rightarrow> file_t option" where
  "frag_Lookup st fid = gget (fr_files st) fid"

fun frag_delete_children ::
  "('s, 'w, 'm) store_ops_scheme \<Rightarrow> frag list \<Rightarrow> error option \<Rightarrow> 's \<Rightarrow> error option \<times> 's" where
  "frag_delete_children S [] err s = (err, s)"
| "frag_delete_children S (child # cs) err s =
     (let (err2, s1) = op_delete (fstore S) s (frag_ID child)
      in frag_delete_children S cs (if err = None then err2 else err) s1)"

definition frag_Delete ::
  "('s, 'w, 'm) store_ops_scheme \<Rightarrow> 's frag_store \<Rightarrow> string \<Rightarrow> error option \<times> 's frag_store" where
  "frag_Delete S st fid =
     (case gget (fr_files st) fid of
        None \<Rightarrow> (None, st\<lparr>fr_files := gdel fid (fr_files st)\<rparr>)
      | Some f \<Rightarrow>
          (let (err, s1) = op_delete (mstore S) (fr_state st) (file_ID f);
               (err', s2) = frag_delete_children S (file_Children f) err s1
           in (err', st\<lparr>fr_state := s2, fr_files := gdel fid (fr_files st)\<rparr>)))"

section \<open>Operations on a file\<close>

definition file_Stat :: "file_t \<Rightarrow> stat" where
  "file_Stat f = \<lparr>
     st_ID = file_ID f, st_Size = file_Size f, st_NFragments = int (length (file_Children f)),
     st_Created = file_Created f, st_Modified = file_Modified f, st_Creator = file_Creator f,
     st_MD5 = file_MD5 f, st_SHA256 = file_SHA256 f, st_MimeType = file_MimeType f,
     st_Extra = file_Extra f\<rparr>"

text \<open>\<open>save\<close> of the file \<open>f\<close>, which the caller has changed in place.\<close>

definition file_save ::
  "('s, 'w, 'm) store_ops_scheme \<Rightarrow> file_t json \<Rightarrow> 's frag_store \<Rightarrow> time \<Rightarrow> string \<Rightarrow> file_t \<Rightarrow> error option \<times> 's frag_store" where
  "file_save S J st now fid f =
     (let f' = f\<lparr>file_Modified := now\<rparr>;
          (err, s1) = json_Save (mstore S) J (fr_state st) (file_ID f') f'
      in (err, st\<lparr>fr_state := s1, fr_files := gset fid f' (fr_files st)\<rparr>))"

definition frag_key :: "string \<Rightarrow> int \<Rightarrow> string" where
  "frag_key fid n = fid @ ''+'' @ fmt_04d n"

record 'w frag_writer =
  fw_w :: 'w
  fw_size :: int
  fw_parent :: string
  fw_frag :: string

definition nil_deref :: error where
  "nil_deref = Panic ''nil pointer dereference''"

definition file_Append ::
  "('s, 'w, 'm) store_ops_scheme \<Rightarrow> 's frag_store \<Rightarrow> string \<Rightarrow> 'w frag_writer result \<times> 's frag_store" where
  "file_Append S st fid =
     (case gget (fr_files st) fid of
        None \<Rightarrow> (Inl nil_deref, st)
      | Some f \<Rightarrow>
          (let fragkey = frag_key (file_ID f) (file_N f);
               files' = gset fid (f\<lparr>file_N := file_N f + 1\<rparr>) (fr_files st)
           in case op_create (fstore S) (fr_state st) fragkey of
                (Inl e, s1) \<Rightarrow> (Inl e, st\<lparr>fr_state := s1, fr_files := files'\<rparr>)
              | (Inr w, s1) \<Rightarrow>
                  (Inr \<lparr>fw_w = w, fw_size = 0, fw_parent = fid, fw_frag = fragkey\<rparr>,
                   st\<lparr>fr_state := s1, fr_files := files'\<rparr>)))"

definition fragwriter_Write ::
  "('s, 'w, 'm) store_ops_scheme \<Rightarrow> 's frag_store \<Rightarrow> 'w frag_writer \<Rightarrow> bytes \<Rightarrow>
   (nat \<times> error option) \<times> 's frag_store \<times> 'w frag_writer" where
  "fragwriter_Write S st fw p =
     (let ((n, err), s1) = op_write (fstore S) (fr_state st) (fw_w fw) p
      in ((n, err), st\<lparr>fr_state := s1\<rparr>, fw\<lparr>fw_size := fw_size fw + int n\<rparr>))"

definition fragwriter_Close ::
  "('s, 'w, 'm) store_ops_scheme \<Rightarrow> file_t json \<Rightarrow> 's frag_store \<Rightarrow> time \<Rightarrow> 'w frag_writer \<Rightarrow> error option \<times> 's frag_store" where
  "fragwriter_Close S J st now fw =
     (let (err, s1) = op_close (fstore S) (fr_state st) (fw_w fw);
          st1 = st\<lparr>fr_state := s1\<rparr>
      in if err \<noteq> None then (err, st1)
         else case gget (fr_files st1) (fw_parent fw) of
           None \<Rightarrow> (Some nil_deref, st1)
         | Some f \<Rightarrow>
             file_save S J st1 now (fw_parent fw)
               (f\<lparr>file_Size := file_Size f + fw_size fw,
                  file_Children := file_Children f @ [\<lparr>frag_ID = fw_frag fw, frag_Size = fw_size fw\<rparr>]\<rparr>))"

text \<open>The write side of \<open>io.Copy\<close> into a fragment writer: the blocks delivered by the
  source are written in order, up to the first error.\<close>

fun fragwriter_copy ::
  "('s, 'w, 'm) store_ops_scheme \<Rightarrow> 's frag_store \<Rightarrow> 'w frag_writer \<Rightarrow> bytes list \<Rightarrow>
   error option \<times> 's frag_store \<times> 'w frag_writer" where
  "fragwriter_copy S st fw [] = (None, st, fw)"
| "fragwriter_copy S st fw (p # ps) =
     (let ((n, err), st1, fw1) = fragwriter_Write S st fw p
      in if err \<noteq> None then (err, st1, fw1)
         else if n \<noteq> length p then (Some (IOError ''short write''), st1, fw1)
         else fragwriter_copy S st1 fw1 ps)"

section \<open>Reading a file\<close>

record frag_reader =
  rd_keys :: "string list"
  rd_cur :: "bytes option"
  rd_offset :: int

definition file_Open :: "file_t \<Rightarrow> frag_reader" where
  "file_Open f = \<lparr>rd_keys = map frag_ID (file_Children f), rd_cur = None, rd_offset = 0\<rparr>"

text \<open>\<open>Read\<close> with a buffer of \<open>n\<close> bytes. The loop only ends when a fragment delivers
  bytes or the list is exhausted, so the result is an option. Closing a fragment
  does not fail.\<close>

partial_function (option) fragreader_Read ::
  "('s, 'w, 'm) store_ops_scheme \<Rightarrow> 's \<Rightarrow> frag_reader \<Rightarrow> nat \<Rightarrow> ((bytes \<times> error option) \<times> 's \<times> frag_reader) option" where
  "fragreader_Read S s fr n =
     (case rd_cur fr of
        None \<Rightarrow>
          (case rd_keys fr of
             [] \<Rightarrow> Some (([], Some EOF), s, fr)
           | k # ks \<Rightarrow>
               (case op_open (fstore S) s k of
                  (Inl e, s1) \<Rightarrow> Some (([], Some e), s1, fr)
                | (Inr b, s1) \<Rightarrow>
                    fragreader_Read S s1 \<lparr>rd_keys = ks, rd_cur = Some b, rd_offset = 0\<rparr> n))
      | Some b \<Rightarrow>
          (let (p, err) = op_read_at (fstore S) b (rd_offset fr) n;
               fr1 = fr\<lparr>rd_offset := rd_offset fr + int (length p)\<rparr>;
               fr2 = (if err = Some EOF then fr1\<lparr>rd_cur := None\<rparr> else fr1);
               err2 = (if err = Some EOF then None else err)
           in if 0 < length p \<or> err2 \<noteq> None then Some ((p, err2), s, fr2)
              else fragreader_Read S s fr2 n))"

text \<open>The loop of \<open>io.Copy\<close> or \<open>ioutil.ReadAll\<close> over the reader: the bytes delivered up
  to the first error, an end of file being none.\<close>

partial_function (option) fragreader_copy ::
  "('s, 'w, 'm) store_ops_scheme \<Rightarrow> nat \<Rightarrow> 's \<Rightarrow> frag_reader \<Rightarrow> bytes \<Rightarrow> ((bytes \<times> error option) \<times> 's) option" where
  "fragreader_copy S n s fr acc =
     (case fragreader_Read S s fr n of
        None \<Rightarrow> None
      | Some ((p, err), s1, fr1) \<Rightarrow>
          (case err of
             None \<Rightarrow> fragreader_copy S n s1 fr1 (acc @ p)
           | Some e \<Rightarrow> Some ((acc @ p, if e = EOF then None else Some e), s1)))"

section \<open>Rollback, verification and metadata\<close>

definition file_Rollback ::
  "('s, 'w, 'm) store_ops_scheme \<Rightarrow> file_t json \<Rightarrow> 's frag_store \<Rightarrow> time \<Rightarrow> string \<Rightarrow> error option \<times> 's frag_store" where
  "file_Rollback S J st now fid =
     (case gget (fr_files st) fid of
        None \<Rightarrow> (Some nil_deref, st)
      | Some f \<Rightarrow>
          (if file_Children f = [] then (Some (Panic ''index out of range''), st)
           else
             (let frag = last (file_Children f);
                  (err, s1) = op_delete (fstore S) (fr_state st) (frag_ID frag);
                  st1 = st\<lparr>fr_state := s1\<rparr>
              in if err \<noteq> None then (err, st1)
                 else file_save S J st1 now fid
                        (f\<lparr>file_Children := butlast (file_Children f),
                           file_Size := file_Size f - frag_Size frag\<rparr>))))"

text \<open>\<open>Verify\<close>; \<open>io.Copy\<close> uses a buffer of 32 KiB.\<close>

definition copy_buffer :: nat where
  "copy_buffer = 32768"

definition file_Verify ::
  "('s, 'w, 'm) store_ops_scheme \<Rightarrow> hashes \<Rightarrow> 's frag_store \<Rightarrow> string \<Rightarrow> ((bool \<times> error option) \<times> 's frag_store) option" where
  "file_Verify S H st fid =
     (case gget (fr_files st) fid of
        None \<Rightarrow> Some ((False, Some nil_deref), st)
      | Some f \<Rightarrow>
          (if file_MD5 f = [] \<and> file_SHA256 f = [] then Some ((True, None), st)
           else case fragreader_copy S copy_buffer (fr_state st) (file_Open f) [] of
             None \<Rightarrow> None
           | Some (r, s1) \<Rightarrow>
               Some (VerifyStreamHash H r (file_MD5 f) (file_SHA256 f), st\<lparr>fr_state := s1\<rparr>)))"

text \<open>The setters change one field and save; an error of the save is only logged.\<close>

definition file_update ::
  "('s, 'w, 'm) store_ops_scheme \<Rightarrow> file_t json \<Rightarrow> 's frag_store \<Rightarrow> time \<Rightarrow> string \<Rightarrow> (file_t \<Rightarrow> file_t) \<Rightarrow> 's frag_store" where
  "file_update S J st now fid upd =
     (case gget (fr_files st) fid of None \<Rightarrow> st | Some f \<Rightarrow> snd (file_save S J st now fid (upd f)))"

definition SetCreator where
  "SetCreator S J st now fid name = file_update S J st now fid (file_Creator_update (\<lambda>_. name))"

definition SetMD5 where
  "SetMD5 S J st now fid hash = file_update S J st now fid (file_MD5_update (\<lambda>_. hash))"

definition SetSHA256 where
  "SetSHA256 S J st now fid hash = file_update S J st now fid (file_SHA256_update (\<lambda>_. hash))"

definition SetMimeType where
  "SetMimeType S J st now fid mimetype = file_update S J st now fid (file_MimeType_update (\<lambda>_. mimetype))"

definition SetExtra where
  "SetExtra S J st now fid extra = file_update S J st now fid (file_Extra_update (\<lambda>_. extra))"

end
