(* ===== verification/Fragment_Correct.thy ===== *)
theory Fragment_Correct
  imports Fragment_Store
begin

text \<open>
  Correctness of the fragment store: the invariant that ties the metadata of the
  files to the stored pieces, and the effect of every operation on the content of
  the files, over any store that keeps the contract of the interface.
\<close>

section \<open>Keys of fragments\<close>

lemma parse_nat_fmt_04d: "0 \<le> n \<Longrightarrow> parse_nat (fmt_04d n) = Some (nat n)"
  by (simp add: fmt_04d_def parse_nat_zero_pad)

lemma fmt_04d_inj: "0 \<le> n \<Longrightarrow> 0 \<le> m \<Longrightarrow> fmt_04d n = fmt_04d m \<Longrightarrow> n = m"
  using parse_nat_fmt_04d[of n] parse_nat_fmt_04d[of m] by simp

lemma append_sep_inj:
  fixes c :: char
  assumes "a @ c # x = b @ c # y" and "c \<notin> set x" and "c \<notin> set y"
  shows "a = b \<and> x = y"
proof -
  have "length a = length b"
    using last_index_char_append[OF assms(2), of a] last_index_char_append[OF assms(3), of b] assms(1) by simp
  with assms(1) show ?thesis by simp
qed

lemma frag_key_inj:
  assumes "0 \<le> n" and "0 \<le> m" and "frag_key a n = frag_key b m"
  shows "a = b \<and> n = m"
proof -
  have plus: "(of_char (CHR ''+'') :: nat) < 48" by simp
  have "a = b \<and> fmt_04d n = fmt_04d m"
    using assms(3) append_sep_inj[of a "CHR ''+''" "fmt_04d n" b "fmt_04d m"]
      fmt_04d_nonneg_chars[OF assms(1)] fmt_04d_nonneg_chars[OF assms(2)] plus
    by (simp add: frag_key_def)
  with fmt_04d_inj[OF assms(1,2)] show ?thesis by simp
qed

section \<open>The invariant\<close>

definition file_wf :: "('s \<Rightarrow> string \<Rightarrow> bytes option) \<Rightarrow> (string \<Rightarrow> bool) \<Rightarrow> 's \<Rightarrow> string \<Rightarrow> file_t \<Rightarrow> bool" where
  "file_wf cont okkey s fid f =
     (file_ID f = fid \<and> 0 \<le> file_N f \<and> distinct (map frag_ID (file_Children f)) \<and>
      (\<forall>c \<in> set (file_Children f).
         (\<exists>n. 0 \<le> n \<and> n < file_N f \<and> frag_ID c = frag_key fid n) \<and>
         (\<exists>b. cont s (''f'' @ frag_ID c) = Some b \<and> frag_Size c = int (length b))) \<and>
      file_Size f = sum_list (map frag_Size (file_Children f)) \<and>
      okkey (''md'' @ fid) \<and> (\<forall>n. okkey (''f'' @ frag_key fid n)))"

definition frag_inv ::
  "('s \<Rightarrow> string \<Rightarrow> bytes option) \<Rightarrow> ('s \<Rightarrow> 'w \<Rightarrow> (string \<times> bytes) option) \<Rightarrow> (string \<Rightarrow> bool) \<Rightarrow> ('s \<Rightarrow> bool) \<Rightarrow>
   's frag_store \<Rightarrow> bool" where
  "frag_inv cont wst okkey sinv st =
     (sinv (fr_state st) \<and> gmap_ok (fr_files st) \<and>
      (\<forall>fid f. gget (fr_files st) fid = Some f \<longrightarrow> file_wf cont okkey (fr_state st) fid f) \<and>
      (\<forall>k. cont (fr_state st) (''f'' @ k) \<noteq> None \<longrightarrow>
         (\<exists>fid f. gget (fr_files st) fid = Some f \<and> k \<in> frag_ID ` set (file_Children f))) \<and>
      (\<forall>w k b. wst (fr_state st) w = Some (''f'' @ k, b) \<longrightarrow>
         (\<exists>fid f n. gget (fr_files st) fid = Some f \<and> 0 \<le> n \<and> n < file_N f \<and> k = frag_key fid n \<and>
            k \<notin> frag_ID ` set (file_Children f))) \<and>
      (\<forall>w w' k b b'. wst (fr_state st) w = Some (''f'' @ k, b) \<longrightarrow>
         wst (fr_state st) w' = Some (''f'' @ k, b') \<longrightarrow> w = w') \<and>
      (\<forall>w k b. wst (fr_state st) w \<noteq> Some (''md'' @ k, b)))"

text \<open>The content of a file: the bytes of each of its fragments, in order.\<close>

definition frag_content :: "('s \<Rightarrow> string \<Rightarrow> bytes option) \<Rightarrow> 's frag_store \<Rightarrow> string \<Rightarrow> bytes list option" where
  "frag_content cont st fid =
     (case gget (fr_files st) fid of
        None \<Rightarrow> None
      | Some f \<Rightarrow> Some (map (\<lambda>c. the (cont (fr_state st) (''f'' @ frag_ID c))) (file_Children f)))"

text \<open>A writer on a fragment that has received the bytes \<open>b\<close>.\<close>

definition fw_ok :: "('s \<Rightarrow> 'w \<Rightarrow> (string \<times> bytes) option) \<Rightarrow> 's frag_store \<Rightarrow> 'w frag_writer \<Rightarrow> bytes \<Rightarrow> bool" where
  "fw_ok wst st fw b =
     (wst (fr_state st) (fw_w fw) = Some (''f'' @ fw_frag fw, b) \<and> fw_size fw = int (length b) \<and>
      (\<exists>f n. gget (fr_files st) (fw_parent fw) = Some f \<and> 0 \<le> n \<and> n < file_N f \<and>
             fw_frag fw = frag_key (fw_parent fw) n \<and> fw_frag fw \<notin> frag_ID ` set (file_Children f)))"

lemma frag_invD:
  assumes "frag_inv cont wst okkey sinv st"
  shows "sinv (fr_state st)" and "gmap_ok (fr_files st)"
    and "gget (fr_files st) fid = Some f \<Longrightarrow> file_wf cont okkey (fr_state st) fid f"
    and "cont (fr_state st) (''f'' @ k) \<noteq> None \<Longrightarrow>
         \<exists>fid f. gget (fr_files st) fid = Some f \<and> k \<in> frag_ID ` set (file_Children f)"
    and "wst (fr_state st) w = Some (''f'' @ k, b) \<Longrightarrow>
         \<exists>fid f n. gget (fr_files st) fid = Some f \<and> 0 \<le> n \<and> n < file_N f \<and> k = frag_key fid n \<and>
            k \<notin> frag_ID ` set (file_Children f)"
    and "wst (fr_state st) w = Some (''f'' @ k, b) \<Longrightarrow> wst (fr_state st) w' = Some (''f'' @ k, b') \<Longrightarrow> w = w'"
    and "wst (fr_state st) w \<noteq> Some (''md'' @ k, b)"
  using assms unfolding frag_inv_def by blast+

text \<open>A fragment key that no file has handed out yet is neither stored nor being written.\<close>

lemma frag_key_of_child:
  assumes inv: "frag_inv cont wst okkey sinv st" and f: "gget (fr_files st) fid = Some f"
    and c: "c \<in> set (file_Children f)"
  shows "\<exists>n. 0 \<le> n \<and> n < file_N f \<and> frag_ID c = frag_key fid n"
  using frag_invD(3)[OF inv f] c by (auto simp: file_wf_def)

lemma frag_stored_owner:
  assumes inv: "frag_inv cont wst okkey sinv st" and f: "gget (fr_files st) fid = Some f" and n: "0 \<le> n"
    and stored: "cont (fr_state st) (''f'' @ frag_key fid n) \<noteq> None"
  shows "frag_key fid n \<in> frag_ID ` set (file_Children f)" and "n < file_N f"
proof -
  obtain fid' f' where f': "gget (fr_files st) fid' = Some f'" "frag_key fid n \<in> frag_ID ` set (file_Children f')"
    using frag_invD(4)[OF inv stored] by blast
  then obtain c where c: "c \<in> set (file_Children f')" "frag_key fid n = frag_ID c" by blast
  then obtain m where m: "0 \<le> m" "m < file_N f'" "frag_key fid n = frag_key fid' m"
    using frag_key_of_child[OF inv f'(1) c(1)] by auto
  from frag_key_inj[OF n m(1,3)] have eq: "fid' = fid" "m = n" by simp_all
  with f f' show "frag_key fid n \<in> frag_ID ` set (file_Children f)" by simp
  show "n < file_N f" using eq f f'(1) m(2) by simp
qed

lemma frag_fresh:
  assumes inv: "frag_inv cont wst okkey sinv st" and f: "gget (fr_files st) fid = Some f"
  shows "cont (fr_state st) (''f'' @ frag_key fid (file_N f)) = None"
    and "wst (fr_state st) w \<noteq> Some (''f'' @ frag_key fid (file_N f), b)"
proof -
  have n: "0 \<le> file_N f" using frag_invD(3)[OF inv f] by (simp add: file_wf_def)
  show "cont (fr_state st) (''f'' @ frag_key fid (file_N f)) = None"
    using frag_stored_owner(2)[OF inv f n] by (cases "cont (fr_state st) (''f'' @ frag_key fid (file_N f))") auto
  show "wst (fr_state st) w \<noteq> Some (''f'' @ frag_key fid (file_N f), b)"
  proof
    assume "wst (fr_state st) w = Some (''f'' @ frag_key fid (file_N f), b)"
    from frag_invD(5)[OF inv this] obtain fid' f' m
      where m: "gget (fr_files st) fid' = Some f'" "0 \<le> m" "m < file_N f'" "frag_key fid (file_N f) = frag_key fid' m"
      by blast
    from frag_key_inj[OF n m(2,4)] m(1,3) f show False by simp
  qed
qed

lemma fw_unstored:
  assumes inv: "frag_inv cont wst okkey sinv st" and fw: "fw_ok wst st fw b"
  shows "cont (fr_state st) (''f'' @ fw_frag fw) = None"
proof (rule ccontr)
  obtain f n where f: "gget (fr_files st) (fw_parent fw) = Some f" "0 \<le> n"
      "fw_frag fw = frag_key (fw_parent fw) n" "fw_frag fw \<notin> frag_ID ` set (file_Children f)"
    using fw by (auto simp: fw_ok_def)
  assume "cont (fr_state st) (''f'' @ fw_frag fw) \<noteq> None"
  with frag_stored_owner(1)[OF inv f(1,2)] f show False by simp
qed

text \<open>Two files never share a fragment.\<close>

lemma frag_children_disjoint:
  assumes inv: "frag_inv cont wst okkey sinv st"
    and f: "gget (fr_files st) fid = Some f" and c: "c \<in> set (file_Children f)"
    and g: "gget (fr_files st) gid = Some g" and d: "d \<in> set (file_Children g)"
    and eq: "frag_ID c = frag_ID d"
  shows "fid = gid"
proof -
  obtain n where n: "0 \<le> n" "frag_ID c = frag_key fid n" using frag_key_of_child[OF inv f c] by blast
  obtain m where m: "0 \<le> m" "frag_ID d = frag_key gid m" using frag_key_of_child[OF inv g d] by blast
  from n(2) m(2) eq have "frag_key fid n = frag_key gid m" by simp
  from frag_key_inj[OF n(1) m(1) this] show ?thesis by simp
qed

lemma file_wf_cong:
  assumes "file_wf cont okkey s fid f"
    and "\<And>c. c \<in> set (file_Children f) \<Longrightarrow> cont s' (''f'' @ frag_ID c) = cont s (''f'' @ frag_ID c)"
  shows "file_wf cont okkey s' fid f"
  using assms by (auto simp: file_wf_def)

lemma file_wf_modified [simp]:
  "file_wf cont okkey s fid (f\<lparr>file_Modified := t\<rparr>) = file_wf cont okkey s fid f"
  by (simp add: file_wf_def)

lemma file_wf_step: "file_wf cont okkey s fid f \<Longrightarrow> file_wf cont okkey s fid (f\<lparr>file_N := file_N f + 1\<rparr>)"
  unfolding file_wf_def by force

lemma file_wf_cong_state: "cont s' = cont s \<Longrightarrow> file_wf cont okkey s' = file_wf cont okkey s"
  by (simp add: file_wf_def fun_eq_iff)

text \<open>One rule for every operation that replaces a file: it may only touch the fragments
  of that file, and must leave none of them without an owner.\<close>

lemma frag_inv_put:
  assumes inv: "frag_inv cont wst okkey sinv st" and s': "sinv s'"
    and wf: "file_wf cont okkey s' fid f'"
    and keep: "\<And>k. (\<And>n. 0 \<le> n \<Longrightarrow> k \<noteq> frag_key fid n) \<Longrightarrow> cont s' (''f'' @ k) = cont (fr_state st) (''f'' @ k)"
    and own: "\<And>n. 0 \<le> n \<Longrightarrow> cont s' (''f'' @ frag_key fid n) \<noteq> None \<Longrightarrow>
                frag_key fid n \<in> frag_ID ` set (file_Children f')"
    and writers: "\<And>w k b. wst s' w = Some (''f'' @ k, b) \<Longrightarrow>
        (\<exists>n. 0 \<le> n \<and> n < file_N f' \<and> k = frag_key fid n \<and> k \<notin> frag_ID ` set (file_Children f')) \<or>
        (\<exists>b'. wst (fr_state st) w = Some (''f'' @ k, b')) \<and> (\<forall>n. 0 \<le> n \<longrightarrow> k \<noteq> frag_key fid n)"
    and uniq: "\<And>w w' k b b'. wst s' w = Some (''f'' @ k, b) \<Longrightarrow> wst s' w' = Some (''f'' @ k, b') \<Longrightarrow> w = w'"
    and nomd: "\<And>w k b. wst s' w \<noteq> Some (''md'' @ k, b)"
  shows "frag_inv cont wst okkey sinv (st\<lparr>fr_state := s', fr_files := gset fid f' (fr_files st)\<rparr>)"
    (is "frag_inv cont wst okkey sinv ?st'")
proof -
  have A: "file_wf cont okkey (fr_state ?st') gid g" if g: "gget (fr_files ?st') gid = Some g" for gid g
  proof (cases "gid = fid")
    case True
    with g wf show ?thesis by simp
  next
    case False
    with g have g': "gget (fr_files st) gid = Some g" by simp
    have "file_wf cont okkey s' gid g"
    proof (rule file_wf_cong[OF frag_invD(3)[OF inv g']])
      fix c assume "c \<in> set (file_Children g)"
      from frag_key_of_child[OF inv g' this] obtain m where m: "0 \<le> m" "frag_ID c = frag_key gid m" by blast
      show "cont s' (''f'' @ frag_ID c) = cont (fr_state st) (''f'' @ frag_ID c)"
        using keep[of "frag_ID c"] frag_key_inj[OF m(1)] m(2) False by metis
    qed
    then show ?thesis by simp
  qed
  have B: "\<exists>gid g. gget (fr_files ?st') gid = Some g \<and> k \<in> frag_ID ` set (file_Children g)"
    if k: "cont s' (''f'' @ k) \<noteq> None" for k
  proof (cases "\<exists>n. 0 \<le> n \<and> k = frag_key fid n")
    case True
    with own k have "k \<in> frag_ID ` set (file_Children f')" by blast
    then show ?thesis by (intro exI[of _ fid] exI[of _ f']) simp
  next
    case False
    with keep[of k] k have "cont (fr_state st) (''f'' @ k) \<noteq> None" by metis
    from frag_invD(4)[OF inv this] obtain gid g
      where g: "gget (fr_files st) gid = Some g" "k \<in> frag_ID ` set (file_Children g)" by blast
    with frag_key_of_child[OF inv g(1)] False have "gid \<noteq> fid" by blast
    with g show ?thesis by (intro exI[of _ gid] exI[of _ g]) simp
  qed
  have C: "\<exists>gid g n. gget (fr_files ?st') gid = Some g \<and> 0 \<le> n \<and> n < file_N g \<and> k = frag_key gid n \<and>
            k \<notin> frag_ID ` set (file_Children g)" if w: "wst s' w = Some (''f'' @ k, b)" for w k b
    using writers[OF w]
  proof (elim disjE exE conjE)
    fix n assume "0 \<le> n" "n < file_N f'" "k = frag_key fid n" "k \<notin> frag_ID ` set (file_Children f')"
    then show ?thesis by (intro exI[of _ fid] exI[of _ f'] exI[of _ n]) simp
  next
    fix b' assume "wst (fr_state st) w = Some (''f'' @ k, b')" and other: "\<forall>n. 0 \<le> n \<longrightarrow> k \<noteq> frag_key fid n"
    from frag_invD(5)[OF inv this(1)] obtain gid g n where g: "gget (fr_files st) gid = Some g" "0 \<le> n" "n < file_N g"
      "k = frag_key gid n" "k \<notin> frag_ID ` set (file_Children g)" by blast
    with other have "gid \<noteq> fid" by blast
    with g show ?thesis by (intro exI[of _ gid] exI[of _ g] exI[of _ n]) simp
  qed
  have st: "fr_state ?st' = s'" by simp
  show ?thesis
    unfolding frag_inv_def
  proof (intro conjI allI impI)
    show "sinv (fr_state ?st')" using s' by simp
    show "gmap_ok (fr_files ?st')" using frag_invD(2)[OF inv] by simp
    show "gget (fr_files ?st') gid = Some g \<Longrightarrow> file_wf cont okkey (fr_state ?st') gid g" for gid g by (rule A)
  qed (unfold st, erule B, erule C, erule (1) uniq, rule nomd)
qed

text \<open>An open writer belongs to the file or to another one.\<close>

lemma frag_old_writer:
  assumes inv: "frag_inv cont wst okkey sinv st" and f: "gget (fr_files st) fid = Some f"
    and w: "wst (fr_state st) w = Some (''f'' @ k, b)"
  shows "(\<exists>n. 0 \<le> n \<and> n < file_N f \<and> k = frag_key fid n \<and> k \<notin> frag_ID ` set (file_Children f)) \<or>
         (\<exists>b'. wst (fr_state st) w = Some (''f'' @ k, b')) \<and> (\<forall>n. 0 \<le> n \<longrightarrow> k \<noteq> frag_key fid n)"
proof -
  obtain gid g n where g: "gget (fr_files st) gid = Some g" "0 \<le> n" "n < file_N g"
      "k = frag_key gid n" "k \<notin> frag_ID ` set (file_Children g)"
    using frag_invD(5)[OF inv w] by blast
  show ?thesis
  proof (cases "gid = fid")
    case True
    with g f show ?thesis by auto
  next
    case False
    then have "k \<noteq> frag_key fid m" if "0 \<le> m" for m using frag_key_inj[OF g(2) that, of gid fid] g(4) by metis
    with w show ?thesis by blast
  qed
qed

lemma frag_no_writer:
  assumes inv: "frag_inv cont wst okkey sinv st" and f: "gget (fr_files st) fid = Some f"
    and c: "c \<in> set (file_Children f)"
  shows "wst (fr_state st) w \<noteq> Some (''f'' @ frag_ID c, b)"
  using frag_old_writer[OF inv f, of w "frag_ID c" b] frag_key_of_child[OF inv f c] c by blast

lemma frag_unowned:
  assumes inv: "frag_inv cont wst okkey sinv st" and new: "gget (fr_files st) fid = None" and n: "0 \<le> n"
  shows "cont (fr_state st) (''f'' @ frag_key fid n) = None"
    and "wst (fr_state st) w \<noteq> Some (''f'' @ frag_key fid n, b)"
proof -
  show "cont (fr_state st) (''f'' @ frag_key fid n) = None"
  proof (rule ccontr)
    assume "cont (fr_state st) (''f'' @ frag_key fid n) \<noteq> None"
    from frag_invD(4)[OF inv this] obtain gid g c
      where g: "gget (fr_files st) gid = Some g" "c \<in> set (file_Children g)" "frag_key fid n = frag_ID c" by blast
    from frag_key_of_child[OF inv g(1,2)] obtain m where "0 \<le> m" "frag_key fid n = frag_key gid m" using g(3) by auto
    from frag_key_inj[OF n this] g(1) new show False by simp
  qed
  show "wst (fr_state st) w \<noteq> Some (''f'' @ frag_key fid n, b)"
  proof
    assume "wst (fr_state st) w = Some (''f'' @ frag_key fid n, b)"
    from frag_invD(5)[OF inv this] obtain gid g m
      where g: "gget (fr_files st) gid = Some g" "0 \<le> m" "frag_key fid n = frag_key gid m" by blast
    from frag_key_inj[OF n g(2,3)] g(1) new show False by simp
  qed
qed

text \<open>The rule above when neither the writers nor the stored fragments change.\<close>

lemma frag_inv_save:
  assumes inv: "frag_inv cont wst okkey sinv st" and f: "gget (fr_files st) fid = Some f"
    and s': "sinv s'" and wf: "file_wf cont okkey s' fid f'"
    and same: "file_Children f' = file_Children f" "file_N f' = file_N f"
    and keep: "\<And>k. cont s' (''f'' @ k) = cont (fr_state st) (''f'' @ k)" and wst: "wst s' = wst (fr_state st)"
  shows "frag_inv cont wst okkey sinv (st\<lparr>fr_state := s', fr_files := gset fid f' (fr_files st)\<rparr>)"
proof (rule frag_inv_put[OF inv s' wf keep], goal_cases)
  case (1 n)
  then show ?case unfolding keep same using frag_stored_owner(1)[OF inv f] by blast
next
  case (2 w k b)
  then show ?case unfolding same wst by (rule frag_old_writer[OF inv f])
next
  case (3 w w' k b b')
  then show ?case unfolding wst by (rule frag_invD(6)[OF inv])
next
  case (4 w k b)
  show ?case unfolding wst by (rule frag_invD(7)[OF inv])
qed

lemma frag_inv_state:
  assumes inv: "frag_inv cont wst okkey sinv st" and s': "sinv s'" and cont: "cont s' = cont (fr_state st)"
    and old: "\<And>w k b. wst s' w = Some (k, b) \<Longrightarrow> \<exists>b'. wst (fr_state st) w = Some (k, b')"
  shows "frag_inv cont wst okkey sinv (st\<lparr>fr_state := s'\<rparr>)" (is "frag_inv cont wst okkey sinv ?st'")
proof -
  have st: "fr_state ?st' = s'" "fr_files ?st' = fr_files st" by simp_all
  show ?thesis
    unfolding frag_inv_def st cont file_wf_cong_state[OF cont]
  proof (intro conjI allI impI, goal_cases)
    case (5 w k b)
    from old[OF this] obtain b' where "wst (fr_state st) w = Some (''f'' @ k, b')" ..
    then show ?case by (rule frag_invD(5)[OF inv])
  next
    case (6 w w' k b b')
    from old[OF 6(1)] old[OF 6(2)] show ?case using frag_invD(6)[OF inv] by blast
  next
    case (7 w k b)
    show ?case using old[of w "''md'' @ k" b] frag_invD(7)[OF inv, of w k] by blast
  qed (use s' frag_invD(2,3,4)[OF inv] in blast)+
qed

lemma frag_content_put:
  assumes inv: "frag_inv cont wst okkey sinv st"
    and keep: "\<And>k. (\<And>n. 0 \<le> n \<Longrightarrow> k \<noteq> frag_key fid n) \<Longrightarrow> cont s' (''f'' @ k) = cont (fr_state st) (''f'' @ k)"
  shows "frag_content cont (st\<lparr>fr_state := s', fr_files := gset fid f' (fr_files st)\<rparr>) =
         (frag_content cont st)(fid \<mapsto> map (\<lambda>c. the (cont s' (''f'' @ frag_ID c))) (file_Children f'))"
    (is "frag_content cont ?st' = ?r")
proof
  fix gid
  show "frag_content cont ?st' gid = ?r gid"
  proof (cases "gid = fid")
    case True
    then show ?thesis by (simp add: frag_content_def)
  next
    case False
    have "cont s' (''f'' @ frag_ID c) = cont (fr_state st) (''f'' @ frag_ID c)"
      if g: "gget (fr_files st) gid = Some g" and c: "c \<in> set (file_Children g)" for g c
    proof (rule keep)
      fix n :: int assume "0 \<le> n"
      obtain m where m: "0 \<le> m" "frag_ID c = frag_key gid m" using frag_key_of_child[OF inv g c] by blast
      show "frag_ID c \<noteq> frag_key fid n" using frag_key_inj[OF m(1) \<open>0 \<le> n\<close>, of gid fid] m(2) False by metis
    qed
    with False show ?thesis by (auto simp: frag_content_def split: option.splits)
  qed
qed

text \<open>The metadata of every file that has been appended to are in the store; a file that has
  only been made need not be.\<close>

definition frag_saved :: "('s \<Rightarrow> string \<Rightarrow> bytes option) \<Rightarrow> file_t json \<Rightarrow> 's frag_store \<Rightarrow> bool" where
  "frag_saved cont J st = (\<forall>k.
     (gget (fr_files st) k = None \<longrightarrow> cont (fr_state st) (''md'' @ k) = None) \<and>
     (\<forall>f. gget (fr_files st) k = Some f \<longrightarrow> cont (fr_state st) (''md'' @ k) = Some (j_enc J f) \<or>
            file_N f = 0 \<and> cont (fr_state st) (''md'' @ k) = None))"

definition frag_put_saved ::
  "('s \<Rightarrow> string \<Rightarrow> bytes option) \<Rightarrow> file_t json \<Rightarrow> 's frag_store \<Rightarrow> string \<Rightarrow> 's frag_store \<Rightarrow> bool" where
  "frag_put_saved cont J st fid st' = (\<exists>f'. gget (fr_files st') = (gget (fr_files st))(fid \<mapsto> f') \<and>
     (\<forall>k. cont (fr_state st') (''md'' @ k) = (if k = fid then Some (j_enc J f') else cont (fr_state st) (''md'' @ k))))"

lemma frag_saved_put: "frag_saved cont J st \<Longrightarrow> frag_put_saved cont J st fid st' \<Longrightarrow> frag_saved cont J st'"
  unfolding frag_saved_def frag_put_saved_def by (metis fun_upd_apply option.distinct(1) option.inject)

section \<open>Sequences of operations and their specification\<close>

text \<open>The operations as the server uses them on a file it looks up by name: an append
  writes the blocks of the request and closes the fragment. The specification is
  one list of byte strings for each file.\<close>

datatype frag_op = OpNew string | OpAppend string "bytes list" | OpRollback string | OpDelete string
  | OpSetCreator string string | OpSetMD5 string bytes | OpSetSHA256 string bytes
  | OpSetMimeType string string | OpSetExtra string string

fun frag_step ::
  "('s, 'w, 'm) store_ops_scheme \<Rightarrow> file_t json \<Rightarrow> time \<Rightarrow> frag_op \<Rightarrow> 's frag_store \<Rightarrow> 's frag_store" where
  "frag_step S J now (OpNew fid) st = snd (frag_New st now fid)"
| "frag_step S J now (OpAppend fid ps) st =
     (case frag_Lookup st fid of
        None \<Rightarrow> st
      | Some f \<Rightarrow>
          (case file_Append S st fid of
             (Inl e, st1) \<Rightarrow> st1
           | (Inr fw, st1) \<Rightarrow>
               (let (err, st2, fw2) = fragwriter_copy S st1 fw ps
                in snd (fragwriter_Close S J st2 now fw2))))"
| "frag_step S J now (OpRollback fid) st = snd (file_Rollback S J st now fid)"
| "frag_step S J now (OpDelete fid) st = snd (frag_Delete S st fid)"
| "frag_step S J now (OpSetCreator fid name) st = SetCreator S J st now fid name"
| "frag_step S J now (OpSetMD5 fid hash) st = SetMD5 S J st now fid hash"
| "frag_step S J now (OpSetSHA256 fid hash) st = SetSHA256 S J st now fid hash"
| "frag_step S J now (OpSetMimeType fid mimetype) st = SetMimeType S J st now fid mimetype"
| "frag_step S J now (OpSetExtra fid extra) st = SetExtra S J st now fid extra"

definition frag_run ::
  "('s, 'w, 'm) store_ops_scheme \<Rightarrow> file_t json \<Rightarrow> (time \<times> frag_op) list \<Rightarrow> 's frag_store \<Rightarrow> 's frag_store" where
  "frag_run S J cs st = fold (\<lambda>c st. frag_step S J (fst c) (snd c) st) cs st"

fun frag_spec :: "frag_op \<Rightarrow> (string \<Rightarrow> bytes list option) \<Rightarrow> (string \<Rightarrow> bytes list option)" where
  "frag_spec (OpNew fid) m = (if m fid = None then m(fid \<mapsto> []) else m)"
| "frag_spec (OpAppend fid ps) m = (case m fid of None \<Rightarrow> m | Some bs \<Rightarrow> m(fid \<mapsto> bs @ [concat ps]))"
| "frag_spec (OpRollback fid) m = (case m fid of None \<Rightarrow> m | Some bs \<Rightarrow> m(fid \<mapsto> butlast bs))"
| "frag_spec (OpDelete fid) m = m(fid := None)"
| "frag_spec _ m = m"

definition frag_op_ok :: "(string \<Rightarrow> bool) \<Rightarrow> frag_op \<Rightarrow> bool" where
  "frag_op_ok okkey c = (\<forall>fid. c = OpNew fid \<longrightarrow> okkey (''md'' @ fid) \<and> (\<forall>n. okkey (''f'' @ frag_key fid n)))"

section \<open>Operations over a store that keeps its contract\<close>

locale fragments = store S cont wst okkey okpre sinv
  for S :: "('s, 'w) store_ops" and cont wst okkey okpre sinv +
  fixes J :: "file_t json"
begin

abbreviation inv :: "'s frag_store \<Rightarrow> bool" where
  "inv \<equiv> frag_inv cont wst okkey sinv"

abbreviation content :: "'s frag_store \<Rightarrow> string \<Rightarrow> bytes list option" where
  "content \<equiv> frag_content cont"

lemma fstore_simps:
  "op_open (fstore S) s k = op_open S s (''f'' @ k)" "op_create (fstore S) s k = op_create S s (''f'' @ k)"
  "op_delete (fstore S) s k = op_delete S s (''f'' @ k)" "op_write (fstore S) = op_write S"
  "op_close (fstore S) = op_close S" "op_read_at (fstore S) = op_read_at S"
  by (simp_all add: fstore_def fragmentKeyPrefix_def NewWithPrefix_def)

lemma mstore_simps:
  "op_open (mstore S) s k = op_open S s (''md'' @ k)" "op_delete (mstore S) s k = op_delete S s (''md'' @ k)"
  "op_list_prefix (mstore S) s k = prefix_ListPrefix S ''md'' s k"
  by (simp_all add: mstore_def fileKeyPrefix_def NewWithPrefix_def)

lemma mstore_json:
  "json_Save (mstore S) J s k v = json_Save S J s (''md'' @ k) v"
  "json_Open (mstore S) J s k = json_Open S J s (''md'' @ k)"
proof -
  have "store_put (mstore S) s k b = store_put S s (''md'' @ k) b" for s b
    unfolding store_put_def mstore_def fileKeyPrefix_def NewWithPrefix_def store_ops.simps ..
  then show "json_Save (mstore S) J s k v = json_Save S J s (''md'' @ k) v"
    by (simp add: json_Save_def mstore_simps split: prod.splits option.splits)
qed (simp add: json_Open_def mstore_simps)

lemma file_save_ok:
  assumes "sinv (fr_state st)" and "okkey (''md'' @ fid)" and "\<forall>w k b. wst (fr_state st) w \<noteq> Some (''md'' @ k, b)"
    and "file_ID f = fid"
  obtains s' where
    "file_save S J st now fid f =
       (None, st\<lparr>fr_state := s', fr_files := gset fid (f\<lparr>file_Modified := now\<rparr>) (fr_files st)\<rparr>)"
    and "sinv s'" and "cont s' = (cont (fr_state st))(''md'' @ fid \<mapsto> j_enc J (f\<lparr>file_Modified := now\<rparr>))"
    and "wst s' = wst (fr_state st)"
proof -
  obtain s' where "json_Save S J (fr_state st) (''md'' @ fid) (f\<lparr>file_Modified := now\<rparr>) = (None, s')"
      "sinv s'" "cont s' = (cont (fr_state st))(''md'' @ fid \<mapsto> j_enc J (f\<lparr>file_Modified := now\<rparr>))"
      "wst s' = wst (fr_state st)"
    using json_Save_ok[OF assms(1,2)] assms(3) by metis
  with assms(4) show thesis by (intro that[of s']) (simp_all add: file_save_def mstore_json)
qed

lemma New_ok:
  assumes inv: "inv st" and new: "gget (fr_files st) fid = None"
    and ok: "okkey (''md'' @ fid)" "\<forall>n. okkey (''f'' @ frag_key fid n)"
  shows "fst (frag_New st now fid)" and "inv (snd (frag_New st now fid))"
    and "content (snd (frag_New st now fid)) = (content st)(fid \<mapsto> [])"
proof -
  show "fst (frag_New st now fid)" using new by (simp add: frag_New_def)
  show "content (snd (frag_New st now fid)) = (content st)(fid \<mapsto> [])"
    using new by (auto simp: frag_New_def frag_content_def fun_eq_iff split: option.splits)
  define f' where "f' = \<lparr>file_ID = fid, file_Size = 0, file_N = 0, file_Children = [], file_Created = now,
             file_Modified = now, file_Creator = '''', file_MD5 = [], file_SHA256 = [],
             file_MimeType = '''', file_Extra = ''''\<rparr>"
  have "file_wf cont okkey (fr_state st) fid f'" using ok by (simp add: file_wf_def f'_def)
  from frag_inv_put[OF inv frag_invD(1)[OF inv] this refl]
  have "inv (st\<lparr>fr_state := fr_state st, fr_files := gset fid f' (fr_files st)\<rparr>)"
    using frag_unowned[OF inv new] frag_invD(6,7)[OF inv] by metis
  moreover have "st\<lparr>fr_state := fr_state st, fr_files := gset fid f' (fr_files st)\<rparr> = snd (frag_New st now fid)"
    using new by (cases st) (simp add: frag_New_def f'_def)
  ultimately show "inv (snd (frag_New st now fid))" by simp
qed

lemma Append_ok:
  assumes inv: "inv st" and f: "gget (fr_files st) fid = Some f"
  obtains fw st' where "file_Append S st fid = (Inr fw, st')" and "inv st'" and "content st' = content st"
    and "fw_ok wst st' fw []" and "fw_parent fw = fid"
    and "fr_files st' = gset fid (f\<lparr>file_N := file_N f + 1\<rparr>) (fr_files st)"
    and "cont (fr_state st') = cont (fr_state st)" and "wst (fr_state st) (fw_w fw) = None"
    and "wst (fr_state st') = (wst (fr_state st))(fw_w fw \<mapsto> (''f'' @ fw_frag fw, []))"
proof -
  let ?s = "fr_state st" and ?key = "frag_key fid (file_N f)" and ?f = "f\<lparr>file_N := file_N f + 1\<rparr>"
  note wf = frag_invD(3)[OF inv f]
  have ok: "okkey (''f'' @ ?key)" and ID: "file_ID f = fid" and N: "0 \<le> file_N f" using wf by (simp_all add: file_wf_def)
  obtain w s1 where w: "op_create S ?s (''f'' @ ?key) = (Inr w, s1)" "sinv s1" "cont s1 = cont ?s"
      "wst ?s w = None" "wst s1 = (wst ?s)(w \<mapsto> (''f'' @ ?key, []))"
    using create_ok[OF frag_invD(1)[OF inv] ok frag_fresh(1)[OF inv f]] frag_fresh(2)[OF inv f] by metis
  let ?st' = "st\<lparr>fr_state := s1, fr_files := gset fid ?f (fr_files st)\<rparr>"
  let ?fw = "\<lparr>fw_w = w, fw_size = 0, fw_parent = fid, fw_frag = ?key\<rparr>"
  have unchild: "?key \<notin> frag_ID ` set (file_Children f)"
  proof
    assume "?key \<in> frag_ID ` set (file_Children f)"
    then obtain c where c: "c \<in> set (file_Children f)" "?key = frag_ID c" by blast
    then obtain n where n: "0 \<le> n" "n < file_N f" "?key = frag_key fid n"
      using frag_key_of_child[OF inv f c(1)] by auto
    from frag_key_inj[OF N n(1,3)] n(2) show False by simp
  qed
  have old: "wst s1 w' = Some (k, b) \<longleftrightarrow> (if w' = w then k = ''f'' @ ?key \<and> b = [] else wst ?s w' = Some (k, b))"
    for w' k b unfolding w(5) by auto
  have "inv ?st'"
  proof (rule frag_inv_put[OF inv w(2)], goal_cases)
    case 1
    show ?case using file_wf_step[OF wf] w(3) by (simp add: file_wf_def)
  next
    case (2 k)
    show ?case unfolding w(3) ..
  next
    case (3 n)
    then show ?case using frag_stored_owner(1)[OF inv f] unfolding w(3) by simp
  next
    case (4 w' k b)
    show ?case
    proof (cases "w' = w")
      case True
      with 4 have "k = ?key" unfolding old by simp
      with N unchild show ?thesis by (intro disjI1 exI[of _ "file_N f"]) simp
    next
      case False
      with 4 have "wst ?s w' = Some (''f'' @ k, b)" unfolding old by simp
      from frag_old_writer[OF inv f this] show ?thesis by (elim disjE) force+
    qed
  next
    case (5 w1 w2 k b b')
    then show ?case
      unfolding old using frag_invD(6)[OF inv] frag_fresh(2)[OF inv f] by (metis same_append_eq)
  next
    case (6 w' k b)
    show ?case unfolding old using frag_invD(7)[OF inv] by simp
  qed
  moreover have "content ?st' = content st"
    unfolding frag_content_put[OF inv, of fid s1, unfolded w(3), OF refl] using f by (auto simp: frag_content_def)
  moreover have "fw_ok wst ?st' ?fw []"
    using w(5) N unchild by (auto simp: fw_ok_def)
  moreover have "file_Append S st fid = (Inr ?fw, ?st')"
    using f ID w(1) by (simp add: file_Append_def fstore_simps Let_def)
  ultimately show thesis using w(3-5) by (intro that[of ?fw ?st']) simp_all
qed

lemma Write_ok:
  assumes inv: "inv st" and fw: "fw_ok wst st fw b"
  obtains s' where "fragwriter_Write S st fw p =
      ((length p, None), st\<lparr>fr_state := s'\<rparr>, fw\<lparr>fw_size := fw_size fw + int (length p)\<rparr>)"
    and "inv (st\<lparr>fr_state := s'\<rparr>)" and "content (st\<lparr>fr_state := s'\<rparr>) = content st"
    and "fw_ok wst (st\<lparr>fr_state := s'\<rparr>) (fw\<lparr>fw_size := fw_size fw + int (length p)\<rparr>) (b @ p)"
    and "cont s' = cont (fr_state st)" and "wst s' = (wst (fr_state st))(fw_w fw \<mapsto> (''f'' @ fw_frag fw, b @ p))"
proof -
  let ?s = "fr_state st"
  have w: "wst ?s (fw_w fw) = Some (''f'' @ fw_frag fw, b)" using fw by (simp add: fw_ok_def)
  obtain s' where s': "op_write S ?s (fw_w fw) p = ((length p, None), s')" "sinv s'" "cont s' = cont ?s"
      "wst s' = (wst ?s)(fw_w fw \<mapsto> (''f'' @ fw_frag fw, b @ p))"
    using write_ok[OF frag_invD(1)[OF inv] w] by metis
  have old: "\<exists>c. wst ?s w' = Some (k, c)" if "wst s' w' = Some (k, b')" for w' k b'
    using that w unfolding s'(4) by (cases "w' = fw_w fw") auto
  have "inv (st\<lparr>fr_state := s'\<rparr>)"
    by (rule frag_inv_state[OF inv s'(2,3) old])
  moreover have "content (st\<lparr>fr_state := s'\<rparr>) = content st"
    using s'(3) by (simp add: frag_content_def fun_eq_iff split: option.splits)
  moreover have "fw_ok wst (st\<lparr>fr_state := s'\<rparr>) (fw\<lparr>fw_size := fw_size fw + int (length p)\<rparr>) (b @ p)"
    using fw s'(4) by (simp add: fw_ok_def)
  ultimately show thesis using s' by (intro that[of s']) (simp_all add: fragwriter_Write_def fstore_simps)
qed

lemma copy_ok:
  assumes "inv st" and "fw_ok wst st fw b"
  shows "\<exists>s' fw'. fragwriter_copy S st fw ps = (None, st\<lparr>fr_state := s'\<rparr>, fw') \<and> inv (st\<lparr>fr_state := s'\<rparr>) \<and>
     content (st\<lparr>fr_state := s'\<rparr>) = content st \<and> fw_ok wst (st\<lparr>fr_state := s'\<rparr>) fw' (b @ concat ps) \<and>
     fw_parent fw' = fw_parent fw \<and> fw_w fw' = fw_w fw \<and> cont s' = cont (fr_state st) \<and>
     wst s' = (wst (fr_state st))(fw_w fw \<mapsto> (''f'' @ fw_frag fw, b @ concat ps))"
  using assms
proof (induction ps arbitrary: st fw b)
  case Nil
  then show ?case by (intro exI[of _ "fr_state st"] exI[of _ fw]) (auto simp: fw_ok_def)
next
  case (Cons p ps)
  obtain s1 where s1: "fragwriter_Write S st fw p =
      ((length p, None), st\<lparr>fr_state := s1\<rparr>, fw\<lparr>fw_size := fw_size fw + int (length p)\<rparr>)"
    "inv (st\<lparr>fr_state := s1\<rparr>)" "content (st\<lparr>fr_state := s1\<rparr>) = content st"
    "fw_ok wst (st\<lparr>fr_state := s1\<rparr>) (fw\<lparr>fw_size := fw_size fw + int (length p)\<rparr>) (b @ p)"
    "cont s1 = cont (fr_state st)" "wst s1 = (wst (fr_state st))(fw_w fw \<mapsto> (''f'' @ fw_frag fw, b @ p))"
    by (rule Write_ok[OF Cons.prems])
  from Cons.IH[OF s1(2,4)] obtain s' fw' where "fragwriter_copy S (st\<lparr>fr_state := s1\<rparr>)
      (fw\<lparr>fw_size := fw_size fw + int (length p)\<rparr>) ps = (None, st\<lparr>fr_state := s'\<rparr>, fw')"
    "inv (st\<lparr>fr_state := s'\<rparr>)" "content (st\<lparr>fr_state := s'\<rparr>) = content st"
    "fw_ok wst (st\<lparr>fr_state := s'\<rparr>) fw' (b @ p @ concat ps)" "fw_parent fw' = fw_parent fw" "cont s' = cont s1"
    "fw_w fw' = fw_w fw" "wst s' = (wst s1)(fw_w fw \<mapsto> (''f'' @ fw_frag fw, b @ p @ concat ps))"
    using s1(3) by (auto simp: fun_upd_def)
  with s1 show ?case by (intro exI[of _ s'] exI[of _ fw']) simp
qed

lemma Close_ok:
  assumes inv: "inv st" and fw: "fw_ok wst st fw b" and f: "gget (fr_files st) (fw_parent fw) = Some f"
  obtains st' f' where "fragwriter_Close S J st now fw = (None, st')" and "inv st'"
    and "content st' = (content st)(fw_parent fw \<mapsto> the (content st (fw_parent fw)) @ [b])"
    and "fr_files st' = gset (fw_parent fw) f' (fr_files st)"
    and "f' = f\<lparr>file_Size := file_Size f + int (length b),
               file_Children := file_Children f @ [\<lparr>frag_ID = fw_frag fw, frag_Size = int (length b)\<rparr>],
               file_Modified := now\<rparr>"
    and "cont (fr_state st') = (cont (fr_state st))(''f'' @ fw_frag fw \<mapsto> b, ''md'' @ fw_parent fw \<mapsto> j_enc J f')"
    and "wst (fr_state st') = (wst (fr_state st))(fw_w fw := None)"
proof -
  let ?s = "fr_state st" and ?fid = "fw_parent fw" and ?k = "fw_frag fw"
  note wf = frag_invD(3)[OF inv f]
  obtain n where n: "0 \<le> n" "n < file_N f" "?k = frag_key ?fid n" "?k \<notin> frag_ID ` set (file_Children f)"
    using fw f by (auto simp: fw_ok_def)
  have w: "wst ?s (fw_w fw) = Some (''f'' @ ?k, b)" and size: "fw_size fw = int (length b)"
    using fw by (simp_all add: fw_ok_def)
  obtain s1 where s1: "op_close S ?s (fw_w fw) = (None, s1)" "sinv s1" "cont s1 = (cont ?s)(''f'' @ ?k \<mapsto> b)"
      "wst s1 = (wst ?s)(fw_w fw := None)"
    using close_ok[OF frag_invD(1)[OF inv] w fw_unstored[OF inv fw]] by metis
  define f1 where "f1 = f\<lparr>file_Size := file_Size f + int (length b),
               file_Children := file_Children f @ [\<lparr>frag_ID = ?k, frag_Size = int (length b)\<rparr>]\<rparr>"
  define f' where "f' = f1\<lparr>file_Modified := now\<rparr>"
  have ok: "okkey (''md'' @ ?fid)" and ID: "file_ID f1 = ?fid" using wf by (simp_all add: file_wf_def f1_def)
  have nomd: "\<forall>w k b. wst s1 w \<noteq> Some (''md'' @ k, b)" unfolding s1(4) using frag_invD(7)[OF inv] by simp
  obtain s2 where s2: "file_save S J (st\<lparr>fr_state := s1\<rparr>) now ?fid f1 =
        (None, st\<lparr>fr_state := s2, fr_files := gset ?fid f' (fr_files st)\<rparr>)" "sinv s2"
      "cont s2 = (cont s1)(''md'' @ ?fid \<mapsto> j_enc J f')" "wst s2 = wst s1"
    using file_save_ok[of "st\<lparr>fr_state := s1\<rparr>" ?fid f1 now] s1(2) ok nomd ID by (auto simp: f'_def)
  let ?st' = "st\<lparr>fr_state := s2, fr_files := gset ?fid f' (fr_files st)\<rparr>"
  have cont2: "cont s2 (''f'' @ k) = (if k = ?k then Some b else cont ?s (''f'' @ k))" for k
    unfolding s2(3) s1(3) by simp
  have keep: "cont s2 (''f'' @ k) = cont ?s (''f'' @ k)" if "\<And>n. 0 \<le> n \<Longrightarrow> k \<noteq> frag_key ?fid n" for k
    using that n(1,3) cont2 by metis
  have children: "file_Children f' = file_Children f @ [\<lparr>frag_ID = ?k, frag_Size = int (length b)\<rparr>]" "file_N f' = file_N f"
    by (simp_all add: f'_def f1_def)
  have "inv ?st'"
  proof (rule frag_inv_put[OF inv s2(2) _ keep], goal_cases)
    case 1
    have "\<exists>b'. cont s2 (''f'' @ frag_ID c) = Some b' \<and> frag_Size c = int (length b')"
      if c: "c \<in> set (file_Children f)" for c
    proof -
      have "frag_ID c \<noteq> ?k" using n(4) c by force
      with wf c cont2[of "frag_ID c"] show ?thesis by (simp add: file_wf_def)
    qed
    then show ?case using wf n cont2[of ?k] by (auto simp: file_wf_def f'_def f1_def)
  next
    case (3 m)
    then show ?case unfolding cont2 children
      using frag_stored_owner(1)[OF inv f] by (cases "frag_key ?fid m = ?k") auto
  next
    case (4 w' k b')
    then have ne: "w' \<noteq> fw_w fw" and old: "wst ?s w' = Some (''f'' @ k, b')"
      unfolding s2(4) s1(4) by (auto split: if_splits)
    have "k \<noteq> ?k" using frag_invD(6)[OF inv old] w ne by metis
    with frag_old_writer[OF inv f old] show ?case unfolding children by auto
  next
    case (5 w1 w2 k b1 b2)
    then show ?case unfolding s2(4) s1(4) using frag_invD(6)[OF inv] by (metis fun_upd_apply option.distinct(1))
  next
    case (6 w' k b')
    then show ?case unfolding s2(4) using nomd by metis
  qed
  moreover have "content ?st' = (content st)(?fid \<mapsto> the (content st ?fid) @ [b])"
  proof -
    have "map (\<lambda>c. the (cont s2 (''f'' @ frag_ID c))) (file_Children f) =
          map (\<lambda>c. the (cont ?s (''f'' @ frag_ID c))) (file_Children f)"
      using n(4) cont2 by (auto simp: image_iff)
    moreover have "content ?st' = (content st)(?fid \<mapsto> map (\<lambda>c. the (cont s2 (''f'' @ frag_ID c))) (file_Children f'))"
      by (rule frag_content_put[OF inv]) (rule keep)
    moreover have "content st ?fid = Some (map (\<lambda>c. the (cont ?s (''f'' @ frag_ID c))) (file_Children f))"
      using f by (simp add: frag_content_def)
    ultimately show ?thesis using cont2[of ?k] by (simp only: children map_append) simp
  qed
  moreover have "fragwriter_Close S J st now fw = (None, ?st')"
    using s1(1) f s2(1) size by (simp add: fragwriter_Close_def fstore_simps f1_def)
  ultimately show thesis using s1(3,4) s2(3,4) by (intro that[of ?st' f']) (simp_all add: f'_def f1_def)
qed

text \<open>Uploading one fragment: append, copy the blocks of the body, close.\<close>

lemma append_blocks_ok:
  assumes inv: "inv st" and f: "gget (fr_files st) fid = Some f"
  obtains fw st1 st2 fw2 st3 where "file_Append S st fid = (Inr fw, st1)" and "fragwriter_copy S st1 fw ps = (None, st2, fw2)"
    and "fragwriter_Close S J st2 now fw2 = (None, st3)" and "inv st3"
    and "content st3 = (content st)(fid \<mapsto> the (content st fid) @ [concat ps])"
    and "wst (fr_state st3) = wst (fr_state st)" and "frag_put_saved cont J st fid st3"
proof -
  obtain fw st1 where a: "file_Append S st fid = (Inr fw, st1)" "inv st1" "content st1 = content st"
      "fw_ok wst st1 fw []" "fw_parent fw = fid"
      "fr_files st1 = gset fid (f\<lparr>file_N := file_N f + 1\<rparr>) (fr_files st)"
      "cont (fr_state st1) = cont (fr_state st)" "wst (fr_state st) (fw_w fw) = None" "wst (fr_state st1) = (wst (fr_state st))(fw_w fw \<mapsto> (''f'' @ fw_frag fw, []))"
    by (rule Append_ok[OF inv f])
  obtain s2 fw2 where c: "fragwriter_copy S st1 fw ps = (None, st1\<lparr>fr_state := s2\<rparr>, fw2)" "inv (st1\<lparr>fr_state := s2\<rparr>)"
      "content (st1\<lparr>fr_state := s2\<rparr>) = content st1" "fw_ok wst (st1\<lparr>fr_state := s2\<rparr>) fw2 (concat ps)" "fw_parent fw2 = fid"
      "fw_w fw2 = fw_w fw" "cont s2 = cont (fr_state st1)" "wst s2 = (wst (fr_state st1))(fw_w fw \<mapsto> (''f'' @ fw_frag fw, concat ps))"
    using copy_ok[OF a(2,4), of ps] a(5) by auto
  have f2: "gget (fr_files (st1\<lparr>fr_state := s2\<rparr>)) (fw_parent fw2) = Some (f\<lparr>file_N := file_N f + 1\<rparr>)"
    using a(6) c(5) by simp
  obtain st3 f3 where st3: "fragwriter_Close S J (st1\<lparr>fr_state := s2\<rparr>) now fw2 = (None, st3)" "inv st3"
      "content st3 = (content (st1\<lparr>fr_state := s2\<rparr>))(fid \<mapsto> the (content (st1\<lparr>fr_state := s2\<rparr>) fid) @ [concat ps])"
      "wst (fr_state st3) = (wst s2)(fw_w fw := None)" "fr_files st3 = gset fid f3 (fr_files st1)"
      "\<forall>k. cont (fr_state st3) (''md'' @ k) = (if k = fid then Some (j_enc J f3) else cont s2 (''md'' @ k))"
    using Close_ok[OF c(2,4) f2, of now thesis] c(5,6) by auto
  have "frag_put_saved cont J st fid st3"
    unfolding frag_put_saved_def using st3(5,6) a(6,7) c(7) by (intro exI[of _ f3]) (auto simp: fun_eq_iff)
  moreover have "(wst (fr_state st))(fw_w fw := None) = wst (fr_state st)" using a(8) by auto
  ultimately show thesis using a c st3(1-4) by (intro that[of fw st1 "st1\<lparr>fr_state := s2\<rparr>" fw2 st3]) simp_all
qed

lemma Rollback_ok:
  assumes inv: "inv st" and f: "gget (fr_files st) fid = Some f" and ne: "file_Children f = cs @ [c]"
  obtains st' where "file_Rollback S J st now fid = (None, st')" and "inv st'"
    and "content st' = (content st)(fid \<mapsto> butlast (the (content st fid)))"
    and "wst (fr_state st') = wst (fr_state st)" and "frag_put_saved cont J st fid st'"
proof -
  let ?s = "fr_state st"
  note wf = frag_invD(3)[OF inv f]
  have cset: "c \<in> set (file_Children f)" using ne by simp
  obtain n where n: "0 \<le> n" "n < file_N f" "frag_ID c = frag_key fid n" using frag_key_of_child[OF inv f cset] by blast
  have ok: "okkey (''f'' @ frag_ID c)" "okkey (''md'' @ fid)" using wf n(3) by (simp_all add: file_wf_def)
  obtain s1 where s1: "op_delete S ?s (''f'' @ frag_ID c) = (None, s1)" "sinv s1"
      "cont s1 = (cont ?s)(''f'' @ frag_ID c := None)" "wst s1 = wst ?s"
    using delete_ok[OF frag_invD(1)[OF inv] ok(1)] frag_no_writer[OF inv f cset] by metis
  define f1 where "f1 = f\<lparr>file_Children := cs, file_Size := file_Size f - frag_Size c\<rparr>"
  define f' where "f' = f1\<lparr>file_Modified := now\<rparr>"
  have ID: "file_ID f1 = fid" using wf by (simp add: file_wf_def f1_def)
  have nomd: "\<forall>w k b. wst s1 w \<noteq> Some (''md'' @ k, b)" unfolding s1(4) using frag_invD(7)[OF inv] by simp
  obtain s2 where s2: "file_save S J (st\<lparr>fr_state := s1\<rparr>) now fid f1 =
        (None, st\<lparr>fr_state := s2, fr_files := gset fid f' (fr_files st)\<rparr>)" "sinv s2"
      "cont s2 = (cont s1)(''md'' @ fid \<mapsto> j_enc J f')" "wst s2 = wst s1"
    using file_save_ok[of "st\<lparr>fr_state := s1\<rparr>" fid f1 now] s1(2) ok(2) nomd ID by (auto simp: f'_def)
  let ?st' = "st\<lparr>fr_state := s2, fr_files := gset fid f' (fr_files st)\<rparr>"
  have cont2: "cont s2 (''f'' @ k) = (if k = frag_ID c then None else cont ?s (''f'' @ k))" for k
    unfolding s2(3) s1(3) by simp
  have keep: "cont s2 (''f'' @ k) = cont ?s (''f'' @ k)" if "\<And>n. 0 \<le> n \<Longrightarrow> k \<noteq> frag_key fid n" for k
    using that n(1,3) cont2 by metis
  have children: "file_Children f' = cs" "file_N f' = file_N f" by (simp_all add: f'_def f1_def)
  have others: "frag_ID d \<noteq> frag_ID c" if "d \<in> set cs" for d
  proof -
    have "distinct (map frag_ID cs @ [frag_ID c])" using wf ne by (simp add: file_wf_def)
    with that show ?thesis by (auto simp: image_iff)
  qed
  have "inv ?st'"
  proof (rule frag_inv_put[OF inv s2(2) _ keep], goal_cases)
    case 1
    show ?case using wf ne others cont2 by (auto simp: file_wf_def f'_def f1_def)
  next
    case (3 m)
    then have "frag_key fid m \<noteq> frag_ID c" "cont ?s (''f'' @ frag_key fid m) \<noteq> None"
      unfolding cont2 by (auto split: if_splits)
    with frag_stored_owner(1)[OF inv f 3(1)] show ?case unfolding children ne by auto
  next
    case (4 w' k b')
    then have "wst ?s w' = Some (''f'' @ k, b')" unfolding s2(4) s1(4) .
    from frag_old_writer[OF inv f this] show ?case unfolding children ne by auto
  next
    case (5 w1 w2 k b1 b2)
    then show ?case unfolding s2(4) s1(4) by (rule frag_invD(6)[OF inv])
  next
    case (6 w' k b')
    show ?case unfolding s2(4) using nomd by simp
  qed
  moreover have "content ?st' = (content st)(fid \<mapsto> butlast (the (content st fid)))"
  proof -
    have "map (\<lambda>c. the (cont s2 (''f'' @ frag_ID c))) cs = map (\<lambda>c. the (cont ?s (''f'' @ frag_ID c))) cs"
      using others cont2 by auto
    moreover have "content ?st' = (content st)(fid \<mapsto> map (\<lambda>c. the (cont s2 (''f'' @ frag_ID c))) (file_Children f'))"
      by (rule frag_content_put[OF inv]) (rule keep)
    moreover have "butlast (the (content st fid)) = map (\<lambda>c. the (cont ?s (''f'' @ frag_ID c))) cs"
      using f ne by (simp add: frag_content_def)
    ultimately show ?thesis unfolding children by (simp only:)
  qed
  moreover have "file_Rollback S J st now fid = (None, ?st')"
    using f ne s1(1) s2(1) by (simp add: file_Rollback_def fstore_simps f1_def)
  moreover have "wst (fr_state ?st') = wst ?s" using s1(4) s2(4) by simp
  moreover have "frag_put_saved cont J st fid ?st'"
    unfolding frag_put_saved_def using s1(3) s2(3) by (intro exI[of _ f']) (auto simp: fun_eq_iff)
  ultimately show thesis by (intro that)
qed

section \<open>Reading\<close>

abbreviation fr_wf :: "'s \<Rightarrow> frag_reader \<Rightarrow> bool" where
  "fr_wf s fr \<equiv> 0 \<le> rd_offset fr \<and> (\<forall>k \<in> set (rd_keys fr). okkey (''f'' @ k) \<and> cont s (''f'' @ k) \<noteq> None)"

abbreviation fr_rest :: "'s \<Rightarrow> frag_reader \<Rightarrow> bytes" where
  "fr_rest s fr \<equiv> (case rd_cur fr of None \<Rightarrow> [] | Some b \<Rightarrow> drop (nat (rd_offset fr)) b) @
     concat (map (\<lambda>k. the (cont s (''f'' @ k))) (rd_keys fr))"

lemma Read_ok:
  assumes "sinv s" and "fr_wf s fr" and n: "0 < n"
  shows "\<exists>p err s' fr'. fragreader_Read S s fr n = Some ((p, err), s', fr') \<and>
    sinv s' \<and> cont s' = cont s \<and> wst s' = wst s \<and> fr_wf s' fr' \<and> fr_rest s fr = p @ fr_rest s' fr' \<and>
    (if p = [] then err = Some EOF \<and> fr_rest s fr = [] else err = None)"
  using assms(1,2)
proof (induction "2 * length (rd_keys fr) + (if rd_cur fr = None then 0 else 1)" arbitrary: s fr rule: less_induct)
  case less
  show ?case
  proof (cases "rd_cur fr")
    case cur: None
    show ?thesis
    proof (cases "rd_keys fr")
      case Nil
      with cur less.prems show ?thesis by (subst fragreader_Read.simps) simp
    next
      case (Cons k ks)
      with less.prems obtain b where b: "cont s (''f'' @ k) = Some b" by auto
      obtain s1 where s1: "op_open S s (''f'' @ k) = (Inr b, s1)" "sinv s1" "cont s1 = cont s" "wst s1 = wst s"
        using open_hit[OF less.prems(1) _ b] less.prems(2) Cons by auto
      let ?fr = "\<lparr>rd_keys = ks, rd_cur = Some b, rd_offset = 0\<rparr>"
      have eq: "fragreader_Read S s fr n = fragreader_Read S s1 ?fr n"
        by (subst fragreader_Read.simps) (use cur Cons s1(1) in \<open>simp add: fstore_simps\<close>)
      have rest: "fr_rest s ?fr = fr_rest s fr" using cur Cons b by simp
      have wf1: "fr_wf s1 ?fr" using less.prems(2) Cons s1(3) by simp
      have "2 * length (rd_keys ?fr) + (if rd_cur ?fr = None then 0 else 1) <
            2 * length (rd_keys fr) + (if rd_cur fr = None then 0 else 1)" using cur Cons by simp
      from less.hyps[OF this s1(2) wf1, unfolded s1(3,4), unfolded rest] show ?thesis unfolding eq .
    qed
  next
    case (Some b)
    obtain p err where ra: "op_read_at S b (rd_offset fr) n = (p, err)" by fastforce
    from less.prems(2) have off: "0 \<le> rd_offset fr" by simp
    note D = read_at_okD[where b = b and n = n, OF read_at off, unfolded ra, simplified]
    define fr1 where "fr1 = fr\<lparr>rd_offset := rd_offset fr + int (length p)\<rparr>"
    define fr2 where "fr2 = (if err = Some EOF then fr1\<lparr>rd_cur := None\<rparr> else fr1)"
    have eq: "fragreader_Read S s fr n =
        (if 0 < length p then Some ((p, None), s, fr2) else fragreader_Read S s fr2 n)"
      using D(2) Some ra by (subst fragreader_Read.simps) (auto simp: fstore_simps fr1_def fr2_def Let_def)
    have wf2: "fr_wf s fr2" using less.prems(2) by (simp add: fr2_def fr1_def)
    have "drop (nat (rd_offset fr)) b = p @ drop (nat (rd_offset fr) + length p) b"
      using take_drop_length[of n "drop (nat (rd_offset fr)) b"] D(1) by (simp add: add.commute)
    moreover have "err = Some EOF \<Longrightarrow> length b \<le> nat (rd_offset fr) + length p"
      using D(1,4) n by auto
    ultimately have rest: "fr_rest s fr = p @ fr_rest s fr2"
      using Some off by (auto simp: fr2_def fr1_def nat_add_distrib)
    show ?thesis
    proof (cases "p = []")
      case False
      with eq wf2 rest less.prems(1) show ?thesis by (intro exI[of _ p] exI[of _ None] exI[of _ s] exI[of _ fr2]) simp
    next
      case True
      with D(1) n have "length b \<le> nat (rd_offset fr)" by simp
      with D(3) n have "rd_cur fr2 = None" "rd_keys fr2 = rd_keys fr" by (simp_all add: fr2_def fr1_def)
      then have lt: "2 * length (rd_keys fr2) + (if rd_cur fr2 = None then 0 else 1) <
            2 * length (rd_keys fr) + (if rd_cur fr = None then 0 else 1)" using Some by simp
      have eq': "fragreader_Read S s fr n = fragreader_Read S s fr2 n" using eq True by simp
      have rest': "fr_rest s fr2 = fr_rest s fr" using rest True by simp
      from less.hyps[OF lt less.prems(1) wf2, unfolded rest'] show ?thesis unfolding eq' .
    qed
  qed
qed

lemma reader_copy_ok:
  assumes "sinv s" and "fr_wf s fr" and n: "0 < n"
  shows "\<exists>s'. fragreader_copy S n s fr acc = Some ((acc @ fr_rest s fr, None), s') \<and>
     sinv s' \<and> cont s' = cont s \<and> wst s' = wst s"
  using assms(1,2)
proof (induction "length (fr_rest s fr)" arbitrary: s fr acc rule: less_induct)
  case less
  obtain p err s1 fr1 where r: "fragreader_Read S s fr n = Some ((p, err), s1, fr1)"
      "sinv s1" "cont s1 = cont s" "wst s1 = wst s" "fr_wf s1 fr1" "fr_rest s fr = p @ fr_rest s1 fr1"
      "if p = [] then err = Some EOF \<and> fr_rest s fr = [] else err = None"
    using Read_ok[OF less.prems n] by blast
  show ?case
  proof (cases "p = []")
    case True
    with r show ?thesis by (subst fragreader_copy.simps) simp
  next
    case False
    with r(6) have "length (fr_rest s1 fr1) < length (fr_rest s fr)" by (metis length_append length_greater_0_conv less_add_same_cancel2)
    from less.hyps[OF this r(2,5), of "acc @ p"] False r show ?thesis
      by (subst fragreader_copy.simps) simp
  qed
qed

lemma Open_read_ok:
  assumes inv: "inv st" and f: "gget (fr_files st) fid = Some f" and n: "0 < n"
  shows "\<exists>s'. fragreader_copy S n (fr_state st) (file_Open f) [] = Some ((concat (the (content st fid)), None), s') \<and>
     sinv s' \<and> cont s' = cont (fr_state st) \<and> wst s' = wst (fr_state st)"
proof -
  have "fr_wf (fr_state st) (file_Open f)"
    using frag_invD(3)[OF inv f] by (auto simp: file_Open_def file_wf_def)
  from reader_copy_ok[OF frag_invD(1)[OF inv] this n, of "[]"] f show ?thesis
    by (simp add: file_Open_def frag_content_def comp_def)
qed

section \<open>Deleting\<close>

lemma delete_children_ok:
  assumes "sinv s" and "\<forall>c \<in> set cs. okkey (''f'' @ frag_ID c)"
    and "\<forall>c \<in> set cs. \<forall>w b. wst s w \<noteq> Some (''f'' @ frag_ID c, b)"
  shows "\<exists>s'. frag_delete_children S cs err s = (err, s') \<and> sinv s' \<and> wst s' = wst s \<and>
     cont s' = (\<lambda>k. if k \<in> (\<lambda>c. ''f'' @ frag_ID c) ` set cs then None else cont s k)"
  using assms
proof (induction cs arbitrary: s)
  case Nil
  then show ?case by simp
next
  case (Cons c cs)
  obtain s1 where s1: "op_delete S s (''f'' @ frag_ID c) = (None, s1)" "sinv s1"
      "cont s1 = (cont s)(''f'' @ frag_ID c := None)" "wst s1 = wst s"
    using delete_ok[of s "''f'' @ frag_ID c"] Cons.prems by auto
  obtain s' where "frag_delete_children S cs err s1 = (err, s')" "sinv s'" "wst s' = wst s1"
     "cont s' = (\<lambda>k. if k \<in> (\<lambda>c. ''f'' @ frag_ID c) ` set cs then None else cont s1 k)"
    using Cons.IH[OF s1(2)] Cons.prems(2,3) s1(4) by auto
  with s1 show ?case by (intro exI[of _ s']) (auto simp: fstore_simps fun_eq_iff)
qed

text \<open>Deleting needs the file to have no open writer.\<close>

lemma Delete_ok:
  assumes inv: "inv st" and f: "gget (fr_files st) fid = Some f"
    and closed: "\<And>w n b. 0 \<le> n \<Longrightarrow> wst (fr_state st) w \<noteq> Some (''f'' @ frag_key fid n, b)"
  obtains st' where "frag_Delete S st fid = (None, st')" and "inv st'" and "content st' = (content st)(fid := None)"
    and "cont (fr_state st') (''md'' @ fid) = None"
    and "\<And>n. 0 \<le> n \<Longrightarrow> cont (fr_state st') (''f'' @ frag_key fid n) = None"
    and "wst (fr_state st') = wst (fr_state st)" and "frag_saved cont J st \<Longrightarrow> frag_saved cont J st'"
proof -
  let ?s = "fr_state st"
  note wf = frag_invD(3)[OF inv f]
  have ID: "file_ID f = fid" and ok: "okkey (''md'' @ fid)" using wf by (simp_all add: file_wf_def)
  obtain s1 where s1: "op_delete S ?s (''md'' @ fid) = (None, s1)" "sinv s1"
      "cont s1 = (cont ?s)(''md'' @ fid := None)" "wst s1 = wst ?s"
    using delete_ok[OF frag_invD(1)[OF inv] ok] frag_invD(7)[OF inv] by metis
  have okc: "\<forall>c \<in> set (file_Children f). okkey (''f'' @ frag_ID c)" using wf by (auto simp: file_wf_def)
  have noc: "\<forall>c \<in> set (file_Children f). \<forall>w b. wst s1 w \<noteq> Some (''f'' @ frag_ID c, b)"
    unfolding s1(4) using frag_no_writer[OF inv f] by blast
  obtain s2 where s2: "frag_delete_children S (file_Children f) None s1 = (None, s2)" "sinv s2" "wst s2 = wst s1"
     "cont s2 = (\<lambda>k. if k \<in> (\<lambda>c. ''f'' @ frag_ID c) ` set (file_Children f) then None else cont s1 k)"
    using delete_children_ok[OF s1(2) okc noc] by blast
  let ?st' = "st\<lparr>fr_state := s2, fr_files := gdel fid (fr_files st)\<rparr>"
  have cont2: "cont s2 (''f'' @ k) = (if k \<in> frag_ID ` set (file_Children f) then None else cont ?s (''f'' @ k))" for k
    unfolding s2(4) s1(3) by auto
  have wst2: "wst s2 = wst ?s" using s2(3) s1(4) by simp
  have gone: "cont s2 (''f'' @ frag_key fid n) = None" if "0 \<le> n" for n
    unfolding cont2 using frag_stored_owner(1)[OF inv f that] by (cases "cont ?s (''f'' @ frag_key fid n)") auto
  have stay: "cont s2 (''f'' @ frag_ID c) = cont ?s (''f'' @ frag_ID c)"
    if "gid \<noteq> fid" "gget (fr_files st) gid = Some g" "c \<in> set (file_Children g)" for gid g c
    unfolding cont2 using frag_children_disjoint[OF inv that(2,3) f] that(1) by auto
  have "inv ?st'"
    unfolding frag_inv_def
  proof (intro conjI allI impI, goal_cases)
    case (3 gid g)
    then have g: "gid \<noteq> fid" "gget (fr_files st) gid = Some g" by (simp_all split: if_splits)
    from file_wf_cong[OF frag_invD(3)[OF inv g(2)] stay[OF g]] show ?case by simp
  next
    case (4 k)
    then have k: "k \<notin> frag_ID ` set (file_Children f)" "cont ?s (''f'' @ k) \<noteq> None"
      using cont2[of k] by (auto split: if_splits)
    from frag_invD(4)[OF inv k(2)] obtain gid g where g: "gget (fr_files st) gid = Some g" "k \<in> frag_ID ` set (file_Children g)"
      by blast
    with k(1) f have "gid \<noteq> fid" by auto
    with g show ?case by (intro exI[of _ gid] exI[of _ g]) simp
  next
    case (5 w k b)
    then have w: "wst ?s w = Some (''f'' @ k, b)" using wst2 by simp
    from frag_invD(5)[OF inv w] obtain gid g n where g: "gget (fr_files st) gid = Some g" "0 \<le> n" "n < file_N g"
      "k = frag_key gid n" "k \<notin> frag_ID ` set (file_Children g)" by blast
    with closed[OF g(2)] w have "gid \<noteq> fid" by auto
    with g show ?case by (intro exI[of _ gid] exI[of _ g] exI[of _ n]) simp
  next
    case (6 w w' k b b')
    then show ?case using wst2 frag_invD(6)[OF inv, of w k b w' b'] by simp
  qed (use s2(2) wst2 frag_invD(2,7)[OF inv] in simp_all)
  moreover have "content ?st' = (content st)(fid := None)"
    using stay by (auto simp: frag_content_def fun_eq_iff split: option.splits)
  moreover have "cont s2 (''md'' @ fid) = None" unfolding s2(4) s1(3) by simp
  moreover have "frag_Delete S st fid = (None, ?st')"
    using f ID s1(1) s2(1) by (simp add: frag_Delete_def mstore_simps)
  moreover have "frag_saved cont J ?st'" if "frag_saved cont J st"
    using that s1(3) s2(4) by (auto simp: frag_saved_def split: option.splits)
  moreover have st: "fr_state ?st' = s2" by simp
  ultimately show thesis using gone wst2 by (intro that[of ?st']) (simp_all only: st)
qed

section \<open>Reloading after a restart\<close>

lemma load_keys_ok:
  assumes "sinv (fr_state st)"
    and "\<And>k. k \<in> set keys \<Longrightarrow> okkey (''md'' @ k) \<and> cont (fr_state st) (''md'' @ k) = Some (j_enc J (F k)) \<and>
           json_rt J (F k) \<and> file_ID (F k) = k"
  shows "\<exists>st'. frag_load_keys S J keys st = (None, st') \<and> sinv (fr_state st') \<and>
     cont (fr_state st') = cont (fr_state st) \<and> wst (fr_state st') = wst (fr_state st) \<and>
     (gmap_ok (fr_files st) \<longrightarrow> gmap_ok (fr_files st')) \<and>
     gget (fr_files st') = (\<lambda>k. if k \<in> set keys then Some (F k) else gget (fr_files st) k)"
  using assms
proof (induction keys arbitrary: st)
  case Nil
  then show ?case by simp
next
  case (Cons key keys)
  have key: "okkey (''md'' @ key)" "cont (fr_state st) (''md'' @ key) = Some (j_enc J (F key))"
      "json_rt J (F key)" "file_ID (F key) = key" using Cons.prems(2)[of key] by simp_all
  obtain s1 where s1: "json_Open S J (fr_state st) (''md'' @ key) = (Inr (F key), s1)" "sinv s1"
      "cont s1 = cont (fr_state st)" "wst s1 = wst (fr_state st)"
    by (rule json_Open_ok[OF Cons.prems(1) key(1,2,3)])
  let ?st = "st\<lparr>fr_state := s1, fr_files := gset key (F key) (fr_files st)\<rparr>"
  have "sinv (fr_state ?st)" using s1(2) by simp
  moreover have "okkey (''md'' @ k) \<and> cont (fr_state ?st) (''md'' @ k) = Some (j_enc J (F k)) \<and>
           json_rt J (F k) \<and> file_ID (F k) = k" if "k \<in> set keys" for k
    using Cons.prems(2)[of k] that s1(3) by simp
  ultimately obtain st' where st': "frag_load_keys S J keys ?st = (None, st')" "sinv (fr_state st')"
     "cont (fr_state st') = cont s1" "wst (fr_state st') = wst s1" "gmap_ok (fr_files ?st) \<longrightarrow> gmap_ok (fr_files st')"
     "gget (fr_files st') = (\<lambda>k. if k \<in> set keys then Some (F k) else gget (fr_files ?st) k)"
    using Cons.IH[of ?st] by auto
  have "gget (fr_files st') = (\<lambda>k. if k \<in> set (key # keys) then Some (F k) else gget (fr_files st) k)"
    unfolding st'(6) by auto
  with st' s1 key(4) show ?case by (intro exI[of _ st']) (simp add: mstore_json)
qed

lemma Load_ok:
  assumes inv: "inv st" and idle: "\<And>w. wst (fr_state st) w = None" and pre: "okpre ''md''"
    and saved: "\<And>k. (case gget (fr_files st) k of
                        None \<Rightarrow> cont (fr_state st) (''md'' @ k) = None
                      | Some f \<Rightarrow> cont (fr_state st) (''md'' @ k) = Some (j_enc J f) \<and> json_rt J f)"
  obtains st' where "frag_Load S J (frag_New_store (fr_state st)) = (None, st')" and "inv st'"
    and "gget (fr_files st') = gget (fr_files st)" and "content st' = content st"
proof -
  let ?s = "fr_state st" and ?F = "\<lambda>k. the (gget (fr_files st) k)"
  obtain ks0 where ks0: "op_list_prefix S ?s ''md'' = Inr ks0"
    using list_prefix_ok[OF frag_invD(1)[OF inv] pre] by blast
  define ks where "ks = map (drop (length ''md'')) (filter (\<lambda>key. has_prefix key ''md'') ks0)"
  have in_ks: "k \<in> set ks \<longleftrightarrow> gget (fr_files st) k \<noteq> None" for k
  proof -
    have "k \<in> set ks \<longleftrightarrow> ''md'' @ k \<in> set ks0"
      using mem_prefix_strip[of k "''md''" "set ks0"] by (simp add: ks_def)
    also have "\<dots> \<longleftrightarrow> cont ?s (''md'' @ k) \<noteq> None"
      using list_prefix_iff[OF frag_invD(1)[OF inv] pre ks0, of "''md'' @ k"] idle by (simp add: has_prefix_iff)
    finally show ?thesis using saved[of k] by (auto split: option.splits)
  qed
  let ?st0 = "frag_New_store ?s"
  have st0: "sinv (fr_state ?st0)" using frag_invD(1)[OF inv] by (simp add: frag_New_store_def)
  have keys: "okkey (''md'' @ k) \<and> cont (fr_state ?st0) (''md'' @ k) = Some (j_enc J (?F k)) \<and>
        json_rt J (?F k) \<and> file_ID (?F k) = k" if "k \<in> set ks" for k
    using that in_ks[of k] saved[of k] frag_invD(3)[OF inv, of k] by (auto simp: frag_New_store_def file_wf_def)
  obtain st' where st': "frag_load_keys S J ks ?st0 = (None, st')" "sinv (fr_state st')"
     "cont (fr_state st') = cont (fr_state ?st0)" "wst (fr_state st') = wst (fr_state ?st0)"
     "gmap_ok (fr_files ?st0) \<longrightarrow> gmap_ok (fr_files st')"
     "gget (fr_files st') = (\<lambda>k. if k \<in> set ks then Some (?F k) else gget (fr_files ?st0) k)"
    using load_keys_ok[OF st0 keys] by blast
  have eqs: "cont (fr_state st') = cont ?s" "wst (fr_state st') = wst ?s" "gmap_ok (fr_files st')"
    using st'(3-5) by (simp_all add: frag_New_store_def gmap_ok_def)
  have files: "gget (fr_files st') = gget (fr_files st)"
    unfolding st'(6) using in_ks by (auto simp: fun_eq_iff frag_New_store_def)
  have "inv st'"
    unfolding frag_inv_def files eqs(1,2) file_wf_cong_state[where cont = cont, OF eqs(1)]
    by (intro conjI allI impI; (rule st'(2) eqs(3) frag_invD(7)[OF inv])?;
        (erule frag_invD(3,4,5)[OF inv] | erule (1) frag_invD(6)[OF inv])?)
  moreover have "content st' = content st" unfolding frag_content_def fun_eq_iff files eqs by simp
  moreover have "frag_Load S J ?st0 = (None, st')"
    using st'(1) ks0 by (simp add: frag_Load_def mstore_simps prefix_ListPrefix_def ks_def frag_New_store_def)
  ultimately show thesis using files by (intro that)
qed

section \<open>Setting metadata\<close>

lemma update_ok:
  assumes inv: "inv st"
    and upd: "\<And>f. file_ID (upd f) = file_ID f" "\<And>f. file_Size (upd f) = file_Size f" "\<And>f. file_N (upd f) = file_N f"
      "\<And>f. file_Children (upd f) = file_Children f"
  shows "inv (file_update S J st now fid upd) \<and> content (file_update S J st now fid upd) = content st \<and>
     wst (fr_state (file_update S J st now fid upd)) = wst (fr_state st) \<and>
     (frag_saved cont J st \<longrightarrow> frag_saved cont J (file_update S J st now fid upd))"
proof (cases "gget (fr_files st) fid")
  case None
  with inv show ?thesis by (simp add: file_update_def)
next
  case (Some f)
  note wf = frag_invD(3)[OF inv Some]
  let ?f = "(upd f)\<lparr>file_Modified := now\<rparr>"
  obtain s' where s': "file_save S J st now fid (upd f) = (None, st\<lparr>fr_state := s', fr_files := gset fid ?f (fr_files st)\<rparr>)"
      "sinv s'" "cont s' = (cont (fr_state st))(''md'' @ fid \<mapsto> j_enc J ?f)" "wst s' = wst (fr_state st)"
    using file_save_ok[of st fid "upd f" now] frag_invD(1,7)[OF inv] wf upd(1) by (auto simp: file_wf_def)
  have keep: "cont s' (''f'' @ k) = cont (fr_state st) (''f'' @ k)" for k unfolding s'(3) by simp
  have "file_wf cont okkey s' fid ?f" using wf upd keep by (simp add: file_wf_def)
  then have "inv (st\<lparr>fr_state := s', fr_files := gset fid ?f (fr_files st)\<rparr>)"
    using frag_inv_save[OF inv Some s'(2) _ _ _ keep s'(4)] upd by simp
  moreover have "content (st\<lparr>fr_state := s', fr_files := gset fid ?f (fr_files st)\<rparr>) = content st"
    unfolding frag_content_put[OF inv, of fid s', OF keep] using Some keep upd(4) by (auto simp: frag_content_def)
  moreover have "frag_put_saved cont J st fid (st\<lparr>fr_state := s', fr_files := gset fid ?f (fr_files st)\<rparr>)"
    unfolding frag_put_saved_def using s'(3) by (intro exI[of _ ?f]) (auto simp: fun_eq_iff)
  ultimately show ?thesis using Some s'(1,4) frag_saved_put by (simp add: file_update_def) blast
qed

lemmas setters_ok =
  update_ok[where upd = "file_Creator_update (\<lambda>_. x)" for x, simplified, folded SetCreator_def]
  update_ok[where upd = "file_MD5_update (\<lambda>_. x)" for x, simplified, folded SetMD5_def]
  update_ok[where upd = "file_SHA256_update (\<lambda>_. x)" for x, simplified, folded SetSHA256_def]
  update_ok[where upd = "file_MimeType_update (\<lambda>_. x)" for x, simplified, folded SetMimeType_def]
  update_ok[where upd = "file_Extra_update (\<lambda>_. x)" for x, simplified, folded SetExtra_def]

section \<open>Sequences of operations\<close>

text \<open>Between two operations no fragment is being written.\<close>

abbreviation idle :: "'s frag_store \<Rightarrow> bool" where
  "idle st \<equiv> inv st \<and> (\<forall>w. wst (fr_state st) w = None) \<and> frag_saved cont J st"

lemma frag_step_ok:
  assumes st: "idle st" and ok: "frag_op_ok okkey c"
  shows "idle (frag_step S J now c st) \<and> content (frag_step S J now c st) = frag_spec c (content st)"
proof (cases c)
  case (OpNew fid)
  show ?thesis
  proof (cases "gget (fr_files st) fid")
    case None
    with New_ok[of st fid now] st ok OpNew have "idle (snd (frag_New st now fid))"
      "content (snd (frag_New st now fid)) = (content st)(fid \<mapsto> [])"
      by (auto simp: frag_op_ok_def frag_New_def frag_saved_def)
    moreover have "content st fid = None" using None by (simp add: frag_content_def)
    ultimately show ?thesis using OpNew by simp
  next
    case (Some f)
    then have "content st fid \<noteq> None" by (simp add: frag_content_def)
    with Some OpNew st show ?thesis by (auto simp: frag_New_def)
  qed
next
  case (OpAppend fid ps)
  show ?thesis
  proof (cases "gget (fr_files st) fid")
    case None
    with OpAppend st show ?thesis by (simp add: frag_Lookup_def frag_content_def)
  next
    case (Some f)
    obtain fw st1 st2 fw2 st3 where "file_Append S st fid = (Inr fw, st1)" "fragwriter_copy S st1 fw ps = (None, st2, fw2)"
      "fragwriter_Close S J st2 now fw2 = (None, st3)" "inv st3"
      "content st3 = (content st)(fid \<mapsto> the (content st fid) @ [concat ps])" "wst (fr_state st3) = wst (fr_state st)"
      "frag_put_saved cont J st fid st3"
      by (rule append_blocks_ok[OF conjunct1[OF st] Some])
    moreover have "content st fid \<noteq> None" using Some by (simp add: frag_content_def)
    ultimately show ?thesis using OpAppend Some st frag_saved_put by (auto simp: frag_Lookup_def)
  qed
next
  case (OpRollback fid)
  show ?thesis
  proof (cases "gget (fr_files st) fid")
    case None
    with OpRollback st show ?thesis by (simp add: file_Rollback_def frag_content_def)
  next
    case (Some f)
    show ?thesis
    proof (cases "file_Children f" rule: rev_cases)
      case Nil
      with OpRollback st Some show ?thesis by (auto simp: file_Rollback_def frag_content_def)
    next
      case (snoc cs c)
      obtain st' where "file_Rollback S J st now fid = (None, st')" "inv st'"
          "content st' = (content st)(fid \<mapsto> butlast (the (content st fid)))" "wst (fr_state st') = wst (fr_state st)"
          "frag_put_saved cont J st fid st'"
        by (rule Rollback_ok[OF conjunct1[OF st] Some snoc])
      moreover have "content st fid \<noteq> None" using Some by (simp add: frag_content_def)
      ultimately show ?thesis using OpRollback st frag_saved_put by auto
    qed
  qed
next
  case (OpDelete fid)
  show ?thesis
  proof (cases "gget (fr_files st) fid")
    case None
    then have "content st fid = None" by (simp add: frag_content_def)
    then have "(content st)(fid := None) = content st" by auto
    moreover have "frag_Delete S st fid = (None, st)" using None by (cases st) (simp add: frag_Delete_def gdel_id)
    ultimately show ?thesis using OpDelete st by simp
  next
    case (Some f)
    from st have closed: "\<And>w n b. 0 \<le> n \<Longrightarrow> wst (fr_state st) w \<noteq> Some (''f'' @ frag_key fid n, b)" by simp
    obtain st' where "frag_Delete S st fid = (None, st')" "inv st'" "content st' = (content st)(fid := None)"
        "wst (fr_state st') = wst (fr_state st)" "frag_saved cont J st'"
      using Delete_ok[OF conjunct1[OF st] Some closed] st by metis
    with OpDelete st show ?thesis by simp
  qed
qed (use st setters_ok[of st] in auto)

lemma frag_run_ok:
  assumes "idle st" and "\<forall>c \<in> set cs. frag_op_ok okkey (snd c)"
  shows "idle (frag_run S J cs st) \<and> content (frag_run S J cs st) = fold (\<lambda>c. frag_spec (snd c)) cs (content st)"
  using assms
proof (induction cs arbitrary: st)
  case (Cons c cs)
  have "idle (frag_step S J (fst c) (snd c) st) \<and> content (frag_step S J (fst c) (snd c) st) = frag_spec (snd c) (content st)"
    using Cons.prems by (intro frag_step_ok) auto
  with Cons show ?case by (simp add: frag_run_def)
qed (simp add: frag_run_def)

section \<open>Verification\<close>

lemma Verify_ok:
  assumes inv: "inv st" and f: "gget (fr_files st) fid = Some f"
  shows "\<exists>st'. file_Verify S H st fid =
     Some (((file_MD5 f = [] \<or> file_MD5 f = h_md5 H (concat (the (content st fid)))) \<and>
            (file_SHA256 f = [] \<or> file_SHA256 f = h_sha256 H (concat (the (content st fid)))), None), st') \<and>
     inv st' \<and> content st' = content st"
proof (cases "file_MD5 f = [] \<and> file_SHA256 f = []")
  case True
  with f inv show ?thesis by (simp add: file_Verify_def)
next
  case False
  obtain s' where s': "fragreader_copy S copy_buffer (fr_state st) (file_Open f) [] = Some ((concat (the (content st fid)), None), s')"
      "sinv s'" "cont s' = cont (fr_state st)" "wst s' = wst (fr_state st)"
    using Open_read_ok[OF inv f, of copy_buffer] by (auto simp: copy_buffer_def)
  have "inv (st\<lparr>fr_state := s'\<rparr>)" by (rule frag_inv_state[OF inv s'(2,3)]) (simp add: s'(4))
  moreover have "content (st\<lparr>fr_state := s'\<rparr>) = content st"
    unfolding frag_content_def fun_eq_iff by (simp add: s'(3) split: option.splits)
  moreover have "VerifyStreamHash H (concat (the (content st fid)), None) (file_MD5 f) (file_SHA256 f) =
     ((file_MD5 f = [] \<or> file_MD5 f = h_md5 H (concat (the (content st fid)))) \<and>
      (file_SHA256 f = [] \<or> file_SHA256 f = h_sha256 H (concat (the (content st fid)))), None)"
    using VerifyStreamHash_iff[of H "concat (the (content st fid))" None "file_MD5 f" "file_SHA256 f"]
      VerifyStreamHash_err[of H "concat (the (content st fid))" None "file_MD5 f" "file_SHA256 f"]
    by (simp add: prod_eq_iff)
  ultimately show ?thesis using f False s'(1) inv by (simp add: file_Verify_def)
qed

end

section \<open>The fragment store over the in-memory store\<close>

interpretation memfrag: fragments mem_ops mem_cont mem_wst "\<lambda>_. True" "\<lambda>_. True" mem_inv J for J :: "file_t json"
  by unfold_locales

abbreviation mfrag_inv :: "memory frag_store \<Rightarrow> bool" where
  "mfrag_inv \<equiv> frag_inv mem_cont mem_wst (\<lambda>_. True) mem_inv"

abbreviation mfrag_content :: "memory frag_store \<Rightarrow> string \<Rightarrow> bytes list option" where
  "mfrag_content \<equiv> frag_content mem_cont"

lemma mfrag_inv_empty: "mfrag_inv (frag_New_store NewMemory)"
  by (simp add: frag_inv_def frag_New_store_def gmap_ok_def gget_def)

lemma mfrag_file:
  assumes "mfrag_content st fid = Some b"
  obtains f where "gget (fr_files st) fid = Some f"
  using assms by (auto simp: frag_content_def split: option.splits)

lemma mfrag_run:
  fixes J :: "file_t json" and cs :: "(time \<times> frag_op) list"
  defines "st \<equiv> frag_run mem_ops J cs (frag_New_store NewMemory)"
  shows "mfrag_inv st" and "mem_wst (fr_state st) w = None" and "frag_saved mem_cont J st"
    and "mfrag_content st = fold (\<lambda>c. frag_spec (snd c)) cs Map.empty"
proof -
  have "mfrag_content (frag_New_store NewMemory) = Map.empty" "frag_saved mem_cont J (frag_New_store NewMemory)"
    "mem_wst (fr_state (frag_New_store NewMemory)) w = None" for w
    by (simp_all add: frag_content_def frag_saved_def frag_New_store_def fun_eq_iff gget_def)
  with memfrag.frag_run_ok[of "frag_New_store NewMemory" J cs]
  show "mfrag_inv st" and "mem_wst (fr_state st) w = None" and "frag_saved mem_cont J st"
    and "mfrag_content st = fold (\<lambda>c. frag_spec (snd c)) cs Map.empty"
    by (simp_all add: mfrag_inv_empty frag_op_ok_def st_def)
qed

lemma file_wf_size:
  assumes "file_wf cont okkey s fid f"
  shows "file_Size f = int (length (concat (map (\<lambda>c. the (cont s (''f'' @ frag_ID c))) (file_Children f))))"
proof -
  have "frag_Size c = int (length (the (cont s (''f'' @ frag_ID c))))" if "c \<in> set (file_Children f)" for c
    using assms that by (auto simp: file_wf_def)
  then have "map frag_Size (file_Children f) = map (\<lambda>c. int (length (the (cont s (''f'' @ frag_ID c))))) (file_Children f)"
    by simp
  moreover have "int (length (concat (map g cs))) = sum_list (map (\<lambda>c. int (length (g c))) cs)" for g :: "frag \<Rightarrow> bytes" and cs
    by (induction cs) simp_all
  moreover have "file_Size f = sum_list (map frag_Size (file_Children f))" using assms by (simp add: file_wf_def)
  ultimately show ?thesis by (simp only:)
qed

section \<open>Properties\<close>

text \<open>C9. After any sequence of operations on an empty fragment store, its files are those of
  the specification: \<open>Lookup\<close> finds exactly those names, \<open>Stat\<close> reports the number of
  bytes and fragments, and reading a file from its start, with a buffer of any size, ends and
  delivers the appended fragments in order, less those rolled back.\<close>

theorem fragment_store_refines:
  fixes J :: "file_t json" and cs :: "(time \<times> frag_op) list"
  defines "st \<equiv> frag_run mem_ops J cs (frag_New_store NewMemory)"
  shows "case fold (\<lambda>c. frag_spec (snd c)) cs Map.empty fid of
       None \<Rightarrow> frag_Lookup st fid = None
     | Some bs \<Rightarrow> (\<exists>f. frag_Lookup st fid = Some f \<and>
         st_Size (file_Stat f) = int (length (concat bs)) \<and> st_NFragments (file_Stat f) = int (length bs) \<and>
         (\<forall>n. 0 < n \<longrightarrow> (\<exists>s'. fragreader_copy mem_ops n (fr_state st) (file_Open f) [] = Some ((concat bs, None), s'))))"
proof -
  have inv: "mfrag_inv st" and content: "fold (\<lambda>c. frag_spec (snd c)) cs Map.empty = mfrag_content st"
    using mfrag_run[of J cs] by (simp_all add: st_def)
  show ?thesis
  proof (cases "gget (fr_files st) fid")
    case None
    then show ?thesis unfolding content by (simp add: frag_content_def frag_Lookup_def)
  next
    case (Some f)
    from memfrag.Open_read_ok[OF inv Some] Some file_wf_size[OF frag_invD(3)[OF inv Some]] show ?thesis
      unfolding content by (auto simp: frag_content_def frag_Lookup_def file_Stat_def)
  qed
qed

theorem fragment_store_refines_witness:
  "\<exists>f s'. frag_Lookup (frag_run mem_ops \<lparr>j_enc = \<lambda>_. [], j_dec = \<lambda>_. Inl ErrJSON\<rparr>
        [(0, OpNew ''a''), (1, OpAppend ''a'' [''xy'', ''z'']), (2, OpAppend ''a'' [''q'']), (3, OpRollback ''a'')]
        (frag_New_store NewMemory)) ''a'' = Some f \<and>
     st_Size (file_Stat f) = 3 \<and>
     fragreader_copy mem_ops 2 (fr_state (frag_run mem_ops \<lparr>j_enc = \<lambda>_. [], j_dec = \<lambda>_. Inl ErrJSON\<rparr>
        [(0, OpNew ''a''), (1, OpAppend ''a'' [''xy'', ''z'']), (2, OpAppend ''a'' [''q'']), (3, OpRollback ''a'')]
        (frag_New_store NewMemory))) (file_Open f) [] = Some ((''xyz'', None), s')"
proof -
  let ?cs = "[(0, OpNew ''a''), (1, OpAppend ''a'' [''xy'', ''z'']), (2, OpAppend ''a'' [''q'']), (3, OpRollback ''a'')]"
  have "fold (\<lambda>c. frag_spec (snd c)) ?cs Map.empty ''a'' = Some [''xyz'']" by simp
  with fragment_store_refines[where cs = ?cs and fid = "''a''" and J = "\<lparr>j_enc = \<lambda>_. [], j_dec = \<lambda>_. Inl ErrJSON\<rparr>"]
  show ?thesis by fastforce
qed


definition demo_file :: file_t where
  "demo_file = \<lparr>file_ID = ''a'', file_Size = 3, file_N = 1, file_Children = [\<lparr>frag_ID = ''a+0000'', frag_Size = 3\<rparr>],
     file_Created = 0, file_Modified = 1, file_Creator = '''', file_MD5 = [], file_SHA256 = [],
     file_MimeType = '''', file_Extra = ''''\<rparr>"

definition demo_json :: "file_t json" where
  "demo_json = \<lparr>j_enc = \<lambda>f. ''{\"ID\":\"a\"}'', j_dec = \<lambda>b. if b = ''{\"ID\":\"a\"}'' then Inr demo_file else Inl ErrJSON\<rparr>"

lemma demo_files:
  "fr_files (frag_run mem_ops demo_json [(0, OpNew ''a''), (1, OpAppend ''a'' [''xyz''])] (frag_New_store NewMemory)) =
   [(''a'', demo_file)]"
  by code_simp


text \<open>\<open>Verify\<close> ends without an error and answers whether the content of the file has the
  MD5 and SHA-256 sums recorded for it, a sum that is not recorded counting as matched; it changes
  no file.\<close>

theorem fragment_verify:
  fixes J :: "file_t json" and cs :: "(time \<times> frag_op) list"
  defines "st \<equiv> frag_run mem_ops J cs (frag_New_store NewMemory)"
  assumes "frag_Lookup st fid = Some f" and "fold (\<lambda>c. frag_spec (snd c)) cs Map.empty fid = Some bs"
  shows "\<exists>st'. file_Verify mem_ops H st fid =
       Some (((file_MD5 f = [] \<or> file_MD5 f = h_md5 H (concat bs)) \<and>
              (file_SHA256 f = [] \<or> file_SHA256 f = h_sha256 H (concat bs)), None), st') \<and>
     mfrag_content st' = mfrag_content st"
  using memfrag.Verify_ok[OF mfrag_run(1)[of J cs], folded st_def, of fid f H] assms(2,3)
    mfrag_run(4)[of J cs, folded st_def]
  by (auto simp: frag_Lookup_def)

theorem fragment_verify_witness:
  "\<exists>st'. file_Verify mem_ops \<lparr>h_md5 = rev, h_sha256 = \<lambda>b. b\<rparr>
     (frag_run mem_ops \<lparr>j_enc = \<lambda>_. [], j_dec = \<lambda>_. Inl ErrJSON\<rparr>
        [(0, OpNew ''a''), (1, OpAppend ''a'' [''xyz'']), (2, OpSetMD5 ''a'' ''zyx'')] (frag_New_store NewMemory)) ''a'' =
     Some ((True, None), st')"
proof -
  let ?cs = "[(0, OpNew ''a''), (1, OpAppend ''a'' [''xyz'']), (2, OpSetMD5 ''a'' ''zyx'')]"
  let ?J = "\<lparr>j_enc = \<lambda>_ :: file_t. [] :: bytes, j_dec = \<lambda>_. Inl ErrJSON\<rparr>"
  have spec: "fold (\<lambda>c. frag_spec (snd c)) ?cs Map.empty ''a'' = Some [''xyz'']" by simp
  have "map_option (\<lambda>f. (file_MD5 f, file_SHA256 f)) (frag_Lookup (frag_run mem_ops ?J ?cs (frag_New_store NewMemory)) ''a'') =
     Some (''zyx'', '''')" by code_simp
  then obtain f where f: "frag_Lookup (frag_run mem_ops ?J ?cs (frag_New_store NewMemory)) ''a'' = Some f"
    "file_MD5 f = ''zyx''" "file_SHA256 f = ''''" by auto
  from fragment_verify[OF f(1) spec, where H = "\<lparr>h_md5 = rev, h_sha256 = \<lambda>b. b\<rparr>"] f(2,3) show ?thesis by auto
qed

end
