(* ===== verification/Blobcache.thy ===== *)
theory Blobcache
  imports JSON_Store
begin

text \<open>
  The package blobcache: the LRU cache and the writer it shares with the time-based
  cache (src/blobcache/blobcache.go, writer.go, timebased.go) and the empty cache
  (empty.go). A cache keeps its contents in a store; only the bookkeeping is in
  memory.

  Every operation is one step under the locks of the Go code. A writer is a value
  of its own, held by the caller of \<open>Put\<close>; \<open>writer\<close> talks to its cache through the
  interface \<open>saver\<close>, which is a record of functions here. The pending set is a list
  without repetitions.
\<close>

section \<open>Writers\<close>

record 'w cwriter =
  cw_key :: string
  cw_w :: 'w
  cw_size :: int
  cw_deleteOnClose :: bool

text \<open>The interface \<open>saver\<close>, with the two calls on the wrapped writer.\<close>

record ('t, 'w) saver =
  sv_save :: "'w cwriter \<Rightarrow> 't \<Rightarrow> 't"
  sv_reserve :: "int \<Rightarrow> 't \<Rightarrow> error option \<times> 't"
  sv_discard :: "'w cwriter \<Rightarrow> 't \<Rightarrow> 't"
  sv_write :: "'t \<Rightarrow> 'w \<Rightarrow> bytes \<Rightarrow> (nat \<times> error option) \<times> 't"
  sv_close :: "'t \<Rightarrow> 'w \<Rightarrow> error option \<times> 't"

definition cwriter_Close :: "('t, 'w) saver \<Rightarrow> 't \<Rightarrow> 'w cwriter \<Rightarrow> error option \<times> 't" where
  "cwriter_Close sv t w =
     (let (err, t1) = sv_close sv t (cw_w w)
      in if err \<noteq> None \<or> cw_deleteOnClose w then (err, sv_discard sv w t1)
         else (None, sv_save sv w t1))"

definition cwriter_Write ::
  "('t, 'w) saver \<Rightarrow> 't \<Rightarrow> 'w cwriter \<Rightarrow> bytes \<Rightarrow> (nat \<times> error option) \<times> 't \<times> 'w cwriter" where
  "cwriter_Write sv t w p =
     (case sv_reserve sv (int (length p)) t of
        (Some e, t1) \<Rightarrow>
          ((0, Some e), t1, if e = ErrCacheFull then w\<lparr>cw_deleteOnClose := True\<rparr> else w)
      | (None, t1) \<Rightarrow>
          (let ((x, err), t2) = sv_write sv t1 (cw_w w) p;
               w1 = w\<lparr>cw_size := cw_size w + int x\<rparr>
           in ((x, err), t2, if err \<noteq> None then w1\<lparr>cw_deleteOnClose := True\<rparr> else w1)))"

text \<open>How both caches make a new object in their store: when the key exists, delete it and try
  again.\<close>

definition cache_create :: "('s, 'w, 'm) store_ops_scheme \<Rightarrow> 's \<Rightarrow> string \<Rightarrow> 'w result \<times> 's" where
  "cache_create S s key =
     (let (r, s1) = op_create S s key
      in if r = Inl ErrKeyExists then op_create S (snd (op_delete S s1 key)) key else (r, s1))"

section \<open>The LRU cache\<close>

record entry =
  e_key :: string
  e_size :: int

text \<open>The front of the list is the most recently used entry.\<close>

record 's lru =
  lru_s :: 's
  lru_size :: int
  lru_maxSize :: int
  lru_list :: "entry list"
  lru_pending :: "string list"

definition NewLRU :: "'s \<Rightarrow> int \<Rightarrow> 's lru" where
  "NewLRU s maxSize = \<lparr>lru_s = s, lru_size = 0, lru_maxSize = maxSize, lru_list = [], lru_pending = []\<rparr>"

definition lru_find :: "'s lru \<Rightarrow> string \<Rightarrow> entry option" where
  "lru_find t key = find (\<lambda>e. e_key e = key) (lru_list t)"

definition lru_Contains :: "'s lru \<Rightarrow> string \<Rightarrow> bool" where
  "lru_Contains t key = (lru_find t key \<noteq> None)"

text \<open>\<open>list.Remove\<close> of the element that \<open>find\<close> returned: the first one with the key.\<close>

fun remove_first :: "string \<Rightarrow> entry list \<Rightarrow> entry list" where
  "remove_first key [] = []"
| "remove_first key (e # es) = (if e_key e = key then es else e # remove_first key es)"

text \<open>The loop of \<open>reserve\<close>: evict from the back until the size is within the limit.\<close>

function lru_evict ::
  "('s, 'w, 'm) store_ops_scheme \<Rightarrow> int \<Rightarrow> 's lru \<Rightarrow> error option \<times> 's lru" where
  "lru_evict S sz t =
     (if lru_size t \<le> lru_maxSize t then (None, t)
      else if lru_list t = [] then (Some ErrCacheFull, t\<lparr>lru_size := lru_size t - sz\<rparr>)
      else
        (let e = last (lru_list t);
             (err, s1) = op_delete S (lru_s t) (e_key e);
             t1 = t\<lparr>lru_s := s1, lru_list := butlast (lru_list t)\<rparr>
         in if err \<noteq> None then (err, t1\<lparr>lru_size := lru_size t - sz\<rparr>)
            else lru_evict S sz (t1\<lparr>lru_size := lru_size t - e_size e\<rparr>)))"
  by pat_completeness auto
termination
  by (relation "measure (\<lambda>(S, sz, t). length (lru_list t))") auto

declare lru_evict.simps [simp del]

definition lru_reserve ::
  "('s, 'w, 'm) store_ops_scheme \<Rightarrow> int \<Rightarrow> 's lru \<Rightarrow> error option \<times> 's lru" where
  "lru_reserve S sz t = lru_evict S sz (t\<lparr>lru_size := lru_size t + sz\<rparr>)"

definition lru_linkEntry :: "entry \<Rightarrow> 's lru \<Rightarrow> 's lru" where
  "lru_linkEntry e t = t\<lparr>lru_list := e # lru_list t\<rparr>"

definition lru_Delete :: "('s, 'w, 'm) store_ops_scheme \<Rightarrow> 's lru \<Rightarrow> string \<Rightarrow> error option \<times> 's lru" where
  "lru_Delete S t key =
     (case lru_find t key of
        None \<Rightarrow> (None, t)
      | Some e \<Rightarrow>
          (let t1 = t\<lparr>lru_list := remove_first key (lru_list t)\<rparr>;
               (err, s2) = op_delete S (lru_s t1) (e_key e);
               (err2, t3) = lru_reserve S (- e_size e) (t1\<lparr>lru_s := s2\<rparr>)
           in (if err \<noteq> None then err else err2, t3)))"

text \<open>\<open>Get\<close>; a nil reader (a miss) is None.\<close>

definition lru_Get ::
  "('s, 'w, 'm) store_ops_scheme \<Rightarrow> 's lru \<Rightarrow> string \<Rightarrow> (bytes option \<times> error option) \<times> 's lru" where
  "lru_Get S t key =
     (case lru_find t key of
        None \<Rightarrow> ((None, None), t)
      | Some e \<Rightarrow>
          (let t1 = t\<lparr>lru_list := e # remove_first key (lru_list t)\<rparr>
           in case op_open S (lru_s t1) key of
                (Inr b, s2) \<Rightarrow> ((Some b, None), t1\<lparr>lru_s := s2\<rparr>)
              | (Inl err, s2) \<Rightarrow>
                  (let (err2, t3) = lru_Delete S (t1\<lparr>lru_s := s2\<rparr>) key in ((None, err2), t3))))"

definition lru_unpending :: "string \<Rightarrow> 's lru \<Rightarrow> 's lru" where
  "lru_unpending key t = t\<lparr>lru_pending := removeAll key (lru_pending t)\<rparr>"

definition lru_Put ::
  "('s, 'w, 'm) store_ops_scheme \<Rightarrow> 's lru \<Rightarrow> string \<Rightarrow> 'w cwriter result \<times> 's lru" where
  "lru_Put S t key =
     (if key \<in> set (lru_pending t) then (Inl ErrPutPending, t)
      else
        (let t1 = t\<lparr>lru_pending := key # lru_pending t\<rparr>;
             (r', s3) = cache_create S (lru_s t1) key;
             t3 = t1\<lparr>lru_s := s3\<rparr>
         in case r' of
              Inl e \<Rightarrow> (Inl e, lru_unpending key t3)
            | Inr w \<Rightarrow> (Inr \<lparr>cw_key = key, cw_w = w, cw_size = 0, cw_deleteOnClose = False\<rparr>, t3)))"

definition lru_discard :: "('s, 'w, 'm) store_ops_scheme \<Rightarrow> 'w cwriter \<Rightarrow> 's lru \<Rightarrow> 's lru" where
  "lru_discard S w t =
     (let t1 = snd (lru_Delete S t (cw_key w));
          t2 = lru_unpending (cw_key w) t1
      in snd (lru_reserve S (- cw_size w) t2))"

definition lru_save :: "'w cwriter \<Rightarrow> 's lru \<Rightarrow> 's lru" where
  "lru_save w t = lru_unpending (cw_key w) (lru_linkEntry \<lparr>e_key = cw_key w, e_size = cw_size w\<rparr> t)"

definition lru_saver :: "('s, 'w, 'm) store_ops_scheme \<Rightarrow> ('s lru, 'w) saver" where
  "lru_saver S = \<lparr>
     sv_save = lru_save,
     sv_reserve = lru_reserve S,
     sv_discard = lru_discard S,
     sv_write = (\<lambda>t w p. let (r, s') = op_write S (lru_s t) w p in (r, t\<lparr>lru_s := s'\<rparr>)),
     sv_close = (\<lambda>t w. let (err, s') = op_close S (lru_s t) w in (err, t\<lparr>lru_s := s'\<rparr>))\<rparr>"

fun lru_scan_keys :: "('s, 'w, 'm) store_ops_scheme \<Rightarrow> string list \<Rightarrow> 's lru \<Rightarrow> 's lru" where
  "lru_scan_keys S [] t = t"
| "lru_scan_keys S (key # keys) t =
     (if lru_Contains t key then lru_scan_keys S keys t
      else case op_open S (lru_s t) key of
        (Inl e, s1) \<Rightarrow> lru_scan_keys S keys (t\<lparr>lru_s := s1\<rparr>)
      | (Inr b, s1) \<Rightarrow>
          (case lru_reserve S (int (length b)) (t\<lparr>lru_s := s1\<rparr>) of
             (Some e, t2) \<Rightarrow> lru_scan_keys S keys (t2\<lparr>lru_s := snd (op_delete S (lru_s t2) key)\<rparr>)
           | (None, t2) \<Rightarrow>
               lru_scan_keys S keys (lru_linkEntry \<lparr>e_key = key, e_size = int (length b)\<rparr> t2)))"

definition lru_Scan :: "('s, 'w, 'm) store_ops_scheme \<Rightarrow> 's lru \<Rightarrow> 's lru" where
  "lru_Scan S t = lru_scan_keys S (op_list S (lru_s t)) t"

definition lru_MaxSize :: "'s lru \<Rightarrow> int" where
  "lru_MaxSize t = lru_maxSize t"

definition lru_Size :: "'s lru \<Rightarrow> int" where
  "lru_Size t = lru_size t"

section \<open>The empty cache\<close>

definition empty_Contains :: "string \<Rightarrow> bool" where
  "empty_Contains key = False"

definition empty_Get :: "string \<Rightarrow> bytes option \<times> error option" where
  "empty_Get key = (None, None)"

definition empty_Put :: "string \<Rightarrow> unit result" where
  "empty_Put key = Inr ()"

definition empty_Delete :: "string \<Rightarrow> error option" where
  "empty_Delete key = None"

definition empty_Size :: int where
  "empty_Size = 0"

definition empty_MaxSize :: int where
  "empty_MaxSize = 0"

section \<open>The time-based cache\<close>

definition indexFilename :: string where
  "indexFilename = ''ITEM-LIST''"

record timeEntry =
  te_Key :: string
  te_Size :: int
  te_Expires :: time

record 's timeBased =
  tb_s :: 's
  tb_ttl :: int
  tb_size :: int
  tb_items :: "(string, timeEntry) gomap"
  tb_pending :: "string list"
  tb_expireList :: "timeEntry list"

definition NewTime :: "'s \<Rightarrow> int \<Rightarrow> 's timeBased" where
  "NewTime s d = \<lparr>tb_s = s, tb_ttl = d, tb_size = 0, tb_items = [], tb_pending = [], tb_expireList = []\<rparr>"

definition tb_Contains :: "'s timeBased \<Rightarrow> string \<Rightarrow> bool" where
  "tb_Contains te key = (gget (tb_items te) key \<noteq> None)"

text \<open>\<open>delete\<close>, with the lock held.\<close>

definition tb_delete :: "('s, 'w, 'm) store_ops_scheme \<Rightarrow> 's timeBased \<Rightarrow> string \<Rightarrow> error option \<times> 's timeBased" where
  "tb_delete S te key =
     (case gget (tb_items te) key of
        None \<Rightarrow> (None, te)
      | Some item \<Rightarrow>
          (let (err, s1) = op_delete S (tb_s te) key
           in (err, te\<lparr>tb_size := tb_size te - te_Size item, tb_items := gdel key (tb_items te), tb_s := s1\<rparr>)))"

definition tb_Get ::
  "('s, 'w, 'm) store_ops_scheme \<Rightarrow> 's timeBased \<Rightarrow> time \<Rightarrow> string \<Rightarrow> (bytes option \<times> error option) \<times> 's timeBased" where
  "tb_Get S te now key =
     (case gget (tb_items te) key of
        None \<Rightarrow> ((None, None), te)
      | Some item \<Rightarrow>
          (let te1 = te\<lparr>tb_items := gset key (item\<lparr>te_Expires := now + tb_ttl te\<rparr>) (tb_items te)\<rparr>
           in case op_open S (tb_s te1) key of
                (Inr b, s2) \<Rightarrow> ((Some b, None), te1\<lparr>tb_s := s2\<rparr>)
              | (Inl e, s2) \<Rightarrow> ((None, Some e), snd (tb_delete S (te1\<lparr>tb_s := s2\<rparr>) key))))"

definition tb_unpending :: "string \<Rightarrow> 's timeBased \<Rightarrow> 's timeBased" where
  "tb_unpending key te = te\<lparr>tb_pending := removeAll key (tb_pending te)\<rparr>"

definition tb_Put ::
  "('s, 'w, 'm) store_ops_scheme \<Rightarrow> 's timeBased \<Rightarrow> string \<Rightarrow> 'w cwriter result \<times> 's timeBased" where
  "tb_Put S te key =
     (if key \<in> set (tb_pending te) then (Inl ErrPutPending, te)
      else
        (let te1 = te\<lparr>tb_pending := key # tb_pending te\<rparr>;
             (r', s3) = cache_create S (tb_s te1) key;
             te3 = te1\<lparr>tb_s := s3\<rparr>
         in case r' of
              Inl e \<Rightarrow> (Inl e, tb_unpending key te3)
            | Inr w \<Rightarrow> (Inr \<lparr>cw_key = key, cw_w = w, cw_size = 0, cw_deleteOnClose = False\<rparr>, te3)))"

definition tb_addEntry :: "time \<Rightarrow> timeEntry \<Rightarrow> 's timeBased \<Rightarrow> 's timeBased" where
  "tb_addEntry now entry te =
     (let entry' = entry\<lparr>te_Expires := now + tb_ttl te\<rparr>
      in te\<lparr>tb_items := gset (te_Key entry') entry' (tb_items te),
            tb_expireList := tb_expireList te @ [entry'],
            tb_size := tb_size te + te_Size entry'\<rparr>)"

definition tb_save :: "time \<Rightarrow> 'w cwriter \<Rightarrow> 's timeBased \<Rightarrow> 's timeBased" where
  "tb_save now w te =
     tb_unpending (cw_key w) (tb_addEntry now \<lparr>te_Key = cw_key w, te_Size = cw_size w, te_Expires = 0\<rparr> te)"

definition tb_discard :: "'w cwriter \<Rightarrow> 's timeBased \<Rightarrow> 's timeBased" where
  "tb_discard w te = tb_unpending (cw_key w) te"

definition tb_reserve :: "int \<Rightarrow> 's timeBased \<Rightarrow> error option \<times> 's timeBased" where
  "tb_reserve n te = (None, te)"

definition tb_saver :: "('s, 'w, 'm) store_ops_scheme \<Rightarrow> time \<Rightarrow> ('s timeBased, 'w) saver" where
  "tb_saver S now = \<lparr>
     sv_save = tb_save now,
     sv_reserve = tb_reserve,
     sv_discard = tb_discard,
     sv_write = (\<lambda>te w p. let (r, s') = op_write S (tb_s te) w p in (r, te\<lparr>tb_s := s'\<rparr>)),
     sv_close = (\<lambda>te w. let (err, s') = op_close S (tb_s te) w in (err, te\<lparr>tb_s := s'\<rparr>))\<rparr>"

text \<open>The index file. Its JSON is that of the map of items; a decoding error leaves the map empty.\<close>

definition tb_writeIndexFile ::
  "('s, 'w, 'm) store_ops_scheme \<Rightarrow> (string, timeEntry) gomap json \<Rightarrow> 's timeBased \<Rightarrow> 's timeBased" where
  "tb_writeIndexFile S J te =
     (let (err0, s1) = op_delete S (tb_s te) indexFilename;
          (err, s2) = store_put S s1 indexFilename (j_enc J (tb_items te))
      in te\<lparr>tb_s := s2\<rparr>)"

definition tb_Delete ::
  "('s, 'w, 'm) store_ops_scheme \<Rightarrow> (string, timeEntry) gomap json \<Rightarrow> 's timeBased \<Rightarrow> string \<Rightarrow> error option \<times> 's timeBased" where
  "tb_Delete S J te key =
     (let (err, te1) = tb_delete S te key in (err, tb_writeIndexFile S J te1))"

definition tb_Size :: "'s timeBased \<Rightarrow> int" where
  "tb_Size te = tb_size te"

definition tb_MaxSize :: "'s timeBased \<Rightarrow> int" where
  "tb_MaxSize te = 0"

text \<open>The loop of \<open>expireKeys\<close> over the sorted list: \<open>i\<close> entries have been passed. The range
  of the Go loop is the list as it was at the start, while the field may grow.\<close>

fun tb_expire_loop ::
  "('s, 'w, 'm) store_ops_scheme \<Rightarrow> time \<Rightarrow> nat \<Rightarrow> timeEntry list \<Rightarrow> 's timeBased \<Rightarrow> 's timeBased" where
  "tb_expire_loop S now i [] te = te"
| "tb_expire_loop S now i (item0 # rest) te =
     (if now < te_Expires item0 then te\<lparr>tb_expireList := drop i (tb_expireList te)\<rparr>
      else
        (let te1 =
           (case gget (tb_items te) (te_Key item0) of
              None \<Rightarrow> te
            | Some item \<Rightarrow>
                if now < te_Expires item then te\<lparr>tb_expireList := tb_expireList te @ [item]\<rparr>
                else snd (tb_delete S te (te_Key item)))
         in tb_expire_loop S now (Suc i) rest te1))"

definition tb_expireKeys :: "('s, 'w, 'm) store_ops_scheme \<Rightarrow> time \<Rightarrow> 's timeBased \<Rightarrow> 's timeBased" where
  "tb_expireKeys S now te =
     (let sorted = sort_key te_Expires (tb_expireList te)
      in tb_expire_loop S now 0 sorted (te\<lparr>tb_expireList := sorted\<rparr>))"

text \<open>The loop of \<open>background\<close>: one period after another, each with the time at which it fires.\<close>

definition tb_period :: "int \<Rightarrow> int" where
  "tb_period ttl = (let d = ttl div 4; day = 24 * 60 * 60 * 1000000000 in if day < d then day else d)"

fun tb_background ::
  "('s, 'w, 'm) store_ops_scheme \<Rightarrow> (string, timeEntry) gomap json \<Rightarrow> time list \<Rightarrow> 's timeBased \<Rightarrow> 's timeBased" where
  "tb_background S J [] te = te"
| "tb_background S J (now # ts) te = tb_background S J ts (tb_writeIndexFile S J (tb_expireKeys S now te))"

fun tb_index_items :: "timeEntry list \<Rightarrow> 's timeBased \<Rightarrow> 's timeBased" where
  "tb_index_items [] te = te"
| "tb_index_items (v # vs) te =
     tb_index_items vs
       (if gget (tb_items te) (te_Key v) = None
        then te\<lparr>tb_items := gset (te_Key v) v (tb_items te), tb_expireList := tb_expireList te @ [v],
                tb_size := tb_size te + te_Size v\<rparr>
        else te)"

definition tb_readIndexFile ::
  "('s, 'w, 'm) store_ops_scheme \<Rightarrow> (string, timeEntry) gomap json \<Rightarrow> 's timeBased \<Rightarrow> 's timeBased" where
  "tb_readIndexFile S J te =
     (case op_open S (tb_s te) indexFilename of
        (Inl e, s1) \<Rightarrow> te\<lparr>tb_s := s1\<rparr>
      | (Inr b, s1) \<Rightarrow>
          (let items = (case j_dec J b of Inl e \<Rightarrow> [] | Inr m \<Rightarrow> m)
           in tb_index_items (map snd items) (te\<lparr>tb_s := s1\<rparr>)))"

fun tb_scan_keys :: "('s, 'w, 'm) store_ops_scheme \<Rightarrow> time \<Rightarrow> string list \<Rightarrow> 's timeBased \<Rightarrow> 's timeBased" where
  "tb_scan_keys S now [] te = te"
| "tb_scan_keys S now (key # keys) te =
     (if key = indexFilename \<or> tb_Contains te key then tb_scan_keys S now keys te
      else case op_open S (tb_s te) key of
        (Inl e, s1) \<Rightarrow> tb_scan_keys S now keys (te\<lparr>tb_s := s1\<rparr>)
      | (Inr b, s1) \<Rightarrow>
          tb_scan_keys S now keys
            (tb_addEntry now \<lparr>te_Key = key, te_Size = int (length b), te_Expires = 0\<rparr> (te\<lparr>tb_s := s1\<rparr>)))"

definition tb_scanstore :: "('s, 'w, 'm) store_ops_scheme \<Rightarrow> time \<Rightarrow> 's timeBased \<Rightarrow> 's timeBased" where
  "tb_scanstore S now te = tb_scan_keys S now (op_list S (tb_s te)) te"

definition tb_Scan ::
  "('s, 'w, 'm) store_ops_scheme \<Rightarrow> (string, timeEntry) gomap json \<Rightarrow> time \<Rightarrow> 's timeBased \<Rightarrow> 's timeBased" where
  "tb_Scan S J now te = tb_writeIndexFile S J (tb_scanstore S now (tb_readIndexFile S J te))"

end
