(* ===== verification/Blobcache_Ops.thy ===== *)
theory Blobcache_Ops
  imports Blobcache
begin

text \<open>
  The interface \<open>blobcache.T\<close> as a record of operations, and the three caches that have it. Operations on
  the writer of \<open>Put\<close> belong to it. Every call that may read the clock takes the time.
\<close>

record ('b, 'v) cache_ops =
  bc_Contains :: "'b \<Rightarrow> string \<Rightarrow> bool"
  bc_Get :: "'b \<Rightarrow> time \<Rightarrow> string \<Rightarrow> (bytes option \<times> error option) \<times> 'b"
  bc_Put :: "'b \<Rightarrow> string \<Rightarrow> 'v result \<times> 'b"
  bc_Write :: "'b \<Rightarrow> time \<Rightarrow> 'v \<Rightarrow> bytes \<Rightarrow> (nat \<times> error option) \<times> 'b \<times> 'v"
  bc_Close :: "'b \<Rightarrow> time \<Rightarrow> 'v \<Rightarrow> error option \<times> 'b"
  bc_Delete :: "'b \<Rightarrow> string \<Rightarrow> error option \<times> 'b"
  bc_Size :: "'b \<Rightarrow> int"
  bc_MaxSize :: "'b \<Rightarrow> int"

definition lru_ops :: "('s, 'w, 'm) store_ops_scheme \<Rightarrow> ('s lru, 'w cwriter) cache_ops" where
  "lru_ops S = \<lparr>bc_Contains = lru_Contains, bc_Get = (\<lambda>t now. lru_Get S t), bc_Put = lru_Put S,
     bc_Write = (\<lambda>t now. cwriter_Write (lru_saver S) t), bc_Close = (\<lambda>t now. cwriter_Close (lru_saver S) t),
     bc_Delete = lru_Delete S, bc_Size = lru_Size, bc_MaxSize = lru_MaxSize\<rparr>"

definition tb_ops ::
  "('s, 'w, 'm) store_ops_scheme \<Rightarrow> (string, timeEntry) gomap json \<Rightarrow> ('s timeBased, 'w cwriter) cache_ops" where
  "tb_ops S J = \<lparr>bc_Contains = tb_Contains, bc_Get = tb_Get S, bc_Put = tb_Put S,
     bc_Write = (\<lambda>te now. cwriter_Write (tb_saver S now) te), bc_Close = (\<lambda>te now. cwriter_Close (tb_saver S now) te),
     bc_Delete = tb_Delete S J, bc_Size = tb_Size, bc_MaxSize = tb_MaxSize\<rparr>"

definition empty_ops :: "(unit, unit) cache_ops" where
  "empty_ops = \<lparr>bc_Contains = (\<lambda>_. empty_Contains), bc_Get = (\<lambda>t now key. (empty_Get key, t)), bc_Put = (\<lambda>t key. (empty_Put key, t)),
     bc_Write = (\<lambda>t now w p. ((length p, None), t, w)), bc_Close = (\<lambda>t now w. (None, t)),
     bc_Delete = (\<lambda>t key. (empty_Delete key, t)), bc_Size = (\<lambda>_. empty_Size), bc_MaxSize = (\<lambda>_. empty_MaxSize)\<rparr>"

end
