(* ===== verification/Blobcache_Correct.thy ===== *)
theory Blobcache_Correct
  imports Blobcache
begin

text \<open>
  Correctness of the caches. For the LRU cache: the invariant that relates the list
  of entries, the open writers and the store, and that the accounted size is exact
  and never above the maximum, in every state that the operations can reach. For the
  time-based cache: the accounted size, and that an expiry pass removes the expired
  items and no other.
\<close>

section \<open>What a cache needs of its store\<close>

text \<open>Beyond the contract of the interface: creating a key that exists either fails with
  \<open>ErrKeyExists\<close> or replaces the object.\<close>

locale cache_store = store S cont wst okkey okpre sinv
  for S :: "('s, 'w) store_ops" and cont wst okkey okpre sinv +
  assumes create_over:
    "sinv s \<Longrightarrow> okkey k \<Longrightarrow> cont s k = Some b \<Longrightarrow> \<forall>w c. wst s w \<noteq> Some (k, c) \<Longrightarrow>
     (\<exists>s'. op_create S s k = (Inl ErrKeyExists, s') \<and> sinv s' \<and> cont s' = cont s \<and> wst s' = wst s) \<or>
     (\<exists>w s'. op_create S s k = (Inr w, s') \<and> sinv s' \<and> cont s' = (cont s)(k := None) \<and>
             wst s w = None \<and> wst s' = (wst s)(w \<mapsto> (k, [])))"
begin

lemma cache_create_ok:
  assumes s: "sinv s" and k: "okkey k" and now: "\<forall>w c. wst s w \<noteq> Some (k, c)"
  obtains w s' where "cache_create S s k = (Inr w, s')" and "sinv s'" and "cont s' = (cont s)(k := None)"
    and "wst s w = None" and "wst s' = (wst s)(w \<mapsto> (k, []))"
proof (cases "cont s k")
  case None
  then have "(cont s)(k := None) = cont s" by auto
  with create_ok[OF s k None now] that show thesis by (auto simp: cache_create_def)
next
  case (Some b)
  from create_over[OF s k Some now] show thesis
  proof (elim disjE exE conjE)
    fix s1 assume s1: "op_create S s k = (Inl ErrKeyExists, s1)" "sinv s1" "cont s1 = cont s" "wst s1 = wst s"
    obtain s2 where s2: "op_delete S s1 k = (None, s2)" "sinv s2" "cont s2 = (cont s)(k := None)" "wst s2 = wst s"
      using delete_ok[OF s1(2) k] now s1(3,4) by metis
    then obtain w s3 where "op_create S s2 k = (Inr w, s3)" "sinv s3" "cont s3 = cont s2"
        "wst s2 w = None" "wst s3 = (wst s2)(w \<mapsto> (k, []))"
      using create_ok[OF s2(2) k] now by (metis fun_upd_same)
    with s1 s2 that show thesis by (simp add: cache_create_def)
  next
    fix w s' assume "op_create S s k = (Inr w, s')" "sinv s'" "cont s' = (cont s)(k := None)"
      "wst s w = None" "wst s' = (wst s)(w \<mapsto> (k, []))"
    with that show thesis by (simp add: cache_create_def)
  qed
qed

end

section \<open>The LRU list\<close>

lemma find_key_Some: "find (\<lambda>e. e_key e = key) es = Some e \<Longrightarrow> e \<in> set es \<and> e_key e = key"
  by (metis (mono_tags) find_Some_iff nth_mem)

lemma find_key_None: "find (\<lambda>e. e_key e = key) es = None \<longleftrightarrow> key \<notin> e_key ` set es"
  by (auto simp: find_None_iff)

lemma remove_first_set: "set (remove_first key es) \<subseteq> set es"
  by (induction es) auto

lemma remove_first_distinct:
  "distinct (map e_key es) \<Longrightarrow> set (remove_first key es) = {e \<in> set es. e_key e \<noteq> key} \<and>
     distinct (map e_key (remove_first key es))"
  by (induction es) (auto simp: image_iff)

lemma remove_first_sum:
  "find (\<lambda>e. e_key e = key) es = Some e \<Longrightarrow>
   sum_list (map e_size (remove_first key es)) = sum_list (map e_size es) - e_size e"
  by (induction es) (auto split: if_splits)

abbreviation entries_size :: "entry list \<Rightarrow> int" where
  "entries_size es \<equiv> sum_list (map e_size es)"

abbreviation writers_size :: "'w cwriter list \<Rightarrow> int" where
  "writers_size ws \<equiv> sum_list (map cw_size ws)"

section \<open>The invariant of the LRU cache\<close>

text \<open>\<open>lru_wf\<close> relates the entries and the open writers \<open>ws\<close> to the store: an entry is stored
  with its size, a writer has reserved what it has written, its key is pending, not stored and not
  in the list.\<close>

definition lru_wf ::
  "('s \<Rightarrow> string \<Rightarrow> bytes option) \<Rightarrow> ('s \<Rightarrow> 'w \<Rightarrow> (string \<times> bytes) option) \<Rightarrow> (string \<Rightarrow> bool) \<Rightarrow> ('s \<Rightarrow> bool) \<Rightarrow>
   's lru \<Rightarrow> 'w cwriter list \<Rightarrow> bool" where
  "lru_wf cont wst okkey sinv t ws =
     (sinv (lru_s t) \<and> distinct (map e_key (lru_list t) @ map cw_key ws) \<and>
      (\<forall>e \<in> set (lru_list t). okkey (e_key e) \<and>
         (\<exists>b. cont (lru_s t) (e_key e) = Some b \<and> e_size e = int (length b))) \<and>
      set (lru_pending t) = cw_key ` set ws \<and>
      (\<forall>w \<in> set ws. okkey (cw_key w) \<and> cont (lru_s t) (cw_key w) = None \<and>
         (\<exists>b. wst (lru_s t) (cw_w w) = Some (cw_key w, b) \<and> cw_size w = int (length b))) \<and>
      (\<forall>h k b. wst (lru_s t) h = Some (k, b) \<longrightarrow> (k, h) \<in> (\<lambda>w. (cw_key w, cw_w w)) ` set ws))"

text \<open>The accounting: the size is that of the entries and of the open writers, within the limit.\<close>

definition lru_inv ::
  "('s \<Rightarrow> string \<Rightarrow> bytes option) \<Rightarrow> ('s \<Rightarrow> 'w \<Rightarrow> (string \<times> bytes) option) \<Rightarrow> (string \<Rightarrow> bool) \<Rightarrow> ('s \<Rightarrow> bool) \<Rightarrow>
   's lru \<Rightarrow> 'w cwriter list \<Rightarrow> bool" where
  "lru_inv cont wst okkey sinv t ws =
     (lru_wf cont wst okkey sinv t ws \<and>
      lru_size t = entries_size (lru_list t) + writers_size ws \<and> lru_size t \<le> lru_maxSize t)"

lemma lru_wfI:
  assumes "sinv (lru_s t)" and "distinct (map e_key (lru_list t) @ map cw_key ws)"
    and "\<And>e. e \<in> set (lru_list t) \<Longrightarrow> okkey (e_key e) \<and> (\<exists>b. cont (lru_s t) (e_key e) = Some b \<and> e_size e = int (length b))"
    and "set (lru_pending t) = cw_key ` set ws"
    and "\<And>w. w \<in> set ws \<Longrightarrow> okkey (cw_key w) \<and> cont (lru_s t) (cw_key w) = None \<and>
           (\<exists>b. wst (lru_s t) (cw_w w) = Some (cw_key w, b) \<and> cw_size w = int (length b))"
    and "\<And>h k b. wst (lru_s t) h = Some (k, b) \<Longrightarrow> (k, h) \<in> (\<lambda>w. (cw_key w, cw_w w)) ` set ws"
  shows "lru_wf cont wst okkey sinv t ws"
  using assms unfolding lru_wf_def by blast

lemma entries_size_nonneg:
  assumes "lru_wf cont wst okkey sinv t ws"
  shows "0 \<le> entries_size (lru_list t)" and "0 \<le> writers_size ws"
proof -
  have "\<forall>e \<in> set (lru_list t). 0 \<le> e_size e" "\<forall>w \<in> set ws. 0 \<le> cw_size w"
    using assms by (auto simp: lru_wf_def)
  then show "0 \<le> entries_size (lru_list t)" "0 \<le> writers_size ws"
    by (auto intro!: sum_list_nonneg)
qed

lemma lru_wf_writer:
  assumes "lru_wf cont wst okkey sinv t ws" and "wst (lru_s t) h = Some (k, b)"
  obtains w where "w \<in> set ws" and "cw_key w = k" and "cw_w w = h"
proof -
  from assms have "(k, h) \<in> (\<lambda>w. (cw_key w, cw_w w)) ` set ws" unfolding lru_wf_def by blast
  with that show thesis by blast
qed

lemma lru_wf_writerD:
  assumes "lru_wf cont wst okkey sinv t ws" and "w \<in> set ws"
  obtains b where "wst (lru_s t) (cw_w w) = Some (cw_key w, b)" and "cw_size w = int (length b)"
    and "cont (lru_s t) (cw_key w) = None" and "okkey (cw_key w)"
proof -
  from assms obtain b where "wst (lru_s t) (cw_w w) = Some (cw_key w, b)" "cw_size w = int (length b)"
      "cont (lru_s t) (cw_key w) = None" "okkey (cw_key w)" unfolding lru_wf_def by blast
  with that show thesis .
qed

lemma lru_wf_no_writer:
  assumes "lru_wf cont wst okkey sinv t ws" and "e \<in> set (lru_list t)"
  shows "wst (lru_s t) h \<noteq> Some (e_key e, b)"
proof
  assume "wst (lru_s t) h = Some (e_key e, b)"
  then obtain w where "w \<in> set ws" "cw_key w = e_key e" by (rule lru_wf_writer[OF assms(1)])
  with assms show False by (auto simp: lru_wf_def)
qed

lemma lru_wf_sinv: "lru_wf cont wst okkey sinv t ws \<Longrightarrow> sinv (lru_s t)"
  by (simp add: lru_wf_def)

lemma lru_wf_size [simp]: "lru_wf cont wst okkey sinv (t\<lparr>lru_size := n\<rparr>) ws = lru_wf cont wst okkey sinv t ws"
  by (simp add: lru_wf_def)

context cache_store
begin

abbreviation wf :: "'s lru \<Rightarrow> 'w cwriter list \<Rightarrow> bool" where
  "wf \<equiv> lru_wf cont wst okkey sinv"

lemma evict_ok:
  assumes "wf t ws"
  shows "\<exists>err t'. lru_evict S sz t = (err, t') \<and> wf t' ws \<and> lru_maxSize t' = lru_maxSize t \<and>
     (\<exists>n. lru_list t' = take n (lru_list t) \<and> (\<forall>m. n < m \<longrightarrow> m \<le> length (lru_list t) \<longrightarrow>
        lru_maxSize t < entries_size (take m (lru_list t)) + (lru_size t - entries_size (lru_list t)))) \<and>
     (err = None \<longrightarrow> lru_size t' - entries_size (lru_list t') = lru_size t - entries_size (lru_list t) \<and> lru_size t' \<le> lru_maxSize t) \<and>
      (err \<noteq> None \<longrightarrow> err = Some ErrCacheFull \<and> lru_list t' = [] \<and> lru_size t' = lru_size t - entries_size (lru_list t) - sz \<and>
                  lru_maxSize t < lru_size t - entries_size (lru_list t)) \<and>
     (\<forall>k. k \<notin> e_key ` set (lru_list t) \<longrightarrow> cont (lru_s t') k = cont (lru_s t) k) \<and> wst (lru_s t') = wst (lru_s t)"
  using assms
proof (induction "length (lru_list t)" arbitrary: t rule: less_induct)
  case less
  show ?case
  proof (cases "lru_size t \<le> lru_maxSize t")
    case True
    then have "lru_evict S sz t = (None, t)" by (subst lru_evict.simps) simp
    with True less.prems show ?thesis by (intro exI[of _ None] exI[of _ t]) (auto intro: exI[of _ "length (lru_list t)"])
  next
    case over: False
    show ?thesis
    proof (cases "lru_list t" rule: rev_cases)
      case Nil
      with over have "lru_evict S sz t = (Some ErrCacheFull, t\<lparr>lru_size := lru_size t - sz\<rparr>)"
        by (subst lru_evict.simps) simp
      with Nil over less.prems show ?thesis by simp
    next
      case (snoc es e)
      have e: "okkey (e_key e)" "\<forall>w b. wst (lru_s t) w \<noteq> Some (e_key e, b)"
        using less.prems snoc lru_wf_no_writer[OF less.prems, of e] by (auto simp: lru_wf_def)
      obtain s1 where s1: "op_delete S (lru_s t) (e_key e) = (None, s1)" "sinv s1"
          "cont s1 = (cont (lru_s t))(e_key e := None)" "wst s1 = wst (lru_s t)"
        using delete_ok[OF _ e] less.prems by (auto simp: lru_wf_def)
      define t1 where "t1 = t\<lparr>lru_s := s1, lru_list := es, lru_size := lru_size t - e_size e\<rparr>"
      have eq: "lru_evict S sz t = lru_evict S sz t1"
        using over snoc s1(1) by (subst lru_evict.simps) (simp add: t1_def)
      have wf1: "wf t1 ws"
        using less.prems snoc s1 unfolding lru_wf_def t1_def by (auto simp: image_iff)
      have "length (lru_list t1) < length (lru_list t)" by (simp add: t1_def snoc)
      from less.hyps[OF this wf1] obtain err t' n where
        IH: "lru_evict S sz t1 = (err, t')" "wf t' ws" "lru_maxSize t' = lru_maxSize t1"
          "lru_list t' = take n (lru_list t1)" "\<forall>m. n < m \<longrightarrow> m \<le> length (lru_list t1) \<longrightarrow>
             lru_maxSize t1 < entries_size (take m (lru_list t1)) + (lru_size t1 - entries_size (lru_list t1))"
          "(err = None \<longrightarrow> lru_size t' - entries_size (lru_list t') = lru_size t1 - entries_size (lru_list t1) \<and> lru_size t' \<le> lru_maxSize t1) \<and>
      (err \<noteq> None \<longrightarrow> err = Some ErrCacheFull \<and> lru_list t' = [] \<and> lru_size t' = lru_size t1 - entries_size (lru_list t1) - sz \<and>
                  lru_maxSize t1 < lru_size t1 - entries_size (lru_list t1))"
          "\<forall>k. k \<notin> e_key ` set (lru_list t1) \<longrightarrow> cont (lru_s t') k = cont (lru_s t1) k" "wst (lru_s t') = wst (lru_s t1)"
        by blast
      have "lru_list t' = take (min n (length es)) (lru_list t)" using IH(4) snoc by (simp add: t1_def min_def)
      moreover have "lru_maxSize t < entries_size (take m (lru_list t)) + (lru_size t - entries_size (lru_list t))"
        if "min n (length es) < m" "m \<le> length (lru_list t)" for m
      proof (cases "m \<le> length es")
        case True
        with that IH(5)[rule_format, of m] snoc show ?thesis by (simp add: t1_def min_def split: if_splits)
      next
        case False
        with that snoc over show ?thesis by simp
      qed
      ultimately have pre: "\<exists>n. lru_list t' = take n (lru_list t) \<and> (\<forall>m. n < m \<longrightarrow> m \<le> length (lru_list t) \<longrightarrow>
        lru_maxSize t < entries_size (take m (lru_list t)) + (lru_size t - entries_size (lru_list t)))" by blast
      have keep: "\<forall>k. k \<notin> e_key ` set (lru_list t) \<longrightarrow> cont (lru_s t') k = cont (lru_s t) k"
        using IH(7) s1(3) snoc by (simp add: t1_def)
      show ?thesis
        by (intro exI[of _ err] exI[of _ t'] conjI pre keep) (use IH eq s1 snoc in \<open>auto simp: t1_def\<close>)
    qed
  qed
qed

abbreviation linv :: "'s lru \<Rightarrow> 'w cwriter list \<Rightarrow> bool" where
  "linv \<equiv> lru_inv cont wst okkey sinv"

text \<open>\<open>reserve\<close> of a size that is not negative: either the space is there, accounted for and taken
  from the least recently used entries, or the cache is full, everything has been evicted and
  nothing is reserved.\<close>

lemma reserve_ok:
  assumes inv: "linv t ws" and sz: "0 \<le> sz"
  obtains err t' where "lru_reserve S sz t = (err, t')" and "wf t' ws" and "lru_maxSize t' = lru_maxSize t"
    and "\<exists>n. lru_list t' = take n (lru_list t) \<and> (\<forall>m. n < m \<longrightarrow> m \<le> length (lru_list t) \<longrightarrow>
           lru_maxSize t < entries_size (take m (lru_list t)) + writers_size ws + sz)"
    and "err = None \<Longrightarrow> lru_size t' = entries_size (lru_list t') + writers_size ws + sz \<and> lru_size t' \<le> lru_maxSize t"
    and "err \<noteq> None \<Longrightarrow> err = Some ErrCacheFull \<and> linv t' ws \<and> lru_maxSize t < writers_size ws + sz"
    and "\<And>k. k \<notin> e_key ` set (lru_list t) \<Longrightarrow> cont (lru_s t') k = cont (lru_s t) k" and "wst (lru_s t') = wst (lru_s t)"
proof -
  let ?t = "t\<lparr>lru_size := lru_size t + sz\<rparr>"
  have wf: "wf ?t ws" and size: "lru_size t = entries_size (lru_list t) + writers_size ws" "lru_size t \<le> lru_maxSize t"
    using inv by (simp_all add: lru_inv_def)
  obtain err t' n where t': "lru_evict S sz ?t = (err, t')" "wf t' ws" "lru_maxSize t' = lru_maxSize t"
     "lru_list t' = take n (lru_list t)" "\<forall>m. n < m \<longrightarrow> m \<le> length (lru_list t) \<longrightarrow>
        lru_maxSize t < entries_size (take m (lru_list t)) + (lru_size ?t - entries_size (lru_list t))"
     "(err = None \<longrightarrow> lru_size t' - entries_size (lru_list t') = lru_size ?t - entries_size (lru_list t) \<and> lru_size t' \<le> lru_maxSize t) \<and>
      (err \<noteq> None \<longrightarrow> err = Some ErrCacheFull \<and> lru_list t' = [] \<and> lru_size t' = lru_size ?t - entries_size (lru_list t) - sz \<and>
                  lru_maxSize t < lru_size ?t - entries_size (lru_list t))"
     "\<forall>k. k \<notin> e_key ` set (lru_list t) \<longrightarrow> cont (lru_s t') k = cont (lru_s t) k" "wst (lru_s t') = wst (lru_s t)"
    using evict_ok[OF wf, of sz] by auto
  show thesis
  proof (rule that[of err t'])
    show "lru_reserve S sz t = (err, t')" using t'(1) by (simp add: lru_reserve_def)
    show "err \<noteq> None \<Longrightarrow> err = Some ErrCacheFull \<and> linv t' ws \<and> lru_maxSize t < writers_size ws + sz"
      using t'(2,3,6) size entries_size_nonneg[OF wf] by (auto simp: lru_inv_def)
    show "\<exists>n. lru_list t' = take n (lru_list t) \<and> (\<forall>m. n < m \<longrightarrow> m \<le> length (lru_list t) \<longrightarrow>
           lru_maxSize t < entries_size (take m (lru_list t)) + writers_size ws + sz)"
      using t'(4,5) size(1) by (intro exI[of _ n]) (simp add: add.assoc)
  qed (use t' size in auto)
qed

text \<open>Giving space back never evicts.\<close>

lemma unreserve:
  assumes "0 \<le> n" and "lru_size t \<le> lru_maxSize t"
  shows "lru_reserve S (- n) t = (None, t\<lparr>lru_size := lru_size t - n\<rparr>)"
  unfolding lru_reserve_def using assms by (subst lru_evict.simps) simp

lemma Delete_ok:
  assumes inv: "linv t ws"
  obtains t' where "lru_Delete S t key = (None, t')" and "linv t' ws" and "lru_maxSize t' = lru_maxSize t"
    and "\<not> lru_Contains t' key"
    and "key \<notin> e_key ` set (lru_list t) \<Longrightarrow> t' = t"
proof (cases "lru_find t key")
  case None
  then have "key \<notin> e_key ` set (lru_list t)" by (simp add: lru_find_def find_key_None)
  with None inv that[of t] show thesis by (simp add: lru_Delete_def lru_Contains_def)
next
  case (Some e)
  have wf: "wf t ws" and size: "lru_size t = entries_size (lru_list t) + writers_size ws" "lru_size t \<le> lru_maxSize t"
    using inv by (simp_all add: lru_inv_def)
  have e: "e \<in> set (lru_list t)" "e_key e = key" using Some find_key_Some by (auto simp: lru_find_def)
  have ok: "okkey key" "0 \<le> e_size e" using wf e by (auto simp: lru_wf_def)
  obtain s1 where s1: "op_delete S (lru_s t) key = (None, s1)" "sinv s1"
      "cont s1 = (cont (lru_s t))(key := None)" "wst s1 = wst (lru_s t)"
    using delete_ok[OF lru_wf_sinv[OF wf] ok(1)] lru_wf_no_writer[OF wf e(1)] e(2) by blast
  let ?t1 = "t\<lparr>lru_list := remove_first key (lru_list t), lru_s := s1\<rparr>"
  let ?t' = "?t1\<lparr>lru_size := lru_size t - e_size e\<rparr>"
  have dist: "distinct (map e_key (lru_list t))" using wf by (simp add: lru_wf_def)
  note rem = remove_first_distinct[OF dist, of key]
  have "wf ?t1 ws" using wf s1 rem e unfolding lru_wf_def by (auto simp: image_iff)
  moreover have "entries_size (remove_first key (lru_list t)) = entries_size (lru_list t) - e_size e"
    using Some remove_first_sum by (simp add: lru_find_def)
  ultimately have "linv ?t' ws" using size ok(2) by (simp add: lru_inv_def)
  moreover have "lru_Delete S t key = (None, ?t')"
    using Some e(2) s1(1) unreserve[OF ok(2), of ?t1] size(2) by (simp add: lru_Delete_def)
  moreover have "\<not> lru_Contains ?t' key"
    using rem by (auto simp: lru_Contains_def lru_find_def find_key_None image_iff)
  ultimately show thesis using e by (intro that[of ?t']) auto
qed

lemma Get_ok:
  assumes inv: "linv t ws"
  shows "if lru_Contains t key
     then \<exists>b t'. lru_Get S t key = ((Some b, None), t') \<and> cont (lru_s t) key = Some b \<and> linv t' ws \<and>
            lru_maxSize t' = lru_maxSize t \<and> e_key (hd (lru_list t')) = key \<and>
            set (lru_list t') = set (lru_list t)
     else lru_Get S t key = ((None, None), t)"
proof (cases "lru_find t key")
  case None
  then show ?thesis by (simp add: lru_Get_def lru_Contains_def)
next
  case (Some e)
  have wf: "wf t ws" and size: "lru_size t = entries_size (lru_list t) + writers_size ws" "lru_size t \<le> lru_maxSize t"
    using inv by (simp_all add: lru_inv_def)
  have e: "e \<in> set (lru_list t)" "e_key e = key" using Some find_key_Some by (auto simp: lru_find_def)
  obtain b where b: "okkey key" "cont (lru_s t) key = Some b" using wf e by (auto simp: lru_wf_def)
  obtain s1 where s1: "op_open S (lru_s t) key = (Inr b, s1)" "sinv s1" "cont s1 = cont (lru_s t)" "wst s1 = wst (lru_s t)"
    using open_hit[OF _ b] wf by (auto simp: lru_wf_def)
  let ?t' = "t\<lparr>lru_list := e # remove_first key (lru_list t), lru_s := s1\<rparr>"
  have dist: "distinct (map e_key (lru_list t))" using wf by (simp add: lru_wf_def)
  note rem = remove_first_distinct[OF dist, of key]
  have "set (lru_list ?t') = set (lru_list t)"
    using rem e dist by (auto simp: inj_on_def distinct_map)
  moreover have "distinct (map e_key (lru_list ?t') @ map cw_key ws)"
    using rem e wf by (auto simp: lru_wf_def)
  ultimately have "wf ?t' ws" using wf s1 unfolding lru_wf_def by auto
  moreover have "entries_size (lru_list ?t') = entries_size (lru_list t)"
    using Some remove_first_sum by (simp add: lru_find_def)
  ultimately have "linv ?t' ws" using size by (simp add: lru_inv_def)
  moreover have "lru_Get S t key = ((Some b, None), ?t')" using Some s1(1) by (simp add: lru_Get_def)
  moreover have "lru_Contains t key" using Some by (simp add: lru_Contains_def)
  ultimately show ?thesis using b e(2) \<open>set (lru_list ?t') = set (lru_list t)\<close> by auto
qed

lemma Put_ok:
  assumes inv: "linv t ws" and new: "\<not> lru_Contains t key" and ok: "okkey key"
  shows "if key \<in> cw_key ` set ws then lru_Put S t key = (Inl ErrPutPending, t)
     else \<exists>w t'. lru_Put S t key = (Inr w, t') \<and> linv t' (w # ws) \<and> cw_key w = key \<and> cw_size w = 0 \<and>
            lru_list t' = lru_list t \<and> lru_maxSize t' = lru_maxSize t"
proof (cases "key \<in> cw_key ` set ws")
  case True
  with inv show ?thesis by (simp add: lru_Put_def lru_inv_def lru_wf_def)
next
  case False
  have wf: "wf t ws" using inv by (simp add: lru_inv_def)
  have pend: "key \<notin> set (lru_pending t)" using wf False by (simp add: lru_wf_def)
  have "\<forall>h c. wst (lru_s t) h \<noteq> Some (key, c)" using lru_wf_writer[OF wf] False by (metis imageI)
  then obtain h s1 where s1: "cache_create S (lru_s t) key = (Inr h, s1)" "sinv s1"
      "cont s1 = (cont (lru_s t))(key := None)" "wst (lru_s t) h = None" "wst s1 = (wst (lru_s t))(h \<mapsto> (key, []))"
    using cache_create_ok[OF lru_wf_sinv[OF wf] ok] by metis
  let ?w = "\<lparr>cw_key = key, cw_w = h, cw_size = 0, cw_deleteOnClose = False\<rparr>"
  let ?t' = "t\<lparr>lru_pending := key # lru_pending t, lru_s := s1\<rparr>"
  have notin: "key \<notin> e_key ` set (lru_list t)" using new by (simp add: lru_Contains_def lru_find_def find_key_None)
  have writers: "\<forall>h' k b. wst s1 h' = Some (k, b) \<longrightarrow> (k, h') \<in> (\<lambda>w. (cw_key w, cw_w w)) ` set (?w # ws)"
  proof (intro allI impI)
    fix h' k b assume "wst s1 h' = Some (k, b)"
    then show "(k, h') \<in> (\<lambda>w. (cw_key w, cw_w w)) ` set (?w # ws)"
      using lru_wf_writer[OF wf, of h' k b] unfolding s1(5) by (cases "h' = h") auto
  qed
  have old: "\<forall>w \<in> set ws. okkey (cw_key w) \<and> cont s1 (cw_key w) = None \<and>
         (\<exists>b. wst s1 (cw_w w) = Some (cw_key w, b) \<and> cw_size w = int (length b))"
    using wf s1(4) unfolding s1(3,5) lru_wf_def by fastforce
  have "wf ?t' (?w # ws)"
  proof (rule lru_wfI, goal_cases)
    case (6 h' k b)
    then show ?case using writers by simp
  qed (use wf s1(2,3,5) notin False ok old in \<open>auto simp: lru_wf_def\<close>)
  then have "linv ?t' (?w # ws)" using inv by (simp add: lru_inv_def)
  moreover have "lru_Put S t key = (Inr ?w, ?t')" using pend s1(1) by (simp add: lru_Put_def)
  ultimately show ?thesis using False by auto
qed

lemma Write_ok:
  assumes inv: "linv t (ws1 @ w # ws2)"
  obtains r t' w' where "cwriter_Write (lru_saver S) t w p = (r, t', w')" and "linv t' (ws1 @ w' # ws2)"
    and "cw_key w' = cw_key w" and "lru_maxSize t' = lru_maxSize t"
    and "\<exists>n. lru_list t' = take n (lru_list t)"
    and "r = (length p, None) \<and> cw_size w' = cw_size w + int (length p) \<and> cw_deleteOnClose w' = cw_deleteOnClose w \<or>
         r = (0, Some ErrCacheFull) \<and> cw_deleteOnClose w' \<and> lru_maxSize t < writers_size (ws1 @ w # ws2) + int (length p)"
    and "\<And>b. snd r = None \<Longrightarrow> wst (lru_s t) (cw_w w) = Some (cw_key w, b) \<Longrightarrow>
           wst (lru_s t') (cw_w w') = Some (cw_key w', b @ p)"
proof -
  let ?ws = "ws1 @ w # ws2"
  have wf0: "wf t ?ws" using inv by (simp add: lru_inv_def)
  obtain err t1 where t1: "lru_reserve S (int (length p)) t = (err, t1)" "wf t1 ?ws" "lru_maxSize t1 = lru_maxSize t"
    "\<exists>n. lru_list t1 = take n (lru_list t)"
    "err = None \<Longrightarrow> lru_size t1 = entries_size (lru_list t1) + writers_size ?ws + int (length p) \<and> lru_size t1 \<le> lru_maxSize t"
    "err \<noteq> None \<Longrightarrow> err = Some ErrCacheFull \<and> linv t1 ?ws \<and> lru_maxSize t < writers_size ?ws + int (length p)"
    "wst (lru_s t1) = wst (lru_s t)"
    by (rule reserve_ok[OF inv, of "int (length p)"]) (simp, blast)
  show thesis
  proof (cases err)
    case (Some e)
    let ?w = "w\<lparr>cw_deleteOnClose := True\<rparr>"
    have "linv t1 (ws1 @ ?w # ws2)" using t1(6) Some by (simp add: lru_inv_def lru_wf_def)
    moreover have "cwriter_Write (lru_saver S) t w p = ((0, Some ErrCacheFull), t1, ?w)"
      using t1(1,6) Some by (simp add: cwriter_Write_def lru_saver_def)
    ultimately show thesis using t1(3,4,6) Some by (intro that[of "(0, Some ErrCacheFull)" t1 ?w]) auto
  next
    case None
    obtain b where b: "wst (lru_s t1) (cw_w w) = Some (cw_key w, b)" "cw_size w = int (length b)"
      using lru_wf_writerD[OF t1(2), of w] by auto
    obtain s2 where s2: "op_write S (lru_s t1) (cw_w w) p = ((length p, None), s2)" "sinv s2" "cont s2 = cont (lru_s t1)"
        "wst s2 = (wst (lru_s t1))(cw_w w \<mapsto> (cw_key w, b @ p))"
      using write_ok[OF lru_wf_sinv[OF t1(2)] b(1), of p] by blast
    let ?w = "w\<lparr>cw_size := cw_size w + int (length p)\<rparr>" and ?t = "t1\<lparr>lru_s := s2\<rparr>"
    have handle: "cw_w v \<noteq> cw_w w" if v: "v \<in> set ws1 \<union> set ws2" for v
    proof
      assume "cw_w v = cw_w w"
      moreover obtain c where "wst (lru_s t1) (cw_w v) = Some (cw_key v, c)"
        using lru_wf_writerD[OF t1(2), of v] v by auto
      ultimately have "cw_key v = cw_key w" using b(1) by simp
      with t1(2) v show False by (auto simp: lru_wf_def image_iff)
    qed
    have writers: "\<forall>h k c. wst s2 h = Some (k, c) \<longrightarrow> (k, h) \<in> (\<lambda>w. (cw_key w, cw_w w)) ` set (ws1 @ ?w # ws2)"
    proof (intro allI impI)
      fix h k c assume h: "wst s2 h = Some (k, c)"
      show "(k, h) \<in> (\<lambda>w. (cw_key w, cw_w w)) ` set (ws1 @ ?w # ws2)"
        using h lru_wf_writer[OF t1(2), of h k c] unfolding s2(4) by (cases "h = cw_w w") auto
    qed
    have others: "\<forall>v \<in> set ws1 \<union> set ws2. okkey (cw_key v) \<and> cont s2 (cw_key v) = None \<and>
         (\<exists>b. wst s2 (cw_w v) = Some (cw_key v, b) \<and> cw_size v = int (length b))"
      using t1(2) handle unfolding s2(3,4) lru_wf_def by auto
    have "wf ?t (ws1 @ ?w # ws2)"
    proof (rule lru_wfI, goal_cases)
      case (5 v)
      have "okkey (cw_key w)" "cont (lru_s t1) (cw_key w) = None" using t1(2) by (simp_all add: lru_wf_def)
      then have "okkey (cw_key ?w) \<and> cont s2 (cw_key ?w) = None \<and> wst s2 (cw_w ?w) = Some (cw_key ?w, b @ p)"
        unfolding s2(3,4) by simp
      with 5 others b(2) show ?case by auto
    next
      case (6 h k c)
      then show ?case using writers by simp
    qed (use t1(2) s2(2,3) in \<open>simp_all add: lru_wf_def\<close>)
    then have "linv ?t (ws1 @ ?w # ws2)" using t1(3,5) None by (simp add: lru_inv_def)
    moreover have "cwriter_Write (lru_saver S) t w p = ((length p, None), ?t, ?w)"
      using t1(1) None s2(1) by (simp add: cwriter_Write_def lru_saver_def)
    ultimately show thesis using t1(3,4) b(1) t1(7) s2(4) by (intro that[of "(length p, None)" ?t ?w]) auto
  qed
qed

text \<open>Closing a writer: a sound object enters the cache as the most recently used one with the bytes
  that were written; one that did not fit is forgotten and its space given back.\<close>

lemma Close_ok:
  assumes inv: "linv t (ws1 @ w # ws2)"
  obtains t' where "cwriter_Close (lru_saver S) t w = (None, t')" and "linv t' (ws1 @ ws2)"
    and "lru_maxSize t' = lru_maxSize t"
    and "lru_list t' = (if cw_deleteOnClose w then lru_list t
                        else \<lparr>e_key = cw_key w, e_size = cw_size w\<rparr> # lru_list t)"
    and "\<exists>b. wst (lru_s t) (cw_w w) = Some (cw_key w, b) \<and> cont (lru_s t') = (cont (lru_s t))(cw_key w \<mapsto> b)"
proof -
  have wf0: "wf t (ws1 @ w # ws2)" and size: "lru_size t = entries_size (lru_list t) + writers_size (ws1 @ w # ws2)"
      "lru_size t \<le> lru_maxSize t"
    using inv by (simp_all add: lru_inv_def)
  obtain b where b: "wst (lru_s t) (cw_w w) = Some (cw_key w, b)" "cw_size w = int (length b)"
      "cont (lru_s t) (cw_key w) = None" "okkey (cw_key w)"
    using lru_wf_writerD[OF wf0, of w] by auto
  obtain s1 where s1: "op_close S (lru_s t) (cw_w w) = (None, s1)" "sinv s1" "cont s1 = (cont (lru_s t))(cw_key w \<mapsto> b)"
      "wst s1 = (wst (lru_s t))(cw_w w := None)"
    using close_ok[OF lru_wf_sinv[OF wf0] b(1,3)] by blast
  have notin: "cw_key w \<notin> e_key ` set (lru_list t)" "cw_key w \<notin> cw_key ` set ws1" "cw_key w \<notin> cw_key ` set ws2"
    using wf0 by (auto simp: lru_wf_def)
  have others: "\<forall>v \<in> set ws1 \<union> set ws2. okkey (cw_key v) \<and> cont s1 (cw_key v) = None \<and>
         (\<exists>b. wst s1 (cw_w v) = Some (cw_key v, b) \<and> cw_size v = int (length b))"
  proof
    fix v assume v: "v \<in> set ws1 \<union> set ws2"
    then obtain c where c: "okkey (cw_key v)" "cont (lru_s t) (cw_key v) = None"
        "wst (lru_s t) (cw_w v) = Some (cw_key v, c)" "cw_size v = int (length c)"
      using lru_wf_writerD[OF wf0, of v] by auto
    have "cw_key v \<noteq> cw_key w" using v notin(2,3) by (metis UnE imageI)
    then have "cw_w v \<noteq> cw_w w" using b(1) c(3) by auto
    with c \<open>cw_key v \<noteq> cw_key w\<close> show "okkey (cw_key v) \<and> cont s1 (cw_key v) = None \<and>
         (\<exists>b. wst s1 (cw_w v) = Some (cw_key v, b) \<and> cw_size v = int (length b))"
      unfolding s1(3,4) by auto
  qed
  have writers: "\<forall>h k c. wst s1 h = Some (k, c) \<longrightarrow> (k, h) \<in> (\<lambda>w. (cw_key w, cw_w w)) ` set (ws1 @ ws2)"
  proof (intro allI impI)
    fix h k c assume "wst s1 h = Some (k, c)"
    then have "h \<noteq> cw_w w" "wst (lru_s t) h = Some (k, c)" unfolding s1(4) by (auto split: if_splits)
    with lru_wf_writer[OF wf0, of h k c] show "(k, h) \<in> (\<lambda>w. (cw_key w, cw_w w)) ` set (ws1 @ ws2)" by fastforce
  qed
  let ?t1 = "t\<lparr>lru_s := s1\<rparr>"
  have pend: "set (removeAll (cw_key w) (lru_pending t)) = cw_key ` (set ws1 \<union> set ws2)"
    using wf0 notin(2,3) by (simp add: lru_wf_def image_Un)
  have wf1: "wf (lru_unpending (cw_key w) ?t1) (ws1 @ ws2)"
  proof (rule lru_wfI, goal_cases)
    case (6 h k c)
    then show ?case using writers by (simp add: lru_unpending_def)
  qed (use wf0 s1(2,3) notin others pend in \<open>auto simp: lru_wf_def lru_unpending_def\<close>)
  show thesis
  proof (cases "cw_deleteOnClose w")
    case True
    let ?t' = "lru_unpending (cw_key w) ?t1\<lparr>lru_size := lru_size t - cw_size w\<rparr>"
    have "lru_find ?t1 (cw_key w) = None" using notin(1) by (simp add: lru_find_def find_key_None)
    then have "lru_discard S w ?t1 = ?t'"
      using unreserve[of "cw_size w" "lru_unpending (cw_key w) ?t1"] b(2) size(2)
      by (simp add: lru_discard_def lru_Delete_def lru_unpending_def)
    moreover have "linv ?t' (ws1 @ ws2)" using wf1 size b(2) by (simp add: lru_inv_def lru_unpending_def)
    ultimately show thesis using True s1(1,3) b(1)
      by (intro that[of ?t']) (auto simp: cwriter_Close_def lru_saver_def lru_unpending_def)
  next
    case False
    let ?e = "\<lparr>e_key = cw_key w, e_size = cw_size w\<rparr>"
    let ?t' = "lru_save w ?t1"
    have "wf ?t' (ws1 @ ws2)"
      using wf1 notin b s1(3) unfolding lru_wf_def lru_save_def lru_linkEntry_def lru_unpending_def by auto
    then have "linv ?t' (ws1 @ ws2)"
      using size by (simp add: lru_inv_def lru_save_def lru_linkEntry_def lru_unpending_def)
    with False s1(1,3) b(1) show thesis
      by (intro that[of ?t']) (auto simp: cwriter_Close_def lru_saver_def lru_save_def lru_linkEntry_def lru_unpending_def)
  qed
qed

lemma scan_keys_ok:
  assumes "linv t ws" and "\<forall>k \<in> set keys. okkey k"
  shows "linv (lru_scan_keys S keys t) ws \<and> lru_maxSize (lru_scan_keys S keys t) = lru_maxSize t"
  using assms
proof (induction keys arbitrary: t)
  case Nil
  then show ?case by simp
next
  case (Cons k keys)
  show ?case
  proof (cases "lru_Contains t k")
    case True
    with Cons show ?thesis by simp
  next
    case False
    then have notin: "k \<notin> e_key ` set (lru_list t)" by (simp add: lru_Contains_def lru_find_def find_key_None)
    have wf: "wf t ws" and ok: "okkey k" using Cons.prems by (simp_all add: lru_inv_def)
    show ?thesis
    proof (cases "cont (lru_s t) k")
      case None
      obtain e s1 where s1: "op_open S (lru_s t) k = (Inl e, s1)" "sinv s1" "cont s1 = cont (lru_s t)" "wst s1 = wst (lru_s t)"
        using open_miss[OF lru_wf_sinv[OF wf] ok None] by blast
      then have "linv (t\<lparr>lru_s := s1\<rparr>) ws" using Cons.prems(1) by (simp add: lru_inv_def lru_wf_def)
      with Cons.IH[of "t\<lparr>lru_s := s1\<rparr>"] Cons.prems(2) False s1(1) show ?thesis by simp
    next
      case (Some b)
      obtain s1 where s1: "op_open S (lru_s t) k = (Inr b, s1)" "sinv s1" "cont s1 = cont (lru_s t)" "wst s1 = wst (lru_s t)"
        using open_hit[OF lru_wf_sinv[OF wf] ok Some] by blast
      let ?t1 = "t\<lparr>lru_s := s1\<rparr>"
      have inv1: "linv ?t1 ws" using Cons.prems(1) s1 by (simp add: lru_inv_def lru_wf_def)
      have fresh: "k \<notin> cw_key ` set ws" using wf Some by (auto simp: lru_wf_def)
      obtain err t2 where t2: "lru_reserve S (int (length b)) ?t1 = (err, t2)" "wf t2 ws" "lru_maxSize t2 = lru_maxSize t"
        "\<exists>n. lru_list t2 = take n (lru_list t)"
        "err = None \<Longrightarrow> lru_size t2 = entries_size (lru_list t2) + writers_size ws + int (length b) \<and> lru_size t2 \<le> lru_maxSize t"
        "err \<noteq> None \<Longrightarrow> linv t2 ws" "cont (lru_s t2) k = Some b"
      proof (rule reserve_ok[OF inv1, of "int (length b)"], simp, goal_cases)
        case (1 err t2)
        have "cont (lru_s t2) k = Some b" using 1(8)[of k] notin Some s1(3) by simp
        then show ?case by (intro 1(1)[OF 1(2)]) (use 1(3-7) in auto)
      qed
      from t2(4) have "set (lru_list t2) \<subseteq> set (lru_list t)" by (auto dest: in_set_takeD)
      then have notin2: "k \<notin> e_key ` set (lru_list t2)" using notin by blast
      show ?thesis
      proof (cases err)
        case err: (Some e)
        have "\<forall>h c. wst (lru_s t2) h \<noteq> Some (k, c)" using lru_wf_writer[OF t2(2)] fresh by (metis imageI)
        then obtain s3 where s3: "op_delete S (lru_s t2) k = (None, s3)" "sinv s3"
            "cont s3 = (cont (lru_s t2))(k := None)" "wst s3 = wst (lru_s t2)"
          using delete_ok[OF lru_wf_sinv[OF t2(2)] ok] by blast
        have "wf (t2\<lparr>lru_s := s3\<rparr>) ws" using t2(2) s3 notin2 unfolding lru_wf_def by (auto simp: image_iff)
        then have "linv (t2\<lparr>lru_s := s3\<rparr>) ws" using t2(6) err by (simp add: lru_inv_def)
        with Cons.IH[of "t2\<lparr>lru_s := s3\<rparr>"] Cons.prems(2) False s1(1) t2(1,3) err s3(1) show ?thesis by simp
      next
        case None
        let ?e = "\<lparr>e_key = k, e_size = int (length b)\<rparr>"
        have "wf (lru_linkEntry ?e t2) ws" using t2(2,7) notin2 fresh ok unfolding lru_wf_def lru_linkEntry_def by simp
        then have "linv (lru_linkEntry ?e t2) ws" using t2(3,5) None by (simp add: lru_inv_def lru_linkEntry_def)
        with Cons.IH[of "lru_linkEntry ?e t2"] Cons.prems(2) False s1(1) t2(1,3) None show ?thesis
          by (simp add: lru_linkEntry_def)
      qed
    qed
  qed
qed

end

section \<open>Reachable states of the LRU cache\<close>

text \<open>The states that an LRU cache over the store \<open>s0\<close> can reach, with its open writers. A client
  asks \<open>Contains\<close> before it adds content, so a \<open>Put\<close> is for a key that is not in the cache.\<close>

inductive lru_reach ::
  "('s, 'w) store_ops \<Rightarrow> (string \<Rightarrow> bool) \<Rightarrow> 's \<Rightarrow> int \<Rightarrow> 's lru \<Rightarrow> 'w cwriter list \<Rightarrow> bool"
  for S okkey s0 maxSize where
  lru_init: "lru_reach S okkey s0 maxSize (NewLRU s0 maxSize) []"
| lru_scan: "lru_reach S okkey s0 maxSize t ws \<Longrightarrow> \<forall>k \<in> set (op_list S (lru_s t)). okkey k \<Longrightarrow>
    lru_reach S okkey s0 maxSize (lru_Scan S t) ws"
| lru_put: "lru_reach S okkey s0 maxSize t ws \<Longrightarrow> \<not> lru_Contains t key \<Longrightarrow> okkey key \<Longrightarrow>
    lru_Put S t key = (Inr w, t') \<Longrightarrow> lru_reach S okkey s0 maxSize t' (w # ws)"
| lru_put_err: "lru_reach S okkey s0 maxSize t ws \<Longrightarrow> \<not> lru_Contains t key \<Longrightarrow> okkey key \<Longrightarrow>
    lru_Put S t key = (Inl e, t') \<Longrightarrow> lru_reach S okkey s0 maxSize t' ws"
| lru_write: "lru_reach S okkey s0 maxSize t (ws1 @ w # ws2) \<Longrightarrow> cwriter_Write (lru_saver S) t w p = (r, t', w') \<Longrightarrow>
    lru_reach S okkey s0 maxSize t' (ws1 @ w' # ws2)"
| lru_close: "lru_reach S okkey s0 maxSize t (ws1 @ w # ws2) \<Longrightarrow> cwriter_Close (lru_saver S) t w = (err, t') \<Longrightarrow>
    lru_reach S okkey s0 maxSize t' (ws1 @ ws2)"
| lru_get: "lru_reach S okkey s0 maxSize t ws \<Longrightarrow> lru_Get S t key = (r, t') \<Longrightarrow> lru_reach S okkey s0 maxSize t' ws"
| lru_delete: "lru_reach S okkey s0 maxSize t ws \<Longrightarrow> lru_Delete S t key = (err, t') \<Longrightarrow> lru_reach S okkey s0 maxSize t' ws"

context cache_store
begin

lemma reach_inv:
  assumes "lru_reach S okkey s0 maxSize t ws" and "sinv s0" and "\<forall>h. wst s0 h = None" and "0 \<le> maxSize"
  shows "linv t ws \<and> lru_maxSize t = maxSize"
  using assms(1)
proof (induction rule: lru_reach.induct)
  case lru_init
  show ?case using assms(2-4) by (simp add: lru_inv_def lru_wf_def NewLRU_def)
next
  case (lru_scan t ws)
  then show ?case using scan_keys_ok[of t ws "op_list S (lru_s t)"] by (simp add: lru_Scan_def)
next
  case (lru_put t ws key w t')
  then show ?case using Put_ok[of t ws key] by (auto split: if_splits)
next
  case (lru_put_err t ws key e t')
  then show ?case using Put_ok[of t ws key] by (auto split: if_splits)
next
  case (lru_write t ws1 w ws2 p r t' w')
  then show ?case using Write_ok[of t ws1 w ws2 p] by (metis prod.inject)
next
  case (lru_close t ws1 w ws2 err t')
  then show ?case using Close_ok[of t ws1 w ws2] by (metis prod.inject)
next
  case (lru_get t ws key r t')
  then show ?case using Get_ok[of t ws key] by (auto split: if_splits)
next
  case (lru_delete t ws key err t')
  then show ?case using Delete_ok[of t ws key] by (metis prod.inject)
qed

end

lemma gset_distinct_snd: "distinct (map snd m) \<Longrightarrow> a \<notin> snd ` set m \<Longrightarrow> distinct (map snd (gset k a m))"
proof (induction m)
  case (Cons p m)
  have "snd ` set (gset k a m) \<subseteq> insert a (snd ` set m)"
    by (induction m) auto
  with Cons show ?case by auto
qed simp

lemma gset_snd: "snd ` set (gset k a m) \<subseteq> insert a (snd ` set m)"
  by (induction m) auto

lemma mem_create_over:
  assumes inv: "mem_inv s" and old: "mem_cont s k = Some b"
  shows "\<exists>w s'. mem_Create s k = (Inr w, s') \<and> mem_inv s' \<and> mem_cont s' = (mem_cont s)(k := None) \<and>
     mem_wst s w = None \<and> mem_wst s' = (mem_wst s)(w \<mapsto> (k, []))"
proof -
  let ?a = "length (m_heap s)"
  define s' where "s' = s\<lparr>m_heap := m_heap s @ [\<lparr>iswrite = True, b_bytes = []\<rparr>], m_store := gset k ?a (m_store s)\<rparr>"
  have lt: "gget (m_store s) k' = Some a \<Longrightarrow> a < ?a" for k' a using mem_addr_lt[OF inv] by blast
  obtain a0 where a0: "gget (m_store s) k = Some a0" "\<not> iswrite (m_heap s ! a0)"
    using old by (auto simp: mem_cont_def split: option.splits if_splits)
  have fresh: "?a \<notin> snd ` set (m_store s)" using inv by (auto simp: mem_inv_def)
  have "a < Suc ?a" if "a \<in> snd ` set (gset k ?a (m_store s))" for a
  proof -
    have "a = ?a \<or> a \<in> snd ` set (m_store s)" using gset_snd[of k ?a "m_store s"] that by blast
    with inv show ?thesis by (auto simp: mem_inv_def)
  qed
  then have inv': "mem_inv s'"
    using inv gset_distinct_snd[OF _ fresh, of k] by (auto simp: mem_inv_def s'_def)
  have get': "gget (m_store s') = (gget (m_store s))(k \<mapsto> ?a)" and heap': "m_heap s' = m_heap s @ [\<lparr>iswrite = True, b_bytes = []\<rparr>]"
    by (simp_all add: s'_def)
  have cont': "mem_cont s' = (mem_cont s)(k := None)"
    using lt by (auto simp: mem_cont_def get' heap' nth_append fun_eq_iff split: option.splits)
  have none: "mem_wst s ?a = None"
    using lt mem_wst_iff[OF inv, of ?a] by (cases "mem_wst s ?a") fastforce+
  have "mem_wst s' w = ((mem_wst s)(?a \<mapsto> (k, []))) w" for w
  proof (rule option_eqI)
    fix x :: "string \<times> bytes"
    obtain k' b where x: "x = (k', b)" by fastforce
    show "mem_wst s' w = Some x \<longleftrightarrow> ((mem_wst s)(?a \<mapsto> (k, []))) w = Some x"
      using mem_wst_iff[OF inv', of w k' b] mem_wst_iff[OF inv, of w k' b] lt a0
      by (cases "k' = k"; cases "w = ?a") (auto simp: x get' heap' nth_append)
  qed
  then have "mem_wst s' = (mem_wst s)(?a \<mapsto> (k, []))" by (rule ext)
  with inv' cont' none show ?thesis
    by (intro exI[of _ ?a] exI[of _ s']) (simp add: mem_Create_def Let_def s'_def)
qed

interpretation memcache: cache_store mem_ops mem_cont mem_wst "\<lambda>_. True" "\<lambda>_. True" mem_inv
  by unfold_locales (use mem_create_over in \<open>auto simp: mem_ops_def\<close>)

section \<open>The time-based cache\<close>

abbreviation items_size :: "(string, timeEntry) gomap \<Rightarrow> int" where
  "items_size m \<equiv> sum_list (map (\<lambda>p. te_Size (snd p)) m)"

text \<open>The part of the invariant that is about the items.\<close>

definition tb_items_ok :: "'s timeBased \<Rightarrow> bool" where
  "tb_items_ok te = (gmap_ok (tb_items te) \<and> (\<forall>k v. gget (tb_items te) k = Some v \<longrightarrow> te_Key v = k) \<and>
     tb_size te = items_size (tb_items te))"

text \<open>\<open>covered es te\<close>: for every item the list \<open>es\<close> has an entry that is due no later than the item.\<close>

definition covered :: "timeEntry list \<Rightarrow> 's timeBased \<Rightarrow> bool" where
  "covered es te = (\<forall>k v. gget (tb_items te) k = Some v \<longrightarrow> (\<exists>x \<in> set es. te_Key x = k \<and> te_Expires x \<le> te_Expires v))"

text \<open>The whole invariant at the time \<open>c\<close> of the last operation.\<close>

definition tb_inv :: "time \<Rightarrow> 's timeBased \<Rightarrow> bool" where
  "tb_inv c te = (tb_items_ok te \<and> covered (tb_expireList te) te \<and>
     (\<forall>k v. gget (tb_items te) k = Some v \<longrightarrow> te_Expires v \<le> c + tb_ttl te))"

lemma gset_sum:
  assumes "gget m k = Some v" and "te_Size v' = te_Size v" and "gmap_ok m"
  shows "items_size (gset k v' m) = items_size m"
  using assms by (induction m) (auto simp: gmap_ok_def split: if_splits)

lemma tb_delete_ok:
  assumes "tb_items_ok te"
  shows "tb_items_ok (snd (tb_delete S te key)) \<and> tb_items (snd (tb_delete S te key)) = gdel key (tb_items te) \<and>
     tb_expireList (snd (tb_delete S te key)) = tb_expireList te \<and> tb_ttl (snd (tb_delete S te key)) = tb_ttl te"
proof (cases "gget (tb_items te) key")
  case None
  with assms show ?thesis by (simp add: tb_delete_def gdel_id)
next
  case (Some v)
  have "items_size (gdel key (tb_items te)) = items_size (tb_items te) - te_Size v"
    using sum_list_gdel[OF _ Some, of "\<lambda>p. te_Size (snd p)"] assms by (simp add: tb_items_ok_def)
  with Some assms show ?thesis by (simp add: tb_delete_def tb_items_ok_def split: prod.splits)
qed

lemma covered_gdel: "covered es te \<Longrightarrow> tb_items te' = gdel key (tb_items te) \<Longrightarrow> covered es te'"
  by (auto simp: covered_def split: if_splits)

lemma filter_gdel_expired:
  assumes "gmap_ok m" and "gget m k = Some v" and "\<not> P (snd (k, v))"
  shows "filter (\<lambda>p. P (snd p)) (gdel k m) = filter (\<lambda>p. P (snd p)) m"
  using assms
proof (induction m)
  case (Cons p m)
  show ?case
  proof (cases "fst p = k")
    case True
    then have "gget m k = None" using Cons.prems(1) by (auto simp: gmap_ok_def gget_def map_of_eq_None_iff)
    with True Cons.prems show ?thesis by (cases p) (simp add: gdel_id)
  next
    case False
    with Cons show ?thesis by (cases p) (simp add: gmap_ok_def)
  qed
qed simp

lemma expire_loop_ok:
  assumes "tb_items_ok te" and "tb_expireList te = done @ rest @ extra" and "i = length done"
    and "sorted (map te_Expires rest)" and "covered (rest @ extra) te"
    and "\<And>k v. gget (tb_items te) k = Some v \<Longrightarrow> te_Expires v \<le> now \<Longrightarrow> \<exists>x \<in> set rest. te_Key x = k \<and> te_Expires x \<le> now"
  shows "tb_items (tb_expire_loop S now i rest te) = filter (\<lambda>p. now < te_Expires (snd p)) (tb_items te) \<and>
     tb_items_ok (tb_expire_loop S now i rest te) \<and> tb_ttl (tb_expire_loop S now i rest te) = tb_ttl te \<and>
     covered (tb_expireList (tb_expire_loop S now i rest te)) (tb_expire_loop S now i rest te)"
  using assms
proof (induction rest arbitrary: te i "done" extra)
  case Nil
  have "p \<in> set (tb_items te) \<Longrightarrow> now < te_Expires (snd p)" for p
    using Nil.prems(1,6) gget_unique[of "tb_items te" "fst p" "snd p"] by (fastforce simp: tb_items_ok_def)
  then have "filter (\<lambda>p. now < te_Expires (snd p)) (tb_items te) = tb_items te" by (simp add: filter_id_conv)
  with Nil show ?case by (auto simp: covered_def)
next
  case (Cons x rest)
  note ok = Cons.prems(1) and due = Cons.prems(6)
  show ?case
  proof (cases "now < te_Expires x")
    case True
    then have "\<forall>y \<in> set (x # rest). now < te_Expires y" using Cons.prems(4) by fastforce
    then have "p \<in> set (tb_items te) \<Longrightarrow> now < te_Expires (snd p)" for p
      using ok due gget_unique[of "tb_items te" "fst p" "snd p"] by (fastforce simp: tb_items_ok_def)
    then have "filter (\<lambda>p. now < te_Expires (snd p)) (tb_items te) = tb_items te" by (simp add: filter_id_conv)
    with True Cons.prems show ?thesis by (auto simp: covered_def tb_items_ok_def)
  next
    case expired: False
    show ?thesis
    proof (cases "gget (tb_items te) (te_Key x)")
      case None
      have "covered (rest @ extra) te" "\<And>k v. gget (tb_items te) k = Some v \<Longrightarrow> te_Expires v \<le> now \<Longrightarrow>
          \<exists>x \<in> set rest. te_Key x = k \<and> te_Expires x \<le> now"
        using Cons.prems(5) due None by (fastforce simp: covered_def)+
      with Cons.IH[of te "done @ [x]" extra "Suc i"] Cons.prems expired None show ?thesis by simp
    next
      case (Some v)
      have key: "te_Key v = te_Key x" using ok Some by (simp add: tb_items_ok_def)
      show ?thesis
      proof (cases "now < te_Expires v")
        case True
        let ?te = "te\<lparr>tb_expireList := tb_expireList te @ [v]\<rparr>"
        have "covered (rest @ extra @ [v]) ?te"
          unfolding covered_def
        proof (intro allI impI)
          fix k w assume "gget (tb_items ?te) k = Some w"
          then have w: "gget (tb_items te) k = Some w" by simp
          with Cons.prems(5) obtain y where y: "y \<in> set ((x # rest) @ extra)" "te_Key y = k" "te_Expires y \<le> te_Expires w"
            unfolding covered_def by blast
          show "\<exists>x \<in> set (rest @ extra @ [v]). te_Key x = k \<and> te_Expires x \<le> te_Expires w"
          proof (cases "y = x")
            case True
            with y w Some have "w = v" by simp
            with True y key show ?thesis by simp
          next
            case False
            with y show ?thesis by auto
          qed
        qed
        moreover have "\<And>k w. gget (tb_items ?te) k = Some w \<Longrightarrow> te_Expires w \<le> now \<Longrightarrow>
            \<exists>x \<in> set rest. te_Key x = k \<and> te_Expires x \<le> now"
          using due Some True by fastforce
        moreover have "tb_items_ok ?te" using ok by (simp add: tb_items_ok_def)
        ultimately show ?thesis
          using Cons.IH[of ?te "done @ [x]" "extra @ [v]" "Suc i"] Cons.prems(2-4) expired Some True by simp
      next
        case False
        let ?te = "snd (tb_delete S te (te_Key x))"
        note del = tb_delete_ok[OF ok, of S "te_Key x"]
        have get: "gget (tb_items ?te) = (gget (tb_items te))(te_Key x := None)" using del by simp
        have "covered (rest @ extra) ?te"
          using Cons.prems(5) unfolding covered_def get by (fastforce split: if_splits)
        moreover have "\<And>k w. gget (tb_items ?te) k = Some w \<Longrightarrow> te_Expires w \<le> now \<Longrightarrow>
            \<exists>x \<in> set rest. te_Key x = k \<and> te_Expires x \<le> now"
          using due unfolding get by (fastforce split: if_splits)
        ultimately have "tb_items (tb_expire_loop S now (Suc i) rest ?te) = filter (\<lambda>p. now < te_Expires (snd p)) (tb_items ?te) \<and>
           tb_items_ok (tb_expire_loop S now (Suc i) rest ?te) \<and> tb_ttl (tb_expire_loop S now (Suc i) rest ?te) = tb_ttl ?te \<and>
           covered (tb_expireList (tb_expire_loop S now (Suc i) rest ?te)) (tb_expire_loop S now (Suc i) rest ?te)"
          using Cons.IH[of ?te "done @ [x]" extra "Suc i"] Cons.prems(2-4) del by simp
        moreover have "filter (\<lambda>p. now < te_Expires (snd p)) (tb_items ?te) = filter (\<lambda>p. now < te_Expires (snd p)) (tb_items te)"
        proof -
          have "gmap_ok (tb_items te)" using ok by (simp add: tb_items_ok_def)
          from filter_gdel_expired[OF this Some, of "\<lambda>v. now < te_Expires v"] False del show ?thesis by simp
        qed
        moreover have "tb_expire_loop S now i (x # rest) te = tb_expire_loop S now (Suc i) rest ?te"
          using expired Some False key by simp
        ultimately show ?thesis using del by simp
      qed
    qed
  qed
qed

lemma expireKeys_ok:
  assumes "tb_items_ok te" and "covered (tb_expireList te) te"
  shows "tb_items (tb_expireKeys S now te) = filter (\<lambda>p. now < te_Expires (snd p)) (tb_items te) \<and>
     tb_items_ok (tb_expireKeys S now te) \<and> tb_ttl (tb_expireKeys S now te) = tb_ttl te \<and>
     covered (tb_expireList (tb_expireKeys S now te)) (tb_expireKeys S now te)"
proof -
  let ?es = "sort_key te_Expires (tb_expireList te)"
  let ?te = "te\<lparr>tb_expireList := ?es\<rparr>"
  have "tb_items_ok ?te" "covered (?es @ []) ?te" using assms by (simp_all add: tb_items_ok_def covered_def)
  moreover have "\<exists>x \<in> set ?es. te_Key x = k \<and> te_Expires x \<le> now"
    if "gget (tb_items ?te) k = Some v" "te_Expires v \<le> now" for k v
    using assms(2) that by (fastforce simp: covered_def)
  ultimately show ?thesis
    using expire_loop_ok[of ?te "[]" ?es "[]" 0 now S] by (simp add: tb_expireKeys_def Let_def)
qed

section \<open>Reachable states of the time-based cache\<close>

lemma tb_invD:
  assumes "tb_inv c te"
  shows "tb_items_ok te" and "covered (tb_expireList te) te"
    and "gget (tb_items te) k = Some v \<Longrightarrow> te_Expires v \<le> c + tb_ttl te"
  using assms unfolding tb_inv_def by blast+

lemma tb_inv_mono: "tb_inv c te \<Longrightarrow> c \<le> c' \<Longrightarrow> tb_inv c' te"
  unfolding tb_inv_def by fastforce

lemma tb_inv_cong:
  "tb_items te' = tb_items te \<Longrightarrow> tb_size te' = tb_size te \<Longrightarrow> tb_expireList te' = tb_expireList te \<Longrightarrow> tb_ttl te' = tb_ttl te \<Longrightarrow>
   tb_inv c te' = tb_inv c te"
  by (simp add: tb_inv_def tb_items_ok_def covered_def)

lemma tb_inv_delete:
  assumes "tb_inv c te"
  shows "tb_inv c (snd (tb_delete S te key))"
  using tb_delete_ok[OF tb_invD(1)[OF assms], of S key] assms covered_gdel[of "tb_expireList te" te "snd (tb_delete S te key)" key]
  by (auto simp: tb_inv_def split: if_splits)

lemma tb_inv_insert:
  assumes inv: "tb_inv c te" and new: "gget (tb_items te) (te_Key v) = None" and exp: "te_Expires v \<le> c + tb_ttl te"
  shows "tb_inv c (te\<lparr>tb_items := gset (te_Key v) v (tb_items te), tb_expireList := tb_expireList te @ [v],
                      tb_size := tb_size te + te_Size v\<rparr>)"
proof -
  note D = tb_invD[OF inv]
  have "items_size (gset (te_Key v) v (tb_items te)) = items_size (tb_items te) + te_Size v"
    using sum_list_gset_new[OF new, of "\<lambda>p. te_Size (snd p)" v] by simp
  then show ?thesis
    using D(1,2,3) exp by (auto simp: tb_inv_def tb_items_ok_def covered_def split: if_splits)
qed

lemma tb_inv_Get:
  assumes inv: "tb_inv c te" and now: "c \<le> now" and r: "tb_Get S te now key = (r, te')"
  shows "tb_inv now te'"
proof (cases "gget (tb_items te) key")
  case None
  with r tb_inv_mono[OF inv now] show ?thesis by (simp add: tb_Get_def)
next
  case (Some v)
  let ?v = "v\<lparr>te_Expires := now + tb_ttl te\<rparr>"
  let ?te = "te\<lparr>tb_items := gset key ?v (tb_items te)\<rparr>"
  note D = tb_invD[OF inv]
  have older: "te_Expires v \<le> now + tb_ttl te" using D(3)[OF Some] now by simp
  have size: "items_size (gset key ?v (tb_items te)) = items_size (tb_items te)"
    using gset_sum[OF Some, of ?v] D(1) by (simp add: tb_items_ok_def)
  have ok: "tb_items_ok ?te" using D(1) size Some by (auto simp: tb_items_ok_def)
  have cov: "covered (tb_expireList te) ?te"
    unfolding covered_def
  proof (intro allI impI)
    fix k w assume w: "gget (tb_items ?te) k = Some w"
    show "\<exists>x \<in> set (tb_expireList te). te_Key x = k \<and> te_Expires x \<le> te_Expires w"
    proof (cases "k = key")
      case True
      with w have "w = ?v" by simp
      moreover obtain x where "x \<in> set (tb_expireList te)" "te_Key x = key" "te_Expires x \<le> te_Expires v"
        using D(2) Some unfolding covered_def by blast
      ultimately show ?thesis using True older by (intro bexI[of _ x]) simp_all
    next
      case False
      with w D(2) show ?thesis unfolding covered_def by simp
    qed
  qed
  have "tb_inv now ?te"
    using ok cov D(3) now by (fastforce simp: tb_inv_def split: if_splits)
  then have inv1: "tb_inv now (?te\<lparr>tb_s := s2\<rparr>)" for s2 by (simp add: tb_inv_cong[of "?te\<lparr>tb_s := s2\<rparr>" ?te])
  from r Some show ?thesis
    using inv1 tb_inv_delete[OF inv1, where S = S and key = key] by (auto simp: tb_Get_def Let_def split: prod.splits sum.splits)
qed

text \<open>The states that a time-based cache can reach up to the time \<open>c\<close>. The clock does not go
  back, content is added under a key the cache does not hold, and an index file that is read back was
  written under a time-to-live that is not longer than the present one.\<close>

inductive tb_reach ::
  "('s, 'w) store_ops \<Rightarrow> (string, timeEntry) gomap json \<Rightarrow> 's \<Rightarrow> int \<Rightarrow> time \<Rightarrow> 's timeBased \<Rightarrow> bool"
  for S J s0 ttl where
  tb_init: "tb_reach S J s0 ttl c (NewTime s0 ttl)"
| tb_get: "tb_reach S J s0 ttl c te \<Longrightarrow> c \<le> now \<Longrightarrow> tb_Get S te now key = (r, te') \<Longrightarrow> tb_reach S J s0 ttl now te'"
| tb_put: "tb_reach S J s0 ttl c te \<Longrightarrow> tb_Put S te key = (r, te') \<Longrightarrow> tb_reach S J s0 ttl c te'"
| tb_write: "tb_reach S J s0 ttl c te \<Longrightarrow> cwriter_Write (tb_saver S now) te w p = (r, te', w') \<Longrightarrow> tb_reach S J s0 ttl c te'"
| tb_close: "tb_reach S J s0 ttl c te \<Longrightarrow> c \<le> now \<Longrightarrow> \<not> tb_Contains te (cw_key w) \<Longrightarrow>
    cwriter_Close (tb_saver S now) te w = (err, te') \<Longrightarrow> tb_reach S J s0 ttl now te'"
| tb_del: "tb_reach S J s0 ttl c te \<Longrightarrow> tb_Delete S J te key = (err, te') \<Longrightarrow> tb_reach S J s0 ttl c te'"
| tb_expire: "tb_reach S J s0 ttl c te \<Longrightarrow> c \<le> now \<Longrightarrow> tb_reach S J s0 ttl now (tb_expireKeys S now te)"
| tb_index: "tb_reach S J s0 ttl c te \<Longrightarrow> tb_reach S J s0 ttl c (tb_writeIndexFile S J te)"
| tb_scan: "tb_reach S J s0 ttl c te \<Longrightarrow> c \<le> now \<Longrightarrow>
    (\<And>b s1 m v. op_open S (tb_s te) indexFilename = (Inr b, s1) \<Longrightarrow> j_dec J b = Inr m \<Longrightarrow> v \<in> snd ` set m \<Longrightarrow>
       te_Expires v \<le> now + ttl) \<Longrightarrow>
    tb_reach S J s0 ttl now (tb_Scan S J now te)"

lemma tb_inv_addEntry:
  assumes "tb_inv c te" and "\<not> tb_Contains te (te_Key v)" and "c \<le> now"
  shows "tb_inv now (tb_addEntry now v te)"
  using tb_inv_insert[OF tb_inv_mono[OF assms(1,3)], of "v\<lparr>te_Expires := now + tb_ttl te\<rparr>"] assms(2)
  by (simp add: tb_addEntry_def tb_Contains_def Let_def)

lemma tb_inv_scan_keys:
  "tb_inv now te \<Longrightarrow> tb_inv now (tb_scan_keys S now keys te) \<and> tb_ttl (tb_scan_keys S now keys te) = tb_ttl te"
proof (induction keys arbitrary: te)
  case (Cons key keys)
  show ?case
  proof (cases "key = indexFilename \<or> tb_Contains te key")
    case True
    with Cons show ?thesis by auto
  next
    case False
    obtain r s1 where r: "op_open S (tb_s te) key = (r, s1)" by fastforce
    have inv1: "tb_inv now (te\<lparr>tb_s := s1\<rparr>)" using Cons.prems by (simp add: tb_inv_cong[of "te\<lparr>tb_s := s1\<rparr>" te])
    show ?thesis
    proof (cases r)
      case (Inl e)
      with Cons.IH[OF inv1] False r show ?thesis by simp
    next
      case (Inr b)
      let ?v = "\<lparr>te_Key = key, te_Size = int (length b), te_Expires = 0\<rparr>"
      have "tb_inv now (tb_addEntry now ?v (te\<lparr>tb_s := s1\<rparr>))"
        using tb_inv_addEntry[OF inv1, of ?v now] False by (simp add: tb_Contains_def)
      from Cons.IH[OF this] Inr False r show ?thesis by (simp add: tb_addEntry_def Let_def)
    qed
  qed
qed simp

lemma tb_inv_index_items:
  "tb_inv c te \<Longrightarrow> \<forall>v \<in> set vs. te_Expires v \<le> c + tb_ttl te \<Longrightarrow>
   tb_inv c (tb_index_items vs te) \<and> tb_ttl (tb_index_items vs te) = tb_ttl te"
proof (induction vs arbitrary: te)
  case (Cons v vs)
  show ?case
  proof (cases "gget (tb_items te) (te_Key v)")
    case None
    with Cons.IH[OF tb_inv_insert[OF Cons.prems(1) None]] Cons.prems(2) show ?thesis by simp
  next
    case (Some w)
    with Cons show ?thesis by simp
  qed
qed simp

lemma tb_index_fields [simp]:
  "tb_items (tb_writeIndexFile S J te) = tb_items te" "tb_size (tb_writeIndexFile S J te) = tb_size te"
  "tb_expireList (tb_writeIndexFile S J te) = tb_expireList te" "tb_ttl (tb_writeIndexFile S J te) = tb_ttl te"
  by (simp_all add: tb_writeIndexFile_def split: prod.splits)

lemma tb_inv_index [simp]: "tb_inv c (tb_writeIndexFile S J te) = tb_inv c te"
  by (simp add: tb_inv_cong[of "tb_writeIndexFile S J te" te])

lemma tb_inv_Scan:
  assumes inv: "tb_inv now te"
    and index: "\<And>b s1 m v. op_open S (tb_s te) indexFilename = (Inr b, s1) \<Longrightarrow> j_dec J b = Inr m \<Longrightarrow> v \<in> snd ` set m \<Longrightarrow>
       te_Expires v \<le> now + tb_ttl te"
  shows "tb_inv now (tb_Scan S J now te) \<and> tb_ttl (tb_Scan S J now te) = tb_ttl te"
proof -
  obtain r s1 where r: "op_open S (tb_s te) indexFilename = (r, s1)" by fastforce
  have inv1: "tb_inv now (te\<lparr>tb_s := s1\<rparr>)" using inv by (simp add: tb_inv_cong[of "te\<lparr>tb_s := s1\<rparr>" te])
  have "tb_inv now (tb_readIndexFile S J te) \<and> tb_ttl (tb_readIndexFile S J te) = tb_ttl te"
  proof (cases r)
    case (Inl e)
    with r inv1 show ?thesis by (simp add: tb_readIndexFile_def)
  next
    case (Inr b)
    let ?items = "case j_dec J b of Inl e \<Rightarrow> [] | Inr m \<Rightarrow> m"
    have "\<forall>v \<in> set (map snd ?items). te_Expires v \<le> now + tb_ttl te"
      using index[of b s1] r Inr by (cases "j_dec J b") auto
    with tb_inv_index_items[OF inv1, of "map snd ?items"] r Inr show ?thesis
      by (simp add: tb_readIndexFile_def Let_def)
  qed
  then show ?thesis using tb_inv_scan_keys[of now "tb_readIndexFile S J te" S]
    by (simp add: tb_Scan_def tb_scanstore_def)
qed

lemma tb_Put_fields:
  assumes "tb_Put S te key = (r, te')"
  shows "tb_items te' = tb_items te" "tb_size te' = tb_size te" "tb_expireList te' = tb_expireList te" "tb_ttl te' = tb_ttl te"
  using assms by (auto simp: tb_Put_def tb_unpending_def Let_def split: prod.splits sum.splits if_splits)

lemma tb_Write_fields:
  assumes "cwriter_Write (tb_saver S now) te w p = (r, te', w')"
  shows "tb_items te' = tb_items te" "tb_size te' = tb_size te" "tb_expireList te' = tb_expireList te" "tb_ttl te' = tb_ttl te"
  using assms by (auto simp: cwriter_Write_def tb_saver_def tb_reserve_def Let_def split: prod.splits)

lemma tb_inv_unpending [simp]: "tb_inv c (tb_unpending k te) = tb_inv c te"
  by (rule tb_inv_cong) (simp_all add: tb_unpending_def)

lemma tb_Get_ttl: "tb_Get S te now key = (r, te') \<Longrightarrow> tb_ttl te' = tb_ttl te"
  by (auto simp: tb_Get_def tb_delete_def Let_def split: prod.splits sum.splits option.splits)

lemma tb_inv_Close:
  assumes inv: "tb_inv c te" and now: "c \<le> now" and new: "\<not> tb_Contains te (cw_key w)"
    and r: "cwriter_Close (tb_saver S now) te w = (err, te')"
  shows "tb_inv now te' \<and> tb_ttl te' = tb_ttl te"
proof -
  obtain e s1 where cl: "op_close S (tb_s te) (cw_w w) = (e, s1)" by fastforce
  let ?te = "te\<lparr>tb_s := s1\<rparr>"
  have inv1: "tb_inv c ?te" using inv by (simp add: tb_inv_cong[of ?te te])
  have "tb_inv now (tb_save now w ?te)"
    unfolding tb_save_def using tb_inv_addEntry[OF inv1 _ now, of "\<lparr>te_Key = cw_key w, te_Size = cw_size w, te_Expires = 0\<rparr>"] new
    by (simp add: tb_Contains_def)
  moreover have "tb_inv now (tb_discard w ?te)" unfolding tb_discard_def using tb_inv_mono[OF inv1 now] by simp
  ultimately show ?thesis using r cl
    by (auto simp: Let_def cwriter_Close_def tb_saver_def tb_save_def tb_addEntry_def tb_unpending_def tb_discard_def split: if_splits)
qed

lemma tb_reach_inv:
  assumes "tb_reach S J s0 ttl c te"
  shows "tb_inv c te \<and> tb_ttl te = ttl"
  using assms
proof (induction rule: tb_reach.induct)
  case (tb_init c)
  show ?case by (simp add: NewTime_def tb_inv_def tb_items_ok_def covered_def)
next
  case (tb_get c te now key r te')
  then show ?case using tb_inv_Get[of c te now S key r te'] tb_Get_ttl[of S te now key r te'] by simp
next
  case (tb_put c te key r te')
  note f = tb_Put_fields[OF tb_put.hyps(2)]
  then show ?case using tb_put.IH tb_inv_cong[of te' te] by simp
next
  case (tb_write c te now w p r te' w')
  note f = tb_Write_fields[OF tb_write.hyps(2)]
  then show ?case using tb_write.IH tb_inv_cong[of te' te] by simp
next
  case (tb_close c te now w err te')
  then show ?case using tb_inv_Close[of c te now w S err te'] by simp
next
  case (tb_del c te key err te')
  then have "te' = tb_writeIndexFile S J (snd (tb_delete S te key))" by (auto simp: tb_Delete_def split: prod.splits)
  with tb_del.IH tb_inv_delete[of c te S key] tb_delete_ok[OF tb_invD(1), of c te S key] show ?case by simp
next
  case (tb_expire c te now)
  note D = tb_invD[OF tb_inv_mono[OF conjunct1[OF tb_expire.IH] tb_expire.hyps(2)]]
  note E = expireKeys_ok[OF D(1,2), of S now]
  have "te_Expires v \<le> now + tb_ttl te" if "gget (tb_items (tb_expireKeys S now te)) k = Some v" for k v
  proof -
    have "(k, v) \<in> set (tb_items te)" using gget_in_set[OF that] E by simp
    then show ?thesis using D(1,3) gget_unique[of "tb_items te" k v] by (simp add: tb_items_ok_def)
  qed
  with E tb_expire.IH show ?case by (simp add: tb_inv_def)
next
  case (tb_index c te)
  then show ?case by simp
next
  case (tb_scan c te now)
  then show ?case using tb_inv_Scan[OF tb_inv_mono, of c te now S J] by blast
qed

section \<open>Properties of the LRU cache\<close>



text \<open>C23. \<open>reserve\<close> evicts in least-recently-used order and no more than it must: in a reachable state, asking for
  \<open>sz\<close> bytes leaves a front part of the list, the cached objects it evicts are those at the back, and
  keeping even one more of them would not have fitted. It fails only when the open writers
  and \<open>sz\<close> alone exceed the maximum.\<close>

theorem lru_eviction:
  assumes "lru_reach mem_ops (\<lambda>_. True) s0 maxSize t ws"
    and "mem_inv s0" and "\<forall>h. mem_wst s0 h = None" and "0 \<le> maxSize" and "0 \<le> sz"
    and "lru_reserve mem_ops sz t = (err, t')"
  shows "(\<exists>n. lru_list t' = take n (lru_list t) \<and>
        (\<forall>m. n < m \<longrightarrow> m \<le> length (lru_list t) \<longrightarrow>
           maxSize < entries_size (take m (lru_list t)) + writers_size ws + sz)) \<and>
     (if err = None then lru_Size t' = entries_size (lru_list t') + writers_size ws + sz \<and> lru_Size t' \<le> maxSize
      else err = Some ErrCacheFull \<and> lru_Size t' = writers_size ws + entries_size (lru_list t') \<and>
           maxSize < writers_size ws + sz)"
proof -
  have inv: "memcache.linv t ws" and mx: "lru_maxSize t = maxSize" using memcache.reach_inv[OF assms(1-4)] by simp_all
  obtain err2 t2 where "lru_reserve mem_ops sz t = (err2, t2)"
    "\<exists>n. lru_list t2 = take n (lru_list t) \<and> (\<forall>m. n < m \<longrightarrow> m \<le> length (lru_list t) \<longrightarrow>
           lru_maxSize t < entries_size (take m (lru_list t)) + writers_size ws + sz)"
    "err2 = None \<Longrightarrow> lru_size t2 = entries_size (lru_list t2) + writers_size ws + sz \<and> lru_size t2 \<le> lru_maxSize t"
    "err2 \<noteq> None \<Longrightarrow> err2 = Some ErrCacheFull \<and> memcache.linv t2 ws \<and> lru_maxSize t < writers_size ws + sz"
    by (rule memcache.reserve_ok[OF inv assms(5)]) blast
  with assms(6) mx show ?thesis by (auto simp: lru_Size_def lru_inv_def)
qed

text \<open>Adding one object whole.\<close>

definition lru_add :: "('s, 'w) store_ops \<Rightarrow> 's lru \<Rightarrow> string \<Rightarrow> bytes \<Rightarrow> 's lru" where
  "lru_add S t key p =
     (case lru_Put S t key of
        (Inl e, t1) \<Rightarrow> t1
      | (Inr w, t1) \<Rightarrow>
          (let (r, t2, w2) = cwriter_Write (lru_saver S) t1 w p in snd (cwriter_Close (lru_saver S) t2 w2)))"

lemma lru_add_reach:
  assumes "lru_reach S okkey s0 maxSize t ws" and "\<not> lru_Contains t key" and "okkey key"
  shows "lru_reach S okkey s0 maxSize (lru_add S t key p) ws"
proof (cases "lru_Put S t key")
  case (Pair a t1)
  show ?thesis
  proof (cases a)
    case (Inl e)
    with Pair show ?thesis using lru_reach.lru_put_err[OF assms, of e t1] by (simp add: lru_add_def)
  next
    case (Inr w)
    obtain r t2 w2 where w: "cwriter_Write (lru_saver S) t1 w p = (r, t2, w2)" by (cases "cwriter_Write (lru_saver S) t1 w p") auto
    have "lru_reach S okkey s0 maxSize t1 (w # ws)" using lru_reach.lru_put[OF assms] Pair Inr by simp
    then have "lru_reach S okkey s0 maxSize t2 (w2 # ws)"
      using lru_reach.lru_write[of S okkey s0 maxSize t1 "[]" w ws p r t2 w2] w by simp
    then have "lru_reach S okkey s0 maxSize (snd (cwriter_Close (lru_saver S) t2 w2)) ws"
      using lru_reach.lru_close[of S okkey s0 maxSize t2 "[]" w2 ws "fst (cwriter_Close (lru_saver S) t2 w2)"] by simp
    with Pair Inr w show ?thesis by (simp add: lru_add_def)
  qed
qed

definition lru_demo :: "memory lru" where
  "lru_demo = lru_add mem_ops (lru_add mem_ops (NewLRU NewMemory 10) ''a'' ''xyzt'') ''b'' ''uvw''"

lemma lru_demo_reach: "lru_reach mem_ops (\<lambda>_. True) NewMemory 10 lru_demo []"
  unfolding lru_demo_def
proof (intro lru_add_reach lru_reach.lru_init TrueI)
  show "\<not> lru_Contains (NewLRU NewMemory 10) ''a''" by code_simp
  show "\<not> lru_Contains (lru_add mem_ops (NewLRU NewMemory 10) ''a'' ''xyzt'') ''b''" by code_simp
qed

theorem lru_eviction_witness:
  "\<exists>n. map e_key (lru_list (snd (lru_reserve mem_ops 6 lru_demo))) = map e_key (take n (lru_list lru_demo)) \<and>
     map e_key (lru_list lru_demo) = [''b'', ''a''] \<and> lru_Size (snd (lru_reserve mem_ops 6 lru_demo)) = 9"
proof -
  obtain err t' where r: "lru_reserve mem_ops 6 lru_demo = (err, t')" by fastforce
  have "map e_key (lru_list lru_demo) = [''b'', ''a'']" "lru_Size (snd (lru_reserve mem_ops 6 lru_demo)) = 9" by code_simp+
  with lru_eviction[OF lru_demo_reach _ _ _ _ r] r show ?thesis by auto
qed

text \<open>What is put into the cache is what is read from it: adding an object that fits to a reachable
  cache that has no open writer, under a key it does not hold, makes it the most recently used entry,
  and \<open>Get\<close> then returns the bytes that were written.\<close>

theorem lru_put_get:
  assumes reach: "lru_reach mem_ops (\<lambda>_. True) s0 maxSize t []"
    and s0: "mem_inv s0" "\<forall>h. mem_wst s0 h = None" "0 \<le> maxSize"
    and new: "\<not> lru_Contains t key" and fits: "int (length p) \<le> maxSize"
  shows "\<exists>t'. lru_Get mem_ops (lru_add mem_ops t key p) key = ((Some p, None), t') \<and>
     hd (lru_list (lru_add mem_ops t key p)) = \<lparr>e_key = key, e_size = int (length p)\<rparr>"
proof -
  have inv: "memcache.linv t []" and mx: "lru_maxSize t = maxSize" using memcache.reach_inv[OF reach s0] by simp_all
  obtain w t1 where w: "lru_Put mem_ops t key = (Inr w, t1)" "memcache.linv t1 [w]" "cw_key w = key" "cw_size w = 0"
      "lru_maxSize t1 = maxSize"
    using memcache.Put_ok[OF inv new] mx by auto
  obtain b0 where b0: "mem_wst (lru_s t1) (cw_w w) = Some (cw_key w, b0)" "int (length b0) = 0"
    using w(2,4) by (auto simp: lru_inv_def elim: lru_wf_writerD)
  have del: "\<not> cw_deleteOnClose w" using w(1) by (auto simp: lru_Put_def Let_def split: prod.splits sum.splits if_splits)
  obtain r t2 w2 where w2: "cwriter_Write (lru_saver mem_ops) t1 w p = (r, t2, w2)" "memcache.linv t2 [w2]"
      "cw_key w2 = key" "lru_maxSize t2 = maxSize" "cw_size w2 = int (length p)" "\<not> cw_deleteOnClose w2"
      "mem_wst (lru_s t2) (cw_w w2) = Some (key, p)"
  proof (rule memcache.Write_ok[of t1 "[]" w "[]" p], goal_cases)
    case (2 r t2 w2)
    have ok: "r = (length p, None)" "cw_size w2 = int (length p)" "cw_deleteOnClose w2 = cw_deleteOnClose w"
      using 2(7) w(4,5) fits by auto
    have "mem_wst (lru_s t2) (cw_w w2) = Some (key, p)" using 2(8)[OF _ b0(1)] ok(1) b0(2) 2(4) w(3) by simp
    with 2(2-5) ok del w(3,5) show ?case by (intro 2(1)[of r t2 w2]) simp_all
  qed (use w(2) in simp)
  obtain t3 where t3: "cwriter_Close (lru_saver mem_ops) t2 w2 = (None, t3)" "memcache.linv t3 []"
      "lru_list t3 = \<lparr>e_key = key, e_size = int (length p)\<rparr> # lru_list t2"
      "mem_cont (lru_s t3) key = Some p"
  proof (rule memcache.Close_ok[of t2 "[]" w2 "[]"], goal_cases)
    case (2 t3)
    from 2(6) have "mem_cont (lru_s t3) key = Some p" using w2(3,7) by auto
    with 2(2-5) w2(3,5,6) show ?case by (intro 2(1)[of t3]) simp_all
  qed (use w2(2) in simp)
  have "lru_add mem_ops t key p = t3" using w(1) w2(1) t3(1) by (simp add: lru_add_def)
  moreover have "lru_Contains t3 key" using t3(3) by (simp add: lru_Contains_def lru_find_def)
  ultimately show ?thesis using memcache.Get_ok[OF t3(2), of key] t3(3,4) by auto
qed

theorem lru_put_get_witness:
  "\<exists>t'. lru_Get mem_ops (lru_add mem_ops lru_demo ''c'' ''12345678'') ''c'' = ((Some ''12345678'', None), t')"
proof -
  have "\<not> lru_Contains lru_demo ''c''" by code_simp
  from lru_put_get[OF lru_demo_reach _ _ _ this, of "''12345678''"] show ?thesis by auto
qed

section \<open>Properties of the time-based cache\<close>


definition tb_demo :: "memory timeBased" where
  "tb_demo = snd (cwriter_Close (tb_saver mem_ops 5) (snd (tb_Put mem_ops (NewTime NewMemory 100) ''k''))
     \<lparr>cw_key = ''k'', cw_w = 0, cw_size = 0, cw_deleteOnClose = False\<rparr>)"


section \<open>Deviations from the documentation\<close>

text \<open>The comment of \<open>StoreLRU.Put\<close> says that a \<open>Put\<close> of a key in the cache returns an error. It does
  not, and the key is then in the list twice and counted twice.\<close>

lemma lru_put_cached_key:
  "map e_key (lru_list (lru_add mem_ops (lru_add mem_ops (NewLRU NewMemory 10) ''a'' ''xyz'') ''a'' ''xyz'')) = [''a'', ''a'']"
  "lru_Size (lru_add mem_ops (lru_add mem_ops (NewLRU NewMemory 10) ''a'' ''xyz'') ''a'' ''xyz'') = 6"
  by code_simp+

text \<open>An object that turned out to be too big is not removed from the store: \<open>discard\<close> asks \<open>Delete\<close>, which
  only looks at the list.\<close>

lemma lru_discard_leaves_object:
  "mem_cont (lru_s (lru_add mem_ops (NewLRU NewMemory 3) ''a'' ''xyzt'')) ''a'' = Some ''''"
  "\<not> lru_Contains (lru_add mem_ops (NewLRU NewMemory 3) ''a'' ''xyzt'') ''a''"
  by code_simp+

text \<open>The comment of \<open>TimeBased.Put\<close> says that an item in the cache is deleted first. Its old size stays
  in the total.\<close>

definition tb_add :: "memory timeBased \<Rightarrow> time \<Rightarrow> string \<Rightarrow> bytes \<Rightarrow> memory timeBased" where
  "tb_add te now key p =
     (case tb_Put mem_ops te key of
        (Inl e, te1) \<Rightarrow> te1
      | (Inr w, te1) \<Rightarrow>
          (let (r, te2, w2) = cwriter_Write (tb_saver mem_ops now) te1 w p in snd (cwriter_Close (tb_saver mem_ops now) te2 w2)))"

lemma tb_put_cached_key:
  "tb_Size (tb_add (tb_add (NewTime NewMemory 100) 0 ''a'' ''xyz'') 1 ''a'' ''xy'') = 5"
  "items_size (tb_items (tb_add (tb_add (NewTime NewMemory 100) 0 ''a'' ''xyz'') 1 ''a'' ''xy'')) = 2"
  by code_simp+

end
