(* ===== verification/Blobcache_Content.thy ===== *)
theory Blobcache_Content
  imports Blobcache_Ops Blobcache_Correct
begin

text \<open>
  What a client may rely on when it reads from a cache: the locale \<open>blob_cache\<close>. Whatever a cache returns for a key was written under
  that key; a cache may forget at any time. The LRU cache over the in-memory store and the empty cache provide it.
\<close>

section \<open>The contract\<close>

text \<open>\<open>cinv c\<close> says that the cache is sound and has no open writer, \<open>holds c k\<close> is what it has under a key, and \<open>writing c w k b\<close> that \<open>w\<close> is its
  only writer, has the key \<open>k\<close> and has written \<open>b\<close>.\<close>

locale blob_cache =
  fixes C :: "('b, 'u) cache_ops" and cinv :: "'b \<Rightarrow> bool" and holds :: "'b \<Rightarrow> string \<Rightarrow> bytes option"
    and writing :: "'b \<Rightarrow> 'u \<Rightarrow> string \<Rightarrow> bytes \<Rightarrow> bool"
  assumes get_law: "cinv c \<Longrightarrow> bc_Get C c now k = ((r, e), c') \<Longrightarrow> cinv c' \<and> holds c' \<subseteq>\<^sub>m holds c \<and> r = holds c k \<and> (r \<noteq> None \<longrightarrow> e = None)"
    and put_fails: "cinv c \<Longrightarrow> holds c k = None \<Longrightarrow> bc_Put C c k = (Inl x, c') \<Longrightarrow> cinv c' \<and> holds c' \<subseteq>\<^sub>m holds c"
    and put_law: "cinv c \<Longrightarrow> holds c k = None \<Longrightarrow> bc_Put C c k = (Inr w, c') \<Longrightarrow> writing c' w k [] \<and> holds c' \<subseteq>\<^sub>m holds c"
    and write_law: "writing c w k b \<Longrightarrow> bc_Write C c now w p = ((n, e), c', w') \<Longrightarrow>
      holds c' \<subseteq>\<^sub>m holds c \<and> (\<exists>b'. writing c' w' k b' \<and> (e = None \<longrightarrow> n = length p \<longrightarrow> b' = b @ p))"
    and close_law: "writing c w k b \<Longrightarrow> bc_Close C c now w = (e, c') \<Longrightarrow> cinv c' \<and> holds c' \<subseteq>\<^sub>m (holds c)(k \<mapsto> b)"
    and delete_law: "cinv c \<Longrightarrow> bc_Delete C c k = (e, c') \<Longrightarrow> cinv c' \<and> holds c' \<subseteq>\<^sub>m (holds c)(k := None)"

text \<open>A cache that keeps what fits: a copy that is not larger than the cache succeeds when nothing else is written. \<open>clean\<close> says that the writer has not failed.\<close>

locale retaining_cache = blob_cache C cinv holds writing
  for C :: "('b, 'u) cache_ops" and cinv holds writing +
  fixes clean :: "'b \<Rightarrow> 'u \<Rightarrow> string \<Rightarrow> bytes \<Rightarrow> bool"
  assumes put_clean: "cinv c \<Longrightarrow> holds c k = None \<Longrightarrow> \<exists>w c'. bc_Put C c k = (Inr w, c') \<and> clean c' w k [] \<and> bc_MaxSize C c' = bc_MaxSize C c"
    and write_clean: "clean c w k b \<Longrightarrow> int (length b + length p) \<le> bc_MaxSize C c \<Longrightarrow>
      \<exists>c' w'. bc_Write C c now w p = ((length p, None), c', w') \<and> clean c' w' k (b @ p) \<and> bc_MaxSize C c' = bc_MaxSize C c"
    and close_clean: "clean c w k b \<Longrightarrow> \<exists>c'. bc_Close C c now w = (None, c') \<and> holds c' k = Some b"
    and get_clean: "cinv c \<Longrightarrow> bc_Get C c now k = ((r, e), c') \<Longrightarrow> e = None \<and> bc_MaxSize C c' = bc_MaxSize C c"

section \<open>The LRU cache\<close>

definition lru_holds :: "('s \<Rightarrow> string \<Rightarrow> bytes option) \<Rightarrow> 's lru \<Rightarrow> string \<Rightarrow> bytes option" where
  "lru_holds cont t k = (if lru_Contains t k then cont (lru_s t) k else None)"

lemma lru_Contains_iff: "lru_Contains t k \<longleftrightarrow> k \<in> e_key ` set (lru_list t)"
  by (auto simp: lru_Contains_def lru_find_def find_key_None)

lemma lru_holds_le:
  assumes "set (lru_list t') \<subseteq> set (lru_list t)" and "\<forall>e \<in> set (lru_list t'). cont (lru_s t') (e_key e) = cont (lru_s t) (e_key e)"
  shows "lru_holds cont t' \<subseteq>\<^sub>m lru_holds cont t"
  using assms by (auto simp: map_le_def lru_holds_def lru_Contains_iff dom_def split: if_splits)

context cache_store
begin

lemma evict_cont:
  assumes "wf t ws" and "lru_evict S sz t = (err, t')"
  shows "set (lru_list t') \<subseteq> set (lru_list t) \<and> (\<forall>e \<in> set (lru_list t'). cont (lru_s t') (e_key e) = cont (lru_s t) (e_key e))"
  using assms
proof (induction "length (lru_list t)" arbitrary: t rule: less_induct)
  case less
  show ?case
  proof (cases "lru_size t \<le> lru_maxSize t \<or> lru_list t = []")
    case True
    then have "lru_list t' = lru_list t \<and> lru_s t' = lru_s t" using less.prems(2) by (subst (asm) lru_evict.simps) (auto split: if_splits)
    then show ?thesis by simp
  next
    case False
    then obtain es e where snoc: "lru_list t = es @ [e]" by (metis rev_exhaust)
    have e: "okkey (e_key e)" "\<forall>w b. wst (lru_s t) w \<noteq> Some (e_key e, b)"
      using less.prems snoc lru_wf_no_writer[OF less.prems(1), of e] by (auto simp: lru_wf_def)
    obtain s1 where s1: "op_delete S (lru_s t) (e_key e) = (None, s1)" "sinv s1"
        "cont s1 = (cont (lru_s t))(e_key e := None)" "wst s1 = wst (lru_s t)"
      using delete_ok[OF _ e] less.prems by (auto simp: lru_wf_def)
    define t1 where "t1 = t\<lparr>lru_s := s1, lru_list := es, lru_size := lru_size t - e_size e\<rparr>"
    have eq: "lru_evict S sz t1 = (err, t')"
      using False snoc s1(1) less.prems(2) by (subst (asm) lru_evict.simps) (simp add: t1_def)
    have wf1: "wf t1 ws" using less.prems(1) snoc s1 unfolding lru_wf_def t1_def by (auto simp: image_iff)
    have "length (lru_list t1) < length (lru_list t)" by (simp add: t1_def snoc)
    note IH = less.hyps[OF this wf1 eq]
    have "e_key e' \<noteq> e_key e" if "e' \<in> set es" for e' using less.prems(1) snoc imageI[OF that, of e_key] by (auto simp: lru_wf_def)
    with IH s1(3) snoc show ?thesis by (auto simp: t1_def)
  qed
qed

lemma reserve_cont:
  assumes "linv t ws" and "lru_reserve S sz t = (err, t')"
  shows "set (lru_list t') \<subseteq> set (lru_list t) \<and> (\<forall>e \<in> set (lru_list t'). cont (lru_s t') (e_key e) = cont (lru_s t) (e_key e))"
  using evict_cont[of "t\<lparr>lru_size := lru_size t + sz\<rparr>" ws sz err t'] assms by (simp add: lru_reserve_def lru_inv_def)

lemma Get_cont:
  assumes inv: "linv t ws" and g: "lru_Get S t key = ((r, e), t')"
  shows "linv t' ws \<and> lru_holds cont t' \<subseteq>\<^sub>m lru_holds cont t \<and> r = lru_holds cont t key \<and> (r \<noteq> None \<longrightarrow> e = None)"
proof (cases "lru_Contains t key")
  case True
  obtain b t2 where "lru_Get S t key = ((Some b, None), t2)" "cont (lru_s t) key = Some b" "linv t2 ws" "set (lru_list t2) = set (lru_list t)"
    using Get_ok[OF inv, of key] True by auto
  then have t': "r = Some b" "e = None" "t' = t2" "cont (lru_s t) key = Some b" "linv t' ws" "set (lru_list t') = set (lru_list t)" using g by auto
  obtain en where en: "lru_find t key = Some en" using True by (auto simp: lru_Contains_def)
  then have k: "okkey key" using inv find_key_Some[of key "lru_list t" en] by (auto simp: lru_inv_def lru_wf_def lru_find_def)
  obtain s1 where s1: "op_open S (lru_s t) key = (Inr b, s1)" "cont s1 = cont (lru_s t)"
    using open_hit[OF _ k t'(4)] inv by (auto simp: lru_inv_def lru_wf_def)
  then have "cont (lru_s t') = cont (lru_s t)" using g en by (auto simp: lru_Get_def)
  then show ?thesis using t' True lru_holds_le[of t' t cont] by (auto simp: lru_holds_def)
next
  case False
  then have "r = None" "t' = t" using Get_ok[OF inv, of key] g by auto
  with inv False show ?thesis by (simp add: lru_holds_def)
qed

lemma Put_cont:
  assumes inv: "linv t []" and new: "\<not> lru_Contains t key" and ok: "okkey key" and p: "lru_Put S t key = (r, t')"
  obtains w where "r = Inr w" and "linv t' [w]" and "cw_key w = key" and "wst (lru_s t') (cw_w w) = Some (key, [])"
    and "lru_holds cont t' \<subseteq>\<^sub>m lru_holds cont t"
proof -
  obtain w where w: "r = Inr w" "linv t' [w]" "cw_key w = key" "cw_size w = 0" "lru_list t' = lru_list t"
    using Put_ok[OF inv new ok] p by auto
  have wf: "wf t []" using inv by (simp add: lru_inv_def)
  have "\<forall>h c. wst (lru_s t) h \<noteq> Some (key, c)" using lru_wf_writer[OF wf] by fastforce
  then obtain h s1 where s1: "cache_create S (lru_s t) key = (Inr h, s1)" "cont s1 = (cont (lru_s t))(key := None)" "wst s1 = (wst (lru_s t))(h \<mapsto> (key, []))"
    using cache_create_ok[OF lru_wf_sinv[OF wf] ok] by metis
  have "lru_pending t = []" using wf by (simp add: lru_wf_def)
  then have "lru_s t' = s1" "cw_w w = h" using p s1(1) w(1) by (auto simp: lru_Put_def)
  moreover have "lru_holds cont t' \<subseteq>\<^sub>m lru_holds cont t"
    using new w(5) s1(2) \<open>lru_s t' = s1\<close> by (intro lru_holds_le) (auto simp: lru_Contains_iff)
  ultimately show thesis using that[OF w(1-3)] s1(3) by simp
qed

lemma Write_cont:
  assumes inv: "linv t [w]" and b: "wst (lru_s t) (cw_w w) = Some (cw_key w, b)" and wr: "cwriter_Write (lru_saver S) t w p = ((n, e), t', w')"
  shows "lru_holds cont t' \<subseteq>\<^sub>m lru_holds cont t \<and> linv t' [w'] \<and> cw_key w' = cw_key w \<and>
     (\<exists>b'. wst (lru_s t') (cw_w w') = Some (cw_key w', b') \<and> (e = None \<longrightarrow> b' = b @ p))"
proof -
  have inv': "linv t ([] @ w # [])" using inv by simp
  have 1: "linv t' [w'] \<and> cw_key w' = cw_key w \<and> (e = None \<longrightarrow> wst (lru_s t') (cw_w w') = Some (cw_key w', b @ p))"
    by (rule Write_ok[OF inv', of p]) (use wr b in auto)
  have wf': "wf t' [w']" using 1 by (simp add: lru_inv_def)
  obtain b' where b': "wst (lru_s t') (cw_w w') = Some (cw_key w', b')" using lru_wf_writerD[OF wf', of w'] by auto
  obtain err t1 where r: "lru_reserve S (int (length p)) t = (err, t1)" by fastforce
  have "lru_list t' = lru_list t1 \<and> (\<forall>k. cont (lru_s t') k = cont (lru_s t1) k)"
  proof (cases err)
    case None
    have wf1: "wf t1 [w]" by (rule reserve_ok[OF inv, of "int (length p)"]) (use r in auto)
    obtain b1 where b1: "wst (lru_s t1) (cw_w w) = Some (cw_key w, b1)" using lru_wf_writerD[OF wf1, of w] by auto
    obtain s2 where s2: "op_write S (lru_s t1) (cw_w w) p = ((length p, None), s2)" "cont s2 = cont (lru_s t1)"
      using write_ok[OF lru_wf_sinv[OF wf1] b1, of p] by blast
    then show ?thesis using wr r None by (auto simp: cwriter_Write_def lru_saver_def)
  next
    case (Some x)
    then show ?thesis using wr r by (auto simp: cwriter_Write_def lru_saver_def)
  qed
  with reserve_cont[OF inv r] have "lru_holds cont t' \<subseteq>\<^sub>m lru_holds cont t" by (intro lru_holds_le) auto
  with 1 b' show ?thesis by auto
qed

lemma Close_cont:
  assumes inv: "linv t [w]" and b: "wst (lru_s t) (cw_w w) = Some (cw_key w, b)" and c: "cwriter_Close (lru_saver S) t w = (e, t')"
  shows "linv t' [] \<and> lru_holds cont t' \<subseteq>\<^sub>m (lru_holds cont t)(cw_key w \<mapsto> b)"
proof -
  have inv': "linv t ([] @ w # [])" using inv by simp
  have "linv t' [] \<and> set (lru_list t') \<subseteq> insert \<lparr>e_key = cw_key w, e_size = cw_size w\<rparr> (set (lru_list t)) \<and> cont (lru_s t') = (cont (lru_s t))(cw_key w \<mapsto> b)"
    by (rule Close_ok[OF inv']) (use c b in \<open>auto split: if_splits\<close>)
  then show ?thesis by (auto simp: map_le_def lru_holds_def lru_Contains_iff dom_def split: if_splits)
qed

lemma Delete_cont:
  assumes inv: "linv t []" and d: "lru_Delete S t key = (e, t')"
  shows "linv t' [] \<and> lru_holds cont t' \<subseteq>\<^sub>m (lru_holds cont t)(key := None)"
proof -
  have 1: "linv t' [] \<and> \<not> lru_Contains t' key" by (rule Delete_ok[OF inv, of key]) (use d in auto)
  have "set (lru_list t') \<subseteq> set (lru_list t) \<and> (\<forall>k. k \<noteq> key \<longrightarrow> cont (lru_s t') k = cont (lru_s t) k)"
  proof (cases "lru_find t key")
    case None
    then show ?thesis using d by (simp add: lru_Delete_def)
  next
    case (Some en)
    have wf: "wf t []" and size: "lru_size t \<le> lru_maxSize t" using inv by (simp_all add: lru_inv_def)
    have en: "en \<in> set (lru_list t)" "e_key en = key" using Some find_key_Some by (auto simp: lru_find_def)
    have ok: "okkey key" "0 \<le> e_size en" using wf en by (auto simp: lru_wf_def)
    obtain s1 where s1: "op_delete S (lru_s t) key = (None, s1)" "cont s1 = (cont (lru_s t))(key := None)"
      using delete_ok[OF lru_wf_sinv[OF wf] ok(1)] lru_wf_no_writer[OF wf en(1)] en(2) by blast
    let ?t1 = "t\<lparr>lru_list := remove_first key (lru_list t), lru_s := s1\<rparr>"
    have "t' = ?t1\<lparr>lru_size := lru_size t - e_size en\<rparr>"
      using Some en(2) s1(1) unreserve[OF ok(2), of ?t1] size d by (simp add: lru_Delete_def)
    then show ?thesis using remove_first_set s1(2) by auto
  qed
  with 1 show ?thesis by (auto simp: map_le_def lru_holds_def lru_Contains_iff dom_def split: if_splits)
qed

end

definition lru_writing :: "memory lru \<Rightarrow> nat cwriter \<Rightarrow> string \<Rightarrow> bytes \<Rightarrow> bool" where
  "lru_writing t w k b = (memcache.linv t [w] \<and> cw_key w = k \<and> mem_wst (lru_s t) (cw_w w) = Some (k, b))"

interpretation lru_cache: blob_cache "lru_ops mem_ops" "\<lambda>t. memcache.linv t []" "lru_holds mem_cont" lru_writing
proof
  fix c c' :: "memory lru" and now :: time and k :: string and r e n w w' b p
  show "memcache.linv c' [] \<and> lru_holds mem_cont c' \<subseteq>\<^sub>m lru_holds mem_cont c \<and> r = lru_holds mem_cont c k \<and> (r \<noteq> None \<longrightarrow> e = None)"
    if "memcache.linv c []" "bc_Get (lru_ops mem_ops) c now k = ((r, e), c')"
    using memcache.Get_cont[OF that(1)] that(2) by (simp add: lru_ops_def)
  have new: "\<not> lru_Contains c k" if "memcache.linv c []" "lru_holds mem_cont c k = None"
    using that by (auto simp: lru_holds_def lru_inv_def lru_wf_def lru_Contains_iff split: if_splits)
  show "memcache.linv c' [] \<and> lru_holds mem_cont c' \<subseteq>\<^sub>m lru_holds mem_cont c"
    if "memcache.linv c []" "lru_holds mem_cont c k = None" "bc_Put (lru_ops mem_ops) c k = (Inl x, c')" for x
    using memcache.Put_cont[OF that(1) new[OF that(1,2)] TrueI, of "Inl x" c'] that(3) by (simp add: lru_ops_def)
  show "lru_writing c' w k [] \<and> lru_holds mem_cont c' \<subseteq>\<^sub>m lru_holds mem_cont c"
    if "memcache.linv c []" "lru_holds mem_cont c k = None" "bc_Put (lru_ops mem_ops) c k = (Inr w, c')"
    by (rule memcache.Put_cont[OF that(1) new[OF that(1,2)] TrueI, of "Inr w" c']) (use that(3) in \<open>auto simp: lru_ops_def lru_writing_def\<close>)
  show "lru_holds mem_cont c' \<subseteq>\<^sub>m lru_holds mem_cont c \<and> (\<exists>b'. lru_writing c' w' k b' \<and> (e = None \<longrightarrow> n = length p \<longrightarrow> b' = b @ p))"
    if "lru_writing c w k b" "bc_Write (lru_ops mem_ops) c now w p = ((n, e), c', w')"
    using memcache.Write_cont[of c w b p n e c' w'] that by (auto simp: lru_ops_def lru_writing_def)
  show "memcache.linv c' [] \<and> lru_holds mem_cont c' \<subseteq>\<^sub>m (lru_holds mem_cont c)(k \<mapsto> b)"
    if "lru_writing c w k b" "bc_Close (lru_ops mem_ops) c now w = (e, c')"
    using memcache.Close_cont[of c w b e c'] that by (auto simp: lru_ops_def lru_writing_def)
  show "memcache.linv c' [] \<and> lru_holds mem_cont c' \<subseteq>\<^sub>m (lru_holds mem_cont c)(k := None)"
    if "memcache.linv c []" "bc_Delete (lru_ops mem_ops) c k = (e, c')"
    using memcache.Delete_cont[OF that(1)] that(2) by (simp add: lru_ops_def)
qed

definition lru_clean :: "memory lru \<Rightarrow> nat cwriter \<Rightarrow> string \<Rightarrow> bytes \<Rightarrow> bool" where
  "lru_clean t w k b = (lru_writing t w k b \<and> \<not> cw_deleteOnClose w)"

lemma lru_not_held: "memcache.linv c [] \<Longrightarrow> lru_holds mem_cont c k = None \<Longrightarrow> \<not> lru_Contains c k"
  by (auto simp: lru_holds_def lru_inv_def lru_wf_def lru_Contains_iff split: if_splits)

lemma lru_write_clean:
  assumes "lru_clean c w k b" and "int (length b + length p) \<le> lru_maxSize c"
  shows "\<exists>c' w'. cwriter_Write (lru_saver mem_ops) c w p = ((length p, None), c', w') \<and> lru_clean c' w' k (b @ p) \<and> lru_maxSize c' = lru_maxSize c"
proof -
  have w: "memcache.linv c ([] @ w # [])" "cw_key w = k" "mem_wst (lru_s c) (cw_w w) = Some (k, b)" "\<not> cw_deleteOnClose w"
    using assms(1) by (simp_all add: lru_clean_def lru_writing_def)
  have size: "cw_size w = int (length b)"
    using w(1-3) by (auto simp: lru_inv_def lru_wf_def)
  obtain r t' w' where r: "cwriter_Write (lru_saver mem_ops) c w p = (r, t', w')" "memcache.linv t' ([] @ w' # [])" "cw_key w' = cw_key w" "lru_maxSize t' = lru_maxSize c"
      "r = (length p, None) \<and> cw_size w' = cw_size w + int (length p) \<and> cw_deleteOnClose w' = cw_deleteOnClose w \<or>
       r = (0, Some ErrCacheFull) \<and> cw_deleteOnClose w' \<and> lru_maxSize c < sum_list (map cw_size ([] @ w # [])) + int (length p)"
      "\<And>b. snd r = None \<Longrightarrow> mem_wst (lru_s c) (cw_w w) = Some (cw_key w, b) \<Longrightarrow> mem_wst (lru_s t') (cw_w w') = Some (cw_key w', b @ p)"
    by (rule memcache.Write_ok[OF w(1), of p]) blast
  then have "r = (length p, None)" "\<not> cw_deleteOnClose w'" using assms(2) size w(4) by auto
  with r w show ?thesis by (simp add: lru_clean_def lru_writing_def)
qed

lemma lru_close_clean:
  assumes "lru_clean c w k b"
  shows "\<exists>c'. cwriter_Close (lru_saver mem_ops) c w = (None, c') \<and> lru_holds mem_cont c' k = Some b"
proof -
  have w: "memcache.linv c ([] @ w # [])" "cw_key w = k" "mem_wst (lru_s c) (cw_w w) = Some (k, b)" "\<not> cw_deleteOnClose w"
    using assms by (simp_all add: lru_clean_def lru_writing_def)
  obtain t' where "cwriter_Close (lru_saver mem_ops) c w = (None, t')" "lru_list t' = \<lparr>e_key = k, e_size = cw_size w\<rparr> # lru_list c"
      "mem_cont (lru_s t') = (mem_cont (lru_s c))(k \<mapsto> b)"
    by (rule memcache.Close_ok[OF w(1)]) (use w(2-4) in auto)
  then show ?thesis by (auto simp: lru_holds_def lru_Contains_iff)
qed

interpretation lru_keeps: retaining_cache "lru_ops mem_ops" "\<lambda>t. memcache.linv t []" "lru_holds mem_cont" lru_writing lru_clean
proof
  fix c :: "memory lru" and k :: string and w b p and now :: time
  show "\<exists>w c'. bc_Put (lru_ops mem_ops) c k = (Inr w, c') \<and> lru_clean c' w k [] \<and> bc_MaxSize (lru_ops mem_ops) c' = bc_MaxSize (lru_ops mem_ops) c"
    if inv: "memcache.linv c []" and h: "lru_holds mem_cont c k = None"
  proof -
    have new: "\<not> lru_Contains c k" using lru_not_held[OF inv h] .
    obtain w t' where p: "lru_Put mem_ops c k = (Inr w, t')" "lru_maxSize t' = lru_maxSize c" using memcache.Put_ok[OF inv new TrueI] by auto
    have "\<not> cw_deleteOnClose w" using p(1) by (auto simp: lru_Put_def Let_def split: if_splits prod.splits sum.splits)
    moreover have "lru_writing t' w k []"
      by (rule memcache.Put_cont[OF inv new TrueI p(1)]) (simp add: lru_writing_def)
    ultimately show ?thesis using p by (simp add: lru_ops_def lru_clean_def lru_MaxSize_def)
  qed
  show "\<exists>c' w'. bc_Write (lru_ops mem_ops) c now w p = ((length p, None), c', w') \<and> lru_clean c' w' k (b @ p) \<and> bc_MaxSize (lru_ops mem_ops) c' = bc_MaxSize (lru_ops mem_ops) c"
    if "lru_clean c w k b" "int (length b + length p) \<le> bc_MaxSize (lru_ops mem_ops) c"
    using lru_write_clean[of c w k b p] that by (simp add: lru_ops_def lru_MaxSize_def)
  show "\<exists>c'. bc_Close (lru_ops mem_ops) c now w = (None, c') \<and> lru_holds mem_cont c' k = Some b" if "lru_clean c w k b"
    using lru_close_clean[OF that] by (simp add: lru_ops_def)
  show "e = None \<and> bc_MaxSize (lru_ops mem_ops) c' = bc_MaxSize (lru_ops mem_ops) c" if "memcache.linv c []" "bc_Get (lru_ops mem_ops) c now k = ((r, e), c')" for r e c'
    using memcache.Get_ok[OF that(1), of k] that(2) by (auto simp: lru_ops_def lru_MaxSize_def split: if_splits)
qed

section \<open>The empty cache\<close>

interpretation empty_cache: blob_cache empty_ops "\<lambda>_. True" "\<lambda>_ _. None" "\<lambda>_ _ _ _. True"
  by unfold_locales (auto simp: empty_ops_def empty_Get_def empty_Put_def empty_Delete_def)

end
