(* ===== verification/Bagit.thy ===== *)
theory Bagit
  imports Hashing
begin

text \<open>
  The package bagit (src/bagit): writing and reading the BagIt zip files in which
  bendo keeps its bundles.

  The zip format is a parameter: \<open>z_enc\<close> is what archive/zip writes for a list of
  named files, \<open>z_dec\<close> what it reads from a stream, each file with its content and
  the error its stream ends with, if any. \<open>zip_rt\<close> states that reading gives back what
  was written. A writer collects the files; the zip writer buffers, and the bytes
  reach the underlying writer when the bag is closed.

  Go iterates over the manifest in an unspecified order while new files are being
  added to it; the model visits the names in the order in which they were added.
\<close>

section \<open>The zip format\<close>

record zipc =
  z_enc :: "(string \<times> bytes) list \<Rightarrow> bytes"
  z_dec :: "bytes \<Rightarrow> (string \<times> (bytes \<times> error option)) list result"

definition zip_rt :: "zipc \<Rightarrow> (string \<times> bytes) list \<Rightarrow> bool" where
  "zip_rt Z fs = (z_dec Z (z_enc Z fs) = Inr (map (\<lambda>(n, c). (n, (c, None))) fs))"

section \<open>Bags\<close>

record checksum =
  ck_MD5 :: bytes
  ck_SHA1 :: bytes
  ck_SHA256 :: bytes
  ck_SHA512 :: bytes

definition no_checksum :: checksum where
  "no_checksum = \<lparr>ck_MD5 = [], ck_SHA1 = [], ck_SHA256 = [], ck_SHA512 = []\<rparr>"

record bag =
  bag_dirname :: string
  bag_manifest :: "(string, checksum) gomap"
  bag_tags :: "(string, string) gomap"

definition bag_New :: bag where
  "bag_New = \<lparr>bag_dirname = '''', bag_manifest = [], bag_tags = []\<rparr>"

definition bag_Version :: string where
  "bag_Version = ''0.97''"

section \<open>Writing a bag\<close>

text \<open>The zip writer is the list of its files; \<open>bw_checksum\<close> is the name of the file whose
  checksum the Go pointer points at.\<close>

record bag_writer =
  bw_z :: "(string \<times> bytes) list"
  bw_t :: bag
  bw_checksum :: "string option"
  bw_hw :: "hash_writer option"
  bw_ns :: int
  bw_sz :: int

definition bag_NewWriter :: "string \<Rightarrow> bag_writer" where
  "bag_NewWriter name = \<lparr>bw_z = [], bw_t = bag_New\<lparr>bag_dirname := name @ ''/''\<rparr>, bw_checksum = None,
     bw_hw = None, bw_ns = 0, bw_sz = 0\<rparr>"

definition bag_SetTag :: "bag_writer \<Rightarrow> string \<Rightarrow> string \<Rightarrow> bag_writer" where
  "bag_SetTag w tag content = w\<lparr>bw_t := (bw_t w)\<lparr>bag_tags := gset tag content (bag_tags (bw_t w))\<rparr>\<rparr>"

definition bag_Checksum :: "hashes \<Rightarrow> bag_writer \<Rightarrow> bag_writer" where
  "bag_Checksum H w =
     (case (bw_hw w, bw_checksum w) of
        (Some hw, Some name) \<Rightarrow>
          (case gget (bag_manifest (bw_t w)) name of
             None \<Rightarrow> w
           | Some ck \<Rightarrow>
               w\<lparr>bw_t := (bw_t w)\<lparr>bag_manifest := gset name
                   (ck\<lparr>ck_MD5 := fst (CheckMD5 H hw []), ck_SHA256 := fst (CheckSHA256 H hw [])\<rparr>)
                   (bag_manifest (bw_t w))\<rparr>\<rparr>)
      | _ \<Rightarrow> w)"

text \<open>The checksum that \<open>Checksum\<close> returns.\<close>

definition bag_current :: "bag_writer \<Rightarrow> checksum option" where
  "bag_current w = (case bw_checksum w of None \<Rightarrow> None | Some name \<Rightarrow> gget (bag_manifest (bw_t w)) name)"

definition bag_create :: "hashes \<Rightarrow> bag_writer \<Rightarrow> string \<Rightarrow> bag_writer" where
  "bag_create H w name =
     (let w1 = bag_Checksum H w
      in w1\<lparr>bw_t := (bw_t w1)\<lparr>bag_manifest := gset name no_checksum (bag_manifest (bw_t w1))\<rparr>,
            bw_checksum := Some name,
            bw_z := bw_z w1 @ [(bag_dirname (bw_t w1) @ name, [])],
            bw_hw := Some NewHashWriter\<rparr>)"

definition bag_Create :: "hashes \<Rightarrow> bag_writer \<Rightarrow> string \<Rightarrow> bag_writer" where
  "bag_Create H w name = bag_create H (w\<lparr>bw_ns := bw_ns w + 1\<rparr>) (''data/'' @ name)"

text \<open>A write to the writer of the last file, through its hash writer.\<close>

definition bag_write :: "bag_writer \<Rightarrow> bytes \<Rightarrow> bag_writer" where
  "bag_write w p =
     (if bw_z w = [] then w
      else w\<lparr>bw_z := butlast (bw_z w) @ [(fst (last (bw_z w)), snd (last (bw_z w)) @ p)],
             bw_hw := map_option (\<lambda>hw. snd (hw_Write hw p (length p, None))) (bw_hw w)\<rparr>)"

text \<open>The same through the \<open>countWriter\<close> of a payload file.\<close>

definition countWriter_Write :: "bag_writer \<Rightarrow> bytes \<Rightarrow> bag_writer" where
  "countWriter_Write w p = (let w1 = bag_write w p in w1\<lparr>bw_sz := bw_sz w1 + int (length p)\<rparr>)"

definition humansize :: "int \<Rightarrow> string" where
  "humansize sz =
     (if sz < 1000 then fmt_d sz @ '' Bytes''
      else if sz < 1000000 then fmt_d (sz div 1000) @ '' KB''
      else if sz < 1000000000 then fmt_d (sz div 1000000) @ '' MB''
      else if sz < 1000000000000 then fmt_d (sz div 1000000000) @ '' GB''
      else fmt_d (sz div 1000000000000) @ '' TB'')"

definition bag_writeTags :: "hashes \<Rightarrow> bag_writer \<Rightarrow> bag_writer" where
  "bag_writeTags H w =
     (let w1 = bag_create H w ''bagit.txt'';
          w2 = bag_write w1 (''BagIt-Version: '' @ bag_Version @ [newline]);
          w3 = bag_write w2 (''Tag-File-Character-Encoding: UTF-8'' @ [newline]);
          w4 = bag_create H w3 ''bag-info.txt''
      in fold (\<lambda>(k, v) w. bag_write w (k @ '': '' @ v @ [newline])) (bag_tags (bw_t w4)) w4)"

text \<open>The loop of \<open>manifest\<close>; \<open>opened\<close> says whether the manifest file has been made.\<close>

fun bag_manifest_loop ::
  "hashes \<Rightarrow> bool \<Rightarrow> string \<Rightarrow> (checksum \<Rightarrow> bytes) \<Rightarrow> string list \<Rightarrow> bool \<Rightarrow> bag_writer \<Rightarrow> bag_writer" where
  "bag_manifest_loop H istag mname hash [] opened w = w"
| "bag_manifest_loop H istag mname hash (fname # names) opened w =
     (if istag = has_prefix fname ''data/'' then bag_manifest_loop H istag mname hash names opened w
      else
        (let h = hash (case gget (bag_manifest (bw_t w)) fname of None \<Rightarrow> no_checksum | Some ck \<Rightarrow> ck)
         in if h = [] then bag_manifest_loop H istag mname hash names opened w
            else
              (let w1 = (if opened then w else bag_create H w mname)
               in bag_manifest_loop H istag mname hash names True
                    (bag_write w1 (hex_encode h @ ''  '' @ fname @ [newline])))))"

definition bag_writer_manifest :: "hashes \<Rightarrow> bool \<Rightarrow> string \<Rightarrow> (checksum \<Rightarrow> bytes) \<Rightarrow> bag_writer \<Rightarrow> bag_writer" where
  "bag_writer_manifest H istag name hash w =
     bag_manifest_loop H istag ((if istag then ''tagmanifest-'' else ''manifest-'') @ name @ ''.txt'') hash
       (gkeys (bag_manifest (bw_t w))) False w"

definition bag_writeManifests :: "hashes \<Rightarrow> bag_writer \<Rightarrow> bag_writer" where
  "bag_writeManifests H w =
     (let w1 = bag_Checksum H w;
          w2 = bag_writer_manifest H False ''md5'' ck_MD5 w1;
          w3 = bag_writer_manifest H False ''sha1'' ck_SHA1 w2;
          w4 = bag_writer_manifest H False ''sha256'' ck_SHA256 w3;
          w5 = bag_writer_manifest H False ''sha512'' ck_SHA512 w4
      in bag_writer_manifest H True ''md5'' ck_MD5 w5)"

text \<open>\<open>Close\<close> on the day \<open>date\<close>: the bytes of the zip file.\<close>

definition bag_finish :: "hashes \<Rightarrow> string \<Rightarrow> bag_writer \<Rightarrow> bag_writer" where
  "bag_finish H date w =
     (let w1 = bag_SetTag w ''Payload-Oxum'' (fmt_d (bw_sz w) @ ''.'' @ fmt_d (bw_ns w));
          w2 = bag_SetTag w1 ''Bagging-Date'' date;
          w3 = bag_SetTag w2 ''Bag-Size'' (humansize (bw_sz w))
      in bag_writeManifests H (bag_writeTags H w3))"

definition bag_Close :: "hashes \<Rightarrow> zipc \<Rightarrow> string \<Rightarrow> bag_writer \<Rightarrow> bytes" where
  "bag_Close H Z date w = z_enc Z (bw_z (bag_finish H date w))"

section \<open>Reading a bag\<close>

record bag_reader =
  br_z :: "(string \<times> (bytes \<times> error option)) list"
  br_t :: bag

definition bag_NewReader :: "zipc \<Rightarrow> bytes \<Rightarrow> bag_reader result" where
  "bag_NewReader Z b =
     (case z_dec Z b of
        Inl e \<Rightarrow> Inl e
      | Inr files \<Rightarrow>
          (let dirname = (case files of
                 [] \<Rightarrow> ''''
               | f # fs \<Rightarrow> (case split2 CHR ''/'' (fst f) of [a, _] \<Rightarrow> a @ ''/'' | _ \<Rightarrow> ''''))
           in Inr \<lparr>br_z = files, br_t = bag_New\<lparr>bag_dirname := dirname\<rparr>\<rparr>))"

text \<open>Opening a file gives its stream: the bytes and the error it ends with.\<close>

definition bagr_open :: "bag_reader \<Rightarrow> string \<Rightarrow> (bytes \<times> error option) result" where
  "bagr_open r name =
     (case find (\<lambda>f. fst f = bag_dirname (br_t r) @ name) (br_z r) of
        None \<Rightarrow> Inl ErrNotFound
      | Some f \<Rightarrow> Inr (snd f))"

definition bagr_Open :: "bag_reader \<Rightarrow> string \<Rightarrow> (bytes \<times> error option) result" where
  "bagr_Open r name = bagr_open r (''data/'' @ name)"

text \<open>A scanner over a stream that may end with an error.\<close>

definition scan_stream :: "bytes \<times> error option \<Rightarrow> string list \<times> error option" where
  "scan_stream st = (let (ls, e) = scan_lines (fst st) in (ls, if e = None then snd st else e))"

fun load_tag_lines :: "string list \<Rightarrow> string \<Rightarrow> (string, string) gomap \<Rightarrow> (string, string) gomap" where
  "load_tag_lines [] prev tags = tags"
| "load_tag_lines (line # ls) prev tags =
     (if line = [] then load_tag_lines ls prev tags
      else if hd line = CHR '' '' \<or> hd line = char_of (9 :: nat) then
        load_tag_lines ls prev
          (if prev = [] then tags
           else gset prev ((case gget tags prev of None \<Rightarrow> '''' | Some v \<Rightarrow> v) @ '' '' @ trim_space line) tags)
      else
        (case split2 CHR '':'' line of
           [a, b] \<Rightarrow> load_tag_lines ls (trim_space a) (gset (trim_space a) (trim_space b) tags)
         | _ \<Rightarrow> load_tag_lines ls prev tags))"

definition bagr_loadtagfile :: "bag_reader \<Rightarrow> string \<Rightarrow> error option \<times> bag_reader" where
  "bagr_loadtagfile r name =
     (case bagr_open r name of
        Inl e \<Rightarrow> (Some e, r)
      | Inr st \<Rightarrow>
          (let (ls, e) = scan_stream st
           in (e, r\<lparr>br_t := (br_t r)\<lparr>bag_tags := load_tag_lines ls '''' (bag_tags (br_t r))\<rparr>\<rparr>)))"

definition bagr_Tags :: "bag_reader \<Rightarrow> (string, string) gomap \<times> bag_reader" where
  "bagr_Tags r =
     (let r' = (if bag_tags (br_t r) = []
                then snd (bagr_loadtagfile (snd (bagr_loadtagfile r ''bagit.txt'')) ''bag-info.txt'')
                else r)
      in (bag_tags (br_t r'), r'))"

datatype ck_field = CkMD5 | CkSHA1 | CkSHA256 | CkSHA512

fun ck_set :: "ck_field \<Rightarrow> checksum \<Rightarrow> bytes \<Rightarrow> checksum" where
  "ck_set CkMD5 c b = c\<lparr>ck_MD5 := b\<rparr>"
| "ck_set CkSHA1 c b = c\<lparr>ck_SHA1 := b\<rparr>"
| "ck_set CkSHA256 c b = c\<lparr>ck_SHA256 := b\<rparr>"
| "ck_set CkSHA512 c b = c\<lparr>ck_SHA512 := b\<rparr>"

text \<open>The lines of a manifest. A line that does not have two fields ends the reading, and the
  error that is returned is that of opening the file, which is none.\<close>

definition ck_entry :: "(string, checksum) gomap \<Rightarrow> string \<Rightarrow> checksum" where
  "ck_entry m fname = (case gget m fname of None \<Rightarrow> no_checksum | Some c \<Rightarrow> c)"

fun load_manifest_lines ::
  "ck_field \<Rightarrow> string list \<Rightarrow> error option \<Rightarrow> (string, checksum) gomap \<Rightarrow> error option \<times> (string, checksum) gomap" where
  "load_manifest_lines fld [] e m = (e, m)"
| "load_manifest_lines fld (line # ls) e m =
     (if line = [] then load_manifest_lines fld ls e m
      else case Go_Lib.fields line of
        [hexdigest, fname] \<Rightarrow>
          (let chksm = ck_entry m fname;
               (h, bad) = hex_decode hexdigest
           in if bad then (Some (ErrMessage ''encoding/hex: invalid byte''), gset fname chksm m)
              else load_manifest_lines fld ls e (gset fname (ck_set fld chksm h) m))
      | _ \<Rightarrow> (None, m))"

definition bagr_loadManifestFile :: "bag_reader \<Rightarrow> string \<Rightarrow> ck_field \<Rightarrow> error option \<times> bag_reader" where
  "bagr_loadManifestFile r name fld =
     (case bagr_open r name of
        Inl e \<Rightarrow> (Some e, r)
      | Inr st \<Rightarrow>
          (let (ls, e) = scan_stream st;
               (err, m) = load_manifest_lines fld ls e (bag_manifest (br_t r))
           in (err, r\<lparr>br_t := (br_t r)\<lparr>bag_manifest := m\<rparr>\<rparr>)))"

fun load_manifest_files :: "(string \<times> ck_field) list \<Rightarrow> bag_reader \<Rightarrow> error option \<times> bag_reader" where
  "load_manifest_files [] r = (None, r)"
| "load_manifest_files ((name, fld) # es) r =
     (let (err, r1) = bagr_loadManifestFile r name fld
      in if err \<noteq> None \<and> err \<noteq> Some ErrNotFound then (err, r1) else load_manifest_files es r1)"

definition bagr_loadManifests :: "bag_reader \<Rightarrow> error option \<times> bag_reader" where
  "bagr_loadManifests r = load_manifest_files
     [(''manifest-md5.txt'', CkMD5), (''manifest-sha1.txt'', CkSHA1), (''manifest-sha256.txt'', CkSHA256),
      (''manifest-sha512.txt'', CkSHA512), (''tagmanifest-md5.txt'', CkMD5)] r"

definition bagr_Checksum :: "bag_reader \<Rightarrow> string \<Rightarrow> checksum option \<times> bag_reader" where
  "bagr_Checksum r name =
     (let (err, r1) = (if bag_manifest (br_t r) = [] then bagr_loadManifests r else (None, r))
      in if err \<noteq> None then (None, r1) else (gget (bag_manifest (br_t r1)) (''data/'' @ name), r1))"

definition bagr_Files :: "bag_reader \<Rightarrow> string list" where
  "bagr_Files r =
     (let prefix = bag_dirname (br_t r) @ ''data/''
      in map (\<lambda>f. trim_prefix (fst f) prefix)
           (filter (\<lambda>f. length (fst f) \<noteq> length (trim_prefix (fst f) prefix)) (br_z r)))"

text \<open>The first loop of \<open>Verify\<close>: a payload file that no manifest lists, if any.\<close>

definition bagr_extra :: "bag_reader \<Rightarrow> string option" where
  "bagr_extra r =
     (case find (\<lambda>f. has_prefix (fst f) (bag_dirname (br_t r) @ ''data/'') \<and>
                     gget (bag_manifest (br_t r)) (trim_prefix (fst f) (bag_dirname (br_t r))) = None) (br_z r) of
        None \<Rightarrow> None
      | Some f \<Rightarrow> Some (trim_prefix (fst f) (bag_dirname (br_t r))))"

text \<open>The last loop: the checksums.\<close>

fun bagr_verify_files :: "hashes \<Rightarrow> bag_reader \<Rightarrow> (string \<times> (bytes \<times> error option)) list \<Rightarrow> error option" where
  "bagr_verify_files H r [] = None"
| "bagr_verify_files H r (f # fs) =
     (let xname = trim_prefix (fst f) (bag_dirname (br_t r))
      in case gget (bag_manifest (br_t r)) xname of
           None \<Rightarrow> bagr_verify_files H r fs
         | Some ck \<Rightarrow>
             (let (ok, err) = VerifyStreamHash H (snd f) (ck_MD5 ck) (ck_SHA256 ck)
              in if err \<noteq> None then err
                 else if \<not> ok then Some (BagError ErrChecksum xname)
                 else bagr_verify_files H r fs))"

definition bagr_Verify :: "hashes \<Rightarrow> bag_reader \<Rightarrow> error option \<times> bag_reader" where
  "bagr_Verify H r =
     (let (err, r1) = bagr_loadManifests r
      in if err \<noteq> None then (err, r1)
         else case bagr_extra r1 of
           Some xname \<Rightarrow> (Some (BagError ErrExtraFile xname), r1)
         | None \<Rightarrow>
             (let npayload = length (filter (\<lambda>f. has_prefix (fst f) (bag_dirname (br_t r1) @ ''data/'')) (br_z r1));
                  nmanifest = length (filter (\<lambda>k. has_prefix k ''data/'') (gkeys (bag_manifest (br_t r1))))
              in if npayload \<noteq> nmanifest then (Some (BagError ErrMissingFile ''''), r1)
                 else (bagr_verify_files H r1 (br_z r1), r1)))"

end
