(* ===== verification/Bagit_Correct.thy ===== *)
theory Bagit_Correct
  imports Bagit
begin

text \<open>
  A bag that has just been written verifies and gives back its files, and a bag
  that verifies has every payload file listed with matching checksums.
\<close>

section \<open>The state of a writer\<close>

definition file_checksum :: "hashes \<Rightarrow> bytes \<Rightarrow> checksum" where
  "file_checksum H c = \<lparr>ck_MD5 = h_md5 H c, ck_SHA1 = [], ck_SHA256 = h_sha256 H c, ck_SHA512 = []\<rparr>"

text \<open>\<open>bag_wf H w L\<close>: the writer holds the files \<open>L\<close> (names without the directory), their checksums are in
  the manifest, the one of the last file when it is asked for.\<close>

definition bag_wf :: "hashes \<Rightarrow> bag_writer \<Rightarrow> (string \<times> bytes) list \<Rightarrow> bool" where
  "bag_wf H w L =
     (bw_z w = map (\<lambda>(n, c). (bag_dirname (bw_t w) @ n, c)) L \<and> distinct (map fst L) \<and>
      gmap_ok (bag_manifest (bw_t w)) \<and> gkeys (bag_manifest (bw_t w)) = map fst L \<and>
      (\<forall>n c. (n, c) \<in> set (butlast L) \<longrightarrow> gget (bag_manifest (bw_t w)) n = Some (file_checksum H c)) \<and>
      (L = [] \<longrightarrow> bw_hw w = None \<and> bw_checksum w = None) \<and>
      (L \<noteq> [] \<longrightarrow>
         bw_hw w = Some \<lparr>hw_md5 = Some (snd (last L)), hw_sha256 = Some (snd (last L))\<rparr> \<and>
         bw_checksum w = Some (fst (last L)) \<and>
         (\<exists>ck. gget (bag_manifest (bw_t w)) (fst (last L)) = Some ck \<and> ck_SHA1 ck = [] \<and> ck_SHA512 ck = [])))"

definition bag_sealed :: "hashes \<Rightarrow> bag_writer \<Rightarrow> (string \<times> bytes) list \<Rightarrow> bool" where
  "bag_sealed H w L = (bag_wf H w L \<and> (\<forall>n c. (n, c) \<in> set L \<longrightarrow> gget (bag_manifest (bw_t w)) n = Some (file_checksum H c)))"

lemma gkeys_gset: "gkeys (gset k v m) = (if k \<in> set (gkeys m) then gkeys m else gkeys m @ [k])"
  by (induction m) (auto simp: gkeys_def)

lemma gget_in_gkeys: "gget m k \<noteq> None \<longleftrightarrow> k \<in> set (gkeys m)"
  by (auto simp: set_gkeys)

lemma bag_wf_New: "bag_wf H (bag_NewWriter name) []"
  by (simp add: bag_wf_def bag_NewWriter_def bag_New_def gkeys_def)

lemma bag_wf_SetTag [simp]:
  "bag_wf H (bag_SetTag w t c) L = bag_wf H w L" "bag_dirname (bw_t (bag_SetTag w t c)) = bag_dirname (bw_t w)"
  by (simp_all add: bag_wf_def bag_SetTag_def)

lemma bag_dirname_simps [simp]:
  "bag_dirname (bw_t (bag_Checksum H w)) = bag_dirname (bw_t w)"
  "bag_dirname (bw_t (bag_create H w n)) = bag_dirname (bw_t w)"
  "bag_dirname (bw_t (bag_write w p)) = bag_dirname (bw_t w)"
  by (simp_all add: bag_Checksum_def bag_create_def bag_write_def Let_def split: option.splits list.splits)

lemma bag_Checksum_sealed:
  assumes "bag_wf H w L"
  shows "bag_sealed H (bag_Checksum H w) L"
proof (cases L rule: rev_cases)
  case Nil
  with assms show ?thesis by (simp add: bag_sealed_def bag_wf_def bag_Checksum_def)
next
  case (snoc L' nc)
  obtain n c where nc: "nc = (n, c)" by fastforce
  obtain ck where w: "bw_hw w = Some \<lparr>hw_md5 = Some c, hw_sha256 = Some c\<rparr>" "bw_checksum w = Some n"
      "gget (bag_manifest (bw_t w)) n = Some ck" "ck_SHA1 ck = []" "ck_SHA512 ck = []"
    using assms snoc nc by (auto simp: bag_wf_def split: list.splits)
  have eq: "bag_Checksum H w = w\<lparr>bw_t := (bw_t w)\<lparr>bag_manifest := gset n (file_checksum H c) (bag_manifest (bw_t w))\<rparr>\<rparr>"
    using w by (cases ck) (simp add: bag_Checksum_def CheckMD5_def CheckSHA256_def file_checksum_def Let_def)
  have "(n, c') \<notin> set L'" for c' using assms snoc nc by (force simp: bag_wf_def)
  moreover have "n \<in> set (gkeys (bag_manifest (bw_t w)))" using assms snoc nc by (simp add: bag_wf_def)
  ultimately show ?thesis
    using assms w unfolding bag_sealed_def eq bag_wf_def snoc nc
    by (auto simp: gkeys_gset file_checksum_def split: list.splits)
qed

lemma bag_create_wf:
  assumes "bag_wf H w L" and "n \<notin> fst ` set L"
  shows "bag_wf H (bag_create H w n) (L @ [(n, [])])"
proof -
  let ?w = "bag_Checksum H w"
  have s: "bag_wf H ?w L" "\<forall>n c. (n, c) \<in> set L \<longrightarrow> gget (bag_manifest (bw_t ?w)) n = Some (file_checksum H c)"
    using bag_Checksum_sealed[OF assms(1)] by (simp_all add: bag_sealed_def)
  have "n \<notin> set (gkeys (bag_manifest (bw_t ?w)))" using s(1) assms(2) by (simp add: bag_wf_def)
  then show ?thesis
    using s assms(2) unfolding bag_wf_def bag_create_def Let_def
    by (auto simp: gkeys_gset NewHashWriter_def no_checksum_def image_iff split: list.splits)
qed

lemma bag_write_wf:
  assumes "bag_wf H w (L @ [(n, c)])"
  shows "bag_wf H (bag_write w p) (L @ [(n, c @ p)])"
  using assms by (simp add: bag_wf_def bag_write_def)

lemma bag_write_manifest [simp]: "bag_manifest (bw_t (bag_write w p)) = bag_manifest (bw_t w)" "bag_tags (bw_t (bag_write w p)) = bag_tags (bw_t w)"
  by (simp_all add: bag_write_def)

section \<open>Manifests\<close>

definition msel :: "bool \<Rightarrow> (checksum \<Rightarrow> bytes) \<Rightarrow> (string, checksum) gomap \<Rightarrow> string \<Rightarrow> bool" where
  "msel istag hash m n = (istag \<noteq> has_prefix n ''data/'' \<and> hash (ck_entry m n) \<noteq> [])"

definition mline :: "bytes \<Rightarrow> string \<Rightarrow> string" where
  "mline h n = hex_encode h @ ''  '' @ n"

lemma bag_manifest_dirname [simp]:
  "bag_dirname (bw_t (bag_manifest_loop H istag mname hash ns opened w)) = bag_dirname (bw_t w)"
proof (induction ns arbitrary: opened w)
  case (Cons n ns)
  then show ?case by (cases istag; cases "has_prefix n ''data/''") (simp_all add: Let_def)
qed simp

lemma manifest_opened:
  assumes "bag_wf H w (L @ [(mname, c)])"
  shows "bag_wf H (bag_manifest_loop H istag mname hash ns True w)
     (L @ [(mname, c @ unlines (map (\<lambda>n. mline (hash (ck_entry (bag_manifest (bw_t w)) n)) n)
        (filter (msel istag hash (bag_manifest (bw_t w))) ns)))])"
  using assms
proof (induction ns arbitrary: w c)
  case (Cons n ns)
  show ?case
  proof (cases "msel istag hash (bag_manifest (bw_t w)) n")
      case True
      let ?w = "bag_write w (mline (hash (ck_entry (bag_manifest (bw_t w)) n)) n @ [newline])"
      have "bag_wf H ?w (L @ [(mname, c @ mline (hash (ck_entry (bag_manifest (bw_t w)) n)) n @ [newline])])"
        by (rule bag_write_wf[OF Cons.prems])
      from Cons.IH[OF this] True show ?thesis by (simp add: msel_def ck_entry_def mline_def)
    next
      case False
      with Cons.IH[OF Cons.prems] show ?thesis by (auto simp: msel_def ck_entry_def)
    qed
qed simp

lemma manifest_skip:
  assumes "\<forall>n \<in> set ns1. \<not> msel istag hash (bag_manifest (bw_t w)) n"
  shows "bag_manifest_loop H istag mname hash (ns1 @ ns2) False w = bag_manifest_loop H istag mname hash ns2 False w"
  using assms by (induction ns1) (auto simp: msel_def ck_entry_def)

lemma bag_create_manifest:
  "bag_manifest (bw_t (bag_create H w n)) = gset n no_checksum (bag_manifest (bw_t (bag_Checksum H w)))"
  by (simp add: bag_create_def Let_def)

text \<open>A manifest that has at least one line: \<open>f\<close> is the first file listed.\<close>

lemma manifest_file:
  assumes wf: "bag_wf H w L" and new: "mname \<notin> fst ` set L" and ns: "map fst L = ns1 @ f # ns2"
    and skip: "\<forall>n \<in> set ns1. \<not> msel istag hash (bag_manifest (bw_t w)) n"
    and f: "gget (bag_manifest (bw_t w)) f = Some (file_checksum H fc)" "(f, fc) \<in> set L"
    and sel: "istag \<noteq> has_prefix f ''data/''" "hash (file_checksum H fc) \<noteq> []"
    and H: "\<And>c. (hash (file_checksum H c) = []) = (hash (file_checksum H []) = [])"
    and skip': "istag \<longrightarrow> (\<forall>n \<in> set ns1. has_prefix n ''data/'')" "\<not> istag \<longrightarrow> ns1 = []"
  shows "bag_wf H (bag_manifest_loop H istag mname hash (gkeys (bag_manifest (bw_t w))) False w)
     (L @ [(mname, unlines (map (\<lambda>(n, c). mline (hash (file_checksum H c)) n)
        (filter (\<lambda>(n, c). istag \<noteq> has_prefix n ''data/'') L)))])"
proof -
  let ?w1 = "bag_create H w mname"
  let ?m1 = "bag_manifest (bw_t ?w1)"
  let ?w2 = "bag_write ?w1 (mline (hash (file_checksum H fc)) f @ [newline])"
  have keys: "gkeys (bag_manifest (bw_t w)) = ns1 @ f # ns2" using wf ns by (simp add: bag_wf_def)
  have eq: "bag_manifest_loop H istag mname hash (gkeys (bag_manifest (bw_t w))) False w =
      bag_manifest_loop H istag mname hash ns2 True ?w2"
    unfolding keys manifest_skip[OF skip] using f(1) sel by (simp add: mline_def)
  have m1: "gget ?m1 n = Some (file_checksum H c)" if "(n, c) \<in> set L" for n c
  proof -
    have "n \<noteq> mname" using that new by force
    then show ?thesis using bag_Checksum_sealed[OF wf] that by (simp add: bag_create_manifest bag_sealed_def)
  qed
  have wf2: "bag_wf H ?w2 (L @ [(mname, mline (hash (file_checksum H fc)) f @ [newline])])"
    using bag_write_wf[OF bag_create_wf[OF wf new]] by simp
  have dist: "distinct (map fst L)" using wf by (simp add: bag_wf_def)
  obtain L1 L2 where L: "L = L1 @ (f, fc) # L2" "map fst L1 = ns1" "map fst L2 = ns2"
  proof -
    obtain L1 x L2 where "L = L1 @ x # L2" "map fst L1 = ns1" "fst x = f" "map fst L2 = ns2"
      using ns by (auto simp: map_eq_append_conv map_eq_Cons_conv)
    moreover have "x = (f, fc)"
      using dist f(2) calculation by (metis (no_types, lifting) eq_key_imp_eq_value in_set_conv_decomp prod.collapse)
    ultimately show thesis using that by blast
  qed
  have lines: "map (\<lambda>n. mline (hash (ck_entry ?m1 n)) n) (filter (msel istag hash ?m1) (map fst K)) =
     map (\<lambda>(n, c). mline (hash (file_checksum H c)) n) (filter (\<lambda>(n, c). istag \<noteq> has_prefix n ''data/'') K)"
    if "set K \<subseteq> set L" for K
    using that
  proof (induction K)
    case (Cons x K)
    obtain n c where x: "x = (n, c)" by fastforce
    then have "ck_entry ?m1 n = file_checksum H c" using m1[of n c] Cons.prems by (simp add: ck_entry_def)
    moreover have "hash (file_checksum H c) \<noteq> []" using H[of c] H[of fc] sel(2) by simp
    ultimately show ?case using Cons x by (cases istag; cases "has_prefix n ''data/''") (simp_all add: msel_def)
  qed simp
  have none: "filter (\<lambda>(n, c). istag \<noteq> has_prefix n ''data/'') L1 = []"
    using skip' L(2) by (cases istag) (force simp: filter_empty_conv)+
  have m2: "bag_manifest (bw_t ?w2) = ?m1" by simp
  have flt: "filter (\<lambda>(n, c). istag \<noteq> has_prefix n ''data/'') L =
      (f, fc) # filter (\<lambda>(n, c). istag \<noteq> has_prefix n ''data/'') L2"
    unfolding L(1) filter_append none using sel(1) by (simp only: filter.simps case_prod_conv if_True append_Nil simp_thms)
  have sub: "set L2 \<subseteq> set L" using L(1) by auto
  show ?thesis
    using manifest_opened[OF wf2, of istag hash ns2, unfolded m2 L(3)[symmetric] lines[OF sub]]
    unfolding eq flt L(3)[symmetric] by (simp only: list.map case_prod_conv unlines_simps append_assoc append_Cons append_Nil)
qed

section \<open>The files of a finished bag\<close>

lemma bag_writes_wf:
  assumes "bag_wf H w (L @ [(n, c)])"
  shows "\<exists>c'. bag_wf H (fold (\<lambda>(k, v) w. bag_write w (k @ '': '' @ v @ [newline])) tags w) (L @ [(n, c')]) \<and>
     bag_dirname (bw_t (fold (\<lambda>(k, v) w. bag_write w (k @ '': '' @ v @ [newline])) tags w)) = bag_dirname (bw_t w)"
  using assms
proof (induction tags arbitrary: w c)
  case (Cons kv tags)
  obtain k v where kv: "kv = (k, v)" by fastforce
  from Cons.IH[OF bag_write_wf[OF Cons.prems, of "k @ '': '' @ v @ [newline]"]] show ?case by (simp add: kv)
qed auto

definition tag_names :: "string list" where
  "tag_names = [''bagit.txt'', ''bag-info.txt'', ''manifest-md5.txt'', ''manifest-sha256.txt'']"

text \<open>What a finished bag holds beside its payload \<open>P\<close>, given the text \<open>I\<close> of \<^verbatim>\<open>bag-info.txt\<close>.\<close>

definition manifest_text :: "(bytes \<Rightarrow> bytes) \<Rightarrow> (string \<times> bytes) list \<Rightarrow> bytes" where
  "manifest_text hash P = unlines (map (\<lambda>(n, c). mline (hash c) n) P)"

definition bagit_txt :: bytes where
  "bagit_txt = ''BagIt-Version: '' @ bag_Version @ [newline] @ ''Tag-File-Character-Encoding: UTF-8'' @ [newline]"

definition tag_files :: "hashes \<Rightarrow> (string \<times> bytes) list \<Rightarrow> bytes \<Rightarrow> (string \<times> bytes) list" where
  "tag_files H P I = [(''bagit.txt'', bagit_txt), (''bag-info.txt'', I),
     (''manifest-md5.txt'', manifest_text (h_md5 H) P), (''manifest-sha256.txt'', manifest_text (h_sha256 H) P)]"

definition bag_files :: "hashes \<Rightarrow> (string \<times> bytes) list \<Rightarrow> bytes \<Rightarrow> (string \<times> bytes) list" where
  "bag_files H P I = P @ tag_files H P I @ [(''tagmanifest-md5.txt'', manifest_text (h_md5 H) (tag_files H P I))]"

definition payload_ok :: "(string \<times> bytes) list \<Rightarrow> bool" where
  "payload_ok P = (P \<noteq> [] \<and> distinct (map fst P) \<and> (\<forall>n c. (n, c) \<in> set P \<longrightarrow> has_prefix n ''data/''))"

lemma payload_tag_names:
  assumes "payload_ok P"
  shows "n \<in> fst ` set P \<Longrightarrow> has_prefix n ''data/''" and "\<not> has_prefix n ''data/'' \<Longrightarrow> n \<notin> fst ` set P"
  using assms by (auto simp: payload_ok_def)

lemma tag_no_prefix [simp]:
  "\<not> has_prefix ''bagit.txt'' ''data/''" "\<not> has_prefix ''bag-info.txt'' ''data/''"
  "\<not> has_prefix ''manifest-md5.txt'' ''data/''" "\<not> has_prefix ''manifest-sha256.txt'' ''data/''"
  "\<not> has_prefix ''tagmanifest-md5.txt'' ''data/''"
  by (simp_all add: has_prefix_def)

lemma filter_payload:
  assumes "payload_ok P"
  shows "filter (\<lambda>(n, c). has_prefix n ''data/'') P = P" and "filter (\<lambda>(n, c). \<not> has_prefix n ''data/'') P = []"
  using assms by (auto simp: payload_ok_def filter_id_conv filter_empty_conv)

lemma hashes_ok_ne:
  assumes "hashes_ok H"
  shows "h_md5 H c \<noteq> []" and "h_sha256 H c \<noteq> []"
  using assms by (metis hashes_ok_def list.size(3) zero_neq_numeral)+

lemma payload_manifest:
  assumes wf: "bag_wf H w (P @ (n0, c0) # Q)" and P: "payload_ok P" and Q: "\<forall>(n, c) \<in> set ((n0, c0) # Q). \<not> has_prefix n ''data/''"
    and new: "mname \<notin> fst ` set (P @ (n0, c0) # Q)" and H: "\<And>c. hash (file_checksum H c) \<noteq> []"
  shows "bag_wf H (bag_manifest_loop H False mname hash (gkeys (bag_manifest (bw_t w))) False w)
     (P @ (n0, c0) # Q @ [(mname, manifest_text (\<lambda>c. hash (file_checksum H c)) P)])"
proof -
  obtain f fc P' where P': "P = (f, fc) # P'" using P by (cases P) (auto simp: payload_ok_def)
  have ns: "map fst (P @ (n0, c0) # Q) = [] @ f # map fst P' @ n0 # map fst Q" by (simp add: P')
  have f: "gget (bag_manifest (bw_t w)) f = Some (file_checksum H fc)"
    using wf by (auto simp: bag_wf_def P' butlast_append)
  have "filter (\<lambda>(n, c). has_prefix n ''data/'') ((n0, c0) # Q) = []" using Q by (auto simp: filter_empty_conv)
  then have fil: "filter (\<lambda>(n, c). False \<noteq> has_prefix n ''data/'') (P @ (n0, c0) # Q) = P"
    using filter_payload(1)[OF P] by (simp add: case_prod_unfold)
  have "has_prefix f ''data/''" using P by (simp add: payload_ok_def P')
  have "bag_wf H (bag_manifest_loop H False mname hash (gkeys (bag_manifest (bw_t w))) False w)
     ((P @ (n0, c0) # Q) @ [(mname, unlines (map (\<lambda>(n, c). mline (hash (file_checksum H c)) n)
        (filter (\<lambda>(n, c). False \<noteq> has_prefix n ''data/'') (P @ (n0, c0) # Q))))])"
    by (rule manifest_file[OF wf new ns _ f]) (use H P' \<open>has_prefix f ''data/''\<close> in simp_all)
  then show ?thesis unfolding fil by (simp add: manifest_text_def)
qed

lemma bag_wf_nosha:
  assumes wf: "bag_wf H w L" and n: "n \<in> fst ` set L"
  shows "ck_SHA1 (ck_entry (bag_manifest (bw_t w)) n) = []" and "ck_SHA512 (ck_entry (bag_manifest (bw_t w)) n) = []"
proof -
  obtain c where c: "(n, c) \<in> set L" using n by force
  then have "L \<noteq> []" by auto
  then have "set L = set (butlast L) \<union> {last L}" by (metis append_butlast_last_id set_append list.set(1) list.set(2))
  then consider "(n, c) \<in> set (butlast L)" | "last L = (n, c)" using c by auto
  then show "ck_SHA1 (ck_entry (bag_manifest (bw_t w)) n) = []" and "ck_SHA512 (ck_entry (bag_manifest (bw_t w)) n) = []"
    using wf \<open>L \<noteq> []\<close> by (cases; auto simp: bag_wf_def ck_entry_def file_checksum_def)+
qed

lemma manifest_none:
  assumes wf: "bag_wf H w L" and none: "\<And>n. n \<in> fst ` set L \<Longrightarrow> hash (ck_entry (bag_manifest (bw_t w)) n) = []"
  shows "bag_writer_manifest H istag name hash w = w"
proof -
  have keys: "gkeys (bag_manifest (bw_t w)) = map fst L" using wf by (simp add: bag_wf_def)
  have "\<forall>n \<in> set (map fst L). \<not> msel istag hash (bag_manifest (bw_t w)) n" using none by (auto simp: msel_def)
  from manifest_skip[where ?ns2.0 = "[]", OF this] show ?thesis by (simp add: bag_writer_manifest_def keys)
qed

lemma tag_manifest:
  assumes wf: "bag_wf H w (P @ tag_files H P I)" and P: "payload_ok P" and H: "hashes_ok H"
  shows "bag_wf H (bag_writer_manifest H True ''md5'' ck_MD5 w)
     ((P @ tag_files H P I) @ [(''tagmanifest-md5.txt'', manifest_text (h_md5 H) (tag_files H P I))])"
proof -
  let ?L = "P @ tag_files H P I"
  have new: "''tagmanifest-md5.txt'' \<notin> fst ` set ?L"
    using payload_tag_names(2)[OF P, of "''tagmanifest-md5.txt''"] by (auto simp: tag_files_def)
  have ns: "map fst ?L = map fst P @ ''bagit.txt'' # [''bag-info.txt'', ''manifest-md5.txt'', ''manifest-sha256.txt'']"
    by (simp add: tag_files_def)
  have pre: "\<forall>n \<in> set (map fst P). has_prefix n ''data/''" using payload_tag_names(1)[OF P] by simp
  then have skip: "\<forall>n \<in> set (map fst P). \<not> msel True ck_MD5 (bag_manifest (bw_t w)) n" by (simp add: msel_def)
  have f: "gget (bag_manifest (bw_t w)) ''bagit.txt'' = Some (file_checksum H bagit_txt)" "(''bagit.txt'', bagit_txt) \<in> set ?L"
    using wf by (auto simp: bag_wf_def tag_files_def butlast_append)
  have fil: "filter (\<lambda>(n, c). True \<noteq> has_prefix n ''data/'') ?L = tag_files H P I"
    using filter_payload(2)[OF P] by (simp add: case_prod_unfold tag_files_def)
  have ne: "ck_MD5 (file_checksum H c) \<noteq> []" for c using hashes_ok_ne[OF H] by (simp add: file_checksum_def)
  have "bag_wf H (bag_manifest_loop H True ''tagmanifest-md5.txt'' ck_MD5 (gkeys (bag_manifest (bw_t w))) False w)
     (?L @ [(''tagmanifest-md5.txt'', unlines (map (\<lambda>(n, c). mline (ck_MD5 (file_checksum H c)) n)
        (filter (\<lambda>(n, c). True \<noteq> has_prefix n ''data/'') ?L)))])"
    by (rule manifest_file[OF wf new ns skip f]) (use ne pre in simp_all)
  then show ?thesis unfolding fil by (simp add: bag_writer_manifest_def manifest_text_def file_checksum_def)
qed

lemma bag_finish_files:
  assumes wf: "bag_wf H w P" and P: "payload_ok P" and H: "hashes_ok H"
  shows "\<exists>I. bw_z (bag_finish H date w) = map (\<lambda>(n, c). (bag_dirname (bw_t w) @ n, c)) (bag_files H P I)"
proof -
  define w3 where "w3 = bag_SetTag (bag_SetTag (bag_SetTag w ''Payload-Oxum'' (fmt_d (bw_sz w) @ ''.'' @ fmt_d (bw_ns w)))
     ''Bagging-Date'' date) ''Bag-Size'' (humansize (bw_sz w))"
  have wf3: "bag_wf H w3 P" and dir3: "bag_dirname (bw_t w3) = bag_dirname (bw_t w)" using wf by (simp_all add: w3_def)
  note notin = payload_tag_names(2)[OF P]
  define w4 where "w4 = bag_write (bag_write (bag_create H w3 ''bagit.txt'') (''BagIt-Version: '' @ bag_Version @ [newline]))
     (''Tag-File-Character-Encoding: UTF-8'' @ [newline])"
  have wf4: "bag_wf H w4 (P @ [(''bagit.txt'', bagit_txt)])"
  proof -
    have "bag_wf H (bag_create H w3 ''bagit.txt'') (P @ [(''bagit.txt'', [])])"
      by (rule bag_create_wf[OF wf3 notin]) simp
    from bag_write_wf[OF bag_write_wf[OF this, of "''BagIt-Version: '' @ bag_Version @ [newline]"],
        of "''Tag-File-Character-Encoding: UTF-8'' @ [newline]"]
    show ?thesis unfolding w4_def bagit_txt_def by (simp only: append_Nil append_assoc)
  qed
  define w5 where "w5 = bag_create H w4 ''bag-info.txt''"
  have wf5: "bag_wf H w5 ((P @ [(''bagit.txt'', bagit_txt)]) @ [(''bag-info.txt'', [])])"
    unfolding w5_def by (rule bag_create_wf[OF wf4]) (use notin in simp)
  define w6 where "w6 = bag_writeTags H w3"
  obtain I where wf6: "bag_wf H w6 ((P @ [(''bagit.txt'', bagit_txt)]) @ [(''bag-info.txt'', I)])"
      and dir6: "bag_dirname (bw_t w6) = bag_dirname (bw_t w)"
    using bag_writes_wf[OF wf5, of "bag_tags (bw_t w5)"] dir3
    by (auto simp: w6_def bag_writeTags_def Let_def w5_def w4_def)
  define w7 where "w7 = bag_Checksum H w6"
  have wf7: "bag_wf H w7 (P @ (''bagit.txt'', bagit_txt) # [(''bag-info.txt'', I)])"
    using bag_Checksum_sealed[OF wf6] by (simp add: w7_def bag_sealed_def)
  define w8 where "w8 = bag_writer_manifest H False ''md5'' ck_MD5 w7"
  have wf8: "bag_wf H w8 (P @ (''bagit.txt'', bagit_txt) # [(''bag-info.txt'', I), (''manifest-md5.txt'', manifest_text (h_md5 H) P)])"
    unfolding w8_def bag_writer_manifest_def
    using payload_manifest[OF wf7 P, of "''manifest-md5.txt''" ck_MD5] notin hashes_ok_ne[OF H]
    by (simp add: file_checksum_def)
  have sha1: "bag_writer_manifest H False ''sha1'' ck_SHA1 w8 = w8" by (rule manifest_none[OF wf8]) (rule bag_wf_nosha[OF wf8])
  define w9 where "w9 = bag_writer_manifest H False ''sha256'' ck_SHA256 w8"
  have wf9: "bag_wf H w9 (P @ tag_files H P I)"
    unfolding w9_def bag_writer_manifest_def tag_files_def
    using payload_manifest[OF wf8 P, of "''manifest-sha256.txt''" ck_SHA256] notin hashes_ok_ne[OF H]
    by (simp add: file_checksum_def)
  have sha512: "bag_writer_manifest H False ''sha512'' ck_SHA512 w9 = w9" by (rule manifest_none[OF wf9]) (rule bag_wf_nosha[OF wf9])
  define w10 where "w10 = bag_writer_manifest H True ''md5'' ck_MD5 w9"
  have wf10: "bag_wf H w10 ((P @ tag_files H P I) @ [(''tagmanifest-md5.txt'', manifest_text (h_md5 H) (tag_files H P I))])"
    by (unfold w10_def) (rule tag_manifest[OF wf9 P H])
  have dir10: "bag_dirname (bw_t w10) = bag_dirname (bw_t w)"
    using dir6 by (simp add: w10_def w9_def w8_def w7_def bag_writer_manifest_def)
  have "bag_finish H date w = w10"
  proof -
    have "bag_finish H date w = bag_writeManifests H w6" by (simp add: bag_finish_def w6_def w3_def Let_def)
    also have "\<dots> = w10"
      unfolding bag_writeManifests_def Let_def
      by (simp only: w7_def[symmetric] w8_def[symmetric] sha1 w9_def[symmetric] sha512 w10_def[symmetric])
    finally show ?thesis .
  qed
  with wf10 dir10 show ?thesis by (intro exI[of _ I]) (simp add: bag_wf_def bag_files_def)
qed

section \<open>Reading a finished bag\<close>

text \<open>Names that survive a manifest: without white space and short enough for a line.\<close>

definition name_ok :: "string \<Rightarrow> bool" where
  "name_ok n = (n \<noteq> [] \<and> (\<forall>c \<in> set n. \<not> is_space c) \<and> length n < 60000)"

lemma fields_word:
  assumes "w \<noteq> []" and "\<forall>c \<in> set w. \<not> is_space c"
  shows "Go_Lib.fields w = [w]"
proof -
  have dw: "dropWhile is_space w = w" using assms by (cases w) auto
  have tw: "takeWhile (\<lambda>c. \<not> is_space c) w = w" "dropWhile (\<lambda>c. \<not> is_space c) w = []"
    using assms(2) by (auto simp: takeWhile_eq_all_conv)
  have nil: "Go_Lib.fields [] = []" by (simp add: Go_Lib.fields.simps)
  show ?thesis by (subst Go_Lib.fields.simps) (simp add: dw tw nil assms(1))
qed

lemma fields_two:
  assumes a: "a \<noteq> []" "\<forall>c \<in> set a. \<not> is_space c" and b: "b \<noteq> []" "\<forall>c \<in> set b. \<not> is_space c"
  shows "Go_Lib.fields (a @ ''  '' @ b) = [a, b]"
proof -
  have sp: "is_space CHR '' ''" by (simp add: is_space_def)
  have dw: "dropWhile is_space (a @ ''  '' @ b) = a @ ''  '' @ b" using a by (cases a) auto
  have "takeWhile (\<lambda>c. \<not> is_space c) (a @ ''  '' @ b) = a" "dropWhile (\<lambda>c. \<not> is_space c) (a @ ''  '' @ b) = ''  '' @ b"
    using a(2) sp by (simp_all add: takeWhile_append2 dropWhile_append2)
  moreover have "Go_Lib.fields (''  '' @ b) = [b]"
    using fields_word[OF b] sp by (subst Go_Lib.fields.simps, subst (asm) Go_Lib.fields.simps) simp
  ultimately show ?thesis using a(1) by (subst Go_Lib.fields.simps, unfold dw Let_def) simp
qed

definition hex_char :: "char \<Rightarrow> bool" where
  "hex_char c = (let n = of_char c :: nat in 48 \<le> n \<and> n \<le> 57 \<or> 97 \<le> n \<and> n \<le> 102)"

lemma hex_digit_range: "d < 16 \<Longrightarrow> hex_char (hex_digit d)"
  by (auto simp: hex_digit_def hex_char_def)

lemma hex_encode_chars: "c \<in> set (hex_encode bs) \<Longrightarrow> hex_char c"
proof (induction bs)
  case (Cons b bs)
  have "(of_char b :: nat) div 16 < 16" using of_char_lt[of b] by linarith
  with Cons show ?case using hex_digit_range[of "of_char b div 16"] hex_digit_range[of "of_char b mod 16"] by auto
qed simp

lemma hex_encode_nospace: "\<forall>c \<in> set (hex_encode bs). \<not> is_space c"
  using hex_encode_chars by (fastforce simp: is_space_def hex_char_def)

lemma mline_plain:
  assumes "name_ok n" and "length h \<le> 64"
  shows "plain_line (mline h n)" and "mline h n \<noteq> []"
proof -
  have nsp: "is_space newline" "is_space (char_of (13 :: nat))" by (simp_all add: is_space_def newline_def)
  have "last (mline h n) = last n" using assms(1) by (simp add: mline_def name_ok_def)
  moreover have "\<not> is_space (last n)" using assms(1) last_in_set[of n] by (simp add: name_ok_def)
  ultimately have cr: "last (mline h n) \<noteq> char_of (13 :: nat)" using nsp(2) by metis
  have "newline \<notin> set (mline h n)"
  proof -
    have "newline \<noteq> CHR '' ''" by code_simp
    moreover have "newline \<notin> set (hex_encode h)" "newline \<notin> set n"
      using assms(1) nsp(1) hex_encode_nospace[of h] by (auto simp: name_ok_def)
    ultimately show ?thesis by (simp add: mline_def)
  qed
  moreover have "int (length (mline h n)) < max_token" using assms by (simp add: mline_def name_ok_def max_token_def)
  ultimately show "plain_line (mline h n)" using cr by (simp add: plain_line_def drop_cr_def)
  show "mline h n \<noteq> []" by (simp add: mline_def)
qed

lemma mline_fields:
  assumes "name_ok n" and "h \<noteq> []"
  shows "Go_Lib.fields (mline h n) = [hex_encode h, n]"
proof -
  have "hex_encode h \<noteq> []" using assms(2) by (cases h) auto
  then show ?thesis unfolding mline_def
    using fields_two[OF _ hex_encode_nospace] assms(1) by (simp add: name_ok_def)
qed

definition put_ck :: "ck_field \<Rightarrow> (bytes \<Rightarrow> bytes) \<Rightarrow> (string \<times> bytes) list \<Rightarrow> (string, checksum) gomap \<Rightarrow> (string, checksum) gomap" where
  "put_ck fld hash P m = fold (\<lambda>(n, c) m. gset n (ck_set fld (ck_entry m n) (hash c)) m) P m"

lemma load_manifest_text:
  assumes "\<forall>(n, c) \<in> set P. name_ok n" and "\<And>c. hash c \<noteq> []"
  shows "load_manifest_lines fld (map (\<lambda>(n, c). mline (hash c) n) P) e m = (e, put_ck fld hash P m)"
  using assms(1)
proof (induction P arbitrary: m)
  case (Cons x P)
  obtain n c where x: "x = (n, c)" by fastforce
  have ok: "name_ok n" using Cons.prems x by simp
  have "mline (hash c) n \<noteq> []" by (simp add: mline_def)
  with Cons mline_fields[OF ok assms(2)] x show ?case by (simp add: put_ck_def)
qed (simp add: put_ck_def)

lemma put_ck_get:
  assumes "distinct (map fst P)"
  shows "gget (put_ck fld hash P m) n = (case map_of P n of None \<Rightarrow> gget m n | Some c \<Rightarrow> Some (ck_set fld (ck_entry m n) (hash c)))"
  using assms
proof (induction P arbitrary: m)
  case (Cons x P)
  obtain k c where x: "x = (k, c)" by fastforce
  have "map_of P k = None" using Cons.prems x by (simp add: map_of_eq_None_iff)
  with Cons x show ?case by (auto simp: put_ck_def ck_entry_def split: option.splits)
qed (simp add: put_ck_def)

lemma put_ck_ok: "gmap_ok m \<Longrightarrow> gmap_ok (put_ck fld hash P m)"
  unfolding put_ck_def by (induction P arbitrary: m) (auto simp: case_prod_unfold)

definition bag_zip :: "string \<Rightarrow> (string \<times> bytes) list \<Rightarrow> (string \<times> (bytes \<times> error option)) list" where
  "bag_zip d F = map (\<lambda>(n, c). (d @ n, (c, None))) F"

lemma bag_zip_find:
  "find (\<lambda>f. fst f = d @ name) (bag_zip d F) = map_option (\<lambda>c. (d @ name, (c, None))) (map_of F name)"
  by (induction F) (auto simp: bag_zip_def)

lemma bagr_open_zip:
  assumes "br_z r = bag_zip (bag_dirname (br_t r)) F"
  shows "bagr_open r name = (case map_of F name of None \<Rightarrow> Inl ErrNotFound | Some c \<Rightarrow> Inr (c, None))"
  unfolding bagr_open_def assms bag_zip_find by (simp split: option.splits)

lemma load_manifest_found:
  assumes z: "br_z r = bag_zip (bag_dirname (br_t r)) F" and f: "map_of F name = Some (manifest_text hash Q)"
    and Q: "\<forall>(n, c) \<in> set Q. name_ok n" and hash: "\<And>c. hash c \<noteq> []" "\<And>c. length (hash c) \<le> 64"
  shows "bagr_loadManifestFile r name fld =
     (None, r\<lparr>br_t := (br_t r)\<lparr>bag_manifest := put_ck fld hash Q (bag_manifest (br_t r))\<rparr>\<rparr>)"
proof -
  have "\<forall>l \<in> set (map (\<lambda>(n, c). mline (hash c) n) Q). plain_line l"
    using Q mline_plain(1)[OF _ hash(2)] by auto
  from scan_lines_unlines[OF this] have "scan_stream (manifest_text hash Q, None) = (map (\<lambda>(n, c). mline (hash c) n) Q, None)"
    by (simp add: scan_stream_def manifest_text_def)
  with f load_manifest_text[OF Q hash(1)] show ?thesis
    by (simp add: bagr_loadManifestFile_def bagr_open_zip[OF z])
qed

lemma load_manifest_absent:
  assumes z: "br_z r = bag_zip (bag_dirname (br_t r)) F" and f: "map_of F name = None"
  shows "bagr_loadManifestFile r name fld = (Some ErrNotFound, r)"
  using f by (simp add: bagr_loadManifestFile_def bagr_open_zip[OF z])

lemma name_ok_tags [simp]:
  "name_ok ''bagit.txt''" "name_ok ''bag-info.txt''" "name_ok ''manifest-md5.txt''" "name_ok ''manifest-sha256.txt''"
  by (simp_all add: name_ok_def is_space_def)

definition bag_sums :: "hashes \<Rightarrow> (string \<times> bytes) list \<Rightarrow> bytes \<Rightarrow> (string, checksum) gomap" where
  "bag_sums H P I = put_ck CkMD5 (h_md5 H) (tag_files H P I) (put_ck CkSHA256 (h_sha256 H) P (put_ck CkMD5 (h_md5 H) P []))"

lemma load_finished:
  assumes z: "br_z r = bag_zip (bag_dirname (br_t r)) (bag_files H P I)" and new: "bag_manifest (br_t r) = []"
    and P: "payload_ok P" and names: "\<forall>(n, c) \<in> set P. name_ok n" and H: "hashes_ok H"
  shows "bagr_loadManifests r = (None, r\<lparr>br_t := (br_t r)\<lparr>bag_manifest := bag_sums H P I\<rparr>\<rparr>)"
proof -
  have P0: "map_of P n = None" if "\<not> has_prefix n ''data/''" for n
    using payload_tag_names(2)[OF P that] by (simp add: map_of_eq_None_iff)
  have len: "length (h_md5 H c) \<le> 64" "length (h_sha256 H c) \<le> 64" for c using H by (simp_all add: hashes_ok_def)
  note ne = hashes_ok_ne[OF H]
  have sha: "\<not> has_prefix ''manifest-sha1.txt'' ''data/''" "\<not> has_prefix ''manifest-sha512.txt'' ''data/''"
    by (simp_all add: has_prefix_def)
  have files: "map_of (bag_files H P I) ''manifest-md5.txt'' = Some (manifest_text (h_md5 H) P)"
    "map_of (bag_files H P I) ''manifest-sha256.txt'' = Some (manifest_text (h_sha256 H) P)"
    "map_of (bag_files H P I) ''tagmanifest-md5.txt'' = Some (manifest_text (h_md5 H) (tag_files H P I))"
    "map_of (bag_files H P I) ''manifest-sha1.txt'' = None" "map_of (bag_files H P I) ''manifest-sha512.txt'' = None"
    using P0 sha by (simp_all add: bag_files_def tag_files_def map_add_def)
  have tags: "\<forall>(n, c) \<in> set (tag_files H P I). name_ok n" by (simp add: tag_files_def)
  let ?r = "\<lambda>m. r\<lparr>br_t := (br_t r)\<lparr>bag_manifest := m\<rparr>\<rparr>"
  have zr: "br_z (?r m) = bag_zip (bag_dirname (br_t (?r m))) (bag_files H P I)" for m using z by simp
  note step = load_manifest_found[OF zr] load_manifest_absent[OF zr]
  have r0: "r = ?r []" using new by (cases r, cases "br_t r") simp
  show ?thesis
    unfolding bagr_loadManifests_def bag_sums_def
    by (subst r0) (simp add: step(1)[OF files(1) names ne(1) len(1)] step(2)[OF files(4)]
      step(1)[OF files(2) names ne(2) len(2)] step(2)[OF files(5)] step(1)[OF files(3) tags ne(1) len(1)])
qed

lemma map_of_tag_payload:
  assumes "payload_ok P"
  shows "map_of (tag_files H P I) n \<noteq> None \<Longrightarrow> map_of P n = None"
    and "map_of P n = Some c \<Longrightarrow> map_of (tag_files H P I) n = None"
proof -
  have "\<not> (n \<in> fst ` set P \<and> n \<in> fst ` set (tag_files H P I))"
  proof -
    have "n \<in> fst ` set (tag_files H P I) \<Longrightarrow> \<not> has_prefix n ''data/''" by (auto simp: tag_files_def)
    with payload_tag_names(1)[OF assms, of n] show ?thesis by blast
  qed
  then show "map_of (tag_files H P I) n \<noteq> None \<Longrightarrow> map_of P n = None" "map_of P n = Some c \<Longrightarrow> map_of (tag_files H P I) n = None"
    by (metis map_of_eq_None_iff option.distinct(1))+
qed

lemma bag_sums_get:
  assumes "payload_ok P"
  shows "gget (bag_sums H P I) n =
     (case map_of P n of
        Some c \<Rightarrow> Some (file_checksum H c)
      | None \<Rightarrow> map_option (\<lambda>c. no_checksum\<lparr>ck_MD5 := h_md5 H c\<rparr>) (map_of (tag_files H P I) n))"
proof -
  have d: "distinct (map fst P)" "distinct (map fst (tag_files H P I))" using assms by (simp_all add: payload_ok_def tag_files_def)
  show ?thesis
    unfolding bag_sums_def put_ck_get[OF d(2)] ck_entry_def put_ck_get[OF d(1)]
    using map_of_tag_payload[OF assms, where H = H and I = I and n = n]
    by (auto simp: file_checksum_def no_checksum_def split: option.splits)
qed

lemma bag_sums_keys:
  assumes P: "payload_ok P"
  shows "length (filter (\<lambda>k. has_prefix k ''data/'') (gkeys (bag_sums H P I))) = length P"
proof -
  have ok: "gmap_ok (bag_sums H P I)" unfolding bag_sums_def by (intro put_ck_ok) simp
  have "k \<in> set (gkeys (bag_sums H P I)) \<and> has_prefix k ''data/'' \<longleftrightarrow> k \<in> fst ` set P" for k
  proof -
    have "k \<in> set (gkeys (bag_sums H P I)) \<longleftrightarrow> map_of P k \<noteq> None \<or> map_of (tag_files H P I) k \<noteq> None"
      using bag_sums_get[OF P, of H I k] by (auto simp: gget_in_gkeys[symmetric] split: option.splits)
    moreover have "map_of P k \<noteq> None \<longleftrightarrow> k \<in> fst ` set P" by (simp add: map_of_eq_None_iff)
    moreover have "map_of (tag_files H P I) k \<noteq> None \<Longrightarrow> \<not> has_prefix k ''data/''"
      by (auto simp: tag_files_def split: if_splits)
    ultimately show ?thesis using payload_tag_names(1)[OF P] by blast
  qed
  then have "set (filter (\<lambda>k. has_prefix k ''data/'') (gkeys (bag_sums H P I))) = set (map fst P)" by auto
  moreover have "distinct (filter (\<lambda>k. has_prefix k ''data/'') (gkeys (bag_sums H P I)))" "distinct (map fst P)"
    using ok P by (simp_all add: gmap_ok_def gkeys_def payload_ok_def)
  ultimately show ?thesis by (metis distinct_card length_map)
qed

lemma verify_files_ok:
  assumes "\<And>n c. (n, c) \<in> set F \<Longrightarrow> \<forall>ck. gget (bag_manifest (br_t r)) n = Some ck \<longrightarrow>
      (ck_MD5 ck = [] \<or> ck_MD5 ck = h_md5 H c) \<and> (ck_SHA256 ck = [] \<or> ck_SHA256 ck = h_sha256 H c)"
  shows "bagr_verify_files H r (bag_zip (bag_dirname (br_t r)) F) = None"
  using assms
proof (induction F)
  case (Cons x F)
  obtain n c where x: "x = (n, c)" by fastforce
  have IH: "bagr_verify_files H r (bag_zip (bag_dirname (br_t r)) F) = None" using Cons.IH Cons.prems by (meson list.set_intros(2))
  have "VerifyStreamHash H (c, None) (ck_MD5 ck) (ck_SHA256 ck) = (True, None)"
    if "gget (bag_manifest (br_t r)) n = Some ck" for ck
    using Cons.prems[of n c] that x VerifyStreamHash_iff[of H c None "ck_MD5 ck" "ck_SHA256 ck"]
      VerifyStreamHash_err[of H c None "ck_MD5 ck" "ck_SHA256 ck"] by (auto simp: prod_eq_iff)
  with IH show ?case by (auto simp: x bag_zip_def split: option.splits)
qed (simp add: bag_zip_def)

lemma Verify_finished:
  assumes z: "br_z r = bag_zip (bag_dirname (br_t r)) (bag_files H P I)" and new: "bag_manifest (br_t r) = []"
    and P: "payload_ok P" and names: "\<forall>(n, c) \<in> set P. name_ok n" and H: "hashes_ok H"
  shows "fst (bagr_Verify H r) = None"
proof -
  let ?r = "r\<lparr>br_t := (br_t r)\<lparr>bag_manifest := bag_sums H P I\<rparr>\<rparr>"
  note load = load_finished[OF assms]
  have d: "distinct (map fst P)" using P by (simp add: payload_ok_def)
  have pre: "has_prefix (bag_dirname (br_t r) @ n) (bag_dirname (br_t r) @ ''data/'') = has_prefix n ''data/''" for n by simp
  have sums: "gget (bag_sums H P I) n = Some (file_checksum H c)" if "(n, c) \<in> set P" for n c
    using bag_sums_get[OF P, of H I n] map_of_is_SomeI[OF d that] by simp
  have "bagr_extra ?r = None"
  proof -
    have "\<forall>f \<in> set (br_z r). \<not> (has_prefix (fst f) (bag_dirname (br_t r) @ ''data/'') \<and>
        gget (bag_sums H P I) (trim_prefix (fst f) (bag_dirname (br_t r))) = None)"
      using sums unfolding z by (auto simp: bag_zip_def bag_files_def tag_files_def pre)
    then have "find (\<lambda>f. has_prefix (fst f) (bag_dirname (br_t r) @ ''data/'') \<and>
        gget (bag_sums H P I) (trim_prefix (fst f) (bag_dirname (br_t r))) = None) (br_z r) = None"
      by (auto simp: find_None_iff)
    then show ?thesis by (simp add: bagr_extra_def)
  qed
  moreover have "length (filter (\<lambda>f. has_prefix (fst f) (bag_dirname (br_t r) @ ''data/'')) (br_z r)) = length P"
  proof -
    have "filter (\<lambda>f. has_prefix (fst f) (bag_dirname (br_t r) @ ''data/'')) (bag_zip (bag_dirname (br_t r)) F) =
        bag_zip (bag_dirname (br_t r)) (filter (\<lambda>(n, c). has_prefix n ''data/'') F)" for F
      by (induction F) (auto simp: bag_zip_def pre)
    moreover have "filter (\<lambda>(n, c). has_prefix n ''data/'') (bag_files H P I) = P"
      using filter_payload(1)[OF P] by (simp add: bag_files_def tag_files_def)
    ultimately show ?thesis unfolding z by (simp add: bag_zip_def)
  qed
  moreover have "bagr_verify_files H ?r (br_z r) = None"
  proof -
    have "(ck_MD5 ck = [] \<or> ck_MD5 ck = h_md5 H c) \<and> (ck_SHA256 ck = [] \<or> ck_SHA256 ck = h_sha256 H c)"
      if nc: "(n, c) \<in> set (bag_files H P I)" and ck: "gget (bag_sums H P I) n = Some ck" for n c ck
    proof (cases "(n, c) \<in> set P")
      case True
      from sums[OF True] ck show ?thesis by (auto simp: file_checksum_def)
    next
      case False
      then have np: "\<not> has_prefix n ''data/''" using nc by (auto simp: bag_files_def tag_files_def)
      then have none: "map_of P n = None" using payload_tag_names(2)[OF P] by (simp add: map_of_eq_None_iff)
      show ?thesis
      proof (cases "(n, c) \<in> set (tag_files H P I)")
        case True
        moreover have "distinct (map fst (tag_files H P I))" by (simp add: tag_files_def)
        ultimately have "map_of (tag_files H P I) n = Some c" by simp
        with ck bag_sums_get[OF P, of H I n] none show ?thesis by (auto simp: no_checksum_def)
      next
        case False
        then have "n = ''tagmanifest-md5.txt''" using nc \<open>(n, c) \<notin> set P\<close> by (auto simp: bag_files_def)
        with ck bag_sums_get[OF P, of H I n] none show ?thesis by (simp add: tag_files_def)
      qed
    qed
    then show ?thesis using verify_files_ok[of "bag_files H P I" ?r H] z by simp
  qed
  ultimately show ?thesis using load bag_sums_keys[OF P, of H I] by (simp add: bagr_Verify_def Let_def)
qed

section \<open>Writing payload files\<close>

lemma data_prefix [simp]:
  "has_prefix (CHR ''d'' # CHR ''a'' # CHR ''t'' # CHR ''a'' # CHR ''/'' # t) ''data/''"
  "trim_prefix (CHR ''d'' # CHR ''a'' # CHR ''t'' # CHR ''a'' # CHR ''/'' # t) ''data/'' = t"
  by (simp_all add: has_prefix_def trim_prefix_def)

text \<open>A payload file is made and its content is copied in blocks.\<close>

definition bag_add :: "hashes \<Rightarrow> bag_writer \<Rightarrow> string \<times> bytes list \<Rightarrow> bag_writer" where
  "bag_add H w f = fold (\<lambda>p w. countWriter_Write w p) (snd f) (bag_Create H w (fst f))"

definition bag_write_all :: "hashes \<Rightarrow> string \<Rightarrow> (string \<times> bytes list) list \<Rightarrow> bag_writer" where
  "bag_write_all H name fs = fold (\<lambda>f w. bag_add H w f) fs (bag_NewWriter name)"

definition payload :: "(string \<times> bytes list) list \<Rightarrow> (string \<times> bytes) list" where
  "payload fs = map (\<lambda>(n, ps). (''data/'' @ n, concat ps)) fs"

lemma bag_wf_counters [simp]:
  "bag_wf H (w\<lparr>bw_sz := a\<rparr>) L = bag_wf H w L" "bag_wf H (w\<lparr>bw_ns := a\<rparr>) L = bag_wf H w L"
  by (simp_all add: bag_wf_def)

lemma countWriter_wf:
  "bag_wf H w (L @ [(n, c)]) \<Longrightarrow> bag_wf H (fold (\<lambda>p w. countWriter_Write w p) ps w) (L @ [(n, c @ concat ps)]) \<and>
     bag_dirname (bw_t (fold (\<lambda>p w. countWriter_Write w p) ps w)) = bag_dirname (bw_t w)"
proof (induction ps arbitrary: w c)
  case (Cons p ps)
  from Cons.IH[of "countWriter_Write w p" "c @ p"] bag_write_wf[OF Cons.prems, of p] show ?case
    by (simp add: countWriter_Write_def Let_def)
qed simp

lemma bag_add_wf:
  assumes "bag_wf H w L" and "''data/'' @ fst f \<notin> fst ` set L"
  shows "bag_wf H (bag_add H w f) (L @ [(''data/'' @ fst f, concat (snd f))]) \<and>
     bag_dirname (bw_t (bag_add H w f)) = bag_dirname (bw_t w)"
proof -
  have "bag_wf H (bag_Create H w (fst f)) (L @ [(''data/'' @ fst f, [])])"
    unfolding bag_Create_def by (rule bag_create_wf) (use assms in simp_all)
  from countWriter_wf[OF this, of "snd f"] show ?thesis by (simp add: bag_add_def bag_Create_def)
qed

lemma payload_names: "fst ` set (payload fs) = (\<lambda>n. ''data/'' @ n) ` fst ` set fs"
  by (simp add: payload_def image_image case_prod_unfold)

lemma bag_adds_wf:
  assumes "bag_wf H w (payload gs)" and "distinct (map fst (gs @ fs))"
  shows "bag_wf H (fold (\<lambda>f w. bag_add H w f) fs w) (payload (gs @ fs)) \<and>
     bag_dirname (bw_t (fold (\<lambda>f w. bag_add H w f) fs w)) = bag_dirname (bw_t w)"
  using assms
proof (induction fs arbitrary: gs w)
  case (Cons f fs)
  have new: "''data/'' @ fst f \<notin> fst ` set (payload gs)" using Cons.prems(2) unfolding payload_names by auto
  have "payload gs @ [(''data/'' @ fst f, concat (snd f))] = payload (gs @ [f])" by (simp add: payload_def case_prod_unfold)
  with bag_add_wf[OF Cons.prems(1) new] Cons.IH[of "bag_add H w f" "gs @ [f]"] Cons.prems(2) show ?case by simp
qed simp

lemma bag_write_all_wf:
  assumes "distinct (map fst fs)"
  shows "bag_wf H (bag_write_all H name fs) (payload fs)" and "bag_dirname (bw_t (bag_write_all H name fs)) = name @ ''/''"
  using bag_adds_wf[of H "bag_NewWriter name" "[]" fs] bag_wf_New[of H name] assms
  by (simp_all add: bag_write_all_def payload_def bag_NewWriter_def)

lemma bag_reader_files:
  assumes "\<forall>(n, c) \<in> set P. has_prefix n ''data/''"
  shows "map (\<lambda>f. trim_prefix (fst f) (d @ ''data/'')) (filter (\<lambda>f. length (fst f) \<noteq> length (trim_prefix (fst f) (d @ ''data/''))) (bag_zip d P)) =
    map (\<lambda>(n, c). trim_prefix n ''data/'') P"
  using assms
proof (induction P)
  case (Cons x P)
  obtain n c where x: "x = (n, c)" by fastforce
  obtain t where "n = ''data/'' @ t" using Cons.prems x by (auto simp: has_prefix_iff)
  moreover have "trim_prefix (d @ ''data/'' @ t) (d @ ''data/'') = t" using trim_prefix_append[of "d @ ''data/''" t] by simp
  ultimately show ?case using Cons x by (simp add: bag_zip_def)
qed (simp add: bag_zip_def)

lemma bag_reader_no_files:
  assumes "\<forall>(n, c) \<in> set Q. \<not> has_prefix n ''data/''"
  shows "filter (\<lambda>f. length (fst f) \<noteq> length (trim_prefix (fst f) (d @ ''data/''))) (bag_zip d Q) = []"
  using assms by (auto simp: bag_zip_def filter_empty_conv trim_prefix_def)

section \<open>Instances of the parameters\<close>

text \<open>A container format that satisfies the requirement on the zip format, and hash functions of the
  documented sizes: the hypotheses of the properties can be met.\<close>

definition demo_zip :: zipc where
  "demo_zip = \<lparr>
     z_enc = (\<lambda>fs. unlines (map (\<lambda>(n, c). hex_encode n @ '':'' @ hex_encode c) fs)),
     z_dec = (\<lambda>b. Inr (map (\<lambda>l. case split2 CHR '':'' l of
                               [n, c] \<Rightarrow> (fst (hex_decode n), (fst (hex_decode c), None))
                             | _ \<Rightarrow> ([], ([], Some ErrZip))) (butlast (split_all newline b))))\<rparr>"

definition demo_hashes :: hashes where
  "demo_hashes = \<lparr>h_md5 = (\<lambda>b. take 16 (b @ replicate 16 CHR 0x00)), h_sha256 = (\<lambda>b. take 32 (rev b @ replicate 32 CHR 0x00))\<rparr>"

definition demo_sums :: hashes where
  "demo_sums = \<lparr>h_md5 = take 1, h_sha256 = take 2\<rparr>"

lemma demo_hashes_ok: "hashes_ok demo_hashes"
  by (auto simp: hashes_ok_def demo_hashes_def min_def)

lemma split_all_unlines: "\<forall>l \<in> set ls. newline \<notin> set l \<Longrightarrow> split_all newline (unlines ls) = ls @ [[]]"
  by (induction ls) (auto simp: split_all_line)

lemma demo_zip_rt: "zip_rt demo_zip fs"
proof -
  let ?l = "\<lambda>(n, c). hex_encode n @ '':'' @ hex_encode c"
  have sep: "CHR '':'' \<notin> set (hex_encode n)" "newline \<notin> set (hex_encode n)" for n
  proof -
    have "\<not> hex_char CHR '':''" "\<not> hex_char newline" by code_simp+
    then show "CHR '':'' \<notin> set (hex_encode n)" "newline \<notin> set (hex_encode n)" using hex_encode_chars by blast+
  qed
  have "newline \<noteq> CHR '':''" by code_simp
  then have "\<forall>l \<in> set (map ?l fs). newline \<notin> set l" using sep(2) by auto
  note sp = split_all_unlines[OF this]
  have "split2 CHR '':'' (?l f) = [hex_encode (fst f), hex_encode (snd f)]" for f
    using split2_append[OF sep(1), of "fst f" "hex_encode (snd f)"] by (simp add: case_prod_unfold)
  with sp show ?thesis unfolding zip_rt_def demo_zip_def by (simp add: case_prod_unfold comp_def)
qed

lemma load_manifest_keep:
  assumes "bagr_loadManifestFile r name fld = (e, r1)"
  shows "br_z r1 = br_z r" and "bag_dirname (br_t r1) = bag_dirname (br_t r)"
  using assms by (auto simp: bagr_loadManifestFile_def Let_def split: sum.splits prod.splits)

lemma load_manifests_keep:
  "br_z (snd (bagr_loadManifests r)) = br_z r \<and> bag_dirname (br_t (snd (bagr_loadManifests r))) = bag_dirname (br_t r)"
proof -
  have "br_z (snd (load_manifest_files es r)) = br_z r \<and> bag_dirname (br_t (snd (load_manifest_files es r))) = bag_dirname (br_t r)" for es r
  proof (induction es arbitrary: r)
    case (Cons x es)
    obtain n fld where x: "x = (n, fld)" by fastforce
    obtain e r1 where r1: "bagr_loadManifestFile r n fld = (e, r1)" by fastforce
    from load_manifest_keep[OF r1] Cons[of r1] r1 show ?case by (simp add: x)
  qed simp
  then show ?thesis unfolding bagr_loadManifests_def by blast
qed

lemma verify_files_sound:
  assumes "bagr_verify_files H r fs = None" and "f \<in> set fs"
    and "gget (bag_manifest (br_t r)) (trim_prefix (fst f) (bag_dirname (br_t r))) = Some ck"
  shows "(ck_MD5 ck = [] \<or> ck_MD5 ck = h_md5 H (fst (snd f))) \<and> (ck_SHA256 ck = [] \<or> ck_SHA256 ck = h_sha256 H (fst (snd f))) \<and>
         (ck_MD5 ck = [] \<and> ck_SHA256 ck = [] \<or> snd (snd f) = None)"
  using assms(1,2)
proof (induction fs)
  case (Cons g fs)
  have "f = g \<Longrightarrow> VerifyStreamHash H (snd f) (ck_MD5 ck) (ck_SHA256 ck) = (True, None)"
    using Cons.prems(1) assms(3) by (auto simp: Let_def split: prod.splits if_splits)
  moreover have "f \<noteq> g \<Longrightarrow> bagr_verify_files H r fs = None"
    using Cons.prems(1) by (auto simp: Let_def split: prod.splits if_splits option.splits)
  ultimately show ?case
    using Cons VerifyStreamHash_iff[of H "fst (snd f)" "snd (snd f)" "ck_MD5 ck" "ck_SHA256 ck"]
      VerifyStreamHash_err[of H "fst (snd f)" "snd (snd f)" "ck_MD5 ck" "ck_SHA256 ck"]
    by (cases "f = g") (auto split: if_splits)
qed simp

section \<open>Reading back a bag that was written\<close>

definition datafiles :: "(string \<times> bytes) list \<Rightarrow> (string \<times> bytes) list" where
  "datafiles L = map (\<lambda>(n, c). (''data/'' @ n, c)) L"

lemma datafiles_simps [simp]:
  "datafiles [] = []" "datafiles (f # L) = (''data/'' @ fst f, snd f) # datafiles L" "datafiles (L @ M) = datafiles L @ datafiles M"
  by (simp_all add: datafiles_def case_prod_unfold)

lemma map_of_datafiles: "map_of (datafiles L) (''data/'' @ n) = map_of L n"
  by (induction L) auto

lemma datafiles_names: "map fst (datafiles L) = map (\<lambda>n. ''data/'' @ n) (map fst L)"
  by (induction L) auto

lemma payload_ok_datafiles:
  assumes "L \<noteq> []" and "distinct (map fst L)"
  shows "payload_ok (datafiles L)"
proof -
  have "distinct (map fst (datafiles L))" using assms(2) unfolding datafiles_names by (simp add: distinct_map inj_on_def)
  with assms(1) show ?thesis unfolding payload_ok_def by (auto simp: datafiles_def)
qed

lemma bag_reads_back:
  assumes wf: "bag_wf H w (datafiles L)" and dir: "bag_dirname (bw_t w) = name @ ''/''"
    and L: "L \<noteq> []" "distinct (map fst L)" "\<forall>f \<in> set L. name_ok (''data/'' @ fst f)"
    and name: "CHR ''/'' \<notin> set name" and H: "hashes_ok H" and Z: "\<And>gs. zip_rt Z gs"
  shows "\<exists>r. bag_NewReader Z (bag_Close H Z date w) = Inr r \<and> fst (bagr_Verify H r) = None \<and> bagr_Files r = map fst L \<and>
     (\<forall>n. bagr_Open r n = (case map_of L n of None \<Rightarrow> Inl ErrNotFound | Some c \<Rightarrow> Inr (c, None))) \<and>
     (\<forall>n c. map_of L n = Some c \<longrightarrow> fst (bagr_Checksum r n) = Some (file_checksum H c))"
proof -
  let ?P = "datafiles L" and ?d = "name @ ''/''"
  have P: "payload_ok ?P" using L(1,2) by (rule payload_ok_datafiles)
  have ok: "\<forall>(n, c) \<in> set ?P. name_ok n" using L(3) by (auto simp: datafiles_def)
  obtain I where z: "bw_z (bag_finish H date w) = map (\<lambda>(n, c). (?d @ n, c)) (bag_files H ?P I)"
    using bag_finish_files[OF wf P H, of date] dir by auto
  let ?T = "tag_files H ?P I @ [(''tagmanifest-md5.txt'', manifest_text (h_md5 H) (tag_files H ?P I))]"
  let ?r = "\<lparr>br_z = bag_zip ?d (bag_files H ?P I), br_t = bag_New\<lparr>bag_dirname := ?d\<rparr>\<rparr>"
  have dec: "z_dec Z (bag_Close H Z date w) = Inr (bag_zip ?d (bag_files H ?P I))"
    using Z unfolding bag_Close_def z zip_rt_def by (simp add: bag_zip_def case_prod_unfold)
  have "split2 CHR ''/'' (?d @ n) = [name, n]" for n using split2_append[OF name, of n] by simp
  then have rd: "bag_NewReader Z (bag_Close H Z date w) = Inr ?r"
    using P unfolding bag_NewReader_def dec
    by (cases ?P) (auto simp: payload_ok_def bag_files_def bag_zip_def)
  have zr: "br_z ?r = bag_zip (bag_dirname (br_t ?r)) (bag_files H ?P I)" and new: "bag_manifest (br_t ?r) = []"
    by (simp_all add: bag_New_def)
  have files: "bagr_Files ?r = map fst L"
  proof -
    have "\<forall>(n, c) \<in> set ?P. has_prefix n ''data/''" by (auto simp: datafiles_def)
    note A = bag_reader_files[OF this, of ?d]
    have B: "filter (\<lambda>f. length (fst f) \<noteq> length (trim_prefix (fst f) (?d @ ''data/''))) (bag_zip ?d ?T) = []"
      by (rule bag_reader_no_files) (simp add: tag_files_def)
    have "bag_zip ?d (bag_files H ?P I) = bag_zip ?d ?P @ bag_zip ?d ?T" by (simp add: bag_zip_def bag_files_def)
    then have "bagr_Files ?r = map (\<lambda>(n, c). trim_prefix n ''data/'') ?P"
      using A B by (simp only: bagr_Files_def Let_def bag_reader.simps bag.simps filter_append map_append list.map append_Nil2)
        simp
    also have "\<dots> = map fst L" by (simp add: datafiles_def case_prod_unfold comp_def)
    finally show ?thesis .
  qed
  have T: "map_of ?T (''data/'' @ n) = None" for n by (simp add: tag_files_def)
  have m: "map_of (bag_files H ?P I) (''data/'' @ n) = map_of L n" for n
  proof -
    have "map_of (bag_files H ?P I) (''data/'' @ n) = map_of ?P (''data/'' @ n)"
      using T[of n] unfolding bag_files_def map_of_append map_add_def by (simp split: option.splits)
    then show ?thesis by (simp only: map_of_datafiles)
  qed
  have opened: "bagr_Open ?r n = (case map_of L n of None \<Rightarrow> Inl ErrNotFound | Some c \<Rightarrow> Inr (c, None))" for n
    unfolding bagr_Open_def bagr_open_zip[OF zr] m ..
  have sums: "fst (bagr_Checksum ?r n) = Some (file_checksum H c)" if "map_of L n = Some c" for n c
  proof -
    have "gget (bag_sums H ?P I) (''data/'' @ n) = Some (file_checksum H c)"
      using bag_sums_get[OF P, of H I "''data/'' @ n"] that map_of_datafiles[of L n] by simp
    then show ?thesis using load_finished[OF zr new P ok H] new by (simp add: bagr_Checksum_def)
  qed
  have "fst (bagr_Verify H ?r) = None" by (rule Verify_finished[OF zr new P ok H])
  with rd files opened sums show ?thesis by blast
qed

section \<open>Properties\<close>

text \<open>C18. A bag that is written is a bag that can be read: for payload files with distinct names that
  have no white space, closing the writer gives a zip file which the reader opens, which verifies,
  lists exactly these files in order, and returns for each its content and its checksums.\<close>

theorem bag_roundtrip:
  fixes fs :: "(string \<times> bytes list) list" and name :: string
  assumes fs: "fs \<noteq> []" "distinct (map fst fs)" "\<forall>f \<in> set fs. name_ok (''data/'' @ fst f)"
    and name: "CHR ''/'' \<notin> set name" and H: "hashes_ok H" and Z: "\<And>gs. zip_rt Z gs"
  shows "\<exists>r. bag_NewReader Z (bag_Close H Z date (bag_write_all H name fs)) = Inr r \<and>
     fst (bagr_Verify H r) = None \<and> bagr_Files r = map fst fs \<and>
     (\<forall>(n, ps) \<in> set fs. bagr_Open r n = Inr (concat ps, None) \<and> fst (bagr_Checksum r n) = Some (file_checksum H (concat ps)))"
proof -
  let ?L = "map (\<lambda>(n, ps). (n, concat ps)) fs"
  have P: "payload fs = datafiles ?L" by (simp add: payload_def datafiles_def case_prod_unfold)
  have names: "map fst ?L = map fst fs" by (simp add: case_prod_unfold comp_def)
  have wf: "bag_wf H (bag_write_all H name fs) (datafiles ?L)" using bag_write_all_wf(1)[OF fs(2), of H name] P by simp
  have "?L \<noteq> []" "\<forall>f \<in> set ?L. name_ok (''data/'' @ fst f)" using fs by auto
  moreover have "distinct (map fst ?L)" unfolding names by (rule fs(2))
  ultimately have "\<exists>r. bag_NewReader Z (bag_Close H Z date (bag_write_all H name fs)) = Inr r \<and> fst (bagr_Verify H r) = None \<and>
      bagr_Files r = map fst ?L \<and> (\<forall>n. bagr_Open r n = (case map_of ?L n of None \<Rightarrow> Inl ErrNotFound | Some c \<Rightarrow> Inr (c, None))) \<and>
      (\<forall>n c. map_of ?L n = Some c \<longrightarrow> fst (bagr_Checksum r n) = Some (file_checksum H c))"
    using bag_reads_back[OF wf bag_write_all_wf(2)[OF fs(2)] _ _ _ name H Z, of date] by blast
  then
  obtain r where r: "bag_NewReader Z (bag_Close H Z date (bag_write_all H name fs)) = Inr r" "fst (bagr_Verify H r) = None"
      "bagr_Files r = map fst ?L"
      "\<forall>n. bagr_Open r n = (case map_of ?L n of None \<Rightarrow> Inl ErrNotFound | Some c \<Rightarrow> Inr (c, None))"
      "\<forall>n c. map_of ?L n = Some c \<longrightarrow> fst (bagr_Checksum r n) = Some (file_checksum H c)" by blast
  have "map_of ?L n = Some (concat ps)" if "(n, ps) \<in> set fs" for n ps
    by (rule map_of_is_SomeI) (use that fs(2) in \<open>force simp: comp_def case_prod_unfold image_iff\<close>)+
  with r names show ?thesis by (intro exI[of _ r]) auto
qed

theorem bag_roundtrip_witness:
  "\<exists>r. bag_NewReader demo_zip (bag_Close demo_hashes demo_zip ''2020-01-01''
       (bag_write_all demo_hashes ''item-0001'' [(''blob/1'', [''hello '', ''world'']), (''item-info.json'', [''{}''])])) = Inr r \<and>
     fst (bagr_Verify demo_hashes r) = None \<and> bagr_Open r ''blob/1'' = Inr (''hello world'', None)"
proof -
  let ?fs = "[(''blob/1'', [''hello '', ''world'']), (''item-info.json'', [''{}''])]"
  have "\<forall>f \<in> set ?fs. name_ok (''data/'' @ fst f)" by (simp add: name_ok_def is_space_def)
  moreover have "CHR ''/'' \<notin> set ''item-0001''" "distinct (map fst ?fs)" "?fs \<noteq> []" by simp_all
  ultimately show ?thesis
    using bag_roundtrip[of ?fs "''item-0001''" demo_hashes demo_zip "''2020-01-01''"] demo_hashes_ok demo_zip_rt by auto
qed

text \<open>C25. Verification is sound: when \<open>Verify\<close> reports no error, every payload file of the zip is listed in
  a manifest, its stream ended without an error or has no recorded sum, and its content has the MD5 and SHA-256 sums of its entry; and, when
  no name occurs twice in the zip, every payload name that a manifest lists is there.\<close>

theorem bag_verify_sound:
  assumes "bagr_Verify H r = (None, r')"
  shows "(\<forall>f \<in> set (br_z r). has_prefix (fst f) (bag_dirname (br_t r) @ ''data/'') \<longrightarrow>
       (\<exists>ck. gget (bag_manifest (br_t r')) (trim_prefix (fst f) (bag_dirname (br_t r))) = Some ck \<and>
             (ck_MD5 ck = [] \<or> ck_MD5 ck = h_md5 H (fst (snd f))) \<and>
             (ck_SHA256 ck = [] \<or> ck_SHA256 ck = h_sha256 H (fst (snd f))) \<and>
             (ck_MD5 ck = [] \<and> ck_SHA256 ck = [] \<or> snd (snd f) = None))) \<and>
     (distinct (map fst (br_z r)) \<longrightarrow> gmap_ok (bag_manifest (br_t r')) \<longrightarrow>
       (\<forall>k. gget (bag_manifest (br_t r')) k \<noteq> None \<longrightarrow> has_prefix k ''data/'' \<longrightarrow>
            bag_dirname (br_t r) @ k \<in> fst ` set (br_z r)))"
proof -
  let ?d = "bag_dirname (br_t r)" and ?m = "bag_manifest (br_t r')"
  obtain r1 where load: "bagr_loadManifests r = (None, r1)" using assms by (auto simp: bagr_Verify_def split: prod.splits if_splits)
  have r1: "br_z r1 = br_z r" "bag_dirname (br_t r1) = ?d" "r1 = r'"
    using load_manifests_keep[of r] load assms by (auto simp: bagr_Verify_def Let_def split: option.splits if_splits)
  have facts: "bagr_extra r' = None" "bagr_verify_files H r' (br_z r) = None"
    "length (filter (\<lambda>f. has_prefix (fst f) (?d @ ''data/'')) (br_z r)) = length (filter (\<lambda>k. has_prefix k ''data/'') (gkeys ?m))"
    using assms load r1 by (auto simp: bagr_Verify_def Let_def split: option.splits if_splits)
  have dir: "bag_dirname (br_t r') = ?d" "br_z r' = br_z r" using r1 by simp_all
  have listed: "gget ?m (trim_prefix (fst f) ?d) \<noteq> None" if "f \<in> set (br_z r)" "has_prefix (fst f) (?d @ ''data/'')" for f
    using facts(1) that unfolding bagr_extra_def dir by (cases f) (auto simp: find_None_iff split: option.splits)
  show ?thesis
  proof (intro conjI ballI impI allI)
    fix f assume f: "f \<in> set (br_z r)" "has_prefix (fst f) (?d @ ''data/'')"
    then obtain ck where ck: "gget ?m (trim_prefix (fst f) ?d) = Some ck" using listed by blast
    from verify_files_sound[OF facts(2) f(1), unfolded dir, OF ck]
    show "\<exists>ck. gget ?m (trim_prefix (fst f) ?d) = Some ck \<and>
             (ck_MD5 ck = [] \<or> ck_MD5 ck = h_md5 H (fst (snd f))) \<and> (ck_SHA256 ck = [] \<or> ck_SHA256 ck = h_sha256 H (fst (snd f))) \<and>
             (ck_MD5 ck = [] \<and> ck_SHA256 ck = [] \<or> snd (snd f) = None)"
      using ck by blast
  next
    fix k assume d: "distinct (map fst (br_z r))" and ok: "gmap_ok ?m" and k: "gget ?m k \<noteq> None" "has_prefix k ''data/''"
    let ?pay = "map fst (filter (\<lambda>f. has_prefix (fst f) (?d @ ''data/'')) (br_z r))"
    let ?keys = "filter (\<lambda>k. has_prefix k ''data/'') (gkeys ?m)"
    have "distinct ?pay" using d by (simp add: distinct_map_filter)
    moreover have "set ?pay \<subseteq> (\<lambda>k. ?d @ k) ` set ?keys"
    proof
      fix x assume "x \<in> set ?pay"
      then obtain f where f: "f \<in> set (br_z r)" "has_prefix (fst f) (?d @ ''data/'')" "x = fst f" by auto
      then obtain t where t: "fst f = ?d @ ''data/'' @ t" by (auto simp: has_prefix_iff)
      have "trim_prefix (fst f) ?d = ''data/'' @ t" unfolding t by (rule trim_prefix_append)
      then have "''data/'' @ t \<in> set ?keys" using listed[OF f(1,2)] unfolding gget_in_gkeys by simp
      with f(3) t show "x \<in> (\<lambda>k. ?d @ k) ` set ?keys" by blast
    qed
    moreover have "card ((\<lambda>k. ?d @ k) ` set ?keys) \<le> length ?pay"
      using card_image_le[of "set ?keys" "\<lambda>k. ?d @ k"] card_length[of ?keys] facts(3) by simp
    ultimately have "set ?pay = (\<lambda>k. ?d @ k) ` set ?keys"
      using card_seteq[of "(\<lambda>k. ?d @ k) ` set ?keys" "set ?pay"] distinct_card[of ?pay] by simp
    moreover have "k \<in> set ?keys" using k unfolding gget_in_gkeys by simp
    ultimately have "?d @ k \<in> set ?pay" by blast
    then show "?d @ k \<in> fst ` set (br_z r)" by auto
  qed
qed

theorem bag_verify_sound_witness:
  "let r = \<lparr>br_z = [(''b/data/x'', (''y'', None)), (''b/manifest-md5.txt'', (''79  data/x'', None))],
            br_t = bag_New\<lparr>bag_dirname := ''b/''\<rparr>\<rparr>
   in fst (bagr_Verify demo_sums r) = None \<and>
     (\<exists>ck. gget (bag_manifest (br_t (snd (bagr_Verify demo_sums r)))) ''data/x'' = Some ck \<and>
           (ck_MD5 ck = [] \<or> ck_MD5 ck = h_md5 demo_sums ''y''))"
proof -
  define r :: bag_reader where "r = \<lparr>br_z = [(''b/data/x'', (''y'', None)),
      (''b/manifest-md5.txt'', (''79  data/x'', None))],
      br_t = bag_New\<lparr>bag_dirname := ''b/''\<rparr>\<rparr>"
  have ok: "fst (bagr_Verify demo_sums r) = None" unfolding r_def by code_simp
  then have v: "bagr_Verify demo_sums r = (None, snd (bagr_Verify demo_sums r))" by (simp add: prod_eq_iff)
  have f: "(''b/data/x'', (''y'', None)) \<in> set (br_z r)" "bag_dirname (br_t r) = ''b/''" by (simp_all add: r_def)
  have "has_prefix ''b/data/x'' (''b/'' @ ''data/'')" "trim_prefix ''b/data/x'' ''b/'' = ''data/x''" by code_simp+
  with bag_verify_sound[OF v, THEN conjunct1, rule_format, OF f(1)] f(2)
  have "\<exists>ck. gget (bag_manifest (br_t (snd (bagr_Verify demo_sums r)))) ''data/x'' = Some ck \<and>
           (ck_MD5 ck = [] \<or> ck_MD5 ck = h_md5 demo_sums ''y'')" by auto
  with ok show ?thesis by (simp add: r_def[symmetric] Let_def)
qed

end
