(* ===== verification/Go_Errors.thy ===== *)
theory Go_Errors
  imports Go_Format
begin

text \<open>
  The text of errors: \<open>err.Error()\<close> for the errors of bendo, and the verb \<^verbatim>\<open>%v\<close> on a slice of strings. Errors end up
  as text in transactions, in the answers of the server and in the fixity records.
\<close>

fun join :: "string \<Rightarrow> string list \<Rightarrow> string" where
  "join sep [] = ''''"
| "join sep [x] = x"
| "join sep (x # y # xs) = x @ sep @ join sep (y # xs)"

definition fmt_v_strings :: "string list \<Rightarrow> string" where
  "fmt_v_strings xs = ''['' @ join '' '' xs @ '']''"

definition bag_error_msg :: "bag_kind \<Rightarrow> string \<Rightarrow> string" where
  "bag_error_msg k name =
     (case k of ErrExtraFile \<Rightarrow> ''bagit: extra file'' | ErrMissingFile \<Rightarrow> ''bagit: missing file''
      | ErrChecksum \<Rightarrow> ''bagit: checksum mismatch'') @ '' '' @ name"

fun err_Error :: "error \<Rightarrow> string" where
  "err_Error EOF = ''EOF''"
| "err_Error (IOError m) = m"
| "err_Error ErrTooLong = ''bufio.Scanner: token too long''"
| "err_Error (Panic m) = ''runtime error: '' @ m"
| "err_Error Blocked = ''''"
| "err_Error (NoItemKey k) = ''No item '' @ k"
| "err_Error ErrKeyExists = ''Key already exists''"
| "err_Error ErrKeyContainsSlash = ''Key contains forward slash''"
| "err_Error ErrKeyContainsNonUnicode = ''Key contains Non-Unicode character''"
| "err_Error ErrKeyContainsWhiteSpace = ''Key contains White Space''"
| "err_Error ErrKeyContainsControlChar = ''Key contains Control  Characters''"
| "err_Error ErrNotExist = ''Key does not exist''"
| "err_Error ErrNoETag = ''No ETag was returned from AWS''"
| "err_Error ErrCacheFull = ''Cache is full and no more items can be removed''"
| "err_Error ErrPutPending = ''Key is already being added to cache''"
| "err_Error ErrStopped = ''RateCounter stopped''"
| "err_Error (BagError k name) = bag_error_msg k name"
| "err_Error ErrNotFound = ''stream not found''"
| "err_Error ErrZip = ''zip: not a valid zip file''"
| "err_Error ErrJSON = ''invalid character''"
| "err_Error ErrNoItem = ''no item, bad item id''"
| "err_Error ErrNoStore = ''no item, item store unavailable''"
| "err_Error ErrDeleted = ''Blob has been deleted''"
| "err_Error (NoBlobError i b) = ''No blob ('' @ i @ '', '' @ fmt_d b @ '')''"
| "err_Error (ErrCommitSize i b n m) =
     ''commit ('' @ i @ '' blob '' @ fmt_d b @ ''), copied '' @ fmt_d n @ '' bytes, expected '' @ fmt_d m"
| "err_Error (ErrCommitHash i h t) = ''commit ('' @ i @ ''), got '' @ hex_encode h @ '', expected '' @ hex_encode t"
| "err_Error ErrExistingTransaction = ''existing transaction for that item''"
| "err_Error ErrBadCommand = ''Bad command''"
| "err_Error (ErrNumSyntax s) = ''strconv: parsing '' @ s @ '': invalid syntax''"
| "err_Error (ErrMessage m) = m"
| "err_Error ErrInvalidPos = ''Seek: cannot seek before read position''"
| "err_Error ErrWhence = ''Seek: invalid whence''"
| "err_Error (ErrLengthMismatch n m) = ''cache length mismatch: read '' @ fmt_d n @ '', expected '' @ fmt_d m"
| "err_Error ErrUnexpectedResp = ''Unexpected Response Code''"
| "err_Error ErrChecksumMismatch = ''Checksum mismatch''"
| "err_Error ErrTransaction = ''error processing transaction''"
| "err_Error ErrTimeout = ''timeout processing transaction''"

end
