(* ===== verification/Items.thy ===== *)
theory Items
  imports Bagit JSON_Store
begin

text \<open>
  Package items, the part that reads: the data model (src/items/types.go), the on-tape form of
  the metadata (src/items/item_save.go), the bundle files (src/items/zip.go) and the item store
  (src/items/item.go).

  An item store is a \<open>store.Store\<close> of bundles and a metadata cache. Both are interfaces in Go and
  records of operations here, collected with the hash functions, the zip format, the JSON codec and
  the local date of a time in the environment \<open>E\<close>. The state is that of the store, that of the
  cache and the flag \<open>useStore\<close>. A cache hands out values: the aliasing of the in-memory cache,
  which the code only uses in tests, between the cached item and the one a writer has open is
  not modelled.
\<close>

section \<open>The data model\<close>

record blob =
  blob_ID :: int
  blob_SaveDate :: time
  blob_Creator :: string
  blob_Size :: int
  blob_Bundle :: int
  blob_MD5 :: bytes
  blob_SHA256 :: bytes
  blob_MimeType :: string
  blob_DeleteDate :: time
  blob_Deleter :: string
  blob_DeleteNote :: string

record version =
  ver_ID :: int
  ver_SaveDate :: time
  ver_Creator :: string
  ver_Note :: string
  ver_Slots :: "(string, int) gomap"

record item =
  item_ID :: string
  item_MaxBundle :: int
  item_Blobs :: "blob list"
  item_Versions :: "version list"

section \<open>The form on tape\<close>

record blobTape =
  bt_BlobID :: int
  bt_Bundle :: int
  bt_ByteCount :: int
  bt_MD5 :: string
  bt_SHA256 :: string
  bt_MimeType :: string
  bt_SaveDate :: time
  bt_Creator :: string
  bt_DeleteDate :: time
  bt_Deleter :: string
  bt_DeleteNote :: string

record versionTape =
  vt_VersionID :: int
  vt_SaveDate :: time
  vt_Creator :: string
  vt_Note :: string
  vt_Slots :: "(string, int) gomap"

record itemOnTape =
  tape_ItemID :: string
  tape_ByteCount :: int
  tape_MaxBundle :: int
  tape_Versions :: "versionTape list"
  tape_Blobs :: "blobTape list"

definition version_from_tape :: "versionTape \<Rightarrow> version" where
  "version_from_tape ver = \<lparr>ver_ID = vt_VersionID ver, ver_SaveDate = vt_SaveDate ver, ver_Creator = vt_Creator ver,
     ver_Note = vt_Note ver, ver_Slots = vt_Slots ver\<rparr>"

definition blob_from_tape :: "blobTape \<Rightarrow> blob" where
  "blob_from_tape b = \<lparr>blob_ID = bt_BlobID b, blob_SaveDate = bt_SaveDate b, blob_Creator = bt_Creator b,
     blob_Size = bt_ByteCount b, blob_Bundle = bt_Bundle b,
     blob_MD5 = fst (hex_decode (bt_MD5 b)), blob_SHA256 = fst (hex_decode (bt_SHA256 b)),
     blob_MimeType = bt_MimeType b, blob_DeleteDate = bt_DeleteDate b, blob_Deleter = bt_Deleter b,
     blob_DeleteNote = bt_DeleteNote b\<rparr>"

text \<open>A JSON decoder reads a stream only as far as the value goes: an error at the end of the stream
  matters only when there is no value.\<close>

definition decode_stream :: "'v json \<Rightarrow> bytes \<times> error option \<Rightarrow> 'v result" where
  "decode_stream J st =
     (case j_dec J (fst st) of
        Inr v \<Rightarrow> Inr v
      | Inl e \<Rightarrow> Inl (case snd st of None \<Rightarrow> e | Some e' \<Rightarrow> e'))"

definition readItemInfo :: "itemOnTape json \<Rightarrow> bytes \<times> error option \<Rightarrow> item result" where
  "readItemInfo J rc =
     (case decode_stream J rc of
        Inl e \<Rightarrow> Inl e
      | Inr fromTape \<Rightarrow>
          Inr \<lparr>item_ID = tape_ItemID fromTape, item_MaxBundle = tape_MaxBundle fromTape,
               item_Blobs = map blob_from_tape (tape_Blobs fromTape),
               item_Versions = map version_from_tape (tape_Versions fromTape)\<rparr>)"

definition blob_to_tape :: "blob \<Rightarrow> blobTape" where
  "blob_to_tape b = \<lparr>bt_BlobID = blob_ID b, bt_Bundle = blob_Bundle b, bt_ByteCount = blob_Size b,
     bt_MD5 = hex_encode (blob_MD5 b), bt_SHA256 = hex_encode (blob_SHA256 b), bt_MimeType = blob_MimeType b,
     bt_SaveDate = blob_SaveDate b, bt_Creator = blob_Creator b, bt_DeleteDate = blob_DeleteDate b,
     bt_Deleter = blob_Deleter b, bt_DeleteNote = blob_DeleteNote b\<rparr>"

definition version_to_tape :: "version \<Rightarrow> versionTape" where
  "version_to_tape v = \<lparr>vt_VersionID = ver_ID v, vt_SaveDate = ver_SaveDate v, vt_Creator = ver_Creator v,
     vt_Note = ver_Note v, vt_Slots = ver_Slots v\<rparr>"

definition item_tape :: "item \<Rightarrow> itemOnTape" where
  "item_tape item = \<lparr>tape_ItemID = item_ID item, tape_ByteCount = sum_list (map blob_Size (item_Blobs item)),
     tape_MaxBundle = item_MaxBundle item, tape_Versions = map version_to_tape (item_Versions item),
     tape_Blobs = map blob_to_tape (item_Blobs item)\<rparr>"

text \<open>The bytes that \<open>writeItemInfo\<close> writes.\<close>

definition writeItemInfo :: "itemOnTape json \<Rightarrow> item \<Rightarrow> bytes" where
  "writeItemInfo J item = j_enc J (item_tape item)"

section \<open>The item store\<close>

record 'c item_cache =
  ic_Lookup :: "'c \<Rightarrow> string \<Rightarrow> item option"
  ic_Set :: "'c \<Rightarrow> string \<Rightarrow> item \<Rightarrow> 'c"

record ('s, 'w, 'c) item_env =
  e_S :: "('s, 'w) store_ops"
  e_C :: "'c item_cache"
  e_H :: hashes
  e_Z :: zipc
  e_J :: "itemOnTape json"
  e_date :: "time \<Rightarrow> string"

record ('s, 'c) item_store =
  is_S :: 's
  is_cache :: 'c
  is_useStore :: bool

definition items_NewWithCache :: "'s \<Rightarrow> 'c \<Rightarrow> ('s, 'c) item_store" where
  "items_NewWithCache s cache = \<lparr>is_S = s, is_cache = cache, is_useStore = True\<rparr>"

definition Nullcache :: "unit item_cache" where
  "Nullcache = \<lparr>ic_Lookup = (\<lambda>c iid. None), ic_Set = (\<lambda>c iid item. c)\<rparr>"

definition items_New :: "'s \<Rightarrow> ('s, unit) item_store" where
  "items_New s = \<lparr>is_S = s, is_cache = (), is_useStore = True\<rparr>"

definition items_SetCache :: "('s, 'c) item_store \<Rightarrow> 'd \<Rightarrow> ('s, 'd) item_store" where
  "items_SetCache st cache = \<lparr>is_S = is_S st, is_cache = cache, is_useStore = is_useStore st\<rparr>"

definition items_SetUseStore :: "('s, 'c) item_store \<Rightarrow> bool \<Rightarrow> ('s, 'c) item_store" where
  "items_SetUseStore st b = st\<lparr>is_useStore := b\<rparr>"

type_synonym memoryCache = "(string, item) gomap"

definition memoryCache_ops :: "memoryCache item_cache" where
  "memoryCache_ops = \<lparr>ic_Lookup = gget, ic_Set = (\<lambda>c iid item. gset iid item c)\<rparr>"

definition sugar :: "string \<Rightarrow> int \<Rightarrow> string" where
  "sugar iid n = iid @ ''-'' @ fmt_04d n @ ''.zip''"

definition desugar :: "string \<Rightarrow> string \<times> int" where
  "desugar s0 =
     (let s = trim_suffix s0 ''.zip'' in
      case last_index_char CHR ''-'' s of
        None \<Rightarrow> ('''', 0)
      | Some j \<Rightarrow>
          (case parse_int (drop (Suc j) s) of
             None \<Rightarrow> ('''', 0)
           | Some n \<Rightarrow> (take j s, n)))"

text \<open>The ids that \<open>List\<close> sends: each once, in the order of their first bundle.\<close>

fun item_list_loop :: "string list \<Rightarrow> string list \<Rightarrow> string list" where
  "item_list_loop [] seen = []"
| "item_list_loop (key # keys) seen =
     (let iid = fst (desugar key)
      in if iid = '''' \<or> iid \<in> set seen then item_list_loop keys seen
         else iid # item_list_loop keys (iid # seen))"

definition items_List :: "('s, 'w, 'c) item_env \<Rightarrow> ('s, 'c) item_store \<Rightarrow> string list" where
  "items_List E st = item_list_loop (op_list (e_S E) (is_S st)) []"

section \<open>Bundle files\<close>

definition OpenBundle :: "('s, 'w) store_ops \<Rightarrow> zipc \<Rightarrow> 's \<Rightarrow> string \<Rightarrow> bag_reader result \<times> 's" where
  "OpenBundle S Z s key =
     (case op_open S s key of
        (Inl e, s1) \<Rightarrow> (Inl e, s1)
      | (Inr stream, s1) \<Rightarrow> (bag_NewReader Z stream, s1))"

text \<open>\<open>ErrNotFound\<close> of package bagit becomes that of package items; the model has one.\<close>

definition OpenBundleStream ::
  "('s, 'w) store_ops \<Rightarrow> zipc \<Rightarrow> 's \<Rightarrow> string \<Rightarrow> string \<Rightarrow> (bytes \<times> error option) result \<times> 's" where
  "OpenBundleStream S Z s key sname =
     (case OpenBundle S Z s key of
        (Inl e, s1) \<Rightarrow> (Inl e, s1)
      | (Inr r, s1) \<Rightarrow> (bagr_Open r sname, s1))"

section \<open>Loading an item\<close>

fun max_bundle :: "string \<Rightarrow> string list \<Rightarrow> int \<Rightarrow> int" where
  "max_bundle iid [] mx = mx"
| "max_bundle iid (b # bs) mx =
     (let (slug, n) = desugar b in max_bundle iid bs (if slug = iid \<and> n > mx then n else mx))"

definition findMaxBundle :: "('s, 'w, 'c) item_env \<Rightarrow> ('s, 'c) item_store \<Rightarrow> string \<Rightarrow> int" where
  "findMaxBundle E st iid =
     (case op_list_prefix (e_S E) (is_S st) iid of
        Inl e \<Rightarrow> 0
      | Inr bundles \<Rightarrow> max_bundle iid bundles 0)"

definition itemload :: "('s, 'w, 'c) item_env \<Rightarrow> ('s, 'c) item_store \<Rightarrow> string \<Rightarrow> item result \<times> ('s, 'c) item_store" where
  "itemload E st iid =
     (let n = findMaxBundle E st iid in
      if n = 0 then (Inl ErrNoItem, st)
      else
        (case OpenBundleStream (e_S E) (e_Z E) (is_S st) (sugar iid n) ''item-info.json'' of
           (Inl e, s1) \<Rightarrow> (Inl e, st\<lparr>is_S := s1\<rparr>)
         | (Inr rc, s1) \<Rightarrow>
             (case readItemInfo (e_J E) rc of
                Inl e \<Rightarrow> (Inl e, st\<lparr>is_S := s1\<rparr>)
              | Inr item \<Rightarrow> (Inr (item\<lparr>item_MaxBundle := n\<rparr>), st\<lparr>is_S := s1\<rparr>))))"

definition items_Item :: "('s, 'w, 'c) item_env \<Rightarrow> ('s, 'c) item_store \<Rightarrow> string \<Rightarrow> item result \<times> ('s, 'c) item_store" where
  "items_Item E st iid =
     (let result = ic_Lookup (e_C E) (is_cache st) iid in
      if (case result of None \<Rightarrow> False | Some item \<Rightarrow> 0 < length (item_Versions item)) then (Inr (the result), st)
      else if \<not> is_useStore st then (Inl ErrNoStore, st)
      else
        (case itemload E st iid of
           (Inl e, st1) \<Rightarrow> (Inl e, st1)
         | (Inr item, st1) \<Rightarrow> (Inr item, st1\<lparr>is_cache := ic_Set (e_C E) (is_cache st1) iid item\<rparr>)))"

definition blobByID :: "item \<Rightarrow> int \<Rightarrow> blob option" where
  "blobByID item bid = find (\<lambda>b. blob_ID b = bid) (item_Blobs item)"

definition items_BlobInfo :: "('s, 'w, 'c) item_env \<Rightarrow> ('s, 'c) item_store \<Rightarrow> string \<Rightarrow> int \<Rightarrow> blob result \<times> ('s, 'c) item_store" where
  "items_BlobInfo E st iid bid =
     (case items_Item E st iid of
        (Inl e, st1) \<Rightarrow> (Inl e, st1)
      | (Inr item, st1) \<Rightarrow>
          (case blobByID item bid of
             None \<Rightarrow> (Inl (NoBlobError iid bid), st1)
           | Some b \<Rightarrow> (Inr b, st1)))"

definition blob_name :: "int \<Rightarrow> string" where
  "blob_name bid = ''blob/'' @ fmt_d bid"

text \<open>\<open>Blob\<close> returns the stream and the size recorded for the blob.\<close>

definition items_Blob ::
  "('s, 'w, 'c) item_env \<Rightarrow> ('s, 'c) item_store \<Rightarrow> string \<Rightarrow> int \<Rightarrow> ((bytes \<times> error option) \<times> int) result \<times> ('s, 'c) item_store" where
  "items_Blob E st iid bid =
     (case items_BlobInfo E st iid bid of
        (Inl e, st1) \<Rightarrow> (Inl e, st1)
      | (Inr b, st1) \<Rightarrow>
          if blob_Bundle b = 0 then (Inl ErrDeleted, st1)
          else
            (case OpenBundleStream (e_S E) (e_Z E) (is_S st1) (sugar iid (blob_Bundle b)) (blob_name bid) of
               (Inl e, s2) \<Rightarrow> (Inl e, st1\<lparr>is_S := s2\<rparr>)
             | (Inr stream, s2) \<Rightarrow> (Inr (stream, blob_Size b), st1\<lparr>is_S := s2\<rparr>)))"

section \<open>Resolving slots\<close>

text \<open>An index into a Go map gives 0 for a missing slot.\<close>

definition BlobByVersionSlot :: "item \<Rightarrow> int \<Rightarrow> string \<Rightarrow> int" where
  "BlobByVersionSlot item vid slot =
     (case find (\<lambda>v. ver_ID v = vid) (item_Versions item) of
        None \<Rightarrow> 0
      | Some ver \<Rightarrow> (case gget (ver_Slots ver) slot of None \<Rightarrow> 0 | Some b \<Rightarrow> b))"

text \<open>An item without versions makes the index of the last version panic.\<close>

definition BlobByExtendedSlot :: "item \<Rightarrow> string \<Rightarrow> int result" where
  "BlobByExtendedSlot item slot =
     (if item_Versions item = [] then Inl (Panic ''index out of range'')
      else
        (let vmax = ver_ID (last (item_Versions item)) in
         if slot \<noteq> [] \<and> hd slot = CHR ''@'' then
           if has_prefix slot ''@blob/'' then
             (case parse_int (drop 6 slot) of
                None \<Rightarrow> Inr 0
              | Some b \<Rightarrow> if b \<le> 0 \<or> b > int (length (item_Blobs item)) then Inr 0 else Inr b)
           else
             (case index_char CHR ''/'' slot of
                None \<Rightarrow> Inr 0
              | Some j \<Rightarrow>
                  (case parse_int (take (j - 1) (drop 1 slot)) of
                     None \<Rightarrow> Inr 0
                   | Some vid \<Rightarrow>
                       if vid \<le> 0 \<or> vid > vmax then Inr 0
                       else Inr (BlobByVersionSlot item vid (drop (Suc j) slot))))
         else Inr (BlobByVersionSlot item vmax slot)))"

end
