(* ===== verification/Item_Writer.thy ===== *)
theory Item_Writer
  imports Items
begin

text \<open>
  Package items, the part that writes: the bundle writer (src/items/bundler.go, with the zip writer of
  src/items/zip.go), the item writer (src/items/writer.go) and the validation of an item
  (src/items/validation.go).

  The Go \<open>BundleWriter\<close> and \<open>Writer\<close> share the item through a pointer; here the item is a field of the
  writer and an argument of the operations of the bundle writer. The bytes of a zip file reach the store
  when the file is closed, so an error of the store while writing shows there.
\<close>

section \<open>Zip writers\<close>

type_synonym 'w zipwriter = "'w \<times> bag_writer"

definition OpenZipWriter :: "('s, 'w, 'c) item_env \<Rightarrow> 's \<Rightarrow> string \<Rightarrow> int \<Rightarrow> 'w zipwriter result \<times> 's" where
  "OpenZipWriter E s iid n =
     (case op_create (e_S E) s (sugar iid n) of
        (Inl e, s1) \<Rightarrow> (Inl e, s1)
      | (Inr f, s1) \<Rightarrow> (Inr (f, bag_NewWriter (trim_suffix iid ''.zip'')), s1))"

definition zw_Close :: "('s, 'w, 'c) item_env \<Rightarrow> time \<Rightarrow> 's \<Rightarrow> 'w zipwriter \<Rightarrow> error option \<times> 's" where
  "zw_Close E now s zw =
     (let ((n, err), s1) = op_write (e_S E) s (fst zw) (bag_Close (e_H E) (e_Z E) (e_date E now) (snd zw))
      in if err = None then op_close (e_S E) s1 (fst zw) else (err, s1))"

definition zw_MakeStream :: "('s, 'w, 'c) item_env \<Rightarrow> 'w zipwriter \<Rightarrow> string \<Rightarrow> 'w zipwriter" where
  "zw_MakeStream E zw name = (fst zw, bag_Create (e_H E) (snd zw) name)"

section \<open>The bundle writer\<close>

record 'w bundle_writer =
  bun_zw :: "'w zipwriter option"
  bun_size :: int
  bun_n :: int

definition CurrentBundle :: "'w bundle_writer \<Rightarrow> int" where
  "CurrentBundle bw = (if bun_zw bw = None then bun_n bw else bun_n bw - 1)"

text \<open>\<open>Close\<close> does not look at the error of closing the zip file.\<close>

definition bun_Close ::
  "('s, 'w, 'c) item_env \<Rightarrow> time \<Rightarrow> 's \<Rightarrow> 'w bundle_writer \<Rightarrow> item \<Rightarrow> error option \<times> 's \<times> 'w bundle_writer" where
  "bun_Close E now s bw item =
     (case bun_zw bw of
        None \<Rightarrow> (None, s, bw)
      | Some zw \<Rightarrow>
          (let zw1 = zw_MakeStream E zw ''item-info.json'';
               zw2 = (fst zw1, countWriter_Write (snd zw1) (writeItemInfo (e_J E) item));
               (ignored, s1) = zw_Close E now s zw2
           in (None, s1, bw\<lparr>bun_zw := None\<rparr>)))"

definition bun_tags :: "string \<Rightarrow> int \<Rightarrow> bag_writer \<Rightarrow> bag_writer" where
  "bun_tags iid n w =
     bag_SetTag (bag_SetTag (bag_SetTag w ''Bendo-Identifier'' iid) ''Bendo-Bundle-Sequence'' (fmt_d n))
       ''External-Identifier'' (trim_suffix (sugar iid n) ''.zip'')"

definition bun_Next ::
  "('s, 'w, 'c) item_env \<Rightarrow> time \<Rightarrow> 's \<Rightarrow> 'w bundle_writer \<Rightarrow> item \<Rightarrow> error option \<times> 's \<times> 'w bundle_writer" where
  "bun_Next E now s bw item =
     (let (err, s1, bw1) = bun_Close E now s bw item in
      if err \<noteq> None then (err, s1, bw1)
      else
        (case OpenZipWriter E s1 (item_ID item) (bun_n bw1) of
           (Inl e, s2) \<Rightarrow> (Some e, s2, bw1\<lparr>bun_zw := None\<rparr>)
         | (Inr (f, w), s2) \<Rightarrow>
             (None, s2, bw1\<lparr>bun_zw := Some (f, bun_tags (item_ID item) (bun_n bw1) w),
                            bun_n := bun_n bw1 + 1, bun_size := 0\<rparr>)))"

definition NewBundler :: "('s, 'w, 'c) item_env \<Rightarrow> time \<Rightarrow> 's \<Rightarrow> item \<Rightarrow> 's \<times> 'w bundle_writer" where
  "NewBundler E now s item =
     snd (bun_Next E now s \<lparr>bun_zw = None, bun_size = 0, bun_n = item_MaxBundle item + 1\<rparr> item)"

definition IdealBundleSize :: int where
  "IdealBundleSize = 500 * 1000000"

record results =
  res_BytesWritten :: int
  res_Bundle :: int
  res_WrittenMD5 :: bytes
  res_WrittenSHA256 :: bytes

definition no_results :: results where
  "no_results = \<lparr>res_BytesWritten = 0, res_Bundle = 0, res_WrittenMD5 = [], res_WrittenSHA256 = []\<rparr>"

definition bun_WriteBlob ::
  "('s, 'w, 'c) item_env \<Rightarrow> time \<Rightarrow> 's \<Rightarrow> 'w bundle_writer \<Rightarrow> item \<Rightarrow> int \<Rightarrow> bytes \<times> error option \<Rightarrow>
     (results \<times> error option) \<times> 's \<times> 'w bundle_writer" where
  "bun_WriteBlob E now s bw item bid r =
     (let (err, s1, bw1) = (if bun_size bw \<ge> IdealBundleSize \<or> bun_zw bw = None
                            then bun_Next E now s bw item else (None, s, bw))
      in if err \<noteq> None then ((no_results, err), s1, bw1)
         else
           (case bun_zw bw1 of
              None \<Rightarrow> ((no_results, Some (Panic ''nil pointer'')), s1, bw1)
            | Some zw \<Rightarrow>
                (let zw1 = zw_MakeStream E zw (blob_name bid);
                     w2 = countWriter_Write (snd zw1) (fst r);
                     w3 = bag_Checksum (e_H E) w2;
                     ck = (case bag_current w3 of None \<Rightarrow> no_checksum | Some ck \<Rightarrow> ck)
                 in ((\<lparr>res_BytesWritten = int (length (fst r)), res_Bundle = bun_n bw1 - 1,
                       res_WrittenMD5 = ck_MD5 ck, res_WrittenSHA256 = ck_SHA256 ck\<rparr>, snd r),
                     s1, bw1\<lparr>bun_zw := Some (fst zw1, w3), bun_size := bun_size bw1 + int (length (fst r))\<rparr>))))"

definition testhash :: "bytes \<Rightarrow> bytes \<Rightarrow> string \<Rightarrow> error option" where
  "testhash h target name = (if target = h then None else Some (ErrCommitHash name h target))"

definition ValidateWriteBlob :: "string \<Rightarrow> blob \<Rightarrow> results \<Rightarrow> error option" where
  "ValidateWriteBlob itemID b result =
     (if blob_Size b \<noteq> res_BytesWritten result
      then Some (ErrCommitSize itemID (blob_ID b) (res_BytesWritten result) (blob_Size b))
      else
        (case testhash (res_WrittenMD5 result) (blob_MD5 b) itemID of
           Some e \<Rightarrow> Some e
         | None \<Rightarrow> testhash (res_WrittenSHA256 result) (blob_SHA256 b) itemID))"

definition extractBlobID :: "string \<Rightarrow> int" where
  "extractBlobID s =
     (case split2 CHR ''/'' s of
        [a, b] \<Rightarrow> if a \<noteq> ''blob'' then 0 else (case parse_int b of None \<Rightarrow> 0 | Some n \<Rightarrow> n)
      | _ \<Rightarrow> 0)"

text \<open>The Go code changes the blob that \<open>blobByID\<close> returns, the first with the id.\<close>

fun upd_blob :: "int \<Rightarrow> (blob \<Rightarrow> blob) \<Rightarrow> blob list \<Rightarrow> blob list" where
  "upd_blob bid f [] = []"
| "upd_blob bid f (b # bs) = (if blob_ID b = bid then f b # bs else b # upd_blob bid f bs)"

fun copy_files ::
  "('s, 'w, 'c) item_env \<Rightarrow> time \<Rightarrow> bag_reader \<Rightarrow> string list \<Rightarrow> string list \<Rightarrow> 's \<Rightarrow> 'w bundle_writer \<Rightarrow> item \<Rightarrow>
     error option \<times> 's \<times> 'w bundle_writer \<times> item" where
  "copy_files E now r badnames [] s bw item = (None, s, bw, item)"
| "copy_files E now r badnames (fname # fs) s bw item =
     (if fname \<in> set badnames then copy_files E now r badnames fs s bw item
      else
        (case bagr_Open r fname of
           Inl e \<Rightarrow> (Some e, s, bw, item)
         | Inr rc \<Rightarrow>
             (case blobByID item (extractBlobID fname) of
                None \<Rightarrow> (Some (Panic ''nil pointer''), s, bw, item)
              | Some b \<Rightarrow>
                  (let ((result, err), s1, bw1) = bun_WriteBlob E now s bw item (blob_ID b) rc in
                   case err of
                     Some e \<Rightarrow> (Some e, s1, bw1, item)
                   | None \<Rightarrow>
                       (case ValidateWriteBlob (item_ID item) b result of
                          Some e \<Rightarrow> (Some e, s1, bw1, item)
                        | None \<Rightarrow>
                            copy_files E now r badnames fs s1 bw1
                              (item\<lparr>item_Blobs := upd_blob (blob_ID b) (\<lambda>b. b\<lparr>blob_Bundle := res_Bundle result\<rparr>)
                                                    (item_Blobs item)\<rparr>))))))"

definition CopyBundleExcept ::
  "('s, 'w, 'c) item_env \<Rightarrow> time \<Rightarrow> 's \<Rightarrow> 'w bundle_writer \<Rightarrow> item \<Rightarrow> int \<Rightarrow> int list \<Rightarrow>
     error option \<times> 's \<times> 'w bundle_writer \<times> item" where
  "CopyBundleExcept E now s bw item src except =
     (case OpenBundle (e_S E) (e_Z E) s (sugar (item_ID item) src) of
        (Inl e, s1) \<Rightarrow> (Some e, s1, bw, item)
      | (Inr r, s1) \<Rightarrow>
          copy_files E now r (''item-info.json'' # map blob_name except) (bagr_Files r) s1 bw item)"

section \<open>The item writer\<close>

record 'w item_writer =
  wr_item :: item
  wr_bw :: "'w bundle_writer"
  wr_bnext :: int
  wr_del :: "int list"
  wr_version :: version
  wr_bdel :: "int list"

definition new_item :: "string \<Rightarrow> item" where
  "new_item iid = \<lparr>item_ID = iid, item_MaxBundle = 0, item_Blobs = [], item_Versions = []\<rparr>"

definition next_version :: "time \<Rightarrow> string \<Rightarrow> item \<Rightarrow> version" where
  "next_version now creator item =
     (if 0 < length (item_Versions item)
      then \<lparr>ver_ID = ver_ID (last (item_Versions item)) + 1, ver_SaveDate = now, ver_Creator = creator,
            ver_Note = '''', ver_Slots = ver_Slots (last (item_Versions item))\<rparr>
      else \<lparr>ver_ID = 1, ver_SaveDate = now, ver_Creator = creator, ver_Note = '''', ver_Slots = []\<rparr>)"

definition items_Open ::
  "('s, 'w, 'c) item_env \<Rightarrow> time \<Rightarrow> ('s, 'c) item_store \<Rightarrow> string \<Rightarrow> string \<Rightarrow> 'w item_writer result \<times> ('s, 'c) item_store" where
  "items_Open E now st iid creator =
     (let (r, st1) = items_Item E st iid;
          r1 = (case r of Inl e \<Rightarrow> if e = ErrNoItem then Inr (new_item iid) else Inl e | Inr item \<Rightarrow> Inr item)
      in case r1 of
           Inl e \<Rightarrow> (Inl e, st1)
         | Inr item \<Rightarrow>
             (let (s2, bw) = NewBundler E now (is_S st1) item
              in (Inr \<lparr>wr_item = item, wr_bw = bw, wr_bnext = 0, wr_del = [],
                       wr_version = next_version now creator item, wr_bdel = []\<rparr>,
                  st1\<lparr>is_S := s2\<rparr>)))"

definition findBlobByHash :: "item \<Rightarrow> int \<Rightarrow> bytes \<Rightarrow> bytes \<Rightarrow> int" where
  "findBlobByHash item sz md5 sha256 =
     (if sz = 0 \<or> (length md5 = 0 \<and> length sha256 = 0) then 0
      else
        (case find (\<lambda>b. blob_Size b = sz \<and> (length md5 = 0 \<or> md5 = blob_MD5 b) \<and>
                        (length sha256 = 0 \<or> sha256 = blob_SHA256 b)) (item_Blobs item) of
           None \<Rightarrow> 0
         | Some b \<Rightarrow> blob_ID b))"

text \<open>The blob id for a new blob: set up lazily.\<close>

definition wr_nextid :: "'w item_writer \<Rightarrow> int" where
  "wr_nextid wr =
     (if wr_bnext wr = 0
      then (if 0 < length (item_Blobs (wr_item wr)) then blob_ID (last (item_Blobs (wr_item wr))) + 1 else 1)
      else wr_bnext wr)"

definition Writer_WriteBlob ::
  "('s, 'w, 'c) item_env \<Rightarrow> time \<Rightarrow> ('s, 'c) item_store \<Rightarrow> 'w item_writer \<Rightarrow> bytes \<times> error option \<Rightarrow> int \<Rightarrow> bytes \<Rightarrow> bytes \<Rightarrow>
     (int \<times> error option) \<times> ('s, 'c) item_store \<times> 'w item_writer" where
  "Writer_WriteBlob E now st wr r sz md5 sha256 =
     (let bid = findBlobByHash (wr_item wr) sz md5 sha256 in
      if bid \<noteq> 0 then ((bid, None), st, wr)
      else
        (let bnext = wr_nextid wr;
             b0 = \<lparr>blob_ID = bnext, blob_SaveDate = now, blob_Creator = ver_Creator (wr_version wr), blob_Size = sz,
                   blob_Bundle = 0, blob_MD5 = md5, blob_SHA256 = sha256, blob_MimeType = '''', blob_DeleteDate = 0,
                   blob_Deleter = '''', blob_DeleteNote = ''''\<rparr>;
             ((result, err), s1, bw1) = bun_WriteBlob E now (is_S st) (wr_bw wr) (wr_item wr) bnext r;
             st1 = st\<lparr>is_S := s1\<rparr>
         in if err \<noteq> None \<and> length (res_WrittenMD5 result) = 0
            then ((0, err), st1, wr\<lparr>wr_bnext := bnext, wr_bw := bw1\<rparr>)
            else
              (let b1 = b0\<lparr>blob_Bundle := res_Bundle result,
                           blob_Size := (if sz = 0 then res_BytesWritten result else sz),
                           blob_MD5 := (if length md5 = 0 then res_WrittenMD5 result else md5),
                           blob_SHA256 := (if length sha256 = 0 then res_WrittenSHA256 result else sha256)\<rparr>;
                   verr = (if err = None then ValidateWriteBlob (item_ID (wr_item wr)) b1 result else None);
                   b2 = (if verr = None then b1
                         else b1\<lparr>blob_Size := res_BytesWritten result, blob_MD5 := res_WrittenMD5 result,
                                 blob_SHA256 := res_WrittenSHA256 result\<rparr>);
                   item1 = (wr_item wr)\<lparr>item_Blobs := sort_key blob_ID (item_Blobs (wr_item wr) @ [b2]),
                                        item_MaxBundle := CurrentBundle bw1\<rparr>;
                   wr1 = wr\<lparr>wr_bnext := bnext + 1, wr_bw := bw1, wr_item := item1\<rparr>
               in if err \<noteq> None then ((0, err), st1, wr1)
                  else if verr \<noteq> None then ((0, verr), st1, wr1)
                  else ((bnext, None), st1, wr1))))"

definition SetNote :: "'w item_writer \<Rightarrow> string \<Rightarrow> 'w item_writer" where
  "SetNote wr s = wr\<lparr>wr_version := (wr_version wr)\<lparr>ver_Note := s\<rparr>\<rparr>"

definition wr_SetCreator :: "'w item_writer \<Rightarrow> string \<Rightarrow> 'w item_writer" where
  "wr_SetCreator wr s = wr\<lparr>wr_version := (wr_version wr)\<lparr>ver_Creator := s\<rparr>\<rparr>"

definition SetSlot :: "'w item_writer \<Rightarrow> string \<Rightarrow> int \<Rightarrow> 'w item_writer" where
  "SetSlot wr s bid = wr\<lparr>wr_version := (wr_version wr)\<lparr>ver_Slots :=
     (if bid = 0 then gdel s (ver_Slots (wr_version wr)) else gset s bid (ver_Slots (wr_version wr)))\<rparr>\<rparr>"

definition ClearSlots :: "'w item_writer \<Rightarrow> 'w item_writer" where
  "ClearSlots wr = wr\<lparr>wr_version := (wr_version wr)\<lparr>ver_Slots := []\<rparr>\<rparr>"

definition wr_SetMimeType :: "'w item_writer \<Rightarrow> int \<Rightarrow> string \<Rightarrow> 'w item_writer" where
  "wr_SetMimeType wr bid mimetype =
     (case blobByID (wr_item wr) bid of
        None \<Rightarrow> wr
      | Some b \<Rightarrow>
          if blob_Bundle b = 0 then wr
          else wr\<lparr>wr_item := (wr_item wr)\<lparr>item_Blobs :=
                 upd_blob bid (\<lambda>b. b\<lparr>blob_MimeType := mimetype\<rparr>) (item_Blobs (wr_item wr))\<rparr>\<rparr>)"

definition DeleteBlob :: "'w item_writer \<Rightarrow> int \<Rightarrow> 'w item_writer" where
  "DeleteBlob wr bid = wr\<lparr>wr_del := wr_del wr @ [bid]\<rparr>"

text \<open>The first loop of \<open>doDeletes\<close>: the metadata, and the blobs to remove by bundle.\<close>

definition kill_blob :: "time \<Rightarrow> version \<Rightarrow> blob \<Rightarrow> blob" where
  "kill_blob now v b = b\<lparr>blob_DeleteDate := now, blob_Deleter := ver_Creator v, blob_DeleteNote := ver_Note v,
     blob_Bundle := 0, blob_Size := 0, blob_MimeType := ''''\<rparr>"

fun mark_deletes :: "time \<Rightarrow> version \<Rightarrow> int list \<Rightarrow> item \<Rightarrow> (int, int list) gomap \<Rightarrow> item \<times> (int, int list) gomap" where
  "mark_deletes now v [] item bundles = (item, bundles)"
| "mark_deletes now v (bid # del) item bundles =
     (case blobByID item bid of
        None \<Rightarrow> mark_deletes now v del item bundles
      | Some b \<Rightarrow>
          if blob_Bundle b = 0 then mark_deletes now v del item bundles
          else mark_deletes now v del
                 (item\<lparr>item_Blobs := upd_blob bid (kill_blob now v) (item_Blobs item)\<rparr>)
                 (gset (blob_Bundle b) ((case gget bundles (blob_Bundle b) of None \<Rightarrow> [] | Some l \<Rightarrow> l) @ [bid]) bundles))"

text \<open>The second loop: every such bundle is copied without these blobs.\<close>

fun copy_bundles ::
  "('s, 'w, 'c) item_env \<Rightarrow> time \<Rightarrow> (int, int list) gomap \<Rightarrow> 's \<Rightarrow> 'w item_writer \<Rightarrow> error option \<times> 's \<times> 'w item_writer" where
  "copy_bundles E now [] s wr = (None, s, wr)"
| "copy_bundles E now ((bundleid, blobids) # bs) s wr =
     (let (err, s1, bw1, item1) = CopyBundleExcept E now s (wr_bw wr) (wr_item wr) bundleid blobids;
          wr1 = wr\<lparr>wr_bw := bw1, wr_item := item1\<rparr>
      in if err \<noteq> None then (err, s1, wr1)
         else copy_bundles E now bs s1 (wr1\<lparr>wr_bdel := wr_bdel wr1 @ [bundleid]\<rparr>))"

definition doDeletes :: "('s, 'w, 'c) item_env \<Rightarrow> time \<Rightarrow> 's \<Rightarrow> 'w item_writer \<Rightarrow> error option \<times> 's \<times> 'w item_writer" where
  "doDeletes E now s wr =
     (let (item1, bundles) = mark_deletes now (wr_version wr) (wr_del wr) (wr_item wr) []
      in copy_bundles E now bundles s (wr\<lparr>wr_item := item1\<rparr>))"

fun delete_bundles :: "('s, 'w, 'c) item_env \<Rightarrow> string \<Rightarrow> int list \<Rightarrow> 's \<Rightarrow> error option \<times> 's" where
  "delete_bundles E iid [] s = (None, s)"
| "delete_bundles E iid (n # ns) s =
     (let (err, s1) = op_delete (e_S E) s (sugar iid n)
      in if err \<noteq> None then (err, s1) else delete_bundles E iid ns s1)"

definition Writer_Close ::
  "('s, 'w, 'c) item_env \<Rightarrow> time \<Rightarrow> ('s, 'c) item_store \<Rightarrow> 'w item_writer \<Rightarrow> error option \<times> ('s, 'c) item_store \<times> 'w item_writer" where
  "Writer_Close E now st wr =
     (let ver = (wr_version wr)\<lparr>ver_SaveDate := now\<rparr>;
          wr1 = wr\<lparr>wr_version := ver, wr_item := (wr_item wr)\<lparr>item_Versions := item_Versions (wr_item wr) @ [ver]\<rparr>\<rparr>;
          (err, s1, wr2) = doDeletes E now (is_S st) wr1;
          item3 = (wr_item wr2)\<lparr>item_MaxBundle := CurrentBundle (wr_bw wr2)\<rparr>;
          (err2, s2, bw3) = bun_Close E now s1 (wr_bw wr2) item3;
          wr3 = wr2\<lparr>wr_item := item3, wr_bw := bw3\<rparr>;
          st2 = st\<lparr>is_S := s2, is_cache := ic_Set (e_C E) (is_cache st) (item_ID item3) item3\<rparr>
      in if err \<noteq> None then (err, st2, wr3)
         else if err2 \<noteq> None then (err2, st2, wr3)
         else
           (let (err3, s3) = delete_bundles E (item_ID item3) (wr_bdel wr3) s2
            in (err3, st2\<lparr>is_S := s3\<rparr>, wr3)))"

end
