(* ===== verification/Item_Validate.thy ===== *)
theory Item_Validate
  imports Go_Errors Item_Writer
begin

text \<open>
  The validation of an item, src/items/validation.go: the bundles of the item are verified as
  bags, then the metadata of the blobs is checked and compared with the manifests. Staging files from tape
  (\<open>store.Stager\<close>) only makes the reading faster and closing a reader has no effect on the state.
\<close>

text \<open>The first loop: the bytes that were checked, the problems and the error of a bundle that cannot be read.\<close>

fun validate_bundles ::
  "('s, 'w, 'c) item_env \<Rightarrow> string list \<Rightarrow> 's \<Rightarrow> int \<Rightarrow> string list \<Rightarrow> (int \<times> string list \<times> error option) \<times> 's" where
  "validate_bundles E [] s nb problems = ((nb, problems, None), s)"
| "validate_bundles E (name # names) s nb problems =
     (case op_open (e_S E) s name of
        (Inl e, s1) \<Rightarrow> ((nb, problems, Some e), s1)
      | (Inr stream, s1) \<Rightarrow>
          (case bag_NewReader (e_Z E) stream of
             Inl e \<Rightarrow> ((nb, problems, Some e), s1)
           | Inr r \<Rightarrow>
               (let nb1 = nb + int (length stream) in
                case fst (bagr_Verify (e_H E) r) of
                  None \<Rightarrow> validate_bundles E names s1 nb1 problems
                | Some e \<Rightarrow>
                    (case e of
                       BagError k f \<Rightarrow> validate_bundles E names s1 nb1 (problems @ [bag_error_msg k f])
                     | _ \<Rightarrow> ((nb1, problems, Some e), s1)))))"

definition blob_problem :: "string \<Rightarrow> int \<Rightarrow> string \<Rightarrow> string" where
  "blob_problem iid bid msg = ''Blob ('' @ iid @ '','' @ fmt_d bid @ '') '' @ msg"

definition problem_if :: "bool \<Rightarrow> string \<Rightarrow> string list" where
  "problem_if b msg = (if b then [msg] else [])"

definition blob_problems :: "string \<Rightarrow> blob \<Rightarrow> string list" where
  "blob_problems iid b =
     (let p = (\<lambda>c msg. problem_if c (blob_problem iid (blob_ID b) msg)) in
      p (blob_SaveDate b = 0) ''has a zero save date'' @
      (if blob_DeleteDate b = 0 then
         p (blob_Size b < 0) ''has negative size'' @
         p (blob_Bundle b \<le> 0) ''has non-positive bundle ID'' @
         p (length (blob_MD5 b) \<noteq> 16) ''has malformed MD5 hash'' @
         p (length (blob_SHA256 b) \<noteq> 32) ''has malformed SHA-256 hash'' @
         p (blob_Deleter b \<noteq> '''') ''has a deleter'' @
         p (blob_DeleteNote b \<noteq> '''') ''has a delete note''
       else
         p (blob_Bundle b \<noteq> 0) ''is deleted and has non-zero bundle ID'' @
         p (blob_Size b \<noteq> 0) ''is deleted and has non-zero size'' @
         p (blob_Deleter b = '''') ''is deleted and has no deleter''))"

text \<open>The map from the name of a bundle to its blobs.\<close>

fun bundleblobmap :: "string \<Rightarrow> blob list \<Rightarrow> (string, blob list) gomap \<Rightarrow> (string, blob list) gomap" where
  "bundleblobmap iid [] m = m"
| "bundleblobmap iid (b # bs) m =
     (if blob_DeleteDate b = 0
      then (let key = sugar iid (blob_Bundle b)
            in bundleblobmap iid bs (gset key ((case gget m key of None \<Rightarrow> [] | Some l \<Rightarrow> l) @ [b]) m))
      else bundleblobmap iid bs m)"

text \<open>The blobs of one bundle against its manifest; a blob that is not there makes the code panic.\<close>

fun validate_blobs :: "string \<Rightarrow> blob list \<Rightarrow> bag_reader \<Rightarrow> string list \<Rightarrow> string list \<times> error option" where
  "validate_blobs iid [] r problems = (problems, None)"
| "validate_blobs iid (b # bs) r problems =
     (let (ck, r1) = bagr_Checksum r (blob_name (blob_ID b)) in
      case ck of
        None \<Rightarrow> (problems, Some (Panic ''nil pointer''))
      | Some c \<Rightarrow>
          validate_blobs iid bs r1
            (problems @ problem_if (blob_MD5 b \<noteq> ck_MD5 c) (blob_problem iid (blob_ID b) ''has MD5 mismatch'')
             @ problem_if (blob_SHA256 b \<noteq> ck_SHA256 c) (blob_problem iid (blob_ID b) ''has SHA-256 mismatch'')))"

fun validate_map ::
  "('s, 'w, 'c) item_env \<Rightarrow> string \<Rightarrow> (string, blob list) gomap \<Rightarrow> 's \<Rightarrow> string list \<Rightarrow> (string list \<times> error option) \<times> 's" where
  "validate_map E iid [] s problems = ((problems, None), s)"
| "validate_map E iid ((name, bs) # m) s problems =
     (case OpenBundle (e_S E) (e_Z E) s name of
        (Inl e, s1) \<Rightarrow> ((problems, Some e), s1)
      | (Inr r, s1) \<Rightarrow>
          (case validate_blobs iid bs r problems of
             (ps, Some e) \<Rightarrow> ((ps, Some e), s1)
           | (ps, None) \<Rightarrow> validate_map E iid m s1 ps))"

definition items_Validate ::
  "('s, 'w, 'c) item_env \<Rightarrow> ('s, 'c) item_store \<Rightarrow> string \<Rightarrow> (int \<times> string list \<times> error option) \<times> ('s, 'c) item_store" where
  "items_Validate E st iid =
     (case op_list_prefix (e_S E) (is_S st) iid of
        Inl e \<Rightarrow> ((0, [], Some e), st)
      | Inr bundleNames \<Rightarrow>
          (case validate_bundles E bundleNames (is_S st) 0 [] of
             ((nb, problems, Some e), s1) \<Rightarrow> ((nb, problems, Some e), st\<lparr>is_S := s1\<rparr>)
           | ((nb, problems, None), s1) \<Rightarrow>
               (case items_Item E (st\<lparr>is_S := s1\<rparr>) iid of
                  (Inl e, st2) \<Rightarrow> ((nb, problems, Some e), st2)
                | (Inr item, st2) \<Rightarrow>
                    (let ps = problems @ concat (map (blob_problems iid) (item_Blobs item));
                         ((ps2, err), s3) = validate_map E iid (bundleblobmap iid (item_Blobs item) []) (is_S st2) ps
                     in ((nb, ps2, err), st2\<lparr>is_S := s3\<rparr>)))))"

end
