(* ===== verification/Transaction.thy ===== *)
theory Transaction
  imports Go_Errors Blobcache_Ops Fragment_Correct Item_Writer
begin

text \<open>
  Transactions, src/transaction/transaction.go and status_string.go: the store of transactions and the commit of a
  transaction, which runs its commands on an item writer.

  A transaction is shared by pointer between the store, the request handlers and the workers. The operations on
  a transaction take its value and the state of the store that saves it and return both; \<open>ts_put\<close> makes
  the change visible in the store of transactions. The field \<open>tx_txstore\<close> says that the pointer to the JSON
  store is set; it is not exported, so a decoded transaction has it unset. The pointer \<open>files\<close>, which
  is only used within a commit, is an argument there.
\<close>

section \<open>Status\<close>

type_synonym status = int

definition StatusUnknown :: status where "StatusUnknown = 0"
definition StatusOpen :: status where "StatusOpen = 1"
definition StatusWaiting :: status where "StatusWaiting = 2"
definition StatusChecking :: status where "StatusChecking = 3"
definition StatusIngest :: status where "StatusIngest = 4"
definition StatusFinished :: status where "StatusFinished = 5"
definition StatusError :: status where "StatusError = 6"

lemmas status_defs = StatusUnknown_def StatusOpen_def StatusWaiting_def StatusChecking_def StatusIngest_def
  StatusFinished_def StatusError_def

definition Status_name :: string where
  "Status_name = ''StatusUnknownStatusOpenStatusWaitingStatusCheckingStatusIngestStatusFinishedStatusError''"

definition Status_index :: "nat list" where
  "Status_index = [0, 13, 23, 36, 50, 62, 76, 87]"

definition Status_String :: "status \<Rightarrow> string" where
  "Status_String i =
     (if i < 0 \<or> i \<ge> int (length Status_index) - 1 then ''Status('' @ fmt_d i @ '')''
      else (let a = Status_index ! nat i; b = Status_index ! nat (i + 1) in take (b - a) (drop a Status_name)))"

section \<open>Transactions and their store\<close>

type_synonym command = "string list"

record transaction =
  tx_txstore :: bool
  tx_ID :: string
  tx_Status :: status
  tx_Started :: time
  tx_Modified :: time
  tx_Err :: "string list"
  tx_Creator :: string
  tx_ItemID :: string
  tx_Commands :: "command list"
  tx_BlobMap :: "(string, int) gomap"

record 't tx_store =
  ts_TxStore :: 't
  ts_txs :: "(string, transaction) gomap"
  ts_seqno :: int

definition tx_New :: "'t \<Rightarrow> 't tx_store" where
  "tx_New s = \<lparr>ts_TxStore = s, ts_txs = [], ts_seqno = 1\<rparr>"

fun tx_load_keys ::
  "('t, 'u, 'm) store_ops_scheme \<Rightarrow> transaction json \<Rightarrow> string list \<Rightarrow> 't tx_store \<Rightarrow> 't tx_store" where
  "tx_load_keys T J [] r = r"
| "tx_load_keys T J (key # keys) r =
     (case json_Open T J (ts_TxStore r) key of
        (Inl e, s1) \<Rightarrow> tx_load_keys T J keys (r\<lparr>ts_TxStore := s1\<rparr>)
      | (Inr tx, s1) \<Rightarrow>
          (let tx1 = tx\<lparr>tx_txstore := True\<rparr>
           in tx_load_keys T J keys (r\<lparr>ts_TxStore := s1, ts_txs := gset (tx_ID tx1) tx1 (ts_txs r)\<rparr>)))"

definition tx_Load :: "('t, 'u, 'm) store_ops_scheme \<Rightarrow> transaction json \<Rightarrow> 't tx_store \<Rightarrow> 't tx_store" where
  "tx_Load T J r = tx_load_keys T J (op_list T (ts_TxStore r)) r"

definition tx_List :: "'t tx_store \<Rightarrow> string list" where
  "tx_List r = gkeys (ts_txs r)"

definition tx_Lookup :: "'t tx_store \<Rightarrow> string \<Rightarrow> transaction option" where
  "tx_Lookup r txid = gget (ts_txs r) txid"

definition tx_save ::
  "('t, 'u, 'm) store_ops_scheme \<Rightarrow> transaction json \<Rightarrow> time \<Rightarrow> 't \<Rightarrow> transaction \<Rightarrow> 't \<times> transaction" where
  "tx_save T J now s tx =
     (if tx_txstore tx
      then (let tx1 = tx\<lparr>tx_Modified := now\<rparr> in (snd (json_Save T J s (tx_ID tx1) tx1), tx1))
      else (s, tx))"

definition ts_put :: "'t tx_store \<Rightarrow> 't \<times> transaction \<Rightarrow> 't tx_store" where
  "ts_put r p = (let (s, tx) = p in
     r\<lparr>ts_TxStore := s, ts_txs := (if gget (ts_txs r) (tx_ID tx) = None then ts_txs r else gset (tx_ID tx) tx (ts_txs r))\<rparr>)"

text \<open>The loop of \<open>makenewid\<close> ends because the map is finite and the numbers give different ids.\<close>

lemma fmt_04d_inj_all: "fmt_04d n = fmt_04d m \<Longrightarrow> n = m"
proof -
  assume eq: "fmt_04d n = fmt_04d m"
  have neg: "hd (fmt_04d k) = CHR ''-''" if "k < 0" for k using that by (simp add: fmt_04d_def)
  have pos: "hd (fmt_04d k) \<noteq> CHR ''-''" if "0 \<le> k" for k
  proof -
    have "CHR ''-'' \<notin> set (zero_pad 4 (nat_digits (nat k)))"
      by (rule not_digit_in_digits(2)) (use digit_char_not_sign in metis)
    moreover have "zero_pad 4 (nat_digits (nat k)) \<noteq> []" by (simp add: zero_pad_def)
    ultimately show ?thesis using that by (metis fmt_04d_def hd_in_set not_less)
  qed
  show ?thesis
  proof (cases "n < 0")
    case True
    then have "m < 0" using eq neg pos by (metis not_less)
    with True eq have "zero_pad 3 (nat_digits (nat (- n))) = zero_pad 3 (nat_digits (nat (- m)))" by (simp add: fmt_04d_def)
    then have "nat (- n) = nat (- m)" by (metis parse_nat_zero_pad option.inject)
    with True \<open>m < 0\<close> show ?thesis by simp
  next
    case False
    then have "0 \<le> m" using eq neg pos by (metis not_less)
    with False eq show ?thesis using fmt_04d_inj by simp
  qed
qed

function makenewid :: "(string, transaction) gomap \<Rightarrow> int \<Rightarrow> string \<times> int" where
  "makenewid txs seqno =
     (if gget txs (fmt_04d seqno) = None then (fmt_04d seqno, seqno + 1) else makenewid txs (seqno + 1))"
  by auto
termination
proof (relation "measure (\<lambda>(txs, n). card {k \<in> set (gkeys txs). \<exists>m \<ge> n. k = fmt_04d m})", simp)
  fix txs :: "(string, transaction) gomap" and seqno :: int
  assume txid: "gget txs (fmt_04d seqno) \<noteq> None"
  let ?A = "\<lambda>n. {k \<in> set (gkeys txs). \<exists>m \<ge> n. k = fmt_04d m}"
  have "fmt_04d seqno \<in> ?A seqno" using txid by (auto simp: set_gkeys)
  moreover have "fmt_04d seqno \<notin> ?A (seqno + 1)" using fmt_04d_inj_all by force
  moreover have "?A (seqno + 1) \<subseteq> ?A seqno" by clarsimp (metis add1_zle_eq less_imp_le)
  ultimately have "?A (seqno + 1) \<subset> ?A seqno" by blast
  then have "card (?A (seqno + 1)) < card (?A seqno)" by (intro psubset_card_mono) simp_all
  then show "((txs, seqno + 1), (txs, seqno)) \<in> measure (\<lambda>(txs, n). card {k \<in> set (gkeys txs). \<exists>m \<ge> n. k = fmt_04d m})" by simp
qed

declare makenewid.simps [simp del]

definition tx_inprocess :: "string \<Rightarrow> transaction \<Rightarrow> bool" where
  "tx_inprocess itemid tx = (tx_ItemID tx = itemid \<and> tx_Status tx \<noteq> StatusFinished \<and> tx_Status tx \<noteq> StatusError)"

definition tx_Create ::
  "('t, 'u, 'm) store_ops_scheme \<Rightarrow> transaction json \<Rightarrow> time \<Rightarrow> 't tx_store \<Rightarrow> string \<Rightarrow> transaction result \<times> 't tx_store" where
  "tx_Create T J now r itemid =
     (if list_ex (\<lambda>(k, tx). tx_inprocess itemid tx) (ts_txs r) then (Inl ErrExistingTransaction, r)
      else
        (let (txid, seqno) = makenewid (ts_txs r) (ts_seqno r);
             tx = \<lparr>tx_txstore = True, tx_ID = txid, tx_Status = StatusOpen, tx_Started = now, tx_Modified = now,
                   tx_Err = [], tx_Creator = '''', tx_ItemID = itemid, tx_Commands = [], tx_BlobMap = []\<rparr>;
             (s1, tx1) = tx_save T J now (ts_TxStore r) tx
         in (Inr tx1, r\<lparr>ts_TxStore := s1, ts_txs := gset txid tx1 (ts_txs r), ts_seqno := seqno\<rparr>)))"

definition tx_Delete :: "('t, 'u, 'm) store_ops_scheme \<Rightarrow> 't tx_store \<Rightarrow> string \<Rightarrow> error option \<times> 't tx_store" where
  "tx_Delete T r txid =
     (let r1 = r\<lparr>ts_txs := gdel txid (ts_txs r)\<rparr>
      in case gget (ts_txs r) txid of
           None \<Rightarrow> (None, r1)
         | Some tx \<Rightarrow> (let (err, s1) = op_delete T (ts_TxStore r1) (tx_ID tx) in (err, r1\<lparr>ts_TxStore := s1\<rparr>)))"

section \<open>Commands\<close>

definition WellFormed :: "command \<Rightarrow> bool" where
  "WellFormed cmd =
     (if length cmd = 0 then False
      else if cmd ! 0 = ''delete'' \<and> length cmd = 2 then parse_int (cmd ! 1) \<noteq> None
      else if cmd ! 0 = ''slot'' \<and> length cmd = 3 then True
      else if cmd ! 0 = ''note'' \<and> length cmd = 2 then True
      else if cmd ! 0 = ''add'' \<and> length cmd = 2 then True
      else if cmd ! 0 = ''sleep'' \<and> length cmd = 1 then True
      else cmd ! 0 = ''mimetype'' \<and> length cmd = 3)"

definition tx_AddCommandList ::
  "('t, 'u, 'm) store_ops_scheme \<Rightarrow> transaction json \<Rightarrow> time \<Rightarrow> 't \<Rightarrow> transaction \<Rightarrow> command list \<Rightarrow> error option \<times> 't \<times> transaction" where
  "tx_AddCommandList T J now s tx cmds =
     (if \<not> list_all WellFormed cmds then (Some ErrBadCommand, s, tx)
      else (None, tx_save T J now s (tx\<lparr>tx_Commands := tx_Commands tx @ cmds\<rparr>)))"

definition tx_SetStatus ::
  "('t, 'u, 'm) store_ops_scheme \<Rightarrow> transaction json \<Rightarrow> time \<Rightarrow> 't \<Rightarrow> transaction \<Rightarrow> status \<Rightarrow> 't \<times> transaction" where
  "tx_SetStatus T J now s tx st = tx_save T J now s (tx\<lparr>tx_Status := st\<rparr>)"

definition tx_AppendError :: "transaction \<Rightarrow> string \<Rightarrow> transaction" where
  "tx_AppendError tx e = tx\<lparr>tx_Err := tx_Err tx @ [e]\<rparr>"

text \<open>An empty command, which \<open>AddCommandList\<close> never lets in, makes \<open>ReferencedFiles\<close> panic.\<close>

definition tx_ReferencedFiles :: "transaction \<Rightarrow> string list result" where
  "tx_ReferencedFiles tx =
     (if list_ex (\<lambda>cmd. cmd = []) (tx_Commands tx) then Inl (Panic ''index out of range'')
      else Inr (map (\<lambda>cmd. cmd ! 1) (filter (\<lambda>cmd. cmd ! 0 = ''add'' \<and> length cmd = 2) (tx_Commands tx))))"

fun verify_files ::
  "('f, 'v, 'm) store_ops_scheme \<Rightarrow> hashes \<Rightarrow> string list \<Rightarrow> 'f frag_store \<Rightarrow> transaction \<Rightarrow> ('f frag_store \<times> transaction) option" where
  "verify_files F H [] files tx = Some (files, tx)"
| "verify_files F H (fid # fids) files tx =
     (case frag_Lookup files fid of
        None \<Rightarrow> verify_files F H fids files (tx_AppendError tx (''Missing file '' @ fid))
      | Some f \<Rightarrow>
          (case file_Verify F H files fid of
             None \<Rightarrow> None
           | Some ((ok, err), files1) \<Rightarrow>
               (case err of
                  Some e \<Rightarrow> verify_files F H fids files1 (tx_AppendError tx (''Checking '' @ fid @ '': '' @ err_Error e))
                | None \<Rightarrow>
                    if \<not> ok then verify_files F H fids files1 (tx_AppendError tx (''Checksum mismatch for '' @ fid))
                    else verify_files F H fids files1 tx)))"

text \<open>None when reading a file does not end or the call panics.\<close>

definition tx_VerifyFiles ::
  "('f, 'v, 'm) store_ops_scheme \<Rightarrow> hashes \<Rightarrow> 'f frag_store \<Rightarrow> transaction \<Rightarrow> ('f frag_store \<times> transaction) option" where
  "tx_VerifyFiles F H files tx =
     (case tx_ReferencedFiles tx of Inl e \<Rightarrow> None | Inr fids \<Rightarrow> verify_files F H fids files tx)"

section \<open>Executing a command\<close>

record ('s, 'w, 'c, 'f, 'b) commit =
  cm_items :: "('s, 'c) item_store"
  cm_wr :: "'w item_writer"
  cm_tx :: transaction
  cm_files :: "'f frag_store"
  cm_cache :: 'b

definition cache_key :: "string \<Rightarrow> int \<Rightarrow> string" where
  "cache_key itemid bid = itemid @ ''+'' @ fmt_04d bid"

definition exec_delete ::
  "('b, 'u) cache_ops \<Rightarrow> command \<Rightarrow> ('s, 'w, 'c, 'f, 'b) commit \<Rightarrow> error option \<times> ('s, 'w, 'c, 'f, 'b) commit" where
  "exec_delete C cmd st =
     (case parse_int (cmd ! 1) of
        None \<Rightarrow> (Some (ErrNumSyntax (cmd ! 1)), st)
      | Some bid \<Rightarrow>
          (let tx = cm_tx st; cacheKey = cache_key (tx_ItemID tx) bid;
               (err, c1) = bc_Delete C (cm_cache st) cacheKey;
               tx1 = (case err of None \<Rightarrow> tx
                      | Some e \<Rightarrow> tx\<lparr>tx_Err := tx_Err tx @ [''Removing '' @ cacheKey @ '': '' @ err_Error e]\<rparr>)
           in (None, st\<lparr>cm_cache := c1, cm_tx := tx1, cm_wr := DeleteBlob (cm_wr st) bid\<rparr>)))"

definition exec_slot :: "command \<Rightarrow> ('s, 'w, 'c, 'f, 'b) commit \<Rightarrow> error option \<times> ('s, 'w, 'c, 'f, 'b) commit" where
  "exec_slot cmd st =
     (case (case gget (tx_BlobMap (cm_tx st)) (cmd ! 2) of Some bid \<Rightarrow> Some bid | None \<Rightarrow> parse_int (cmd ! 2)) of
        None \<Rightarrow> (Some (ErrMessage (''Cannot resolve id '' @ cmd ! 2)), st)
      | Some bid \<Rightarrow> (None, st\<lparr>cm_wr := SetSlot (cm_wr st) (cmd ! 1) bid\<rparr>))"

text \<open>\<open>add\<close>: the file is only read when \<open>WriteBlob\<close> does not find its sums among the blobs of the item. The
  reader is closed without an error.\<close>

definition exec_add ::
  "('s, 'w, 'c) item_env \<Rightarrow> ('f, 'v, 'm) store_ops_scheme \<Rightarrow> time \<Rightarrow> command \<Rightarrow> ('s, 'w, 'c, 'f, 'b) commit \<Rightarrow>
     (error option \<times> ('s, 'w, 'c, 'f, 'b) commit) option" where
  "exec_add E F now cmd st =
     (case frag_Lookup (cm_files st) (cmd ! 1) of
        None \<Rightarrow> Some (Some (ErrMessage (''Cannot find '' @ cmd ! 1)), st)
      | Some f \<Rightarrow>
          (let fstat = file_Stat f in
           case (if findBlobByHash (wr_item (cm_wr st)) (st_Size fstat) (st_MD5 fstat) (st_SHA256 fstat) \<noteq> 0
                 then Some (([], None), fr_state (cm_files st))
                 else fragreader_copy F copy_buffer (fr_state (cm_files st)) (file_Open f) []) of
             None \<Rightarrow> None
           | Some (r, s1) \<Rightarrow>
               (let ((bid, err), items1, wr1) =
                      Writer_WriteBlob E now (cm_items st) (cm_wr st) r (st_Size fstat) (st_MD5 fstat) (st_SHA256 fstat);
                    st1 = st\<lparr>cm_items := items1, cm_wr := wr1, cm_files := (cm_files st)\<lparr>fr_state := s1\<rparr>\<rparr>
                in if err \<noteq> None then Some (err, st1)
                   else Some (None, st1\<lparr>cm_tx := (cm_tx st1)\<lparr>tx_BlobMap := gset (cmd ! 1) bid (tx_BlobMap (cm_tx st1))\<rparr>,
                                        cm_wr := wr_SetMimeType wr1 bid (st_MimeType fstat)\<rparr>))))"

definition exec_mimetype :: "command \<Rightarrow> ('s, 'w, 'c, 'f, 'b) commit \<Rightarrow> error option \<times> ('s, 'w, 'c, 'f, 'b) commit" where
  "exec_mimetype cmd st =
     (case parse_int (cmd ! 1) of
        None \<Rightarrow> (Some (ErrMessage (''Cannot resolve id '' @ cmd ! 2)), st)
      | Some bid \<Rightarrow> (None, st\<lparr>cm_wr := wr_SetMimeType (cm_wr st) bid (cmd ! 2)\<rparr>))"

definition cmd_Execute ::
  "('s, 'w, 'c) item_env \<Rightarrow> ('f, 'v, 'm) store_ops_scheme \<Rightarrow> ('b, 'u) cache_ops \<Rightarrow> time \<Rightarrow> command \<Rightarrow> ('s, 'w, 'c, 'f, 'b) commit \<Rightarrow>
     (error option \<times> ('s, 'w, 'c, 'f, 'b) commit) option" where
  "cmd_Execute E F C now cmd st =
     (if \<not> WellFormed cmd then Some (Some (ErrMessage ''Command is not well formed''), st)
      else if cmd ! 0 = ''delete'' then Some (exec_delete C cmd st)
      else if cmd ! 0 = ''slot'' then Some (exec_slot cmd st)
      else if cmd ! 0 = ''note'' then Some (None, st\<lparr>cm_wr := SetNote (cm_wr st) (cmd ! 1)\<rparr>)
      else if cmd ! 0 = ''add'' then exec_add E F now cmd st
      else if cmd ! 0 = ''mimetype'' then Some (exec_mimetype cmd st)
      else if cmd ! 0 = ''sleep'' then Some (None, st)
      else Some (Some (ErrMessage (''Bad command '' @ cmd ! 0)), st))"

text \<open>The loop of \<open>Commit\<close>: it stops at the first error.\<close>

fun exec_cmds ::
  "('s, 'w, 'c) item_env \<Rightarrow> ('f, 'v, 'm) store_ops_scheme \<Rightarrow> ('b, 'u) cache_ops \<Rightarrow> time \<Rightarrow> command list \<Rightarrow> ('s, 'w, 'c, 'f, 'b) commit \<Rightarrow>
     ('s, 'w, 'c, 'f, 'b) commit option" where
  "exec_cmds E F C now [] st = Some st"
| "exec_cmds E F C now (cmd # cmds) st =
     (case cmd_Execute E F C now cmd st of
        None \<Rightarrow> None
      | Some (Some e, st1) \<Rightarrow>
          Some (st1\<lparr>cm_tx := (cm_tx st1)\<lparr>tx_Err := tx_Err (cm_tx st1) @ [fmt_v_strings cmd @ '': '' @ err_Error e]\<rparr>\<rparr>)
      | Some (None, st1) \<Rightarrow> exec_cmds E F C now cmds st1)"

text \<open>\<open>Commit\<close> gives the new state of the item store, of the uploaded files, of the cache, of the store of transactions
  and of the transaction.\<close>

definition tx_Commit ::
  "('s, 'w, 'c) item_env \<Rightarrow> ('f, 'v, 'm) store_ops_scheme \<Rightarrow> ('b, 'u) cache_ops \<Rightarrow> ('t, 'x, 'n) store_ops_scheme \<Rightarrow> transaction json \<Rightarrow>
     time \<Rightarrow> ('s, 'c) item_store \<Rightarrow> 'f frag_store \<Rightarrow> 'b \<Rightarrow> 't \<Rightarrow> transaction \<Rightarrow>
     (('s, 'c) item_store \<times> 'f frag_store \<times> 'b \<times> 't \<times> transaction) option" where
  "tx_Commit E F C T J now items files cache s tx =
     (let tx1 = tx\<lparr>tx_Status := StatusIngest\<rparr> in
      case items_Open E now items (tx_ItemID tx) (tx_Creator tx) of
        (Inl e, items1) \<Rightarrow> Some (items1, files, cache, s, tx1\<lparr>tx_Err := tx_Err tx1 @ [err_Error e]\<rparr>)
      | (Inr iw, items1) \<Rightarrow>
          (case exec_cmds E F C now (tx_Commands tx)
                  \<lparr>cm_items = items1, cm_wr = iw, cm_tx = tx1, cm_files = files, cm_cache = cache\<rparr> of
             None \<Rightarrow> None
           | Some st \<Rightarrow>
               (let (err, items2, iw2) = Writer_Close E now (cm_items st) (cm_wr st);
                    tx2 = (case err of None \<Rightarrow> cm_tx st | Some e \<Rightarrow> (cm_tx st)\<lparr>tx_Err := tx_Err (cm_tx st) @ [err_Error e]\<rparr>);
                    tx3 = tx2\<lparr>tx_Status := (if length (tx_Err tx2) > 0 then StatusError else StatusFinished)\<rparr>;
                    (s1, tx4) = tx_save T J now s tx3
                in Some (items2, cm_files st, cm_cache st, s1, tx4))))"

end
