(* ===== verification/Items_Correct.thy ===== *)
theory Items_Correct
  imports Item_Validate Bagit_Correct
begin

text \<open>
  Correctness of the item store: bundle names and metadata survive their encodings, and a session of a
  writer (open, any operations, close) keeps every version and every blob that it does not delete, which a
  later reader gets back from the bundles alone.
\<close>

section \<open>Names\<close>

lemma desugar_sugar:
  assumes "0 \<le> n" and "int64_ok n"
  shows "desugar (sugar iid n) = (iid, n)"
proof -
  have dash: "CHR ''-'' \<notin> set (fmt_04d n)" using assms(1) by (intro fmt_04d_nonneg_chars) simp_all
  have "sugar iid n = (iid @ CHR ''-'' # fmt_04d n) @ ''.zip''" by (simp add: sugar_def)
  then have trim: "trim_suffix (sugar iid n) ''.zip'' = iid @ CHR ''-'' # fmt_04d n" by (simp only: trim_suffix_append)
  show ?thesis
    unfolding desugar_def trim Let_def by (simp add: last_index_char_append[OF dash] parse_int_fmt_04d[OF assms(2)])
qed

lemma sugar_inj:
  assumes "sugar a n = sugar b m" and "0 \<le> n" "int64_ok n" "0 \<le> m" "int64_ok m"
  shows "a = b" "n = m"
  using desugar_sugar[OF assms(2,3), of a] desugar_sugar[OF assms(4,5), of b] assms(1) by (metis prod.inject)+

lemma sugar_prefix [simp]: "has_prefix (sugar iid n) iid"
  by (simp add: sugar_def)

lemma length_nat_digits: "n < 10 ^ Suc k \<Longrightarrow> length (nat_digits n) \<le> Suc k"
proof (induction k arbitrary: n)
  case (Suc k)
  then have "n div 10 < 10 ^ Suc k" by (simp add: less_mult_imp_div_less mult.commute)
  with Suc.IH[of "n div 10"] show ?case by (subst nat_digits.simps) simp
qed (simp add: nat_digits.simps)

lemma fmt_d_int64:
  assumes "int64_ok n"
  shows "length (fmt_d n) \<le> 20"
proof -
  have "(2::nat) ^ 63 < 10 ^ Suc 18" by simp
  moreover have "nat (- n) \<le> 2 ^ 63" "nat n \<le> 2 ^ 63" using assms by (simp_all add: int64_ok_def nat_le_iff)
  ultimately have "length (nat_digits (nat (- n))) \<le> Suc 18" "length (nat_digits (nat n)) \<le> Suc 18"
    by (intro length_nat_digits; linarith)+
  then show ?thesis by (simp add: fmt_d_def)
qed

lemma digit_not_space: "d < 10 \<Longrightarrow> \<not> is_space (digit_char d)" "\<not> is_space CHR ''-''"
  by (auto simp: is_space_def digit_char_range dest: arg_cong[where f = "of_char :: char \<Rightarrow> nat"])

lemma name_ok_blob: "int64_ok i \<Longrightarrow> name_ok (''data/'' @ blob_name i)"
  using fmt_d_int64[of i] fmt_d_chars[of _ i] digit_not_space
  by (fastforce simp: name_ok_def blob_name_def is_space_def)

lemma name_ok_info: "name_ok (''data/'' @ ''item-info.json'')"
  by (simp add: name_ok_def is_space_def)

lemma extractBlobID_name: "int64_ok i \<Longrightarrow> extractBlobID (blob_name i) = i"
  using split2_append[of "CHR ''/''" "''blob''" "fmt_d i"] by (simp add: extractBlobID_def blob_name_def parse_int_fmt_d)

lemma blob_name_inj: "blob_name i = blob_name j \<Longrightarrow> int64_ok i \<Longrightarrow> int64_ok j \<Longrightarrow> i = j"
  by (metis extractBlobID_name)

lemma blob_name_info [simp]: "blob_name i \<noteq> ''item-info.json''" "''item-info.json'' \<noteq> blob_name i"
  by (simp_all add: blob_name_def)

section \<open>The metadata on tape\<close>

lemma blob_tape [simp]: "blob_from_tape (blob_to_tape b) = b"
  by (simp add: blob_from_tape_def blob_to_tape_def)

lemma version_tape [simp]: "version_from_tape (version_to_tape v) = v"
  by (simp add: version_from_tape_def version_to_tape_def)

lemma read_write_ItemInfo: "json_rt J (item_tape item) \<Longrightarrow> readItemInfo J (writeItemInfo J item, e) = Inr item"
  by (simp add: readItemInfo_def decode_stream_def writeItemInfo_def json_rt_def item_tape_def comp_def)

section \<open>Bundles\<close>

text \<open>The bytes \<open>b\<close> are a bag with the payload files \<open>L\<close>.\<close>

definition is_bundle :: "hashes \<Rightarrow> zipc \<Rightarrow> bytes \<Rightarrow> (string \<times> bytes) list \<Rightarrow> bool" where
  "is_bundle H Z b L =
     (distinct (map fst L) \<and>
      (\<exists>r. bag_NewReader Z b = Inr r \<and> fst (bagr_Verify H r) = None \<and> bagr_Files r = map fst L \<and>
         (\<forall>n. bagr_Open r n = (case map_of L n of None \<Rightarrow> Inl ErrNotFound | Some c \<Rightarrow> Inr (c, None))) \<and>
         (\<forall>n c. map_of L n = Some c \<longrightarrow> fst (bagr_Checksum r n) = Some (file_checksum H c))))"

lemma is_bundle_Close:
  assumes "bag_wf H w (datafiles L)" and "bag_dirname (bw_t w) = name @ ''/''"
    and "L \<noteq> []" and "\<forall>f \<in> set L. name_ok (''data/'' @ fst f)" and "CHR ''/'' \<notin> set name"
    and "hashes_ok H" and "\<And>gs. zip_rt Z gs"
  shows "is_bundle H Z (bag_Close H Z date w) L"
proof -
  have "distinct (map fst (datafiles L))" using assms(1) by (simp add: bag_wf_def)
  then have d: "distinct (map fst L)" unfolding datafiles_names by (simp only: distinct_map)
  from bag_reads_back[OF assms(1-3) d assms(4-7)] d show ?thesis by (auto simp: is_bundle_def)
qed

lemma bag_Create_wf:
  assumes "bag_wf H w (datafiles L)" and "n \<notin> fst ` set L"
  shows "bag_wf H (countWriter_Write (bag_Create H w n) p) (datafiles (L @ [(n, p)]))"
proof -
  have "''data/'' @ n \<notin> fst ` set (datafiles L)" using assms(2) by (auto simp: datafiles_def image_iff)
  from bag_add_wf[OF assms(1), of "(n, [p])"] this show ?thesis by (simp add: bag_add_def)
qed

lemma bag_dirname_count [simp]:
  "bag_dirname (bw_t (countWriter_Write w p)) = bag_dirname (bw_t w)"
  "bag_dirname (bw_t (bag_Create H w n)) = bag_dirname (bw_t w)"
  by (simp_all add: countWriter_Write_def Let_def bag_Create_def)


lemma bag_Checksum_current:
  assumes "bag_wf H w (L @ [(n, c)])"
  shows "bag_wf H (bag_Checksum H w) (L @ [(n, c)])" and "bag_current (bag_Checksum H w) = Some (file_checksum H c)"
  using bag_Checksum_sealed[OF assms] by (auto simp: bag_sealed_def bag_current_def bag_wf_def)

section \<open>The invariant of an item\<close>

text \<open>\<open>B\<close> gives the content of every blob. A blob that is not deleted records the size and the sums of its content.\<close>

definition blob_ok :: "hashes \<Rightarrow> (int \<Rightarrow> bytes) \<Rightarrow> blob \<Rightarrow> bool" where
  "blob_ok H B b =
     (int64_ok (blob_ID b) \<and> 1 \<le> blob_ID b \<and> 0 \<le> blob_Bundle b \<and> (blob_Bundle b = 0 \<longrightarrow> blob_Size b = 0) \<and>
      (blob_Bundle b \<noteq> 0 \<longrightarrow>
         blob_Size b = int (length (B (blob_ID b))) \<and> blob_MD5 b = h_md5 H (B (blob_ID b)) \<and>
         blob_SHA256 b = h_sha256 H (B (blob_ID b))))"

definition item_ok :: "hashes \<Rightarrow> (int \<Rightarrow> bytes) \<Rightarrow> item \<Rightarrow> bool" where
  "item_ok H B item = (sorted_wrt (<) (map blob_ID (item_Blobs item)) \<and> (\<forall>b \<in> set (item_Blobs item). blob_ok H B b))"

text \<open>The ids of the blobs whose metadata names the bundle \<open>m\<close>.\<close>

definition live_at :: "item \<Rightarrow> int \<Rightarrow> int set" where
  "live_at item m = blob_ID ` {b \<in> set (item_Blobs item). blob_Bundle b = m}"

text \<open>The files \<open>L\<close> of a bundle hold the blobs \<open>A\<close>, and nothing else but the metadata and blobs of \<open>X\<close>, which
  are about to be removed.\<close>

definition files_ok :: "int set \<Rightarrow> (int \<Rightarrow> bytes) \<Rightarrow> int set \<Rightarrow> (string \<times> bytes) list \<Rightarrow> bool" where
  "files_ok A B X L =
     ((\<forall>(n, c) \<in> set L. n = ''item-info.json'' \<or> (\<exists>i. int64_ok i \<and> n = blob_name i \<and> (i \<in> X \<or> i \<in> A \<and> c = B i))) \<and>
      (\<forall>i \<in> A. (blob_name i, B i) \<in> set L))"

text \<open>Every object of the store whose name belongs to the item is one of its bundles up to \<open>hi\<close>; those
  in \<open>R\<close> have been copied and are about to be deleted.\<close>

definition bundles_ok ::
  "hashes \<Rightarrow> zipc \<Rightarrow> (string \<Rightarrow> bytes option) \<Rightarrow> string \<Rightarrow> item \<Rightarrow> (int \<Rightarrow> bytes) \<Rightarrow> (int \<Rightarrow> int set) \<Rightarrow> int set \<Rightarrow> int \<Rightarrow> bool" where
  "bundles_ok H Z c iid item B X R hi =
     (\<forall>k b. c k = Some b \<longrightarrow> fst (desugar k) = iid \<longrightarrow>
        (\<exists>m. k = sugar iid m \<and> 1 \<le> m \<and> m \<le> hi \<and>
             (m \<notin> R \<longrightarrow> (\<exists>L. is_bundle H Z b L \<and> files_ok (live_at item m) B (X m) L))))"

definition blobs_stored :: "(string \<Rightarrow> bytes option) \<Rightarrow> string \<Rightarrow> item \<Rightarrow> int \<Rightarrow> bool" where
  "blobs_stored c iid item hi = (\<forall>b \<in> set (item_Blobs item). blob_Bundle b \<noteq> 0 \<longrightarrow>
     blob_Bundle b \<le> hi + 1 \<and> (blob_Bundle b \<le> hi \<longrightarrow> c (sugar iid (blob_Bundle b)) \<noteq> None))"

lemma files_ok_cong:
  assumes "A = A'" and "\<And>i. i \<in> A \<Longrightarrow> B i = B' i"
  shows "files_ok A B X L = files_ok A' B' X L"
proof -
  have "(i \<in> A \<and> c = B i) = (i \<in> A' \<and> c = B' i)" for i c using assms by auto
  moreover have "(\<forall>i \<in> A. (blob_name i, B i) \<in> set L) = (\<forall>i \<in> A'. (blob_name i, B' i) \<in> set L)" using assms by auto
  ultimately show ?thesis by (simp only: files_ok_def)
qed

lemma bundles_ok_cong:
  assumes "bundles_ok H Z c iid item B X R hi"
    and "\<And>m L. m \<notin> R' \<Longrightarrow> 1 \<le> m \<Longrightarrow> m \<le> hi \<Longrightarrow> m \<notin> R \<and> (files_ok (live_at item m) B (X m) L \<longrightarrow> files_ok (live_at item' m) B' (X' m) L)"
  shows "bundles_ok H Z c iid item' B' X' R' hi"
  unfolding bundles_ok_def
proof (intro allI impI)
  fix k b assume "c k = Some b" "fst (desugar k) = iid"
  then obtain m where m: "k = sugar iid m" "1 \<le> m" "m \<le> hi" "m \<notin> R \<longrightarrow> (\<exists>L. is_bundle H Z b L \<and> files_ok (live_at item m) B (X m) L)"
    using assms(1) unfolding bundles_ok_def by blast
  with assms(2)[of m] show "\<exists>m. k = sugar iid m \<and> 1 \<le> m \<and> m \<le> hi \<and>
      (m \<notin> R' \<longrightarrow> (\<exists>L. is_bundle H Z b L \<and> files_ok (live_at item' m) B' (X' m) L))" by blast
qed

text \<open>A blob is added to the open bundle.\<close>

lemma live_at_add:
  assumes "set (item_Blobs item') = insert b (set (item_Blobs item))"
  shows "live_at item' m = live_at item m \<union> (if blob_Bundle b = m then {blob_ID b} else {})"
  using assms unfolding live_at_def by auto

lemma files_ok_add:
  assumes "files_ok A B {} L" and "int64_ok i" and "i \<notin> A"
  shows "files_ok (insert i A) (B(i := c)) {} (L @ [(blob_name i, c)])"
  using assms by (auto simp: files_ok_def)

lemma in_live_at: "b \<in> set (item_Blobs item) \<Longrightarrow> blob_ID b \<in> live_at item (blob_Bundle b)"
  by (auto simp: live_at_def)

text \<open>\<open>upd_blob\<close> on an item whose ids are distinct.\<close>

lemma upd_blob_map:
  "sorted_wrt (<) (map blob_ID bs) \<Longrightarrow> upd_blob i f bs = map (\<lambda>b. if blob_ID b = i then f b else b) bs"
proof (induction bs)
  case (Cons b bs)
  show ?case
  proof (cases "blob_ID b = i")
    case True
    with Cons.prems have "\<forall>b' \<in> set bs. blob_ID b' \<noteq> i" by auto
    then have "map (\<lambda>b. if blob_ID b = i then f b else b) bs = bs" by (simp add: map_idI)
    with True show ?thesis by simp
  qed (use Cons in simp)
qed simp

lemma upd_blob_IDs: "(\<And>b. blob_ID (f b) = blob_ID b) \<Longrightarrow> map blob_ID (upd_blob i f bs) = map blob_ID bs"
  by (induction bs) auto

lemma item_ok_unique:
  assumes "item_ok H B item" and "b \<in> set (item_Blobs item)" and "b' \<in> set (item_Blobs item)" and "blob_ID b = blob_ID b'"
  shows "b = b'"
proof -
  have "distinct (map blob_ID (item_Blobs item))" using assms(1) by (simp add: item_ok_def strict_sorted_iff)
  with assms(2-4) show ?thesis by (meson distinct_map inj_onD)
qed

lemma blobByID_Some:
  assumes "item_ok H B item"
  shows "blobByID item i = Some b \<longleftrightarrow> b \<in> set (item_Blobs item) \<and> blob_ID b = i"
proof
  assume "b \<in> set (item_Blobs item) \<and> blob_ID b = i"
  then obtain b' where "blobByID item i = Some b'" by (cases "blobByID item i") (auto simp: blobByID_def find_None_iff)
  moreover then have "b' \<in> set (item_Blobs item)" "blob_ID b' = i" by (auto simp: blobByID_def find_Some_iff)
  ultimately show "blobByID item i = Some b" using item_ok_unique[OF assms] \<open>b \<in> _ \<and> _\<close> by metis
qed (auto simp: blobByID_def find_Some_iff)

lemma blobByID_None: "blobByID item i = None \<longleftrightarrow> (\<forall>b \<in> set (item_Blobs item). blob_ID b \<noteq> i)"
  by (auto simp: blobByID_def find_None_iff)


text \<open>The parts of a blob that the invariant is about.\<close>

definition blob_core :: "blob \<Rightarrow> int \<times> int \<times> int \<times> bytes \<times> bytes" where
  "blob_core b = (blob_ID b, blob_Bundle b, blob_Size b, blob_MD5 b, blob_SHA256 b)"

lemma core_IDs: "map blob_core bs' = map blob_core bs \<Longrightarrow> map blob_ID bs' = map blob_ID bs"
proof -
  assume "map blob_core bs' = map blob_core bs"
  then have "map fst (map blob_core bs') = map fst (map blob_core bs)" by simp
  then show ?thesis by (simp add: blob_core_def comp_def)
qed

lemma core_ex:
  assumes "map blob_core bs' = map blob_core bs" and "b \<in> set bs'"
  shows "\<exists>b' \<in> set bs. blob_core b' = blob_core b"
proof -
  have "blob_core b \<in> set (map blob_core bs)" using assms by (metis image_eqI set_map)
  then show ?thesis by auto
qed

lemma core_live:
  assumes "map blob_core (item_Blobs item') = map blob_core (item_Blobs item)"
  shows "live_at item' m = live_at item m"
proof -
  have "live_at x m = fst ` {t \<in> set (map blob_core (item_Blobs x)). fst (snd t) = m}" for x
    by (force simp: live_at_def blob_core_def)
  then show ?thesis by (simp only: assms)
qed

lemma core_item_ok:
  assumes "map blob_core (item_Blobs item') = map blob_core (item_Blobs item)" and "item_ok H B item"
  shows "item_ok H B item'"
  using assms(2) core_IDs[OF assms(1)] core_ex[OF assms(1)] unfolding item_ok_def blob_ok_def blob_core_def by fastforce

lemma core_blobs_stored:
  assumes "map blob_core (item_Blobs item') = map blob_core (item_Blobs item)" and "blobs_stored c iid item hi"
  shows "blobs_stored c iid item' hi"
  using assms(2) core_ex[OF assms(1)] unfolding blobs_stored_def blob_core_def by fastforce

section \<open>An open bundle\<close>

definition own_writer :: "('w \<Rightarrow> (string \<times> bytes) option) \<Rightarrow> string \<Rightarrow> 'w option \<Rightarrow> bool" where
  "own_writer ws iid f = (\<forall>f' k b. ws f' = Some (k, b) \<longrightarrow> fst (desugar k) = iid \<longrightarrow> Some f' = f)"

text \<open>The bundle writer has the bundle \<open>bun_n bw - 1\<close> open, with the files \<open>L\<close> in it.\<close>

definition open_bag ::
  "hashes \<Rightarrow> (string \<Rightarrow> bytes option) \<Rightarrow> ('w \<Rightarrow> (string \<times> bytes) option) \<Rightarrow> string \<Rightarrow> 'w bundle_writer \<Rightarrow> (string \<times> bytes) list \<Rightarrow> bool" where
  "open_bag H c ws iid bw L =
     (\<exists>f w. bun_zw bw = Some (f, w) \<and> ws f = Some (sugar iid (bun_n bw - 1), []) \<and> own_writer ws iid (Some f) \<and>
        c (sugar iid (bun_n bw - 1)) = None \<and> bag_wf H w (datafiles L) \<and>
        bag_dirname (bw_t w) = trim_suffix iid ''.zip'' @ ''/'' \<and>
        (\<forall>f \<in> set L. name_ok (''data/'' @ fst f)) \<and> ''item-info.json'' \<notin> fst ` set L)"

text \<open>Nothing changes for the other items.\<close>

definition frame ::
  "(string \<Rightarrow> bytes option) \<times> ('w \<Rightarrow> (string \<times> bytes) option) \<Rightarrow> (string \<Rightarrow> bytes option) \<times> ('w \<Rightarrow> (string \<times> bytes) option) \<Rightarrow> string \<Rightarrow> bool" where
  "frame p p' iid = (\<forall>k. fst (desugar k) \<noteq> iid \<longrightarrow>
     fst p' k = fst p k \<and> (\<forall>f b. (snd p' f = Some (k, b)) = (snd p f = Some (k, b))))"

lemma frame_refl [simp]: "frame p p iid"
  by (simp add: frame_def)

lemma frame_trans: "frame p p' iid \<Longrightarrow> frame p' p'' iid \<Longrightarrow> frame p p'' iid"
  by (simp add: frame_def)

lemma frame_del:
  assumes "0 \<le> n" and "int64_ok n"
  shows "frame (c, ws) (c(sugar iid n := None), ws) iid"
  using desugar_sugar[OF assms(1,2), of iid] by (auto simp: frame_def)

text \<open>The same, and no object of the item changes or goes away.\<close>

definition ext ::
  "(string \<Rightarrow> bytes option) \<times> ('w \<Rightarrow> (string \<times> bytes) option) \<Rightarrow> (string \<Rightarrow> bytes option) \<times> ('w \<Rightarrow> (string \<times> bytes) option) \<Rightarrow> string \<Rightarrow> bool" where
  "ext p p' iid = (frame p p' iid \<and> (\<forall>k. fst p k \<noteq> None \<longrightarrow> fst p' k = fst p k))"

lemma ext_refl [simp]: "ext p p iid"
  by (simp add: ext_def)

lemma ext_trans: "ext p p' iid \<Longrightarrow> ext p' p'' iid \<Longrightarrow> ext p p'' iid"
  unfolding ext_def using frame_trans[of p p' iid p''] by metis

lemma ext_frame: "ext p p' iid \<Longrightarrow> frame p p' iid"
  by (simp add: ext_def)

lemma ext_put:
  assumes "0 \<le> n" and "int64_ok n" and "ws f = Some (sugar iid n, b)" and "c (sugar iid n) = None"
  shows "ext (c, ws) (c(sugar iid n := v), ws(f := None)) iid"
  using desugar_sugar[OF assms(1,2), of iid] assms(3,4) by (auto simp: ext_def frame_def)

lemma ext_open:
  assumes "0 \<le> n" and "int64_ok n" and "ws f = None"
  shows "ext (c, ws) (c, ws(f \<mapsto> (sugar iid n, b))) iid"
  using desugar_sugar[OF assms(1,2), of iid] assms(3) by (auto simp: ext_def frame_def)

text \<open>The invariant while no bundle is open, and while one is.\<close>

definition closed ::
  "hashes \<Rightarrow> zipc \<Rightarrow> (string \<Rightarrow> bytes option) \<Rightarrow> ('w \<Rightarrow> (string \<times> bytes) option) \<Rightarrow> string \<Rightarrow> item \<Rightarrow> (int \<Rightarrow> bytes) \<Rightarrow>
     (int \<Rightarrow> int set) \<Rightarrow> int set \<Rightarrow> int \<Rightarrow> bool" where
  "closed H Z c ws iid item B X R hi =
     (item_ID item = iid \<and> item_ok H B item \<and> own_writer ws iid None \<and> bundles_ok H Z c iid item B X R hi \<and>
      (\<forall>b \<in> set (item_Blobs item). blob_Bundle b \<noteq> 0 \<longrightarrow> blob_Bundle b \<le> hi \<and> c (sugar iid (blob_Bundle b)) \<noteq> None))"

definition writing ::
  "hashes \<Rightarrow> zipc \<Rightarrow> (string \<Rightarrow> bytes option) \<Rightarrow> ('w \<Rightarrow> (string \<times> bytes) option) \<Rightarrow> string \<Rightarrow> item \<Rightarrow> 'w bundle_writer \<Rightarrow>
     (int \<Rightarrow> bytes) \<Rightarrow> (int \<Rightarrow> int set) \<Rightarrow> int set \<Rightarrow> (string \<times> bytes) list \<Rightarrow> bool" where
  "writing H Z c ws iid item bw B X R L =
     (item_ID item = iid \<and> item_ok H B item \<and> 2 \<le> bun_n bw \<and> open_bag H c ws iid bw L \<and>
      bundles_ok H Z c iid item B X R (bun_n bw - 2) \<and> blobs_stored c iid item (bun_n bw - 2))"

definition id_ok :: "(string \<Rightarrow> bool) \<Rightarrow> string \<Rightarrow> bool" where
  "id_ok okkey iid = ((\<forall>n \<ge> 0. int64_ok n \<longrightarrow> okkey (sugar iid n)) \<and> CHR ''/'' \<notin> set (trim_suffix iid ''.zip''))"

lemma writing_core:
  assumes "map blob_core (item_Blobs item') = map blob_core (item_Blobs item)" and "item_ID item' = item_ID item"
    and "writing H Z c ws iid item bw B X R L"
  shows "writing H Z c ws iid item' bw B X R L"
  using assms core_item_ok[OF assms(1)] core_blobs_stored[OF assms(1)] unfolding writing_def bundles_ok_def core_live[OF assms(1)] by simp

lemma files_ok_mono: "files_ok A B {} L \<Longrightarrow> files_ok A B X L"
  by (fastforce simp: files_ok_def)

lemma files_ok_info: "files_ok A B X L \<Longrightarrow> files_ok A B X (L @ [(''item-info.json'', j)])"
  by (simp add: files_ok_def)

lemma bundles_ok_bound:
  assumes "bundles_ok H Z c iid item B X R hi" and "hi < n" and "0 \<le> n" "int64_ok n" and hi: "hi < 2 ^ 63"
  shows "c (sugar iid n) = None"
proof (rule ccontr)
  assume "c (sugar iid n) \<noteq> None"
  then obtain b where b: "c (sugar iid n) = Some b" by blast
  have "fst (desugar (sugar iid n)) = iid" using desugar_sugar[OF assms(3,4)] by simp
  with assms(1) b obtain m where m: "sugar iid n = sugar iid m" "1 \<le> m" "m \<le> hi" unfolding bundles_ok_def by blast
  then have "int64_ok m" using hi by (simp add: int64_ok_def)
  with sugar_inj(2)[OF m(1) assms(3,4)] m assms(2) show False by simp
qed

lemma bundles_ok_put:
  assumes "bundles_ok H Z c iid item B X R hi" and "is_bundle H Z b L" and "files_ok (live_at item (hi + 1)) B (X (hi + 1)) L" and "0 \<le> hi"
  shows "bundles_ok H Z (c(sugar iid (hi + 1) \<mapsto> b)) iid item B X R (hi + 1)"
  unfolding bundles_ok_def
proof (intro allI impI)
  fix k b' assume k: "(c(sugar iid (hi + 1) \<mapsto> b)) k = Some b'" "fst (desugar k) = iid"
  show "\<exists>m. k = sugar iid m \<and> 1 \<le> m \<and> m \<le> hi + 1 \<and> (m \<notin> R \<longrightarrow> (\<exists>L. is_bundle H Z b' L \<and> files_ok (live_at item m) B (X m) L))"
  proof (cases "k = sugar iid (hi + 1)")
    case True
    with k assms(2-4) show ?thesis by (intro exI[of _ "hi + 1"]) auto
  next
    case False
    then have "c k = Some b'" using k(1) by simp
    with k(2) assms(1) obtain m where "k = sugar iid m" "1 \<le> m" "m \<le> hi" "m \<notin> R \<longrightarrow> (\<exists>L. is_bundle H Z b' L \<and> files_ok (live_at item m) B (X m) L)"
      unfolding bundles_ok_def by blast
    then show ?thesis by (intro exI[of _ m]) auto
  qed
qed

definition blob_results :: "hashes \<Rightarrow> bytes \<Rightarrow> int \<Rightarrow> results" where
  "blob_results H c m = \<lparr>res_BytesWritten = int (length c), res_Bundle = m, res_WrittenMD5 = h_md5 H c, res_WrittenSHA256 = h_sha256 H c\<rparr>"

text \<open>The invariant when the metadata catches up with a blob that has been written to the open bundle: a
  new blob, or one that was copied from the bundle \<open>src\<close>.\<close>

lemma writing_add:
  assumes w: "writing H Z c ws iid item bw B X R (L @ [(blob_name i, cc)])" and f: "files_ok (live_at item (bun_n bw - 1)) B {} L"
    and new: "\<forall>b \<in> set (item_Blobs item). blob_ID b \<noteq> i"
    and b: "blob_ID b = i" "blob_Bundle b = bun_n bw - 1" "blob_ok H (B(i := cc)) b"
    and item': "set (item_Blobs item') = insert b (set (item_Blobs item))" "sorted_wrt (<) (map blob_ID (item_Blobs item'))" "item_ID item' = item_ID item"
  shows "writing H Z c ws iid item' bw (B(i := cc)) X R (L @ [(blob_name i, cc)])"
    and "files_ok (live_at item' (bun_n bw - 1)) (B(i := cc)) {} (L @ [(blob_name i, cc)])"
proof -
  note live = live_at_add[OF item'(1)]
  have old: "i \<notin> live_at item m" for m using new by (auto simp: live_at_def)
  have "blob_ok H (B(i := cc)) b'" if "b' \<in> set (item_Blobs item)" for b'
    using w new that by (auto simp: writing_def item_ok_def blob_ok_def)
  then have "item_ok H (B(i := cc)) item'" using b(3) item' by (simp add: item_ok_def)
  moreover have "bundles_ok H Z c iid item' (B(i := cc)) X R (bun_n bw - 2)"
  proof (rule bundles_ok_cong)
    show "bundles_ok H Z c iid item B X R (bun_n bw - 2)" using w by (simp add: writing_def)
    fix m L assume m: "m \<notin> R" "1 \<le> m" "m \<le> bun_n bw - 2"
    have "files_ok (live_at item m) B (X m) L = files_ok (live_at item' m) (B(i := cc)) (X m) L"
      by (rule files_ok_cong) (use m old in \<open>auto simp: live b(2)\<close>)
    with m show "m \<notin> R \<and> (files_ok (live_at item m) B (X m) L \<longrightarrow> files_ok (live_at item' m) (B(i := cc)) (X m) L)" by simp
  qed
  moreover have "blobs_stored c iid item' (bun_n bw - 2)" using w b(2) by (auto simp: writing_def blobs_stored_def item'(1))
  ultimately show "writing H Z c ws iid item' bw (B(i := cc)) X R (L @ [(blob_name i, cc)])"
    using w item'(3) by (simp add: writing_def)
  have "int64_ok i" using b by (simp add: blob_ok_def)
  from files_ok_add[OF f this old] show "files_ok (live_at item' (bun_n bw - 1)) (B(i := cc)) {} (L @ [(blob_name i, cc)])"
    by (simp add: live b)
qed

lemma live_at_map:
  assumes "\<And>b. blob_ID (g b) = blob_ID b"
  shows "live_at (item\<lparr>item_Blobs := map g (item_Blobs item)\<rparr>) k = blob_ID ` {b \<in> set (item_Blobs item). blob_Bundle (g b) = k}"
proof -
  have "{b \<in> g ` set (item_Blobs item). blob_Bundle b = k} = g ` {b \<in> set (item_Blobs item). blob_Bundle (g b) = k}" by auto
  then show ?thesis by (simp add: live_at_def image_image assms)
qed

definition rebundle :: "int \<Rightarrow> int \<Rightarrow> item \<Rightarrow> item" where
  "rebundle i m item = item\<lparr>item_Blobs := upd_blob i (\<lambda>b. b\<lparr>blob_Bundle := m\<rparr>) (item_Blobs item)\<rparr>"

lemma rebundle_live:
  assumes "item_ok H B item" and "b \<in> set (item_Blobs item)" and "blob_Bundle b \<noteq> m"
  shows "live_at (rebundle (blob_ID b) m item) k =
    (if k = m then insert (blob_ID b) (live_at item k) else live_at item k - (if k = blob_Bundle b then {blob_ID b} else {}))"
proof -
  have sorted: "sorted_wrt (<) (map blob_ID (item_Blobs item))" using assms(1) by (simp add: item_ok_def)
  have u: "b' = b" if "b' \<in> set (item_Blobs item)" "blob_ID b' = blob_ID b" for b' using item_ok_unique[OF assms(1) that(1) assms(2)] that by simp
  have "live_at (rebundle (blob_ID b) m item) k = blob_ID ` {b' \<in> set (item_Blobs item). (if blob_ID b' = blob_ID b then m else blob_Bundle b') = k}"
    unfolding rebundle_def upd_blob_map[OF sorted] by (subst live_at_map) (auto intro!: arg_cong[where f = "image blob_ID"])
  also have "\<dots> = (if k = m then insert (blob_ID b) (live_at item k) else live_at item k - (if k = blob_Bundle b then {blob_ID b} else {}))"
  proof (cases "k = m")
    case True
    with assms(2,3) show ?thesis by (auto simp: live_at_def dest: u)
  next
    case False
    have "{b' \<in> set (item_Blobs item). (if blob_ID b' = blob_ID b then m else blob_Bundle b') = k} =
        {b' \<in> set (item_Blobs item). blob_Bundle b' = k \<and> blob_ID b' \<noteq> blob_ID b}" using False by auto
    then have "blob_ID ` {b' \<in> set (item_Blobs item). (if blob_ID b' = blob_ID b then m else blob_Bundle b') = k} = live_at item k - {blob_ID b}"
      by (auto simp: live_at_def)
    moreover have "blob_ID b \<notin> live_at item k" if "k \<noteq> blob_Bundle b" using that u by (auto simp: live_at_def)
    ultimately show ?thesis using False by simp
  qed
  finally show ?thesis .
qed

lemma rebundle_ok:
  assumes "item_ok H B item" and "b \<in> set (item_Blobs item)" and "blob_Bundle b \<noteq> 0" and "0 < m"
  shows "item_ok H B (rebundle (blob_ID b) m item)"
proof -
  have sorted: "sorted_wrt (<) (map blob_ID (item_Blobs item))" using assms(1) by (simp add: item_ok_def)
  have u: "b' = b" if "b' \<in> set (item_Blobs item)" "blob_ID b' = blob_ID b" for b' using item_ok_unique[OF assms(1) that(1) assms(2)] that by simp
  have "\<forall>b \<in> set (item_Blobs item). blob_ok H B b" using assms(1) by (simp add: item_ok_def)
  moreover have "blob_ok H B (b\<lparr>blob_Bundle := m\<rparr>)" using assms by (auto simp: item_ok_def blob_ok_def)
  ultimately show ?thesis
    unfolding item_ok_def rebundle_def using sorted by (auto simp: upd_blob_IDs) (auto simp: upd_blob_map[OF sorted] dest: u)
qed

lemma writing_move:
  assumes w: "writing H Z c ws iid item bw B X R (L @ [(blob_name (blob_ID b), B (blob_ID b))])"
    and f: "files_ok (live_at item (bun_n bw - 1)) B {} L"
    and b: "b \<in> set (item_Blobs item)" "blob_Bundle b \<in> R" "blob_Bundle b \<noteq> 0" "blob_Bundle b \<le> bun_n bw - 2"
  shows "writing H Z c ws iid (rebundle (blob_ID b) (bun_n bw - 1) item) bw B X R (L @ [(blob_name (blob_ID b), B (blob_ID b))])"
    and "files_ok (live_at (rebundle (blob_ID b) (bun_n bw - 1) item) (bun_n bw - 1)) B {} (L @ [(blob_name (blob_ID b), B (blob_ID b))])"
proof -
  let ?item = "rebundle (blob_ID b) (bun_n bw - 1) item"
  have ok: "item_ok H B item" and n2: "2 \<le> bun_n bw" using w by (simp_all add: writing_def)
  have sorted: "sorted_wrt (<) (map blob_ID (item_Blobs item))" using ok by (simp add: item_ok_def)
  note live = rebundle_live[OF ok b(1), of "bun_n bw - 1"]
  have "bundles_ok H Z c iid ?item B X R (bun_n bw - 2)"
  proof (rule bundles_ok_cong)
    show "bundles_ok H Z c iid item B X R (bun_n bw - 2)" using w by (simp add: writing_def)
    fix m L assume "m \<notin> R" "1 \<le> m" "m \<le> bun_n bw - 2"
    then show "m \<notin> R \<and> (files_ok (live_at item m) B (X m) L \<longrightarrow> files_ok (live_at ?item m) B (X m) L)"
      using live[of m] b by auto
  qed
  moreover have "blobs_stored c iid ?item (bun_n bw - 2)"
    using w by (auto simp: writing_def blobs_stored_def rebundle_def upd_blob_map[OF sorted])
  moreover have "item_ID ?item = item_ID item" by (simp add: rebundle_def)
  ultimately show "writing H Z c ws iid ?item bw B X R (L @ [(blob_name (blob_ID b), B (blob_ID b))])"
    using w rebundle_ok[OF ok b(1,3), of "bun_n bw - 1"] n2 by (simp add: writing_def)
  have "int64_ok (blob_ID b)" using ok b(1) by (simp add: item_ok_def blob_ok_def)
  with f live[of "bun_n bw - 1"] b(4) show "files_ok (live_at ?item (bun_n bw - 1)) B {} (L @ [(blob_name (blob_ID b), B (blob_ID b))])"
    by (auto simp: files_ok_def)
qed

locale bundle_store = store S cont wst okkey okpre sinv
  for S :: "('s, 'w) store_ops" and cont wst okkey okpre sinv +
  fixes E :: "('s, 'w, 'c) item_env"
  assumes E_S: "e_S E = S" and E_H: "hashes_ok (e_H E)" and E_Z: "\<And>fs. zip_rt (e_Z E) fs"
begin

lemma bun_Close_None [simp]: "bun_zw bw = None \<Longrightarrow> bun_Close E now s bw item = (None, s, bw)"
  by (simp add: bun_Close_def)

text \<open>Closing the bundle stores the files and the metadata under its name.\<close>

lemma bun_Close_open:
  assumes "sinv s" and ob: "open_bag (e_H E) (cont s) (wst s) iid bw L" and slash: "CHR ''/'' \<notin> set (trim_suffix iid ''.zip'')"
  obtains s' b where "bun_Close E now s bw item = (None, s', bw\<lparr>bun_zw := None\<rparr>)" and "sinv s'"
    and "cont s' = (cont s)(sugar iid (bun_n bw - 1) \<mapsto> b)" and "own_writer (wst s') iid None"
    and "\<exists>f. wst s f = Some (sugar iid (bun_n bw - 1), []) \<and> wst s' = (wst s)(f := None)"
    and "is_bundle (e_H E) (e_Z E) b (L @ [(''item-info.json'', writeItemInfo (e_J E) item)])"
proof -
  let ?key = "sugar iid (bun_n bw - 1)" and ?info = "writeItemInfo (e_J E) item"
  obtain f w where fw: "bun_zw bw = Some (f, w)" "wst s f = Some (?key, [])" "own_writer (wst s) iid (Some f)"
      "cont s ?key = None" "bag_wf (e_H E) w (datafiles L)" "bag_dirname (bw_t w) = trim_suffix iid ''.zip'' @ ''/''"
      "\<forall>f \<in> set L. name_ok (''data/'' @ fst f)" "''item-info.json'' \<notin> fst ` set L"
    using ob by (auto simp: open_bag_def)
  define w2 where "w2 = countWriter_Write (bag_Create (e_H E) w ''item-info.json'') ?info"
  define b where "b = bag_Close (e_H E) (e_Z E) (e_date E now) w2"
  have "\<forall>f \<in> set (L @ [(''item-info.json'', ?info)]). name_ok (''data/'' @ fst f)" using fw(7) name_ok_info by auto
  then have isb: "is_bundle (e_H E) (e_Z E) b (L @ [(''item-info.json'', ?info)])"
    unfolding b_def using bag_Create_wf[OF fw(5,8), of ?info] fw(6) slash
    by (intro is_bundle_Close[OF _ _ _ _ _ E_H E_Z]) (simp_all add: w2_def)
  obtain s1 where s1: "op_write S s f b = ((length b, None), s1)" "sinv s1" "cont s1 = cont s" "wst s1 = (wst s)(f \<mapsto> (?key, b))"
    using write_ok[OF assms(1) fw(2), of b] by auto
  then obtain s2 where s2: "op_close S s1 f = (None, s2)" "sinv s2" "cont s2 = (cont s)(?key \<mapsto> b)" "wst s2 = (wst s1)(f := None)"
    using close_ok[of s1 f ?key b] fw(4) by auto
  have "zw_Close E now s (f, w2) = (None, s2)" using s1(1) s2(1) by (simp add: zw_Close_def E_S b_def[symmetric])
  then have "bun_Close E now s bw item = (None, s2, bw\<lparr>bun_zw := None\<rparr>)"
    by (simp add: bun_Close_def fw(1) zw_MakeStream_def w2_def)
  moreover have "own_writer (wst s2) iid None" using fw(3) s1(4) s2(4) by (auto simp: own_writer_def split: if_splits)
  moreover have "wst s2 = (wst s)(f := None)" using s1(4) s2(4) by simp
  ultimately show thesis using that s2 isb fw(2) by blast
qed

text \<open>Opening the next bundle.\<close>

lemma bun_open_next:
  assumes "sinv s" and "own_writer (wst s) iid None" and "okkey (sugar iid n)" and "cont s (sugar iid n) = None"
    and "0 \<le> n" "int64_ok n"
  obtains f s' where "OpenZipWriter E s iid n = (Inr (f, bag_NewWriter (trim_suffix iid ''.zip'')), s')" and "sinv s'" and "cont s' = cont s"
    and "ext (cont s, wst s) (cont s', wst s') iid"
    and "open_bag (e_H E) (cont s') (wst s') iid (bw\<lparr>bun_zw := Some (f, bun_tags iid n (bag_NewWriter (trim_suffix iid ''.zip''))), bun_n := n + 1, bun_size := 0\<rparr>) []"
proof -
  have "\<forall>w b. wst s w \<noteq> Some (sugar iid n, b)" 
    using assms(2) desugar_sugar[OF assms(5,6), of iid] unfolding own_writer_def by fastforce
  then obtain f s' where c: "op_create S s (sugar iid n) = (Inr f, s')" "sinv s'" "cont s' = cont s" "wst s' = (wst s)(f \<mapsto> (sugar iid n, []))" "wst s f = None"
    using create_ok[OF assms(1,3,4)] by auto
  have fr: "ext (cont s, wst s) (cont s', wst s') iid" unfolding c(3,4) using assms(5,6) c(5) by (intro ext_open)
  let ?w = "bag_NewWriter (trim_suffix iid ''.zip'')"
  have "bag_wf (e_H E) (bun_tags iid n ?w) (datafiles [])" "bag_dirname (bw_t (bun_tags iid n ?w)) = trim_suffix iid ''.zip'' @ ''/''"
    using bag_wf_New[of "e_H E"] by (simp_all add: bun_tags_def) (simp add: bag_NewWriter_def)
  moreover have "own_writer (wst s') iid (Some f)" using assms(2) c(4) by (auto simp: own_writer_def split: if_splits)
  ultimately show thesis using c fr assms(4) by (intro that[of f s']) (auto simp: OpenZipWriter_def E_S open_bag_def)
qed

lemma bun_Close_writing:
  assumes "sinv s" and w: "writing (e_H E) (e_Z E) (cont s) (wst s) iid item bw B X R L" and f: "files_ok (live_at item (bun_n bw - 1)) B {} L"
    and iid: "id_ok okkey iid" and n: "bun_n bw \<le> 2 ^ 63"
  obtains s' b where "bun_Close E now s bw item' = (None, s', bw\<lparr>bun_zw := None\<rparr>)" and "sinv s'"
    and "closed (e_H E) (e_Z E) (cont s') (wst s') iid item B X R (bun_n bw - 1)" and "ext (cont s, wst s) (cont s', wst s') iid"
    and "cont s' (sugar iid (bun_n bw - 1)) = Some b"
    and "is_bundle (e_H E) (e_Z E) b (L @ [(''item-info.json'', writeItemInfo (e_J E) item')])"
proof -
  let ?m = "bun_n bw - 1"
  from w have ob: "open_bag (e_H E) (cont s) (wst s) iid bw L" and bo: "bundles_ok (e_H E) (e_Z E) (cont s) iid item B X R (bun_n bw - 2)"
    and n2: "2 \<le> bun_n bw" by (simp_all add: writing_def)
  from iid have slash: "CHR ''/'' \<notin> set (trim_suffix iid ''.zip'')" by (simp add: id_ok_def)
  obtain s' b where c: "bun_Close E now s bw item' = (None, s', bw\<lparr>bun_zw := None\<rparr>)" "sinv s'"
      "cont s' = (cont s)(sugar iid ?m \<mapsto> b)" "own_writer (wst s') iid None"
      "\<exists>f. wst s f = Some (sugar iid ?m, []) \<and> wst s' = (wst s)(f := None)"
      "is_bundle (e_H E) (e_Z E) b (L @ [(''item-info.json'', writeItemInfo (e_J E) item')])"
    using bun_Close_open[OF assms(1) ob slash] by blast
  have "files_ok (live_at item ?m) B (X ?m) (L @ [(''item-info.json'', writeItemInfo (e_J E) item')])"
    by (rule files_ok_info[OF files_ok_mono[OF f]])
  with bundles_ok_put[OF bo c(6)] n2 have "bundles_ok (e_H E) (e_Z E) (cont s') iid item B X R ?m" by (simp add: c(3))
  moreover have "blob_Bundle b' \<le> ?m \<and> cont s' (sugar iid (blob_Bundle b')) \<noteq> None"
    if "b' \<in> set (item_Blobs item)" "blob_Bundle b' \<noteq> 0" for b'
  proof -
    have "blob_Bundle b' \<le> ?m" "blob_Bundle b' \<noteq> ?m \<longrightarrow> cont s (sugar iid (blob_Bundle b')) \<noteq> None"
      using w that by (auto simp: writing_def blobs_stored_def)
    then show ?thesis by (cases "blob_Bundle b' = ?m") (simp_all add: c(3))
  qed
  ultimately have "closed (e_H E) (e_Z E) (cont s') (wst s') iid item B X R ?m"
    using w c(4) by (simp add: closed_def writing_def)
  moreover have "ext (cont s, wst s) (cont s', wst s') iid" 
  proof -
    obtain f where f: "wst s f = Some (sugar iid ?m, [])" "wst s' = (wst s)(f := None)" using c(5) by blast
    from n n2 have "0 \<le> ?m" "int64_ok ?m" by (simp_all add: int64_ok_def)
    moreover have "cont s (sugar iid ?m) = None" using ob unfolding open_bag_def by blast
    ultimately show ?thesis unfolding c(3) f(2) using f(1) by (intro ext_put)
  qed
  ultimately show thesis using c by (intro that[of s' b]) auto
qed

lemma bun_Next_closed:
  assumes "sinv s" and c: "closed (e_H E) (e_Z E) (cont s) (wst s) iid item B X R hi" and "bun_zw bw = None" and "bun_n bw = hi + 1"
    and iid: "id_ok okkey iid" and hi: "0 \<le> hi" "hi + 1 < 2 ^ 63"
  obtains s' bw' where "bun_Next E now s bw item = (None, s', bw')" and "sinv s'"
    and "writing (e_H E) (e_Z E) (cont s') (wst s') iid item bw' B X R []" and "files_ok (live_at item (bun_n bw' - 1)) B {} []"
    and "ext (cont s, wst s) (cont s', wst s') iid" and "bun_n bw' = bun_n bw + 1" and "bun_size bw' = 0"
proof -
  have n: "0 \<le> hi + 1" "int64_ok (hi + 1)" using hi by (simp_all add: int64_ok_def)
  have ok: "okkey (sugar iid (hi + 1))" using iid n by (simp add: id_ok_def)
  from c have cc: "item_ID item = iid" "item_ok (e_H E) B item" "own_writer (wst s) iid None"
      "bundles_ok (e_H E) (e_Z E) (cont s) iid item B X R hi"
      "\<forall>b \<in> set (item_Blobs item). blob_Bundle b \<noteq> 0 \<longrightarrow> blob_Bundle b \<le> hi \<and> cont s (sugar iid (blob_Bundle b)) \<noteq> None"
    by (simp_all add: closed_def)
  have new: "cont s (sugar iid (hi + 1)) = None" using bundles_ok_bound[OF cc(4) _ n] hi by simp
  obtain f s' where o: "OpenZipWriter E s iid (hi + 1) = (Inr (f, bag_NewWriter (trim_suffix iid ''.zip'')), s')" "sinv s'" "cont s' = cont s"
    "ext (cont s, wst s) (cont s', wst s') iid"
    "open_bag (e_H E) (cont s') (wst s') iid
       (bw\<lparr>bun_zw := Some (f, bun_tags iid (hi + 1) (bag_NewWriter (trim_suffix iid ''.zip''))), bun_n := hi + 1 + 1, bun_size := 0\<rparr>) []"
    by (rule bun_open_next[OF assms(1) cc(3) ok new n])
  let ?bw = "bw\<lparr>bun_zw := Some (f, bun_tags iid (hi + 1) (bag_NewWriter (trim_suffix iid ''.zip''))), bun_n := hi + 1 + 1, bun_size := 0\<rparr>"
  have "bun_Next E now s bw item = (None, s', ?bw)" using o(1) by (simp add: bun_Next_def bun_Close_def assms(3,4) cc(1))
  moreover have "writing (e_H E) (e_Z E) (cont s') (wst s') iid item ?bw B X R []"
    using cc o(3,5) hi(1) by (auto simp: writing_def blobs_stored_def)
  moreover have "live_at item (bun_n ?bw - 1) = {}" using cc(5) hi by (force simp: live_at_def)
  ultimately show thesis using o(2,4) assms(4) by (intro that[of s' ?bw]) (simp_all only: files_ok_def, simp_all)
qed

lemma bun_Next_writing:
  assumes "sinv s" and w: "writing (e_H E) (e_Z E) (cont s) (wst s) iid item bw B X R L" and f: "files_ok (live_at item (bun_n bw - 1)) B {} L"
    and iid: "id_ok okkey iid" and n: "bun_n bw < 2 ^ 63"
  obtains s' bw' where "bun_Next E now s bw item = (None, s', bw')" and "sinv s'"
    and "writing (e_H E) (e_Z E) (cont s') (wst s') iid item bw' B X R []" and "files_ok (live_at item (bun_n bw' - 1)) B {} []"
    and "ext (cont s, wst s) (cont s', wst s') iid" and "bun_n bw' = bun_n bw + 1" and "bun_size bw' = 0"
proof -
  obtain s1 where c: "bun_Close E now s bw item = (None, s1, bw\<lparr>bun_zw := None\<rparr>)" "sinv s1"
      "closed (e_H E) (e_Z E) (cont s1) (wst s1) iid item B X R (bun_n bw - 1)" "ext (cont s, wst s) (cont s1, wst s1) iid"
    using bun_Close_writing[OF assms(1-4)] n by (metis less_imp_le)
  let ?bw = "bw\<lparr>bun_zw := None\<rparr>"
  have n2: "2 \<le> bun_n bw" using w by (simp add: writing_def)
  obtain s2 bw' where "bun_Next E now s1 ?bw item = (None, s2, bw')" "sinv s2"
    "writing (e_H E) (e_Z E) (cont s2) (wst s2) iid item bw' B X R []" "files_ok (live_at item (bun_n bw' - 1)) B {} []"
    "ext (cont s1, wst s1) (cont s2, wst s2) iid" "bun_n bw' = bun_n ?bw + 1" "bun_size bw' = 0"
    by (rule bun_Next_closed[OF c(2,3) _ _ iid, of ?bw]) (use n n2 in simp_all)
  moreover have "bun_Next E now s bw item = bun_Next E now s1 ?bw item"
    by (simp add: bun_Next_def c(1))
  ultimately show thesis using ext_trans[OF c(4)] by (intro that[of s2 bw']) simp_all
qed

text \<open>A blob is written into the bundle that is open, or into the next one.\<close>

lemma bun_WriteBlob_here:
  assumes w: "writing (e_H E) (e_Z E) (cont s) (wst s) iid item bw B X R L" and f: "files_ok (live_at item (bun_n bw - 1)) B {} L"
    and i: "int64_ok i" "i \<notin> live_at item (bun_n bw - 1)" and sz: "bun_size bw < IdealBundleSize"
  obtains bw' where "bun_WriteBlob E now s bw item i (c, e) = ((blob_results (e_H E) c (bun_n bw' - 1), e), s, bw')"
    and "writing (e_H E) (e_Z E) (cont s) (wst s) iid item bw' B X R (L @ [(blob_name i, c)])" and "bun_n bw' = bun_n bw"
proof -
  obtain g w where ob: "bun_zw bw = Some (g, w)" "wst s g = Some (sugar iid (bun_n bw - 1), [])" "own_writer (wst s) iid (Some g)"
      "cont s (sugar iid (bun_n bw - 1)) = None" "bag_wf (e_H E) w (datafiles L)" "bag_dirname (bw_t w) = trim_suffix iid ''.zip'' @ ''/''"
      "\<forall>f \<in> set L. name_ok (''data/'' @ fst f)" "''item-info.json'' \<notin> fst ` set L"
    using w by (auto simp: writing_def open_bag_def)
  have "blob_name i \<notin> fst ` set L"
  proof
    assume "blob_name i \<in> fst ` set L"
    then obtain c' where "(blob_name i, c') \<in> set L" by auto
    with f obtain j where "int64_ok j" "blob_name i = blob_name j" "j \<in> live_at item (bun_n bw - 1)"
      by (auto simp: files_ok_def)
    with i blob_name_inj show False by blast
  qed
  from bag_Create_wf[OF ob(5) this, of c]
  have wf: "bag_wf (e_H E) (countWriter_Write (bag_Create (e_H E) w (blob_name i)) c) (datafiles L @ [(''data/'' @ blob_name i, c)])" by simp
  let ?w3 = "bag_Checksum (e_H E) (countWriter_Write (bag_Create (e_H E) w (blob_name i)) c)"
  let ?bw = "bw\<lparr>bun_zw := Some (g, ?w3), bun_size := bun_size bw + int (length c)\<rparr>"
  note ck = bag_Checksum_current[OF wf]
  have "bun_WriteBlob E now s bw item i (c, e) = ((blob_results (e_H E) c (bun_n ?bw - 1), e), s, ?bw)"
    using sz by (simp add: bun_WriteBlob_def ob(1) zw_MakeStream_def ck(2) blob_results_def file_checksum_def)
  moreover have "open_bag (e_H E) (cont s) (wst s) iid ?bw (L @ [(blob_name i, c)])"
    using ob ck(1) name_ok_blob[OF i(1)] by (auto simp: open_bag_def)
  then have "writing (e_H E) (e_Z E) (cont s) (wst s) iid item ?bw B X R (L @ [(blob_name i, c)])"
    using w by (simp add: writing_def)
  ultimately show thesis by (intro that[of ?bw]) simp_all
qed

lemma bun_WriteBlob_writing:
  assumes "sinv s" and w: "writing (e_H E) (e_Z E) (cont s) (wst s) iid item bw B X R L" and f: "files_ok (live_at item (bun_n bw - 1)) B {} L"
    and iid: "id_ok okkey iid" and n: "bun_n bw < 2 ^ 63" and i: "int64_ok i" "i \<notin> live_at item (bun_n bw - 1)"
  obtains s' bw' L' where "bun_WriteBlob E now s bw item i (c, e) = ((blob_results (e_H E) c (bun_n bw' - 1), e), s', bw')" and "sinv s'"
    and "writing (e_H E) (e_Z E) (cont s') (wst s') iid item bw' B X R (L' @ [(blob_name i, c)])"
    and "files_ok (live_at item (bun_n bw' - 1)) B {} L'" and "i \<notin> live_at item (bun_n bw' - 1)"
    and "ext (cont s, wst s) (cont s', wst s') iid" and "bun_n bw \<le> bun_n bw'" and "bun_n bw' \<le> bun_n bw + 1"
proof (cases "bun_size bw < IdealBundleSize")
  case True
  from bun_WriteBlob_here[OF w f i True, of now c e] obtain bw'
    where "bun_WriteBlob E now s bw item i (c, e) = ((blob_results (e_H E) c (bun_n bw' - 1), e), s, bw')"
    "writing (e_H E) (e_Z E) (cont s) (wst s) iid item bw' B X R (L @ [(blob_name i, c)])" "bun_n bw' = bun_n bw" by blast
  with assms(1) f i show thesis by (intro that[of bw' s L]) simp_all
next
  case False
  from bun_Next_writing[OF assms(1) w f iid n, of now] obtain s1 bw1 where nx: "bun_Next E now s bw item = (None, s1, bw1)" "sinv s1"
    "writing (e_H E) (e_Z E) (cont s1) (wst s1) iid item bw1 B X R []" "files_ok (live_at item (bun_n bw1 - 1)) B {} []"
    "ext (cont s, wst s) (cont s1, wst s1) iid" "bun_n bw1 = bun_n bw + 1" "bun_size bw1 = 0" by blast
  have fresh: "i \<notin> live_at item (bun_n bw1 - 1)" using nx(4) by (auto simp: files_ok_def)
  have sz: "bun_size bw1 < IdealBundleSize" by (simp add: nx(7) IdealBundleSize_def)
  obtain f1 w1 where zw: "bun_zw bw1 = Some (f1, w1)" using nx(3) by (auto simp: writing_def open_bag_def)
  from bun_WriteBlob_here[OF nx(3,4) i(1) fresh sz, of now c e] obtain bw'
    where wb: "bun_WriteBlob E now s1 bw1 item i (c, e) = ((blob_results (e_H E) c (bun_n bw' - 1), e), s1, bw')"
    "writing (e_H E) (e_Z E) (cont s1) (wst s1) iid item bw' B X R ([] @ [(blob_name i, c)])" "bun_n bw' = bun_n bw1" by blast
  have "bun_WriteBlob E now s bw item i (c, e) = bun_WriteBlob E now s1 bw1 item i (c, e)"
    using False sz zw by (simp add: bun_WriteBlob_def nx(1))
  with wb nx fresh show thesis by (intro that[of bw' s1 "[]"]) simp_all
qed

end

end
