(* ===== verification/Item_Session.thy ===== *)
theory Item_Session
  imports Items_Correct
begin

text \<open>
  Sessions of an item writer: the item is opened, operations are performed and the writer is closed. The
  specification of an item is the list of the contents of its blobs (none when the blob has been deleted)
  and the list of the slot tables of its versions. A session refines the obvious operation on it, and what it
  stores is found again by any later reader.
\<close>

section \<open>Sessions\<close>

datatype item_op =
    WBlob bytes int bytes bytes
  | WSlot string int
  | WClear
  | WMime int string
  | WDelete int
  | WNote string
  | WCreator string

fun item_step ::
  "('s, 'w, 'c) item_env \<Rightarrow> time \<Rightarrow> item_op \<Rightarrow> ('s, 'c) item_store \<times> 'w item_writer \<Rightarrow> ('s, 'c) item_store \<times> 'w item_writer" where
  "item_step E now (WBlob c sz md5 sha256) (st, wr) = snd (Writer_WriteBlob E now st wr (c, None) sz md5 sha256)"
| "item_step E now (WSlot s b) (st, wr) = (st, SetSlot wr s b)"
| "item_step E now WClear (st, wr) = (st, ClearSlots wr)"
| "item_step E now (WMime b m) (st, wr) = (st, wr_SetMimeType wr b m)"
| "item_step E now (WDelete b) (st, wr) = (st, DeleteBlob wr b)"
| "item_step E now (WNote s) (st, wr) = (st, SetNote wr s)"
| "item_step E now (WCreator s) (st, wr) = (st, wr_SetCreator wr s)"

text \<open>A session gives the error, the new state and the item as it was saved.\<close>

definition item_session ::
  "('s, 'w, 'c) item_env \<Rightarrow> time \<Rightarrow> ('s, 'c) item_store \<Rightarrow> string \<Rightarrow> string \<Rightarrow> item_op list \<Rightarrow> error option \<times> ('s, 'c) item_store \<times> item option" where
  "item_session E now st iid creator ops =
     (case items_Open E now st iid creator of
        (Inl e, st1) \<Rightarrow> (Some e, st1, None)
      | (Inr wr, st1) \<Rightarrow>
          (let (st2, wr2) = fold (item_step E now) ops (st1, wr);
               (err, st3, wr3) = Writer_Close E now st2 wr2
           in (err, st3, Some (wr_item wr3))))"

section \<open>The specification\<close>

type_synonym aitem = "bytes option list \<times> (string, int) gomap list"
type_synonym adraft = "bytes option list \<times> (string, int) gomap \<times> int list"

definition spec_match :: "hashes \<Rightarrow> int \<Rightarrow> bytes \<Rightarrow> bytes \<Rightarrow> bytes option \<Rightarrow> bool" where
  "spec_match H sz md5 sha256 x =
     (case x of None \<Rightarrow> False
      | Some d \<Rightarrow> int (length d) = sz \<and> (md5 = [] \<or> md5 = h_md5 H d) \<and> (sha256 = [] \<or> sha256 = h_sha256 H d))"

text \<open>A blob whose size and sums are those of one in the item is not added again.\<close>

definition spec_known :: "hashes \<Rightarrow> bytes option list \<Rightarrow> int \<Rightarrow> bytes \<Rightarrow> bytes \<Rightarrow> bool" where
  "spec_known H cs sz md5 sha256 = (sz \<noteq> 0 \<and> (md5 \<noteq> [] \<or> sha256 \<noteq> []) \<and> (\<exists>x \<in> set cs. spec_match H sz md5 sha256 x))"

fun spec_step :: "hashes \<Rightarrow> item_op \<Rightarrow> adraft \<Rightarrow> adraft" where
  "spec_step H (WBlob c sz md5 sha256) (cs, slots, dels) =
     (if spec_known H cs sz md5 sha256 then cs else cs @ [Some c], slots, dels)"
| "spec_step H (WSlot s b) (cs, slots, dels) = (cs, if b = 0 then gdel s slots else gset s b slots, dels)"
| "spec_step H WClear (cs, slots, dels) = (cs, [], dels)"
| "spec_step H (WDelete b) (cs, slots, dels) = (cs, slots, dels @ [b])"
| "spec_step H _ d = d"

definition spec_kill :: "int list \<Rightarrow> bytes option list \<Rightarrow> bytes option list" where
  "spec_kill dels cs = map (\<lambda>i. if int i + 1 \<in> set dels then None else cs ! i) [0..<length cs]"

definition spec_open :: "aitem \<Rightarrow> adraft" where
  "spec_open a = (fst a, if snd a = [] then [] else last (snd a), [])"

definition spec_session :: "hashes \<Rightarrow> item_op list \<Rightarrow> aitem \<Rightarrow> aitem" where
  "spec_session H ops a = (let (cs, slots, dels) = fold (spec_step H) ops (spec_open a) in (spec_kill dels cs, snd a @ [slots]))"

section \<open>Items and their specification\<close>

definition abs_blob :: "(int \<Rightarrow> bytes) \<Rightarrow> blob \<Rightarrow> bytes option" where
  "abs_blob B b = (if blob_Bundle b = 0 then None else Some (B (blob_ID b)))"

definition ids_ok :: "item \<Rightarrow> bool" where
  "ids_ok item = (map blob_ID (item_Blobs item) = map (\<lambda>i. int i + 1) [0..<length (item_Blobs item)] \<and>
     map ver_ID (item_Versions item) = map (\<lambda>i. int i + 1) [0..<length (item_Versions item)])"

definition abs_item :: "(int \<Rightarrow> bytes) \<Rightarrow> item \<Rightarrow> aitem" where
  "abs_item B item = (map (abs_blob B) (item_Blobs item), map ver_Slots (item_Versions item))"

lemma ids_nth: "ids_ok item \<Longrightarrow> j < length (item_Blobs item) \<Longrightarrow> blob_ID (item_Blobs item ! j) = int j + 1"
  unfolding ids_ok_def by (metis (no_types, lifting) add_0 diff_zero length_upt nth_map nth_upt)

lemma ids_sorted:
  assumes "map blob_ID bs = map (\<lambda>i. int i + 1) [0..<length bs]"
  shows "sorted_wrt (<) (map blob_ID bs)"
  unfolding assms by (auto simp: sorted_wrt_map sorted_wrt_upt intro: sorted_wrt_mono_rel[OF _ sorted_wrt_upt])

lemma ids_blobByID:
  assumes "ids_ok item" and "item_ok H B item"
  shows "blobByID item i = (if 1 \<le> i \<and> i \<le> int (length (item_Blobs item)) then Some (item_Blobs item ! nat (i - 1)) else None)"
proof (cases "1 \<le> i \<and> i \<le> int (length (item_Blobs item))")
  case True
  then have j: "nat (i - 1) < length (item_Blobs item)" by auto
  have "blob_ID (item_Blobs item ! nat (i - 1)) = i" using ids_nth[OF assms(1) j] True by simp
  with j True show ?thesis using blobByID_Some[OF assms(2)] by simp
next
  case False
  have "blob_ID b \<noteq> i" if b: "b \<in> set (item_Blobs item)" for b
  proof -
    obtain j where "j < length (item_Blobs item)" "b = item_Blobs item ! j" using b by (auto simp: in_set_conv_nth)
    then show ?thesis using ids_nth[OF assms(1)] False by auto
  qed
  with False show ?thesis using blobByID_None[of item i] by auto
qed

lemma abs_blob_core: "blob_core b' = blob_core b \<Longrightarrow> abs_blob B b' = abs_blob B b"
  by (simp add: blob_core_def abs_blob_def)

lemma abs_blobs_core:
  assumes "map blob_core bs' = map blob_core bs"
  shows "map (abs_blob B) bs' = map (abs_blob B) bs"
proof -
  have "map (abs_blob B) x = map (\<lambda>(i, m, t). if m = 0 then None else Some (B i)) (map blob_core x)" for x
    by (simp add: abs_blob_def blob_core_def)
  then show ?thesis by (simp only: assms)
qed

text \<open>Looking for a known blob in the metadata is looking for it in the specification.\<close>

lemma findBlobByHash_spec:
  assumes "item_ok H B item" and "hashes_ok H"
  shows "(findBlobByHash item sz md5 sha256 \<noteq> 0) = spec_known H (map (abs_blob B) (item_Blobs item)) sz md5 sha256"
proof -
  let ?P = "\<lambda>b. blob_Size b = sz \<and> (length md5 = 0 \<or> md5 = blob_MD5 b) \<and> (length sha256 = 0 \<or> sha256 = blob_SHA256 b)"
  have eq: "?P b = spec_match H sz md5 sha256 (abs_blob B b)" if "b \<in> set (item_Blobs item)" "sz \<noteq> 0" for b
    using assms(1) that by (auto simp: item_ok_def blob_ok_def abs_blob_def spec_match_def)
  have pos: "blob_ID b \<noteq> 0" if "b \<in> set (item_Blobs item)" for b using assms(1) that by (auto simp: item_ok_def blob_ok_def)
  show ?thesis
  proof (cases "sz = 0 \<or> (length md5 = 0 \<and> length sha256 = 0)")
    case True
    then show ?thesis by (auto simp: findBlobByHash_def spec_known_def)
  next
    case False
    then have f: "findBlobByHash item sz md5 sha256 = (case find ?P (item_Blobs item) of None \<Rightarrow> 0 | Some b \<Rightarrow> blob_ID b)"
      by (simp only: findBlobByHash_def if_False)
    have k: "spec_known H (map (abs_blob B) (item_Blobs item)) sz md5 sha256 = (\<exists>b \<in> set (item_Blobs item). ?P b)"
      using False eq by (auto simp: spec_known_def)
    show ?thesis
    proof (cases "find ?P (item_Blobs item)")
      case None
      with f have "findBlobByHash item sz md5 sha256 = 0" by simp
      moreover have "\<not> (\<exists>b \<in> set (item_Blobs item). ?P b)" using None unfolding find_None_iff by blast
      ultimately show ?thesis using k by blast
    next
      case (Some b)
      with f have "findBlobByHash item sz md5 sha256 = blob_ID b" by simp
      moreover have b: "b \<in> set (item_Blobs item)" "?P b" using Some unfolding find_Some_iff by (metis nth_mem)+
      ultimately show ?thesis using k pos[OF b(1)] by metis
    qed
  qed
qed

section \<open>The state of a writer\<close>

text \<open>The writer stands for the draft \<open>d\<close>; the first \<open>K\<close> blobs are those the item had, in bundles up to \<open>N\<close>.\<close>

definition wr_rel ::
  "hashes \<Rightarrow> zipc \<Rightarrow> (string \<Rightarrow> bytes option) \<Rightarrow> ('w \<Rightarrow> (string \<times> bytes) option) \<Rightarrow> string \<Rightarrow> 'w item_writer \<Rightarrow> (int \<Rightarrow> bytes) \<Rightarrow>
     adraft \<Rightarrow> int \<Rightarrow> nat \<Rightarrow> version list \<Rightarrow> bool" where
  "wr_rel H Z c ws iid wr B d N K vs =
     ((\<exists>L. writing H Z c ws iid (wr_item wr) (wr_bw wr) B (\<lambda>_. {}) {} L \<and>
           files_ok (live_at (wr_item wr) (bun_n (wr_bw wr) - 1)) B {} L) \<and>
      map blob_ID (item_Blobs (wr_item wr)) = map (\<lambda>i. int i + 1) [0..<length (item_Blobs (wr_item wr))] \<and>
      map (abs_blob B) (item_Blobs (wr_item wr)) = fst d \<and> ver_Slots (wr_version wr) = fst (snd d) \<and>
      wr_del wr = snd (snd d) \<and> wr_bdel wr = [] \<and>
      (wr_bnext wr = 0 \<or> wr_bnext wr = int (length (item_Blobs (wr_item wr))) + 1) \<and>
      item_Versions (wr_item wr) = vs \<and> ver_ID (wr_version wr) = int (length vs) + 1 \<and>
      N + 2 \<le> bun_n (wr_bw wr) \<and> K \<le> length (item_Blobs (wr_item wr)) \<and>
      (\<forall>j < K. blob_Bundle (item_Blobs (wr_item wr) ! j) \<le> N))"

lemma nextid_rel:
  assumes "map blob_ID (item_Blobs (wr_item wr)) = map (\<lambda>i. int i + 1) [0..<length (item_Blobs (wr_item wr))]"
    and "wr_bnext wr = 0 \<or> wr_bnext wr = int (length (item_Blobs (wr_item wr))) + 1"
  shows "wr_nextid wr = int (length (item_Blobs (wr_item wr))) + 1"
proof -
  let ?bs = "item_Blobs (wr_item wr)"
  have "blob_ID (last ?bs) = int (length ?bs)" if "?bs \<noteq> []"
  proof -
    have "blob_ID (last ?bs) = last (map (\<lambda>i. int i + 1) [0..<length ?bs])" using that assms(1) by (metis last_map)
    also have "\<dots> = int (length ?bs)" using that by (cases "length ?bs") auto
    finally show ?thesis .
  qed
  with assms(2) show ?thesis by (auto simp: wr_nextid_def)
qed

lemma ids_less:
  assumes "map blob_ID bs = map (\<lambda>i. int i + 1) [0..<length bs]" and "b \<in> set bs"
  shows "1 \<le> blob_ID b \<and> blob_ID b \<le> int (length bs)"
proof -
  have "blob_ID b \<in> set (map (\<lambda>i. int i + 1) [0..<length bs])" using assms by (metis image_eqI set_map)
  then show ?thesis by auto
qed

lemma core_nth:
  assumes "map blob_core bs' = map blob_core bs" and "j < length bs"
  shows "blob_Bundle (bs' ! j) = blob_Bundle (bs ! j)"
proof -
  have "length bs' = length bs" using assms(1) by (rule map_eq_imp_length_eq)
  with assms have "blob_core (bs' ! j) = blob_core (bs ! j)" by (metis nth_map)
  then show ?thesis by (simp add: blob_core_def)
qed

text \<open>Operations that only change the version, the list of deletions or the mime type of a blob.\<close>

lemma wr_rel_core:
  assumes rel: "wr_rel H Z c ws iid wr B d N K vs" and core: "map blob_core (item_Blobs (wr_item wr')) = map blob_core (item_Blobs (wr_item wr))"
    and same: "item_ID (wr_item wr') = item_ID (wr_item wr)" "item_Versions (wr_item wr') = item_Versions (wr_item wr)" "wr_bw wr' = wr_bw wr"
      "wr_bnext wr' = wr_bnext wr" "wr_bdel wr' = wr_bdel wr" "ver_ID (wr_version wr') = ver_ID (wr_version wr)"
    and d: "fst d' = fst d" "ver_Slots (wr_version wr') = fst (snd d')" "wr_del wr' = snd (snd d')"
  shows "wr_rel H Z c ws iid wr' B d' N K vs"
proof -
  have len: "length (item_Blobs (wr_item wr')) = length (item_Blobs (wr_item wr))" using core by (rule map_eq_imp_length_eq)
  note R = rel[unfolded wr_rel_def]
  from R obtain L where L: "writing H Z c ws iid (wr_item wr) (wr_bw wr) B (\<lambda>_. {}) {} L"
    "files_ok (live_at (wr_item wr) (bun_n (wr_bw wr) - 1)) B {} L" by blast
  from writing_core[OF core same(1) L(1)] L(2) core_live[OF core]
  have "\<exists>L. writing H Z c ws iid (wr_item wr') (wr_bw wr') B (\<lambda>_. {}) {} L \<and>
      files_ok (live_at (wr_item wr') (bun_n (wr_bw wr') - 1)) B {} L" by (auto simp: same)
  moreover have "\<forall>j < K. blob_Bundle (item_Blobs (wr_item wr') ! j) \<le> N" using R core_nth[OF core] by auto
  ultimately show ?thesis
    unfolding wr_rel_def using R by (simp add: same d len core_IDs[OF core] abs_blobs_core[OF core])
qed

lemma mime_core: "map blob_core (upd_blob b (\<lambda>b. b\<lparr>blob_MimeType := m\<rparr>) bs) = map blob_core bs"
  by (induction bs) (auto simp: blob_core_def)

fun op_dels :: "item_op list \<Rightarrow> int list" where
  "op_dels [] = []"
| "op_dels (WDelete b # ops) = b # op_dels ops"
| "op_dels (op # ops) = op_dels ops"

context bundle_store
begin

lemma WriteBlob_rel:
  assumes "sinv (is_S st)" and rel: "wr_rel (e_H E) (e_Z E) (cont (is_S st)) (wst (is_S st)) iid wr B d N K vs"
    and iid: "id_ok okkey iid" and n: "bun_n (wr_bw wr) < 2 ^ 63" and len: "int (length (item_Blobs (wr_item wr))) + 1 < 2 ^ 63"
    and new: "findBlobByHash (wr_item wr) sz md5 sha256 = 0"
  obtains st' wr' where "snd (Writer_WriteBlob E now st wr (c, None) sz md5 sha256) = (st', wr')" and "sinv (is_S st')"
    and "wr_rel (e_H E) (e_Z E) (cont (is_S st')) (wst (is_S st')) iid wr' (B(wr_nextid wr := c)) (fst d @ [Some c], snd d) N K vs"
    and "ext (cont (is_S st), wst (is_S st)) (cont (is_S st'), wst (is_S st')) iid" and "bun_n (wr_bw wr') \<le> bun_n (wr_bw wr) + 1"
    and "length (item_Blobs (wr_item wr')) = length (item_Blobs (wr_item wr)) + 1" and "st' = st\<lparr>is_S := is_S st'\<rparr>"
    and "wr_version wr' = wr_version wr"
proof -
  let ?bs = "item_Blobs (wr_item wr)" and ?i = "wr_nextid wr"
  from rel obtain L where w: "writing (e_H E) (e_Z E) (cont (is_S st)) (wst (is_S st)) iid (wr_item wr) (wr_bw wr) B (\<lambda>_. {}) {} L"
      and f: "files_ok (live_at (wr_item wr) (bun_n (wr_bw wr) - 1)) B {} L"
      and ids: "map blob_ID ?bs = map (\<lambda>i. int i + 1) [0..<length ?bs]" and bnext: "wr_bnext wr = 0 \<or> wr_bnext wr = int (length ?bs) + 1"
    unfolding wr_rel_def by blast
  have i: "?i = int (length ?bs) + 1" by (rule nextid_rel[OF ids bnext])
  have fresh: "\<forall>b \<in> set ?bs. blob_ID b \<noteq> ?i" using ids_less[OF ids] i by fastforce
  have i64: "int64_ok ?i" using len i by (simp add: int64_ok_def)
  have "?i \<notin> live_at (wr_item wr) (bun_n (wr_bw wr) - 1)" using fresh by (auto simp: live_at_def)
  from bun_WriteBlob_writing[OF assms(1) w f iid n i64 this, of now c None]
  obtain s' bw' L' where wb: "bun_WriteBlob E now (is_S st) (wr_bw wr) (wr_item wr) ?i (c, None) = ((blob_results (e_H E) c (bun_n bw' - 1), None), s', bw')"
      "sinv s'" "writing (e_H E) (e_Z E) (cont s') (wst s') iid (wr_item wr) bw' B (\<lambda>_. {}) {} (L' @ [(blob_name ?i, c)])"
      "files_ok (live_at (wr_item wr) (bun_n bw' - 1)) B {} L'"
      "ext (cont (is_S st), wst (is_S st)) (cont s', wst s') iid" "bun_n (wr_bw wr) \<le> bun_n bw'" "bun_n bw' \<le> bun_n (wr_bw wr) + 1" by blast
  obtain b2 item1 wr' where out: "snd (Writer_WriteBlob E now st wr (c, None) sz md5 sha256) = (st\<lparr>is_S := s'\<rparr>, wr')"
      "wr' = wr\<lparr>wr_bnext := ?i + 1, wr_bw := bw', wr_item := item1\<rparr>"
      "item1 = (wr_item wr)\<lparr>item_Blobs := sort_key blob_ID (?bs @ [b2]), item_MaxBundle := CurrentBundle bw'\<rparr>"
      "blob_ID b2 = ?i" "blob_Bundle b2 = bun_n bw' - 1" "blob_Size b2 = int (length c)" "blob_MD5 b2 = h_md5 (e_H E) c"
      "blob_SHA256 b2 = h_sha256 (e_H E) c"
  proof -
    let ?res = "blob_results (e_H E) c (bun_n bw' - 1)"
    define b1 where "b1 = \<lparr>blob_ID = ?i, blob_SaveDate = now, blob_Creator = ver_Creator (wr_version wr),
        blob_Size = (if sz = 0 then int (length c) else sz), blob_Bundle = bun_n bw' - 1,
        blob_MD5 = (if length md5 = 0 then h_md5 (e_H E) c else md5), blob_SHA256 = (if length sha256 = 0 then h_sha256 (e_H E) c else sha256),
        blob_MimeType = '''', blob_DeleteDate = 0, blob_Deleter = '''', blob_DeleteNote = ''''\<rparr>"
    let ?verr = "ValidateWriteBlob (item_ID (wr_item wr)) b1 ?res"
    define b2 where "b2 = (if ?verr = None then b1 else b1\<lparr>blob_Size := int (length c), blob_MD5 := h_md5 (e_H E) c, blob_SHA256 := h_sha256 (e_H E) c\<rparr>)"
    have v: "blob_Size b1 = int (length c) \<and> blob_MD5 b1 = h_md5 (e_H E) c \<and> blob_SHA256 b1 = h_sha256 (e_H E) c" if "?verr = None"
      using that by (auto simp: ValidateWriteBlob_def testhash_def blob_results_def split: if_splits)
    show thesis
      by (rule that[of _ _ b2, OF _ refl refl])
         (use v in \<open>simp_all add: Writer_WriteBlob_def new wb(1) b1_def b2_def blob_results_def Let_def\<close>)
  qed
  have bs1: "item_Blobs item1 = ?bs @ [b2]"
  proof -
    have "sorted (map blob_ID (?bs @ [b2]))" using ids i by (simp add: out(4) sorted_append sorted_map sorted_wrt_map flip: upt_Suc_append)
    then show ?thesis by (simp add: out(3) sort_key_id_if_sorted)
  qed
  let ?B = "B(?i := c)"
  have ids1: "map blob_ID (item_Blobs item1) = map (\<lambda>i. int i + 1) [0..<length (item_Blobs item1)]"
    using ids i by (simp add: bs1 out(4))
  have sorted1: "sorted_wrt (<) (map blob_ID (item_Blobs item1))" using ids1 by (rule ids_sorted)
  have n2: "2 \<le> bun_n bw'" using wb(3) by (simp add: writing_def)
  have ok2: "blob_ok (e_H E) ?B b2" using i64 i n2 by (simp add: blob_ok_def out(4-8))
  have set1: "set (item_Blobs item1) = insert b2 (set ?bs)" by (simp add: bs1)
  have id1: "item_ID item1 = item_ID (wr_item wr)" by (simp add: out(3))
  note W = writing_add[OF wb(3,4) fresh out(4,5) ok2 set1 sorted1 id1]
  have abs1: "map (abs_blob ?B) (item_Blobs item1) = fst d @ [Some c]"
  proof -
    have "map (abs_blob ?B) ?bs = map (abs_blob B) ?bs" using fresh by (auto simp: abs_blob_def)
    moreover have "map (abs_blob B) ?bs = fst d" using rel unfolding wr_rel_def by blast
    moreover have "abs_blob ?B b2 = Some c" using n2 by (simp add: abs_blob_def out(4,5))
    ultimately show ?thesis by (simp add: bs1)
  qed
  have rest: "ver_Slots (wr_version wr) = fst (snd d)" "wr_del wr = snd (snd d)" "wr_bdel wr = []" "item_Versions (wr_item wr) = vs"
      "ver_ID (wr_version wr) = int (length vs) + 1" "N + 2 \<le> bun_n (wr_bw wr)" "K \<le> length ?bs" "\<forall>j < K. blob_Bundle (?bs ! j) \<le> N"
    using rel unfolding wr_rel_def by blast+
  have old: "\<forall>j < K. blob_Bundle (item_Blobs item1 ! j) \<le> N" using rest(7,8) by (simp add: bs1 nth_append)
  have "wr_rel (e_H E) (e_Z E) (cont s') (wst s') iid wr' ?B (fst d @ [Some c], snd d) N K vs"
    unfolding wr_rel_def using W abs1 ids1 rest old wb(6) i by (auto simp: out(2) bs1 out(3))
  then show thesis using out(1) wb(2,5,7) by (intro that[of "st\<lparr>is_S := s'\<rparr>" wr']) (simp_all add: out(2) bs1)
qed

lemma item_step_rel:
  assumes "sinv (is_S st)" and rel: "wr_rel (e_H E) (e_Z E) (cont (is_S st)) (wst (is_S st)) iid wr B d N K vs"
    and iid: "id_ok okkey iid" and n: "bun_n (wr_bw wr) < 2 ^ 63" and len: "int (length (item_Blobs (wr_item wr))) + 1 < 2 ^ 63"
  obtains st' wr' B' where "item_step E now op (st, wr) = (st', wr')" and "sinv (is_S st')"
    and "wr_rel (e_H E) (e_Z E) (cont (is_S st')) (wst (is_S st')) iid wr' B' (spec_step (e_H E) op d) N K vs"
    and "ext (cont (is_S st), wst (is_S st)) (cont (is_S st'), wst (is_S st')) iid" and "bun_n (wr_bw wr') \<le> bun_n (wr_bw wr) + 1"
    and "length (item_Blobs (wr_item wr')) \<le> length (item_Blobs (wr_item wr)) + 1" and "st' = st\<lparr>is_S := is_S st'\<rparr>"
proof (cases "\<exists>c sz md5 sha256. op = WBlob c sz md5 sha256")
  case True
  then obtain c sz md5 sha256 where op: "op = WBlob c sz md5 sha256" by blast
  have ok: "item_ok (e_H E) B (wr_item wr)" "map (abs_blob B) (item_Blobs (wr_item wr)) = fst d"
    using rel by (auto simp: wr_rel_def writing_def)
  note known = findBlobByHash_spec[OF ok(1) E_H, of sz md5 sha256, unfolded ok(2)]
  obtain cs sl dl where d: "d = (cs, sl, dl)" by (cases d)
  show thesis
  proof (cases "findBlobByHash (wr_item wr) sz md5 sha256 = 0")
    case True
    from WriteBlob_rel[OF assms True, of now c] obtain st' wr'
      where "snd (Writer_WriteBlob E now st wr (c, None) sz md5 sha256) = (st', wr')" "sinv (is_S st')"
        "wr_rel (e_H E) (e_Z E) (cont (is_S st')) (wst (is_S st')) iid wr' (B(wr_nextid wr := c)) (fst d @ [Some c], snd d) N K vs"
        "ext (cont (is_S st), wst (is_S st)) (cont (is_S st'), wst (is_S st')) iid" "bun_n (wr_bw wr') \<le> bun_n (wr_bw wr) + 1"
        "length (item_Blobs (wr_item wr')) = length (item_Blobs (wr_item wr)) + 1" "st' = st\<lparr>is_S := is_S st'\<rparr>" by blast
    then show thesis using True known by (intro that[of st' wr' "B(wr_nextid wr := c)"]) (simp_all add: op d)
  next
    case False
    then show thesis using assms known by (intro that[of st wr B]) (simp_all add: op d Writer_WriteBlob_def)
  qed
next
  case False
  obtain cs sl dl where d: "d = (cs, sl, dl)" by (cases d)
  obtain wr' where st: "item_step E now op (st, wr) = (st, wr')"
      "map blob_core (item_Blobs (wr_item wr')) = map blob_core (item_Blobs (wr_item wr))"
      "item_ID (wr_item wr') = item_ID (wr_item wr)" "item_Versions (wr_item wr') = item_Versions (wr_item wr)" "wr_bw wr' = wr_bw wr"
      "wr_bnext wr' = wr_bnext wr" "wr_bdel wr' = wr_bdel wr" "ver_ID (wr_version wr') = ver_ID (wr_version wr)"
      "fst (spec_step (e_H E) op d) = fst d" "ver_Slots (wr_version wr') = fst (snd (spec_step (e_H E) op d))" "wr_del wr' = snd (snd (spec_step (e_H E) op d))"
  proof -
    have "ver_Slots (wr_version wr) = sl" "wr_del wr = dl" using rel by (simp_all add: wr_rel_def d)
    then show thesis using False
      by (intro that[of "snd (item_step E now op (st, wr))"]; cases op)
        (auto simp: d SetSlot_def ClearSlots_def DeleteBlob_def SetNote_def wr_SetCreator_def wr_SetMimeType_def mime_core split: option.splits)
  qed
  from wr_rel_core[OF rel st(2-11)] have "wr_rel (e_H E) (e_Z E) (cont (is_S st)) (wst (is_S st)) iid wr' B (spec_step (e_H E) op d) N K vs" .
  moreover have "length (item_Blobs (wr_item wr')) = length (item_Blobs (wr_item wr))" using st(2) by (rule map_eq_imp_length_eq)
  ultimately show thesis using st(1,5) assms(1) by (intro that[of st wr' B]) simp_all
qed

end

end
