(* ===== verification/Item_Commit.thy ===== *)
theory Item_Commit
  imports Item_Session
begin

text \<open>
  Closing an item writer: deleted blobs are removed by copying the other blobs of their bundles into the
  open bundle, the metadata is saved in it, and the old bundles are deleted. With the
  sessions this gives the refinement of the item store, its validation and its isolation.
\<close>

section \<open>Marking the deleted blobs\<close>

definition Xof :: "(int, int list) gomap \<Rightarrow> int \<Rightarrow> int set" where
  "Xof bundles m = set (case gget bundles m of None \<Rightarrow> [] | Some l \<Rightarrow> l)"

lemma Xof_gset:
  "Xof (gset m ((case gget bundles m of None \<Rightarrow> [] | Some l \<Rightarrow> l) @ [i]) bundles) k = (if k = m then insert i (Xof bundles m) else Xof bundles k)"
  by (auto simp: Xof_def split: option.splits)

lemma files_ok_kill: "files_ok A B X L \<Longrightarrow> files_ok (A - {i}) B (insert i X) L"
  by (fastforce simp: files_ok_def)

definition kill_item :: "time \<Rightarrow> version \<Rightarrow> int \<Rightarrow> item \<Rightarrow> item" where
  "kill_item now v i item = item\<lparr>item_Blobs := upd_blob i (kill_blob now v) (item_Blobs item)\<rparr>"

lemma kill_live:
  assumes "item_ok H B item" and "b \<in> set (item_Blobs item)" and "blob_Bundle b \<noteq> 0" and "k \<noteq> 0"
  shows "live_at (kill_item now v (blob_ID b) item) k = live_at item k - (if k = blob_Bundle b then {blob_ID b} else {})"
proof -
  have sorted: "sorted_wrt (<) (map blob_ID (item_Blobs item))" using assms(1) by (simp add: item_ok_def)
  have "live_at (kill_item now v (blob_ID b) item) k = live_at (rebundle (blob_ID b) 0 item) k"
    unfolding kill_item_def rebundle_def upd_blob_map[OF sorted]
    by (subst (1 2) live_at_map) (auto simp: kill_blob_def intro!: arg_cong[where f = "image blob_ID"])
  then show ?thesis using rebundle_live[OF assms(1,2), of 0 k] assms(3,4) by simp
qed

lemma kill_ok:
  assumes "item_ok H B item" and "b \<in> set (item_Blobs item)"
  shows "item_ok H B (kill_item now v (blob_ID b) item)"
proof -
  have sorted: "sorted_wrt (<) (map blob_ID (item_Blobs item))" using assms(1) by (simp add: item_ok_def)
  have ok: "\<forall>b \<in> set (item_Blobs item). blob_ok H B b" using assms(1) by (simp add: item_ok_def)
  then have "\<forall>b' \<in> set (item_Blobs item). blob_ok H B (kill_blob now v b')" by (auto simp: blob_ok_def kill_blob_def)
  with ok sorted show ?thesis
    unfolding item_ok_def kill_item_def by (auto simp: upd_blob_IDs kill_blob_def) (auto simp: upd_blob_map[OF sorted] kill_blob_def)
qed

lemma kill_writing:
  assumes w: "writing H Z c ws iid item bw B X {} L" and f: "files_ok (live_at item (bun_n bw - 1)) B {} L"
    and b: "b \<in> set (item_Blobs item)" "blob_Bundle b \<noteq> 0" "blob_Bundle b \<le> bun_n bw - 2"
    and X': "\<And>k. X' k = (if k = blob_Bundle b then insert (blob_ID b) (X k) else X k)"
  shows "writing H Z c ws iid (kill_item now v (blob_ID b) item) bw B X' {} L"
    and "files_ok (live_at (kill_item now v (blob_ID b) item) (bun_n bw - 1)) B {} L"
proof -
  let ?item = "kill_item now v (blob_ID b) item"
  have ok: "item_ok H B item" and n2: "2 \<le> bun_n bw" using w by (simp_all add: writing_def)
  have sorted: "sorted_wrt (<) (map blob_ID (item_Blobs item))" using ok by (simp add: item_ok_def)
  note live = kill_live[OF ok b(1,2)]
  have "bundles_ok H Z c iid ?item B X' {} (bun_n bw - 2)"
  proof (rule bundles_ok_cong)
    show "bundles_ok H Z c iid item B X {} (bun_n bw - 2)" using w by (simp add: writing_def)
    fix m L assume "m \<notin> {}" "1 \<le> m" "m \<le> bun_n bw - 2"
    then show "m \<notin> {} \<and> (files_ok (live_at item m) B (X m) L \<longrightarrow> files_ok (live_at ?item m) B (X' m) L)"
      using live[of m] X'[of m] files_ok_kill by simp
  qed
  moreover have "blobs_stored c iid ?item (bun_n bw - 2)"
    using w by (auto simp: writing_def blobs_stored_def kill_item_def upd_blob_map[OF sorted] kill_blob_def)
  moreover have "item_ID ?item = item_ID item" by (simp add: kill_item_def)
  ultimately show "writing H Z c ws iid ?item bw B X' {} L" using w kill_ok[OF ok b(1)] by (simp add: writing_def)
  show "files_ok (live_at ?item (bun_n bw - 1)) B {} L" using live[of "bun_n bw - 1"] n2 b(3) f by auto
qed

lemma kill_abs:
  assumes "item_ok H B item"
  shows "map (abs_blob B) (item_Blobs (kill_item now v i item)) = map (\<lambda>b. if blob_ID b = i then None else abs_blob B b) (item_Blobs item)"
proof -
  have sorted: "sorted_wrt (<) (map blob_ID (item_Blobs item))" using assms by (simp add: item_ok_def)
  show ?thesis by (simp add: kill_item_def upd_blob_map[OF sorted] abs_blob_def kill_blob_def comp_def)
qed

definition srcs_ok :: "(string \<Rightarrow> bytes option) \<Rightarrow> string \<Rightarrow> int \<Rightarrow> (int, int list) gomap \<Rightarrow> bool" where
  "srcs_ok c iid hi bundles = (gmap_ok bundles \<and> (\<forall>m \<in> set (gkeys bundles). 1 \<le> m \<and> m \<le> hi \<and> c (sugar iid m) \<noteq> None))"

lemma gkeys_set: "set (gkeys (gset k v m)) = insert k (set (gkeys m))"
  by (auto simp: set_gkeys split: if_splits)

text \<open>The blobs to be removed from a bundle are no longer in it according to the metadata.\<close>

definition dead_ok :: "item \<Rightarrow> (int \<Rightarrow> int set) \<Rightarrow> bool" where
  "dead_ok item X = (\<forall>m. m \<noteq> 0 \<longrightarrow> X m \<inter> live_at item m = {} \<and> (\<forall>i \<in> X m. int64_ok i))"

lemma mark_deletes_writing:
  assumes "mark_deletes now v del item bundles = (item', bundles')"
    and "writing H Z c ws iid item bw B (Xof bundles) {} L" and "files_ok (live_at item (bun_n bw - 1)) B {} L"
    and "srcs_ok c iid (bun_n bw - 2) bundles" and "dead_ok item (Xof bundles)"
    and "\<forall>i \<in> set del. \<forall>b \<in> set (item_Blobs item). blob_ID b = i \<longrightarrow> blob_Bundle b \<le> bun_n bw - 2"
  shows "writing H Z c ws iid item' bw B (Xof bundles') {} L \<and> files_ok (live_at item' (bun_n bw - 1)) B {} L \<and>
    srcs_ok c iid (bun_n bw - 2) bundles' \<and> dead_ok item' (Xof bundles') \<and> map blob_ID (item_Blobs item') = map blob_ID (item_Blobs item) \<and> item_Versions item' = item_Versions item \<and>
    map (abs_blob B) (item_Blobs item') = map (\<lambda>b. if blob_ID b \<in> set del then None else abs_blob B b) (item_Blobs item)"
  using assms
proof (induction del arbitrary: item bundles)
  case (Cons i del)
  have ok: "item_ok H B item" using Cons.prems(2) by (simp add: writing_def)
  show ?case
  proof (cases "\<exists>b. blobByID item i = Some b \<and> blob_Bundle b \<noteq> 0")
    case False
    then have "mark_deletes now v (i # del) item bundles = mark_deletes now v del item bundles" by (auto split: option.splits)
    moreover have "abs_blob B b = None" if "b \<in> set (item_Blobs item)" "blob_ID b = i" for b
      using False that blobByID_Some[OF ok, of i b] by (auto simp: abs_blob_def)
    ultimately show ?thesis using Cons.IH[of item bundles] Cons.prems by auto
  next
    case True
    then obtain b where bid: "blobByID item i = Some b" and b: "b \<in> set (item_Blobs item)" "blob_ID b = i" "blob_Bundle b \<noteq> 0"
      using blobByID_Some[OF ok] by blast
    let ?item = "kill_item now v i item"
    let ?bun = "gset (blob_Bundle b) ((case gget bundles (blob_Bundle b) of None \<Rightarrow> [] | Some l \<Rightarrow> l) @ [i]) bundles"
    have step: "mark_deletes now v (i # del) item bundles = mark_deletes now v del ?item ?bun" using bid b(3) by (simp add: kill_item_def)
    have hi: "blob_Bundle b \<le> bun_n bw - 2" using Cons.prems(6) b by simp
    have X': "Xof ?bun k = (if k = blob_Bundle b then insert (blob_ID b) (Xof bundles k) else Xof bundles k)" for k by (simp add: Xof_gset b(2))
    note K = kill_writing[where now = now and v = v, OF Cons.prems(2,3) b(1,3) hi X', unfolded b(2)]
    have pos: "1 \<le> blob_Bundle b" using ok b(1,3) by (auto simp: item_ok_def blob_ok_def)
    have "c (sugar iid (blob_Bundle b)) \<noteq> None" using Cons.prems(2) b(1,3) hi by (auto simp: writing_def blobs_stored_def)
    then have so: "srcs_ok c iid (bun_n bw - 2) ?bun" using Cons.prems(4) pos hi by (auto simp: srcs_ok_def gkeys_set)
    have sorted: "sorted_wrt (<) (map blob_ID (item_Blobs item))" using ok by (simp add: item_ok_def)
    have n2: "2 \<le> bun_n bw" using Cons.prems(2) by (simp add: writing_def)
    have dels: "\<forall>i \<in> set del. \<forall>b \<in> set (item_Blobs ?item). blob_ID b = i \<longrightarrow> blob_Bundle b \<le> bun_n bw - 2"
      using Cons.prems(6) n2 by (auto simp: kill_item_def upd_blob_map[OF sorted] kill_blob_def)
    have ids: "map blob_ID (item_Blobs ?item) = map blob_ID (item_Blobs item)" by (simp add: kill_item_def upd_blob_IDs kill_blob_def)
    have "map (\<lambda>b. if blob_ID b \<in> set del then None else abs_blob B b) (item_Blobs ?item) =
        map (\<lambda>b. if blob_ID b \<in> set (i # del) then None else abs_blob B b) (item_Blobs item)"
      by (simp add: kill_item_def upd_blob_map[OF sorted] kill_blob_def abs_blob_def comp_def)
    moreover have "item_Versions ?item = item_Versions item" by (simp add: kill_item_def)
    moreover have "dead_ok ?item (Xof ?bun)"
      using Cons.prems(5) X' kill_live[OF ok b(1,3), of _ now v] ok b(1) unfolding dead_ok_def b(2) by (auto simp: item_ok_def blob_ok_def b(2))
    ultimately show ?thesis using Cons.IH[OF _ K so _ dels] Cons.prems(1) step ids by simp
  qed
qed (auto simp: Xof_def)

section \<open>Copying bundles\<close>

text \<open>The number of blobs in the bundles \<open>K\<close>: every copy makes it smaller.\<close>

definition pending :: "int set \<Rightarrow> item \<Rightarrow> nat" where
  "pending K item = length (filter (\<lambda>b. blob_Bundle b \<in> K) (item_Blobs item))"

lemma pending_rebundle:
  assumes "item_ok H B item" and "b \<in> set (item_Blobs item)" and "blob_Bundle b \<in> K" and "m \<notin> K"
  shows "pending K item = Suc (pending K (rebundle (blob_ID b) m item))"
proof -
  have aux: "length (filter (\<lambda>b. blob_Bundle b \<in> K) bs) = Suc (length (filter (\<lambda>b. blob_Bundle b \<in> K) (upd_blob (blob_ID b) (\<lambda>b. b\<lparr>blob_Bundle := m\<rparr>) bs)))"
    if "sorted_wrt (<) (map blob_ID bs)" "b \<in> set bs" for bs
    using that
  proof (induction bs)
    case (Cons x bs)
    show ?case
    proof (cases "x = b")
      case True
      with assms(3,4) show ?thesis by simp
    next
      case False
      with Cons.prems have "b \<in> set bs" "blob_ID x \<noteq> blob_ID b" by auto
      with Cons show ?thesis by simp
    qed
  qed simp
  have "sorted_wrt (<) (map blob_ID (item_Blobs item))" using assms(1) by (simp add: item_ok_def)
  from aux[OF this assms(2)] show ?thesis unfolding pending_def rebundle_def by simp
qed

lemma rebundle_simps:
  assumes "item_ok H B item"
  shows "map blob_ID (item_Blobs (rebundle i m item)) = map blob_ID (item_Blobs item)"
    and "item_Versions (rebundle i m item) = item_Versions item"
    and "b \<in> set (item_Blobs item) \<Longrightarrow> blob_ID b = i \<Longrightarrow> blob_Bundle b \<noteq> 0 \<Longrightarrow> m \<noteq> 0 \<Longrightarrow>
      map (abs_blob B') (item_Blobs (rebundle i m item)) = map (abs_blob B') (item_Blobs item)"
proof -
  have sorted: "sorted_wrt (<) (map blob_ID (item_Blobs item))" using assms by (simp add: item_ok_def)
  show "map blob_ID (item_Blobs (rebundle i m item)) = map blob_ID (item_Blobs item)" by (simp add: rebundle_def upd_blob_IDs)
  show "item_Versions (rebundle i m item) = item_Versions item" by (simp add: rebundle_def)
  assume b: "b \<in> set (item_Blobs item)" "blob_ID b = i" "blob_Bundle b \<noteq> 0" "m \<noteq> 0"
  have "\<forall>b' \<in> set (item_Blobs item). blob_ID b' = i \<longrightarrow> blob_Bundle b' \<noteq> 0" using item_ok_unique[OF assms _ b(1)] b(2,3) by metis
  with b(4) show "map (abs_blob B') (item_Blobs (rebundle i m item)) = map (abs_blob B') (item_Blobs item)"
    by (auto simp: rebundle_def upd_blob_map[OF sorted] abs_blob_def)
qed

text \<open>The invariant of the copying of the bundle \<open>src\<close>: the files \<open>fs\<close> are still to be copied.\<close>

definition copy_todo :: "item \<Rightarrow> int \<Rightarrow> string list \<Rightarrow> string list \<Rightarrow> bool" where
  "copy_todo item src badnames fs = (distinct fs \<and>
     (\<forall>fname \<in> set fs. fname \<notin> set badnames \<longrightarrow> (\<exists>i \<in> live_at item src. fname = blob_name i)) \<and>
     (\<forall>i \<in> live_at item src. blob_name i \<in> set fs \<and> blob_name i \<notin> set badnames))"

context bundle_store
begin

lemma copy_files_writing:
  assumes "sinv s" and "writing (e_H E) (e_Z E) (cont s) (wst s) iid item bw B X R L" and "files_ok (live_at item (bun_n bw - 1)) B {} L"
    and iid: "id_ok okkey iid" and n: "bun_n bw + int (pending K item) \<le> 2 ^ 63"
    and src: "src \<in> R" "src \<in> K" "1 \<le> src" "src \<le> bun_n bw - 2" and K: "\<forall>m \<in> K. m \<le> N" "N \<le> bun_n bw - 2"
    and opens: "\<And>i. i \<in> live_at item src \<Longrightarrow> bagr_Open r (blob_name i) = Inr (B i, None)"
    and todo: "copy_todo item src badnames fs"
  shows "\<exists>s' bw' item' L'. copy_files E now r badnames fs s bw item = (None, s', bw', item') \<and> sinv s' \<and>
    writing (e_H E) (e_Z E) (cont s') (wst s') iid item' bw' B X R L' \<and> files_ok (live_at item' (bun_n bw' - 1)) B {} L' \<and>
    ext (cont s, wst s) (cont s', wst s') iid \<and> live_at item' src = {} \<and> bun_n bw \<le> bun_n bw' \<and>
    bun_n bw' + int (pending K item') \<le> bun_n bw + int (pending K item) \<and>
    map blob_ID (item_Blobs item') = map blob_ID (item_Blobs item) \<and> item_Versions item' = item_Versions item \<and>
    map (abs_blob B) (item_Blobs item') = map (abs_blob B) (item_Blobs item) \<and>
    (\<forall>m. m \<noteq> src \<longrightarrow> m \<le> N \<longrightarrow> live_at item' m = live_at item m)"
  using assms
proof (induction fs arbitrary: s bw item L)
  case Nil
  then have "live_at item src = {}" by (auto simp: copy_todo_def)
  with Nil show ?case by (intro exI[of _ s] exI[of _ bw] exI[of _ item] exI[of _ L]) simp
next
  case (Cons fname fs)
  show ?case
  proof (cases "fname \<in> set badnames")
    case True
    with Cons.prems(13) have "copy_todo item src badnames fs" by (auto simp: copy_todo_def)
    from Cons.IH[OF Cons.prems(1-12) this] True show ?thesis by simp
  next
    case False
    have ok: "item_ok (e_H E) B item" using Cons.prems(2) by (simp add: writing_def)
    from False Cons.prems(13) obtain b where b: "b \<in> set (item_Blobs item)" "blob_Bundle b = src" "fname = blob_name (blob_ID b)"
      by (auto simp: copy_todo_def live_at_def)
    let ?i = "blob_ID b"
    have live_i: "?i \<in> live_at item src" using b by (auto simp: live_at_def)
    have bok: "blob_ok (e_H E) B b" using ok b(1) by (simp add: item_ok_def)
    then have i64: "int64_ok ?i" by (simp add: blob_ok_def)
    have b0: "blob_Bundle b \<noteq> 0" using b(2) Cons.prems(8) by simp
    have "?i \<notin> live_at item (bun_n bw - 1)"
    proof
      assume "?i \<in> live_at item (bun_n bw - 1)"
      then obtain b' where "b' \<in> set (item_Blobs item)" "blob_ID b' = ?i" "blob_Bundle b' = bun_n bw - 1" by (auto simp: live_at_def)
      moreover from this have "b' = b" using item_ok_unique[OF ok _ b(1)] by blast
      ultimately show False using b(2) Cons.prems(9) by simp
    qed
    have pos: "0 < pending K item" using b Cons.prems(7) by (auto simp: pending_def filter_empty_conv)
    then have n: "bun_n bw < 2 ^ 63" using Cons.prems(5) by simp
    from bun_WriteBlob_writing[OF Cons.prems(1-4) n i64 \<open>?i \<notin> _\<close>, of now "B ?i" None]
    obtain s1 bw1 L1 where w1: "bun_WriteBlob E now s bw item ?i (B ?i, None) = ((blob_results (e_H E) (B ?i) (bun_n bw1 - 1), None), s1, bw1)" "sinv s1"
      "writing (e_H E) (e_Z E) (cont s1) (wst s1) iid item bw1 B X R (L1 @ [(blob_name ?i, B ?i)])"
      "files_ok (live_at item (bun_n bw1 - 1)) B {} L1" "ext (cont s, wst s) (cont s1, wst s1) iid" "bun_n bw \<le> bun_n bw1" "bun_n bw1 \<le> bun_n bw + 1"
      by blast
    let ?item = "rebundle ?i (bun_n bw1 - 1) item"
    have R: "blob_Bundle b \<in> R" "blob_Bundle b \<le> bun_n bw1 - 2" using b(2) Cons.prems(6,9) w1(6) by simp_all
    note M = writing_move[OF w1(3,4) b(1) R(1) b0 R(2)]
    have valid: "ValidateWriteBlob (item_ID item) b (blob_results (e_H E) (B ?i) (bun_n bw1 - 1)) = None"
      using bok b0 by (simp add: ValidateWriteBlob_def blob_results_def blob_ok_def testhash_def)
    have step: "copy_files E now r badnames (fname # fs) s bw item = copy_files E now r badnames fs s1 bw1 ?item"
      using False Cons.prems(12)[OF live_i] extractBlobID_name[OF i64] blobByID_Some[OF ok, of ?i b] b w1(1) valid
      by (simp add: rebundle_def blob_results_def)
    have K1: "bun_n bw1 - 1 \<notin> K" using Cons.prems(10,11) w1(6) by auto
    have pend: "pending K item = Suc (pending K ?item)" using pending_rebundle[OF ok b(1) _ K1] b(2) Cons.prems(7) by simp
    have nsrc: "blob_Bundle b \<noteq> bun_n bw1 - 1" using R(2) by simp
    note live = rebundle_live[OF ok b(1) nsrc]
    have "live_at ?item src = live_at item src - {?i}" using live[of src] nsrc b(2) by simp
    moreover have "i' = ?i" if "blob_name i' = blob_name ?i" "i' \<in> live_at item src" for i'
      using blob_name_inj[OF that(1) _ i64] that(2) ok by (auto simp: live_at_def item_ok_def blob_ok_def)
    ultimately have todo': "copy_todo ?item src badnames fs" using Cons.prems(13) b(3) by (auto simp: copy_todo_def)
    have opens': "bagr_Open r (blob_name i) = Inr (B i, None)" if "i \<in> live_at ?item src" for i
      using Cons.prems(12) that live[of src] nsrc b(2) by auto
    have ns: "bun_n bw1 + int (pending K ?item) \<le> bun_n bw + int (pending K item)" using pend w1(7) by simp
    have "src \<le> bun_n bw1 - 2" "N \<le> bun_n bw1 - 2" "bun_n bw1 + int (pending K ?item) \<le> 2 ^ 63" using Cons.prems(5,9,11) w1(6) ns by simp_all
    from Cons.IH[OF w1(2) M Cons.prems(4) this(3) Cons.prems(6-8) this(1) Cons.prems(10) this(2) opens' todo']
    obtain s' bw' item' L' where IH: "copy_files E now r badnames fs s1 bw1 ?item = (None, s', bw', item')" "sinv s'"
      "writing (e_H E) (e_Z E) (cont s') (wst s') iid item' bw' B X R L'" "files_ok (live_at item' (bun_n bw' - 1)) B {} L'"
      "ext (cont s1, wst s1) (cont s', wst s') iid" "live_at item' src = {}" "bun_n bw1 \<le> bun_n bw'"
      "bun_n bw' + int (pending K item') \<le> bun_n bw1 + int (pending K ?item)"
      "map blob_ID (item_Blobs item') = map blob_ID (item_Blobs ?item)" "item_Versions item' = item_Versions ?item"
      "map (abs_blob B) (item_Blobs item') = map (abs_blob B) (item_Blobs ?item)"
      "\<forall>m. m \<noteq> src \<longrightarrow> m \<le> N \<longrightarrow> live_at item' m = live_at ?item m" by blast
    have "bun_n bw1 - 1 \<noteq> 0" using w1(3) by (simp add: writing_def)
    note rs = rebundle_simps(1,2)[OF ok, of ?i "bun_n bw1 - 1"] rebundle_simps(3)[OF ok b(1) refl b0 this, of B]
    have others: "\<forall>m. m \<noteq> src \<longrightarrow> m \<le> N \<longrightarrow> live_at item' m = live_at item m"
      using IH(12) live b(2) Cons.prems(11) w1(6) by auto
    show ?thesis
      using IH ns ext_trans[OF w1(5) IH(5)] w1(6) others step
      by (intro exI[of _ s'] exI[of _ bw'] exI[of _ item'] exI[of _ L']) (simp add: rs)
  qed
qed

lemma CopyBundleExcept_writing:
  assumes "sinv s" and w: "writing (e_H E) (e_Z E) (cont s) (wst s) iid item bw B X R L" and f: "files_ok (live_at item (bun_n bw - 1)) B {} L"
    and iid: "id_ok okkey iid" and n: "bun_n bw + int (pending K item) \<le> 2 ^ 63"
    and src: "src \<notin> R" "src \<in> K" "1 \<le> src" "cont s (sugar iid src) \<noteq> None" and K: "\<forall>m \<in> K. m \<le> N" "N \<le> bun_n bw - 2"
    and X: "X src = set ids" "X src \<inter> live_at item src = {}" "\<forall>i \<in> X src. int64_ok i"
  shows "\<exists>s' bw' item' L'. CopyBundleExcept E now s bw item src ids = (None, s', bw', item') \<and> sinv s' \<and>
    writing (e_H E) (e_Z E) (cont s') (wst s') iid item' bw' B X (insert src R) L' \<and> files_ok (live_at item' (bun_n bw' - 1)) B {} L' \<and>
    ext (cont s, wst s) (cont s', wst s') iid \<and> live_at item' src = {} \<and> bun_n bw \<le> bun_n bw' \<and>
    bun_n bw' + int (pending K item') \<le> bun_n bw + int (pending K item) \<and>
    map blob_ID (item_Blobs item') = map blob_ID (item_Blobs item) \<and> item_Versions item' = item_Versions item \<and>
    map (abs_blob B) (item_Blobs item') = map (abs_blob B) (item_Blobs item) \<and>
    (\<forall>m. m \<noteq> src \<longrightarrow> m \<le> N \<longrightarrow> live_at item' m = live_at item m)"
proof -
  have hi: "src \<le> bun_n bw - 2" using src(2) K by auto
  have n63: "bun_n bw \<le> 2 ^ 63" using n by simp
  then have i64: "0 \<le> src" "int64_ok src" using hi src(3) by (simp_all add: int64_ok_def)
  obtain b where b: "cont s (sugar iid src) = Some b" using src(4) by blast
  have bo: "bundles_ok (e_H E) (e_Z E) (cont s) iid item B X R (bun_n bw - 2)" and ok: "item_ok (e_H E) B item" and idi: "item_ID item = iid"
    using w by (simp_all add: writing_def)
  have "fst (desugar (sugar iid src)) = iid" using desugar_sugar[OF i64] by simp
  with bo b obtain m where m: "sugar iid src = sugar iid m" "1 \<le> m" "m \<le> bun_n bw - 2"
      "m \<notin> R \<longrightarrow> (\<exists>L. is_bundle (e_H E) (e_Z E) b L \<and> files_ok (live_at item m) B (X m) L)" unfolding bundles_ok_def by blast
  have "int64_ok m" using m(2,3) n63 by (simp add: int64_ok_def)
  then have "m = src" using sugar_inj(2)[OF m(1) i64] m(2) by simp
  with m(4) src(1) obtain Ls where Ls: "is_bundle (e_H E) (e_Z E) b Ls" "files_ok (live_at item src) B (X src) Ls" by blast
  then obtain r where r: "distinct (map fst Ls)" "bag_NewReader (e_Z E) b = Inr r" "bagr_Files r = map fst Ls"
      "\<forall>n. bagr_Open r n = (case map_of Ls n of None \<Rightarrow> Inl ErrNotFound | Some c \<Rightarrow> Inr (c, None))" by (auto simp: is_bundle_def)
  have okk: "okkey (sugar iid src)" using iid i64 by (simp add: id_ok_def)
  obtain s1 where s1: "op_open S s (sugar iid src) = (Inr b, s1)" "sinv s1" "cont s1 = cont s" "wst s1 = wst s"
    using open_hit[OF assms(1) okk b] by blast
  have opens: "bagr_Open r (blob_name i) = Inr (B i, None)" if "i \<in> live_at item src" for i
  proof -
    have "(blob_name i, B i) \<in> set Ls" using Ls(2) that by (simp add: files_ok_def)
    then show ?thesis using r(1,4) by simp
  qed
  have "copy_todo item src (''item-info.json'' # map blob_name ids) (map fst Ls)"
  proof -
    have "\<exists>i \<in> live_at item src. n = blob_name i" if "(n, c) \<in> set Ls" "n \<noteq> ''item-info.json''" "n \<notin> blob_name ` set ids" for n c
      using Ls(2) that X(1) by (auto simp: files_ok_def)
    moreover have "blob_name i \<in> fst ` set Ls \<and> blob_name i \<notin> blob_name ` set ids" if "i \<in> live_at item src" for i
    proof
      show "blob_name i \<in> fst ` set Ls" using Ls(2) that by (force simp: files_ok_def)
      have "int64_ok i" using that ok by (auto simp: live_at_def item_ok_def blob_ok_def)
      with X that blob_name_inj show "blob_name i \<notin> blob_name ` set ids" by blast
    qed
    ultimately show ?thesis using r(1) by (auto simp: copy_todo_def)
  qed
  moreover have "writing (e_H E) (e_Z E) (cont s1) (wst s1) iid item bw B X (insert src R) L"
    using w bundles_ok_cong[OF bo, of "insert src R" item B X] by (simp add: writing_def s1)
  ultimately show ?thesis
    using copy_files_writing[OF s1(2) _ f iid n _ src(2,3) hi K opens, of X "insert src R"] s1 r
    by (simp add: CopyBundleExcept_def OpenBundle_def E_S idi)
qed

text \<open>All the bundles with deleted blobs.\<close>

definition src_ok :: "(string \<Rightarrow> bytes option) \<Rightarrow> string \<Rightarrow> item \<Rightarrow> (int \<Rightarrow> int set) \<Rightarrow> int set \<Rightarrow> int set \<Rightarrow> int \<times> int list \<Rightarrow> bool" where
  "src_ok c iid item X R K e = (fst e \<notin> R \<and> fst e \<in> K \<and> 1 \<le> fst e \<and> c (sugar iid (fst e)) \<noteq> None \<and> X (fst e) = set (snd e) \<and>
     X (fst e) \<inter> live_at item (fst e) = {} \<and> (\<forall>i \<in> X (fst e). int64_ok i))"

lemma copy_bundles_writing:
  assumes "sinv s" and "writing (e_H E) (e_Z E) (cont s) (wst s) iid (wr_item wr) (wr_bw wr) B X R L"
    and "files_ok (live_at (wr_item wr) (bun_n (wr_bw wr) - 1)) B {} L"
    and iid: "id_ok okkey iid" and "bun_n (wr_bw wr) + int (pending K (wr_item wr)) \<le> 2 ^ 63"
    and "\<forall>e \<in> set bs. src_ok (cont s) iid (wr_item wr) X R K e" and "distinct (map fst bs)"
    and K: "\<forall>m \<in> K. m \<le> N" and "N \<le> bun_n (wr_bw wr) - 2" and "\<forall>m \<in> R. m \<le> N \<and> live_at (wr_item wr) m = {}"
  shows "\<exists>s' wr' L'. copy_bundles E now bs s wr = (None, s', wr') \<and> sinv s' \<and>
    writing (e_H E) (e_Z E) (cont s') (wst s') iid (wr_item wr') (wr_bw wr') B X (R \<union> fst ` set bs) L' \<and>
    files_ok (live_at (wr_item wr') (bun_n (wr_bw wr') - 1)) B {} L' \<and> ext (cont s, wst s) (cont s', wst s') iid \<and>
    (\<forall>m \<in> R \<union> fst ` set bs. m \<le> N \<and> live_at (wr_item wr') m = {}) \<and> bun_n (wr_bw wr) \<le> bun_n (wr_bw wr') \<and>
    bun_n (wr_bw wr') \<le> 2 ^ 63 \<and>
    map blob_ID (item_Blobs (wr_item wr')) = map blob_ID (item_Blobs (wr_item wr)) \<and> item_Versions (wr_item wr') = item_Versions (wr_item wr) \<and>
    map (abs_blob B) (item_Blobs (wr_item wr')) = map (abs_blob B) (item_Blobs (wr_item wr)) \<and> wr_bdel wr' = wr_bdel wr @ map fst bs"
  using assms
proof (induction bs arbitrary: s wr R L)
  case Nil
  then show ?case by (intro exI[of _ s] exI[of _ wr] exI[of _ L]) simp
next
  case (Cons e bs)
  obtain src ids where e: "e = (src, ids)" by fastforce
  have se: "src \<notin> R" "src \<in> K" "1 \<le> src" "cont s (sugar iid src) \<noteq> None" "X src = set ids" "X src \<inter> live_at (wr_item wr) src = {}" "\<forall>i \<in> X src. int64_ok i"
    using Cons.prems(6) unfolding e src_ok_def by auto
  from CopyBundleExcept_writing[OF Cons.prems(1-5) se(1-4) Cons.prems(8,9) se(5-7), of now]
  obtain s1 bw1 item1 L1 where c: "CopyBundleExcept E now s (wr_bw wr) (wr_item wr) src ids = (None, s1, bw1, item1)" "sinv s1"
    "writing (e_H E) (e_Z E) (cont s1) (wst s1) iid item1 bw1 B X (insert src R) L1" "files_ok (live_at item1 (bun_n bw1 - 1)) B {} L1"
    "ext (cont s, wst s) (cont s1, wst s1) iid" "live_at item1 src = {}" "bun_n (wr_bw wr) \<le> bun_n bw1"
    "bun_n bw1 + int (pending K item1) \<le> bun_n (wr_bw wr) + int (pending K (wr_item wr))"
    "map blob_ID (item_Blobs item1) = map blob_ID (item_Blobs (wr_item wr))" "item_Versions item1 = item_Versions (wr_item wr)"
    "map (abs_blob B) (item_Blobs item1) = map (abs_blob B) (item_Blobs (wr_item wr))"
    "\<forall>m. m \<noteq> src \<longrightarrow> m \<le> N \<longrightarrow> live_at item1 m = live_at (wr_item wr) m" by blast
  let ?wr = "wr\<lparr>wr_bw := bw1, wr_item := item1, wr_bdel := wr_bdel wr @ [src]\<rparr>"
  have "\<forall>e \<in> set bs. src_ok (cont s1) iid item1 X (insert src R) K e"
  proof
    fix e' assume e': "e' \<in> set bs"
    then have old: "src_ok (cont s) iid (wr_item wr) X R K e'" "fst e' \<noteq> src" using Cons.prems(6,7) by (auto simp: e)
    moreover have "fst e' \<le> N" using old(1) Cons.prems(8) by (auto simp: src_ok_def)
    moreover have "cont s1 (sugar iid (fst e')) \<noteq> None" using old(1) c(5) by (auto simp: src_ok_def ext_def)
    ultimately show "src_ok (cont s1) iid item1 X (insert src R) K e'" using c(12) unfolding src_ok_def by auto
  qed
  moreover have "\<forall>m \<in> insert src R. m \<le> N \<and> live_at item1 m = {}" using Cons.prems(8,10) c(6,12) se(2) by auto
  moreover have "bun_n bw1 + int (pending K item1) \<le> 2 ^ 63" "N \<le> bun_n bw1 - 2" using c(7,8) Cons.prems(5,9) by simp_all
  ultimately obtain s' wr' L' where IH: "copy_bundles E now bs s1 ?wr = (None, s', wr')" "sinv s'"
    "writing (e_H E) (e_Z E) (cont s') (wst s') iid (wr_item wr') (wr_bw wr') B X (insert src R \<union> fst ` set bs) L'"
    "files_ok (live_at (wr_item wr') (bun_n (wr_bw wr') - 1)) B {} L'" "ext (cont s1, wst s1) (cont s', wst s') iid"
    "\<forall>m \<in> insert src R \<union> fst ` set bs. m \<le> N \<and> live_at (wr_item wr') m = {}" "bun_n bw1 \<le> bun_n (wr_bw wr')" "bun_n (wr_bw wr') \<le> 2 ^ 63"
    "map blob_ID (item_Blobs (wr_item wr')) = map blob_ID (item_Blobs item1)" "item_Versions (wr_item wr') = item_Versions item1"
    "map (abs_blob B) (item_Blobs (wr_item wr')) = map (abs_blob B) (item_Blobs item1)" "wr_bdel wr' = wr_bdel wr @ [src] @ map fst bs"
    using Cons.IH[of s1 ?wr "insert src R" L1] c(2,3,4) Cons.prems(4,7,8) by auto
  have "copy_bundles E now (e # bs) s wr = (None, s', wr')" using c(1) IH(1) by (simp add: e)
  moreover have "insert src R \<union> fst ` set bs = R \<union> fst ` set (e # bs)" by (simp add: e)
  ultimately show ?case
    using IH c(7,9,10,11) ext_trans[OF c(5) IH(5)]
    by (intro exI[of _ s'] exI[of _ wr'] exI[of _ L']) (simp add: e)
qed

lemma delete_bundles_closed:
  assumes "sinv s" and "closed (e_H E) (e_Z E) (cont s) (wst s) iid item B X R hi" and iid: "id_ok okkey iid" and hi: "hi < 2 ^ 63"
    and "set ns \<subseteq> R" and "\<forall>m \<in> R. 1 \<le> m \<and> m \<le> hi \<and> live_at item m = {}"
  shows "\<exists>s'. delete_bundles E iid ns s = (None, s') \<and> sinv s' \<and>
    closed (e_H E) (e_Z E) (cont s') (wst s') iid item B X R hi \<and> frame (cont s, wst s) (cont s', wst s') iid \<and>
    (\<forall>n \<in> set ns. cont s' (sugar iid n) = None) \<and> (\<forall>k. cont s k = None \<longrightarrow> cont s' k = None) \<and>
    (\<forall>m. 1 \<le> m \<and> m \<le> hi \<and> m \<notin> set ns \<longrightarrow> cont s' (sugar iid m) = cont s (sugar iid m))"
  using assms
proof (induction ns arbitrary: s)
  case (Cons n ns)
  have n: "1 \<le> n" "n \<le> hi" "live_at item n = {}" "n \<in> R" using Cons.prems(5,6) by auto
  then have i64: "0 \<le> n" "int64_ok n" using hi by (simp_all add: int64_ok_def)
  have okk: "okkey (sugar iid n)" using iid i64 by (simp add: id_ok_def)
  have own: "own_writer (wst s) iid None" using Cons.prems(2) by (simp add: closed_def)
  have "\<forall>w b. wst s w \<noteq> Some (sugar iid n, b)" using own desugar_sugar[OF i64, of iid] unfolding own_writer_def by fastforce
  then obtain s1 where s1: "op_delete S s (sugar iid n) = (None, s1)" "sinv s1" "cont s1 = (cont s)(sugar iid n := None)" "wst s1 = wst s"
    using delete_ok[OF Cons.prems(1) okk] by blast
  have inj: "sugar iid m = sugar iid n \<longleftrightarrow> m = n" if "1 \<le> m" "m \<le> hi" for m
    using sugar_inj(2)[of iid m iid n] that i64 hi by (auto simp: int64_ok_def)
  have "blob_Bundle b \<noteq> n" if "b \<in> set (item_Blobs item)" for b using n(3) that by (auto simp: live_at_def)
  moreover have "0 \<le> blob_Bundle b" if "b \<in> set (item_Blobs item)" for b
    using Cons.prems(2) that by (auto simp: closed_def item_ok_def blob_ok_def)
  ultimately have blobs: "\<forall>b \<in> set (item_Blobs item). blob_Bundle b \<noteq> 0 \<longrightarrow> blob_Bundle b \<le> hi \<and> cont s1 (sugar iid (blob_Bundle b)) \<noteq> None"
    using Cons.prems(2) inj unfolding closed_def s1(3) by (smt (verit, best) fun_upd_other)
  have "bundles_ok (e_H E) (e_Z E) (cont s1) iid item B X R hi"
    using Cons.prems(2) unfolding closed_def bundles_ok_def s1(3) by (simp add: fun_upd_def)
  with blobs Cons.prems(2) have cl: "closed (e_H E) (e_Z E) (cont s1) (wst s1) iid item B X R hi" by (simp add: closed_def s1(4))
  have fr: "frame (cont s, wst s) (cont s1, wst s1) iid" unfolding s1(3,4) by (rule frame_del[OF i64])
  obtain s' where IH: "delete_bundles E iid ns s1 = (None, s')" "sinv s'" "closed (e_H E) (e_Z E) (cont s') (wst s') iid item B X R hi"
    "frame (cont s1, wst s1) (cont s', wst s') iid" "\<forall>n \<in> set ns. cont s' (sugar iid n) = None" "\<forall>k. cont s1 k = None \<longrightarrow> cont s' k = None"
    "\<forall>m. 1 \<le> m \<and> m \<le> hi \<and> m \<notin> set ns \<longrightarrow> cont s' (sugar iid m) = cont s1 (sugar iid m)"
    using Cons.IH[OF s1(2) cl iid hi] Cons.prems(5,6) by auto
  have "\<forall>m. 1 \<le> m \<and> m \<le> hi \<and> m \<notin> set (n # ns) \<longrightarrow> cont s' (sugar iid m) = cont s (sugar iid m)"
    using IH(7) inj by (simp add: s1(3))
  then show ?case
    using IH s1(1) frame_trans[OF fr IH(4)] by (intro exI[of _ s']) (simp add: E_S s1(3))
next
  case Nil
  then show ?case by (intro exI[of _ s]) simp
qed

end

section \<open>Closing a writer\<close>

text \<open>The item is stored and nobody is writing to it: its bundles are in order, and the last one has its
  metadata.\<close>

definition at_rest ::
  "hashes \<Rightarrow> zipc \<Rightarrow> itemOnTape json \<Rightarrow> (string \<Rightarrow> bytes option) \<Rightarrow> ('w \<Rightarrow> (string \<times> bytes) option) \<Rightarrow> string \<Rightarrow> item \<Rightarrow> (int \<Rightarrow> bytes) \<Rightarrow> bool" where
  "at_rest H Z J c ws iid item B =
     (closed H Z c ws iid item B (\<lambda>_. {}) {} (item_MaxBundle item) \<and> ids_ok item \<and> 0 \<le> item_MaxBundle item \<and> item_MaxBundle item < 2 ^ 63 \<and>
      (if item_MaxBundle item = 0 then item = new_item iid
       else item_Versions item \<noteq> [] \<and>
         (\<exists>b L j item0. c (sugar iid (item_MaxBundle item)) = Some b \<and> is_bundle H Z b L \<and> map_of L ''item-info.json'' = Some j \<and>
            readItemInfo J (j, None) = Inr item0 \<and> item0\<lparr>item_MaxBundle := item_MaxBundle item\<rparr> = item)))"

lemma closed_core:
  assumes "map blob_core (item_Blobs item') = map blob_core (item_Blobs item)" and "item_ID item' = item_ID item"
    and "closed H Z c ws iid item B X R hi"
  shows "closed H Z c ws iid item' B X R hi"
  using assms core_item_ok[OF assms(1)] core_ex[OF assms(1)] unfolding closed_def bundles_ok_def core_live[OF assms(1)] blob_core_def by fastforce

lemma closed_deleted:
  assumes "closed H Z c ws iid item B X R hi" and "\<forall>m \<in> R. c (sugar iid m) = None" and "\<And>m. m \<notin> R \<Longrightarrow> X m = {}"
  shows "closed H Z c ws iid item B (\<lambda>_. {}) {} hi"
proof -
  have "bundles_ok H Z c iid item B (\<lambda>_. {}) {} hi"
    unfolding bundles_ok_def
  proof (intro allI impI)
    fix k b assume k: "c k = Some b" "fst (desugar k) = iid"
    then obtain m where m: "k = sugar iid m" "1 \<le> m" "m \<le> hi" "m \<notin> R \<longrightarrow> (\<exists>L. is_bundle H Z b L \<and> files_ok (live_at item m) B (X m) L)"
      using assms(1) unfolding closed_def bundles_ok_def by blast
    then have "m \<notin> R" using k(1) assms(2) by auto
    with m assms(3)[of m] show "\<exists>m. k = sugar iid m \<and> 1 \<le> m \<and> m \<le> hi \<and> (m \<notin> {} \<longrightarrow> (\<exists>L. is_bundle H Z b L \<and> files_ok (live_at item m) B {} L))"
      by metis
  qed
  with assms(1) show ?thesis by (simp add: closed_def)
qed

lemma spec_kill_map:
  assumes "map blob_ID bs = map (\<lambda>i. int i + 1) [0..<length bs]"
  shows "map (\<lambda>b. if blob_ID b \<in> set dels then None else abs_blob B b) bs = spec_kill dels (map (abs_blob B) bs)"
proof (rule nth_equalityI)
  fix j assume "j < length (map (\<lambda>b. if blob_ID b \<in> set dels then None else abs_blob B b) bs)"
  then have j: "j < length bs" by simp
  have "blob_ID (bs ! j) = int j + 1" using arg_cong[OF assms, of "\<lambda>xs. xs ! j"] j by simp
  with j show "map (\<lambda>b. if blob_ID b \<in> set dels then None else abs_blob B b) bs ! j = spec_kill dels (map (abs_blob B) bs) ! j"
    by (simp add: spec_kill_def)
qed (simp add: spec_kill_def)

lemma is_bundle_info:
  "is_bundle H Z b (L @ [(n, j)]) \<Longrightarrow> map_of (L @ [(n, j)]) n = Some j"
  by (rule map_of_is_SomeI) (simp_all add: is_bundle_def)

context bundle_store
begin

text \<open>The deletions of a session: the marked blobs go, the others are copied.\<close>

lemma doDeletes_writing:
  assumes "sinv s" and w: "writing (e_H E) (e_Z E) (cont s) (wst s) iid (wr_item wr) (wr_bw wr) B (\<lambda>_. {}) {} L"
    and f: "files_ok (live_at (wr_item wr) (bun_n (wr_bw wr) - 1)) B {} L" and iid: "id_ok okkey iid"
    and n: "bun_n (wr_bw wr) + int (length (item_Blobs (wr_item wr))) \<le> 2 ^ 63" and bdel: "wr_bdel wr = []"
    and dels: "\<forall>i \<in> set (wr_del wr). \<forall>b \<in> set (item_Blobs (wr_item wr)). blob_ID b = i \<longrightarrow> blob_Bundle b \<le> bun_n (wr_bw wr) - 2"
  shows "\<exists>s' wr' X L'. doDeletes E now s wr = (None, s', wr') \<and> sinv s' \<and>
    writing (e_H E) (e_Z E) (cont s') (wst s') iid (wr_item wr') (wr_bw wr') B X (set (wr_bdel wr')) L' \<and>
    files_ok (live_at (wr_item wr') (bun_n (wr_bw wr') - 1)) B {} L' \<and> ext (cont s, wst s) (cont s', wst s') iid \<and>
    (\<forall>m \<in> set (wr_bdel wr'). 1 \<le> m \<and> m \<le> bun_n (wr_bw wr') - 2 \<and> live_at (wr_item wr') m = {}) \<and> (\<forall>m. m \<notin> set (wr_bdel wr') \<longrightarrow> X m = {}) \<and>
    bun_n (wr_bw wr') \<le> 2 ^ 63 \<and> map blob_ID (item_Blobs (wr_item wr')) = map blob_ID (item_Blobs (wr_item wr)) \<and>
    item_Versions (wr_item wr') = item_Versions (wr_item wr) \<and>
    map (abs_blob B) (item_Blobs (wr_item wr')) = map (\<lambda>b. if blob_ID b \<in> set (wr_del wr) then None else abs_blob B b) (item_Blobs (wr_item wr))"
proof -
  obtain item1 bundles where mk: "mark_deletes now (wr_version wr) (wr_del wr) (wr_item wr) [] = (item1, bundles)" by fastforce
  have X0: "Xof [] = (\<lambda>_. {})" by (simp add: Xof_def fun_eq_iff)
  have w0: "writing (e_H E) (e_Z E) (cont s) (wst s) iid (wr_item wr) (wr_bw wr) B (Xof []) {} L" using w by (simp add: X0)
  have s0: "srcs_ok (cont s) iid (bun_n (wr_bw wr) - 2) []" and d0: "dead_ok (wr_item wr) (Xof [])" by (simp_all add: srcs_ok_def gkeys_def dead_ok_def X0)
  note mark = mark_deletes_writing[OF mk w0 f s0 d0 dels]
  let ?K = "set (gkeys bundles)" and ?wr = "wr\<lparr>wr_item := item1\<rparr>"
  have "pending ?K item1 \<le> length (item_Blobs (wr_item wr))"
    using mark map_eq_imp_length_eq[of blob_ID "item_Blobs item1" blob_ID "item_Blobs (wr_item wr)"]
    by (metis length_filter_le pending_def)
  then have b: "bun_n (wr_bw ?wr) + int (pending ?K (wr_item ?wr)) \<le> 2 ^ 63" using n by simp
  have so: "srcs_ok (cont s) iid (bun_n (wr_bw wr) - 2) bundles" and dead: "dead_ok item1 (Xof bundles)" using mark by simp_all
  have srcs: "\<forall>e \<in> set bundles. src_ok (cont s) iid (wr_item ?wr) (Xof bundles) {} ?K e"
  proof
    fix e assume e: "e \<in> set bundles"
    then have key: "fst e \<in> ?K" by (simp add: gkeys_def)
    have "gget bundles (fst e) = Some (snd e)" using so e gget_unique[of bundles "fst e" "snd e"] by (simp add: srcs_ok_def)
    then have "Xof bundles (fst e) = set (snd e)" by (simp add: Xof_def)
    moreover have pos: "1 \<le> fst e" "cont s (sugar iid (fst e)) \<noteq> None" using so key by (simp_all add: srcs_ok_def)
    moreover have "fst e \<noteq> 0" using pos(1) by simp
    with dead have "Xof bundles (fst e) \<inter> live_at item1 (fst e) = {} \<and> (\<forall>i \<in> Xof bundles (fst e). int64_ok i)"
      unfolding dead_ok_def by blast
    ultimately show "src_ok (cont s) iid (wr_item ?wr) (Xof bundles) {} ?K e" using key unfolding src_ok_def by simp
  qed
  have dist: "distinct (map fst bundles)" using so by (simp add: srcs_ok_def gmap_ok_def)
  have K: "\<forall>m \<in> ?K. m \<le> bun_n (wr_bw wr) - 2" using so by (simp add: srcs_ok_def)
  have w1: "writing (e_H E) (e_Z E) (cont s) (wst s) iid (wr_item ?wr) (wr_bw ?wr) B (Xof bundles) {} L"
    and f1: "files_ok (live_at (wr_item ?wr) (bun_n (wr_bw ?wr) - 1)) B {} L" using mark by simp_all
  from copy_bundles_writing[OF assms(1) w1 f1 iid b srcs dist K, of now]
  obtain s' wr' L' where c: "copy_bundles E now bundles s ?wr = (None, s', wr')" "sinv s'"
    "writing (e_H E) (e_Z E) (cont s') (wst s') iid (wr_item wr') (wr_bw wr') B (Xof bundles) ({} \<union> fst ` set bundles) L'"
    "files_ok (live_at (wr_item wr') (bun_n (wr_bw wr') - 1)) B {} L'" "ext (cont s, wst s) (cont s', wst s') iid"
    "\<forall>m \<in> {} \<union> fst ` set bundles. m \<le> bun_n (wr_bw wr) - 2 \<and> live_at (wr_item wr') m = {}" "bun_n (wr_bw ?wr) \<le> bun_n (wr_bw wr')"
    "bun_n (wr_bw wr') \<le> 2 ^ 63" "map blob_ID (item_Blobs (wr_item wr')) = map blob_ID (item_Blobs (wr_item ?wr))"
    "item_Versions (wr_item wr') = item_Versions (wr_item ?wr)"
    "map (abs_blob B) (item_Blobs (wr_item wr')) = map (abs_blob B) (item_Blobs (wr_item ?wr))" "wr_bdel wr' = wr_bdel ?wr @ map fst bundles"
    by auto
  have R: "set (wr_bdel wr') = {} \<union> fst ` set bundles" using c(12) bdel by simp
  have X: "Xof bundles m = {}" if "m \<notin> set (wr_bdel wr')" for m
  proof -
    have "gget bundles m = None" using that R set_gkeys[of bundles] by (force simp: gkeys_def)
    then show ?thesis by (simp add: Xof_def)
  qed
  have lo: "\<forall>m \<in> set (wr_bdel wr'). 1 \<le> m" using so R by (simp add: srcs_ok_def gkeys_def)
  show ?thesis
  proof (intro exI conjI)
    show "doDeletes E now s wr = (None, s', wr')" by (simp add: doDeletes_def mk c(1))
    show "sinv s'" by (rule c(2))
    show "writing (e_H E) (e_Z E) (cont s') (wst s') iid (wr_item wr') (wr_bw wr') B (Xof bundles) (set (wr_bdel wr')) L'" using c(3) R by simp
    show "files_ok (live_at (wr_item wr') (bun_n (wr_bw wr') - 1)) B {} L'" by (rule c(4))
    show "ext (cont s, wst s) (cont s', wst s') iid" by (rule c(5))
    show "\<forall>m \<in> set (wr_bdel wr'). 1 \<le> m \<and> m \<le> bun_n (wr_bw wr') - 2 \<and> live_at (wr_item wr') m = {}" using c(6,7) R lo by auto
    show "\<forall>m. m \<notin> set (wr_bdel wr') \<longrightarrow> Xof bundles m = {}" using X by blast
    show "bun_n (wr_bw wr') \<le> 2 ^ 63" by (rule c(8))
  qed (use c(9,10,11) mark in simp_all)
qed

lemma Writer_Close_rest:
  assumes "sinv (is_S st)" and rel: "wr_rel (e_H E) (e_Z E) (cont (is_S st)) (wst (is_S st)) iid wr B (cs, slots, dels) N K vs"
    and iid: "id_ok okkey iid" and n: "bun_n (wr_bw wr) + int (length (item_Blobs (wr_item wr))) \<le> 2 ^ 63"
    and dels: "\<forall>i \<in> set dels. i \<le> int K" and vs: "map ver_ID vs = map (\<lambda>i. int i + 1) [0..<length vs]"
  shows "\<exists>st' wr'. Writer_Close E now st wr = (None, st', wr') \<and> sinv (is_S st') \<and>
    (json_rt (e_J E) (item_tape (wr_item wr')) \<longrightarrow> at_rest (e_H E) (e_Z E) (e_J E) (cont (is_S st')) (wst (is_S st')) iid (wr_item wr') B) \<and>
    abs_item B (wr_item wr') = (spec_kill dels cs, map ver_Slots vs @ [slots]) \<and>
    frame (cont (is_S st), wst (is_S st)) (cont (is_S st'), wst (is_S st')) iid \<and>
    is_cache st' = ic_Set (e_C E) (is_cache st) iid (wr_item wr') \<and> is_useStore st' = is_useStore st \<and> item_Versions (wr_item wr') \<noteq> []"
proof -
  let ?bs = "item_Blobs (wr_item wr)"
  let ?ver = "(wr_version wr)\<lparr>ver_SaveDate := now\<rparr>"
  let ?wr1 = "wr\<lparr>wr_version := ?ver, wr_item := (wr_item wr)\<lparr>item_Versions := item_Versions (wr_item wr) @ [?ver]\<rparr>\<rparr>"
  note R = rel[unfolded wr_rel_def fst_conv snd_conv]
  from R obtain L where L: "writing (e_H E) (e_Z E) (cont (is_S st)) (wst (is_S st)) iid (wr_item wr) (wr_bw wr) B (\<lambda>_. {}) {} L"
    "files_ok (live_at (wr_item wr) (bun_n (wr_bw wr) - 1)) B {} L" by blast
  have ids: "map blob_ID ?bs = map (\<lambda>i. int i + 1) [0..<length ?bs]" using R by blast
  have w1: "writing (e_H E) (e_Z E) (cont (is_S st)) (wst (is_S st)) iid (wr_item ?wr1) (wr_bw ?wr1) B (\<lambda>_. {}) {} L"
    using writing_core[OF _ _ L(1), of "wr_item ?wr1"] by simp
  have f1: "files_ok (live_at (wr_item ?wr1) (bun_n (wr_bw ?wr1) - 1)) B {} L" using L(2) by (simp add: live_at_def)
  have d1: "\<forall>i \<in> set (wr_del ?wr1). \<forall>b \<in> set (item_Blobs (wr_item ?wr1)). blob_ID b = i \<longrightarrow> blob_Bundle b \<le> bun_n (wr_bw ?wr1) - 2"
  proof (intro ballI impI)
    fix i b assume b: "i \<in> set (wr_del ?wr1)" "b \<in> set (item_Blobs (wr_item ?wr1))" "blob_ID b = i"
    then obtain j where j: "j < length ?bs" "b = ?bs ! j" by (auto simp: in_set_conv_nth)
    have "blob_ID (?bs ! j) = int j + 1" using arg_cong[OF ids, of "\<lambda>xs. xs ! j"] j by simp
    moreover have "i \<le> int K" using b(1) dels R by simp
    ultimately have "j < K" using b(3) j by simp
    then have "blob_Bundle (?bs ! j) \<le> N" using R by blast
    then show "blob_Bundle b \<le> bun_n (wr_bw ?wr1) - 2" using R j(2) by simp
  qed
  have n1: "bun_n (wr_bw ?wr1) + int (length (item_Blobs (wr_item ?wr1))) \<le> 2 ^ 63" and bd1: "wr_bdel ?wr1 = []" using n R by simp_all
  from doDeletes_writing[OF assms(1) w1 f1 iid n1 bd1 d1, of now]
  obtain s1 wr2 X L2 where d: "doDeletes E now (is_S st) ?wr1 = (None, s1, wr2)" "sinv s1"
    "writing (e_H E) (e_Z E) (cont s1) (wst s1) iid (wr_item wr2) (wr_bw wr2) B X (set (wr_bdel wr2)) L2"
    "files_ok (live_at (wr_item wr2) (bun_n (wr_bw wr2) - 1)) B {} L2" "ext (cont (is_S st), wst (is_S st)) (cont s1, wst s1) iid"
    "\<forall>m \<in> set (wr_bdel wr2). 1 \<le> m \<and> m \<le> bun_n (wr_bw wr2) - 2 \<and> live_at (wr_item wr2) m = {}" "\<forall>m. m \<notin> set (wr_bdel wr2) \<longrightarrow> X m = {}"
    "bun_n (wr_bw wr2) \<le> 2 ^ 63" "map blob_ID (item_Blobs (wr_item wr2)) = map blob_ID ?bs" "item_Versions (wr_item wr2) = vs @ [?ver]"
    "map (abs_blob B) (item_Blobs (wr_item wr2)) = map (\<lambda>b. if blob_ID b \<in> set dels then None else abs_blob B b) ?bs"
    using R by auto
  let ?item3 = "(wr_item wr2)\<lparr>item_MaxBundle := CurrentBundle (wr_bw wr2)\<rparr>"
  let ?hi = "bun_n (wr_bw wr2) - 1"
  have open2: "bun_zw (wr_bw wr2) \<noteq> None" and n2: "2 \<le> bun_n (wr_bw wr2)" and id2: "item_ID (wr_item wr2) = iid"
    using d(3) by (auto simp: writing_def open_bag_def)
  then have cur: "CurrentBundle (wr_bw wr2) = ?hi" by (simp add: CurrentBundle_def)
  from bun_Close_writing[OF d(2,3,4) iid d(8), of now ?item3]
  obtain s2 b where c: "bun_Close E now s1 (wr_bw wr2) ?item3 = (None, s2, (wr_bw wr2)\<lparr>bun_zw := None\<rparr>)" "sinv s2"
    "closed (e_H E) (e_Z E) (cont s2) (wst s2) iid (wr_item wr2) B X (set (wr_bdel wr2)) ?hi" "ext (cont s1, wst s1) (cont s2, wst s2) iid"
    "cont s2 (sugar iid ?hi) = Some b" "is_bundle (e_H E) (e_Z E) b (L2 @ [(''item-info.json'', writeItemInfo (e_J E) ?item3)])" by blast
  have cl3: "closed (e_H E) (e_Z E) (cont s2) (wst s2) iid ?item3 B X (set (wr_bdel wr2)) ?hi" using closed_core[OF _ _ c(3), of ?item3] by simp
  have "\<forall>m \<in> set (wr_bdel wr2). 1 \<le> m \<and> m \<le> ?hi \<and> live_at ?item3 m = {}" using d(6) by (auto simp: live_at_def)
  from delete_bundles_closed[OF c(2) cl3 iid _ order_refl this] d(8)
  obtain s3 where del: "delete_bundles E iid (wr_bdel wr2) s2 = (None, s3)" "sinv s3"
    "closed (e_H E) (e_Z E) (cont s3) (wst s3) iid ?item3 B X (set (wr_bdel wr2)) ?hi" "frame (cont s2, wst s2) (cont s3, wst s3) iid"
    "\<forall>n \<in> set (wr_bdel wr2). cont s3 (sugar iid n) = None"
    "\<forall>m. 1 \<le> m \<and> m \<le> ?hi \<and> m \<notin> set (wr_bdel wr2) \<longrightarrow> cont s3 (sugar iid m) = cont s2 (sugar iid m)" by auto
  have cl: "closed (e_H E) (e_Z E) (cont s3) (wst s3) iid ?item3 B (\<lambda>_. {}) {} ?hi" using closed_deleted[OF del(3,5)] d(7) by blast
  have top: "cont s3 (sugar iid ?hi) = Some b" 
  proof -
    have "?hi \<notin> set (wr_bdel wr2)" using d(6) by force
    moreover have "1 \<le> ?hi" using n2 by simp
    ultimately show ?thesis using del(6) c(5) by simp
  qed
  let ?wr' = "wr2\<lparr>wr_item := ?item3, wr_bw := (wr_bw wr2)\<lparr>bun_zw := None\<rparr>\<rparr>"
  let ?st' = "st\<lparr>is_S := s3, is_cache := ic_Set (e_C E) (is_cache st) iid ?item3\<rparr>"
  have run: "Writer_Close E now st wr = (None, ?st', ?wr')" by (simp add: Writer_Close_def d(1) c(1) del(1) id2 Let_def)
  have "map blob_ID (item_Blobs ?item3) = map (\<lambda>i. int i + 1) [0..<length (item_Blobs ?item3)]"
    using d(9) ids map_eq_imp_length_eq[OF d(9)] by simp
  moreover have "map ver_ID (item_Versions ?item3) = map (\<lambda>i. int i + 1) [0..<length (item_Versions ?item3)]" using vs R by (simp add: d(10))
  ultimately have idok: "ids_ok ?item3" by (simp add: ids_ok_def)
  have rest: "at_rest (e_H E) (e_Z E) (e_J E) (cont s3) (wst s3) iid ?item3 B" if "json_rt (e_J E) (item_tape ?item3)"
  proof -
    have "\<exists>b L j item0. cont s3 (sugar iid ?hi) = Some b \<and> is_bundle (e_H E) (e_Z E) b L \<and> map_of L ''item-info.json'' = Some j \<and>
        readItemInfo (e_J E) (j, None) = Inr item0 \<and> item0\<lparr>item_MaxBundle := ?hi\<rparr> = ?item3"
      using top c(6) is_bundle_info[OF c(6)] read_write_ItemInfo[OF that] cur
      by (intro exI[of _ b] exI[of _ "L2 @ [(''item-info.json'', writeItemInfo (e_J E) ?item3)]"] exI[of _ "writeItemInfo (e_J E) ?item3"] exI[of _ ?item3]) simp
    then show ?thesis using cl idok n2 d(8,10) cur by (simp add: at_rest_def)
  qed
  have abs: "abs_item B ?item3 = (spec_kill dels cs, map ver_Slots vs @ [slots])"
    using d(10,11) spec_kill_map[OF ids, of dels B] R by (simp add: abs_item_def)
  have "frame (cont (is_S st), wst (is_S st)) (cont s3, wst s3) iid"
    using frame_trans[OF ext_frame[OF ext_trans[OF d(5) c(4)]] del(4)] .
  with run del(2) rest abs d(10) show ?thesis by (intro exI[of _ ?st'] exI[of _ ?wr']) simp
qed

end

end
