(* ===== verification/Item_Refine.thy ===== *)
theory Item_Refine
  imports Item_Commit
begin

text \<open>
  The item store as a whole refines its specification: after any sequence of sessions, of any items, the store
  holds for every item the blobs and versions that the specification says, and a reader gets them. The
  metadata cache may be any that returns what was last set.
\<close>

section \<open>Loading an item\<close>

lemma max_bundle_spec:
  "mx \<le> max_bundle iid ks mx \<and> (max_bundle iid ks mx = mx \<or> (\<exists>k \<in> set ks. desugar k = (iid, max_bundle iid ks mx))) \<and>
   (\<forall>k \<in> set ks. fst (desugar k) = iid \<longrightarrow> snd (desugar k) \<le> max_bundle iid ks mx)"
proof (induction ks arbitrary: mx)
  case (Cons k ks)
  obtain slug n where k: "desugar k = (slug, n)" by fastforce
  from Cons.IH[of "if slug = iid \<and> n > mx then n else mx"] show ?case by (auto simp: k split: if_splits)
qed simp

section \<open>What a reader sees\<close>

definition spec_read :: "string \<Rightarrow> aitem \<Rightarrow> int \<Rightarrow> ((bytes \<times> error option) \<times> int) result" where
  "spec_read iid a i =
     (if snd a = [] then Inl ErrNoItem
      else if 1 \<le> i \<and> i \<le> int (length (fst a))
      then (case fst a ! nat (i - 1) of None \<Rightarrow> Inl ErrDeleted | Some c \<Rightarrow> Inr ((c, None), int (length c)))
      else Inl (NoBlobError iid i))"

definition spec_slot :: "aitem \<Rightarrow> int \<Rightarrow> string \<Rightarrow> int" where
  "spec_slot a v slot =
     (if 1 \<le> v \<and> v \<le> int (length (snd a))
      then (case gget (snd a ! nat (v - 1)) slot of None \<Rightarrow> 0 | Some b \<Rightarrow> b) else 0)"

text \<open>A sequence of sessions: the time, the item, the agent and the operations of each.\<close>

type_synonym session = "time \<times> string \<times> string \<times> item_op list"

fun run_sessions :: "('s, 'w, 'c) item_env \<Rightarrow> session list \<Rightarrow> ('s, 'c) item_store \<Rightarrow> error option list \<times> ('s, 'c) item_store" where
  "run_sessions E [] st = ([], st)"
| "run_sessions E ((now, iid, creator, ops) # xs) st =
     (let (err, st1, it) = item_session E now st iid creator ops;
          (errs, st2) = run_sessions E xs st1
      in (err # errs, st2))"

fun spec_sessions :: "hashes \<Rightarrow> session list \<Rightarrow> (string \<Rightarrow> aitem) \<Rightarrow> string \<Rightarrow> aitem" where
  "spec_sessions H [] a = a"
| "spec_sessions H ((now, iid, creator, ops) # xs) a = spec_sessions H xs (a(iid := spec_session H ops (a iid)))"

text \<open>The numbers stay in the range of an int, only blobs that the item has are deleted, the id can be the
  name of a bundle and the metadata that is saved survives its JSON text.\<close>

fun sessions_ok :: "(string \<Rightarrow> bool) \<Rightarrow> ('s, 'w, 'c) item_env \<Rightarrow> session list \<Rightarrow> ('s, 'c) item_store \<Rightarrow> (string \<Rightarrow> aitem) \<Rightarrow> bool" where
  "sessions_ok okid E [] st a = True"
| "sessions_ok okid E ((now, iid, creator, ops) # xs) st a =
     (let (err, st1, it) = item_session E now st iid creator ops in
      okid iid \<and> findMaxBundle E st iid + int (length (fst (a iid))) + 2 * int (length ops) + 2 \<le> 2 ^ 63 \<and>
      list_all (\<lambda>i. i \<le> int (length (fst (a iid)))) (op_dels ops) \<and>
      (case it of None \<Rightarrow> True | Some item \<Rightarrow> json_rt (e_J E) (item_tape item)) \<and>
      sessions_ok okid E xs st1 (a(iid := spec_session (e_H E) ops (a iid))))"

lemma find_version:
  assumes "map ver_ID vs = map (\<lambda>i. int i + 1) [0..<length vs]"
  shows "find (\<lambda>v. ver_ID v = k) vs = (if 1 \<le> k \<and> k \<le> int (length vs) then Some (vs ! nat (k - 1)) else None)"
proof -
  have id: "ver_ID (vs ! j) = int j + 1" if "j < length vs" for j
    using arg_cong[OF assms, of "\<lambda>xs. xs ! j"] that by simp
  show ?thesis
  proof (cases "1 \<le> k \<and> k \<le> int (length vs)")
    case True
    then have j: "nat (k - 1) < length vs" by auto
    have "\<forall>j < nat (k - 1). ver_ID (vs ! j) \<noteq> k" using id j by auto
    moreover have "ver_ID (vs ! nat (k - 1)) = k" using id[OF j] True by simp
    ultimately have "find (\<lambda>v. ver_ID v = k) vs = Some (vs ! nat (k - 1))" using j unfolding find_Some_iff by blast
    with True show ?thesis by simp
  next
    case False
    have "\<not> (\<exists>v. v \<in> set vs \<and> ver_ID v = k)" using id False by (auto simp: in_set_conv_nth)
    then have "find (\<lambda>v. ver_ID v = k) vs = None" unfolding find_None_iff .
    with False show ?thesis by simp
  qed
qed

lemma slot_spec:
  assumes "ids_ok item"
  shows "BlobByVersionSlot item v slot = spec_slot (abs_item B item) v slot"
proof -
  have "map ver_ID (item_Versions item) = map (\<lambda>i. int i + 1) [0..<length (item_Versions item)]" using assms by (simp add: ids_ok_def)
  from find_version[OF this, of v] show ?thesis by (auto simp: BlobByVersionSlot_def spec_slot_def abs_item_def)
qed

locale item_refine = bundle_store S cont wst okkey okpre sinv E
  for S :: "('s, 'w) store_ops" and cont wst okkey okpre sinv and E :: "('s, 'w, 'c) item_env" +
  assumes cache_law: "ic_Lookup (e_C E) (ic_Set (e_C E) c i x) j = Some y \<Longrightarrow> (j = i \<and> y = x) \<or> (j \<noteq> i \<and> ic_Lookup (e_C E) c j = Some y)"
begin

definition rest :: "('s, 'c) item_store \<Rightarrow> string \<Rightarrow> item \<Rightarrow> (int \<Rightarrow> bytes) \<Rightarrow> bool" where
  "rest st iid item B = (sinv (is_S st) \<and> is_useStore st \<and>
     at_rest (e_H E) (e_Z E) (e_J E) (cont (is_S st)) (wst (is_S st)) iid item B \<and>
     (\<forall>y. ic_Lookup (e_C E) (is_cache st) iid = Some y \<longrightarrow> item_Versions y \<noteq> [] \<longrightarrow> y = item))"

lemma findMaxBundle_rest:
  assumes r: "rest st iid item B" and pre: "okpre iid"
  shows "findMaxBundle E st iid = item_MaxBundle item"
proof -
  let ?s = "is_S st" and ?M = "item_MaxBundle item"
  have r': "sinv ?s" "bundles_ok (e_H E) (e_Z E) (cont ?s) iid item B (\<lambda>_. {}) {} ?M" "own_writer (wst ?s) iid None" "0 \<le> ?M" "?M < 2 ^ 63"
    "?M \<noteq> 0 \<longrightarrow> cont ?s (sugar iid ?M) \<noteq> None"
    using r by (auto simp: rest_def at_rest_def closed_def split: if_splits)
  obtain ks where ks: "op_list_prefix S ?s iid = Inr ks" using list_prefix_ok[OF r'(1) pre] by blast
  have mem: "k \<in> set ks \<longleftrightarrow> cont ?s k \<noteq> None \<and> has_prefix k iid" if "fst (desugar k) = iid" for k
    using list_prefix_iff[OF r'(1) pre ks, of k] r'(3) that unfolding own_writer_def by fastforce
  let ?r = "max_bundle iid ks 0"
  have M64: "int64_ok ?M" using r'(4,5) by (simp add: int64_ok_def)
  have ge: "?M \<le> ?r"
  proof (cases "?M = 0")
    case False
    then have "sugar iid ?M \<in> set ks" using mem[of "sugar iid ?M"] r'(6) desugar_sugar[OF r'(4) M64] by simp
    then have "snd (desugar (sugar iid ?M)) \<le> ?r" using max_bundle_spec[of 0 iid ks] desugar_sugar[OF r'(4) M64, of iid] by force
    then show ?thesis by (simp add: desugar_sugar[OF r'(4) M64])
  qed (use max_bundle_spec[of 0 iid ks] in simp)
  have le: "?r \<le> ?M"
  proof (cases "?r = 0")
    case False
    then obtain k where k: "k \<in> set ks" "desugar k = (iid, ?r)" using max_bundle_spec[of 0 iid ks] by blast
    then obtain b where "cont ?s k = Some b" using mem[of k] by auto
    then obtain m where m: "k = sugar iid m" "1 \<le> m" "m \<le> ?M" using r'(2) k(2) unfolding bundles_ok_def by fastforce
    then have "int64_ok m" using r'(5) by (simp add: int64_ok_def)
    with m k(2) desugar_sugar[of m iid] show ?thesis by simp
  qed (use r' in simp)
  from ge le ks show ?thesis by (simp add: findMaxBundle_def E_S)
qed

lemma open_stored:
  assumes "rest st iid item B" and "id_ok okkey iid" and "1 \<le> m" and "m \<le> item_MaxBundle item" and "cont (is_S st) (sugar iid m) = Some b"
    and "is_bundle (e_H E) (e_Z E) b L"
  obtains s' where "OpenBundleStream (e_S E) (e_Z E) (is_S st) (sugar iid m) n = (case map_of L n of None \<Rightarrow> Inl ErrNotFound | Some c \<Rightarrow> Inr (c, None), s')"
    and "sinv s'" and "cont s' = cont (is_S st)" and "wst s' = wst (is_S st)"
proof -
  have "int64_ok m" using assms by (simp add: rest_def at_rest_def int64_ok_def)
  then have okk: "okkey (sugar iid m)" using assms(2,3) by (simp add: id_ok_def)
  have "sinv (is_S st)" using assms(1) by (simp add: rest_def)
  from open_hit[OF this okk assms(5)] obtain s' where s': "op_open S (is_S st) (sugar iid m) = (Inr b, s')" "sinv s'" "cont s' = cont (is_S st)" "wst s' = wst (is_S st)" by blast
  moreover obtain r where "bag_NewReader (e_Z E) b = Inr r" "bagr_Open r n = (case map_of L n of None \<Rightarrow> Inl ErrNotFound | Some c \<Rightarrow> Inr (c, None))"
    using assms(6) by (auto simp: is_bundle_def)
  ultimately show thesis by (intro that[of s']) (simp_all add: OpenBundleStream_def OpenBundle_def E_S)
qed

text \<open>Changes of the state that readers make.\<close>

definition same_store :: "('s, 'c) item_store \<Rightarrow> ('s, 'c) item_store \<Rightarrow> bool" where
  "same_store st st' = (cont (is_S st') = cont (is_S st) \<and> wst (is_S st') = wst (is_S st) \<and> is_useStore st' = is_useStore st)"

lemma Item_rest:
  assumes r: "rest st iid item B" and ok: "id_ok okkey iid" and pre: "okpre iid"
  obtains st' where "items_Item E st iid = (if item_MaxBundle item = 0 then Inl ErrNoItem else Inr item, st')" and "rest st' iid item B"
    and "same_store st st'" and "\<And>j y. j \<noteq> iid \<Longrightarrow> ic_Lookup (e_C E) (is_cache st') j = Some y \<Longrightarrow> ic_Lookup (e_C E) (is_cache st) j = Some y"
proof -
  let ?M = "item_MaxBundle item" and ?lk = "ic_Lookup (e_C E) (is_cache st) iid"
  note M = findMaxBundle_rest[OF r pre]
  have r': "sinv (is_S st)" "is_useStore st" "\<forall>y. ?lk = Some y \<longrightarrow> item_Versions y \<noteq> [] \<longrightarrow> y = item" "0 \<le> ?M" "?M = 0 \<longrightarrow> item = new_item iid"
    using r by (auto simp: rest_def at_rest_def split: if_splits)
  show thesis
  proof (cases "case ?lk of None \<Rightarrow> False | Some y \<Rightarrow> 0 < length (item_Versions y)")
    case True
    then obtain y where y: "?lk = Some y" "item_Versions y \<noteq> []" by (auto split: option.splits)
    then have "y = item" using r'(3) by blast
    moreover from this have "?M \<noteq> 0" using y(2) r'(5) by (auto simp: new_item_def)
    ultimately show thesis using y r by (intro that[of st]) (simp_all add: items_Item_def same_store_def)
  next
    case False
    show thesis
    proof (cases "?M = 0")
      case True
      with False M r r'(2) show thesis by (intro that[of st]) (simp_all add: items_Item_def itemload_def same_store_def Let_def)
    next
      case nz: False
      obtain b L j item0 where top: "cont (is_S st) (sugar iid ?M) = Some b" "is_bundle (e_H E) (e_Z E) b L" "map_of L ''item-info.json'' = Some j"
          "readItemInfo (e_J E) (j, None) = Inr item0" "item0\<lparr>item_MaxBundle := ?M\<rparr> = item"
        using r nz by (auto simp: rest_def at_rest_def)
      have "1 \<le> ?M" using nz r'(4) by simp
      from open_stored[OF r ok this order_refl top(1,2), of "''item-info.json''"] obtain s'
        where s': "OpenBundleStream (e_S E) (e_Z E) (is_S st) (sugar iid ?M) ''item-info.json'' = (Inr (j, None), s')" "sinv s'"
          "cont s' = cont (is_S st)" "wst s' = wst (is_S st)" using top(3) by auto
      let ?st = "st\<lparr>is_S := s', is_cache := ic_Set (e_C E) (is_cache st) iid item\<rparr>"
      have "items_Item E st iid = (Inr item, ?st)"
        using False M nz r'(2) s'(1) top(4,5) by (simp add: items_Item_def itemload_def Let_def)
      moreover have "rest ?st iid item B"
        using r s'(2,3,4) cache_law[of "is_cache st" iid item iid] by (auto simp: rest_def)
      moreover have "same_store st ?st" using s'(3,4) by (simp add: same_store_def)
      ultimately show thesis using nz cache_law by (intro that[of ?st]) (auto dest: cache_law)
    qed
  qed
qed

section \<open>A session\<close>

lemma Open_rel:
  assumes r: "rest st iid item B" and ok: "id_ok okkey iid" and pre: "okpre iid" and n: "item_MaxBundle item + 1 < 2 ^ 63"
  obtains st' wr where "items_Open E now st iid creator = (Inr wr, st')" and "sinv (is_S st')" and "is_useStore st'"
    and "wr_rel (e_H E) (e_Z E) (cont (is_S st')) (wst (is_S st')) iid wr B (spec_open (abs_item B item)) (item_MaxBundle item)
           (length (item_Blobs item)) (item_Versions item)"
    and "frame (cont (is_S st), wst (is_S st)) (cont (is_S st'), wst (is_S st')) iid"
    and "bun_n (wr_bw wr) = item_MaxBundle item + 2" and "length (item_Blobs (wr_item wr)) = length (item_Blobs item)"
    and "\<And>j y. j \<noteq> iid \<Longrightarrow> ic_Lookup (e_C E) (is_cache st') j = Some y \<Longrightarrow> ic_Lookup (e_C E) (is_cache st) j = Some y"
proof -
  let ?M = "item_MaxBundle item"
  obtain st1 where st1: "items_Item E st iid = (if ?M = 0 then Inl ErrNoItem else Inr item, st1)" "rest st1 iid item B" "same_store st st1"
      "\<And>j y. j \<noteq> iid \<Longrightarrow> ic_Lookup (e_C E) (is_cache st1) j = Some y \<Longrightarrow> ic_Lookup (e_C E) (is_cache st) j = Some y"
    using Item_rest[OF r ok pre] by blast
  have r1: "sinv (is_S st1)" "closed (e_H E) (e_Z E) (cont (is_S st1)) (wst (is_S st1)) iid item B (\<lambda>_. {}) {} ?M" "ids_ok item" "0 \<le> ?M"
      "?M = 0 \<longrightarrow> item = new_item iid" "is_useStore st1"
    using st1(2) by (auto simp: rest_def at_rest_def split: if_splits)
  let ?bw0 = "\<lparr>bun_zw = None, bun_size = 0, bun_n = ?M + 1\<rparr> :: 'w bundle_writer"
  have z: "bun_zw ?bw0 = None" "bun_n ?bw0 = ?M + 1" by simp_all
  obtain s2 bw where nx: "bun_Next E now (is_S st1) ?bw0 item = (None, s2, bw)" "sinv s2"
      "writing (e_H E) (e_Z E) (cont s2) (wst s2) iid item bw B (\<lambda>_. {}) {} []" "files_ok (live_at item (bun_n bw - 1)) B {} []"
      "ext (cont (is_S st1), wst (is_S st1)) (cont s2, wst s2) iid" "bun_n bw = bun_n ?bw0 + 1" "bun_size bw = 0"
    by (rule bun_Next_closed[OF r1(1,2) z ok r1(4) n, of now]) (rule that; assumption)
  let ?wr = "\<lparr>wr_item = item, wr_bw = bw, wr_bnext = 0, wr_del = [], wr_version = next_version now creator item, wr_bdel = []\<rparr>"
  have op: "items_Open E now st iid creator = (Inr ?wr, st1\<lparr>is_S := s2\<rparr>)"
    using r1(5) nx(1) by (auto simp: items_Open_def st1(1) NewBundler_def)
  have vid: "ver_ID (next_version now creator item) = int (length (item_Versions item)) + 1"
  proof (cases "item_Versions item = []")
    case False
    then have "ver_ID (last (item_Versions item)) = last (map ver_ID (item_Versions item))" by (simp add: last_map)
    also have "\<dots> = int (length (item_Versions item))" using r1(3) False by (cases "length (item_Versions item)") (auto simp: ids_ok_def)
    finally show ?thesis using False by (simp add: next_version_def)
  qed (simp add: next_version_def)
  have slots: "ver_Slots (next_version now creator item) = fst (snd (spec_open (abs_item B item)))"
    by (simp add: next_version_def spec_open_def abs_item_def last_map)
  have old: "\<forall>j < length (item_Blobs item). blob_Bundle (item_Blobs item ! j) \<le> ?M"
    using r1(2,4) unfolding closed_def by (metis nth_mem)
  have "wr_rel (e_H E) (e_Z E) (cont s2) (wst s2) iid ?wr B (spec_open (abs_item B item)) ?M (length (item_Blobs item)) (item_Versions item)"
    unfolding wr_rel_def using nx r1(3) vid slots old by (auto simp: ids_ok_def spec_open_def abs_item_def)
  moreover have "frame (cont (is_S st), wst (is_S st)) (cont s2, wst s2) iid"
    using ext_frame[OF nx(5)] st1(3) by (simp add: same_store_def)
  ultimately show thesis using op nx(2,6) r1(6) st1(4) by (intro that[of ?wr "st1\<lparr>is_S := s2\<rparr>"]) simp_all
qed

lemma steps_rel:
  assumes "sinv (is_S st)" and "wr_rel (e_H E) (e_Z E) (cont (is_S st)) (wst (is_S st)) iid wr B d N K vs" and iid: "id_ok okkey iid"
    and "bun_n (wr_bw wr) + int (length ops) \<le> 2 ^ 63" and "int (length (item_Blobs (wr_item wr))) + int (length ops) < 2 ^ 63"
  shows "\<exists>st' wr' B'. fold (item_step E now) ops (st, wr) = (st', wr') \<and> sinv (is_S st') \<and>
    wr_rel (e_H E) (e_Z E) (cont (is_S st')) (wst (is_S st')) iid wr' B' (fold (spec_step (e_H E)) ops d) N K vs \<and>
    ext (cont (is_S st), wst (is_S st)) (cont (is_S st'), wst (is_S st')) iid \<and> bun_n (wr_bw wr') \<le> bun_n (wr_bw wr) + int (length ops) \<and>
    length (item_Blobs (wr_item wr')) \<le> length (item_Blobs (wr_item wr)) + length ops \<and> st' = st\<lparr>is_S := is_S st'\<rparr>"
  using assms
proof (induction ops arbitrary: st wr B d)
  case Nil
  then show ?case by (intro exI[of _ st] exI[of _ wr] exI[of _ B]) simp
next
  case (Cons op ops)
  have b: "bun_n (wr_bw wr) < 2 ^ 63" "int (length (item_Blobs (wr_item wr))) + 1 < 2 ^ 63" using Cons.prems(4,5) by simp_all
  from item_step_rel[OF Cons.prems(1,2,3) b, of now op]
  obtain st1 wr1 B1 where s1: "item_step E now op (st, wr) = (st1, wr1)" "sinv (is_S st1)"
    "wr_rel (e_H E) (e_Z E) (cont (is_S st1)) (wst (is_S st1)) iid wr1 B1 (spec_step (e_H E) op d) N K vs"
    "ext (cont (is_S st), wst (is_S st)) (cont (is_S st1), wst (is_S st1)) iid" "bun_n (wr_bw wr1) \<le> bun_n (wr_bw wr) + 1"
    "length (item_Blobs (wr_item wr1)) \<le> length (item_Blobs (wr_item wr)) + 1" "st1 = st\<lparr>is_S := is_S st1\<rparr>" by blast
  have "bun_n (wr_bw wr1) + int (length ops) \<le> 2 ^ 63" "int (length (item_Blobs (wr_item wr1))) + int (length ops) < 2 ^ 63"
    using s1(5,6) Cons.prems(4,5) by simp_all
  from Cons.IH[OF s1(2,3) Cons.prems(3) this]
  obtain st' wr' B' where IH: "fold (item_step E now) ops (st1, wr1) = (st', wr')" "sinv (is_S st')"
    "wr_rel (e_H E) (e_Z E) (cont (is_S st')) (wst (is_S st')) iid wr' B' (fold (spec_step (e_H E)) ops (spec_step (e_H E) op d)) N K vs"
    "ext (cont (is_S st1), wst (is_S st1)) (cont (is_S st'), wst (is_S st')) iid" "bun_n (wr_bw wr') \<le> bun_n (wr_bw wr1) + int (length ops)"
    "length (item_Blobs (wr_item wr')) \<le> length (item_Blobs (wr_item wr1)) + length ops" "st' = st1\<lparr>is_S := is_S st'\<rparr>" by blast
  have "st' = st\<lparr>is_S := is_S st'\<rparr>" using IH(7) s1(7) by (metis item_store.update_convs(1) item_store.surjective item_store.simps(1))
  with IH s1 ext_trans[OF s1(4) IH(4)] show ?case by (intro exI[of _ st'] exI[of _ wr'] exI[of _ B']) simp
qed

lemma fold_spec_dels: "snd (snd (fold (spec_step H) ops d)) = snd (snd d) @ op_dels ops"
proof (induction ops arbitrary: d)
  case (Cons op ops)
  obtain cs sl dl where "d = (cs, sl, dl)" by (cases d)
  with Cons show ?case by (cases op) simp_all
qed simp

lemma session_rest:
  assumes r: "rest st iid item B" and ok: "id_ok okkey iid" and pre: "okpre iid"
    and n: "item_MaxBundle item + int (length (item_Blobs item)) + 2 * int (length ops) + 2 \<le> 2 ^ 63"
    and dels: "\<forall>i \<in> set (op_dels ops). i \<le> int (length (item_Blobs item))"
  shows "\<exists>st' item' B'. item_session E now st iid creator ops = (None, st', Some item') \<and>
    (json_rt (e_J E) (item_tape item') \<longrightarrow> rest st' iid item' B') \<and> abs_item B' item' = spec_session (e_H E) ops (abs_item B item) \<and>
    sinv (is_S st') \<and> is_useStore st' \<and> frame (cont (is_S st), wst (is_S st)) (cont (is_S st'), wst (is_S st')) iid \<and>
    (\<forall>j y. j \<noteq> iid \<longrightarrow> ic_Lookup (e_C E) (is_cache st') j = Some y \<longrightarrow> ic_Lookup (e_C E) (is_cache st) j = Some y)"
proof -
  have "0 \<le> item_MaxBundle item" using r by (simp add: rest_def at_rest_def)
  then have bnd: "item_MaxBundle item + 1 < 2 ^ 63" "int (length (item_Blobs item)) + int (length ops) < 2 ^ 63" using n by simp_all
  obtain st1 wr where o: "items_Open E now st iid creator = (Inr wr, st1)" "sinv (is_S st1)" "is_useStore st1"
    "wr_rel (e_H E) (e_Z E) (cont (is_S st1)) (wst (is_S st1)) iid wr B (spec_open (abs_item B item)) (item_MaxBundle item) (length (item_Blobs item)) (item_Versions item)"
    "frame (cont (is_S st), wst (is_S st)) (cont (is_S st1), wst (is_S st1)) iid" "bun_n (wr_bw wr) = item_MaxBundle item + 2"
    "length (item_Blobs (wr_item wr)) = length (item_Blobs item)"
    "\<And>j y. j \<noteq> iid \<Longrightarrow> ic_Lookup (e_C E) (is_cache st1) j = Some y \<Longrightarrow> ic_Lookup (e_C E) (is_cache st) j = Some y"
    by (rule Open_rel[OF r ok pre bnd(1), of now creator]) (rule that; assumption)
  have b2: "bun_n (wr_bw wr) + int (length ops) \<le> 2 ^ 63" "int (length (item_Blobs (wr_item wr))) + int (length ops) < 2 ^ 63"
    using n o(6,7) bnd(2) by simp_all
  from steps_rel[OF o(2,4) ok b2, of now]
  obtain st2 wr2 B' where f: "fold (item_step E now) ops (st1, wr) = (st2, wr2)" "sinv (is_S st2)"
    "wr_rel (e_H E) (e_Z E) (cont (is_S st2)) (wst (is_S st2)) iid wr2 B' (fold (spec_step (e_H E)) ops (spec_open (abs_item B item)))
       (item_MaxBundle item) (length (item_Blobs item)) (item_Versions item)"
    "ext (cont (is_S st1), wst (is_S st1)) (cont (is_S st2), wst (is_S st2)) iid" "bun_n (wr_bw wr2) \<le> bun_n (wr_bw wr) + int (length ops)"
    "length (item_Blobs (wr_item wr2)) \<le> length (item_Blobs (wr_item wr)) + length ops" "st2 = st1\<lparr>is_S := is_S st2\<rparr>" by blast
  obtain cs slots dl where d: "fold (spec_step (e_H E)) ops (spec_open (abs_item B item)) = (cs, slots, dl)" by (metis prod_cases3)
  have dl: "dl = op_dels ops" using fold_spec_dels[of "e_H E" ops "spec_open (abs_item B item)"] d by (simp add: spec_open_def)
  have vs: "map ver_ID (item_Versions item) = map (\<lambda>i. int i + 1) [0..<length (item_Versions item)]"
    using r by (simp add: rest_def at_rest_def ids_ok_def)
  have "bun_n (wr_bw wr2) + int (length (item_Blobs (wr_item wr2))) \<le> 2 ^ 63" using f(5,6) o(6,7) n by simp
  from Writer_Close_rest[OF f(2) f(3)[unfolded d] ok this _ vs, of now] dels dl
  obtain st3 wr3 where c: "Writer_Close E now st2 wr2 = (None, st3, wr3)" "sinv (is_S st3)"
    "json_rt (e_J E) (item_tape (wr_item wr3)) \<longrightarrow> at_rest (e_H E) (e_Z E) (e_J E) (cont (is_S st3)) (wst (is_S st3)) iid (wr_item wr3) B'"
    "abs_item B' (wr_item wr3) = (spec_kill dl cs, map ver_Slots (item_Versions item) @ [slots])"
    "frame (cont (is_S st2), wst (is_S st2)) (cont (is_S st3), wst (is_S st3)) iid"
    "is_cache st3 = ic_Set (e_C E) (is_cache st2) iid (wr_item wr3)" "is_useStore st3 = is_useStore st2" by blast
  have st2: "is_useStore st2" "is_cache st2 = is_cache st1" using f(7) o(3) by (metis item_store.select_convs(2,3) item_store.surjective item_store.update_convs(1))+
  have run: "item_session E now st iid creator ops = (None, st3, Some (wr_item wr3))" by (simp add: item_session_def o(1) f(1) c(1))
  have abs: "abs_item B' (wr_item wr3) = spec_session (e_H E) ops (abs_item B item)"
    using c(4) d by (simp add: spec_session_def abs_item_def)
  have own: "ic_Lookup (e_C E) (is_cache st3) iid = Some y \<Longrightarrow> y = wr_item wr3" for y using c(6) cache_law by metis
  have rest3: "json_rt (e_J E) (item_tape (wr_item wr3)) \<longrightarrow> rest st3 iid (wr_item wr3) B'" using c(2,3,7) st2(1) own by (simp add: rest_def)
  have others: "\<forall>j y. j \<noteq> iid \<longrightarrow> ic_Lookup (e_C E) (is_cache st3) j = Some y \<longrightarrow> ic_Lookup (e_C E) (is_cache st) j = Some y"
    using c(6) st2(2) o(8) cache_law by metis
  have "frame (cont (is_S st), wst (is_S st)) (cont (is_S st3), wst (is_S st3)) iid"
    using frame_trans[OF frame_trans[OF o(5) ext_frame[OF f(4)]] c(5)] .
  with run abs rest3 others c(2,7) st2(1) show ?thesis by blast
qed

section \<open>Reading\<close>

text \<open>A read gives what the specification has, and later reads find the same.\<close>

lemma Blob_run:
  assumes r: "rest st iid item B" and ok: "id_ok okkey iid" and pre: "okpre iid"
  shows "\<exists>st'. items_Blob E st iid i = (spec_read iid (abs_item B item) i, st') \<and> rest st' iid item B \<and> same_store st st' \<and>
     (\<forall>j y. j \<noteq> iid \<longrightarrow> ic_Lookup (e_C E) (is_cache st') j = Some y \<longrightarrow> ic_Lookup (e_C E) (is_cache st) j = Some y)"
proof -
  let ?M = "item_MaxBundle item"
  obtain st1 where st1: "items_Item E st iid = (if ?M = 0 then Inl ErrNoItem else Inr item, st1)" "rest st1 iid item B"
      "same_store st st1" "\<And>j y. j \<noteq> iid \<Longrightarrow> ic_Lookup (e_C E) (is_cache st1) j = Some y \<Longrightarrow> ic_Lookup (e_C E) (is_cache st) j = Some y"
    using Item_rest[OF r ok pre] by blast
  have r1: "closed (e_H E) (e_Z E) (cont (is_S st1)) (wst (is_S st1)) iid item B (\<lambda>_. {}) {} ?M" "ids_ok item" "0 \<le> ?M" "?M < 2 ^ 63"
      "?M = 0 \<longleftrightarrow> item_Versions item = []"
    using st1(2) by (auto simp: rest_def at_rest_def new_item_def split: if_splits)
  have iok: "item_ok (e_H E) B item" using r1(1) by (simp add: closed_def)
  show ?thesis
  proof (cases "?M \<noteq> 0 \<and> 1 \<le> i \<and> i \<le> int (length (item_Blobs item))")
    case False
    then have "items_Blob E st iid i = (spec_read iid (abs_item B item) i, st1)" using st1(1) r1(5) ids_blobByID[OF r1(2) iok, of i]
      by (auto simp: items_Blob_def items_BlobInfo_def spec_read_def abs_item_def)
    with st1(2-4) show ?thesis by blast
  next
    case True
    let ?b = "item_Blobs item ! nat (i - 1)"
    have j: "nat (i - 1) < length (item_Blobs item)" using True by auto
    have b: "blobByID item i = Some ?b" "blob_ID ?b = i" "?b \<in> set (item_Blobs item)"
      using ids_blobByID[OF r1(2) iok, of i] True ids_nth[OF r1(2) j] j by simp_all
    have info: "items_BlobInfo E st iid i = (Inr ?b, st1)" using st1(1) True b(1) by (simp add: items_BlobInfo_def)
    have spec: "spec_read iid (abs_item B item) i = (if blob_Bundle ?b = 0 then Inl ErrDeleted else Inr ((B i, None), int (length (B i))))"
      using True r1(5) j b(2) by (auto simp: spec_read_def abs_item_def abs_blob_def)
    show ?thesis
    proof (cases "blob_Bundle ?b = 0")
      case True
      with info spec have "items_Blob E st iid i = (spec_read iid (abs_item B item) i, st1)" by (simp add: items_Blob_def)
      with st1(2-4) show ?thesis by blast
    next
      case nz: False
      have bok: "blob_ok (e_H E) B ?b" using iok b(3) by (simp add: item_ok_def)
      then have pos: "1 \<le> blob_Bundle ?b" using nz by (simp add: blob_ok_def)
      have hi: "blob_Bundle ?b \<le> ?M" and "cont (is_S st1) (sugar iid (blob_Bundle ?b)) \<noteq> None" using r1(1) b(3) nz by (auto simp: closed_def)
      then obtain bb where bb1: "cont (is_S st1) (sugar iid (blob_Bundle ?b)) = Some bb" by blast
      have m64: "0 \<le> blob_Bundle ?b" "int64_ok (blob_Bundle ?b)" using pos hi r1(4) by (simp_all add: int64_ok_def)
      obtain m where m: "sugar iid (blob_Bundle ?b) = sugar iid m" "1 \<le> m" "m \<le> ?M"
          "\<exists>L. is_bundle (e_H E) (e_Z E) bb L \<and> files_ok (live_at item m) B {} L"
        using r1(1) bb1 desugar_sugar[OF m64, of iid] unfolding closed_def bundles_ok_def by fastforce
      have "int64_ok m" using m(2,3) r1(4) by (simp add: int64_ok_def)
      then have "m = blob_Bundle ?b" using sugar_inj(2)[OF m(1) m64] m(2) by simp
      with m(4) obtain L where L: "is_bundle (e_H E) (e_Z E) bb L" "files_ok (live_at item (blob_Bundle ?b)) B {} L" by blast
      have "i \<in> live_at item (blob_Bundle ?b)" using in_live_at[OF b(3)] b(2) by simp
      then have "(blob_name i, B i) \<in> set L" using L(2) by (simp add: files_ok_def)
      then have "map_of L (blob_name i) = Some (B i)" using L(1) by (simp add: is_bundle_def)
      moreover obtain s' where s': "OpenBundleStream (e_S E) (e_Z E) (is_S st1) (sugar iid (blob_Bundle ?b)) (blob_name i) =
          (case map_of L (blob_name i) of None \<Rightarrow> Inl ErrNotFound | Some c \<Rightarrow> Inr (c, None), s')" "sinv s'" "cont s' = cont (is_S st1)" "wst s' = wst (is_S st1)"
        using open_stored[OF st1(2) ok pos hi bb1 L(1), of "blob_name i"] by blast
      moreover have "blob_Size ?b = int (length (B i))" using bok nz b(2) by (simp add: blob_ok_def)
      ultimately have "items_Blob E st iid i = (spec_read iid (abs_item B item) i, st1\<lparr>is_S := s'\<rparr>)" using info spec nz by (simp add: items_Blob_def)
      moreover have "rest (st1\<lparr>is_S := s'\<rparr>) iid item B" using st1(2) s'(2-4) by (simp add: rest_def)
      moreover have "same_store st (st1\<lparr>is_S := s'\<rparr>)" using st1(3) s'(3,4) by (simp add: same_store_def)
      ultimately show ?thesis using st1(4) by (intro exI[of _ "st1\<lparr>is_S := s'\<rparr>"]) simp
    qed
  qed
qed

lemma Blob_rest:
  assumes "rest st iid item B" and "id_ok okkey iid" and "okpre iid"
  shows "fst (items_Blob E st iid i) = spec_read iid (abs_item B item) i"
  using Blob_run[OF assms] by (metis fst_conv)

section \<open>All items\<close>

lemma rest_frame:
  assumes r: "rest st j item B" and fr: "frame (cont (is_S st), wst (is_S st)) (cont (is_S st'), wst (is_S st')) iid" and j: "j \<noteq> iid"
    and "sinv (is_S st')" and "is_useStore st'"
    and cache: "\<forall>y. ic_Lookup (e_C E) (is_cache st') j = Some y \<longrightarrow> ic_Lookup (e_C E) (is_cache st) j = Some y"
  shows "rest st' j item B"
proof -
  let ?M = "item_MaxBundle item" and ?c = "cont (is_S st)" and ?c' = "cont (is_S st')"
  have R: "closed (e_H E) (e_Z E) ?c (wst (is_S st)) j item B (\<lambda>_. {}) {} ?M" "ids_ok item" "0 \<le> ?M" "?M < 2 ^ 63"
    using r by (simp_all add: rest_def at_rest_def)
  have same: "?c' k = ?c k" if "fst (desugar k) = j" for k using fr j that by (auto simp: frame_def)
  have sug: "?c' (sugar j m) = ?c (sugar j m)" if "0 \<le> m" "m \<le> ?M" for m
    by (rule same) (use desugar_sugar[of m j] that R(4) in \<open>simp add: int64_ok_def\<close>)
  have "own_writer (wst (is_S st')) j None"
    using R(1) fr j unfolding closed_def own_writer_def frame_def snd_conv by metis
  moreover have "bundles_ok (e_H E) (e_Z E) ?c' j item B (\<lambda>_. {}) {} ?M"
  proof -
    have "bundles_ok (e_H E) (e_Z E) ?c j item B (\<lambda>_. {}) {} ?M" using R(1) by (simp add: closed_def)
    then show ?thesis unfolding bundles_ok_def using same by metis
  qed
  moreover have "blob_Bundle b \<le> ?M \<and> ?c' (sugar j (blob_Bundle b)) \<noteq> None" if "b \<in> set (item_Blobs item)" "blob_Bundle b \<noteq> 0" for b
    using R(1) that sug[of "blob_Bundle b"] by (auto simp: closed_def item_ok_def blob_ok_def)
  ultimately have cl: "closed (e_H E) (e_Z E) ?c' (wst (is_S st')) j item B (\<lambda>_. {}) {} ?M" using R(1) by (simp add: closed_def)
  have eq: "?c' (sugar j ?M) = ?c (sugar j ?M)" using R(3) by (intro sug) simp_all
  have "at_rest (e_H E) (e_Z E) (e_J E) ?c (wst (is_S st)) j item B" using r by (simp add: rest_def)
  with cl have "at_rest (e_H E) (e_Z E) (e_J E) ?c' (wst (is_S st')) j item B" unfolding at_rest_def eq by blast
  then show ?thesis using r assms(4,5) cache unfolding rest_def by blast
qed

definition all_rest :: "('s, 'c) item_store \<Rightarrow> (string \<Rightarrow> aitem) \<Rightarrow> bool" where
  "all_rest st a = (\<forall>iid. \<exists>item B. rest st iid item B \<and> abs_item B item = a iid)"

lemma Blob_all_rest:
  assumes "all_rest st a" and "id_ok okkey iid" and "okpre iid"
  shows "\<exists>st'. items_Blob E st iid i = (spec_read iid (a iid) i, st') \<and> all_rest st' a"
proof -
  obtain item B where r: "rest st iid item B" "abs_item B item = a iid" using assms(1) unfolding all_rest_def by metis
  obtain st' where st': "items_Blob E st iid i = (spec_read iid (a iid) i, st')" "rest st' iid item B" "same_store st st'"
      "\<And>j y. j \<noteq> iid \<Longrightarrow> ic_Lookup (e_C E) (is_cache st') j = Some y \<Longrightarrow> ic_Lookup (e_C E) (is_cache st) j = Some y"
    using Blob_run[OF r(1) assms(2,3), of i] unfolding r(2) by blast
  have "\<exists>item B. rest st' j item B \<and> abs_item B item = a j" for j
  proof (cases "j = iid")
    case False
    obtain y C where y: "rest st j y C" "abs_item C y = a j" using assms(1) unfolding all_rest_def by metis
    have "rest st' j y C" using y(1) st'(2,3) st'(4)[OF False] by (simp add: rest_def same_store_def)
    with y(2) show ?thesis by blast
  qed (use st'(2) r(2) in blast)
  with st'(1) show ?thesis by (auto simp: all_rest_def)
qed

lemma run_sessions_rest:
  assumes "all_rest st a" and "sessions_ok okid E xs st a" and okid: "\<And>iid. okid iid \<Longrightarrow> id_ok okkey iid \<and> okpre iid"
  shows "\<exists>errs st'. run_sessions E xs st = (errs, st') \<and> set errs \<subseteq> {None} \<and> all_rest st' (spec_sessions (e_H E) xs a)"
  using assms(1,2)
proof (induction xs arbitrary: st a)
  case (Cons x xs)
  obtain now iid creator ops where x: "x = (now, iid, creator, ops)" by (metis prod_cases4)
  obtain item B where r: "rest st iid item B" and abs: "abs_item B item = a iid" using Cons.prems(1) unfolding all_rest_def by metis
  obtain err st1 it where run: "item_session E now st iid creator ops = (err, st1, it)" by (metis prod_cases3)
  have ok: "id_ok okkey iid" "okpre iid" and n0: "findMaxBundle E st iid + int (length (fst (a iid))) + 2 * int (length ops) + 2 \<le> 2 ^ 63"
    and d0: "list_all (\<lambda>i. i \<le> int (length (fst (a iid)))) (op_dels ops)" and js: "case it of None \<Rightarrow> True | Some item \<Rightarrow> json_rt (e_J E) (item_tape item)"
    and next_ok: "sessions_ok okid E xs st1 (a(iid := spec_session (e_H E) ops (a iid)))"
    using Cons.prems(2) okid[of iid] by (simp_all add: x run)
  have len: "length (fst (a iid)) = length (item_Blobs item)" using arg_cong[OF abs, of "\<lambda>x. length (fst x)"] by (simp add: abs_item_def)
  have n: "item_MaxBundle item + int (length (item_Blobs item)) + 2 * int (length ops) + 2 \<le> 2 ^ 63"
    using n0 findMaxBundle_rest[OF r ok(2)] len by simp
  have d: "\<forall>i \<in> set (op_dels ops). i \<le> int (length (item_Blobs item))" using d0 len by (simp add: list_all_iff)
  obtain item' B' where s: "err = None" "it = Some item'" "json_rt (e_J E) (item_tape item') \<longrightarrow> rest st1 iid item' B'"
      "abs_item B' item' = spec_session (e_H E) ops (abs_item B item)" "sinv (is_S st1)" "is_useStore st1"
      "frame (cont (is_S st), wst (is_S st)) (cont (is_S st1), wst (is_S st1)) iid"
      "\<forall>j y. j \<noteq> iid \<longrightarrow> ic_Lookup (e_C E) (is_cache st1) j = Some y \<longrightarrow> ic_Lookup (e_C E) (is_cache st) j = Some y"
    using session_rest[OF r ok n d, of now creator] run by auto
  have "all_rest st1 (a(iid := spec_session (e_H E) ops (a iid)))"
    unfolding all_rest_def
  proof
    fix j
    show "\<exists>item B. rest st1 j item B \<and> abs_item B item = (a(iid := spec_session (e_H E) ops (a iid))) j"
    proof (cases "j = iid")
      case True
      with s(2,3,4) js abs show ?thesis by auto
    next
      case False
      obtain item2 B2 where "rest st j item2 B2" "abs_item B2 item2 = a j" using Cons.prems(1) unfolding all_rest_def by metis
      with False rest_frame[OF _ s(7) False s(5,6)] s(8) show ?thesis by fastforce
    qed
  qed
  from Cons.IH[OF this next_ok] obtain errs st' where "run_sessions E xs st1 = (errs, st')" "set errs \<subseteq> {None}"
      "all_rest st' (spec_sessions (e_H E) xs (a(iid := spec_session (e_H E) ops (a iid))))" by blast
  then show ?case by (intro exI[of _ "None # errs"] exI[of _ st']) (simp add: x run s(1))
qed simp

end

section \<open>From an empty store\<close>

abbreviation no_items :: "string \<Rightarrow> aitem" where
  "no_items \<equiv> \<lambda>_. ([], [])"

context item_refine
begin

lemma all_rest_empty:
  assumes "sinv s" "cont s = (\<lambda>k. None)" "wst s = (\<lambda>w. None)" and "\<forall>j. ic_Lookup (e_C E) c j = None"
  shows "all_rest (items_NewWithCache s c) no_items"
  unfolding all_rest_def
proof
  fix iid
  have "at_rest (e_H E) (e_Z E) (e_J E) (cont s) (wst s) iid (new_item iid) (\<lambda>_. [])"
    using assms(2,3) by (simp add: at_rest_def closed_def new_item_def item_ok_def own_writer_def bundles_ok_def ids_ok_def)
  then show "\<exists>item B. rest (items_NewWithCache s c) iid item B \<and> abs_item B item = ([], [])"
    using assms(1,4) by (intro exI[of _ "new_item iid"] exI[of _ "\<lambda>_. []"]) (simp add: rest_def items_NewWithCache_def, simp add: abs_item_def new_item_def)
qed

lemma all_rest_Item:
  assumes "all_rest st a" and "id_ok okkey iid" and "okpre iid"
  shows "(case fst (items_Item E st iid) of
       Inl e \<Rightarrow> e = ErrNoItem \<and> snd (a iid) = []
     | Inr i \<Rightarrow> snd (a iid) \<noteq> [] \<and> item_ID i = iid \<and> (\<forall>v slot. BlobByVersionSlot i v slot = spec_slot (a iid) v slot))"
proof -
  obtain item B where r: "rest st iid item B" and eq: "abs_item B item = a iid" using assms(1) unfolding all_rest_def by metis
  obtain st' where st': "items_Item E st iid = (if item_MaxBundle item = 0 then Inl ErrNoItem else Inr item, st')"
    by (rule Item_rest[OF r assms(2,3)]) (rule that; assumption)
  have "ids_ok item" "item_ID item = iid" "item_MaxBundle item = 0 \<longleftrightarrow> item_Versions item = []"
    using r by (auto simp: rest_def at_rest_def closed_def new_item_def split: if_splits)
  then show ?thesis using slot_spec[of item _ _ B] unfolding eq[symmetric] by (auto simp: st' abs_item_def)
qed

lemma sessions_refine:
  assumes "sinv s" "cont s = (\<lambda>k. None)" "wst s = (\<lambda>w. None)" and "\<forall>j. ic_Lookup (e_C E) c j = None"
    and "sessions_ok okid E ss (items_NewWithCache s c) no_items" and okid: "\<And>iid. okid iid \<Longrightarrow> id_ok okkey iid \<and> okpre iid"
  shows "\<exists>errs st. run_sessions E ss (items_NewWithCache s c) = (errs, st) \<and> set errs \<subseteq> {None} \<and>
    (\<forall>iid. okid iid \<longrightarrow>
       (\<forall>i. fst (items_Blob E st iid i) = spec_read iid (spec_sessions (e_H E) ss no_items iid) i) \<and>
       (case fst (items_Item E st iid) of
          Inl e \<Rightarrow> e = ErrNoItem \<and> snd (spec_sessions (e_H E) ss no_items iid) = []
        | Inr item \<Rightarrow> snd (spec_sessions (e_H E) ss no_items iid) \<noteq> [] \<and> item_ID item = iid \<and>
            (\<forall>v slot. BlobByVersionSlot item v slot = spec_slot (spec_sessions (e_H E) ss no_items iid) v slot)))"
proof -
  obtain errs st where run: "run_sessions E ss (items_NewWithCache s c) = (errs, st)" "set errs \<subseteq> {None}"
      and all: "all_rest st (spec_sessions (e_H E) ss no_items)"
    using run_sessions_rest[OF all_rest_empty[OF assms(1-4)] assms(5) okid] by blast
  have "fst (items_Blob E st iid i) = spec_read iid (spec_sessions (e_H E) ss no_items iid) i" if "okid iid" for iid i
    using Blob_all_rest[OF all, of iid i] okid[OF that] by auto
  with run all_rest_Item[OF all] okid show ?thesis by blast
qed

end

end
