(* ===== verification/Transaction_Correct.thy ===== *)
theory Transaction_Correct
  imports Transaction Item_Refine
begin

text \<open>
  The commit of a transaction, on top of the uploaded files and of the item store. The specification runs the commands
  on a draft of the item; the commit is shown to be a session of the item writer that has exactly this effect.
\<close>

section \<open>The specification of the commands\<close>

text \<open>The declared size and sums of a blob agree with its content; those that are not declared are not checked.\<close>

definition sums_ok :: "hashes \<Rightarrow> bytes \<Rightarrow> int \<Rightarrow> bytes \<Rightarrow> bytes \<Rightarrow> bool" where
  "sums_ok H c sz md5 sha256 =
     ((sz = 0 \<or> sz = int (length c)) \<and> (md5 = [] \<or> md5 = h_md5 H c) \<and> (sha256 = [] \<or> sha256 = h_sha256 H c))"

text \<open>The id of the first known blob with the given size and sums.\<close>

definition spec_find :: "hashes \<Rightarrow> bytes option list \<Rightarrow> int \<Rightarrow> bytes \<Rightarrow> bytes \<Rightarrow> int" where
  "spec_find H cs sz md5 sha256 = int (length (takeWhile (\<lambda>x. \<not> spec_match H sz md5 sha256 x) cs)) + 1"

type_synonym afiles = "string \<Rightarrow> (bytes \<times> bytes \<times> bytes) option"
type_synonym acommit = "adraft \<times> (string, int) gomap"

definition spec_add :: "hashes \<Rightarrow> afiles \<Rightarrow> string \<Rightarrow> acommit \<Rightarrow> bool \<times> acommit" where
  "spec_add H fs fid st =
     (let (d, bm) = st in
      case fs fid of
        None \<Rightarrow> (False, d, bm)
      | Some (c, md5, sha256) \<Rightarrow>
          (let sz = int (length c) in
           if spec_known H (fst d) sz md5 sha256 then (True, d, gset fid (spec_find H (fst d) sz md5 sha256) bm)
           else (let d' = spec_step H (WBlob c sz md5 sha256) d in
                 if sums_ok H c sz md5 sha256 then (True, d', gset fid (int (length (fst d)) + 1) bm) else (False, d', bm))))"

definition spec_cmd :: "hashes \<Rightarrow> afiles \<Rightarrow> command \<Rightarrow> acommit \<Rightarrow> bool \<times> acommit" where
  "spec_cmd H fs cmd st =
     (let (d, bm) = st in
      if \<not> WellFormed cmd then (False, st)
      else if cmd ! 0 = ''delete'' then (True, spec_step H (WDelete (the (parse_int (cmd ! 1)))) d, bm)
      else if cmd ! 0 = ''slot'' then
        (case (case gget bm (cmd ! 2) of Some b \<Rightarrow> Some b | None \<Rightarrow> parse_int (cmd ! 2)) of
           None \<Rightarrow> (False, st)
         | Some b \<Rightarrow> (True, spec_step H (WSlot (cmd ! 1) b) d, bm))
      else if cmd ! 0 = ''add'' then spec_add H fs (cmd ! 1) st
      else if cmd ! 0 = ''mimetype'' then (parse_int (cmd ! 1) \<noteq> None, st)
      else (True, st))"

fun spec_cmds :: "hashes \<Rightarrow> afiles \<Rightarrow> command list \<Rightarrow> acommit \<Rightarrow> bool \<times> acommit" where
  "spec_cmds H fs [] st = (True, st)"
| "spec_cmds H fs (cmd # cmds) st =
     (let (ok, st1) = spec_cmd H fs cmd st in if ok then spec_cmds H fs cmds st1 else (False, st1))"

definition spec_commit :: "hashes \<Rightarrow> afiles \<Rightarrow> command list \<Rightarrow> (string, int) gomap \<Rightarrow> aitem \<Rightarrow> bool \<times> aitem" where
  "spec_commit H fs cmds bm a =
     (let (ok, (cs, slots, dels), bm') = spec_cmds H fs cmds (spec_open a, bm) in (ok, spec_kill dels cs, snd a @ [slots]))"

text \<open>The blobs that the commands delete.\<close>

definition spec_dels :: "hashes \<Rightarrow> afiles \<Rightarrow> command list \<Rightarrow> (string, int) gomap \<Rightarrow> aitem \<Rightarrow> int list" where
  "spec_dels H fs cmds bm a = snd (snd (fst (snd (spec_cmds H fs cmds (spec_open a, bm)))))"

text \<open>The uploaded files as the commit sees them: content and declared sums.\<close>

definition abs_files :: "('f \<Rightarrow> string \<Rightarrow> bytes option) \<Rightarrow> 'f frag_store \<Rightarrow> afiles" where
  "abs_files fc files fid =
     (case gget (fr_files files) fid of
        None \<Rightarrow> None
      | Some f \<Rightarrow> Some (concat (the (frag_content fc files fid)), file_MD5 f, file_SHA256 f))"

text \<open>The item as the commit saves it.\<close>

definition tx_saved ::
  "('s, 'w, 'c) item_env \<Rightarrow> ('f, 'v, 'm) store_ops_scheme \<Rightarrow> ('b, 'u) cache_ops \<Rightarrow> time \<Rightarrow> ('s, 'c) item_store \<Rightarrow> 'f frag_store \<Rightarrow> 'b \<Rightarrow>
     transaction \<Rightarrow> item option" where
  "tx_saved E F C now items files cache tx =
     (case items_Open E now items (tx_ItemID tx) (tx_Creator tx) of
        (Inl e, items1) \<Rightarrow> None
      | (Inr iw, items1) \<Rightarrow>
          (case exec_cmds E F C now (tx_Commands tx)
                  \<lparr>cm_items = items1, cm_wr = iw, cm_tx = tx\<lparr>tx_Status := StatusIngest\<rparr>, cm_files = files, cm_cache = cache\<rparr> of
             None \<Rightarrow> None
           | Some st \<Rightarrow> Some (wr_item (snd (snd (Writer_Close E now (cm_items st) (cm_wr st)))))))"

section \<open>The blob that a write returns\<close>

lemma findBlobByHash_find:
  assumes ok: "item_ok H B item" and H: "hashes_ok H" and ids: "map blob_ID (item_Blobs item) = map (\<lambda>i. int i + 1) [0..<length (item_Blobs item)]"
    and found: "findBlobByHash item sz md5 sha256 \<noteq> 0"
  shows "findBlobByHash item sz md5 sha256 = spec_find H (map (abs_blob B) (item_Blobs item)) sz md5 sha256"
proof -
  let ?bs = "item_Blobs item"
  let ?P = "\<lambda>b. blob_Size b = sz \<and> (length md5 = 0 \<or> md5 = blob_MD5 b) \<and> (length sha256 = 0 \<or> sha256 = blob_SHA256 b)"
  have g: "\<not> (sz = 0 \<or> length md5 = 0 \<and> length sha256 = 0)" using found by (auto simp: findBlobByHash_def)
  then have sz: "sz \<noteq> 0" by blast
  have f: "findBlobByHash item sz md5 sha256 = (case find ?P ?bs of None \<Rightarrow> 0 | Some b \<Rightarrow> blob_ID b)"
    using g by (simp only: findBlobByHash_def if_False)
  have eq: "?P b = spec_match H sz md5 sha256 (abs_blob B b)" if "b \<in> set ?bs" for b
    using ok that sz by (auto simp: item_ok_def blob_ok_def abs_blob_def spec_match_def)
  obtain b where b: "find ?P ?bs = Some b" using f found by (cases "find ?P ?bs") auto
  then obtain i where i: "i < length ?bs" "?P (?bs ! i)" "b = ?bs ! i" "\<forall>j < i. \<not> ?P (?bs ! j)"
    unfolding find_Some_iff by blast
  have "takeWhile (\<lambda>x. \<not> spec_match H sz md5 sha256 x) (map (abs_blob B) ?bs) = take i (map (abs_blob B) ?bs)"
  proof (rule takeWhile_eq_take_P_nth)
    fix j
    assume "j < i" "j < length (map (abs_blob B) ?bs)"
    moreover from this have "\<not> ?P (?bs ! j)" using i(4) by blast
    ultimately show "\<not> spec_match H sz md5 sha256 (map (abs_blob B) ?bs ! j)" using eq[of "?bs ! j"] by auto
  next
    show "\<not> \<not> spec_match H sz md5 sha256 (map (abs_blob B) ?bs ! i)" using i(1,2) eq[of "?bs ! i"] by simp
  qed
  moreover have "blob_ID (?bs ! i) = int i + 1" using arg_cong[OF ids, of "\<lambda>l. l ! i"] i(1) by simp
  ultimately show ?thesis using f b i(1,3) by (simp add: spec_find_def)
qed

context bundle_store
begin

lemma WriteBlob_result:
  assumes "sinv (is_S st)" and rel: "wr_rel (e_H E) (e_Z E) (cont (is_S st)) (wst (is_S st)) iid wr B d N K vs"
    and iid: "id_ok okkey iid" and n: "bun_n (wr_bw wr) < 2 ^ 63" and len: "int (length (item_Blobs (wr_item wr))) + 1 < 2 ^ 63"
    and new: "findBlobByHash (wr_item wr) sz md5 sha256 = 0"
  shows "(snd (fst (Writer_WriteBlob E now st wr (c, None) sz md5 sha256)) = None) = sums_ok (e_H E) c sz md5 sha256"
    and "snd (fst (Writer_WriteBlob E now st wr (c, None) sz md5 sha256)) = None \<Longrightarrow>
      fst (fst (Writer_WriteBlob E now st wr (c, None) sz md5 sha256)) = int (length (item_Blobs (wr_item wr))) + 1"
proof -
  let ?bs = "item_Blobs (wr_item wr)" and ?i = "wr_nextid wr"
  from rel obtain L where w: "writing (e_H E) (e_Z E) (cont (is_S st)) (wst (is_S st)) iid (wr_item wr) (wr_bw wr) B (\<lambda>_. {}) {} L"
      and f: "files_ok (live_at (wr_item wr) (bun_n (wr_bw wr) - 1)) B {} L"
      and ids: "map blob_ID ?bs = map (\<lambda>i. int i + 1) [0..<length ?bs]" and bnext: "wr_bnext wr = 0 \<or> wr_bnext wr = int (length ?bs) + 1"
    unfolding wr_rel_def by blast
  have i: "?i = int (length ?bs) + 1" by (rule nextid_rel[OF ids bnext])
  have "?i \<notin> live_at (wr_item wr) (bun_n (wr_bw wr) - 1)" using ids_less[OF ids] i by (fastforce simp: live_at_def)
  moreover have "int64_ok ?i" using len i by (simp add: int64_ok_def)
  ultimately obtain s' bw' where wb: "bun_WriteBlob E now (is_S st) (wr_bw wr) (wr_item wr) ?i (c, None) =
      ((blob_results (e_H E) c (bun_n bw' - 1), None), s', bw')"
    using bun_WriteBlob_writing[OF assms(1) w f iid n, of ?i now c None] by metis
  show "(snd (fst (Writer_WriteBlob E now st wr (c, None) sz md5 sha256)) = None) = sums_ok (e_H E) c sz md5 sha256"
    using new by (auto simp: Writer_WriteBlob_def Let_def wb blob_results_def ValidateWriteBlob_def testhash_def sums_ok_def)
  show "snd (fst (Writer_WriteBlob E now st wr (c, None) sz md5 sha256)) = None \<Longrightarrow>
      fst (fst (Writer_WriteBlob E now st wr (c, None) sz md5 sha256)) = int (length ?bs) + 1"
    using new by (auto simp: Writer_WriteBlob_def Let_def wb[unfolded i] i split: if_splits)
qed

end

section \<open>Executing the commands\<close>

text \<open>Uploaded files in a store that keeps its contract, an item store in another, and a blob cache whose \<open>Delete\<close> does not fail.\<close>

locale commit_env = fr: fragments F fcont fwst fokkey fokpre finv FJ + item_refine S cont wst okkey okpre sinv E
  for F :: "('f, 'v) store_ops" and fcont fwst fokkey fokpre finv and FJ :: "file_t json"
    and S :: "('s, 'w) store_ops" and cont wst okkey okpre sinv and E :: "('s, 'w, 'c) item_env" +
  fixes C :: "('b, 'u) cache_ops"
  assumes cache_del: "fst (bc_Delete C b k) = None"
begin

lemma files_state:
  assumes "fr.inv files" and "finv s'" and "fcont s' = fcont (fr_state files)" and "fwst s' = fwst (fr_state files)"
  shows "fr.inv (files\<lparr>fr_state := s'\<rparr>)" and "abs_files fcont (files\<lparr>fr_state := s'\<rparr>) = abs_files fcont files"
proof -
  show "fr.inv (files\<lparr>fr_state := s'\<rparr>)" by (rule frag_inv_state[OF assms(1-3)]) (simp add: assms(4))
  show "abs_files fcont (files\<lparr>fr_state := s'\<rparr>) = abs_files fcont files"
    by (auto simp: fun_eq_iff abs_files_def frag_content_def assms(3) split: option.splits)
qed

text \<open>What a command does to the writer is a list of writer operations; \<open>cmd_rel\<close> relates the state before and
  after, for the draft \<open>d\<close> of the specification.\<close>

definition cmd_rel ::
  "time \<Rightarrow> nat \<Rightarrow> ('s, 'w, 'c, 'f, 'b) commit \<Rightarrow> ('s, 'w, 'c, 'f, 'b) commit \<Rightarrow> adraft \<Rightarrow> adraft \<Rightarrow> bool" where
  "cmd_rel now n st st' d d' =
     ((\<exists>ops. (cm_items st', cm_wr st') = fold (item_step E now) ops (cm_items st, cm_wr st) \<and> fold (spec_step (e_H E)) ops d = d' \<and>
         length ops \<le> n) \<and>
      fr.inv (cm_files st') \<and> abs_files fcont (cm_files st') = abs_files fcont (cm_files st) \<and>
      cm_tx st' = (cm_tx st)\<lparr>tx_Err := tx_Err (cm_tx st'), tx_BlobMap := tx_BlobMap (cm_tx st')\<rparr>)"

lemma cmd_rel_ops:
  assumes "(cm_items st', cm_wr st') = fold (item_step E now) ops (cm_items st, cm_wr st)" and "fold (spec_step (e_H E)) ops d = d'"
    and "length ops \<le> n" and "fr.inv (cm_files st')" and "abs_files fcont (cm_files st') = abs_files fcont (cm_files st)"
    and "cm_tx st' = (cm_tx st)\<lparr>tx_Err := tx_Err (cm_tx st'), tx_BlobMap := tx_BlobMap (cm_tx st')\<rparr>"
  shows "cmd_rel now n st st' d d'"
  using assms unfolding cmd_rel_def by blast

lemma cmd_rel_trans:
  assumes "cmd_rel now n st st1 d d1" and "cmd_rel now m st1 st2 d1 d2"
  shows "cmd_rel now (n + m) st st2 d d2"
proof -
  obtain ops1 ops2 where o: "(cm_items st1, cm_wr st1) = fold (item_step E now) ops1 (cm_items st, cm_wr st)"
      "fold (spec_step (e_H E)) ops1 d = d1" "length ops1 \<le> n"
      "(cm_items st2, cm_wr st2) = fold (item_step E now) ops2 (cm_items st1, cm_wr st1)" "fold (spec_step (e_H E)) ops2 d1 = d2" "length ops2 \<le> m"
    using assms unfolding cmd_rel_def by blast
  have tx: "cm_tx st1 = (cm_tx st)\<lparr>tx_Err := tx_Err (cm_tx st1), tx_BlobMap := tx_BlobMap (cm_tx st1)\<rparr>"
      "cm_tx st2 = (cm_tx st1)\<lparr>tx_Err := tx_Err (cm_tx st2), tx_BlobMap := tx_BlobMap (cm_tx st2)\<rparr>"
    using assms unfolding cmd_rel_def by blast+
  have "cm_tx st2 = (cm_tx st)\<lparr>tx_Err := tx_Err (cm_tx st2), tx_BlobMap := tx_BlobMap (cm_tx st2)\<rparr>"
    by (subst tx(2), subst tx(1)) simp
  then show ?thesis
    by (intro cmd_rel_ops[where ops = "ops1 @ ops2"]) (use o assms in \<open>simp_all add: cmd_rel_def\<close>)
qed

lemma cmd_rel_same:
  assumes "fr.inv (cm_files st)" and "cm_items st' = cm_items st" and "cm_files st' = cm_files st" and "cm_tx st' = cm_tx st"
    and "item_step E now op (cm_items st, cm_wr st) = (cm_items st, cm_wr st')"
  shows "cmd_rel now 2 st st' d (spec_step (e_H E) op d)"
  by (rule cmd_rel_ops[where ops = "[op]"]) (use assms in simp_all)

lemma cmd_rel_refl: "fr.inv (cm_files st) \<Longrightarrow> cmd_rel now n st st d d"
  by (rule cmd_rel_ops[where ops = "[]"]) simp_all

lemma exec_add_rel:
  assumes inv: "sinv (is_S (cm_items st))" and rel: "wr_rel (e_H E) (e_Z E) (cont (is_S (cm_items st))) (wst (is_S (cm_items st))) iid (cm_wr st) B d N K vs"
    and iid: "id_ok okkey iid" and n: "bun_n (wr_bw (cm_wr st)) < 2 ^ 63" and len: "int (length (item_Blobs (wr_item (cm_wr st)))) + 1 < 2 ^ 63"
    and fi: "fr.inv (cm_files st)"
  shows "\<exists>err st' d'. exec_add E F now cmd st = Some (err, st') \<and>
      spec_add (e_H E) (abs_files fcont (cm_files st)) (cmd ! 1) (d, tx_BlobMap (cm_tx st)) = (err = None, d', tx_BlobMap (cm_tx st')) \<and>
      cmd_rel now 2 st st' d d' \<and> tx_Err (cm_tx st') = tx_Err (cm_tx st)"
  supply One_nat_def [simp del]
proof (cases "gget (fr_files (cm_files st)) (cmd ! 1)")
  case None
  then show ?thesis using cmd_rel_refl[OF fi]
    by (intro exI[of _ "Some (ErrMessage (''Cannot find '' @ cmd ! 1))"] exI[of _ st] exI[of _ d])
       (simp add: exec_add_def frag_Lookup_def spec_add_def abs_files_def)
next
  case (Some f)
  let ?c = "concat (the (frag_content fcont (cm_files st) (cmd ! 1)))" and ?wr = "cm_wr st"
  let ?sz = "int (length ?c)" and ?md5 = "file_MD5 f" and ?sha = "file_SHA256 f"
  have sz: "file_Size f = ?sz" using file_wf_size[OF frag_invD(3)[OF fi Some]] Some by (simp add: frag_content_def)
  have stat: "st_Size (file_Stat f) = ?sz" "st_MD5 (file_Stat f) = ?md5" "st_SHA256 (file_Stat f) = ?sha" "st_MimeType (file_Stat f) = file_MimeType f"
    by (simp_all add: file_Stat_def sz)
  have fs: "abs_files fcont (cm_files st) (cmd ! 1) = Some (?c, ?md5, ?sha)" using Some by (simp add: abs_files_def)
  have ok: "item_ok (e_H E) B (wr_item ?wr)" "map (abs_blob B) (item_Blobs (wr_item ?wr)) = fst d"
      "map blob_ID (item_Blobs (wr_item ?wr)) = map (\<lambda>i. int i + 1) [0..<length (item_Blobs (wr_item ?wr))]"
    using rel by (auto simp: wr_rel_def writing_def)
  note known = findBlobByHash_spec[OF ok(1) E_H, of ?sz ?md5 ?sha, unfolded ok(2)]
  have len_d: "length (fst d) = length (item_Blobs (wr_item ?wr))" using arg_cong[OF ok(2), of length] by simp
  let ?m = "\<lambda>bid. WMime bid (file_MimeType f)" and ?bm = "\<lambda>bid. gset (cmd ! 1) bid (tx_BlobMap (cm_tx st))"
  show ?thesis
  proof (cases "findBlobByHash (wr_item ?wr) ?sz ?md5 ?sha = 0")
    case False
    let ?bid = "findBlobByHash (wr_item ?wr) ?sz ?md5 ?sha"
    let ?st = "st\<lparr>cm_tx := (cm_tx st)\<lparr>tx_BlobMap := ?bm ?bid\<rparr>, cm_wr := wr_SetMimeType ?wr ?bid (file_MimeType f)\<rparr>"
    have "exec_add E F now cmd st = Some (None, ?st)"
      using Some False by (simp add: exec_add_def frag_Lookup_def stat Writer_WriteBlob_def Let_def)
    moreover have "spec_add (e_H E) (abs_files fcont (cm_files st)) (cmd ! 1) (d, tx_BlobMap (cm_tx st)) = (True, d, ?bm ?bid)"
      using False known findBlobByHash_find[OF ok(1) E_H ok(3) False] by (simp add: spec_add_def fs Let_def ok(2))
    moreover have "cmd_rel now 2 st ?st d d"
      by (rule cmd_rel_ops[where ops = "[?m ?bid]"]) (use fi in simp_all)
    ultimately show ?thesis by (intro exI[of _ None] exI[of _ ?st] exI[of _ d]) simp
  next
    case True
    obtain s1 where rd: "fragreader_copy F copy_buffer (fr_state (cm_files st)) (file_Open f) [] = Some ((?c, None), s1)"
        "finv s1" "fcont s1 = fcont (fr_state (cm_files st))" "fwst s1 = fwst (fr_state (cm_files st))"
      using fr.Open_read_ok[OF fi Some, of copy_buffer] by (auto simp: copy_buffer_def)
    note F1 = files_state[OF fi rd(2-4)]
    note res = WriteBlob_result[OF inv rel iid n len True, of now ?c]
    obtain bid err items1 wr1 where wb: "Writer_WriteBlob E now (cm_items st) ?wr (?c, None) ?sz ?md5 ?sha = ((bid, err), items1, wr1)"
      by (metis prod.exhaust)
    let ?st1 = "st\<lparr>cm_items := items1, cm_wr := wr1, cm_files := (cm_files st)\<lparr>fr_state := s1\<rparr>\<rparr>"
    let ?st = "if err = None then ?st1\<lparr>cm_tx := (cm_tx st)\<lparr>tx_BlobMap := ?bm bid\<rparr>, cm_wr := wr_SetMimeType wr1 bid (file_MimeType f)\<rparr> else ?st1"
    have ex: "exec_add E F now cmd st = Some (err, ?st)"
      using Some True rd(1) by (simp add: exec_add_def frag_Lookup_def stat wb Let_def)
    have nk: "\<not> spec_known (e_H E) (fst d) ?sz ?md5 ?sha" using True known by simp
    let ?d = "spec_step (e_H E) (WBlob ?c ?sz ?md5 ?sha) d"
    have sp: "spec_add (e_H E) (abs_files fcont (cm_files st)) (cmd ! 1) (d, tx_BlobMap (cm_tx st)) = (err = None, ?d, tx_BlobMap (cm_tx ?st))"
      using nk res by (auto simp: spec_add_def fs Let_def wb len_d)
    have step: "item_step E now (WBlob ?c ?sz ?md5 ?sha) (cm_items st, ?wr) = (items1, wr1)" by (simp add: wb)
    have "cmd_rel now 2 st ?st d ?d"
    proof (cases "err = None")
      case True
      show ?thesis unfolding if_P[OF True]
        by (rule cmd_rel_ops[where ops = "[WBlob ?c ?sz ?md5 ?sha, ?m bid]"]) (use F1 step in \<open>simp_all del: item_step.simps(1) spec_step.simps(1)\<close>)
    next
      case False
      show ?thesis unfolding if_not_P[OF False]
        by (rule cmd_rel_ops[where ops = "[WBlob ?c ?sz ?md5 ?sha]"]) (use F1 step in \<open>simp_all del: item_step.simps(1) spec_step.simps(1)\<close>)
    qed
    then show ?thesis using ex sp by (intro exI[of _ err] exI[of _ ?st] exI[of _ ?d]) simp
  qed
qed

lemma wf_cmd: "WellFormed cmd \<Longrightarrow> cmd ! 0 = ''delete'' \<or> cmd ! 0 = ''slot'' \<or> cmd ! 0 = ''note'' \<or> cmd ! 0 = ''add'' \<or> cmd ! 0 = ''sleep'' \<or> cmd ! 0 = ''mimetype''"
  unfolding WellFormed_def if_bool_eq_disj by blast

lemma wf_delete: "WellFormed cmd \<Longrightarrow> cmd ! 0 = ''delete'' \<Longrightarrow> \<exists>b. parse_int (cmd ! 1) = Some b"
  unfolding WellFormed_def if_bool_eq_disj by (elim disjE conjE) simp_all

lemma Execute_rel:
  assumes inv: "sinv (is_S (cm_items st))" and rel: "wr_rel (e_H E) (e_Z E) (cont (is_S (cm_items st))) (wst (is_S (cm_items st))) iid (cm_wr st) B d N K vs"
    and iid: "id_ok okkey iid" and n: "bun_n (wr_bw (cm_wr st)) < 2 ^ 63" and len: "int (length (item_Blobs (wr_item (cm_wr st)))) + 1 < 2 ^ 63"
    and fi: "fr.inv (cm_files st)"
  shows "\<exists>err st' d'. cmd_Execute E F C now cmd st = Some (err, st') \<and>
      spec_cmd (e_H E) (abs_files fcont (cm_files st)) cmd (d, tx_BlobMap (cm_tx st)) = (err = None, d', tx_BlobMap (cm_tx st')) \<and>
      cmd_rel now 2 st st' d d' \<and> tx_Err (cm_tx st') = tx_Err (cm_tx st)"
proof -
  note same = cmd_rel_same[OF fi refl refl refl] and stay = cmd_rel_refl[OF fi]
  consider (bad) "\<not> WellFormed cmd" | (delete) "WellFormed cmd" "cmd ! 0 = ''delete''" | (slot) "WellFormed cmd" "cmd ! 0 = ''slot''"
    | (add) "WellFormed cmd" "cmd ! 0 = ''add''" | (mime) "WellFormed cmd" "cmd ! 0 = ''mimetype''"
    | (cnote) "WellFormed cmd" "cmd ! 0 = ''note''" | (sleep) "WellFormed cmd" "cmd ! 0 = ''sleep''"
    using wf_cmd[of cmd] by blast
  then show ?thesis
  proof cases
    case bad
    then show ?thesis using stay by (auto simp: cmd_Execute_def spec_cmd_def)
  next
    case delete
    then obtain b where b: "parse_int (cmd ! 1) = Some b" using wf_delete by blast
    obtain err c1 where c1: "bc_Delete C (cm_cache st) (cache_key (tx_ItemID (cm_tx st)) b) = (err, c1)" by fastforce
    then have e: "err = None" using cache_del[of "cm_cache st" "cache_key (tx_ItemID (cm_tx st)) b"] by simp
    let ?st = "st\<lparr>cm_cache := c1, cm_wr := DeleteBlob (cm_wr st) b\<rparr>"
    have "cmd_Execute E F C now cmd st = Some (None, ?st)" using delete b by (simp add: cmd_Execute_def exec_delete_def c1 e Let_def)
    moreover have "cmd_rel now 2 st ?st d (spec_step (e_H E) (WDelete b) d)" by (rule cmd_rel_same[OF fi]) simp_all
    ultimately show ?thesis using delete b by (intro exI[of _ None] exI[of _ ?st]) (auto simp: spec_cmd_def)
  next
    case slot
    let ?r = "case gget (tx_BlobMap (cm_tx st)) (cmd ! 2) of Some b \<Rightarrow> Some b | None \<Rightarrow> parse_int (cmd ! 2)"
    show ?thesis
    proof (cases ?r)
      case None
      then show ?thesis using slot stay by (auto simp: cmd_Execute_def spec_cmd_def exec_slot_def)
    next
      case (Some b)
      let ?st = "st\<lparr>cm_wr := SetSlot (cm_wr st) (cmd ! 1) b\<rparr>"
      have "cmd_Execute E F C now cmd st = Some (None, ?st)" using slot Some by (simp add: cmd_Execute_def exec_slot_def)
      moreover have "cmd_rel now 2 st ?st d (spec_step (e_H E) (WSlot (cmd ! 1) b) d)" by (rule cmd_rel_same[OF fi]) simp_all
      ultimately show ?thesis using slot Some by (intro exI[of _ None] exI[of _ ?st]) (auto simp: spec_cmd_def)
    qed
  next
    case add
    with exec_add_rel[OF assms, of now cmd] show ?thesis by (simp add: cmd_Execute_def spec_cmd_def)
  next
    case mime
    show ?thesis
    proof (cases "parse_int (cmd ! 1)")
      case None
      then show ?thesis using mime stay by (auto simp: cmd_Execute_def spec_cmd_def exec_mimetype_def)
    next
      case (Some b)
      let ?st = "st\<lparr>cm_wr := wr_SetMimeType (cm_wr st) b (cmd ! 2)\<rparr>"
      have "cmd_Execute E F C now cmd st = Some (None, ?st)" using mime Some by (simp add: cmd_Execute_def exec_mimetype_def)
      moreover have "cmd_rel now 2 st ?st d (spec_step (e_H E) (WMime b (cmd ! 2)) d)" by (rule cmd_rel_same[OF fi]) simp_all
      ultimately show ?thesis using mime Some by (intro exI[of _ None] exI[of _ ?st] exI[of _ d]) (simp add: spec_cmd_def)
    qed
  next
    case cnote
    let ?st = "st\<lparr>cm_wr := SetNote (cm_wr st) (cmd ! 1)\<rparr>"
    have "cmd_Execute E F C now cmd st = Some (None, ?st)" using cnote by (simp add: cmd_Execute_def)
    moreover have "cmd_rel now 2 st ?st d (spec_step (e_H E) (WNote (cmd ! 1)) d)" by (rule cmd_rel_same[OF fi]) simp_all
    ultimately show ?thesis using cnote by (intro exI[of _ None] exI[of _ ?st] exI[of _ d]) (simp add: spec_cmd_def)
  next
    case sleep
    then show ?thesis using stay by (auto simp: cmd_Execute_def spec_cmd_def)
  qed
qed

lemma exec_cmds_rel:
  assumes "sinv (is_S (cm_items st))" and "wr_rel (e_H E) (e_Z E) (cont (is_S (cm_items st))) (wst (is_S (cm_items st))) iid (cm_wr st) B d N K vs"
    and iid: "id_ok okkey iid" and "bun_n (wr_bw (cm_wr st)) + 2 * int (length cmds) \<le> 2 ^ 63"
    and "int (length (item_Blobs (wr_item (cm_wr st)))) + 2 * int (length cmds) < 2 ^ 63" and "fr.inv (cm_files st)"
  shows "\<exists>st' d' ok. exec_cmds E F C now cmds st = Some st' \<and>
      spec_cmds (e_H E) (abs_files fcont (cm_files st)) cmds (d, tx_BlobMap (cm_tx st)) = (ok, d', tx_BlobMap (cm_tx st')) \<and>
      cmd_rel now (2 * length cmds) st st' d d' \<and> (if ok then tx_Err (cm_tx st') = tx_Err (cm_tx st) else tx_Err (cm_tx st') \<noteq> [])"
  using assms(1,2,4,5,6)
proof (induction cmds arbitrary: st B d)
  case Nil
  then show ?case by (intro exI[of _ st] exI[of _ d] exI[of _ True]) (simp add: cmd_rel_refl)
next
  case (Cons cmd cmds)
  have b: "bun_n (wr_bw (cm_wr st)) < 2 ^ 63" "int (length (item_Blobs (wr_item (cm_wr st)))) + 1 < 2 ^ 63" using Cons.prems(3,4) by simp_all
  from Execute_rel[OF Cons.prems(1,2) iid b Cons.prems(5), of now cmd]
  obtain err st1 d1 where ex: "cmd_Execute E F C now cmd st = Some (err, st1)"
      "spec_cmd (e_H E) (abs_files fcont (cm_files st)) cmd (d, tx_BlobMap (cm_tx st)) = (err = None, d1, tx_BlobMap (cm_tx st1))"
      "cmd_rel now 2 st st1 d d1" "tx_Err (cm_tx st1) = tx_Err (cm_tx st)" by blast
  show ?case
  proof (cases err)
    case (Some e)
    let ?st = "st1\<lparr>cm_tx := (cm_tx st1)\<lparr>tx_Err := tx_Err (cm_tx st1) @ [fmt_v_strings cmd @ '': '' @ err_Error e]\<rparr>\<rparr>"
    obtain errs bm where tx: "cm_tx st1 = (cm_tx st)\<lparr>tx_Err := errs, tx_BlobMap := bm\<rparr>" using ex(3) unfolding cmd_rel_def by blast
    have "cm_tx ?st = (cm_tx st)\<lparr>tx_Err := tx_Err (cm_tx ?st), tx_BlobMap := tx_BlobMap (cm_tx ?st)\<rparr>"
      by (simp add: tx)
    then have "cmd_rel now (2 * length (cmd # cmds)) st ?st d d1"
      using ex(3) unfolding cmd_rel_def by auto
    then show ?thesis using ex Some by (intro exI[of _ ?st] exI[of _ d1] exI[of _ False]) simp
  next
    case None
    obtain ops where ops: "(cm_items st1, cm_wr st1) = fold (item_step E now) ops (cm_items st, cm_wr st)"
        "fold (spec_step (e_H E)) ops d = d1" "length ops \<le> 2" "fr.inv (cm_files st1)" "abs_files fcont (cm_files st1) = abs_files fcont (cm_files st)"
      using ex(3) unfolding cmd_rel_def by blast
    have "bun_n (wr_bw (cm_wr st)) + int (length ops) \<le> 2 ^ 63" "int (length (item_Blobs (wr_item (cm_wr st)))) + int (length ops) < 2 ^ 63"
      using Cons.prems(3,4) ops(3) by simp_all
    from steps_rel[OF Cons.prems(1,2) iid this, of now] ops(1,2)
    obtain B1 where r1: "sinv (is_S (cm_items st1))"
        "wr_rel (e_H E) (e_Z E) (cont (is_S (cm_items st1))) (wst (is_S (cm_items st1))) iid (cm_wr st1) B1 d1 N K vs"
        "bun_n (wr_bw (cm_wr st1)) \<le> bun_n (wr_bw (cm_wr st)) + int (length ops)"
        "length (item_Blobs (wr_item (cm_wr st1))) \<le> length (item_Blobs (wr_item (cm_wr st))) + length ops" by auto
    have b1: "bun_n (wr_bw (cm_wr st1)) + 2 * int (length cmds) \<le> 2 ^ 63"
        "int (length (item_Blobs (wr_item (cm_wr st1)))) + 2 * int (length cmds) < 2 ^ 63"
      using r1(3,4) ops(3) Cons.prems(3,4) by simp_all
    from Cons.IH[OF r1(1,2) b1 ops(4)] obtain st' d' ok where IH: "exec_cmds E F C now cmds st1 = Some st'"
        "spec_cmds (e_H E) (abs_files fcont (cm_files st1)) cmds (d1, tx_BlobMap (cm_tx st1)) = (ok, d', tx_BlobMap (cm_tx st'))"
        "cmd_rel now (2 * length cmds) st1 st' d1 d'" "if ok then tx_Err (cm_tx st') = tx_Err (cm_tx st1) else tx_Err (cm_tx st') \<noteq> []" by blast
    have "cmd_rel now (2 * length (cmd # cmds)) st st' d d'" using cmd_rel_trans[OF ex(3) IH(3)] by simp
    then show ?thesis using ex IH None ops(5) by (intro exI[of _ st'] exI[of _ d'] exI[of _ ok]) simp
  qed
qed

text \<open>The whole commit.\<close>

lemma Commit_rest:
  fixes T :: "('t, 'x) store_ops" and files :: "'f frag_store" and cache :: 'b
  assumes r: "rest items (tx_ItemID tx) item B" and ok: "id_ok okkey (tx_ItemID tx)" and pre: "okpre (tx_ItemID tx)"
    and n: "item_MaxBundle item + int (length (item_Blobs item)) + 4 * int (length (tx_Commands tx)) + 2 \<le> 2 ^ 63"
    and fi: "fr.inv files"
    and dels: "\<forall>i \<in> set (snd (snd (fst (snd (spec_cmds (e_H E) (abs_files fcont files) (tx_Commands tx) (spec_open (abs_item B item), tx_BlobMap tx)))))).
      i \<le> int (length (item_Blobs item))"
  shows "\<exists>items' files' cache' s' tx' item' B'.
      tx_Commit E F C T TJ now items files cache s tx = Some (items', files', cache', s', tx') \<and>
      tx_saved E F C now items files cache tx = Some item' \<and>
      (json_rt (e_J E) (item_tape item') \<longrightarrow> rest items' (tx_ItemID tx) item' B') \<and>
      abs_item B' item' = snd (spec_commit (e_H E) (abs_files fcont files) (tx_Commands tx) (tx_BlobMap tx) (abs_item B item)) \<and>
      sinv (is_S items') \<and> is_useStore items' \<and> frame (cont (is_S items), wst (is_S items)) (cont (is_S items'), wst (is_S items')) (tx_ItemID tx) \<and>
      (\<forall>j y. j \<noteq> tx_ItemID tx \<longrightarrow> ic_Lookup (e_C E) (is_cache items') j = Some y \<longrightarrow> ic_Lookup (e_C E) (is_cache items) j = Some y) \<and>
      fr.inv files' \<and> abs_files fcont files' = abs_files fcont files \<and>
      tx_Status tx' = (if tx_Err tx = [] \<and> fst (spec_commit (e_H E) (abs_files fcont files) (tx_Commands tx) (tx_BlobMap tx) (abs_item B item))
                       then StatusFinished else StatusError) \<and>
      tx_ID tx' = tx_ID tx \<and> tx_ItemID tx' = tx_ItemID tx"
proof -
  let ?iid = "tx_ItemID tx" and ?cmds = "tx_Commands tx" and ?tx1 = "tx\<lparr>tx_Status := StatusIngest\<rparr>" and ?d0 = "spec_open (abs_item B item)"
  have "0 \<le> item_MaxBundle item" using r by (simp add: rest_def at_rest_def)
  then have bnd: "item_MaxBundle item + 1 < 2 ^ 63" using n by simp
  obtain items1 iw where o: "items_Open E now items ?iid (tx_Creator tx) = (Inr iw, items1)" "sinv (is_S items1)"
    "wr_rel (e_H E) (e_Z E) (cont (is_S items1)) (wst (is_S items1)) ?iid iw B ?d0 (item_MaxBundle item) (length (item_Blobs item)) (item_Versions item)"
    "bun_n (wr_bw iw) = item_MaxBundle item + 2" "length (item_Blobs (wr_item iw)) = length (item_Blobs item)"
    by (rule Open_rel[OF r ok pre bnd, of now "tx_Creator tx"]) (rule that; assumption)
  let ?st0 = "\<lparr>cm_items = items1, cm_wr = iw, cm_tx = ?tx1, cm_files = files, cm_cache = cache\<rparr>"
  have "bun_n (wr_bw (cm_wr ?st0)) + 2 * int (length ?cmds) \<le> 2 ^ 63"
      "int (length (item_Blobs (wr_item (cm_wr ?st0)))) + 2 * int (length ?cmds) < 2 ^ 63"
    using n \<open>0 \<le> item_MaxBundle item\<close> o(4,5) by simp_all
  from exec_cmds_rel[of ?st0, simplified, OF o(2,3) ok this[simplified] fi, of now]
  obtain st' d' ok' where ex: "exec_cmds E F C now ?cmds ?st0 = Some st'"
      "spec_cmds (e_H E) (abs_files fcont files) ?cmds (?d0, tx_BlobMap tx) = (ok', d', tx_BlobMap (cm_tx st'))"
      "cmd_rel now (2 * length ?cmds) ?st0 st' ?d0 d'" "if ok' then tx_Err (cm_tx st') = tx_Err tx else tx_Err (cm_tx st') \<noteq> []" by auto
  obtain ops where ops: "(cm_items st', cm_wr st') = fold (item_step E now) ops (items1, iw)" "fold (spec_step (e_H E)) ops ?d0 = d'"
      "length ops \<le> 2 * length ?cmds" "fr.inv (cm_files st')" "abs_files fcont (cm_files st') = abs_files fcont files"
      "cm_tx st' = ?tx1\<lparr>tx_Err := tx_Err (cm_tx st'), tx_BlobMap := tx_BlobMap (cm_tx st')\<rparr>"
    using ex(3) unfolding cmd_rel_def by auto
  have dl: "op_dels ops = snd (snd d')" using fold_spec_dels[of "e_H E" ops ?d0] ops(2) by (simp add: spec_open_def)
  have n': "item_MaxBundle item + int (length (item_Blobs item)) + 2 * int (length ops) + 2 \<le> 2 ^ 63" using n ops(3) by simp
  have d': "\<forall>i \<in> set (op_dels ops). i \<le> int (length (item_Blobs item))" using dels ex(2) dl by simp
  obtain items' item' B' where s: "item_session E now items ?iid (tx_Creator tx) ops = (None, items', Some item')"
      "json_rt (e_J E) (item_tape item') \<longrightarrow> rest items' ?iid item' B'" "abs_item B' item' = spec_session (e_H E) ops (abs_item B item)"
      "sinv (is_S items')" "is_useStore items'" "frame (cont (is_S items), wst (is_S items)) (cont (is_S items'), wst (is_S items')) ?iid"
      "\<forall>j y. j \<noteq> ?iid \<longrightarrow> ic_Lookup (e_C E) (is_cache items') j = Some y \<longrightarrow> ic_Lookup (e_C E) (is_cache items) j = Some y"
    using session_rest[OF r ok pre n' d', of now "tx_Creator tx"] by blast
  obtain wr' where cl: "Writer_Close E now (cm_items st') (cm_wr st') = (None, items', wr')" "item' = wr_item wr'"
    using s(1) by (auto simp: item_session_def o(1) simp flip: ops(1) split: prod.splits)
  let ?tx3 = "(cm_tx st')\<lparr>tx_Status := (if length (tx_Err (cm_tx st')) > 0 then StatusError else StatusFinished)\<rparr>"
  obtain s' tx' where sv: "tx_save T TJ now s ?tx3 = (s', tx')" by fastforce
  then have tx': "tx_Status tx' = tx_Status ?tx3" "tx_ID tx' = tx_ID ?tx3" "tx_ItemID tx' = tx_ItemID ?tx3"
    by (auto simp: tx_save_def Let_def split: if_splits)
  have com: "tx_Commit E F C T TJ now items files cache s tx = Some (items', cm_files st', cm_cache st', s', tx')"
    using sv by (simp add: tx_Commit_def o(1) ex(1) cl(1) Let_def)
  have sav: "tx_saved E F C now items files cache tx = Some item'" by (simp add: tx_saved_def o(1) ex(1) cl)
  obtain cs slots ds where d3: "d' = (cs, slots, ds)" by (cases d')
  have sp: "spec_commit (e_H E) (abs_files fcont files) ?cmds (tx_BlobMap tx) (abs_item B item) = (ok', spec_session (e_H E) ops (abs_item B item))"
    by (simp add: spec_commit_def spec_session_def ex(2) ops(2) d3)
  obtain errs bm where txe: "cm_tx st' = ?tx1\<lparr>tx_Err := errs, tx_BlobMap := bm\<rparr>" using ops(6) by blast
  have status: "tx_Status tx' = (if tx_Err tx = [] \<and> ok' then StatusFinished else StatusError)" "tx_ID tx' = tx_ID tx" "tx_ItemID tx' = ?iid"
    using ex(4) by (auto simp: tx' txe split: if_splits)
  show ?thesis unfolding sp fst_conv snd_conv using com sav s(2-7) ops(4,5) status by blast
qed

end

end
