(* ===== verification/Codec_Instances.thy ===== *)
theory Codec_Instances
  imports Items Bagit_Correct
begin

text \<open>
  A codec for the metadata of items that can be executed, and an environment of the item store built from it: the
  parameters which stand for library code can be instantiated.
\<close>

section \<open>Fields\<close>

definition enc_fields :: "string list \<Rightarrow> string" where
  "enc_fields fs = concat (map (\<lambda>f. hex_encode f @ '','') fs)"

definition dec_fields :: "string \<Rightarrow> string list" where
  "dec_fields s = map (\<lambda>f. fst (hex_decode f)) (butlast (split_all CHR '','' s))"

definition enc_int :: "int \<Rightarrow> string" where
  "enc_int = fmt_d"

definition dec_int :: "string \<Rightarrow> int" where
  "dec_int s = (case s of
       [] \<Rightarrow> 0
     | c # cs \<Rightarrow> if c = CHR ''-'' then - int (the (parse_nat cs)) else int (the (parse_nat s)))"

lemma dec_enc_fields [simp]: "dec_fields (enc_fields fs) = fs"
proof -
  have "\<not> hex_char CHR '',''" by code_simp
  then have c: "CHR '','' \<notin> set (hex_encode f)" for f using hex_encode_chars by blast
  have "split_all CHR '','' (enc_fields fs) = map hex_encode fs @ [[]]"
  proof (induction fs)
    case (Cons f fs)
    then show ?case using split_all_line[OF c, of f "enc_fields fs"] by (simp add: enc_fields_def)
  qed (simp add: enc_fields_def)
  then show ?thesis by (simp add: dec_fields_def comp_def)
qed

lemma dec_enc_int [simp]: "dec_int (enc_int n) = n"
proof (cases "n < 0")
  case True
  then show ?thesis by (simp add: dec_int_def enc_int_def fmt_d_def parse_nat_digits)
next
  case False
  obtain c cs where c: "nat_digits (nat n) = c # cs" by (metis list.exhaust nat_digits_nonempty)
  then have "c \<noteq> CHR ''-''" using nat_digits_hd(1)[of "nat n"] digit_char_not_sign by auto
  with False c parse_nat_digits[of "nat n"] show ?thesis by (simp add: dec_int_def enc_int_def fmt_d_def)
qed

section \<open>Item metadata\<close>

definition enc_blob :: "blobTape \<Rightarrow> string" where
  "enc_blob b = enc_fields [enc_int (bt_BlobID b), enc_int (bt_Bundle b), enc_int (bt_ByteCount b), bt_MD5 b, bt_SHA256 b,
     bt_MimeType b, enc_int (bt_SaveDate b), bt_Creator b, enc_int (bt_DeleteDate b), bt_Deleter b, bt_DeleteNote b]"

definition dec_blob :: "string \<Rightarrow> blobTape" where
  "dec_blob s = (let f = dec_fields s in
     \<lparr>bt_BlobID = dec_int (f ! 0), bt_Bundle = dec_int (f ! 1), bt_ByteCount = dec_int (f ! 2), bt_MD5 = f ! 3, bt_SHA256 = f ! 4,
      bt_MimeType = f ! 5, bt_SaveDate = dec_int (f ! 6), bt_Creator = f ! 7, bt_DeleteDate = dec_int (f ! 8), bt_Deleter = f ! 9,
      bt_DeleteNote = f ! 10\<rparr>)"

definition enc_slots :: "(string, int) gomap \<Rightarrow> string" where
  "enc_slots m = enc_fields (map (\<lambda>(k, v). enc_fields [k, enc_int v]) m)"

definition dec_slots :: "string \<Rightarrow> (string, int) gomap" where
  "dec_slots s = map (\<lambda>p. let f = dec_fields p in (f ! 0, dec_int (f ! 1))) (dec_fields s)"

definition enc_version :: "versionTape \<Rightarrow> string" where
  "enc_version v = enc_fields [enc_int (vt_VersionID v), enc_int (vt_SaveDate v), vt_Creator v, vt_Note v, enc_slots (vt_Slots v)]"

definition dec_version :: "string \<Rightarrow> versionTape" where
  "dec_version s = (let f = dec_fields s in
     \<lparr>vt_VersionID = dec_int (f ! 0), vt_SaveDate = dec_int (f ! 1), vt_Creator = f ! 2, vt_Note = f ! 3, vt_Slots = dec_slots (f ! 4)\<rparr>)"

definition item_json :: "itemOnTape json" where
  "item_json = \<lparr>
     j_enc = (\<lambda>t. enc_fields [tape_ItemID t, enc_int (tape_ByteCount t), enc_int (tape_MaxBundle t),
        enc_fields (map enc_version (tape_Versions t)), enc_fields (map enc_blob (tape_Blobs t))]),
     j_dec = (\<lambda>s. let f = dec_fields s in
        if length f \<noteq> 5 then Inl ErrJSON
        else Inr \<lparr>tape_ItemID = f ! 0, tape_ByteCount = dec_int (f ! 1), tape_MaxBundle = dec_int (f ! 2),
           tape_Versions = map dec_version (dec_fields (f ! 3)), tape_Blobs = map dec_blob (dec_fields (f ! 4))\<rparr>)\<rparr>"

lemma dec_enc_blob [simp]: "dec_blob (enc_blob b) = b"
  by (simp add: dec_blob_def enc_blob_def Let_def)

lemma dec_enc_slots [simp]: "dec_slots (enc_slots m) = m"
  by (induction m) (auto simp: dec_slots_def enc_slots_def Let_def)

lemma dec_enc_version [simp]: "dec_version (enc_version v) = v"
  by (simp add: dec_version_def enc_version_def Let_def)

lemma item_json_rt: "json_rt item_json t"
  by (simp add: json_rt_def item_json_def Let_def comp_def)

definition mem_env :: "(memory, nat, memoryCache) item_env" where
  "mem_env = \<lparr>e_S = mem_ops, e_C = memoryCache_ops, e_H = demo_hashes, e_Z = demo_zip, e_J = item_json, e_date = (\<lambda>t. ''2020-01-01'')\<rparr>"

lemma mem_env_simps [simp]:
  "e_S mem_env = mem_ops" "e_C mem_env = memoryCache_ops" "e_H mem_env = demo_hashes" "e_Z mem_env = demo_zip" "e_J mem_env = item_json"
  by (simp_all add: mem_env_def)

end
