(* ===== verification/Item_Properties.thy ===== *)
theory Item_Properties
  imports Item_Refine Codec_Instances
begin

text \<open>
  The properties of the item store over the in-memory store of bundles.
\<close>

section \<open>The item store over the in-memory store\<close>

definition cache_ok :: "'c item_cache \<Rightarrow> bool" where
  "cache_ok C = (\<forall>c i x j y. ic_Lookup C (ic_Set C c i x) j = Some y \<longrightarrow> (j = i \<and> y = x) \<or> (j \<noteq> i \<and> ic_Lookup C c j = Some y))"

lemma memoryCache_ok: "cache_ok memoryCache_ops"
  by (simp add: cache_ok_def memoryCache_ops_def)

lemma Nullcache_ok: "cache_ok Nullcache"
  by (simp add: cache_ok_def Nullcache_def)

definition env_ok :: "(memory, nat, 'c) item_env \<Rightarrow> bool" where
  "env_ok E = (e_S E = mem_ops \<and> hashes_ok (e_H E) \<and> (\<forall>fs. zip_rt (e_Z E) fs) \<and> cache_ok (e_C E))"

lemma mem_items: "env_ok E \<Longrightarrow> item_refine mem_ops mem_cont mem_wst (\<lambda>_. True) (\<lambda>_. True) mem_inv E"
  by unfold_locales (simp_all add: env_ok_def cache_ok_def)

lemma mem_env_ok: "env_ok mem_env"
  by (simp add: env_ok_def demo_hashes_ok demo_zip_rt memoryCache_ok)

interpretation memitems: item_refine mem_ops mem_cont mem_wst "\<lambda>_. True" "\<lambda>_. True" mem_inv mem_env
  by (rule mem_items[OF mem_env_ok])

text \<open>Ids without a slash can be the names of bundles.\<close>

definition good_id :: "string \<Rightarrow> bool" where
  "good_id iid = (CHR ''/'' \<notin> set (trim_suffix iid ''.zip''))"

lemma good_id_ok: "good_id iid \<Longrightarrow> id_ok (\<lambda>_. True) iid"
  by (simp add: id_ok_def good_id_def)

lemma new_memory: "mem_inv NewMemory" "mem_cont NewMemory = (\<lambda>k. None)" "mem_wst NewMemory = (\<lambda>w. None)"
  by (simp_all add: NewMemory_def mem_inv_def mem_cont_def mem_wst_def mem_key_of_def fun_eq_iff)

lemma all_rest_new:
  assumes "env_ok E" and "\<forall>j. ic_Lookup (e_C E) c j = None"
  shows "item_refine.all_rest mem_cont mem_wst mem_inv E (items_NewWithCache NewMemory c) no_items"
  by (rule item_refine.all_rest_empty[OF mem_items[OF assms(1)] new_memory assms(2)])

lemma run_rest:
  assumes "env_ok E" and "\<forall>j. ic_Lookup (e_C E) c j = None" and "sessions_ok good_id E ss (items_NewWithCache NewMemory c) no_items"
  obtains errs st where "run_sessions E ss (items_NewWithCache NewMemory c) = (errs, st)" and "set errs \<subseteq> {None}"
    and "\<And>iid. \<exists>item B. item_refine.rest mem_cont mem_wst mem_inv E st iid item B \<and> abs_item B item = spec_sessions (e_H E) ss no_items iid"
proof -
  note I = mem_items[OF assms(1)]
  from item_refine.run_sessions_rest[OF I all_rest_new[OF assms(1,2)] assms(3)] good_id_ok
  obtain errs st where "run_sessions E ss (items_NewWithCache NewMemory c) = (errs, st)" "set errs \<subseteq> {None}"
    "item_refine.all_rest mem_cont mem_wst mem_inv E st (spec_sessions (e_H E) ss no_items)" by blast
  then show thesis using that unfolding item_refine.all_rest_def[OF I] by blast
qed

lemma run_rest_at:
  assumes "env_ok E" and "\<forall>j. ic_Lookup (e_C E) c j = None" and "sessions_ok good_id E ss (items_NewWithCache NewMemory c) no_items"
    and run: "run_sessions E ss (items_NewWithCache NewMemory c) = (errs, st)"
  shows "\<exists>item B. item_refine.rest mem_cont mem_wst mem_inv E st iid item B \<and> abs_item B item = spec_sessions (e_H E) ss no_items iid"
proof -
  obtain errs' st' where run': "run_sessions E ss (items_NewWithCache NewMemory c) = (errs', st')"
    and all: "\<And>iid. \<exists>item B. item_refine.rest mem_cont mem_wst mem_inv E st' iid item B \<and> abs_item B item = spec_sessions (e_H E) ss no_items iid"
    by (rule run_rest[OF assms(1-3)]) (rule that; assumption)
  from run run' have "st' = st" by simp
  with all[of iid] show ?thesis by simp
qed

lemma rest_Item:
  assumes "env_ok E" and r: "item_refine.rest mem_cont mem_wst mem_inv E st iid item B" and "good_id iid"
  shows "(case fst (items_Item E st iid) of
       Inl e \<Rightarrow> e = ErrNoItem \<and> snd (abs_item B item) = []
     | Inr i \<Rightarrow> snd (abs_item B item) \<noteq> [] \<and> item_ID i = iid \<and> (\<forall>v slot. BlobByVersionSlot i v slot = spec_slot (abs_item B item) v slot))"
proof -
  note I = mem_items[OF assms(1)]
  obtain st' where st': "items_Item E st iid = (if item_MaxBundle item = 0 then Inl ErrNoItem else Inr item, st')"
    by (rule item_refine.Item_rest[OF I r good_id_ok[OF assms(3)] TrueI]) (rule that; assumption)
  have R: "at_rest (e_H E) (e_Z E) (e_J E) (mem_cont (is_S st)) (mem_wst (is_S st)) iid item B" using r by (simp add: item_refine.rest_def[OF I])
  then have "ids_ok item" "item_ID item = iid" "item_MaxBundle item = 0 \<longleftrightarrow> item_Versions item = []"
    by (auto simp: at_rest_def closed_def new_item_def split: if_splits)
  then show ?thesis using slot_spec[of item _ _ B] by (auto simp: st' abs_item_def)
qed

section \<open>Properties\<close>

text \<open>C1. The item store refines its specification. After any sequence of sessions, of any items, every session
  has succeeded and for every item a reader gets exactly what the specification says: the content and
  the size of each blob, an error for a deleted or unknown one, and the slot tables of all versions.\<close>

theorem items_refine:
  fixes E :: "(memory, nat, 'c) item_env"
  assumes "env_ok E" and "\<forall>j. ic_Lookup (e_C E) c j = None" and "sessions_ok good_id E ss (items_NewWithCache NewMemory c) no_items"
  shows "let (errs, st) = run_sessions E ss (items_NewWithCache NewMemory c); a = spec_sessions (e_H E) ss no_items
     in set errs \<subseteq> {None} \<and>
        (\<forall>iid. good_id iid \<longrightarrow>
           (\<forall>i. fst (items_Blob E st iid i) = spec_read iid (a iid) i) \<and>
           (case fst (items_Item E st iid) of
              Inl e \<Rightarrow> e = ErrNoItem \<and> snd (a iid) = []
            | Inr item \<Rightarrow> snd (a iid) \<noteq> [] \<and> item_ID item = iid \<and> (\<forall>v slot. BlobByVersionSlot item v slot = spec_slot (a iid) v slot)))"
proof -
  note R = item_refine.sessions_refine[OF mem_items[OF assms(1)] new_memory assms(2,3) conjI[OF good_id_ok TrueI]]
  then obtain errs st where run: "run_sessions E ss (items_NewWithCache NewMemory c) = (errs, st)" by blast
  show ?thesis using R unfolding run Let_def case_prod_conv by blast
qed

definition demo_session :: session where
  "demo_session = (7, ''item1'', ''agent'', [WBlob ''hello'' 0 [] [], WSlot ''a.txt'' 1])"

lemma demo_sessions_ok: "sessions_ok good_id mem_env [demo_session] (items_NewWithCache NewMemory []) no_items"
proof -
  have "good_id ''item1''" by code_simp
  moreover have "findMaxBundle mem_env (items_NewWithCache NewMemory []) ''item1'' = 0" by code_simp
  ultimately show ?thesis
    by (simp add: demo_session_def item_json_rt split: prod.splits option.splits)
qed

theorem items_refine_witness:
  "let (errs, st) = run_sessions mem_env [demo_session] (items_NewWithCache NewMemory [])
   in set errs \<subseteq> {None} \<and> fst (items_Blob mem_env st ''item1'' 1) = Inr ((''hello'', None), 5) \<and>
      fst (items_Blob mem_env st ''item1'' 2) = Inl (NoBlobError ''item1'' 2)"
proof -
  have lk: "\<forall>j. ic_Lookup (e_C mem_env) [] j = None" by (simp add: memoryCache_ops_def)
  have g: "good_id ''item1''" by code_simp
  have "spec_sessions demo_hashes [demo_session] no_items ''item1'' = ([Some ''hello''], [[(''a.txt'', 1)]])"
    unfolding demo_session_def by code_simp
  moreover obtain errs st where run: "run_sessions mem_env [demo_session] (items_NewWithCache NewMemory []) = (errs, st)" by fastforce
  ultimately show ?thesis
    using items_refine[OF mem_env_ok lk demo_sessions_ok] g unfolding run Let_def by (simp add: spec_read_def)
qed

text \<open>C5. The bundles alone hold the items: a new process, with an empty cache, gets from the store that the
  sessions left the same blobs and versions.\<close>

theorem items_reload:
  fixes E :: "(memory, nat, 'c) item_env"
  assumes "env_ok E" and "\<forall>j. ic_Lookup (e_C E) c j = None" and "sessions_ok good_id E ss (items_NewWithCache NewMemory c) no_items"
    and "good_id iid"
  shows "let st = items_New (is_S (snd (run_sessions E ss (items_NewWithCache NewMemory c))));
        E' = \<lparr>e_S = mem_ops, e_C = Nullcache, e_H = e_H E, e_Z = e_Z E, e_J = e_J E, e_date = e_date E\<rparr>;
        a = spec_sessions (e_H E) ss no_items iid
     in (\<forall>i. fst (items_Blob E' st iid i) = spec_read iid a i) \<and>
        (case fst (items_Item E' st iid) of
           Inl e \<Rightarrow> e = ErrNoItem \<and> snd a = []
         | Inr item \<Rightarrow> snd a \<noteq> [] \<and> item_ID item = iid \<and> (\<forall>v slot. BlobByVersionSlot item v slot = spec_slot a v slot))"
proof -
  note I = mem_items[OF assms(1)]
  let ?E = "\<lparr>e_S = mem_ops, e_C = Nullcache, e_H = e_H E, e_Z = e_Z E, e_J = e_J E, e_date = e_date E\<rparr>"
  have ok: "env_ok ?E" using assms(1) Nullcache_ok by (simp add: env_ok_def)
  note I' = mem_items[OF ok]
  obtain errs st where run: "run_sessions E ss (items_NewWithCache NewMemory c) = (errs, st)"
    "\<And>iid. \<exists>item B. item_refine.rest mem_cont mem_wst mem_inv E st iid item B \<and> abs_item B item = spec_sessions (e_H E) ss no_items iid"
    by (rule run_rest[OF assms(1-3)]) (rule that; assumption)
  obtain item B where r: "item_refine.rest mem_cont mem_wst mem_inv E st iid item B" and eq: "abs_item B item = spec_sessions (e_H E) ss no_items iid"
    using run(2)[of iid] by blast
  have r': "item_refine.rest mem_cont mem_wst mem_inv ?E (items_New (is_S st)) iid item B"
    using r unfolding item_refine.rest_def[OF I] item_refine.rest_def[OF I'] by (simp add: items_New_def Nullcache_def)
  note reads = item_refine.Blob_rest[OF I' r' good_id_ok[OF assms(4)] TrueI] rest_Item[OF ok r' assms(4)]
  show ?thesis unfolding run(1) snd_conv Let_def using reads unfolding eq by blast
qed

theorem items_reload_witness:
  "let st = items_New (is_S (snd (run_sessions mem_env [demo_session] (items_NewWithCache NewMemory []))));
       E' = \<lparr>e_S = mem_ops, e_C = Nullcache, e_H = demo_hashes, e_Z = demo_zip, e_J = item_json, e_date = e_date mem_env\<rparr>
   in fst (items_Blob E' st ''item1'' 1) = Inr ((''hello'', None), 5)"
proof -
  have lk: "\<forall>j. ic_Lookup (e_C mem_env) [] j = None" by (simp add: memoryCache_ops_def)
  have g: "good_id ''item1''" by code_simp
  have "spec_sessions demo_hashes [demo_session] no_items ''item1'' = ([Some ''hello''], [[(''a.txt'', 1)]])"
    unfolding demo_session_def by code_simp
  with items_reload[OF mem_env_ok lk demo_sessions_ok g] show ?thesis by (simp add: spec_read_def Let_def)
qed

lemma spec_step_grows: "\<exists>xs. fst (spec_step H op d) = fst d @ xs"
  by (cases d; cases op) auto

lemma spec_steps_grow: "\<exists>xs. fst (fold (spec_step H) ops d) = fst d @ xs"
proof (induction ops arbitrary: d)
  case (Cons op ops)
  obtain xs where "fst (spec_step H op d) = fst d @ xs" using spec_step_grows by blast
  with Cons.IH[of "spec_step H op d"] show ?case by auto
qed simp

lemma fold_dels: "snd (snd (fold (spec_step H) ops d)) = snd (snd d) @ op_dels ops"
proof (induction ops arbitrary: d)
  case (Cons op ops)
  obtain cs sl dl where "d = (cs, sl, dl)" by (cases d)
  with Cons show ?case by (cases op) simp_all
qed simp

text \<open>A session only appends: a version, and blobs; it takes away the blobs it deletes.\<close>

lemma spec_session_keeps:
  shows "\<exists>slots. snd (spec_session H ops a) = snd a @ [slots]"
    and "length (fst a) \<le> length (fst (spec_session H ops a))"
    and "j < length (fst a) \<Longrightarrow> int j + 1 \<notin> set (op_dels ops) \<Longrightarrow> fst (spec_session H ops a) ! j = fst a ! j"
proof -
  obtain cs sl dl where d: "fold (spec_step H) ops (spec_open a) = (cs, sl, dl)" by (metis prod_cases3)
  obtain xs where xs: "cs = fst a @ xs" using spec_steps_grow[of H ops "spec_open a"] d by (auto simp: spec_open_def)
  have dl: "dl = op_dels ops" using fold_dels[of H ops "spec_open a"] d by (simp add: spec_open_def)
  show "\<exists>slots. snd (spec_session H ops a) = snd a @ [slots]" by (simp add: spec_session_def d)
  show "length (fst a) \<le> length (fst (spec_session H ops a))" by (simp add: spec_session_def d spec_kill_def xs)
  assume "j < length (fst a)" "int j + 1 \<notin> set (op_dels ops)"
  then show "fst (spec_session H ops a) ! j = fst a ! j" by (simp add: spec_session_def d spec_kill_def xs dl nth_append)
qed

definition keeps_blob :: "string \<Rightarrow> int \<Rightarrow> session list \<Rightarrow> bool" where
  "keeps_blob iid i ss = list_all (\<lambda>(now, j, creator, ops). j = iid \<longrightarrow> i \<notin> set (op_dels ops)) ss"

lemma spec_sessions_keep:
  assumes "keeps_blob iid i ss" and "spec_read iid (a iid) i = Inr r"
  shows "spec_read iid (spec_sessions H ss a iid) i = Inr r"
  using assms
proof (induction ss arbitrary: a)
  case (Cons x ss)
  obtain now j creator ops where x: "x = (now, j, creator, ops)" by (metis prod_cases4)
  have "spec_read iid ((a(j := spec_session H ops (a j))) iid) i = Inr r"
  proof (cases "j = iid")
    case True
    have i: "snd (a iid) \<noteq> []" "1 \<le> i" "i \<le> int (length (fst (a iid)))" using Cons.prems(2) by (auto simp: spec_read_def split: if_splits)
    have nd: "int (nat (i - 1)) + 1 \<notin> set (op_dels ops)" using Cons.prems(1) True i by (simp add: keeps_blob_def x)
    have "fst (spec_session H ops (a iid)) ! nat (i - 1) = fst (a iid) ! nat (i - 1)"
      by (rule spec_session_keeps(3)[OF _ nd]) (use i in auto)
    moreover have "i \<le> int (length (fst (spec_session H ops (a iid))))" using spec_session_keeps(2)[of "a iid" H ops] i by simp
    moreover have "snd (spec_session H ops (a iid)) \<noteq> []" using spec_session_keeps(1)[of H ops "a iid"] by auto
    ultimately show ?thesis using Cons.prems(2) i True by (simp add: spec_read_def)
  qed (use Cons.prems in simp)
  with Cons.IH[of "a(j := spec_session H ops (a j))"] Cons.prems(1) show ?case by (simp add: x keeps_blob_def del: fun_upd_apply)
qed simp

lemma spec_slots_keep:
  assumes "1 \<le> v" and "v \<le> int (length (snd (a iid)))"
  shows "spec_slot (spec_sessions H ss a iid) v slot = spec_slot (a iid) v slot"
  using assms
proof (induction ss arbitrary: a)
  case (Cons x ss)
  obtain now j creator ops where x: "x = (now, j, creator, ops)" by (metis prod_cases4)
  obtain sl where sl: "snd (spec_session H ops (a j)) = snd (a j) @ [sl]" using spec_session_keeps(1) by blast
  let ?a = "a(j := spec_session H ops (a j))"
  have "v \<le> int (length (snd (?a iid)))" "spec_slot (?a iid) v slot = spec_slot (a iid) v slot"
    using Cons.prems sl by (auto simp: spec_slot_def nth_append)
  with Cons.IH[of ?a] Cons.prems(1) show ?case by (simp add: x del: fun_upd_apply)
qed simp

lemma spec_versions_grow: "length (snd (a iid)) \<le> length (snd (spec_sessions H ss a iid))"
proof (induction ss arbitrary: a)
  case (Cons x ss)
  obtain now j creator ops where x: "x = (now, j, creator, ops)" by (metis prod_cases4)
  obtain sl where sl: "snd (spec_session H ops (a j)) = snd (a j) @ [sl]" using spec_session_keeps(1) by blast
  let ?a = "a(j := spec_session H ops (a j))"
  have "length (snd (a iid)) \<le> length (snd (?a iid))" using sl by simp
  also have "\<dots> \<le> length (snd (spec_sessions H ss ?a iid))" by (rule Cons.IH)
  finally show ?case by (simp add: x del: fun_upd_apply)
qed simp

lemma spec_sessions_append: "spec_sessions H (xs @ ys) a = spec_sessions H ys (spec_sessions H xs a)"
proof (induction xs arbitrary: a)
  case (Cons x xs)
  then show ?case by (cases x) (simp del: fun_upd_apply)
qed simp

lemma run_sessions_append:
  "run_sessions E (xs @ ys) st = (let (e1, st1) = run_sessions E xs st; (e2, st2) = run_sessions E ys st1 in (e1 @ e2, st2))"
proof (induction xs arbitrary: st)
  case (Cons x xs)
  then show ?case by (cases x) (simp split: prod.splits)
qed (simp split: prod.splits)

lemma sessions_ok_append: "sessions_ok okid E (xs @ ys) st a \<Longrightarrow> sessions_ok okid E xs st a"
proof (induction xs arbitrary: st a)
  case (Cons x xs)
  then show ?case by (cases x) (auto split: prod.splits)
qed simp

text \<open>C4. Preservation: what has once been stored stays. However the sessions go on, a blob that could be read is
  read with the same bytes unless a session of its item deleted it, and the slot table of every version
  stays as it was.\<close>

theorem items_preserved:
  fixes E :: "(memory, nat, 'c) item_env"
  assumes "env_ok E" and "\<forall>j. ic_Lookup (e_C E) c j = None"
    and "sessions_ok good_id E (xs @ ys) (items_NewWithCache NewMemory c) no_items" and "good_id iid"
    and st1: "run_sessions E xs (items_NewWithCache NewMemory c) = (errs1, st1)" and st2: "run_sessions E ys st1 = (errs2, st2)"
  shows "(keeps_blob iid i ys \<longrightarrow> fst (items_Blob E st1 iid i) = Inr r \<longrightarrow> fst (items_Blob E st2 iid i) = Inr r) \<and>
     (\<forall>item1 v slot. fst (items_Item E st1 iid) = Inr item1 \<longrightarrow> 1 \<le> v \<longrightarrow> v \<le> int (length (item_Versions item1)) \<longrightarrow>
        (\<exists>item2. fst (items_Item E st2 iid) = Inr item2 \<and> BlobByVersionSlot item2 v slot = BlobByVersionSlot item1 v slot))"
proof -
  note I = mem_items[OF assms(1)]
  let ?s0 = "items_NewWithCache NewMemory c"
  let ?a1 = "spec_sessions (e_H E) xs no_items iid" and ?a2 = "spec_sessions (e_H E) (xs @ ys) no_items iid"
  have "\<exists>item B. item_refine.rest mem_cont mem_wst mem_inv E st1 iid item B \<and> abs_item B item = ?a1"
    by (rule run_rest_at[OF assms(1,2) sessions_ok_append[OF assms(3)] st1])
  then obtain i1 B1 where r1: "item_refine.rest mem_cont mem_wst mem_inv E st1 iid i1 B1" "abs_item B1 i1 = ?a1" by blast
  have "\<exists>item B. item_refine.rest mem_cont mem_wst mem_inv E st2 iid item B \<and> abs_item B item = ?a2"
    by (rule run_rest_at[OF assms(1,2,3)]) (simp add: run_sessions_append st1 st2)
  then obtain i2 B2 where r2: "item_refine.rest mem_cont mem_wst mem_inv E st2 iid i2 B2" "abs_item B2 i2 = ?a2" by blast
  have a2: "?a2 = spec_sessions (e_H E) ys (spec_sessions (e_H E) xs no_items) iid" by (simp add: spec_sessions_append)
  note B = item_refine.Blob_rest[OF I r1(1) good_id_ok[OF assms(4)] TrueI, unfolded r1(2)]
    item_refine.Blob_rest[OF I r2(1) good_id_ok[OF assms(4)] TrueI, unfolded r2(2)]
  have blob: "keeps_blob iid i ys \<longrightarrow> fst (items_Blob E st1 iid i) = Inr r \<longrightarrow> fst (items_Blob E st2 iid i) = Inr r"
    using spec_sessions_keep[of iid i ys "spec_sessions (e_H E) xs no_items" r "e_H E"] B a2 by auto
  note J1 = rest_Item[OF assms(1) r1(1) assms(4), unfolded r1(2)] and J2 = rest_Item[OF assms(1) r2(1) assms(4), unfolded r2(2)]
  have "\<exists>item2. fst (items_Item E st2 iid) = Inr item2 \<and> BlobByVersionSlot item2 v slot = BlobByVersionSlot item1 v slot"
    if item1: "fst (items_Item E st1 iid) = Inr item1" and v: "1 \<le> v" "v \<le> int (length (item_Versions item1))" for item1 v slot
  proof -
    obtain st' where "items_Item E st1 iid = (if item_MaxBundle i1 = 0 then Inl ErrNoItem else Inr i1, st')"
      by (rule item_refine.Item_rest[OF I r1(1) good_id_ok[OF assms(4)] TrueI]) (rule that; assumption)
    with item1 have "item1 = i1" by (simp split: if_splits)
    then have len: "length (item_Versions item1) = length (snd ?a1)" using arg_cong[OF r1(2), of "\<lambda>x. length (snd x)"] by (simp add: abs_item_def)
    have "snd ?a2 \<noteq> []"
    proof
      assume "snd ?a2 = []"
      with spec_versions_grow[of "spec_sessions (e_H E) xs no_items" iid "e_H E" ys] a2 len v show False by simp
    qed
    with J2 obtain item2 where i2: "fst (items_Item E st2 iid) = Inr item2" "\<forall>v slot. BlobByVersionSlot item2 v slot = spec_slot ?a2 v slot"
      by (cases "fst (items_Item E st2 iid)") auto
    have "spec_slot ?a2 v slot = spec_slot ?a1 v slot" unfolding a2 by (rule spec_slots_keep) (use v len in simp_all)
    with i2 J1 item1 show ?thesis by auto
  qed
  with blob show ?thesis by blast
qed

definition demo_session2 :: session where
  "demo_session2 = (9, ''item2'', ''agent'', [WBlob ''bye'' 3 [] [], WSlot ''b.txt'' 1, WClear])"

lemma demo_sessions2_ok: "sessions_ok good_id mem_env ([demo_session] @ [demo_session2]) (items_NewWithCache NewMemory []) no_items"
proof -
  let ?s0 = "items_NewWithCache NewMemory [] :: (memory, memoryCache) item_store"
  have g: "good_id ''item1''" "good_id ''item2''" by code_simp+
  have lk: "\<forall>j. ic_Lookup (e_C mem_env) [] j = None" by (simp add: memoryCache_ops_def)
  have m0: "findMaxBundle mem_env ?s0 ''item1'' = 0" by code_simp
  obtain err st it where run: "item_session mem_env 7 ?s0 ''item1'' ''agent'' [WBlob ''hello'' 0 [] [], WSlot ''a.txt'' 1] = (err, st, it)"
    by (metis prod_cases3)
  have run': "run_sessions mem_env [demo_session] ?s0 = ([err], st)" by (simp add: demo_session_def run)
  have a: "spec_sessions (e_H mem_env) [demo_session] no_items ''item2'' = ([], [])" by (simp add: demo_session_def)
  from run_rest_at[OF mem_env_ok lk demo_sessions_ok run', of "''item2''"] obtain item B where
    r: "memitems.rest st ''item2'' item B" "snd (abs_item B item) = []" unfolding a by auto
  then have "findMaxBundle mem_env st ''item2'' = 0"
    using memitems.findMaxBundle_rest[OF r(1) TrueI] by (auto simp: memitems.rest_def at_rest_def abs_item_def split: if_splits)
  then show ?thesis
    using g m0 by (simp add: demo_session_def demo_session2_def run item_json_rt split: prod.splits option.splits)
qed

theorem items_preserved_witness:
  "fst (items_Blob mem_env (snd (run_sessions mem_env ([demo_session] @ [demo_session2]) (items_NewWithCache NewMemory []))) ''item1'' 1) =
     Inr ((''hello'', None), 5)"
proof -
  let ?s0 = "items_NewWithCache NewMemory [] :: (memory, memoryCache) item_store"
  have g: "good_id ''item1''" by code_simp
  have lk: "\<forall>j. ic_Lookup (e_C mem_env) [] j = None" by (simp add: memoryCache_ops_def)
  obtain e1 s1 where r1: "run_sessions mem_env [demo_session] ?s0 = (e1, s1)" by fastforce
  obtain e2 s2 where r2: "run_sessions mem_env [demo_session2] s1 = (e2, s2)" by fastforce
  have "keeps_blob ''item1'' 1 [demo_session2]" by code_simp
  moreover have "fst (items_Blob mem_env s1 ''item1'' 1) = Inr ((''hello'', None), 5)"
  proof -
    have "\<exists>item B. memitems.rest s1 ''item1'' item B \<and> abs_item B item = spec_sessions demo_hashes [demo_session] no_items ''item1''"
      using run_rest_at[OF mem_env_ok lk demo_sessions_ok r1, of "''item1''"] by simp
    then obtain item B where r: "memitems.rest s1 ''item1'' item B" "abs_item B item = spec_sessions demo_hashes [demo_session] no_items ''item1''" by blast
    have "spec_sessions demo_hashes [demo_session] no_items ''item1'' = ([Some ''hello''], [[(''a.txt'', 1)]])"
      unfolding demo_session_def by code_simp
    with memitems.Blob_rest[OF r(1) good_id_ok[OF g] TrueI] r(2) show ?thesis by (simp add: spec_read_def)
  qed
  ultimately have "fst (items_Blob mem_env s2 ''item1'' 1) = Inr ((''hello'', None), 5)"
    using items_preserved[OF mem_env_ok lk demo_sessions2_ok g r1 r2, of 1] by blast
  then show ?thesis by (simp only: run_sessions_append r1 r2 Let_def case_prod_conv snd_conv)
qed

end
