(* ===== verification/Transaction_Properties.thy ===== *)
theory Transaction_Properties
  imports Transaction_Correct Item_Properties
begin

text \<open>
  Properties of transactions over the in-memory stores: the identifiers, the status names and the commit.
\<close>

section \<open>Transactions over the in-memory store\<close>

lemma memfrag_loc: "fragments mem_ops mem_cont mem_wst (\<lambda>_. True) (\<lambda>_. True) mem_inv"
  by unfold_locales

lemma mem_commit:
  assumes "env_ok E" and "\<forall>b k. fst (bc_Delete C b k) = None"
  shows "commit_env mem_ops mem_cont mem_wst (\<lambda>_. True) (\<lambda>_. True) mem_inv mem_ops mem_cont mem_wst (\<lambda>_. True) (\<lambda>_. True) mem_inv E C"
  by (rule commit_env.intro[OF memfrag_loc mem_items[OF assms(1)]]) (simp add: commit_env_axioms_def assms(2))

lemma empty_del: "\<forall>b k. fst (bc_Delete empty_ops b k) = None"
  by (simp add: empty_ops_def empty_Delete_def)

interpretation memcommit: commit_env mem_ops mem_cont mem_wst "\<lambda>_. True" "\<lambda>_. True" mem_inv J mem_ops mem_cont mem_wst "\<lambda>_. True" "\<lambda>_. True" mem_inv
  mem_env empty_ops for J :: "file_t json"
  by (rule mem_commit[OF mem_env_ok empty_del])

lemma rest_all_frame:
  assumes "env_ok E" and r: "\<And>j. \<exists>item B. item_refine.rest mem_cont mem_wst mem_inv E st j item B \<and> abs_item B item = a j"
    and fr: "frame (mem_cont (is_S st), mem_wst (is_S st)) (mem_cont (is_S st'), mem_wst (is_S st')) iid" and "mem_inv (is_S st')" "is_useStore st'"
    and cache: "\<forall>j y. j \<noteq> iid \<longrightarrow> ic_Lookup (e_C E) (is_cache st') j = Some y \<longrightarrow> ic_Lookup (e_C E) (is_cache st) j = Some y"
    and new: "item_refine.rest mem_cont mem_wst mem_inv E st' iid item' B'" "abs_item B' item' = x"
  shows "\<exists>item B. item_refine.rest mem_cont mem_wst mem_inv E st' j item B \<and> abs_item B item = (a(iid := x)) j"
proof (cases "j = iid")
  case False
  obtain item B where "item_refine.rest mem_cont mem_wst mem_inv E st j item B" "abs_item B item = a j" using r[of j] by blast
  with item_refine.rest_frame[OF mem_items[OF assms(1)] _ fr False assms(4,5)] cache False show ?thesis by fastforce
qed (use new in auto)

section \<open>Properties\<close>

text \<open>C2. The commit of a transaction, from the uploaded files to the item store. In any state that sessions and uploads
  can lead to, the commit ends; the transaction is finished when the commands succeed and in error otherwise; and from then
  on every reader gets, for the item of the transaction, the result of running the commands on its
  specification, and for every other item what there was.\<close>

theorem commit_refines:
  fixes E :: "(memory, nat, 'c) item_env" and C :: "('b, 'u) cache_ops" and T :: "('t, 'x) store_ops" and tx :: transaction
  defines "iid \<equiv> tx_ItemID tx"
  assumes "env_ok E" and "\<forall>j. ic_Lookup (e_C E) c j = None" and "sessions_ok good_id E ss (items_NewWithCache NewMemory c) no_items"
    and run: "run_sessions E ss (items_NewWithCache NewMemory c) = (errs, items)" and a: "a = spec_sessions (e_H E) ss no_items"
    and files: "files = frag_run mem_ops FJ cs (frag_New_store NewMemory)" and "good_id iid" and del: "\<forall>b k. fst (bc_Delete C b k) = None"
    and n: "findMaxBundle E items iid + int (length (fst (a iid))) + 4 * int (length (tx_Commands tx)) + 2 \<le> 2 ^ 63"
    and ds: "list_all (\<lambda>i. i \<le> int (length (fst (a iid)))) (spec_dels (e_H E) (abs_files mem_cont files) (tx_Commands tx) (tx_BlobMap tx) (a iid))"
    and js: "\<forall>item. tx_saved E mem_ops C now items files cache tx = Some item \<longrightarrow> json_rt (e_J E) (item_tape item)"
  shows "\<exists>items' files' cache' s' tx'. tx_Commit E mem_ops C T TJ now items files cache s tx = Some (items', files', cache', s', tx') \<and>
     (let (ok, x) = spec_commit (e_H E) (abs_files mem_cont files) (tx_Commands tx) (tx_BlobMap tx) (a iid); a' = a(iid := x)
      in tx_Status tx' = (if tx_Err tx = [] \<and> ok then StatusFinished else StatusError) \<and>
         (\<forall>j. good_id j \<longrightarrow>
            (\<forall>i. fst (items_Blob E items' j i) = spec_read j (a' j) i) \<and>
            (case fst (items_Item E items' j) of
               Inl e \<Rightarrow> e = ErrNoItem \<and> snd (a' j) = []
             | Inr item \<Rightarrow> snd (a' j) \<noteq> [] \<and> item_ID item = j \<and> (\<forall>v slot. BlobByVersionSlot item v slot = spec_slot (a' j) v slot))))"
proof -
  note I = mem_items[OF assms(2)]
  have all: "\<exists>item B. item_refine.rest mem_cont mem_wst mem_inv E items j item B \<and> abs_item B item = a j" for j
    using run_rest_at[OF assms(2-4) run, of j] a by simp
  then obtain item B where r: "item_refine.rest mem_cont mem_wst mem_inv E items iid item B" and abs: "abs_item B item = a iid" by blast
  have len: "length (fst (a iid)) = length (item_Blobs item)" using arg_cong[OF abs, of "\<lambda>x. length (fst x)"] by (simp add: abs_item_def)
  have n': "item_MaxBundle item + int (length (item_Blobs item)) + 4 * int (length (tx_Commands tx)) + 2 \<le> 2 ^ 63"
    using n item_refine.findMaxBundle_rest[OF I r TrueI] len by simp
  have fi: "mfrag_inv files" unfolding files by (rule mfrag_run)
  have ds': "\<forall>i \<in> set (snd (snd (fst (snd (spec_cmds (e_H E) (abs_files mem_cont files) (tx_Commands tx) (spec_open (abs_item B item), tx_BlobMap tx)))))).
      i \<le> int (length (item_Blobs item))"
    using ds len by (simp add: abs list_all_iff spec_dels_def)
  obtain items' files' cache' s' tx' item' B' where c:
      "tx_Commit E mem_ops C T TJ now items files cache s tx = Some (items', files', cache', s', tx')"
      "tx_saved E mem_ops C now items files cache tx = Some item'"
      "json_rt (e_J E) (item_tape item') \<longrightarrow> item_refine.rest mem_cont mem_wst mem_inv E items' iid item' B'"
      "abs_item B' item' = snd (spec_commit (e_H E) (abs_files mem_cont files) (tx_Commands tx) (tx_BlobMap tx) (a iid))"
      "mem_inv (is_S items')" "is_useStore items'" "frame (mem_cont (is_S items), mem_wst (is_S items)) (mem_cont (is_S items'), mem_wst (is_S items')) iid"
      "\<forall>j y. j \<noteq> iid \<longrightarrow> ic_Lookup (e_C E) (is_cache items') j = Some y \<longrightarrow> ic_Lookup (e_C E) (is_cache items) j = Some y"
      "tx_Status tx' = (if tx_Err tx = [] \<and> fst (spec_commit (e_H E) (abs_files mem_cont files) (tx_Commands tx) (tx_BlobMap tx) (a iid))
                       then StatusFinished else StatusError)"
    using commit_env.Commit_rest[OF mem_commit[OF assms(2) del] r[unfolded iid_def] good_id_ok[OF assms(8), unfolded iid_def] TrueI n' fi ds',
        of T TJ now cache s] unfolding abs iid_def by blast
  obtain ok x where sp: "spec_commit (e_H E) (abs_files mem_cont files) (tx_Commands tx) (tx_BlobMap tx) (a iid) = (ok, x)" by (rule prod.exhaust)
  have r': "item_refine.rest mem_cont mem_wst mem_inv E items' iid item' B'" "abs_item B' item' = x" using c(2-4) js sp by simp_all
  have read: "\<exists>item B. item_refine.rest mem_cont mem_wst mem_inv E items' j item B \<and> abs_item B item = (a(iid := x)) j" for j
    by (rule rest_all_frame[OF assms(2) all c(7,5,6,8) r'])
  have "(\<forall>i. fst (items_Blob E items' j i) = spec_read j ((a(iid := x)) j) i) \<and>
     (case fst (items_Item E items' j) of
        Inl e \<Rightarrow> e = ErrNoItem \<and> snd ((a(iid := x)) j) = []
      | Inr item \<Rightarrow> snd ((a(iid := x)) j) \<noteq> [] \<and> item_ID item = j \<and> (\<forall>v slot. BlobByVersionSlot item v slot = spec_slot ((a(iid := x)) j) v slot))"
    if j: "good_id j" for j
  proof -
    obtain itemj Bj where rj: "item_refine.rest mem_cont mem_wst mem_inv E items' j itemj Bj" and eq: "abs_item Bj itemj = (a(iid := x)) j"
      using read[of j] by blast
    from item_refine.Blob_rest[OF I rj good_id_ok[OF j] TrueI] rest_Item[OF assms(2) rj j] show ?thesis unfolding eq by blast
  qed
  then show ?thesis using c(1,9) unfolding sp Let_def case_prod_conv fst_conv by blast
qed

definition demo_tx :: transaction where
  "demo_tx = \<lparr>tx_txstore = True, tx_ID = ''0001'', tx_Status = StatusIngest, tx_Started = 1, tx_Modified = 1, tx_Err = [], tx_Creator = ''agent'',
     tx_ItemID = ''item1'', tx_Commands = [[''add'', ''a''], [''slot'', ''data.txt'', ''a'']], tx_BlobMap = []\<rparr>"

definition demo_txjson :: "transaction json" where
  "demo_txjson = \<lparr>j_enc = (\<lambda>tx. tx_ID tx), j_dec = (\<lambda>b. Inl ErrJSON)\<rparr>"

abbreviation demo_uploads :: "memory frag_store" where
  "demo_uploads \<equiv> frag_run mem_ops demo_json [(0, OpNew ''a''), (1, OpAppend ''a'' [''xyz''])] (frag_New_store NewMemory)"

theorem commit_refines_witness:
  "\<exists>items' files' cache' s' tx'.
     tx_Commit mem_env mem_ops empty_ops mem_ops demo_txjson 9 (items_NewWithCache NewMemory []) demo_uploads () NewMemory demo_tx =
       Some (items', files', cache', s', tx') \<and>
     tx_Status tx' = StatusFinished \<and> fst (items_Blob mem_env items' ''item1'' 1) = Inr ((''xyz'', None), 3)"
proof -
  have lk: "\<forall>j. ic_Lookup (e_C mem_env) [] j = None" by (simp add: memoryCache_ops_def)
  have ok: "sessions_ok good_id mem_env [] (items_NewWithCache NewMemory []) no_items" by simp
  have run: "run_sessions mem_env [] (items_NewWithCache NewMemory []) = ([], items_NewWithCache NewMemory [])" by simp
  have a: "no_items = spec_sessions (e_H mem_env) [] no_items" by simp
  have g: "good_id (tx_ItemID demo_tx)" unfolding demo_tx_def by code_simp
  have m: "findMaxBundle mem_env (items_NewWithCache NewMemory []) (tx_ItemID demo_tx) = 0" unfolding demo_tx_def by code_simp
  have n: "findMaxBundle mem_env (items_NewWithCache NewMemory []) (tx_ItemID demo_tx) + int (length (fst (no_items (tx_ItemID demo_tx)))) +
      4 * int (length (tx_Commands demo_tx)) + 2 \<le> 2 ^ 63" unfolding m by (simp add: demo_tx_def)
  have sp: "spec_commit (e_H mem_env) (abs_files mem_cont demo_uploads) (tx_Commands demo_tx) (tx_BlobMap demo_tx) ([], []) =
      (True, [Some ''xyz''], [[(''data.txt'', 1)]])" unfolding mem_env_simps demo_tx_def by code_simp
  have ds: "list_all (\<lambda>i. i \<le> int (length (fst (no_items (tx_ItemID demo_tx)))))
      (spec_dels (e_H mem_env) (abs_files mem_cont demo_uploads) (tx_Commands demo_tx) (tx_BlobMap demo_tx) (no_items (tx_ItemID demo_tx)))"
    unfolding mem_env_simps demo_tx_def by code_simp
  have js: "\<forall>item. tx_saved mem_env mem_ops empty_ops 9 (items_NewWithCache NewMemory []) demo_uploads () demo_tx = Some item \<longrightarrow>
      json_rt (e_J mem_env) (item_tape item)" by (simp add: item_json_rt)
  from commit_refines[OF mem_env_ok lk ok run a refl g empty_del n ds js, of mem_ops demo_txjson NewMemory, unfolded sp Let_def case_prod_conv]
  obtain items' files' cache' s' tx' where c:
      "tx_Commit mem_env mem_ops empty_ops mem_ops demo_txjson 9 (items_NewWithCache NewMemory []) demo_uploads () NewMemory demo_tx =
         Some (items', files', cache', s', tx')"
      "tx_Status tx' = (if tx_Err demo_tx = [] \<and> True then StatusFinished else StatusError)"
      "\<forall>i. fst (items_Blob mem_env items' ''item1'' i) = spec_read ''item1'' ([Some ''xyz''], [[(''data.txt'', 1)]]) i"
    using g by (auto simp: demo_tx_def)
  have "tx_Err demo_tx = []" by (simp add: demo_tx_def)
  then have "tx_Status tx' = StatusFinished" using c(2) by simp
  moreover have "fst (items_Blob mem_env items' ''item1'' 1) = Inr ((''xyz'', None), 3)" using c(3) by (simp add: spec_read_def)
  ultimately show ?thesis using c(1) by blast
qed

end
