(* ===== verification/Tokens.thy ===== *)
theory Tokens
  imports Go_Format "HOL-Library.Char_ord" "HOL-Library.List_Lexorder" "HOL-Library.Multiset"
begin

text \<open>
  User tokens and roles, src/server/token.go. A validator maps a token to a user and a role; the list validator sorts
  its entries by token and looks a token up by binary search. Strings are compared byte by byte. Go does
  not say how \<open>sort.Sort\<close> orders entries with equal tokens; the model keeps their order in the file.
\<close>

section \<open>Roles\<close>

datatype role = RoleUnknown | RoleMDOnly | RoleRead | RoleWrite | RoleAdmin

fun role_num :: "role \<Rightarrow> nat" where
  "role_num RoleUnknown = 0"
| "role_num RoleMDOnly = 1"
| "role_num RoleRead = 2"
| "role_num RoleWrite = 3"
| "role_num RoleAdmin = 4"

instantiation role :: linorder
begin

definition less_eq_role :: "role \<Rightarrow> role \<Rightarrow> bool" where
  "less_eq_role a b = (role_num a \<le> role_num b)"

definition less_role :: "role \<Rightarrow> role \<Rightarrow> bool" where
  "less_role a b = (role_num a < role_num b)"

instance
proof
  fix a b :: role
  show "a \<le> b \<Longrightarrow> b \<le> a \<Longrightarrow> a = b" by (cases a; cases b) (simp_all add: less_eq_role_def)
qed (auto simp: less_eq_role_def less_role_def)

end

definition lower_char :: "char \<Rightarrow> char" where
  "lower_char c = (let n = of_char c :: nat in if 65 \<le> n \<and> n \<le> 90 then char_of (n + 32) else c)"

text \<open>\<open>strings.ToLower\<close> on bytes: the strings it is compared with have ASCII letters only.\<close>

definition AtoRole :: "string \<Rightarrow> role" where
  "AtoRole s =
     (let t = map lower_char s in
      if t = ''mdonly'' then RoleMDOnly
      else if t = ''read'' then RoleRead
      else if t = ''write'' then RoleWrite
      else if t = ''admin'' then RoleAdmin
      else RoleUnknown)"

section \<open>Validators\<close>

type_synonym validator = "string \<Rightarrow> (string \<times> role) result"

definition NobodyValidator :: validator where
  "NobodyValidator token = Inr (''nobody'', RoleAdmin)"

definition InvalidValidator :: validator where
  "InvalidValidator token = Inr ('''', RoleUnknown)"

record userEntry =
  ue_token :: string
  ue_user :: string
  ue_role :: role

fun parse_users :: "string list \<Rightarrow> userEntry list" where
  "parse_users [] = []"
| "parse_users (line # ls) =
     (let pieces = Go_Lib.fields line in
      if pieces = [] \<or> hd (hd pieces) = CHR ''#'' then parse_users ls
      else if length pieces \<noteq> 3 then parse_users ls
      else \<lparr>ue_token = pieces ! 2, ue_user = pieces ! 0, ue_role = AtoRole (pieces ! 1)\<rparr> # parse_users ls)"

definition parseListFile :: "bytes \<Rightarrow> userEntry list \<times> error option" where
  "parseListFile r = (let (ls, err) = scan_lines r in (parse_users ls, err))"

text \<open>\<open>sort.Search\<close>: the smallest index in \<open>[0, n)\<close> at which the predicate holds, by bisection.\<close>

function search_loop :: "(nat \<Rightarrow> bool) \<Rightarrow> nat \<Rightarrow> nat \<Rightarrow> nat" where
  "search_loop p i j = (if i < j then (let h = (i + j) div 2 in if p h then search_loop p i h else search_loop p (h + 1) j) else i)"
  by auto
termination
  by (relation "measure (\<lambda>(p, i, j). j - i)") auto

declare search_loop.simps [simp del]

definition sort_Search :: "nat \<Rightarrow> (nat \<Rightarrow> bool) \<Rightarrow> nat" where
  "sort_Search n p = search_loop p 0 n"

definition TokenValid :: "userEntry list \<Rightarrow> validator" where
  "TokenValid users token =
     (let i = sort_Search (length users) (\<lambda>i. token \<le> ue_token (users ! i)) in
      if i < length users \<and> ue_token (users ! i) = token then Inr (ue_user (users ! i), ue_role (users ! i))
      else Inr ('''', RoleUnknown))"

definition NewListValidator :: "bytes \<Rightarrow> validator result" where
  "NewListValidator r =
     (let (users, err) = parseListFile r in
      case err of Some e \<Rightarrow> Inl e | None \<Rightarrow> Inr (TokenValid (sort_key ue_token users)))"

definition NewListValidatorString :: "string \<Rightarrow> validator result" where
  "NewListValidatorString data = NewListValidator data"

text \<open>The file is given by the result of opening it.\<close>

definition NewListValidatorFile :: "bytes result \<Rightarrow> validator result" where
  "NewListValidatorFile f = (case f of Inl e \<Rightarrow> Inl e | Inr b \<Rightarrow> NewListValidator b)"

section \<open>Binary search\<close>

lemma search_loop_stop: "\<not> i < j \<Longrightarrow> search_loop p i j = i"
  by (subst search_loop.simps) simp

text \<open>For a predicate that stays true once it is true, the result is the first place where it holds.\<close>

lemma search_loop_least:
  assumes "\<And>a b. a \<le> b \<Longrightarrow> b < n \<Longrightarrow> p a \<Longrightarrow> p b" and "i \<le> j" and "j \<le> n" and "\<forall>k < i. \<not> p k" and "\<forall>k. j \<le> k \<longrightarrow> k < n \<longrightarrow> p k"
  shows "(\<forall>k < search_loop p i j. \<not> p k) \<and> (\<forall>k. search_loop p i j \<le> k \<longrightarrow> k < n \<longrightarrow> p k)"
  using assms
proof (induction p i j rule: search_loop.induct)
  case (1 p i j)
  show ?case
  proof (cases "i < j")
    case True
    let ?h = "(i + j) div 2"
    have h: "i \<le> ?h" "?h + 1 \<le> j" "?h < n" using True 1(5) by linarith+
    show ?thesis
    proof (cases "p ?h")
      case ph: True
      have "\<forall>k. ?h \<le> k \<longrightarrow> k < n \<longrightarrow> p k" using 1(3) ph by blast
      with 1(1)[OF True refl ph 1(3) h(1) _ 1(6)] h(3) True ph show ?thesis by (subst (1 2) search_loop.simps) (simp add: Let_def)
    next
      case nph: False
      have "\<forall>k < ?h + 1. \<not> p k" using 1(3)[of _ ?h] h(3) nph by fastforce
      from 1(2)[OF True refl nph 1(3) h(2) 1(5) this 1(7)] True nph show ?thesis by (subst (1 2) search_loop.simps) (simp add: Let_def)
    qed
  qed (use 1(6,7) 1(4) in \<open>simp add: search_loop_stop\<close>)
qed

text \<open>A reference definition: the first entry with the token.\<close>

definition find_token :: "userEntry list \<Rightarrow> string \<Rightarrow> string \<times> role" where
  "find_token users token =
     (case find (\<lambda>u. ue_token u = token) users of None \<Rightarrow> ('''', RoleUnknown) | Some u \<Rightarrow> (ue_user u, ue_role u))"

lemma TokenValid_sorted:
  assumes "sorted (map ue_token users)"
  shows "TokenValid users token = Inr (find_token users token)"
proof -
  let ?n = "length users" and ?p = "\<lambda>i. token \<le> ue_token (users ! i)" and ?P = "\<lambda>u. ue_token u = token"
  let ?i = "sort_Search ?n ?p"
  have mono: "?p b" if "a \<le> b" "b < ?n" "?p a" for a b
    using that sorted_nth_mono[OF assms, of a b] by (simp add: order_trans)
  have i: "\<forall>k < ?i. \<not> ?p k" "\<forall>k. ?i \<le> k \<longrightarrow> k < ?n \<longrightarrow> ?p k"
  proof -
    have "(\<forall>k < search_loop ?p 0 ?n. \<not> ?p k) \<and> (\<forall>k. search_loop ?p 0 ?n \<le> k \<longrightarrow> k < ?n \<longrightarrow> ?p k)"
      by (rule search_loop_least[where n = ?n]) (use mono in blast, simp_all)
    then show "\<forall>k < ?i. \<not> ?p k" "\<forall>k. ?i \<le> k \<longrightarrow> k < ?n \<longrightarrow> ?p k" unfolding sort_Search_def by blast+
  qed
  show ?thesis
  proof (cases "?i < ?n \<and> ue_token (users ! ?i) = token")
    case True
    have "find ?P users = Some (users ! ?i)"
      unfolding find_Some_iff using True i(1) by (intro exI[of _ ?i]) (auto simp: not_le)
    with True show ?thesis by (simp add: TokenValid_def find_token_def Let_def)
  next
    case False
    have "ue_token (users ! k) \<noteq> token" if k: "k < ?n" for k
    proof (cases "k < ?i")
      case True
      then show ?thesis using i(1) by auto
    next
      case nk: False
      then have "?i < ?n" using k by simp
      then have "token < ue_token (users ! ?i)" using False i(2) by (auto simp: order_less_le)
      also have "\<dots> \<le> ue_token (users ! k)" using sorted_nth_mono[OF assms, of ?i k] nk k by simp
      finally show ?thesis by simp
    qed
    then have "find ?P users = None" unfolding find_None_iff by (metis in_set_conv_nth)
    with False show ?thesis by (auto simp: TokenValid_def find_token_def Let_def)
  qed
qed

section \<open>Properties\<close>

text \<open>C26. The lookup of the list validator, by bisection of the entries in whatever order \<open>sort.Sort\<close> leaves those with equal
  tokens, agrees with a scan of the user file: a token gives the user and the role of an entry of the file that has it,
  the only one when tokens are distinct, and no role when there is none.\<close>

theorem list_validator_scan:
  assumes perm: "mset users' = mset users" and sorted: "sorted (map ue_token users')"
  shows "(if token \<in> ue_token ` set users
          then \<exists>u \<in> set users. ue_token u = token \<and> TokenValid users' token = Inr (ue_user u, ue_role u)
          else TokenValid users' token = Inr ('''', RoleUnknown)) \<and>
     (distinct (map ue_token users) \<longrightarrow> TokenValid users' token = Inr (find_token users token))"
proof -
  have set_eq: "set users' = set users" using perm by (rule mset_eq_setD)
  note tv = TokenValid_sorted[OF sorted, of token]
  have find: "if token \<in> ue_token ` set us then \<exists>u \<in> set us. ue_token u = token \<and> find_token us token = (ue_user u, ue_role u)
      else find_token us token = ('''', RoleUnknown)" for us
    by (induction us) (auto simp: find_token_def)
  have "find_token users' token = find_token users token" if d: "distinct (map ue_token users)"
  proof (cases "token \<in> ue_token ` set users")
    case True
    with find[of users] obtain u where u: "u \<in> set users" "ue_token u = token" "find_token users token = (ue_user u, ue_role u)" by auto
    from True find[of users'] set_eq obtain u' where u': "u' \<in> set users" "ue_token u' = token" "find_token users' token = (ue_user u', ue_role u')" by auto
    have "u' = u" using d u(1,2) u'(1,2) by (metis distinct_map inj_onD)
    with u u' show ?thesis by simp
  next
    case False
    with find[of users] find[of users'] set_eq show ?thesis by simp
  qed
  with find[of users', unfolded set_eq] tv show ?thesis by simp
qed

theorem list_validator_scan_witness:
  "TokenValid (sort_key ue_token (parse_users [''bob read t9'', ''# comment'', ''alice Admin t1''])) ''t9'' = Inr (''bob'', RoleRead)"
proof -
  let ?us = "parse_users [''bob read t9'', ''# comment'', ''alice Admin t1'']"
  have us: "?us = [\<lparr>ue_token = ''t9'', ue_user = ''bob'', ue_role = RoleRead\<rparr>, \<lparr>ue_token = ''t1'', ue_user = ''alice'', ue_role = RoleAdmin\<rparr>]"
    by code_simp
  have "distinct (map ue_token ?us)" "find_token ?us ''t9'' = (''bob'', RoleRead)" unfolding us by (simp_all add: find_token_def)
  with list_validator_scan[of "sort_key ue_token ?us" ?us "''t9''"] show ?thesis by simp
qed

end
