(* ===== verification/HTTP.thy ===== *)
theory HTTP
  imports Go_Errors Tokens
begin

text \<open>
  Requests and responses as far as the handlers of src/server use them, and the wrappers of src/server/routes.go.

  A request has its method, its header with canonical keys, its form values, the user name and password of basic
  authentication, the parameters of the route and its body: the blocks that reading it delivers and the error it
  ends with. A response has a status code, which is fixed by the first \<open>WriteHeader\<close> or the first write of the body; changes
  of the header after that are not sent. Packages net/http and httprouter decide which route a request takes;
  the wrappers take the handler as an argument.
\<close>

section \<open>Requests and responses\<close>

record request =
  rq_Method :: string
  rq_Header :: "(string, string) gomap"
  rq_Form :: "(string, string) gomap"
  rq_BasicAuth :: "(string \<times> string) option"
  rq_Params :: "(string, string) gomap"
  rq_Body :: "(bytes list \<times> error option) option"

record response =
  rs_Code :: int
  rs_Header :: "(string, string) gomap"
  rs_Body :: bytes

definition new_response :: response where
  "new_response = \<lparr>rs_Code = 0, rs_Header = [], rs_Body = []\<rparr>"

definition WriteHeader :: "int \<Rightarrow> response \<Rightarrow> response" where
  "WriteHeader code w = (if rs_Code w = 0 then w\<lparr>rs_Code := code\<rparr> else w)"

definition rs_write :: "bytes \<Rightarrow> response \<Rightarrow> response" where
  "rs_write b w = (let w1 = WriteHeader 200 w in w1\<lparr>rs_Body := rs_Body w1 @ b\<rparr>)"

definition rs_println :: "string \<Rightarrow> response \<Rightarrow> response" where
  "rs_println s = rs_write (s @ [newline])"

definition hdr_Set :: "string \<Rightarrow> string \<Rightarrow> response \<Rightarrow> response" where
  "hdr_Set k v w = (if rs_Code w = 0 then w\<lparr>rs_Header := gset k v (rs_Header w)\<rparr> else w)"

text \<open>The status that the client gets.\<close>

definition rs_Status :: "response \<Rightarrow> int" where
  "rs_Status w = (if rs_Code w = 0 then 200 else rs_Code w)"

text \<open>The canonical form of a header key: upper case at the start and after a hyphen, lower case elsewhere.\<close>

definition upper_char :: "char \<Rightarrow> char" where
  "upper_char c = (let n = of_char c :: nat in if 97 \<le> n \<and> n \<le> 122 then char_of (n - 32) else c)"

fun canonical_key :: "bool \<Rightarrow> string \<Rightarrow> string" where
  "canonical_key up [] = []"
| "canonical_key up (c # cs) = (if up then upper_char c else lower_char c) # canonical_key (c = CHR ''-'') cs"

definition hdr_Get :: "request \<Rightarrow> string \<Rightarrow> string" where
  "hdr_Get r k = (case gget (rq_Header r) (canonical_key True k) of None \<Rightarrow> '''' | Some v \<Rightarrow> v)"

definition FormValue :: "request \<Rightarrow> string \<Rightarrow> string" where
  "FormValue r k = (case gget (rq_Form r) k of None \<Rightarrow> '''' | Some v \<Rightarrow> v)"

text \<open>\<open>ByName\<close> gives the first parameter with the name.\<close>

definition ByName :: "request \<Rightarrow> string \<Rightarrow> string" where
  "ByName r k = (case gget (rq_Params r) k of None \<Rightarrow> '''' | Some v \<Rightarrow> v)"

section \<open>General handlers and wrappers\<close>

type_synonym 'st handler = "request \<Rightarrow> response \<Rightarrow> 'st \<Rightarrow> response \<times> 'st"

text \<open>The template and the JSON encoder are given by the text they make; an error of the template is only logged.\<close>

definition writeHTMLorJSON :: "response \<Rightarrow> request \<Rightarrow> bytes \<Rightarrow> bytes \<Rightarrow> response" where
  "writeHTMLorJSON w r tmpl js =
     (if hdr_Get r ''Accept-Encoding'' = ''application/json'' \<or> FormValue r ''format'' = ''json''
      then rs_write js (hdr_Set ''Content-Type'' ''application/json; charset=utf-8'' w)
      else rs_write tmpl w)"

definition NotImplementedHandler :: "'st handler" where
  "NotImplementedHandler r w st = (rs_println ''Not Implemented'' (WriteHeader 501 w), st)"

definition WelcomeHandler :: "string \<Rightarrow> 'st handler" where
  "WelcomeHandler ver r w st = (rs_println (''Bendo ('' @ ver @ '')'') w, st)"

definition request_token :: "request \<Rightarrow> string" where
  "request_token r =
     (let t0 = hdr_Get r ''X-Api-Key'';
          t1 = (if t0 = '''' then (case rq_BasicAuth r of None \<Rightarrow> '''' | Some (u, p) \<Rightarrow> u) else t0)
      in if t1 = '''' then (case rq_BasicAuth r of None \<Rightarrow> '''' | Some (u, p) \<Rightarrow> p) else t1)"

fun set_first :: "string \<Rightarrow> string \<Rightarrow> (string, string) gomap \<Rightarrow> (string, string) gomap" where
  "set_first k v [] = [(k, v)]"
| "set_first k v ((k', v') # ps) = (if k' = k then (k', v) # ps else (k', v') # set_first k v ps)"

definition authzWrapper :: "validator \<Rightarrow> 'st handler \<Rightarrow> role \<Rightarrow> 'st handler" where
  "authzWrapper V handler leastRole r w st =
     (case V (request_token r) of
        Inl e \<Rightarrow> (rs_println (err_Error e) (WriteHeader 500 w), st)
      | Inr (user, role) \<Rightarrow>
          if role < leastRole
          then (rs_println ''Forbidden'' (WriteHeader 401 (hdr_Set ''WWW-Authenticate'' ''Basic'' w)), st)
          else handler (r\<lparr>rq_Params := set_first ''username'' user (rq_Params r)\<rparr>) w st)"

definition logWrapper :: "'st handler \<Rightarrow> 'st handler" where
  "logWrapper handler = handler"

section \<open>The route table\<close>

datatype endpoint = SlotHandler_ep | ItemHandler_ep | NewTxHandler_ep | ListTxHandler_ep | TxInfoHandler_ep | CancelTxHandler_ep
  | ListFileHandler_ep | AppendFileHandler_ep | GetFileHandler_ep | DeleteFileHandler_ep | GetFileInfoHandler_ep | SetFileInfoHandler_ep
  | GetFixityHandler_ep | GetFixityIdHandler_ep | PostFixityHandler_ep | PutFixityHandler_ep | DeleteFixityHandler_ep
  | GetTapeUseHandler_ep | SetTapeUseHandler_ep | BundleListPrefixHandler_ep | BundleListHandler_ep | BundleOpenHandler_ep
  | UIItemsHandler_ep | WelcomeHandler_ep | NotImplementedHandler_ep | VarHandler_ep

definition routes :: "(string \<times> string \<times> role \<times> endpoint) list" where
  "routes = [
     (''GET'', ''/item/:id/*slot'', RoleUnknown, SlotHandler_ep),
     (''HEAD'', ''/item/:id/*slot'', RoleUnknown, SlotHandler_ep),
     (''GET'', ''/item/:id'', RoleUnknown, ItemHandler_ep),
     (''POST'', ''/item/:id/transaction'', RoleWrite, NewTxHandler_ep),
     (''GET'', ''/transaction'', RoleRead, ListTxHandler_ep),
     (''GET'', ''/transaction/:tid'', RoleRead, TxInfoHandler_ep),
     (''POST'', ''/transaction/:tid/cancel'', RoleWrite, CancelTxHandler_ep),
     (''GET'', ''/upload'', RoleRead, ListFileHandler_ep),
     (''POST'', ''/upload'', RoleWrite, AppendFileHandler_ep),
     (''GET'', ''/upload/:fileid'', RoleRead, GetFileHandler_ep),
     (''POST'', ''/upload/:fileid'', RoleWrite, AppendFileHandler_ep),
     (''DELETE'', ''/upload/:fileid'', RoleWrite, DeleteFileHandler_ep),
     (''GET'', ''/upload/:fileid/metadata'', RoleMDOnly, GetFileInfoHandler_ep),
     (''PUT'', ''/upload/:fileid/metadata'', RoleWrite, SetFileInfoHandler_ep),
     (''GET'', ''/fixity'', RoleRead, GetFixityHandler_ep),
     (''GET'', ''/fixity/:id'', RoleRead, GetFixityIdHandler_ep),
     (''POST'', ''/fixity/:item'', RoleWrite, PostFixityHandler_ep),
     (''PUT'', ''/fixity/:id'', RoleWrite, PutFixityHandler_ep),
     (''DELETE'', ''/fixity/:id'', RoleWrite, DeleteFixityHandler_ep),
     (''GET'', ''/admin/use_tape'', RoleUnknown, GetTapeUseHandler_ep),
     (''PUT'', ''/admin/use_tape/:status'', RoleAdmin, SetTapeUseHandler_ep),
     (''GET'', ''/bundle/list/:prefix'', RoleRead, BundleListPrefixHandler_ep),
     (''GET'', ''/bundle/list/'', RoleRead, BundleListHandler_ep),
     (''GET'', ''/bundle/open/:key'', RoleRead, BundleOpenHandler_ep),
     (''GET'', ''/ui/items'', RoleUnknown, UIItemsHandler_ep),
     (''GET'', ''/'', RoleUnknown, WelcomeHandler_ep),
     (''GET'', ''/stats'', RoleUnknown, NotImplementedHandler_ep),
     (''GET'', ''/debug/vars'', RoleUnknown, VarHandler_ep)]"

text \<open>A request that the router has matched to a row of the table.\<close>

definition serve_route :: "validator \<Rightarrow> (endpoint \<Rightarrow> 'st handler) \<Rightarrow> string \<times> string \<times> role \<times> endpoint \<Rightarrow> 'st handler" where
  "serve_route V h route = (let (meth, path, role, ep) = route in logWrapper (authzWrapper V (h ep) role))"

lemma set_first_get: "gget (set_first k v ps) k = Some v"
  by (induction ps) auto

section \<open>Properties\<close>

text \<open>C11. Authorization. Whatever the handlers do, a request that the router sends to a row of the table changes the state of the
  server only if its token is valid for at least the role of the row; a request by another method than GET and HEAD needs at least
  the write role; and the handler always sees the user of the token, also when the path has a parameter of that name.\<close>

theorem authorization:
  assumes "(meth, path, least, ep) \<in> set routes" and "snd (serve_route V h (meth, path, least, ep) r w st) \<noteq> st"
  shows "\<exists>user role r'. V (request_token r) = Inr (user, role) \<and> least \<le> role \<and>
     (meth \<noteq> ''GET'' \<and> meth \<noteq> ''HEAD'' \<longrightarrow> RoleWrite \<le> role) \<and>
     serve_route V h (meth, path, least, ep) r w st = h ep r' w st \<and> ByName r' ''username'' = user"
proof -
  obtain user role where v: "V (request_token r) = Inr (user, role)" "\<not> role < least"
    using assms(2) by (auto simp: serve_route_def logWrapper_def authzWrapper_def split: sum.splits if_splits)
  have "list_all (\<lambda>(meth, path, least, ep). meth = ''GET'' \<or> meth = ''HEAD'' \<or> RoleWrite \<le> least) routes" by code_simp
  then have "meth \<noteq> ''GET'' \<and> meth \<noteq> ''HEAD'' \<longrightarrow> RoleWrite \<le> least" using assms(1) by (auto simp: list_all_iff)
  moreover have "ByName (r\<lparr>rq_Params := set_first ''username'' user (rq_Params r)\<rparr>) ''username'' = user"
    by (simp add: ByName_def set_first_get)
  ultimately show ?thesis using v
    by (intro exI[of _ user] exI[of _ role] exI[of _ "r\<lparr>rq_Params := set_first ''username'' user (rq_Params r)\<rparr>"])
       (auto simp: serve_route_def logWrapper_def authzWrapper_def not_less intro: order_trans)
qed

theorem authorization_witness:
  "\<exists>user role r'. TokenValid [\<lparr>ue_token = ''k'', ue_user = ''ann'', ue_role = RoleWrite\<rparr>] ''k'' = Inr (user, role) \<and> RoleWrite \<le> role \<and>
     ByName r' ''username'' = user"
proof -
  let ?r = "\<lparr>rq_Method = ''DELETE'', rq_Header = [(''X-Api-Key'', ''k'')], rq_Form = [], rq_BasicAuth = None, rq_Params = [(''fileid'', ''f'')], rq_Body = None\<rparr>"
  let ?V = "TokenValid [\<lparr>ue_token = ''k'', ue_user = ''ann'', ue_role = RoleWrite\<rparr>]"
  let ?h = "\<lambda>ep r w st. (w, st + (1 :: nat))"
  have "(''DELETE'', ''/upload/:fileid'', RoleWrite, DeleteFileHandler_ep) \<in> set routes" by (simp add: routes_def)
  moreover have "snd (serve_route ?V ?h (''DELETE'', ''/upload/:fileid'', RoleWrite, DeleteFileHandler_ep) ?r new_response 0) \<noteq> 0" by code_simp
  moreover have "request_token ?r = ''k''" by code_simp
  ultimately show ?thesis using authorization[of "''DELETE''" "''/upload/:fileid''" RoleWrite DeleteFileHandler_ep ?V ?h ?r new_response 0] by auto
qed

end
