(* ===== verification/Server_Upload.thy ===== *)
theory Server_Upload
  imports HTTP Fragment_Correct
begin

text \<open>
  The upload handlers, src/server/upload.go, over the store of uploaded files. Random numbers are taken from a list, the supply
  of \<open>rand.Int31\<close>. The texts that the HTML templates and the JSON encoder make are parameters.
\<close>

section \<open>Handlers\<close>

definition getHexadecimalHeader :: "request \<Rightarrow> string \<Rightarrow> bytes" where
  "getHexadecimalHeader r hdr = fst (hex_decode (hdr_Get r hdr))"

text \<open>\<open>strconv.FormatInt(n, 36)\<close> of a number that is not negative.\<close>

definition digit36 :: "nat \<Rightarrow> char" where
  "digit36 d = (if d < 10 then char_of (48 + d) else char_of (87 + d))"

fun format36 :: "nat \<Rightarrow> string" where
  "format36 n = (if n < 36 then [digit36 n] else format36 (n div 36) @ [digit36 (n mod 36)])"

declare format36.simps [simp del]

definition randomid :: "nat \<Rightarrow> string" where
  "randomid n = format36 n"

text \<open>A new file under a random name: None when the supply of numbers has no unused one.\<close>

fun new_random_file :: "'f frag_store \<Rightarrow> time \<Rightarrow> nat list \<Rightarrow> (string \<times> 'f frag_store) option" where
  "new_random_file files now [] = None"
| "new_random_file files now (n # ns) =
     (case frag_New files now (randomid n) of
        (True, files1) \<Rightarrow> Some (randomid n, files1)
      | (False, files1) \<Rightarrow> new_random_file files1 now ns)"

text \<open>\<open>io.Copy\<close> of the blocks of the body through the hash writer into the fragment.\<close>

fun upload_copy ::
  "('f, 'v, 'm) store_ops_scheme \<Rightarrow> 'f frag_store \<Rightarrow> 'v frag_writer \<Rightarrow> hash_writer \<Rightarrow> bytes list \<Rightarrow>
     error option \<times> 'f frag_store \<times> 'v frag_writer \<times> hash_writer" where
  "upload_copy F files fw hw [] = (None, files, fw, hw)"
| "upload_copy F files fw hw (p # ps) =
     (let (res, files1, fw1) = fragwriter_Write F files fw p;
          ((n, err), hw1) = hw_Write hw p res
      in if err \<noteq> None then (err, files1, fw1, hw1)
         else upload_copy F files1 fw1 hw1 ps)"

definition check_upload :: "hashes \<Rightarrow> hash_writer \<Rightarrow> bytes \<Rightarrow> bytes \<Rightarrow> bool" where
  "check_upload H hw uploadMD5 uploadSHA256 =
     (let ok = (if length uploadMD5 > 0 then snd (CheckMD5 H hw uploadMD5) else True)
      in if ok \<and> length uploadSHA256 > 0 then snd (CheckSHA256 H hw uploadSHA256) else ok)"

text \<open>The second half of \<open>AppendFileHandler\<close>, with the file \<open>fid\<close> at hand.\<close>

definition append_body ::
  "('f, 'v, 'm) store_ops_scheme \<Rightarrow> file_t json \<Rightarrow> hashes \<Rightarrow> time \<Rightarrow> string \<Rightarrow> bytes \<Rightarrow> bytes \<Rightarrow> 'f frag_store handler" where
  "append_body F FJ H now fid uploadMD5 uploadSHA256 r w files =
     (case rq_Body r of
        None \<Rightarrow> (rs_println ''no body'' (WriteHeader 400 w), files)
      | Some (blocks, berr) \<Rightarrow>
          (case file_Append F files fid of
             (Inl e, files1) \<Rightarrow> (rs_println (err_Error e) (WriteHeader 500 w), files1)
           | (Inr wr, files1) \<Rightarrow>
               (let (werr, files2, wr2, hw) = upload_copy F files1 wr NewHashWriter blocks;
                    err = (if werr \<noteq> None then werr else berr);
                    (err2, files3) = fragwriter_Close F FJ files2 now wr2;
                    w1 = hdr_Set ''Location'' (''/upload/'' @ fid) w
                in case err of
                     Some e \<Rightarrow> (rs_println (err_Error e) (WriteHeader 500 w1), files3)
                   | None \<Rightarrow>
                       (case err2 of
                          Some e \<Rightarrow> (rs_println (err_Error e) (WriteHeader 500 w1), files3)
                        | None \<Rightarrow>
                            (let ok = check_upload H hw uploadMD5 uploadSHA256
                             in if \<not> ok then (rs_println ''Checksum mismatch'' (WriteHeader 412 w1), snd (file_Rollback F FJ files3 now fid))
                                else
                                  (let v = hdr_Get r ''Content-Type'';
                                       files4 = (if v \<noteq> '''' then SetMimeType F FJ files3 now fid v else files3);
                                       h = getHexadecimalHeader r ''X-Content-SHA256'';
                                       files5 = (if length h > 0 then SetSHA256 F FJ files4 now fid h else files4);
                                       h2 = getHexadecimalHeader r ''X-Content-MD5'';
                                       files6 = (if length h2 > 0 then SetMD5 F FJ files5 now fid h2 else files5)
                                   in (w1, files6)))))))"

definition AppendFileHandler ::
  "('f, 'v, 'm) store_ops_scheme \<Rightarrow> file_t json \<Rightarrow> hashes \<Rightarrow> time \<Rightarrow> nat list \<Rightarrow> request \<Rightarrow> response \<Rightarrow> 'f frag_store \<Rightarrow>
     (response \<times> 'f frag_store) option" where
  "AppendFileHandler F FJ H now rnd r w files =
     (let uploadMD5 = getHexadecimalHeader r ''X-Upload-Md5'';
          uploadSHA256 = getHexadecimalHeader r ''X-Upload-Sha256'' in
      if length uploadMD5 + length uploadSHA256 = 0
      then Some (rs_write ''At least one of X-Upload-Md5 or X-Upload-Sha256 must be provided'' (WriteHeader 400 w), files)
      else
        (let fileid = ByName r ''fileid'' in
         if fileid = '''' then
           (case new_random_file files now rnd of
              None \<Rightarrow> None
            | Some (fid, files1) \<Rightarrow> Some (append_body F FJ H now fid uploadMD5 uploadSHA256 r w files1))
         else
           (let (new, files1) = frag_New files now fileid in
            if \<not> new \<and> frag_Lookup files1 fileid = None
            then Some (rs_println ''could not make new file'' (WriteHeader 500 w), files1)
            else Some (append_body F FJ H now fileid uploadMD5 uploadSHA256 r w files1))))"

definition ListFileHandler :: "(string list \<Rightarrow> bytes) \<Rightarrow> (string list \<Rightarrow> bytes) \<Rightarrow> 'f frag_store handler" where
  "ListFileHandler tmpl js r w files = (writeHTMLorJSON w r (tmpl (frag_List files)) (js (frag_List files)), files)"

definition GetFileInfoHandler :: "(stat \<Rightarrow> bytes) \<Rightarrow> (stat \<Rightarrow> bytes) \<Rightarrow> 'f frag_store handler" where
  "GetFileInfoHandler tmpl js r w files =
     (case frag_Lookup files (ByName r ''fileid'') of
        None \<Rightarrow> (rs_println ''cannot find file'' (WriteHeader 404 w), files)
      | Some f \<Rightarrow> (writeHTMLorJSON w r (tmpl (file_Stat f)) (js (file_Stat f)), files))"

definition DeleteFileHandler :: "('f, 'v, 'm) store_ops_scheme \<Rightarrow> 'f frag_store handler" where
  "DeleteFileHandler F r w files =
     (let (err, files1) = frag_Delete F files (ByName r ''fileid'') in
      case err of Some e \<Rightarrow> (rs_println (err_Error e) (WriteHeader 500 w), files1) | None \<Rightarrow> (w, files1))"

text \<open>The body is decoded as a \<open>fragment.Stat\<close>; the decoder is a parameter.\<close>

definition SetFileInfoHandler ::
  "('f, 'v, 'm) store_ops_scheme \<Rightarrow> file_t json \<Rightarrow> (request \<Rightarrow> stat result) \<Rightarrow> time \<Rightarrow> 'f frag_store handler" where
  "SetFileInfoHandler F FJ dec now r w files =
     (let fileid = ByName r ''fileid'' in
      case frag_Lookup files fileid of
        None \<Rightarrow> (rs_println ''cannot find file'' (WriteHeader 404 w), files)
      | Some f \<Rightarrow>
          (case dec r of
             Inl e \<Rightarrow> (rs_println (err_Error e) (WriteHeader 400 w), files)
           | Inr metadata \<Rightarrow>
               (let files1 = (if length (st_Extra metadata) > 0 then SetExtra F FJ files now fileid (st_Extra metadata) else files);
                    files2 = (if st_MimeType metadata \<noteq> '''' then SetMimeType F FJ files1 now fileid (st_MimeType metadata) else files1)
                in (w, files2))))"

text \<open>An error while the file is copied ends the body early; None when reading does not end.\<close>

definition GetFileHandler ::
  "('f, 'v, 'm) store_ops_scheme \<Rightarrow> request \<Rightarrow> response \<Rightarrow> 'f frag_store \<Rightarrow> (response \<times> 'f frag_store) option" where
  "GetFileHandler F r w files =
     (case frag_Lookup files (ByName r ''fileid'') of
        None \<Rightarrow> Some (rs_println ''Unknown file identifier'' (WriteHeader 404 w), files)
      | Some f \<Rightarrow>
          (case fragreader_copy F copy_buffer (fr_state files) (file_Open f) [] of
             None \<Rightarrow> None
           | Some ((data, err), s1) \<Rightarrow> Some (rs_write data w, files\<lparr>fr_state := s1\<rparr>)))"

end
