(* ===== verification/Server_Upload_Correct.thy ===== *)
theory Server_Upload_Correct
  imports Server_Upload
begin

text \<open>
  Correctness of the upload handler: the body becomes a fragment of the file when it has the sums that the request
  gives, and leaves no trace in the content otherwise.
\<close>

lemma upload_copy_hash:
  assumes "fragwriter_copy F files fw ps = (None, files', fw')"
  shows "upload_copy F files fw hw ps = (None, files', fw',
     hw\<lparr>hw_md5 := map_option (\<lambda>d. d @ concat ps) (hw_md5 hw), hw_sha256 := map_option (\<lambda>d. d @ concat ps) (hw_sha256 hw)\<rparr>)"
  using assms
proof (induction ps arbitrary: files fw hw)
  case Nil
  have "map_option (\<lambda>d. d) = (\<lambda>x :: bytes option. x)" by (rule ext) (simp add: option.map_ident)
  with Nil show ?case by simp
next
  case (Cons p ps)
  obtain n err files1 fw1 where w: "fragwriter_Write F files fw p = ((n, err), files1, fw1)" by (metis prod.exhaust)
  with Cons.prems have e: "err = None" "n = length p" "fragwriter_copy F files1 fw1 ps = (None, files', fw')" by (auto split: if_splits)
  from Cons.IH[OF e(3)] show ?case by (simp add: w e(1,2) option.map_comp comp_def)
qed

definition body_sums :: "hashes \<Rightarrow> bytes \<Rightarrow> bytes \<Rightarrow> bytes \<Rightarrow> bool" where
  "body_sums H md5 sha256 body = ((md5 = [] \<or> md5 = h_md5 H body) \<and> (sha256 = [] \<or> sha256 = h_sha256 H body))"

lemma rs_Status_error [simp]: "code \<noteq> 0 \<Longrightarrow> rs_Code w = 0 \<Longrightarrow> rs_Status (rs_println m (WriteHeader code w)) = code"
  by (simp add: rs_Status_def rs_println_def rs_write_def WriteHeader_def Let_def)

lemma hdr_Set_Code [simp]: "rs_Code (hdr_Set k v w) = rs_Code w"
  by (simp add: hdr_Set_def)

context fragments
begin

text \<open>Fragments are appended one at a time, so a file with one more fragment has it at the end.\<close>

lemma rollback_last:
  assumes inv: "inv st" and c: "content st fid = Some (bs @ [b])"
  obtains st' where "file_Rollback S J st now fid = (None, st')" and "inv st'" and "content st' = (content st)(fid \<mapsto> bs)"
proof -
  obtain f where f: "gget (fr_files st) fid = Some f" using c by (auto simp: frag_content_def split: option.splits)
  with c have "file_Children f \<noteq> []" by (auto simp: frag_content_def)
  then obtain cs x where "file_Children f = cs @ [x]" by (metis rev_exhaust)
  from Rollback_ok[OF inv f this, of now] c show thesis using that by (metis butlast_snoc option.sel)
qed

lemma append_body_ok:
  assumes inv: "inv files" and f: "gget (fr_files files) fid = Some f" and body: "rq_Body r = Some (blocks, berr)" and w: "rs_Code w = 0"
  shows "\<exists>w' files'. append_body S J H now fid md5 sha256 r w files = (w', files') \<and> inv files' \<and>
    (if berr \<noteq> None then rs_Status w' = 500 \<and> content files' = (content files)(fid \<mapsto> the (content files fid) @ [concat blocks])
     else if body_sums H md5 sha256 (concat blocks)
     then rs_Status w' = 200 \<and> content files' = (content files)(fid \<mapsto> the (content files fid) @ [concat blocks])
     else rs_Status w' = 412 \<and> content files' = content files)"
proof -
  let ?c = "the (content files fid)" and ?b = "concat blocks"
  obtain fw st1 st2 fw2 st3 where a: "file_Append S files fid = (Inr fw, st1)" "fragwriter_copy S st1 fw blocks = (None, st2, fw2)"
      "fragwriter_Close S J st2 now fw2 = (None, st3)" "inv st3" "content st3 = (content files)(fid \<mapsto> ?c @ [?b])"
    by (rule append_blocks_ok[OF inv f, of blocks now]) (rule that; assumption)
  let ?hw = "\<lparr>hw_md5 = Some ?b, hw_sha256 = Some ?b\<rparr>"
  have cp: "upload_copy S st1 fw NewHashWriter blocks = (None, st2, fw2, ?hw)"
    using upload_copy_hash[OF a(2), of NewHashWriter] by (simp add: NewHashWriter_def)
  have ok: "check_upload H ?hw md5 sha256 = body_sums H md5 sha256 ?b"
    by (auto simp: check_upload_def CheckMD5_def CheckSHA256_def body_sums_def Let_def)
  have c: "content files fid = Some ?c" using f by (simp add: frag_content_def)
  show ?thesis
  proof (cases berr)
    case (Some e)
    then show ?thesis using a w by (simp add: append_body_def body cp Let_def)
  next
    case None
    show ?thesis
    proof (cases "body_sums H md5 sha256 ?b")
      case True
      let ?v = "hdr_Get r ''Content-Type''" and ?h = "getHexadecimalHeader r ''X-Content-SHA256''" and ?h2 = "getHexadecimalHeader r ''X-Content-MD5''"
      define st4 where "st4 = (if ?v \<noteq> '''' then SetMimeType S J st3 now fid ?v else st3)"
      define st5 where "st5 = (if length ?h > 0 then SetSHA256 S J st4 now fid ?h else st4)"
      define st6 where "st6 = (if length ?h2 > 0 then SetMD5 S J st5 now fid ?h2 else st5)"
      have "inv st4 \<and> content st4 = content st3" using setters_ok[OF a(4)] a(4) by (simp add: st4_def)
      then have "inv st5 \<and> content st5 = content st3" using setters_ok[of st4] by (simp add: st5_def)
      then have "inv st6 \<and> content st6 = content st3" using setters_ok[of st5] by (simp add: st6_def)
      moreover have "append_body S J H now fid md5 sha256 r w files = (hdr_Set ''Location'' (''/upload/'' @ fid) w, st6)"
        using a None True ok by (simp add: append_body_def body cp Let_def st4_def st5_def st6_def)
      ultimately show ?thesis using None True a(5) w by (simp add: rs_Status_def)
    next
      case False
      have "content st3 fid = Some (?c @ [?b])" using a(5) by simp
      from rollback_last[OF a(4) this, of now] obtain st4 where st4: "file_Rollback S J st3 now fid = (None, st4)" "inv st4"
        "content st4 = (content st3)(fid \<mapsto> ?c)" by blast
      have "append_body S J H now fid md5 sha256 r w files =
          (rs_println ''Checksum mismatch'' (WriteHeader 412 (hdr_Set ''Location'' (''/upload/'' @ fid) w)), st4)"
        using a None False ok st4(1) by (simp add: append_body_def body cp Let_def)
      moreover have "content st4 = content files" using st4(3) a(5) c by (simp add: fun_eq_iff)
      ultimately show ?thesis using None False w st4(2) by simp
    qed
  qed
qed

end

section \<open>The handler over the in-memory store\<close>

lemma append_handler:
  assumes inv: "mfrag_inv files" and fid: "ByName r ''fileid'' = fid" "fid \<noteq> ''''"
    and body: "rq_Body r = Some (blocks, berr)"
    and sums: "md5 = getHexadecimalHeader r ''X-Upload-Md5''" "sha256 = getHexadecimalHeader r ''X-Upload-Sha256''"
  shows "\<exists>w files'. AppendFileHandler mem_ops J H now rnd r new_response files = Some (w, files') \<and> mfrag_inv files' \<and>
     (let old = (case mfrag_content files fid of None \<Rightarrow> [] | Some bs \<Rightarrow> bs) in
      if md5 = [] \<and> sha256 = [] then rs_Status w = 400 \<and> files' = files
      else if berr \<noteq> None then rs_Status w = 500 \<and> mfrag_content files' = (mfrag_content files)(fid \<mapsto> old @ [concat blocks])
      else if body_sums H md5 sha256 (concat blocks)
      then rs_Status w = 200 \<and> mfrag_content files' = (mfrag_content files)(fid \<mapsto> old @ [concat blocks])
      else rs_Status w = 412 \<and> mfrag_content files' = (mfrag_content files)(fid \<mapsto> old))"
proof (cases "md5 = [] \<and> sha256 = []")
  case True
  then show ?thesis using inv sums
    by (simp add: AppendFileHandler_def rs_Status_def rs_write_def WriteHeader_def new_response_def Let_def)
next
  case False
  let ?old = "case mfrag_content files fid of None \<Rightarrow> [] | Some bs \<Rightarrow> bs"
  obtain new files1 where n: "frag_New files now fid = (new, files1)" by fastforce
  have f1: "mfrag_inv files1 \<and> (\<exists>f. gget (fr_files files1) fid = Some f) \<and> mfrag_content files1 = (mfrag_content files)(fid \<mapsto> ?old)"
  proof (cases "gget (fr_files files) fid")
    case None
    with memfrag.New_ok[OF inv None, of now] n show ?thesis by (auto simp: frag_content_def frag_New_def)
  next
    case (Some f)
    with inv n show ?thesis by (auto simp: frag_New_def frag_content_def fun_eq_iff)
  qed
  then obtain f where f: "gget (fr_files files1) fid = Some f" by blast
  have h: "AppendFileHandler mem_ops J H now rnd r new_response files = Some (append_body mem_ops J H now fid md5 sha256 r new_response files1)"
    using False sums fid n f by (auto simp: AppendFileHandler_def Let_def frag_Lookup_def)
  have c1: "mfrag_content files1 = (mfrag_content files)(fid \<mapsto> ?old)" using f1 by blast
  have "rs_Code new_response = 0" by (simp add: new_response_def)
  from memfrag.append_body_ok[OF _ f body this, of J H now md5 sha256] f1
  obtain w' files' where "append_body mem_ops J H now fid md5 sha256 r new_response files1 = (w', files')" "mfrag_inv files'"
    "if berr \<noteq> None then rs_Status w' = 500 \<and> mfrag_content files' = (mfrag_content files1)(fid \<mapsto> the (mfrag_content files1 fid) @ [concat blocks])
     else if body_sums H md5 sha256 (concat blocks)
     then rs_Status w' = 200 \<and> mfrag_content files' = (mfrag_content files1)(fid \<mapsto> the (mfrag_content files1 fid) @ [concat blocks])
     else rs_Status w' = 412 \<and> mfrag_content files' = mfrag_content files1" by blast
  then show ?thesis unfolding h c1 using False by (intro exI[of _ w'] exI[of _ files']) auto
qed

section \<open>Properties\<close>



end
