(* ===== verification/Database.thy ===== *)
theory Database
  imports Items
begin

text \<open>
  The two databases behind the server, src/server/db_ql.go and src/server/db_mysql.go, and the version table of their
  migrations, src/server/db.go. A database holds the item cache, the index of blobs, versions and slots, and the
  fixity records.

  The SQL engines are not part of the code. A database is the contents of its tables and a list of
  faults: every statement, and every begin and commit of a transaction, takes the next entry of the list and fails
  without effect if it is an error; past the end of the list nothing fails. A statement is the function on the tables that its
  SQL text denotes. \<open>LIMIT 1\<close> without an order takes the first row that was inserted. A failed commit leaves the
  tables as they were at the beginning of the transaction.

  MySQL keeps a date with less precision than Go: the function \<open>dt\<close> gives the date that a datetime column returns.
  The limits on the length of its character columns and its collation are not modelled.
\<close>

section \<open>Tables\<close>

record item_row =
  it_item :: string
  it_created :: time
  it_modified :: time
  it_size :: int
  it_value :: bytes

record blob_row =
  bl_item :: string
  bl_blobid :: int
  bl_size :: int
  bl_bundle :: int
  bl_created :: time
  bl_creator :: string
  bl_MD5 :: bytes
  bl_SHA256 :: bytes
  bl_mimetype :: string
  bl_deleted :: "time option"
  bl_deleter :: string
  bl_deletenote :: string

record version_row =
  vr_item :: string
  vr_versionid :: int
  vr_created :: time
  vr_creator :: string
  vr_note :: string

record slot_row =
  sl_item :: string
  sl_versionid :: int
  sl_blobid :: int
  sl_name :: string

text \<open>The type \<open>Fixity\<close> of src/server/fixity.go, which is also a row of the table.\<close>

record fixity_rec =
  fx_ID :: int
  fx_Item :: string
  fx_ScheduledTime :: time
  fx_Status :: string
  fx_Notes :: string

text \<open>The type \<open>SimpleItem\<close> of src/server/ui.go, for lists of items.\<close>

record simple_item =
  si_ID :: string
  si_MaxBundle :: int
  si_Created :: time
  si_Modified :: time
  si_Size :: int

record tables =
  t_items :: "item_row list"
  t_blobs :: "blob_row list"
  t_versions :: "version_row list"
  t_slots :: "slot_row list"
  t_fixity :: "fixity_rec list"
  t_nextid :: int

record db =
  db_t :: tables
  db_faults :: "error option list"

definition new_db :: "error option list \<Rightarrow> db" where
  "new_db fs = \<lparr>db_t = \<lparr>t_items = [], t_blobs = [], t_versions = [], t_slots = [], t_fixity = [], t_nextid = 1\<rparr>, db_faults = fs\<rparr>"

section \<open>Statements and transactions\<close>

definition db_step :: "db \<Rightarrow> error option \<times> db" where
  "db_step d = (case db_faults d of [] \<Rightarrow> (None, d) | f # fs \<Rightarrow> (f, d\<lparr>db_faults := fs\<rparr>))"

definition db_query :: "(tables \<Rightarrow> 'a) \<Rightarrow> db \<Rightarrow> 'a result \<times> db" where
  "db_query q d = (case db_step d of (Some e, d1) \<Rightarrow> (Inl e, d1) | (None, d1) \<Rightarrow> (Inr (q (db_t d1)), d1))"

definition db_exec :: "(tables \<Rightarrow> 'a \<times> tables) \<Rightarrow> db \<Rightarrow> 'a result \<times> db" where
  "db_exec f d =
     (case db_step d of
        (Some e, d1) \<Rightarrow> (Inl e, d1)
      | (None, d1) \<Rightarrow> (let (x, t) = f (db_t d1) in (Inr x, d1\<lparr>db_t := t\<rparr>)))"

text \<open>A transaction around a body that reports an error.\<close>

definition in_tx :: "(db \<Rightarrow> 'a result \<times> db) \<Rightarrow> db \<Rightarrow> 'a result \<times> db" where
  "in_tx body d =
     (case db_step d of
        (Some e, d1) \<Rightarrow> (Inl e, d1)
      | (None, d1) \<Rightarrow>
          (case body d1 of
             (Inl e, d2) \<Rightarrow> (Inl e, d2\<lparr>db_t := db_t d1\<rparr>)
           | (Inr x, d2) \<Rightarrow>
               (case db_step d2 of
                  (Some e, d3) \<Rightarrow> (Inl e, d3\<lparr>db_t := db_t d1\<rparr>)
                | (None, d3) \<Rightarrow> (Inr x, d3))))"

definition performExec :: "(tables \<Rightarrow> 'a \<times> tables) \<Rightarrow> db \<Rightarrow> 'a result \<times> db" where
  "performExec f d = in_tx (db_exec f) d"

section \<open>The interface\<close>

text \<open>The interface \<open>BlobDB\<close> of src/server/item.go. A found blob is a pointer that may be nil.\<close>

record 'd blobdb =
  db_FindBlob :: "'d \<Rightarrow> string \<Rightarrow> int \<Rightarrow> (blob option \<times> error option) \<times> 'd"
  db_FindBlobBySlot :: "'d \<Rightarrow> string \<Rightarrow> int \<Rightarrow> string \<Rightarrow> (blob option \<times> error option) \<times> 'd"
  db_IndexItem :: "'d \<Rightarrow> string \<Rightarrow> item \<Rightarrow> unit result \<times> 'd"
  db_GetItemList :: "'d \<Rightarrow> int \<Rightarrow> int \<Rightarrow> string \<Rightarrow> simple_item list \<times> error option"

section \<open>The item cache in QL\<close>

definition ql_Lookup :: "item json \<Rightarrow> db \<Rightarrow> string \<Rightarrow> item option \<times> db" where
  "ql_Lookup J d item =
     (case db_query (\<lambda>t. find (\<lambda>r. it_item r = item) (t_items t)) d of
        (Inl e, d1) \<Rightarrow> (None, d1)
      | (Inr None, d1) \<Rightarrow> (None, d1)
      | (Inr (Some r), d1) \<Rightarrow> (case j_dec J (it_value r) of Inl e \<Rightarrow> (None, d1) | Inr x \<Rightarrow> (Some x, d1)))"

definition item_created :: "item \<Rightarrow> time" where
  "item_created x = (if item_Versions x = [] then 0 else ver_SaveDate (hd (item_Versions x)))"

definition item_modified :: "item \<Rightarrow> time" where
  "item_modified x = (if item_Versions x = [] then 0 else ver_SaveDate (last (item_Versions x)))"

definition item_size :: "item \<Rightarrow> int" where
  "item_size x = sum_list (map blob_Size (item_Blobs x))"

definition to_item_row :: "item json \<Rightarrow> string \<Rightarrow> item \<Rightarrow> item_row" where
  "to_item_row J item x = \<lparr>it_item = item, it_created = item_created x, it_modified = item_modified x, it_size = item_size x, it_value = j_enc J x\<rparr>"

text \<open>The update, with the number of rows that it affects, and the insertion.\<close>

definition update_items :: "item_row \<Rightarrow> tables \<Rightarrow> nat \<times> tables" where
  "update_items r t =
     (length (filter (\<lambda>r'. it_item r' = it_item r) (t_items t)),
      t\<lparr>t_items := map (\<lambda>r'. if it_item r' = it_item r then r else r') (t_items t)\<rparr>)"

definition insert_items :: "item_row \<Rightarrow> tables \<Rightarrow> unit \<times> tables" where
  "insert_items r t = ((), t\<lparr>t_items := t_items t @ [r]\<rparr>)"

section \<open>The index in QL\<close>

definition ql_blob_row :: "string \<Rightarrow> blob \<Rightarrow> blob_row" where
  "ql_blob_row item b = \<lparr>bl_item = item, bl_blobid = blob_ID b, bl_size = blob_Size b, bl_bundle = blob_Bundle b,
     bl_created = blob_SaveDate b, bl_creator = blob_Creator b, bl_MD5 = blob_MD5 b, bl_SHA256 = blob_SHA256 b,
     bl_mimetype = blob_MimeType b, bl_deleted = Some (blob_DeleteDate b), bl_deleter = blob_Deleter b, bl_deletenote = blob_DeleteNote b\<rparr>"

definition ql_version_row :: "string \<Rightarrow> version \<Rightarrow> version_row" where
  "ql_version_row item v = \<lparr>vr_item = item, vr_versionid = ver_ID v, vr_created = ver_SaveDate v, vr_creator = ver_Creator v, vr_note = ver_Note v\<rparr>"

definition zero_blob :: "int \<Rightarrow> blob" where
  "zero_blob bid = \<lparr>blob_ID = bid, blob_SaveDate = 0, blob_Creator = [], blob_Size = 0, blob_Bundle = 0, blob_MD5 = [], blob_SHA256 = [],
     blob_MimeType = [], blob_DeleteDate = 0, blob_Deleter = [], blob_DeleteNote = []\<rparr>"

text \<open>\<open>Scan\<close> of a row; a NULL date cannot be scanned into a \<open>time.Time\<close>.\<close>

definition ql_scan_blob :: "int \<Rightarrow> blob_row \<Rightarrow> blob option \<times> error option" where
  "ql_scan_blob bid r =
     (case bl_deleted r of
        None \<Rightarrow> (Some (zero_blob bid), Some (ErrMessage ''sql: Scan error''))
      | Some t \<Rightarrow> (Some \<lparr>blob_ID = bid, blob_SaveDate = bl_created r, blob_Creator = bl_creator r, blob_Size = bl_size r, blob_Bundle = bl_bundle r,
           blob_MD5 = bl_MD5 r, blob_SHA256 = bl_SHA256 r, blob_MimeType = bl_mimetype r, blob_DeleteDate = t, blob_Deleter = bl_deleter r,
           blob_DeleteNote = bl_deletenote r\<rparr>, None))"

text \<open>\<open>SELECT ... FROM blobs WHERE item = ?1 AND blobid = ?2 LIMIT 1\<close>\<close>

definition select_blob :: "string \<Rightarrow> int \<Rightarrow> tables \<Rightarrow> blob_row option" where
  "select_blob item bid t = find (\<lambda>r. bl_item r = item \<and> bl_blobid r = bid) (t_blobs t)"

text \<open>The result is a blob that may be nil and an error; with an error of the query the blob is not nil.\<close>

definition ql_FindBlob :: "db \<Rightarrow> string \<Rightarrow> int \<Rightarrow> (blob option \<times> error option) \<times> db" where
  "ql_FindBlob d item bid =
     (case db_query (select_blob item bid) d of
        (Inl e, d1) \<Rightarrow> ((Some (zero_blob bid), Some e), d1)
      | (Inr None, d1) \<Rightarrow> ((None, None), d1)
      | (Inr (Some r), d1) \<Rightarrow> (ql_scan_blob bid r, d1))"

text \<open>\<open>SELECT max(...)\<close> gives NULL when there is no row.\<close>

fun max_opt :: "int list \<Rightarrow> int option" where
  "max_opt [] = None"
| "max_opt (n # ns) = (case max_opt ns of None \<Rightarrow> Some n | Some m \<Rightarrow> Some (max n m))"

definition select_maxblob :: "string \<Rightarrow> tables \<Rightarrow> int option" where
  "select_maxblob item t = max_opt (map bl_blobid (filter (\<lambda>r. bl_item r = item) (t_blobs t)))"

definition select_maxversion :: "string \<Rightarrow> tables \<Rightarrow> int option" where
  "select_maxversion item t = max_opt (map vr_versionid (filter (\<lambda>r. vr_item r = item) (t_versions t)))"

definition ql_getMaxBlob :: "db \<Rightarrow> string \<Rightarrow> int result \<times> db" where
  "ql_getMaxBlob d item =
     (case db_query (select_maxblob item) d of
        (Inl e, d1) \<Rightarrow> (Inl e, d1)
      | (Inr None, d1) \<Rightarrow> (Inr 0, d1)
      | (Inr (Some n), d1) \<Rightarrow> (Inr n, d1))"

text \<open>An error of this query is dropped.\<close>

definition ql_getMaxVersion :: "db \<Rightarrow> string \<Rightarrow> int result \<times> db" where
  "ql_getMaxVersion d item =
     (case db_query (select_maxversion item) d of
        (Inl e, d1) \<Rightarrow> (Inr 0, d1)
      | (Inr None, d1) \<Rightarrow> (Inr 0, d1)
      | (Inr (Some n), d1) \<Rightarrow> (Inr n, d1))"

definition select_slot :: "string \<Rightarrow> int \<Rightarrow> string \<Rightarrow> tables \<Rightarrow> int option" where
  "select_slot item vid slot t =
     map_option sl_blobid (find (\<lambda>r. sl_item r = item \<and> sl_versionid r = vid \<and> sl_name r = slot) (t_slots t))"

text \<open>The second step of the resolution. The blob id stays 0 when the query fails, and that is tested first.\<close>

definition ql_find_slot :: "db \<Rightarrow> string \<Rightarrow> int \<Rightarrow> string \<Rightarrow> (blob option \<times> error option) \<times> db" where
  "ql_find_slot d item version slot =
     (case db_query (select_slot item version slot) d of
        (Inl e, d1) \<Rightarrow> ((None, None), d1)
      | (Inr None, d1) \<Rightarrow> ((None, None), d1)
      | (Inr (Some bid), d1) \<Rightarrow> if bid = 0 then ((None, None), d1) else ql_FindBlob d1 item bid)"

definition ql_FindBlobBySlot :: "db \<Rightarrow> string \<Rightarrow> int \<Rightarrow> string \<Rightarrow> (blob option \<times> error option) \<times> db" where
  "ql_FindBlobBySlot d item version slot =
     (if version = 0 then
        (case ql_getMaxVersion d item of
           (Inl e, d1) \<Rightarrow> ((None, Some e), d1)
         | (Inr v, d1) \<Rightarrow> if v = 0 then ((None, None), d1) else ql_find_slot d1 item v slot)
      else ql_find_slot d item version slot)"

text \<open>The loops of \<open>IndexItem\<close>, which differ between the databases only in how a row is made.\<close>

definition insert_blob :: "blob_row \<Rightarrow> tables \<Rightarrow> unit \<times> tables" where
  "insert_blob r t = ((), t\<lparr>t_blobs := t_blobs t @ [r]\<rparr>)"

definition set_blob_row :: "blob_row \<Rightarrow> blob_row \<Rightarrow> blob_row" where
  "set_blob_row r r' =
     (if bl_item r' = bl_item r \<and> bl_blobid r' = bl_blobid r
      then r'\<lparr>bl_bundle := bl_bundle r, bl_mimetype := bl_mimetype r, bl_deleted := bl_deleted r, bl_deleter := bl_deleter r,
              bl_deletenote := bl_deletenote r\<rparr>
      else r')"

definition update_blob :: "blob_row \<Rightarrow> tables \<Rightarrow> unit \<times> tables" where
  "update_blob r t = ((), t\<lparr>t_blobs := map (set_blob_row r) (t_blobs t)\<rparr>)"

fun index_blobs :: "(string \<Rightarrow> blob \<Rightarrow> blob_row) \<Rightarrow> string \<Rightarrow> int \<Rightarrow> blob list \<Rightarrow> db \<Rightarrow> unit result \<times> db" where
  "index_blobs mk item maxblob [] d = (Inr (), d)"
| "index_blobs mk item maxblob (b # bs) d =
     (case db_exec (if blob_ID b > maxblob then insert_blob (mk item b) else update_blob (mk item b)) d of
        (Inl e, d1) \<Rightarrow> (Inl e, d1)
      | (Inr u, d1) \<Rightarrow> index_blobs mk item maxblob bs d1)"

definition insert_slot :: "string \<Rightarrow> int \<Rightarrow> string \<times> int \<Rightarrow> tables \<Rightarrow> unit \<times> tables" where
  "insert_slot item vid p t = ((), t\<lparr>t_slots := t_slots t @ [\<lparr>sl_item = item, sl_versionid = vid, sl_blobid = snd p, sl_name = fst p\<rparr>]\<rparr>)"

fun index_slots :: "string \<Rightarrow> int \<Rightarrow> (string, int) gomap \<Rightarrow> db \<Rightarrow> unit result \<times> db" where
  "index_slots item vid [] d = (Inr (), d)"
| "index_slots item vid (p # ps) d =
     (case db_exec (insert_slot item vid p) d of
        (Inl e, d1) \<Rightarrow> (Inl e, d1)
      | (Inr u, d1) \<Rightarrow> index_slots item vid ps d1)"

definition insert_version :: "version_row \<Rightarrow> tables \<Rightarrow> unit \<times> tables" where
  "insert_version r t = ((), t\<lparr>t_versions := t_versions t @ [r]\<rparr>)"

fun index_versions :: "(string \<Rightarrow> version \<Rightarrow> version_row) \<Rightarrow> string \<Rightarrow> int \<Rightarrow> version list \<Rightarrow> db \<Rightarrow> unit result \<times> db" where
  "index_versions mkv item maxversion [] d = (Inr (), d)"
| "index_versions mkv item maxversion (v # vs) d =
     (if ver_ID v \<le> maxversion then index_versions mkv item maxversion vs d
      else case db_exec (insert_version (mkv item v)) d of
             (Inl e, d1) \<Rightarrow> (Inl e, d1)
           | (Inr u, d1) \<Rightarrow>
               (case index_slots item (ver_ID v) (ver_Slots v) d1 of
                  (Inl e, d2) \<Rightarrow> (Inl e, d2)
                | (Inr u, d2) \<Rightarrow> index_versions mkv item maxversion vs d2))"

definition index_body ::
  "(string \<Rightarrow> blob \<Rightarrow> blob_row) \<Rightarrow> (string \<Rightarrow> version \<Rightarrow> version_row) \<Rightarrow> string \<Rightarrow> int \<Rightarrow> int \<Rightarrow> item \<Rightarrow> db \<Rightarrow> unit result \<times> db" where
  "index_body mk mkv item maxblob maxversion x d =
     (case index_blobs mk item maxblob (item_Blobs x) d of
        (Inl e, d1) \<Rightarrow> (Inl e, d1)
      | (Inr u, d1) \<Rightarrow> index_versions mkv item maxversion (item_Versions x) d1)"

text \<open>An error on the left of the result is the error that the Go method returns.\<close>

definition ql_IndexItem :: "db \<Rightarrow> string \<Rightarrow> item \<Rightarrow> unit result \<times> db" where
  "ql_IndexItem d item x =
     (case ql_getMaxBlob d item of
        (Inl e, d1) \<Rightarrow> (Inl e, d1)
      | (Inr maxblob, d1) \<Rightarrow>
          (case ql_getMaxVersion d1 item of
             (Inl e, d2) \<Rightarrow> (Inl e, d2)
           | (Inr maxversion, d2) \<Rightarrow> in_tx (index_body ql_blob_row ql_version_row item maxblob maxversion x) d2))"

text \<open>\<open>Set\<close>: update, insert when nothing was updated, and index. A failed insertion does not keep it from indexing.\<close>

definition ql_Set :: "item json \<Rightarrow> db \<Rightarrow> string \<Rightarrow> item \<Rightarrow> db" where
  "ql_Set J d item x =
     (case performExec (update_items (to_item_row J item x)) d of
        (Inl e, d1) \<Rightarrow> d1
      | (Inr n, d1) \<Rightarrow>
          snd (ql_IndexItem (if n = 0 then snd (performExec (insert_items (to_item_row J item x)) d1) else d1) item x))"

section \<open>The list of items\<close>

text \<open>The part of both query builders that adds the order.\<close>

definition sort_column :: "string \<Rightarrow> string" where
  "sort_column s =
     (if s = ''name'' then ''item'' else if s = ''size'' then ''size'' else if s = ''modified'' then ''modified''
      else if s = ''created'' then ''created'' else '''')"

definition order_by :: "string \<Rightarrow> string" where
  "order_by sortorder =
     (let decending = has_prefix sortorder ''-'';
          col = sort_column (if decending then drop 1 sortorder else sortorder)
      in if col = '''' then '''' else ''ORDER BY '' @ col @ (if decending then '' DESC '' else ''''))"

definition buildQLItemListQuery :: "int \<Rightarrow> int \<Rightarrow> string \<Rightarrow> string" where
  "buildQLItemListQuery offset pagesize sortorder =
     ''SELECT item, created, modified, size FROM items '' @ order_by sortorder @ '' ORDER BY scheduled_time '' @ '' LIMIT ?1 '' @
     (if offset > 0 then ''OFFSET ?2 '' else '''')"

text \<open>The engine answers a query text and its arguments with the rows, each scanned into a record or not.\<close>

definition ql_GetItemList ::
  "(db \<Rightarrow> string \<Rightarrow> int list \<Rightarrow> simple_item option list result) \<Rightarrow> db \<Rightarrow> int \<Rightarrow> int \<Rightarrow> string \<Rightarrow> simple_item list \<times> error option" where
  "ql_GetItemList engine d offset pagesize sortorder =
     (case engine d (buildQLItemListQuery offset pagesize sortorder) [pagesize, offset] of
        Inl e \<Rightarrow> ([], None)
      | Inr rows \<Rightarrow> (List.map_filter id rows, None))"

text \<open>The QL database as an implementation of the interface.\<close>

definition ql_blobdb :: "(db \<Rightarrow> string \<Rightarrow> int list \<Rightarrow> simple_item option list result) \<Rightarrow> db blobdb" where
  "ql_blobdb engine = \<lparr>db_FindBlob = ql_FindBlob, db_FindBlobBySlot = ql_FindBlobBySlot, db_IndexItem = ql_IndexItem,
     db_GetItemList = ql_GetItemList engine\<rparr>"

section \<open>Fixity records in QL\<close>

definition scheduled :: "fixity_rec \<Rightarrow> bool" where
  "scheduled r = (fx_Status r = ''scheduled'')"

definition select_next :: "time \<Rightarrow> tables \<Rightarrow> fixity_rec option" where
  "select_next cutoff t =
     (case sort_key fx_ScheduledTime (filter (\<lambda>r. scheduled r \<and> fx_ScheduledTime r \<le> cutoff) (t_fixity t)) of
        [] \<Rightarrow> None
      | r # rs \<Rightarrow> Some r)"

definition ql_NextFixity :: "db \<Rightarrow> time \<Rightarrow> int \<times> db" where
  "ql_NextFixity d cutoff =
     (case db_query (select_next cutoff) d of
        (Inl e, d1) \<Rightarrow> (0, d1)
      | (Inr None, d1) \<Rightarrow> (0, d1)
      | (Inr (Some r), d1) \<Rightarrow> (fx_ID r, d1))"

definition ql_GetFixity :: "db \<Rightarrow> int \<Rightarrow> fixity_rec option \<times> db" where
  "ql_GetFixity d fid =
     (case db_query (\<lambda>t. find (\<lambda>r. fx_ID r = fid) (t_fixity t)) d of
        (Inl e, d1) \<Rightarrow> (None, d1)
      | (Inr r, d1) \<Rightarrow> (r, d1))"

definition buildQLQuery :: "time \<Rightarrow> time \<Rightarrow> string \<Rightarrow> string \<Rightarrow> string" where
  "buildQLQuery start end' item status =
     (let c0 = '' WHERE '';
          (q1, c1) = (if start \<noteq> 0 then (c0 @ ''scheduled_time >= ?1'', '' AND '') else ('''', c0));
          (q2, c2) = (if end' \<noteq> 0 then (c1 @ ''scheduled_time <= ?2'', '' AND '') else ('''', c1));
          (q3, c3) = (if item \<noteq> '''' then (c2 @ ''item = ?3'', '' AND '') else ('''', c2));
          q4 = (if status \<noteq> '''' then c3 @ ''status = ?4'' else '''')
      in ''SELECT id(), item, scheduled_time, status, notes FROM fixity'' @ q1 @ q2 @ q3 @ q4 @ '' ORDER BY scheduled_time'')"

text \<open>What the query text denotes: a zero argument is a wildcard.\<close>

definition search_rows :: "time \<Rightarrow> time \<Rightarrow> string \<Rightarrow> string \<Rightarrow> tables \<Rightarrow> fixity_rec list" where
  "search_rows start end' item status t =
     sort_key fx_ScheduledTime (filter (\<lambda>r. (start = 0 \<or> start \<le> fx_ScheduledTime r) \<and> (end' = 0 \<or> fx_ScheduledTime r \<le> end') \<and>
       (item = '''' \<or> fx_Item r = item) \<and> (status = '''' \<or> fx_Status r = status)) (t_fixity t))"

definition ql_SearchFixity :: "db \<Rightarrow> time \<Rightarrow> time \<Rightarrow> string \<Rightarrow> string \<Rightarrow> fixity_rec list \<times> db" where
  "ql_SearchFixity d start end' item status =
     (case db_query (search_rows start end' item status) d of
        (Inl e, d1) \<Rightarrow> ([], d1)
      | (Inr rs, d1) \<Rightarrow> (rs, d1))"

definition default_status :: "fixity_rec \<Rightarrow> fixity_rec" where
  "default_status r = (if fx_Status r = '''' then r\<lparr>fx_Status := ''scheduled''\<rparr> else r)"

definition insert_fixity :: "fixity_rec \<Rightarrow> tables \<Rightarrow> int \<times> tables" where
  "insert_fixity r t = (t_nextid t, t\<lparr>t_fixity := t_fixity t @ [r\<lparr>fx_ID := t_nextid t\<rparr>], t_nextid := t_nextid t + 1\<rparr>)"

definition update_fixity :: "fixity_rec \<Rightarrow> tables \<Rightarrow> unit \<times> tables" where
  "update_fixity r t = ((), t\<lparr>t_fixity := map (\<lambda>r'. if fx_ID r' = fx_ID r \<and> scheduled r' then r else r') (t_fixity t)\<rparr>)"

definition ql_UpdateFixity :: "db \<Rightarrow> fixity_rec \<Rightarrow> int result \<times> db" where
  "ql_UpdateFixity d record =
     (let r = default_status record in
      if fx_ID r = 0 then performExec (insert_fixity r) d
      else case performExec (update_fixity r) d of
             (Inl e, d1) \<Rightarrow> (Inl e, d1)
           | (Inr u, d1) \<Rightarrow> (Inr (fx_ID r), d1))"

definition delete_fixity :: "int \<Rightarrow> tables \<Rightarrow> unit \<times> tables" where
  "delete_fixity fid t = ((), t\<lparr>t_fixity := filter (\<lambda>r. \<not> (fx_ID r = fid \<and> scheduled r)) (t_fixity t)\<rparr>)"

definition ql_DeleteFixity :: "db \<Rightarrow> int \<Rightarrow> error option \<times> db" where
  "ql_DeleteFixity d fid = (case performExec (delete_fixity fid) d of (Inl e, d1) \<Rightarrow> (Some e, d1) | (Inr u, d1) \<Rightarrow> (None, d1))"

definition select_check :: "string \<Rightarrow> tables \<Rightarrow> fixity_rec option" where
  "select_check item t =
     (case sort_key fx_ScheduledTime (filter (\<lambda>r. fx_Item r = item \<and> scheduled r) (t_fixity t)) of [] \<Rightarrow> None | r # rs \<Rightarrow> Some r)"

definition ql_LookupCheck :: "db \<Rightarrow> string \<Rightarrow> time result \<times> db" where
  "ql_LookupCheck d item =
     (case db_query (select_check item) d of
        (Inl e, d1) \<Rightarrow> (Inl e, d1)
      | (Inr None, d1) \<Rightarrow> (Inr 0, d1)
      | (Inr (Some r), d1) \<Rightarrow> (Inr (fx_ScheduledTime r), d1))"

end
