(* ===== verification/Server_Content.thy ===== *)
theory Server_Content
  imports Store_Interface "HOL-Library.Word"
begin

text \<open>
  Two helpers of src/server/item.go: the list of recent errors of copies into the cache, and the reader with seek over cached
  content. The positions of the reader are 64 bit integers with wrap-around, as in the code.
\<close>

section \<open>The error ledger\<close>

record errorentry =
  ee_key :: string
  ee_err :: error
  ee_expires :: time

type_synonym errorlist = "errorentry list"

definition second :: int where
  "second = 1000000000"

definition el_add :: "errorlist \<Rightarrow> time \<Rightarrow> string \<Rightarrow> error \<Rightarrow> errorlist" where
  "el_add errs now key err = errs @ [\<lparr>ee_key = key, ee_err = err, ee_expires = now + 30 * second\<rparr>]"

text \<open>The backward scan, on the reversed list: what was found, and the index after the entry at which it stopped.\<close>

fun el_scan :: "time \<Rightarrow> string \<Rightarrow> errorlist \<Rightarrow> error option \<times> nat" where
  "el_scan now key [] = (None, 0)"
| "el_scan now key (x # xs) =
     (if ee_expires x < now then (None, length (x # xs))
      else if ee_key x = key then (Some (ee_err x), 0)
      else el_scan now key xs)"

definition el_find :: "errorlist \<Rightarrow> time \<Rightarrow> string \<Rightarrow> error option \<times> errorlist" where
  "el_find errs now key =
     (let (result, i) = el_scan now key (rev errs) in (result, if result = None then drop i errs else errs))"

text \<open>The list as a sequence of calls makes it, with the time of the last one. Entries are never removed from the log.\<close>

inductive ledger :: "errorlist \<Rightarrow> errorlist \<Rightarrow> time \<Rightarrow> bool" where
  Empty: "ledger [] [] t"
| Add: "ledger errs log t \<Longrightarrow> t \<le> now \<Longrightarrow> ledger (el_add errs now key err) (el_add log now key err) now"
| Find: "ledger errs log t \<Longrightarrow> t \<le> now \<Longrightarrow> ledger (snd (el_find errs now key)) log now"

text \<open>The entries that have not expired are kept, in order.\<close>

definition live :: "time \<Rightarrow> errorlist \<Rightarrow> errorlist" where
  "live now es = filter (\<lambda>x. now \<le> ee_expires x) es"

lemma live_mono: "t \<le> now \<Longrightarrow> live t es = live t es' \<Longrightarrow> live now es = live now es'"
proof -
  assume "t \<le> now" and eq: "live t es = live t es'"
  then have "live now es = live now (live t es)" for es by (auto simp: live_def intro: filter_cong)
  with eq show ?thesis by metis
qed

lemma el_scan_sorted:
  assumes "sorted (map ee_expires (rev xs))"
  shows "fst (el_scan now key xs) = map_option ee_err (find (\<lambda>x. now \<le> ee_expires x \<and> ee_key x = key) xs)"
    and "fst (el_scan now key xs) = None \<Longrightarrow> live now (drop (snd (el_scan now key xs)) (rev xs)) = live now (rev xs)"
  using assms
proof (induction xs)
  case (Cons x xs)
  {
    case 1
    have "find (\<lambda>x. now \<le> ee_expires x \<and> ee_key x = key) xs = None" if "ee_expires x < now"
      using 1 that by (auto simp: find_None_iff sorted_append)
    with 1 Cons.IH(1) show ?case by (auto simp: sorted_append)
  next
    case 2
    then have s: "sorted (map ee_expires (rev xs))" "\<forall>y \<in> set xs. ee_expires y \<le> ee_expires x" by (auto simp: sorted_append)
    show ?case
    proof (cases "ee_expires x < now")
      case True
      then have "live now (rev xs @ [x]) = []" using s by (auto simp: live_def filter_empty_conv)
      with True show ?thesis by (simp add: live_def)
    next
      case False
      with 2 have "ee_key x \<noteq> key" "fst (el_scan now key xs) = None" by (auto split: if_splits)
      with Cons.IH(2)[OF _ s(1)] False have "live now (drop (snd (el_scan now key xs)) (rev xs)) = live now (rev xs)" by simp
      moreover have "snd (el_scan now key xs) \<le> length xs" by (induction xs) auto
      ultimately show ?thesis using False \<open>ee_key x \<noteq> key\<close> by (simp add: live_def)
    qed
  }
qed simp_all

lemma ledger_inv: "ledger errs log t \<Longrightarrow> sorted (map ee_expires errs) \<and> (\<forall>x \<in> set errs. ee_expires x \<le> t + 30 * second) \<and> live t errs = live t log"
proof (induction rule: ledger.induct)
  case (Add errs log t now key err)
  then have "live now errs = live now log" using live_mono by blast
  with Add show ?case by (fastforce simp: el_add_def sorted_append live_def)
next
  case (Find errs log t now key)
  let ?k = "snd (el_scan now key (rev errs))"
  have eq: "live now errs = live now log" using Find live_mono by blast
  have "snd (el_find errs now key) = errs \<or> fst (el_scan now key (rev errs)) = None \<and> snd (el_find errs now key) = drop ?k errs"
    by (auto simp: el_find_def split: prod.splits)
  then show ?case
  proof
    assume "snd (el_find errs now key) = errs"
    with Find eq show ?thesis by fastforce
  next
    assume d: "fst (el_scan now key (rev errs)) = None \<and> snd (el_find errs now key) = drop ?k errs"
    have "sorted (map ee_expires (rev (rev errs)))" using Find by simp
    from el_scan_sorted(2)[OF this] d have "live now (snd (el_find errs now key)) = live now errs" by simp
    moreover have "sorted (map ee_expires (drop ?k errs))" using Find.IH by (metis drop_map sorted_wrt_drop)
    moreover have "\<forall>x \<in> set (drop ?k errs). ee_expires x \<le> now + 30 * second" using Find by (fastforce dest: in_set_dropD)
    ultimately show ?thesis using d eq by simp
  qed
qed (simp add: live_def)

section \<open>The reader with seek\<close>

record readseekcloser =
  rsc_r :: bytes
  rsc_off :: "64 word"
  rsc_size :: "64 word"

definition NewReadSeekCloser :: "bytes \<Rightarrow> 64 word \<Rightarrow> readseekcloser" where
  "NewReadSeekCloser r sz = \<lparr>rsc_r = r, rsc_off = 0, rsc_size = sz\<rparr>"

definition rsc_Read :: "(bytes \<Rightarrow> int \<Rightarrow> nat \<Rightarrow> bytes \<times> error option) \<Rightarrow> readseekcloser \<Rightarrow> nat \<Rightarrow> (bytes \<times> error option) \<times> readseekcloser" where
  "rsc_Read ra r n =
     (let (p, err) = ra (rsc_r r) (sint (rsc_off r)) n;
          r1 = r\<lparr>rsc_off := rsc_off r + word_of_nat (length p)\<rparr>
      in ((p, if err = Some EOF \<and> 0 < length p then None else err), r1))"

text \<open>The values of \<open>io.SeekStart\<close>, \<open>io.SeekCurrent\<close> and \<open>io.SeekEnd\<close> are 0, 1 and 2.\<close>

definition rsc_target :: "readseekcloser \<Rightarrow> 64 word \<Rightarrow> int \<Rightarrow> 64 word option" where
  "rsc_target r offset whence =
     (if whence = 0 then Some offset
      else if whence = 1 then Some (rsc_off r + offset)
      else if whence = 2 then Some (rsc_size r + offset)
      else None)"

definition rsc_Seek :: "readseekcloser \<Rightarrow> 64 word \<Rightarrow> int \<Rightarrow> (64 word) result \<times> readseekcloser" where
  "rsc_Seek r offset whence =
     (case rsc_target r offset whence of
        None \<Rightarrow> (Inl ErrWhence, r)
      | Some a \<Rightarrow>
          if a <s 0 then (Inl ErrInvalidPos, r)
          else (let abs1 = (if rsc_size r <s a then rsc_size r else a) in (Inr abs1, r\<lparr>rsc_off := abs1\<rparr>)))"

datatype rsc_op = RRead nat | RSeek "64 word" int

fun rsc_step :: "(bytes \<Rightarrow> int \<Rightarrow> nat \<Rightarrow> bytes \<times> error option) \<Rightarrow> rsc_op \<Rightarrow> readseekcloser \<Rightarrow> readseekcloser" where
  "rsc_step ra (RRead n) r = snd (rsc_Read ra r n)"
| "rsc_step ra (RSeek offset whence) r = snd (rsc_Seek r offset whence)"

definition rsc_ok :: "bytes \<Rightarrow> readseekcloser \<Rightarrow> bool" where
  "rsc_ok b r = (rsc_r r = b \<and> rsc_size r = word_of_nat (length b) \<and> length b < 2 ^ 63 \<and> (\<exists>k \<le> length b. rsc_off r = word_of_nat k))"

lemma int_less_63: "k < 2 ^ 63 \<Longrightarrow> int k < 2 ^ 63"
  by (simp only: of_nat_less_iff[symmetric, where 'a = int] of_nat_power of_nat_numeral)

lemma sint_in_range: "- (2 ^ 63) \<le> z \<Longrightarrow> z < 2 ^ 63 \<Longrightarrow> sint (word_of_int z :: 64 word) = z"
  by (simp add: sint_uint signed_take_bit_int_eq_self unsigned_of_int signed_take_bit_take_bit)

lemma sint_small: "k < 2 ^ 63 \<Longrightarrow> sint (word_of_nat k :: 64 word) = int k"
  using sint_in_range[of "int k"] int_less_63[of k] by simp

text \<open>A sum of two 64 bit integers that leaves the range on the upper side is negative.\<close>

lemma sint_add_nat:
  assumes "k < 2 ^ 63"
  shows "sint (word_of_nat k + w :: 64 word) = (if int k + sint w < 2 ^ 63 then int k + sint w else int k + sint w - 2 ^ 64)"
proof -
  have k: "int k < 2 ^ 63" by (rule int_less_63[OF assms])
  have w: "- (2 ^ 63) \<le> sint w" "sint w < 2 ^ 63" using sint_greater_eq[of w] sint_lt[of w] by simp_all
  let ?z = "int k + sint w"
  have sum: "word_of_nat k + w = (word_of_int ?z :: 64 word)" by simp
  show ?thesis
  proof (cases "?z < 2 ^ 63")
    case True
    then show ?thesis unfolding sum using w sint_in_range[of ?z] by simp
  next
    case False
    have "(word_of_int ?z :: 64 word) = word_of_int (?z - 2 ^ 64)" by (simp add: word_of_int_eq_iff take_bit_eq_mod)
    moreover have "sint (word_of_int (?z - 2 ^ 64) :: 64 word) = ?z - 2 ^ 64" using False k w by (intro sint_in_range) simp_all
    ultimately have "sint (word_of_int ?z :: 64 word) = ?z - 2 ^ 64" by metis
    then show ?thesis unfolding sum if_not_P[OF False] .
  qed
qed

definition rsc_base :: "readseekcloser \<Rightarrow> int \<Rightarrow> int" where
  "rsc_base r whence = (if whence = 0 then 0 else if whence = 1 then sint (rsc_off r) else sint (rsc_size r))"

lemma rsc_Seek_exact:
  assumes "rsc_ok b r"
  shows "rsc_Seek r offset whence =
     (if whence \<notin> {0, 1, 2} then (Inl ErrWhence, r)
      else let z = rsc_base r whence + sint offset in
        if z < 0 \<or> 2 ^ 63 \<le> z then (Inl ErrInvalidPos, r)
        else (Inr (word_of_int (min z (int (length b)))), r\<lparr>rsc_off := word_of_int (min z (int (length b)))\<rparr>))"
proof -
  obtain k where k: "k \<le> length b" "rsc_off r = word_of_nat k" "rsc_size r = word_of_nat (length b)" "length b < 2 ^ 63"
    using assms by (auto simp: rsc_ok_def)
  have small: "sint (word_of_nat k :: 64 word) = int k" "sint (word_of_nat (length b) :: 64 word) = int (length b)" using k sint_small by simp_all
  have fit: "(let t = word_of_nat n + offset in if t <s 0 then (Inl ErrInvalidPos, r)
        else (let abs1 = (if rsc_size r <s t then rsc_size r else t) in (Inr abs1, r\<lparr>rsc_off := abs1\<rparr>))) =
      (let z = int n + sint offset in if z < 0 \<or> 2 ^ 63 \<le> z then (Inl ErrInvalidPos, r)
        else (Inr (word_of_int (min z (int (length b)))), r\<lparr>rsc_off := word_of_int (min z (int (length b)))\<rparr>))" if n: "n \<le> length b" for n
  proof -
    let ?t = "word_of_nat n + offset :: 64 word" and ?z = "int n + sint offset"
    have t: "sint ?t = (if ?z < 2 ^ 63 then ?z else ?z - 2 ^ 64)" using sint_add_nat[of n offset] n k(4) by simp
    have off: "sint offset < 2 ^ 63" using sint_lt[of offset] by simp
    have nb: "int n < 2 ^ 63" using n k(4) by (intro int_less_63) simp
    have neg: "?t <s 0 \<longleftrightarrow> ?z < 0 \<or> 2 ^ 63 \<le> ?z" unfolding word_sless_alt t using off nb by auto
    have min: "(if rsc_size r <s ?t then rsc_size r else ?t) = word_of_int (min ?z (int (length b)))" if "\<not> (?z < 0 \<or> 2 ^ 63 \<le> ?z)"
    proof -
      have lt: "rsc_size r <s ?t \<longleftrightarrow> int (length b) < ?z" unfolding word_sless_alt t k(3) small using that by auto
      have tz: "?t = word_of_int ?z" by (simp only: of_int_add of_int_of_nat_eq of_int_sint scast_id)
      show ?thesis
      proof (cases "int (length b) < ?z")
        case True
        then have m: "min ?z (int (length b)) = int (length b)" by simp
        have "rsc_size r <s ?t" using lt True by blast
        then show ?thesis unfolding m of_int_of_nat_eq by (simp only: if_True k(3))
      next
        case False
        then have m: "min ?z (int (length b)) = ?z" by simp
        show ?thesis unfolding lt if_not_P[OF False] m by (rule tz)
      qed
    qed
    show ?thesis using neg min by (simp add: Let_def)
  qed
  consider "whence = 0" | "whence = 1" | "whence = 2" | "whence \<notin> {0, 1, 2}" by auto
  then show ?thesis
  proof cases
    case 1
    then show ?thesis using fit[of 0] by (simp add: rsc_Seek_def rsc_target_def rsc_base_def Let_def)
  next
    case 2
    then show ?thesis using fit[OF k(1)] by (simp add: rsc_Seek_def rsc_target_def rsc_base_def k(2) small Let_def)
  next
    case 3
    then show ?thesis using fit[of "length b"] k(3) by (simp add: rsc_Seek_def rsc_target_def rsc_base_def small Let_def)
  qed (simp add: rsc_Seek_def rsc_target_def)
qed

lemma rsc_ok_move: "rsc_ok b r \<Longrightarrow> k \<le> length b \<Longrightarrow> rsc_ok b (r\<lparr>rsc_off := word_of_nat k\<rparr>)"
  by (auto simp: rsc_ok_def)

lemma rsc_Read_exact:
  assumes ok: "rsc_ok b r" and ra: "read_at_ok ra"
  shows "fst (fst (rsc_Read ra r n)) = take n (drop (nat (sint (rsc_off r))) b)" and "rsc_ok b (snd (rsc_Read ra r n))"
    and "sint (rsc_off (snd (rsc_Read ra r n))) = min (sint (rsc_off r) + int n) (int (length b))"
proof -
  obtain k where k: "k \<le> length b" "rsc_off r = word_of_nat k" "rsc_r r = b" "length b < 2 ^ 63" using ok by (auto simp: rsc_ok_def)
  have s: "sint (rsc_off r) = int k" using k sint_small by simp
  obtain p err where p: "ra b (int k) n = (p, err)" by fastforce
  have pt: "p = take n (drop k b)" using read_at_okD(1)[where off = "int k" and b = b and n = n, OF ra] p by simp
  let ?k = "k + length p"
  have rd: "fst (fst (rsc_Read ra r n)) = p" "snd (rsc_Read ra r n) = r\<lparr>rsc_off := word_of_nat ?k\<rparr>"
  proof -
    have "rsc_Read ra r n = ((p, if err = Some EOF \<and> 0 < length p then None else err), r\<lparr>rsc_off := rsc_off r + word_of_nat (length p)\<rparr>)"
      by (simp add: rsc_Read_def k(3) s p)
    then show "fst (fst (rsc_Read ra r n)) = p" "snd (rsc_Read ra r n) = r\<lparr>rsc_off := word_of_nat ?k\<rparr>" by (simp_all add: k(2))
  qed
  show "fst (fst (rsc_Read ra r n)) = take n (drop (nat (sint (rsc_off r))) b)" unfolding rd s pt by simp
  have le: "?k \<le> length b" unfolding pt using k(1) by simp
  have off: "rsc_off (snd (rsc_Read ra r n)) = word_of_nat ?k" by (simp add: rd)
  show "rsc_ok b (snd (rsc_Read ra r n))" unfolding rd(2) by (rule rsc_ok_move[OF ok le])
  show "sint (rsc_off (snd (rsc_Read ra r n))) = min (sint (rsc_off r) + int n) (int (length b))"
  proof -
    have "sint (word_of_nat ?k :: 64 word) = int ?k" using le k(4) by (intro sint_small) simp
    moreover have "int ?k = min (int k + int n) (int (length b))" unfolding pt length_take length_drop using k(1) by linarith
    ultimately show ?thesis unfolding off s by (rule trans)
  qed
qed

lemma rsc_step_ok: "rsc_ok b r \<Longrightarrow> read_at_ok ra \<Longrightarrow> rsc_ok b (rsc_step ra op r)"
proof (cases op)
  case (RSeek offset whence)
  assume ok: "rsc_ok b r"
  let ?z = "rsc_base r whence + sint offset"
  have "snd (rsc_Seek r offset whence) = r \<or> 0 \<le> ?z \<and> snd (rsc_Seek r offset whence) = r\<lparr>rsc_off := word_of_int (min ?z (int (length b)))\<rparr>"
    unfolding rsc_Seek_exact[OF ok, of offset whence] Let_def by (simp del: One_nat_def)
  moreover have "word_of_int (min ?z (int (length b))) = (word_of_nat (nat (min ?z (int (length b)))) :: 64 word)" if "0 \<le> ?z"
    using that by simp
  moreover have "nat (min ?z (int (length b))) \<le> length b" by (simp add: nat_le_iff)
  ultimately show ?thesis using ok RSeek rsc_ok_move[OF ok] by (metis rsc_step.simps(2))
qed (simp add: rsc_Read_exact)

section \<open>Properties\<close>

text \<open>C33. The reader with seek over cached content of less than \<open>2 ^ 63\<close> bytes, after any sequence of reads and seeks. Its position
  stays within the content, also when the sum of position and offset overflows 64 bits: such a seek is refused and does not wrap to a
  position. Otherwise a seek is exact integer arithmetic, cut off at the end and refused before the start, and a read returns the
  bytes at the position and moves it past them.\<close>

theorem readseeker_bounds:
  assumes "read_at_ok ra" and "length b < 2 ^ 63" and "r = fold (rsc_step ra) ops (NewReadSeekCloser b (word_of_nat (length b)))"
  shows "0 \<le> sint (rsc_off r) \<and> sint (rsc_off r) \<le> int (length b) \<and>
     fst (fst (rsc_Read ra r n)) = take n (drop (nat (sint (rsc_off r))) b) \<and>
     sint (rsc_off (snd (rsc_Read ra r n))) = min (sint (rsc_off r) + int n) (int (length b)) \<and>
     (let z = sint (rsc_off r) + sint offset in
      rsc_Seek r offset 1 = (if z < 0 \<or> 2 ^ 63 \<le> z then (Inl ErrInvalidPos, r)
        else (Inr (word_of_int (min z (int (length b)))), r\<lparr>rsc_off := word_of_int (min z (int (length b)))\<rparr>)))"
proof -
  have "rsc_ok b (NewReadSeekCloser b (word_of_nat (length b)))" using assms(2) by (auto simp: rsc_ok_def NewReadSeekCloser_def intro: exI[of _ 0])
  then have ok: "rsc_ok b r" unfolding assms(3) by (induction ops rule: rev_induct) (simp_all add: rsc_step_ok assms(1))
  then obtain k where k: "k \<le> length b" "rsc_off r = word_of_nat k" "length b < 2 ^ 63" by (auto simp: rsc_ok_def)
  then have s: "sint (rsc_off r) = int k" using sint_small by simp
  from rsc_Seek_exact[OF ok, of offset 1]
  have sk: "let z = sint (rsc_off r) + sint offset in rsc_Seek r offset 1 = (if z < 0 \<or> 2 ^ 63 \<le> z then (Inl ErrInvalidPos, r)
        else (Inr (word_of_int (min z (int (length b)))), r\<lparr>rsc_off := word_of_int (min z (int (length b)))\<rparr>))"
    by (simp add: rsc_base_def Let_def)
  have bd: "0 \<le> sint (rsc_off r)" "sint (rsc_off r) \<le> int (length b)" using s k by simp_all
  show ?thesis by (intro conjI bd sk rsc_Read_exact(1,3)[OF ok assms(1)])
qed

definition slice_at :: "bytes \<Rightarrow> int \<Rightarrow> nat \<Rightarrow> bytes \<times> error option" where
  "slice_at b off n = (let p = take n (drop (nat off) b) in (p, if length p < n then Some EOF else None))"

lemma slice_at_ok: "read_at_ok slice_at"
  by (auto simp: read_at_ok_def slice_at_def Let_def)

theorem readseeker_bounds_witness:
  "fst (rsc_Seek (fold (rsc_step slice_at) [RSeek 3 0] (NewReadSeekCloser ''hello'' 5)) (2 ^ 63 - 1) 1) = Inl ErrInvalidPos"
proof -
  have len: "length ''hello'' < 2 ^ 63" by simp
  have "NewReadSeekCloser ''hello'' 5 = NewReadSeekCloser ''hello'' (word_of_nat (length ''hello''))" by simp
  moreover have "sint (rsc_off (fold (rsc_step slice_at) [RSeek 3 0] (NewReadSeekCloser ''hello'' 5))) = 3" by code_simp
  moreover have "sint (2 ^ 63 - 1 :: 64 word) = 2 ^ 63 - 1" by code_simp
  ultimately show ?thesis
    using readseeker_bounds[OF slice_at_ok len refl, of "[RSeek 3 0]" 0 "2 ^ 63 - 1"] by (simp add: Let_def)
qed

text \<open>The ledger of errors of copies into the cache. After any sequence of additions and searches at times that do not go back, a search
  returns the most recent error that was ever added for the key, if it is at most 30 seconds old, and nothing otherwise, although searches
  drop entries from the list and stop at the first entry that has expired.\<close>

theorem error_ledger_find:
  assumes "ledger errs log t" and "t \<le> now"
  shows "fst (el_find errs now key) = map_option ee_err (find (\<lambda>x. now \<le> ee_expires x \<and> ee_key x = key) (rev log))"
proof -
  have srt: "sorted (map ee_expires (rev (rev errs)))" using ledger_inv[OF assms(1)] by simp
  have eq: "live now errs = live now log" using ledger_inv[OF assms(1)] by (intro live_mono[OF assms(2)]) blast
  from el_scan_sorted(1)[OF srt] have "fst (el_find errs now key) = map_option ee_err (find (\<lambda>x. now \<le> ee_expires x \<and> ee_key x = key) (rev errs))"
    by (simp add: el_find_def case_prod_beta)
  also have "find (\<lambda>x. now \<le> ee_expires x \<and> ee_key x = key) (rev errs) = find (\<lambda>x. now \<le> ee_expires x \<and> ee_key x = key) (rev log)"
  proof -
    have f: "find (\<lambda>x. now \<le> ee_expires x \<and> ee_key x = key) es = find (\<lambda>x. ee_key x = key) (filter (\<lambda>x. now \<le> ee_expires x) es)" for es
      by (induction es) auto
    have "filter (\<lambda>x. now \<le> ee_expires x) (rev errs) = filter (\<lambda>x. now \<le> ee_expires x) (rev log)"
      using eq by (simp add: live_def flip: rev_filter)
    then show ?thesis unfolding f by (rule arg_cong)
  qed
  finally show ?thesis .
qed

theorem error_ledger_find_witness:
  "fst (el_find (el_add (snd (el_find (el_add [] 0 ''a'' ErrDeleted) 5 ''b'')) (40 * second) ''b'' ErrNoItem) (45 * second) ''b'') = Some ErrNoItem"
proof -
  have "ledger (el_add (snd (el_find (el_add [] 0 ''a'' ErrDeleted) 5 ''b'')) (40 * second) ''b'' ErrNoItem)
      (el_add (el_add [] 0 ''a'' ErrDeleted) (40 * second) ''b'' ErrNoItem) (40 * second)"
    by (intro ledger.Add[of _ _ 5] ledger.Find[of _ _ 0] ledger.Add[of _ _ 0] ledger.Empty) (simp_all add: second_def)
  from error_ledger_find[OF this, of "45 * second" "''b''"] show ?thesis by (simp add: second_def el_add_def)
qed

end
