(* ===== verification/Server_Tx.thy ===== *)
theory Server_Tx
  imports HTTP Transaction Database Server_Content
begin

text \<open>
  The server side of transactions, src/server/transaction.go, with the tape switch and the read-only bundle routes
  (tapeuse.go, bundle.go), the indexing of an item (item.go) and the commit queue (routes.go).

  The state is a record of the stores that the server holds, with the keys of the copies into the cache that are in flight. The
  database that \<open>IndexItem\<close> updates is a parameter. A worker takes a transaction from the queue and processes it in one step; while the tape is switched off a transaction
  that is ready to be ingested stays at the head of the queue, where the code polls the switch every minute.
\<close>

record ('s, 'c, 'f, 'b, 't, 'd) server =
  srv_Items :: "('s, 'c) item_store"
  srv_FileStore :: "'f frag_store"
  srv_TxStore :: "'t tx_store"
  srv_Cache :: 'b
  srv_BlobDB :: 'd
  srv_useTape :: bool
  srv_txqueue :: "string list"
  srv_errorledger :: errorlist
  srv_tapeinflight :: "(string \<times> string \<times> int) list"

record ('s, 'w, 'c, 'f, 'v, 'b, 'u, 't, 'x, 'd) server_env =
  sv_E :: "('s, 'w, 'c) item_env"
  sv_F :: "('f, 'v) store_ops"
  sv_C :: "('b, 'u) cache_ops"
  sv_T :: "('t, 'x) store_ops"
  sv_TJ :: "transaction json"
  sv_D :: "'d blobdb"

section \<open>Switching the tape\<close>

definition EnableTapeUse :: "('s, 'c, 'f, 'b, 't, 'd) server \<Rightarrow> ('s, 'c, 'f, 'b, 't, 'd) server" where
  "EnableTapeUse s = s\<lparr>srv_useTape := True, srv_Items := items_SetUseStore (srv_Items s) True\<rparr>"

definition DisableTapeUse :: "('s, 'c, 'f, 'b, 't, 'd) server \<Rightarrow> ('s, 'c, 'f, 'b, 't, 'd) server" where
  "DisableTapeUse s = s\<lparr>srv_useTape := False, srv_Items := items_SetUseStore (srv_Items s) False\<rparr>"

definition SetTapeUseHandler :: "('s, 'c, 'f, 'b, 't, 'd) server handler" where
  "SetTapeUseHandler r w s =
     (let status = ByName r ''status'' in
      if status = ''on'' then (WriteHeader 201 w, EnableTapeUse s)
      else if status = ''off'' then (WriteHeader 201 w, DisableTapeUse s)
      else (rs_write (''PUT /admin/user_tape: unknown parameter '' @ status) (WriteHeader 500 w), s))"

definition GetTapeUseHandler :: "('s, 'c, 'f, 'b, 't, 'd) server handler" where
  "GetTapeUseHandler r w s = (rs_write (if srv_useTape s then ''On'' else ''Off'') w, s)"

section \<open>Bundles\<close>

fun bundle_list_text :: "char \<Rightarrow> string list \<Rightarrow> string" where
  "bundle_list_text comma [] = ''''"
| "bundle_list_text comma (key # ks) = comma # CHR 0x22 # key @ CHR 0x22 # bundle_list_text CHR '','' ks"

definition no_store :: "response \<Rightarrow> response" where
  "no_store w = rs_println (err_Error ErrNoStore) (WriteHeader 503 w)"

definition BundleListHandler :: "('s, 'w, 'c, 'f, 'v, 'b, 'u, 't, 'x, 'd) server_env \<Rightarrow> ('s, 'c, 'f, 'b, 't, 'd) server handler" where
  "BundleListHandler V r w s =
     (if \<not> srv_useTape s then (no_store w, s)
      else
        (let w1 = hdr_Set ''Content-Type'' ''application/json; charset=utf-8'' w;
             w2 = rs_write ''['' w1;
             w3 = rs_write (bundle_list_text CHR '' '' (op_list (e_S (sv_E V)) (is_S (srv_Items s)))) w2
         in (rs_write '']'' w3, s)))"

definition BundleListPrefixHandler ::
  "('s, 'w, 'c, 'f, 'v, 'b, 'u, 't, 'x, 'd) server_env \<Rightarrow> (string list \<Rightarrow> bytes) \<Rightarrow> ('s, 'c, 'f, 'b, 't, 'd) server handler" where
  "BundleListPrefixHandler V enc r w s =
     (if \<not> srv_useTape s then (no_store w, s)
      else case op_list_prefix (e_S (sv_E V)) (is_S (srv_Items s)) (ByName r ''prefix'') of
        Inl e \<Rightarrow> (rs_println (err_Error e) (WriteHeader 500 w), s)
      | Inr result \<Rightarrow> (rs_write (enc result) (hdr_Set ''Content-Type'' ''application/json; charset=utf-8'' w), s))"

definition BundleOpenHandler ::
  "('s, 'w, 'c, 'f, 'v, 'b, 'u, 't, 'x, 'd) server_env \<Rightarrow> request \<Rightarrow> response \<Rightarrow> ('s, 'c, 'f, 'b, 't, 'd) server \<Rightarrow>
     (response \<times> ('s, 'c, 'f, 'b, 't, 'd) server) option" where
  "BundleOpenHandler V r w s =
     (if \<not> srv_useTape s then Some (no_store w, s)
      else case op_open (e_S (sv_E V)) (is_S (srv_Items s)) (ByName r ''key'') of
        (Inl e, s1) \<Rightarrow> Some (rs_println (err_Error e) (WriteHeader 404 w), s\<lparr>srv_Items := (srv_Items s)\<lparr>is_S := s1\<rparr>\<rparr>)
      | (Inr data, s1) \<Rightarrow>
          (case reader_copy (op_read_at (e_S (sv_E V))) copy_buffer (NewReader data) [] of
             None \<Rightarrow> None
           | Some (b, err) \<Rightarrow> Some (rs_write b w, s\<lparr>srv_Items := (srv_Items s)\<lparr>is_S := s1\<rparr>\<rparr>)))"

section \<open>Indexing\<close>

definition index_result :: "unit result \<times> 'd \<Rightarrow> ('s, 'c, 'f, 'b, 't, 'd) server \<Rightarrow> error option \<times> ('s, 'c, 'f, 'b, 't, 'd) server" where
  "index_result r s = (case r of (Inl e, d) \<Rightarrow> (Some e, s\<lparr>srv_BlobDB := d\<rparr>) | (Inr u, d) \<Rightarrow> (None, s\<lparr>srv_BlobDB := d\<rparr>))"

text \<open>\<open>IndexItem\<close>; \<open>Items.Item\<close> returns the cached value, if any, with \<open>ErrNoStore\<close>.\<close>

definition srv_IndexItem ::
  "('s, 'w, 'c, 'f, 'v, 'b, 'u, 't, 'x, 'd) server_env \<Rightarrow> ('s, 'c, 'f, 'b, 't, 'd) server \<Rightarrow> string \<Rightarrow> error option \<times> ('s, 'c, 'f, 'b, 't, 'd) server" where
  "srv_IndexItem V s iid =
     (case items_Item (sv_E V) (srv_Items s) iid of
        (Inr item, items1) \<Rightarrow>
          index_result (db_IndexItem (sv_D V) (srv_BlobDB s) iid item) (s\<lparr>srv_Items := items1\<rparr>)
      | (Inl e, items1) \<Rightarrow>
          (case (if e = ErrNoStore then ic_Lookup (e_C (sv_E V)) (is_cache (srv_Items s)) iid else None) of
             Some item \<Rightarrow> index_result (db_IndexItem (sv_D V) (srv_BlobDB s) iid item) (s\<lparr>srv_Items := items1\<rparr>)
           | None \<Rightarrow> (Some e, s\<lparr>srv_Items := items1\<rparr>)))"

section \<open>Handlers\<close>

definition ListTxHandler :: "(string list \<Rightarrow> bytes) \<Rightarrow> (string list \<Rightarrow> bytes) \<Rightarrow> ('s, 'c, 'f, 'b, 't, 'd) server handler" where
  "ListTxHandler tmpl js r w s = (let l = tx_List (srv_TxStore s) in (writeHTMLorJSON w r (tmpl l) (js l), s))"

definition TxInfoHandler :: "(transaction \<Rightarrow> bytes) \<Rightarrow> (transaction \<Rightarrow> bytes) \<Rightarrow> ('s, 'c, 'f, 'b, 't, 'd) server handler" where
  "TxInfoHandler tmpl js r w s =
     (case tx_Lookup (srv_TxStore s) (ByName r ''tid'') of
        None \<Rightarrow> (rs_println ''cannot find transaction'' (WriteHeader 404 w), s)
      | Some tx \<Rightarrow> (writeHTMLorJSON w r (tmpl tx) (js tx), s))"

definition srv_SetStatus ::
  "('s, 'w, 'c, 'f, 'v, 'b, 'u, 't, 'x, 'd) server_env \<Rightarrow> time \<Rightarrow> ('s, 'c, 'f, 'b, 't, 'd) server \<Rightarrow> transaction \<Rightarrow> status \<Rightarrow>
     ('s, 'c, 'f, 'b, 't, 'd) server \<times> transaction" where
  "srv_SetStatus V now s tx st =
     (case tx_SetStatus (sv_T V) (sv_TJ V) now (ts_TxStore (srv_TxStore s)) tx st of
        (t1, tx1) \<Rightarrow> (s\<lparr>srv_TxStore := ts_put (srv_TxStore s) (t1, tx1)\<rparr>, tx1))"

text \<open>The two last parts of \<open>NewTxHandler\<close>: submitting the transaction, and adding its commands.\<close>

definition newtx_submit ::
  "('s, 'w, 'c, 'f, 'v, 'b, 'u, 't, 'x, 'd) server_env \<Rightarrow> time \<Rightarrow> response \<Rightarrow> ('s, 'c, 'f, 'b, 't, 'd) server \<Rightarrow> transaction \<Rightarrow>
     response \<times> ('s, 'c, 'f, 'b, 't, 'd) server" where
  "newtx_submit V now w s tx =
     (case srv_SetStatus V now s tx StatusWaiting of
        (s1, tx1) \<Rightarrow> (WriteHeader 202 w, s1\<lparr>srv_txqueue := srv_txqueue s1 @ [tx_ID tx1]\<rparr>))"

definition newtx_commands ::
  "('s, 'w, 'c, 'f, 'v, 'b, 'u, 't, 'x, 'd) server_env \<Rightarrow> time \<Rightarrow> response \<Rightarrow> ('s, 'c, 'f, 'b, 't, 'd) server \<Rightarrow> transaction \<Rightarrow> command list \<Rightarrow>
     response \<times> ('s, 'c, 'f, 'b, 't, 'd) server" where
  "newtx_commands V now w s tx cmds =
     (case tx_AddCommandList (sv_T V) (sv_TJ V) now (ts_TxStore (srv_TxStore s)) tx cmds of
        (Some e, t1, tx1) \<Rightarrow> (rs_println (err_Error e) (WriteHeader 400 w), fst (srv_SetStatus V now s tx1 StatusError))
      | (None, t1, tx1) \<Rightarrow> newtx_submit V now w (s\<lparr>srv_TxStore := ts_put (srv_TxStore s) (t1, tx1)\<rparr>) tx1)"

definition newtx_created ::
  "('s, 'w, 'c, 'f, 'v, 'b, 'u, 't, 'x, 'd) server_env \<Rightarrow> time \<Rightarrow> command list result \<Rightarrow> response \<Rightarrow> ('s, 'c, 'f, 'b, 't, 'd) server \<Rightarrow> transaction \<Rightarrow>
     response \<times> ('s, 'c, 'f, 'b, 't, 'd) server" where
  "newtx_created V now cmds w s tx =
     (case cmds of
        Inl e \<Rightarrow> (rs_println (err_Error e) (WriteHeader 400 w), fst (srv_SetStatus V now s tx StatusError))
      | Inr cmds \<Rightarrow> newtx_commands V now w s tx cmds)"

definition NewTxHandler ::
  "('s, 'w, 'c, 'f, 'v, 'b, 'u, 't, 'x, 'd) server_env \<Rightarrow> (request \<Rightarrow> command list result) \<Rightarrow> time \<Rightarrow> ('s, 'c, 'f, 'b, 't, 'd) server handler" where
  "NewTxHandler V dec now r w s =
     (case tx_Create (sv_T V) (sv_TJ V) now (srv_TxStore s) (ByName r ''id'') of
        (Inl e, ts1) \<Rightarrow> (rs_println (err_Error e) (WriteHeader 409 w), s\<lparr>srv_TxStore := ts1\<rparr>)
      | (Inr tx, ts1) \<Rightarrow>
          newtx_created V now (dec r) (hdr_Set ''Location'' (''/transaction/'' @ tx_ID tx) w)
            (s\<lparr>srv_TxStore := ts_put ts1 (ts_TxStore ts1, tx\<lparr>tx_Creator := ByName r ''username''\<rparr>)\<rparr>)
            (tx\<lparr>tx_Creator := ByName r ''username''\<rparr>))"

text \<open>After a deletion without error the handler calls a method of a nil error; the panic is caught by the wrapper of the
  server, after the state has changed.\<close>

definition CancelTxHandler :: "('s, 'w, 'c, 'f, 'v, 'b, 'u, 't, 'x, 'd) server_env \<Rightarrow> ('s, 'c, 'f, 'b, 't, 'd) server handler" where
  "CancelTxHandler V r w s =
     (let tid = ByName r ''tid'' in
      case tx_Lookup (srv_TxStore s) tid of
        None \<Rightarrow> (rs_println ''cannot find transaction'' (WriteHeader 404 w), s)
      | Some tx \<Rightarrow>
          (let w1 = (if \<not> (tx_Status tx = StatusFinished \<or> tx_Status tx = StatusError)
                     then rs_write ''cannot delete pending transaction'' (WriteHeader 400 w) else w);
               (err, ts1) = tx_Delete (sv_T V) (srv_TxStore s) tid;
               s1 = s\<lparr>srv_TxStore := ts1\<rparr>
           in case err of
                Some e \<Rightarrow> (rs_write (err_Error e) w1, s1)
              | None \<Rightarrow> (WriteHeader 500 w1, s1)))"

section \<open>The worker\<close>

definition initCommitQueue :: "('s, 'c, 'f, 'b, 't, 'd) server \<Rightarrow> ('s, 'c, 'f, 'b, 't, 'd) server" where
  "initCommitQueue s = s\<lparr>srv_txqueue := srv_txqueue s @ tx_List (srv_TxStore s)\<rparr>"

text \<open>The case of \<open>StatusIngest\<close>.\<close>

definition worker_ingest ::
  "('s, 'w, 'c, 'f, 'v, 'b, 'u, 't, 'x, 'd) server_env \<Rightarrow> time \<Rightarrow> string list \<Rightarrow> ('s, 'c, 'f, 'b, 't, 'd) server \<Rightarrow> transaction \<Rightarrow>
     ('s, 'c, 'f, 'b, 't, 'd) server option" where
  "worker_ingest V now queue s tx =
     (if \<not> srv_useTape s then Some s
      else case tx_Commit (sv_E V) (sv_F V) (sv_C V) (sv_T V) (sv_TJ V) now (srv_Items s) (srv_FileStore s) (srv_Cache s)
                  (ts_TxStore (srv_TxStore s)) tx of
             None \<Rightarrow> None
           | Some (items1, files1, cache1, t1, tx1) \<Rightarrow>
               (let s1 = s\<lparr>srv_Items := items1, srv_FileStore := files1, srv_Cache := cache1,
                           srv_TxStore := ts_put (srv_TxStore s) (t1, tx1), srv_txqueue := queue\<rparr>
                in Some (snd (srv_IndexItem V s1 (tx_ItemID tx1)))))"

text \<open>The case of \<open>StatusChecking\<close>.\<close>

definition worker_check ::
  "('s, 'w, 'c, 'f, 'v, 'b, 'u, 't, 'x, 'd) server_env \<Rightarrow> time \<Rightarrow> string list \<Rightarrow> ('s, 'c, 'f, 'b, 't, 'd) server \<Rightarrow> transaction \<Rightarrow>
     ('s, 'c, 'f, 'b, 't, 'd) server option" where
  "worker_check V now queue s tx =
     (case tx_VerifyFiles (sv_F V) (e_H (sv_E V)) (srv_FileStore s) tx of
        None \<Rightarrow> None
      | Some (files1, tx1) \<Rightarrow>
          (let s1 = s\<lparr>srv_FileStore := files1\<rparr> in
           if length (tx_Err tx1) > 0 then Some (fst (srv_SetStatus V now (s1\<lparr>srv_txqueue := queue\<rparr>) tx1 StatusError))
           else (let (s2, tx2) = srv_SetStatus V now s1 tx1 StatusIngest in worker_ingest V now queue s2 tx2)))"

definition transactionWorker ::
  "('s, 'w, 'c, 'f, 'v, 'b, 'u, 't, 'x, 'd) server_env \<Rightarrow> time \<Rightarrow> ('s, 'c, 'f, 'b, 't, 'd) server \<Rightarrow> ('s, 'c, 'f, 'b, 't, 'd) server option" where
  "transactionWorker V now s =
     (case srv_txqueue s of
        [] \<Rightarrow> Some s
      | txid # queue \<Rightarrow>
          (case tx_Lookup (srv_TxStore s) txid of
             None \<Rightarrow> Some (s\<lparr>srv_txqueue := queue\<rparr>)
           | Some tx \<Rightarrow>
               if tx_Status tx \<in> {StatusOpen, StatusFinished, StatusError} then Some (s\<lparr>srv_txqueue := queue\<rparr>)
               else if tx_Status tx = StatusWaiting
               then (let (s1, tx1) = srv_SetStatus V now s tx StatusChecking in worker_check V now queue s1 tx1)
               else if tx_Status tx = StatusChecking then worker_check V now queue s tx
               else if tx_Status tx = StatusIngest then worker_ingest V now queue s tx
               else Some (s\<lparr>srv_txqueue := queue\<rparr>)))"

section \<open>Cleaning up\<close>

definition hour :: int where
  "hour = 3600 * 1000000000"

fun delete_files ::
  "('f, 'v, 'm) store_ops_scheme \<Rightarrow> string list \<Rightarrow> 'f frag_store \<Rightarrow> error option \<times> 'f frag_store" where
  "delete_files F [] files = (None, files)"
| "delete_files F (fid # fids) files =
     (case frag_Delete F files fid of
        (Some e, files1) \<Rightarrow> (Some e, files1)
      | (None, files1) \<Rightarrow> delete_files F fids files1)"

definition tx_expired :: "time \<Rightarrow> transaction \<Rightarrow> bool" where
  "tx_expired now tx =
     (let cutoffSuccess = now - 4 * 24 * hour; cutoffError = now - 7 * 24 * hour in
      if tx_Status tx = StatusFinished then \<not> cutoffSuccess < tx_Modified tx
      else if tx_Status tx = StatusError then \<not> cutoffError < tx_Modified tx
      else False)"

fun clean_txs ::
  "('s, 'w, 'c, 'f, 'v, 'b, 'u, 't, 'x, 'd) server_env \<Rightarrow> time \<Rightarrow> string list \<Rightarrow> ('s, 'c, 'f, 'b, 't, 'd) server \<Rightarrow>
     error option \<times> ('s, 'c, 'f, 'b, 't, 'd) server" where
  "clean_txs V now [] s = (None, s)"
| "clean_txs V now (txid # ids) s =
     (case tx_Lookup (srv_TxStore s) txid of
        None \<Rightarrow> clean_txs V now ids s
      | Some tx \<Rightarrow>
          if \<not> tx_expired now tx then clean_txs V now ids s
          else case tx_ReferencedFiles tx of
            Inl e \<Rightarrow> (Some e, s)
          | Inr fids \<Rightarrow>
              (case delete_files (sv_F V) fids (srv_FileStore s) of
                 (Some e, files1) \<Rightarrow> (Some e, s\<lparr>srv_FileStore := files1\<rparr>)
               | (None, files1) \<Rightarrow>
                   (case tx_Delete (sv_T V) (srv_TxStore s) txid of
                      (Some e, ts1) \<Rightarrow> (Some e, s\<lparr>srv_FileStore := files1, srv_TxStore := ts1\<rparr>)
                    | (None, ts1) \<Rightarrow> clean_txs V now ids (s\<lparr>srv_FileStore := files1, srv_TxStore := ts1\<rparr>))))"

definition transactionCleaner ::
  "('s, 'w, 'c, 'f, 'v, 'b, 'u, 't, 'x, 'd) server_env \<Rightarrow> time \<Rightarrow> ('s, 'c, 'f, 'b, 't, 'd) server \<Rightarrow>
     error option \<times> ('s, 'c, 'f, 'b, 't, 'd) server" where
  "transactionCleaner V now s = clean_txs V now (tx_List (srv_TxStore s)) s"

fun clean_files :: "('f, 'v, 'm) store_ops_scheme \<Rightarrow> time \<Rightarrow> string list \<Rightarrow> 'f frag_store \<Rightarrow> error option \<times> 'f frag_store" where
  "clean_files F cutoff [] files = (None, files)"
| "clean_files F cutoff (fid # fids) files =
     (case frag_Lookup files fid of
        None \<Rightarrow> clean_files F cutoff fids files
      | Some f \<Rightarrow>
          if cutoff < st_Modified (file_Stat f) then clean_files F cutoff fids files
          else case frag_Delete F files fid of
            (Some e, files1) \<Rightarrow> (Some e, files1)
          | (None, files1) \<Rightarrow> clean_files F cutoff fids files1)"

definition fileCleaner ::
  "('s, 'w, 'c, 'f, 'v, 'b, 'u, 't, 'x, 'd) server_env \<Rightarrow> time \<Rightarrow> ('s, 'c, 'f, 'b, 't, 'd) server \<Rightarrow>
     error option \<times> ('s, 'c, 'f, 'b, 't, 'd) server" where
  "fileCleaner V now s =
     (let (err, files1) = clean_files (sv_F V) (now - 14 * 24 * hour) (frag_List (srv_FileStore s)) (srv_FileStore s)
      in (err, s\<lparr>srv_FileStore := files1\<rparr>))"

text \<open>One round of the endless loop of \<open>TxCleaner\<close>; an error is logged.\<close>

definition TxCleaner ::
  "('s, 'w, 'c, 'f, 'v, 'b, 'u, 't, 'x, 'd) server_env \<Rightarrow> time \<Rightarrow> ('s, 'c, 'f, 'b, 't, 'd) server \<Rightarrow> ('s, 'c, 'f, 'b, 't, 'd) server" where
  "TxCleaner V now s =
     (let (err, s1) = transactionCleaner V now s in if err = None then snd (fileCleaner V now s1) else s1)"

end
