(* ===== verification/Server_Tx_Correct.thy ===== *)
theory Server_Tx_Correct
  imports Server_Tx
begin

text \<open>
  Invariants of the store of transactions under everything the server does: there is at most one transaction in
  process for an item, and the cleaner only removes what is over and old.
\<close>

section \<open>Identifiers\<close>

lemma makenewid_fresh:
  "gget txs (fst (makenewid txs n)) = None \<and> n < snd (makenewid txs n) \<and> fst (makenewid txs n) = fmt_04d (snd (makenewid txs n) - 1)"
proof (induction txs n rule: makenewid.induct)
  case (1 txs n)
  show ?case
  proof (cases "gget txs (fmt_04d n) = None")
    case True
    then have "makenewid txs n = (fmt_04d n, n + 1)" by (subst makenewid.simps) simp
    with True show ?thesis by simp
  next
    case False
    then have "makenewid txs n = makenewid txs (n + 1)" by (subst makenewid.simps) (auto simp: Let_def)
    with 1[OF False] show ?thesis by auto
  qed
qed

section \<open>The invariant\<close>

definition tx_pending :: "transaction \<Rightarrow> bool" where
  "tx_pending tx = (tx_Status tx \<noteq> StatusFinished \<and> tx_Status tx \<noteq> StatusError)"

definition tx_inv :: "'t tx_store \<Rightarrow> bool" where
  "tx_inv r = (gmap_ok (ts_txs r) \<and> (\<forall>k tx. gget (ts_txs r) k = Some tx \<longrightarrow> tx_ID tx = k) \<and>
     (\<forall>k k' tx tx'. gget (ts_txs r) k = Some tx \<longrightarrow> gget (ts_txs r) k' = Some tx' \<longrightarrow> tx_pending tx \<longrightarrow> tx_pending tx' \<longrightarrow>
        tx_ItemID tx = tx_ItemID tx' \<longrightarrow> k = k'))"

lemma tx_inprocess_pending: "tx_inprocess iid tx \<longleftrightarrow> tx_ItemID tx = iid \<and> tx_pending tx"
  by (simp add: tx_inprocess_def tx_pending_def)

text \<open>A transaction is put back that is pending only if it was.\<close>

definition tx_evolves :: "transaction \<Rightarrow> transaction \<Rightarrow> bool" where
  "tx_evolves tx tx' = (tx_ID tx' = tx_ID tx \<and> tx_ItemID tx' = tx_ItemID tx \<and> (tx_pending tx' \<longrightarrow> tx_pending tx))"

lemma tx_evolves_refl [simp]: "tx_evolves tx tx"
  by (simp add: tx_evolves_def)

lemma tx_evolves_trans: "tx_evolves a b \<Longrightarrow> tx_evolves b c \<Longrightarrow> tx_evolves a c"
  by (auto simp: tx_evolves_def)

lemma tx_inv_put:
  assumes "tx_inv r" and "gget (ts_txs r) k = Some tx" and "tx_evolves tx tx'"
  shows "tx_inv (ts_put r (s, tx'))" and "gget (ts_txs (ts_put r (s, tx'))) = (gget (ts_txs r))(k \<mapsto> tx')"
    and "ts_TxStore (ts_put r (s, tx')) = s"
proof -
  have id: "tx_ID tx' = k" using assms by (auto simp: tx_inv_def tx_evolves_def)
  with assms(2) show eq: "gget (ts_txs (ts_put r (s, tx'))) = (gget (ts_txs r))(k \<mapsto> tx')" and "ts_TxStore (ts_put r (s, tx')) = s"
    by (simp_all add: ts_put_def)
  have "gmap_ok (ts_txs (ts_put r (s, tx')))" using assms(1) by (simp add: ts_put_def tx_inv_def)
  then show "tx_inv (ts_put r (s, tx'))"
    using assms id unfolding tx_inv_def eq tx_evolves_def by (auto split: if_splits)
qed

lemma tx_save_tx: "tx_save T J now s tx = (s', tx') \<Longrightarrow> tx_ID tx' = tx_ID tx \<and> tx_ItemID tx' = tx_ItemID tx \<and> tx_Status tx' = tx_Status tx \<and> tx_Err tx' = tx_Err tx \<and> tx_Creator tx' = tx_Creator tx \<and>
    tx_Commands tx' = tx_Commands tx"
  by (auto simp: tx_save_def Let_def split: if_splits)

lemma tx_SetStatus_evolves:
  assumes "tx_SetStatus T J now s tx st = (s', tx')" and "tx_pending tx \<or> st = StatusFinished \<or> st = StatusError"
  shows "tx_evolves tx tx'"
  using assms tx_save_tx[of T J now s "tx\<lparr>tx_Status := st\<rparr>"] by (auto simp: tx_SetStatus_def tx_evolves_def tx_pending_def)

lemma srv_SetStatus_inv:
  assumes "tx_inv (srv_TxStore s)" and "gget (ts_txs (srv_TxStore s)) k = Some tx0" and "tx_evolves tx0 tx"
    and "tx_pending tx \<or> st = StatusFinished \<or> st = StatusError" and "srv_SetStatus V now s tx st = (s', tx')"
  shows "tx_inv (srv_TxStore s')" and "gget (ts_txs (srv_TxStore s')) = (gget (ts_txs (srv_TxStore s)))(k \<mapsto> tx')"
    and "tx_Status tx' = st" and "tx_evolves tx tx'" and "s' = s\<lparr>srv_TxStore := srv_TxStore s'\<rparr>" and "tx_Err tx' = tx_Err tx"
    and "tx_Creator tx' = tx_Creator tx" and "tx_Commands tx' = tx_Commands tx"
proof -
  obtain s1 where p: "tx_SetStatus (sv_T V) (sv_TJ V) now (ts_TxStore (srv_TxStore s)) tx st = (s1, tx')" "s' = s\<lparr>srv_TxStore := ts_put (srv_TxStore s) (s1, tx')\<rparr>"
    using assms(5) by (auto simp: srv_SetStatus_def split: prod.splits)
  have ev: "tx_evolves tx tx'" by (rule tx_SetStatus_evolves[OF p(1) assms(4)])
  from tx_inv_put[OF assms(1,2) tx_evolves_trans[OF assms(3) ev], of s1]
  show "tx_inv (srv_TxStore s')" "gget (ts_txs (srv_TxStore s')) = (gget (ts_txs (srv_TxStore s)))(k \<mapsto> tx')" by (simp_all add: p(2))
  show "tx_Status tx' = st" "tx_Err tx' = tx_Err tx" "tx_Creator tx' = tx_Creator tx" "tx_Commands tx' = tx_Commands tx" using tx_save_tx[OF p(1)[unfolded tx_SetStatus_def]] by simp_all
  show "tx_evolves tx tx'" by (rule ev)
  show "s' = s\<lparr>srv_TxStore := srv_TxStore s'\<rparr>" by (simp add: p(2))
qed

section \<open>Creating and deleting\<close>

lemma tx_Create_inv:
  assumes "tx_inv r" and c: "tx_Create T J now r iid = (res, r')"
  shows "tx_inv r'"
    and "res = Inr tx \<Longrightarrow> gget (ts_txs r) (tx_ID tx) = None \<and> gget (ts_txs r') = (gget (ts_txs r))(tx_ID tx \<mapsto> tx) \<and> tx_ItemID tx = iid \<and>
          tx_Status tx = StatusOpen \<and> tx_Commands tx = [] \<and>
          tx_ID tx = fst (makenewid (ts_txs r) (ts_seqno r))"
    and "res = Inl e \<longleftrightarrow> e = ErrExistingTransaction \<and> (\<exists>k tx. gget (ts_txs r) k = Some tx \<and> tx_ItemID tx = iid \<and> tx_pending tx)"
proof -
  have ex: "list_ex (\<lambda>(k, tx). tx_inprocess iid tx) (ts_txs r) \<longleftrightarrow> (\<exists>k tx. gget (ts_txs r) k = Some tx \<and> tx_ItemID tx = iid \<and> tx_pending tx)"
    using gget_unique[of "ts_txs r"] assms(1) by (auto simp: list_ex_iff tx_inv_def tx_inprocess_pending)
  obtain txid n where id: "makenewid (ts_txs r) (ts_seqno r) = (txid, n)" by fastforce
  then have new: "gget (ts_txs r) txid = None" using makenewid_fresh[of "ts_txs r" "ts_seqno r"] by auto
  have body: "tx_inv r' \<and> (\<exists>tx1. res = Inr tx1 \<and> tx_ID tx1 = txid \<and> gget (ts_txs r') = (gget (ts_txs r))(txid \<mapsto> tx1) \<and> tx_ItemID tx1 = iid \<and>
      tx_Status tx1 = StatusOpen \<and> tx_Commands tx1 = [])" if n: "\<not> list_ex (\<lambda>(k, tx). tx_inprocess iid tx) (ts_txs r)"
  proof -
    let ?tx = "\<lparr>tx_txstore = True, tx_ID = txid, tx_Status = StatusOpen, tx_Started = now, tx_Modified = now,
                   tx_Err = [], tx_Creator = '''', tx_ItemID = iid, tx_Commands = [], tx_BlobMap = []\<rparr>"
    obtain s1 tx1 where sv: "tx_save T J now (ts_TxStore r) ?tx = (s1, tx1)" by fastforce
    then have t1: "tx_ID tx1 = txid" "tx_ItemID tx1 = iid" "tx_Status tx1 = StatusOpen" "tx_Commands tx1 = []" using tx_save_tx by fastforce+
    have out: "res = Inr tx1" "gget (ts_txs r') = (gget (ts_txs r))(txid \<mapsto> tx1)" "gmap_ok (ts_txs r')"
      using c n assms(1) by (auto simp: tx_Create_def id sv Let_def tx_inv_def)
    moreover have "tx_inv r'"
      using assms(1) n t1 out(3) unfolding ex tx_inv_def out(2) by (auto split: if_splits)
    ultimately show ?thesis using t1 by blast
  qed
  show "tx_inv r'"
  proof (cases "list_ex (\<lambda>(k, tx). tx_inprocess iid tx) (ts_txs r)")
    case True
    then show ?thesis using c assms(1) by (simp add: tx_Create_def)
  qed (use body in blast)
  show "res = Inr tx \<Longrightarrow> gget (ts_txs r) (tx_ID tx) = None \<and> gget (ts_txs r') = (gget (ts_txs r))(tx_ID tx \<mapsto> tx) \<and> tx_ItemID tx = iid \<and>
      tx_Status tx = StatusOpen \<and> tx_Commands tx = [] \<and>
          tx_ID tx = fst (makenewid (ts_txs r) (ts_seqno r))"
  proof (cases "list_ex (\<lambda>(k, tx). tx_inprocess iid tx) (ts_txs r)")
    case True
    then show "res = Inr tx \<Longrightarrow> ?thesis" using c by (simp add: tx_Create_def)
  qed (use body new id in auto)
  show "res = Inl e \<longleftrightarrow> e = ErrExistingTransaction \<and> (\<exists>k tx. gget (ts_txs r) k = Some tx \<and> tx_ItemID tx = iid \<and> tx_pending tx)"
  proof (cases "list_ex (\<lambda>(k, tx). tx_inprocess iid tx) (ts_txs r)")
    case True
    then show ?thesis using c ex by (auto simp: tx_Create_def)
  next
    case False
    with body ex show ?thesis by auto
  qed
qed

lemma tx_Delete_inv:
  assumes "tx_inv r" and "tx_Delete T r k = (err, r')"
  shows "tx_inv r'" and "gget (ts_txs r') = (gget (ts_txs r))(k := None)"
proof -
  have txs: "ts_txs r' = gdel k (ts_txs r)" using assms(2) by (auto simp: tx_Delete_def Let_def split: option.splits prod.splits)
  then show eq: "gget (ts_txs r') = (gget (ts_txs r))(k := None)" by simp
  have "gmap_ok (ts_txs r')" using assms(1) by (simp add: txs tx_inv_def)
  then show "tx_inv r'" using assms(1) unfolding tx_inv_def eq by (auto split: if_splits)
qed

section \<open>Committing\<close>

text \<open>Whatever the stores do, the commit keeps the identity of the transaction.\<close>

definition tx_same :: "transaction \<Rightarrow> transaction \<Rightarrow> bool" where
  "tx_same tx tx' = (tx_ID tx' = tx_ID tx \<and> tx_ItemID tx' = tx_ItemID tx \<and> tx_Status tx' = tx_Status tx)"

lemma cmd_Execute_same:
  assumes "cmd_Execute E F C now cmd st = Some (err, st')"
  shows "tx_same (cm_tx st) (cm_tx st')"
proof -
  have del: "exec_delete C cmd st = (e, st1) \<Longrightarrow> tx_same (cm_tx st) (cm_tx st1)" for e st1
    by (auto simp: exec_delete_def tx_same_def Let_def split: option.splits prod.splits)
  have slot: "exec_slot cmd st = (e, st1) \<Longrightarrow> tx_same (cm_tx st) (cm_tx st1)" for e st1
    by (auto simp: exec_slot_def tx_same_def split: option.splits)
  have mime: "exec_mimetype cmd st = (e, st1) \<Longrightarrow> tx_same (cm_tx st) (cm_tx st1)" for e st1
    by (auto simp: exec_mimetype_def tx_same_def split: option.splits)
  have add: "exec_add E F now cmd st = Some (e, st1) \<Longrightarrow> tx_same (cm_tx st) (cm_tx st1)" for e st1
    by (auto simp: exec_add_def tx_same_def Let_def split: option.splits prod.splits if_splits)
  have "tx_same (cm_tx st) (cm_tx st)" by (simp add: tx_same_def)
  with assms del slot mime add show ?thesis
    unfolding cmd_Execute_def by (auto split: if_splits simp: tx_same_def)
qed

lemma exec_cmds_same: "exec_cmds E F C now cmds st = Some st' \<Longrightarrow> tx_same (cm_tx st) (cm_tx st')"
proof (induction cmds arbitrary: st)
  case Nil
  then show ?case by (simp add: tx_same_def)
next
  case (Cons cmd cmds)
  then obtain err st1 where e: "cmd_Execute E F C now cmd st = Some (err, st1)" by (auto split: option.splits)
  note s1 = cmd_Execute_same[OF e]
  show ?case
  proof (cases err)
    case None
    with Cons e s1 show ?thesis by (auto simp: tx_same_def)
  next
    case (Some x)
    with Cons.prems e s1 show ?thesis by (auto simp: tx_same_def)
  qed
qed

lemma tx_Commit_tx:
  assumes "tx_Commit E F C T J now items files cache s tx = Some (items', files', cache', s', tx')"
  shows "tx_ID tx' = tx_ID tx \<and> tx_ItemID tx' = tx_ItemID tx \<and> tx_Status tx' \<in> {StatusIngest, StatusFinished, StatusError} \<and>
     (tx_Status tx' = StatusIngest \<longleftrightarrow> (\<exists>e items1. items_Open E now items (tx_ItemID tx) (tx_Creator tx) = (Inl e, items1)))"
proof -
  obtain r items1 where o: "items_Open E now items (tx_ItemID tx) (tx_Creator tx) = (r, items1)" by fastforce
  show ?thesis
  proof (cases r)
    case (Inl e)
    with assms o show ?thesis by (auto simp: tx_Commit_def status_defs)
  next
    case (Inr iw)
    let ?st0 = "\<lparr>cm_items = items1, cm_wr = iw, cm_tx = tx\<lparr>tx_Status := StatusIngest\<rparr>, cm_files = files, cm_cache = cache\<rparr>"
    obtain st where st: "exec_cmds E F C now (tx_Commands tx) ?st0 = Some st"
      using assms o Inr by (auto simp: tx_Commit_def split: option.splits)
    have same: "tx_ID (cm_tx st) = tx_ID tx" "tx_ItemID (cm_tx st) = tx_ItemID tx" using exec_cmds_same[OF st] by (simp_all add: tx_same_def)
    obtain err items2 iw2 where cl: "Writer_Close E now (cm_items st) (cm_wr st) = (err, items2, iw2)" by (metis prod_cases3)
    define tx2 where "tx2 = (case err of None \<Rightarrow> cm_tx st | Some e \<Rightarrow> (cm_tx st)\<lparr>tx_Err := tx_Err (cm_tx st) @ [err_Error e]\<rparr>)"
    define tx3 where "tx3 = tx2\<lparr>tx_Status := (if length (tx_Err tx2) > 0 then StatusError else StatusFinished)\<rparr>"
    have sv: "tx_save T J now s tx3 = (s', tx')"
      using assms o Inr st cl by (auto simp: tx_Commit_def Let_def tx2_def tx3_def split: prod.splits)
    have "tx_ID tx3 = tx_ID tx" "tx_ItemID tx3 = tx_ItemID tx" "tx_Status tx3 \<in> {StatusFinished, StatusError}"
      using same by (auto simp: tx3_def tx2_def split: option.splits)
    with tx_save_tx[OF sv] o Inr show ?thesis by (auto simp: status_defs)
  qed
qed

lemma verify_files_same: "verify_files F H fids files tx = Some (files', tx') \<Longrightarrow> tx_same tx tx' \<and> (\<exists>es. tx_Err tx' = tx_Err tx @ es)"
proof (induction fids arbitrary: files tx)
  case (Cons fid fids)
  have app: "tx_same tx (tx_AppendError tx e)" "tx_Err (tx_AppendError tx e) = tx_Err tx @ [e]" for e by (simp_all add: tx_AppendError_def tx_same_def)
  from Cons.prems obtain f1 tx1 where 1: "verify_files F H fids f1 tx1 = Some (files', tx')" "tx1 = tx \<or> (\<exists>e. tx1 = tx_AppendError tx e)"
    by (auto split: option.splits if_splits prod.splits)
  with Cons.IH[OF 1(1)] app show ?case by (auto simp: tx_same_def)
qed (simp add: tx_same_def)

lemma worker_ingest_inv:
  assumes "tx_inv (srv_TxStore s)" and "gget (ts_txs (srv_TxStore s)) k = Some tx" and "tx_Status tx = StatusIngest"
    and "worker_ingest V now queue s tx = Some s'"
  shows "tx_inv (srv_TxStore s')"
proof (cases "srv_useTape s")
  case True
  then obtain items1 files1 cache1 t1 tx1 where c: "tx_Commit (sv_E V) (sv_F V) (sv_C V) (sv_T V) (sv_TJ V) now (srv_Items s) (srv_FileStore s) (srv_Cache s)
      (ts_TxStore (srv_TxStore s)) tx = Some (items1, files1, cache1, t1, tx1)"
    using assms(4) by (auto simp: worker_ingest_def split: option.splits)
  have "tx_evolves tx tx1" using tx_Commit_tx[OF c] assms(3) by (auto simp: tx_evolves_def tx_pending_def status_defs)
  note inv1 = tx_inv_put(1)[OF assms(1,2) this, of t1]
  have idx: "srv_TxStore (snd (srv_IndexItem V s1 i)) = srv_TxStore s1" for s1 i
    by (auto simp: srv_IndexItem_def index_result_def Let_def split: prod.splits sum.splits option.splits)
  have "srv_TxStore s' = ts_put (srv_TxStore s) (t1, tx1)" using assms(4) True c by (auto simp: worker_ingest_def Let_def idx)
  with inv1 show ?thesis by simp
qed (use assms in \<open>simp add: worker_ingest_def\<close>)

lemma worker_check_inv:
  assumes inv: "tx_inv (srv_TxStore s)" and k: "gget (ts_txs (srv_TxStore s)) k = Some tx" and st: "tx_Status tx = StatusChecking"
    and w: "worker_check V now queue s tx = Some s'"
  shows "tx_inv (srv_TxStore s')"
proof -
  obtain files1 tx1 where v: "tx_VerifyFiles (sv_F V) (e_H (sv_E V)) (srv_FileStore s) tx = Some (files1, tx1)"
    using w by (auto simp: worker_check_def split: option.splits)
  then have same: "tx_same tx tx1" using verify_files_same by (fastforce simp: tx_VerifyFiles_def split: sum.splits)
  then have ev: "tx_evolves tx tx1" and pend: "tx_pending tx1" using st by (auto simp: tx_same_def tx_evolves_def tx_pending_def status_defs)
  let ?s1 = "s\<lparr>srv_FileStore := files1\<rparr>"
  show ?thesis
  proof (cases "length (tx_Err tx1) > 0")
    case True
    obtain s2 tx2 where s2: "srv_SetStatus V now (?s1\<lparr>srv_txqueue := queue\<rparr>) tx1 StatusError = (s2, tx2)" by fastforce
    have "s' = s2" using w v True s2 by (simp add: worker_check_def)
    with srv_SetStatus_inv(1)[OF _ _ ev _ s2] inv k show ?thesis by simp
  next
    case False
    obtain s2 tx2 where s2: "srv_SetStatus V now ?s1 tx1 StatusIngest = (s2, tx2)" by fastforce
    have inv1: "tx_inv (srv_TxStore ?s1)" "gget (ts_txs (srv_TxStore ?s1)) k = Some tx" using inv k by simp_all
    note S = srv_SetStatus_inv[OF inv1 ev disjI1[OF pend] s2]
    have "worker_ingest V now queue s2 tx2 = Some s'" using w v False s2 by (simp add: worker_check_def)
    from worker_ingest_inv[where k = k, OF S(1) _ S(3) this] S(2) show ?thesis by simp
  qed
qed

lemma transactionWorker_inv:
  assumes inv: "tx_inv (srv_TxStore s)" and w: "transactionWorker V now s = Some s'"
  shows "tx_inv (srv_TxStore s')"
proof (cases "srv_txqueue s")
  case (Cons txid queue)
  show ?thesis
  proof (cases "gget (ts_txs (srv_TxStore s)) txid")
    case (Some tx)
    consider (skip) "s' = s\<lparr>srv_txqueue := queue\<rparr>" | (wait) s1 tx1 where "tx_Status tx = StatusWaiting" "srv_SetStatus V now s tx StatusChecking = (s1, tx1)"
        "worker_check V now queue s1 tx1 = Some s'" | (check) "tx_Status tx = StatusChecking" "worker_check V now queue s tx = Some s'"
      | (ingest) "tx_Status tx = StatusIngest" "worker_ingest V now queue s tx = Some s'"
      using w Cons Some by (auto simp: transactionWorker_def tx_Lookup_def split: if_splits prod.splits)
    then show ?thesis
    proof cases
      case wait
      have pend: "tx_pending tx" using wait(1) by (simp add: tx_pending_def status_defs)
      note S = srv_SetStatus_inv[OF inv Some tx_evolves_refl disjI1[OF pend] wait(2)]
      from worker_check_inv[where k = txid, OF S(1) _ S(3) wait(3)] S(2) show ?thesis by simp
    qed (use inv worker_check_inv[OF inv Some] worker_ingest_inv[OF inv Some] in auto)
  qed (use assms Cons in \<open>auto simp: transactionWorker_def tx_Lookup_def\<close>)
qed (use assms in \<open>simp add: transactionWorker_def\<close>)

section \<open>Handlers and cleaner\<close>

text \<open>The outcome of a request for a new transaction, whatever the stores do.\<close>

definition newtx_made :: "time \<Rightarrow> request \<Rightarrow> command list result \<Rightarrow> transaction \<Rightarrow> bool" where
  "newtx_made now r cmds tx = (tx_ItemID tx = ByName r ''id'' \<and> tx_Creator tx = ByName r ''username'' \<and>
     (case cmds of Inr cs \<Rightarrow> if list_all WellFormed cs then tx_Status tx = StatusWaiting \<and> tx_Commands tx = cs else tx_Status tx = StatusError
      | Inl e \<Rightarrow> tx_Status tx = StatusError))"

definition newtx_accepts :: "command list result \<Rightarrow> bool" where
  "newtx_accepts cmds = (case cmds of Inr cs \<Rightarrow> list_all WellFormed cs | Inl e \<Rightarrow> False)"

lemma newtx_created_result:
  assumes inv: "tx_inv (srv_TxStore s)" and k: "gget (ts_txs (srv_TxStore s)) k = Some tx" and p: "tx_pending tx" and no: "tx_Commands tx = []"
    and tx: "tx_ItemID tx = ByName r ''id''" "tx_Creator tx = ByName r ''username''"
    and h: "newtx_created V now cmds w s tx = (w', s')"
  shows "tx_inv (srv_TxStore s') \<and> (\<exists>tx'. gget (ts_txs (srv_TxStore s')) = (gget (ts_txs (srv_TxStore s)))(k \<mapsto> tx') \<and> newtx_made now r cmds tx') \<and>
     srv_txqueue s' = srv_txqueue s @ (if newtx_accepts cmds then [k] else []) \<and>
     rs_Header w' = rs_Header w \<and> (rs_Code w = 0 \<longrightarrow> rs_Code w' = (if newtx_accepts cmds then 202 else 400))"
proof (cases "newtx_accepts cmds")
  case False
  obtain s2 tx2 where s2: "srv_SetStatus V now s tx StatusError = (s2, tx2)" by fastforce
  note S = srv_SetStatus_inv[OF inv k tx_evolves_refl disjI1[OF p] s2]
  obtain b where "w' = rs_println b (WriteHeader 400 w)" "s' = s2"
    using h False s2
    by (auto simp: newtx_accepts_def newtx_created_def newtx_commands_def tx_AddCommandList_def split: sum.splits if_splits)
  moreover have "srv_txqueue s2 = srv_txqueue s" by (subst S(5)) simp
  moreover have "newtx_made now r cmds tx2" using S False tx by (auto simp: newtx_made_def newtx_accepts_def tx_evolves_def split: sum.splits)
  ultimately show ?thesis using S(1,2) False by (auto simp: rs_println_def rs_write_def WriteHeader_def Let_def)
next
  case True
  then obtain cs where cs: "cmds = Inr cs" "list_all WellFormed cs" by (auto simp: newtx_accepts_def split: sum.splits)
  obtain t2 tx2 where a: "tx_save (sv_T V) (sv_TJ V) now (ts_TxStore (srv_TxStore s)) (tx\<lparr>tx_Commands := tx_Commands tx @ cs\<rparr>) = (t2, tx2)" by fastforce
  have e2: "tx_evolves tx tx2" "tx_pending tx2" "tx_Creator tx2 = tx_Creator tx" "tx_Commands tx2 = cs"
    using p no tx_save_tx[OF a] by (auto simp: tx_evolves_def tx_pending_def)
  let ?s2 = "s\<lparr>srv_TxStore := ts_put (srv_TxStore s) (t2, tx2)\<rparr>"
  have s2: "tx_inv (srv_TxStore ?s2)" "gget (ts_txs (srv_TxStore ?s2)) k = Some tx2"
    using tx_inv_put[OF inv k e2(1), of t2] by simp_all
  obtain s3 tx3 where s3: "srv_SetStatus V now ?s2 tx2 StatusWaiting = (s3, tx3)" by fastforce
  note S = srv_SetStatus_inv[OF s2 tx_evolves_refl disjI1[OF e2(2)] s3]
  have out: "w' = WriteHeader 202 w" "s' = s3\<lparr>srv_txqueue := srv_txqueue s3 @ [tx_ID tx3]\<rparr>"
    using h cs a s3 by (simp_all add: newtx_created_def newtx_commands_def newtx_submit_def tx_AddCommandList_def)
  have id: "tx_ID tx3 = k" using S(4) e2(1) inv k by (simp add: tx_evolves_def tx_inv_def)
  have "srv_txqueue s3 = srv_txqueue s" by (subst S(5)) simp
  moreover have "gget (ts_txs (srv_TxStore s3)) = (gget (ts_txs (srv_TxStore s)))(k \<mapsto> tx3)"
    using S(2) tx_inv_put(2)[OF inv k e2(1), of t2] by simp
  moreover have "newtx_made now r cmds tx3" using S(3,4,7,8) e2 cs tx by (simp add: newtx_made_def tx_evolves_def)
  ultimately show ?thesis using S(1) True out id by (auto simp: WriteHeader_def)
qed

lemma NewTxHandler_result:
  assumes inv: "tx_inv (srv_TxStore s)" and h: "NewTxHandler V dec now r w s = (w', s')" and w: "rs_Code w = 0"
  shows "tx_inv (srv_TxStore s')"
    and "(\<exists>k tx. gget (ts_txs (srv_TxStore s)) k = Some tx \<and> tx_ItemID tx = ByName r ''id'' \<and> tx_pending tx) \<Longrightarrow>
      rs_Code w' = 409 \<and> gget (ts_txs (srv_TxStore s')) = gget (ts_txs (srv_TxStore s)) \<and> srv_txqueue s' = srv_txqueue s"
    and "\<not> (\<exists>k tx. gget (ts_txs (srv_TxStore s)) k = Some tx \<and> tx_ItemID tx = ByName r ''id'' \<and> tx_pending tx) \<Longrightarrow>
      \<exists>k tx. k = fst (makenewid (ts_txs (srv_TxStore s)) (ts_seqno (srv_TxStore s))) \<and> gget (ts_txs (srv_TxStore s)) k = None \<and> gget (ts_txs (srv_TxStore s')) = (gget (ts_txs (srv_TxStore s)))(k \<mapsto> tx) \<and> newtx_made now r (dec r) tx \<and>
        srv_txqueue s' = srv_txqueue s @ (if newtx_accepts (dec r) then [k] else []) \<and>
        gget (rs_Header w') ''Location'' = Some (''/transaction/'' @ k) \<and> rs_Code w' = (if newtx_accepts (dec r) then 202 else 400)"
proof -
  obtain res ts1 where c: "tx_Create (sv_T V) (sv_TJ V) now (srv_TxStore s) (ByName r ''id'') = (res, ts1)" by fastforce
  note inv1 = tx_Create_inv(1)[OF inv c]
  have refused: "w' = rs_println (err_Error e) (WriteHeader 409 w) \<and> s' = s \<and> (\<exists>k tx. gget (ts_txs (srv_TxStore s)) k = Some tx \<and> tx_ItemID tx = ByName r ''id'' \<and> tx_pending tx)"
    if "res = Inl e" for e
  proof -
    have "ts1 = srv_TxStore s" using c that by (auto simp: tx_Create_def Let_def split: if_splits prod.splits)
    then show ?thesis using h c that tx_Create_inv(3)[OF inv c] by (simp add: NewTxHandler_def)
  qed
  have made: "tx_inv (srv_TxStore s') \<and> \<not> (\<exists>k tx. gget (ts_txs (srv_TxStore s)) k = Some tx \<and> tx_ItemID tx = ByName r ''id'' \<and> tx_pending tx) \<and>
      (\<exists>k tx. k = fst (makenewid (ts_txs (srv_TxStore s)) (ts_seqno (srv_TxStore s))) \<and> gget (ts_txs (srv_TxStore s)) k = None \<and> gget (ts_txs (srv_TxStore s')) = (gget (ts_txs (srv_TxStore s)))(k \<mapsto> tx) \<and> newtx_made now r (dec r) tx \<and>
        srv_txqueue s' = srv_txqueue s @ (if newtx_accepts (dec r) then [k] else []) \<and>
        gget (rs_Header w') ''Location'' = Some (''/transaction/'' @ k) \<and> rs_Code w' = (if newtx_accepts (dec r) then 202 else 400))"
    if Inr: "res = Inr tx" for tx
  proof -
    note C = tx_Create_inv(2)[OF inv c Inr]
    let ?tx1 = "tx\<lparr>tx_Creator := ByName r ''username''\<rparr>" and ?w1 = "hdr_Set ''Location'' (''/transaction/'' @ tx_ID tx) w"
    let ?s1 = "s\<lparr>srv_TxStore := ts_put ts1 (ts_TxStore ts1, ?tx1)\<rparr>"
    have get: "gget (ts_txs ts1) (tx_ID tx) = Some tx" using C by simp
    have e1: "tx_evolves tx ?tx1" by (simp add: tx_evolves_def tx_pending_def)
    note P = tx_inv_put[OF inv1 get e1, of "ts_TxStore ts1"]
    have "tx_inv (srv_TxStore ?s1)" "gget (ts_txs (srv_TxStore ?s1)) (tx_ID tx) = Some ?tx1" "tx_pending ?tx1" "tx_Commands ?tx1 = []"
      using P C by (simp_all add: tx_pending_def status_defs)
    moreover have "tx_ItemID ?tx1 = ByName r ''id''" "tx_Creator ?tx1 = ByName r ''username''" using C by simp_all
    moreover have "newtx_created V now (dec r) ?w1 ?s1 ?tx1 = (w', s')" using h c Inr by (simp add: NewTxHandler_def)
    ultimately have R: "tx_inv (srv_TxStore s') \<and> (\<exists>tx'. gget (ts_txs (srv_TxStore s')) = (gget (ts_txs (srv_TxStore ?s1)))(tx_ID tx \<mapsto> tx') \<and> newtx_made now r (dec r) tx') \<and>
        srv_txqueue s' = srv_txqueue ?s1 @ (if newtx_accepts (dec r) then [tx_ID tx] else []) \<and>
        rs_Header w' = rs_Header ?w1 \<and> (rs_Code ?w1 = 0 \<longrightarrow> rs_Code w' = (if newtx_accepts (dec r) then 202 else 400))"
      by (rule newtx_created_result)
    have m: "(gget (ts_txs (srv_TxStore ?s1)))(tx_ID tx \<mapsto> tx') = (gget (ts_txs (srv_TxStore s)))(tx_ID tx \<mapsto> tx')" for tx'
      using P(2) C by (simp del: fun_upd_apply)
    have w1: "rs_Code ?w1 = 0" "gget (rs_Header ?w1) ''Location'' = Some (''/transaction/'' @ tx_ID tx)" using w by (simp_all add: hdr_Set_def)
    have "\<not> (\<exists>k tx. gget (ts_txs (srv_TxStore s)) k = Some tx \<and> tx_ItemID tx = ByName r ''id'' \<and> tx_pending tx)"
      using tx_Create_inv(3)[OF inv c, of ErrExistingTransaction] Inr by simp
    moreover have "srv_txqueue ?s1 = srv_txqueue s" by simp
    ultimately show ?thesis using R C w1 unfolding m by metis
  qed
  show "tx_inv (srv_TxStore s')" using refused made inv by (cases res) blast+
  show "(\<exists>k tx. gget (ts_txs (srv_TxStore s)) k = Some tx \<and> tx_ItemID tx = ByName r ''id'' \<and> tx_pending tx) \<Longrightarrow>
      rs_Code w' = 409 \<and> gget (ts_txs (srv_TxStore s')) = gget (ts_txs (srv_TxStore s)) \<and> srv_txqueue s' = srv_txqueue s"
    using refused made w by (cases res) (auto simp: rs_println_def rs_write_def WriteHeader_def Let_def)
  show "\<not> (\<exists>k tx. gget (ts_txs (srv_TxStore s)) k = Some tx \<and> tx_ItemID tx = ByName r ''id'' \<and> tx_pending tx) \<Longrightarrow>
      \<exists>k tx. k = fst (makenewid (ts_txs (srv_TxStore s)) (ts_seqno (srv_TxStore s))) \<and> gget (ts_txs (srv_TxStore s)) k = None \<and> gget (ts_txs (srv_TxStore s')) = (gget (ts_txs (srv_TxStore s)))(k \<mapsto> tx) \<and> newtx_made now r (dec r) tx \<and>
        srv_txqueue s' = srv_txqueue s @ (if newtx_accepts (dec r) then [k] else []) \<and>
        gget (rs_Header w') ''Location'' = Some (''/transaction/'' @ k) \<and> rs_Code w' = (if newtx_accepts (dec r) then 202 else 400)"
    using refused made by (cases res) blast+
qed

lemma CancelTxHandler_store:
  assumes "tx_inv (srv_TxStore s)" and "CancelTxHandler V r w s = (w', s')"
  shows "tx_inv (srv_TxStore s')" and "gget (ts_txs (srv_TxStore s')) = (gget (ts_txs (srv_TxStore s)))(ByName r ''tid'' := None)"
proof -
  let ?t = "ByName r ''tid''"
  obtain err ts1 where d: "tx_Delete (sv_T V) (srv_TxStore s) ?t = (err, ts1)" by fastforce
  note D = tx_Delete_inv[OF assms(1) d]
  have c: "srv_TxStore s' = (if gget (ts_txs (srv_TxStore s)) ?t = None then srv_TxStore s else ts1)"
    using assms(2) d by (auto simp: CancelTxHandler_def tx_Lookup_def Let_def split: option.splits)
  show "tx_inv (srv_TxStore s')" using D(1) assms(1) c by simp
  show "gget (ts_txs (srv_TxStore s')) = (gget (ts_txs (srv_TxStore s)))(?t := None)"
    using D(2) c by (cases "gget (ts_txs (srv_TxStore s)) ?t") (auto simp: fun_eq_iff)
qed

text \<open>The transactions before and after a run of the cleaner over the given ids.\<close>

definition cleaned ::
  "time \<Rightarrow> string list \<Rightarrow> error option \<Rightarrow> (string \<Rightarrow> transaction option) \<Rightarrow> (string \<Rightarrow> transaction option) \<Rightarrow> bool" where
  "cleaned now ids err m m' =
     ((\<forall>k. m' k = m k \<or> k \<in> set ids \<and> m' k = None \<and> (\<exists>tx. m k = Some tx \<and> tx_expired now tx)) \<and>
      (err = None \<longrightarrow> (\<forall>k \<in> set ids. \<forall>tx. m' k = Some tx \<longrightarrow> \<not> tx_expired now tx)))"

lemma cleaned_skip: "cleaned now ids err m m' \<Longrightarrow> \<forall>tx. m x = Some tx \<longrightarrow> \<not> tx_expired now tx \<Longrightarrow> cleaned now (x # ids) err m m'"
  unfolding cleaned_def by (metis list.set_intros(2) set_ConsD)

lemma cleaned_fail: "err \<noteq> None \<Longrightarrow> cleaned now ids err m m"
  by (auto simp: cleaned_def)

lemma cleaned_del:
  assumes "cleaned now ids err (m(x := None)) m'" and "m x = Some tx" and "tx_expired now tx"
  shows "cleaned now (x # ids) err m m'"
proof -
  have "m' x = None" using assms(1) unfolding cleaned_def by (metis fun_upd_same)
  with assms show ?thesis unfolding cleaned_def by (auto split: if_splits)
qed

lemma clean_txs_store:
  assumes "tx_inv (srv_TxStore s)" and "clean_txs V now ids s = (err, s')"
  shows "tx_inv (srv_TxStore s') \<and> cleaned now ids err (gget (ts_txs (srv_TxStore s))) (gget (ts_txs (srv_TxStore s')))"
  using assms
proof (induction ids arbitrary: s)
  case Nil
  then show ?case by (simp add: cleaned_def)
next
  case (Cons txid ids)
  show ?case
  proof (cases "gget (ts_txs (srv_TxStore s)) txid")
    case None
    then have "clean_txs V now ids s = (err, s')" using Cons.prems(2) by (simp add: tx_Lookup_def)
    with Cons.IH[OF Cons.prems(1)] None show ?thesis using cleaned_skip by fastforce
  next
    case (Some tx)
    show ?thesis
    proof (cases "tx_expired now tx")
      case False
      then have "clean_txs V now ids s = (err, s')" using Some Cons.prems(2) by (simp add: tx_Lookup_def)
      with Cons.IH[OF Cons.prems(1)] False Some show ?thesis using cleaned_skip by fastforce
    next
      case True
      show ?thesis
      proof (cases "tx_ReferencedFiles tx")
        case (Inl e)
        with Some True Cons.prems show ?thesis by (auto simp: tx_Lookup_def cleaned_fail)
      next
        case (Inr fids)
        obtain e1 files1 where df: "delete_files (sv_F V) fids (srv_FileStore s) = (e1, files1)" by fastforce
        obtain e2 ts1 where d: "tx_Delete (sv_T V) (srv_TxStore s) txid = (e2, ts1)" by fastforce
        note D = tx_Delete_inv[OF Cons.prems(1) d]
        let ?s1 = "s\<lparr>srv_FileStore := files1, srv_TxStore := ts1\<rparr>"
        consider "e1 \<noteq> None" | "e1 = None" "e2 \<noteq> None" | "e1 = None" "e2 = None" by blast
        then show ?thesis
        proof cases
          case 1
          with Some True Inr df Cons.prems show ?thesis by (auto simp: tx_Lookup_def cleaned_fail)
        next
          case 2
          then have "s' = ?s1" "err \<noteq> None" using Some True Inr df d Cons.prems by (auto simp: tx_Lookup_def)
          moreover from this(2) have "cleaned now ids err ((gget (ts_txs (srv_TxStore s)))(txid := None)) (gget (ts_txs ts1))"
            using cleaned_fail[of err now ids] D(2) by simp
          ultimately show ?thesis using D(1) cleaned_del[where m = "gget (ts_txs (srv_TxStore s))", OF _ Some True] by simp
        next
          case 3
          then have "clean_txs V now ids ?s1 = (err, s')" using Some True Inr df d Cons.prems by (simp add: tx_Lookup_def)
          from Cons.IH[OF _ this] D(1) have "tx_inv (srv_TxStore s')"
            "cleaned now ids err (gget (ts_txs ts1)) (gget (ts_txs (srv_TxStore s')))" by simp_all
          then have "tx_inv (srv_TxStore s')"
            "cleaned now ids err ((gget (ts_txs (srv_TxStore s)))(txid := None)) (gget (ts_txs (srv_TxStore s')))" unfolding D(2) by blast+
          then show ?thesis using cleaned_del[where m = "gget (ts_txs (srv_TxStore s))", OF _ Some True] by blast
        qed
      qed
    qed
  qed
qed

section \<open>The server as a state machine\<close>

text \<open>The steps of the server that involve transactions, and \<open>Other\<close> for everything that does not touch them: uploads,
  reads, indexing, fixity.\<close>

inductive srv_step ::
  "('s, 'w, 'c, 'f, 'v, 'b, 'u, 't, 'x, 'd) server_env \<Rightarrow> ('s, 'c, 'f, 'b, 't, 'd) server \<Rightarrow> ('s, 'c, 'f, 'b, 't, 'd) server \<Rightarrow> bool" for V where
  New: "srv_step V s (snd (NewTxHandler V dec now r new_response s))"
| Cancel: "srv_step V s (snd (CancelTxHandler V r w s))"
| Tape: "srv_step V s (snd (SetTapeUseHandler r w s))"
| Work: "transactionWorker V now s = Some s' \<Longrightarrow> srv_step V s s'"
| Clean: "srv_step V s (TxCleaner V now s)"
| Queue: "srv_step V s (initCommitQueue s)"
| Other: "srv_step V s (s\<lparr>srv_Items := items, srv_FileStore := files, srv_Cache := cache, srv_BlobDB := d,
    srv_errorledger := errs, srv_tapeinflight := fl\<rparr>)"

inductive srv_reach ::
  "('s, 'w, 'c, 'f, 'v, 'b, 'u, 't, 'x, 'd) server_env \<Rightarrow> ('s, 'c, 'f, 'b, 't, 'd) server \<Rightarrow> ('s, 'c, 'f, 'b, 't, 'd) server \<Rightarrow> bool" for V s0 where
  Start: "srv_reach V s0 s0"
| Step: "srv_reach V s0 s \<Longrightarrow> srv_step V s s' \<Longrightarrow> srv_reach V s0 s'"

lemma TxCleaner_store:
  assumes "tx_inv (srv_TxStore s)"
  obtains err s1 where "transactionCleaner V now s = (err, s1)" and "srv_TxStore (TxCleaner V now s) = srv_TxStore s1" and "tx_inv (srv_TxStore s1)"
proof -
  obtain err s1 where t: "transactionCleaner V now s = (err, s1)" by fastforce
  have "srv_TxStore (snd (fileCleaner V now s1)) = srv_TxStore s1" by (simp add: fileCleaner_def split: prod.splits)
  moreover have "tx_inv (srv_TxStore s1)" using clean_txs_store[OF assms t[unfolded transactionCleaner_def]] by blast
  ultimately show thesis using t by (intro that[OF t]) (auto simp: TxCleaner_def)
qed

lemma srv_step_inv: "srv_step V s s' \<Longrightarrow> tx_inv (srv_TxStore s) \<Longrightarrow> tx_inv (srv_TxStore s')"
proof (induction rule: srv_step.induct)
  case (New s dec now r)
  obtain w' s' where "NewTxHandler V dec now r new_response s = (w', s')" by fastforce
  with NewTxHandler_result(1)[OF New] show ?case by (fastforce simp: new_response_def)
next
  case (Cancel s r w)
  obtain w' s' where "CancelTxHandler V r w s = (w', s')" by fastforce
  with CancelTxHandler_store(1)[OF Cancel] show ?case by fastforce
next
  case (Work now s s')
  then show ?case by (rule transactionWorker_inv[rotated])
next
  case (Clean s now)
  then show ?case by (rule TxCleaner_store[of s V now]) simp
qed (simp_all add: SetTapeUseHandler_def EnableTapeUse_def DisableTapeUse_def initCommitQueue_def Let_def)

lemma srv_reach_inv: "srv_reach V s0 s \<Longrightarrow> ts_txs (srv_TxStore s0) = [] \<Longrightarrow> tx_inv (srv_TxStore s)"
proof (induction rule: srv_reach.induct)
  case Start
  then show ?case by (simp add: tx_inv_def)
next
  case (Step s s')
  then show ?case using srv_step_inv by blast
qed

section \<open>Properties\<close>

text \<open>C8. At most one transaction is in process for an item. In every state that the server reaches from one without
  transactions, through any sequence of requests, of worker steps and of cleaning, over any stores and with any failures
  of theirs, two different transactions on the same item are never both pending, every transaction is filed under its own id, and
  a request for a new transaction is refused exactly when the item has a pending one.\<close>

theorem one_pending_transaction:
  assumes "srv_reach V s0 s" and "ts_txs (srv_TxStore s0) = []"
  shows "(\<forall>k tx. tx_Lookup (srv_TxStore s) k = Some tx \<longrightarrow> tx_ID tx = k) \<and>
     (\<forall>k k' tx tx'. tx_Lookup (srv_TxStore s) k = Some tx \<longrightarrow> tx_Lookup (srv_TxStore s) k' = Some tx' \<longrightarrow> tx_pending tx \<longrightarrow> tx_pending tx' \<longrightarrow>
        tx_ItemID tx = tx_ItemID tx' \<longrightarrow> k = k') \<and>
     (fst (tx_Create T J now (srv_TxStore s) iid) = Inl ErrExistingTransaction \<longleftrightarrow>
        (\<exists>k tx. tx_Lookup (srv_TxStore s) k = Some tx \<and> tx_ItemID tx = iid \<and> tx_pending tx))"
proof -
  have "tx_inv (srv_TxStore s)" by (rule srv_reach_inv[OF assms])
  moreover obtain res r' where "tx_Create T J now (srv_TxStore s) iid = (res, r')" by fastforce
  ultimately show ?thesis using tx_Create_inv(3)[of "srv_TxStore s" T J now iid res r' ErrExistingTransaction]
    by (simp add: tx_inv_def tx_Lookup_def)
qed

text \<open>A server over in-memory stores, for which the hypotheses of the properties can be met.\<close>

definition demo_server :: "(memory, (string, item) gomap, memory, unit, memory, db) server" where
  "demo_server = \<lparr>srv_Items = items_NewWithCache NewMemory [], srv_FileStore = frag_New_store NewMemory, srv_TxStore = tx_New NewMemory,
     srv_Cache = (), srv_BlobDB = new_db [], srv_useTape = True, srv_txqueue = [], srv_errorledger = [], srv_tapeinflight = []\<rparr>"

definition demo_codec :: "transaction json" where
  "demo_codec = \<lparr>j_enc = (\<lambda>tx. tx_ID tx), j_dec = (\<lambda>b. Inl ErrJSON)\<rparr>"

definition demo_senv :: "(memory, nat, (string, item) gomap, memory, nat, unit, unit, memory, nat, db) server_env" where
  "demo_senv = \<lparr>sv_E = \<lparr>e_S = mem_ops, e_C = memoryCache_ops, e_H = \<lparr>h_md5 = (\<lambda>b. b), h_sha256 = (\<lambda>b. b)\<rparr>,
       e_Z = \<lparr>z_enc = (\<lambda>fs. []), z_dec = (\<lambda>b. Inl ErrZip)\<rparr>, e_J = \<lparr>j_enc = (\<lambda>t. []), j_dec = (\<lambda>b. Inl ErrJSON)\<rparr>, e_date = (\<lambda>t. [])\<rparr>,
     sv_F = mem_ops, sv_C = empty_ops, sv_T = mem_ops, sv_TJ = demo_codec, sv_D = ql_blobdb (\<lambda>_ _ _. Inr [])\<rparr>"

abbreviation demo_request :: request where
  "demo_request \<equiv> \<lparr>rq_Method = ''POST'', rq_Header = [], rq_Form = [], rq_BasicAuth = None,
     rq_Params = [(''id'', ''item1''), (''tid'', ''0001''), (''username'', ''ann'')], rq_Body = Some ([], None)\<rparr>"

lemma demo_submit:
  obtains w s k tx where "NewTxHandler demo_senv (\<lambda>_. Inr [[''sleep'']]) 1 demo_request new_response demo_server = (w, s)"
    and "srv_reach demo_senv demo_server s" and "ts_txs (srv_TxStore demo_server) = []"
    and "k = ''0001''" and "tx_Lookup (srv_TxStore s) k = Some tx" and "tx_ItemID tx = ''item1''" and "tx_Status tx = StatusWaiting" and "tx_pending tx"
proof -
  let ?dec = "\<lambda>_. Inr [[''sleep'']]"
  obtain w s where h: "NewTxHandler demo_senv ?dec 1 demo_request new_response demo_server = (w, s)" by fastforce
  have reach: "srv_reach demo_senv demo_server s" using srv_reach.Step[OF srv_reach.Start srv_step.New[of demo_senv demo_server ?dec 1 demo_request]] h by simp
  have empty: "ts_txs (srv_TxStore demo_server) = []" by (simp add: demo_server_def tx_New_def)
  have inv: "tx_inv (srv_TxStore demo_server)" by (rule srv_reach_inv[OF srv_reach.Start empty])
  have "fst (makenewid (ts_txs (srv_TxStore demo_server)) (ts_seqno (srv_TxStore demo_server))) = ''0001''" by code_simp
  moreover have "newtx_accepts (?dec demo_request)" by code_simp
  moreover have "ByName demo_request ''id'' = ''item1''" by code_simp
  ultimately obtain tx where "gget (ts_txs (srv_TxStore s)) ''0001'' = Some tx" "tx_ItemID tx = ''item1''" "tx_Status tx = StatusWaiting"
    using NewTxHandler_result(3)[OF inv h] empty by (auto simp: new_response_def newtx_made_def newtx_accepts_def)
  then show thesis using that[OF h reach empty refl] by (simp add: tx_Lookup_def tx_pending_def status_defs)
qed

theorem one_pending_transaction_witness:
  "fst (tx_Create mem_ops demo_codec 2 (srv_TxStore (snd (NewTxHandler demo_senv (\<lambda>_. Inr [[''sleep'']]) 1 demo_request new_response demo_server))) ''item1'') =
     Inl ErrExistingTransaction"
proof (rule demo_submit)
  fix w s k tx
  assume h: "NewTxHandler demo_senv (\<lambda>_. Inr [[''sleep'']]) 1 demo_request new_response demo_server = (w, s)" and reach: "srv_reach demo_senv demo_server s"
    and empty: "ts_txs (srv_TxStore demo_server) = []" and tx: "tx_Lookup (srv_TxStore s) k = Some tx" "tx_ItemID tx = ''item1''" "tx_pending tx"
  show ?thesis using one_pending_transaction[OF reach empty, of mem_ops demo_codec 2 "''item1''"] tx unfolding h snd_conv by blast
qed



text \<open>C20. Cleaning up takes away nothing that is still needed: a round of the transaction cleaner keeps every transaction, as it is, that is
  not both over and older than its limit, four days for a finished one and seven for a failed one; and when
  no store fails it removes all those that are.\<close>

theorem cleaner_safe:
  assumes "srv_reach V s0 s" and "ts_txs (srv_TxStore s0) = []" and "transactionCleaner V now s = (err, s')"
    and "tx_Lookup (srv_TxStore s) k = Some tx"
  shows "(\<not> (tx_Status tx = StatusFinished \<and> tx_Modified tx \<le> now - 4 * 24 * hour \<or> tx_Status tx = StatusError \<and> tx_Modified tx \<le> now - 7 * 24 * hour)
        \<longrightarrow> tx_Lookup (srv_TxStore s') k = Some tx) \<and>
     (tx_Status tx = StatusFinished \<and> tx_Modified tx \<le> now - 4 * 24 * hour \<and> err = None \<longrightarrow> tx_Lookup (srv_TxStore s') k = None) \<and>
     (tx_Status tx = StatusError \<and> tx_Modified tx \<le> now - 7 * 24 * hour \<and> err = None \<longrightarrow> tx_Lookup (srv_TxStore s') k = None)"
proof -
  have inv: "tx_inv (srv_TxStore s)" by (rule srv_reach_inv[OF assms(1,2)])
  have e: "tx_expired now tx \<longleftrightarrow> tx_Status tx = StatusFinished \<and> tx_Modified tx \<le> now - 4 * 24 * hour \<or>
      tx_Status tx = StatusError \<and> tx_Modified tx \<le> now - 7 * 24 * hour"
    by (auto simp: tx_expired_def Let_def status_defs)
  have k: "k \<in> set (tx_List (srv_TxStore s))" using assms(4) by (auto simp: tx_List_def set_gkeys tx_Lookup_def)
  have c: "cleaned now (tx_List (srv_TxStore s)) err (tx_Lookup (srv_TxStore s)) (tx_Lookup (srv_TxStore s'))"
    using clean_txs_store[OF inv assms(3)[unfolded transactionCleaner_def]] unfolding tx_Lookup_def[abs_def] by blast
  then have d: "tx_Lookup (srv_TxStore s') k = Some tx \<or> tx_Lookup (srv_TxStore s') k = None \<and> tx_expired now tx"
    using assms(4) unfolding cleaned_def by (metis option.inject)
  moreover have "err = None \<Longrightarrow> tx_expired now tx \<Longrightarrow> tx_Lookup (srv_TxStore s') k = None"
    using c k d unfolding cleaned_def by metis
  ultimately show ?thesis unfolding e[symmetric] by (metis e)
qed

theorem cleaner_safe_witness:
  "tx_Lookup (srv_TxStore (snd (transactionCleaner demo_senv (1000 * 24 * hour)
     (snd (NewTxHandler demo_senv (\<lambda>_. Inr [[''sleep'']]) 1 demo_request new_response demo_server))))) ''0001'' \<noteq> None"
proof (rule demo_submit)
  fix w s k tx
  assume h: "NewTxHandler demo_senv (\<lambda>_. Inr [[''sleep'']]) 1 demo_request new_response demo_server = (w, s)" and reach: "srv_reach demo_senv demo_server s"
    and empty: "ts_txs (srv_TxStore demo_server) = []" and k: "k = ''0001''" and tx: "tx_Lookup (srv_TxStore s) k = Some tx" "tx_Status tx = StatusWaiting"
  obtain err s' where c: "transactionCleaner demo_senv (1000 * 24 * hour) s = (err, s')" by fastforce
  from cleaner_safe[OF reach empty c tx(1)] tx(2) show ?thesis unfolding h snd_conv c k by (simp add: status_defs)
qed

text \<open>C27. What \<open>CancelTxHandler\<close> does with a transaction that is still pending: it answers 400, that the transaction cannot be
  deleted, and has deleted it, so that a second transaction on the item can be created while the first may be
  under way.\<close>

theorem cancel_pending_deletes:
  assumes "srv_reach V s0 s" and "ts_txs (srv_TxStore s0) = []" and "tx_Lookup (srv_TxStore s) (ByName r ''tid'') = Some tx" and "tx_pending tx"
    and "CancelTxHandler V r new_response s = (w, s')"
  shows "rs_Status w = 400 \<and> tx_Lookup (srv_TxStore s') (ByName r ''tid'') = None \<and>
     (\<exists>tx'. fst (tx_Create T J now (srv_TxStore s') (tx_ItemID tx)) = Inr tx')"
proof -
  have inv: "tx_inv (srv_TxStore s)" by (rule srv_reach_inv[OF assms(1,2)])
  let ?t = "ByName r ''tid''"
  note C = CancelTxHandler_store[OF inv assms(5)]
  have w: "rs_Status w = 400"
    using assms(3,4,5) by (auto simp: CancelTxHandler_def tx_pending_def Let_def new_response_def rs_Status_def rs_write_def WriteHeader_def split: prod.splits option.splits)
  obtain res r' where c: "tx_Create T J now (srv_TxStore s') (tx_ItemID tx) = (res, r')" by fastforce
  have none: "\<not> (\<exists>k tx'. gget (ts_txs (srv_TxStore s')) k = Some tx' \<and> tx_ItemID tx' = tx_ItemID tx \<and> tx_pending tx')"
    using inv assms(3,4) unfolding C(2) tx_inv_def tx_Lookup_def by (metis fun_upd_apply option.distinct(1))
  have "res \<noteq> Inl e" for e using tx_Create_inv(3)[OF C(1) c, of e] none by blast
  then obtain tx' where "res = Inr tx'" by (cases res) auto
  then show ?thesis using w C(2) c by (auto simp: tx_Lookup_def)
qed

theorem cancel_pending_deletes_witness:
  "rs_Status (fst (CancelTxHandler demo_senv demo_request new_response
      (snd (NewTxHandler demo_senv (\<lambda>_. Inr [[''sleep'']]) 1 demo_request new_response demo_server)))) = 400"
proof (rule demo_submit)
  fix w s k tx
  assume h: "NewTxHandler demo_senv (\<lambda>_. Inr [[''sleep'']]) 1 demo_request new_response demo_server = (w, s)" and reach: "srv_reach demo_senv demo_server s"
    and empty: "ts_txs (srv_TxStore demo_server) = []" and k: "k = ''0001''" and tx: "tx_Lookup (srv_TxStore s) k = Some tx" "tx_pending tx"
  have id: "ByName demo_request ''tid'' = k" unfolding k by code_simp
  obtain w1 s' where c: "CancelTxHandler demo_senv demo_request new_response s = (w1, s')" by fastforce
  from cancel_pending_deletes[OF reach empty tx[folded id] c, of mem_ops demo_codec 2] show ?thesis unfolding h snd_conv c by simp
qed

end
