(* ===== verification/Database_Mysql.thy ===== *)
theory Database_Mysql
  imports Database
begin

text \<open>
  The MySQL database, src/server/db_mysql.go, with the adapter of the migration versions that both databases share,
  src/server/db.go, and \<open>execlist\<close>. Statements outside of a transaction are committed at once. A zero deletion date is
  stored as NULL.
\<close>

section \<open>The item cache\<close>

definition my_Lookup :: "item json \<Rightarrow> db \<Rightarrow> string \<Rightarrow> item option \<times> db" where
  "my_Lookup J d item =
     (case db_query (\<lambda>t. find (\<lambda>r. it_item r = item) (t_items t)) d of
        (Inl e, d1) \<Rightarrow> (None, d1)
      | (Inr None, d1) \<Rightarrow> (None, d1)
      | (Inr (Some r), d1) \<Rightarrow> (case j_dec J (it_value r) of Inl e \<Rightarrow> (None, d1) | Inr x \<Rightarrow> (Some x, d1)))"

definition my_item_row :: "(time \<Rightarrow> time) \<Rightarrow> item json \<Rightarrow> string \<Rightarrow> item \<Rightarrow> item_row" where
  "my_item_row dt J item x = \<lparr>it_item = item, it_created = dt (item_created x), it_modified = dt (item_modified x), it_size = item_size x, it_value = j_enc J x\<rparr>"

text \<open>\<open>INSERT ... ON DUPLICATE KEY UPDATE\<close>; the table has a unique index on the item.\<close>

definition upsert_items :: "item_row \<Rightarrow> tables \<Rightarrow> unit \<times> tables" where
  "upsert_items r t =
     ((), if it_item r \<in> it_item ` set (t_items t) then snd (update_items r t) else snd (insert_items r t))"

section \<open>The index\<close>

definition null_time :: "(time \<Rightarrow> time) \<Rightarrow> time \<Rightarrow> time option" where
  "null_time dt t = (if t = 0 then None else Some (dt t))"

definition my_blob_row :: "(time \<Rightarrow> time) \<Rightarrow> string \<Rightarrow> blob \<Rightarrow> blob_row" where
  "my_blob_row dt item b = \<lparr>bl_item = item, bl_blobid = blob_ID b, bl_size = blob_Size b, bl_bundle = blob_Bundle b,
     bl_created = dt (blob_SaveDate b), bl_creator = blob_Creator b, bl_MD5 = blob_MD5 b, bl_SHA256 = blob_SHA256 b,
     bl_mimetype = blob_MimeType b, bl_deleted = null_time dt (blob_DeleteDate b), bl_deleter = blob_Deleter b, bl_deletenote = blob_DeleteNote b\<rparr>"

definition my_version_row :: "(time \<Rightarrow> time) \<Rightarrow> string \<Rightarrow> version \<Rightarrow> version_row" where
  "my_version_row dt item v =
     \<lparr>vr_item = item, vr_versionid = ver_ID v, vr_created = dt (ver_SaveDate v), vr_creator = ver_Creator v, vr_note = ver_Note v\<rparr>"

definition my_scan_blob :: "int \<Rightarrow> blob_row \<Rightarrow> blob" where
  "my_scan_blob bid r =
     \<lparr>blob_ID = bid, blob_SaveDate = bl_created r, blob_Creator = bl_creator r, blob_Size = bl_size r, blob_Bundle = bl_bundle r,
      blob_MD5 = bl_MD5 r, blob_SHA256 = bl_SHA256 r, blob_MimeType = bl_mimetype r,
      blob_DeleteDate = (case bl_deleted r of None \<Rightarrow> 0 | Some t \<Rightarrow> t), blob_Deleter = bl_deleter r, blob_DeleteNote = bl_deletenote r\<rparr>"

definition my_FindBlob :: "db \<Rightarrow> string \<Rightarrow> int \<Rightarrow> (blob option \<times> error option) \<times> db" where
  "my_FindBlob d item bid =
     (case db_query (select_blob item bid) d of
        (Inl e, d1) \<Rightarrow> ((Some (zero_blob bid), Some e), d1)
      | (Inr None, d1) \<Rightarrow> ((None, None), d1)
      | (Inr (Some r), d1) \<Rightarrow> ((Some (my_scan_blob bid r), None), d1))"

definition my_getMaxBlob :: "db \<Rightarrow> string \<Rightarrow> int result \<times> db" where
  "my_getMaxBlob d item =
     (case db_query (select_maxblob item) d of
        (Inl e, d1) \<Rightarrow> (Inl e, d1)
      | (Inr None, d1) \<Rightarrow> (Inr 0, d1)
      | (Inr (Some n), d1) \<Rightarrow> (Inr n, d1))"

definition my_getMaxVersion :: "db \<Rightarrow> string \<Rightarrow> int result \<times> db" where
  "my_getMaxVersion d item =
     (case db_query (select_maxversion item) d of
        (Inl e, d1) \<Rightarrow> (Inr 0, d1)
      | (Inr None, d1) \<Rightarrow> (Inr 0, d1)
      | (Inr (Some n), d1) \<Rightarrow> (Inr n, d1))"

definition my_find_slot :: "db \<Rightarrow> string \<Rightarrow> int \<Rightarrow> string \<Rightarrow> (blob option \<times> error option) \<times> db" where
  "my_find_slot d item version slot =
     (case db_query (select_slot item version slot) d of
        (Inl e, d1) \<Rightarrow> ((None, None), d1)
      | (Inr None, d1) \<Rightarrow> ((None, None), d1)
      | (Inr (Some bid), d1) \<Rightarrow> if bid = 0 then ((None, None), d1) else my_FindBlob d1 item bid)"

definition my_FindBlobBySlot :: "db \<Rightarrow> string \<Rightarrow> int \<Rightarrow> string \<Rightarrow> (blob option \<times> error option) \<times> db" where
  "my_FindBlobBySlot d item version slot =
     (if version = 0 then
        (case my_getMaxVersion d item of
           (Inl e, d1) \<Rightarrow> ((None, Some e), d1)
         | (Inr v, d1) \<Rightarrow> if v = 0 then ((None, None), d1) else my_find_slot d1 item v slot)
      else my_find_slot d item version slot)"

definition my_IndexItem :: "(time \<Rightarrow> time) \<Rightarrow> db \<Rightarrow> string \<Rightarrow> item \<Rightarrow> unit result \<times> db" where
  "my_IndexItem dt d item x =
     (case my_getMaxBlob d item of
        (Inl e, d1) \<Rightarrow> (Inl e, d1)
      | (Inr maxblob, d1) \<Rightarrow>
          (case my_getMaxVersion d1 item of
             (Inl e, d2) \<Rightarrow> (Inl e, d2)
           | (Inr maxversion, d2) \<Rightarrow> in_tx (index_body (my_blob_row dt) (my_version_row dt) item maxblob maxversion x) d2))"

definition my_Set :: "(time \<Rightarrow> time) \<Rightarrow> item json \<Rightarrow> db \<Rightarrow> string \<Rightarrow> item \<Rightarrow> db" where
  "my_Set dt J d item x =
     (case db_exec (upsert_items (my_item_row dt J item x)) d of
        (Inl e, d1) \<Rightarrow> d1
      | (Inr u, d1) \<Rightarrow> snd (my_IndexItem dt d1 item x))"

section \<open>The list of items\<close>

definition buildItemListQuery :: "int \<Rightarrow> int \<Rightarrow> string \<Rightarrow> string \<times> int list" where
  "buildItemListQuery offset pagesize sortorder =
     (''SELECT item, created, modified, size FROM items '' @ order_by sortorder @ '' LIMIT ? '' @ (if offset > 0 then ''OFFSET ? '' else ''''),
      [pagesize] @ (if offset > 0 then [offset] else []))"

definition my_GetItemList ::
  "(db \<Rightarrow> string \<Rightarrow> int list \<Rightarrow> simple_item option list result) \<Rightarrow> db \<Rightarrow> int \<Rightarrow> int \<Rightarrow> string \<Rightarrow> simple_item list \<times> error option" where
  "my_GetItemList engine d offset pagesize sortorder =
     (let (query, args) = buildItemListQuery offset pagesize sortorder in
      case engine d query args of
        Inl e \<Rightarrow> ([], None)
      | Inr rows \<Rightarrow> (List.map_filter id rows, None))"

definition my_blobdb :: "(time \<Rightarrow> time) \<Rightarrow> (db \<Rightarrow> string \<Rightarrow> int list \<Rightarrow> simple_item option list result) \<Rightarrow> db blobdb" where
  "my_blobdb dt engine = \<lparr>db_FindBlob = my_FindBlob, db_FindBlobBySlot = my_FindBlobBySlot, db_IndexItem = my_IndexItem dt,
     db_GetItemList = my_GetItemList engine\<rparr>"

section \<open>Fixity records\<close>

definition my_NextFixity :: "db \<Rightarrow> time \<Rightarrow> int \<times> db" where
  "my_NextFixity d cutoff =
     (case db_query (select_next cutoff) d of
        (Inl e, d1) \<Rightarrow> (0, d1)
      | (Inr None, d1) \<Rightarrow> (0, d1)
      | (Inr (Some r), d1) \<Rightarrow> (fx_ID r, d1))"

definition my_GetFixity :: "db \<Rightarrow> int \<Rightarrow> fixity_rec option \<times> db" where
  "my_GetFixity d fid =
     (case db_query (\<lambda>t. find (\<lambda>r. fx_ID r = fid) (t_fixity t)) d of
        (Inl e, d1) \<Rightarrow> (None, d1)
      | (Inr r, d1) \<Rightarrow> (r, d1))"

datatype sql_arg = TimeArg time | StringArg string

text \<open>The query and its arguments, built in parallel.\<close>

definition buildQuery :: "time \<Rightarrow> time \<Rightarrow> string \<Rightarrow> string \<Rightarrow> string \<times> sql_arg list" where
  "buildQuery start end' item status =
     (let c0 = '' WHERE '';
          (q1, c1, a1) = (if start \<noteq> 0 then (c0 @ ''scheduled_time >= ?'', '' AND '', [TimeArg start]) else ('''', c0, []));
          (q2, c2, a2) = (if end' \<noteq> 0 then (c1 @ ''scheduled_time <= ?'', '' AND '', [TimeArg end']) else ('''', c1, []));
          (q3, c3, a3) = (if item \<noteq> '''' then (c2 @ ''item = ?'', '' AND '', [StringArg item]) else ('''', c2, []));
          (q4, a4) = (if status \<noteq> '''' then (c3 @ ''status = ?'', [StringArg status]) else ('''', []))
      in (''SELECT id, item, scheduled_time, status, notes FROM fixity'' @ q1 @ q2 @ q3 @ q4 @ '' ORDER BY scheduled_time'', a1 @ a2 @ a3 @ a4))"

definition my_SearchFixity :: "db \<Rightarrow> time \<Rightarrow> time \<Rightarrow> string \<Rightarrow> string \<Rightarrow> fixity_rec list \<times> db" where
  "my_SearchFixity d start end' item status =
     (case db_query (search_rows start end' item status) d of
        (Inl e, d1) \<Rightarrow> ([], d1)
      | (Inr rs, d1) \<Rightarrow> (rs, d1))"

text \<open>\<open>UPDATE ... LIMIT 1\<close> changes at most one row.\<close>

fun update_first :: "fixity_rec \<Rightarrow> fixity_rec list \<Rightarrow> fixity_rec list" where
  "update_first r [] = []"
| "update_first r (r' # rs) = (if fx_ID r' = fx_ID r \<and> scheduled r' then r # rs else r' # update_first r rs)"

definition my_update_fixity :: "fixity_rec \<Rightarrow> tables \<Rightarrow> unit \<times> tables" where
  "my_update_fixity r t = ((), t\<lparr>t_fixity := update_first r (t_fixity t)\<rparr>)"

definition my_fixity_row :: "(time \<Rightarrow> time) \<Rightarrow> fixity_rec \<Rightarrow> fixity_rec" where
  "my_fixity_row dt r = r\<lparr>fx_ScheduledTime := dt (fx_ScheduledTime r)\<rparr>"

definition my_UpdateFixity :: "(time \<Rightarrow> time) \<Rightarrow> db \<Rightarrow> fixity_rec \<Rightarrow> int result \<times> db" where
  "my_UpdateFixity dt d record =
     (let r = my_fixity_row dt (default_status record) in
      if fx_ID r = 0 then db_exec (insert_fixity r) d
      else case db_exec (my_update_fixity r) d of
             (Inl e, d1) \<Rightarrow> (Inl e, d1)
           | (Inr u, d1) \<Rightarrow> (Inr (fx_ID r), d1))"

definition my_DeleteFixity :: "db \<Rightarrow> int \<Rightarrow> error option \<times> db" where
  "my_DeleteFixity d fid = (case db_exec (delete_fixity fid) d of (Inl e, d1) \<Rightarrow> (Some e, d1) | (Inr u, d1) \<Rightarrow> (None, d1))"

definition my_LookupCheck :: "db \<Rightarrow> string \<Rightarrow> time result \<times> db" where
  "my_LookupCheck d item =
     (case db_query (select_check item) d of
        (Inl e, d1) \<Rightarrow> (Inl e, d1)
      | (Inr None, d1) \<Rightarrow> (Inr 0, d1)
      | (Inr (Some r), d1) \<Rightarrow> (Inr (fx_ScheduledTime r), d1))"

section \<open>Migration versions\<close>

text \<open>The transaction of the migration package: \<open>tx_row\<close> runs a query for one row and scans one integer, \<open>tx_exec\<close> a
  statement with its integer arguments.\<close>

record 'd limited_tx =
  tx_row :: "'d \<Rightarrow> string \<Rightarrow> int result"
  tx_exec :: "'d \<Rightarrow> string \<Rightarrow> int list \<Rightarrow> error option \<times> 'd"

record dbVersion =
  GetSQL :: string
  SetSQL :: string
  CreateSQL :: string

definition dbv_get :: "'d limited_tx \<Rightarrow> dbVersion \<Rightarrow> 'd \<Rightarrow> int result" where
  "dbv_get T v d = tx_row T d (GetSQL v)"

definition dbv_Get :: "'d limited_tx \<Rightarrow> dbVersion \<Rightarrow> 'd \<Rightarrow> int" where
  "dbv_Get T v d = (case dbv_get T v d of Inl e \<Rightarrow> 0 | Inr n \<Rightarrow> n)"

definition dbv_set :: "'d limited_tx \<Rightarrow> dbVersion \<Rightarrow> int \<Rightarrow> 'd \<Rightarrow> error option \<times> 'd" where
  "dbv_set T v n d = tx_exec T d (SetSQL v) [n]"

definition dbv_createTable :: "'d limited_tx \<Rightarrow> dbVersion \<Rightarrow> 'd \<Rightarrow> error option \<times> 'd" where
  "dbv_createTable T v d =
     (case tx_exec T d (CreateSQL v) [] of
        (Some e, d1) \<Rightarrow> (Some e, d1)
      | (None, d1) \<Rightarrow> dbv_set T v 0 d1)"

definition dbv_Set :: "'d limited_tx \<Rightarrow> dbVersion \<Rightarrow> int \<Rightarrow> 'd \<Rightarrow> error option \<times> 'd" where
  "dbv_Set T v n d =
     (case dbv_set T v n d of
        (None, d1) \<Rightarrow> (None, d1)
      | (Some e, d1) \<Rightarrow>
          (case dbv_createTable T v d1 of
             (Some e, d2) \<Rightarrow> (Some e, d2)
           | (None, d2) \<Rightarrow> dbv_set T v n d2))"

fun execlist :: "'d limited_tx \<Rightarrow> string list \<Rightarrow> 'd \<Rightarrow> error option \<times> 'd" where
  "execlist T [] d = (None, d)"
| "execlist T (s # ss) d = (case tx_exec T d s [] of (Some e, d1) \<Rightarrow> (Some e, d1) | (None, d1) \<Rightarrow> execlist T ss d1)"

definition qlVersioning :: dbVersion where
  "qlVersioning = \<lparr>GetSQL = ''SELECT max(version) FROM migration_version'', SetSQL = ''INSERT INTO migration_version VALUES (?1, now())'',
     CreateSQL = ''CREATE TABLE migration_version (version int, applied time)''\<rparr>"

definition mysqlVersioning :: dbVersion where
  "mysqlVersioning = \<lparr>GetSQL = ''SELECT max(version) FROM migration_version'',
     SetSQL = ''INSERT INTO migration_version (version, applied) VALUES (?, now())'',
     CreateSQL = ''CREATE TABLE migration_version (version INTEGER, applied datetime)''\<rparr>"

end
