(* ===== verification/Database_Correct.thy ===== *)
theory Database_Correct
  imports Database_Mysql
begin

text \<open>
  The index of blobs, versions and slots. The locale \<open>blob_index\<close> is what a client relies on: an index that reflects an
  item answers like the item. Both databases provide it; the proofs are on the loops that they share.
\<close>

section \<open>Statements and transactions\<close>

lemma db_step_t [simp]: "db_step d = (f, d') \<Longrightarrow> db_t d' = db_t d"
  by (auto simp: db_step_def split: list.splits)

lemma db_step_quiet [simp]: "db_faults d = [] \<Longrightarrow> db_step d = (None, d)"
  by (simp add: db_step_def)

lemma db_query_t: "db_query q d = (r, d') \<Longrightarrow> db_t d' = db_t d \<and> (r = Inr (q (db_t d)) \<or> (\<exists>e. r = Inl e))"
  by (auto simp: db_query_def split: prod.splits option.splits)

lemma db_query_quiet [simp]: "db_faults d = [] \<Longrightarrow> db_query q d = (Inr (q (db_t d)), d)"
  by (simp add: db_query_def)

lemma db_exec_ok: "db_exec f d = (Inr x, d') \<Longrightarrow> db_t d' = snd (f (db_t d)) \<and> x = fst (f (db_t d))"
  by (auto simp: db_exec_def split: prod.splits option.splits)

lemma db_exec_quiet [simp]: "db_faults d = [] \<Longrightarrow> db_exec f d = (Inr (fst (f (db_t d))), d\<lparr>db_t := snd (f (db_t d))\<rparr>)"
  by (simp add: db_exec_def split: prod.splits)

lemma in_tx_error: "in_tx body d = (Inl e, d') \<Longrightarrow> db_t d' = db_t d"
  by (auto simp: in_tx_def split: prod.splits option.splits sum.splits)

lemma in_tx_ok:
  assumes "in_tx body d = (Inr x, d')"
  obtains d1 d2 where "db_t d1 = db_t d" and "body d1 = (Inr x, d2)" and "db_t d' = db_t d2"
proof -
  obtain d1 d2 where "db_step d = (None, d1)" "body d1 = (Inr x, d2)" "db_step d2 = (None, d')"
    using assms by (auto simp: in_tx_def split: prod.splits option.splits sum.splits)
  then show thesis using that db_step_t by metis
qed

lemma in_tx_quiet: "db_faults d = [] \<Longrightarrow> body d = (Inr x, d') \<Longrightarrow> db_faults d' = [] \<Longrightarrow> in_tx body d = (Inr x, d')"
  by (simp add: in_tx_def)

lemma max_opt_None [simp]: "max_opt ns = None \<longleftrightarrow> ns = []"
  by (cases ns) (auto split: option.splits)

lemma max_opt_Some: "max_opt ns = Some m \<Longrightarrow> m \<in> set ns \<and> (\<forall>n \<in> set ns. n \<le> m)"
proof (induction ns arbitrary: m)
  case (Cons n ns)
  show ?case
  proof (cases "max_opt ns")
    case (Some k)
    with Cons.IH[OF Some] Cons.prems show ?thesis by (auto simp: max_def)
  qed (use Cons.prems in auto)
qed simp

section \<open>Items that grow\<close>

text \<open>Blobs and versions of an item are numbered from 1.\<close>

definition numbered :: "item \<Rightarrow> bool" where
  "numbered x = ((\<forall>i < length (item_Blobs x). blob_ID (item_Blobs x ! i) = int i + 1) \<and>
     (\<forall>i < length (item_Versions x). ver_ID (item_Versions x ! i) = int i + 1 \<and> gmap_ok (ver_Slots (item_Versions x ! i))))"

text \<open>What never changes of a blob once it is stored.\<close>

definition blob_fixed :: "blob \<Rightarrow> int \<times> time \<times> string \<times> int \<times> bytes \<times> bytes" where
  "blob_fixed b = (blob_ID b, blob_SaveDate b, blob_Creator b, blob_Size b, blob_MD5 b, blob_SHA256 b)"

definition grows :: "item \<Rightarrow> item \<Rightarrow> bool" where
  "grows a x = (numbered a \<and> numbered x \<and> length (item_Blobs a) \<le> length (item_Blobs x) \<and>
     (\<forall>i < length (item_Blobs a). blob_fixed (item_Blobs a ! i) = blob_fixed (item_Blobs x ! i)) \<and>
     length (item_Versions a) \<le> length (item_Versions x) \<and> item_Versions a = take (length (item_Versions a)) (item_Versions x))"

definition no_item :: "string \<Rightarrow> item" where
  "no_item iid = \<lparr>item_ID = iid, item_MaxBundle = 0, item_Blobs = [], item_Versions = []\<rparr>"

lemma numbered_blob:
  assumes "numbered x" and "b \<in> set (item_Blobs x)"
  shows "1 \<le> blob_ID b \<and> blob_ID b \<le> int (length (item_Blobs x)) \<and> item_Blobs x ! nat (blob_ID b - 1) = b"
proof -
  obtain i where "i < length (item_Blobs x)" "item_Blobs x ! i = b" using assms(2) by (auto simp: in_set_conv_nth)
  with assms(1) show ?thesis by (auto simp: numbered_def)
qed

lemma numbered_blob_eq: "numbered x \<Longrightarrow> b \<in> set (item_Blobs x) \<Longrightarrow> b' \<in> set (item_Blobs x) \<Longrightarrow> blob_ID b = blob_ID b' \<Longrightarrow> b = b'"
  using numbered_blob by metis

lemma numbered_version:
  assumes "numbered x" and "v \<in> set (item_Versions x)"
  shows "1 \<le> ver_ID v \<and> ver_ID v \<le> int (length (item_Versions x)) \<and> item_Versions x ! nat (ver_ID v - 1) = v \<and> gmap_ok (ver_Slots v)"
proof -
  obtain i where "i < length (item_Versions x)" "item_Versions x ! i = v" using assms(2) by (auto simp: in_set_conv_nth)
  with assms(1) show ?thesis by (auto simp: numbered_def)
qed

lemma numbered_version_eq: "numbered x \<Longrightarrow> v \<in> set (item_Versions x) \<Longrightarrow> v' \<in> set (item_Versions x) \<Longrightarrow> ver_ID v = ver_ID v' \<Longrightarrow> v = v'"
  using numbered_version by metis

lemma grows_blob:
  assumes "grows a x" and "b \<in> set (item_Blobs a)"
  shows "\<exists>b' \<in> set (item_Blobs x). blob_fixed b' = blob_fixed b"
proof -
  obtain i where "i < length (item_Blobs a)" "item_Blobs a ! i = b" using assms(2) by (auto simp: in_set_conv_nth)
  with assms(1) have "i < length (item_Blobs x)" "blob_fixed (item_Blobs x ! i) = blob_fixed b" by (auto simp: grows_def)
  then show ?thesis using nth_mem by blast
qed

lemma grows_old_blob:
  assumes "grows a x" and "b \<in> set (item_Blobs x)" and "blob_ID b \<le> int (length (item_Blobs a))"
  shows "\<exists>b' \<in> set (item_Blobs a). blob_fixed b' = blob_fixed b"
proof -
  have x: "numbered x" using assms(1) by (simp add: grows_def)
  note N = numbered_blob[OF x assms(2)]
  let ?i = "nat (blob_ID b - 1)"
  have "?i < length (item_Blobs a)" using N assms(3) by linarith
  with assms(1) N show ?thesis by (metis grows_def nth_mem)
qed

lemma blob_fixed_ID: "blob_fixed b = blob_fixed b' \<Longrightarrow> blob_ID b = blob_ID b'"
  by (simp add: blob_fixed_def)

section \<open>An index that reflects an item\<close>

definition slot_rows :: "string \<Rightarrow> version \<Rightarrow> slot_row list" where
  "slot_rows item v = map (\<lambda>p. \<lparr>sl_item = item, sl_versionid = ver_ID v, sl_blobid = snd p, sl_name = fst p\<rparr>) (ver_Slots v)"

definition reflects :: "(string \<Rightarrow> blob \<Rightarrow> blob_row) \<Rightarrow> tables \<Rightarrow> string \<Rightarrow> item \<Rightarrow> bool" where
  "reflects mk t item x = (numbered x \<and>
     {r \<in> set (t_blobs t). bl_item r = item} = mk item ` set (item_Blobs x) \<and>
     vr_versionid ` {r \<in> set (t_versions t). vr_item r = item} = ver_ID ` set (item_Versions x) \<and>
     {r \<in> set (t_slots t). sl_item r = item} = (\<Union>v \<in> set (item_Versions x). set (slot_rows item v)))"

text \<open>How a database makes its rows: the key is kept, and updating a row with a later state of the blob gives the row of that state.\<close>

definition rows_ok :: "(string \<Rightarrow> blob \<Rightarrow> blob_row) \<Rightarrow> (string \<Rightarrow> version \<Rightarrow> version_row) \<Rightarrow> bool" where
  "rows_ok mk mkv = ((\<forall>i b. bl_item (mk i b) = i \<and> bl_blobid (mk i b) = blob_ID b) \<and> (\<forall>i v. vr_item (mkv i v) = i \<and> vr_versionid (mkv i v) = ver_ID v) \<and>
     (\<forall>i b b'. blob_fixed b' = blob_fixed b \<longrightarrow> set_blob_row (mk i b') (mk i b) = mk i b'))"

lemma ql_rows_ok: "rows_ok ql_blob_row ql_version_row"
  by (auto simp: rows_ok_def ql_blob_row_def ql_version_row_def set_blob_row_def blob_fixed_def)

lemma my_rows_ok: "rows_ok (my_blob_row dt) (my_version_row dt)"
  by (auto simp: rows_ok_def my_blob_row_def my_version_row_def set_blob_row_def blob_fixed_def)

lemma set_blob_row_other: "\<not> (bl_item r' = bl_item r \<and> bl_blobid r' = bl_blobid r) \<Longrightarrow> set_blob_row r r' = r'"
  by (auto simp: set_blob_row_def)

lemma set_blob_row_key [simp]: "bl_item (set_blob_row r r') = bl_item r'" "bl_blobid (set_blob_row r r') = bl_blobid r'"
  by (simp_all add: set_blob_row_def)

text \<open>The tables after the loops.\<close>

definition blobs_after :: "(string \<Rightarrow> blob \<Rightarrow> blob_row) \<Rightarrow> string \<Rightarrow> int \<Rightarrow> blob list \<Rightarrow> blob_row list \<Rightarrow> blob_row list" where
  "blobs_after mk item m bs rows = fold (\<lambda>b rows. if blob_ID b > m then rows @ [mk item b] else map (set_blob_row (mk item b)) rows) bs rows"

lemma index_blobs_ok:
  "index_blobs mk item m bs d = (Inr u, d') \<Longrightarrow> db_t d' = (db_t d)\<lparr>t_blobs := blobs_after mk item m bs (t_blobs (db_t d))\<rparr>"
proof (induction bs arbitrary: d)
  case (Cons b bs)
  obtain d1 where e: "db_exec (if blob_ID b > m then insert_blob (mk item b) else update_blob (mk item b)) d = (Inr (), d1)"
    and r: "index_blobs mk item m bs d1 = (Inr u, d')"
    using Cons.prems by (auto split: prod.splits sum.splits)
  from db_exec_ok[OF e] Cons.IH[OF r] show ?case
    by (auto simp: blobs_after_def insert_blob_def update_blob_def split: if_splits)
qed (simp add: blobs_after_def)

lemma index_slots_ok:
  "index_slots item vid ps d = (Inr u, d') \<Longrightarrow>
     db_t d' = (db_t d)\<lparr>t_slots := t_slots (db_t d) @ map (\<lambda>p. \<lparr>sl_item = item, sl_versionid = vid, sl_blobid = snd p, sl_name = fst p\<rparr>) ps\<rparr>"
proof (induction ps arbitrary: d)
  case (Cons p ps)
  obtain d1 where e: "db_exec (insert_slot item vid p) d = (Inr (), d1)" and r: "index_slots item vid ps d1 = (Inr u, d')"
    using Cons.prems by (auto split: prod.splits sum.splits)
  from db_exec_ok[OF e] Cons.IH[OF r] show ?case by (auto simp: insert_slot_def)
qed simp

lemma index_versions_ok:
  "index_versions mkv item m vs d = (Inr u, d') \<Longrightarrow>
     db_t d' = (db_t d)\<lparr>t_versions := t_versions (db_t d) @ map (mkv item) (filter (\<lambda>v. ver_ID v > m) vs),
       t_slots := t_slots (db_t d) @ concat (map (slot_rows item) (filter (\<lambda>v. ver_ID v > m) vs))\<rparr>"
proof (induction vs arbitrary: d)
  case (Cons v vs)
  show ?case
  proof (cases "ver_ID v \<le> m")
    case False
    then obtain d1 d2 where e: "db_exec (insert_version (mkv item v)) d = (Inr (), d1)" and s: "index_slots item (ver_ID v) (ver_Slots v) d1 = (Inr (), d2)"
      and r: "index_versions mkv item m vs d2 = (Inr u, d')"
      using Cons.prems by (auto split: prod.splits sum.splits)
    from db_exec_ok[OF e] index_slots_ok[OF s] Cons.IH[OF r] False show ?thesis by (auto simp: insert_version_def slot_rows_def)
  qed (use Cons in simp)
qed simp

lemma index_blobs_quiet: "db_faults d = [] \<Longrightarrow> \<exists>d'. index_blobs mk item m bs d = (Inr (), d') \<and> db_faults d' = []"
  by (induction bs arbitrary: d) auto

lemma index_slots_quiet: "db_faults d = [] \<Longrightarrow> \<exists>d'. index_slots item vid ps d = (Inr (), d') \<and> db_faults d' = []"
  by (induction ps arbitrary: d) auto

lemma index_versions_quiet: "db_faults d = [] \<Longrightarrow> \<exists>d'. index_versions mkv item m vs d = (Inr (), d') \<and> db_faults d' = []"
proof (induction vs arbitrary: d)
  case (Cons v vs)
  let ?d1 = "d\<lparr>db_t := snd (insert_version (mkv item v) (db_t d))\<rparr>"
  have "db_faults ?d1 = []" using Cons.prems by simp
  with index_slots_quiet obtain d2 where "index_slots item (ver_ID v) (ver_Slots v) ?d1 = (Inr (), d2)" "db_faults d2 = []" by blast
  with Cons show ?case by simp
qed simp

lemma index_body_quiet: "db_faults d = [] \<Longrightarrow> \<exists>d'. index_body mk mkv item mb mv x d = (Inr (), d') \<and> db_faults d' = []"
  using index_blobs_quiet[of d mk item mb "item_Blobs x"] index_versions_quiet by (fastforce simp: index_body_def)

section \<open>Updating and inserting blobs\<close>

lemma fold_update_row:
  assumes "rows_ok mk mkv" and "\<forall>b' \<in> set bs. blob_ID b' = blob_ID b \<longrightarrow> blob_fixed b' = blob_fixed b"
  shows "(\<exists>b' \<in> set bs. blob_ID b' = blob_ID b \<and> fold (\<lambda>b r. set_blob_row (mk item b) r) bs (mk item b) = mk item b') \<or>
     (fold (\<lambda>b r. set_blob_row (mk item b) r) bs (mk item b) = mk item b \<and> (\<forall>b' \<in> set bs. blob_ID b' \<noteq> blob_ID b))"
  using assms(2)
proof (induction bs arbitrary: b)
  case (Cons b' bs)
  note R = assms(1)[unfolded rows_ok_def]
  show ?case
  proof (cases "blob_ID b' = blob_ID b")
    case True
    then have fx: "blob_fixed b' = blob_fixed b" using Cons.prems by simp
    then have "set_blob_row (mk item b') (mk item b) = mk item b'" using R by blast
    moreover have "\<forall>b'' \<in> set bs. blob_ID b'' = blob_ID b' \<longrightarrow> blob_fixed b'' = blob_fixed b'" using Cons.prems fx True by simp
    ultimately show ?thesis using Cons.IH[of b'] True by auto
  next
    case False
    then have "set_blob_row (mk item b') (mk item b) = mk item b" using R by (intro set_blob_row_other) simp
    with Cons False show ?thesis by auto
  qed
qed simp

text \<open>Updates act on every row by itself.\<close>

lemma blobs_after_old:
  "\<forall>b \<in> set bs. blob_ID b \<le> m \<Longrightarrow> blobs_after mk item m bs rows = map (fold (\<lambda>b r. set_blob_row (mk item b) r) bs) rows"
  by (induction bs arbitrary: rows) (auto simp: blobs_after_def)

lemma blobs_after_new: "\<forall>b \<in> set bs. m < blob_ID b \<Longrightarrow> blobs_after mk item m bs rows = rows @ map (mk item) bs"
  by (induction bs arbitrary: rows) (auto simp: blobs_after_def)

lemma blobs_after_append: "blobs_after mk item m (bs @ bs') rows = blobs_after mk item m bs' (blobs_after mk item m bs rows)"
  by (simp add: blobs_after_def)

lemma fold_update_other:
  assumes "rows_ok mk mkv" and "bl_item r \<noteq> item"
  shows "fold (\<lambda>b r. set_blob_row (mk item b) r) bs r = r"
proof (induction bs)
  case (Cons b bs)
  have "set_blob_row (mk item b) r = r" using assms by (intro set_blob_row_other) (simp add: rows_ok_def)
  with Cons show ?case by simp
qed simp

lemma fold_update_item: "bl_item (fold (\<lambda>b r. set_blob_row (mk item b) r) bs r) = bl_item r"
  by (induction bs arbitrary: r) simp_all

lemma blobs_after_split:
  assumes "numbered x" and "m \<le> length (item_Blobs x)"
  shows "blobs_after mk item (int m) (item_Blobs x) rows =
     map (fold (\<lambda>b r. set_blob_row (mk item b) r) (take m (item_Blobs x))) rows @ map (mk item) (drop m (item_Blobs x))"
proof -
  have old: "\<forall>b \<in> set (take m (item_Blobs x)). blob_ID b \<le> int m"
    using assms by (auto simp: in_set_conv_nth numbered_def)
  have new: "\<forall>b \<in> set (drop m (item_Blobs x)). int m < blob_ID b"
    using assms by (auto simp: in_set_conv_nth numbered_def)
  show ?thesis
    using blobs_after_append[of mk item "int m" "take m (item_Blobs x)" "drop m (item_Blobs x)"] blobs_after_old[OF old] blobs_after_new[OF new] by simp
qed

lemma image_filter_inv: "\<forall>r. g (f r) = g r \<Longrightarrow> {r \<in> f ` A. g r = c} = f ` {r \<in> A. g r = c}"
  by auto

lemma blobs_after_rows:
  assumes ok: "rows_ok mk mkv" and g: "grows a x" and rows: "{r \<in> set rows. bl_item r = item} = mk item ` set (item_Blobs a)"
  shows "{r \<in> set (blobs_after mk item (int (length (item_Blobs a))) (item_Blobs x) rows). bl_item r = item} = mk item ` set (item_Blobs x)"
proof -
  let ?m = "length (item_Blobs a)" and ?f = "fold (\<lambda>b r. set_blob_row (mk item b) r) (take (length (item_Blobs a)) (item_Blobs x))"
  have x: "numbered x" "?m \<le> length (item_Blobs x)" and a: "numbered a" using g by (simp_all add: grows_def)
  have upd: "\<exists>b' \<in> set (take ?m (item_Blobs x)). blob_ID b' = blob_ID b \<and> ?f (mk item b) = mk item b'" if b: "b \<in> set (item_Blobs a)" for b
  proof -
    have same: "\<forall>b' \<in> set (take ?m (item_Blobs x)). blob_ID b' = blob_ID b \<longrightarrow> blob_fixed b' = blob_fixed b"
      using grows_blob[OF g b] numbered_blob_eq[OF x(1)] blob_fixed_ID set_take_subset by (metis subsetD)
    obtain i where i: "i < ?m" "item_Blobs a ! i = b" using b by (auto simp: in_set_conv_nth)
    then have "blob_ID (take ?m (item_Blobs x) ! i) = blob_ID b" "i < length (take ?m (item_Blobs x))" using x a by (auto simp: numbered_def)
    then have "\<exists>b' \<in> set (take ?m (item_Blobs x)). blob_ID b' = blob_ID b" using nth_mem by blast
    with fold_update_row[OF ok same, of item] show ?thesis by blast
  qed
  have from_old: "\<exists>b \<in> set (item_Blobs a). blob_ID b' = blob_ID b" if "b' \<in> set (take ?m (item_Blobs x))" for b'
  proof -
    obtain i where "i < ?m" "item_Blobs x ! i = b'" using \<open>b' \<in> _\<close> by (auto simp: in_set_conv_nth)
    then have "blob_ID (item_Blobs a ! i) = blob_ID b'" "item_Blobs a ! i \<in> set (item_Blobs a)" using x a by (auto simp: numbered_def)
    then show ?thesis by metis
  qed
  have "?f ` (mk item ` set (item_Blobs a)) = mk item ` set (take ?m (item_Blobs x))"
  proof (intro equalityI subsetI)
    fix r assume "r \<in> ?f ` (mk item ` set (item_Blobs a))"
    then show "r \<in> mk item ` set (take ?m (item_Blobs x))" using upd by auto
  next
    fix r assume "r \<in> mk item ` set (take ?m (item_Blobs x))"
    then obtain b' where b': "b' \<in> set (take ?m (item_Blobs x))" "r = mk item b'" by blast
    with from_old obtain b where b: "b \<in> set (item_Blobs a)" "blob_ID b' = blob_ID b" by blast
    with upd obtain b2 where b2: "b2 \<in> set (take ?m (item_Blobs x))" "blob_ID b2 = blob_ID b" "?f (mk item b) = mk item b2" by blast
    have "b2 = b'" using numbered_blob_eq[OF x(1)] b2 b' b by (metis in_set_takeD)
    with b2 b b' show "r \<in> ?f ` (mk item ` set (item_Blobs a))" by (metis imageI)
  qed
  moreover have "{r \<in> set (map ?f rows). bl_item r = item} = ?f ` {r \<in> set rows. bl_item r = item}"
  proof -
    have "\<forall>r. bl_item (?f r) = bl_item r" by (simp add: fold_update_item)
    then show ?thesis unfolding set_map by (rule image_filter_inv)
  qed
  moreover have "{r \<in> mk item ` set (drop ?m (item_Blobs x)). bl_item r = item} = mk item ` set (drop ?m (item_Blobs x))"
    using ok by (auto simp: rows_ok_def)
  moreover have "{r \<in> set (map ?f rows @ map (mk item) (drop ?m (item_Blobs x))). bl_item r = item}
      = {r \<in> set (map ?f rows). bl_item r = item} \<union> {r \<in> mk item ` set (drop ?m (item_Blobs x)). bl_item r = item}" by auto
  ultimately have "{r \<in> set (map ?f rows @ map (mk item) (drop ?m (item_Blobs x))). bl_item r = item}
      = mk item ` set (take ?m (item_Blobs x)) \<union> mk item ` set (drop ?m (item_Blobs x))" using rows by simp
  also have "\<dots> = mk item ` set (item_Blobs x)" by (metis append_take_drop_id image_Un set_append)
  finally show ?thesis unfolding blobs_after_split[OF x] .
qed

lemma blobs_after_other:
  assumes ok: "rows_ok mk mkv" and x: "numbered x" "m \<le> length (item_Blobs x)" and "j \<noteq> item"
  shows "{r \<in> set (blobs_after mk item (int m) (item_Blobs x) rows). bl_item r = j} = {r \<in> set rows. bl_item r = j}"
proof -
  have "bl_item (mk item b) \<noteq> j" for b using ok assms(4) by (simp add: rows_ok_def)
  moreover have "fold (\<lambda>b r. set_blob_row (mk item b) r) bs r = r" if "bl_item r = j" for bs r using fold_update_other[OF ok] that assms(4) by blast
  ultimately have "{r \<in> set (map (fold (\<lambda>b r. set_blob_row (mk item b) r) bs) rows). bl_item r = j} = {r \<in> set rows. bl_item r = j}"
      "{r \<in> set (map (mk item) bs). bl_item r = j} = {}" for bs
    by (auto simp: fold_update_item image_iff) metis+
  then show ?thesis unfolding blobs_after_split[OF x] set_append by blast
qed

section \<open>Indexing and looking up\<close>

lemma reflects_maxblob:
  assumes "reflects mk t item x" and "rows_ok mk mkv"
  shows "(case select_maxblob item t of None \<Rightarrow> 0 | Some n \<Rightarrow> n) = int (length (item_Blobs x))"
proof -
  have n: "numbered x" using assms(1) by (simp add: reflects_def)
  have "set (map bl_blobid (filter (\<lambda>r. bl_item r = item) (t_blobs t))) = bl_blobid ` {r \<in> set (t_blobs t). bl_item r = item}" by auto
  also have "\<dots> = blob_ID ` set (item_Blobs x)" using assms by (auto simp: reflects_def rows_ok_def image_iff)
  finally have ids: "set (map bl_blobid (filter (\<lambda>r. bl_item r = item) (t_blobs t))) = blob_ID ` set (item_Blobs x)" .
  show ?thesis
  proof (cases "select_maxblob item t")
    case None
    then have "item_Blobs x = []" using ids by (simp add: select_maxblob_def)
    with None show ?thesis by simp
  next
    case (Some m)
    note M = max_opt_Some[OF Some[unfolded select_maxblob_def], unfolded ids]
    then have ne: "item_Blobs x \<noteq> []" by auto
    have "blob_ID (last (item_Blobs x)) = int (length (item_Blobs x))" using n ne by (simp add: numbered_def last_conv_nth of_nat_diff Suc_leI)
    then have "int (length (item_Blobs x)) \<le> m" using M ne by (metis imageI last_in_set)
    with M numbered_blob[OF n] Some show ?thesis by fastforce
  qed
qed

lemma reflects_maxversion:
  assumes "reflects mk t item x"
  shows "(case select_maxversion item t of None \<Rightarrow> 0 | Some n \<Rightarrow> n) = int (length (item_Versions x))"
proof -
  have n: "numbered x" using assms(1) by (simp add: reflects_def)
  have "set (map vr_versionid (filter (\<lambda>r. vr_item r = item) (t_versions t))) = vr_versionid ` {r \<in> set (t_versions t). vr_item r = item}" by auto
  also have "\<dots> = ver_ID ` set (item_Versions x)" using assms by (simp add: reflects_def)
  finally have ids: "set (map vr_versionid (filter (\<lambda>r. vr_item r = item) (t_versions t))) = ver_ID ` set (item_Versions x)" .
  show ?thesis
  proof (cases "select_maxversion item t")
    case None
    then have "item_Versions x = []" using ids by (simp add: select_maxversion_def)
    with None show ?thesis by simp
  next
    case (Some m)
    note M = max_opt_Some[OF Some[unfolded select_maxversion_def], unfolded ids]
    then have ne: "item_Versions x \<noteq> []" by auto
    have "ver_ID (last (item_Versions x)) = int (length (item_Versions x))" using n ne by (simp add: numbered_def last_conv_nth of_nat_diff Suc_leI)
    then have "int (length (item_Versions x)) \<le> m" using M ne by (metis imageI last_in_set)
    with M numbered_version[OF n] Some show ?thesis by fastforce
  qed
qed

text \<open>Versions that are in the tables already may be inserted again: the contents, as a set, are the same.\<close>

lemma index_body_reflects:
  assumes ok: "rows_ok mk mkv" and r: "reflects mk (db_t d) item a" and g: "grows a x" and mv: "mv \<le> int (length (item_Versions a))"
    and b: "index_body mk mkv item (int (length (item_Blobs a))) mv x d = (Inr u, d')"
  shows "reflects mk (db_t d') item x"
proof -
  obtain d1 where b1: "index_blobs mk item (int (length (item_Blobs a))) (item_Blobs x) d = (Inr (), d1)"
    and b2: "index_versions mkv item mv (item_Versions x) d1 = (Inr u, d')"
    using b by (auto simp: index_body_def split: prod.splits sum.splits)
  let ?new = "filter (\<lambda>v. ver_ID v > mv) (item_Versions x)"
  have t: "t_blobs (db_t d') = blobs_after mk item (int (length (item_Blobs a))) (item_Blobs x) (t_blobs (db_t d))"
      "t_versions (db_t d') = t_versions (db_t d) @ map (mkv item) ?new" "t_slots (db_t d') = t_slots (db_t d) @ concat (map (slot_rows item) ?new)"
    using index_blobs_ok[OF b1] index_versions_ok[OF b2] by simp_all
  have x: "numbered x" and va: "item_Versions a = take (length (item_Versions a)) (item_Versions x)" using g by (simp_all add: grows_def)
  have all: "set (item_Versions a) \<union> set ?new = set (item_Versions x)"
  proof (intro equalityI subsetI)
    fix v assume v: "v \<in> set (item_Versions x)"
    show "v \<in> set (item_Versions a) \<union> set ?new"
    proof (cases "ver_ID v > mv")
      case False
      note N = numbered_version[OF x v]
      then have "nat (ver_ID v - 1) < length (item_Versions a)" using False mv by linarith
      then have "item_Versions a ! nat (ver_ID v - 1) = v" using N va by (metis nth_take)
      with \<open>nat (ver_ID v - 1) < length (item_Versions a)\<close> show ?thesis by (metis UnI1 nth_mem)
    qed (use v in simp)
  qed (use va in \<open>auto dest: in_set_takeD\<close>, metis in_set_takeD)
  have mk: "\<forall>v. vr_item (mkv item v) = item \<and> vr_versionid (mkv item v) = ver_ID v" using ok by (simp add: rows_ok_def)
  have "{r \<in> set (t_versions (db_t d')). vr_item r = item} = {r \<in> set (t_versions (db_t d)). vr_item r = item} \<union> mkv item ` set ?new"
    unfolding t using mk by auto
  then have vs: "vr_versionid ` {r \<in> set (t_versions (db_t d')). vr_item r = item} = ver_ID ` set (item_Versions x)"
    using r mk unfolding all[symmetric] reflects_def by (simp add: image_Un image_image)
  have "{r \<in> set (t_slots (db_t d')). sl_item r = item} = {r \<in> set (t_slots (db_t d)). sl_item r = item} \<union> (\<Union>v \<in> set ?new. set (slot_rows item v))"
    unfolding t by (auto simp: slot_rows_def)
  then have sl: "{r \<in> set (t_slots (db_t d')). sl_item r = item} = (\<Union>v \<in> set (item_Versions x). set (slot_rows item v))"
    using r unfolding all[symmetric] reflects_def by simp
  have "{r \<in> set (t_blobs (db_t d)). bl_item r = item} = mk item ` set (item_Blobs a)" using r by (simp add: reflects_def)
  from blobs_after_rows[OF ok g this] vs sl x show ?thesis unfolding reflects_def t(1) by blast
qed

lemma index_body_other:
  assumes ok: "rows_ok mk mkv" and x: "numbered x" "mb \<le> length (item_Blobs x)" and j: "j \<noteq> item"
    and b: "index_body mk mkv item (int mb) mv x d = (Inr u, d')" and r: "reflects mk (db_t d) j y"
  shows "reflects mk (db_t d') j y"
proof -
  obtain d1 where b1: "index_blobs mk item (int mb) (item_Blobs x) d = (Inr (), d1)" and b2: "index_versions mkv item mv (item_Versions x) d1 = (Inr u, d')"
    using b by (auto simp: index_body_def split: prod.splits sum.splits)
  let ?new = "filter (\<lambda>v. ver_ID v > mv) (item_Versions x)"
  have t: "t_blobs (db_t d') = blobs_after mk item (int mb) (item_Blobs x) (t_blobs (db_t d))"
      "t_versions (db_t d') = t_versions (db_t d) @ map (mkv item) ?new" "t_slots (db_t d') = t_slots (db_t d) @ concat (map (slot_rows item) ?new)"
    using index_blobs_ok[OF b1] index_versions_ok[OF b2] by simp_all
  have "{r \<in> set (t_versions (db_t d')). vr_item r = j} = {r \<in> set (t_versions (db_t d)). vr_item r = j}"
    unfolding t using ok j by (auto simp: rows_ok_def)
  moreover have "{r \<in> set (t_slots (db_t d')). sl_item r = j} = {r \<in> set (t_slots (db_t d)). sl_item r = j}"
    unfolding t using j by (auto simp: slot_rows_def)
  ultimately show ?thesis using r blobs_after_other[OF ok x j] unfolding reflects_def t(1) by simp
qed

lemma find_unique:
  assumes "\<And>r. r \<in> set rows \<Longrightarrow> P r \<Longrightarrow> f r = c"
  shows "map_option f (find P rows) = (if \<exists>r \<in> set rows. P r then Some c else None)"
proof (cases "find P rows")
  case None
  then show ?thesis by (auto simp: find_None_iff)
next
  case (Some r)
  then have "r \<in> set rows" "P r" by (auto simp: find_Some_iff)
  with Some assms show ?thesis by auto
qed

lemma blobByID_numbered:
  assumes "numbered x"
  shows "blobByID x bid = Some b \<longleftrightarrow> b \<in> set (item_Blobs x) \<and> blob_ID b = bid"
proof
  assume "blobByID x bid = Some b"
  then show "b \<in> set (item_Blobs x) \<and> blob_ID b = bid" by (auto simp: blobByID_def find_Some_iff)
next
  assume b: "b \<in> set (item_Blobs x) \<and> blob_ID b = bid"
  then obtain b' where f: "blobByID x bid = Some b'" unfolding blobByID_def by (cases "find (\<lambda>b. blob_ID b = bid) (item_Blobs x)") (auto simp: find_None_iff)
  then have "b' \<in> set (item_Blobs x)" "blob_ID b' = bid" by (auto simp: blobByID_def find_Some_iff)
  with b f numbered_blob_eq[OF assms] show "blobByID x bid = Some b" by auto
qed

lemma reflects_blob:
  assumes "reflects mk t item x" and ok: "rows_ok mk mkv"
  shows "select_blob item bid t = map_option (mk item) (blobByID x bid)"
proof -
  have n: "numbered x" and rows: "{r \<in> set (t_blobs t). bl_item r = item} = mk item ` set (item_Blobs x)" using assms by (simp_all add: reflects_def)
  have key: "bl_blobid (mk item b) = blob_ID b" for b using ok by (simp add: rows_ok_def)
  have row: "r \<in> set (t_blobs t) \<and> bl_item r = item \<longleftrightarrow> r \<in> mk item ` set (item_Blobs x)" for r using rows by blast
  show ?thesis
  proof (cases "blobByID x bid")
    case None
    then have "\<forall>b \<in> set (item_Blobs x). blob_ID b \<noteq> bid" by (simp add: blobByID_def find_None_iff)
    then have "\<not> (\<exists>r. r \<in> set (t_blobs t) \<and> bl_item r = item \<and> bl_blobid r = bid)" using row key by (metis imageE)
    with None show ?thesis by (auto simp: select_blob_def find_None_iff)
  next
    case (Some b)
    then have b: "b \<in> set (item_Blobs x)" "blob_ID b = bid" using blobByID_numbered[OF n] by blast+
    then have "\<exists>r \<in> set (t_blobs t). bl_item r = item \<and> bl_blobid r = bid" using row key by (metis imageI)
    moreover have "r = mk item b" if "r \<in> set (t_blobs t)" "bl_item r = item \<and> bl_blobid r = bid" for r
      using that row[of r] key b numbered_blob_eq[OF n] by (metis imageE)
    ultimately show ?thesis using find_unique[of "t_blobs t" "\<lambda>r. bl_item r = item \<and> bl_blobid r = bid" id "mk item b"] Some by (simp add: select_blob_def)
  qed
qed

lemma slot_rowsD:
  "r \<in> set (slot_rows item v) \<Longrightarrow> sl_item r = item \<and> sl_versionid r = ver_ID v \<and> (sl_name r, sl_blobid r) \<in> set (ver_Slots v)"
  by (auto simp: slot_rows_def)

lemma reflects_slot:
  assumes "reflects mk t item x"
  shows "select_slot item vid slot t = (case find (\<lambda>v. ver_ID v = vid) (item_Versions x) of None \<Rightarrow> None | Some v \<Rightarrow> gget (ver_Slots v) slot)"
proof -
  have n: "numbered x" and rows: "{r \<in> set (t_slots t). sl_item r = item} = (\<Union>v \<in> set (item_Versions x). set (slot_rows item v))"
    using assms by (simp_all add: reflects_def)
  let ?P = "\<lambda>r. sl_item r = item \<and> sl_versionid r = vid \<and> sl_name r = slot"
  have P: "r \<in> set (t_slots t) \<and> ?P r \<longleftrightarrow> r \<in> (\<Union>v \<in> set (item_Versions x). set (slot_rows item v)) \<and> ?P r" for r using rows by auto
  have sel: "select_slot item vid slot t = (if \<exists>r \<in> set (t_slots t). ?P r then Some c else None)" if "\<And>r. r \<in> set (t_slots t) \<Longrightarrow> ?P r \<Longrightarrow> sl_blobid r = c" for c
    unfolding select_slot_def by (rule find_unique[OF that])
  have none: "select_slot item vid slot t = None" if "\<not> (\<exists>r. r \<in> set (t_slots t) \<and> ?P r)"
    using that by (auto simp: select_slot_def find_None_iff)
  show ?thesis
  proof (cases "find (\<lambda>v. ver_ID v = vid) (item_Versions x)")
    case None
    then have "\<forall>v \<in> set (item_Versions x). ver_ID v \<noteq> vid" by (simp add: find_None_iff)
    then have "\<not> (\<exists>r. r \<in> set (t_slots t) \<and> ?P r)" unfolding P using slot_rowsD by (metis UN_E)
    with None none show ?thesis by simp
  next
    case (Some v)
    then have v: "v \<in> set (item_Versions x)" "ver_ID v = vid" by (auto simp: find_Some_iff)
    have row: "(slot, sl_blobid r) \<in> set (ver_Slots v)" if "r \<in> set (t_slots t)" "?P r" for r
    proof -
      have "r \<in> (\<Union>v \<in> set (item_Versions x). set (slot_rows item v))" using that P[of r] by (metis (no_types, lifting))
      then obtain v' where v': "v' \<in> set (item_Versions x)" "r \<in> set (slot_rows item v')" by (rule UN_E)
      note D = slot_rowsD[OF v'(2)]
      have "v' = v" by (rule numbered_version_eq[OF n v'(1) v(1)]) (use D that v in simp)
      with D that show ?thesis by simp
    qed
    have g: "gmap_ok (ver_Slots v)" using numbered_version[OF n v(1)] by blast
    show ?thesis
    proof (cases "gget (ver_Slots v) slot")
      case no: None
      then have "\<not> (\<exists>r. r \<in> set (t_slots t) \<and> ?P r)" using row gget_unique[OF g, of slot] by (metis option.distinct(1))
      with no Some none show ?thesis by simp
    next
      case s: (Some bid)
      then have "(slot, bid) \<in> set (ver_Slots v)" using gget_unique[OF g] by blast
      then have "\<lparr>sl_item = item, sl_versionid = vid, sl_blobid = bid, sl_name = slot\<rparr> \<in> set (slot_rows item v)" using v by (force simp: slot_rows_def)
      then have "\<lparr>sl_item = item, sl_versionid = vid, sl_blobid = bid, sl_name = slot\<rparr> \<in> {r \<in> set (t_slots t). sl_item r = item}"
        unfolding rows using v(1) by blast
      then have ex: "\<exists>r \<in> set (t_slots t). ?P r" by (intro bexI[of _ "\<lparr>sl_item = item, sl_versionid = vid, sl_blobid = bid, sl_name = slot\<rparr>"]) simp_all
      have "sl_blobid r = bid" if "r \<in> set (t_slots t)" "?P r" for r using row[OF that] gget_unique[OF g, of slot "sl_blobid r"] s by simp
      from sel[OF this] have "select_slot item vid slot t = Some bid" unfolding if_P[OF ex] .
      with s Some show ?thesis by simp
    qed
  qed
qed

section \<open>The contract of an index\<close>

text \<open>The blob that a slot of an item stands for; version 0 is the last one.\<close>

definition slot_blob :: "item \<Rightarrow> int \<Rightarrow> string \<Rightarrow> blob option" where
  "slot_blob x v slot =
     (let b = BlobByVersionSlot x (if v = 0 then int (length (item_Versions x)) else v) slot in if b = 0 then None else blobByID x b)"

text \<open>\<open>refl d iid x\<close> says that the database has the item \<open>x\<close> under \<open>iid\<close>, \<open>quiet d\<close> that no statement fails from now on, and
  \<open>view\<close> is what it keeps of a blob.\<close>

locale blob_index =
  fixes D :: "'d blobdb" and refl :: "'d \<Rightarrow> string \<Rightarrow> item \<Rightarrow> bool" and quiet :: "'d \<Rightarrow> bool" and view :: "blob \<Rightarrow> blob"
  assumes find_blob: "refl d iid x \<Longrightarrow> quiet d \<Longrightarrow> db_FindBlob D d iid b = ((map_option view (blobByID x b), None), d)"
    and find_slot: "refl d iid x \<Longrightarrow> quiet d \<Longrightarrow> db_FindBlobBySlot D d iid v slot = ((map_option view (slot_blob x v slot), None), d)"
    and index_ok: "refl d iid a \<Longrightarrow> grows a x \<Longrightarrow> db_IndexItem D d iid x = (Inr u, d') \<Longrightarrow> refl d' iid x"
    and index_err: "db_IndexItem D d iid x = (Inl e, d') \<Longrightarrow> refl d j y \<Longrightarrow> refl d' j y"
    and index_other: "refl d iid a \<Longrightarrow> grows a x \<Longrightarrow> db_IndexItem D d iid x = (Inr u, d') \<Longrightarrow> refl d j y \<Longrightarrow> j \<noteq> iid \<Longrightarrow> refl d' j y"
    and index_quiet: "quiet d \<Longrightarrow> \<exists>d'. db_IndexItem D d iid x = (Inr (), d') \<and> quiet d'"

text \<open>States of a database, with what was last indexed for every item. An attempt to index may fail at any statement.\<close>

inductive index_reach :: "'d blobdb \<Rightarrow> 'd \<Rightarrow> 'd \<Rightarrow> (string \<Rightarrow> item) \<Rightarrow> bool" for D d0 where
  Start: "index_reach D d0 d0 no_item"
| Done: "index_reach D d0 d m \<Longrightarrow> grows (m iid) x \<Longrightarrow> db_IndexItem D d iid x = (Inr u, d') \<Longrightarrow> index_reach D d0 d' (m(iid := x))"
| Failed: "index_reach D d0 d m \<Longrightarrow> grows (m iid) x \<Longrightarrow> db_IndexItem D d iid x = (Inl e, d') \<Longrightarrow> index_reach D d0 d' m"

context blob_index
begin

lemma reach_reflects:
  assumes "index_reach D d0 d m" and "\<And>j. refl d0 j (no_item j)"
  shows "refl d iid (m iid)"
  using assms
proof (induction arbitrary: iid rule: index_reach.induct)
  case (Done d m i x u d')
  then have r: "refl d j (m j)" for j by blast
  show ?case
  proof (cases "iid = i")
    case True
    then show ?thesis using index_ok[OF r Done.hyps(2,3)] by simp
  next
    case False
    then show ?thesis using index_other[OF r Done.hyps(2,3) r] by simp
  qed
qed (use index_err in blast)+

end

lemma ql_FindBlob_reflects:
  assumes "reflects ql_blob_row (db_t d) iid x" and "db_faults d = []"
  shows "ql_FindBlob d iid b = ((blobByID x b, None), d)"
proof (cases "blobByID x b")
  case (Some y)
  then have "blob_ID y = b" using assms(1) blobByID_numbered by (auto simp: reflects_def)
  then have "ql_scan_blob b (ql_blob_row iid y) = (Some y, None)" by (cases y) (auto simp: ql_scan_blob_def ql_blob_row_def)
  with Some assms reflects_blob[OF assms(1) ql_rows_ok] show ?thesis by (simp add: ql_FindBlob_def)
qed (use assms reflects_blob[OF assms(1) ql_rows_ok] in \<open>simp add: ql_FindBlob_def\<close>)

definition my_view :: "(time \<Rightarrow> time) \<Rightarrow> blob \<Rightarrow> blob" where
  "my_view dt b = b\<lparr>blob_SaveDate := dt (blob_SaveDate b), blob_DeleteDate := (if blob_DeleteDate b = 0 then 0 else dt (blob_DeleteDate b))\<rparr>"

lemma my_FindBlob_reflects:
  assumes "reflects (my_blob_row dt) (db_t d) iid x" and "db_faults d = []"
  shows "my_FindBlob d iid b = ((map_option (my_view dt) (blobByID x b), None), d)"
proof (cases "blobByID x b")
  case (Some y)
  then have "blob_ID y = b" using assms(1) blobByID_numbered by (auto simp: reflects_def)
  then have "my_scan_blob b (my_blob_row dt iid y) = my_view dt y" by (cases y) (auto simp: my_scan_blob_def my_blob_row_def my_view_def null_time_def)
  with Some assms reflects_blob[OF assms(1) my_rows_ok] show ?thesis by (simp add: my_FindBlob_def)
qed (use assms reflects_blob[OF assms(1) my_rows_ok] in \<open>simp add: my_FindBlob_def\<close>)

text \<open>The steps by which a slot is found, for an item without versions too.\<close>

lemma reflects_find_slot:
  assumes "reflects mk t iid x"
  shows "(case select_slot iid v slot t of None \<Rightarrow> None | Some b \<Rightarrow> if b = 0 then None else blobByID x b) =
     (let b = BlobByVersionSlot x v slot in if b = 0 then None else blobByID x b)"
  unfolding reflects_slot[OF assms] BlobByVersionSlot_def by (auto simp: Let_def split: option.splits)

lemma no_version_slot:
  assumes "numbered x" and "item_Versions x = []"
  shows "slot_blob x 0 slot = None"
  using assms by (simp add: slot_blob_def BlobByVersionSlot_def)

lemma ql_find_slot_reflects:
  assumes "reflects ql_blob_row (db_t d) iid x" and "db_faults d = []" and "v \<noteq> 0"
  shows "ql_find_slot d iid v slot = ((slot_blob x v slot, None), d)"
  using assms reflects_find_slot[OF assms(1), of v slot] ql_FindBlob_reflects[OF assms(1,2)]
  by (auto simp: ql_find_slot_def slot_blob_def split: option.splits)

lemma my_find_slot_reflects:
  assumes "reflects (my_blob_row dt) (db_t d) iid x" and "db_faults d = []" and "v \<noteq> 0"
  shows "my_find_slot d iid v slot = ((map_option (my_view dt) (slot_blob x v slot), None), d)"
  using assms reflects_find_slot[OF assms(1), of v slot] my_FindBlob_reflects[OF assms(1,2)]
  by (auto simp: my_find_slot_def slot_blob_def split: option.splits)

lemma slot_blob_last: "item_Versions x \<noteq> [] \<Longrightarrow> slot_blob x (int (length (item_Versions x))) slot = slot_blob x 0 slot"
  by (simp add: slot_blob_def)

text \<open>Indexing, for both databases: the two queries and the transaction.\<close>

lemma getMaxBlob_cases:
  assumes "ql_getMaxBlob d iid = (r, d')"
  shows "db_t d' = db_t d \<and> (r = Inr (case select_maxblob iid (db_t d) of None \<Rightarrow> 0 | Some n \<Rightarrow> n) \<or> (\<exists>e. r = Inl e))"
proof -
  obtain q d1 where q: "db_query (select_maxblob iid) d = (q, d1)" by fastforce
  from db_query_t[OF q] assms show ?thesis by (auto simp: ql_getMaxBlob_def q split: option.splits)
qed

lemma getMaxVersion_cases:
  assumes "ql_getMaxVersion d iid = (r, d')"
  shows "db_t d' = db_t d \<and> (r = Inr (case select_maxversion iid (db_t d) of None \<Rightarrow> 0 | Some n \<Rightarrow> n) \<or> r = Inr 0)"
proof -
  obtain q d1 where q: "db_query (select_maxversion iid) d = (q, d1)" by fastforce
  from db_query_t[OF q] assms show ?thesis by (auto simp: ql_getMaxVersion_def q split: option.splits)
qed

lemma getMax_quiet:
  assumes "db_faults d = []"
  shows "ql_getMaxBlob d iid = (Inr (case select_maxblob iid (db_t d) of None \<Rightarrow> 0 | Some n \<Rightarrow> n), d)"
    and "ql_getMaxVersion d iid = (Inr (case select_maxversion iid (db_t d) of None \<Rightarrow> 0 | Some n \<Rightarrow> n), d)"
  using assms by (simp_all add: ql_getMaxBlob_def ql_getMaxVersion_def split: option.splits)

lemma my_getMax: "my_getMaxBlob = ql_getMaxBlob" "my_getMaxVersion = ql_getMaxVersion"
  by (simp_all add: fun_eq_iff my_getMaxBlob_def ql_getMaxBlob_def my_getMaxVersion_def ql_getMaxVersion_def)

lemma max_queries:
  assumes "ql_getMaxBlob d iid = (Inr mb, d1)" and "ql_getMaxVersion d1 iid = (Inr mv, d2)" and r: "reflects mk (db_t d) iid a" and ok: "rows_ok mk mkv"
  shows "db_t d2 = db_t d \<and> mb = int (length (item_Blobs a)) \<and> mv \<le> int (length (item_Versions a))"
proof -
  have 1: "db_t d1 = db_t d" "mb = int (length (item_Blobs a))"
    using getMaxBlob_cases[OF assms(1)] reflects_maxblob[OF r ok] by auto
  have r1: "reflects mk (db_t d1) iid a" using r 1 by simp
  have "db_t d2 = db_t d1" "mv = 0 \<or> mv = int (length (item_Versions a))"
    using getMaxVersion_cases[OF assms(2)] reflects_maxversion[OF r1] by auto
  with 1 show ?thesis by auto
qed

definition index_with :: "(string \<Rightarrow> blob \<Rightarrow> blob_row) \<Rightarrow> (string \<Rightarrow> version \<Rightarrow> version_row) \<Rightarrow> db \<Rightarrow> string \<Rightarrow> item \<Rightarrow> unit result \<times> db" where
  "index_with mk mkv d iid x =
     (case ql_getMaxBlob d iid of
        (Inl e, d1) \<Rightarrow> (Inl e, d1)
      | (Inr maxblob, d1) \<Rightarrow>
          (case ql_getMaxVersion d1 iid of
             (Inl e, d2) \<Rightarrow> (Inl e, d2)
           | (Inr maxversion, d2) \<Rightarrow> in_tx (index_body mk mkv iid maxblob maxversion x) d2))"

lemma ql_index_with: "ql_IndexItem = index_with ql_blob_row ql_version_row"
  by (simp add: fun_eq_iff ql_IndexItem_def index_with_def)

lemma my_index_with: "my_IndexItem dt = index_with (my_blob_row dt) (my_version_row dt)"
  by (intro ext) (simp only: my_IndexItem_def index_with_def my_getMax)

lemma index_with_error: "index_with mk mkv d iid x = (Inl e, d') \<Longrightarrow> db_t d' = db_t d"
proof -
  assume i: "index_with mk mkv d iid x = (Inl e, d')"
  obtain r1 d1 where 1: "ql_getMaxBlob d iid = (r1, d1)" by fastforce
  obtain r2 d2 where 2: "ql_getMaxVersion d1 iid = (r2, d2)" by fastforce
  have "db_t d1 = db_t d" using getMaxBlob_cases[OF 1] by blast
  moreover have "db_t d2 = db_t d1" using getMaxVersion_cases[OF 2] by blast
  ultimately show ?thesis using i 1 2 in_tx_error[of _ d2 e d'] by (auto simp: index_with_def split: sum.splits)
qed

lemma index_with_ok:
  assumes ok: "rows_ok mk mkv" and r: "reflects mk (db_t d) iid a" and g: "grows a x" and i: "index_with mk mkv d iid x = (Inr u, d')"
  shows "reflects mk (db_t d') iid x" and "j \<noteq> iid \<Longrightarrow> reflects mk (db_t d) j y \<Longrightarrow> reflects mk (db_t d') j y"
proof -
  obtain mb d1 mv d2 where q: "ql_getMaxBlob d iid = (Inr mb, d1)" "ql_getMaxVersion d1 iid = (Inr mv, d2)"
    and tx: "in_tx (index_body mk mkv iid mb mv x) d2 = (Inr u, d')"
    using i by (auto simp: index_with_def split: prod.splits sum.splits)
  note M = max_queries[OF q r ok]
  obtain d3 d4 where d3: "db_t d3 = db_t d2" and b: "index_body mk mkv iid mb mv x d3 = (Inr u, d4)" and d4: "db_t d' = db_t d4"
    using in_tx_ok[OF tx] by blast
  have r3: "reflects mk (db_t d3) iid a" using r M d3 by simp
  have mv: "mv \<le> int (length (item_Versions a))" and mb: "mb = int (length (item_Blobs a))" using M by simp_all
  show "reflects mk (db_t d') iid x" unfolding d4 by (rule index_body_reflects[OF ok r3 g mv b[unfolded mb]])
  show "reflects mk (db_t d') j y" if "j \<noteq> iid" "reflects mk (db_t d) j y"
  proof -
    have x: "numbered x" "length (item_Blobs a) \<le> length (item_Blobs x)" using g by (simp_all add: grows_def)
    from that(2) have "reflects mk (db_t d3) j y" using M d3 by simp
    from index_body_other[OF ok x that(1) b[unfolded mb] this] show ?thesis unfolding d4 .
  qed
qed

lemma index_with_quiet: "db_faults d = [] \<Longrightarrow> \<exists>d'. index_with mk mkv d iid x = (Inr (), d') \<and> db_faults d' = []"
proof -
  assume q: "db_faults d = []"
  obtain mb mv where "ql_getMaxBlob d iid = (Inr mb, d)" "ql_getMaxVersion d iid = (Inr mv, d)"
    using getMax_quiet[OF q] by blast
  moreover obtain d' where b: "index_body mk mkv iid mb mv x d = (Inr (), d')" "db_faults d' = []" using index_body_quiet[OF q] by blast
  moreover from b have "in_tx (index_body mk mkv iid mb mv x) d = (Inr (), d')" by (rule in_tx_quiet[OF q])
  ultimately show ?thesis by (simp add: index_with_def)
qed

interpretation ql: blob_index "ql_blobdb engine" "\<lambda>d. reflects ql_blob_row (db_t d)" "\<lambda>d. db_faults d = []" "\<lambda>b. b" for engine
proof
  fix d d' :: db and iid slot :: string and x a y :: item and b v :: int and u :: unit and j :: string and e :: error
  show "db_FindBlob (ql_blobdb engine) d iid b = ((map_option (\<lambda>b. b) (blobByID x b), None), d)"
    if "reflects ql_blob_row (db_t d) iid x" "db_faults d = []"
    using ql_FindBlob_reflects[OF that] by (simp add: ql_blobdb_def option.map_ident)
  show "db_FindBlobBySlot (ql_blobdb engine) d iid v slot = ((map_option (\<lambda>b. b) (slot_blob x v slot), None), d)"
    if r: "reflects ql_blob_row (db_t d) iid x" "db_faults d = []"
  proof (cases "v = 0")
    case True
    have m: "ql_getMaxVersion d iid = (Inr (int (length (item_Versions x))), d)"
      using reflects_maxversion[OF r(1)] getMax_quiet(2)[OF r(2)] by simp
    show ?thesis
    proof (cases "item_Versions x = []")
      case e: True
      have "numbered x" using r(1) by (simp add: reflects_def)
      with True m e no_version_slot show ?thesis by (simp add: ql_blobdb_def ql_FindBlobBySlot_def)
    next
      case False
      with True m ql_find_slot_reflects[OF r, of "int (length (item_Versions x))" slot] slot_blob_last[OF False] show ?thesis
        by (simp add: ql_blobdb_def ql_FindBlobBySlot_def option.map_ident)
    qed
  qed (use ql_find_slot_reflects[OF r] in \<open>simp add: ql_blobdb_def ql_FindBlobBySlot_def option.map_ident\<close>)
  show "reflects ql_blob_row (db_t d') iid x"
    if "reflects ql_blob_row (db_t d) iid a" "grows a x" "db_IndexItem (ql_blobdb engine) d iid x = (Inr u, d')"
    using index_with_ok(1)[OF ql_rows_ok that(1,2)] that(3) by (simp add: ql_blobdb_def ql_index_with)
  show "reflects ql_blob_row (db_t d') j y" if "db_IndexItem (ql_blobdb engine) d iid x = (Inl e, d')" "reflects ql_blob_row (db_t d) j y"
    using index_with_error[of ql_blob_row ql_version_row d iid x e d'] that by (simp add: ql_blobdb_def ql_index_with)
  show "reflects ql_blob_row (db_t d') j y"
    if "reflects ql_blob_row (db_t d) iid a" "grows a x" "db_IndexItem (ql_blobdb engine) d iid x = (Inr u, d')" "reflects ql_blob_row (db_t d) j y" "j \<noteq> iid"
    using index_with_ok(2)[OF ql_rows_ok that(1,2)] that(3-5) by (simp add: ql_blobdb_def ql_index_with)
  show "\<exists>d'. db_IndexItem (ql_blobdb engine) d iid x = (Inr (), d') \<and> db_faults d' = []" if "db_faults d = []"
    using index_with_quiet[OF that] by (simp add: ql_blobdb_def ql_index_with)
qed

interpretation my: blob_index "my_blobdb dt engine" "\<lambda>d. reflects (my_blob_row dt) (db_t d)" "\<lambda>d. db_faults d = []" "my_view dt" for dt engine
proof
  fix d d' :: db and iid slot :: string and x a y :: item and b v :: int and u :: unit and j :: string and e :: error
  show "db_FindBlob (my_blobdb dt engine) d iid b = ((map_option (my_view dt) (blobByID x b), None), d)"
    if "reflects (my_blob_row dt) (db_t d) iid x" "db_faults d = []"
    using my_FindBlob_reflects[OF that] by (simp add: my_blobdb_def)
  show "db_FindBlobBySlot (my_blobdb dt engine) d iid v slot = ((map_option (my_view dt) (slot_blob x v slot), None), d)"
    if r: "reflects (my_blob_row dt) (db_t d) iid x" "db_faults d = []"
  proof (cases "v = 0")
    case True
    have m: "my_getMaxVersion d iid = (Inr (int (length (item_Versions x))), d)"
      using reflects_maxversion[OF r(1)] getMax_quiet(2)[OF r(2)] by (simp add: my_getMax)
    show ?thesis
    proof (cases "item_Versions x = []")
      case e: True
      have "numbered x" using r(1) by (simp add: reflects_def)
      with True m e no_version_slot show ?thesis by (simp add: my_blobdb_def my_FindBlobBySlot_def)
    next
      case False
      with True m my_find_slot_reflects[OF r, of "int (length (item_Versions x))" slot] slot_blob_last[OF False] show ?thesis
        by (simp add: my_blobdb_def my_FindBlobBySlot_def)
    qed
  qed (use my_find_slot_reflects[OF r] in \<open>simp add: my_blobdb_def my_FindBlobBySlot_def\<close>)
  show "reflects (my_blob_row dt) (db_t d') iid x"
    if "reflects (my_blob_row dt) (db_t d) iid a" "grows a x" "db_IndexItem (my_blobdb dt engine) d iid x = (Inr u, d')"
    using index_with_ok(1)[OF my_rows_ok that(1,2)] that(3) by (simp add: my_blobdb_def my_index_with)
  show "reflects (my_blob_row dt) (db_t d') j y" if "db_IndexItem (my_blobdb dt engine) d iid x = (Inl e, d')" "reflects (my_blob_row dt) (db_t d) j y"
    using index_with_error[of "my_blob_row dt" "my_version_row dt" d iid x e d'] that by (simp add: my_blobdb_def my_index_with)
  show "reflects (my_blob_row dt) (db_t d') j y"
    if "reflects (my_blob_row dt) (db_t d) iid a" "grows a x" "db_IndexItem (my_blobdb dt engine) d iid x = (Inr u, d')"
      "reflects (my_blob_row dt) (db_t d) j y" "j \<noteq> iid"
    using index_with_ok(2)[OF my_rows_ok that(1,2)] that(3-5) by (simp add: my_blobdb_def my_index_with)
  show "\<exists>d'. db_IndexItem (my_blobdb dt engine) d iid x = (Inr (), d') \<and> db_faults d' = []" if "db_faults d = []"
    using index_with_quiet[OF that] by (simp add: my_blobdb_def my_index_with)
qed

lemma new_db_reflects: "reflects mk (db_t (new_db fs)) j (no_item j)"
  by (simp add: reflects_def new_db_def no_item_def numbered_def)

end
