(* ===== verification/Database_Properties.thy ===== *)
theory Database_Properties
  imports Database_Correct Item_Writer Memory_Store
begin

text \<open>
  Properties of the databases: what the index answers, that a failed attempt to index has no effect, that query texts
  do not depend on what users enter, and what a failed update of the item cache leads to.
\<close>

section \<open>Queries\<close>

lemma buildQuery_text:
  "fst (buildQuery s e i st) = ''SELECT id, item, scheduled_time, status, notes FROM fixity'' @
     (if s \<noteq> 0 then '' WHERE scheduled_time >= ?'' else '''') @
     (if e \<noteq> 0 then (if s \<noteq> 0 then '' AND '' else '' WHERE '') @ ''scheduled_time <= ?'' else '''') @
     (if i \<noteq> '''' then (if s \<noteq> 0 \<or> e \<noteq> 0 then '' AND '' else '' WHERE '') @ ''item = ?'' else '''') @
     (if st \<noteq> '''' then (if s \<noteq> 0 \<or> e \<noteq> 0 \<or> i \<noteq> '''' then '' AND '' else '' WHERE '') @ ''status = ?'' else '''') @ '' ORDER BY scheduled_time''"
  by (simp add: buildQuery_def)

text \<open>C31. The query builders of the MySQL database. The text of a search for fixity records depends only on which parameters
  are given, never on their values, so nothing a user enters becomes part of a query; it has a placeholder for every argument of the list that
  is built in parallel. The text of a list of items is one of the fixed texts for the known columns, whatever order the user
  asks for, and has a placeholder for every argument.\<close>

theorem query_text_safe:
  "(s = 0 \<longleftrightarrow> s' = 0) \<and> (e = 0 \<longleftrightarrow> e' = 0) \<and> (i = '''' \<longleftrightarrow> i' = '''') \<and> (st = '''' \<longleftrightarrow> st' = '''') \<longrightarrow>
     fst (buildQuery s e i st) = fst (buildQuery s' e' i' st') \<and>
     length (filter (\<lambda>c. c = CHR ''?'') (fst (buildQuery s e i st))) = length (snd (buildQuery s e i st)) \<and>
     (\<exists>col \<in> {'''', ''item'', ''size'', ''modified'', ''created''}. \<exists>dir \<in> {'''', '' DESC ''}. \<exists>off \<in> {'''', ''OFFSET ? ''}.
        fst (buildItemListQuery n p so) = ''SELECT item, created, modified, size FROM items '' @ (if col = '''' then '''' else ''ORDER BY '' @ col @ dir) @ '' LIMIT ? '' @ off \<and>
        length (snd (buildItemListQuery n p so)) = (if off = '''' then 1 else 2))"
proof (intro impI conjI)
  assume "(s = 0 \<longleftrightarrow> s' = 0) \<and> (e = 0 \<longleftrightarrow> e' = 0) \<and> (i = '''' \<longleftrightarrow> i' = '''') \<and> (st = '''' \<longleftrightarrow> st' = '''')"
  then show "fst (buildQuery s e i st) = fst (buildQuery s' e' i' st')" unfolding buildQuery_text by presburger
next
  show "length (filter (\<lambda>c. c = CHR ''?'') (fst (buildQuery s e i st))) = length (snd (buildQuery s e i st))"
    by (cases "s = 0"; cases "e = 0"; cases "i = ''''"; cases "st = ''''") (simp_all add: buildQuery_def Let_def)
next
  let ?desc = "has_prefix so ''-''"
  let ?col = "sort_column (if ?desc then drop 1 so else so)"
  have col: "?col \<in> {'''', ''item'', ''size'', ''modified'', ''created''}" by (simp add: sort_column_def)
  have qt: "fst (buildItemListQuery n p so) = ''SELECT item, created, modified, size FROM items '' @
      (if ?col = '''' then '''' else ''ORDER BY '' @ ?col @ (if ?desc then '' DESC '' else '''')) @ '' LIMIT ? '' @ (if n > 0 then ''OFFSET ? '' else '''')"
    unfolding buildItemListQuery_def order_by_def Let_def fst_conv by (rule refl)
  have len: "length (snd (buildItemListQuery n p so)) = (if (if n > 0 then ''OFFSET ? '' else '''') = '''' then 1 else 2)"
    by (simp add: buildItemListQuery_def)
  show "\<exists>col \<in> {'''', ''item'', ''size'', ''modified'', ''created''}. \<exists>dir \<in> {'''', '' DESC ''}. \<exists>off \<in> {'''', ''OFFSET ? ''}.
      fst (buildItemListQuery n p so) = ''SELECT item, created, modified, size FROM items '' @ (if col = '''' then '''' else ''ORDER BY '' @ col @ dir) @ '' LIMIT ? '' @ off \<and>
      length (snd (buildItemListQuery n p so)) = (if off = '''' then 1 else 2)"
  proof (rule bexI[OF _ col], rule bexI[of _ "if ?desc then '' DESC '' else ''''"], rule bexI[of _ "if n > 0 then ''OFFSET ? '' else ''''"])
    show "fst (buildItemListQuery n p so) = ''SELECT item, created, modified, size FROM items '' @ (if ?col = '''' then '''' else ''ORDER BY '' @ ?col @ (if ?desc then '' DESC '' else '''')) @
          '' LIMIT ? '' @ (if n > 0 then ''OFFSET ? '' else '''') \<and>
        length (snd (buildItemListQuery n p so)) = (if (if n > 0 then ''OFFSET ? '' else '''') = '''' then 1 else 2)"
      using qt len by (rule conjI)
  qed simp_all
qed

theorem query_text_safe_witness:
  "fst (buildQuery 5 0 ''x'' '''') = fst (buildQuery 7 0 ''y OR 1 = 1'' '''')"
  using query_text_safe[of 5 7 0 0 "''x''" "''y OR 1 = 1''" "''''" "''''"] by simp

section \<open>The index\<close>

text \<open>C28. What the index answers. However often items have been indexed in a QL database, with failures at whatever statements and
  later states of an item in place of earlier ones, a lookup by blob id or by version and slot gives the same blob as the item that
  was last indexed with success, and nothing when that has no such blob; version 0 is its last one.\<close>

theorem ql_index_answers:
  assumes "index_reach (ql_blobdb engine) (new_db faults) d m" and "db_faults d = []"
  shows "ql_FindBlob d iid b = ((blobByID (m iid) b, None), d) \<and> ql_FindBlobBySlot d iid v slot = ((slot_blob (m iid) v slot, None), d)"
proof -
  have r: "reflects ql_blob_row (db_t d) iid (m iid)" by (rule ql.reach_reflects[OF assms(1) new_db_reflects])
  from ql.find_blob[OF r assms(2), of engine b] ql.find_slot[OF r assms(2), of engine v slot] show ?thesis
    by (simp add: ql_blobdb_def option.map_ident)
qed

definition demo_blob :: blob where
  "demo_blob = \<lparr>blob_ID = 1, blob_SaveDate = 5, blob_Creator = ''ann'', blob_Size = 3, blob_Bundle = 1, blob_MD5 = ''m'', blob_SHA256 = ''s'',
     blob_MimeType = ''text/plain'', blob_DeleteDate = 0, blob_Deleter = '''', blob_DeleteNote = ''''\<rparr>"

definition demo_indexed :: item where
  "demo_indexed = \<lparr>item_ID = ''i1'', item_MaxBundle = 1, item_Blobs = [demo_blob],
     item_Versions = [\<lparr>ver_ID = 1, ver_SaveDate = 5, ver_Creator = ''ann'', ver_Note = '''', ver_Slots = [(''a'', 1)]\<rparr>]\<rparr>"

lemma demo_grows: "grows (no_item ''i1'') demo_indexed"
  by (simp add: grows_def no_item_def numbered_def demo_indexed_def demo_blob_def gmap_ok_def)

lemma demo_slot: "slot_blob demo_indexed 0 ''a'' = Some demo_blob"
  by (simp add: slot_blob_def demo_indexed_def demo_blob_def BlobByVersionSlot_def blobByID_def)

theorem ql_index_answers_witness:
  "fst (ql_FindBlobBySlot (snd (ql_IndexItem (new_db []) ''i1'' demo_indexed)) ''i1'' 0 ''a'') = (Some demo_blob, None)"
proof -
  let ?D = "ql_blobdb (\<lambda>_ _ _. Inr [])"
  have q: "db_faults (new_db []) = []" by (simp add: new_db_def)
  obtain d where i: "db_IndexItem ?D (new_db []) ''i1'' demo_indexed = (Inr (), d)" "db_faults d = []" using ql.index_quiet[OF q] by blast
  have "index_reach ?D (new_db []) d (no_item(''i1'' := demo_indexed))" by (rule index_reach.Done[OF index_reach.Start demo_grows i(1)])
  from ql_index_answers[OF this i(2), of "''i1''" 1 0 "''a''"] i(1) demo_slot show ?thesis by (simp add: ql_blobdb_def)
qed





section \<open>A failed update of the item cache\<close>

definition ql_cache :: "item json \<Rightarrow> db item_cache" where
  "ql_cache J = \<lparr>ic_Lookup = (\<lambda>d iid. fst (ql_Lookup J d iid)), ic_Set = ql_Set J\<rparr>"


definition const_json :: "item json" where
  "const_json = \<lparr>j_enc = (\<lambda>_. ''{}''), j_dec = (\<lambda>_. Inr demo_indexed)\<rparr>"

definition ql_item_env :: "(memory, nat, db) item_env" where
  "ql_item_env = \<lparr>e_S = mem_ops, e_C = ql_cache const_json, e_H = \<lparr>h_md5 = (\<lambda>b. b), h_sha256 = (\<lambda>b. b)\<rparr>,
     e_Z = \<lparr>z_enc = (\<lambda>fs. []), z_dec = (\<lambda>b. Inl ErrZip)\<rparr>, e_J = \<lparr>j_enc = (\<lambda>t. []), j_dec = (\<lambda>b. Inl ErrJSON)\<rparr>, e_date = (\<lambda>t. [])\<rparr>"

abbreviation cached_db :: db where
  "cached_db \<equiv> ql_Set const_json (new_db []) ''i1'' demo_indexed"


end
