(* ===== verification/Server_Items.thy ===== *)
theory Server_Items
  imports Server_Tx
begin

text \<open>
  Reading items, src/server/item.go and the list of items of ui.go: resolving a path to a blob through the database, finding the content of
  a blob in the cache or on tape, and the handlers.

  Copies into the cache run in the background, at most one for a key (package singleflight). \<open>findContent\<close> puts such a copy
  on the list of those in flight; \<open>finish_copy\<close> is its run. What happens while a request waits for a copy is an argument
  of \<open>getblob\<close>: a function from the state to the state after the wait, with a flag that says if the copy was
  done within the 60 seconds. \<open>http.ServeContent\<close>, which answers range and conditional requests, is an argument too.
\<close>

section \<open>Resolving a path\<close>

definition resolveblob0 :: "'d blobdb \<Rightarrow> 'd \<Rightarrow> string \<Rightarrow> string \<Rightarrow> (blob option \<times> error option) \<times> 'd" where
  "resolveblob0 D d itemID slot =
     (if slot = '''' then ((None, None), d)
      else if has_prefix slot ''@blob/'' then
        (case parse_int (drop 6 slot) of
           None \<Rightarrow> ((None, None), d)
         | Some b \<Rightarrow> if b \<le> 0 then ((None, None), d) else db_FindBlob D d itemID b)
      else if hd slot \<noteq> CHR ''@'' then db_FindBlobBySlot D d itemID 0 slot
      else
        (case index_char CHR ''/'' slot of
           None \<Rightarrow> ((None, None), d)
         | Some j \<Rightarrow>
             (case parse_int (take (j - 1) (drop 1 slot)) of
                None \<Rightarrow> ((None, None), d)
              | Some vid \<Rightarrow> if vid \<le> 0 then ((None, None), d) else db_FindBlobBySlot D d itemID vid (drop (Suc j) slot))))"

definition resolveblob ::
  "('s, 'w, 'c, 'f, 'v, 'b, 'u, 't, 'x, 'd) server_env \<Rightarrow> ('s, 'c, 'f, 'b, 't, 'd) server \<Rightarrow> string \<Rightarrow> string \<Rightarrow>
     (blob option \<times> error option) \<times> ('s, 'c, 'f, 'b, 't, 'd) server" where
  "resolveblob V s itemID slot =
     (case resolveblob0 (sv_D V) (srv_BlobDB s) itemID slot of
        ((binfo, err), d) \<Rightarrow>
          (let s1 = s\<lparr>srv_BlobDB := d\<rparr> in
           if binfo = None \<and> err = None \<and> srv_useTape s then
             (case srv_IndexItem V s1 itemID of
                (Some e, s2) \<Rightarrow> ((None, Some e), s2)
              | (None, s2) \<Rightarrow>
                  (case resolveblob0 (sv_D V) (srv_BlobDB s2) itemID slot of
                     (r, d2) \<Rightarrow> (r, s2\<lparr>srv_BlobDB := d2\<rparr>)))
           else ((binfo, err), s1)))"

section \<open>Copies into the cache\<close>

text \<open>The blocks that \<open>io.Copy\<close> reads from a stream.\<close>

function blocks :: "nat \<Rightarrow> bytes \<Rightarrow> bytes list" where
  "blocks n b = (if b = [] then [] else if n = 0 then [b] else take n b # blocks n (drop n b))"
  by auto
termination
  by (relation "measure (\<lambda>(n, b). length b)") auto

declare blocks.simps [simp del]

text \<open>\<open>io.Copy\<close> to the writer of a cache: the number of bytes written and the first error.\<close>

fun cache_copy ::
  "('b, 'u) cache_ops \<Rightarrow> time \<Rightarrow> 'b \<Rightarrow> 'u \<Rightarrow> bytes list \<Rightarrow> int \<Rightarrow> (int \<times> error option) \<times> 'b \<times> 'u" where
  "cache_copy C now c cw [] n = ((n, None), c, cw)"
| "cache_copy C now c cw (p # ps) n =
     (let ((k, err), c1, cw1) = bc_Write C c now cw p in
      if err \<noteq> None then ((n + int k, err), c1, cw1)
      else if k \<noteq> length p then ((n + int k, Some (IOError ''short write'')), c1, cw1)
      else cache_copy C now c1 cw1 ps (n + int k))"

text \<open>The deferred calls: close the writer, and delete the copy unless it is to be kept.\<close>

definition copy_end ::
  "('s, 'w, 'c, 'f, 'v, 'b, 'u, 't, 'x, 'd) server_env \<Rightarrow> time \<Rightarrow> string \<Rightarrow> 'u \<Rightarrow> bool \<Rightarrow> ('s, 'c, 'f, 'b, 't, 'd) server \<Rightarrow> ('s, 'c, 'f, 'b, 't, 'd) server" where
  "copy_end V now key cw keepcopy s =
     (let (err, c1) = bc_Close (sv_C V) (srv_Cache s) now cw
      in if keepcopy \<and> err = None then s\<lparr>srv_Cache := c1\<rparr> else s\<lparr>srv_Cache := snd (bc_Delete (sv_C V) c1 key)\<rparr>)"

definition ledger_add :: "time \<Rightarrow> string \<Rightarrow> error \<Rightarrow> ('s, 'c, 'f, 'b, 't, 'd) server \<Rightarrow> ('s, 'c, 'f, 'b, 't, 'd) server" where
  "ledger_add now key e s = s\<lparr>srv_errorledger := el_add (srv_errorledger s) now key e\<rparr>"

text \<open>The copy itself, with the stream of the blob at hand.\<close>

definition copy_stream ::
  "('s, 'w, 'c, 'f, 'v, 'b, 'u, 't, 'x, 'd) server_env \<Rightarrow> time \<Rightarrow> string \<Rightarrow> 'u \<Rightarrow> (bytes \<times> error option) \<times> int \<Rightarrow> ('s, 'c, 'f, 'b, 't, 'd) server \<Rightarrow>
     ('s, 'c, 'f, 'b, 't, 'd) server" where
  "copy_stream V now key cw strm s =
     (let ((data, serr), len) = strm;
          ((n, werr), c1, cw1) = cache_copy (sv_C V) now (srv_Cache s) cw (blocks copy_buffer data) 0;
          s1 = s\<lparr>srv_Cache := c1\<rparr>
      in case (if werr \<noteq> None then werr else serr) of
           Some e \<Rightarrow> copy_end V now key cw1 False (ledger_add now key e s1)
         | None \<Rightarrow>
             if n \<noteq> len then copy_end V now key cw1 False (ledger_add now key (ErrLengthMismatch n len) s1)
             else copy_end V now key cw1 True s1)"

definition copyBlobIntoCache ::
  "('s, 'w, 'c, 'f, 'v, 'b, 'u, 't, 'x, 'd) server_env \<Rightarrow> time \<Rightarrow> string \<Rightarrow> string \<Rightarrow> int \<Rightarrow> ('s, 'c, 'f, 'b, 't, 'd) server \<Rightarrow>
     ('s, 'c, 'f, 'b, 't, 'd) server" where
  "copyBlobIntoCache V now key iid bid s =
     (case bc_Put (sv_C V) (srv_Cache s) key of
        (Inl e, c1) \<Rightarrow> s\<lparr>srv_Cache := c1\<rparr>
      | (Inr cw, c1) \<Rightarrow>
          (case items_Blob (sv_E V) (srv_Items s) iid bid of
             (Inl e, items1) \<Rightarrow> copy_end V now key cw False (ledger_add now key e (s\<lparr>srv_Cache := c1, srv_Items := items1\<rparr>))
           | (Inr strm, items1) \<Rightarrow> copy_stream V now key cw strm (s\<lparr>srv_Cache := c1, srv_Items := items1\<rparr>)))"

text \<open>A copy that is in flight runs, and its key is free again.\<close>

definition finish_copy ::
  "('s, 'w, 'c, 'f, 'v, 'b, 'u, 't, 'x, 'd) server_env \<Rightarrow> time \<Rightarrow> string \<Rightarrow> ('s, 'c, 'f, 'b, 't, 'd) server \<Rightarrow> ('s, 'c, 'f, 'b, 't, 'd) server" where
  "finish_copy V now key s =
     (case gget (srv_tapeinflight s) key of
        None \<Rightarrow> s
      | Some (iid, bid) \<Rightarrow> (copyBlobIntoCache V now key iid bid s)\<lparr>srv_tapeinflight := gdel key (srv_tapeinflight s)\<rparr>)"

section \<open>Finding content\<close>

datatype content_status = ContentUnknown | ContentCached | ContentLarge | ContentWaiting

text \<open>A reader is a reader with seek over cached content, or the stream of a file of a bundle, which has no seek.\<close>

datatype content_reader = Seeker readseekcloser | Plain "bytes \<times> error option"

record contentSource =
  cs_status :: content_status
  cs_r :: "content_reader option"
  cs_size :: int
  cs_done :: "string option"

definition start_copy ::
  "string \<Rightarrow> string \<Rightarrow> int \<Rightarrow> ('s, 'c, 'f, 'b, 't, 'd) server \<Rightarrow> ('s, 'c, 'f, 'b, 't, 'd) server" where
  "start_copy key iid bid s =
     (if gget (srv_tapeinflight s) key = None then s\<lparr>srv_tapeinflight := gset key (iid, bid) (srv_tapeinflight s)\<rparr> else s)"

text \<open>The part of \<open>findContent\<close> that goes to tape. A maximal size of 0 means a cache without limit.\<close>

definition find_on_tape ::
  "('s, 'w, 'c, 'f, 'v, 'b, 'u, 't, 'x, 'd) server_env \<Rightarrow> time \<Rightarrow> ('s, 'c, 'f, 'b, 't, 'd) server \<Rightarrow> string \<Rightarrow> string \<Rightarrow> blob \<Rightarrow> bool \<Rightarrow>
     contentSource result \<times> ('s, 'c, 'f, 'b, 't, 'd) server" where
  "find_on_tape V now s key iid binfo doLoad =
     (if \<not> srv_useTape s then (Inl ErrNoStore, s)
      else if \<not> doLoad then (Inr \<lparr>cs_status = ContentWaiting, cs_r = None, cs_size = blob_Size binfo, cs_done = None\<rparr>, s)
      else
        (case el_find (srv_errorledger s) now key of
           (Some e, errs) \<Rightarrow> (Inl e, s\<lparr>srv_errorledger := errs\<rparr>)
         | (None, errs) \<Rightarrow>
             (let s1 = s\<lparr>srv_errorledger := errs\<rparr>; cacheMaxSize = bc_MaxSize (sv_C V) (srv_Cache s1) in
              if cacheMaxSize = 0 \<or> blob_Size binfo < cacheMaxSize div 8
              then (Inr \<lparr>cs_status = ContentWaiting, cs_r = None, cs_size = blob_Size binfo, cs_done = Some key\<rparr>, start_copy key iid (blob_ID binfo) s1)
              else case items_Blob (sv_E V) (srv_Items s1) iid (blob_ID binfo) of
                     (Inl e, items1) \<Rightarrow> (Inl e, s1\<lparr>srv_Items := items1\<rparr>)
                   | (Inr (strm, len), items1) \<Rightarrow>
                       (Inr \<lparr>cs_status = ContentLarge, cs_r = Some (Plain strm), cs_size = blob_Size binfo, cs_done = None\<rparr>,
                        s1\<lparr>srv_Items := items1\<rparr>))))"

definition findContent ::
  "('s, 'w, 'c, 'f, 'v, 'b, 'u, 't, 'x, 'd) server_env \<Rightarrow> time \<Rightarrow> ('s, 'c, 'f, 'b, 't, 'd) server \<Rightarrow> string \<Rightarrow> string \<Rightarrow> blob \<Rightarrow> bool \<Rightarrow>
     contentSource result \<times> ('s, 'c, 'f, 'b, 't, 'd) server" where
  "findContent V now s key iid binfo doLoad =
     (case bc_Get (sv_C V) (srv_Cache s) now key of
        ((x, Some e), c1) \<Rightarrow> (Inl e, s\<lparr>srv_Cache := c1\<rparr>)
      | ((Some b, None), c1) \<Rightarrow>
          (Inr \<lparr>cs_status = ContentCached, cs_r = Some (Seeker (NewReadSeekCloser b (word_of_nat (length b)))), cs_size = int (length b), cs_done = None\<rparr>,
           s\<lparr>srv_Cache := c1\<rparr>)
      | ((None, None), c1) \<Rightarrow> find_on_tape V now (s\<lparr>srv_Cache := c1\<rparr>) key iid binfo doLoad)"

section \<open>Sending a blob\<close>

definition content_error :: "error \<Rightarrow> response \<Rightarrow> response" where
  "content_error e w =
     rs_println (err_Error e) (WriteHeader (case e of ErrNoStore \<Rightarrow> 503 | ErrDeleted \<Rightarrow> 410 | NoBlobError i b \<Rightarrow> 404 | _ \<Rightarrow> 500) w)"

text \<open>The end of \<open>getblob\<close>: the body of a GET; only the header for other methods. An error in the middle of the body is only logged.\<close>

definition send_content :: "(request \<Rightarrow> response \<Rightarrow> readseekcloser \<Rightarrow> response) \<Rightarrow> request \<Rightarrow> response \<Rightarrow> blob \<Rightarrow> contentSource \<Rightarrow> response" where
  "send_content serve r w binfo c =
     (let w1 = hdr_Set ''ETag'' (CHR 0x22 # fmt_d (blob_ID binfo) @ [CHR 0x22]) w in
      case cs_r c of
        Some (Seeker rs) \<Rightarrow> serve r w1 rs
      | Some (Plain strm) \<Rightarrow>
          (let w2 = hdr_Set ''Content-Length'' (fmt_d (cs_size c)) w1 in if rq_Method r \<noteq> ''GET'' then w2 else rs_write (fst strm) w2)
      | None \<Rightarrow> hdr_Set ''Content-Length'' (fmt_d (cs_size c)) w1)"

text \<open>After the wait the content is looked for once more.\<close>

definition getblob_again ::
  "('s, 'w, 'c, 'f, 'v, 'b, 'u, 't, 'x, 'd) server_env \<Rightarrow> (request \<Rightarrow> response \<Rightarrow> readseekcloser \<Rightarrow> response) \<Rightarrow> time \<Rightarrow> request \<Rightarrow> response \<Rightarrow>
     ('s, 'c, 'f, 'b, 't, 'd) server \<Rightarrow> string \<Rightarrow> blob \<Rightarrow> response \<times> ('s, 'c, 'f, 'b, 't, 'd) server" where
  "getblob_again V serve now r w s iid binfo =
     (case findContent V now s (cache_key iid (blob_ID binfo)) iid binfo True of
        (Inl e, s1) \<Rightarrow> (content_error e w, s1)
      | (Inr c, s1) \<Rightarrow>
          (case cs_status c of
             ContentCached \<Rightarrow> (send_content serve r w binfo c, s1)
           | ContentLarge \<Rightarrow> (send_content serve r (hdr_Set ''X-Cached'' ''2'' w) binfo c, s1)
           | ContentWaiting \<Rightarrow> (rs_println ''The file cannot be accessed at this time'' (WriteHeader 500 w), s1)
           | ContentUnknown \<Rightarrow> (rs_println ''received status 0'' (WriteHeader 500 w), s1)))"

definition getblob ::
  "('s, 'w, 'c, 'f, 'v, 'b, 'u, 't, 'x, 'd) server_env \<Rightarrow> (request \<Rightarrow> response \<Rightarrow> readseekcloser \<Rightarrow> response) \<Rightarrow>
     (('s, 'c, 'f, 'b, 't, 'd) server \<Rightarrow> bool \<times> ('s, 'c, 'f, 'b, 't, 'd) server) \<Rightarrow> time \<Rightarrow> time \<Rightarrow> request \<Rightarrow> response \<Rightarrow>
     ('s, 'c, 'f, 'b, 't, 'd) server \<Rightarrow> string \<Rightarrow> blob \<Rightarrow> response \<times> ('s, 'c, 'f, 'b, 't, 'd) server" where
  "getblob V serve wait now later r w s iid binfo =
     (let docache = (rq_Method r = ''GET'' \<or> hdr_Get r ''Request-Cache'' \<noteq> '''') in
      case findContent V now s (cache_key iid (blob_ID binfo)) iid binfo docache of
        (Inl e, s1) \<Rightarrow> (content_error e w, s1)
      | (Inr c, s1) \<Rightarrow>
          (case cs_status c of
             ContentCached \<Rightarrow> (send_content serve r (hdr_Set ''X-Cached'' ''1'' w) binfo c, s1)
           | ContentLarge \<Rightarrow> (send_content serve r (hdr_Set ''X-Cached'' ''2'' w) binfo c, s1)
           | ContentWaiting \<Rightarrow>
               (let w1 = hdr_Set ''X-Cached'' ''0'' w in
                if rq_Method r \<noteq> ''GET'' then (send_content serve r w1 binfo c, s1)
                else case wait s1 of
                       (True, s2) \<Rightarrow> getblob_again V serve later r w1 s2 iid binfo
                     | (False, s2) \<Rightarrow> (rs_println ''timeout'' (WriteHeader 504 w1), s2))
           | ContentUnknown \<Rightarrow> (rs_println ''received status 0'' (WriteHeader 500 w), s1)))"

section \<open>Handlers\<close>

definition ItemHandler ::
  "('s, 'w, 'c, 'f, 'v, 'b, 'u, 't, 'x, 'd) server_env \<Rightarrow> (item \<Rightarrow> bytes) \<Rightarrow> (item \<Rightarrow> bytes) \<Rightarrow> ('s, 'c, 'f, 'b, 't, 'd) server handler" where
  "ItemHandler V tmpl js r w s =
     (case items_Item (sv_E V) (srv_Items s) (ByName r ''id'') of
        (Inl e, items1) \<Rightarrow>
          (rs_println (err_Error e) (WriteHeader (if e = ErrNoStore then 503 else 404) w), s\<lparr>srv_Items := items1\<rparr>)
      | (Inr item, items1) \<Rightarrow>
          (let w1 = (if item_Versions item = [] then w
                     else hdr_Set ''ETag'' (CHR 0x22 # fmt_d (ver_ID (last (item_Versions item))) @ [CHR 0x22]) w)
           in (writeHTMLorJSON w1 r (tmpl item) (js item), s\<lparr>srv_Items := items1\<rparr>)))"

text \<open>The answer when a path was not resolved.\<close>

definition slot_error :: "blob option \<Rightarrow> error option \<Rightarrow> response \<Rightarrow> response" where
  "slot_error binfo err w =
     (let w1 = WriteHeader (if err = Some ErrNoStore then 503 else if binfo = None \<or> err = Some ErrNoItem then 404 else 500) w
      in case err of None \<Rightarrow> w1 | Some e \<Rightarrow> rs_println (err_Error e) w1)"

text \<open>The parameter of the path has a leading slash.\<close>

definition SlotHandler ::
  "('s, 'w, 'c, 'f, 'v, 'b, 'u, 't, 'x, 'd) server_env \<Rightarrow> (item \<Rightarrow> bytes) \<Rightarrow> (item \<Rightarrow> bytes) \<Rightarrow> (request \<Rightarrow> response \<Rightarrow> readseekcloser \<Rightarrow> response) \<Rightarrow>
     (('s, 'c, 'f, 'b, 't, 'd) server \<Rightarrow> bool \<times> ('s, 'c, 'f, 'b, 't, 'd) server) \<Rightarrow> time \<Rightarrow> time \<Rightarrow> ('s, 'c, 'f, 'b, 't, 'd) server handler" where
  "SlotHandler V tmpl js serve wait now later r w s =
     (let iid = ByName r ''id''; slot = drop 1 (ByName r ''slot'') in
      if slot = '''' then ItemHandler V tmpl js r w s
      else case resolveblob V s iid slot of
             ((Some binfo, None), s1) \<Rightarrow>
               (let w1 = hdr_Set ''X-Content-Sha256'' (hex_encode (blob_SHA256 binfo)) w;
                    w2 = hdr_Set ''X-Content-Md5'' (hex_encode (blob_MD5 binfo)) w1;
                    w3 = hdr_Set ''Location'' (''/item/'' @ iid @ ''/@blob/'' @ fmt_d (blob_ID binfo)) w2
                in getblob V serve wait now later r w3 s1 iid binfo)
           | ((binfo, err), s1) \<Rightarrow> (slot_error binfo err w, s1))"

section \<open>The list of items\<close>

record ui_page =
  ui_N :: int
  ui_NextN :: int
  ui_PrevN :: int
  ui_P :: int
  ui_Sort :: string
  ui_Items :: "simple_item list"

definition ui_offset :: "string \<Rightarrow> int" where
  "ui_offset n = (case (if n = '''' then None else parse_int n) of None \<Rightarrow> 0 | Some k \<Rightarrow> if k \<ge> 0 then k else 0)"

definition ui_pagesize :: "string \<Rightarrow> int" where
  "ui_pagesize p = (case (if p = '''' then None else parse_int p) of None \<Rightarrow> 1000 | Some k \<Rightarrow> if k > 0 \<and> k < 2000 then k else 1000)"

definition ui_sort :: "string \<Rightarrow> string" where
  "ui_sort s = (if s \<in> {''name'', ''-name'', ''size'', ''-size'', ''modified'', ''-modified'', ''created'', ''-created''} then s else ''-modified'')"

definition UIItemsHandler ::
  "('s, 'w, 'c, 'f, 'v, 'b, 'u, 't, 'x, 'd) server_env \<Rightarrow> (ui_page \<Rightarrow> bytes) \<Rightarrow> ('s, 'c, 'f, 'b, 't, 'd) server handler" where
  "UIItemsHandler V tmpl r w s =
     (let n = ui_offset (FormValue r ''n''); p = ui_pagesize (FormValue r ''p''); so = ui_sort (FormValue r ''s'');
          (its, err) = db_GetItemList (sv_D V) (srv_BlobDB s) n p so
      in (rs_write (tmpl \<lparr>ui_N = n, ui_NextN = n + p, ui_PrevN = (if n > p then n - p else 0), ui_P = p, ui_Sort = so, ui_Items = its\<rparr>) w, s))"

end
