(* ===== verification/Server_Items_Correct.thy ===== *)
theory Server_Items_Correct
  imports Server_Items Server_Tx_Correct Database_Properties
begin

text \<open>
  Paths are resolved through the database like the item itself resolves them, before and after the item is read from tape.
\<close>

section \<open>Resolving a path\<close>

text \<open>What a path names in an item: the blob that \<open>BlobByExtendedSlot\<close> gives.\<close>

definition path_blob :: "item \<Rightarrow> string \<Rightarrow> blob option" where
  "path_blob x slot = (case BlobByExtendedSlot x slot of Inl e \<Rightarrow> None | Inr b \<Rightarrow> if b = 0 then None else blobByID x b)"

lemma numbered_last: "numbered x \<Longrightarrow> item_Versions x \<noteq> [] \<Longrightarrow> ver_ID (last (item_Versions x)) = int (length (item_Versions x))"
  by (auto simp: numbered_def last_conv_nth neq_Nil_conv)

lemma numbered_no_blob: "numbered x \<Longrightarrow> b > int (length (item_Blobs x)) \<Longrightarrow> blobByID x b = None"
  using numbered_blob[of x] by (fastforce simp: blobByID_def find_None_iff)

lemma numbered_no_version: "numbered x \<Longrightarrow> v > int (length (item_Versions x)) \<Longrightarrow> BlobByVersionSlot x v slot = 0"
proof -
  assume "numbered x" "v > int (length (item_Versions x))"
  then have "find (\<lambda>w. ver_ID w = v) (item_Versions x) = None" using numbered_version[of x] by (fastforce simp: find_None_iff)
  then show ?thesis by (simp add: BlobByVersionSlot_def)
qed

context blob_index
begin

lemma resolve0:
  assumes r: "refl d iid x" "quiet d" and x: "numbered x" and v: "item_Versions x \<noteq> []" and s: "slot \<noteq> ''''"
  shows "resolveblob0 D d iid slot = ((map_option view (path_blob x slot), None), d)"
proof -
  note L = find_blob[OF r] find_slot[OF r] numbered_last[OF x v]
  show ?thesis
  proof (cases "hd slot = CHR ''@''")
    case True
    show ?thesis
    proof (cases "has_prefix slot ''@blob/''")
      case True
      with \<open>hd slot = _\<close> s v show ?thesis
        using numbered_no_blob[OF x] by (auto simp: resolveblob0_def path_blob_def BlobByExtendedSlot_def Let_def L split: option.splits)
    next
      case False
      with \<open>hd slot = _\<close> s v show ?thesis
        using numbered_no_version[OF x] by (auto simp: resolveblob0_def path_blob_def BlobByExtendedSlot_def Let_def L slot_blob_def split: option.splits)
    qed
  next
    case False
    then have "\<not> has_prefix slot ''@blob/''" using s by (cases slot) (auto simp: has_prefix_def)
    with False s v show ?thesis by (auto simp: resolveblob0_def path_blob_def BlobByExtendedSlot_def Let_def L slot_blob_def)
  qed
qed

lemma resolve0_none:
  assumes "refl d iid (no_item iid)" "quiet d"
  shows "resolveblob0 D d iid slot = ((None, None), d)"
  by (auto simp: resolveblob0_def find_blob[OF assms] find_slot[OF assms] no_item_def blobByID_def slot_blob_def BlobByVersionSlot_def split: option.splits)

lemma path_blob_none: "path_blob (no_item iid) slot = None"
  by (simp add: path_blob_def BlobByExtendedSlot_def no_item_def)

lemma resolve:
  assumes D: "sv_D V = D" and r: "refl (srv_BlobDB s) iid a" "quiet (srv_BlobDB s)" and a: "a = no_item iid \<or> item_Versions a \<noteq> []"
    and x: "items_Item (sv_E V) (srv_Items s) iid = (Inr x, items1)" "grows a x" "item_Versions x \<noteq> []" and slot: "slot \<noteq> ''''"
  shows "fst (resolveblob V s iid slot) =
     (map_option view (if path_blob a slot = None \<and> srv_useTape s then path_blob x slot else path_blob a slot), None)"
proof -
  have num: "numbered a" "numbered x" using x(2) by (simp_all add: grows_def)
  have 0: "resolveblob0 D (srv_BlobDB s) iid slot = ((map_option view (path_blob a slot), None), srv_BlobDB s)"
    using resolve0[OF r num(1) _ slot] resolve0_none[of "srv_BlobDB s" iid slot] a r path_blob_none by auto
  obtain d where i: "db_IndexItem D (srv_BlobDB s) iid x = (Inr (), d)" "quiet d" using index_quiet[OF r(2)] by blast
  note 1 = resolve0[OF index_ok[OF r(1) x(2) i(1)] i(2) num(2) x(3) slot]
  show ?thesis using 0 1 i D x(1) by (auto simp: resolveblob_def srv_IndexItem_def index_result_def)
qed

end

text \<open>C19. A path is resolved through the database as the item resolves it. Let an index that was built up in any way be
  out of date or not, and let the item have grown since it was indexed: a path that the indexed state of the item resolves gives the blob of that state; for
  any other the item is read and indexed again, if the tape may be used, and the path gives what the current item has. Paths have one of the three forms:
  a slot of the last version, a slot of a given version, or the id of a blob.\<close>

theorem path_resolution:
  assumes "sv_D V = ql_blobdb engine" and "index_reach (ql_blobdb engine) (new_db faults) (srv_BlobDB s) m" and "db_faults (srv_BlobDB s) = []"
    and "m iid = no_item iid \<or> item_Versions (m iid) \<noteq> []"
    and "items_Item (sv_E V) (srv_Items s) iid = (Inr x, items1)" and "grows (m iid) x" and "item_Versions x \<noteq> []" and "slot \<noteq> ''''"
  shows "fst (resolveblob V s iid slot) = (if path_blob (m iid) slot = None \<and> srv_useTape s then path_blob x slot else path_blob (m iid) slot, None)"
  using ql.resolve[OF assms(1) ql.reach_reflects[OF assms(2) new_db_reflects] assms(3-8)] by (simp add: option.map_ident)

theorem path_resolution_witness:
  "fst (resolveblob demo_senv (demo_server\<lparr>srv_Items := items_NewWithCache NewMemory [(''i1'', demo_indexed)]\<rparr>) ''i1'' ''a'') = (Some demo_blob, None)"
proof -
  let ?s = "demo_server\<lparr>srv_Items := items_NewWithCache NewMemory [(''i1'', demo_indexed)]\<rparr>"
  have D: "sv_D demo_senv = ql_blobdb (\<lambda>_ _ _. Inr [])" by (simp add: demo_senv_def)
  have r: "index_reach (ql_blobdb (\<lambda>_ _ _. Inr [])) (new_db []) (srv_BlobDB ?s) no_item" by (simp add: demo_server_def index_reach.Start)
  have i: "items_Item (sv_E demo_senv) (srv_Items ?s) ''i1'' = (Inr demo_indexed, srv_Items ?s)"
    by (simp add: items_Item_def demo_senv_def memoryCache_ops_def items_NewWithCache_def demo_indexed_def)
  have p: "path_blob demo_indexed ''a'' = Some demo_blob" "path_blob (no_item ''i1'') ''a'' = None" by (simp_all add: path_blob_def BlobByExtendedSlot_def BlobByVersionSlot_def blobByID_def demo_indexed_def demo_blob_def no_item_def)
  have v: "item_Versions demo_indexed \<noteq> []" by (simp add: demo_indexed_def)
  have "fst (resolveblob demo_senv ?s ''i1'' ''a'') =
      (if path_blob (no_item ''i1'') ''a'' = None \<and> srv_useTape ?s then path_blob demo_indexed ''a'' else path_blob (no_item ''i1'') ''a'', None)"
    by (rule path_resolution[OF D r _ _ i demo_grows v]) (simp_all add: demo_server_def new_db_def)
  then show ?thesis by (simp add: p demo_server_def)
qed

end
