(* ===== verification/Server_Read.thy ===== *)
theory Server_Read
  imports Server_Items_Correct Blobcache_Content Fragment_Correct Item_Properties
begin

text \<open>
  What a client gets when it reads a blob: the content of the blob or an error, whether the content comes from the cache, from tape, or
  from a copy into the cache that the request waits for. The proof is over the contracts of the cache and of the item store.
\<close>

section \<open>Keys of the cache\<close>

lemma cache_key_inj:
  assumes "cache_key iid b = cache_key iid' b'" and "0 \<le> b" and "0 \<le> b'"
  shows "iid = iid' \<and> b = b'"
  using assms append_sep_inj[of iid "CHR ''+''" "fmt_04d b" iid' "fmt_04d b'"] fmt_04d_nonneg_chars[of b "CHR ''+''"] fmt_04d_nonneg_chars[of b' "CHR ''+''"]
    fmt_04d_inj[of b b'] by (simp add: cache_key_def)

section \<open>Copies\<close>

lemma concat_blocks: "concat (blocks n b) = b"
  by (induction n b rule: blocks.induct) (subst blocks.simps, simp)

context blob_cache
begin

lemma cache_copy_ok:
  assumes "writing c w k b" and "cache_copy C now c w ps n = ((m, e), c', w')"
  shows "holds c' \<subseteq>\<^sub>m holds c \<and> (\<exists>b'. writing c' w' k b' \<and> (e = None \<longrightarrow> b' = b @ concat ps \<and> m = n + int (length (concat ps))))"
  using assms
proof (induction ps arbitrary: c w b n)
  case (Cons p ps)
  obtain j e1 c1 w1 where w: "bc_Write C c now w p = ((j, e1), c1, w1)" by (metis prod_cases3 surj_pair)
  from write_law[OF Cons.prems(1) w] obtain b1 where b1: "holds c1 \<subseteq>\<^sub>m holds c" "writing c1 w1 k b1" "e1 = None \<longrightarrow> j = length p \<longrightarrow> b1 = b @ p"
    by blast
  show ?case
  proof (cases "e1 = None \<and> j = length p")
    case True
    then have "cache_copy C now c1 w1 ps (n + int j) = ((m, e), c', w')" using Cons.prems(2) w by simp
    from Cons.IH[OF b1(2) this] True b1 show ?thesis by (auto intro: map_le_trans)
  next
    case False
    then have "c' = c1 \<and> w' = w1 \<and> e \<noteq> None" using Cons.prems(2) w by (auto split: if_splits)
    with b1 show ?thesis by blast
  qed
qed auto

end

section \<open>Reading\<close>

text \<open>What \<open>http.ServeContent\<close> does with a plain request, one without a range and without conditions: it sends the whole content.\<close>

definition serves_whole :: "(request \<Rightarrow> response \<Rightarrow> readseekcloser \<Rightarrow> response) \<Rightarrow> request \<Rightarrow> bool" where
  "serves_whole serve r = (\<forall>w data. rs_Code w = 0 \<longrightarrow>
     rs_Code (serve r w (NewReadSeekCloser data (word_of_nat (length data)))) = 200 \<and>
     rs_Body (serve r w (NewReadSeekCloser data (word_of_nat (length data)))) = rs_Body w @ data)"

text \<open>The server relies on a cache and on an item store: \<open>iinv\<close> is the invariant of the item store, \<open>content\<close> what it returns for a blob of an item with
  a good id, which reading does not change.\<close>

locale reading = blob_cache C cinv holds writing
  for C :: "('b, 'u) cache_ops" and cinv holds writing +
  fixes V :: "('s, 'w, 'c, 'f, 'v, 'b, 'u, 't, 'x, 'd) server_env" and iinv :: "('s, 'c) item_store \<Rightarrow> bool"
    and content :: "string \<Rightarrow> int \<Rightarrow> ((bytes \<times> error option) \<times> int) result" and okid :: "string \<Rightarrow> bool"
  assumes cache: "sv_C V = C"
    and blob_law: "iinv st \<Longrightarrow> okid iid \<Longrightarrow> \<exists>st'. items_Blob (sv_E V) st iid b = (content iid b, st') \<and> iinv st'"
    and content_whole: "content iid b = Inr ((data, err), n) \<Longrightarrow> err = None \<and> n = int (length data)"
begin

text \<open>The cache has only content of the blob that the key names; a copy in flight is for a key that is not in the cache.\<close>

definition good :: "string \<Rightarrow> int \<Rightarrow> bool" where
  "good iid b = (okid iid \<and> 0 \<le> b)"

definition coherent :: "(string \<Rightarrow> bytes option) \<Rightarrow> bool" where
  "coherent h = (\<forall>iid b data. good iid b \<longrightarrow> h (cache_key iid b) = Some data \<longrightarrow> content iid b = Inr ((data, None), int (length data)))"

definition flights :: "(string \<Rightarrow> bytes option) \<Rightarrow> (string \<times> string \<times> int) list \<Rightarrow> bool" where
  "flights h fl = (\<forall>k iid b. gget fl k = Some (iid, b) \<longrightarrow> k = cache_key iid b \<and> good iid b \<and> h k = None)"

definition rd_inv :: "('s, 'c, 'f, 'b, 't, 'd) server \<Rightarrow> bool" where
  "rd_inv s = (cinv (srv_Cache s) \<and> iinv (srv_Items s) \<and> coherent (holds (srv_Cache s)) \<and> flights (holds (srv_Cache s)) (srv_tapeinflight s))"

lemma coherent_le: "coherent h \<Longrightarrow> h' \<subseteq>\<^sub>m h \<Longrightarrow> coherent h'"
  unfolding coherent_def map_le_def by (metis domI)

lemma flights_le: "flights h fl \<Longrightarrow> h' \<subseteq>\<^sub>m h \<Longrightarrow> flights h' fl"
  unfolding flights_def map_le_def by (metis domIff)

lemma coherent_new:
  assumes "coherent h" and "good iid b" and "content iid b = Inr ((data, None), int (length data))"
  shows "coherent (h(cache_key iid b \<mapsto> data))"
  using assms cache_key_inj unfolding coherent_def good_def by (metis fun_upd_apply option.inject)

lemma find_tape_ok:
  assumes inv: "rd_inv s" and g: "good iid (blob_ID binfo)" and h: "holds (srv_Cache s) (cache_key iid (blob_ID binfo)) = None"
    and f: "find_on_tape V now s (cache_key iid (blob_ID binfo)) iid binfo doLoad = (r, s')"
  shows "rd_inv s' \<and> (\<forall>c. r = Inr c \<longrightarrow> cs_status c = ContentWaiting \<and> cs_r c = None \<or>
     cs_status c = ContentLarge \<and> (\<exists>data. cs_r c = Some (Plain (data, None)) \<and> content iid (blob_ID binfo) = Inr ((data, None), int (length data))))"
proof -
  let ?k = "cache_key iid (blob_ID binfo)"
  obtain e errs where ef: "el_find (srv_errorledger s) now ?k = (e, errs)" by fastforce
  let ?s1 = "s\<lparr>srv_errorledger := errs\<rparr>"
  have inv1: "rd_inv ?s1" using inv by (simp add: rd_inv_def)
  obtain items1 where b: "items_Blob (sv_E V) (srv_Items s) iid (blob_ID binfo) = (content iid (blob_ID binfo), items1)" "iinv items1"
    using blob_law[of "srv_Items s" iid "blob_ID binfo"] inv g by (auto simp: rd_inv_def good_def)
  have inv2: "rd_inv (?s1\<lparr>srv_Items := items1\<rparr>)" using inv b(2) by (simp add: rd_inv_def)
  have inv3: "rd_inv (start_copy ?k iid (blob_ID binfo) ?s1)"
    using inv g h by (auto simp: rd_inv_def start_copy_def flights_def gget_gset)
  consider "r = Inl ErrNoStore" "s' = s" | c where "r = Inr c" "cs_status c = ContentWaiting" "cs_r c = None" "s' = s \<or> s' = start_copy ?k iid (blob_ID binfo) ?s1"
    | x where "r = Inl x" "s' = ?s1 \<or> s' = ?s1\<lparr>srv_Items := items1\<rparr>"
    | c strm n where "r = Inr c" "cs_status c = ContentLarge" "cs_r c = Some (Plain strm)" "content iid (blob_ID binfo) = Inr (strm, n)" "s' = ?s1\<lparr>srv_Items := items1\<rparr>"
    using f ef b(1) by (auto simp: find_on_tape_def Let_def split: if_splits option.splits sum.splits prod.splits)
  then show ?thesis
  proof cases
    case (4 c strm n)
    obtain data err where strm: "strm = (data, err)" by fastforce
    with 4 content_whole[of iid "blob_ID binfo" data err n] inv2 show ?thesis by auto
  qed (use inv inv1 inv2 inv3 in auto)
qed

text \<open>What \<open>findContent\<close> finds is the content of the blob.\<close>

lemma findContent_ok:
  assumes inv: "rd_inv s" and g: "good iid (blob_ID binfo)"
    and f: "findContent V now s (cache_key iid (blob_ID binfo)) iid binfo doLoad = (r, s')"
  shows "rd_inv s' \<and> (\<forall>c. r = Inr c \<longrightarrow> cs_status c = ContentWaiting \<and> cs_r c = None \<or>
     (\<exists>data. content iid (blob_ID binfo) = Inr ((data, None), int (length data)) \<and>
        (cs_status c = ContentLarge \<and> cs_r c = Some (Plain (data, None)) \<or>
         cs_status c = ContentCached \<and> cs_r c = Some (Seeker (NewReadSeekCloser data (word_of_nat (length data)))))))"
proof -
  let ?k = "cache_key iid (blob_ID binfo)"
  obtain x e c1 where get: "bc_Get C (srv_Cache s) now ?k = ((x, e), c1)" by (metis surj_pair)
  have law: "cinv c1" "holds c1 \<subseteq>\<^sub>m holds (srv_Cache s)" "x = holds (srv_Cache s) ?k" "x \<noteq> None \<longrightarrow> e = None"
    using get_law[OF _ get] inv by (simp_all add: rd_inv_def)
  have inv1: "rd_inv (s\<lparr>srv_Cache := c1\<rparr>)"
    using inv law by (auto simp: rd_inv_def intro: coherent_le flights_le)
  consider (err) y where "e = Some y" | (hit) data where "e = None" "x = Some data" | (miss) "e = None" "x = None" by (cases e; cases x) auto
  then show ?thesis
  proof cases
    case err
    with law(4) have "x = None" by auto
    with err f get inv1 show ?thesis by (auto simp: findContent_def cache)
  next
    case (hit data)
    then have "content iid (blob_ID binfo) = Inr ((data, None), int (length data))" using law(3) inv g by (simp add: rd_inv_def coherent_def)
    with hit f get inv1 show ?thesis by (auto simp: findContent_def cache)
  next
    case miss
    then have "holds c1 ?k = None" using law(2,3) unfolding map_le_def by (metis domIff)
    moreover have "find_on_tape V now (s\<lparr>srv_Cache := c1\<rparr>) ?k iid binfo doLoad = (r, s')" using miss f get by (simp add: findContent_def cache)
    ultimately show ?thesis using find_tape_ok[OF inv1 g] by fastforce
  qed
qed

lemma copy_end_ok:
  assumes w: "writing (srv_Cache s) cw (cache_key iid b) data" and i: "iinv (srv_Items s)" and g: "good iid b" and co: "coherent (holds (srv_Cache s))"
    and fl: "flights (holds (srv_Cache s)) (gdel (cache_key iid b) fl)" and keep: "keep \<Longrightarrow> content iid b = Inr ((data, None), int (length data))"
  shows "rd_inv ((copy_end V now (cache_key iid b) cw keep s)\<lparr>srv_tapeinflight := gdel (cache_key iid b) fl\<rparr>)"
proof -
  let ?k = "cache_key iid b" and ?h = "holds (srv_Cache s)"
  obtain e c1 where close: "bc_Close C (srv_Cache s) now cw = (e, c1)" by fastforce
  obtain e2 c2 where del: "bc_Delete C c1 ?k = (e2, c2)" by fastforce
  have 1: "cinv c1" "holds c1 \<subseteq>\<^sub>m ?h(?k \<mapsto> data)" using close_law[OF w close] by simp_all
  have 2: "cinv c2" "holds c2 \<subseteq>\<^sub>m (holds c1)(?k := None)" using delete_law[OF 1(1) del] by simp_all
  have h2: "holds c2 \<subseteq>\<^sub>m ?h" using 1(2) 2(2) unfolding map_le_def by (metis domIff fun_upd_apply)
  have f1: "flights (holds c1) (gdel ?k fl)" using fl 1(2) unfolding flights_def map_le_def by (metis domIff fun_upd_apply gget_gdel option.distinct(1))
  show ?thesis
  proof (cases "keep \<and> e = None")
    case True
    have "coherent (holds c1)" using coherent_le[OF coherent_new[OF co g] 1(2)] keep True by simp
    with True 1(1) f1 i close show ?thesis by (simp add: copy_end_def cache rd_inv_def)
  next
    case False
    then show ?thesis using 2(1) coherent_le[OF co h2] flights_le[OF fl h2] i close del by (auto simp: copy_end_def cache rd_inv_def)
  qed
qed

lemma finish_copy_ok:
  assumes inv: "rd_inv s"
  shows "rd_inv (finish_copy V now key s)"
proof (cases "gget (srv_tapeinflight s) key")
  case None
  with inv show ?thesis by (simp add: finish_copy_def)
next
  case (Some p)
  obtain iid b where p: "p = (iid, b)" by fastforce
  let ?fl = "srv_tapeinflight s"
  have k: "key = cache_key iid b" "good iid b" "holds (srv_Cache s) key = None" using inv Some p by (auto simp: rd_inv_def flights_def)
  have fl: "flights (holds (srv_Cache s)) (gdel key ?fl)" using inv by (auto simp: rd_inv_def flights_def gget_gdel split: if_splits)
  have c: "cinv (srv_Cache s)" "iinv (srv_Items s)" "coherent (holds (srv_Cache s))" using inv by (simp_all add: rd_inv_def)
  have fin: "finish_copy V now key s = (copyBlobIntoCache V now key iid b s)\<lparr>srv_tapeinflight := gdel key ?fl\<rparr>"
    using Some p by (simp add: finish_copy_def)
  obtain x c1 where put: "bc_Put C (srv_Cache s) key = (x, c1)" by fastforce
  show ?thesis
  proof (cases x)
    case (Inl e)
    have "cinv c1" "holds c1 \<subseteq>\<^sub>m holds (srv_Cache s)" using put_fails[OF c(1) k(3)] put Inl by auto
    then show ?thesis using put Inl c coherent_le flights_le[OF fl] unfolding fin by (simp add: copyBlobIntoCache_def cache rd_inv_def)
  next
    case (Inr cw)
    have w: "writing c1 cw key []" and h1: "holds c1 \<subseteq>\<^sub>m holds (srv_Cache s)" using put_law[OF c(1) k(3)] put Inr by auto
    note co1 = coherent_le[OF c(3) h1] and fl1 = flights_le[OF fl h1]
    obtain items1 where it: "items_Blob (sv_E V) (srv_Items s) iid b = (content iid b, items1)" "iinv items1"
      using blob_law[OF c(2)] k(2) by (auto simp: good_def)
    let ?s1 = "s\<lparr>srv_Cache := c1, srv_Items := items1\<rparr>"
    show ?thesis
    proof (cases "content iid b")
      case (Inl e)
      let ?s2 = "ledger_add now key e ?s1"
      have s2: "srv_Cache ?s2 = c1" "srv_Items ?s2 = items1" by (simp_all add: ledger_add_def)
      have "copyBlobIntoCache V now key iid b s = copy_end V now key cw False ?s2"
        using put \<open>x = Inr cw\<close> it(1) Inl by (simp add: copyBlobIntoCache_def cache)
      then show ?thesis using copy_end_ok[of ?s2 cw iid b "[]" ?fl False] s2 w it(2) k co1 fl1 unfolding fin by simp
    next
      case (Inr y)
      obtain data err n where y: "y = ((data, err), n)" by (metis surj_pair)
      have whole: "content iid b = Inr ((data, None), int (length data))" "n = int (length data)" "err = None"
        using content_whole[of iid b data err n] Inr y by simp_all
      obtain m e c2 cw2 where cp: "cache_copy C now c1 cw (blocks copy_buffer data) 0 = ((m, e), c2, cw2)" by (metis surj_pair)
      obtain b' where b': "holds c2 \<subseteq>\<^sub>m holds c1" "writing c2 cw2 key b'" "e = None \<longrightarrow> b' = data \<and> m = int (length data)"
        using cache_copy_ok[OF w cp] by (auto simp: concat_blocks)
      define s2 where "s2 = ?s1\<lparr>srv_Cache := c2\<rparr>"
      define s3 where "s3 = (case e of None \<Rightarrow> s2 | Some x \<Rightarrow> ledger_add now key x s2)"
      have s3: "srv_Cache s3 = c2" "srv_Items s3 = items1" by (simp_all add: s3_def s2_def ledger_add_def split: option.splits)
      have "copyBlobIntoCache V now key iid b s = copy_stream V now key cw ((data, err), n) ?s1"
        using put \<open>x = Inr cw\<close> it(1) Inr y by (simp add: copyBlobIntoCache_def cache)
      also have "\<dots> = copy_end V now key cw2 (e = None) s3"
        using cp whole(2,3) b'(3) by (auto simp: copy_stream_def cache s3_def s2_def split: option.splits)
      finally show ?thesis
        using copy_end_ok[of s3 cw2 iid b b' ?fl "e = None"] s3 b' it(2) k whole(1) coherent_le[OF co1 b'(1)] flights_le[OF fl1 b'(1)] unfolding fin by simp
    qed
  qed
qed

lemma content_error_code:
  "rs_Code w = 0 \<Longrightarrow> rs_Code (content_error e w) \<in> {404, 410, 500, 503}"
  by (cases e) (simp_all add: content_error_def rs_println_def rs_write_def WriteHeader_def)

lemma send_content_ok:
  assumes "rs_Code w = 0" and "rs_Body w = []" and "rq_Method r = ''GET''"
    and serve: "serves_whole serve r"
    and "cs_r c = Some (Plain (data, None)) \<or> cs_r c = Some (Seeker (NewReadSeekCloser data (word_of_nat (length data))))"
  shows "rs_Code (send_content serve r w binfo c) = 200 \<and> rs_Body (send_content serve r w binfo c) = data"
proof -
  have "rs_Code (hdr_Set k v w) = 0" "rs_Body (hdr_Set k v w) = []" for k v using assms(1,2) by (simp_all add: hdr_Set_def)
  with assms show ?thesis by (auto simp: send_content_def serves_whole_def Let_def rs_write_def WriteHeader_def hdr_Set_def)
qed

text \<open>A GET gives an error or the content of the blob.\<close>

definition answered :: "string \<Rightarrow> int \<Rightarrow> response \<Rightarrow> bool" where
  "answered iid b w = (rs_Code w \<in> {404, 410, 500, 503, 504} \<or> rs_Code w = 200 \<and> content iid b = Inr ((rs_Body w, None), int (length (rs_Body w))))"

lemma hdr_Set_fresh: "rs_Code w = 0 \<Longrightarrow> rs_Body w = [] \<Longrightarrow> rs_Code (hdr_Set k v w) = 0 \<and> rs_Body (hdr_Set k v w) = []"
  by (simp add: hdr_Set_def)

lemma getblob_again_ok:
  assumes inv: "rd_inv s" and g: "good iid (blob_ID binfo)" and w: "rs_Code w = 0" "rs_Body w = []" and m: "rq_Method r = ''GET''"
    and serve: "serves_whole serve r"
    and f: "getblob_again V serve now r w s iid binfo = (w', s')"
  shows "rd_inv s' \<and> answered iid (blob_ID binfo) w'"
proof -
  obtain x s1 where x: "findContent V now s (cache_key iid (blob_ID binfo)) iid binfo True = (x, s1)" by fastforce
  note F = findContent_ok[OF inv g x]
  note S = send_content_ok[OF _ _ m serve]
  show ?thesis
  proof (cases x)
    case (Inl e)
    then have "w' = content_error e w" "s' = s1" using f x by (auto simp: getblob_again_def)
    then show ?thesis using F content_error_code[OF w(1), of e] by (auto simp: answered_def)
  next
    case (Inr c)
    then consider "cs_status c = ContentWaiting" | data where "content iid (blob_ID binfo) = Inr ((data, None), int (length data))"
        "cs_status c = ContentLarge \<and> cs_r c = Some (Plain (data, None)) \<or>
         cs_status c = ContentCached \<and> cs_r c = Some (Seeker (NewReadSeekCloser data (word_of_nat (length data))))"
      using F by blast
    then show ?thesis
    proof cases
      case 1
      then have "w' = rs_println ''The file cannot be accessed at this time'' (WriteHeader 500 w)" "s' = s1" using f x Inr by (auto simp: getblob_again_def)
      then show ?thesis using F w by (simp add: answered_def rs_println_def rs_write_def WriteHeader_def)
    next
      case (2 data)
      have "s' = s1" "rs_Code w' = 200 \<and> rs_Body w' = data"
        using 2(2) f x Inr S[OF w, of c data binfo] S[of "hdr_Set ''X-Cached'' ''2'' w" c data binfo] hdr_Set_fresh[OF w] by (auto simp: getblob_again_def)
      then show ?thesis using F 2(1) by (simp add: answered_def)
    qed
  qed
qed

lemma getblob_ok:
  assumes inv: "rd_inv s" and g: "good iid (blob_ID binfo)" and w: "rs_Code w = 0" "rs_Body w = []" and m: "rq_Method r = ''GET''"
    and serve: "serves_whole serve r"
    and wait: "\<And>s. rd_inv s \<Longrightarrow> rd_inv (snd (wait s))"
    and f: "getblob V serve wait now later r w s iid binfo = (w', s')"
  shows "rd_inv s' \<and> answered iid (blob_ID binfo) w'"
proof -
  obtain x s1 where x: "findContent V now s (cache_key iid (blob_ID binfo)) iid binfo True = (x, s1)" by fastforce
  note F = findContent_ok[OF inv g x]
  note S = send_content_ok[OF _ _ m serve]
  show ?thesis
  proof (cases x)
    case (Inl e)
    then have "w' = content_error e w" "s' = s1" using f x m by (auto simp: getblob_def)
    then show ?thesis using F content_error_code[OF w(1), of e] by (auto simp: answered_def)
  next
    case (Inr c)
    then consider "cs_status c = ContentWaiting" | data where "content iid (blob_ID binfo) = Inr ((data, None), int (length data))"
        "cs_status c = ContentLarge \<and> cs_r c = Some (Plain (data, None)) \<or>
         cs_status c = ContentCached \<and> cs_r c = Some (Seeker (NewReadSeekCloser data (word_of_nat (length data))))"
      using F by blast
    then show ?thesis
    proof cases
      case 1
      let ?w1 = "hdr_Set ''X-Cached'' ''0'' w"
      obtain t s2 where t: "wait s1 = (t, s2)" by fastforce
      have inv2: "rd_inv s2" using wait[of s1] F t by simp
      show ?thesis
      proof (cases t)
        case True
        then have "getblob_again V serve later r ?w1 s2 iid binfo = (w', s')" using f x Inr 1 m t by (auto simp: getblob_def)
        then show ?thesis using getblob_again_ok[OF inv2 g _ _ m serve] hdr_Set_fresh[OF w] by blast
      next
        case False
        then have "w' = rs_println ''timeout'' (WriteHeader 504 ?w1)" "s' = s2" using f x Inr 1 m t by (auto simp: getblob_def)
        then show ?thesis using inv2 hdr_Set_fresh[OF w] by (simp add: answered_def rs_println_def rs_write_def WriteHeader_def)
      qed
    next
      case (2 data)
      have "s' = s1" "rs_Code w' = 200 \<and> rs_Body w' = data"
        using 2(2) f x Inr m S[of "hdr_Set ''X-Cached'' ''1'' w" c data binfo] S[of "hdr_Set ''X-Cached'' ''2'' w" c data binfo] hdr_Set_fresh[OF w] by (auto simp: getblob_def)
      then show ?thesis using F 2(1) by (simp add: answered_def)
    qed
  qed
qed

end

section \<open>Delivery\<close>

context retaining_cache
begin

lemma cache_copy_clean:
  assumes "clean c w k b" and "int (length b + length (concat ps)) \<le> bc_MaxSize C c"
  shows "\<exists>c' w'. cache_copy C now c w ps n = ((n + int (length (concat ps)), None), c', w') \<and> clean c' w' k (b @ concat ps)"
  using assms
proof (induction ps arbitrary: c w b n)
  case (Cons p ps)
  have "int (length b + length p) \<le> bc_MaxSize C c" using Cons.prems(2) by simp
  then obtain c1 w1 where 1: "bc_Write C c now w p = ((length p, None), c1, w1)" "clean c1 w1 k (b @ p)" "bc_MaxSize C c1 = bc_MaxSize C c"
    using write_clean[OF Cons.prems(1)] by blast
  have "int (length (b @ p) + length (concat ps)) \<le> bc_MaxSize C c1" using Cons.prems(2) 1(3) by simp
  from Cons.IH[OF 1(2) this, of "n + int (length p)"] 1(1) show ?case by (simp add: add.assoc)
qed simp

end

locale reading_live = reading C cinv holds writing V iinv content okid + retaining_cache C cinv holds writing clean
  for C :: "('b, 'u) cache_ops" and cinv holds writing and V :: "('s, 'w, 'c, 'f, 'v, 'b, 'u, 't, 'x, 'd) server_env" and iinv content okid clean
begin

lemma finish_copy_holds:
  assumes inv: "rd_inv s" and fl: "gget (srv_tapeinflight s) key = Some (iid, b)"
    and c: "content iid b = Inr ((data, None), int (length data))" and fits: "int (length data) \<le> bc_MaxSize C (srv_Cache s)"
  shows "holds (srv_Cache (finish_copy V now key s)) key = Some data"
proof -
  have k: "good iid b" "holds (srv_Cache s) key = None" "cinv (srv_Cache s)" "iinv (srv_Items s)" using inv fl by (auto simp: rd_inv_def flights_def)
  obtain w c1 where put: "bc_Put C (srv_Cache s) key = (Inr w, c1)" "clean c1 w key []" "bc_MaxSize C c1 = bc_MaxSize C (srv_Cache s)"
    using put_clean[OF k(3,2)] by blast
  obtain items1 where it: "items_Blob (sv_E V) (srv_Items s) iid b = (content iid b, items1)" using blob_law[OF k(4)] k(1) by (auto simp: good_def)
  have "int (length [] + length (concat (blocks copy_buffer data))) \<le> bc_MaxSize C c1" using fits put(3) by (simp add: concat_blocks)
  then obtain c2 w2 where cp: "cache_copy C now c1 w (blocks copy_buffer data) 0 = ((int (length data), None), c2, w2)" "clean c2 w2 key data"
    using cache_copy_clean[OF put(2), of "blocks copy_buffer data" now 0] by (auto simp: concat_blocks)
  obtain c3 where "bc_Close C c2 now w2 = (None, c3)" "holds c3 key = Some data" using close_clean[OF cp(2)] by blast
  with cp(1) put(1) it c fl show ?thesis by (simp add: finish_copy_def copyBlobIntoCache_def copy_stream_def copy_end_def cache)
qed

text \<open>A request that finds the tape in use and no recent error, and whose copy is done in time, gets the content.\<close>

lemma findContent_hit:
  assumes inv: "rd_inv s" and h: "holds (srv_Cache s) (cache_key iid (blob_ID binfo)) = Some data"
  obtains s' c where "findContent V now s (cache_key iid (blob_ID binfo)) iid binfo doLoad = (Inr c, s')" and "cs_status c = ContentCached"
    and "cs_r c = Some (Seeker (NewReadSeekCloser data (word_of_nat (length data))))"
proof -
  obtain x e c1 where get: "bc_Get C (srv_Cache s) now (cache_key iid (blob_ID binfo)) = ((x, e), c1)" by (metis surj_pair)
  have "x = Some data" "e = None" using get_law[OF _ get] inv h by (auto simp: rd_inv_def)
  with get that show thesis by (simp add: findContent_def cache)
qed

lemma getblob_delivers:
  assumes inv: "rd_inv s" and g: "good iid (blob_ID binfo)" and w: "rs_Code w = 0" "rs_Body w = []" and m: "rq_Method r = ''GET''"
    and serve: "serves_whole serve r" and c: "content iid (blob_ID binfo) = Inr ((data, None), int (length data))" and size: "blob_Size binfo = int (length data)"
    and tape: "srv_useTape s" and noerr: "fst (el_find (srv_errorledger s) now (cache_key iid (blob_ID binfo))) = None" and maxpos: "0 < bc_MaxSize C (srv_Cache s)"
    and wait: "\<And>s. wait s = (True, finish_copy V t (cache_key iid (blob_ID binfo)) s)"
  shows "rs_Code (fst (getblob V serve wait now later r w s iid binfo)) = 200 \<and> rs_Body (fst (getblob V serve wait now later r w s iid binfo)) = data"
proof -
  let ?k = "cache_key iid (blob_ID binfo)"
  note S = send_content_ok[OF _ _ m serve] and H = hdr_Set_fresh[OF w]
  obtain x s1 where x: "findContent V now s ?k iid binfo True = (x, s1)" by fastforce
  note F = findContent_ok[OF inv g x]
  obtain y e c1 where get: "bc_Get C (srv_Cache s) now ?k = ((y, e), c1)" by (metis surj_pair)
  have law: "y = holds (srv_Cache s) ?k" "e = None" "bc_MaxSize C c1 = bc_MaxSize C (srv_Cache s)"
    using get_law[OF _ get] get_clean[OF _ get] inv by (simp_all add: rd_inv_def)
  show ?thesis
  proof (cases y)
    case (Some d)
    then have "content iid (blob_ID binfo) = Inr ((d, None), int (length d))" using law(1) inv g by (simp add: rd_inv_def coherent_def)
    then have "d = data" using c by simp
    then have "holds (srv_Cache s) ?k = Some data" using law(1) Some by simp
    then obtain s' cs where "findContent V now s ?k iid binfo True = (Inr cs, s')" "cs_status cs = ContentCached"
        "cs_r cs = Some (Seeker (NewReadSeekCloser data (word_of_nat (length data))))"
      by (rule findContent_hit[OF inv, where now = now and doLoad = True])
    then show ?thesis using S[of "hdr_Set ''X-Cached'' ''1'' w" cs data binfo] H m by (simp add: getblob_def)
  next
    case None
    let ?s0 = "s\<lparr>srv_Cache := c1\<rparr>"
    obtain errs where ef: "el_find (srv_errorledger s) now ?k = (None, errs)" using noerr by (metis prod.collapse)
    obtain items1 where it: "items_Blob (sv_E V) (srv_Items s) iid (blob_ID binfo) = (content iid (blob_ID binfo), items1)"
      using blob_law[of "srv_Items s"] inv g by (auto simp: rd_inv_def good_def)
    have find: "find_on_tape V now ?s0 ?k iid binfo True = (x, s1)" using x get None law(2) by (simp add: findContent_def cache)
    show ?thesis
    proof (cases "blob_Size binfo < bc_MaxSize C c1 div 8")
      case False
      then have "x = Inr \<lparr>cs_status = ContentLarge, cs_r = Some (Plain (data, None)), cs_size = blob_Size binfo, cs_done = None\<rparr>"
        using find ef it c tape maxpos law(3) by (simp add: find_on_tape_def cache)
      then show ?thesis using x S[of "hdr_Set ''X-Cached'' ''2'' w" _ data binfo] H m by (simp add: getblob_def)
    next
      case True
      let ?s1 = "start_copy ?k iid (blob_ID binfo) (?s0\<lparr>srv_errorledger := errs\<rparr>)" and ?w1 = "hdr_Set ''X-Cached'' ''0'' w"
      have r: "x = Inr \<lparr>cs_status = ContentWaiting, cs_r = None, cs_size = blob_Size binfo, cs_done = Some ?k\<rparr>" "s1 = ?s1"
        using find ef tape True by (auto simp: find_on_tape_def cache)
      have inv1: "rd_inv s1" using F by simp
      have "gget (srv_tapeinflight s) ?k \<noteq> Some (j, b)" if "(j, b) \<noteq> (iid, blob_ID binfo)" for j b
        using inv g that cache_key_inj unfolding rd_inv_def flights_def good_def by metis
      then have fl: "gget (srv_tapeinflight s1) ?k = Some (iid, blob_ID binfo)"
        unfolding r(2) by (cases "gget (srv_tapeinflight s) ?k") (auto simp: start_copy_def)
      have "srv_Cache s1 = c1" unfolding r(2) by (simp add: start_copy_def)
      then have fits: "int (length data) \<le> bc_MaxSize C (srv_Cache s1)" using True size maxpos law(3) by simp
      let ?s2 = "finish_copy V t ?k s1"
      from finish_copy_holds[OF inv1 fl c fits, of t] obtain s' cs where "findContent V later ?s2 ?k iid binfo True = (Inr cs, s')" "cs_status cs = ContentCached"
          "cs_r cs = Some (Seeker (NewReadSeekCloser data (word_of_nat (length data))))"
        by (rule findContent_hit[OF finish_copy_ok[OF inv1], where now = later and doLoad = True])
      then show ?thesis using x r(1) wait[of s1] m S[of ?w1 cs data binfo] H by (simp add: getblob_def getblob_again_def)
    qed
  qed
qed

end

section \<open>Sequences of reads\<close>

text \<open>Steps of the server while nothing is written: requests that look for content, of any items with good ids, and copies that run to their end.\<close>

inductive reads :: "('s, 'w, 'c, 'f, 'v, 'b, 'u, 't, 'x, 'd) server_env \<Rightarrow> (string \<Rightarrow> bool) \<Rightarrow> ('s, 'c, 'f, 'b, 't, 'd) server \<Rightarrow> ('s, 'c, 'f, 'b, 't, 'd) server \<Rightarrow> bool"
  for V okid s0 where
  Here: "reads V okid s0 s0"
| Find: "reads V okid s0 s \<Longrightarrow> okid iid \<Longrightarrow> 0 \<le> blob_ID binfo \<Longrightarrow> reads V okid s0 (snd (findContent V now s (cache_key iid (blob_ID binfo)) iid binfo doLoad))"
| Copy: "reads V okid s0 s \<Longrightarrow> reads V okid s0 (finish_copy V now key s)"

context reading
begin

lemma reads_inv:
  assumes "reads V okid s0 s" and "rd_inv s0"
  shows "rd_inv s"
  using assms
proof (induction rule: reads.induct)
  case (Find s iid binfo now doLoad)
  then show ?case using findContent_ok[of s iid binfo now doLoad] by (metis good_def prod.collapse)
qed (simp_all add: finish_copy_ok)

end

section \<open>The server over the in-memory stores\<close>

lemma mem_reading:
  fixes V :: "(memory, nat, 'c, 'f, 'v, memory lru, nat cwriter, 't, 'x, 'd) server_env"
  assumes "env_ok (sv_E V)" and "sv_C V = lru_ops mem_ops"
  shows "reading_live (lru_ops mem_ops) (\<lambda>t. memcache.linv t []) (lru_holds mem_cont) lru_writing V
     (\<lambda>st. item_refine.all_rest mem_cont mem_wst mem_inv (sv_E V) st a) (\<lambda>iid. spec_read iid (a iid)) good_id lru_clean"
proof unfold_locales
  fix st iid b
  assume "item_refine.all_rest mem_cont mem_wst mem_inv (sv_E V) st a" "good_id iid"
  then show "\<exists>st'. items_Blob (sv_E V) st iid b = (spec_read iid (a iid) b, st') \<and> item_refine.all_rest mem_cont mem_wst mem_inv (sv_E V) st' a"
    using item_refine.Blob_all_rest[OF mem_items[OF assms(1)] _ good_id_ok TrueI] by blast
qed (use assms(2) in \<open>auto simp: spec_read_def split: if_splits option.splits\<close>)

lemma start_inv:
  fixes V :: "(memory, nat, 'c, 'f, 'v, memory lru, nat cwriter, 't, 'x, 'd) server_env" and s :: "(memory, 'c, 'f, memory lru, 't, 'd) server"
  assumes "env_ok (sv_E V)" and "sv_C V = lru_ops mem_ops" and "\<forall>j. ic_Lookup (e_C (sv_E V)) c j = None"
    and "sessions_ok good_id (sv_E V) ss (items_NewWithCache NewMemory c) no_items"
    and "srv_Items s = snd (run_sessions (sv_E V) ss (items_NewWithCache NewMemory c))" and "srv_Cache s = NewLRU NewMemory n" and "0 \<le> n" and "srv_tapeinflight s = []"
    and "a = spec_sessions (e_H (sv_E V)) ss no_items"
  shows "reading.rd_inv (\<lambda>t. memcache.linv t []) (lru_holds mem_cont) (\<lambda>st. item_refine.all_rest mem_cont mem_wst mem_inv (sv_E V) st a) (\<lambda>iid. spec_read iid (a iid)) good_id s"
proof -
  have R: "reading (lru_ops mem_ops) (\<lambda>t. memcache.linv t []) (lru_holds mem_cont) lru_writing V
     (\<lambda>st. item_refine.all_rest mem_cont mem_wst mem_inv (sv_E V) st a) (\<lambda>iid. spec_read iid (a iid)) good_id"
    using mem_reading[OF assms(1,2)] by (rule reading_live.axioms(1))
  note I = mem_items[OF assms(1)]
  obtain errs st where run: "run_sessions (sv_E V) ss (items_NewWithCache NewMemory c) = (errs, st)"
    "\<And>iid. \<exists>item B. item_refine.rest mem_cont mem_wst mem_inv (sv_E V) st iid item B \<and> abs_item B item = spec_sessions (e_H (sv_E V)) ss no_items iid"
    by (rule run_rest[OF assms(1,3,4)]) (rule that; assumption)
  then have "item_refine.all_rest mem_cont mem_wst mem_inv (sv_E V) st a" using assms(9) by (simp add: item_refine.all_rest_def[OF I])
  moreover have "memcache.linv (NewLRU NewMemory n) []" using assms(7) by (simp add: lru_inv_def lru_wf_def NewLRU_def)
  moreover have "lru_holds mem_cont (NewLRU NewMemory n) = Map.empty" by (rule ext) (simp add: lru_holds_def lru_Contains_iff NewLRU_def)
  ultimately show ?thesis
    unfolding reading.rd_inv_def[OF R] reading.coherent_def[OF R] reading.flights_def[OF R] using run(1) assms(5,6,8) by simp
qed

definition lru_senv :: "(memory, nat, (string, item) gomap, memory, nat, memory lru, nat cwriter, memory, nat, db) server_env" where
  "lru_senv = \<lparr>sv_E = mem_env, sv_F = mem_ops, sv_C = lru_ops mem_ops, sv_T = mem_ops, sv_TJ = demo_codec, sv_D = ql_blobdb (\<lambda>_ _ _. Inr [])\<rparr>"

definition lru_server :: "(memory, (string, item) gomap, memory, memory lru, memory, db) server" where
  "lru_server = \<lparr>srv_Items = snd (run_sessions mem_env [demo_session] (items_NewWithCache NewMemory [])), srv_FileStore = frag_New_store NewMemory,
     srv_TxStore = tx_New NewMemory, srv_Cache = NewLRU NewMemory 100, srv_BlobDB = new_db [], srv_useTape = True, srv_txqueue = [], srv_errorledger = [], srv_tapeinflight = []\<rparr>"

definition plain_get :: request where
  "plain_get = \<lparr>rq_Method = ''GET'', rq_Header = [], rq_Form = [], rq_BasicAuth = None, rq_Params = [], rq_Body = None\<rparr>"

definition serve_all :: "request \<Rightarrow> response \<Rightarrow> readseekcloser \<Rightarrow> response" where
  "serve_all r w rs = rs_write (rsc_r rs) w"

definition hello_blob :: blob where
  "hello_blob = demo_blob\<lparr>blob_Size := 5\<rparr>"

lemma serve_all_whole: "serves_whole serve_all r"
  by (simp add: serves_whole_def serve_all_def NewReadSeekCloser_def rs_write_def WriteHeader_def)

lemma lru_senv_simps [simp]: "sv_E lru_senv = mem_env" "sv_C lru_senv = lru_ops mem_ops" "e_H mem_env = demo_hashes"
  by (simp_all add: lru_senv_def)

lemma demo_spec: "spec_sessions demo_hashes [demo_session] no_items ''item1'' = ([Some ''hello''], [[(''a.txt'', 1)]])"
  unfolding demo_session_def by code_simp

lemma lru_server_start:
  "env_ok (sv_E lru_senv)" "\<forall>j. ic_Lookup (e_C (sv_E lru_senv)) [] j = None" "sessions_ok good_id (sv_E lru_senv) [demo_session] (items_NewWithCache NewMemory []) no_items"
  "srv_Items lru_server = snd (run_sessions (sv_E lru_senv) [demo_session] (items_NewWithCache NewMemory []))" "srv_Cache lru_server = NewLRU NewMemory 100"
  "srv_tapeinflight lru_server = []" "blob_ID hello_blob = 1" "rq_Method plain_get = ''GET''" "good_id ''item1''"
proof -
  show "env_ok (sv_E lru_senv)" "sessions_ok good_id (sv_E lru_senv) [demo_session] (items_NewWithCache NewMemory []) no_items"
    by (simp_all only: lru_senv_simps mem_env_ok demo_sessions_ok)
  show "good_id ''item1''" by code_simp
qed (simp_all add: memoryCache_ops_def lru_server_def hello_blob_def demo_blob_def plain_get_def)

interpretation lruread: reading_live "lru_ops mem_ops" "\<lambda>t. memcache.linv t []" "lru_holds mem_cont" lru_writing lru_senv
    "\<lambda>st. item_refine.all_rest mem_cont mem_wst mem_inv (sv_E lru_senv) st a" "\<lambda>iid. spec_read iid (a iid)" good_id lru_clean for a
  by (rule mem_reading[OF lru_server_start(1)]) simp

text \<open>C10. A GET request for a blob is answered with an error or with exactly the bytes that were stored in the blob. This holds after any sequence of sessions that
  wrote items and any sequence of requests and copies into the cache that followed, wherever the content comes from, whatever
  the cache evicted, and whatever requests and copies run while this request waits. The request is one that http.ServeContent answers with
  the whole content.\<close>

theorem read_content:
  fixes V :: "(memory, nat, 'c, 'f, 'v, memory lru, nat cwriter, 't, 'x, 'd) server_env"
  assumes "env_ok (sv_E V)" and "sv_C V = lru_ops mem_ops" and "\<forall>j. ic_Lookup (e_C (sv_E V)) c j = None"
    and "sessions_ok good_id (sv_E V) ss (items_NewWithCache NewMemory c) no_items"
    and "srv_Items s0 = snd (run_sessions (sv_E V) ss (items_NewWithCache NewMemory c))" and "srv_Cache s0 = NewLRU NewMemory n" and "0 \<le> n" and "srv_tapeinflight s0 = []"
    and "reads V good_id s0 s" and "good_id iid" and "0 \<le> blob_ID binfo" and "rq_Method r = ''GET''" and "serves_whole serve r" and "\<forall>s. reads V good_id s (snd (wait s))"
    and "getblob V serve wait now later r new_response s iid binfo = (w', s')"
  shows "rs_Code w' \<in> {404, 410, 500, 503, 504} \<or>
     rs_Code w' = 200 \<and> spec_read iid (spec_sessions (e_H (sv_E V)) ss no_items iid) (blob_ID binfo) = Inr ((rs_Body w', None), int (length (rs_Body w')))"
proof -
  let ?a = "spec_sessions (e_H (sv_E V)) ss no_items"
  have R: "reading (lru_ops mem_ops) (\<lambda>t. memcache.linv t []) (lru_holds mem_cont) lru_writing V
     (\<lambda>st. item_refine.all_rest mem_cont mem_wst mem_inv (sv_E V) st ?a) (\<lambda>iid. spec_read iid (?a iid)) good_id"
    using mem_reading[OF assms(1,2)] by (rule reading_live.axioms(1))
  note inv = reading.reads_inv[OF R assms(9) start_inv[OF assms(1-8) refl]]
  have g: "reading.good good_id iid (blob_ID binfo)" using assms(10,11) by (simp add: reading.good_def[OF R])
  have w: "rs_Code new_response = 0" "rs_Body new_response = []" by (simp_all add: new_response_def)
  from reading.getblob_ok[OF R inv g w assms(12,13) _ assms(15)] reading.reads_inv[OF R] assms(14)
  show ?thesis unfolding reading.answered_def[OF R] by blast
qed

theorem read_content_witness:
  "let w = fst (getblob lru_senv serve_all (\<lambda>s. (True, finish_copy lru_senv 5 ''item1+0001'' s)) 1 9 plain_get new_response lru_server ''item1'' hello_blob)
   in rs_Code w \<in> {404, 410, 500, 503, 504} \<or> rs_Code w = 200 \<and> rs_Body w = ''hello''"
proof -
  let ?wait = "\<lambda>s. (True, finish_copy lru_senv 5 ''item1+0001'' s)"
  obtain w' s' where g: "getblob lru_senv serve_all ?wait 1 9 plain_get new_response lru_server ''item1'' hello_blob = (w', s')" by fastforce
  have wait: "\<forall>s. reads lru_senv good_id s (snd (?wait s))" by (simp add: reads.Copy reads.Here)
  have b: "0 \<le> blob_ID hello_blob" by (simp add: lru_server_start(7))
  from read_content[OF lru_server_start(1) lru_senv_simps(2) lru_server_start(2-5) _ lru_server_start(6) reads.Here lru_server_start(9) b lru_server_start(8) serve_all_whole wait g]
  show ?thesis unfolding g Let_def by (auto simp: lru_server_start(7) demo_spec spec_read_def)
qed

text \<open>C34. Delivery: when the tape is in use, no error was recorded for the blob in the last half minute, and its copy into the cache, if one is needed, ends within the time a request waits, then
  a GET request for a blob that is stored gets its content.\<close>

theorem read_delivers:
  fixes V :: "(memory, nat, 'c, 'f, 'v, memory lru, nat cwriter, 't, 'x, 'd) server_env"
  assumes "env_ok (sv_E V)" and "sv_C V = lru_ops mem_ops" and "\<forall>j. ic_Lookup (e_C (sv_E V)) c j = None"
    and "sessions_ok good_id (sv_E V) ss (items_NewWithCache NewMemory c) no_items"
    and "srv_Items s0 = snd (run_sessions (sv_E V) ss (items_NewWithCache NewMemory c))" and "srv_Cache s0 = NewLRU NewMemory n" and "0 \<le> n" and "srv_tapeinflight s0 = []"
    and "reads V good_id s0 s" and "good_id iid" and "0 \<le> blob_ID binfo" and "rq_Method r = ''GET''" and "serves_whole serve r"
    and "wait = (\<lambda>s. (True, finish_copy V t (cache_key iid (blob_ID binfo)) s))"
    and "spec_read iid (spec_sessions (e_H (sv_E V)) ss no_items iid) (blob_ID binfo) = Inr ((data, None), int (length data))" and "blob_Size binfo = int (length data)"
    and "srv_useTape s" and "fst (el_find (srv_errorledger s) now (cache_key iid (blob_ID binfo))) = None" and "0 < lru_MaxSize (srv_Cache s)"
  shows "rs_Code (fst (getblob V serve wait now later r new_response s iid binfo)) = 200 \<and> rs_Body (fst (getblob V serve wait now later r new_response s iid binfo)) = data"
proof -
  let ?a = "spec_sessions (e_H (sv_E V)) ss no_items"
  note L = mem_reading[OF assms(1,2), where a = ?a]
  note R = reading_live.axioms(1)[OF L]
  note inv = reading.reads_inv[OF R assms(9) start_inv[OF assms(1-8) refl]]
  have g: "reading.good good_id iid (blob_ID binfo)" using assms(10,11) by (simp add: reading.good_def[OF R])
  have w: "rs_Code new_response = 0" "rs_Body new_response = []" by (simp_all add: new_response_def)
  have m: "0 < bc_MaxSize (lru_ops mem_ops) (srv_Cache s)" using assms(19) by (simp add: lru_ops_def)
  show ?thesis
    by (rule reading_live.getblob_delivers[OF L inv g w assms(12,13,15-18) m]) (simp add: assms(14))
qed

theorem read_delivers_witness:
  "rs_Body (fst (getblob lru_senv serve_all (\<lambda>s. (True, finish_copy lru_senv 5 (cache_key ''item1'' (blob_ID hello_blob)) s)) 1 9 plain_get new_response lru_server ''item1'' hello_blob)) = ''hello''"
proof -
  have b: "0 \<le> blob_ID hello_blob" "blob_Size hello_blob = int (length ''hello'')" by (simp_all add: lru_server_start(7)) (simp add: hello_blob_def)
  have c: "spec_read ''item1'' (spec_sessions (e_H (sv_E lru_senv)) [demo_session] no_items ''item1'') (blob_ID hello_blob) = Inr ((''hello'', None), int (length ''hello''))"
    by (simp add: lru_server_start(7) demo_spec spec_read_def)
  have s: "srv_useTape lru_server" "fst (el_find (srv_errorledger lru_server) 1 (cache_key ''item1'' (blob_ID hello_blob))) = None" "0 < lru_MaxSize (srv_Cache lru_server)"
    by (simp_all add: lru_server_def el_find_def lru_MaxSize_def NewLRU_def)
  show ?thesis
    using read_delivers[OF lru_server_start(1) lru_senv_simps(2) lru_server_start(2-5) _ lru_server_start(6) reads.Here lru_server_start(9) b(1) lru_server_start(8) serve_all_whole refl c b(2) s]
    by simp
qed

end
