(* ===== verification/Fixity.thy ===== *)
theory Fixity
  imports Server_Tx Database_Mysql Item_Validate
begin

text \<open>
  The fixity service, src/server/fixity.go: the interface of its database, the loop that checks items, the scan that schedules
  checks, and the handlers. The state is the part of \<open>RESTServer\<close> that the service uses: the item store, the switch of the tape and the database.

  The loop of \<open>fixity\<close> does not return; \<open>fixity_round\<close> is one round of it and says whether the round ends in the sleep of an hour. Random
  numbers are an argument \<open>rnd\<close>, which stands for \<open>rand.Int63n\<close>. The counters of expvar, the log and the reports to Sentry are left out. \<open>StartFixity\<close> only starts
  the loop and the daily scan.
\<close>

section \<open>The interface of the database\<close>

record 'd fixitydb =
  fd_NextFixity :: "'d \<Rightarrow> time \<Rightarrow> int \<times> 'd"
  fd_GetFixity :: "'d \<Rightarrow> int \<Rightarrow> fixity_rec option \<times> 'd"
  fd_SearchFixity :: "'d \<Rightarrow> time \<Rightarrow> time \<Rightarrow> string \<Rightarrow> string \<Rightarrow> fixity_rec list \<times> 'd"
  fd_UpdateFixity :: "'d \<Rightarrow> fixity_rec \<Rightarrow> int result \<times> 'd"
  fd_DeleteFixity :: "'d \<Rightarrow> int \<Rightarrow> error option \<times> 'd"
  fd_LookupCheck :: "'d \<Rightarrow> string \<Rightarrow> time result \<times> 'd"

definition ql_fixitydb :: "db fixitydb" where
  "ql_fixitydb = \<lparr>fd_NextFixity = ql_NextFixity, fd_GetFixity = ql_GetFixity, fd_SearchFixity = ql_SearchFixity,
     fd_UpdateFixity = ql_UpdateFixity, fd_DeleteFixity = ql_DeleteFixity, fd_LookupCheck = ql_LookupCheck\<rparr>"

definition my_fixitydb :: "(time \<Rightarrow> time) \<Rightarrow> db fixitydb" where
  "my_fixitydb dt = \<lparr>fd_NextFixity = my_NextFixity, fd_GetFixity = my_GetFixity, fd_SearchFixity = my_SearchFixity,
     fd_UpdateFixity = my_UpdateFixity dt, fd_DeleteFixity = my_DeleteFixity, fd_LookupCheck = my_LookupCheck\<rparr>"

record ('s, 'c, 'd) fixity_state =
  fs_Items :: "('s, 'c) item_store"
  fs_useTape :: bool
  fs_DB :: 'd

section \<open>Scheduling\<close>

definition nextFixityWindowBegin :: int where
  "nextFixityWindowBegin = 182 * 24 * hour"

definition nextFixityWindowEnd :: int where
  "nextFixityWindowEnd = 365 * 24 * hour"

text \<open>A record with only the item and the time set.\<close>

definition new_check :: "string \<Rightarrow> time \<Rightarrow> fixity_rec" where
  "new_check item t = \<lparr>fx_ID = 0, fx_Item = item, fx_ScheduledTime = t, fx_Status = '''', fx_Notes = ''''\<rparr>"

definition addwithjitter :: "'d fixitydb \<Rightarrow> (int \<Rightarrow> int) \<Rightarrow> time \<Rightarrow> string \<Rightarrow> int \<Rightarrow> int \<Rightarrow> 'd \<Rightarrow> 'd" where
  "addwithjitter FD rnd now iid earliest latest d =
     (let jitter = rnd (latest - earliest) in snd (fd_UpdateFixity FD d (new_check iid (now + (earliest + jitter)))))"

fun scan_ids :: "'d fixitydb \<Rightarrow> (string \<Rightarrow> int \<Rightarrow> int) \<Rightarrow> (string \<Rightarrow> time) \<Rightarrow> string list \<Rightarrow> 'd \<Rightarrow> 'd" where
  "scan_ids FD rnd clock [] d = d"
| "scan_ids FD rnd clock (iid # iids) d =
     (case fd_LookupCheck FD d iid of
        (Inl e, d1) \<Rightarrow> scan_ids FD rnd clock iids d1
      | (Inr t, d1) \<Rightarrow>
          if t \<noteq> 0 then scan_ids FD rnd clock iids d1
          else scan_ids FD rnd clock iids (addwithjitter FD (rnd iid) (clock iid) iid 0 (12 * hour) d1))"

text \<open>\<open>clock iid\<close> is the time at which the scan comes to the item and \<open>rnd iid\<close> the random number drawn for it.\<close>

definition scanfixity ::
  "('s, 'w, 'c) item_env \<Rightarrow> 'd fixitydb \<Rightarrow> (string \<Rightarrow> int \<Rightarrow> int) \<Rightarrow> (string \<Rightarrow> time) \<Rightarrow> ('s, 'c, 'd) fixity_state \<Rightarrow> ('s, 'c, 'd) fixity_state" where
  "scanfixity E FD rnd clock s = s\<lparr>fs_DB := scan_ids FD rnd clock (items_List E (fs_Items s)) (fs_DB s)\<rparr>"

section \<open>The loop\<close>

text \<open>The result of a validation in the record.\<close>

definition check_result :: "string list \<Rightarrow> error option \<Rightarrow> fixity_rec \<Rightarrow> fixity_rec" where
  "check_result problems err fx =
     (case err of
        Some e \<Rightarrow> fx\<lparr>fx_Status := ''error'', fx_Notes := err_Error e\<rparr>
      | None \<Rightarrow> if problems \<noteq> [] then fx\<lparr>fx_Status := ''mismatch'', fx_Notes := join [newline] problems\<rparr> else fx\<lparr>fx_Status := ''ok''\<rparr>)"

text \<open>After a check: the record is stored, and the next check is scheduled unless there is one; an error of \<open>LookupCheck\<close> counts as none.\<close>

definition check_done :: "'d fixitydb \<Rightarrow> (int \<Rightarrow> int) \<Rightarrow> time \<Rightarrow> fixity_rec \<Rightarrow> 'd \<Rightarrow> 'd" where
  "check_done FD rnd now fx d =
     (let d1 = snd (fd_UpdateFixity FD d fx) in
      case fd_LookupCheck FD d1 (fx_Item fx) of
        (r, d2) \<Rightarrow>
          if (case r of Inl e \<Rightarrow> True | Inr t \<Rightarrow> t = 0)
          then addwithjitter FD rnd now (fx_Item fx) nextFixityWindowBegin nextFixityWindowEnd d2 else d2)"

definition fixity_round ::
  "('s, 'w, 'c) item_env \<Rightarrow> 'd fixitydb \<Rightarrow> (int \<Rightarrow> int) \<Rightarrow> time \<Rightarrow> time \<Rightarrow> ('s, 'c, 'd) fixity_state \<Rightarrow> bool \<times> ('s, 'c, 'd) fixity_state" where
  "fixity_round E FD rnd now later s =
     (let (fid, d1) = fd_NextFixity FD (fs_DB s) now in
      if fid = 0 \<or> \<not> fs_useTape s then (True, s\<lparr>fs_DB := d1\<rparr>)
      else
        (case fd_GetFixity FD d1 fid of
           (None, d2) \<Rightarrow> (False, s\<lparr>fs_DB := d2\<rparr>)
         | (Some fx, d2) \<Rightarrow>
             (let ((nbytes, problems, err), items1) = items_Validate E (fs_Items s) (fx_Item fx)
              in (False, s\<lparr>fs_Items := items1, fs_DB := check_done FD rnd later (check_result problems err fx) d2\<rparr>))))"

section \<open>Handlers\<close>

text \<open>\<open>parse_time\<close> and \<open>parse_date\<close> are \<open>time.Parse\<close> with the two layouts; \<open>midnight\<close> gives the start of the day of a time.\<close>

definition timeValidate :: "(string \<Rightarrow> time result) \<Rightarrow> (string \<Rightarrow> time result) \<Rightarrow> string \<Rightarrow> time \<Rightarrow> time result" where
  "timeValidate parse_time parse_date s missing =
     (if s = '''' then Inr missing
      else if s = ''*'' then Inr 0
      else case parse_time s of Inr t \<Rightarrow> Inr t | Inl e \<Rightarrow> parse_date s)"

definition statusValidate :: "string \<Rightarrow> string result" where
  "statusValidate param =
     (if param \<in> {''scheduled'', ''error'', ''mismatch'', ''ok'', ''''} then Inr param
      else Inl (ErrMessage ''Invalid status value provided''))"

definition bad_request :: "error \<Rightarrow> response \<Rightarrow> response" where
  "bad_request e w = rs_println (err_Error e) (WriteHeader 400 w)"

definition GetFixityHandler ::
  "'d fixitydb \<Rightarrow> (string \<Rightarrow> time result) \<Rightarrow> (string \<Rightarrow> time result) \<Rightarrow> (time \<Rightarrow> time) \<Rightarrow> (fixity_rec list \<Rightarrow> bytes) \<Rightarrow> time \<Rightarrow> ('s, 'c, 'd) fixity_state handler" where
  "GetFixityHandler FD parse_time parse_date midnight js now r w s =
     (let lastnight = midnight now; tonight = lastnight + 24 * hour in
      case timeValidate parse_time parse_date (FormValue r ''start'') lastnight of
        Inl e \<Rightarrow> (bad_request e w, s)
      | Inr startValue \<Rightarrow>
          (case timeValidate parse_time parse_date (FormValue r ''end'') tonight of
             Inl e \<Rightarrow> (bad_request e w, s)
           | Inr endValue \<Rightarrow>
               (case statusValidate (FormValue r ''status'') of
                  Inl e \<Rightarrow> (bad_request e w, s)
                | Inr statusValue \<Rightarrow>
                    (case fd_SearchFixity FD (fs_DB s) startValue endValue (FormValue r ''item'') statusValue of
                       (result, d1) \<Rightarrow> (if result = [] then rs_println ''[]'' w else rs_write (js result) w, s\<lparr>fs_DB := d1\<rparr>)))))"

definition GetFixityIdHandler :: "'d fixitydb \<Rightarrow> (fixity_rec \<Rightarrow> bytes) \<Rightarrow> ('s, 'c, 'd) fixity_state handler" where
  "GetFixityIdHandler FD js r w s =
     (case parse_int (ByName r ''id'') of
        None \<Rightarrow> (WriteHeader 404 w, s)
      | Some id0 \<Rightarrow>
          (case fd_GetFixity FD (fs_DB s) id0 of
             (None, d1) \<Rightarrow> (rs_println (''GET /fixity/ '' @ ByName r ''id'' @ ''  Not Found'') (WriteHeader 404 w), s\<lparr>fs_DB := d1\<rparr>)
           | (Some result, d1) \<Rightarrow> (rs_write (js result) w, s\<lparr>fs_DB := d1\<rparr>)))"

definition DeleteFixityHandler :: "'d fixitydb \<Rightarrow> ('s, 'c, 'd) fixity_state handler" where
  "DeleteFixityHandler FD r w s =
     (case parse_int (ByName r ''id'') of
        None \<Rightarrow> (WriteHeader 404 w, s)
      | Some id0 \<Rightarrow>
          (case fd_DeleteFixity FD (fs_DB s) id0 of
             (None, d1) \<Rightarrow> (w, s\<lparr>fs_DB := d1\<rparr>)
           | (Some e, d1) \<Rightarrow> (rs_println (err_Error e) (WriteHeader 500 w), s\<lparr>fs_DB := d1\<rparr>)))"

text \<open>The answer to an update.\<close>

definition updated :: "int result \<times> 'd \<Rightarrow> response \<Rightarrow> ('s, 'c, 'd) fixity_state \<Rightarrow> response \<times> ('s, 'c, 'd) fixity_state" where
  "updated u w s =
     (case u of
        (Inl e, d1) \<Rightarrow> (rs_println (err_Error e) (WriteHeader 500 w), s\<lparr>fs_DB := d1\<rparr>)
      | (Inr fid, d1) \<Rightarrow> (w, s\<lparr>fs_DB := d1\<rparr>))"

definition PutFixityHandler :: "'d fixitydb \<Rightarrow> time \<Rightarrow> ('s, 'c, 'd) fixity_state handler" where
  "PutFixityHandler FD now r w s =
     (case parse_int (ByName r ''id'') of
        None \<Rightarrow> (WriteHeader 404 w, s)
      | Some id0 \<Rightarrow>
          (case fd_GetFixity FD (fs_DB s) id0 of
             (None, d1) \<Rightarrow> (WriteHeader 404 w, s\<lparr>fs_DB := d1\<rparr>)
           | (Some record, d1) \<Rightarrow> updated (fd_UpdateFixity FD d1 (record\<lparr>fx_ScheduledTime := now\<rparr>)) w s))"

definition PostFixityHandler :: "'d fixitydb \<Rightarrow> time \<Rightarrow> ('s, 'c, 'd) fixity_state handler" where
  "PostFixityHandler FD now r w s = updated (fd_UpdateFixity FD (fs_DB s) (new_check (ByName r ''item'') now)) w s"

end
