(* ===== verification/Fixity_Correct.thy ===== *)
theory Fixity_Correct
  imports Fixity Database_Correct
begin

text \<open>
  The fixity service over its database. The locale \<open>fixity_store\<close> is what the service relies on; both databases provide it. The
  properties: records of checks that are done never change, the scan leaves no item without a scheduled check, and a round of the loop
  does the earliest check that is due, so that no check stays due for ever.
\<close>

section \<open>The contract of the database\<close>

definition due :: "time \<Rightarrow> fixity_rec \<Rightarrow> bool" where
  "due now q = (scheduled q \<and> fx_ScheduledTime q \<le> now)"

definition ids_fresh :: "fixity_rec list \<Rightarrow> bool" where
  "ids_fresh rs = (distinct (map fx_ID rs) \<and> (\<forall>q \<in> set rs. fx_ID q \<noteq> 0))"

text \<open>The times of the scheduled checks of an item.\<close>

definition check_times :: "fixity_rec list \<Rightarrow> string \<Rightarrow> time set" where
  "check_times rs iid = fx_ScheduledTime ` {q \<in> set rs. fx_Item q = iid \<and> scheduled q}"

text \<open>\<open>rows d\<close> are the records, \<open>ok\<close> an invariant, \<open>quiet d\<close> says that no statement fails from now on, and \<open>dt\<close> is the date that the database returns for a date.\<close>

locale fixity_store =
  fixes FD :: "'d fixitydb" and rows :: "'d \<Rightarrow> fixity_rec list" and ok :: "'d \<Rightarrow> bool" and quiet :: "'d \<Rightarrow> bool" and dt :: "time \<Rightarrow> time"
  assumes next_rows: "fd_NextFixity FD d now = (i, d') \<Longrightarrow> rows d' = rows d \<and> (ok d \<longrightarrow> ok d')"
    and get_rows: "fd_GetFixity FD d i = (g, d') \<Longrightarrow> rows d' = rows d \<and> (ok d \<longrightarrow> ok d')"
    and search_rows: "fd_SearchFixity FD d a b item st = (rs, d') \<Longrightarrow> rows d' = rows d \<and> (ok d \<longrightarrow> ok d')"
    and lookup_rows: "fd_LookupCheck FD d item = (l, d') \<Longrightarrow> rows d' = rows d \<and> (ok d \<longrightarrow> ok d')"
    and update_keeps: "fd_UpdateFixity FD d r = (u, d') \<Longrightarrow> q \<in> set (rows d) \<Longrightarrow> \<not> scheduled q \<Longrightarrow> q \<in> set (rows d')"
    and delete_keeps: "fd_DeleteFixity FD d i = (e, d') \<Longrightarrow> q \<in> set (rows d) \<Longrightarrow> \<not> scheduled q \<Longrightarrow> q \<in> set (rows d')"
    and update_inv: "fd_UpdateFixity FD d r = (u, d') \<Longrightarrow> ok d \<Longrightarrow> ok d'"
    and delete_inv: "fd_DeleteFixity FD d i = (e, d') \<Longrightarrow> ok d \<Longrightarrow> ok d'"
    and ok_fresh: "ok d \<Longrightarrow> ids_fresh (rows d)"
    and near: "\<bar>dt t - t\<bar> \<le> second"
    and next_none: "quiet d \<Longrightarrow> \<forall>q \<in> set (rows d). \<not> due now q \<Longrightarrow> fd_NextFixity FD d now = (0, d)"
    and next_due: "quiet d \<Longrightarrow> \<exists>q \<in> set (rows d). due now q \<Longrightarrow>
      \<exists>q \<in> set (rows d). due now q \<and> (\<forall>p \<in> set (rows d). due now p \<longrightarrow> fx_ScheduledTime q \<le> fx_ScheduledTime p) \<and> fd_NextFixity FD d now = (fx_ID q, d)"
    and get_quiet: "quiet d \<Longrightarrow> fd_GetFixity FD d i = (find (\<lambda>r. fx_ID r = i) (rows d), d)"
    and lookup_none: "quiet d \<Longrightarrow> check_times (rows d) iid = {} \<Longrightarrow> fd_LookupCheck FD d iid = (Inr 0, d)"
    and lookup_some: "quiet d \<Longrightarrow> check_times (rows d) iid \<noteq> {} \<Longrightarrow> fd_LookupCheck FD d iid = (Inr (Min (check_times (rows d) iid)), d)"
    and insert_quiet: "quiet d \<Longrightarrow> ok d \<Longrightarrow> fx_ID r = 0 \<Longrightarrow>
      \<exists>i d'. fd_UpdateFixity FD d r = (Inr i, d') \<and> quiet d' \<and> ok d' \<and>
        rows d' = rows d @ [(default_status r)\<lparr>fx_ID := i, fx_ScheduledTime := dt (fx_ScheduledTime r)\<rparr>]"
    and update_quiet: "quiet d \<Longrightarrow> ok d \<Longrightarrow> fx_ID r \<noteq> 0 \<Longrightarrow>
      \<exists>d'. fd_UpdateFixity FD d r = (Inr (fx_ID r), d') \<and> quiet d' \<and> ok d' \<and>
        rows d' = map (\<lambda>q. if fx_ID q = fx_ID r \<and> scheduled q then (default_status r)\<lparr>fx_ScheduledTime := dt (fx_ScheduledTime r)\<rparr> else q) (rows d)"

section \<open>Records of checks that are done\<close>

text \<open>Everything that the service does, in any order, with whatever answers of the database: rounds of the loop, scans and requests.\<close>

inductive fixity_reach ::
  "('s, 'w, 'c) item_env \<Rightarrow> 'd fixitydb \<Rightarrow> ('s, 'c, 'd) fixity_state \<Rightarrow> ('s, 'c, 'd) fixity_state \<Rightarrow> bool" for E FD s0 where
  Start: "fixity_reach E FD s0 s0"
| Round: "fixity_reach E FD s0 s \<Longrightarrow> fixity_reach E FD s0 (snd (fixity_round E FD rnd now later s))"
| Scan: "fixity_reach E FD s0 s \<Longrightarrow> fixity_reach E FD s0 (scanfixity E FD rnds clock s)"
| Get: "fixity_reach E FD s0 s \<Longrightarrow> fixity_reach E FD s0 (snd (GetFixityHandler FD pt pd midnight js now r w s))"
| GetId: "fixity_reach E FD s0 s \<Longrightarrow> fixity_reach E FD s0 (snd (GetFixityIdHandler FD js1 r w s))"
| Delete: "fixity_reach E FD s0 s \<Longrightarrow> fixity_reach E FD s0 (snd (DeleteFixityHandler FD r w s))"
| Put: "fixity_reach E FD s0 s \<Longrightarrow> fixity_reach E FD s0 (snd (PutFixityHandler FD now r w s))"
| Post: "fixity_reach E FD s0 s \<Longrightarrow> fixity_reach E FD s0 (snd (PostFixityHandler FD now r w s))"

text \<open>Rounds of the loop one after the other, with the same time as the limit of what is due.\<close>

fun run_rounds ::
  "('s, 'w, 'c) item_env \<Rightarrow> 'd fixitydb \<Rightarrow> ((int \<Rightarrow> int) \<times> time) list \<Rightarrow> time \<Rightarrow> ('s, 'c, 'd) fixity_state \<Rightarrow> ('s, 'c, 'd) fixity_state" where
  "run_rounds E FD [] now s = s"
| "run_rounds E FD ((rnd, later) # rs) now s = run_rounds E FD rs now (snd (fixity_round E FD rnd now later s))"

context fixity_store
begin

definition kept :: "'d \<Rightarrow> 'd \<Rightarrow> bool" where
  "kept d d' = ((\<forall>q \<in> set (rows d). \<not> scheduled q \<longrightarrow> q \<in> set (rows d')) \<and> (ok d \<longrightarrow> ok d'))"

lemma kept_refl [simp]: "kept d d"
  by (simp add: kept_def)

lemma kept_trans [trans]: "kept d d1 \<Longrightarrow> kept d1 d2 \<Longrightarrow> kept d d2"
  by (simp add: kept_def)

lemma kept_rows: "rows d' = rows d \<and> (ok d \<longrightarrow> ok d') \<Longrightarrow> kept d d'"
  by (simp add: kept_def)

lemma kept_update: "kept d (snd (fd_UpdateFixity FD d r))"
  using update_keeps[of d r] update_inv[of d r] unfolding kept_def by (metis prod.collapse)

lemma kept_jitter: "kept d (addwithjitter FD rnd now iid a b d)"
  by (simp add: addwithjitter_def kept_update)

lemma kept_queries:
  "fd_NextFixity FD d now = (i, d') \<Longrightarrow> kept d d'" "fd_GetFixity FD d j = (x, d') \<Longrightarrow> kept d d'"
  "fd_SearchFixity FD d a b item st = (rs, d') \<Longrightarrow> kept d d'" "fd_LookupCheck FD d item = (t, d') \<Longrightarrow> kept d d'"
  "fd_DeleteFixity FD d j = (e, d') \<Longrightarrow> kept d d'"
  by (blast intro: kept_rows dest: next_rows get_rows search_rows lookup_rows)+ (use delete_keeps delete_inv kept_def in blast)

lemma kept_scan: "kept d (scan_ids FD rnds clock iids d)"
proof (induction iids arbitrary: d)
  case (Cons iid iids)
  obtain t d1 where l: "fd_LookupCheck FD d iid = (t, d1)" by fastforce
  have 1: "kept d d1" by (rule kept_queries(4)[OF l])
  have 2: "kept d (addwithjitter FD (rnds iid) (clock iid) iid 0 (12 * hour) d1)" using kept_trans[OF 1 kept_jitter] .
  show ?case using l kept_trans[OF 1 Cons.IH] kept_trans[OF 2 Cons.IH] by (auto split: sum.splits)
qed simp

lemma kept_done: "kept d (check_done FD rnd now fx d)"
proof -
  let ?d1 = "snd (fd_UpdateFixity FD d fx)"
  obtain t d2 where l: "fd_LookupCheck FD ?d1 (fx_Item fx) = (t, d2)" by fastforce
  have 1: "kept d d2" using kept_trans[OF kept_update kept_queries(4)[OF l]] .
  then show ?thesis using l kept_trans[OF 1 kept_jitter] by (simp add: check_done_def)
qed

lemma kept_round: "kept (fs_DB s) (fs_DB (snd (fixity_round E FD rnd now later s)))"
proof -
  obtain i d1 where n: "fd_NextFixity FD (fs_DB s) now = (i, d1)" by fastforce
  obtain x d2 where g: "fd_GetFixity FD d1 i = (x, d2)" by fastforce
  have 1: "kept (fs_DB s) d1" by (rule kept_queries(1)[OF n])
  have 2: "kept (fs_DB s) d2" using kept_trans[OF 1 kept_queries(2)[OF g]] .
  show ?thesis using n g 1 2 kept_trans[OF 2 kept_done]
    by (auto simp: fixity_round_def split: option.splits prod.splits)
qed

lemma kept_updated: "kept d d1 \<Longrightarrow> kept d (fs_DB (snd (updated (fd_UpdateFixity FD d1 r) w s)))"
  using kept_trans[OF _ kept_update[of d1 r]] by (auto simp: updated_def split: prod.splits sum.splits)

lemma kept_reach:
  assumes "fixity_reach E FD s0 s"
  shows "kept (fs_DB s0) (fs_DB s)"
  using assms
proof (induction rule: fixity_reach.induct)
  case (Round s rnd now later)
  then show ?case using kept_trans kept_round by blast
next
  case (Scan s rnds clock)
  then show ?case using kept_trans[OF Scan.IH kept_scan] by (simp add: scanfixity_def)
next
  case (Get s pt pd midnight js now r w)
  then show ?case
    by (auto simp: GetFixityHandler_def Let_def split: sum.splits prod.splits intro: kept_trans[OF Get.IH] kept_queries(3))
next
  case (GetId s js1 r w)
  then show ?case
    by (auto simp: GetFixityIdHandler_def split: option.splits prod.splits intro: kept_trans[OF GetId.IH] kept_queries(2))
next
  case (Delete s r w)
  then show ?case
    by (auto simp: DeleteFixityHandler_def split: option.splits prod.splits intro: kept_trans[OF Delete.IH] kept_queries(5))
next
  case (Put s now r w)
  then show ?case
    by (auto simp: PutFixityHandler_def split: option.splits prod.splits intro!: kept_updated intro: kept_trans[OF Put.IH] kept_queries(2))
next
  case (Post s now r w)
  then show ?case by (simp add: PostFixityHandler_def kept_updated)
qed simp

text \<open>The scan.\<close>

lemma jitter_row:
  assumes "quiet d" and "ok d" and "0 \<le> rnd (b - a) \<and> rnd (b - a) < b - a"
  shows "\<exists>q. rows (addwithjitter FD rnd now iid a b d) = rows d @ [q] \<and> fx_Item q = iid \<and> scheduled q \<and>
     now + a - second \<le> fx_ScheduledTime q \<and> fx_ScheduledTime q < now + b + second \<and> quiet (addwithjitter FD rnd now iid a b d) \<and> ok (addwithjitter FD rnd now iid a b d)"
proof -
  let ?t = "now + (a + rnd (b - a))"
  obtain i d' where u: "fd_UpdateFixity FD d (new_check iid ?t) = (Inr i, d')" "quiet d'" "ok d'"
      "rows d' = rows d @ [(default_status (new_check iid ?t))\<lparr>fx_ID := i, fx_ScheduledTime := dt ?t\<rparr>]"
    using insert_quiet[OF assms(1,2), of "new_check iid ?t"] by (auto simp: new_check_def)
  have "\<bar>dt ?t - ?t\<bar> \<le> second" by (rule near)
  with u assms(3) show ?thesis by (auto simp: addwithjitter_def default_status_def new_check_def scheduled_def)
qed

lemma check_times_append: "check_times (rs @ rs') iid = check_times rs iid \<union> check_times rs' iid"
  by (auto simp: check_times_def)

lemma lookup_quiet: "quiet d \<Longrightarrow> \<exists>t. fd_LookupCheck FD d iid = (Inr t, d) \<and> (t \<noteq> 0 \<longrightarrow> check_times (rows d) iid \<noteq> {})"
  using lookup_none lookup_some by metis

lemma scan_covers:
  assumes "quiet d" and "ok d" and "\<forall>iid n. 0 < n \<longrightarrow> 0 \<le> rnds iid n \<and> rnds iid n < n"
  shows "\<exists>new. rows (scan_ids FD rnds clock iids d) = rows d @ new \<and> (\<forall>iid \<in> set iids. check_times (rows d @ new) iid \<noteq> {}) \<and>
     (\<forall>q \<in> set new. fx_Item q \<in> set iids \<and> scheduled q \<and>
        clock (fx_Item q) - second \<le> fx_ScheduledTime q \<and> fx_ScheduledTime q < clock (fx_Item q) + 12 * hour + second)"
  using assms(1,2)
proof (induction iids arbitrary: d)
  case (Cons iid iids)
  obtain t where t: "fd_LookupCheck FD d iid = (Inr t, d)" "t \<noteq> 0 \<longrightarrow> check_times (rows d) iid \<noteq> {}" using lookup_quiet[OF Cons.prems(1)] by blast
  show ?case
  proof (cases "t = 0")
    case False
    from Cons.IH[OF Cons.prems] False t show ?thesis by (fastforce simp: check_times_append)
  next
    case True
    let ?d1 = "addwithjitter FD (rnds iid) (clock iid) iid 0 (12 * hour) d"
    have h: "0 \<le> rnds iid (12 * hour - 0) \<and> rnds iid (12 * hour - 0) < 12 * hour - 0" using assms(3) by (simp add: hour_def)
    obtain q where q: "rows ?d1 = rows d @ [q]" "fx_Item q = iid" "scheduled q" "clock iid - second \<le> fx_ScheduledTime q"
        "fx_ScheduledTime q < clock iid + 12 * hour + second" "quiet ?d1" "ok ?d1"
      using jitter_row[where rnd = "rnds iid" and a = 0 and b = "12 * hour", OF Cons.prems h, of "clock iid" iid] by auto
    obtain new where new: "rows (scan_ids FD rnds clock iids ?d1) = rows ?d1 @ new" "\<forall>iid \<in> set iids. check_times (rows ?d1 @ new) iid \<noteq> {}"
        "\<forall>q \<in> set new. fx_Item q \<in> set iids \<and> scheduled q \<and> clock (fx_Item q) - second \<le> fx_ScheduledTime q \<and> fx_ScheduledTime q < clock (fx_Item q) + 12 * hour + second"
      using Cons.IH[OF q(6,7)] by blast
    have "check_times (rows d @ q # new) iid \<noteq> {}" using q(2,3) by (auto simp: check_times_def)
    with True t(1) new q show ?thesis by (intro exI[of _ "q # new"]) auto
  qed
qed simp

text \<open>A round of the loop.\<close>

lemma find_id: "ids_fresh rs \<Longrightarrow> q \<in> set rs \<Longrightarrow> find (\<lambda>r. fx_ID r = fx_ID q) rs = Some q"
  by (induction rs) (auto simp: ids_fresh_def image_iff)

definition checked :: "fixity_rec \<Rightarrow> fixity_rec \<Rightarrow> fixity_rec list \<Rightarrow> fixity_rec list" where
  "checked q fx rs = map (\<lambda>p. if p = q then fx\<lparr>fx_ScheduledTime := dt (fx_ScheduledTime fx)\<rparr> else p) rs"

abbreviation draw_ok :: "(int \<Rightarrow> int) \<Rightarrow> bool" where
  "draw_ok rnd \<equiv> 0 \<le> rnd (nextFixityWindowEnd - nextFixityWindowBegin) \<and> rnd (nextFixityWindowEnd - nextFixityWindowBegin) < nextFixityWindowEnd - nextFixityWindowBegin"

abbreviation in_window :: "time \<Rightarrow> fixity_rec \<Rightarrow> bool" where
  "in_window now p \<equiv> now + nextFixityWindowBegin - second \<le> fx_ScheduledTime p \<and> fx_ScheduledTime p < now + nextFixityWindowEnd + second"

lemma done_rows:
  assumes "quiet d" and "ok d" and q: "q \<in> set (rows d)" "scheduled q" and fx: "fx_ID fx = fx_ID q" "fx_Status fx \<noteq> ''scheduled''" "fx_Status fx \<noteq> ''''"
    and draw: "draw_ok rnd"
  shows "\<exists>new. rows (check_done FD rnd now fx d) = checked q fx (rows d) @ new \<and> check_times (checked q fx (rows d) @ new) (fx_Item fx) \<noteq> {} \<and>
     (\<forall>p \<in> set new. fx_Item p = fx_Item fx \<and> scheduled p \<and> in_window now p) \<and>
     quiet (check_done FD rnd now fx d) \<and> ok (check_done FD rnd now fx d)"
proof -
  have fresh: "ids_fresh (rows d)" by (rule ok_fresh[OF assms(2)])
  have nz: "fx_ID fx \<noteq> 0" using fresh q(1) fx(1) by (simp add: ids_fresh_def)
  have same: "fx_ID p = fx_ID q \<longleftrightarrow> p = q" if "p \<in> set (rows d)" for p using fresh that q(1) unfolding ids_fresh_def distinct_map inj_on_def by blast
  have eq: "map (\<lambda>p. if fx_ID p = fx_ID fx \<and> scheduled p then (default_status fx)\<lparr>fx_ScheduledTime := dt (fx_ScheduledTime fx)\<rparr> else p) (rows d) = checked q fx (rows d)"
    unfolding checked_def by (rule map_cong[OF refl]) (use same q(2) fx in \<open>auto simp: default_status_def\<close>)
  obtain d1 where d1: "fd_UpdateFixity FD d fx = (Inr (fx_ID fx), d1)" "quiet d1" "ok d1" "rows d1 = checked q fx (rows d)"
    using update_quiet[OF assms(1,2) nz] eq by auto
  obtain t where t: "fd_LookupCheck FD d1 (fx_Item fx) = (Inr t, d1)" "t \<noteq> 0 \<longrightarrow> check_times (rows d1) (fx_Item fx) \<noteq> {}" using lookup_quiet[OF d1(2)] by blast
  show ?thesis
  proof (cases "t = 0")
    case False
    with t d1 show ?thesis by (intro exI[of _ "[]"]) (simp add: check_done_def)
  next
    case True
    let ?d2 = "addwithjitter FD rnd now (fx_Item fx) nextFixityWindowBegin nextFixityWindowEnd d1"
    obtain p where p: "rows ?d2 = rows d1 @ [p]" "fx_Item p = fx_Item fx" "scheduled p" "in_window now p" "quiet ?d2" "ok ?d2"
      using jitter_row[where rnd = rnd and a = nextFixityWindowBegin and b = nextFixityWindowEnd, OF d1(2,3) draw, of now "fx_Item fx"] by blast
    have "check_times (checked q fx (rows d) @ [p]) (fx_Item fx) \<noteq> {}" using p(2,3) by (auto simp: check_times_def)
    with True t(1) d1 p show ?thesis by (intro exI[of _ "[p]"]) (simp add: check_done_def)
  qed
qed

lemma check_result_fields:
  "fx_ID (check_result ps err fx) = fx_ID fx" "fx_Item (check_result ps err fx) = fx_Item fx" "fx_ScheduledTime (check_result ps err fx) = fx_ScheduledTime fx"
  "fx_Status (check_result ps err fx) = (case err of Some e \<Rightarrow> ''error'' | None \<Rightarrow> if ps \<noteq> [] then ''mismatch'' else ''ok'')"
  by (simp_all add: check_result_def split: option.splits)

lemma round_rows:
  assumes "quiet (fs_DB s)" and "ok (fs_DB s)" and "fs_useTape s" and "\<exists>q \<in> set (rows (fs_DB s)). due now q" and draw: "draw_ok rnd"
    and round: "fixity_round E FD rnd now later s = (sleep, s')"
  shows "\<exists>q new nb ps err. \<not> sleep \<and> q \<in> set (rows (fs_DB s)) \<and> due now q \<and> (\<forall>p \<in> set (rows (fs_DB s)). due now p \<longrightarrow> fx_ScheduledTime q \<le> fx_ScheduledTime p) \<and>
     fst (items_Validate E (fs_Items s) (fx_Item q)) = (nb, ps, err) \<and>
     rows (fs_DB s') = checked q (check_result ps err q) (rows (fs_DB s)) @ new \<and> check_times (rows (fs_DB s')) (fx_Item q) \<noteq> {} \<and>
     (\<forall>p \<in> set new. fx_Item p = fx_Item q \<and> scheduled p \<and> in_window later p) \<and>
     quiet (fs_DB s') \<and> ok (fs_DB s') \<and> fs_useTape s'"
proof -
  let ?d = "fs_DB s"
  obtain q where q: "q \<in> set (rows ?d)" "due now q" "\<forall>p \<in> set (rows ?d). due now p \<longrightarrow> fx_ScheduledTime q \<le> fx_ScheduledTime p" "fd_NextFixity FD ?d now = (fx_ID q, ?d)"
    using next_due[OF assms(1,4)] by blast
  have fresh: "ids_fresh (rows ?d)" by (rule ok_fresh[OF assms(2)])
  have get: "fd_GetFixity FD ?d (fx_ID q) = (Some q, ?d)" using get_quiet[OF assms(1)] find_id[OF fresh q(1)] by simp
  have nz: "fx_ID q \<noteq> 0" using fresh q(1) by (simp add: ids_fresh_def)
  obtain nb ps err items1 where v: "items_Validate E (fs_Items s) (fx_Item q) = ((nb, ps, err), items1)" by (metis surj_pair)
  let ?fx = "check_result ps err q"
  have s': "\<not> sleep" "s' = s\<lparr>fs_Items := items1, fs_DB := check_done FD rnd later ?fx ?d\<rparr>"
    using round q(4) get nz v assms(3) by (auto simp: fixity_round_def)
  have "scheduled q" using q(2) by (simp add: due_def)
  note D = done_rows[where rnd = rnd and fx = ?fx, OF assms(1,2) q(1) this check_result_fields(1) _ _ draw, of later]
  have "fx_Status ?fx \<noteq> ''scheduled''" "fx_Status ?fx \<noteq> ''''" by (simp_all add: check_result_fields(4) split: option.splits)
  from D[OF this] obtain new where "rows (fs_DB s') = checked q ?fx (rows ?d) @ new" "check_times (rows (fs_DB s')) (fx_Item q) \<noteq> {}"
      "\<forall>p \<in> set new. fx_Item p = fx_Item q \<and> scheduled p \<and> in_window later p" "quiet (fs_DB s')" "ok (fs_DB s')"
    unfolding s'(2) by (auto simp: check_result_fields)
  then show ?thesis using s' q v assms(3) by (intro exI[of _ q] exI[of _ new] exI[of _ nb] exI[of _ ps] exI[of _ err]) simp
qed

text \<open>Rounds until nothing is due.\<close>

lemma replaced_fewer:
  assumes "\<not> P x"
  shows "length (filter P (map (\<lambda>p. if p = q then x else p) rs)) \<le> length (filter P rs)"
    and "q \<in> set rs \<Longrightarrow> P q \<Longrightarrow> length (filter P (map (\<lambda>p. if p = q then x else p) rs)) < length (filter P rs)"
proof -
  show le: "length (filter P (map (\<lambda>p. if p = q then x else p) rs)) \<le> length (filter P rs)" for rs
    using assms by (induction rs) auto
  show "length (filter P (map (\<lambda>p. if p = q then x else p) rs)) < length (filter P rs)" if "q \<in> set rs" "P q"
    using that
  proof (induction rs)
    case (Cons r rs)
    then show ?case using assms le[of rs] by (cases "r = q") auto
  qed simp
qed

lemma drains:
  assumes "quiet (fs_DB s)" and "ok (fs_DB s)" and "fs_useTape s" and "\<forall>(rnd, later) \<in> set rs. draw_ok rnd \<and> now \<le> later"
    and "length (filter (due now) (rows (fs_DB s))) \<le> length rs"
  shows "\<forall>q \<in> set (rows (fs_DB (run_rounds E FD rs now s))). \<not> due now q"
  using assms
proof (induction rs arbitrary: s)
  case (Cons x rs)
  obtain rnd later where x: "x = (rnd, later)" by fastforce
  have xs: "\<forall>(rnd, later) \<in> set rs. draw_ok rnd \<and> now \<le> later" and d: "draw_ok rnd" "now \<le> later" using Cons.prems(4) x by auto
  obtain sleep s' where r: "fixity_round E FD rnd now later s = (sleep, s')" by fastforce
  show ?case
  proof (cases "\<exists>q \<in> set (rows (fs_DB s)). due now q")
    case False
    then have "s' = s" using next_none[OF Cons.prems(1)] r by (auto simp: fixity_round_def)
    have "filter (due now) (rows (fs_DB s)) = []" using False by (simp add: filter_empty_conv)
    then have "length (filter (due now) (rows (fs_DB s))) \<le> length rs" by simp
    from Cons.IH[OF Cons.prems(1-3) xs this] show ?thesis unfolding x run_rounds.simps r snd_conv \<open>s' = s\<close> .
  next
    case True
    obtain q new nb ps err where q: "q \<in> set (rows (fs_DB s))" "due now q"
        "rows (fs_DB s') = checked q (check_result ps err q) (rows (fs_DB s)) @ new" "\<forall>p \<in> set new. in_window later p"
        "quiet (fs_DB s')" "ok (fs_DB s')" "fs_useTape s'"
      using round_rows[OF Cons.prems(1-3) True d(1) r] by blast
    have "second < nextFixityWindowBegin" by (simp add: nextFixityWindowBegin_def hour_def second_def)
    moreover have "later + nextFixityWindowBegin - second \<le> fx_ScheduledTime p" if "p \<in> set new" for p using q(4) that by blast
    ultimately have "\<not> due now p" if "p \<in> set new" for p using that d(2) unfolding due_def by fastforce
    then have new: "filter (due now) new = []" by (simp add: filter_empty_conv)
    let ?fx = "(check_result ps err q)\<lparr>fx_ScheduledTime := dt (fx_ScheduledTime (check_result ps err q))\<rparr>"
    have "\<not> due now ?fx" by (simp add: due_def scheduled_def check_result_fields split: option.splits)
    from replaced_fewer(2)[OF this q(1,2)] have "length (filter (due now) (rows (fs_DB s'))) < length (filter (due now) (rows (fs_DB s)))"
      using new unfolding q(3) checked_def by simp
    then have "length (filter (due now) (rows (fs_DB s'))) \<le> length rs" using Cons.prems(5) by simp
    from Cons.IH[OF q(5-7) xs this] show ?thesis using x r by simp
  qed
qed (simp add: filter_empty_conv)

end

section \<open>The two databases\<close>

definition fix_ok :: "db \<Rightarrow> bool" where
  "fix_ok d = (ids_fresh (t_fixity (db_t d)) \<and> (\<forall>q \<in> set (t_fixity (db_t d)). fx_ID q < t_nextid (db_t d)) \<and> 0 < t_nextid (db_t d))"

lemma sorted_first:
  assumes "sort_key f (filter P xs) = q # qs"
  shows "q \<in> set xs \<and> P q \<and> (\<forall>p \<in> set xs. P p \<longrightarrow> f q \<le> f p)"
proof -
  have "set (q # qs) = {p \<in> set xs. P p}" using arg_cong[OF assms, of set] by simp
  moreover have "\<forall>p \<in> set (q # qs). f q \<le> f p" using sorted_sort_key[of f "filter P xs"] unfolding assms by auto
  ultimately show ?thesis by auto
qed

lemma sort_key_Nil: "sort_key f xs = [] \<longleftrightarrow> xs = []"
  by (metis length_0_conv length_sort)

lemma select_next_due:
  "select_next now t = None \<longleftrightarrow> (\<forall>q \<in> set (t_fixity t). \<not> due now q)"
  "select_next now t = Some q \<Longrightarrow> q \<in> set (t_fixity t) \<and> due now q \<and> (\<forall>p \<in> set (t_fixity t). due now p \<longrightarrow> fx_ScheduledTime q \<le> fx_ScheduledTime p)"
proof -
  let ?s = "sort_key fx_ScheduledTime (filter (due now) (t_fixity t))"
  have eq: "select_next now t = (case ?s of [] \<Rightarrow> None | r # rs \<Rightarrow> Some r)" by (simp add: select_next_def due_def[abs_def])
  have "select_next now t = None \<longleftrightarrow> ?s = []" unfolding eq by (cases ?s) simp_all
  then show "select_next now t = None \<longleftrightarrow> (\<forall>q \<in> set (t_fixity t). \<not> due now q)" by (simp only: sort_key_Nil filter_empty_conv)
  assume "select_next now t = Some q"
  then obtain rs where "?s = q # rs" unfolding eq by (auto split: list.splits)
  from sorted_first[OF this] show "q \<in> set (t_fixity t) \<and> due now q \<and> (\<forall>p \<in> set (t_fixity t). due now p \<longrightarrow> fx_ScheduledTime q \<le> fx_ScheduledTime p)" .
qed

lemma select_check_times:
  "select_check iid t = None \<longleftrightarrow> check_times (t_fixity t) iid = {}"
  "select_check iid t = Some q \<Longrightarrow> fx_ScheduledTime q = Min (check_times (t_fixity t) iid)"
proof -
  let ?P = "\<lambda>r. fx_Item r = iid \<and> scheduled r"
  let ?s = "sort_key fx_ScheduledTime (filter ?P (t_fixity t))"
  have "select_check iid t = None \<longleftrightarrow> ?s = []" unfolding select_check_def by (cases ?s) simp_all
  then show "select_check iid t = None \<longleftrightarrow> check_times (t_fixity t) iid = {}" by (auto simp: sort_key_Nil filter_empty_conv check_times_def)
  assume "select_check iid t = Some q"
  then obtain rs where "?s = q # rs" by (auto simp: select_check_def split: list.splits)
  from sorted_first[OF this] have "fx_ScheduledTime q \<in> check_times (t_fixity t) iid" "\<forall>x \<in> check_times (t_fixity t) iid. fx_ScheduledTime q \<le> x"
    by (auto simp: check_times_def)
  then show "fx_ScheduledTime q = Min (check_times (t_fixity t) iid)" by (intro Min_eqI[symmetric]) (auto simp: check_times_def)
qed

lemma update_first_map:
  "ids_fresh rs \<Longrightarrow> update_first r rs = map (\<lambda>q. if fx_ID q = fx_ID r \<and> scheduled q then r else q) rs"
proof (induction rs)
  case (Cons p rs)
  have "map (\<lambda>q. if fx_ID q = fx_ID r \<and> scheduled q then r else q) rs = rs" if "fx_ID p = fx_ID r"
    by (rule map_idI) (use Cons.prems that in \<open>auto simp: ids_fresh_def image_iff\<close>)
  with Cons show ?case by (auto simp: ids_fresh_def)
qed simp

lemma update_first_keeps: "q \<in> set rs \<Longrightarrow> \<not> scheduled q \<Longrightarrow> q \<in> set (update_first r rs)"
  by (induction rs) auto

text \<open>Statements on the table, for both databases.\<close>

lemma fix_insert_ok:
  assumes "fix_ok d" and "db_t d' = snd (insert_fixity r (db_t d))"
  shows "fix_ok d' \<and> t_fixity (db_t d') = t_fixity (db_t d) @ [r\<lparr>fx_ID := t_nextid (db_t d)\<rparr>]"
proof -
  let ?n = "t_nextid (db_t d)"
  have t: "t_fixity (db_t d') = t_fixity (db_t d) @ [r\<lparr>fx_ID := ?n\<rparr>]" "t_nextid (db_t d') = ?n + 1" unfolding assms(2) by (simp_all add: insert_fixity_def)
  have old: "\<forall>q \<in> set (t_fixity (db_t d)). fx_ID q < ?n" "0 < ?n" "ids_fresh (t_fixity (db_t d))" using assms(1) by (simp_all add: fix_ok_def)
  then have "?n \<notin> fx_ID ` set (t_fixity (db_t d))" by (metis imageE less_irrefl)
  with old have "ids_fresh (t_fixity (db_t d'))" unfolding t by (simp add: ids_fresh_def)
  moreover have "\<forall>q \<in> set (t_fixity (db_t d')). fx_ID q < t_nextid (db_t d')" using old(1) unfolding t by (auto intro: order.strict_trans)
  ultimately show ?thesis using old(2) t by (simp add: fix_ok_def)
qed

lemma fix_update_ok:
  assumes "fix_ok d" and "t_fixity (db_t d') = map (\<lambda>q. if fx_ID q = fx_ID r \<and> scheduled q then r else q) (t_fixity (db_t d))" and "t_nextid (db_t d') = t_nextid (db_t d)"
  shows "fix_ok d'"
proof -
  have "map fx_ID (t_fixity (db_t d')) = map fx_ID (t_fixity (db_t d))" unfolding assms(2) by simp
  then have "distinct (map fx_ID (t_fixity (db_t d')))" "fx_ID ` set (t_fixity (db_t d')) = fx_ID ` set (t_fixity (db_t d))"
    using assms(1) by (simp add: fix_ok_def ids_fresh_def, metis list.set_map)
  with assms(1,3) show ?thesis unfolding fix_ok_def ids_fresh_def by (metis imageE image_eqI)
qed

lemma performExec_quiet: "db_faults d = [] \<Longrightarrow> performExec f d = (Inr (fst (f (db_t d))), d\<lparr>db_t := snd (f (db_t d))\<rparr>)"
  by (simp add: performExec_def in_tx_def)

lemma performExec_t: "performExec f d = (x, d') \<Longrightarrow> db_t d' = db_t d \<or> db_t d' = snd (f (db_t d))"
  by (auto simp: performExec_def in_tx_def db_exec_def Let_def split: prod.splits option.splits)

lemma db_exec_t: "db_exec f d = (x, d') \<Longrightarrow> db_t d' = db_t d \<or> db_t d' = snd (f (db_t d))"
  by (auto simp: db_exec_def Let_def split: prod.splits option.splits)

lemma db_query_same: "db_query f d = (x, d') \<Longrightarrow> db_t d' = db_t d"
  using db_query_t by fastforce

lemma fix_ok_same: "db_t d' = db_t d \<Longrightarrow> fix_ok d' = fix_ok d"
  by (simp add: fix_ok_def)

lemma next_quiet:
  assumes "db_faults d = []"
  shows "(\<forall>q \<in> set (t_fixity (db_t d)). \<not> due now q) \<Longrightarrow> ql_NextFixity d now = (0, d)"
    and "\<exists>q \<in> set (t_fixity (db_t d)). due now q \<Longrightarrow> \<exists>q \<in> set (t_fixity (db_t d)). due now q \<and>
      (\<forall>p \<in> set (t_fixity (db_t d)). due now p \<longrightarrow> fx_ScheduledTime q \<le> fx_ScheduledTime p) \<and> ql_NextFixity d now = (fx_ID q, d)"
proof -
  have eq: "ql_NextFixity d now = (case select_next now (db_t d) of None \<Rightarrow> (0, d) | Some r \<Rightarrow> (fx_ID r, d))"
    using assms by (simp add: ql_NextFixity_def split: option.splits)
  show "ql_NextFixity d now = (0, d)" if "\<forall>q \<in> set (t_fixity (db_t d)). \<not> due now q"
    using select_next_due(1)[of now "db_t d"] that eq by simp
  assume "\<exists>q \<in> set (t_fixity (db_t d)). due now q"
  then obtain q where q: "select_next now (db_t d) = Some q" using select_next_due(1)[of now "db_t d"] by blast
  from select_next_due(2)[OF q] eq q show "\<exists>q \<in> set (t_fixity (db_t d)). due now q \<and>
      (\<forall>p \<in> set (t_fixity (db_t d)). due now p \<longrightarrow> fx_ScheduledTime q \<le> fx_ScheduledTime p) \<and> ql_NextFixity d now = (fx_ID q, d)" by auto
qed

lemma lookup_quiet_db:
  assumes "db_faults d = []"
  shows "check_times (t_fixity (db_t d)) iid = {} \<Longrightarrow> ql_LookupCheck d iid = (Inr 0, d)"
    and "check_times (t_fixity (db_t d)) iid \<noteq> {} \<Longrightarrow> ql_LookupCheck d iid = (Inr (Min (check_times (t_fixity (db_t d)) iid)), d)"
  using assms select_check_times[of iid "db_t d"] by (auto simp: ql_LookupCheck_def split: option.splits)

lemma my_queries: "my_NextFixity = ql_NextFixity" "my_GetFixity = ql_GetFixity" "my_SearchFixity = ql_SearchFixity" "my_LookupCheck = ql_LookupCheck"
  by (auto simp: fun_eq_iff my_NextFixity_def ql_NextFixity_def my_GetFixity_def ql_GetFixity_def my_SearchFixity_def ql_SearchFixity_def my_LookupCheck_def ql_LookupCheck_def)

lemma query_same:
  "ql_NextFixity d now = (i, d') \<Longrightarrow> db_t d' = db_t d" "ql_GetFixity d j = (g, d') \<Longrightarrow> db_t d' = db_t d"
  "ql_SearchFixity d a b item st = (rs, d') \<Longrightarrow> db_t d' = db_t d" "ql_LookupCheck d item = (l, d') \<Longrightarrow> db_t d' = db_t d"
  by (auto simp: ql_NextFixity_def ql_GetFixity_def ql_SearchFixity_def ql_LookupCheck_def split: prod.splits sum.splits option.splits dest: db_query_same)

lemma statement_keeps:
  assumes "q \<in> set (t_fixity t)" and "\<not> scheduled q"
  shows "q \<in> set (t_fixity (snd (insert_fixity r t)))" "q \<in> set (t_fixity (snd (update_fixity r t)))" "q \<in> set (t_fixity (snd (my_update_fixity r t)))"
    "q \<in> set (t_fixity (snd (delete_fixity i t)))"
  using assms update_first_keeps by (auto simp: insert_fixity_def update_fixity_def my_update_fixity_def delete_fixity_def)

lemma statement_ok:
  assumes "fix_ok d"
  shows "db_t d' = snd (insert_fixity r (db_t d)) \<Longrightarrow> fix_ok d'" "db_t d' = snd (update_fixity r (db_t d)) \<Longrightarrow> fix_ok d'"
    "db_t d' = snd (my_update_fixity r (db_t d)) \<Longrightarrow> fix_ok d'" "db_t d' = snd (delete_fixity i (db_t d)) \<Longrightarrow> fix_ok d'"
proof -
  show "db_t d' = snd (insert_fixity r (db_t d)) \<Longrightarrow> fix_ok d'" using fix_insert_ok[OF assms] by blast
  show "db_t d' = snd (update_fixity r (db_t d)) \<Longrightarrow> fix_ok d'" by (rule fix_update_ok[OF assms, where r = r]) (simp_all add: update_fixity_def)
  have "ids_fresh (t_fixity (db_t d))" using assms by (simp add: fix_ok_def)
  from update_first_map[OF this, of r] show "db_t d' = snd (my_update_fixity r (db_t d)) \<Longrightarrow> fix_ok d'"
    by (intro fix_update_ok[OF assms, where r = r]) (simp_all add: my_update_fixity_def)
  show "db_t d' = snd (delete_fixity i (db_t d)) \<Longrightarrow> fix_ok d'"
    using assms by (auto simp: fix_ok_def delete_fixity_def ids_fresh_def distinct_map_filter)
qed

lemma ql_update_cases:
  assumes "ql_UpdateFixity d r = (u, d')"
  obtains f where "db_t d' = db_t d \<or> db_t d' = snd (insert_fixity f (db_t d)) \<or> db_t d' = snd (update_fixity f (db_t d))"
  using assms by (auto simp: ql_UpdateFixity_def Let_def split: if_splits prod.splits sum.splits dest!: performExec_t)

lemma my_update_cases:
  assumes "my_UpdateFixity dt d r = (u, d')"
  obtains f where "db_t d' = db_t d \<or> db_t d' = snd (insert_fixity f (db_t d)) \<or> db_t d' = snd (my_update_fixity f (db_t d))"
  using assms by (auto simp: my_UpdateFixity_def Let_def split: if_splits prod.splits sum.splits dest!: db_exec_t)

lemma delete_cases:
  "ql_DeleteFixity d i = (e, d') \<Longrightarrow> db_t d' = db_t d \<or> db_t d' = snd (delete_fixity i (db_t d))"
  "my_DeleteFixity d i = (e, d') \<Longrightarrow> db_t d' = db_t d \<or> db_t d' = snd (delete_fixity i (db_t d))"
  by (auto simp: ql_DeleteFixity_def my_DeleteFixity_def split: prod.splits sum.splits dest: performExec_t db_exec_t)

lemma ql_update_keeps:
  assumes "ql_UpdateFixity d r = (u, d')"
  shows "q \<in> set (t_fixity (db_t d)) \<Longrightarrow> \<not> scheduled q \<Longrightarrow> q \<in> set (t_fixity (db_t d'))" "fix_ok d \<Longrightarrow> fix_ok d'"
  by (rule ql_update_cases[OF assms]; use statement_keeps[of q "db_t d"] statement_ok[of d d'] fix_ok_same[of d' d] in metis)+

lemma my_update_keeps:
  assumes "my_UpdateFixity dt d r = (u, d')"
  shows "q \<in> set (t_fixity (db_t d)) \<Longrightarrow> \<not> scheduled q \<Longrightarrow> q \<in> set (t_fixity (db_t d'))" "fix_ok d \<Longrightarrow> fix_ok d'"
  by (rule my_update_cases[OF assms]; use statement_keeps[of q "db_t d"] statement_ok[of d d'] fix_ok_same[of d' d] in metis)+

lemma delete_keeps_db:
  assumes "ql_DeleteFixity d i = (e, d') \<or> my_DeleteFixity d i = (e, d')"
  shows "q \<in> set (t_fixity (db_t d)) \<Longrightarrow> \<not> scheduled q \<Longrightarrow> q \<in> set (t_fixity (db_t d'))" "fix_ok d \<Longrightarrow> fix_ok d'"
  using assms delete_cases statement_keeps(4)[of q "db_t d"] statement_ok(4)[of d d'] fix_ok_same[of d' d] by metis+

lemma ql_fixity_store: "fixity_store ql_fixitydb (\<lambda>d. t_fixity (db_t d)) fix_ok (\<lambda>d. db_faults d = []) (\<lambda>t. t)"
proof (unfold_locales, goal_cases)
  case (1 d now i d')
  then show ?case by (auto simp: ql_fixitydb_def fix_ok_def dest!: query_same)
next
  case (2 d i g d')
  then show ?case by (auto simp: ql_fixitydb_def fix_ok_def dest!: query_same)
next
  case (3 d a b item st rs d')
  then show ?case by (auto simp: ql_fixitydb_def fix_ok_def dest!: query_same)
next
  case (4 d item l d')
  then show ?case by (auto simp: ql_fixitydb_def fix_ok_def dest!: query_same)
next
  case (5 d r u d' q)
  then show ?case using ql_update_keeps(1) by (simp add: ql_fixitydb_def)
next
  case (6 d i e d' q)
  then show ?case using delete_keeps_db(1)[of d i e d' q] by (simp add: ql_fixitydb_def)
next
  case (7 d r u d')
  then show ?case using ql_update_keeps(2) by (simp add: ql_fixitydb_def)
next
  case (8 d i e d')
  then show ?case using delete_keeps_db(2)[of d i e d'] by (simp add: ql_fixitydb_def)
next
  case (9 d)
  then show ?case by (simp add: fix_ok_def)
next
  case (10 t)
  then show ?case by (simp add: second_def)
next
  case (11 d now)
  then show ?case using next_quiet(1) by (simp add: ql_fixitydb_def)
next
  case (12 d now)
  then show ?case using next_quiet(2) by (simp add: ql_fixitydb_def)
next
  case (13 d i)
  then show ?case by (simp add: ql_fixitydb_def ql_GetFixity_def)
next
  case (14 d iid)
  then show ?case using lookup_quiet_db(1) by (simp add: ql_fixitydb_def)
next
  case (15 d iid)
  then show ?case using lookup_quiet_db(2) by (simp add: ql_fixitydb_def)
next
  case (16 d r)
  let ?r = "default_status r" and ?d' = "d\<lparr>db_t := snd (insert_fixity (default_status r) (db_t d))\<rparr>"
  have "fx_ID ?r = 0" using 16(3) by (simp add: default_status_def)
  then have "fd_UpdateFixity ql_fixitydb d r = (Inr (t_nextid (db_t d)), ?d')"
    by (simp add: performExec_quiet[OF 16(1)] ql_fixitydb_def ql_UpdateFixity_def) (simp add: insert_fixity_def)
  with 16(1) fix_insert_ok[OF 16(2), of ?d' ?r] show ?case by (auto simp: default_status_def)
next
  case (17 d r)
  let ?r = "default_status r" and ?d' = "d\<lparr>db_t := snd (update_fixity (default_status r) (db_t d))\<rparr>"
  have i: "fx_ID ?r = fx_ID r" by (simp add: default_status_def)
  then have u: "fd_UpdateFixity ql_fixitydb d r = (Inr (fx_ID r), ?d')"
    using 17(3) by (simp add: performExec_quiet[OF 17(1)] ql_fixitydb_def ql_UpdateFixity_def)
  have "fix_ok ?d'" by (rule fix_update_ok[OF 17(2), where r = ?r]) (simp_all add: update_fixity_def)
  then show ?case using u 17(1) i by (auto simp: update_fixity_def default_status_def)
qed

lemma my_fixity_store:
  assumes "\<And>t. \<bar>dt t - t\<bar> \<le> second"
  shows "fixity_store (my_fixitydb dt) (\<lambda>d. t_fixity (db_t d)) fix_ok (\<lambda>d. db_faults d = []) dt"
proof -
  note Q = ql_fixity_store
  have same: "fd_NextFixity (my_fixitydb dt) = fd_NextFixity ql_fixitydb" "fd_GetFixity (my_fixitydb dt) = fd_GetFixity ql_fixitydb"
    "fd_SearchFixity (my_fixitydb dt) = fd_SearchFixity ql_fixitydb" "fd_LookupCheck (my_fixitydb dt) = fd_LookupCheck ql_fixitydb"
    by (simp_all add: my_fixitydb_def ql_fixitydb_def my_queries)
  show ?thesis
  proof (unfold_locales, unfold same, goal_cases)
    case (5 d r u d' q)
    then show ?case using my_update_keeps(1) by (simp add: my_fixitydb_def)
  next
    case (6 d i e d' q)
    then show ?case using delete_keeps_db(1)[of d i e d' q] by (simp add: my_fixitydb_def)
  next
    case (7 d r u d')
    then show ?case using my_update_keeps(2) by (simp add: my_fixitydb_def)
  next
    case (8 d i e d')
    then show ?case using delete_keeps_db(2)[of d i e d'] by (simp add: my_fixitydb_def)
  next
    case (10 t)
    then show ?case by (rule assms)
  next
    case (16 d r)
    let ?r = "my_fixity_row dt (default_status r)" and ?d' = "d\<lparr>db_t := snd (insert_fixity (my_fixity_row dt (default_status r)) (db_t d))\<rparr>"
    have "fx_ID ?r = 0" using 16(3) by (simp add: default_status_def my_fixity_row_def)
    then have "fd_UpdateFixity (my_fixitydb dt) d r = (Inr (t_nextid (db_t d)), ?d')"
      by (simp add: db_exec_quiet[OF 16(1)] my_fixitydb_def my_UpdateFixity_def) (simp add: insert_fixity_def)
    with 16(1) fix_insert_ok[OF 16(2), of ?d' ?r] show ?case by (auto simp: default_status_def my_fixity_row_def)
  next
    case (17 d r)
    let ?r = "my_fixity_row dt (default_status r)" and ?d' = "d\<lparr>db_t := snd (my_update_fixity (my_fixity_row dt (default_status r)) (db_t d))\<rparr>"
    have i: "fx_ID ?r = fx_ID r" by (simp add: default_status_def my_fixity_row_def)
    then have u: "fd_UpdateFixity (my_fixitydb dt) d r = (Inr (fx_ID r), ?d')"
      using 17(3) by (simp add: db_exec_quiet[OF 17(1)] my_fixitydb_def my_UpdateFixity_def)
    have fresh: "ids_fresh (t_fixity (db_t d))" using 17(2) by (simp add: fix_ok_def)
    have "fix_ok ?d'" by (rule fix_update_ok[OF 17(2), where r = ?r]) (simp_all add: my_update_fixity_def update_first_map[OF fresh])
    then show ?case using u 17(1) i by (auto simp: my_update_fixity_def update_first_map[OF fresh] default_status_def my_fixity_row_def)
  qed ((erule fixity_store.next_rows[OF Q] | erule fixity_store.get_rows[OF Q] | erule fixity_store.search_rows[OF Q] | erule fixity_store.lookup_rows[OF Q] | erule fixity_store.ok_fresh[OF Q] | erule fixity_store.get_quiet[OF Q]
      | erule (1) fixity_store.next_none[OF Q] | erule (1) fixity_store.next_due[OF Q] | erule (1) fixity_store.lookup_none[OF Q] | erule (1) fixity_store.lookup_some[OF Q])+)
qed

interpretation qlf: fixity_store ql_fixitydb "\<lambda>d. t_fixity (db_t d)" fix_ok "\<lambda>d. db_faults d = []" "\<lambda>t. t"
  by (rule ql_fixity_store)

text \<open>A column of whole seconds.\<close>

definition seconds :: "time \<Rightarrow> time" where
  "seconds t = second * (t div second)"

lemma seconds_near: "\<bar>seconds t - t\<bar> \<le> second"
  unfolding seconds_def second_def by (simp add: minus_mult_div_eq_mod abs_le_iff)

interpretation myf: fixity_store "my_fixitydb seconds" "\<lambda>d. t_fixity (db_t d)" fix_ok "\<lambda>d. db_faults d = []" seconds
  by (rule my_fixity_store[OF seconds_near])

end
