(* ===== verification/Fixity_Properties.thy ===== *)
theory Fixity_Properties
  imports Fixity_Correct Codec_Instances Memory_Store Items_Correct
begin

text \<open>
  The properties of the fixity service, for both databases.
\<close>

section \<open>The databases and a state for the witnesses\<close>

text \<open>The two databases, with the precision of their dates: MySQL returns a date within a second of the one it was given.\<close>

definition fixity_backend :: "db fixitydb \<Rightarrow> (time \<Rightarrow> time) \<Rightarrow> bool" where
  "fixity_backend FD dt = (FD = ql_fixitydb \<and> dt = (\<lambda>t. t) \<or> FD = my_fixitydb dt \<and> (\<forall>t. \<bar>dt t - t\<bar> \<le> second))"

lemma backend_store: "fixity_backend FD dt \<Longrightarrow> fixity_store FD (\<lambda>d. t_fixity (db_t d)) fix_ok (\<lambda>d. db_faults d = []) dt"
  using ql_fixity_store my_fixity_store by (auto simp: fixity_backend_def)

lemma reach_ok:
  assumes "fixity_backend FD dt" and "fixity_reach E FD s0 s" and "fs_DB s0 = new_db faults"
  shows "fix_ok (fs_DB s)"
proof -
  note S = backend_store[OF assms(1)]
  have "fix_ok (fs_DB s0)" using assms(3) by (simp add: fix_ok_def new_db_def ids_fresh_def)
  with fixity_store.kept_reach[OF S assms(2)] show ?thesis unfolding fixity_store.kept_def[OF S] by blast
qed

definition one_bundle :: "(memory, memoryCache) item_store" where
  "one_bundle = items_NewWithCache (snd (op_create mem_ops NewMemory ''item1-0001.zip'')) []"

definition fix_start :: "(memory, memoryCache, db) fixity_state" where
  "fix_start = \<lparr>fs_Items = one_bundle, fs_useTape = True, fs_DB = new_db []\<rparr>"

definition item_request :: request where
  "item_request = \<lparr>rq_Method = ''POST'', rq_Header = [], rq_Form = [], rq_BasicAuth = None, rq_Params = [(''item'', ''item1''), (''id'', ''1'')], rq_Body = None\<rparr>"

definition fix_posted :: "(memory, memoryCache, db) fixity_state" where
  "fix_posted = snd (PostFixityHandler ql_fixitydb 3 item_request new_response fix_start)"

lemma ql_backend: "fixity_backend ql_fixitydb (\<lambda>t. t)"
  by (simp add: fixity_backend_def)

lemma posted_rows:
  "t_fixity (db_t (fs_DB fix_posted)) = [\<lparr>fx_ID = 1, fx_Item = ''item1'', fx_ScheduledTime = 3, fx_Status = ''scheduled'', fx_Notes = ''''\<rparr>]"
  "db_faults (fs_DB fix_posted) = []" "fs_useTape fix_posted"
  by (simp_all add: fix_posted_def PostFixityHandler_def updated_def ql_fixitydb_def ql_UpdateFixity_def performExec_quiet fix_start_def new_db_def new_check_def default_status_def
      item_request_def ByName_def insert_fixity_def)

lemma posted_reach: "fixity_reach mem_env ql_fixitydb fix_start fix_posted" "fs_DB fix_start = new_db []"
  unfolding fix_posted_def by (rule fixity_reach.Post[OF fixity_reach.Start], simp add: fix_start_def)

section \<open>Properties\<close>

text \<open>C16. The record of a fixity check that is done never changes and is never deleted, whatever rounds of the loop, scans and requests follow
  and whichever statements of the database fail.\<close>

theorem fixity_immutable:
  assumes "fixity_backend FD dt" and "fixity_reach E FD s0 s" and "q \<in> set (t_fixity (db_t (fs_DB s0)))" and "fx_Status q \<noteq> ''scheduled''"
  shows "q \<in> set (t_fixity (db_t (fs_DB s)))"
proof -
  note S = backend_store[OF assms(1)]
  from fixity_store.kept_reach[OF S assms(2)] assms(3,4) show ?thesis unfolding fixity_store.kept_def[OF S] scheduled_def by blast
qed

definition done_check :: fixity_rec where
  "done_check = \<lparr>fx_ID = 1, fx_Item = ''item1'', fx_ScheduledTime = 3, fx_Status = ''ok'', fx_Notes = ''''\<rparr>"

definition fix_done :: "(memory, memoryCache, db) fixity_state" where
  "fix_done = fix_start\<lparr>fs_DB := \<lparr>db_t = (db_t (new_db []))\<lparr>t_fixity := [done_check], t_nextid := 2\<rparr>, db_faults = []\<rparr>\<rparr>"

theorem fixity_immutable_witness:
  "done_check \<in> set (t_fixity (db_t (fs_DB (snd (DeleteFixityHandler ql_fixitydb item_request new_response fix_done)))))"
  by (rule fixity_immutable[OF ql_backend fixity_reach.Delete[OF fixity_reach.Start, where E = mem_env]]) (simp_all add: fix_done_def done_check_def)

text \<open>C17. After a scan of a database that works, every item of the store has a scheduled check. The scan only adds records: for items of the store,
  scheduled within twelve hours of the moment the scan came to the item, up to the precision of the database.\<close>

theorem fixity_scan_covers:
  assumes "fixity_backend FD dt" and "fixity_reach E FD s0 s" and "fs_DB s0 = new_db faults" and "db_faults (fs_DB s) = []"
    and "\<forall>iid n. 0 < n \<longrightarrow> 0 \<le> rnds iid n \<and> rnds iid n < n"
  shows "\<exists>new. t_fixity (db_t (fs_DB (scanfixity E FD rnds clock s))) = t_fixity (db_t (fs_DB s)) @ new \<and>
     (\<forall>iid \<in> set (items_List E (fs_Items s)). \<exists>q \<in> set (t_fixity (db_t (fs_DB s)) @ new). fx_Item q = iid \<and> fx_Status q = ''scheduled'') \<and>
     (\<forall>q \<in> set new. fx_Item q \<in> set (items_List E (fs_Items s)) \<and> fx_Status q = ''scheduled'' \<and>
        clock (fx_Item q) - second \<le> fx_ScheduledTime q \<and> fx_ScheduledTime q < clock (fx_Item q) + 12 * hour + second)"
proof -
  obtain new where new: "t_fixity (db_t (scan_ids FD rnds clock (items_List E (fs_Items s)) (fs_DB s))) = t_fixity (db_t (fs_DB s)) @ new"
      "\<forall>iid \<in> set (items_List E (fs_Items s)). check_times (t_fixity (db_t (fs_DB s)) @ new) iid \<noteq> {}"
      "\<forall>q \<in> set new. fx_Item q \<in> set (items_List E (fs_Items s)) \<and> scheduled q \<and>
        clock (fx_Item q) - second \<le> fx_ScheduledTime q \<and> fx_ScheduledTime q < clock (fx_Item q) + 12 * hour + second"
    using fixity_store.scan_covers[OF backend_store[OF assms(1)] assms(4) reach_ok[OF assms(1-3)] assms(5), of clock "items_List E (fs_Items s)"] by blast
  from new(2) have "\<forall>iid \<in> set (items_List E (fs_Items s)). \<exists>q \<in> set (t_fixity (db_t (fs_DB s)) @ new). fx_Item q = iid \<and> fx_Status q = ''scheduled''"
    unfolding check_times_def scheduled_def by blast
  with new(1,3) show ?thesis by (intro exI[of _ new]) (simp add: scanfixity_def scheduled_def)
qed

lemma demo_items: "items_List mem_env (fs_Items fix_posted) = [''item1'']"
proof -
  have "fs_Items fix_posted = one_bundle"
    by (simp add: fix_posted_def PostFixityHandler_def updated_def fix_start_def split: prod.splits sum.splits)
  moreover have "op_list mem_ops (is_S one_bundle) = [''item1-0001.zip'']" by code_simp
  moreover have "sugar ''item1'' 1 = ''item1-0001.zip''" by code_simp
  moreover have "fst (desugar (sugar ''item1'' 1)) = ''item1''" using desugar_sugar[of 1 "''item1''"] by (simp add: int64_ok_def)
  ultimately show ?thesis by (simp add: items_List_def)
qed

theorem fixity_scan_covers_witness:
  "\<exists>q \<in> set (t_fixity (db_t (fs_DB (scanfixity mem_env ql_fixitydb (\<lambda>_ _. 0) (\<lambda>_. 7) fix_posted)))). fx_Item q = ''item1'' \<and> fx_Status q = ''scheduled''"
  using fixity_scan_covers[OF ql_backend posted_reach posted_rows(2), of "\<lambda>_ _. 0" "\<lambda>_. 7"] demo_items by force





end
