(* ===== verification/File_Store.thy ===== *)
theory File_Store
  imports Store_Interface "HOL-Library.Char_ord" "HOL-Library.List_Lexorder"
begin

text \<open>
  The store on a file system, src/store/file_store.go.

  The part of the operating system that it uses: a tree of directories and files below the root of the store, with contents in
  inodes, so that an open file keeps its content when it is renamed. A path is a list of names relative to the root, as
  \<open>filepath.Join\<close> cleans it; it may begin with \<open>..\<close>, for places above the root. Calls of the operating system
  fail only for the reasons that the tree gives; the root has no characters that \<open>filepath.Glob\<close> treats specially. Reading a directory as a file fails; the model lets \<open>Open\<close>
  report that error, which the code gets when it reads.

  \<open>filepath.Match\<close> is an argument: it gives for a pattern the names that it matches, or nothing for a malformed pattern.
\<close>

section \<open>Unicode\<close>

text \<open>Package unicode/utf8: the runes of a valid string.\<close>

definition cont_byte :: "nat \<Rightarrow> nat \<Rightarrow> nat \<Rightarrow> bool" where
  "cont_byte lo hi b = (lo \<le> b \<and> b \<le> hi)"

fun utf8_runes :: "nat list \<Rightarrow> nat list option" where
  "utf8_runes [] = Some []"
| "utf8_runes (a # s) =
     (if a < 128 then map_option ((#) a) (utf8_runes s)
      else if 194 \<le> a \<and> a \<le> 223 then
        (case s of
           b # s1 \<Rightarrow> if cont_byte 128 191 b then map_option ((#) ((a - 192) * 64 + (b - 128))) (utf8_runes s1) else None
         | _ \<Rightarrow> None)
      else if 224 \<le> a \<and> a \<le> 239 then
        (case s of
           b # c # s1 \<Rightarrow>
             if cont_byte (if a = 224 then 160 else 128) (if a = 237 then 159 else 191) b \<and> cont_byte 128 191 c
             then map_option ((#) ((a - 224) * 4096 + (b - 128) * 64 + (c - 128))) (utf8_runes s1) else None
         | _ \<Rightarrow> None)
      else if 240 \<le> a \<and> a \<le> 244 then
        (case s of
           b # c # d # s1 \<Rightarrow>
             if cont_byte (if a = 240 then 144 else 128) (if a = 244 then 143 else 191) b \<and> cont_byte 128 191 c \<and> cont_byte 128 191 d
             then map_option ((#) ((a - 240) * 262144 + (b - 128) * 4096 + (c - 128) * 64 + (d - 128))) (utf8_runes s1) else None
         | _ \<Rightarrow> None)
      else None)"

definition IsSpace :: "nat \<Rightarrow> bool" where
  "IsSpace r = (r \<in> {9, 10, 11, 12, 13, 32, 133, 160, 5760, 8232, 8233, 8239, 8287, 12288} \<or> (8192 \<le> r \<and> r \<le> 8202))"

definition IsControl :: "nat \<Rightarrow> bool" where
  "IsControl r = (r \<le> 31 \<or> (127 \<le> r \<and> r \<le> 159))"

section \<open>Keys\<close>

fun check_runes :: "nat list \<Rightarrow> error option" where
  "check_runes [] = None"
| "check_runes (r # rs) =
     (if IsSpace r then Some ErrKeyContainsWhiteSpace else if IsControl r then Some ErrKeyContainsControlChar else check_runes rs)"

definition isKeyValid :: "string \<Rightarrow> error option" where
  "isKeyValid key =
     (case utf8_runes (map of_char key) of
        None \<Rightarrow> Some ErrKeyContainsNonUnicode
      | Some rs \<Rightarrow> if CHR ''/'' \<in> set key then Some ErrKeyContainsSlash else check_runes rs)"

definition itemSubdir :: "string \<Rightarrow> string" where
  "itemSubdir key =
     (if length key = 0 then ''./''
      else if length key \<le> 2 then key @ ''/''
      else take 2 key @ ''/'' @ take 2 (drop 2 key) @ ''/'')"

section \<open>Paths and the tree\<close>

type_synonym path = "string list"

fun clean_onto :: "path \<Rightarrow> string list \<Rightarrow> path" where
  "clean_onto acc [] = acc"
| "clean_onto acc (c # cs) =
     (if c = '''' \<or> c = ''.'' then clean_onto acc cs
      else if c = ''..'' then clean_onto (if acc = [] \<or> last acc = ''..'' then acc @ [c] else butlast acc) cs
      else clean_onto (acc @ [c]) cs)"

definition join_path :: "string list \<Rightarrow> path" where
  "join_path parts = clean_onto [] (concat (map (split_all CHR ''/'') parts))"

text \<open>An open file: the inode that it writes to, and where the file is to be moved on \<open>Close\<close>.\<close>

record moveCloser =
  mc_inode :: nat
  mc_source :: path
  mc_target :: path

record filesys =
  f_dirs :: "path list"
  f_files :: "(path, nat) gomap"
  f_inodes :: "bytes list"
  f_open :: "(nat, moveCloser) gomap"
  f_next :: nat

definition NewFileSystem :: filesys where
  "NewFileSystem = \<lparr>f_dirs = [[]], f_files = [], f_inodes = [], f_open = [], f_next = 0\<rparr>"

datatype node = DirNode | FileNode nat

fun stat_from :: "filesys \<Rightarrow> path \<Rightarrow> string list \<Rightarrow> node result" where
  "stat_from s p [] = Inr DirNode"
| "stat_from s p (c # cs) =
     (let q = p @ [c] in
      case gget (f_files s) q of
        Some i \<Rightarrow> if cs = [] then Inr (FileNode i) else Inl (IOError ''not a directory'')
      | None \<Rightarrow> if c = ''..'' \<or> q \<in> set (f_dirs s) then stat_from s q cs else Inl ErrNotExist)"

definition os_Stat :: "filesys \<Rightarrow> path \<Rightarrow> node result" where
  "os_Stat s p = (if [] \<in> set (f_dirs s) then stat_from s [] p else Inl ErrNotExist)"

definition add_dir :: "path \<Rightarrow> filesys \<Rightarrow> filesys" where
  "add_dir p s = (if p \<in> set (f_dirs s) then s else s\<lparr>f_dirs := f_dirs s @ [p]\<rparr>)"

fun mkdirs :: "path \<Rightarrow> string list \<Rightarrow> filesys \<Rightarrow> error option \<times> filesys" where
  "mkdirs p [] s = (None, add_dir p s)"
| "mkdirs p (c # cs) s =
     (let q = p @ [c]; s1 = add_dir p s in
      if gget (f_files s1) q \<noteq> None then (Some (IOError ''not a directory''), s1) else mkdirs q cs s1)"

definition os_MkdirAll :: "filesys \<Rightarrow> path \<Rightarrow> error option \<times> filesys" where
  "os_MkdirAll s p = mkdirs [] p s"

text \<open>The entries of a directory: the name and whether it is a directory.\<close>

definition entries :: "filesys \<Rightarrow> path \<Rightarrow> (string \<times> bool) list" where
  "entries s p = map (\<lambda>q. (last q, True)) (filter (\<lambda>q. q \<noteq> [] \<and> butlast q = p) (f_dirs s)) @
     map (\<lambda>q. (last q, False)) (filter (\<lambda>q. q \<noteq> [] \<and> butlast q = p) (gkeys (f_files s)))"

section \<open>Listing\<close>

text \<open>\<open>walkTree\<close>; the argument is the number of levels that are left, 2 at the root.\<close>

fun walkTree :: "filesys \<Rightarrow> nat \<Rightarrow> path \<Rightarrow> string list" where
  "walkTree s 0 root = (if root \<in> set (f_dirs s) then map fst (filter (\<lambda>e. \<not> snd e) (entries s root)) else [])"
| "walkTree s (Suc n) root =
     (if root \<in> set (f_dirs s) then concat (map (\<lambda>e. if snd e then walkTree s n (root @ [fst e]) else []) (entries s root)) else [])"

definition fs_List :: "filesys \<Rightarrow> string list" where
  "fs_List s = walkTree s 2 []"

definition prefix_glob :: "string \<Rightarrow> string" where
  "prefix_glob p =
     (if length p = 0 then ''*/*''
      else if length p = 1 then p @ ''*/*''
      else if length p = 2 then take 2 p @ ''/*''
      else if length p = 3 then take 2 p @ ''/'' @ take 1 (drop 2 p) @ ''*''
      else take 2 p @ ''/'' @ take 2 (drop 2 p))"

text \<open>\<open>filepath.Glob\<close>: the names of a directory are sorted; files among the inner names are skipped.\<close>

fun glob_from :: "(string \<Rightarrow> (string \<Rightarrow> bool) option) \<Rightarrow> filesys \<Rightarrow> path \<Rightarrow> string list \<Rightarrow> path list" where
  "glob_from M s p [] = [p]"
| "glob_from M s p (c # cs) =
     (if c = ''..'' then glob_from M s (p @ [c]) cs
      else case M c of
        None \<Rightarrow> []
      | Some m \<Rightarrow>
          concat (map (\<lambda>n. if cs = [] then [p @ [n]] else if (n, True) \<in> set (entries s p) then glob_from M s (p @ [n]) cs else [])
            (sort (filter m (map fst (entries s p))))))"

definition fs_ListPrefix :: "(string \<Rightarrow> (string \<Rightarrow> bool) option) \<Rightarrow> filesys \<Rightarrow> string \<Rightarrow> string list result" where
  "fs_ListPrefix M s p =
     (let pats = join_path [prefix_glob p, p @ ''*''] in
      if \<exists>c \<in> set pats. M c = None then Inl (IOError ''syntax error in pattern'')
      else Inr (map last (glob_from M s [] pats)))"

section \<open>Reading, writing and deleting\<close>

definition fs_Open :: "filesys \<Rightarrow> string \<Rightarrow> bytes result \<times> filesys" where
  "fs_Open s key =
     (if CHR ''/'' \<in> set key then (Inl ErrKeyContainsSlash, s)
      else
        (case os_Stat s (join_path [itemSubdir key, key]) of
           Inl e \<Rightarrow> (Inl e, s)
         | Inr DirNode \<Rightarrow> (Inl (IOError ''is a directory''), s)
         | Inr (FileNode i) \<Rightarrow> (Inr (f_inodes s ! i), s)))"

text \<open>\<open>ReadAt\<close> of a file: a short read comes with the end of the file.\<close>

definition file_ReadAt :: "bytes \<Rightarrow> int \<Rightarrow> nat \<Rightarrow> bytes \<times> error option" where
  "file_ReadAt b off n =
     (if off < 0 then ([], Some (IOError ''negative offset''))
      else (let p = take n (drop (nat off) b) in (p, if length p < n then Some EOF else None)))"

definition setupSubDir :: "filesys \<Rightarrow> string \<Rightarrow> string \<Rightarrow> path result \<times> filesys" where
  "setupSubDir s subdir key =
     (case os_MkdirAll s (join_path [subdir]) of
        (Some e, s1) \<Rightarrow> (Inl e, s1)
      | (None, s1) \<Rightarrow> (Inr (join_path [subdir, key]), s1))"

definition scratchdir :: string where
  "scratchdir = ''scratch''"

text \<open>\<open>os.OpenFile\<close> with \<open>O_CREATE\<close> and \<open>O_EXCL\<close>.\<close>

definition open_new :: "filesys \<Rightarrow> path \<Rightarrow> path \<Rightarrow> nat result \<times> filesys" where
  "open_new s temp target =
     (case os_Stat s temp of
        Inr n \<Rightarrow> (Inl (IOError ''file exists''), s)
      | Inl e \<Rightarrow>
          if e \<noteq> ErrNotExist \<or> os_Stat s (butlast temp) \<noteq> Inr DirNode then (Inl e, s)
          else
            (let i = length (f_inodes s) in
             (Inr (f_next s),
              s\<lparr>f_inodes := f_inodes s @ [[]], f_files := gset temp i (f_files s), f_next := f_next s + 1,
                f_open := gset (f_next s) \<lparr>mc_inode = i, mc_source = temp, mc_target = target\<rparr> (f_open s)\<rparr>)))"

definition fs_Create :: "filesys \<Rightarrow> string \<Rightarrow> nat result \<times> filesys" where
  "fs_Create s key =
     (case isKeyValid key of
        Some e \<Rightarrow> (Inl e, s)
      | None \<Rightarrow>
          (case setupSubDir s (itemSubdir key) key of
             (Inl e, s1) \<Rightarrow> (Inl e, s1)
           | (Inr target, s1) \<Rightarrow>
               if os_Stat s1 target \<noteq> Inl ErrNotExist then (Inl ErrKeyExists, s1)
               else
                 (case setupSubDir s1 scratchdir key of
                    (Inl e, s2) \<Rightarrow> (Inl e, s2)
                  | (Inr temp, s2) \<Rightarrow> open_new s2 temp target)))"

definition fs_Write :: "filesys \<Rightarrow> nat \<Rightarrow> bytes \<Rightarrow> (nat \<times> error option) \<times> filesys" where
  "fs_Write s h p =
     (case gget (f_open s) h of
        None \<Rightarrow> ((0, Some (IOError ''file already closed'')), s)
      | Some m \<Rightarrow> ((length p, None), s\<lparr>f_inodes := (f_inodes s)[mc_inode m := f_inodes s ! mc_inode m @ p]\<rparr>))"

definition os_Rename :: "filesys \<Rightarrow> path \<Rightarrow> path \<Rightarrow> error option \<times> filesys" where
  "os_Rename s source target =
     (case os_Stat s source of
        Inl e \<Rightarrow> (Some e, s)
      | Inr DirNode \<Rightarrow> (Some (IOError ''is a directory''), s)
      | Inr (FileNode i) \<Rightarrow>
          if os_Stat s (butlast target) \<noteq> Inr DirNode then (Some ErrNotExist, s)
          else (None, s\<lparr>f_files := gset target i (gdel source (f_files s))\<rparr>))"

definition moveCloser_Close :: "filesys \<Rightarrow> nat \<Rightarrow> error option \<times> filesys" where
  "moveCloser_Close s h =
     (case gget (f_open s) h of
        None \<Rightarrow> (Some (IOError ''file already closed''), s)
      | Some m \<Rightarrow>
          (let s1 = s\<lparr>f_open := gdel h (f_open s)\<rparr> in
           if os_Stat s1 (mc_target m) \<noteq> Inl ErrNotExist then (Some ErrKeyExists, s1)
           else os_Rename s1 (mc_source m) (mc_target m)))"

definition os_Remove :: "filesys \<Rightarrow> path \<Rightarrow> error option \<times> filesys" where
  "os_Remove s p =
     (case os_Stat s p of
        Inl e \<Rightarrow> (Some e, s)
      | Inr DirNode \<Rightarrow> if entries s p \<noteq> [] then (Some (IOError ''directory not empty''), s) else (None, s\<lparr>f_dirs := remove1 p (f_dirs s)\<rparr>)
      | Inr (FileNode i) \<Rightarrow> (None, s\<lparr>f_files := gdel p (f_files s)\<rparr>))"

definition fs_Delete :: "filesys \<Rightarrow> string \<Rightarrow> error option \<times> filesys" where
  "fs_Delete s key =
     (if CHR ''/'' \<in> set key then (Some ErrKeyContainsSlash, s)
      else let (err, s1) = os_Remove s (join_path [itemSubdir key, key]) in (if err = Some ErrNotExist then None else err, s1))"

definition fs_ops :: "(string \<Rightarrow> (string \<Rightarrow> bool) option) \<Rightarrow> (filesys, nat) store_ops" where
  "fs_ops M = \<lparr>op_list = fs_List, op_list_prefix = fs_ListPrefix M, op_open = fs_Open, op_read_at = file_ReadAt,
     op_create = fs_Create, op_write = fs_Write, op_close = moveCloser_Close, op_delete = fs_Delete\<rparr>"

end
