(* ===== verification/Store_Client.thy ===== *)
theory Store_Client
  imports Store_Interface
begin

text \<open>
  Clients of a store (src/store/store.go): sequences of calls of \<open>Create\<close>, \<open>Write\<close>, \<open>Close\<close> and \<open>Delete\<close>, with the writers that
  a client holds under their keys. Against every store with the contract such a sequence behaves as on two maps, one for the
  stored objects and one for the objects that are being written.
\<close>

section \<open>Calls\<close>

datatype store_cmd = CCreate string | CWrite string bytes | CClose string | CDelete string

fun cl_step :: "('s, 'w, 'm) store_ops_scheme \<Rightarrow> store_cmd \<Rightarrow> 's \<times> (string \<Rightarrow> 'w option) \<Rightarrow> error option \<times> ('s \<times> (string \<Rightarrow> 'w option))" where
  "cl_step S (CCreate k) (s, env) =
     (case op_create S s k of (Inl e, s1) \<Rightarrow> (Some e, (s1, env)) | (Inr w, s1) \<Rightarrow> (None, (s1, env(k \<mapsto> w))))"
| "cl_step S (CWrite k p) (s, env) =
     (case env k of None \<Rightarrow> (Some (Panic ''nil writer''), (s, env)) | Some w \<Rightarrow> (let ((n, e), s1) = op_write S s w p in (e, (s1, env))))"
| "cl_step S (CClose k) (s, env) =
     (case env k of None \<Rightarrow> (Some (Panic ''nil writer''), (s, env)) | Some w \<Rightarrow> (let (e, s1) = op_close S s w in (e, (s1, env(k := None)))))"
| "cl_step S (CDelete k) (s, env) = (let (e, s1) = op_delete S s k in (e, (s1, env)))"

fun cl_run :: "('s, 'w, 'm) store_ops_scheme \<Rightarrow> store_cmd list \<Rightarrow> 's \<times> (string \<Rightarrow> 'w option) \<Rightarrow> error option \<times> ('s \<times> (string \<Rightarrow> 'w option))" where
  "cl_run S [] c = (None, c)"
| "cl_run S (x # xs) c = (case cl_step S x c of (Some e, c1) \<Rightarrow> (Some e, c1) | (None, c1) \<Rightarrow> cl_run S xs c1)"

section \<open>The specification\<close>

text \<open>The stored objects and the objects that are being written; nothing for a call that a client may not make.\<close>

type_synonym objects = "(string \<Rightarrow> bytes option) \<times> (string \<Rightarrow> bytes option)"

fun spec_step :: "(string \<Rightarrow> bool) \<Rightarrow> store_cmd \<Rightarrow> objects \<Rightarrow> objects option" where
  "spec_step ok (CCreate k) (c, w) = (if ok k \<and> c k = None \<and> w k = None then Some (c, w(k \<mapsto> [])) else None)"
| "spec_step ok (CWrite k p) (c, w) = (case w k of None \<Rightarrow> None | Some b \<Rightarrow> Some (c, w(k \<mapsto> b @ p)))"
| "spec_step ok (CClose k) (c, w) = (case w k of None \<Rightarrow> None | Some b \<Rightarrow> Some (c(k \<mapsto> b), w(k := None)))"
| "spec_step ok (CDelete k) (c, w) = (if ok k \<and> w k = None then Some (c(k := None), w) else None)"

fun spec_run :: "(string \<Rightarrow> bool) \<Rightarrow> store_cmd list \<Rightarrow> objects \<Rightarrow> objects option" where
  "spec_run ok [] o1 = Some o1"
| "spec_run ok (x # xs) o1 = (case spec_step ok x o1 of None \<Rightarrow> None | Some o2 \<Rightarrow> spec_run ok xs o2)"

section \<open>The simulation\<close>

context store
begin

definition sim :: "'s \<times> (string \<Rightarrow> 'w option) \<Rightarrow> objects \<Rightarrow> bool" where
  "sim cs ob \<longleftrightarrow> (case (cs, ob) of ((s, env), (c, w)) \<Rightarrow>
     sinv s \<and> cont s = c \<and> (\<forall>h k b. wst s h = Some (k, b) \<longleftrightarrow> env k = Some h \<and> w k = Some b) \<and>
     (\<forall>k. w k \<noteq> None \<longrightarrow> c k = None \<and> env k \<noteq> None))"

lemma simD:
  assumes "sim (s, env) (c, w)"
  shows "sinv s" "cont s = c" "wst s h = Some (k, b) \<longleftrightarrow> env k = Some h \<and> w k = Some b"
    "w k = Some b \<Longrightarrow> c k = None \<and> (\<exists>h. env k = Some h)" "w k = None \<Longrightarrow> \<forall>h b. wst s h \<noteq> Some (k, b)"
  using assms by (auto simp: sim_def)

lemma simI:
  assumes "sinv s" "cont s = c" "\<And>h k b. wst s h = Some (k, b) \<longleftrightarrow> env k = Some h \<and> w k = Some b"
    "\<And>k b. w k = Some b \<Longrightarrow> c k = None \<and> env k \<noteq> None"
  shows "sim (s, env) (c, w)"
  using assms by (auto simp: sim_def)

lemma sim_create:
  assumes sim: "sim (s, env) (c, w)" and sp: "spec_step okkey (CCreate k) (c, w) = Some ob"
  shows "\<exists>cs. cl_step S (CCreate k) (s, env) = (None, cs) \<and> sim cs ob"
proof -
  from sp have k: "okkey k" "c k = None" "w k = None" and ob: "ob = (c, w(k \<mapsto> []))" by (auto split: if_splits)
  obtain h s' where h: "op_create S s k = (Inr h, s')" "sinv s'" "cont s' = cont s" "wst s h = None" "wst s' = (wst s)(h \<mapsto> (k, []))"
    using create_ok[OF simD(1)[OF sim] k(1)] k simD(2,5)[OF sim] by metis
  have "env k' = Some h \<Longrightarrow> w k' = None" for k'
    using simD(3)[OF sim, of h k'] h(4) by (cases "w k'") auto
  then have w': "((wst s)(h \<mapsto> (k, []))) h' = Some (k', b) \<longleftrightarrow> (env(k \<mapsto> h)) k' = Some h' \<and> (w(k \<mapsto> [])) k' = Some b" for h' k' b
    using simD(3)[OF sim, of h' k' b] k(3) by auto
  have "sim (s', env(k \<mapsto> h)) ob"
    unfolding ob
  proof (rule simI)
    show "sinv s'" by (rule h(2))
    show "cont s' = c" using h(3) simD(2)[OF sim] by simp
    show "wst s' h' = Some (k', b') \<longleftrightarrow> (env(k \<mapsto> h)) k' = Some h' \<and> (w(k \<mapsto> [])) k' = Some b'" for h' k' b'
      unfolding h(5) by (rule w')
    show "(c) k' = None \<and> (env(k \<mapsto> h)) k' \<noteq> None" if "(w(k \<mapsto> [])) k' = Some b'" for k' b'
      using that simD(4)[OF sim, of k' b'] k(2) by (cases "k' = k") auto
  qed
  then show ?thesis using h(1) by auto
qed

lemma sim_write:
  assumes sim: "sim (s, env) (c, w)" and sp: "spec_step okkey (CWrite k p) (c, w) = Some ob"
  shows "\<exists>cs. cl_step S (CWrite k p) (s, env) = (None, cs) \<and> sim cs ob"
proof -
  from sp obtain b where b: "w k = Some b" and ob: "ob = (c, w(k \<mapsto> b @ p))" by (auto split: option.splits)
  with simD(4)[OF sim] obtain h where h: "env k = Some h" by blast
  with b have wst: "wst s h = Some (k, b)" using simD(3)[OF sim] by blast
  obtain s' where s': "op_write S s h p = ((length p, None), s')" "sinv s'" "cont s' = cont s" "wst s' = (wst s)(h \<mapsto> (k, b @ p))"
    using write_ok[OF simD(1)[OF sim] wst] by metis
  have uniq: "env k' = Some h \<Longrightarrow> w k' \<noteq> None \<Longrightarrow> k' = k" for k'
    using simD(3)[OF sim, of h k'] wst by auto
  have w': "((wst s)(h \<mapsto> (k, b @ p))) h' = Some (k', b') \<longleftrightarrow> env k' = Some h' \<and> (w(k \<mapsto> b @ p)) k' = Some b'" for h' k' b'
    by (cases "k' = k"; cases "h' = h") (simp_all add: simD(3)[OF sim] h, use uniq[of k'] in fastforce)
  have "sim (s', env) ob"
    unfolding ob
  proof (rule simI)
    show "sinv s'" by (rule s'(2))
    show "cont s' = c" using s'(3) simD(2)[OF sim] by simp
    show "wst s' h' = Some (k', b') \<longleftrightarrow> (env) k' = Some h' \<and> (w(k \<mapsto> b @ p)) k' = Some b'" for h' k' b'
      unfolding s'(4) by (rule w')
    show "(c) k' = None \<and> (env) k' \<noteq> None" if "(w(k \<mapsto> b @ p)) k' = Some b'" for k' b'
      using that simD(4)[OF sim, of k' b'] simD(4)[OF sim b] by (cases "k' = k") auto
  qed
  then show ?thesis using s'(1) h by auto
qed

lemma sim_close:
  assumes sim: "sim (s, env) (c, w)" and sp: "spec_step okkey (CClose k) (c, w) = Some ob"
  shows "\<exists>cs. cl_step S (CClose k) (s, env) = (None, cs) \<and> sim cs ob"
proof -
  from sp obtain b where b: "w k = Some b" and ob: "ob = (c(k \<mapsto> b), w(k := None))" by (auto split: option.splits)
  with simD(4)[OF sim] obtain h where h: "env k = Some h" and none: "c k = None" by blast
  with b have wst: "wst s h = Some (k, b)" using simD(3)[OF sim] by blast
  obtain s' where s': "op_close S s h = (None, s')" "sinv s'" "cont s' = (cont s)(k \<mapsto> b)" "wst s' = (wst s)(h := None)"
    using close_ok[OF simD(1)[OF sim] wst] none simD(2)[OF sim] by metis
  have uniq: "env k' = Some h \<Longrightarrow> w k' \<noteq> None \<Longrightarrow> k' = k" for k'
    using simD(3)[OF sim, of h k'] wst by auto
  have w': "((wst s)(h := None)) h' = Some (k', b') \<longleftrightarrow> (env(k := None)) k' = Some h' \<and> (w(k := None)) k' = Some b'" for h' k' b'
    by (cases "k' = k"; cases "h' = h") (simp_all add: simD(3)[OF sim] h, use uniq[of k'] in fastforce)
  have "sim (s', env(k := None)) ob"
    unfolding ob
  proof (rule simI)
    show "sinv s'" by (rule s'(2))
    show "cont s' = c(k \<mapsto> b)" using s'(3) simD(2)[OF sim] by simp
    show "wst s' h' = Some (k', b') \<longleftrightarrow> (env(k := None)) k' = Some h' \<and> (w(k := None)) k' = Some b'" for h' k' b'
      unfolding s'(4) by (rule w')
    show "(c(k \<mapsto> b)) k' = None \<and> (env(k := None)) k' \<noteq> None" if "(w(k := None)) k' = Some b'" for k' b'
      using that simD(4)[OF sim, of k' b'] b by (cases "k' = k") auto
  qed
  then show ?thesis using s'(1) h by auto
qed

lemma sim_delete:
  assumes sim: "sim (s, env) (c, w)" and sp: "spec_step okkey (CDelete k) (c, w) = Some ob"
  shows "\<exists>cs. cl_step S (CDelete k) (s, env) = (None, cs) \<and> sim cs ob"
proof -
  from sp have k: "okkey k" "w k = None" and ob: "ob = (c(k := None), w)" by (auto split: if_splits)
  obtain s' where s': "op_delete S s k = (None, s')" "sinv s'" "cont s' = (cont s)(k := None)" "wst s' = wst s"
    using delete_ok[OF simD(1)[OF sim] k(1) simD(5)[OF sim k(2)]] by metis
  note w' = simD(3)[OF sim]
  have "sim (s', env) ob"
    unfolding ob
  proof (rule simI)
    show "sinv s'" by (rule s'(2))
    show "cont s' = c(k := None)" using s'(3) simD(2)[OF sim] by simp
    show "wst s' h' = Some (k', b') \<longleftrightarrow> (env) k' = Some h' \<and> (w) k' = Some b'" for h' k' b'
      unfolding s'(4) by (rule w')
    show "(c(k := None)) k' = None \<and> (env) k' \<noteq> None" if "(w) k' = Some b'" for k' b'
      using that simD(4)[OF sim, of k' b'] k(2) by (cases "k' = k") auto
  qed
  then show ?thesis using s'(1) by auto
qed

lemma run_refines:
  assumes "sim cs ob" and "spec_run okkey xs ob = Some ob'"
  shows "\<exists>cs'. cl_run S xs cs = (None, cs') \<and> sim cs' ob'"
  using assms
proof (induction xs arbitrary: cs ob)
  case (Cons x xs)
  obtain s env c w where eq: "cs = (s, env)" "ob = (c, w)" by fastforce
  from Cons.prems(2) obtain ob1 where ob1: "spec_step okkey x ob = Some ob1" "spec_run okkey xs ob1 = Some ob'"
    by (auto split: option.splits)
  have "\<exists>cs1. cl_step S x cs = (None, cs1) \<and> sim cs1 ob1"
  proof (cases x)
    case (CCreate k)
    show ?thesis using sim_create[OF Cons.prems(1)[unfolded eq]] ob1(1) unfolding eq CCreate by blast
  next
    case (CWrite k p)
    show ?thesis using sim_write[OF Cons.prems(1)[unfolded eq]] ob1(1) unfolding eq CWrite by blast
  next
    case (CClose k)
    show ?thesis using sim_close[OF Cons.prems(1)[unfolded eq]] ob1(1) unfolding eq CClose by blast
  next
    case (CDelete k)
    show ?thesis using sim_delete[OF Cons.prems(1)[unfolded eq]] ob1(1) unfolding eq CDelete by blast
  qed
  with Cons.IH[OF _ ob1(2)] show ?case by fastforce
qed simp

lemma run_from_empty:
  assumes "sinv s" "cont s = (\<lambda>k. None)" "wst s = (\<lambda>h. None)" and "spec_run okkey xs (\<lambda>k. None, \<lambda>k. None) = Some (c, w)"
  obtains s' env where "cl_run S xs (s, \<lambda>k. None) = (None, (s', env))" "sinv s'" "cont s' = c"
    "\<And>k b. w k = Some b \<Longrightarrow> \<exists>h. wst s' h = Some (k, b)"
proof -
  have "sim (s, \<lambda>k. None) (\<lambda>k. None, \<lambda>k. None)" using assms(1-3) by (simp add: sim_def)
  from run_refines[OF this assms(4)] obtain s' env where r: "cl_run S xs (s, \<lambda>k. None) = (None, (s', env))" and sim: "sim (s', env) (c, w)"
    by fastforce
  have "\<exists>h. wst s' h = Some (k, b)" if "w k = Some b" for k b using simD(3,4)[OF sim] that by blast
  with r simD(1,2)[OF sim] show thesis by (rule that)
qed

end

end
