(* ===== verification/File_Store_Correct.thy ===== *)
theory File_Store_Correct
  imports File_Store Store_Client
begin

text \<open>
  The store on a file system keeps the contract of the store interface for the keys whose file is where the listings look for
  it. The directories never have a file in their place, every listed file belongs to its key, and a file that is being written
  is in the scratch directory, where no listing sees it.
\<close>

section \<open>Keys and their paths\<close>

definition good_key :: "string \<Rightarrow> bool" where
  "good_key k = (isKeyValid k = None \<and> 3 \<le> length k \<and> take 2 k \<noteq> ''..'' \<and> take 2 (drop 2 k) \<notin> {''.'', ''..''})"

definition key_path :: "string \<Rightarrow> path" where
  "key_path k = [take 2 k, take 2 (drop 2 k), k]"

definition scratch_path :: "string \<Rightarrow> path" where
  "scratch_path k = [scratchdir, k]"

lemma isKeyValid_slash: "isKeyValid k = None \<Longrightarrow> CHR ''/'' \<notin> set k"
  by (auto simp: isKeyValid_def split: option.splits if_splits)

lemma good_key_slash: "good_key k \<Longrightarrow> CHR ''/'' \<notin> set k"
  by (simp add: good_key_def isKeyValid_slash)

lemma set_take_drop: "x \<notin> set s \<Longrightarrow> x \<notin> set (take m s)" "x \<notin> set s \<Longrightarrow> x \<notin> set (take m (drop n s))"
  by (meson in_set_takeD in_set_dropD)+

lemma good_key_long: "good_key k \<Longrightarrow> length (take 2 k) = 2 \<and> take 2 (drop 2 k) \<noteq> '''' \<and> k \<notin> {'''', ''.'', ''..''}"
  by (auto simp: good_key_def)

lemma good_key_parts:
  assumes "good_key k"
  shows "take 2 k \<noteq> ''''" "take 2 k \<noteq> ''.''" "take 2 k \<noteq> ''..''"
    "take 2 (drop 2 k) \<noteq> ''''" "take 2 (drop 2 k) \<noteq> ''.''" "take 2 (drop 2 k) \<noteq> ''..''"
    "k \<noteq> ''''" "k \<noteq> ''.''" "k \<noteq> ''..''"
proof -
  have l: "3 \<le> length k" using assms by (simp add: good_key_def)
  then have "length (take 2 k) = 2" "length (take 2 (drop 2 k)) \<noteq> 0" by simp_all
  then show "take 2 k \<noteq> ''''" "take 2 k \<noteq> ''.''" "take 2 (drop 2 k) \<noteq> ''''" by force+
  show "k \<noteq> ''''" "k \<noteq> ''.''" "k \<noteq> ''..''" using l by force+
  show "take 2 k \<noteq> ''..''" "take 2 (drop 2 k) \<noteq> ''.''" "take 2 (drop 2 k) \<noteq> ''..''"
    using assms by (simp_all add: good_key_def)
qed

lemma split_subdir:
  assumes "good_key k"
  shows "split_all CHR ''/'' (itemSubdir k) = [take 2 k, take 2 (drop 2 k), []]"
proof -
  note s = set_take_drop[OF good_key_slash[OF assms]]
  have "itemSubdir k = take 2 k @ CHR ''/'' # take 2 (drop 2 k) @ CHR ''/'' # []"
    using assms good_key_parts(7)[OF assms] by (simp add: good_key_def itemSubdir_def)
  then show ?thesis by (simp add: split_all_line s del: append_assoc)
qed

lemma split_key: "good_key k \<Longrightarrow> split_all CHR ''/'' k = [k]"
  by (rule split_all_single[OF good_key_slash])

lemma good_key_len [dest]: "good_key k \<Longrightarrow> \<not> length k \<le> 2"
  by (simp add: good_key_def)

lemma join_key: "good_key k \<Longrightarrow> join_path [itemSubdir k, k] = key_path k"
  by (simp add: join_path_def key_path_def split_subdir split_key good_key_parts good_key_len)

lemma join_subdir: "good_key k \<Longrightarrow> join_path [itemSubdir k] = butlast (key_path k)"
  by (simp add: join_path_def key_path_def split_subdir good_key_parts good_key_len)

lemma join_scratch: "good_key k \<Longrightarrow> join_path [scratchdir, k] = scratch_path k" "join_path [scratchdir] = [scratchdir]"
  by (simp_all add: join_path_def scratch_path_def scratchdir_def split_key good_key_parts)

lemma key_path_inj [simp]: "key_path k = key_path k' \<longleftrightarrow> k = k'"
  by (auto simp: key_path_def)

lemma scratch_path_inj [simp]: "scratch_path k = scratch_path k' \<longleftrightarrow> k = k'"
  by (simp add: scratch_path_def)

lemma key_scratch [simp]: "key_path k \<noteq> scratch_path k'" "scratch_path k' \<noteq> key_path k"
  by (simp_all add: key_path_def scratch_path_def)

section \<open>The invariant\<close>

definition dir_ok :: "path \<Rightarrow> bool" where
  "dir_ok d = (d = [] \<or> d = [scratchdir] \<or> (length (hd d) = 2 \<and> (length d = 1 \<or> length d = 2)))"

definition open_ok :: "filesys \<Rightarrow> moveCloser \<Rightarrow> bool" where
  "open_ok s m = (\<exists>k. good_key k \<and> mc_source m = scratch_path k \<and> mc_target m = key_path k \<and>
     butlast (key_path k) \<in> set (f_dirs s) \<and> [scratchdir] \<in> set (f_dirs s) \<and> gget (f_files s) (scratch_path k) = Some (mc_inode m))"

definition file_ok :: "filesys \<Rightarrow> path \<Rightarrow> bool" where
  "file_ok s p = ((\<exists>k. good_key k \<and> p = key_path k \<and> butlast p \<in> set (f_dirs s)) \<or>
     (\<exists>h m. gget (f_open s) h = Some m \<and> mc_source m = p))"

definition fs_inv :: "filesys \<Rightarrow> bool" where
  "fs_inv s \<longleftrightarrow> [] \<in> set (f_dirs s) \<and> (\<forall>d \<in> set (f_dirs s). dir_ok d \<and> butlast d \<in> set (f_dirs s)) \<and>
     (\<forall>p i. gget (f_files s) p = Some i \<longrightarrow> i < length (f_inodes s) \<and> file_ok s p) \<and>
     (\<forall>p q i. gget (f_files s) p = Some i \<longrightarrow> gget (f_files s) q = Some i \<longrightarrow> p = q) \<and>
     (\<forall>h m. gget (f_open s) h = Some m \<longrightarrow> h < f_next s \<and> open_ok s m) \<and>
     (\<forall>h h' m m'. gget (f_open s) h = Some m \<longrightarrow> gget (f_open s) h' = Some m' \<longrightarrow> mc_source m = mc_source m' \<longrightarrow> h = h')"

definition fs_cont :: "filesys \<Rightarrow> string \<Rightarrow> bytes option" where
  "fs_cont s k = (if good_key k then map_option (\<lambda>i. f_inodes s ! i) (gget (f_files s) (key_path k)) else None)"

definition fs_wst :: "filesys \<Rightarrow> nat \<Rightarrow> (string \<times> bytes) option" where
  "fs_wst s h = map_option (\<lambda>m. (last (mc_target m), f_inodes s ! mc_inode m)) (gget (f_open s) h)"

lemma fs_invD:
  assumes "fs_inv s"
  shows "[] \<in> set (f_dirs s)"
    and "d \<in> set (f_dirs s) \<Longrightarrow> dir_ok d"
    and "d \<in> set (f_dirs s) \<Longrightarrow> butlast d \<in> set (f_dirs s)"
    and "gget (f_files s) p = Some i \<Longrightarrow> i < length (f_inodes s)"
    and "gget (f_files s) p = Some i \<Longrightarrow> file_ok s p"
    and "gget (f_files s) p = Some i \<Longrightarrow> gget (f_files s) q = Some i \<Longrightarrow> p = q"
    and "gget (f_open s) h = Some m \<Longrightarrow> h < f_next s"
    and "gget (f_open s) h = Some m \<Longrightarrow> open_ok s m"
    and "gget (f_open s) h = Some m \<Longrightarrow> gget (f_open s) h' = Some m' \<Longrightarrow> mc_source m = mc_source m' \<Longrightarrow> h = h'"
  using assms unfolding fs_inv_def by blast+

lemma fs_invI:
  assumes "[] \<in> set (f_dirs s)"
    and "\<And>d. d \<in> set (f_dirs s) \<Longrightarrow> dir_ok d \<and> butlast d \<in> set (f_dirs s)"
    and "\<And>p i. gget (f_files s) p = Some i \<Longrightarrow> i < length (f_inodes s) \<and> file_ok s p"
    and "\<And>p q i. gget (f_files s) p = Some i \<Longrightarrow> gget (f_files s) q = Some i \<Longrightarrow> p = q"
    and "\<And>h m. gget (f_open s) h = Some m \<Longrightarrow> h < f_next s \<and> open_ok s m"
    and "\<And>h h' m m'. gget (f_open s) h = Some m \<Longrightarrow> gget (f_open s) h' = Some m' \<Longrightarrow> mc_source m = mc_source m' \<Longrightarrow> h = h'"
  shows "fs_inv s"
  using assms unfolding fs_inv_def by blast

text \<open>Where a file can be.\<close>

lemma file_place:
  assumes "fs_inv s" and "gget (f_files s) p = Some i"
  obtains k where "good_key k" "p = key_path k" "butlast p \<in> set (f_dirs s)"
  | h m k where "gget (f_open s) h = Some m" "good_key k" "p = scratch_path k" "mc_source m = p" "mc_target m = key_path k"
      "[scratchdir] \<in> set (f_dirs s)" "mc_inode m = i"
proof -
  from fs_invD(5)[OF assms] consider k where "good_key k" "p = key_path k" "butlast p \<in> set (f_dirs s)"
    | h m where "gget (f_open s) h = Some m" "mc_source m = p" unfolding file_ok_def by blast
  then show thesis
  proof cases
    case 1
    then show thesis by (rule that(1))
  next
    case 2
    from fs_invD(8)[OF assms(1) 2(1)] 2 assms(2) show thesis by (auto simp: open_ok_def intro: that(2))
  qed
qed

lemma no_file_above:
  assumes "fs_inv s"
  shows "gget (f_files s) [a] = None" and "length a = 2 \<Longrightarrow> gget (f_files s) [a, b] = None"
proof -
  have "False" if "gget (f_files s) [a] = Some i" for i
    by (rule file_place[OF assms that]) (auto simp: key_path_def scratch_path_def)
  then show "gget (f_files s) [a] = None" by (cases "gget (f_files s) [a]") auto
  have "False" if "length a = 2" "gget (f_files s) [a, b] = Some i" for i
    by (rule file_place[OF assms that(2)]) (use that(1) in \<open>auto simp: key_path_def scratch_path_def scratchdir_def\<close>)
  then show "length a = 2 \<Longrightarrow> gget (f_files s) [a, b] = None" by (cases "gget (f_files s) [a, b]") auto
qed

lemma key_path_not_dir:
  assumes "fs_inv s"
  shows "key_path k \<notin> set (f_dirs s)" and "good_key k \<Longrightarrow> scratch_path k \<notin> set (f_dirs s)"
  using fs_invD(2)[OF assms] by (fastforce simp: dir_ok_def key_path_def scratch_path_def scratchdir_def)+

lemma parent_dirs:
  assumes "fs_inv s" and "[a, b] \<in> set (f_dirs s)"
  shows "[a] \<in> set (f_dirs s)"
  using fs_invD(3)[OF assms] by simp

lemma stat_subdir:
  assumes inv: "fs_inv s" and k: "good_key k"
  shows "os_Stat s (butlast (key_path k)) = (if butlast (key_path k) \<in> set (f_dirs s) then Inr DirNode else Inl ErrNotExist)"
  using no_file_above[OF inv] parent_dirs[OF inv] fs_invD(1)[OF inv] good_key_parts[OF k] good_key_long[OF k]
  by (auto simp: os_Stat_def key_path_def Let_def)

lemma stat_key:
  assumes inv: "fs_inv s" and k: "good_key k"
  shows "os_Stat s (key_path k) = (case gget (f_files s) (key_path k) of None \<Rightarrow> Inl ErrNotExist | Some i \<Rightarrow> Inr (FileNode i))"
proof -
  let ?a = "take 2 k" and ?b = "take 2 (drop 2 k)"
  have n: "gget (f_files s) [?a] = None" "gget (f_files s) [?a, ?b] = None"
    using no_file_above[OF inv] good_key_long[OF k] by blast+
  have there: "[?a, ?b] \<in> set (f_dirs s)" if "gget (f_files s) (key_path k) = Some i" for i
    by (rule file_place[OF inv that]) (use k in \<open>auto simp: key_path_def scratch_path_def\<close>)
  show ?thesis
    using n there parent_dirs[OF inv, of ?a ?b] key_path_not_dir(1)[OF inv, of k] fs_invD(1)[OF inv] good_key_parts[OF k]
    by (auto simp: os_Stat_def key_path_def Let_def split: option.splits)
qed

lemma stat_scratch:
  assumes inv: "fs_inv s" and k: "good_key k" and d: "[scratchdir] \<in> set (f_dirs s)"
  shows "os_Stat s (scratch_path k) = (case gget (f_files s) (scratch_path k) of None \<Rightarrow> Inl ErrNotExist | Some i \<Rightarrow> Inr (FileNode i))"
    and "os_Stat s [scratchdir] = Inr DirNode"
  using no_file_above(1)[OF inv, of scratchdir] d key_path_not_dir(2)[OF inv k] fs_invD(1)[OF inv] good_key_parts[OF k]
  by (auto simp: os_Stat_def scratch_path_def Let_def split: option.splits)


section \<open>Making directories\<close>

lemma add_dir_simps [simp]:
  "f_files (add_dir d s) = f_files s" "f_inodes (add_dir d s) = f_inodes s" "f_open (add_dir d s) = f_open s"
  "f_next (add_dir d s) = f_next s" "set (f_dirs (add_dir d s)) = insert d (set (f_dirs s))"
  by (auto simp: add_dir_def)

lemma add_dir_inv:
  assumes "fs_inv s" and "dir_ok d" and "butlast d \<in> set (f_dirs s)"
  shows "fs_inv (add_dir d s)"
proof -
  have o: "open_ok (add_dir d s) m" if "open_ok s m" for m
    using that by (auto simp: open_ok_def)
  have f: "file_ok (add_dir d s) p" if "file_ok s p" for p
    using that by (auto simp: file_ok_def)
  show ?thesis
    unfolding fs_inv_def using fs_invD[OF assms(1)] assms(2,3) o f by (auto simp del: insert_iff simp: ball_simps) 
qed

text \<open>What making directories leaves alone.\<close>

definition same_files :: "filesys \<Rightarrow> filesys \<Rightarrow> bool" where
  "same_files s s' = (f_files s' = f_files s \<and> f_inodes s' = f_inodes s \<and> f_open s' = f_open s \<and> f_next s' = f_next s)"

lemma same_files_trans: "same_files s s' \<Longrightarrow> same_files s' s'' \<Longrightarrow> same_files s s''"
  by (simp add: same_files_def)

lemma same_files_view: "same_files s s' \<Longrightarrow> fs_cont s' = fs_cont s \<and> fs_wst s' = fs_wst s"
  by (simp add: same_files_def fs_cont_def fs_wst_def fun_eq_iff)

lemma setup_key:
  assumes inv: "fs_inv s" and k: "good_key k"
  obtains s1 where "setupSubDir s (itemSubdir k) k = (Inr (key_path k), s1)" "fs_inv s1" "same_files s s1"
    "butlast (key_path k) \<in> set (f_dirs s1)" "set (f_dirs s) \<subseteq> set (f_dirs s1)"
proof -
  let ?a = "take 2 k" and ?b = "take 2 (drop 2 k)"
  define s1 where "s1 = add_dir [?a, ?b] (add_dir [?a] (add_dir [] s))"
  have n: "gget (f_files s) [?a] = None" "gget (f_files s) [?a, ?b] = None"
    using no_file_above[OF inv] good_key_long[OF k] by blast+
  have "os_MkdirAll s (butlast (key_path k)) = (None, s1)"
    by (simp add: os_MkdirAll_def key_path_def n s1_def Let_def)
  then have "setupSubDir s (itemSubdir k) k = (Inr (key_path k), s1)"
    by (simp add: setupSubDir_def join_subdir[OF k] join_key[OF k])
  moreover have "fs_inv s1"
    unfolding s1_def using good_key_long[OF k] by (intro add_dir_inv inv) (simp_all add: dir_ok_def fs_invD(1)[OF inv])
  ultimately show thesis by (rule that) (auto simp: s1_def same_files_def key_path_def)
qed

lemma setup_scratch:
  assumes inv: "fs_inv s" and k: "good_key k"
  obtains s1 where "setupSubDir s scratchdir k = (Inr (scratch_path k), s1)" "fs_inv s1" "same_files s s1"
    "[scratchdir] \<in> set (f_dirs s1)" "set (f_dirs s) \<subseteq> set (f_dirs s1)"
proof -
  define s1 where "s1 = add_dir [scratchdir] (add_dir [] s)"
  have "os_MkdirAll s [scratchdir] = (None, s1)"
    by (simp add: os_MkdirAll_def no_file_above(1)[OF inv] s1_def Let_def)
  then have "setupSubDir s scratchdir k = (Inr (scratch_path k), s1)"
    by (simp add: setupSubDir_def join_scratch k)
  moreover have "fs_inv s1"
    unfolding s1_def by (intro add_dir_inv inv) (simp_all add: dir_ok_def fs_invD(1)[OF inv])
  ultimately show thesis by (rule that) (auto simp: s1_def same_files_def)
qed


section \<open>Reading and writing\<close>

lemma fs_wst_Some:
  assumes "fs_inv s" and "fs_wst s h = Some (k, b)"
  obtains m where "gget (f_open s) h = Some m" "good_key k" "mc_source m = scratch_path k" "mc_target m = key_path k"
    "b = f_inodes s ! mc_inode m" "gget (f_files s) (scratch_path k) = Some (mc_inode m)" "mc_inode m < length (f_inodes s)"
    "butlast (key_path k) \<in> set (f_dirs s)" "[scratchdir] \<in> set (f_dirs s)"
proof -
  from assms(2) obtain m where m: "gget (f_open s) h = Some m" "k = last (mc_target m)" "b = f_inodes s ! mc_inode m"
    by (auto simp: fs_wst_def)
  from fs_invD(8)[OF assms(1) m(1)] obtain k' where "good_key k'" "mc_source m = scratch_path k'" "mc_target m = key_path k'"
      "butlast (key_path k') \<in> set (f_dirs s)" "[scratchdir] \<in> set (f_dirs s)" "gget (f_files s) (scratch_path k') = Some (mc_inode m)"
    unfolding open_ok_def by blast
  moreover from this m have "k' = k" by (simp add: key_path_def)
  ultimately show thesis using that m fs_invD(4)[OF assms(1)] by blast
qed

lemma unopened_scratch:
  assumes "fs_inv s" and "good_key k" and "\<forall>h b. fs_wst s h \<noteq> Some (k, b)"
  shows "gget (f_files s) (scratch_path k) = None"
proof (rule ccontr)
  assume "gget (f_files s) (scratch_path k) \<noteq> None"
  then obtain i where i: "gget (f_files s) (scratch_path k) = Some i" by auto
  show False
  proof (rule file_place[OF assms(1) i], goal_cases)
    case (1 k')
    then show False by simp
  next
    case (2 h m k')
    then have "fs_wst s h = Some (k, f_inodes s ! i)" by (simp add: fs_wst_def key_path_def)
    with assms(3) show False by blast
  qed
qed

lemma fs_cont_None: "good_key k \<Longrightarrow> fs_cont s k = None \<longleftrightarrow> gget (f_files s) (key_path k) = None"
  by (simp add: fs_cont_def)

text \<open>The state after a new file was opened.\<close>

definition opened :: "string \<Rightarrow> filesys \<Rightarrow> filesys" where
  "opened k s = s\<lparr>f_inodes := f_inodes s @ [[]], f_files := gset (scratch_path k) (length (f_inodes s)) (f_files s),
     f_next := f_next s + 1,
     f_open := gset (f_next s) \<lparr>mc_inode = length (f_inodes s), mc_source = scratch_path k, mc_target = key_path k\<rparr> (f_open s)\<rparr>"

lemma opened_simps [simp]:
  "f_dirs (opened k s) = f_dirs s" "gget (f_files (opened k s)) = (gget (f_files s))(scratch_path k \<mapsto> length (f_inodes s))"
  "f_inodes (opened k s) = f_inodes s @ [[]]" "f_next (opened k s) = f_next s + 1"
  "gget (f_open (opened k s)) = (gget (f_open s))(f_next s \<mapsto>
     \<lparr>mc_inode = length (f_inodes s), mc_source = scratch_path k, mc_target = key_path k\<rparr>)"
  by (simp_all add: opened_def)

lemma next_closed: "fs_inv s \<Longrightarrow> gget (f_open s) (f_next s) = None"
  using fs_invD(7)[of s "f_next s"] by (cases "gget (f_open s) (f_next s)") auto

lemma open_source: "fs_inv s \<Longrightarrow> gget (f_open s) h = Some m \<Longrightarrow> gget (f_files s) (mc_source m) = Some (mc_inode m)"
  using fs_invD(8)[of s h m] by (auto simp: open_ok_def)

lemma opened_inv:
  assumes inv: "fs_inv s" and k: "good_key k" and dirs: "butlast (key_path k) \<in> set (f_dirs s)" "[scratchdir] \<in> set (f_dirs s)"
    and new: "gget (f_files s) (scratch_path k) = None"
  shows "fs_inv (opened k s)"
proof -
  let ?m = "\<lparr>mc_inode = length (f_inodes s), mc_source = scratch_path k, mc_target = key_path k\<rparr>"
  have oo: "open_ok (opened k s) m'" if o: "open_ok s m'" for m'
  proof -
    from o obtain k' where k': "good_key k'" "mc_source m' = scratch_path k'" "mc_target m' = key_path k'"
      "butlast (key_path k') \<in> set (f_dirs s)" "gget (f_files s) (scratch_path k') = Some (mc_inode m')"
      unfolding open_ok_def by blast
    moreover from this(5) new have "k' \<noteq> k" by auto
    ultimately show ?thesis unfolding open_ok_def using dirs by (intro exI[of _ k']) simp
  qed
  have om: "open_ok (opened k s) ?m" using k dirs by (simp add: open_ok_def)
  have fo: "file_ok (opened k s) p" if "gget (f_files s) p = Some i" for p i
  proof -
    have "\<exists>h' m'. gget (f_open (opened k s)) h' = Some m' \<and> mc_source m' = p" if "gget (f_open s) h = Some m" "mc_source m = p" for h m
      using that next_closed[OF inv] by (intro exI[of _ h] exI[of _ m]) auto
    with fs_invD(5)[OF inv that] show ?thesis unfolding file_ok_def by (auto simp del: opened_simps(5))
  qed
  have fm: "file_ok (opened k s) (scratch_path k)"
    unfolding file_ok_def by (rule disjI2, rule exI[of _ "f_next s"], rule exI[of _ ?m]) simp
  have other: "mc_source m' \<noteq> scratch_path k" if "gget (f_open s) h = Some m'" for h m'
    using open_source[OF inv that] new by auto
  show ?thesis
  proof (rule fs_invI, goal_cases)
    case 1
    then show ?case using fs_invD(1)[OF inv] by simp
  next
    case (2 d)
    then show ?case using fs_invD(2,3)[OF inv] by simp
  next
    case (3 p i)
    then show ?case using fs_invD(4)[OF inv] fo fm by (auto simp: less_Suc_eq split: if_splits)
  next
    case (4 p q i)
    then show ?case using fs_invD(4,6)[OF inv] by (fastforce split: if_splits)
  next
    case (5 h m)
    then show ?case using fs_invD(7,8)[OF inv] oo om by (auto simp: less_Suc_eq split: if_splits)
  next
    case (6 h h' m m')
    then show ?case using other fs_invD(9)[OF inv] by (auto split: if_splits) metis+
  qed
qed

lemma opened_view:
  assumes inv: "fs_inv s"
  shows "fs_cont (opened k s) = fs_cont s" "fs_wst s (f_next s) = None" "fs_wst (opened k s) = (fs_wst s)(f_next s \<mapsto> (k, []))"
proof -
  note low = fs_invD(4)[OF inv]
  show "fs_cont (opened k s) = fs_cont s"
    using low by (auto simp: fs_cont_def fun_eq_iff nth_append intro!: option.map_cong0)
  show "fs_wst s (f_next s) = None" by (simp add: fs_wst_def next_closed[OF inv])
  show "fs_wst (opened k s) = (fs_wst s)(f_next s \<mapsto> (k, []))"
  proof (rule ext)
    fix h
    show "fs_wst (opened k s) h = ((fs_wst s)(f_next s \<mapsto> (k, []))) h"
      using low open_source[OF inv, of h] by (cases "gget (f_open s) h") (auto simp: fs_wst_def key_path_def nth_append)
  qed
qed

lemma create_contract:
  assumes inv: "fs_inv s" and k: "good_key k" and new: "fs_cont s k = None" and un: "\<forall>h b. fs_wst s h \<noteq> Some (k, b)"
  shows "\<exists>h s'. fs_Create s k = (Inr h, s') \<and> fs_inv s' \<and> fs_cont s' = fs_cont s \<and> fs_wst s h = None \<and> fs_wst s' = (fs_wst s)(h \<mapsto> (k, []))"
proof -
  obtain s1 where s1: "setupSubDir s (itemSubdir k) k = (Inr (key_path k), s1)" "fs_inv s1" "same_files s s1"
    "butlast (key_path k) \<in> set (f_dirs s1)" using setup_key[OF inv k] by metis
  obtain s2 where s2: "setupSubDir s1 scratchdir k = (Inr (scratch_path k), s2)" "fs_inv s2" "same_files s1 s2"
    "[scratchdir] \<in> set (f_dirs s2)" "set (f_dirs s1) \<subseteq> set (f_dirs s2)" using setup_scratch[OF s1(2) k] by metis
  have same: "same_files s s2" using same_files_trans s1(3) s2(3) by blast
  have none: "gget (f_files s) (key_path k) = None" using new fs_cont_None[OF k] by blast
  have scr: "gget (f_files s2) (scratch_path k) = None"
    using unopened_scratch[OF inv k un] same by (simp add: same_files_def)
  have st1: "os_Stat s1 (key_path k) = Inl ErrNotExist" using stat_key[OF s1(2) k] none s1(3) by (simp add: same_files_def)
  have "open_new s2 (scratch_path k) (key_path k) = (Inr (f_next s2), opened k s2)"
    using stat_scratch[OF s2(2) k s2(4)] scr by (simp add: open_new_def scratch_path_def opened_def Let_def)
  then have "fs_Create s k = (Inr (f_next s2), opened k s2)"
    using k by (simp add: fs_Create_def good_key_def s1(1) s2(1) st1)
  moreover have "fs_inv (opened k s2)" using opened_inv[OF s2(2) k _ s2(4) scr] s1(4) s2(5) by blast
  moreover have "fs_cont s2 = fs_cont s" "fs_wst s2 = fs_wst s" using same_files_view[OF same] by auto
  ultimately show ?thesis using opened_view[OF s2(2)] by metis
qed


lemma stat_open_simps [simp]:
  "os_Stat (s\<lparr>f_open := x\<rparr>) p = os_Stat s p"
proof -
  have "stat_from (s\<lparr>f_open := x\<rparr>) q cs = stat_from s q cs" for q cs
    by (induction cs arbitrary: q) (auto simp: Let_def split: option.splits)
  then show ?thesis by (simp add: os_Stat_def)
qed

lemma write_contract:
  assumes inv: "fs_inv s" and w: "fs_wst s h = Some (k, b)"
  shows "\<exists>s'. fs_Write s h p = ((length p, None), s') \<and> fs_inv s' \<and> fs_cont s' = fs_cont s \<and> fs_wst s' = (fs_wst s)(h \<mapsto> (k, b @ p))"
proof -
  obtain m where m: "gget (f_open s) h = Some m" "good_key k" "mc_source m = scratch_path k" "mc_target m = key_path k"
    "b = f_inodes s ! mc_inode m" "gget (f_files s) (scratch_path k) = Some (mc_inode m)" "mc_inode m < length (f_inodes s)"
    using fs_wst_Some[OF inv w] by metis
  define s' where "s' = s\<lparr>f_inodes := (f_inodes s)[mc_inode m := b @ p]\<rparr>"
  have s': "f_dirs s' = f_dirs s" "f_files s' = f_files s" "f_open s' = f_open s" "f_next s' = f_next s"
    "f_inodes s' = (f_inodes s)[mc_inode m := b @ p]" by (simp_all add: s'_def)
  have "open_ok s' = open_ok s" "file_ok s' = file_ok s" by (simp_all add: open_ok_def file_ok_def s' fun_eq_iff)
  then have "fs_inv s'" using inv by (simp add: fs_inv_def s')
  moreover have "mc_inode m \<noteq> i" if "gget (f_files s) (key_path k') = Some i" for k' i
    using fs_invD(6)[OF inv that, of "scratch_path k"] m(6) by auto
  then have "fs_cont s' = fs_cont s" by (auto simp: fs_cont_def s' fun_eq_iff intro!: option.map_cong0)
  moreover have "mc_inode m \<noteq> mc_inode m'" if "gget (f_open s) h' = Some m'" "h' \<noteq> h" for h' m'
    using fs_invD(9)[OF inv m(1) that(1)] fs_invD(6)[OF inv open_source[OF inv m(1)], of "mc_source m'"] open_source[OF inv that(1)] that(2)
    by auto
  then have "fs_wst s' = (fs_wst s)(h \<mapsto> (k, b @ p))"
    using m by (auto simp: fs_wst_def s' fun_eq_iff key_path_def intro!: option.map_cong0)
  ultimately show ?thesis using m by (auto simp: fs_Write_def s'_def)
qed

lemma open_contract:
  assumes inv: "fs_inv s" and k: "good_key k"
  shows "fs_Open s k = (case fs_cont s k of None \<Rightarrow> Inl ErrNotExist | Some b \<Rightarrow> Inr b, s)"
  using k good_key_slash[OF k]
  by (simp add: fs_Open_def join_key stat_key[OF inv k] fs_cont_def split: option.splits)

text \<open>The state after a file was moved to its place, and after one was removed.\<close>

lemma moved_inv:
  assumes inv: "fs_inv s" and h: "gget (f_open s) h = Some m" and k: "good_key k" "mc_source m = scratch_path k"
    and d: "butlast (key_path k) \<in> set (f_dirs s)" and none: "gget (f_files s) (key_path k) = None"
    and s': "s' = s\<lparr>f_open := gdel h (f_open s), f_files := gset (key_path k) (mc_inode m) (gdel (scratch_path k) (f_files s))\<rparr>"
  shows "fs_inv s'"
proof -
  have f': "gget (f_files s') = (gget (f_files s))(scratch_path k := None, key_path k \<mapsto> mc_inode m)"
    and o': "gget (f_open s') = (gget (f_open s))(h := None)" and d': "f_dirs s' = f_dirs s" and i': "f_inodes s' = f_inodes s"
    and n': "f_next s' = f_next s" by (simp_all add: s')
  have src: "gget (f_files s) (scratch_path k) = Some (mc_inode m)" using open_source[OF inv h] k by simp
  have oo: "open_ok s' m'" if g: "gget (f_open s) h' = Some m'" "h' \<noteq> h" for h' m'
  proof -
    from fs_invD(8)[OF inv g(1)] obtain k' where k': "good_key k'" "mc_source m' = scratch_path k'" "mc_target m' = key_path k'"
      "butlast (key_path k') \<in> set (f_dirs s)" "[scratchdir] \<in> set (f_dirs s)" "gget (f_files s) (scratch_path k') = Some (mc_inode m')"
      unfolding open_ok_def by blast
    moreover have "k' \<noteq> k" using fs_invD(9)[OF inv g(1) h] k(2) k'(2) g(2) by auto
    ultimately show ?thesis unfolding open_ok_def using d' f' by (intro exI[of _ k']) simp
  qed
  have fo: "file_ok s' p" if g: "gget (f_files s) p = Some i" "p \<noteq> scratch_path k" for p i
  proof -
    have "\<exists>h1 m1. gget (f_open s') h1 = Some m1 \<and> mc_source m1 = p" if "gget (f_open s) h' = Some m'" "mc_source m' = p" for h' m'
      using that g(2) k(2) h by (intro exI[of _ h'] exI[of _ m']) (auto simp: o')
    with fs_invD(5)[OF inv g(1)] show ?thesis unfolding file_ok_def by (auto simp: d')
  qed
  have fk: "file_ok s' (key_path k)" unfolding file_ok_def using k d by (auto simp: d')
  show ?thesis
  proof (rule fs_invI, goal_cases)
    case 1
    then show ?case using fs_invD(1)[OF inv] by (simp add: d')
  next
    case (2 d)
    then show ?case using fs_invD(2,3)[OF inv] by (simp add: d')
  next
    case (3 p i)
    then show ?case using fs_invD(4)[OF inv] fo fk src by (auto simp: f' i' split: if_splits)
  next
    case (4 p q i)
    then show ?case using fs_invD(6)[OF inv] src by (auto simp: f' split: if_splits)
  next
    case (5 h1 m1)
    then show ?case using fs_invD(7)[OF inv] oo by (auto simp: o' n' split: if_splits)
  next
    case (6 h1 h2 m1 m2)
    then show ?case using fs_invD(9)[OF inv] by (auto simp: o' split: if_splits)
  qed
qed


lemma close_contract:
  assumes inv: "fs_inv s" and w: "fs_wst s h = Some (k, b)" and new: "fs_cont s k = None"
  shows "\<exists>s'. moveCloser_Close s h = (None, s') \<and> fs_inv s' \<and> fs_cont s' = (fs_cont s)(k \<mapsto> b) \<and> fs_wst s' = (fs_wst s)(h := None)"
proof -
  obtain m where m: "gget (f_open s) h = Some m" "good_key k" "mc_source m = scratch_path k" "mc_target m = key_path k"
    "b = f_inodes s ! mc_inode m" "gget (f_files s) (scratch_path k) = Some (mc_inode m)"
    "butlast (key_path k) \<in> set (f_dirs s)" "[scratchdir] \<in> set (f_dirs s)"
    using fs_wst_Some[OF inv w] by metis
  define s' where "s' = s\<lparr>f_open := gdel h (f_open s), f_files := gset (key_path k) (mc_inode m) (gdel (scratch_path k) (f_files s))\<rparr>"
  have none: "gget (f_files s) (key_path k) = None" using new m(2) fs_cont_None by blast
  have "moveCloser_Close s h = (None, s')"
    using stat_key[OF inv m(2)] stat_scratch(1)[OF inv m(2,8)] stat_subdir[OF inv m(2)] m none
    by (simp add: moveCloser_Close_def os_Rename_def s'_def Let_def)
  moreover have "fs_inv s'" by (rule moved_inv[OF inv m(1-3,7) none s'_def])
  moreover have "fs_cont s' = (fs_cont s)(k \<mapsto> b)" using m by (auto simp: fs_cont_def s'_def fun_eq_iff)
  moreover have "fs_wst s' = (fs_wst s)(h := None)" by (auto simp: fs_wst_def s'_def fun_eq_iff)
  ultimately show ?thesis by blast
qed

lemma delete_contract:
  assumes inv: "fs_inv s" and k: "good_key k"
  shows "\<exists>s'. fs_Delete s k = (None, s') \<and> fs_inv s' \<and> fs_cont s' = (fs_cont s)(k := None) \<and> fs_wst s' = fs_wst s"
proof (cases "gget (f_files s) (key_path k)")
  case None
  then have "fs_Delete s k = (None, s)"
    using good_key_slash[OF k] by (simp add: fs_Delete_def join_key[OF k] os_Remove_def stat_key[OF inv k])
  moreover have "(fs_cont s)(k := None) = fs_cont s" using None by (auto simp: fs_cont_def fun_eq_iff)
  ultimately show ?thesis using inv by auto
next
  case (Some i)
  define s' where "s' = s\<lparr>f_files := gdel (key_path k) (f_files s)\<rparr>"
  have "fs_Delete s k = (None, s')"
    using good_key_slash[OF k] Some by (simp add: fs_Delete_def join_key[OF k] os_Remove_def stat_key[OF inv k] s'_def)
  moreover have "open_ok s' = open_ok s" "file_ok s' = file_ok s"
    by (simp_all add: open_ok_def file_ok_def s'_def fun_eq_iff)
  then have "fs_inv s'" using fs_invD[OF inv] by (intro fs_invI) (auto simp: s'_def split: if_splits)
  moreover have "fs_cont s' = (fs_cont s)(k := None)" by (auto simp: fs_cont_def s'_def fun_eq_iff)
  moreover have "fs_wst s' = fs_wst s" by (simp add: fs_wst_def s'_def fun_eq_iff)
  ultimately show ?thesis by blast
qed

section \<open>Listings\<close>

lemma entries_dir: "(n, True) \<in> set (entries s p) \<longleftrightarrow> p @ [n] \<in> set (f_dirs s)"
proof -
  have "(\<exists>q. q \<in> set (f_dirs s) \<and> q \<noteq> [] \<and> butlast q = p \<and> n = last q) \<longleftrightarrow> p @ [n] \<in> set (f_dirs s)"
    by (metis append_butlast_last_id butlast_snoc last_snoc snoc_eq_iff_butlast)
  then show ?thesis by (auto simp: entries_def)
qed

lemma entries_file: "(n, False) \<in> set (entries s p) \<longleftrightarrow> gget (f_files s) (p @ [n]) \<noteq> None"
proof -
  have "(\<exists>q. q \<in> set (gkeys (f_files s)) \<and> q \<noteq> [] \<and> butlast q = p \<and> n = last q) \<longleftrightarrow> p @ [n] \<in> set (gkeys (f_files s))"
    by (metis append_butlast_last_id butlast_snoc last_snoc snoc_eq_iff_butlast)
  then show ?thesis by (auto simp: entries_def set_gkeys)
qed

lemma mem_walk_0: "k \<in> set (walkTree s 0 d) \<longleftrightarrow> d \<in> set (f_dirs s) \<and> gget (f_files s) (d @ [k]) \<noteq> None"
proof -
  have "k \<in> fst ` {e \<in> set (entries s d). \<not> snd e} \<longleftrightarrow> (k, False) \<in> set (entries s d)" by force
  then show ?thesis by (simp add: entries_file)
qed

lemma mem_walk_Suc:
  "k \<in> set (walkTree s (Suc n) d) \<longleftrightarrow> d \<in> set (f_dirs s) \<and> (\<exists>x. d @ [x] \<in> set (f_dirs s) \<and> k \<in> set (walkTree s n (d @ [x])))"
proof -
  have "(\<exists>e \<in> set (entries s d) \<inter> Collect snd. k \<in> set (walkTree s n (d @ [fst e]))) \<longleftrightarrow>
      (\<exists>x. (x, True) \<in> set (entries s d) \<and> k \<in> set (walkTree s n (d @ [x])))"
    by force
  then show ?thesis by (simp add: entries_dir)
qed

text \<open>A file two levels down is the file of its key.\<close>

lemma deep_file:
  assumes inv: "fs_inv s"
  shows "([a] \<in> set (f_dirs s) \<and> [a, b] \<in> set (f_dirs s) \<and> gget (f_files s) [a, b, k] \<noteq> None) \<longleftrightarrow>
    (a = take 2 k \<and> b = take 2 (drop 2 k) \<and> fs_cont s k \<noteq> None)"
proof
  assume h: "[a] \<in> set (f_dirs s) \<and> [a, b] \<in> set (f_dirs s) \<and> gget (f_files s) [a, b, k] \<noteq> None"
  then obtain i where i: "gget (f_files s) [a, b, k] = Some i" by auto
  show "a = take 2 k \<and> b = take 2 (drop 2 k) \<and> fs_cont s k \<noteq> None"
    by (rule file_place[OF inv i]) (use i in \<open>auto simp: fs_cont_def key_path_def scratch_path_def\<close>)
next
  assume h: "a = take 2 k \<and> b = take 2 (drop 2 k) \<and> fs_cont s k \<noteq> None"
  then obtain i where k: "good_key k" and i: "gget (f_files s) (key_path k) = Some i"
    by (auto simp: fs_cont_def split: if_splits)
  have "[a, b] \<in> set (f_dirs s)"
    by (rule file_place[OF inv i]) (use h in \<open>auto simp: key_path_def scratch_path_def\<close>)
  then show "[a] \<in> set (f_dirs s) \<and> [a, b] \<in> set (f_dirs s) \<and> gget (f_files s) [a, b, k] \<noteq> None"
    using parent_dirs[OF inv] i h by (auto simp: key_path_def)
qed

lemma list_contract:
  assumes inv: "fs_inv s"
  shows "k \<in> set (fs_List s) \<longleftrightarrow> fs_cont s k \<noteq> None"
proof -
  have "k \<in> set (fs_List s) \<longleftrightarrow>
      (\<exists>a b. [a] \<in> set (f_dirs s) \<and> [a, b] \<in> set (f_dirs s) \<and> gget (f_files s) [a, b, k] \<noteq> None)"
    unfolding fs_List_def numeral_2_eq_2 mem_walk_Suc mem_walk_0 using fs_invD(1)[OF inv] by auto
  then show ?thesis by (simp only: deep_file[OF inv]) simp
qed


text \<open>What the code relies on of \<open>filepath.Match\<close>: a pattern with none of its special characters matches itself only, and
  followed by an asterisk the names that begin with it.\<close>

definition plain :: "string \<Rightarrow> bool" where
  "plain c = (set c \<inter> set ''*?[]/'' = {} \<and> CHR 0x5C \<notin> set c)"

definition glob_ok :: "(string \<Rightarrow> (string \<Rightarrow> bool) option) \<Rightarrow> bool" where
  "glob_ok M = (\<forall>c. plain c \<longrightarrow> M c = Some (\<lambda>n. n = c) \<and> M (c @ ''*'') = Some (\<lambda>n. has_prefix n c))"

definition good_prefix :: "string \<Rightarrow> bool" where
  "good_prefix p = (plain p \<and> take 2 p \<noteq> ''..'' \<and> take 2 (drop 2 p) \<noteq> ''..'')"

text \<open>The patterns of the two directories: they match the directories of every key with the prefix.\<close>

definition dir_pats :: "(string \<Rightarrow> (string \<Rightarrow> bool) option) \<Rightarrow> string \<Rightarrow> string \<Rightarrow> string \<Rightarrow> bool" where
  "dir_pats M p c1 c2 = (c1 \<noteq> ''..'' \<and> c2 \<noteq> ''..'' \<and> (\<exists>m1 m2. M c1 = Some m1 \<and> M c2 = Some m2 \<and>
     (\<forall>k. has_prefix k p \<longrightarrow> m1 (take 2 k) \<and> m2 (take 2 (drop 2 k)))))"

lemma dir_patsI:
  assumes "c1 \<noteq> ''..''" "c2 \<noteq> ''..''" "M c1 = Some m1" "M c2 = Some m2"
    and "\<And>k. has_prefix k p \<Longrightarrow> m1 (take 2 k)" "\<And>k. has_prefix k p \<Longrightarrow> m2 (take 2 (drop 2 k))"
  shows "dir_pats M p c1 c2"
  using assms unfolding dir_pats_def by blast

lemma plain_part: "plain p \<Longrightarrow> plain (take m (drop n p))" "plain p \<Longrightarrow> plain (take m p)" "plain []"
  by (auto simp: plain_def dest: in_set_takeD in_set_dropD)

lemma prefix_parts:
  assumes "has_prefix k p" "2 \<le> length p"
  shows "take 2 k = take 2 p" and "has_prefix (take 2 (drop 2 k)) (take 2 (drop 2 p))"
proof -
  from assms(1) obtain t where t: "k = p @ t" by (rule has_prefixE)
  with assms(2) show "take 2 k = take 2 p" by simp
  have "take 2 (drop 2 k) = take 2 (drop 2 p) @ take (2 - (length p - 2)) t" using t assms(2) by simp
  then show "has_prefix (take 2 (drop 2 k)) (take 2 (drop 2 p))" by simp
qed

text \<open>A name that \<open>filepath.Join\<close> keeps as it is.\<close>

definition kept :: "string \<Rightarrow> bool" where
  "kept c = (c \<noteq> [] \<and> c \<noteq> ''.'' \<and> c \<noteq> ''..'')"

lemma kept_two: "length c = 2 \<Longrightarrow> c \<noteq> ''..'' \<Longrightarrow> kept c"
  by (auto simp: kept_def)

lemma clean_kept: "kept c1 \<Longrightarrow> kept c2 \<Longrightarrow> kept c3 \<Longrightarrow> clean_onto [] [c1, c2, c3] = [c1, c2, c3]"
  by (simp add: kept_def)

lemma kept_star: "kept (p @ ''*'')"
proof -
  have "last (p @ ''*'') = CHR ''*''" by simp
  moreover have "last ''.'' \<noteq> CHR ''*''" "last ''..'' \<noteq> CHR ''*''" by simp_all
  ultimately show ?thesis unfolding kept_def by (metis append_is_Nil_conv list.distinct(1))
qed

lemma plain_split:
  "plain c \<Longrightarrow> split_all CHR ''/'' (c @ CHR ''/'' # d) = c # split_all CHR ''/'' d"
  "plain c \<Longrightarrow> split_all CHR ''/'' (c @ ''*/'' @ d) = (c @ ''*'') # split_all CHR ''/'' d"
  "plain c \<Longrightarrow> split_all CHR ''/'' (c @ ''*'') = [c @ ''*'']"
  "plain c \<Longrightarrow> split_all CHR ''/'' c = [c]"
proof -
  assume "plain c"
  then have "CHR ''/'' \<notin> set c" "CHR ''/'' \<notin> set (c @ ''*'')" by (auto simp: plain_def)
  then show "split_all CHR ''/'' (c @ CHR ''/'' # d) = c # split_all CHR ''/'' d"
    "split_all CHR ''/'' (c @ ''*/'' @ d) = (c @ ''*'') # split_all CHR ''/'' d"
    "split_all CHR ''/'' (c @ ''*'') = [c @ ''*'']" "split_all CHR ''/'' c = [c]"
    using split_all_line[of "CHR ''/''" "c @ ''*''" d] by (simp_all add: split_all_line split_all_single)
qed


lemma glob_okD:
  assumes "glob_ok M"
  shows "plain c \<Longrightarrow> M c = Some (\<lambda>n. n = c)" "plain c \<Longrightarrow> M (c @ ''*'') = Some (\<lambda>n. has_prefix n c)" "M ''*'' = Some (\<lambda>n. True)"
  using assms plain_part(3) unfolding glob_ok_def by (blast, blast, fastforce)

lemma pats_short:
  assumes M: "glob_ok M" and p: "good_prefix p" and len: "length p \<le> 1"
  shows "\<exists>c1 c2. join_path [prefix_glob p, p @ ''*''] = [c1, c2, p @ ''*''] \<and> dir_pats M p c1 c2"
proof (intro exI conjI)
  have pl: "plain p" using p by (simp add: good_prefix_def)
  have g: "prefix_glob p = p @ ''*/'' @ ''*''" using len by (cases p) (auto simp: prefix_glob_def)
  have star: "split_all CHR ''/'' ''*'' = [''*'']" by simp
  show "join_path [prefix_glob p, p @ ''*''] = [p @ ''*'', ''*'', p @ ''*'']"
    using clean_kept[OF kept_star kept_star[of "[]"] kept_star, of p p]
    unfolding g join_path_def by (simp only: list.map concat.simps plain_split[OF pl] star) simp
  have "has_prefix (take 2 k) p" if "has_prefix k p" for k
    using that len by (cases p) (auto simp: has_prefix_iff)
  then show "dir_pats M p (p @ ''*'') ''*''"
    using kept_star[of p] unfolding dir_pats_def by (simp add: glob_okD[OF M] pl kept_def)
qed

lemma pats_two:
  assumes M: "glob_ok M" and p: "good_prefix p" and len: "length p = 2"
  shows "\<exists>c1 c2. join_path [prefix_glob p, p @ ''*''] = [c1, c2, p @ ''*''] \<and> dir_pats M p c1 c2"
proof (intro exI conjI)
  have pl: "plain p" and k: "kept p" using p len by (auto simp: good_prefix_def kept_def)
  have g: "prefix_glob p = p @ CHR ''/'' # ''*''" using len by (simp add: prefix_glob_def)
  have star: "split_all CHR ''/'' ''*'' = [''*'']" by simp
  show "join_path [prefix_glob p, p @ ''*''] = [p, ''*'', p @ ''*'']"
    using clean_kept[OF k kept_star[of "[]"] kept_star, of p]
    unfolding g join_path_def by (simp only: list.map concat.simps plain_split[OF pl] star) simp
  show "dir_pats M p p ''*''"
    using k prefix_parts(1)[of _ p] len unfolding dir_pats_def by (simp add: glob_okD[OF M] pl kept_def)
qed

lemma pats_three:
  assumes M: "glob_ok M" and p: "good_prefix p" and len: "length p = 3"
  shows "\<exists>c1 c2. join_path [prefix_glob p, p @ ''*''] = [c1, c2, p @ ''*''] \<and> dir_pats M p c1 c2"
proof (intro exI conjI)
  let ?a = "take 2 p" and ?b = "take 1 (drop 2 p)"
  have pl: "plain p" "plain ?a" "plain ?b" using p plain_part by (auto simp: good_prefix_def)
  have "length ?a = 2" using len by simp
  then have k: "kept ?a" using p by (intro kept_two) (simp_all add: good_prefix_def)
  have g: "prefix_glob p = ?a @ CHR ''/'' # ?b @ ''*''" using len by (simp add: prefix_glob_def)
  show "join_path [prefix_glob p, p @ ''*''] = [?a, ?b @ ''*'', p @ ''*'']"
    using clean_kept[OF k kept_star kept_star, of ?b p]
    unfolding g join_path_def by (simp only: list.map concat.simps plain_split[OF pl(1)] plain_split[OF pl(2)] plain_split[OF pl(3)]) simp
  have "?b = take 2 (drop 2 p)" using len by simp
  then have "has_prefix (take 2 (drop 2 x)) ?b" if "has_prefix x p" for x
    using prefix_parts(2)[OF that] len by simp
  then show "dir_pats M p ?a (?b @ ''*'')"
    using k kept_star[of ?b] len
    by (intro dir_patsI[OF _ _ glob_okD(1)[OF M pl(2)] glob_okD(2)[OF M pl(3)]]) (simp_all only: kept_def prefix_parts(1)[of _ p], simp_all)
qed

lemma pats_long:
  assumes M: "glob_ok M" and p: "good_prefix p" and len: "4 \<le> length p"
  shows "\<exists>c1 c2. join_path [prefix_glob p, p @ ''*''] = [c1, c2, p @ ''*''] \<and> dir_pats M p c1 c2"
proof (intro exI conjI)
  let ?a = "take 2 p" and ?b = "take 2 (drop 2 p)"
  have pl: "plain p" "plain ?a" "plain ?b" using p plain_part by (auto simp: good_prefix_def)
  have "length ?a = 2" "length ?b = 2" using len by simp_all
  then have k: "kept ?a" "kept ?b" using p by (intro kept_two, simp_all add: good_prefix_def)+
  have g: "prefix_glob p = ?a @ CHR ''/'' # ?b" using len by (auto simp: prefix_glob_def)
  show "join_path [prefix_glob p, p @ ''*''] = [?a, ?b, p @ ''*'']"
    using clean_kept[OF k kept_star, of p]
    unfolding g join_path_def by (simp only: list.map concat.simps plain_split[OF pl(1)] plain_split[OF pl(2)] plain_split[OF pl(3)]) simp
  have "take 2 (drop 2 x) = ?b" if "has_prefix x p" for x
    using that len by (auto simp: has_prefix_iff)
  then show "dir_pats M p ?a ?b"
    using k prefix_parts(1)[of _ p] len unfolding dir_pats_def by (simp add: glob_okD[OF M] pl kept_def)
qed

lemma list_pats:
  assumes "glob_ok M" and "good_prefix p"
  obtains c1 c2 where "join_path [prefix_glob p, p @ ''*''] = [c1, c2, p @ ''*'']" "dir_pats M p c1 c2"
proof -
  consider "length p \<le> 1" | "length p = 2" | "length p = 3" | "4 \<le> length p" by linarith
  then show thesis
    using pats_short[OF assms] pats_two[OF assms] pats_three[OF assms] pats_long[OF assms] that by cases blast+
qed

text \<open>The names that a pattern of three parts finds.\<close>

lemma mem_glob:
  assumes c: "c1 \<noteq> ''..''" "c2 \<noteq> ''..''" "c3 \<noteq> ''..''" and M: "M c1 = Some m1" "M c2 = Some m2" "M c3 = Some m3"
  shows "q \<in> set (glob_from M s [] [c1, c2, c3]) \<longleftrightarrow> (\<exists>a b n. q = [a, b, n] \<and> m1 a \<and> m2 b \<and> m3 n \<and>
    [a] \<in> set (f_dirs s) \<and> [a, b] \<in> set (f_dirs s) \<and> ([a, b, n] \<in> set (f_dirs s) \<or> gget (f_files s) [a, b, n] \<noteq> None))"
proof -
  have e: "n \<in> fst ` set (entries s p) \<longleftrightarrow> p @ [n] \<in> set (f_dirs s) \<or> gget (f_files s) (p @ [n]) \<noteq> None" for n p
  proof -
    have "n \<in> fst ` set (entries s p) \<longleftrightarrow> (\<exists>d. (n, d) \<in> set (entries s p))" by force
    then show ?thesis by (simp only: ex_bool_eq entries_dir entries_file)
  qed
  have l3: "q \<in> set (glob_from M s p [c3]) \<longleftrightarrow> (\<exists>n. q = p @ [n] \<and> m3 n \<and> (p @ [n] \<in> set (f_dirs s) \<or> gget (f_files s) (p @ [n]) \<noteq> None))" for p q
    using c M by (simp add: e) auto
  have l2: "q \<in> set (glob_from M s p (c2 # [c3])) \<longleftrightarrow> (\<exists>b. m2 b \<and> p @ [b] \<in> set (f_dirs s) \<and> q \<in> set (glob_from M s (p @ [b]) [c3]))" for p q
    using c M by (auto simp del: glob_from.simps(2) simp: glob_from.simps(2)[of M s p c2] entries_dir e)
  have l1: "q \<in> set (glob_from M s [] (c1 # [c2, c3])) \<longleftrightarrow> (\<exists>a. m1 a \<and> [a] \<in> set (f_dirs s) \<and> q \<in> set (glob_from M s [a] [c2, c3]))" for q
    using c M by (auto simp del: glob_from.simps(2) simp: glob_from.simps(2)[of M s "[]" c1] entries_dir e)
  show ?thesis unfolding l1 l2 l3 by auto
qed


lemma ex_last3: "(\<exists>x. (\<exists>a b n. x = [a, b, n] \<and> P a b n) \<and> k = last x) \<longleftrightarrow> (\<exists>a b. P a b k)"
proof
  assume "\<exists>a b. P a b k"
  then obtain a b where "(\<exists>a' b' n. [a, b, k] = [a', b', n] \<and> P a' b' n) \<and> k = last [a, b, k]" by auto
  then show "\<exists>x. (\<exists>a b n. x = [a, b, n] \<and> P a b n) \<and> k = last x" by blast
qed (auto, blast)

lemma list_prefix_contract:
  assumes inv: "fs_inv s" and M: "glob_ok M" and p: "good_prefix p"
  shows "\<exists>ks. fs_ListPrefix M s p = Inr ks \<and> (\<forall>k. k \<in> set ks \<longleftrightarrow> fs_cont s k \<noteq> None \<and> has_prefix k p)"
proof -
  obtain c1 c2 where j: "join_path [prefix_glob p, p @ ''*''] = [c1, c2, p @ ''*'']" and d: "dir_pats M p c1 c2"
    using list_pats[OF M p] by metis
  from d obtain m1 m2 where c: "c1 \<noteq> ''..''" "c2 \<noteq> ''..''" and m: "M c1 = Some m1" "M c2 = Some m2"
    and mk: "\<And>k. has_prefix k p \<Longrightarrow> m1 (take 2 k) \<and> m2 (take 2 (drop 2 k))" unfolding dir_pats_def by blast
  have m3: "M (p @ ''*'') = Some (\<lambda>n. has_prefix n p)" using p by (intro glob_okD(2)[OF M]) (simp add: good_prefix_def)
  have c3: "p @ ''*'' \<noteq> ''..''" using kept_star[of p] by (simp add: kept_def)
  let ?ks = "map last (glob_from M s [] [c1, c2, p @ ''*''])"
  have "fs_ListPrefix M s p = Inr ?ks" unfolding fs_ListPrefix_def j Let_def by (simp add: m m3 del: glob_from.simps)
  moreover have nodir: "[a, b, n] \<notin> set (f_dirs s)" for a b n using fs_invD(2)[OF inv] by (fastforce simp: dir_ok_def)
  have "k \<in> set ?ks \<longleftrightarrow> fs_cont s k \<noteq> None \<and> has_prefix k p" for k
  proof -
    have "k \<in> set ?ks \<longleftrightarrow> (\<exists>q \<in> set (glob_from M s [] [c1, c2, p @ ''*'']). k = last q)"
      by (auto simp del: glob_from.simps)
    also have "\<dots> \<longleftrightarrow> (\<exists>a b. m1 a \<and> m2 b \<and> has_prefix k p \<and> [a] \<in> set (f_dirs s) \<and> [a, b] \<in> set (f_dirs s) \<and> gget (f_files s) [a, b, k] \<noteq> None)"
      unfolding Bex_def mem_glob[of c1 c2 "p @ ''*''" M, OF c c3 m m3] ex_last3 by (simp add: nodir)
    also have "\<dots> \<longleftrightarrow> (\<exists>a b. m1 a \<and> m2 b \<and> has_prefix k p \<and> a = take 2 k \<and> b = take 2 (drop 2 k) \<and> fs_cont s k \<noteq> None)"
      by (simp only: deep_file[OF inv])
    also have "\<dots> \<longleftrightarrow> fs_cont s k \<noteq> None \<and> has_prefix k p"
      using mk[of k] by (auto simp: fs_cont_def good_key_def split: if_splits)
    finally show ?thesis .
  qed
  ultimately show ?thesis by blast
qed

lemma file_read_at_ok: "read_at_ok file_ReadAt"
  by (auto simp: read_at_ok_def file_ReadAt_def Let_def)

lemma new_fs_inv: "fs_inv NewFileSystem" "fs_cont NewFileSystem = (\<lambda>k. None)" "fs_wst NewFileSystem = (\<lambda>h. None)"
  by (auto simp: fs_inv_def NewFileSystem_def dir_ok_def fs_cont_def fs_wst_def)

section \<open>The contract of the interface\<close>

text \<open>The operations with what the matcher has to be: the rest of the development sees a store with the contract.\<close>

locale file_store =
  fixes M :: "string \<Rightarrow> (string \<Rightarrow> bool) option"
  assumes glob: "glob_ok M"

sublocale file_store \<subseteq> store "fs_ops M" fs_cont fs_wst good_key good_prefix fs_inv
proof (unfold_locales, goal_cases)
  case (1 s k)
  then show ?case by (simp add: fs_ops_def list_contract)
next
  case (2 s p)
  then show ?case using list_prefix_contract[OF _ glob] by (fastforce simp: fs_ops_def)
next
  case (3 s p ks k)
  then show ?case using list_prefix_contract[OF _ glob, of s p] by (auto simp: fs_ops_def)
next
  case (4 s k b)
  then show ?case by (simp add: fs_ops_def open_contract)
next
  case (5 s k)
  then show ?case by (simp add: fs_ops_def open_contract)
next
  case (6 s k)
  then show ?case using create_contract[of s k] by (simp add: fs_ops_def)
next
  case (7 s h k b p)
  then show ?case using write_contract[of s h k b p] by (simp add: fs_ops_def)
next
  case (8 s h k b)
  then show ?case using close_contract[of s h k b] by (simp add: fs_ops_def)
next
  case (9 s k)
  then show ?case using delete_contract[of s k] by (simp add: fs_ops_def)
next
  case 10
  show ?case by (simp add: fs_ops_def file_read_at_ok)
qed

context file_store
begin

lemma is_store: "store (fs_ops M) fs_cont fs_wst good_key good_prefix fs_inv"
  by unfold_locales

lemma client_run:
  assumes "spec_run good_key xs (\<lambda>k. None, \<lambda>k. None) = Some (c, w)"
  shows "\<exists>s env. cl_run (fs_ops M) xs (NewFileSystem, \<lambda>k. None) = (None, (s, env)) \<and> fs_inv s \<and> fs_cont s = c \<and>
    (\<forall>k b. w k = Some b \<longrightarrow> (\<exists>h. fs_wst s h = Some (k, b)))"
  using run_from_empty[OF new_fs_inv assms] by blast

end

end
