(* ===== verification/File_Store_Properties.thy ===== *)
theory File_Store_Properties
  imports File_Store_Correct
begin

text \<open>
  What clients of the store on a file system (src/store/file_store.go) see, and an instance of the matcher for the witnesses.
\<close>

section \<open>A matcher\<close>

text \<open>The part of \<open>filepath.Match\<close> for patterns whose only special character is an asterisk at the end.\<close>

definition star_match :: "string \<Rightarrow> (string \<Rightarrow> bool) option" where
  "star_match c = Some (if c \<noteq> [] \<and> last c = CHR ''*'' then (\<lambda>n. has_prefix n (butlast c)) else (\<lambda>n. n = c))"

lemma star_match_ok: "glob_ok star_match"
proof -
  have "last c \<noteq> CHR ''*''" if "plain c" "c \<noteq> []" for c
  proof
    assume "last c = CHR ''*''"
    with last_in_set[OF that(2)] have "CHR ''*'' \<in> set c" by simp
    with that(1) show False by (simp add: plain_def)
  qed
  then show ?thesis by (auto simp: glob_ok_def star_match_def)
qed

interpretation fsx: file_store star_match
  by unfold_locales (rule star_match_ok)

section \<open>Refinement\<close>

text \<open>C7. The store on a file system behaves as a map. Take any sequence of \<open>Create\<close>, \<open>Write\<close>, \<open>Close\<close> and \<open>Delete\<close> on an empty
  store, with writers to several keys open at once, in which a key is created only when it is neither stored nor being written, a writer is used only
  until its \<open>Close\<close>, and a key is not deleted while it is being written. Every call succeeds; afterwards \<open>List\<close> has exactly the
  stored keys, never one that is still being written, \<open>ListPrefix\<close> has those of them that begin with the prefix, and \<open>Open\<close>
  gives the bytes that were written, or that the file does not exist.\<close>

theorem file_store_refines:
  assumes "glob_ok M" and "spec_run good_key xs (\<lambda>k. None, \<lambda>k. None) = Some (c, w)"
  shows "\<exists>s env. cl_run (fs_ops M) xs (NewFileSystem, \<lambda>k. None) = (None, (s, env)) \<and> set (fs_List s) = dom c \<and>
    (\<forall>p. good_prefix p \<longrightarrow> (\<exists>ks. fs_ListPrefix M s p = Inr ks \<and> set ks = {k \<in> dom c. has_prefix k p})) \<and>
    (\<forall>k. good_key k \<longrightarrow> fs_Open s k = (case c k of None \<Rightarrow> Inl ErrNotExist | Some b \<Rightarrow> Inr b, s))"
proof -
  obtain s env where run: "cl_run (fs_ops M) xs (NewFileSystem, \<lambda>k. None) = (None, (s, env))" and s: "fs_inv s" "fs_cont s = c"
    using file_store.client_run[OF file_store.intro[OF assms(1)] assms(2)] by blast
  have "set (fs_List s) = dom c" using list_contract[OF s(1)] s(2) by auto
  moreover have "\<exists>ks. fs_ListPrefix M s p = Inr ks \<and> set ks = {k \<in> dom c. has_prefix k p}" if "good_prefix p" for p
    using list_prefix_contract[OF s(1) assms(1) that] s(2) by auto
  moreover have "fs_Open s k = (case c k of None \<Rightarrow> Inl ErrNotExist | Some b \<Rightarrow> Inr b, s)" if "good_key k" for k
    using open_contract[OF s(1) that] s(2) by simp
  ultimately show ?thesis using run by blast
qed


lemma run_two:
  assumes "good_key k" "good_key l" "k \<noteq> l"
  shows "spec_run good_key [CCreate k, CCreate l, CWrite k a, CWrite l b, CWrite k c, CClose k] (\<lambda>k. None, \<lambda>k. None) =
      Some ([k \<mapsto> a @ c], [l \<mapsto> b])"
    and "spec_run good_key [CCreate k, CWrite k a, CClose k, CCreate l] (\<lambda>k. None, \<lambda>k. None) = Some ([k \<mapsto> a], [l \<mapsto> []])"
  using assms by (auto simp: fun_eq_iff)

theorem file_store_refines_witness:
  "glob_ok star_match \<and>
   spec_run good_key [CCreate ''abcd'', CCreate ''abxy'', CWrite ''abcd'' ''one'', CWrite ''abxy'' ''two'', CWrite ''abcd'' ''1'', CClose ''abcd''] (\<lambda>k. None, \<lambda>k. None) =
     Some ([''abcd'' \<mapsto> ''one1''], [''abxy'' \<mapsto> ''two'']) \<and>
   (\<exists>s env. cl_run (fs_ops star_match)
      [CCreate ''abcd'', CCreate ''abxy'', CWrite ''abcd'' ''one'', CWrite ''abxy'' ''two'', CWrite ''abcd'' ''1'', CClose ''abcd'']
      (NewFileSystem, \<lambda>k. None) = (None, (s, env)) \<and> set (fs_List s) = {''abcd''} \<and> fs_Open s ''abcd'' = (Inr ''one1'', s))"
proof -
  have g: "good_key ''abcd''" "good_key ''abxy''" 
    by (simp_all add: good_key_def isKeyValid_def IsSpace_def IsControl_def)
  have ne: "''abcd'' \<noteq> ''abxy''" by simp
  have run: "spec_run good_key [CCreate ''abcd'', CCreate ''abxy'', CWrite ''abcd'' ''one'', CWrite ''abxy'' ''two'', CWrite ''abcd'' ''1'', CClose ''abcd''] (\<lambda>k. None, \<lambda>k. None) =
     Some ([''abcd'' \<mapsto> ''one1''], [''abxy'' \<mapsto> ''two''])"
    using run_two(1)[OF g(1,2) ne, of "''one''" "''two''" "''1''"] by (simp only: append.simps)
  obtain s env where r: "cl_run (fs_ops star_match)
      [CCreate ''abcd'', CCreate ''abxy'', CWrite ''abcd'' ''one'', CWrite ''abxy'' ''two'', CWrite ''abcd'' ''1'', CClose ''abcd'']
      (NewFileSystem, \<lambda>k. None) = (None, (s, env))" and l: "set (fs_List s) = dom [''abcd'' \<mapsto> ''one1'']"
    and o: "fs_Open s ''abcd'' = (case [''abcd'' \<mapsto> ''one1''] ''abcd'' of None \<Rightarrow> Inl ErrNotExist | Some b \<Rightarrow> Inr b, s)"
    using file_store_refines[OF star_match_ok run] g(1) by blast
  have "set (fs_List s) = {''abcd''} \<and> fs_Open s ''abcd'' = (Inr ''one1'', s)" using l o by simp
  with star_match_ok run r show ?thesis by blast
qed

section \<open>What is refused\<close>

lemma create_refused:
  assumes inv: "fs_inv s" and k: "good_key k"
  shows "fs_cont s k \<noteq> None \<Longrightarrow> \<exists>s'. fs_Create s k = (Inl ErrKeyExists, s') \<and> same_files s s' \<and> fs_inv s'"
    and "fs_cont s k = None \<Longrightarrow> fs_wst s h = Some (k, b) \<Longrightarrow> \<exists>s'. fs_Create s k = (Inl (IOError ''file exists''), s') \<and> same_files s s' \<and> fs_inv s'"
proof -
  obtain s1 where s1: "setupSubDir s (itemSubdir k) k = (Inr (key_path k), s1)" "fs_inv s1" "same_files s s1"
    "butlast (key_path k) \<in> set (f_dirs s1)" using setup_key[OF inv k] by metis
  have v: "isKeyValid k = None" using k by (simp add: good_key_def)
  have st: "os_Stat s1 (key_path k) = (case gget (f_files s) (key_path k) of None \<Rightarrow> Inl ErrNotExist | Some i \<Rightarrow> Inr (FileNode i))"
    using stat_key[OF s1(2) k] s1(3) by (simp add: same_files_def)
  show "\<exists>s'. fs_Create s k = (Inl ErrKeyExists, s') \<and> same_files s s' \<and> fs_inv s'" if "fs_cont s k \<noteq> None"
    using that k by (intro exI[of _ s1]) (auto simp: fs_Create_def v s1 st fs_cont_def)
  show "\<exists>s'. fs_Create s k = (Inl (IOError ''file exists''), s') \<and> same_files s s' \<and> fs_inv s'" if none: "fs_cont s k = None" and w: "fs_wst s h = Some (k, b)"
  proof -
    obtain s2 where s2: "setupSubDir s1 scratchdir k = (Inr (scratch_path k), s2)" "fs_inv s2" "same_files s1 s2"
      "[scratchdir] \<in> set (f_dirs s2)" using setup_scratch[OF s1(2) k] by metis
    have same: "same_files s s2" using same_files_trans s1(3) s2(3) by blast
    obtain i where "gget (f_files s) (scratch_path k) = Some i" using fs_wst_Some[OF inv w] by metis
    then have "os_Stat s2 (scratch_path k) = Inr (FileNode i)"
      using stat_scratch(1)[OF s2(2) k s2(4)] same by (simp add: same_files_def)
    then have "open_new s2 (scratch_path k) (key_path k) = (Inl (IOError ''file exists''), s2)" by (simp add: open_new_def)
    then show ?thesis using none k same by (intro exI[of _ s2]) (simp add: fs_Create_def v s1 st fs_cont_def s2)
  qed
qed


text \<open>C37. Nothing in the store on a file system is overwritten. After any such sequence of calls, \<open>Create\<close> of a key that is
  stored fails with \<open>ErrKeyExists\<close>; \<open>Create\<close> of a key that is being written fails because its scratch file exists; \<open>Create\<close> of a key that
  is not valid Unicode, or has a slash, white space or a control character, fails with the error for that. In each case every
  \<open>Open\<close> answers as before.\<close>

theorem file_store_refuses:
  assumes "glob_ok M" and "spec_run good_key xs (\<lambda>k. None, \<lambda>k. None) = Some (c, w)"
  shows "\<exists>s env. cl_run (fs_ops M) xs (NewFileSystem, \<lambda>k. None) = (None, (s, env)) \<and>
    (\<forall>k e. (good_key k \<and> c k \<noteq> None \<and> e = ErrKeyExists \<or> good_key k \<and> c k = None \<and> w k \<noteq> None \<and> e = IOError ''file exists'' \<or> isKeyValid k = Some e) \<longrightarrow>
       fst (fs_Create s k) = Inl e \<and> (\<forall>k'. good_key k' \<longrightarrow> fst (fs_Open (snd (fs_Create s k)) k') = fst (fs_Open s k')))"
proof -
  obtain s env where run: "cl_run (fs_ops M) xs (NewFileSystem, \<lambda>k. None) = (None, (s, env))" and s: "fs_inv s" "fs_cont s = c"
      and w: "\<And>k b. w k = Some b \<Longrightarrow> \<exists>h. fs_wst s h = Some (k, b)"
    using file_store.client_run[OF file_store.intro[OF assms(1)] assms(2)] by blast
  have same: "fst (fs_Open s' k') = fst (fs_Open s k')" if "same_files s s'" "fs_inv s'" "good_key k'" for s' k'
    using open_contract[OF that(2,3)] open_contract[OF s(1) that(3)] same_files_view[OF that(1)] by simp
  have one: "fst (fs_Create s k) = Inl e \<and> (\<forall>k'. good_key k' \<longrightarrow> fst (fs_Open (snd (fs_Create s k)) k') = fst (fs_Open s k'))"
    if "fs_Create s k = (Inl e, s')" "same_files s s'" "fs_inv s'" for k e s'
    using that same by simp
  have "fst (fs_Create s k) = Inl e \<and> (\<forall>k'. good_key k' \<longrightarrow> fst (fs_Open (snd (fs_Create s k)) k') = fst (fs_Open s k'))"
    if "good_key k \<and> c k \<noteq> None \<and> e = ErrKeyExists \<or> good_key k \<and> c k = None \<and> w k \<noteq> None \<and> e = IOError ''file exists'' \<or> isKeyValid k = Some e" for k e
    using that
  proof (elim disjE conjE)
    assume "good_key k" "c k \<noteq> None" "e = ErrKeyExists"
    then show ?thesis using create_refused(1)[OF s(1)] s(2) one by blast
  next
    assume k: "good_key k" "c k = None" "w k \<noteq> None" "e = IOError ''file exists''"
    then obtain h b where "fs_wst s h = Some (k, b)" using w by blast
    then show ?thesis using create_refused(2)[OF s(1) k(1)] k s(2) one by blast
  next
    assume "isKeyValid k = Some e"
    then show ?thesis by (simp add: fs_Create_def)
  qed
  with run show ?thesis by blast
qed

theorem file_store_refuses_witness:
  "glob_ok star_match \<and>
   spec_run good_key [CCreate ''abcd'', CWrite ''abcd'' ''one'', CClose ''abcd'', CCreate ''abxy''] (\<lambda>k. None, \<lambda>k. None) =
     Some ([''abcd'' \<mapsto> ''one''], [''abxy'' \<mapsto> []]) \<and>
   (\<exists>s env. cl_run (fs_ops star_match) [CCreate ''abcd'', CWrite ''abcd'' ''one'', CClose ''abcd'', CCreate ''abxy''] (NewFileSystem, \<lambda>k. None) = (None, (s, env)) \<and>
     fst (fs_Create s ''abcd'') = Inl ErrKeyExists \<and> fst (fs_Create s ''abxy'') = Inl (IOError ''file exists'') \<and>
     fst (fs_Create s ''ab cd'') = Inl ErrKeyContainsWhiteSpace)"
proof -
  have g: "good_key ''abcd''" "good_key ''abxy''" "isKeyValid ''ab cd'' = Some ErrKeyContainsWhiteSpace" 
    by (simp_all add: good_key_def isKeyValid_def IsSpace_def IsControl_def)
  have ne: "''abcd'' \<noteq> ''abxy''" by simp
  have run: "spec_run good_key [CCreate ''abcd'', CWrite ''abcd'' ''one'', CClose ''abcd'', CCreate ''abxy''] (\<lambda>k. None, \<lambda>k. None) =
     Some ([''abcd'' \<mapsto> ''one''], [''abxy'' \<mapsto> []])"
    by (rule run_two(2)[OF g(1,2) ne])
  from file_store_refuses[OF star_match_ok run]
  obtain s env where r: "cl_run (fs_ops star_match) [CCreate ''abcd'', CWrite ''abcd'' ''one'', CClose ''abcd'', CCreate ''abxy'']
      (NewFileSystem, \<lambda>k. None) = (None, (s, env))"
    and ref: "\<forall>k e. (good_key k \<and> [''abcd'' \<mapsto> ''one''] k \<noteq> None \<and> e = ErrKeyExists \<or>
        good_key k \<and> [''abcd'' \<mapsto> ''one''] k = None \<and> [''abxy'' \<mapsto> ([] :: bytes)] k \<noteq> None \<and> e = IOError ''file exists'' \<or> isKeyValid k = Some e) \<longrightarrow>
        fst (fs_Create s k) = Inl e \<and> (\<forall>k'. good_key k' \<longrightarrow> fst (fs_Open (snd (fs_Create s k)) k') = fst (fs_Open s k'))"
    by blast
  have "fst (fs_Create s ''abcd'') = Inl ErrKeyExists" using g by (intro conjunct1[OF ref[rule_format]]) simp
  moreover have "fst (fs_Create s ''abxy'') = Inl (IOError ''file exists'')" using g by (intro conjunct1[OF ref[rule_format]]) simp
  moreover have "fst (fs_Create s ''ab cd'') = Inl ErrKeyContainsWhiteSpace" using g by (intro conjunct1[OF ref[rule_format]]) simp
  ultimately show ?thesis using star_match_ok run r by blast
qed

end
