(* ===== verification/Items_On_Disk.thy ===== *)
theory Items_On_Disk
  imports Item_Properties File_Store_Properties
begin

text \<open>
  The item store (src/items) over the store on a file system (src/store/file_store.go), as a server with its files on disk runs
  them. The theory of the item store asks for the contract of a store only, so it holds of this one for the ids whose bundles are valid keys.
\<close>

section \<open>Ids whose bundles are valid keys\<close>

definition printable :: "char \<Rightarrow> bool" where
  "printable c = (33 \<le> (of_char c :: nat) \<and> (of_char c :: nat) \<le> 126)"

text \<open>At least two printable characters of ASCII, other than a slash and those that are special in a pattern, and no step to a parent directory.\<close>

definition disk_id :: "string \<Rightarrow> bool" where
  "disk_id iid = (2 \<le> length iid \<and> list_all printable iid \<and> good_prefix iid)"

lemma utf8_ascii: "list_all (\<lambda>n. n < 128) ns \<Longrightarrow> utf8_runes ns = Some ns"
  by (induction ns) auto

lemma check_ascii: "list_all (\<lambda>n. 33 \<le> n \<and> n \<le> 126) ns \<Longrightarrow> check_runes ns = None"
  by (induction ns) (auto simp: IsSpace_def IsControl_def)

lemma printable_valid:
  assumes "list_all printable k" and "CHR ''/'' \<notin> set k"
  shows "isKeyValid k = None"
proof -
  have "list_all (\<lambda>n. 33 \<le> n \<and> n \<le> 126) (map of_char k :: nat list)" using assms(1) by (auto simp: list_all_iff printable_def)
  moreover from this have "list_all (\<lambda>n. n < 128) (map of_char k :: nat list)" by (auto simp: list_all_iff)
  ultimately show ?thesis using assms(2) by (simp add: isKeyValid_def utf8_ascii check_ascii)
qed

lemma fmt_04d_digits: "0 \<le> n \<Longrightarrow> c \<in> set (fmt_04d n) \<Longrightarrow> \<exists>d < 10. c = digit_char d"
proof -
  assume n: "0 \<le> n" and "c \<in> set (fmt_04d n)"
  then have "c = digit_char 0 \<or> c \<in> set (nat_digits (nat n))" by (auto simp: fmt_04d_def zero_pad_def digit_char_0)
  then show ?thesis using nat_digits_set[of c "nat n"] by (metis zero_less_numeral)
qed

lemma digit_printable: "d < 10 \<Longrightarrow> printable (digit_char d) \<and> digit_char d \<noteq> CHR ''/'' \<and> digit_char d \<noteq> CHR ''.''"
proof -
  assume d: "d < 10"
  then have "of_char (digit_char d) = 48 + d" by (rule digit_char_range)
  moreover have "of_char (CHR ''/'') = (47 :: nat)" "of_char (CHR ''.'') = (46 :: nat)" by simp_all
  ultimately show ?thesis using d by (auto simp: printable_def)
qed

lemma tail_ok:
  assumes "0 \<le> n" and "t = ''-'' @ fmt_04d n @ ''.zip''"
  shows "list_all printable t" "CHR ''/'' \<notin> set t" "5 \<le> length t" "t ! 0 = CHR ''-''"
proof -
  have d: "printable c \<and> c \<noteq> CHR ''/'' \<and> c \<noteq> CHR ''.''" if h: "c \<in> set (fmt_04d n)" for c
  proof -
    obtain d where "d < 10" "c = digit_char d" using fmt_04d_digits[OF assms(1) h] by blast
    then show ?thesis using digit_printable[of d] by simp
  qed
  have "printable (CHR ''-'')" "list_all printable ''.zip''" by (simp_all add: printable_def)
  moreover have "list_all printable (fmt_04d n)" using d by (simp add: list_all_iff)
  ultimately show "list_all printable t" unfolding assms(2) by simp
  have "CHR ''/'' \<notin> set (fmt_04d n)" using d by blast
  then show "CHR ''/'' \<notin> set t" unfolding assms(2) by simp
  show "5 \<le> length t" "t ! 0 = CHR ''-''" by (simp_all add: assms(2))
qed

text \<open>The first two pairs of characters of a key are a pair of dots only when they are so in the id.\<close>

lemma dotdot_app:
  assumes pre: "good_prefix iid" and len: "2 \<le> length iid" and t: "5 \<le> length t" "t ! 0 = CHR ''-''"
  shows "take 2 (iid @ t) \<noteq> ''..'' \<and> take 2 (drop 2 (iid @ t)) \<notin> {''.'', ''..''}"
proof -
  have p: "take 2 iid \<noteq> ''..''" "take 2 (drop 2 iid) \<noteq> ''..''" using pre by (simp_all add: good_prefix_def)
  have "take 2 (iid @ t) = take 2 iid" using len by simp
  moreover have l2: "length (take 2 (drop 2 (iid @ t))) = 2" using t(1) by simp
  moreover have "take 2 (drop 2 (iid @ t)) \<noteq> ''..''"
  proof (cases "4 \<le> length iid")
    case True
    then have e: "take 2 (drop 2 (iid @ t)) = take 2 (drop 2 iid)" by simp
    show ?thesis unfolding e by (rule p(2))
  next
    case False
    define i where "i = length iid - 2"
    have "i < 2" "take 2 (drop 2 (iid @ t)) ! i = CHR ''-''" using False len t by (auto simp: i_def nth_append)
    moreover have "''..'' ! j = CHR ''.''" if "j < 2" for j using that by (cases j) auto
    ultimately show ?thesis by fastforce
  qed
  moreover have "take 2 (drop 2 (iid @ t)) \<noteq> ''.''"
  proof
    assume e: "take 2 (drop 2 (iid @ t)) = ''.''"
    show False using l2 unfolding e by simp
  qed
  ultimately show ?thesis using p(1) by (simp only: insert_iff empty_iff simp_thms)
qed

lemma disk_id_ok:
  assumes "disk_id iid"
  shows "id_ok good_key iid \<and> good_prefix iid"
proof -
  have pre: "good_prefix iid" and pr: "list_all printable iid" and len: "2 \<le> length iid" using assms by (auto simp: disk_id_def)
  have slash: "CHR ''/'' \<notin> set iid" using pre by (auto simp: good_prefix_def plain_def)
  have "good_key (sugar iid n)" if "0 \<le> n" for n
  proof -
    define t where "t = ''-'' @ fmt_04d n @ ''.zip''"
    note T = tail_ok[OF that t_def]
    have s: "sugar iid n = iid @ t" by (simp add: sugar_def t_def)
    have "isKeyValid (iid @ t) = None" using pr slash T(1,2) by (intro printable_valid) simp_all
    moreover have "take 2 (iid @ t) \<noteq> ''..''" "take 2 (drop 2 (iid @ t)) \<notin> {''.'', ''..''}"
      using dotdot_app[OF pre len T(3,4)] by blast+
    ultimately show ?thesis unfolding s good_key_def using T(3) by simp
  qed
  moreover have "CHR ''/'' \<notin> set (trim_suffix iid ''.zip'')" using slash by (auto simp: trim_suffix_def dest: in_set_takeD)
  ultimately show ?thesis using pre by (simp add: id_ok_def)
qed

section \<open>Items on disk\<close>

lemma disk_items:
  fixes E :: "(filesys, nat, 'c) item_env"
  assumes "glob_ok M" "e_S E = fs_ops M" "hashes_ok (e_H E)" "\<forall>fs. zip_rt (e_Z E) fs" "cache_ok (e_C E)"
  shows "item_refine (fs_ops M) fs_cont fs_wst good_key good_prefix fs_inv E"
proof -
  have "store (fs_ops M) fs_cont fs_wst good_key good_prefix fs_inv"
    by (rule file_store.is_store[OF file_store.intro[OF assms(1)]])
  then have "bundle_store (fs_ops M) fs_cont fs_wst good_key good_prefix fs_inv E"
    using assms(2-4) by (simp add: bundle_store_def bundle_store_axioms_def)
  then show ?thesis using assms(5) by (simp add: item_refine_def item_refine_axioms_def cache_ok_def)
qed

text \<open>C3. Items that are kept in files are kept. Over the store on a file system, from an empty directory and with an empty cache, every session of any
  sequence of sessions succeeds, and for every item a reader gets what the specification says: the content and size of each blob, an error
  for a deleted or unknown one, and the slot tables of all versions.\<close>

theorem items_on_disk:
  fixes E :: "(filesys, nat, 'c) item_env"
  assumes "glob_ok M" and "e_S E = fs_ops M" and "hashes_ok (e_H E)" and "\<forall>fs. zip_rt (e_Z E) fs" and "cache_ok (e_C E)"
    and "\<forall>j. ic_Lookup (e_C E) c j = None" and "sessions_ok disk_id E ss (items_NewWithCache NewFileSystem c) no_items"
  shows "\<exists>errs st. run_sessions E ss (items_NewWithCache NewFileSystem c) = (errs, st) \<and> set errs \<subseteq> {None} \<and>
    (\<forall>iid. disk_id iid \<longrightarrow>
       (\<forall>i. fst (items_Blob E st iid i) = spec_read iid (spec_sessions (e_H E) ss no_items iid) i) \<and>
       (case fst (items_Item E st iid) of
          Inl e \<Rightarrow> e = ErrNoItem \<and> snd (spec_sessions (e_H E) ss no_items iid) = []
        | Inr item \<Rightarrow> snd (spec_sessions (e_H E) ss no_items iid) \<noteq> [] \<and> item_ID item = iid \<and>
            (\<forall>v slot. BlobByVersionSlot item v slot = spec_slot (spec_sessions (e_H E) ss no_items iid) v slot)))"
  by (rule item_refine.sessions_refine[OF disk_items[OF assms(1-5)] new_fs_inv assms(6,7) disk_id_ok])

definition disk_env :: "(filesys, nat, memoryCache) item_env" where
  "disk_env = \<lparr>e_S = fs_ops star_match, e_C = memoryCache_ops, e_H = demo_hashes, e_Z = demo_zip, e_J = item_json, e_date = (\<lambda>t. ''2020-01-01'')\<rparr>"

lemma disk_env_ok:
  "e_S disk_env = fs_ops star_match" "hashes_ok (e_H disk_env)" "\<forall>fs. zip_rt (e_Z disk_env) fs" "cache_ok (e_C disk_env)"
  "\<forall>j. ic_Lookup (e_C disk_env) [] j = None" "e_H disk_env = demo_hashes" "e_J disk_env = item_json"
  by (simp_all add: disk_env_def demo_hashes_ok demo_zip_rt memoryCache_ok) (simp add: memoryCache_ops_def)

interpretation diskitems: item_refine "fs_ops star_match" fs_cont fs_wst good_key good_prefix fs_inv disk_env
  by (rule disk_items[OF star_match_ok disk_env_ok(1-4)])

lemma disk_id_demo: "disk_id ''item1''"
  by (simp add: disk_id_def printable_def good_prefix_def plain_def)

lemma disk_sessions_ok: "sessions_ok disk_id disk_env [demo_session] (items_NewWithCache NewFileSystem []) no_items"
proof -
  have "diskitems.all_rest (items_NewWithCache NewFileSystem []) no_items"
    by (rule diskitems.all_rest_empty[OF new_fs_inv disk_env_ok(5)])
  then obtain item B where r: "diskitems.rest (items_NewWithCache NewFileSystem []) ''item1'' item B" "abs_item B item = ([], [])"
    unfolding diskitems.all_rest_def by metis
  then have "item_MaxBundle item = 0"
    by (auto simp: diskitems.rest_def at_rest_def closed_def new_item_def abs_item_def split: if_splits)
  then have "findMaxBundle disk_env (items_NewWithCache NewFileSystem []) ''item1'' = 0"
    using diskitems.findMaxBundle_rest[OF r(1)] disk_id_ok[OF disk_id_demo] by simp
  then show ?thesis
    by (simp add: demo_session_def disk_id_demo item_json_rt disk_env_ok(7) split: prod.splits option.splits)
qed

theorem items_on_disk_witness:
  "\<exists>errs st. run_sessions disk_env [demo_session] (items_NewWithCache NewFileSystem []) = (errs, st) \<and> set errs \<subseteq> {None} \<and>
     fst (items_Blob disk_env st ''item1'' 1) = Inr ((''hello'', None), 5) \<and>
     fst (items_Blob disk_env st ''item1'' 2) = Inl (NoBlobError ''item1'' 2)"
proof -
  have sp: "spec_sessions demo_hashes [demo_session] no_items ''item1'' = ([Some ''hello''], [[(''a.txt'', 1)]])"
    unfolding demo_session_def by code_simp
  obtain errs st where run: "run_sessions disk_env [demo_session] (items_NewWithCache NewFileSystem []) = (errs, st)" "set errs \<subseteq> {None}"
    and b: "\<forall>i. fst (items_Blob disk_env st ''item1'' i) = spec_read ''item1'' (spec_sessions demo_hashes [demo_session] no_items ''item1'') i"
    using items_on_disk[OF star_match_ok disk_env_ok(1-5) disk_sessions_ok, unfolded disk_env_ok(6)] disk_id_demo by blast
  have "fst (items_Blob disk_env st ''item1'' 1) = Inr ((''hello'', None), 5)" "fst (items_Blob disk_env st ''item1'' 2) = Inl (NoBlobError ''item1'' 2)"
    unfolding b[rule_format] sp by (simp_all add: spec_read_def)
  with run show ?thesis by blast
qed

end
