(* ===== verification/Size_Cache.thy ===== *)
theory Size_Cache
  imports Go_Lib
begin

text \<open>
  The cache of object sizes that the remote stores share, src/store/cache.go. Times are nanoseconds. \<open>Get\<close> starts the goroutine
  \<open>age\<close>, which waits for the lock that \<open>Get\<close> holds: the cache counts the goroutines that are due, and \<open>sc_age\<close> is a step of its own.
\<close>

record head =
  hd_expire :: int
  hd_size :: int

record sizecache =
  sc_cache :: "(string, head) gomap"
  sc_sweeptime :: int
  sc_due :: nat

definition sizeDeleted :: int where
  "sizeDeleted = -1"

definition hour :: int where
  "hour = 3600 * 1000000000"

definition defaultMissTTL :: int where
  "defaultMissTTL = 3 * hour"

definition defaultHitTTL :: int where
  "defaultHitTTL = 240 * hour"

definition newSizeCache :: sizecache where
  "newSizeCache = \<lparr>sc_cache = [], sc_sweeptime = 0, sc_due = 0\<rparr>"

definition sc_set0 :: "int \<Rightarrow> string \<Rightarrow> int \<Rightarrow> sizecache \<Rightarrow> sizecache" where
  "sc_set0 now key sz c =
     (let ttl = (if sz < 0 then defaultMissTTL else if sz = 0 then 0 else defaultHitTTL) in
      c\<lparr>sc_cache := gset key \<lparr>hd_expire = now + ttl, hd_size = sz\<rparr> (sc_cache c)\<rparr>)"

definition sc_Set :: "int \<Rightarrow> string \<Rightarrow> int \<Rightarrow> sizecache \<Rightarrow> sizecache" where
  "sc_Set now key sz c = sc_set0 now key sz c"

text \<open>The function that fills the cache may change the state of the remote service; it is called between two readings of the
  clock.\<close>

definition sc_Get ::
  "int \<Rightarrow> int \<Rightarrow> ('v \<Rightarrow> string \<Rightarrow> (int \<times> error option) \<times> 'v) option \<Rightarrow> sizecache \<Rightarrow> 'v \<Rightarrow> string \<Rightarrow> (int \<times> error option) \<times> sizecache \<times> 'v" where
  "sc_Get now now2 fill c v key =
     (let c1 = (if sc_sweeptime c < now then c\<lparr>sc_due := sc_due c + 1\<rparr> else c);
          sz = (case gget (sc_cache c1) key of None \<Rightarrow> 0 | Some e \<Rightarrow> hd_size e)
      in if 0 < sz then ((sz, None), c1, v)
         else if sz < 0 then ((0, Some ErrNotExist), c1, v)
         else
           (case fill of
              None \<Rightarrow> ((0, None), c1, v)
            | Some f \<Rightarrow> (let ((n, err), v1) = f v key in ((n, err), sc_set0 now2 key n c1, v1))))"

definition sc_age :: "int \<Rightarrow> sizecache \<Rightarrow> sizecache" where
  "sc_age now c = c\<lparr>sc_sweeptime := now + hour, sc_due := sc_due c - 1, sc_cache := filter (\<lambda>(k, e). \<not> hd_expire e < now) (sc_cache c)\<rparr>"

section \<open>What the cache knows\<close>

text \<open>The size that the cache has of a key, 0 for none.\<close>

definition sc_known :: "sizecache \<Rightarrow> string \<Rightarrow> int" where
  "sc_known c k = (case gget (sc_cache c) k of None \<Rightarrow> 0 | Some e \<Rightarrow> hd_size e)"

text \<open>The cache agrees with the sizes of the objects.\<close>

definition sc_agrees :: "sizecache \<Rightarrow> (string \<Rightarrow> bytes option) \<Rightarrow> bool" where
  "sc_agrees c ob = (gmap_ok (sc_cache c) \<and> (\<forall>k. (0 < sc_known c k \<longrightarrow> (\<exists>b. ob k = Some b \<and> int (length b) = sc_known c k)) \<and>
     (sc_known c k < 0 \<longrightarrow> ob k = None)))"

lemma known_set0 [simp]: "sc_known (sc_set0 now key n c) k = (if k = key then n else sc_known c k)"
  by (simp add: sc_known_def sc_set0_def)

lemma known_new [simp]: "sc_known newSizeCache k = 0"
  by (simp add: sc_known_def newSizeCache_def)

lemma gget_filter:
  "gmap_ok m \<Longrightarrow> gget (filter (\<lambda>(k, e). P e) m) k = (case gget m k of None \<Rightarrow> None | Some e \<Rightarrow> if P e then Some e else None)"
proof (induction m)
  case (Cons x m)
  obtain k' e where x: "x = (k', e)" by fastforce
  have "k' \<notin> set (gkeys m)" using Cons.prems by (simp add: x gmap_ok_def gkeys_def)
  then have "gget m k' = None" unfolding set_gkeys by auto
  then show ?case using Cons by (auto simp: x gmap_ok_def split: option.splits)
qed simp

lemma known_age: "gmap_ok (sc_cache c) \<Longrightarrow> sc_known (sc_age now c) k = sc_known c k \<or> sc_known (sc_age now c) k = 0"
  using gget_filter[of "sc_cache c" "\<lambda>e. \<not> hd_expire e < now" k]
  by (auto simp: sc_known_def sc_age_def split: option.splits)

lemma gmap_ok_filter: "gmap_ok m \<Longrightarrow> gmap_ok (filter P m)"
  by (simp add: gmap_ok_def distinct_map_filter)

lemma agrees_new: "sc_agrees newSizeCache ob"
  by (simp add: sc_agrees_def) (simp add: newSizeCache_def)

text \<open>The sweep never makes the cache wrong.\<close>

lemma agrees_age:
  assumes "sc_agrees c ob"
  shows "sc_agrees (sc_age now c) ob"
proof -
  have ok: "gmap_ok (sc_cache c)" using assms by (simp add: sc_agrees_def)
  have "(0 < sc_known (sc_age now c) k \<longrightarrow> (\<exists>b. ob k = Some b \<and> int (length b) = sc_known (sc_age now c) k)) \<and>
      (sc_known (sc_age now c) k < 0 \<longrightarrow> ob k = None)" for k
    using known_age[OF ok, of now k] assms unfolding sc_agrees_def by (elim disjE) simp_all
  moreover have "gmap_ok (sc_cache (sc_age now c))" using ok by (simp add: sc_age_def gmap_ok_filter)
  ultimately show ?thesis unfolding sc_agrees_def by blast
qed

lemma agrees_set:
  assumes "sc_agrees c ob" and "n = 0 \<or> 0 < n \<and> (\<exists>b. ob k = Some b \<and> int (length b) = n) \<or> n < 0 \<and> ob k = None"
  shows "sc_agrees (sc_set0 now k n c) ob"
  using assms by (auto simp: sc_agrees_def) (auto simp: sc_set0_def)

lemma agrees_forget: "sc_agrees c ob \<Longrightarrow> sc_known c k = 0 \<Longrightarrow> sc_agrees c (ob(k := x))"
  by (auto simp: sc_agrees_def)

end
