(* ===== verification/S3_Store.thy ===== *)
theory S3_Store
  imports Size_Cache Store_Interface "HOL-Library.Signed_Division"
begin

text \<open>
  The store on Amazon S3, src/store/s3.go, with its reader that pages in data and its writer that uploads in parts.

  The service and its client library are an argument: a record with the calls that the code makes of them, on a state of the
  service. A call may fail at any time. The bucket is fixed; the keys that reach the service have the prefix of the store. The answer to a request for a part of an
  object is the body and the error that reading it ends with. Pages of a listing are the pages that reach the callback.
\<close>

section \<open>The service\<close>

record 'v s3_svc =
  svc_ListObjects :: "'v \<Rightarrow> string \<Rightarrow> (string list list \<times> error option) \<times> 'v"
  svc_HeadObject :: "'v \<Rightarrow> string \<Rightarrow> nat result \<times> 'v"
  svc_GetObject :: "'v \<Rightarrow> string \<Rightarrow> int \<Rightarrow> int \<Rightarrow> (bytes \<times> error option) result \<times> 'v"
  svc_PutObject :: "'v \<Rightarrow> string \<Rightarrow> bytes \<Rightarrow> error option \<times> 'v"
  svc_DeleteObject :: "'v \<Rightarrow> string \<Rightarrow> error option \<times> 'v"
  svc_CreateMultipartUpload :: "'v \<Rightarrow> string \<Rightarrow> string result \<times> 'v"
  svc_UploadPart :: "'v \<Rightarrow> string \<Rightarrow> string \<Rightarrow> nat \<Rightarrow> bytes \<Rightarrow> string option result \<times> 'v"
  svc_CompleteMultipartUpload :: "'v \<Rightarrow> string \<Rightarrow> string \<Rightarrow> (string \<times> nat) list \<Rightarrow> error option \<times> 'v"
  svc_AbortMultipartUpload :: "'v \<Rightarrow> string \<Rightarrow> string \<Rightarrow> error option \<times> 'v"

text \<open>The error with the status 416 of a request beyond the end of an object.\<close>

definition RangeNotSatisfiable :: error where
  "RangeNotSatisfiable = IOError ''416''"

section \<open>Writing\<close>

record s3WriteCloser =
  wc_key :: string
  wc_buf :: "bytes option"
  wc_isMulti :: bool
  wc_uploadID :: string
  wc_part :: nat
  wc_etags :: "string list"
  wc_abort :: bool

definition new_wc :: "string \<Rightarrow> s3WriteCloser" where
  "new_wc key = \<lparr>wc_key = key, wc_buf = None, wc_isMulti = False, wc_uploadID = [], wc_part = 0, wc_etags = [], wc_abort = False\<rparr>"

definition wcBaseSize :: nat where
  "wcBaseSize = 64 * 1024 * 1024"

definition wcMaxSize :: nat where
  "wcMaxSize = 4 * 1024 * 1024 * 1024"

definition lowerlimit :: "nat \<Rightarrow> nat" where
  "lowerlimit part = (if part < 6 then wcBaseSize * 2 ^ part else wcMaxSize)"

definition startMultipart :: "('v, 'm) s3_svc_scheme \<Rightarrow> 'v \<Rightarrow> s3WriteCloser \<Rightarrow> error option \<times> s3WriteCloser \<times> 'v" where
  "startMultipart V v wc =
     (if wc_isMulti wc then (None, wc, v)
      else
        (case svc_CreateMultipartUpload V v (wc_key wc) of
           (Inl e, v1) \<Rightarrow> (Some e, wc, v1)
         | (Inr u, v1) \<Rightarrow> (None, wc\<lparr>wc_isMulti := True, wc_uploadID := u\<rparr>, v1)))"

definition finishMultipart :: "('v, 'm) s3_svc_scheme \<Rightarrow> 'v \<Rightarrow> s3WriteCloser \<Rightarrow> error option \<times> 'v" where
  "finishMultipart V v wc =
     svc_CompleteMultipartUpload V v (wc_key wc) (wc_uploadID wc) (map (\<lambda>(i, etag). (etag, i + 1)) (enumerate 0 (wc_etags wc)))"

definition uploadpart :: "('v, 'm) s3_svc_scheme \<Rightarrow> 'v \<Rightarrow> s3WriteCloser \<Rightarrow> nat \<Rightarrow> bytes \<Rightarrow> error option \<times> s3WriteCloser \<times> 'v" where
  "uploadpart V v wc partno buf =
     (let (err0, wc1, v1) = (if wc_isMulti wc then (None, wc, v) else startMultipart V v wc) in
      case svc_UploadPart V v1 (wc_key wc1) (wc_uploadID wc1) (partno + 1) buf of
        (Inl e, v2) \<Rightarrow> (Some e, wc1, v2)
      | (Inr None, v2) \<Rightarrow> (Some ErrNoETag, wc1, v2)
      | (Inr (Some etag), v2) \<Rightarrow> (None, wc1\<lparr>wc_etags := wc_etags wc1 @ [etag]\<rparr>, v2))"

definition uploadfull :: "('v, 'm) s3_svc_scheme \<Rightarrow> 'v \<Rightarrow> s3WriteCloser \<Rightarrow> bytes option \<Rightarrow> error option \<times> 'v" where
  "uploadfull V v wc buf = svc_PutObject V v (wc_key wc) (case buf of None \<Rightarrow> [] | Some b \<Rightarrow> b)"

text \<open>\<open>Write\<close>; a write to the buffer in memory never fails.\<close>

definition wc_Write :: "('v, 'm) s3_svc_scheme \<Rightarrow> 'v \<Rightarrow> s3WriteCloser \<Rightarrow> bytes \<Rightarrow> (nat \<times> error option) \<times> s3WriteCloser \<times> 'v" where
  "wc_Write V v wc p =
     (let buf = (case wc_buf wc of None \<Rightarrow> [] | Some b \<Rightarrow> b) @ p;
          wc1 = wc\<lparr>wc_buf := Some buf\<rparr>
      in if lowerlimit (wc_part wc) < length buf then
           (let (err, wc2, v1) = uploadpart V v wc1 (wc_part wc) buf;
                wc3 = wc2\<lparr>wc_buf := Some []\<rparr>
            in case err of
                 Some e \<Rightarrow> ((0, Some e), wc3\<lparr>wc_abort := True\<rparr>, v1)
               | None \<Rightarrow> ((length p, None), wc3\<lparr>wc_part := wc_part wc + 1\<rparr>, v1))
         else ((length p, None), wc1, v))"

definition wc_abandon :: "('v, 'm) s3_svc_scheme \<Rightarrow> 'v \<Rightarrow> s3WriteCloser \<Rightarrow> error option \<Rightarrow> error option \<times> 'v" where
  "wc_abandon V v wc err =
     (let (err2, v1) = svc_AbortMultipartUpload V v (wc_key wc) (wc_uploadID wc) in (if err = None then err2 else err, v1))"

definition wc_Close :: "('v, 'm) s3_svc_scheme \<Rightarrow> 'v \<Rightarrow> s3WriteCloser \<Rightarrow> error option \<times> s3WriteCloser \<times> 'v" where
  "wc_Close V v wc =
     (let wc0 = wc\<lparr>wc_buf := None\<rparr> in
      if \<not> wc_isMulti wc then
        (if wc_abort wc then (None, wc0, v)
         else (let (err, v1) = uploadfull V v wc (wc_buf wc) in (err, wc0, v1)))
      else if wc_abort wc then (let (err, v1) = wc_abandon V v wc None in (err, wc0, v1))
      else
        (case wc_buf wc of
           None \<Rightarrow> (Some (Panic ''nil pointer dereference''), wc, v)
         | Some buf \<Rightarrow>
             if buf \<noteq> [] then
               (case uploadpart V v wc (wc_part wc) buf of
                  (Some e, wc1, v1) \<Rightarrow>
                    (let (err, v2) = wc_abandon V v1 wc1 (Some e) in (err, wc1\<lparr>wc_buf := None, wc_abort := True\<rparr>, v2))
                | (None, wc1, v1) \<Rightarrow> (let (err, v2) = finishMultipart V v1 wc1 in (err, wc1\<lparr>wc_buf := None\<rparr>, v2)))
             else (let (err, v1) = finishMultipart V v wc in (err, wc0, v1))))"

section \<open>Reading\<close>

record s3Page =
  pg_data :: bytes
  pg_offset :: int

record s3ReadAtCloser =
  rac_key :: string
  rac_pages :: "s3Page list"
  rac_size :: int

definition defaultNumPages :: nat where
  "defaultNumPages = 5"

definition defaultPageSize :: int where
  "defaultPageSize = 10 * 1024 * 1024"

definition page_has :: "int \<Rightarrow> s3Page \<Rightarrow> bool" where
  "page_has offset pg = (pg_offset pg \<le> offset \<and> offset < pg_offset pg + int (length (pg_data pg)))"

fun findpage_from :: "nat \<Rightarrow> int \<Rightarrow> s3Page list \<Rightarrow> nat option" where
  "findpage_from i offset [] = None"
| "findpage_from i offset (pg # pgs) = (if page_has offset pg then Some i else findpage_from (i + 1) offset pgs)"

definition findpage :: "s3ReadAtCloser \<Rightarrow> int \<Rightarrow> nat option" where
  "findpage rac offset = findpage_from 0 offset (rac_pages rac)"

definition loadpage :: "('v, 'm) s3_svc_scheme \<Rightarrow> 'v \<Rightarrow> s3ReadAtCloser \<Rightarrow> int \<Rightarrow> s3Page result \<times> 'v" where
  "loadpage V v rac offset =
     (let startpos = (offset sdiv defaultPageSize) * defaultPageSize;
          endpos = startpos + defaultPageSize
      in case svc_GetObject V v (rac_key rac) startpos (endpos - 1) of
           (Inl e, v1) \<Rightarrow> (Inl (if e = RangeNotSatisfiable then EOF else e), v1)
         | (Inr (body, err), v1) \<Rightarrow>
             (case (if body = [] \<and> err = None then Some EOF else err) of
                Some e \<Rightarrow> (Inl e, v1)
              | None \<Rightarrow> (Inr \<lparr>pg_data = body, pg_offset = startpos\<rparr>, v1)))"

text \<open>The page at index \<open>i\<close> moves to the front of the cache.\<close>

definition to_front :: "nat \<Rightarrow> s3Page list \<Rightarrow> s3Page list" where
  "to_front i pgs = (if 0 < i then pgs ! i # take i pgs @ drop (i + 1) pgs else pgs)"

definition getpage :: "('v, 'm) s3_svc_scheme \<Rightarrow> 'v \<Rightarrow> s3ReadAtCloser \<Rightarrow> int \<Rightarrow> s3Page result \<times> s3ReadAtCloser \<times> 'v" where
  "getpage V v rac offset =
     (case findpage rac offset of
        Some i \<Rightarrow> (Inr (rac_pages rac ! i), rac\<lparr>rac_pages := to_front i (rac_pages rac)\<rparr>, v)
      | None \<Rightarrow>
          (case loadpage V v rac offset of
             (Inl e, v1) \<Rightarrow> (Inl e, rac, v1)
           | (Inr pg, v1) \<Rightarrow>
               (let pgs = (if length (rac_pages rac) < defaultNumPages then rac_pages rac @ [pg] else rac_pages rac);
                    i = length pgs - 1
                in (Inr pg, rac\<lparr>rac_pages := to_front i (pgs[i := pg])\<rparr>, v1))))"

text \<open>The loop of \<open>ReadAt\<close>: \<open>n\<close> bytes of the buffer are left and \<open>acc\<close> was copied. A loop that goes on forever, because a page
  is shorter than the size of the object says, is \<open>None\<close>.\<close>

partial_function (option) readat_loop ::
  "('v, 'm) s3_svc_scheme \<Rightarrow> 'v \<Rightarrow> s3ReadAtCloser \<Rightarrow> int \<Rightarrow> nat \<Rightarrow> bytes \<Rightarrow> ((bytes \<times> error option) \<times> s3ReadAtCloser \<times> 'v) option" where
  "readat_loop V v rac offset n acc =
     (if n = 0 \<or> rac_size rac \<le> offset then Some ((acc, None), rac, v)
      else
        (case getpage V v rac offset of
           (Inl e, rac1, v1) \<Rightarrow> Some ((acc, Some e), rac1, v1)
         | (Inr pg, rac1, v1) \<Rightarrow>
             if offset < pg_offset pg \<or> pg_offset pg + int (length (pg_data pg)) < offset
             then Some ((acc, Some (Panic ''slice bounds out of range'')), rac1, v1)
             else
               (let d = take n (drop (nat (offset - pg_offset pg)) (pg_data pg)) in
                readat_loop V v1 rac1 (offset + int (length d)) (n - length d) (acc @ d))))"

definition rac_ReadAt ::
  "('v, 'm) s3_svc_scheme \<Rightarrow> 'v \<Rightarrow> s3ReadAtCloser \<Rightarrow> int \<Rightarrow> nat \<Rightarrow> ((bytes \<times> error option) \<times> s3ReadAtCloser \<times> 'v) option" where
  "rac_ReadAt V v rac offset n =
     (case readat_loop V v rac offset n [] of
        None \<Rightarrow> None
      | Some ((d, err), rac1, v1) \<Rightarrow>
          Some ((d, if err = Some EOF \<and> d \<noteq> [] then None else if err = None \<and> d = [] then Some EOF else err), rac1, v1))"

section \<open>The store\<close>

text \<open>The state of the store with that of the service; the readings of the clock are a sequence.\<close>

record 'v s3 =
  s3_svc :: 'v
  s3_sizes :: sizecache
  s3_clock :: "nat \<Rightarrow> int"
  s3_ticks :: nat

definition NewS3 :: "'v \<Rightarrow> (nat \<Rightarrow> int) \<Rightarrow> 'v s3" where
  "NewS3 v clock = \<lparr>s3_svc = v, s3_sizes = newSizeCache, s3_clock = clock, s3_ticks = 0\<rparr>"

definition s3_List :: "('v, 'm) s3_svc_scheme \<Rightarrow> string \<Rightarrow> 'v s3 \<Rightarrow> string list \<times> 'v s3" where
  "s3_List V prefix s =
     (let ((pages, err), v1) = svc_ListObjects V (s3_svc s) prefix in
      (map (\<lambda>k. trim_prefix k prefix) (concat pages), s\<lparr>s3_svc := v1\<rparr>))"

definition s3_ListPrefix :: "('v, 'm) s3_svc_scheme \<Rightarrow> string \<Rightarrow> 'v s3 \<Rightarrow> string \<Rightarrow> (string list \<times> error option) \<times> 'v s3" where
  "s3_ListPrefix V prefix s p =
     (let ((pages, err), v1) = svc_ListObjects V (s3_svc s) (prefix @ p) in
      ((map (\<lambda>k. trim_prefix k prefix) (concat pages), err), s\<lparr>s3_svc := v1\<rparr>))"

definition s3_stat0 :: "('v, 'm) s3_svc_scheme \<Rightarrow> string \<Rightarrow> 'v \<Rightarrow> string \<Rightarrow> (int \<times> error option) \<times> 'v" where
  "s3_stat0 V prefix v key =
     (case svc_HeadObject V v (prefix @ key) of (Inl e, v1) \<Rightarrow> ((0, Some e), v1) | (Inr n, v1) \<Rightarrow> ((int n, None), v1))"

definition s3_stat :: "('v, 'm) s3_svc_scheme \<Rightarrow> string \<Rightarrow> 'v s3 \<Rightarrow> string \<Rightarrow> (int \<times> error option) \<times> 'v s3" where
  "s3_stat V prefix s key =
     (let (r, c1, v1) = sc_Get (s3_clock s (s3_ticks s)) (s3_clock s (s3_ticks s + 1)) (Some (s3_stat0 V prefix)) (s3_sizes s) (s3_svc s) key
      in (r, s\<lparr>s3_svc := v1, s3_sizes := c1, s3_ticks := s3_ticks s + 2\<rparr>))"

definition s3_remember :: "'v s3 \<Rightarrow> string \<Rightarrow> int \<Rightarrow> 'v s3" where
  "s3_remember s key n = s\<lparr>s3_sizes := sc_Set (s3_clock s (s3_ticks s)) key n (s3_sizes s), s3_ticks := s3_ticks s + 1\<rparr>"

definition s3_Open :: "('v, 'm) s3_svc_scheme \<Rightarrow> string \<Rightarrow> 'v s3 \<Rightarrow> string \<Rightarrow> s3ReadAtCloser result \<times> 'v s3" where
  "s3_Open V prefix s key =
     (case s3_stat V prefix s key of
        ((n, Some e), s1) \<Rightarrow> (Inl e, s1)
      | ((n, None), s1) \<Rightarrow> (Inr \<lparr>rac_key = prefix @ key, rac_pages = [], rac_size = n\<rparr>, s1))"

definition s3_Create :: "('v, 'm) s3_svc_scheme \<Rightarrow> string \<Rightarrow> 'v s3 \<Rightarrow> string \<Rightarrow> s3WriteCloser result \<times> 'v s3" where
  "s3_Create V prefix s key =
     (case s3_stat V prefix s key of
        ((n, None), s1) \<Rightarrow> (Inl ErrKeyExists, s1)
      | ((n, Some e), s1) \<Rightarrow> (Inr (new_wc (prefix @ key)), s3_remember s1 key 0))"

definition s3_Delete :: "('v, 'm) s3_svc_scheme \<Rightarrow> string \<Rightarrow> 'v s3 \<Rightarrow> string \<Rightarrow> error option \<times> 'v s3" where
  "s3_Delete V prefix s key =
     (case svc_DeleteObject V (s3_svc s) (prefix @ key) of
        (Some e, v1) \<Rightarrow> (Some e, s\<lparr>s3_svc := v1\<rparr>)
      | (None, v1) \<Rightarrow> (None, s3_remember (s\<lparr>s3_svc := v1\<rparr>) key sizeDeleted))"

end
