(* ===== verification/S3_Correct.thy ===== *)
theory S3_Correct
  imports S3_Store
begin

text \<open>
  Uploads to S3 are atomic and reads through the cache of pages give the content of the object. The contract of the service is a
  locale: every call may fail, and a call that fails may have had its effect. It fixes what the documentation of S3 says of a call that succeeds.
\<close>

section \<open>The contract of the service\<close>

type_synonym upload_parts = "nat \<Rightarrow> (bytes \<times> string) option"

text \<open>The object that a list of etags and part numbers makes of an upload.\<close>

definition part_data :: "upload_parts \<Rightarrow> nat \<Rightarrow> bytes" where
  "part_data ps n = (case ps n of None \<Rightarrow> [] | Some (b, e) \<Rightarrow> b)"

definition assembled :: "upload_parts \<Rightarrow> (string \<times> nat) list \<Rightarrow> bytes" where
  "assembled ps l = concat (map (\<lambda>(e, n). part_data ps n) l)"

locale s3_service =
  fixes V :: "'v s3_svc"
    and objs :: "'v \<Rightarrow> string \<Rightarrow> bytes option"
    and ups :: "'v \<Rightarrow> string \<Rightarrow> (string \<times> upload_parts) option"
  assumes list_law: "svc_ListObjects V v p = ((pages, err), v1) \<Longrightarrow> objs v1 = objs v \<and> ups v1 = ups v \<and>
      (err = None \<longrightarrow> set (concat pages) = {k \<in> dom (objs v). has_prefix k p})"
    and head_law: "svc_HeadObject V v k = (hr, v1) \<Longrightarrow> objs v1 = objs v \<and> ups v1 = ups v \<and>
      (\<forall>n. hr = Inr n \<longrightarrow> (\<exists>b. objs v k = Some b \<and> n = length b))"
    and get_law: "svc_GetObject V v k start stop = (gr, v1) \<Longrightarrow> objs v k = Some b \<Longrightarrow> 0 \<le> start \<Longrightarrow> start \<le> stop \<Longrightarrow>
      objs v1 = objs v \<and> ups v1 = ups v \<and>
      (\<forall>d. gr = Inr (d, None) \<longrightarrow> d = take (nat (stop - start + 1)) (drop (nat start) b)) \<and>
      (gr = Inl RangeNotSatisfiable \<longrightarrow> length b \<le> nat start) \<and> gr \<noteq> Inl EOF \<and> (\<forall>d. gr \<noteq> Inr (d, Some EOF))"
    and put_law: "svc_PutObject V v k b = (err, v1) \<Longrightarrow> (err = None \<longrightarrow> objs v1 = (objs v)(k \<mapsto> b)) \<and>
      (objs v1 = objs v \<or> objs v1 = (objs v)(k \<mapsto> b))"
    and delete_law: "svc_DeleteObject V v k = (err, v1) \<Longrightarrow> (err = None \<longrightarrow> objs v1 = (objs v)(k := None)) \<and>
      (objs v1 = objs v \<or> objs v1 = (objs v)(k := None))"
    and start_law: "svc_CreateMultipartUpload V v k = (sr, v1) \<Longrightarrow> objs v1 = objs v \<and>
      (\<forall>u. sr = Inr u \<longrightarrow> ups v1 u = Some (k, \<lambda>n. None))"
    and part_law: "svc_UploadPart V v k u n b = (pr, v1) \<Longrightarrow> objs v1 = objs v \<and>
      (\<forall>e. pr = Inr (Some e) \<longrightarrow> (\<exists>ps. ups v u = Some (k, ps) \<and> ups v1 u = Some (k, ps(n \<mapsto> (b, e)))))"
    and complete_law: "svc_CompleteMultipartUpload V v k u l = (err, v1) \<Longrightarrow>
      (err = None \<longrightarrow> (\<exists>ps. ups v u = Some (k, ps) \<and> objs v1 = (objs v)(k \<mapsto> assembled ps l))) \<and>
      (objs v1 = objs v \<or> (\<exists>ps. ups v u = Some (k, ps) \<and> objs v1 = (objs v)(k \<mapsto> assembled ps l)))"
    and no_empty_id: "ups v [] = None"
    and abort_law: "svc_AbortMultipartUpload V v k u = (err, v1) \<Longrightarrow> objs v1 = objs v"

section \<open>Uploads\<close>

fun wc_writes :: "('v, 'm) s3_svc_scheme \<Rightarrow> 'v \<Rightarrow> s3WriteCloser \<Rightarrow> bytes list \<Rightarrow> error option list \<times> s3WriteCloser \<times> 'v" where
  "wc_writes V v wc [] = ([], wc, v)"
| "wc_writes V v wc (p # ps) =
     (let ((n, err), wc1, v1) = wc_Write V v wc p; (errs, wc2, v2) = wc_writes V v1 wc1 ps in (err # errs, wc2, v2))"

definition buffered :: "s3WriteCloser \<Rightarrow> bytes" where
  "buffered wc = (case wc_buf wc of None \<Rightarrow> [] | Some b \<Rightarrow> b)"

text \<open>The bytes \<open>d\<close> were written: they are in the parts that were uploaded and in the buffer.\<close>

definition sent :: "(string \<times> upload_parts) option \<Rightarrow> s3WriteCloser \<Rightarrow> bytes list \<Rightarrow> bool" where
  "sent up wc parts \<longleftrightarrow> length parts = wc_part wc \<and> length (wc_etags wc) = wc_part wc \<and>
     (if wc_isMulti wc then wc_buf wc \<noteq> None \<and>
        (\<exists>ps. up = Some (wc_key wc, ps) \<and> (\<forall>i < wc_part wc. ps (i + 1) = Some (parts ! i, wc_etags wc ! i)))
      else wc_part wc = 0 \<and> wc_uploadID wc = [])"

text \<open>Every part is larger than its limit, by at most one write of \<open>B\<close> bytes.\<close>

definition part_sizes :: "nat \<Rightarrow> bytes list \<Rightarrow> bool" where
  "part_sizes B parts = (\<forall>i < length parts. lowerlimit i < length (parts ! i) \<and> length (parts ! i) \<le> lowerlimit i + B)"

definition wrote :: "nat \<Rightarrow> (string \<times> upload_parts) option \<Rightarrow> s3WriteCloser \<Rightarrow> bytes list \<Rightarrow> bytes \<Rightarrow> bool" where
  "wrote B up wc parts d \<longleftrightarrow> \<not> wc_abort wc \<and> sent up wc parts \<and> d = concat parts @ buffered wc \<and>
     part_sizes B parts \<and> length (buffered wc) \<le> lowerlimit (wc_part wc)"

text \<open>The part numbers and etags of \<open>finishMultipart\<close> make the parts in their order.\<close>

lemma assembled_parts:
  assumes "length etags = length parts" and "\<And>i. i < length parts \<Longrightarrow> ps (i + 1) = Some (parts ! i, etags ! i)"
  shows "assembled ps (map (\<lambda>(i, etag). (etag, i + 1)) (enumerate 0 etags)) = concat parts"
proof -
  have "map (\<lambda>(e, n). part_data ps n) (map (\<lambda>(i, etag). (etag, i + 1)) (enumerate 0 etags)) = parts"
    using assms by (intro nth_equalityI) (auto simp: nth_enumerate_eq part_data_def)
  then show ?thesis by (simp add: assembled_def)
qed

context s3_service
begin

lemma uploadpart_ok:
  assumes up: "uploadpart V v wc (wc_part wc) buf = (err, wc1, v1)"
  shows "objs v1 = objs v" "wc_key wc1 = wc_key wc" "wc_buf wc1 = wc_buf wc" "wc_part wc1 = wc_part wc" "wc_abort wc1 = wc_abort wc"
    and "err = None \<Longrightarrow> sent (ups v (wc_uploadID wc)) wc parts \<Longrightarrow> wc_buf wc \<noteq> None \<Longrightarrow>
      sent (ups v1 (wc_uploadID wc1)) (wc1\<lparr>wc_part := wc_part wc + 1\<rparr>) (parts @ [buf]) \<and> wc_isMulti wc1"
proof -
  obtain e0 wc0 v0 where m: "(if wc_isMulti wc then (None, wc, v) else startMultipart V v wc) = (e0, wc0, v0)"
    by (cases "if wc_isMulti wc then (None, wc, v) else startMultipart V v wc") auto
  have m1: "objs v0 = objs v \<and> wc_key wc0 = wc_key wc \<and> wc_buf wc0 = wc_buf wc \<and> wc_part wc0 = wc_part wc \<and> wc_abort wc0 = wc_abort wc \<and>
      wc_etags wc0 = wc_etags wc"
    using m start_law[of v "wc_key wc"] by (auto simp: startMultipart_def split: if_splits prod.splits sum.splits)
  obtain pr v2 where p: "svc_UploadPart V v0 (wc_key wc0) (wc_uploadID wc0) (wc_part wc + 1) buf = (pr, v2)" by fastforce
  note pl = part_law[OF p]
  have res: "v1 = v2" "(\<exists>e. err = Some e \<and> wc1 = wc0) \<or> (\<exists>et. pr = Inr (Some et) \<and> err = None \<and> wc1 = wc0\<lparr>wc_etags := wc_etags wc @ [et]\<rparr>)"
    using up m1 unfolding uploadpart_def m Let_def prod.case p by (auto split: sum.splits option.splits)
  show "objs v1 = objs v" using m1 pl res(1) by simp
  show "wc_key wc1 = wc_key wc" "wc_buf wc1 = wc_buf wc" "wc_part wc1 = wc_part wc" "wc_abort wc1 = wc_abort wc"
    using m1 res(2) by auto
  show "sent (ups v1 (wc_uploadID wc1)) (wc1\<lparr>wc_part := wc_part wc + 1\<rparr>) (parts @ [buf]) \<and> wc_isMulti wc1"
    if ok: "err = None" "sent (ups v (wc_uploadID wc)) wc parts" "wc_buf wc \<noteq> None"
  proof -
    from res(2) ok(1) obtain et where et: "pr = Inr (Some et)" "wc1 = wc0\<lparr>wc_etags := wc_etags wc @ [et]\<rparr>" by auto
    from pl et(1) obtain ps where ps: "ups v0 (wc_uploadID wc0) = Some (wc_key wc0, ps)"
        "ups v2 (wc_uploadID wc0) = Some (wc_key wc0, ps(wc_part wc + 1 \<mapsto> (buf, et)))" by blast
    have old: "wc_isMulti wc0 \<and> (\<forall>i < wc_part wc. ps (i + 1) = Some (parts ! i, wc_etags wc ! i))"
    proof (cases "wc_isMulti wc")
      case True
      then show ?thesis using m ok(2) ps(1) by (auto simp: sent_def)
    next
      case False
      have "wc_isMulti wc0"
      proof (rule ccontr)
        assume n: "\<not> wc_isMulti wc0"
        then have "wc0 = wc" using m False by (auto simp: startMultipart_def split: prod.splits sum.splits)
        moreover have "wc_uploadID wc = []" using ok(2) False by (simp add: sent_def)
        ultimately show False using ps(1) no_empty_id[of v0] by simp
      qed
      then show ?thesis using ok(2) False by (simp add: sent_def)
    qed
    have "length parts = wc_part wc" "length (wc_etags wc) = wc_part wc" using ok(2) by (simp_all add: sent_def)
    then show ?thesis using old ps(2) et res(1) m1 ok(3) by (auto simp: sent_def nth_append less_Suc_eq)
  qed
qed

text \<open>One \<open>Write\<close>: the objects stay; unless it fails, the bytes are in the parts and in the buffer.\<close>

lemma write_step:
  assumes w: "wc_Write V v wc p = ((n, err), wc1, v1)"
  shows "objs v1 = objs v" and "wc_key wc1 = wc_key wc" and "wc_abort wc1 \<longleftrightarrow> wc_abort wc \<or> err \<noteq> None"
    and "wrote B (ups v (wc_uploadID wc)) wc parts d \<Longrightarrow> err = None \<Longrightarrow> length p \<le> B \<Longrightarrow>
      \<exists>parts1. wrote B (ups v1 (wc_uploadID wc1)) wc1 parts1 (d @ p)"
proof -
  define buf where "buf = buffered wc @ p"
  define wc0 where "wc0 = wc\<lparr>wc_buf := Some buf\<rparr>"
  have w0: "wc_part wc0 = wc_part wc" "wc_uploadID wc0 = wc_uploadID wc" "wc_key wc0 = wc_key wc" "wc_abort wc0 = wc_abort wc" "wc_buf wc0 = Some buf"
    by (simp_all add: wc0_def)
  have sent0: "sent up wc0 parts" if "sent up wc parts" for up parts using that by (auto simp: sent_def wc0_def)
  have eq: "wc_Write V v wc p = (if lowerlimit (wc_part wc) < length buf then
      (let (err, wc2, v1) = uploadpart V v wc0 (wc_part wc0) buf; wc3 = wc2\<lparr>wc_buf := Some []\<rparr>
       in case err of Some e \<Rightarrow> ((0, Some e), wc3\<lparr>wc_abort := True\<rparr>, v1)
          | None \<Rightarrow> ((length p, None), wc3\<lparr>wc_part := wc_part wc + 1\<rparr>, v1))
      else ((length p, None), wc0, v))"
    unfolding wc_Write_def Let_def buf_def wc0_def buffered_def by simp
  have "objs v1 = objs v \<and> wc_key wc1 = wc_key wc \<and> (wc_abort wc1 \<longleftrightarrow> wc_abort wc \<or> err \<noteq> None) \<and>
     (wrote B (ups v (wc_uploadID wc)) wc parts d \<longrightarrow> err = None \<longrightarrow> length p \<le> B \<longrightarrow>
      (\<exists>parts1. wrote B (ups v1 (wc_uploadID wc1)) wc1 parts1 (d @ p)))"
  proof (cases "lowerlimit (wc_part wc) < length buf")
    case False
    then have r: "wc1 = wc0" "v1 = v" "err = None" using w eq by auto
    moreover have "wrote B (ups v (wc_uploadID wc)) wc0 parts (d @ p)" if "wrote B (ups v (wc_uploadID wc)) wc parts d"
      using that False sent0 unfolding wrote_def buffered_def w0 by (simp add: buf_def buffered_def)
    ultimately show ?thesis using w0 by auto
  next
    case True
    obtain e wc2 v2 where u: "uploadpart V v wc0 (wc_part wc0) buf = (e, wc2, v2)" by (metis prod_cases3)
    note U = uploadpart_ok[OF u]
    have r: "v1 = v2" "err = e" "wc1 = (if e = None then wc2\<lparr>wc_buf := Some [], wc_part := wc_part wc + 1\<rparr> else wc2\<lparr>wc_buf := Some [], wc_abort := True\<rparr>)"
      using w True unfolding eq u by (auto simp: Let_def split: option.splits)
    have "wrote B (ups v1 (wc_uploadID wc1)) wc1 (parts @ [buf]) (d @ p)"
      if wr: "wrote B (ups v (wc_uploadID wc)) wc parts d" and ok: "err = None" "length p \<le> B"
    proof -
      have s: "sent (ups v (wc_uploadID wc)) wc parts" and d: "d = concat parts @ buffered wc" and ps: "part_sizes B parts"
        and lb: "length (buffered wc) \<le> lowerlimit (wc_part wc)" and na: "\<not> wc_abort wc" using wr by (auto simp: wrote_def)
      have len: "length parts = wc_part wc" using s by (simp add: sent_def)
      have e: "e = None" using r(2) ok(1) by simp
      have "sent (ups v2 (wc_uploadID wc2)) (wc2\<lparr>wc_part := wc_part wc + 1\<rparr>) (parts @ [buf])" "wc_isMulti wc2"
        using U(6)[OF e] sent0[OF s] w0 by simp_all
      then have "sent (ups v1 (wc_uploadID wc1)) wc1 (parts @ [buf])"
        unfolding r(1,3) using e by (simp add: sent_def)
      moreover have "part_sizes B (parts @ [buf])"
        using ps len True lb ok(2) by (auto simp: part_sizes_def nth_append less_Suc_eq buf_def)
      moreover have "buffered wc1 = []" "\<not> wc_abort wc1" using r(3) e U(5) w0 na by (simp_all add: buffered_def)
      ultimately show ?thesis unfolding wrote_def using d by (simp add: buf_def)
    qed
    then show ?thesis using U(1,2,5) r w0 by auto
  qed
  then show "objs v1 = objs v" "wc_key wc1 = wc_key wc" "wc_abort wc1 \<longleftrightarrow> wc_abort wc \<or> err \<noteq> None"
    "wrote B (ups v (wc_uploadID wc)) wc parts d \<Longrightarrow> err = None \<Longrightarrow> length p \<le> B \<Longrightarrow>
      \<exists>parts1. wrote B (ups v1 (wc_uploadID wc1)) wc1 parts1 (d @ p)" by blast+
qed

lemma writes_ok:
  assumes "wc_writes V v wc ps = (errs, wc1, v1)"
  shows "objs v1 = objs v \<and> wc_key wc1 = wc_key wc \<and> (wc_abort wc1 \<longleftrightarrow> wc_abort wc \<or> (\<exists>e \<in> set errs. e \<noteq> None)) \<and>
    (wrote B (ups v (wc_uploadID wc)) wc parts d \<longrightarrow> (\<forall>e \<in> set errs. e = None) \<longrightarrow> (\<forall>p \<in> set ps. length p \<le> B) \<longrightarrow>
      (\<exists>parts1. wrote B (ups v1 (wc_uploadID wc1)) wc1 parts1 (d @ concat ps)))"
  using assms
proof (induction ps arbitrary: v wc errs parts d)
  case (Cons p ps)
  obtain n e wc2 v2 where w: "wc_Write V v wc p = ((n, e), wc2, v2)" by (metis surj_pair)
  obtain es where ws: "wc_writes V v2 wc2 ps = (es, wc1, v1)" and r: "errs = e # es"
    using Cons.prems by (auto simp: w split: prod.splits)
  note W = write_step[OF w] and IH = Cons.IH[OF ws]
  have "\<exists>parts1. wrote B (ups v1 (wc_uploadID wc1)) wc1 parts1 (d @ concat (p # ps))"
    if h: "wrote B (ups v (wc_uploadID wc)) wc parts d" "\<forall>e \<in> set errs. e = None" "\<forall>q \<in> set (p # ps). length q \<le> B"
  proof -
    obtain parts2 where "wrote B (ups v2 (wc_uploadID wc2)) wc2 parts2 (d @ p)" using W(4)[OF h(1)] h(2,3) r by auto
    with IH[of parts2 "d @ p"] h(2,3) r show ?thesis by simp
  qed
  then show ?case using IH W(1-3) r by (auto simp del: concat.simps)
qed auto

lemma finish_ok:
  assumes f: "finishMultipart V v wc = (err, v1)" and s: "sent (ups v (wc_uploadID wc)) wc parts" and m: "wc_isMulti wc"
  shows "err = None \<Longrightarrow> objs v1 = (objs v)(wc_key wc \<mapsto> concat parts)"
    and "objs v1 = objs v \<or> objs v1 = (objs v)(wc_key wc \<mapsto> concat parts)"
proof -
  obtain ps where ps: "ups v (wc_uploadID wc) = Some (wc_key wc, ps)" "\<forall>i < wc_part wc. ps (i + 1) = Some (parts ! i, wc_etags wc ! i)"
    using s m by (auto simp: sent_def)
  have "assembled ps (map (\<lambda>(i, etag). (etag, i + 1)) (enumerate 0 (wc_etags wc))) = concat parts"
    using s ps(2) by (intro assembled_parts) (simp_all add: sent_def)
  with complete_law[OF f[unfolded finishMultipart_def]] ps(1)
  show "err = None \<Longrightarrow> objs v1 = (objs v)(wc_key wc \<mapsto> concat parts)"
    "objs v1 = objs v \<or> objs v1 = (objs v)(wc_key wc \<mapsto> concat parts)" by auto
qed

lemma abandon_ok: "wc_abandon V v wc e = (err, v1) \<Longrightarrow> objs v1 = objs v \<and> (e \<noteq> None \<longrightarrow> err = e)"
  using abort_law[of v "wc_key wc" "wc_uploadID wc"] by (auto simp: wc_abandon_def split: prod.splits)

lemma close_given_up:
  assumes "wc_Close V v wc = (err, wc1, v1)" and "wc_abort wc"
  shows "objs v1 = objs v"
  using assms abandon_ok[of v wc None] by (auto simp: wc_Close_def Let_def split: if_splits prod.splits)

lemma close_single:
  assumes c: "wc_Close V v wc = (err, wc1, v1)" and w: "wrote B (ups v (wc_uploadID wc)) wc parts d" and m: "\<not> wc_isMulti wc"
  shows "(err = None \<longrightarrow> objs v1 = (objs v)(wc_key wc \<mapsto> d)) \<and> (objs v1 = objs v \<or> objs v1 = (objs v)(wc_key wc \<mapsto> d))"
proof -
  have "parts = []" "d = buffered wc" using w m by (auto simp: wrote_def sent_def)
  moreover have "svc_PutObject V v (wc_key wc) (buffered wc) = (err, v1)"
    using c m w by (auto simp: wc_Close_def wrote_def uploadfull_def buffered_def split: prod.splits)
  ultimately show ?thesis using put_law by blast
qed

lemma close_multi:
  assumes c: "wc_Close V v wc = (err, wc1, v1)" and w: "wrote B (ups v (wc_uploadID wc)) wc parts d" and m: "wc_isMulti wc"
  shows "(err = None \<longrightarrow> objs v1 = (objs v)(wc_key wc \<mapsto> d)) \<and> (objs v1 = objs v \<or> objs v1 = (objs v)(wc_key wc \<mapsto> d))"
proof -
  have na: "\<not> wc_abort wc" and s: "sent (ups v (wc_uploadID wc)) wc parts" and d: "d = concat parts @ buffered wc"
    using w by (auto simp: wrote_def)
  obtain buf where buf: "wc_buf wc = Some buf" using s m by (auto simp: sent_def)
  show ?thesis
  proof (cases "buf = []")
    case True
    then have "finishMultipart V v wc = (err, v1)" using c m na buf by (auto simp: wc_Close_def split: prod.splits)
    from finish_ok[OF this s m] show ?thesis using d True buf by (simp add: buffered_def)
  next
    case False
    obtain e wc2 v2 where u: "uploadpart V v wc (wc_part wc) buf = (e, wc2, v2)" by (metis prod_cases3)
    note U = uploadpart_ok[OF u]
    show ?thesis
    proof (cases e)
      case (Some x)
      obtain err2 v3 where a: "wc_abandon V v2 wc2 (Some x) = (err2, v3)" by fastforce
      then have "err = err2" "v1 = v3" using c m na buf False u Some by (auto simp: wc_Close_def)
      then show ?thesis using abandon_ok[OF a] U(1) by simp
    next
      case None
      obtain err2 v3 where f: "finishMultipart V v2 wc2 = (err2, v3)" by fastforce
      then have r: "err = err2" "v1 = v3" using c m na buf False u None by (auto simp: wc_Close_def)
      let ?wc = "wc2\<lparr>wc_part := wc_part wc + 1\<rparr>"
      have f': "finishMultipart V v2 ?wc = (err2, v3)" using f by (simp add: finishMultipart_def)
      have s': "sent (ups v2 (wc_uploadID ?wc)) ?wc (parts @ [buf])" "wc_isMulti ?wc" using U(6)[OF None s] buf by simp_all
      from finish_ok[OF f' s'] show ?thesis using U(1,2) r d buf by (simp add: buffered_def)
    qed
  qed
qed

lemma upload:
  assumes ws: "wc_writes V v (new_wc k) ws = (errs, wc, v1)" and c: "wc_Close V v1 wc = (err, wc2, v2)"
  shows "objs v1 = objs v"
    and "\<exists>e \<in> set errs. e \<noteq> None \<Longrightarrow> objs v2 = objs v"
    and "objs v2 = objs v \<or> objs v2 = (objs v)(k \<mapsto> concat ws)"
    and "\<forall>e \<in> set errs. e = None \<Longrightarrow> err = None \<Longrightarrow> objs v2 = (objs v)(k \<mapsto> concat ws)"
proof -
  define B where "B = length (concat ws)"
  have B: "\<forall>p \<in> set ws. length p \<le> B"
    using member_le_sum_list[of _ "map length ws"] by (auto simp: B_def length_concat)
  have w0: "wrote B (ups v (wc_uploadID (new_wc k))) (new_wc k) [] []"
    by (simp add: wrote_def sent_def new_wc_def buffered_def part_sizes_def)
  note W = writes_ok[OF ws, of B "[]" "[]"]
  have key: "wc_key wc = k" using W by (simp add: new_wc_def)
  show o1: "objs v1 = objs v" using W by blast
  have ab: "wc_abort wc \<longleftrightarrow> (\<exists>e \<in> set errs. e \<noteq> None)" using W by (simp add: new_wc_def)
  show fail: "objs v2 = objs v" if "\<exists>e \<in> set errs. e \<noteq> None"
    using close_given_up[OF c] ab that o1 by simp
  have good: "(err = None \<longrightarrow> objs v2 = (objs v)(k \<mapsto> concat ws)) \<and> (objs v2 = objs v \<or> objs v2 = (objs v)(k \<mapsto> concat ws))"
    if ok: "\<forall>e \<in> set errs. e = None"
  proof -
    obtain parts where "wrote B (ups v1 (wc_uploadID wc)) wc parts (concat ws)" using W w0 ok B by auto
    then show ?thesis using close_single[OF c] close_multi[OF c] key o1 by (cases "wc_isMulti wc") auto
  qed
  show "objs v2 = objs v \<or> objs v2 = (objs v)(k \<mapsto> concat ws)" using fail good by blast
  show "objs v2 = (objs v)(k \<mapsto> concat ws)" if "\<forall>e \<in> set errs. e = None" "err = None" using good that by blast
qed

end


section \<open>The sizes of the parts\<close>

lemma parts_total:
  assumes "part_sizes B parts"
  shows "(length parts - 6) * wcMaxSize \<le> length (concat parts)"
proof -
  have "wcMaxSize \<le> length p" if "p \<in> set (drop 6 parts)" for p
  proof -
    from that obtain j where j: "j < length parts - 6" "p = parts ! (6 + j)" by (auto simp: in_set_conv_nth)
    then show ?thesis using assms unfolding part_sizes_def lowerlimit_def by (auto dest!: spec[of _ "6 + j"])
  qed
  then have "wcMaxSize * length (drop 6 parts) \<le> sum_list (map length (drop 6 parts))"
    using sum_list_mono[of "drop 6 parts" "\<lambda>p. wcMaxSize" length] by (simp add: sum_list_triv mult.commute)
  also have "\<dots> \<le> sum_list (map length parts)"
    using sum_list_append[of "map length (take 6 parts)" "map length (drop 6 parts)"]
    by (metis append_take_drop_id le_add2 map_append)
  finally show ?thesis by (simp add: length_concat mult.commute)
qed

lemma lowerlimit_bounds: "wcBaseSize \<le> lowerlimit i \<and> lowerlimit i \<le> wcMaxSize"
proof (cases "i < 6")
  case True
  then have "i \<le> 5" by simp
  then have "(2::nat) ^ i \<le> 2 ^ 5" by (rule power_increasing) simp
  then show ?thesis using True by (simp add: lowerlimit_def wcBaseSize_def wcMaxSize_def)
next
  case False
  then show ?thesis by (simp add: lowerlimit_def wcBaseSize_def wcMaxSize_def)
qed

section \<open>Reading\<close>

definition page_good :: "bytes \<Rightarrow> s3Page \<Rightarrow> bool" where
  "page_good b pg = (0 \<le> pg_offset pg \<and> pg_data pg = take (length (pg_data pg)) (drop (nat (pg_offset pg)) b))"

definition rac_inv :: "bytes \<Rightarrow> s3ReadAtCloser \<Rightarrow> bool" where
  "rac_inv b rac = (rac_size rac = int (length b) \<and> length (rac_pages rac) \<le> defaultNumPages \<and> (\<forall>pg \<in> set (rac_pages rac). page_good b pg))"

lemma to_front_ok: "i < length pgs \<Longrightarrow> set (to_front i pgs) = set pgs \<and> length (to_front i pgs) = length pgs"
proof -
  assume i: "i < length pgs"
  then have "set pgs = set (take i pgs @ pgs ! i # drop (i + 1) pgs)" using id_take_nth_drop[OF i] by simp
  with i show ?thesis by (auto simp: to_front_def)
qed

lemma findpage_from_Some: "findpage_from i off pgs = Some j \<Longrightarrow> i \<le> j \<and> j < i + length pgs \<and> page_has off (pgs ! (j - i))"
proof (induction i off pgs rule: findpage_from.induct)
  case (2 i off pg pgs)
  then show ?case by (auto simp: nth_Cons' split: if_splits)
qed simp

text \<open>The page that holds an offset within the object.\<close>

lemma loaded_page:
  assumes "0 \<le> off" "off < int (length b)" and st: "st = (off sdiv defaultPageSize) * defaultPageSize"
    and pg: "pg = \<lparr>pg_data = take (nat (st + defaultPageSize - 1 - st + 1)) (drop (nat st) b), pg_offset = st\<rparr>"
  shows "0 \<le> st" "st \<le> st + defaultPageSize - 1" "nat st < length b" "page_good b pg" "page_has off pg" "pg_data pg \<noteq> []"
proof -
  have P: "0 < defaultPageSize" by (simp add: defaultPageSize_def)
  have "off sdiv defaultPageSize = off div defaultPageSize" using assms(1) P by (cases "off = 0") (simp_all add: signed_divide_int_def)
  then have e: "st = off - off mod defaultPageSize" by (simp add: st minus_mod_eq_div_mult)
  have m: "0 \<le> off mod defaultPageSize" "off mod defaultPageSize < defaultPageSize" using P by simp_all
  show s0: "0 \<le> st" unfolding e using assms(1) P by (simp add: zmod_le_nonneg_dividend)
  show "st \<le> st + defaultPageSize - 1" using P by simp
  show lt: "nat st < length b" using assms m s0 e by linarith
  have "take m xs = take (length (take m xs)) xs" for m and xs :: bytes by (simp add: min_def)
  then show "page_good b pg" using s0 by (simp add: page_good_def pg del: length_take)
  have len: "length (pg_data pg) = min (nat defaultPageSize) (length b - nat st)" by (simp add: pg min.commute)
  show "page_has off pg" unfolding page_has_def len using assms(2) m e s0 lt by (simp add: pg min_def)
  show "pg_data pg \<noteq> []" using len lt P by (metis diff_is_0_eq length_0_conv less_numeral_extra(3) linorder_not_le min_def nat_0_iff order.strict_implies_not_eq)
qed

lemma page_slice:
  assumes "page_good b pg" "page_has off pg" and d: "d = take n (drop (nat (off - pg_offset pg)) (pg_data pg))" and n: "0 < n"
  shows "d = take (length d) (drop (nat off) b) \<and> d \<noteq> [] \<and> length d \<le> n"
proof -
  define k where "k = nat (off - pg_offset pg)"
  have off: "0 \<le> pg_offset pg" "pg_offset pg \<le> off" "off < pg_offset pg + int (length (pg_data pg))"
    using assms(1,2) by (simp_all add: page_good_def page_has_def)
  have k: "nat off = k + nat (pg_offset pg)" "k < length (pg_data pg)" using off by (auto simp: k_def)
  have "pg_data pg = take (length (pg_data pg)) (drop (nat (pg_offset pg)) b)" using assms(1) by (simp add: page_good_def)
  then have "drop k (pg_data pg) = take (length (pg_data pg) - k) (drop (nat off) b)" using k(1) by (metis drop_drop drop_take)
  then have "d = take (min n (length (pg_data pg) - k)) (drop (nat off) b)" by (simp add: d k_def)
  moreover have "d \<noteq> []" "length d \<le> n" using k n by (simp_all add: d k_def[symmetric])
  ultimately show ?thesis by (metis append_eq_conv_conj append_take_drop_id)
qed

lemma take_split: "d = take (length d) xs \<Longrightarrow> length d \<le> n \<Longrightarrow> take n xs = d @ take (n - length d) (drop (length d) xs)"
  by (metis le_add_diff_inverse take_add)

context s3_service
begin

lemma loadpage_ok:
  assumes l: "loadpage V v rac off = (r, v1)" and b: "objs v (rac_key rac) = Some b" and off: "0 \<le> off" "off < int (length b)"
  shows "objs v1 = objs v" "\<And>pg. r = Inr pg \<Longrightarrow> page_good b pg \<and> page_has off pg" "r \<noteq> Inl EOF"
proof -
  define st where "st = (off sdiv defaultPageSize) * defaultPageSize"
  note L = loaded_page[OF off st_def refl]
  obtain gr v2 where g: "svc_GetObject V v (rac_key rac) st (st + defaultPageSize - 1) = (gr, v2)" by fastforce
  note G = get_law[OF g b L(1,2)]
  have rng: "gr \<noteq> Inl RangeNotSatisfiable" using G L(3) by auto
  have r: "v1 = v2" "r = (case gr of Inl e \<Rightarrow> Inl (if e = RangeNotSatisfiable then EOF else e)
      | Inr (body, err) \<Rightarrow> (case (if body = [] \<and> err = None then Some EOF else err) of Some e \<Rightarrow> Inl e | None \<Rightarrow> Inr \<lparr>pg_data = body, pg_offset = st\<rparr>))"
    using l g by (auto simp: loadpage_def st_def Let_def split: sum.splits prod.splits option.splits)
  show "objs v1 = objs v" using G r(1) by blast
  have data: "d = take (nat (st + defaultPageSize - 1 - st + 1)) (drop (nat st) b)" if "gr = Inr (d, None)" for d using G that by blast
  show "page_good b pg \<and> page_has off pg" if "r = Inr pg" for pg
    using that r(2) data L(4,5) by (auto split: sum.splits prod.splits option.splits if_splits)
  show "r \<noteq> Inl EOF"
    using r(2) rng G data L(6) by (auto split: sum.splits prod.splits option.splits if_splits)
qed

lemma getpage_ok:
  assumes g: "getpage V v rac off = (r, rac1, v1)" and b: "objs v (rac_key rac) = Some b" and inv: "rac_inv b rac"
    and off: "0 \<le> off" "off < int (length b)"
  shows "objs v1 = objs v \<and> rac_inv b rac1 \<and> rac_key rac1 = rac_key rac \<and> r \<noteq> Inl EOF \<and> (\<forall>pg. r = Inr pg \<longrightarrow> page_good b pg \<and> page_has off pg)"
proof (cases "findpage rac off")
  case (Some i)
  then have i: "i < length (rac_pages rac)" "page_has off (rac_pages rac ! i)"
    using findpage_from_Some[of 0 off "rac_pages rac" i] by (simp_all add: findpage_def)
  have r: "r = Inr (rac_pages rac ! i)" "rac1 = rac\<lparr>rac_pages := to_front i (rac_pages rac)\<rparr>" "v1 = v" using g Some by (simp_all add: getpage_def)
  have "page_good b (rac_pages rac ! i)" using inv i(1) by (simp add: rac_inv_def)
  then show ?thesis using r i(2) inv to_front_ok[OF i(1)] by (simp add: rac_inv_def)
next
  case None
  obtain lr v2 where l: "loadpage V v rac off = (lr, v2)" by fastforce
  note L = loadpage_ok[OF l b off]
  show ?thesis
  proof (cases lr)
    case (Inl e)
    then show ?thesis using g None l L inv by (auto simp: getpage_def)
  next
    case (Inr pg)
    define pgs where "pgs = (if length (rac_pages rac) < defaultNumPages then rac_pages rac @ [pg] else rac_pages rac)"
    have r: "r = Inr pg" "rac1 = rac\<lparr>rac_pages := to_front (length pgs - 1) (pgs[length pgs - 1 := pg])\<rparr>" "v1 = v2"
      using g None l Inr by (simp_all add: getpage_def pgs_def Let_def)
    have n: "length pgs - 1 < length (pgs[length pgs - 1 := pg])" by (auto simp: pgs_def defaultNumPages_def)
    have good: "page_good b pg \<and> page_has off pg" using L(2) Inr by blast
    have "\<forall>q \<in> set (pgs[length pgs - 1 := pg]). page_good b q"
      using inv good set_update_subset_insert[of pgs "length pgs - 1" pg] by (auto simp: rac_inv_def pgs_def split: if_splits)
    moreover have "length pgs \<le> defaultNumPages" using inv by (auto simp: pgs_def rac_inv_def)
    ultimately have "rac_inv b rac1" using r(2) inv to_front_ok[OF n] by (simp add: rac_inv_def)
    then show ?thesis using r good L(1) by simp
  qed
qed

lemma readat_loop_ok:
  assumes "objs v (rac_key rac) = Some b" and "rac_inv b rac" and "0 \<le> off"
  shows "\<exists>d err rac1 v1. readat_loop V v rac off n acc = Some ((acc @ d, err), rac1, v1) \<and> objs v1 = objs v \<and> rac_inv b rac1 \<and>
    rac_key rac1 = rac_key rac \<and> d = take (length d) (take n (drop (nat off) b)) \<and> (err = None \<longrightarrow> d = take n (drop (nat off) b)) \<and> err \<noteq> Some EOF"
  using assms
proof (induction n arbitrary: v rac off acc rule: less_induct)
  case (less n)
  have size: "rac_size rac = int (length b)" using less.prems(2) by (simp add: rac_inv_def)
  show ?case
  proof (cases "n = 0 \<or> rac_size rac \<le> off")
    case True
    then have "take n (drop (nat off) b) = []" using size by auto
    then show ?thesis using True less.prems by (subst readat_loop.simps) auto
  next
    case False
    then have off: "0 \<le> off" "off < int (length b)" and n: "0 < n" using less.prems(3) size by auto
    obtain r rac1 v1 where g: "getpage V v rac off = (r, rac1, v1)" by (metis prod_cases3)
    note G = getpage_ok[OF g less.prems(1,2) off]
    show ?thesis
    proof (cases r)
      case (Inl e)
      then show ?thesis using False g G by (subst readat_loop.simps) (auto intro!: exI[of _ "[]"])
    next
      case (Inr pg)
      define d where "d = take n (drop (nat (off - pg_offset pg)) (pg_data pg))"
      have pg: "page_good b pg" "page_has off pg" using G Inr by blast+
      have eq: "readat_loop V v rac off n acc = readat_loop V v1 rac1 (off + int (length d)) (n - length d) (acc @ d)"
        using False g Inr pg(2) by (subst readat_loop.simps) (simp add: page_has_def d_def)
      have d1: "d = take (length d) (drop (nat off) b)" and d2: "d \<noteq> []" "length d \<le> n"
        using page_slice[OF pg d_def n] by blast+
      have less': "n - length d < n" using d2 n by simp
      have p1: "objs v1 (rac_key rac1) = Some b" "rac_inv b rac1" "0 \<le> off + int (length d)" using G less.prems off by auto
      obtain d' err rac2 v2 where IH: "readat_loop V v1 rac1 (off + int (length d)) (n - length d) (acc @ d) = Some (((acc @ d) @ d', err), rac2, v2)"
          "objs v2 = objs v1" "rac_inv b rac2" "rac_key rac2 = rac_key rac1"
          "d' = take (length d') (take (n - length d) (drop (nat (off + int (length d))) b))"
          "err = None \<longrightarrow> d' = take (n - length d) (drop (nat (off + int (length d))) b)" "err \<noteq> Some EOF"
        using less.IH[OF less' p1, of "acc @ d"] by blast
      have whole: "take n (drop (nat off) b) = d @ take (n - length d) (drop (nat (off + int (length d))) b)"
        using take_split[OF d1 d2(2)] off by (simp add: nat_add_distrib add.commute)
      have "d @ d' = take (length (d @ d')) (take n (drop (nat off) b))" unfolding whole using IH(5) by simp
      then show ?thesis using eq IH G whole by (intro exI[of _ "d @ d'"] exI[of _ err] exI[of _ rac2] exI[of _ v2]) auto
    qed
  qed
qed

end

end
