(* ===== verification/S3_Properties.thy ===== *)
theory S3_Properties
  imports S3_Correct
begin

text \<open>
  What the store on S3 (src/store/s3.go) promises, and a service in memory, with faults, that keeps the contract.
\<close>

section \<open>A service in memory\<close>

record demo_s3 =
  dv_objs :: "(string, bytes) gomap"
  dv_ups :: "(string, string \<times> (nat, bytes \<times> string) gomap) gomap"
  dv_next :: nat
  dv_faults :: "bool list"

definition dv_obj :: "demo_s3 \<Rightarrow> string \<Rightarrow> bytes option" where
  "dv_obj v = gget (dv_objs v)"

definition dv_up :: "demo_s3 \<Rightarrow> string \<Rightarrow> (string \<times> upload_parts) option" where
  "dv_up v u = (if u = [] then None else map_option (\<lambda>(k, ps). (k, gget ps)) (gget (dv_ups v) u))"

definition dv_call :: "demo_s3 \<Rightarrow> (error \<Rightarrow> 'r) \<Rightarrow> (demo_s3 \<Rightarrow> 'r \<times> demo_s3) \<Rightarrow> 'r \<times> demo_s3" where
  "dv_call v fail f =
     (case dv_faults v of
        [] \<Rightarrow> f v
      | b # fs \<Rightarrow> (let v1 = v\<lparr>dv_faults := fs\<rparr> in if b then (fail (IOError ''connection reset''), v1) else f v1))"

definition dv_complete :: "string \<Rightarrow> string \<Rightarrow> (string \<times> nat) list \<Rightarrow> demo_s3 \<Rightarrow> error option \<times> demo_s3" where
  "dv_complete k u l v =
     (case dv_up v u of
        None \<Rightarrow> (Some (IOError ''NoSuchUpload''), v)
      | Some (k', ps) \<Rightarrow>
          if k' = k \<and> list_all (\<lambda>(e, n). map_option snd (ps n) = Some e) l
          then (None, v\<lparr>dv_objs := gset k (assembled ps l) (dv_objs v), dv_ups := gdel u (dv_ups v)\<rparr>)
          else (Some (IOError ''InvalidPart''), v))"

definition dv_part :: "string \<Rightarrow> string \<Rightarrow> nat \<Rightarrow> bytes \<Rightarrow> demo_s3 \<Rightarrow> string option result \<times> demo_s3" where
  "dv_part k u n b v =
     (case gget (dv_ups v) u of
        None \<Rightarrow> (Inl (IOError ''NoSuchUpload''), v)
      | Some (k', ps) \<Rightarrow>
          if k' = k \<and> u \<noteq> [] then (Inr (Some ''etag''), v\<lparr>dv_ups := gset u (k, gset n (b, ''etag'') ps) (dv_ups v)\<rparr>)
          else (Inl (IOError ''NoSuchUpload''), v))"

definition dv_get :: "string \<Rightarrow> int \<Rightarrow> int \<Rightarrow> demo_s3 \<Rightarrow> (bytes \<times> error option) result \<times> demo_s3" where
  "dv_get k start stop v =
     (case dv_obj v k of
        None \<Rightarrow> (Inl (IOError ''404''), v)
      | Some b \<Rightarrow>
          if int (length b) \<le> start then (Inl RangeNotSatisfiable, v)
          else (Inr (take (nat (stop - start + 1)) (drop (nat start) b), None), v))"

definition demo_svc :: "demo_s3 s3_svc" where
  "demo_svc = \<lparr>
     svc_ListObjects = (\<lambda>v p. dv_call v (\<lambda>e. ([], Some e)) (\<lambda>v1. (([filter (\<lambda>k. has_prefix k p) (gkeys (dv_objs v1))], None), v1))),
     svc_HeadObject = (\<lambda>v k. dv_call v Inl (\<lambda>v1. (case dv_obj v1 k of None \<Rightarrow> Inl (IOError ''404'') | Some b \<Rightarrow> Inr (length b), v1))),
     svc_GetObject = (\<lambda>v k start stop. dv_call v Inl (dv_get k start stop)),
     svc_PutObject = (\<lambda>v k b. dv_call v Some (\<lambda>v1. (None, v1\<lparr>dv_objs := gset k b (dv_objs v1)\<rparr>))),
     svc_DeleteObject = (\<lambda>v k. dv_call v Some (\<lambda>v1. (None, v1\<lparr>dv_objs := gdel k (dv_objs v1)\<rparr>))),
     svc_CreateMultipartUpload = (\<lambda>v k. dv_call v Inl (\<lambda>v1. let u = replicate (dv_next v1 + 1) CHR ''u'' in
       (Inr u, v1\<lparr>dv_next := dv_next v1 + 1, dv_ups := gset u (k, []) (dv_ups v1)\<rparr>))),
     svc_UploadPart = (\<lambda>v k u n b. dv_call v Inl (dv_part k u n b)),
     svc_CompleteMultipartUpload = (\<lambda>v k u l. dv_call v Some (dv_complete k u l)),
     svc_AbortMultipartUpload = (\<lambda>v k u. dv_call v Some (\<lambda>v1. (None, v1\<lparr>dv_ups := gdel u (dv_ups v1)\<rparr>)))\<rparr>"

lemma dv_callE:
  assumes "dv_call v fail f = (r, v1)"
  obtains v0 where "dv_obj v0 = dv_obj v" "dv_up v0 = dv_up v" "dv_objs v0 = dv_objs v" "f v0 = (r, v1)"
  | "dv_obj v1 = dv_obj v" "dv_up v1 = dv_up v" "r = fail (IOError ''connection reset'')"
proof -
  let ?v = "\<lambda>fs. v\<lparr>dv_faults := fs\<rparr>"
  have same: "dv_obj (?v fs) = dv_obj v" "dv_up (?v fs) = dv_up v" "dv_objs (?v fs) = dv_objs v" for fs by (simp_all add: dv_obj_def dv_up_def fun_eq_iff)
  show thesis
  proof (cases "dv_faults v")
    case Nil
    then show thesis using assms that(1)[of v] by (simp add: dv_call_def)
  next
    case (Cons b fs)
    then show thesis using assms that(1)[of "?v fs"] that(2) same[of fs] by (cases b) (auto simp: dv_call_def)
  qed
qed

lemma dv_part_ok:
  assumes "dv_part k u n b v = (pr, v1)"
  shows "dv_obj v1 = dv_obj v \<and> (\<forall>e. pr = Inr (Some e) \<longrightarrow> (\<exists>ps. dv_up v u = Some (k, ps) \<and> dv_up v1 u = Some (k, ps(n \<mapsto> (b, e)))))"
  using assms by (auto simp: dv_part_def dv_up_def dv_obj_def split: option.splits if_splits)

interpretation demo: s3_service demo_svc dv_obj dv_up
proof (unfold_locales, goal_cases)
  case (1 v p pages err v1)
  then show ?case by (auto simp: demo_svc_def set_gkeys dv_obj_def[symmetric] elim!: dv_callE)
next
  case (2 v k hr v1)
  then show ?case by (auto simp: demo_svc_def elim!: dv_callE split: option.splits)
next
  case (3 v k start stop gr v1 b)
  then show ?case by (auto simp: demo_svc_def dv_get_def RangeNotSatisfiable_def elim!: dv_callE split: if_splits)
next
  case (4 v k b err v1)
  then show ?case by (auto simp: demo_svc_def dv_obj_def elim!: dv_callE)
next
  case (5 v k err v1)
  then show ?case by (auto simp: demo_svc_def dv_obj_def elim!: dv_callE)
next
  case (6 v k sr v1)
  then show ?case by (auto simp: demo_svc_def dv_obj_def dv_up_def Let_def fun_eq_iff elim!: dv_callE)
next
  case (7 v k u n b pr v1)
  then have c: "dv_call v Inl (dv_part k u n b) = (pr, v1)" by (simp add: demo_svc_def)
  show ?case
  proof (rule dv_callE[OF c])
    fix v0 assume "dv_obj v0 = dv_obj v" "dv_up v0 = dv_up v" "dv_part k u n b v0 = (pr, v1)"
    then show ?case using dv_part_ok[of k u n b v0 pr v1] by simp
  qed simp
next
  case (8 v k u l err v1)
  then show ?case by (auto simp: demo_svc_def dv_complete_def dv_obj_def elim!: dv_callE split: option.splits if_splits)
next
  case (9 v)
  then show ?case by (simp add: dv_up_def)
next
  case (10 v k u err v1)
  then show ?case by (auto simp: demo_svc_def dv_obj_def elim!: dv_callE)
qed

section \<open>Uploads\<close>

text \<open>C6. An upload to S3 is atomic. Whatever calls of the service fail, the object of the key is, after any sequence of writes and
  \<open>Close\<close>, either as before or the whole of what was written; it is as before until \<open>Close\<close>, and also after it when a \<open>Write\<close>
  reported an error; it is what was written when no \<open>Write\<close> and not \<open>Close\<close> reported an error. No other object changes.\<close>

theorem s3_upload_atomic:
  assumes "s3_service V objs ups" and "wc_writes V v (new_wc k) ws = (errs, wc, v1)" and "wc_Close V v1 wc = (err, wc2, v2)"
  shows "objs v1 = objs v \<and> (objs v2 = objs v \<or> objs v2 = (objs v)(k \<mapsto> concat ws)) \<and>
    ((\<exists>e \<in> set errs. e \<noteq> None) \<longrightarrow> objs v2 = objs v) \<and>
    ((\<forall>e \<in> set errs. e = None) \<and> err = None \<longrightarrow> objs v2 = (objs v)(k \<mapsto> concat ws))"
  using s3_service.upload[OF assms] by blast

definition demo_start :: "bool list \<Rightarrow> demo_s3" where
  "demo_start faults = \<lparr>dv_objs = [(''old'', ''x'')], dv_ups = [], dv_next = 0, dv_faults = faults\<rparr>"

lemmas demo_eval = wc_Write_def wc_Close_def uploadfull_def new_wc_def lowerlimit_def wcBaseSize_def demo_svc_def dv_call_def dv_obj_def demo_start_def

theorem s3_upload_atomic_witness:
  "(let (errs, wc, v1) = wc_writes demo_svc (demo_start []) (new_wc ''new'') [''ab'', ''cd'']; (err, wc2, v2) = wc_Close demo_svc v1 wc in
      errs = [None, None] \<and> err = None \<and> dv_obj v2 ''new'' = Some ''abcd'' \<and> dv_obj v2 ''old'' = Some ''x'') \<and>
   (let (errs, wc, v1) = wc_writes demo_svc (demo_start [True]) (new_wc ''old'') [''ab'']; (err, wc2, v2) = wc_Close demo_svc v1 wc in
      err \<noteq> None \<and> (dv_obj v2 = dv_obj (demo_start [True]) \<or> dv_obj v2 = (dv_obj (demo_start [True]))(''old'' \<mapsto> ''ab'')))"
proof -
  obtain errs wc v1 where w: "wc_writes demo_svc (demo_start []) (new_wc ''new'') [''ab'', ''cd''] = (errs, wc, v1)" by (metis prod_cases3)
  obtain err wc2 v2 where c: "wc_Close demo_svc v1 wc = (err, wc2, v2)" by (metis prod_cases3)
  have e: "errs = [None, None]" "err = None" using w c by (auto simp: demo_eval)
  have "dv_obj v2 = (dv_obj (demo_start []))(''new'' \<mapsto> concat [''ab'', ''cd''])"
    using s3_upload_atomic[OF demo.s3_service_axioms w c] e by simp
  then have 1: "dv_obj v2 ''new'' = Some ''abcd''" "dv_obj v2 ''old'' = Some ''x''" by (simp_all add: dv_obj_def demo_start_def)
  obtain errs' wc' v1' where w': "wc_writes demo_svc (demo_start [True]) (new_wc ''old'') [''ab''] = (errs', wc', v1')" by (metis prod_cases3)
  obtain err' wc2' v2' where c': "wc_Close demo_svc v1' wc' = (err', wc2', v2')" by (metis prod_cases3)
  have e': "err' \<noteq> None" using w' c' by (auto simp: demo_eval)
  have f: "dv_obj v2' = dv_obj (demo_start [True]) \<or> dv_obj v2' = (dv_obj (demo_start [True]))(''old'' \<mapsto> ''ab'')"
    using s3_upload_atomic[OF demo.s3_service_axioms w' c'] by simp
  show ?thesis unfolding w w' Let_def prod.case c c' using 1 e e' f by blast
qed

text \<open>C38. The parts of an upload are within the limits of S3. For writes of at most 1 GiB and an object of at most 5 TiB, the largest that S3
  accepts, there are at most 10000 parts; every part but the last has between 5 MiB and 5 GiB, and at most 4 GiB wait in the
  buffer for the last part.\<close>

theorem s3_part_bounds:
  assumes "s3_service V objs ups" and "wc_writes V v (new_wc k) ws = (errs, wc, v1)" and "\<forall>e \<in> set errs. e = None"
    and "\<forall>p \<in> set ws. length p \<le> 2 ^ 30" and "length (concat ws) \<le> 5 * 2 ^ 40"
  shows "wc_part wc + 1 \<le> 10000 \<and> length (buffered wc) \<le> 4 * 2 ^ 30 \<and>
    (\<exists>parts. length parts = wc_part wc \<and> concat ws = concat parts @ buffered wc \<and>
      (\<forall>p \<in> set parts. 5 * 2 ^ 20 \<le> length p \<and> length p \<le> 5 * 2 ^ 30) \<and>
      (wc_isMulti wc \<longrightarrow> (\<exists>ps. ups v1 (wc_uploadID wc) = Some (k, ps) \<and> (\<forall>i < wc_part wc. part_data ps (i + 1) = parts ! i))))"
proof -
  let ?B = "2 ^ 30 :: nat"
  have w0: "wrote ?B (ups v (wc_uploadID (new_wc k))) (new_wc k) [] []"
    by (simp add: wrote_def sent_def new_wc_def buffered_def part_sizes_def)
  note W = s3_service.writes_ok[OF assms(1,2), of ?B "[]" "[]"]
  then obtain parts where p: "wrote ?B (ups v1 (wc_uploadID wc)) wc parts (concat ws)" using w0 assms(3,4) by auto
  have key: "wc_key wc = k" using W by (simp add: new_wc_def)
  have len: "length parts = wc_part wc" using p by (simp add: wrote_def sent_def)
  have "(wc_part wc - 6) * wcMaxSize \<le> 5 * 2 ^ 40"
    using parts_total[of ?B parts] p assms(5) len by (simp add: wrote_def)
  then have n: "wc_part wc + 1 \<le> 10000" by (simp add: wcMaxSize_def)
  have buf: "length (buffered wc) \<le> 4 * 2 ^ 30"
    using p lowerlimit_bounds[of "wc_part wc"] by (simp add: wrote_def wcMaxSize_def)
  have sizes: "\<forall>q \<in> set parts. 5 * 2 ^ 20 \<le> length q \<and> length q \<le> 5 * 2 ^ 30"
  proof
    fix q assume "q \<in> set parts"
    then obtain i where i: "i < length parts" "q = parts ! i" by (auto simp: in_set_conv_nth)
    then have "lowerlimit i < length q" "length q \<le> lowerlimit i + ?B" using p by (simp_all add: wrote_def part_sizes_def)
    then show "5 * 2 ^ 20 \<le> length q \<and> length q \<le> 5 * 2 ^ 30"
      using lowerlimit_bounds[of i] by (simp add: wcBaseSize_def wcMaxSize_def)
  qed
  have multi: "wc_isMulti wc \<longrightarrow> (\<exists>ps. ups v1 (wc_uploadID wc) = Some (k, ps) \<and> (\<forall>i < wc_part wc. part_data ps (i + 1) = parts ! i))"
    using p key by (auto simp: wrote_def sent_def part_data_def)
  show ?thesis using n buf sizes multi len p by (auto simp: wrote_def)
qed

theorem s3_part_bounds_witness:
  "(let (errs, wc, v1) = wc_writes demo_svc (demo_start []) (new_wc ''new'') [''ab'', ''cd''] in
     errs = [None, None] \<and> wc_part wc + 1 \<le> 10000 \<and> length (buffered wc) \<le> 4 * 2 ^ 30)"
proof -
  obtain errs wc v1 where w: "wc_writes demo_svc (demo_start []) (new_wc ''new'') [''ab'', ''cd''] = (errs, wc, v1)" by (metis prod_cases3)
  have e: "errs = [None, None]" using w by (auto simp: demo_eval)
  have "wc_part wc + 1 \<le> 10000 \<and> length (buffered wc) \<le> 4 * 2 ^ 30" using s3_part_bounds[OF demo.s3_service_axioms w] e by simp
  then show ?thesis unfolding w Let_def prod.case using e by blast
qed

section \<open>Reads\<close>

text \<open>A sequence of reads, each of an offset and a number of bytes.\<close>

fun rac_reads :: "('v, 'm) s3_svc_scheme \<Rightarrow> 'v \<Rightarrow> s3ReadAtCloser \<Rightarrow> (nat \<times> nat) list \<Rightarrow> (bytes \<times> error option) list option" where
  "rac_reads V v rac [] = Some []"
| "rac_reads V v rac ((off, n) # rs) =
     (case rac_ReadAt V v rac (int off) n of
        None \<Rightarrow> None
      | Some (r, rac1, v1) \<Rightarrow> map_option ((#) r) (rac_reads V v1 rac1 rs))"

text \<open>What a read of \<open>b\<close> may answer: a part of the range that was asked for; without an error all of it; an end of file when the range is empty.\<close>

definition read_ok :: "bytes \<Rightarrow> nat \<times> nat \<Rightarrow> bytes \<times> error option \<Rightarrow> bool" where
  "read_ok b rq r = (case (rq, r) of ((off, n), (d, err)) \<Rightarrow>
     d = take (length d) (take n (drop off b)) \<and> (err = None \<longrightarrow> d = take n (drop off b) \<and> d \<noteq> []) \<and>
     (err = Some EOF \<longrightarrow> take n (drop off b) = []))"

context s3_service
begin

lemma ReadAt_ok:
  assumes "objs v (rac_key rac) = Some b" and "rac_inv b rac"
  shows "\<exists>r rac1 v1. rac_ReadAt V v rac (int off) n = Some (r, rac1, v1) \<and> objs v1 = objs v \<and> rac_inv b rac1 \<and>
    rac_key rac1 = rac_key rac \<and> read_ok b (off, n) r"
proof -
  obtain d err rac1 v1 where l: "readat_loop V v rac (int off) n [] = Some (([] @ d, err), rac1, v1)" and st: "objs v1 = objs v" "rac_inv b rac1"
      "rac_key rac1 = rac_key rac" and d: "d = take (length d) (take n (drop (nat (int off)) b))"
      "err = None \<longrightarrow> d = take n (drop (nat (int off)) b)" "err \<noteq> Some EOF"
    using readat_loop_ok[OF assms, of "int off" n "[]"] by auto
  have "rac_ReadAt V v rac (int off) n = Some ((d, if err = None \<and> d = [] then Some EOF else err), rac1, v1)"
    using l d(3) by (simp add: rac_ReadAt_def)
  moreover have "read_ok b (off, n) (d, if err = None \<and> d = [] then Some EOF else err)"
    using d by (auto simp: read_ok_def)
  ultimately show ?thesis using st by blast
qed

lemma reads_ok:
  assumes "objs v (rac_key rac) = Some b" and "rac_inv b rac"
  shows "\<exists>res. rac_reads V v rac rqs = Some res \<and> list_all2 (read_ok b) rqs res"
  using assms
proof (induction rqs arbitrary: v rac)
  case (Cons rq rqs)
  obtain off n where rq: "rq = (off, n)" by fastforce
  obtain r rac1 v1 where r: "rac_ReadAt V v rac (int off) n = Some (r, rac1, v1)" "objs v1 = objs v" "rac_inv b rac1"
      "rac_key rac1 = rac_key rac" "read_ok b (off, n) r" using ReadAt_ok[OF Cons.prems, of off n] by blast
  obtain res where "rac_reads V v1 rac1 rqs = Some res" "list_all2 (read_ok b) rqs res"
    using Cons.IH[of v1 rac1] r(2-4) Cons.prems(1) by auto
  then show ?case using r by (simp add: rq)
qed simp

lemma open_ok:
  assumes o: "s3_Open V prefix s key = (Inr rac, s1)" and b: "objs (s3_svc s) (prefix @ key) = Some b"
    and ag: "sc_agrees (s3_sizes s) (\<lambda>k. objs (s3_svc s) (prefix @ k))"
  shows "rac_inv b rac" "rac_key rac = prefix @ key" "objs (s3_svc s1) = objs (s3_svc s)"
    "sc_agrees (s3_sizes s1) (\<lambda>k. objs (s3_svc s1) (prefix @ k))"
proof -
  define c where "c = (if sc_sweeptime (s3_sizes s) < s3_clock s (s3_ticks s) then (s3_sizes s)\<lparr>sc_due := sc_due (s3_sizes s) + 1\<rparr> else s3_sizes s)"
  have c: "sc_cache c = sc_cache (s3_sizes s)" by (simp add: c_def)
  then have agc: "sc_agrees c (\<lambda>k. objs (s3_svc s) (prefix @ k))" and kn: "sc_known c = sc_known (s3_sizes s)"
    using ag by (simp_all add: sc_agrees_def sc_known_def fun_eq_iff)
  obtain hr v1 where h: "svc_HeadObject V (s3_svc s) (prefix @ key) = (hr, v1)" by fastforce
  note H = head_law[OF h]
  have nonneg: "\<not> sc_known c key < 0" "0 < sc_known c key \<Longrightarrow> sc_known c key = int (length b)"
    using agc b by (auto simp: sc_agrees_def)
  have st: "s3_stat V prefix s key = (if 0 < sc_known c key then ((sc_known c key, None), s\<lparr>s3_sizes := c, s3_ticks := s3_ticks s + 2\<rparr>)
      else (case hr of Inl e \<Rightarrow> ((0, Some e), s\<lparr>s3_svc := v1, s3_sizes := sc_set0 (s3_clock s (s3_ticks s + 1)) key 0 c, s3_ticks := s3_ticks s + 2\<rparr>)
       | Inr n \<Rightarrow> ((int n, None), s\<lparr>s3_svc := v1, s3_sizes := sc_set0 (s3_clock s (s3_ticks s + 1)) key (int n) c, s3_ticks := s3_ticks s + 2\<rparr>)))"
    using nonneg(1) unfolding s3_stat_def sc_Get_def c_def[symmetric] Let_def sc_known_def s3_stat0_def
    by (auto simp: h split: option.splits sum.splits)
  have r: "0 < sc_known c key \<and> rac = \<lparr>rac_key = prefix @ key, rac_pages = [], rac_size = sc_known c key\<rparr> \<and> s1 = s\<lparr>s3_sizes := c, s3_ticks := s3_ticks s + 2\<rparr> \<or>
      (\<exists>n. hr = Inr n \<and> rac = \<lparr>rac_key = prefix @ key, rac_pages = [], rac_size = int n\<rparr> \<and>
        s1 = s\<lparr>s3_svc := v1, s3_sizes := sc_set0 (s3_clock s (s3_ticks s + 1)) key (int n) c, s3_ticks := s3_ticks s + 2\<rparr>)"
    using o unfolding s3_Open_def st by (auto split: if_splits sum.splits)
  have "rac_inv b rac \<and> rac_key rac = prefix @ key \<and> objs (s3_svc s1) = objs (s3_svc s) \<and> sc_agrees (s3_sizes s1) (\<lambda>k. objs (s3_svc s1) (prefix @ k))"
    using r
  proof (elim disjE exE conjE)
    assume k: "0 < sc_known c key" and e: "rac = \<lparr>rac_key = prefix @ key, rac_pages = [], rac_size = sc_known c key\<rparr>"
      "s1 = s\<lparr>s3_sizes := c, s3_ticks := s3_ticks s + 2\<rparr>"
    show ?thesis unfolding e using nonneg(2)[OF k] agc by (simp add: rac_inv_def)
  next
    fix n
    assume n: "hr = Inr n" and e: "rac = \<lparr>rac_key = prefix @ key, rac_pages = [], rac_size = int n\<rparr>"
      "s1 = s\<lparr>s3_svc := v1, s3_sizes := sc_set0 (s3_clock s (s3_ticks s + 1)) key (int n) c, s3_ticks := s3_ticks s + 2\<rparr>"
    have len: "n = length b" and ob: "objs v1 = objs (s3_svc s)" using H n b by simp_all
    have "sc_agrees (sc_set0 (s3_clock s (s3_ticks s + 1)) key (int n) c) (\<lambda>k. objs (s3_svc s) (prefix @ k))"
      using b len by (intro agrees_set[OF agc]) auto
    then show ?thesis unfolding e using len ob by (simp add: rac_inv_def)
  qed
  then show "rac_inv b rac" "rac_key rac = prefix @ key" "objs (s3_svc s1) = objs (s3_svc s)"
    "sc_agrees (s3_sizes s1) (\<lambda>k. objs (s3_svc s1) (prefix @ k))" by blast+
qed

end

text \<open>C39. Reading an object of S3 through the pages in memory is reading its content. When the cache of sizes agrees with the objects
  and \<open>Open\<close> succeeds, every sequence of \<open>ReadAt\<close> calls ends; each gives a part of the range that was asked for, all of it
  when there is no error, and the end of file only when the range is empty. The cache of sizes still agrees with the objects.\<close>

theorem s3_read_correct:
  assumes "s3_service V objs ups" and "objs (s3_svc s) (prefix @ key) = Some b"
    and "sc_agrees (s3_sizes s) (\<lambda>k. objs (s3_svc s) (prefix @ k))" and "s3_Open V prefix s key = (Inr rac, s1)"
  shows "\<exists>res. rac_reads V (s3_svc s1) rac rqs = Some res \<and> list_all2 (read_ok b) rqs res \<and>
    sc_agrees (s3_sizes s1) (\<lambda>k. objs (s3_svc s1) (prefix @ k))"
proof -
  note O = s3_service.open_ok[OF assms(1,4,2,3)]
  have "objs (s3_svc s1) (rac_key rac) = Some b" using O(2,3) assms(2) by simp
  from s3_service.reads_ok[OF assms(1) this O(1)] O(4) show ?thesis by blast
qed

theorem s3_read_correct_witness:
  "(let s = NewS3 (demo_start []) (\<lambda>i. int i + 1); (r, s1) = s3_Open demo_svc ''o'' s ''ld'' in
     r = Inr \<lparr>rac_key = ''old'', rac_pages = [], rac_size = 1\<rparr> \<and>
     (\<exists>res. rac_reads demo_svc (s3_svc s1) \<lparr>rac_key = ''old'', rac_pages = [], rac_size = 1\<rparr> [(0, 5), (1, 1)] = Some res \<and>
       list_all2 (read_ok ''x'') [(0, 5), (1, 1)] res))"
proof -
  let ?s = "NewS3 (demo_start []) (\<lambda>i. int i + 1)"
  have b: "dv_obj (s3_svc ?s) (''o'' @ ''ld'') = Some ''x''" by (simp add: NewS3_def dv_obj_def demo_start_def)
  have ag: "sc_agrees (s3_sizes ?s) (\<lambda>k. dv_obj (s3_svc ?s) (''o'' @ k))" by (simp add: NewS3_def agrees_new)
  obtain s1 where o: "s3_Open demo_svc ''o'' ?s ''ld'' = (Inr \<lparr>rac_key = ''old'', rac_pages = [], rac_size = 1\<rparr>, s1)"
    by (simp add: s3_Open_def s3_stat_def NewS3_def sc_Get_def newSizeCache_def s3_stat0_def demo_svc_def dv_call_def demo_start_def dv_obj_def)
  show ?thesis unfolding Let_def o prod.case using s3_read_correct[OF demo.s3_service_axioms b ag o] by blast
qed

section \<open>What the store does not promise\<close>

text \<open>\<open>Create\<close> takes any error of the request for the size as a sign that the key is free: after a failure of the network it
  gives a writer for a key that is stored.\<close>

lemma create_after_failed_head:
  "fst (s3_Create demo_svc [] (NewS3 (demo_start [True]) clock) ''old'') = Inr (new_wc ''old'') \<and> dv_obj (demo_start [True]) ''old'' = Some ''x''"
  by (simp add: s3_Create_def s3_stat_def NewS3_def sc_Get_def newSizeCache_def s3_stat0_def demo_svc_def dv_call_def demo_start_def dv_obj_def)

text \<open>A second \<open>Close\<close> of a writer that sent its object in one request replaces the object by an empty one.\<close>

lemma close_twice:
  assumes "\<not> wc_isMulti wc" and "\<not> wc_abort wc" and "wc_Close V v wc = (None, wc1, v1)" and "svc_PutObject V v1 (wc_key wc) [] = (err, v2)"
  shows "wc_Close V v1 wc1 = (err, wc1, v2)"
  using assms by (auto simp: wc_Close_def uploadfull_def split: prod.splits)

end
