(* ===== verification/Black_Pearl.thy ===== *)
theory Black_Pearl
  imports Size_Cache Go_Format
begin

text \<open>
  The store on a BlackPearl appliance, src/store/blackpearl.go. The appliance, with its client library, and the temporary files are an
  argument: a record with the calls that the code makes, on a state of the environment. Every call may fail. A temporary
  file is its content. Loops that wait for the appliance, or that follow the markers of a listing, may go on forever; then the model
  gives \<open>None\<close>.
\<close>

section \<open>The environment\<close>

record chunk =
  ch_name :: string
  ch_offset :: int
  ch_length :: int

record 'v bp_env =
  ds_GetBucket :: "'v \<Rightarrow> string \<Rightarrow> string \<Rightarrow> (string list \<times> string option) result \<times> 'v"
  ds_HeadObject :: "'v \<Rightarrow> string \<Rightarrow> string result \<times> 'v"
  ds_DeleteObject :: "'v \<Rightarrow> string \<Rightarrow> error option \<times> 'v"
  ds_StageObjects :: "'v \<Rightarrow> string list \<Rightarrow> error option \<times> 'v"
  ds_GetBulkJob :: "'v \<Rightarrow> string \<Rightarrow> (string \<times> nat) result \<times> 'v"
  ds_PutBulkJob :: "'v \<Rightarrow> string \<Rightarrow> nat \<Rightarrow> (string \<times> nat) result \<times> 'v"
  ds_ChunksReady :: "'v \<Rightarrow> string \<Rightarrow> (chunk list list \<times> string) result \<times> 'v"
  ds_GetObject :: "'v \<Rightarrow> string \<Rightarrow> string \<Rightarrow> int \<Rightarrow> (bytes \<times> error option) result \<times> 'v"
  ds_PutObject :: "'v \<Rightarrow> string \<Rightarrow> string \<Rightarrow> int \<Rightarrow> bytes \<Rightarrow> error option \<times> 'v"
  os_TempFile :: "'v \<Rightarrow> error option \<times> 'v"
  os_FileWrite :: "'v \<Rightarrow> bytes \<Rightarrow> (nat \<times> error option) \<times> 'v"

text \<open>The error \<open>BadStatusCodeError\<close> with the status 404.\<close>

definition status404 :: error where
  "status404 = IOError ''404''"

record 'v blackpearl =
  bp_env_state :: 'v
  bp_sizes :: sizecache
  bp_clock :: "nat \<Rightarrow> int"
  bp_ticks :: nat

definition NewBlackPearl :: "'v \<Rightarrow> (nat \<Rightarrow> int) \<Rightarrow> 'v blackpearl" where
  "NewBlackPearl v clock = \<lparr>bp_env_state = v, bp_sizes = newSizeCache, bp_clock = clock, bp_ticks = 0\<rparr>"

section \<open>Listing\<close>

partial_function (option) listeach ::
  "('v, 'm) bp_env_scheme \<Rightarrow> string \<Rightarrow> 'v \<Rightarrow> string \<Rightarrow> string \<Rightarrow> string list \<Rightarrow> ((string list \<times> error option) \<times> 'v) option" where
  "listeach V bpre v p marker acc =
     (case ds_GetBucket V v (bpre @ p) marker of
        (Inl e, v1) \<Rightarrow> Some ((acc, Some e), v1)
      | (Inr (ks, nxt), v1) \<Rightarrow>
          (let acc1 = acc @ map (\<lambda>k. trim_prefix k bpre) ks in
           case nxt of None \<Rightarrow> Some ((acc1, None), v1) | Some m \<Rightarrow> listeach V bpre v1 p m acc1))"

definition bp_List :: "('v, 'm) bp_env_scheme \<Rightarrow> string \<Rightarrow> 'v blackpearl \<Rightarrow> (string list \<times> 'v blackpearl) option" where
  "bp_List V bpre s =
     (case listeach V bpre (bp_env_state s) [] [] [] of
        None \<Rightarrow> None
      | Some ((ks, err), v1) \<Rightarrow> Some (ks, s\<lparr>bp_env_state := v1\<rparr>))"

definition bp_ListPrefix :: "('v, 'm) bp_env_scheme \<Rightarrow> string \<Rightarrow> 'v blackpearl \<Rightarrow> string \<Rightarrow> ((string list \<times> error option) \<times> 'v blackpearl) option" where
  "bp_ListPrefix V bpre s p =
     (case listeach V bpre (bp_env_state s) p [] [] of
        None \<Rightarrow> None
      | Some (r, v1) \<Rightarrow> Some (r, s\<lparr>bp_env_state := v1\<rparr>))"

section \<open>Sizes\<close>

text \<open>\<open>strconv.Atoi\<close>: with its error it gives 0, or the nearest number of 64 bits.\<close>

definition atoi :: "string \<Rightarrow> int \<times> error option" where
  "atoi s =
     (case parse_int s of
        Some n \<Rightarrow> (n, None)
      | None \<Rightarrow>
          (let neg = (s \<noteq> [] \<and> hd s = CHR ''-''); t = (if s \<noteq> [] \<and> hd s \<in> {CHR ''-'', CHR ''+''} then tl s else s) in
           (if parse_nat t = None then 0 else if neg then - (2 ^ 63) else 2 ^ 63 - 1, Some (ErrNumSyntax s))))"

definition bp_stat0 :: "('v, 'm) bp_env_scheme \<Rightarrow> string \<Rightarrow> 'v \<Rightarrow> string \<Rightarrow> (int \<times> error option) \<times> 'v" where
  "bp_stat0 V bpre v key =
     (case ds_HeadObject V v (bpre @ key) of
        (Inl e, v1) \<Rightarrow> ((0, Some e), v1)
      | (Inr x, v1) \<Rightarrow> if x = [] then ((0, None), v1) else (atoi x, v1))"

definition bp_stat :: "('v, 'm) bp_env_scheme \<Rightarrow> string \<Rightarrow> 'v blackpearl \<Rightarrow> string \<Rightarrow> (int \<times> error option) \<times> 'v blackpearl" where
  "bp_stat V bpre s key =
     (let (r, c1, v1) = sc_Get (bp_clock s (bp_ticks s)) (bp_clock s (bp_ticks s + 1)) (Some (bp_stat0 V bpre)) (bp_sizes s) (bp_env_state s) key
      in (r, s\<lparr>bp_env_state := v1, bp_sizes := c1, bp_ticks := bp_ticks s + 2\<rparr>))"

definition bp_remember :: "'v blackpearl \<Rightarrow> string \<Rightarrow> int \<Rightarrow> 'v blackpearl" where
  "bp_remember s key n = s\<lparr>bp_sizes := sc_Set (bp_clock s (bp_ticks s)) key n (bp_sizes s), bp_ticks := bp_ticks s + 1\<rparr>"

section \<open>Waiting for the appliance\<close>

definition second :: int where
  "second = 1000000000"

text \<open>The loop with its time to wait; the result has the waits that were made.\<close>

definition next_timeout :: "int \<Rightarrow> string \<Rightarrow> int" where
  "next_timeout timeout retry =
     (case atoi retry of
        (v, err) \<Rightarrow> if retry \<noteq> [] \<and> err = None \<and> 0 < v \<and> v * second < timeout then v * second else timeout)"

partial_function (option) wait_loop ::
  "('v, 'm) bp_env_scheme \<Rightarrow> 'v \<Rightarrow> string \<Rightarrow> int \<Rightarrow> int list \<Rightarrow> (chunk list result \<times> int list \<times> 'v) option" where
  "wait_loop V v job timeout waits =
     (case ds_ChunksReady V v job of
        (Inl e, v1) \<Rightarrow> Some (Inl e, waits, v1)
      | (Inr (ml, retry), v1) \<Rightarrow>
          if ml \<noteq> [] then Some (Inr (concat ml), waits, v1)
          else (let t = next_timeout timeout retry in wait_loop V v1 job (t + 10 * second) (waits @ [t])))"

definition waitForBlackPearl :: "('v, 'm) bp_env_scheme \<Rightarrow> 'v \<Rightarrow> string \<Rightarrow> (chunk list result \<times> 'v) option" where
  "waitForBlackPearl V v job = map_option (\<lambda>(r, waits, v1). (r, v1)) (wait_loop V v job (10 * second) [])"

section \<open>Reading\<close>

text \<open>The chunks of one answer are appended to the file \<open>f\<close> in the order of the answer.\<close>

fun download_chunks :: "('v, 'm) bp_env_scheme \<Rightarrow> 'v \<Rightarrow> string \<Rightarrow> string \<Rightarrow> chunk list \<Rightarrow> bytes \<Rightarrow> (error option \<times> bytes) \<times> 'v" where
  "download_chunks V v key job [] f = ((None, f), v)"
| "download_chunks V v key job (c # cs) f =
     (case ds_GetObject V v key job (ch_offset c) of
        (Inl e, v1) \<Rightarrow> ((Some e, f), v1)
      | (Inr (d, rerr), v1) \<Rightarrow>
          (let ((n, werr), v2) = os_FileWrite V v1 d;
               f1 = f @ take n d;
               err = (if werr \<noteq> None then werr else if n < length d then Some (IOError ''short write'') else rerr)
           in case err of Some e \<Rightarrow> ((Some e, f1), v2) | None \<Rightarrow> download_chunks V v2 key job cs f1))"

fun download_loop :: "('v, 'm) bp_env_scheme \<Rightarrow> 'v \<Rightarrow> string \<Rightarrow> string \<Rightarrow> nat \<Rightarrow> bytes \<Rightarrow> ((error option \<times> bytes) \<times> 'v) option" where
  "download_loop V v key job 0 f = Some ((None, f), v)"
| "download_loop V v key job (Suc n) f =
     (case waitForBlackPearl V v job of
        None \<Rightarrow> None
      | Some (Inl e, v1) \<Rightarrow> Some ((Some e, f), v1)
      | Some (Inr cs, v1) \<Rightarrow>
          (case download_chunks V v1 key job cs f of
             ((Some e, f1), v2) \<Rightarrow> Some ((Some e, f1), v2)
           | ((None, f1), v2) \<Rightarrow> download_loop V v2 key job n f1))"

definition downloadObject :: "('v, 'm) bp_env_scheme \<Rightarrow> 'v \<Rightarrow> string \<Rightarrow> ((error option \<times> bytes) \<times> 'v) option" where
  "downloadObject V v key =
     (case ds_GetBulkJob V v key of
        (Inl e, v1) \<Rightarrow> Some ((Some e, []), v1)
      | (Inr (job, n), v1) \<Rightarrow> download_loop V v1 key job n [])"

text \<open>\<open>Open\<close> gives the content of the temporary file, the size and the error; on an error the file is removed.\<close>

definition bp_Open :: "('v, 'm) bp_env_scheme \<Rightarrow> string \<Rightarrow> 'v blackpearl \<Rightarrow> string \<Rightarrow> ((bytes \<times> int \<times> error option) \<times> 'v blackpearl) option" where
  "bp_Open V bpre s key =
     (case bp_stat V bpre s key of
        ((n, Some e), s1) \<Rightarrow> Some (([], 0, Some e), s1)
      | ((n, None), s1) \<Rightarrow>
          (case os_TempFile V (bp_env_state s1) of
             (Some e, v2) \<Rightarrow> Some (([], n, Some e), s1\<lparr>bp_env_state := v2\<rparr>)
           | (None, v2) \<Rightarrow>
               (case downloadObject V v2 (bpre @ key) of
                  None \<Rightarrow> None
                | Some ((err, f), v3) \<Rightarrow> Some ((if err = None then f else [], n, err), s1\<lparr>bp_env_state := v3\<rparr>))))"

section \<open>Writing\<close>

record bpWriteCloser =
  bw_key :: string
  bw_tempfile :: bytes

definition bp_Create :: "('v, 'm) bp_env_scheme \<Rightarrow> string \<Rightarrow> 'v blackpearl \<Rightarrow> string \<Rightarrow> bpWriteCloser result \<times> 'v blackpearl" where
  "bp_Create V bpre s key =
     (case bp_stat V bpre s key of
        ((n, None), s1) \<Rightarrow> (Inl ErrKeyExists, s1)
      | ((n, Some e), s1) \<Rightarrow>
          (let s2 = bp_remember s1 key 0 in
           case os_TempFile V (bp_env_state s2) of
             (Some e, v3) \<Rightarrow> (Inl e, s2\<lparr>bp_env_state := v3\<rparr>)
           | (None, v3) \<Rightarrow> (Inr \<lparr>bw_key = bpre @ key, bw_tempfile = []\<rparr>, s2\<lparr>bp_env_state := v3\<rparr>)))"

definition bw_Write :: "('v, 'm) bp_env_scheme \<Rightarrow> 'v \<Rightarrow> bpWriteCloser \<Rightarrow> bytes \<Rightarrow> (nat \<times> error option) \<times> bpWriteCloser \<times> 'v" where
  "bw_Write V v w p = (let ((n, err), v1) = os_FileWrite V v p in ((n, err), w\<lparr>bw_tempfile := bw_tempfile w @ take n p\<rparr>, v1))"

definition uploadbuffer :: "('v, 'm) bp_env_scheme \<Rightarrow> 'v \<Rightarrow> bpWriteCloser \<Rightarrow> string \<Rightarrow> chunk \<Rightarrow> error option \<times> 'v" where
  "uploadbuffer V v w job c =
     ds_PutObject V v (bw_key w) job (ch_offset c) (take (nat (ch_length c)) (drop (nat (ch_offset c)) (bw_tempfile w)))"

text \<open>The chunks of one answer: an error of the upload is only logged.\<close>

fun upload_chunks :: "('v, 'm) bp_env_scheme \<Rightarrow> 'v \<Rightarrow> bpWriteCloser \<Rightarrow> string \<Rightarrow> chunk list \<Rightarrow> error option \<times> 'v" where
  "upload_chunks V v w job [] = (None, v)"
| "upload_chunks V v w job (c # cs) =
     (if ch_offset c < 0 then (Some (IOError ''invalid argument''), v)
      else (let (err, v1) = uploadbuffer V v w job c in upload_chunks V v1 w job cs))"

fun upload_loop :: "('v, 'm) bp_env_scheme \<Rightarrow> 'v \<Rightarrow> bpWriteCloser \<Rightarrow> string \<Rightarrow> nat \<Rightarrow> (error option \<times> 'v) option" where
  "upload_loop V v w job 0 = Some (None, v)"
| "upload_loop V v w job (Suc n) =
     (case waitForBlackPearl V v job of
        None \<Rightarrow> None
      | Some (Inl e, v1) \<Rightarrow> Some (Some e, v1)
      | Some (Inr cs, v1) \<Rightarrow>
          (case upload_chunks V v1 w job cs of
             (Some e, v2) \<Rightarrow> Some (Some e, v2)
           | (None, v2) \<Rightarrow> upload_loop V v2 w job n))"

definition bw_Close :: "('v, 'm) bp_env_scheme \<Rightarrow> 'v \<Rightarrow> bpWriteCloser \<Rightarrow> (error option \<times> 'v) option" where
  "bw_Close V v w =
     (case ds_PutBulkJob V v (bw_key w) (length (bw_tempfile w)) of
        (Inl e, v1) \<Rightarrow> Some (Some e, v1)
      | (Inr (job, n), v1) \<Rightarrow> upload_loop V v1 w job n)"

section \<open>Deleting and staging\<close>

definition bp_Delete :: "('v, 'm) bp_env_scheme \<Rightarrow> string \<Rightarrow> 'v blackpearl \<Rightarrow> string \<Rightarrow> error option \<times> 'v blackpearl" where
  "bp_Delete V bpre s key =
     (let (err0, v1) = ds_DeleteObject V (bp_env_state s) (bpre @ key);
          err = (if err0 = Some status404 then None else err0);
          s1 = s\<lparr>bp_env_state := v1\<rparr>
      in if err \<noteq> None then (err, s1) else (None, bp_remember s1 key sizeDeleted))"

definition bp_Stage :: "('v, 'm) bp_env_scheme \<Rightarrow> string \<Rightarrow> 'v blackpearl \<Rightarrow> string list \<Rightarrow> 'v blackpearl" where
  "bp_Stage V bpre s keys = s\<lparr>bp_env_state := snd (ds_StageObjects V (bp_env_state s) (map (\<lambda>k. bpre @ k) keys))\<rparr>"

end
