(* ===== verification/Black_Pearl_Correct.thy ===== *)
theory Black_Pearl_Correct
  imports Black_Pearl
begin

text \<open>
  What the code of the BlackPearl store (src/store/blackpearl.go) ensures of its loops, and two ways in which it loses data: errors of an
  upload that are only logged, and chunks of a download that are appended in the order in which they become ready.
\<close>

section \<open>Waiting\<close>

lemma next_timeout_le: "0 < t \<Longrightarrow> 0 < next_timeout t retry \<and> next_timeout t retry \<le> t"
  by (auto simp: next_timeout_def second_def split: prod.splits)

text \<open>An appliance that is busy for \<open>n\<close> requests, and then has chunks.\<close>

inductive ready_after :: "('v, 'm) bp_env_scheme \<Rightarrow> string \<Rightarrow> nat \<Rightarrow> 'v \<Rightarrow> chunk list \<Rightarrow> 'v \<Rightarrow> bool" for V job where
  now: "ds_ChunksReady V v job = (Inr (ml, retry), v1) \<Longrightarrow> ml \<noteq> [] \<Longrightarrow> ready_after V job 0 v (concat ml) v1"
| later: "ds_ChunksReady V v job = (Inr ([], retry), v1) \<Longrightarrow> ready_after V job n v1 cs v2 \<Longrightarrow> ready_after V job (Suc n) v cs v2"

text \<open>The loop ends as soon as the appliance is ready, after as many waits as it was busy; the wait number \<open>i\<close> is at most
  \<open>10 * (i + 1)\<close> seconds.\<close>

lemma wait_loop_ends:
  assumes "ready_after V job n v cs v1" and "0 < t" and "t \<le> 10 * second * (int (length waits) + 1)"
    and "\<forall>i < length waits. waits ! i \<le> 10 * second * (int i + 1)"
  shows "\<exists>waits1. wait_loop V v job t waits = Some (Inr cs, waits1, v1) \<and> length waits1 = length waits + n \<and>
    (\<forall>i < length waits1. waits1 ! i \<le> 10 * second * (int i + 1))"
  using assms
proof (induction arbitrary: t waits rule: ready_after.induct)
  case (now v ml retry v1)
  then show ?case by (subst wait_loop.simps) simp
next
  case (later v retry v1 n cs v2)
  let ?t = "next_timeout t retry"
  have t: "0 < ?t" "?t \<le> t" using next_timeout_le[OF later.prems(1)] by auto
  have s: "0 < second" by (simp add: second_def)
  have eq: "wait_loop V v job t waits = wait_loop V v1 job (?t + 10 * second) (waits @ [?t])"
    by (subst wait_loop.simps) (simp add: later.hyps(1) Let_def)
  have p1: "0 < ?t + 10 * second" using t s by linarith
  have p2: "?t + 10 * second \<le> 10 * second * (int (length (waits @ [?t])) + 1)"
    using t(2) later.prems(2) by (simp add: algebra_simps)
  have p3: "\<forall>i < length (waits @ [?t]). (waits @ [?t]) ! i \<le> 10 * second * (int i + 1)"
    using later.prems(2,3) t(2) by (auto simp: nth_append less_Suc_eq)
  show ?case unfolding eq using later.IH[OF p1 p2 p3] by simp
qed

lemma wait_ends: "ready_after V job n v cs v1 \<Longrightarrow> waitForBlackPearl V v job = Some (Inr cs, v1)"
  using wait_loop_ends[of V job n v cs v1 "10 * second" "[]"] by (auto simp: waitForBlackPearl_def second_def)

section \<open>Uploads\<close>

text \<open>Whatever the appliance answers to the chunks, no error is reported.\<close>

lemma upload_chunks_silent:
  assumes "\<forall>c \<in> set cs. 0 \<le> ch_offset c"
  shows "fst (upload_chunks V v w job cs) = None"
  using assms by (induction cs arbitrary: v) (auto simp: Let_def split: prod.splits)

text \<open>The requests of an upload: every chunk is sent once, with the bytes of the file at its place.\<close>

definition chunk_request :: "bpWriteCloser \<Rightarrow> chunk \<Rightarrow> int \<times> bytes" where
  "chunk_request w c = (ch_offset c, take (nat (ch_length c)) (drop (nat (ch_offset c)) (bw_tempfile w)))"

fun put_all :: "('v, 'm) bp_env_scheme \<Rightarrow> 'v \<Rightarrow> string \<Rightarrow> string \<Rightarrow> (int \<times> bytes) list \<Rightarrow> 'v" where
  "put_all V v key job [] = v"
| "put_all V v key job ((off, b) # rs) = put_all V (snd (ds_PutObject V v key job off b)) key job rs"

lemma upload_chunks_requests:
  assumes "\<forall>c \<in> set cs. 0 \<le> ch_offset c"
  shows "upload_chunks V v w job cs = (None, put_all V v (bw_key w) job (map (chunk_request w) cs))"
  using assms
proof (induction cs arbitrary: v)
  case (Cons c cs)
  obtain e v1 where p: "uploadbuffer V v w job c = (e, v1)" by fastforce
  then have "snd (ds_PutObject V v (bw_key w) job (fst (chunk_request w c)) (snd (chunk_request w c))) = v1"
    by (simp add: uploadbuffer_def chunk_request_def)
  then show ?case using Cons p by (simp add: chunk_request_def)
qed simp

text \<open>An appliance that gives one chunk for the file, refuses its upload, and stores nothing.\<close>

definition refusing :: "nat bp_env" where
  "refusing = \<lparr>
     ds_GetBucket = (\<lambda>v p m. (Inr ([], None), v)), ds_HeadObject = (\<lambda>v k. (Inl status404, v)), ds_DeleteObject = (\<lambda>v k. (Some status404, v)),
     ds_StageObjects = (\<lambda>v ks. (None, v)), ds_GetBulkJob = (\<lambda>v k. (Inl status404, v)), ds_PutBulkJob = (\<lambda>v k n. (Inr (''job'', 1), v)),
     ds_ChunksReady = (\<lambda>v job. (Inr ([[\<lparr>ch_name = ''k'', ch_offset = 0, ch_length = 100\<rparr>]], []), v)),
     ds_GetObject = (\<lambda>v k job off. (Inl status404, v)), ds_PutObject = (\<lambda>v k job off b. (Some (IOError ''refused''), v)),
     os_TempFile = (\<lambda>v. (None, v)), os_FileWrite = (\<lambda>v p. ((length p, None), v))\<rparr>"

theorem close_reports_success_after_failed_upload:
  "bw_Close refusing v w = Some (None, v)"
proof -
  have r: "ready_after refusing ''job'' 0 v (concat [[\<lparr>ch_name = ''k'', ch_offset = 0, ch_length = 100\<rparr>]]) v"
    by (rule ready_after.now[where retry = "[]"]) (simp_all add: refusing_def)
  have "bw_Close refusing v w = upload_loop refusing v w ''job'' (Suc 0)" by (simp add: bw_Close_def refusing_def)
  then show ?thesis by (simp add: wait_ends[OF r]) (simp add: uploadbuffer_def refusing_def)
qed

section \<open>Downloads\<close>

text \<open>The chunks of a download in the order of the answers are the file, whatever their offsets are.\<close>

lemma download_chunks_in_order:
  assumes "\<And>v off. ds_GetObject V v key job off = (Inr (body off, None), v)" and "\<And>v d. os_FileWrite V v d = ((length d, None), v)"
  shows "download_chunks V v key job cs f = ((None, f @ concat (map (\<lambda>c. body (ch_offset c)) cs)), v)"
  using assms by (induction cs arbitrary: f) (simp_all add: Let_def)

end
