(* ===== verification/COW_Store.thy ===== *)
theory COW_Store
  imports Memory_Store
begin

text \<open>
  The copy-on-write store over another bendo server, src/store/cow.go. The local store is a record of operations. The other server is
  a function from a URL and the token to a status with a body, or an error of the connection; the JSON decoders are arguments. The lock
  and the table of downloads are in the state: a call that has to wait for another goroutine is the error \<open>Blocked\<close>.
\<close>

record 'v cow_env =
  http_get :: "'v \<Rightarrow> string \<Rightarrow> string \<Rightarrow> (nat \<times> bytes \<times> error option) result \<times> 'v"
  json_stream :: "bytes \<Rightarrow> string list"         \<comment> \<open>the strings of the array up to the first error\<close>
  json_strings :: "bytes \<Rightarrow> string list result"

record ('s, 'v) cow =
  cow_local :: 's
  cow_remote :: 'v
  cow_locked :: bool
  cow_inflight :: "string list"

definition NewCOW :: "'s \<Rightarrow> 'v \<Rightarrow> ('s, 'v) cow" where
  "NewCOW l r = \<lparr>cow_local = l, cow_remote = r, cow_locked = False, cow_inflight = []\<rparr>"

section \<open>The other server\<close>

definition cow_get :: "('v, 'm) cow_env_scheme \<Rightarrow> string \<Rightarrow> 'v \<Rightarrow> string \<Rightarrow> (nat \<times> bytes \<times> error option) result \<times> 'v" where
  "cow_get V token v url = http_get V v url token"

definition remoteList :: "('v, 'm) cow_env_scheme \<Rightarrow> string \<Rightarrow> string \<Rightarrow> 'v \<Rightarrow> string list \<times> 'v" where
  "remoteList V host token v =
     (case cow_get V token v (host @ ''/bundle/list/'') of
        (Inl e, v1) \<Rightarrow> ([], v1)
      | (Inr (status, body, err), v1) \<Rightarrow> (if status \<noteq> 200 then [] else json_stream V body, v1))"

definition remoteListPrefix :: "('v, 'm) cow_env_scheme \<Rightarrow> string \<Rightarrow> string \<Rightarrow> 'v \<Rightarrow> string \<Rightarrow> string list result \<times> 'v" where
  "remoteListPrefix V host token v p =
     (case cow_get V token v (host @ ''/bundle/list/'' @ p) of
        (Inl e, v1) \<Rightarrow> (Inl e, v1)
      | (Inr (status, body, err), v1) \<Rightarrow>
          if status \<noteq> 200 then (Inr [], v1)
          else (case json_strings V body of
                  Inl e \<Rightarrow> if e \<noteq> EOF then (Inl e, v1) else (Inr [], v1)
                | Inr ks \<Rightarrow> (Inr ks, v1)))"

text \<open>With a status other than 200 both results are nil: no reader and no error.\<close>

definition remoteOpen :: "('v, 'm) cow_env_scheme \<Rightarrow> string \<Rightarrow> string \<Rightarrow> 'v \<Rightarrow> string \<Rightarrow> (bytes \<times> error option) option result \<times> 'v" where
  "remoteOpen V host token v key =
     (case cow_get V token v (host @ ''/bundle/open/'' @ key) of
        (Inl e, v1) \<Rightarrow> (Inl e, v1)
      | (Inr (status, body, err), v1) \<Rightarrow> (Inr (if status \<noteq> 200 then None else Some (body, err)), v1))"

section \<open>Listing\<close>

text \<open>The next string comes from the first channel where the schedule says so, as long as both have one.\<close>

fun mergechan :: "bool list \<Rightarrow> string list \<Rightarrow> string list \<Rightarrow> string list \<Rightarrow> string list" where
  "mergechan sch [] [] seen = []"
| "mergechan sch (a # as) [] seen = (if a \<in> set seen then mergechan sch as [] seen else a # mergechan sch as [] (a # seen))"
| "mergechan sch [] (b # bs) seen = (if b \<in> set seen then mergechan sch [] bs seen else b # mergechan sch [] bs (b # seen))"
| "mergechan [] (a # as) (b # bs) seen = (if a \<in> set seen then mergechan [] as (b # bs) seen else a # mergechan [] as (b # bs) (a # seen))"
| "mergechan (True # sch) (a # as) (b # bs) seen =
     (if a \<in> set seen then mergechan sch as (b # bs) seen else a # mergechan sch as (b # bs) (a # seen))"
| "mergechan (False # sch) (a # as) (b # bs) seen =
     (if b \<in> set seen then mergechan sch (a # as) bs seen else b # mergechan sch (a # as) bs (b # seen))"

definition mergelist :: "string list \<Rightarrow> string list \<Rightarrow> string list" where
  "mergelist a b = a @ b"

definition cow_List ::
  "('s, 'w, 'o) store_ops_scheme \<Rightarrow> ('v, 'm) cow_env_scheme \<Rightarrow> string \<Rightarrow> string \<Rightarrow> bool list \<Rightarrow> ('s, 'v) cow \<Rightarrow> string list \<times> ('s, 'v) cow" where
  "cow_List S V host token sch c =
     (let (rs, v1) = remoteList V host token (cow_remote c) in (mergechan sch rs (op_list S (cow_local c)) [], c\<lparr>cow_remote := v1\<rparr>))"

definition cow_ListPrefix ::
  "('s, 'w, 'o) store_ops_scheme \<Rightarrow> ('v, 'm) cow_env_scheme \<Rightarrow> string \<Rightarrow> string \<Rightarrow> ('s, 'v) cow \<Rightarrow> string \<Rightarrow> string list result \<times> ('s, 'v) cow" where
  "cow_ListPrefix S V host token c p =
     (case op_list_prefix S (cow_local c) p of
        Inl e \<Rightarrow> (Inl e, c)
      | Inr loc \<Rightarrow>
          (case remoteListPrefix V host token (cow_remote c) p of
             (Inl e, v1) \<Rightarrow> (Inl e, c\<lparr>cow_remote := v1\<rparr>)
           | (Inr rmt, v1) \<Rightarrow> (Inr (mergelist loc rmt), c\<lparr>cow_remote := v1\<rparr>)))"

section \<open>Reading and writing\<close>

text \<open>The copy into the local store, \<open>io.Copy\<close> with the whole body in one write; the error of \<open>Close\<close> is dropped.\<close>

definition copy_body :: "('s, 'w, 'o) store_ops_scheme \<Rightarrow> 's \<Rightarrow> string \<Rightarrow> bytes \<Rightarrow> error option \<Rightarrow> error option \<times> 's" where
  "copy_body S l key body rerr =
     (case op_create S l key of
        (Inl e, l1) \<Rightarrow> (Some e, l1)
      | (Inr w, l1) \<Rightarrow>
          (let ((n, werr), l2) = op_write S l1 w body;
               (cerr, l3) = op_close S l2 w
           in (if werr \<noteq> None then werr else if n < length body then Some (IOError ''short write'') else rerr, l3)))"

definition copyToLocal ::
  "('s, 'w, 'o) store_ops_scheme \<Rightarrow> ('v, 'm) cow_env_scheme \<Rightarrow> string \<Rightarrow> string \<Rightarrow> ('s, 'v) cow \<Rightarrow> string \<Rightarrow> error option \<times> ('s, 'v) cow" where
  "copyToLocal S V host token c key =
     (case remoteOpen V host token (cow_remote c) key of
        (Inl e, v1) \<Rightarrow> (Some e, c\<lparr>cow_remote := v1\<rparr>)
      | (Inr rc, v1) \<Rightarrow>
          (let c1 = c\<lparr>cow_remote := v1\<rparr> in
           if cow_locked c then (Some Blocked, c1)
           else if key \<in> set (cow_inflight c) then
             (if rc = None then (Some (Panic ''nil pointer dereference''), c1) else (Some Blocked, c1))
           else
             (case rc of
                None \<Rightarrow> (Some (Panic ''nil pointer dereference''), c1\<lparr>cow_locked := True\<rparr>)
              | Some (body, rerr) \<Rightarrow> (let (err, l1) = copy_body S (cow_local c) key body rerr in (err, c1\<lparr>cow_local := l1\<rparr>)))))"

definition cow_Open ::
  "('s, 'w, 'o) store_ops_scheme \<Rightarrow> ('v, 'm) cow_env_scheme \<Rightarrow> string \<Rightarrow> string \<Rightarrow> ('s, 'v) cow \<Rightarrow> string \<Rightarrow> bytes result \<times> ('s, 'v) cow" where
  "cow_Open S V host token c key =
     (case op_open S (cow_local c) key of
        (Inr b, l1) \<Rightarrow> (Inr b, c\<lparr>cow_local := l1\<rparr>)
      | (Inl e, l1) \<Rightarrow>
          (case copyToLocal S V host token (c\<lparr>cow_local := l1\<rparr>) key of
             (Some e, c1) \<Rightarrow> (Inl e, c1)
           | (None, c1) \<Rightarrow> (let (r, l2) = op_open S (cow_local c1) key in (r, c1\<lparr>cow_local := l2\<rparr>))))"

definition cow_Create :: "('s, 'w, 'o) store_ops_scheme \<Rightarrow> ('s, 'v) cow \<Rightarrow> string \<Rightarrow> 'w result \<times> ('s, 'v) cow" where
  "cow_Create S c key = (let (r, l1) = op_create S (cow_local c) key in (r, c\<lparr>cow_local := l1\<rparr>))"

definition cow_Delete :: "('s, 'w, 'o) store_ops_scheme \<Rightarrow> ('s, 'v) cow \<Rightarrow> string \<Rightarrow> error option \<times> ('s, 'v) cow" where
  "cow_Delete S c key = (let (e, l1) = op_delete S (cow_local c) key in (e, c\<lparr>cow_local := l1\<rparr>))"

section \<open>What a client sees\<close>

text \<open>Whatever the schedule, the merged list has every key of the two lists once.\<close>

lemma mergechan_set: "set (mergechan sch as bs seen) = (set as \<union> set bs) - set seen \<and> distinct (mergechan sch as bs seen)"
  by (induction sch as bs seen rule: mergechan.induct) auto

text \<open>The other server keeps these objects: a request for one of them is answered with its content.\<close>

definition serves :: "('v, 'm) cow_env_scheme \<Rightarrow> string \<Rightarrow> string \<Rightarrow> (string \<Rightarrow> bytes option) \<Rightarrow> bool" where
  "serves V host token rem \<longleftrightarrow> (\<forall>v key b. rem key = Some b \<longrightarrow> fst (http_get V v (host @ ''/bundle/open/'' @ key) token) = Inr (200, b, None))"

context store
begin

lemma copy_body_ok:
  assumes "sinv l" "okkey k" "cont l k = None" "\<forall>w b. wst l w \<noteq> Some (k, b)"
  obtains l1 where "copy_body S l k b rerr = (rerr, l1)" "sinv l1" "cont l1 = (cont l)(k \<mapsto> b)" "wst l1 = wst l"
proof -
  obtain w l1 where 1: "op_create S l k = (Inr w, l1)" "sinv l1" "cont l1 = cont l" "wst l w = None" "wst l1 = (wst l)(w \<mapsto> (k, []))"
    using create_ok[OF assms] by blast
  then obtain l2 where 2: "op_write S l1 w b = ((length b, None), l2)" "sinv l2" "cont l2 = cont l" "wst l2 = (wst l)(w \<mapsto> (k, b))"
    using write_ok[of l1 w k "[]" b] by auto
  then obtain l3 where 3: "op_close S l2 w = (None, l3)" "sinv l3" "cont l3 = (cont l)(k \<mapsto> b)" "wst l3 = (wst l)(w := None)"
    using close_ok[of l2 w k b] assms(3) by auto
  have "wst l3 = wst l" using 3(4) 1(4) by auto
  then show thesis using that 1 2 3 by (simp add: copy_body_def)
qed

text \<open>Reading a key gives the local object, or else the one of the other server, which is then local too.\<close>

lemma cow_open_ok:
  assumes inv: "sinv (cow_local c)" and k: "okkey k" and un: "\<forall>w b. wst (cow_local c) w \<noteq> Some (k, b)"
    and idle: "\<not> cow_locked c" "cow_inflight c = []" and sv: "serves V host token rem"
    and b: "(case cont (cow_local c) k of Some x \<Rightarrow> Some x | None \<Rightarrow> rem k) = Some b"
  shows "\<exists>c1. cow_Open S V host token c k = (Inr b, c1) \<and> sinv (cow_local c1) \<and> cont (cow_local c1) = (cont (cow_local c))(k \<mapsto> b) \<and>
    wst (cow_local c1) = wst (cow_local c) \<and> \<not> cow_locked c1 \<and> cow_inflight c1 = []"
proof (cases "cont (cow_local c) k")
  case (Some x)
  then have x: "cont (cow_local c) k = Some b" using b by simp
  obtain l1 where l1: "op_open S (cow_local c) k = (Inr b, l1)" "sinv l1" "cont l1 = cont (cow_local c)" "wst l1 = wst (cow_local c)"
    using open_hit[OF inv k x] by blast
  have same: "(cont (cow_local c))(k \<mapsto> b) = cont l1" unfolding l1(3) using x by (rule fun_upd_idem)
  show ?thesis
  proof (intro exI conjI)
    show "cow_Open S V host token c k = (Inr b, c\<lparr>cow_local := l1\<rparr>)" by (simp add: cow_Open_def l1(1))
    show "cont (cow_local (c\<lparr>cow_local := l1\<rparr>)) = (cont (cow_local c))(k \<mapsto> b)" unfolding same by simp
  qed (use l1(2,4) idle in simp_all)
next
  case None
  then have rem: "rem k = Some b" using b by simp
  obtain e l1 where o1: "op_open S (cow_local c) k = (Inl e, l1)" "sinv l1" "cont l1 = cont (cow_local c)" "wst l1 = wst (cow_local c)"
    using open_miss[OF inv k None] by blast
  have p: "cont l1 k = None" "\<forall>w b. wst l1 w \<noteq> Some (k, b)" using None un o1(3,4) by simp_all
  obtain l2 where l2: "copy_body S l1 k b None = (None, l2)" "sinv l2" "cont l2 = (cont l1)(k \<mapsto> b)" "wst l2 = wst l1"
    using copy_body_ok[OF o1(2) k p, of b None] by metis
  obtain v1 where g: "http_get V (cow_remote c) (host @ ''/bundle/open/'' @ k) token = (Inr (200, b, None), v1)"
  proof -
    have "fst (http_get V (cow_remote c) (host @ ''/bundle/open/'' @ k) token) = Inr (200, b, None)" using sv rem unfolding serves_def by blast
    then show thesis by (intro that[of "snd (http_get V (cow_remote c) (host @ ''/bundle/open/'' @ k) token)"]) (simp add: prod_eq_iff)
  qed
  have cp: "copyToLocal S V host token (c\<lparr>cow_local := l1\<rparr>) k = (None, c\<lparr>cow_local := l2, cow_remote := v1\<rparr>)"
    using g l2(1) idle by (simp add: copyToLocal_def remoteOpen_def cow_get_def)
  obtain l3 where "op_open S l2 k = (Inr b, l3)" "sinv l3" "cont l3 = cont l2" "wst l3 = wst l2"
    using open_hit[OF l2(2) k, of b] l2(3) by auto
  then show ?thesis using o1 l2 cp idle by (auto simp: cow_Open_def)
qed

end

text \<open>A request for a key that neither store has panics while it holds the lock, when the answer is 404; every later copy then waits forever.\<close>

lemma missing_key_keeps_lock:
  assumes "fst (op_open S (cow_local c) k) = Inl e" and "\<not> cow_locked c" and "cow_inflight c = []"
    and "\<And>v url. http_get V v url token = (Inr (404, [], None), v)"
  shows "fst (cow_Open S V host token c k) = Inl (Panic ''nil pointer dereference'') \<and>
    fst (copyToLocal S V host token (snd (cow_Open S V host token c k)) k') = Some Blocked"
proof -
  obtain l1 where o: "op_open S (cow_local c) k = (Inl e, l1)" using assms(1) by (metis prod.collapse)
  let ?c = "c\<lparr>cow_local := l1\<rparr>"
  have cp: "copyToLocal S V host token ?c k = (Some (Panic ''nil pointer dereference''), ?c\<lparr>cow_remote := cow_remote c, cow_locked := True\<rparr>)"
    using assms(2-4) by (simp add: copyToLocal_def remoteOpen_def cow_get_def)
  show ?thesis using o cp assms(4) by (simp add: cow_Open_def copyToLocal_def remoteOpen_def cow_get_def)
qed

text \<open>A download that breaks off is kept: the part that arrived is then the local object, which later calls of \<open>Open\<close> give.\<close>

lemma broken_download_is_kept:
  assumes "mem_inv (cow_local c)" and "mem_cont (cow_local c) k = None" and "\<forall>w b. mem_wst (cow_local c) w \<noteq> Some (k, b)"
    and "\<not> cow_locked c" and "cow_inflight c = []"
    and "http_get V (cow_remote c) (host @ ''/bundle/open/'' @ k) token = (Inr (200, part, Some e), v1)"
  shows "\<exists>c1. copyToLocal mem_ops V host token c k = (Some e, c1) \<and> mem_cont (cow_local c1) k = Some part"
proof -
  obtain l1 where "copy_body mem_ops (cow_local c) k part (Some e) = (Some e, l1)" "mem_cont l1 = (mem_cont (cow_local c))(k \<mapsto> part)"
    using mem.copy_body_ok[OF assms(1) TrueI assms(2,3), of part "Some e"] by metis
  then show ?thesis using assms(4-6) by (simp add: copyToLocal_def remoteOpen_def cow_get_def)
qed

end
