(* ===== verification/Rate_Counter.thy ===== *)
theory Rate_Counter
  imports Go_Lib "HOL-Library.Word"
begin

text \<open>
  The rate counter, src/util/rate_counter.go. Goroutines read through readers that share one counter; a background goroutine adds
  credits at every tick of a clock and gives a signal, on a channel without a buffer, while there are credits. The model is a step
  relation over the goroutines: a step of the background goroutine is its test of the balance or one case of its \<open>select\<close>, and a
  step of a reader is the call, the signal or the end of a read. The balance is a signed 64-bit word. The rate, a floating point number,
  enters as the number of credits of one interval. The total that was read and the number of ticks are kept for the statements only.
\<close>

datatype adder_phase = Test | Select bool | Exited

datatype read_phase = Idle | Waiting nat | Reading nat

record rate_counter =
  rc_credits :: "64 word"
  rc_adder :: adder_phase
  rc_stop :: bool        \<comment> \<open>the channel stop is closed\<close>
  rc_closed :: bool      \<comment> \<open>the channel c is closed\<close>
  rc_readers :: "read_phase list"
  rc_total :: nat
  rc_ticks :: nat

definition NewRateCounter :: "64 word \<Rightarrow> nat \<Rightarrow> rate_counter" where
  "NewRateCounter amount n = \<lparr>rc_credits = amount, rc_adder = Test, rc_stop = False, rc_closed = False,
     rc_readers = replicate n Idle, rc_total = 0, rc_ticks = 0\<rparr>"

definition rc_Use :: "64 word \<Rightarrow> rate_counter \<Rightarrow> rate_counter" where
  "rc_Use n r = r\<lparr>rc_credits := rc_credits r - n\<rparr>"

definition rc_Stop :: "rate_counter \<Rightarrow> rate_counter result" where
  "rc_Stop r = (if rc_stop r then Inl (Panic ''close of closed channel'') else Inr (r\<lparr>rc_stop := True\<rparr>))"

definition set_reader :: "nat \<Rightarrow> read_phase \<Rightarrow> rate_counter \<Rightarrow> rate_counter" where
  "set_reader i p r = r\<lparr>rc_readers := (rc_readers r)[i := p]\<rparr>"

text \<open>The background goroutine \<open>adder\<close>.\<close>

definition adder_test :: "rate_counter \<Rightarrow> rate_counter" where
  "adder_test r = r\<lparr>rc_adder := Select (0 <s rc_credits r)\<rparr>"

definition adder_tick :: "64 word \<Rightarrow> rate_counter \<Rightarrow> rate_counter" where
  "adder_tick amount r = (rc_Use (- amount) r)\<lparr>rc_adder := Test, rc_ticks := rc_ticks r + 1\<rparr>"

definition adder_stop :: "rate_counter \<Rightarrow> rate_counter" where
  "adder_stop r = r\<lparr>rc_closed := True, rc_adder := Exited\<rparr>"

text \<open>\<open>rateReader.Read\<close> of \<open>n\<close> bytes: it waits for the signal, reads and accounts for what it read.\<close>

definition read_signal :: "nat \<Rightarrow> nat \<Rightarrow> rate_counter \<Rightarrow> rate_counter" where
  "read_signal i n r = (set_reader i (Reading n) r)\<lparr>rc_adder := Test\<rparr>"

definition read_end :: "nat \<Rightarrow> nat \<Rightarrow> rate_counter \<Rightarrow> rate_counter" where
  "read_end i m r = (rc_Use (of_nat m) (set_reader i Idle r))\<lparr>rc_total := rc_total r + m\<rparr>"

inductive rate_step :: "64 word \<Rightarrow> nat \<Rightarrow> rate_counter \<Rightarrow> rate_counter \<Rightarrow> bool" for amount B where
  test: "rc_adder r = Test \<Longrightarrow> rate_step amount B r (adder_test r)"
| tick: "rc_adder r = Select g \<Longrightarrow> rate_step amount B r (adder_tick amount r)"
| stopped: "rc_adder r = Select g \<Longrightarrow> rc_stop r \<Longrightarrow> rate_step amount B r (adder_stop r)"
| stop: "rc_Stop r = Inr r' \<Longrightarrow> rate_step amount B r r'"
| call: "i < length (rc_readers r) \<Longrightarrow> rc_readers r ! i = Idle \<Longrightarrow> n \<le> B \<Longrightarrow> rate_step amount B r (set_reader i (Waiting n) r)"
| signal: "i < length (rc_readers r) \<Longrightarrow> rc_readers r ! i = Waiting n \<Longrightarrow> rc_adder r = Select True \<Longrightarrow> rate_step amount B r (read_signal i n r)"
| fail: "i < length (rc_readers r) \<Longrightarrow> rc_readers r ! i = Waiting n \<Longrightarrow> rc_closed r \<Longrightarrow> rate_step amount B r (set_reader i Idle r)"
| finish: "i < length (rc_readers r) \<Longrightarrow> rc_readers r ! i = Reading n \<Longrightarrow> m \<le> n \<Longrightarrow> rate_step amount B r (read_end i m r)"

inductive rate_reach :: "64 word \<Rightarrow> nat \<Rightarrow> nat \<Rightarrow> rate_counter \<Rightarrow> bool" for amount n B where
  start: "rate_reach amount n B (NewRateCounter amount n)"
| more: "rate_reach amount n B r \<Longrightarrow> rate_step amount B r r' \<Longrightarrow> rate_reach amount n B r'"

inductive_cases rate_stepE: "rate_step amount B r r'"

section \<open>The rate\<close>

definition inflight :: "rate_counter \<Rightarrow> nat" where
  "inflight r = length (filter (\<lambda>p. \<exists>n. p = Reading n) (rc_readers r))"

text \<open>How many more reads can begin or end before the balance is tested again.\<close>

definition pending :: "rate_counter \<Rightarrow> nat" where
  "pending r = inflight r + (if rc_adder r = Select True then 1 else 0)"

text \<open>While nothing overflows the balance is what was added less what was used, and it is bounded from below.\<close>

definition rate_inv :: "int \<Rightarrow> nat \<Rightarrow> nat \<Rightarrow> rate_counter \<Rightarrow> bool" where
  "rate_inv a n B r \<longleftrightarrow> length (rc_readers r) = n \<and> (\<forall>k. Waiting k \<in> set (rc_readers r) \<or> Reading k \<in> set (rc_readers r) \<longrightarrow> k \<le> B) \<and>
     (a * (1 + int (rc_ticks r)) \<le> 2 ^ 62 \<longrightarrow>
       sint (rc_credits r) = a * (1 + int (rc_ticks r)) - int (rc_total r) \<and>
       - ((int n + 1) * int B) \<le> sint (rc_credits r) - int B * int (pending r))"

lemma filter_update:
  "i < length xs \<Longrightarrow> length (filter P (xs[i := y])) + (if P (xs ! i) then 1 else 0) = length (filter P xs) + (if P y then 1 else 0)"
proof (induction xs arbitrary: i)
  case (Cons x xs)
  then show ?case by (cases i) auto
qed simp

lemma inflight_set:
  assumes "i < length (rc_readers r)"
  shows "inflight (set_reader i p r) + (if \<exists>n. rc_readers r ! i = Reading n then 1 else 0) = inflight r + (if \<exists>n. p = Reading n then 1 else 0)"
  using filter_update[OF assms, of "\<lambda>p. \<exists>n. p = Reading n" p] by (simp add: inflight_def set_reader_def)

lemma inflight_le: "inflight r \<le> length (rc_readers r)"
  by (simp add: inflight_def)

lemma sint_add: "- (2 ^ 63) \<le> sint x + sint y \<Longrightarrow> sint x + sint y < 2 ^ 63 \<Longrightarrow> sint (x + y :: 64 word) = sint x + sint y"
  by (simp add: sint_word_ariths signed_take_bit_int_eq_self)

lemma sint_sub: "- (2 ^ 63) \<le> sint x - sint y \<Longrightarrow> sint x - sint y < 2 ^ 63 \<Longrightarrow> sint (x - y :: 64 word) = sint x - sint y"
  by (simp add: sint_word_ariths signed_take_bit_int_eq_self)

lemma sint_nat: "int m < 2 ^ 63 \<Longrightarrow> sint (of_nat m :: 64 word) = int m"
  by (simp add: signed_of_nat signed_take_bit_int_eq_self)

lemma set_readers_bound:
  assumes "\<forall>k. Waiting k \<in> set xs \<or> Reading k \<in> set xs \<longrightarrow> k \<le> B" and "\<forall>k. p = Waiting k \<or> p = Reading k \<longrightarrow> k \<le> (B :: nat)"
  shows "\<forall>k. Waiting k \<in> set (xs[i := p]) \<or> Reading k \<in> set (xs[i := p]) \<longrightarrow> k \<le> B"
  using assms set_update_subset_insert[of xs i p] by blast

lemma rate_start_inv:
  assumes "0 \<le> sint amount" and "sint amount \<le> 2 ^ 62"
  shows "rate_inv (sint amount) n B (NewRateCounter amount n)"
proof -
  have "0 \<le> (int n + 1) * int B" by simp
  then have "- ((int n + 1) * int B) \<le> sint amount" using assms(1) by linarith
  then show ?thesis using assms by (simp add: rate_inv_def NewRateCounter_def pending_def inflight_def)
qed

lemma pow63: "(2::int) ^ 63 = 2 * 2 ^ 62" "(0::int) < 2 ^ 62"
  by simp_all

text \<open>Steps that leave the balance and the signal alone.\<close>

lemma quiet_inv:
  assumes "rate_inv a n B r" and "rc_credits r' = rc_credits r" "rc_ticks r' = rc_ticks r" "rc_total r' = rc_total r"
    and "length (rc_readers r') = length (rc_readers r)" "pending r' \<le> pending r"
    and "\<forall>k. Waiting k \<in> set (rc_readers r') \<or> Reading k \<in> set (rc_readers r') \<longrightarrow> k \<le> B"
  shows "rate_inv a n B r'"
proof -
  have "int B * int (pending r') \<le> int B * int (pending r)" using assms(6) by (simp add: mult_left_mono)
  then show ?thesis using assms unfolding rate_inv_def by auto
qed

lemma reader_inv:
  assumes "rate_inv a n B r" and "rc_credits r' = rc_credits r" "rc_ticks r' = rc_ticks r" "rc_total r' = rc_total r"
    and "rc_readers r' = (rc_readers r)[i := p]" "\<forall>k. p = Waiting k \<or> p = Reading k \<longrightarrow> k \<le> B" "pending r' \<le> pending r"
  shows "rate_inv a n B r'"
proof (rule quiet_inv[OF assms(1-4) _ assms(7)])
  show "\<forall>k. Waiting k \<in> set (rc_readers r') \<or> Reading k \<in> set (rc_readers r') \<longrightarrow> k \<le> B"
    unfolding assms(5) by (rule set_readers_bound[OF _ assms(6)]) (use assms(1) in \<open>simp add: rate_inv_def\<close>)
qed (simp add: assms(5))

lemma test_inv:
  assumes inv: "rate_inv a n B r" and ph: "rc_adder r = Test"
  shows "rate_inv a n B (adder_test r)"
proof -
  have p: "pending r = inflight r" by (simp add: pending_def ph)
  have q: "pending (adder_test r) = inflight r + (if 0 <s rc_credits r then 1 else 0)" by (simp add: pending_def adder_test_def inflight_def)
  have "inflight r + 1 \<le> n + 1" using inflight_le[of r] inv by (simp add: rate_inv_def)
  then have "int B * int (inflight r + 1) \<le> int B * (int n + 1)" by (intro mult_left_mono) auto
  then have pos: "- ((int n + 1) * int B) \<le> sint (rc_credits r) - int B * int (pending (adder_test r))" if "0 <s rc_credits r"
    using that unfolding q by (simp add: word_sless_alt algebra_simps)
  have f: "rc_credits (adder_test r) = rc_credits r" "rc_ticks (adder_test r) = rc_ticks r" "rc_total (adder_test r) = rc_total r"
    "rc_readers (adder_test r) = rc_readers r" by (simp_all add: adder_test_def)
  show ?thesis
  proof (cases "0 <s rc_credits r")
    case True
    then show ?thesis using inv pos unfolding rate_inv_def f by blast
  next
    case False
    then have eq: "pending (adder_test r) = pending r" using p q by simp
    show ?thesis using inv unfolding rate_inv_def f eq .
  qed
qed

lemma tick_inv:
  assumes inv: "rate_inv (sint amount) n B r" and a: "0 \<le> sint amount" and B: "(int n + 1) * int B \<le> 2 ^ 62"
  shows "rate_inv (sint amount) n B (adder_tick amount r)"
proof -
  let ?r = "adder_tick amount r" and ?a = "sint amount"
  have f: "rc_credits ?r = rc_credits r + amount" "rc_ticks ?r = rc_ticks r + 1" "rc_total ?r = rc_total r" "rc_readers ?r = rc_readers r"
    by (simp_all add: adder_tick_def rc_Use_def)
  have p: "pending ?r \<le> pending r" by (simp add: pending_def adder_tick_def rc_Use_def inflight_def)
  have pB: "int B * int (pending ?r) \<le> int B * int (pending r)" using p by (simp add: mult_left_mono)
  have "sint (rc_credits ?r) = ?a * (1 + int (rc_ticks ?r)) - int (rc_total ?r) \<and>
      - ((int n + 1) * int B) \<le> sint (rc_credits ?r) - int B * int (pending ?r)" if small: "?a * (1 + int (rc_ticks ?r)) \<le> 2 ^ 62"
  proof -
    have e: "?a * (1 + int (rc_ticks ?r)) = ?a * (1 + int (rc_ticks r)) + ?a" by (simp add: f algebra_simps)
    have c: "sint (rc_credits r) = ?a * (1 + int (rc_ticks r)) - int (rc_total r)" "- ((int n + 1) * int B) \<le> sint (rc_credits r) - int B * int (pending r)"
      using inv small a e unfolding rate_inv_def by auto
    have nn: "0 \<le> int B * int (pending r)" by simp
    have "sint (rc_credits ?r) = sint (rc_credits r) + ?a" unfolding f
      using c small e a B nn pow63 by (intro sint_add) linarith+
    then show ?thesis using c e a pB f by linarith
  qed
  then show ?thesis using inv unfolding rate_inv_def f by blast
qed

lemma finish_inv:
  assumes inv: "rate_inv a n B r" and a: "0 \<le> a" and B: "(int n + 1) * int B \<le> 2 ^ 62"
    and i: "i < length (rc_readers r)" "rc_readers r ! i = Reading k" "m \<le> k"
  shows "rate_inv a n B (read_end i m r)"
proof -
  let ?r = "read_end i m r"
  have f: "rc_credits ?r = rc_credits r - of_nat m" "rc_ticks ?r = rc_ticks r" "rc_total ?r = rc_total r + m" "rc_readers ?r = (rc_readers r)[i := Idle]"
      "rc_adder ?r = rc_adder r" by (simp_all add: read_end_def rc_Use_def set_reader_def)
  have "inflight ?r = inflight (set_reader i Idle r)" by (simp add: inflight_def f set_reader_def)
  then have "inflight ?r + 1 = inflight r" using inflight_set[OF i(1), of Idle] i(2) by simp
  then have p: "pending r = pending ?r + 1" by (simp add: pending_def f)
  have "Reading k \<in> set (rc_readers r)" using i nth_mem by metis
  then have m: "m \<le> B" using inv i(3) unfolding rate_inv_def by (meson order_trans)
  have "(int n + 1) * int B = int n * int B + int B" by (simp add: algebra_simps)
  then have mB: "int m < 2 ^ 63" using m B pow63 by (metis (no_types, opaque_lifting) add_increasing dual_order.strict_trans2 mult_nonneg_nonneg of_nat_0_le_iff of_nat_mono order_trans le_add_same_cancel2 less_add_same_cancel1 mult_2)
  have sm: "sint (of_nat m :: 64 word) = int m" by (rule sint_nat[OF mB])
  have "sint (rc_credits ?r) = a * (1 + int (rc_ticks ?r)) - int (rc_total ?r) \<and>
      - ((int n + 1) * int B) \<le> sint (rc_credits ?r) - int B * int (pending ?r)" if small: "a * (1 + int (rc_ticks ?r)) \<le> 2 ^ 62"
  proof -
    have c: "sint (rc_credits r) = a * (1 + int (rc_ticks r)) - int (rc_total r)" "- ((int n + 1) * int B) \<le> sint (rc_credits r) - int B * int (pending r)"
      using inv small f(2) unfolding rate_inv_def by auto
    have e: "int B * int (pending r) = int B * int (pending ?r) + int B" by (simp add: p algebra_simps)
    have nn: "0 \<le> int B * int (pending ?r)" "int m \<le> int B" using m by simp_all
    have small': "a * (1 + int (rc_ticks r)) \<le> 2 ^ 62" using small unfolding f(2) .
    have "sint (rc_credits ?r) = sint (rc_credits r) - int m" unfolding f(1) sm[symmetric]
      using c small' e nn B pow63 sm by (intro sint_sub) linarith+
    then show ?thesis using c e m f(2,3) by simp
  qed
  moreover have "length (rc_readers ?r) = n" using inv by (simp add: rate_inv_def f)
  moreover have "\<forall>k. Waiting k \<in> set (rc_readers ?r) \<or> Reading k \<in> set (rc_readers ?r) \<longrightarrow> k \<le> B"
    unfolding f using inv by (intro set_readers_bound) (auto simp: rate_inv_def)
  ultimately show ?thesis unfolding rate_inv_def by blast
qed

lemma step_inv:
  assumes st: "rate_step amount B r r'" and inv: "rate_inv (sint amount) n B r" and a: "0 \<le> sint amount" and B: "(int n + 1) * int B \<le> 2 ^ 62"
  shows "rate_inv (sint amount) n B r'"
  using st
proof (cases rule: rate_step.cases)
  case test
  then show ?thesis using test_inv[OF inv] by simp
next
  case (tick g)
  then show ?thesis using tick_inv[OF inv a B] by simp
next
  case (stopped g)
  show ?thesis by (rule quiet_inv[OF inv]) (use inv stopped in \<open>auto simp: adder_stop_def pending_def inflight_def rate_inv_def\<close>)
next
  case stop
  show ?thesis by (rule quiet_inv[OF inv]) (use inv stop in \<open>auto simp: rc_Stop_def pending_def inflight_def rate_inv_def split: if_splits\<close>)
next
  case (call i k)
  have "inflight r' = inflight r" using inflight_set[OF call(2), of "Waiting k"] call by simp
  moreover have "rc_adder r' = rc_adder r" "rc_readers r' = (rc_readers r)[i := Waiting k]" "rc_credits r' = rc_credits r" "rc_ticks r' = rc_ticks r" "rc_total r' = rc_total r"
    using call(1) by (simp_all add: set_reader_def)
  ultimately show ?thesis using call(4) by (intro reader_inv[OF inv]) (auto simp: pending_def)
next
  case (signal i k)
  have "inflight r' = inflight (set_reader i (Reading k) r)" using signal(1) by (simp add: read_signal_def inflight_def set_reader_def)
  then have "inflight r' = inflight r + 1" using inflight_set[OF signal(2), of "Reading k"] signal(3) by simp
  moreover have "rc_adder r' = Test" "rc_readers r' = (rc_readers r)[i := Reading k]" "rc_credits r' = rc_credits r" "rc_ticks r' = rc_ticks r" "rc_total r' = rc_total r"
    using signal(1) by (simp_all add: read_signal_def set_reader_def)
  moreover have "k \<le> B" using inv signal(2,3) unfolding rate_inv_def by (metis nth_mem)
  ultimately show ?thesis using signal(4) by (intro reader_inv[OF inv]) (auto simp: pending_def)
next
  case (fail i k)
  have "inflight r' = inflight r" using inflight_set[OF fail(2), of Idle] fail by simp
  moreover have "rc_adder r' = rc_adder r" "rc_readers r' = (rc_readers r)[i := Idle]" "rc_credits r' = rc_credits r" "rc_ticks r' = rc_ticks r" "rc_total r' = rc_total r"
    using fail(1) by (simp_all add: set_reader_def)
  ultimately show ?thesis by (intro reader_inv[OF inv]) (auto simp: pending_def)
next
  case (finish i k m)
  then show ?thesis using finish_inv[OF inv a B finish(2,3,4)] by simp
qed

lemma rate_reach_inv:
  assumes "rate_reach amount n B r" and "0 \<le> sint amount" and "sint amount \<le> 2 ^ 62" and "(int n + 1) * int B \<le> 2 ^ 62"
  shows "rate_inv (sint amount) n B r"
  using assms(1)
proof (induction rule: rate_reach.induct)
  case start
  show ?case by (rule rate_start_inv[OF assms(2,3)])
next
  case (more r r')
  then show ?case using step_inv assms(2,4) by blast
qed

text \<open>C40. The counter keeps the rate. Whatever the order of the steps of any number \<open>n\<close> of readers, with buffers of at most \<open>B\<close> bytes, and of
  the background goroutine, the bytes read are at most the credits of the intervals that have begun plus those of \<open>n + 1\<close> reads; while
  these numbers are within 62 bits the balance, a 64-bit word, never wraps around.\<close>

theorem rate_bound:
  assumes "rate_reach amount n B r" and "0 \<le> sint amount" and "sint amount \<le> 2 ^ 62" and "(int n + 1) * int B \<le> 2 ^ 62"
    and "sint amount * (1 + int (rc_ticks r)) \<le> 2 ^ 62"
  shows "int (rc_total r) \<le> sint amount * (1 + int (rc_ticks r)) + (int n + 1) * int B \<and>
    sint (rc_credits r) = sint amount * (1 + int (rc_ticks r)) - int (rc_total r)"
proof -
  have "sint (rc_credits r) = sint amount * (1 + int (rc_ticks r)) - int (rc_total r)"
      "- ((int n + 1) * int B) \<le> sint (rc_credits r) - int B * int (pending r)"
    using rate_reach_inv[OF assms(1-4)] assms(5) unfolding rate_inv_def by blast+
  moreover have "0 \<le> int B * int (pending r)" by simp
  ultimately show ?thesis by linarith
qed

text \<open>A run with one reader: a signal, and a read of 5 bytes with 3 credits.\<close>

definition rate_run :: rate_counter where
  "rate_run = read_end 0 5 (read_signal 0 5 (adder_test (set_reader 0 (Waiting 5) (NewRateCounter 3 1))))"

lemma rate_run_reach: "rate_reach 3 1 5 rate_run"
proof -
  let ?r0 = "NewRateCounter 3 1" and ?r1 = "set_reader 0 (Waiting 5) (NewRateCounter 3 1)"
  have 1: "rate_reach 3 1 5 ?r1"
    by (rule rate_reach.more[OF rate_reach.start rate_step.call]) (simp_all add: NewRateCounter_def)
  have 2: "rate_reach 3 1 5 (adder_test ?r1)"
    by (rule rate_reach.more[OF 1 rate_step.test]) (simp add: NewRateCounter_def set_reader_def)
  have 3: "rate_reach 3 1 5 (read_signal 0 5 (adder_test ?r1))"
    by (rule rate_reach.more[OF 2 rate_step.signal]) (simp_all add: NewRateCounter_def set_reader_def adder_test_def word_sless_alt)
  show ?thesis unfolding rate_run_def
    by (rule rate_reach.more[OF 3 rate_step.finish[where n = 5]]) (simp_all add: NewRateCounter_def set_reader_def adder_test_def read_signal_def)
qed

theorem rate_bound_witness:
  "rate_reach 3 1 5 rate_run \<and> rc_total rate_run = 5 \<and> sint (rc_credits rate_run) = 3 - 5"
proof -
  have t: "rc_total rate_run = 5" "rc_ticks rate_run = 0"
    by (simp_all add: rate_run_def read_end_def rc_Use_def set_reader_def read_signal_def adder_test_def NewRateCounter_def)
  have "sint (rc_credits rate_run) = sint (3 :: 64 word) * (1 + int (rc_ticks rate_run)) - int (rc_total rate_run)"
    using rate_bound[OF rate_run_reach] t by simp
  then show ?thesis using rate_run_reach t by simp
qed

end
