(* ===== verification/Client_Api.thy ===== *)
theory Client_Api
  imports HTTP Transaction
begin

text \<open>
  The client library, src/bclientapi: requests to a server, the upload of a file in chunks, and waiting for a transaction.

  The environment \<open>E\<close> has what is not in the repository: how \<open>http.Client\<close> carries a request to the server and what comes back, on a state
  \<open>'v\<close> of the world beyond the connection, and the package jason, which decodes JSON and looks up fields. The source of an upload is an
  \<open>io.ReadSeeker\<close>, a record of two operations. The pool of buffers only saves allocations and the timeout of the HTTP client is an error
  of the environment; both are left out, and so is what is printed. A loop over a reader that never ends is the result \<open>None\<close>.
\<close>

section \<open>Package encoding/base64\<close>

definition b64_char :: "nat \<Rightarrow> char" where
  "b64_char n = (if n < 26 then char_of (65 + n) else if n < 52 then char_of (71 + n) else if n < 62 then char_of (n - 4)
     else if n = 62 then CHR ''+'' else CHR ''/'')"

definition b64_val :: "char \<Rightarrow> nat option" where
  "b64_val c =
     (let n = of_char c in
      if 65 \<le> n \<and> n \<le> 90 then Some (n - 65) else if 97 \<le> n \<and> n \<le> 122 then Some (n - 71) else if 48 \<le> n \<and> n \<le> 57 then Some (n + 4)
      else if c = CHR ''+'' then Some 62 else if c = CHR ''/'' then Some 63 else None)"

text \<open>\<open>StdEncoding.EncodeToString\<close>, which encoding/json uses for a slice of bytes.\<close>

fun b64_encode :: "bytes \<Rightarrow> string" where
  "b64_encode [] = []"
| "b64_encode [a] = [b64_char (of_char a div 4), b64_char (of_char a mod 4 * 16), CHR ''='', CHR ''='']"
| "b64_encode [a, b] = [b64_char (of_char a div 4), b64_char (of_char a mod 4 * 16 + of_char b div 16), b64_char (of_char b mod 16 * 4), CHR ''='']"
| "b64_encode (a # b # c # r) =
     b64_char (of_char a div 4) # b64_char (of_char a mod 4 * 16 + of_char b div 16) #
     b64_char (of_char b mod 16 * 4 + of_char c div 64) # b64_char (of_char c mod 64) # b64_encode r"

text \<open>\<open>StdEncoding.DecodeString\<close>: the bytes that were decoded, and whether there was an error. Line ends are skipped; four characters make
  three bytes, less for the padding, after which nothing may follow.\<close>

fun b64_quanta :: "string \<Rightarrow> bytes \<times> bool" where
  "b64_quanta [] = ([], False)"
| "b64_quanta (a # b # c # d # r) =
     (case (b64_val a, b64_val b) of
        (Some x, Some y) \<Rightarrow>
          (case b64_val c of
             Some z \<Rightarrow>
               (case b64_val d of
                  Some u \<Rightarrow>
                    (let (bs, err) = b64_quanta r
                     in (char_of (x * 4 + y div 16) # char_of (y mod 16 * 16 + z div 4) # char_of (z mod 4 * 64 + u) # bs, err))
                | None \<Rightarrow> if d = CHR ''='' then ([char_of (x * 4 + y div 16), char_of (y mod 16 * 16 + z div 4)], r \<noteq> []) else ([], True))
           | None \<Rightarrow> if c = CHR ''='' \<and> d = CHR ''='' then ([char_of (x * 4 + y div 16)], r \<noteq> []) else ([], True))
      | _ \<Rightarrow> ([], True))"
| "b64_quanta _ = ([], True)"

definition b64_decode :: "string \<Rightarrow> bytes \<times> bool" where
  "b64_decode s = b64_quanta (filter (\<lambda>c. of_char c \<noteq> (10 :: nat) \<and> of_char c \<noteq> (13 :: nat)) s)"

section \<open>The environment\<close>

record client_request =
  cq_Method :: string
  cq_URL :: string
  cq_Header :: "(string, string) gomap"
  cq_Body :: bytes

text \<open>The body of a response: the blocks that reading it delivers and the error it ends with.\<close>

record client_response =
  cp_Status :: int
  cp_Header :: "(string, string) gomap"
  cp_Body :: "bytes list \<times> error option"

text \<open>The methods of a \<open>jason.Object\<close>. \<open>jo_ints\<close> is \<open>Map\<close> of the object, with \<open>Int64\<close> of every value; the code calls it also when there
  is no object, after an error of \<open>GetObject\<close>, and it may panic then.\<close>

record 'j jason =
  jo_int64 :: "'j \<Rightarrow> string \<Rightarrow> int result"
  jo_string :: "'j \<Rightarrow> string \<Rightarrow> string result"
  jo_strings :: "'j \<Rightarrow> string \<Rightarrow> string list result"
  jo_objects :: "'j \<Rightarrow> string \<Rightarrow> 'j list result"
  jo_object :: "'j \<Rightarrow> string \<Rightarrow> 'j result"
  jo_ints :: "'j option \<Rightarrow> (string, int result) gomap result"

record ('v, 'j) client_env =
  ce_parse :: "string \<Rightarrow> error option"      \<comment> \<open>the error of \<open>http.NewRequest\<close> for a URL\<close>
  ce_do :: "'v \<Rightarrow> client_request \<Rightarrow> client_response result \<times> 'v"
  ce_json :: "bytes list \<times> error option \<Rightarrow> 'j result"
  ce_jason :: "'j jason"

text \<open>The value of a pair of a value and an error that is dropped.\<close>

definition or_zero :: "'a \<Rightarrow> 'a result \<Rightarrow> 'a" where
  "or_zero z r = (case r of Inl e \<Rightarrow> z | Inr x \<Rightarrow> x)"

record conn =
  co_HostURL :: string
  co_ChunkSize :: int
  co_Token :: string

record file_info =
  fi_Size :: int
  fi_MD5 :: bytes
  fi_Mimetype :: string

definition ErrItemNotFound :: error where
  "ErrItemNotFound = ErrMessage ''Item Not Found in Bendo''"

definition ErrNotAuthorized :: error where
  "ErrNotAuthorized = ErrMessage ''Access Denied''"

section \<open>Requests\<close>

definition cq_set :: "string \<Rightarrow> string \<Rightarrow> client_request \<Rightarrow> client_request" where
  "cq_set k v q = q\<lparr>cq_Header := gset (canonical_key True k) v (cq_Header q)\<rparr>"

definition conn_do :: "('v, 'j) client_env \<Rightarrow> conn \<Rightarrow> 'v \<Rightarrow> client_request \<Rightarrow> client_response result \<times> 'v" where
  "conn_do E c v req = ce_do E v (if co_Token c \<noteq> '''' then cq_set ''X-Api-Key'' (co_Token c) req else req)"

text \<open>Where the code drops the error of \<open>http.NewRequest\<close>, the next use of the request is a nil dereference.\<close>

definition nil_request :: error where
  "nil_request = Panic ''invalid memory address or nil pointer dereference''"

definition bad_status :: "int \<Rightarrow> error" where
  "bad_status n = ErrMessage (''Received status '' @ fmt_d n @ '' from Bendo'')"

definition doJasonGet :: "('v, 'j) client_env \<Rightarrow> conn \<Rightarrow> 'v \<Rightarrow> string \<Rightarrow> 'j result \<times> 'v" where
  "doJasonGet E c v path =
     (let url = co_HostURL c @ path in
      case ce_parse E url of
        Some e \<Rightarrow> (Inl e, v)
      | None \<Rightarrow>
          (let req = cq_set ''Accept-Encoding'' ''application/json'' \<lparr>cq_Method = ''GET'', cq_URL = url, cq_Header = [], cq_Body = []\<rparr> in
           case conn_do E c v req of
             (Inl e, v1) \<Rightarrow> (Inl e, v1)
           | (Inr resp, v1) \<Rightarrow>
               (if cp_Status resp \<noteq> 200
                then (Inl (if cp_Status resp = 404 then ErrItemNotFound else if cp_Status resp = 401 then ErrNotAuthorized
                           else bad_status (cp_Status resp)), v1)
                else (ce_json E (cp_Body resp), v1))))"

definition ItemInfo :: "('v, 'j) client_env \<Rightarrow> conn \<Rightarrow> 'v \<Rightarrow> string \<Rightarrow> 'j result \<times> 'v" where
  "ItemInfo E c v item = doJasonGet E c v (''/item/'' @ item)"

definition no_info :: file_info where
  "no_info = \<lparr>fi_Size = 0, fi_MD5 = [], fi_Mimetype = ''''\<rparr>"

definition getUploadInfo :: "('v, 'j) client_env \<Rightarrow> conn \<Rightarrow> 'v \<Rightarrow> string \<Rightarrow> (file_info \<times> error option) \<times> 'v" where
  "getUploadInfo E c v uploadname =
     (case doJasonGet E c v (''/upload/'' @ uploadname @ ''/metadata'') of
        (Inl e, v1) \<Rightarrow> ((no_info, Some e), v1)
      | (Inr obj, v1) \<Rightarrow>
          (let vv = or_zero '''' (jo_string (ce_jason E) obj ''MD5'') in
           ((\<lparr>fi_Size = or_zero 0 (jo_int64 (ce_jason E) obj ''Size''),
              fi_MD5 = (if vv \<noteq> '''' then fst (b64_decode vv) else []),
              fi_Mimetype = or_zero '''' (jo_string (ce_jason E) obj ''MimeType'')\<rparr>, None), v1)))"

text \<open>The bytes that \<open>Download\<close> writes, and its error.\<close>

definition Download :: "('v, 'j) client_env \<Rightarrow> conn \<Rightarrow> 'v \<Rightarrow> string \<Rightarrow> string \<Rightarrow> (bytes \<times> error option) \<times> 'v" where
  "Download E c v item filename =
     (let url = co_HostURL c @ ''/item/'' @ item @ ''/'' @ filename in
      if ce_parse E url \<noteq> None then (([], Some nil_request), v)
      else
        (case conn_do E c v \<lparr>cq_Method = ''GET'', cq_URL = url, cq_Header = [], cq_Body = []\<rparr> of
           (Inl e, v1) \<Rightarrow> (([], Some e), v1)
         | (Inr resp, v1) \<Rightarrow>
             (if cp_Status resp = 200 then ((concat (fst (cp_Body resp)), snd (cp_Body resp)), v1)
              else if cp_Status resp = 404 then (([], Some ErrItemNotFound), v1)
              else if cp_Status resp = 401 then (([], Some ErrNotAuthorized), v1)
              else (([], Some (bad_status (cp_Status resp))), v1))))"

definition CreateTransaction :: "('v, 'j) client_env \<Rightarrow> conn \<Rightarrow> 'v \<Rightarrow> string \<Rightarrow> bytes \<Rightarrow> string result \<times> 'v" where
  "CreateTransaction E c v item cmdlist =
     (let url = co_HostURL c @ ''/item/'' @ item @ ''/transaction'' in
      if ce_parse E url \<noteq> None then (Inl nil_request, v)
      else
        (case conn_do E c v \<lparr>cq_Method = ''POST'', cq_URL = url, cq_Header = [], cq_Body = cmdlist\<rparr> of
           (Inl e, v1) \<Rightarrow> (Inl e, v1)
         | (Inr resp, v1) \<Rightarrow>
             (if cp_Status resp \<noteq> 202 then (Inl ErrUnexpectedResp, v1)
              else (Inr (case gget (cp_Header resp) ''Location'' of None \<Rightarrow> '''' | Some l \<Rightarrow> l), v1))))"

record transaction_info =
  ti_Status :: status
  ti_Errors :: "string list"

definition TransactionStatus :: "('v, 'j) client_env \<Rightarrow> conn \<Rightarrow> 'v \<Rightarrow> string \<Rightarrow> (transaction_info \<times> error option) \<times> 'v" where
  "TransactionStatus E c v txid =
     (case doJasonGet E c v (''/transaction/'' @ txid) of
        (Inl e, v1) \<Rightarrow> ((\<lparr>ti_Status = 0, ti_Errors = []\<rparr>, Some e), v1)
      | (Inr obj, v1) \<Rightarrow>
          (let x = jo_int64 (ce_jason E) obj ''Status'' in
           ((\<lparr>ti_Status = or_zero 0 x, ti_Errors = or_zero [] (jo_strings (ce_jason E) obj ''Err'')\<rparr>,
             case x of Inl e \<Rightarrow> Some e | Inr n \<Rightarrow> None), v1)))"

text \<open>The loop of \<open>WaitTransaction\<close>, with the number of rounds that are left and the number of errors so far. Time passes in the
  environment between the requests.\<close>

fun wait_transaction :: "('v, 'j) client_env \<Rightarrow> conn \<Rightarrow> string \<Rightarrow> nat \<Rightarrow> nat \<Rightarrow> 'v \<Rightarrow> error option \<times> 'v" where
  "wait_transaction E c txid 0 nerr v = (Some ErrTimeout, v)"
| "wait_transaction E c txid (Suc i) nerr v =
     (case TransactionStatus E c v txid of
        ((info, Some e), v1) \<Rightarrow> if nerr + 1 > 5 then (Some e, v1) else wait_transaction E c txid i (nerr + 1) v1
      | ((info, None), v1) \<Rightarrow>
          if ti_Status info = StatusFinished then (None, v1)
          else if ti_Status info = StatusError then (Some ErrTransaction, v1)
          else wait_transaction E c txid i nerr v1)"

definition WaitTransaction :: "('v, 'j) client_env \<Rightarrow> conn \<Rightarrow> 'v \<Rightarrow> string \<Rightarrow> error option \<times> 'v" where
  "WaitTransaction E c v txid = wait_transaction E c txid (12 * 60 * 60 div 5) 0 v"

section \<open>Uploading a file in chunks\<close>

datatype whence = SeekStart | SeekEnd

record 'r seeker =
  sk_Read :: "'r \<Rightarrow> nat \<Rightarrow> (bytes \<times> error option) \<times> 'r"
  sk_Seek :: "'r \<Rightarrow> int \<Rightarrow> whence \<Rightarrow> (int \<times> error option) \<times> 'r"

text \<open>\<open>io.Copy\<close> with a buffer of \<open>n\<close> bytes.\<close>

partial_function (option) seeker_copy :: "'r seeker \<Rightarrow> nat \<Rightarrow> 'r \<Rightarrow> bytes \<Rightarrow> ((bytes \<times> error option) \<times> 'r) option" where
  "seeker_copy R n r acc =
     (let ((p, err), r1) = sk_Read R r n in
      case err of
        None \<Rightarrow> seeker_copy R n r1 (acc @ p)
      | Some e \<Rightarrow> Some ((acc @ p, if e = EOF then None else Some e), r1))"

definition upload_request :: "conn \<Rightarrow> string \<Rightarrow> bytes \<Rightarrow> bytes \<Rightarrow> file_info \<Rightarrow> client_request" where
  "upload_request c uploadname chunk chunkmd5sum info =
     (let req = cq_set ''X-Upload-Md5'' (hex_encode chunkmd5sum)
            \<lparr>cq_Method = ''POST'', cq_URL = co_HostURL c @ ''/upload/'' @ uploadname, cq_Header = [], cq_Body = chunk\<rparr>;
          req1 = (if fi_Mimetype info \<noteq> '''' then cq_set ''Content-Type'' (fi_Mimetype info) req else req)
      in if length (fi_MD5 info) > 0 then cq_set ''X-Content-MD5'' (hex_encode (fi_MD5 info)) req1 else req1)"

text \<open>The text of the error is what one read delivers into a buffer of 512 zero bytes.\<close>

definition upload0_message :: "client_response \<Rightarrow> string" where
  "upload0_message resp =
     (let p = (case fst (cp_Body resp) of [] \<Rightarrow> [] | b # bs \<Rightarrow> take 512 b) in p @ replicate (512 - length p) (char_of (0 :: nat)))"

definition upload0 ::
  "('v, 'j) client_env \<Rightarrow> conn \<Rightarrow> 'v \<Rightarrow> string \<Rightarrow> bytes \<Rightarrow> bytes \<Rightarrow> file_info \<Rightarrow> error option \<times> 'v" where
  "upload0 E c v uploadname chunk chunkmd5sum info =
     (if ce_parse E (co_HostURL c @ ''/upload/'' @ uploadname) \<noteq> None then (Some nil_request, v)
      else
        (case conn_do E c v (upload_request c uploadname chunk chunkmd5sum info) of
           (Inl e, v1) \<Rightarrow> (Some e, v1)
         | (Inr resp, v1) \<Rightarrow>
             (if cp_Status resp = 200 then (None, v1)
              else if cp_Status resp = 412 then (Some ErrChecksumMismatch, v1)
              else (Some (ErrMessage (upload0_message resp)), v1))))"

text \<open>At most \<open>n\<close> more tries to upload a chunk; \<open>err\<close> is the error of the last one. A panic is not an error that is tried again.\<close>

fun try_chunk ::
  "('v, 'j) client_env \<Rightarrow> conn \<Rightarrow> string \<Rightarrow> bytes \<Rightarrow> bytes \<Rightarrow> file_info \<Rightarrow> nat \<Rightarrow> error option \<Rightarrow> 'v \<Rightarrow> error option \<times> 'v" where
  "try_chunk E c uploadname chunk md5 info 0 err v = (err, v)"
| "try_chunk E c uploadname chunk md5 info (Suc n) err v =
     (case upload0 E c v uploadname chunk md5 info of
        (None, v1) \<Rightarrow> (None, v1)
      | (Some e, v1) \<Rightarrow> if e = nil_request then (Some e, v1) else try_chunk E c uploadname chunk md5 info n (Some e) v1)"

partial_function (option) send_chunks ::
  "'r seeker \<Rightarrow> ('v, 'j) client_env \<Rightarrow> hashes \<Rightarrow> conn \<Rightarrow> string \<Rightarrow> file_info \<Rightarrow> 'r \<Rightarrow> 'v \<Rightarrow> (error option \<times> 'r \<times> 'v) option" where
  "send_chunks R E H c uploadname info r v =
     (let ((p, err), r1) = sk_Read R r (nat (co_ChunkSize c)) in
      if err \<noteq> None \<and> err \<noteq> Some EOF then Some (err, r1, v)
      else if length p = 0 then Some (None, r1, v)
      else
        (case try_chunk E c uploadname p (h_md5 H p) info 5 None v of
           (None, v1) \<Rightarrow> send_chunks R E H c uploadname info r1 v1
         | (Some e, v1) \<Rightarrow> Some (Some e, r1, v1)))"

definition emptyMD5 :: bytes where
  "emptyMD5 = map char_of [0xd4, 0x1d, 0x8c, 0xd9, 0x8f, 0x00, 0xb2, 0x04, 0xe9, 0x80, 0x09, 0x98, 0xec, 0xf8, 0x42, 0x7e :: nat]"

text \<open>The rest of \<open>upload\<close>, when the sum and the size are known.\<close>

definition upload_known ::
  "'r seeker \<Rightarrow> ('v, 'j) client_env \<Rightarrow> hashes \<Rightarrow> conn \<Rightarrow> string \<Rightarrow> file_info \<Rightarrow> 'r \<Rightarrow> 'v \<Rightarrow> (error option \<times> conn \<times> 'r \<times> 'v) option" where
  "upload_known R E H c uploadname info r v =
     (let ((remoteinfo, _), v1) = getUploadInfo E c v uploadname in
      if length (fi_MD5 remoteinfo) > 0 \<and> fi_MD5 remoteinfo \<noteq> fi_MD5 info then Some (Some ErrUnexpectedResp, c, r, v1)
      else if fi_Size info > 0 \<and> fi_Size remoteinfo = fi_Size info then Some (None, c, r, v1)
      else
        (case sk_Seek R r (fi_Size remoteinfo) SeekStart of
           ((_, Some e), r1) \<Rightarrow> Some (Some e, c, r1, v1)
         | ((_, None), r1) \<Rightarrow>
             if fi_Size info = 0 then
               (let (err, v2) = upload0 E c v1 uploadname [] emptyMD5 info in Some (err, c, r1, v2))
             else
               (let c1 = (if co_ChunkSize c = 0 then c\<lparr>co_ChunkSize := 10 * 2 ^ 20\<rparr> else c) in
                if co_ChunkSize c1 < 0 then Some (Some (Panic ''makeslice: len out of range''), c1, r1, v1)
                else map_option (\<lambda>(err, r2, v2). (err, c1, r2, v2)) (send_chunks R E H c1 uploadname info r1 v1))))"

definition conn_upload ::
  "'r seeker \<Rightarrow> ('v, 'j) client_env \<Rightarrow> hashes \<Rightarrow> conn \<Rightarrow> string \<Rightarrow> 'r \<Rightarrow> file_info \<Rightarrow> 'v \<Rightarrow> (error option \<times> conn \<times> 'r \<times> 'v) option" where
  "conn_upload R E H c uploadname r info v =
     (case (if length (fi_MD5 info) = 0 then
              (case seeker_copy R copy_buffer r [] of
                 None \<Rightarrow> None
               | Some ((data, err), r1) \<Rightarrow> Some (err, info\<lparr>fi_MD5 := h_md5 H data\<rparr>, r1))
            else Some (None, info, r)) of
        None \<Rightarrow> None
      | Some (Some e, _, r1) \<Rightarrow> Some (Some e, c, r1, v)
      | Some (None, info1, r1) \<Rightarrow>
          if fi_Size info1 = 0 then
            (case sk_Seek R r1 0 SeekEnd of
               ((_, Some e), r2) \<Rightarrow> Some (Some e, c, r2, v)
             | ((n, None), r2) \<Rightarrow> upload_known R E H c uploadname (info1\<lparr>fi_Size := n\<rparr>) r2 v)
          else upload_known R E H c uploadname info1 r1 v)"

definition Upload where
  "Upload = conn_upload"

end
