(* ===== verification/Location.thy ===== *)
theory Location
  imports File_Store
begin

text \<open>
  The choice of the store from a location on the command line, src/cmd/bendo/location.go. The parts of the URL that \<open>url.Parse\<close> gives
  are an argument, nothing when it fails; so are the variables of the environment. The result says which constructor is called, with its arguments.
\<close>

section \<open>Paths\<close>

text \<open>\<open>path.Clean\<close> and \<open>path.Join\<close>.\<close>

fun join_slash :: "string list \<Rightarrow> string" where
  "join_slash [] = []"
| "join_slash [a] = a"
| "join_slash (a # as) = a @ ''/'' @ join_slash as"

definition path_Clean :: "string \<Rightarrow> string" where
  "path_Clean s =
     (let rooted = (s \<noteq> [] \<and> hd s = CHR ''/'');
          cs = clean_onto [] (split_all CHR ''/'' s);
          ds = (if rooted then dropWhile (\<lambda>c. c = ''..'') cs else cs)
      in if rooted then CHR ''/'' # join_slash ds else if ds = [] then ''.'' else join_slash ds)"

definition path_Join :: "string list \<Rightarrow> string" where
  "path_Join ps = (let qs = filter (\<lambda>p. p \<noteq> []) ps in if qs = [] then [] else path_Clean (join_slash qs))"

definition with_slash :: "string \<Rightarrow> string" where
  "with_slash p = (if p \<noteq> [] \<and> \<not> has_suffix p ''/'' then p @ ''/'' else p)"

definition splitBucketPrefix :: "string \<Rightarrow> string \<Rightarrow> string \<times> string" where
  "splitBucketPrefix location addition =
     (if location = [] then ([], [])
      else
        (let v = split2 CHR ''/'' (trim_prefix location ''/'');
             bucket = v ! 0;
             p1 = (if 1 < length v then v ! 1 else []);
             p2 = (if addition \<noteq> [] then path_Join [p1, addition] else p1)
         in (bucket, with_slash p2)))"

section \<open>The store\<close>

record url =
  u_Scheme :: string
  u_Host :: string
  u_Path :: string

fun contains :: "string \<Rightarrow> string \<Rightarrow> bool" where
  "contains [] t = (t = [])"
| "contains (c # cs) t = (has_prefix (c # cs) t \<or> contains cs t)"

record s3_conf =
  cf_Endpoint :: "string option"
  cf_Region :: "string option"
  cf_DisableSSL :: bool
  cf_PathStyle :: bool

datatype location_store =
    MemoryStore
  | FileStore string
  | S3Store string string s3_conf
  | PearlStore string string string string string string   \<comment> \<open>bucket, prefix, scheme, host, access and secret key; the directory for temporary files is apart\<close>
  | NoStore
  | FatalExit string
  | NilPanic

definition s3_config :: "url \<Rightarrow> s3_conf" where
  "s3_config u =
     (if u_Host u = [] then \<lparr>cf_Endpoint = None, cf_Region = None, cf_DisableSSL = False, cf_PathStyle = False\<rparr>
      else (let l = contains (u_Host u) ''localhost'' in
            \<lparr>cf_Endpoint = Some (u_Host u), cf_Region = Some ''us-east-1'', cf_DisableSSL = l, cf_PathStyle = l\<rparr>))"

definition pearl_scheme :: "url \<Rightarrow> string" where
  "pearl_scheme u = (if u_Host u = ''blackpearls'' then ''https'' else ''http'')"

definition parselocation :: "string \<Rightarrow> url option \<Rightarrow> string \<Rightarrow> string \<Rightarrow> string \<Rightarrow> location_store" where
  "parselocation location parsed accessKey secretKey addition =
     (if location = [] then MemoryStore
      else
        (case parsed of
           None \<Rightarrow> NilPanic
         | Some u \<Rightarrow>
             if u_Scheme u = [] \<or> u_Scheme u = ''file'' then FileStore (path_Join [u_Path u, addition])
             else if u_Scheme u = ''s3'' then
               (let (bucket, pre) = splitBucketPrefix (u_Path u) addition in
                if bucket = [] then NoStore else S3Store bucket pre (s3_config u))
             else if u_Scheme u = ''blackpearl'' \<or> u_Scheme u = ''blackpearls'' then
               (if accessKey = [] then FatalExit ''DS3_ACCESS_KEY missing''
                else if secretKey = [] then FatalExit ''DS3_SECRET_KEY missing''
                else
                  (let (bucket, pre) = splitBucketPrefix (u_Path u) addition in
                   if bucket = [] then NoStore
                   else PearlStore bucket pre (pearl_scheme u) (u_Host u) accessKey secretKey))
             else NoStore))"

section \<open>What it gives\<close>

text \<open>The prefix of the keys is empty or ends with a slash, and the bucket has no slash.\<close>

lemma index_char_take: "index_char c s = Some j \<Longrightarrow> c \<notin> set (take j s)"
  by (induction s arbitrary: j) (auto split: if_splits)

lemma split_bucket_ok:
  assumes "splitBucketPrefix location addition = (bucket, p)"
  shows "CHR ''/'' \<notin> set bucket \<and> (p = [] \<or> has_suffix p ''/'')"
proof -
  have sfx: "with_slash q = [] \<or> has_suffix (with_slash q) ''/''" for q
    by (auto simp: with_slash_def has_suffix_def has_prefix_def)
  have b: "CHR ''/'' \<notin> set (split2 CHR ''/'' s ! 0)" for s
  proof (cases "index_char CHR ''/'' s")
    case None
    then have "CHR ''/'' \<notin> set s" using index_char_None by metis
    then show ?thesis using None by (simp add: split2_def)
  next
    case (Some j)
    then show ?thesis by (simp add: split2_def index_char_take)
  qed
  show ?thesis
  proof (cases "location = []")
    case True
    then show ?thesis using assms by (simp add: splitBucketPrefix_def)
  next
    case False
    let ?v = "split2 CHR ''/'' (trim_prefix location ''/'')"
    have e: "bucket = ?v ! 0" "\<exists>q. p = with_slash q" using False assms by (auto simp: splitBucketPrefix_def Let_def)
    show ?thesis using sfx e(2) b[of "trim_prefix location ''/''"] unfolding e(1) by blast
  qed
qed

text \<open>The scheme \<open>blackpearls\<close> gives no https connection: the code tests the host.\<close>

lemma blackpearls_is_http:
  "location \<noteq> [] \<Longrightarrow> k1 \<noteq> [] \<Longrightarrow> k2 \<noteq> [] \<Longrightarrow> u_Scheme u = ''blackpearls'' \<Longrightarrow> u_Host u \<noteq> ''blackpearls'' \<Longrightarrow>
   splitBucketPrefix (u_Path u) addition = (bucket, p) \<Longrightarrow> bucket \<noteq> [] \<Longrightarrow>
   parselocation location (Some u) k1 k2 addition = PearlStore bucket p ''http'' (u_Host u) k1 k2"
  by (simp add: parselocation_def pearl_scheme_def)

end
