(* ===== verification/Client_Files.thy ===== *)
theory Client_Files
  imports Client_Api Location
begin

text \<open>
  The lists of files of the command line client and what it makes of them: src/cmd/bclient/filelist.go, fileutil.go and upload.go. The local files are an
  environment: a tree for the walk, and open files as readers with seek. The goroutines that read files and manifests send what they find over one
  channel; the order in which it arrives is an argument. What is printed is left out, except where printing is all that a function does.
\<close>

section \<open>Lists of files\<close>

record cfile =
  cf_Name :: string
  cf_AbsPath :: string
  cf_MD5 :: bytes
  cf_SHA256 :: bytes
  cf_MimeType :: string
  cf_BlobID :: int

definition no_cfile :: cfile where
  "no_cfile = \<lparr>cf_Name = '''', cf_AbsPath = '''', cf_MD5 = [], cf_SHA256 = [], cf_MimeType = '''', cf_BlobID = 0\<rparr>"

record filelist =
  fl_Root :: string
  fl_Files :: "(string, cfile) gomap"
  fl_Blobs :: "(string, int) gomap"

definition fl_New :: "string \<Rightarrow> filelist" where
  "fl_New root = \<lparr>fl_Root = root, fl_Files = [], fl_Blobs = []\<rparr>"

text \<open>The value of a Go map at a key, which is zero when there is none.\<close>

definition file_at :: "filelist \<Rightarrow> string \<Rightarrow> cfile" where
  "file_at fl k = (case gget (fl_Files fl) k of None \<Rightarrow> no_cfile | Some f \<Rightarrow> f)"

definition blob_at :: "(string, int) gomap \<Rightarrow> string \<Rightarrow> int" where
  "blob_at m k = (case gget m k of None \<Rightarrow> 0 | Some b \<Rightarrow> b)"

text \<open>A conflict of sums is only printed; the first sum stays.\<close>

definition merge_file :: "cfile \<Rightarrow> cfile \<Rightarrow> cfile" where
  "merge_file info f =
     (let i1 = (if cf_AbsPath f \<noteq> '''' then info\<lparr>cf_AbsPath := cf_AbsPath f\<rparr> else info);
          i2 = (if length (cf_MD5 f) > 0 \<and> \<not> (length (cf_MD5 i1) > 0 \<and> cf_MD5 i1 \<noteq> cf_MD5 f) then i1\<lparr>cf_MD5 := cf_MD5 f\<rparr> else i1);
          i3 = (if length (cf_SHA256 f) > 0 \<and> \<not> (length (cf_SHA256 i2) > 0 \<and> cf_SHA256 i2 \<noteq> cf_SHA256 f) then i2\<lparr>cf_SHA256 := cf_SHA256 f\<rparr> else i2);
          i4 = (if length (cf_MimeType f) > 0 then i3\<lparr>cf_MimeType := cf_MimeType f\<rparr> else i3)
      in if cf_BlobID f \<noteq> 0 then i4\<lparr>cf_BlobID := cf_BlobID f\<rparr> else i4)"

fun AddFiles :: "cfile list \<Rightarrow> filelist \<Rightarrow> filelist" where
  "AddFiles [] fl = fl"
| "AddFiles (f # fs) fl = AddFiles fs (fl\<lparr>fl_Files := gset (cf_Name f) (merge_file (file_at fl (cf_Name f)) f) (fl_Files fl)\<rparr>)"

definition AddToSendQueue :: "filelist \<Rightarrow> string list" where
  "AddToSendQueue fl = gkeys (fl_Files fl)"

text \<open>The sum of a blob in the JSON of an item.\<close>

definition json_md5 :: "'j jason \<Rightarrow> 'j \<Rightarrow> bytes" where
  "json_md5 J blob = fst (b64_decode (or_zero '''' (jo_string J blob ''MD5'')))"

fun list_blobs :: "'j jason \<Rightarrow> 'j list \<Rightarrow> (string, int) gomap \<Rightarrow> (string, int) gomap" where
  "list_blobs J [] m = m"
| "list_blobs J (blob # bs) m = list_blobs J bs (gset (hex_encode (json_md5 J blob)) (or_zero 0 (jo_int64 J blob ''ID'')) m)"

definition index_panic :: error where
  "index_panic = Panic ''index out of range''"

fun list_slots :: "'j jason \<Rightarrow> 'j list \<Rightarrow> (string \<times> int result) list \<Rightarrow> filelist \<Rightarrow> filelist result" where
  "list_slots J blobs [] f = Inr f"
| "list_slots J blobs ((key, val) # slots) f =
     (let blobID = or_zero 0 val in
      if blobID < 1 \<or> blobID > int (length blobs) then Inl index_panic
      else
        (let blob = blobs ! nat (blobID - 1);
             info = (file_at f key)\<lparr>cf_BlobID := blobID, cf_MD5 := json_md5 J blob, cf_MimeType := or_zero '''' (jo_string J blob ''MimeType'')\<rparr>
         in list_slots J blobs slots (f\<lparr>fl_Files := gset key info (fl_Files f), fl_Blobs := gset key blobID (fl_Blobs f)\<rparr>)))"

definition opt_object :: "'j result \<Rightarrow> 'j option" where
  "opt_object r = (case r of Inl e \<Rightarrow> None | Inr x \<Rightarrow> Some x)"

definition BuildListFromJSON :: "'j jason \<Rightarrow> 'j \<Rightarrow> filelist \<Rightarrow> filelist result" where
  "BuildListFromJSON J json f =
     (let blobArray = or_zero [] (jo_objects J json ''Blobs'');
          versionArray = or_zero [] (jo_objects J json ''Versions'');
          f1 = f\<lparr>fl_Blobs := list_blobs J blobArray (fl_Blobs f)\<rparr>
      in if length versionArray = 0 then Inr f1
         else
           (case jo_ints J (opt_object (jo_object J (last versionArray) ''Slots'')) of
              Inl e \<Rightarrow> Inl e
            | Inr slotMap \<Rightarrow> list_slots J blobArray slotMap f1))"

section \<open>The lists of a download\<close>

record list_data =
  ld_Local :: "filelist option"
  ld_Remote :: "filelist option"
  ld_rootPrefix :: string

definition NewLists :: "string \<Rightarrow> list_data" where
  "NewLists root = \<lparr>ld_Local = None, ld_Remote = None, ld_rootPrefix = root\<rparr>"

definition BuildRemoteList :: "'j jason \<Rightarrow> 'j \<Rightarrow> list_data \<Rightarrow> list_data result" where
  "BuildRemoteList J json ld =
     (case BuildListFromJSON J json (fl_New (ld_rootPrefix ld)) of Inl e \<Rightarrow> Inl e | Inr fl \<Rightarrow> Inr (ld\<lparr>ld_Remote := Some fl\<rparr>))"

definition BuildLocalList :: "'j jason \<Rightarrow> 'j \<Rightarrow> list_data \<Rightarrow> list_data result" where
  "BuildLocalList J json ld =
     (case BuildListFromJSON J json (fl_New (ld_rootPrefix ld)) of Inl e \<Rightarrow> Inl e | Inr fl \<Rightarrow> Inr (ld\<lparr>ld_Local := Some fl\<rparr>))"

fun pick_files :: "filelist \<Rightarrow> string list \<Rightarrow> filelist \<Rightarrow> filelist" where
  "pick_files remote [] fl = fl"
| "pick_files remote (fname # fs) fl =
     (let remoteInfo = file_at remote fname in
      if length (cf_MD5 remoteInfo) = 0 then pick_files remote fs fl
      else pick_files remote fs (fl\<lparr>fl_Files := gset fname remoteInfo (fl_Files fl)\<rparr>))"

definition BuildLocalFromFiles :: "string list \<Rightarrow> list_data \<Rightarrow> list_data" where
  "BuildLocalFromFiles files ld =
     (case ld_Remote ld of
        None \<Rightarrow> ld
      | Some remote \<Rightarrow> ld\<lparr>ld_Local := Some (pick_files remote files (fl_New (ld_rootPrefix ld)))\<rparr>)"

section \<open>The walk over the local files\<close>

datatype fnode =
    FFile
  | FDir "(string \<times> fnode) list result"      \<comment> \<open>the entries in lexical order, or the error of reading them\<close>
  | FGone error                              \<comment> \<open>the error of \<open>Lstat\<close>\<close>

datatype found = Plain string | Manifest string
datatype walked = Walked | SkipDir | WalkError error

definition path_Base :: "string \<Rightarrow> string" where
  "path_Base p =
     (if p = [] then ''.''
      else (let q = rev (dropWhile (\<lambda>c. c = CHR ''/'') (rev p)); b = last (split_all (CHR ''/'') q) in if b = [] then ''/'' else b))"

text \<open>The function that \<open>ScanFilesystem\<close> passes to \<open>filepath.Walk\<close>.\<close>

definition scan_visit :: "string \<Rightarrow> bool \<Rightarrow> error option \<Rightarrow> found list \<times> walked" where
  "scan_visit abspath isdir err =
     (case err of
        Some e \<Rightarrow> ([], WalkError e)
      | None \<Rightarrow>
          (let filename = path_Base abspath in
           if has_prefix filename ''.'' then ([], if isdir then SkipDir else Walked)
           else if isdir then ([], Walked)
           else if filename = ''bclient-manifest'' then ([Manifest abspath], Walked)
           else ([Plain abspath], Walked)))"

text \<open>\<open>filepath.Walk\<close> with this function, from a node.\<close>

fun walk :: "string \<Rightarrow> fnode \<Rightarrow> found list \<times> walked" and walk_entries :: "string \<Rightarrow> (string \<times> fnode) list \<Rightarrow> found list \<times> walked" where
  "walk path FFile = scan_visit path False None"
| "walk path (FGone e) = scan_visit path False (Some e)"
| "walk path (FDir (Inl e)) = scan_visit path True (Some e)"
| "walk path (FDir (Inr es)) =
     (let (fs, r) = scan_visit path True None in
      if r \<noteq> Walked then (fs, r) else (let (gs, r1) = walk_entries path es in (fs @ gs, r1)))"
| "walk_entries path [] = ([], Walked)"
| "walk_entries path ((name, node) # es) =
     (let (fs, r) = walk (path_Join [path, name]) node in
      if r = Walked \<or> r = SkipDir \<and> node \<noteq> FFile then (let (gs, r1) = walk_entries path es in (fs @ gs, r1))
      else (fs, r))"

definition ScanFilesystem :: "(string \<Rightarrow> fnode) \<Rightarrow> string \<Rightarrow> found list" where
  "ScanFilesystem tree startpath = fst (walk startpath (tree startpath))"

section \<open>Checksums and manifests\<close>

record 'r local_env =
  le_tree :: "string \<Rightarrow> fnode"
  le_open :: "string \<Rightarrow> 'r result"
  le_seeker :: "'r seeker"

text \<open>Reading a file to its end or to the first error, which is dropped.\<close>

definition read_local :: "'r local_env \<Rightarrow> 'r \<Rightarrow> bytes option" where
  "read_local L r = map_option (\<lambda>((data, err), r1). data) (seeker_copy (le_seeker L) copy_buffer r [])"

fun ChecksumLocalFiles :: "'r local_env \<Rightarrow> hashes \<Rightarrow> string \<Rightarrow> string list \<Rightarrow> cfile list option" where
  "ChecksumLocalFiles L H root [] = Some []"
| "ChecksumLocalFiles L H root (abspath # ps) =
     (case le_open L abspath of
        Inl e \<Rightarrow> ChecksumLocalFiles L H root ps
      | Inr r \<Rightarrow>
          (case (read_local L r, ChecksumLocalFiles L H root ps) of
             (Some data, Some fs) \<Rightarrow>
               Some (no_cfile\<lparr>cf_Name := trim_prefix abspath root, cf_AbsPath := abspath, cf_MD5 := h_md5 H data\<rparr> # fs)
           | _ \<Rightarrow> None))"

text \<open>One line of a manifest: name, MD5, SHA-256 and MIME type.\<close>

definition manifest_line :: "string \<Rightarrow> string \<Rightarrow> string \<Rightarrow> cfile list" where
  "manifest_line root dir line =
     (if length line = 0 \<or> line ! 0 = CHR ''#'' then []
      else
        (case split_all (CHR ''|'') line of
           [name, md5, sha256, mime] \<Rightarrow>
             [no_cfile\<lparr>cf_Name := trim_prefix (path_Join [dir, name]) root, cf_MD5 := fst (hex_decode md5), cf_SHA256 := fst (hex_decode sha256),
                cf_MimeType := mime\<rparr>]
         | _ \<Rightarrow> []))"

definition path_dir :: "string \<Rightarrow> string" where
  "path_dir p = (case last_index_char (CHR ''/'') p of None \<Rightarrow> [] | Some i \<Rightarrow> take (Suc i) p)"

definition ParseManifest :: "'r local_env \<Rightarrow> string \<Rightarrow> string \<Rightarrow> cfile list option" where
  "ParseManifest L root manifest =
     (case le_open L manifest of
        Inl e \<Rightarrow> Some []
      | Inr r \<Rightarrow> map_option (\<lambda>data. concat (map (manifest_line root (path_dir manifest)) (fst (scan_lines data)))) (read_local L r))"

fun plains :: "found list \<Rightarrow> string list" where
  "plains [] = []"
| "plains (Plain p # fs) = p # plains fs"
| "plains (Manifest p # fs) = plains fs"

fun parse_manifests :: "'r local_env \<Rightarrow> string \<Rightarrow> found list \<Rightarrow> cfile list option" where
  "parse_manifests L root [] = Some []"
| "parse_manifests L root (Plain p # fs) = parse_manifests L root fs"
| "parse_manifests L root (Manifest p # fs) =
     (case (ParseManifest L root p, parse_manifests L root fs) of (Some xs, Some ys) \<Rightarrow> Some (xs @ ys) | _ \<Rightarrow> None)"

text \<open>\<open>arrive\<close> is the order in which the entries come out of the channel. None when reading a file never ends.\<close>

definition LoadLocalTree :: "'r local_env \<Rightarrow> hashes \<Rightarrow> (cfile list \<Rightarrow> cfile list) \<Rightarrow> string \<Rightarrow> string \<Rightarrow> filelist option" where
  "LoadLocalTree L H arrive root start =
     (let fs = ScanFilesystem (le_tree L) (path_Join [root, start]) in
      case (ChecksumLocalFiles L H root (plains fs), parse_manifests L root fs) of
        (Some xs, Some ys) \<Rightarrow> Some (AddFiles (arrive (xs @ ys)) (fl_New root))
      | _ \<Rightarrow> None)"

section \<open>Actions\<close>

datatype action_kind = AUnknown | ANewBlob | AUpdateMimeType | AUpdateFile

record action =
  ac_What :: action_kind
  ac_Source :: string
  ac_MD5 :: bytes
  ac_MimeType :: string
  ac_BlobID :: int
  ac_Name :: string

definition no_action :: action where
  "no_action = \<lparr>ac_What = AUnknown, ac_Source = '''', ac_MD5 = [], ac_MimeType = '''', ac_BlobID = 0, ac_Name = ''''\<rparr>"

definition Action_String :: "action \<Rightarrow> string" where
  "Action_String a =
     (case ac_What a of
        ANewBlob \<Rightarrow> ''<Action ANewBlob, Source='' @ ac_Source a @ '', MimeType='' @ ac_MimeType a @ ''>''
      | AUpdateMimeType \<Rightarrow> ''<Action AUpdateMimeType, Blob='' @ fmt_d (ac_BlobID a) @ '', MimeType='' @ ac_MimeType a @ ''>''
      | AUpdateFile \<Rightarrow> ''<Action AUpdateFile, Name='' @ ac_Name a @ '', Blob='' @ fmt_d (ac_BlobID a) @ '', MD5='' @ hex_encode (ac_MD5 a) @ ''>''
      | AUnknown \<Rightarrow> ''<Action AUnknown>'')"

text \<open>One file: what the remote list says of it, if there is one. \<open>None\<close> when its content is not on the server.\<close>

definition resolve_remote :: "filelist option \<Rightarrow> string \<Rightarrow> cfile \<Rightarrow> action list option" where
  "resolve_remote remote localfile info =
     (case remote of
        None \<Rightarrow> None
      | Some rem \<Rightarrow>
          (let remoteinfo = file_at rem localfile; b = blob_at (fl_Blobs rem) (hex_encode (cf_MD5 info)) in
           if length (cf_MD5 remoteinfo) \<noteq> 0 \<and> cf_MD5 info = cf_MD5 remoteinfo then
             Some (if cf_MimeType info \<noteq> '''' \<and> cf_MimeType info \<noteq> cf_MimeType remoteinfo
                   then [no_action\<lparr>ac_What := AUpdateMimeType, ac_BlobID := cf_BlobID remoteinfo, ac_MimeType := cf_MimeType info\<rparr>]
                   else [])
           else if b > 0 then Some [no_action\<lparr>ac_What := AUpdateFile, ac_Name := localfile, ac_BlobID := b\<rparr>]
           else None))"

text \<open>The loop of \<open>ResolveLocalBlobs\<close> over the local files, with the map of local blobs that it changes.\<close>

fun resolve_files :: "filelist option \<Rightarrow> (string \<times> cfile) list \<Rightarrow> (string, int) gomap \<Rightarrow> action list \<times> (string, int) gomap" where
  "resolve_files remote [] blobs = ([], blobs)"
| "resolve_files remote ((localfile, info) # fs) blobs =
     (case resolve_remote remote localfile info of
        Some acts \<Rightarrow> (let (todo, blobs1) = resolve_files remote fs blobs in (acts @ todo, blobs1))
      | None \<Rightarrow>
          (let hexMD5 = hex_encode (cf_MD5 info);
               fresh = (blob_at blobs hexMD5 = 0);
               blobs1 = (if fresh then gset hexMD5 (- 1) blobs else blobs);
               new = (if fresh then [no_action\<lparr>ac_What := ANewBlob, ac_Source := cf_AbsPath info, ac_MD5 := cf_MD5 info, ac_MimeType := cf_MimeType info\<rparr>] else []);
               upd = no_action\<lparr>ac_What := AUpdateFile, ac_MD5 := cf_MD5 info, ac_Name := localfile\<rparr>;
               (todo, blobs2) = resolve_files remote fs blobs1
           in (new @ upd # todo, blobs2)))"

definition ResolveLocalBlobs :: "filelist \<Rightarrow> filelist option \<Rightarrow> action list \<times> filelist" where
  "ResolveLocalBlobs loc remote =
     (let (todo, blobs) = resolve_files remote (fl_Files loc) (fl_Blobs loc) in (todo, loc\<lparr>fl_Blobs := blobs\<rparr>))"

definition action_commands :: "string \<Rightarrow> action \<Rightarrow> command list" where
  "action_commands item t =
     (case ac_What t of
        ANewBlob \<Rightarrow> [[''add'', item @ ''-'' @ hex_encode (ac_MD5 t)]]
      | AUpdateMimeType \<Rightarrow> [[''mimetype'', fmt_d (ac_BlobID t), ac_MimeType t]]
      | AUpdateFile \<Rightarrow> [[''slot'', ac_Name t, if ac_BlobID t > 0 then fmt_d (ac_BlobID t) else item @ ''-'' @ hex_encode (ac_MD5 t)]]
      | AUnknown \<Rightarrow> [])"

definition MakeTransactionCommands :: "string \<Rightarrow> action list \<Rightarrow> command list" where
  "MakeTransactionCommands item todo = concat (map (action_commands item) todo)"

end
