(* ===== verification/Client_Commands.thy ===== *)
theory Client_Commands
  imports Client_Files
begin

text \<open>
  The commands of the client: uploading a tree (src/cmd/bclient/upload.go), downloading an item, its listing and its history
  (src/cmd/bclient/main.go and filelist.go). The flags are a record. Workers take their jobs from a channel without a buffer; the model runs one job at
  a time, in the order of the channel, and keeps the number of workers that are left and the errors in the channel of errors. A command that never
  returns is \<open>None\<close>. The result of a command is its exit code, or a panic.
\<close>

record flags =
  fg_fileroot :: string
  fg_server :: string
  fg_token :: string
  fg_longV :: bool
  fg_version :: int
  fg_chunksize :: int
  fg_numuploaders :: nat
  fg_wait :: bool

definition new_conn :: "flags \<Rightarrow> conn" where
  "new_conn fg = \<lparr>co_HostURL = fg_server fg, co_ChunkSize = fg_chunksize fg, co_Token = fg_token fg\<rparr>"

text \<open>A panic, also of a worker, ends the program; any other error gives the exit code 1.\<close>

fun is_panic :: "error \<Rightarrow> bool" where
  "is_panic (Panic m) = True"
| "is_panic _ = False"

definition exit_code :: "error \<Rightarrow> int result" where
  "exit_code e = (if is_panic e then Inl e else Inr 1)"

section \<open>Uploading a tree\<close>

definition upload_blob ::
  "'r local_env \<Rightarrow> ('v, 'j) client_env \<Rightarrow> hashes \<Rightarrow> string \<Rightarrow> action \<Rightarrow> conn \<Rightarrow> 'v \<Rightarrow> (error option \<times> conn \<times> 'v) option" where
  "upload_blob L E H item t c v =
     (case le_open L (ac_Source t) of
        Inl e \<Rightarrow> Some (Some e, c, v)
      | Inr r \<Rightarrow>
          map_option (\<lambda>(err, c1, r1, v1). (err, c1, v1))
            (Upload (le_seeker L) E H c (item @ ''-'' @ hex_encode (ac_MD5 t)) r
               \<lparr>fi_Size = 0, fi_MD5 = ac_MD5 t, fi_Mimetype = ac_MimeType t\<rparr> v))"

text \<open>\<open>errs\<close> is the error in the channel of errors. When there is one, the select may take it, and the loop ends, or go on with another action: \<open>stop\<close>
  says which, for each action. With no worker the first action waits for ever.\<close>

fun UploadBlobs ::
  "'r local_env \<Rightarrow> ('v, 'j) client_env \<Rightarrow> hashes \<Rightarrow> flags \<Rightarrow> string \<Rightarrow> (action \<Rightarrow> bool) \<Rightarrow> action list \<Rightarrow> error option \<Rightarrow> conn \<Rightarrow> 'v \<Rightarrow>
     (error option \<times> conn \<times> 'v) option" where
  "UploadBlobs L E H fg item stop [] errs c v = Some (errs, c, v)"
| "UploadBlobs L E H fg item stop (t # ts) errs c v =
     (if ac_What t \<noteq> ANewBlob then UploadBlobs L E H fg item stop ts errs c v
      else if errs \<noteq> None \<and> stop t then Some (errs, c, v)
      else if fg_numuploaders fg = 0 then None
      else
        (case upload_blob L E H item t c v of
           None \<Rightarrow> None
         | Some (None, c1, v1) \<Rightarrow> UploadBlobs L E H fg item stop ts errs c1 v1
         | Some (Some e, c1, v1) \<Rightarrow>
             if is_panic e then Some (Some e, c1, v1)
             else UploadBlobs L E H fg item stop ts (if errs = None then Some e else errs) c1 v1))"

definition PostTransaction ::
  "('v, 'j) client_env \<Rightarrow> (command list \<Rightarrow> bytes) \<Rightarrow> string \<Rightarrow> conn \<Rightarrow> action list \<Rightarrow> 'v \<Rightarrow> string result \<times> 'v" where
  "PostTransaction E marshal item c todo v = CreateTransaction E c v item (marshal (MakeTransactionCommands item todo))"

text \<open>The second half of \<open>doUpload\<close>, from the comparison of the lists on.\<close>

definition upload_changes ::
  "'r local_env \<Rightarrow> ('v, 'j) client_env \<Rightarrow> hashes \<Rightarrow> (command list \<Rightarrow> bytes) \<Rightarrow> flags \<Rightarrow> (action \<Rightarrow> bool) \<Rightarrow> string \<Rightarrow> filelist \<Rightarrow> filelist option \<Rightarrow> 'v \<Rightarrow>
     (int result \<times> 'v) option" where
  "upload_changes L E H marshal fg stop item localfiles remotefiles v =
     (let (todo, _) = ResolveLocalBlobs localfiles remotefiles in
      if length todo = 0 then Some (Inr 0, v)
      else
        (case UploadBlobs L E H fg item stop todo None (new_conn fg) v of
           None \<Rightarrow> None
         | Some (Some e, c1, v1) \<Rightarrow> Some (exit_code e, v1)
         | Some (None, c1, v1) \<Rightarrow>
             (case PostTransaction E marshal item c1 todo v1 of
                (Inl e, v2) \<Rightarrow> Some (exit_code e, v2)
              | (Inr transaction, v2) \<Rightarrow>
                  if fg_wait fg then
                    (case WaitTransaction E c1 v2 (path_Base transaction) of
                       (Some e, v3) \<Rightarrow> Some (Inr 1, v3)
                     | (None, v3) \<Rightarrow> Some (Inr 0, v3))
                  else Some (Inr 0, v2))))"

definition doUpload ::
  "'r local_env \<Rightarrow> ('v, 'j) client_env \<Rightarrow> hashes \<Rightarrow> (command list \<Rightarrow> bytes) \<Rightarrow> (cfile list \<Rightarrow> cfile list) \<Rightarrow> (action \<Rightarrow> bool) \<Rightarrow> flags \<Rightarrow> string \<Rightarrow> string \<Rightarrow>
     'v \<Rightarrow> (int result \<times> 'v) option" where
  "doUpload L E H marshal arrive stop fg item start v =
     (if fg_fileroot fg = '''' then Some (Inl index_panic, v)
      else
        (let root = (if last (fg_fileroot fg) \<noteq> CHR ''/'' then fg_fileroot fg @ ''/'' else fg_fileroot fg) in
         case LoadLocalTree L H arrive root start of
           None \<Rightarrow> None
         | Some localfiles \<Rightarrow>
             (case ItemInfo E (new_conn fg) v item of
                (Inr json, v1) \<Rightarrow>
                  (case BuildListFromJSON (ce_jason E) json (fl_New root) of
                     Inl e \<Rightarrow> Some (Inl e, v1)
                   | Inr remotefiles \<Rightarrow> upload_changes L E H marshal fg stop item localfiles (Some remotefiles) v1)
              | (Inl e, v1) \<Rightarrow>
                  if e = ErrItemNotFound then upload_changes L E H marshal fg stop item localfiles None v1
                  else Some (Inr 1, v1))))"

section \<open>Downloading an item\<close>

text \<open>The files that a command writes: directories are made, a file is created empty and then written. Each may fail.\<close>

record 'w out_env =
  oe_MkdirAll :: "'w \<Rightarrow> string \<Rightarrow> error option \<times> 'w"
  oe_Create :: "'w \<Rightarrow> string \<Rightarrow> error option \<times> 'w"
  oe_Write :: "'w \<Rightarrow> string \<Rightarrow> bytes \<Rightarrow> error option \<times> 'w"

definition cmd_download ::
  "'w out_env \<Rightarrow> ('v, 'j) client_env \<Rightarrow> conn \<Rightarrow> string \<Rightarrow> string \<Rightarrow> string \<Rightarrow> 'w \<Rightarrow> 'v \<Rightarrow> error option \<times> 'w \<times> 'v" where
  "cmd_download O1 E c item filename pathPrefix o1 v =
     (let targetFilename = path_Join [pathPrefix, filename] in
      case oe_MkdirAll O1 o1 (path_dir targetFilename) of
        (Some e, o2) \<Rightarrow> (Some e, o2, v)
      | (None, o2) \<Rightarrow>
          (case oe_Create O1 o2 targetFilename of
             (Some e, o3) \<Rightarrow> (Some e, o3, v)
           | (None, o3) \<Rightarrow>
               (let ((data, err), v1) = Download E c v item filename;
                    (werr, o4) = oe_Write O1 o3 targetFilename data
                in (if werr \<noteq> None then werr else err, o4, v1))))"

text \<open>The queue of \<open>doGet\<close>: a worker that fails puts its error into a channel that holds one, and ends. \<open>n\<close> workers are left; nobody reads the channel until
  all workers have ended.\<close>

fun get_queue ::
  "'w out_env \<Rightarrow> ('v, 'j) client_env \<Rightarrow> conn \<Rightarrow> string \<Rightarrow> string \<Rightarrow> string list \<Rightarrow> nat \<Rightarrow> error list \<Rightarrow> 'w \<Rightarrow> 'v \<Rightarrow> (error list \<times> 'w \<times> 'v) option" where
  "get_queue O1 E c item pathPrefix [] n errs o1 v = (if length errs > 1 then None else Some (errs, o1, v))"
| "get_queue O1 E c item pathPrefix (f # fs) n errs o1 v =
     (if n = 0 then None
      else
        (case cmd_download O1 E c item f pathPrefix o1 v of
           (None, o2, v1) \<Rightarrow> get_queue O1 E c item pathPrefix fs n errs o2 v1
         | (Some e, o2, v1) \<Rightarrow>
             if is_panic e then Some ([e], o2, v1) else get_queue O1 E c item pathPrefix fs (n - 1) (e # errs) o2 v1))"

definition doGet ::
  "'w out_env \<Rightarrow> ('v, 'j) client_env \<Rightarrow> flags \<Rightarrow> string \<Rightarrow> string list \<Rightarrow> 'w \<Rightarrow> 'v \<Rightarrow> (int result \<times> 'w \<times> 'v) option" where
  "doGet O1 E fg item files o1 v =
     (let pathPrefix = path_Join [fg_fileroot fg, item]; c = new_conn fg; lists = NewLists (fg_fileroot fg) in
      case ItemInfo E c v item of
        (Inl e, v1) \<Rightarrow> Some (Inr 1, o1, v1)
      | (Inr json, v1) \<Rightarrow>
          (case (if length files = 0 then BuildLocalList (ce_jason E) json lists
                 else (case BuildRemoteList (ce_jason E) json lists of Inl e \<Rightarrow> Inl e | Inr ld \<Rightarrow> Inr (BuildLocalFromFiles files ld))) of
             Inl e \<Rightarrow> Some (Inl e, o1, v1)
           | Inr ld \<Rightarrow>
               (case ld_Local ld of
                  None \<Rightarrow> Some (Inl nil_request, o1, v1)
                | Some fl \<Rightarrow>
                    map_option (\<lambda>(errs, o2, v2). (if errs = [] then Inr 0 else exit_code (hd errs), o2, v2))
                      (get_queue O1 E c item pathPrefix (AddToSendQueue fl) (fg_numuploaders fg) [] o1 v1))))"

section \<open>Stubs, listings and the history\<close>

fun make_stubs :: "'w out_env \<Rightarrow> string \<Rightarrow> string list \<Rightarrow> 'w \<Rightarrow> 'w" where
  "make_stubs O1 pathPrefix [] o1 = o1"
| "make_stubs O1 pathPrefix (key # keys) o1 =
     (let targetFile = path_Join [pathPrefix, key] in
      case oe_MkdirAll O1 o1 (path_dir targetFile) of
        (Some e, o2) \<Rightarrow> o2
      | (None, o2) \<Rightarrow>
          (case oe_Create O1 o2 targetFile of
             (Some e, o3) \<Rightarrow> o3
           | (None, o3) \<Rightarrow> make_stubs O1 pathPrefix keys o3))"

definition MakeStubFromJSON :: "'w out_env \<Rightarrow> 'j jason \<Rightarrow> 'j \<Rightarrow> string \<Rightarrow> 'w \<Rightarrow> error option \<times> 'w" where
  "MakeStubFromJSON O1 J json pathPrefix o1 =
     (let versionArray = or_zero [] (jo_objects J json ''Versions'') in
      if versionArray = [] then (Some index_panic, o1)
      else
        (case jo_ints J (opt_object (jo_object J (last versionArray) ''Slots'')) of
           Inl e \<Rightarrow> (Some e, o1)
         | Inr slotMap \<Rightarrow> (None, make_stubs O1 pathPrefix (gkeys slotMap) o1)))"

text \<open>\<open>exists\<close> is whether \<open>os.Stat\<close> of the target succeeds.\<close>

definition doGetStub ::
  "'w out_env \<Rightarrow> ('v, 'j) client_env \<Rightarrow> (string \<Rightarrow> bool) \<Rightarrow> flags \<Rightarrow> string \<Rightarrow> 'w \<Rightarrow> 'v \<Rightarrow> int result \<times> 'w \<times> 'v" where
  "doGetStub O1 E exists fg item o1 v =
     (let pathPrefix = path_Join [fg_fileroot fg, item] in
      if exists pathPrefix then (Inr 1, o1, v)
      else
        (case ItemInfo E (new_conn fg) v item of
           (Inl e, v1) \<Rightarrow> (Inr (if e = ErrItemNotFound then 0 else 1), o1, v1)
         | (Inr json, v1) \<Rightarrow>
             (case MakeStubFromJSON O1 (ce_jason E) json pathPrefix o1 of
                (Some e, o2) \<Rightarrow> (Inl e, o2, v1)
              | (None, o2) \<Rightarrow> (Inr 0, o2, v1))))"

text \<open>\<open>%5d\<close>, \<open>%-8s\<close> and \<open>%02d\<close>.\<close>

definition pad_left :: "nat \<Rightarrow> string \<Rightarrow> string" where
  "pad_left w s = replicate (w - length s) (CHR '' '') @ s"

definition pad_right :: "nat \<Rightarrow> string \<Rightarrow> string" where
  "pad_right w s = s @ replicate (w - length s) (CHR '' '')"

definition fmt_02d :: "int \<Rightarrow> string" where
  "fmt_02d n = (if n < 0 then CHR ''-'' # zero_pad 1 (nat_digits (nat (- n))) else zero_pad 2 (nat_digits (nat n)))"

fun replace_first :: "char \<Rightarrow> char \<Rightarrow> string \<Rightarrow> string" where
  "replace_first a b [] = []"
| "replace_first a b (c # cs) = (if c = a then b # cs else c # replace_first a b cs)"

definition show_date :: "string \<Rightarrow> string" where
  "show_date d = hd (split_all (CHR ''.'') (replace_first (CHR ''T'') (CHR '' '') d))"

definition ls_line :: "'j jason \<Rightarrow> 'j list \<Rightarrow> (string, int result) gomap \<Rightarrow> bool \<Rightarrow> int option \<Rightarrow> string \<Rightarrow> string \<Rightarrow> string result" where
  "ls_line J blobs slots long shown item key =
     (let rest = item @ ''/'' @ (case shown of None \<Rightarrow> '''' | Some v \<Rightarrow> ''@'' @ fmt_d v @ ''/'') @ key in
      if \<not> long then Inr rest
      else
        (let blobID = (case gget slots key of None \<Rightarrow> 0 | Some n \<Rightarrow> or_zero 0 n) in
         if blobID < 1 \<or> blobID > int (length blobs) then Inl index_panic
         else
           (let blob = blobs ! nat (blobID - 1) in
            Inr (pad_left 5 (fmt_d blobID) @ '' '' @ pad_left 12 (fmt_d (or_zero 0 (jo_int64 J blob ''Size''))) @ '' '' @
                 show_date (or_zero '''' (jo_string J blob ''SaveDate'')) @ '' '' @
                 pad_right 8 (or_zero '''' (jo_string J blob ''Creator'')) @ '' '' @ rest))))"

fun ls_lines :: "(string \<Rightarrow> string result) \<Rightarrow> string list \<Rightarrow> string list result" where
  "ls_lines f [] = Inr []"
| "ls_lines f (k # ks) = (case f k of Inl e \<Rightarrow> Inl e | Inr l \<Rightarrow> (case ls_lines f ks of Inl e \<Rightarrow> Inl e | Inr ls \<Rightarrow> Inr (l # ls)))"

text \<open>The lines that are printed. With no versions the index of the newest one is -1.\<close>

definition PrintLsFromJSON :: "'j jason \<Rightarrow> 'j \<Rightarrow> int \<Rightarrow> bool \<Rightarrow> string \<Rightarrow> string list result" where
  "PrintLsFromJSON J json version long item =
     (let blobArray = or_zero [] (jo_objects J json ''Blobs''); versionArray = or_zero [] (jo_objects J json ''Versions'') in
      if version < 0 \<or> version > int (length versionArray) then Inr [''Version '' @ fmt_d version @ '' is out of range'']
      else
        (let v = (if version = 0 then int (length versionArray) else version);
             shown = (if version = 0 then None else Some version)
         in if v < 1 then Inl index_panic
            else
              (let slotObj = opt_object (jo_object J (versionArray ! nat (v - 1)) ''Slots'') in
               case jo_ints J slotObj of
                 Inl e \<Rightarrow> Inl e
               | Inr slots \<Rightarrow>
                   (case ls_lines (ls_line J blobArray slots long shown item) (sort (gkeys slots)) of
                      Inl e \<Rightarrow> Inl e
                    | Inr ls \<Rightarrow> Inr ((if long then ['' Blob        Bytes Uploaded            Creator  File'', replicate 85 (CHR ''-'')] else []) @ ls)))))"

definition PrintListFromJSON :: "'j jason \<Rightarrow> 'j \<Rightarrow> string list" where
  "PrintListFromJSON J json =
     map (\<lambda>v. let n = or_zero '''' (jo_string J v ''Note'') in
        ''@'' @ fmt_02d (or_zero 0 (jo_int64 J v ''ID'')) @ '' '' @ show_date (or_zero '''' (jo_string J v ''SaveDate'')) @ '' '' @
        or_zero '''' (jo_string J v ''Creator'') @ '' '' @ (if n = '''' then [CHR 0x22, CHR 0x22] else n))
       (or_zero [] (jo_objects J json ''Versions''))"

definition doLs :: "('v, 'j) client_env \<Rightarrow> flags \<Rightarrow> string \<Rightarrow> 'v \<Rightarrow> (int \<times> string list) result \<times> 'v" where
  "doLs E fg item v =
     (case ItemInfo E (new_conn fg) v item of
        (Inl e, v1) \<Rightarrow> (Inr (if e = ErrItemNotFound then 0 else 1, []), v1)
      | (Inr json, v1) \<Rightarrow>
          (case PrintLsFromJSON (ce_jason E) json (fg_version fg) (fg_longV fg) item of
             Inl e \<Rightarrow> (Inl e, v1)
           | Inr ls \<Rightarrow> (Inr (0, ls), v1)))"

definition doHistory :: "('v, 'j) client_env \<Rightarrow> flags \<Rightarrow> string \<Rightarrow> 'v \<Rightarrow> (int \<times> string list) \<times> 'v" where
  "doHistory E fg item v =
     (case ItemInfo E (new_conn fg) v item of
        (Inl e, v1) \<Rightarrow> ((if e = ErrItemNotFound then 0 else 1, []), v1)
      | (Inr json, v1) \<Rightarrow> ((0, PrintListFromJSON (ce_jason E) json), v1))"

section \<open>The command line\<close>

text \<open>What \<open>main\<close> runs for the arguments after the flags, with the size of the chunks in megabytes turned into bytes. Profiles are left out.\<close>

datatype client_cmd = CUpload string string | CLs string | CGet string "string list" | CGetStub string | CHistory string

definition client_main :: "bool \<Rightarrow> flags \<Rightarrow> string list \<Rightarrow> (error + int + client_cmd) \<times> flags" where
  "client_main stub fg args =
     (if length args = 0 then (Inr (Inl 1), fg)
      else
        (let fg1 = fg\<lparr>fg_chunksize := fg_chunksize fg * 2 ^ 20\<rparr> in
         (if args ! 0 = ''upload'' then (if length args \<noteq> 3 then Inr (Inl 1) else Inr (Inr (CUpload (args ! 1) (args ! 2))))
          else if args ! 0 = ''ls'' then (if length args \<noteq> 2 then Inr (Inl 1) else Inr (Inr (CLs (args ! 1))))
          else if args ! 0 = ''get'' then
            (if length args < 2 then Inl index_panic
             else if stub then Inr (Inr (CGetStub (args ! 1))) else Inr (Inr (CGet (args ! 1) (drop 2 args))))
          else if args ! 0 = ''history'' then (if length args \<noteq> 2 then Inr (Inl 1) else Inr (Inr (CHistory (args ! 1))))
          else Inr (Inl 1), fg1)))"

section \<open>Printing of lists\<close>

definition PrintBlobs :: "filelist \<Rightarrow> string list" where
  "PrintBlobs fl = map (\<lambda>(md5, blob). ''BlobId[ '' @ md5 @ '' ] = '' @ fmt_d blob) (fl_Blobs fl) @ ['''']"

definition PrintFiles :: "filelist \<Rightarrow> string list" where
  "PrintFiles fl = map (\<lambda>(filename, info). ''File: '' @ filename @ '' blob '' @ fmt_d (cf_BlobID info) @ '' md5 '' @ hex_encode (cf_MD5 info)) (fl_Files fl)"

end
