(* ===== verification/Client_Upload.thy ===== *)
theory Client_Upload
  imports Client_Api Server_Upload_Correct
begin

text \<open>
  The upload of a file by the client library (src/bclientapi/chunkfile.go) to the upload handlers of the server. The locale
  \<open>upload_service\<close> is what the client relies on, \<open>seek_source\<close> is the contract of \<open>io.ReadSeeker\<close>; a network in front of the modelled
  handlers provides the first as long as it loses no answers, an open file the second.
\<close>

section \<open>Base 64\<close>

lemma b64_val_char [simp]: "n < 64 \<Longrightarrow> b64_val (b64_char n) = Some n"
  by (auto simp: b64_char_def b64_val_def Let_def)

lemma b64_char_plain: "n < 64 \<Longrightarrow> of_char (b64_char n) \<noteq> (10 :: nat) \<and> of_char (b64_char n) \<noteq> (13 :: nat)"
  by (auto simp: b64_char_def)

lemma b64_pad [simp]: "b64_val (CHR ''='') = None"
  by code_simp

lemma b64_bits:
  fixes a b c :: char
  shows "of_char a div 4 < (64 :: nat)" and "of_char a mod 4 * 16 < (64 :: nat)" and "of_char a mod 4 * 16 + of_char b div 16 < (64 :: nat)"
    and "of_char b mod 16 * 4 < (64 :: nat)" and "of_char b mod 16 * 4 + of_char c div 64 < (64 :: nat)" and "of_char c mod 64 < (64 :: nat)"
  using of_char_lt[of a] of_char_lt[of b] of_char_lt[of c] by linarith+

lemma b64_join:
  fixes a b c :: nat
  assumes "a < 256" and "b < 256" and "c < 256"
  shows "a div 4 * 4 + (a mod 4 * 16 + b div 16) div 16 = a" and "a div 4 * 4 + (a mod 4 * 16) div 16 = a"
    and "(a mod 4 * 16 + b div 16) mod 16 * 16 + (b mod 16 * 4 + c div 64) div 4 = b"
    and "(a mod 4 * 16 + b div 16) mod 16 * 16 + (b mod 16 * 4) div 4 = b"
    and "(b mod 16 * 4 + c div 64) mod 4 * 64 + c mod 64 = c"
proof -
  have q: "b div 16 < 16" "c div 64 < 4" using assms by linarith+
  show "a div 4 * 4 + (a mod 4 * 16 + b div 16) div 16 = a" using q by simp
  show "a div 4 * 4 + (a mod 4 * 16) div 16 = a" by simp
  have m: "(a mod 4 * 16 + b div 16) mod 16 = b div 16" using q by simp
  show "(a mod 4 * 16 + b div 16) mod 16 * 16 + (b mod 16 * 4 + c div 64) div 4 = b" unfolding m using q by simp
  show "(a mod 4 * 16 + b div 16) mod 16 * 16 + (b mod 16 * 4) div 4 = b" unfolding m by simp
  have "(b mod 16 * 4 + c div 64) mod 4 = c div 64" using q by simp
  then show "(b mod 16 * 4 + c div 64) mod 4 * 64 + c mod 64 = c" by simp
qed

lemma b64_quanta_encode: "b64_quanta (b64_encode bs) = (bs, False)"
proof (induction bs rule: b64_encode.induct)
  case (2 a)
  show ?case using b64_join[OF of_char_lt[of a] of_char_lt[of a] of_char_lt[of a]] by (simp add: b64_bits)
next
  case (3 a b)
  show ?case using b64_join[OF of_char_lt[of a] of_char_lt[of b] of_char_lt[of a]] by (simp add: b64_bits)
next
  case (4 a b c r)
  then show ?case using b64_join[OF of_char_lt[of a] of_char_lt[of b] of_char_lt[of c]] by (simp add: b64_bits)
qed simp

lemma b64_encode_plain: "x \<in> set (b64_encode bs) \<Longrightarrow> of_char x \<noteq> (10 :: nat) \<and> of_char x \<noteq> (13 :: nat)"
  by (induction bs rule: b64_encode.induct) (auto simp: b64_char_plain b64_bits)

lemma b64_roundtrip [simp]: "b64_decode (b64_encode bs) = (bs, False)"
proof -
  have "filter (\<lambda>c. of_char c \<noteq> (10 :: nat) \<and> of_char c \<noteq> (13 :: nat)) (b64_encode bs) = b64_encode bs"
    by (rule filter_True) (use b64_encode_plain in blast)
  then show ?thesis by (simp add: b64_decode_def b64_quanta_encode)
qed

lemma b64_encode_Nil [simp]: "b64_encode bs = [] \<longleftrightarrow> bs = []"
  by (cases bs rule: b64_encode.cases) simp_all

section \<open>The contracts\<close>

text \<open>Reading gives at least one byte before the end and may give fewer than asked for.\<close>

locale seek_source =
  fixes R :: "'r seeker" and data :: bytes and pos :: "'r \<Rightarrow> nat"
  assumes read_end: "0 < n \<Longrightarrow> length data \<le> pos r \<Longrightarrow> \<exists>r1. sk_Read R r n = (([], Some EOF), r1)"
    and read_some: "0 < n \<Longrightarrow> pos r < length data \<Longrightarrow> \<exists>p err r1. sk_Read R r n = ((p, err), r1) \<and> p \<noteq> [] \<and>
        p = take (length p) (drop (pos r) data) \<and> pos r1 = pos r + length p \<and> (err = None \<or> err = Some EOF \<and> pos r1 = length data)"
    and seek_start: "0 \<le> k \<Longrightarrow> \<exists>r1. sk_Seek R r k SeekStart = ((k, None), r1) \<and> pos r1 = nat k"
    and seek_end: "\<exists>r1. sk_Seek R r 0 SeekEnd = ((int (length data), None), r1)"
begin

lemma copy_all:
  assumes n: "0 < n"
  shows "pos r \<le> length data \<Longrightarrow> \<exists>r1. seeker_copy R n r acc = Some ((acc @ drop (pos r) data, None), r1)"
proof (induction "length data - pos r" arbitrary: r acc rule: less_induct)
  case less
  show ?case
  proof (cases "pos r < length data")
    case False
    then obtain r1 where "sk_Read R r n = (([], Some EOF), r1)" using read_end[OF n, of r] by auto
    with False show ?thesis by (subst seeker_copy.simps) simp
  next
    case True
    then obtain p err r1 where rd: "sk_Read R r n = ((p, err), r1)" "p \<noteq> []" "p = take (length p) (drop (pos r) data)"
        "pos r1 = pos r + length p" "err = None \<or> err = Some EOF \<and> pos r1 = length data"
      using read_some[OF n] by blast
    have le: "pos r1 \<le> length data" using arg_cong[OF rd(3), of length] rd(4) True by simp
    have step: "p @ drop (pos r1) data = drop (pos r) data"
      using rd(3,4) append_take_drop_id[of "length p" "drop (pos r) data"] by (simp add: add.commute)
    show ?thesis
    proof (cases err)
      case None
      have "length data - pos r1 < length data - pos r" using rd(2,4) True by (cases p) simp_all
      from less.hyps[OF this le, of "acc @ p"] None show ?thesis using step by (subst seeker_copy.simps) (simp add: rd(1))
    next
      case (Some e)
      then show ?thesis using rd(5) step by (subst seeker_copy.simps) (simp add: rd(1))
    qed
  qed
qed

end

definition uploaded :: "bytes option \<Rightarrow> bytes" where
  "uploaded b = (case b of None \<Rightarrow> [] | Some d \<Rightarrow> d)"

definition accepted :: "client_response result \<Rightarrow> bool" where
  "accepted a = (case a of Inl e \<Rightarrow> False | Inr resp \<Rightarrow> cp_Status resp = 200)"

text \<open>The content of uploaded files is \<open>cont\<close>, the sum that is recorded for a file \<open>msum\<close>. A chunk is appended exactly when the client gets the status
  200. In a state that is \<open>up\<close> the next request is answered; in a \<open>clear\<close> state this and all later ones are.\<close>

locale upload_service =
  fixes E :: "('v, 'j) client_env" and H :: hashes and c :: conn and cont :: "'v \<Rightarrow> string \<Rightarrow> bytes option" and msum :: "'v \<Rightarrow> string \<Rightarrow> bytes"
    and vinv up clear :: "'v \<Rightarrow> bool" and okname :: "string \<Rightarrow> bool"
  assumes url: "okname name \<Longrightarrow> ce_parse E (co_HostURL c @ ''/upload/'' @ name) = None"
      "okname name \<Longrightarrow> ce_parse E (co_HostURL c @ ''/upload/'' @ name @ ''/metadata'') = None"
    and clear_up: "clear v \<Longrightarrow> up v"
    and post: "vinv v \<Longrightarrow> okname name \<Longrightarrow> conn_do E c v (upload_request c name chunk (h_md5 H chunk) info) = (a, v') \<Longrightarrow>
        vinv v' \<and> cont v' = (if accepted a then (cont v)(name \<mapsto> uploaded (cont v name) @ chunk) else cont v)"
    and post_clear: "vinv v \<Longrightarrow> okname name \<Longrightarrow> clear v \<Longrightarrow>
        conn_do E c v (upload_request c name chunk (h_md5 H chunk) info) = (a, v') \<Longrightarrow> accepted a \<and> clear v'"
    and no_panic: "vinv v \<Longrightarrow> okname name \<Longrightarrow>
        conn_do E c v (upload_request c name chunk (h_md5 H chunk) info) = (a, v') \<Longrightarrow> a \<noteq> Inl nil_request"
    and info: "vinv v \<Longrightarrow> okname name \<Longrightarrow> up v \<Longrightarrow> getUploadInfo E c v name = ((remote, err), v') \<Longrightarrow>
        vinv v' \<and> cont v' = cont v \<and> (clear v \<longrightarrow> clear v') \<and>
        fi_Size remote = int (length (uploaded (cont v name))) \<and> fi_MD5 remote = (if cont v name = None then [] else msum v name)"

lemma upload0_size: "upload0 E (c\<lparr>co_ChunkSize := m\<rparr>) = upload0 E c"
  by (simp add: upload0_def fun_eq_iff conn_do_def upload_request_def)

lemma try_chunk_size: "try_chunk E (c\<lparr>co_ChunkSize := m\<rparr>) name chunk md5 finfo n e0 v = try_chunk E c name chunk md5 finfo n e0 v"
  by (induction n arbitrary: e0 v) (simp_all add: upload0_size split: prod.splits option.splits)

text \<open>A source of bytes and a service, and the upload from one to the other.\<close>

locale uploading = seek_source R data pos + upload_service E H c cont msum vinv up clear okname
  for R :: "'r seeker" and data pos and E :: "('v, 'j) client_env" and H c cont msum vinv up clear okname
begin

lemma upload0_ok:
  assumes "vinv v" and "okname name" and u: "upload0 E c v name chunk (h_md5 H chunk) finfo = (err, v')"
  shows "vinv v'" and "cont v' = (if err = None then (cont v)(name \<mapsto> uploaded (cont v name) @ chunk) else cont v)"
    and "err \<noteq> Some nil_request" and "clear v \<Longrightarrow> err = None \<and> clear v'"
proof -
  obtain a v1 where d: "conn_do E c v (upload_request c name chunk (h_md5 H chunk) finfo) = (a, v1)" by fastforce
  have e: "v' = v1" "(err = None) = accepted a" "a = Inl nil_request \<or> err \<noteq> Some nil_request"
    using u url(1)[OF assms(2)]
    by (auto simp: upload0_def d accepted_def nil_request_def split: sum.splits if_splits)
  show "vinv v'" and "cont v' = (if err = None then (cont v)(name \<mapsto> uploaded (cont v name) @ chunk) else cont v)"
    using post[OF assms(1,2) d] e by simp_all
  show "err \<noteq> Some nil_request" using e(3) no_panic[OF assms(1,2) d] by blast
  show "clear v \<Longrightarrow> err = None \<and> clear v'" using post_clear[OF assms(1,2) _ d] e by blast
qed

lemma try_chunk_ok:
  assumes "vinv v" and "okname name" and "try_chunk E c name chunk (h_md5 H chunk) finfo n e0 v = (err, v')" and "0 < n \<or> e0 \<noteq> None"
  shows "vinv v' \<and> cont v' = (if err = None then (cont v)(name \<mapsto> uploaded (cont v name) @ chunk) else cont v) \<and>
    (0 < n \<longrightarrow> clear v \<longrightarrow> err = None \<and> clear v')"
  using assms
proof (induction n arbitrary: v e0)
  case (Suc n)
  obtain e1 v1 where u: "upload0 E c v name chunk (h_md5 H chunk) finfo = (e1, v1)" by fastforce
  note ok = upload0_ok[OF Suc.prems(1,2) u]
  show ?case
  proof (cases e1)
    case None
    then show ?thesis using Suc.prems(3) ok by (simp add: u)
  next
    case (Some e)
    then have "try_chunk E c name chunk (h_md5 H chunk) finfo n (Some e) v1 = (err, v')" using Suc.prems(3) ok(3) by (simp add: u)
    from Suc.IH[OF ok(1) Suc.prems(2) this] ok(2,4) Some show ?thesis by auto
  qed
qed auto

lemma send_chunks_ok:
  assumes "okname name" and size: "0 < m"
  shows "vinv v \<Longrightarrow> pos r \<le> length data \<Longrightarrow> uploaded (cont v name) = b @ take (pos r) data \<Longrightarrow>
    \<exists>err r' v'. send_chunks R E H (c\<lparr>co_ChunkSize := m\<rparr>) name finfo r v = Some (err, r', v') \<and> vinv v' \<and> (\<forall>f. f \<noteq> name \<longrightarrow> cont v' f = cont v f) \<and>
      (\<exists>k. uploaded (cont v' name) = b @ take k data) \<and> (err = None \<longrightarrow> uploaded (cont v' name) = b @ data) \<and> (clear v \<longrightarrow> err = None)"
proof (induction "length data - pos r" arbitrary: r v rule: less_induct)
  case less
  have n: "0 < nat m" using size by simp
  show ?case
  proof (cases "pos r < length data")
    case False
    then obtain r1 where "sk_Read R r (nat m) = (([], Some EOF), r1)" using read_end[OF n, of r] by auto
    then have "send_chunks R E H (c\<lparr>co_ChunkSize := m\<rparr>) name finfo r v = Some (None, r1, v)" by (subst send_chunks.simps) simp
    with False less.prems show ?thesis by (auto intro: exI[of _ "pos r"])
  next
    case True
    then obtain p err r1 where rd: "sk_Read R r (nat m) = ((p, err), r1)" "p \<noteq> []" "p = take (length p) (drop (pos r) data)"
        "pos r1 = pos r + length p" "err = None \<or> err = Some EOF"
      using read_some[OF n] by blast
    have le: "pos r1 \<le> length data" using arg_cong[OF rd(3), of length] rd(4) True by simp
    have lt: "length data - pos r1 < length data - pos r" using rd(2,4) True by (cases p) simp_all
    obtain e v1 where t: "try_chunk E c name p (h_md5 H p) finfo 5 None v = (e, v1)" by fastforce
    have "0 < (5 :: nat) \<or> None \<noteq> (None :: error option)" by simp
    note ok = try_chunk_ok[OF less.prems(1) assms(1) t this]
    have app: "take (pos r) data @ p = take (pos r1) data" unfolding rd(4) take_add by (subst rd(3)) simp
    show ?thesis
    proof (cases e)
      case None
      then have c1: "cont v1 = (cont v)(name \<mapsto> b @ take (pos r1) data)" and i1: "vinv v1" using ok less.prems(3) app by simp_all
      have "uploaded (cont v1 name) = b @ take (pos r1) data" by (simp add: c1 uploaded_def)
      from less.hyps[OF lt i1 le this] obtain err' r' v' where IH: "send_chunks R E H (c\<lparr>co_ChunkSize := m\<rparr>) name finfo r1 v1 = Some (err', r', v')" "vinv v'"
          "\<forall>f. f \<noteq> name \<longrightarrow> cont v' f = cont v1 f" "\<exists>k. uploaded (cont v' name) = b @ take k data"
          "err' = None \<longrightarrow> uploaded (cont v' name) = b @ data" "clear v1 \<longrightarrow> err' = None" by blast
      have "send_chunks R E H (c\<lparr>co_ChunkSize := m\<rparr>) name finfo r v = Some (err', r', v')"
        using rd(1,2,5) None IH(1) by (subst send_chunks.simps) (auto simp: t try_chunk_size)
      then show ?thesis using IH ok c1 by auto
    next
      case (Some e')
      have "send_chunks R E H (c\<lparr>co_ChunkSize := m\<rparr>) name finfo r v = Some (Some e', r1, v1)"
        using rd(1,2,5) Some by (subst send_chunks.simps) (auto simp: t try_chunk_size)
      then show ?thesis using ok Some less.prems(3) by auto
    qed
  qed
qed

text \<open>What an upload leaves behind: the content is a part of the data from its start, all of it when no error is reported.\<close>

definition upload_post :: "string \<Rightarrow> 'v \<Rightarrow> error option \<Rightarrow> 'v \<Rightarrow> bool" where
  "upload_post name v err v' = (vinv v' \<and> (\<forall>f. f \<noteq> name \<longrightarrow> cont v' f = cont v f) \<and> (\<exists>k. uploaded (cont v' name) = take k data) \<and>
     (err = None \<longrightarrow> cont v' name = Some data))"

lemma upload_known_ok:
  assumes i: "vinv v" and ok: "okname name" and "up v" and size: "0 \<le> co_ChunkSize c" and finfo: "fi_Size finfo = int (length data)"
    and k: "uploaded (cont v name) = take k data" and md5: "h_md5 H [] = emptyMD5"
  shows "\<exists>err c' r' v'. upload_known R E H c name finfo r v = Some (err, c', r', v') \<and> upload_post name v err v' \<and>
    (clear v \<and> (msum v name = [] \<or> msum v name = fi_MD5 finfo) \<longrightarrow> err = None)"
proof -
  obtain remote err1 v1 where g: "getUploadInfo E c v name = ((remote, err1), v1)" by (metis prod.exhaust)
  note R = info[OF i ok assms(3) g]
  have sz: "fi_Size remote = int (length (take k data))" and m: "fi_MD5 remote = (if cont v name = None then [] else msum v name)"
    and i1: "vinv v1" and c1: "cont v1 = cont v" using R k by simp_all
  have P: "upload_post name v1 err v' \<Longrightarrow> upload_post name v err v'" for err v' using c1 by (simp add: upload_post_def)
  consider (sum) "length (fi_MD5 remote) > 0 \<and> fi_MD5 remote \<noteq> fi_MD5 finfo"
    | (done1) "\<not> (length (fi_MD5 remote) > 0 \<and> fi_MD5 remote \<noteq> fi_MD5 finfo)" "data \<noteq> []" "length data \<le> k"
    | (empty) "\<not> (length (fi_MD5 remote) > 0 \<and> fi_MD5 remote \<noteq> fi_MD5 finfo)" "data = []"
    | (more) "\<not> (length (fi_MD5 remote) > 0 \<and> fi_MD5 remote \<noteq> fi_MD5 finfo)" "data \<noteq> []" "k < length data"
    using leI by blast
  then show ?thesis
  proof cases
    case sum
    then have "upload_known R E H c name finfo r v = Some (Some ErrUnexpectedResp, c, r, v1)" by (simp add: upload_known_def g)
    moreover have "upload_post name v (Some ErrUnexpectedResp) v1" using i1 c1 k by (auto simp: upload_post_def)
    ultimately show ?thesis using sum m by (auto split: if_splits)
  next
    case done1
    then have "upload_known R E H c name finfo r v = Some (None, c, r, v1)" using sz finfo by (simp add: upload_known_def g)
    moreover have "upload_post name v None v1" using i1 c1 k done1 by (auto simp: upload_post_def uploaded_def split: option.splits intro: exI[of _ "length data"])
    ultimately show ?thesis by blast
  next
    case empty
    obtain r1 where s: "sk_Seek R r 0 SeekStart = ((0, None), r1)" using seek_start[of 0 r] by auto
    obtain e v2 where u: "upload0 E c v1 name [] (h_md5 H []) finfo = (e, v2)" by fastforce
    have "upload_known R E H c name finfo r v = Some (e, c, r1, v2)"
      using empty sz finfo s u md5 by (auto simp: upload_known_def g)
    moreover have "upload_post name v e v2" unfolding upload_post_def using upload0_ok(1,2)[OF i1 ok u] c1 k empty by (auto simp: uploaded_def)
    ultimately show ?thesis using upload0_ok(4)[OF i1 ok u] R by blast
  next
    case more
    then have "0 \<le> int k" by simp
    from seek_start[OF this, of r] obtain r1 where s: "sk_Seek R r (int k) SeekStart = ((int k, None), r1)" "pos r1 = k" by auto
    define n where "n = (if co_ChunkSize c = 0 then 10 * 2 ^ 20 else co_ChunkSize c)"
    have n: "0 < n" using size by (simp add: n_def)
    have cn: "(if co_ChunkSize c = 0 then c\<lparr>co_ChunkSize := 10 * 2 ^ 20\<rparr> else c) = c\<lparr>co_ChunkSize := n\<rparr>" by (simp add: n_def)
    have "pos r1 \<le> length data" "uploaded (cont v1 name) = take (pos r1) data" using s(2) more c1 k by simp_all
    from send_chunks_ok[OF ok n i1, of r1 "[]" finfo, unfolded append_Nil] this obtain err r' v' where
      u: "send_chunks R E H (c\<lparr>co_ChunkSize := n\<rparr>) name finfo r1 v1 = Some (err, r', v')" "vinv v'"
         "\<forall>f. f \<noteq> name \<longrightarrow> cont v' f = cont v1 f" "\<exists>k. uploaded (cont v' name) = take k data"
         "err = None \<longrightarrow> uploaded (cont v' name) = data" "clear v1 \<longrightarrow> err = None" by blast
    have "upload_known R E H c name finfo r v = Some (err, c\<lparr>co_ChunkSize := n\<rparr>, r', v')"
      using more n sz finfo s(1) u(1) unfolding upload_known_def g Let_def case_prod_conv cn by auto
    moreover have "upload_post name v err v'" using u(2-5) c1 more(2) by (auto simp: upload_post_def uploaded_def split: option.splits)
    ultimately show ?thesis using u(6) R by blast
  qed
qed

lemma conn_upload_ok:
  assumes "vinv v" and "okname name" and "up v" and "0 \<le> co_ChunkSize c" and k: "uploaded (cont v name) = take k data" and "h_md5 H [] = emptyMD5"
    and size: "fi_Size finfo = 0 \<or> fi_Size finfo = int (length data)" and r: "pos r = 0"
    and md5: "fi_MD5 finfo = [] \<or> fi_MD5 finfo = h_md5 H data" and sum: "msum v name = [] \<or> msum v name = h_md5 H data"
  shows "\<exists>err c' r' v'. conn_upload R E H c name r finfo v = Some (err, c', r', v') \<and> upload_post name v err v' \<and> (clear v \<longrightarrow> err = None)"
proof -
  let ?i = "finfo\<lparr>fi_MD5 := h_md5 H data, fi_Size := int (length data)\<rparr>"
  have known: "\<exists>err c' r' v'. upload_known R E H c name ?i r v = Some (err, c', r', v') \<and> upload_post name v err v' \<and> (clear v \<longrightarrow> err = None)" for r
    using upload_known_ok[OF assms(1-4) _ k assms(6), of ?i r] sum by auto
  obtain r1 where first: "(if length (fi_MD5 finfo) = 0 then
              (case seeker_copy R copy_buffer r [] of
                 None \<Rightarrow> None
               | Some ((data, err), r1) \<Rightarrow> Some (err, finfo\<lparr>fi_MD5 := h_md5 H data\<rparr>, r1))
            else Some (None, finfo, r)) = Some (None, finfo\<lparr>fi_MD5 := h_md5 H data\<rparr>, r1)"
  proof (cases "fi_MD5 finfo = []")
    case True
    obtain r1 where "seeker_copy R copy_buffer r [] = Some ((data, None), r1)"
      using copy_all[of copy_buffer r "[]"] r by (auto simp: copy_buffer_def)
    with True show ?thesis using that by simp
  qed (use md5 that in simp)
  obtain r2 where s: "sk_Seek R r1 0 SeekEnd = ((int (length data), None), r2)" using seek_end by blast
  show ?thesis
  proof (cases "fi_Size finfo = 0")
    case True
    have "conn_upload R E H c name r finfo v = upload_known R E H c name ?i r2 v" using True by (simp add: conn_upload_def first[simplified] s)
    then show ?thesis using known by simp
  next
    case False
    then have "finfo\<lparr>fi_MD5 := h_md5 H data\<rparr> = ?i" using size by simp
    then have "conn_upload R E H c name r finfo v = upload_known R E H c name ?i r1 v" using False by (simp add: conn_upload_def first[simplified])
    then show ?thesis using known by simp
  qed
qed

end

section \<open>An open file\<close>

text \<open>\<open>os.File\<close> of a file that is not changed while it is read.\<close>

record os_file =
  of_data :: bytes
  of_pos :: nat

definition os_Read :: "os_file \<Rightarrow> nat \<Rightarrow> (bytes \<times> error option) \<times> os_file" where
  "os_Read f n =
     (let p = take n (drop (of_pos f) (of_data f))
      in ((p, if p = [] \<and> 0 < n then Some EOF else None), f\<lparr>of_pos := of_pos f + length p\<rparr>))"

definition os_Seek :: "os_file \<Rightarrow> int \<Rightarrow> whence \<Rightarrow> (int \<times> error option) \<times> os_file" where
  "os_Seek f off wh =
     (let p = (case wh of SeekStart \<Rightarrow> off | SeekEnd \<Rightarrow> int (length (of_data f)) + off)
      in if p < 0 then ((0, Some (IOError ''invalid argument'')), f) else ((p, None), f\<lparr>of_pos := nat p\<rparr>))"

text \<open>The content is part of the reader, so that files of any content can be uploaded.\<close>

definition os_seeker :: "bytes \<Rightarrow> nat seeker" where
  "os_seeker d = \<lparr>sk_Read = (\<lambda>p n. case os_Read \<lparr>of_data = d, of_pos = p\<rparr> n of (res, f) \<Rightarrow> (res, of_pos f)),
     sk_Seek = (\<lambda>p off wh. case os_Seek \<lparr>of_data = d, of_pos = p\<rparr> off wh of (res, f) \<Rightarrow> (res, of_pos f))\<rparr>"

interpretation os: seek_source "os_seeker d" d "\<lambda>p. p" for d
proof unfold_locales
  fix n r :: nat
  assume n: "0 < n" and r: "r < length d"
  let ?p = "take n (drop r d)"
  have "sk_Read (os_seeker d) r n = ((?p, None), r + length ?p)" and "?p \<noteq> []" using n r by (auto simp: os_seeker_def os_Read_def Let_def)
  moreover have "take (length ?p) (drop r d) = ?p" by (cases "n \<le> length (drop r d)") simp_all
  ultimately show "\<exists>p err r1. sk_Read (os_seeker d) r n = ((p, err), r1) \<and> p \<noteq> [] \<and> p = take (length p) (drop r d) \<and> r1 = r + length p \<and>
      (err = None \<or> err = Some EOF \<and> r1 = length d)"
    by (intro exI[of _ ?p] exI[of _ None] exI[of _ "r + length ?p"]) metis
qed (auto simp: os_seeker_def os_Read_def os_Seek_def Let_def)

section \<open>The network and the server\<close>

text \<open>What may happen to a request: it is answered, it does not reach the server, its answer is lost, or the connection breaks when so many
  bytes of the body have been sent. A server has one state, its uploaded files; requests beyond the list of faults are answered.\<close>

datatype fault = Deliver | Refuse | LoseAnswer | Break nat

record network =
  nt_files :: "memory frag_store"
  nt_faults :: "fault list"

text \<open>The server: its address, its validator and its parameters; and the parameters of the client.\<close>

record 'j world =
  wd_host :: string
  wd_parse :: "string \<Rightarrow> error option"
  wd_V :: validator
  wd_J :: "file_t json"
  wd_H :: hashes
  wd_now :: time
  wd_tmpl :: "stat \<Rightarrow> bytes"
  wd_js :: "stat \<Rightarrow> bytes"
  wd_dec :: "bytes list \<times> error option \<Rightarrow> 'j result"
  wd_jason :: "'j jason"

definition upload_handlers :: "'j world \<Rightarrow> endpoint \<Rightarrow> memory frag_store handler" where
  "upload_handlers W ep =
     (case ep of
        AppendFileHandler_ep \<Rightarrow>
          (\<lambda>r w st. case AppendFileHandler mem_ops (wd_J W) (wd_H W) (wd_now W) [] r w st of None \<Rightarrow> (w, st) | Some res \<Rightarrow> res)
      | GetFileInfoHandler_ep \<Rightarrow> GetFileInfoHandler (wd_tmpl W) (wd_js W)
      | _ \<Rightarrow> NotImplementedHandler)"

definition upload_route :: "string \<Rightarrow> client_request \<Rightarrow> ((string \<times> string \<times> role \<times> endpoint) \<times> string) option" where
  "upload_route host q =
     (if has_prefix (cq_URL q) (host @ ''/upload/'') then
        (case split_all (CHR ''/'') (trim_prefix (cq_URL q) (host @ ''/upload/'')) of
           [name] \<Rightarrow> if cq_Method q = ''POST'' then Some ((''POST'', ''/upload/:fileid'', RoleWrite, AppendFileHandler_ep), name) else None
         | [name, m] \<Rightarrow>
             if cq_Method q = ''GET'' \<and> m = ''metadata''
             then Some ((''GET'', ''/upload/:fileid/metadata'', RoleMDOnly, GetFileInfoHandler_ep), name) else None
         | _ \<Rightarrow> None)
      else None)"

definition net_serve :: "'j world \<Rightarrow> client_request \<Rightarrow> bytes \<times> error option \<Rightarrow> memory frag_store \<Rightarrow> response \<times> memory frag_store" where
  "net_serve W q body files =
     (case upload_route (wd_host W) q of
        None \<Rightarrow> (WriteHeader 404 new_response, files)
      | Some (route, name) \<Rightarrow>
          serve_route (wd_V W) (upload_handlers W) route
            \<lparr>rq_Method = cq_Method q, rq_Header = cq_Header q, rq_Form = [], rq_BasicAuth = None,
             rq_Params = [(''fileid'', name)], rq_Body = Some ([fst body], snd body)\<rparr> new_response files)"

definition net_do :: "'j world \<Rightarrow> network \<Rightarrow> client_request \<Rightarrow> client_response result \<times> network" where
  "net_do W v q =
     (let fs = tl (nt_faults v) in
      case (if nt_faults v = [] then Deliver else hd (nt_faults v)) of
        Deliver \<Rightarrow>
          (let (w, files) = net_serve W q (cq_Body q, None) (nt_files v)
           in (Inr \<lparr>cp_Status = rs_Status w, cp_Header = rs_Header w, cp_Body = ([rs_Body w], None)\<rparr>, \<lparr>nt_files = files, nt_faults = fs\<rparr>))
      | Refuse \<Rightarrow> (Inl (IOError ''connection refused''), v\<lparr>nt_faults := fs\<rparr>)
      | LoseAnswer \<Rightarrow>
          (let (w, files) = net_serve W q (cq_Body q, None) (nt_files v)
           in (Inl (IOError ''connection reset by peer''), \<lparr>nt_files = files, nt_faults = fs\<rparr>))
      | Break n \<Rightarrow>
          (let (w, files) = net_serve W q (take n (cq_Body q), Some (IOError ''unexpected EOF'')) (nt_files v)
           in (Inl (IOError ''broken pipe''), \<lparr>nt_files = files, nt_faults = fs\<rparr>)))"

definition net_env :: "'j world \<Rightarrow> (network, 'j) client_env" where
  "net_env W = \<lparr>ce_parse = wd_parse W, ce_do = net_do W, ce_json = wd_dec W, ce_jason = wd_jason W\<rparr>"

text \<open>Names that are the same in a URL and as a parameter of a route.\<close>

definition plain_char :: "char \<Rightarrow> bool" where
  "plain_char c = (c = CHR ''-'' \<or> c = CHR ''_'' \<or>
     (let n = of_char c :: nat in 48 \<le> n \<and> n \<le> 57 \<or> 65 \<le> n \<and> n \<le> 90 \<or> 97 \<le> n \<and> n \<le> 122))"

definition plain_name :: "string \<Rightarrow> bool" where
  "plain_name name = (name \<noteq> [] \<and> list_all plain_char name)"

text \<open>The client knows the address of the server and has a token to write; sums are not empty, and the JSON of the server is
  decoded as encoding/json and jason document it.\<close>

definition world_ok :: "'j world \<Rightarrow> conn \<Rightarrow> bool" where
  "world_ok W c = (co_HostURL c = wd_host W \<and>
     (\<forall>name. plain_name name \<longrightarrow> wd_parse W (wd_host W @ ''/upload/'' @ name) = None \<and> wd_parse W (wd_host W @ ''/upload/'' @ name @ ''/metadata'') = None) \<and>
     (\<exists>user role. wd_V W (co_Token c) = Inr (user, role) \<and> RoleWrite \<le> role) \<and>
     (\<forall>b. h_md5 (wd_H W) b \<noteq> []) \<and>
     (\<forall>st. \<exists>obj. wd_dec W ([wd_js W st], None) = Inr obj \<and> or_zero 0 (jo_int64 (wd_jason W) obj ''Size'') = st_Size st \<and>
        or_zero '''' (jo_string (wd_jason W) obj ''MD5'') = b64_encode (st_MD5 st)))"

section \<open>The server as a service\<close>

lemma plain_name_slash:
  assumes "plain_name name"
  shows "CHR ''/'' \<notin> set name"
proof
  assume "CHR ''/'' \<in> set name"
  then have "plain_char (CHR ''/'')" using assms unfolding plain_name_def list_all_iff by blast
  then show False by (simp add: plain_char_def)
qed

lemma plain_name_Nil: "plain_name name \<Longrightarrow> name \<noteq> []"
  by (simp add: plain_name_def)

lemma upload_route_post:
  assumes "plain_name name" and "cq_Method q = ''POST''" and "cq_URL q = host @ ''/upload/'' @ name"
  shows "upload_route host q = Some ((''POST'', ''/upload/:fileid'', RoleWrite, AppendFileHandler_ep), name)"
proof -
  have u: "cq_URL q = (host @ ''/upload/'') @ name" using assms(3) by simp
  have p: "has_prefix ((host @ ''/upload/'') @ x) (host @ ''/upload/'') = True" for x using has_prefix_append by blast
  show ?thesis unfolding upload_route_def u trim_prefix_append p split_all_single[OF plain_name_slash[OF assms(1)]]
    using assms(2) by simp
qed

lemma upload_route_info:
  assumes "plain_name name" and "cq_Method q = ''GET''" and "cq_URL q = host @ ''/upload/'' @ name @ ''/metadata''"
  shows "upload_route host q = Some ((''GET'', ''/upload/:fileid/metadata'', RoleMDOnly, GetFileInfoHandler_ep), name)"
proof -
  have u: "cq_URL q = (host @ ''/upload/'') @ name @ CHR ''/'' # ''metadata''" using assms(3) by simp
  have p: "has_prefix ((host @ ''/upload/'') @ x) (host @ ''/upload/'') = True" for x using has_prefix_append by blast
  have m: "split_all (CHR ''/'') ''metadata'' = [''metadata'']" by (rule split_all_single) simp
  show ?thesis unfolding upload_route_def u trim_prefix_append p split_all_line[OF plain_name_slash[OF assms(1)]] m
    using assms(2) by simp
qed

lemma token_of_request:
  assumes "rq_BasicAuth r = None" and "rq_Header r = cq_Header (if co_Token c \<noteq> '''' then cq_set ''X-Api-Key'' (co_Token c) q else q)"
    and "gget (cq_Header q) ''X-Api-Key'' = None"
  shows "request_token r = co_Token c"
proof -
  have k: "canonical_key True ''X-Api-Key'' = ''X-Api-Key''" by code_simp
  show ?thesis using assms by (auto simp: request_token_def hdr_Get_def cq_set_def k Let_def simp del: canonical_key.simps)
qed

lemma serve_allowed:
  assumes "V (request_token r) = Inr (user, role)" and "least \<le> role"
  shows "serve_route V h (meth, path, least, ep) r w st = h ep (r\<lparr>rq_Params := set_first ''username'' user (rq_Params r)\<rparr>) w st"
  using assms by (simp add: serve_route_def logWrapper_def authzWrapper_def leD)

lemma upload_request_fields:
  "cq_Method (upload_request c name chunk m finfo) = ''POST''"
  "cq_URL (upload_request c name chunk m finfo) = co_HostURL c @ ''/upload/'' @ name"
  "cq_Body (upload_request c name chunk m finfo) = chunk"
  "gget (cq_Header (upload_request c name chunk m finfo)) ''X-Upload-Md5'' = Some (hex_encode m)"
  "gget (cq_Header (upload_request c name chunk m finfo)) ''X-Upload-Sha256'' = None"
  "gget (cq_Header (upload_request c name chunk m finfo)) ''X-Api-Key'' = None"
proof -
  have k: "canonical_key True ''X-Upload-Md5'' = ''X-Upload-Md5''" "canonical_key True ''Content-Type'' = ''Content-Type''"
    "canonical_key True ''X-Content-MD5'' = ''X-Content-Md5''" by code_simp+
  show "cq_Method (upload_request c name chunk m finfo) = ''POST''"
    "cq_URL (upload_request c name chunk m finfo) = co_HostURL c @ ''/upload/'' @ name"
    "cq_Body (upload_request c name chunk m finfo) = chunk"
    "gget (cq_Header (upload_request c name chunk m finfo)) ''X-Upload-Md5'' = Some (hex_encode m)"
    "gget (cq_Header (upload_request c name chunk m finfo)) ''X-Upload-Sha256'' = None"
    "gget (cq_Header (upload_request c name chunk m finfo)) ''X-Api-Key'' = None"
    by (simp_all add: upload_request_def cq_set_def k Let_def del: canonical_key.simps)
qed

definition frag_bytes :: "memory frag_store \<Rightarrow> string \<Rightarrow> bytes option" where
  "frag_bytes files name = map_option concat (mfrag_content files name)"

text \<open>A chunk whose body arrives, with the error that ends it if the connection breaks.\<close>

lemma serve_chunk:
  fixes W :: "'j world"
  defines "with_token \<equiv> \<lambda>c q. if co_Token c \<noteq> '''' then cq_set ''X-Api-Key'' (co_Token c) q else q"
  assumes W: "world_ok W c" and inv: "mfrag_inv files" and name: "plain_name name"
    and s: "net_serve W (with_token c (upload_request c name chunk (h_md5 (wd_H W) chunk) finfo)) (body, berr) files = (w, files')"
  shows "mfrag_inv files'" and "berr = None \<Longrightarrow> body = chunk \<Longrightarrow>
      rs_Status w = 200 \<and> frag_bytes files' = (frag_bytes files)(name \<mapsto> uploaded (frag_bytes files name) @ chunk)"
    and "berr \<noteq> None \<Longrightarrow> frag_bytes files' = (frag_bytes files)(name \<mapsto> uploaded (frag_bytes files name) @ body)"
proof -
  let ?q = "upload_request c name chunk (h_md5 (wd_H W) chunk) finfo"
  let ?r = "\<lparr>rq_Method = ''POST'', rq_Header = cq_Header (with_token c ?q), rq_Form = [], rq_BasicAuth = None,
             rq_Params = [(''fileid'', name)], rq_Body = Some ([body], berr)\<rparr>"
  obtain user role where V: "wd_V W (co_Token c) = Inr (user, role)" "RoleWrite \<le> role" and md5: "\<And>b. h_md5 (wd_H W) b \<noteq> []"
    and host: "co_HostURL c = wd_host W" using W unfolding world_ok_def by blast
  let ?r' = "?r\<lparr>rq_Params := set_first ''username'' user (rq_Params ?r)\<rparr>"
  have tok: "request_token ?r = co_Token c"
    by (rule token_of_request[of _ c ?q]) (simp_all add: with_token_def upload_request_fields)
  have rt: "upload_route (wd_host W) (with_token c ?q) = Some ((''POST'', ''/upload/:fileid'', RoleWrite, AppendFileHandler_ep), name)"
    by (rule upload_route_post[OF name]) (simp_all add: with_token_def upload_request_fields cq_set_def host)
  have m: "cq_Method (with_token c ?q) = ''POST''" by (simp add: with_token_def upload_request_fields cq_set_def)
  have hd: "canonical_key True ''X-Upload-Md5'' = ''X-Upload-Md5''" "canonical_key True ''X-Upload-Sha256'' = ''X-Upload-Sha256''"
    "canonical_key True ''X-Api-Key'' = ''X-Api-Key''" by code_simp+
  have sums: "h_md5 (wd_H W) chunk = getHexadecimalHeader ?r' ''X-Upload-Md5''" "[] = getHexadecimalHeader ?r' ''X-Upload-Sha256''"
    by (simp_all add: getHexadecimalHeader_def hdr_Get_def hd with_token_def upload_request_fields cq_set_def del: canonical_key.simps)
  have fid: "ByName ?r' ''fileid'' = name" "name \<noteq> []" and b: "rq_Body ?r' = Some ([body], berr)"
    using plain_name_Nil[OF name] by (simp_all add: ByName_def)
  have "net_serve W (with_token c ?q) (body, berr) files = upload_handlers W AppendFileHandler_ep ?r' new_response files"
    using serve_allowed[of "wd_V W" ?r user role RoleWrite] V tok by (simp add: net_serve_def rt m)
  moreover obtain w1 files1 where a: "AppendFileHandler mem_ops (wd_J W) (wd_H W) (wd_now W) [] ?r' new_response files = Some (w1, files1)"
      "mfrag_inv files1" and eff: "let old = (case mfrag_content files name of None \<Rightarrow> [] | Some bs \<Rightarrow> bs) in
      if h_md5 (wd_H W) chunk = [] \<and> [] = ([] :: bytes) then rs_Status w1 = 400 \<and> files1 = files
      else if berr \<noteq> None then rs_Status w1 = 500 \<and> mfrag_content files1 = (mfrag_content files)(name \<mapsto> old @ [concat [body]])
      else if body_sums (wd_H W) (h_md5 (wd_H W) chunk) [] (concat [body])
      then rs_Status w1 = 200 \<and> mfrag_content files1 = (mfrag_content files)(name \<mapsto> old @ [concat [body]])
      else rs_Status w1 = 412 \<and> mfrag_content files1 = (mfrag_content files)(name \<mapsto> old)"
    using append_handler[OF inv fid b sums, of "wd_J W" "wd_H W" "wd_now W" "[]"] by blast
  ultimately have w: "w = w1" "files' = files1" using s by (simp_all add: upload_handlers_def)
  have old: "concat (case mfrag_content files name of None \<Rightarrow> [] | Some bs \<Rightarrow> bs) = uploaded (frag_bytes files name)"
    by (simp add: frag_bytes_def uploaded_def split: option.splits)
  show "mfrag_inv files'" using a(2) w by simp
  show "rs_Status w = 200 \<and> frag_bytes files' = (frag_bytes files)(name \<mapsto> uploaded (frag_bytes files name) @ chunk)" if "berr = None" "body = chunk"
    using eff md5 that unfolding w old[symmetric] by (auto simp: Let_def body_sums_def frag_bytes_def fun_eq_iff)
  show "frag_bytes files' = (frag_bytes files)(name \<mapsto> uploaded (frag_bytes files name) @ body)" if "berr \<noteq> None"
    using eff md5 that unfolding w old[symmetric] by (auto simp: Let_def frag_bytes_def fun_eq_iff)
qed

lemma upload_handlers_info: "upload_handlers W GetFileInfoHandler_ep = GetFileInfoHandler (wd_tmpl W) (wd_js W)"
  by (simp add: upload_handlers_def fun_eq_iff)

lemma serve_info:
  fixes W :: "'j world"
  defines "with_token \<equiv> \<lambda>c q. if co_Token c \<noteq> '''' then cq_set ''X-Api-Key'' (co_Token c) q else q"
  assumes W: "world_ok W c" and name: "plain_name name"
    and q: "q = cq_set ''Accept-Encoding'' ''application/json'' \<lparr>cq_Method = ''GET'', cq_URL = co_HostURL c @ ''/upload/'' @ name @ ''/metadata'', cq_Header = [], cq_Body = []\<rparr>"
  shows "\<exists>w. net_serve W (with_token c q) (body, berr) files = (w, files) \<and>
    (case gget (fr_files files) name of None \<Rightarrow> rs_Status w = 404 | Some f \<Rightarrow> rs_Status w = 200 \<and> rs_Body w = wd_js W (file_Stat f))"
proof -
  let ?r = "\<lparr>rq_Method = ''GET'', rq_Header = cq_Header (with_token c q), rq_Form = [], rq_BasicAuth = None,
             rq_Params = [(''fileid'', name)], rq_Body = Some ([body], berr)\<rparr>"
  obtain user role where V: "wd_V W (co_Token c) = Inr (user, role)" "RoleWrite \<le> role" and host: "co_HostURL c = wd_host W"
    using W unfolding world_ok_def by blast
  have ro: "RoleMDOnly \<le> role" using order_trans[OF _ V(2), of RoleMDOnly] by (simp add: less_eq_role_def)
  let ?r' = "?r\<lparr>rq_Params := set_first ''username'' user (rq_Params ?r)\<rparr>"
  have hd: "canonical_key True ''Accept-Encoding'' = ''Accept-Encoding''" "canonical_key True ''X-Api-Key'' = ''X-Api-Key''" by code_simp+
  have nk: "gget (cq_Header q) ''X-Api-Key'' = None" by (simp add: q cq_set_def hd del: canonical_key.simps)
  have tok: "request_token ?r = co_Token c" by (rule token_of_request[of _ c q]) (simp_all add: with_token_def nk)
  have rt: "upload_route (wd_host W) (with_token c q) = Some ((''GET'', ''/upload/:fileid/metadata'', RoleMDOnly, GetFileInfoHandler_ep), name)"
    by (rule upload_route_info[OF name]) (simp_all add: with_token_def q cq_set_def host)
  have m: "cq_Method (with_token c q) = ''GET''" by (simp add: with_token_def q cq_set_def)
  have acc: "hdr_Get ?r' ''Accept-Encoding'' = ''application/json''"
    by (simp add: hdr_Get_def hd with_token_def q cq_set_def del: canonical_key.simps)
  have fid: "ByName ?r' ''fileid'' = name" by (simp add: ByName_def)
  have "net_serve W (with_token c q) (body, berr) files = GetFileInfoHandler (wd_tmpl W) (wd_js W) ?r' new_response files"
    using serve_allowed[of "wd_V W" ?r user role RoleMDOnly "upload_handlers W"] V(1) ro tok
    by (simp add: net_serve_def rt m upload_handlers_info)
  then show ?thesis using acc fid
    by (auto simp: GetFileInfoHandler_def frag_Lookup_def writeHTMLorJSON_def rs_println_def rs_write_def WriteHeader_def hdr_Set_def new_response_def rs_Status_def
        Let_def split: option.splits)
qed

definition calm :: "network \<Rightarrow> bool" where
  "calm v = (mfrag_inv (nt_files v) \<and> set (nt_faults v) \<subseteq> {Deliver, Refuse})"

definition answering :: "network \<Rightarrow> bool" where
  "answering v = (nt_faults v = [] \<or> hd (nt_faults v) = Deliver)"

definition clear_net :: "network \<Rightarrow> bool" where
  "clear_net v = (set (nt_faults v) \<subseteq> {Deliver})"

definition recorded_sum :: "network \<Rightarrow> string \<Rightarrow> bytes" where
  "recorded_sum v name = (case gget (fr_files (nt_files v)) name of None \<Rightarrow> [] | Some f \<Rightarrow> file_MD5 f)"

lemma fault_cases:
  assumes "calm v"
  obtains "answering v" and "(if nt_faults v = [] then Deliver else hd (nt_faults v)) = Deliver" and "set (tl (nt_faults v)) \<subseteq> {Deliver, Refuse}"
  | "\<not> clear_net v" and "(if nt_faults v = [] then Deliver else hd (nt_faults v)) = Refuse" and "set (tl (nt_faults v)) \<subseteq> {Deliver, Refuse}"
  using assms by (cases "nt_faults v") (auto simp: calm_def answering_def clear_net_def)

lemma net_post:
  assumes W: "world_ok W c" and v: "calm v" and name: "plain_name name"
    and d: "conn_do (net_env W) c v (upload_request c name chunk (h_md5 (wd_H W) chunk) finfo) = (a, v')"
  shows "calm v'" and "frag_bytes (nt_files v') = (if accepted a then (frag_bytes (nt_files v))(name \<mapsto> uploaded (frag_bytes (nt_files v) name) @ chunk)
      else frag_bytes (nt_files v))" and "a \<noteq> Inl nil_request" and "clear_net v \<Longrightarrow> accepted a \<and> clear_net v'"
proof -
  let ?q = "if co_Token c \<noteq> '''' then cq_set ''X-Api-Key'' (co_Token c) (upload_request c name chunk (h_md5 (wd_H W) chunk) finfo)
     else upload_request c name chunk (h_md5 (wd_H W) chunk) finfo"
  have d': "net_do W v ?q = (a, v')" using d by (simp add: conn_do_def net_env_def)
  have b: "cq_Body ?q = chunk" by (simp add: cq_set_def upload_request_fields)
  obtain w files where s: "net_serve W ?q (chunk, None) (nt_files v) = (w, files)" by fastforce
  note sv = serve_chunk[OF W _ name s, unfolded calm_def]
  have inv: "mfrag_inv (nt_files v)" using v by (simp add: calm_def)
  have tl: "clear_net v \<Longrightarrow> set (tl (nt_faults v)) \<subseteq> {Deliver}" by (cases "nt_faults v") (auto simp: clear_net_def)
  from v have "calm v' \<and> frag_bytes (nt_files v') = (if accepted a then (frag_bytes (nt_files v))(name \<mapsto> uploaded (frag_bytes (nt_files v) name) @ chunk)
      else frag_bytes (nt_files v)) \<and> a \<noteq> Inl nil_request \<and> (clear_net v \<longrightarrow> accepted a \<and> clear_net v')"
  proof (cases rule: fault_cases)
    case 1
    have "rs_Status w = 200" "frag_bytes files = (frag_bytes (nt_files v))(name \<mapsto> uploaded (frag_bytes (nt_files v) name) @ chunk)" "mfrag_inv files"
      using sv[OF inv] by simp_all
    moreover have "a = Inr \<lparr>cp_Status = rs_Status w, cp_Header = rs_Header w, cp_Body = ([rs_Body w], None)\<rparr>"
      "v' = \<lparr>nt_files = files, nt_faults = tl (nt_faults v)\<rparr>"
      using d' unfolding net_do_def Let_def 1(2) b s by simp_all
    ultimately show ?thesis using 1(3) tl by (simp add: calm_def accepted_def clear_net_def)
  next
    case 2
    have "a = Inl (IOError ''connection refused'')" "v' = v\<lparr>nt_faults := tl (nt_faults v)\<rparr>"
      using d' unfolding net_do_def Let_def 2(2) by simp_all
    then show ?thesis using 2(1,3) inv by (simp add: calm_def accepted_def nil_request_def)
  qed
  then show "calm v'" and "frag_bytes (nt_files v') = (if accepted a then (frag_bytes (nt_files v))(name \<mapsto> uploaded (frag_bytes (nt_files v) name) @ chunk)
      else frag_bytes (nt_files v))" and "a \<noteq> Inl nil_request" and "clear_net v \<Longrightarrow> accepted a \<and> clear_net v'" by blast+
qed

lemma net_info:
  assumes W: "world_ok W c" and v: "calm v" and name: "plain_name name" and up: "answering v"
    and g: "getUploadInfo (net_env W) c v name = ((remote, err), v')"
  shows "calm v' \<and> nt_files v' = nt_files v \<and> (clear_net v \<longrightarrow> clear_net v') \<and>
    fi_Size remote = int (length (uploaded (frag_bytes (nt_files v) name))) \<and> fi_MD5 remote = recorded_sum v name"
proof -
  let ?q = "cq_set ''Accept-Encoding'' ''application/json'' \<lparr>cq_Method = ''GET'', cq_URL = co_HostURL c @ ''/upload/'' @ name @ ''/metadata'', cq_Header = [], cq_Body = []\<rparr>"
  let ?qt = "if co_Token c \<noteq> '''' then cq_set ''X-Api-Key'' (co_Token c) ?q else ?q"
  have inv: "mfrag_inv (nt_files v)" using v by (simp add: calm_def)
  have del: "(if nt_faults v = [] then Deliver else hd (nt_faults v)) = Deliver" using up by (auto simp: answering_def)
  have fl: "set (tl (nt_faults v)) \<subseteq> {Deliver, Refuse}" "clear_net v \<Longrightarrow> set (tl (nt_faults v)) \<subseteq> {Deliver}"
    using v by (cases "nt_faults v"; auto simp: calm_def clear_net_def)+
  obtain w where s: "net_serve W ?qt (cq_Body ?qt, None) (nt_files v) = (w, nt_files v)"
    and w: "case gget (fr_files (nt_files v)) name of None \<Rightarrow> rs_Status w = 404 | Some f \<Rightarrow> rs_Status w = 200 \<and> rs_Body w = wd_js W (file_Stat f)"
    using serve_info[OF W name refl, of "cq_Body ?qt" None "nt_files v"] by blast
  let ?v = "\<lparr>nt_files = nt_files v, nt_faults = tl (nt_faults v)\<rparr>"
  have p: "ce_parse (net_env W) (co_HostURL c @ ''/upload/'' @ name @ ''/metadata'') = None" using W name by (simp add: world_ok_def net_env_def)
  have d: "conn_do (net_env W) c v ?q = (Inr \<lparr>cp_Status = rs_Status w, cp_Header = rs_Header w, cp_Body = ([rs_Body w], None)\<rparr>, ?v)"
    unfolding conn_do_def net_env_def client_env.simps net_do_def Let_def del fault.case s by simp
  have j: "doJasonGet (net_env W) c v (''/upload/'' @ name @ ''/metadata'') =
      (if rs_Status w \<noteq> 200 then Inl (if rs_Status w = 404 then ErrItemNotFound else if rs_Status w = 401 then ErrNotAuthorized else bad_status (rs_Status w))
       else wd_dec W ([rs_Body w], None), ?v)"
    unfolding doJasonGet_def Let_def p d by (simp add: net_env_def)
  have v': "v' = ?v" using g unfolding getUploadInfo_def j by (auto simp: Let_def split: sum.splits if_splits)
  have "fi_Size remote = int (length (uploaded (frag_bytes (nt_files v) name))) \<and> fi_MD5 remote = recorded_sum v name"
  proof (cases "gget (fr_files (nt_files v)) name")
    case None
    then have "remote = no_info" using g w unfolding getUploadInfo_def j by simp
    then show ?thesis using None by (simp add: no_info_def frag_bytes_def frag_content_def recorded_sum_def uploaded_def)
  next
    case (Some f)
    obtain obj where obj: "wd_dec W ([wd_js W (file_Stat f)], None) = Inr obj" "or_zero 0 (jo_int64 (wd_jason W) obj ''Size'') = st_Size (file_Stat f)"
        "or_zero '''' (jo_string (wd_jason W) obj ''MD5'') = b64_encode (st_MD5 (file_Stat f))" using W unfolding world_ok_def by blast
    have "fi_Size remote = st_Size (file_Stat f)" "fi_MD5 remote = st_MD5 (file_Stat f)"
      using g w Some obj unfolding getUploadInfo_def j by (auto simp: net_env_def Let_def)
    moreover have "file_Size f = int (length (uploaded (frag_bytes (nt_files v) name)))"
      using file_wf_size[OF frag_invD(3)[OF inv Some]] Some by (simp add: frag_bytes_def frag_content_def uploaded_def)
    ultimately show ?thesis using Some by (simp add: recorded_sum_def file_Stat_def)
  qed
  then show ?thesis using v' inv fl by (auto simp: calm_def clear_net_def)
qed

lemma net_service:
  assumes W: "world_ok W c"
  shows "upload_service (net_env W) (wd_H W) c (\<lambda>v. frag_bytes (nt_files v)) recorded_sum calm answering clear_net plain_name"
proof unfold_locales
  show "clear_net v \<Longrightarrow> answering v" for v by (cases "nt_faults v") (auto simp: clear_net_def answering_def)
  show "plain_name name \<Longrightarrow> ce_parse (net_env W) (co_HostURL c @ ''/upload/'' @ name) = None" for name
    using W by (simp add: world_ok_def net_env_def)
  show "plain_name name \<Longrightarrow> ce_parse (net_env W) (co_HostURL c @ ''/upload/'' @ name @ ''/metadata'') = None" for name
    using W by (simp add: world_ok_def net_env_def)
next
  fix v name remote err v'
  assume v: "calm v" "plain_name name" "answering v" and g: "getUploadInfo (net_env W) c v name = ((remote, err), v')"
  have "frag_bytes (nt_files v) name = None \<Longrightarrow> recorded_sum v name = []"
    by (simp add: frag_bytes_def frag_content_def recorded_sum_def split: option.splits)
  with net_info[OF W v g] show "calm v' \<and> frag_bytes (nt_files v') = frag_bytes (nt_files v) \<and> (clear_net v \<longrightarrow> clear_net v') \<and>
      fi_Size remote = int (length (uploaded (frag_bytes (nt_files v) name))) \<and>
      fi_MD5 remote = (if frag_bytes (nt_files v) name = None then [] else recorded_sum v name)" by simp
next
  fix v name chunk finfo a v'
  assume v: "calm v" "plain_name name" and d: "conn_do (net_env W) c v (upload_request c name chunk (h_md5 (wd_H W) chunk) finfo) = (a, v')"
  note P = net_post[OF W v d]
  show "calm v' \<and> frag_bytes (nt_files v') = (if accepted a then (frag_bytes (nt_files v))(name \<mapsto> uploaded (frag_bytes (nt_files v) name) @ chunk)
      else frag_bytes (nt_files v))" using P(1,2) by blast
  show "a \<noteq> Inl nil_request" by (rule P(3))
  show "accepted a \<and> clear_net v'" if "clear_net v" by (rule P(4)[OF that])
qed

section \<open>What the client does not notice\<close>

text \<open>When the answer to a chunk is lost, or the connection breaks while it is sent, the client sends the chunk again: no error is reported and the
  bytes that had arrived are in the file twice.\<close>

lemma resent_chunk:
  assumes W: "world_ok W c" and inv: "mfrag_inv files" and name: "plain_name name" and fs: "set fs \<subseteq> {Deliver}"
    and f: "f = LoseAnswer \<and> arrived = chunk \<or> f = Break n \<and> arrived = take n chunk"
  shows "\<exists>v'. try_chunk (net_env W) c name chunk (h_md5 (wd_H W) chunk) finfo 5 None \<lparr>nt_files = files, nt_faults = f # fs\<rparr> = (None, v') \<and>
    frag_bytes (nt_files v') name = Some (uploaded (frag_bytes files name) @ arrived @ chunk)"
proof -
  let ?req = "upload_request c name chunk (h_md5 (wd_H W) chunk) finfo"
  let ?q = "if co_Token c \<noteq> '''' then cq_set ''X-Api-Key'' (co_Token c) ?req else ?req"
  have b: "cq_Body ?q = chunk" by (simp add: cq_set_def upload_request_fields)
  have p: "ce_parse (net_env W) (co_HostURL c @ ''/upload/'' @ name) = None" using W name by (simp add: world_ok_def net_env_def)
  obtain e files1 where d: "conn_do (net_env W) c \<lparr>nt_files = files, nt_faults = f # fs\<rparr> ?req = (Inl (IOError e), \<lparr>nt_files = files1, nt_faults = fs\<rparr>)"
    and i1: "mfrag_inv files1" and c1: "frag_bytes files1 = (frag_bytes files)(name \<mapsto> uploaded (frag_bytes files name) @ arrived)"
  proof (cases "f = LoseAnswer")
    case True
    obtain w files1 where s: "net_serve W ?q (chunk, None) files = (w, files1)" by fastforce
    have "conn_do (net_env W) c \<lparr>nt_files = files, nt_faults = f # fs\<rparr> ?req =
        (Inl (IOError ''connection reset by peer''), \<lparr>nt_files = files1, nt_faults = fs\<rparr>)"
      unfolding conn_do_def net_env_def client_env.simps net_do_def Let_def b network.simps list.sel True s by simp
    with serve_chunk(1,2)[OF W inv name s] True f show thesis using that by simp
  next
    case False
    obtain w files1 where s: "net_serve W ?q (take n chunk, Some (IOError ''unexpected EOF'')) files = (w, files1)" by fastforce
    have fb: "f = Break n" "arrived = take n chunk" using f False by auto
    have "conn_do (net_env W) c \<lparr>nt_files = files, nt_faults = f # fs\<rparr> ?req =
        (Inl (IOError ''broken pipe''), \<lparr>nt_files = files1, nt_faults = fs\<rparr>)"
      unfolding conn_do_def net_env_def client_env.simps net_do_def Let_def b network.simps list.sel fb(1) s by (simp add: s)
    with serve_chunk(1,3)[OF W inv name s] fb show thesis using that by simp
  qed
  let ?v1 = "\<lparr>nt_files = files1, nt_faults = fs\<rparr>"
  have u: "upload0 (net_env W) c \<lparr>nt_files = files, nt_faults = f # fs\<rparr> name chunk (h_md5 (wd_H W) chunk) finfo = (Some (IOError e), ?v1)"
    using d p by (simp add: upload0_def)
  obtain a v2 where d2: "conn_do (net_env W) c ?v1 ?req = (a, v2)" by fastforce
  have i: "calm ?v1" "clear_net ?v1" using i1 fs by (auto simp: calm_def clear_net_def)
  note P = net_post(2)[OF W i(1) name d2] and acc = net_post(4)[OF W i(1) name d2 i(2)]
  have u2: "upload0 (net_env W) c ?v1 name chunk (h_md5 (wd_H W) chunk) finfo = (None, v2)"
    using d2 p acc by (auto simp: upload0_def accepted_def split: sum.splits)
  have "try_chunk (net_env W) c name chunk (h_md5 (wd_H W) chunk) finfo 5 None \<lparr>nt_files = files, nt_faults = f # fs\<rparr> = (None, v2)"
    using u u2 by (simp add: numeral_eq_Suc nil_request_def)
  moreover have "frag_bytes (nt_files v2) name = Some (uploaded (frag_bytes files name) @ arrived @ chunk)"
    using P acc c1 by (simp add: uploaded_def)
  ultimately show ?thesis by blast
qed

text \<open>When the request for the state of a partial upload fails, the upload starts again from the beginning, after what there was.\<close>

lemma lost_info_restarts:
  assumes W: "world_ok W c" and inv: "mfrag_inv files" and name: "plain_name name" and fs: "set fs \<subseteq> {Deliver}" and size: "0 < co_ChunkSize c"
    and data: "data \<noteq> []" and finfo: "fi_Size finfo = int (length data)"
  shows "\<exists>p v'. upload_known (os_seeker data) (net_env W) (wd_H W) c name finfo 0 \<lparr>nt_files = files, nt_faults = Refuse # fs\<rparr> = Some (None, c, p, v') \<and>
    uploaded (frag_bytes (nt_files v') name) = uploaded (frag_bytes files name) @ data"
proof -
  let ?v = "\<lparr>nt_files = files, nt_faults = Refuse # fs\<rparr>" and ?v1 = "\<lparr>nt_files = files, nt_faults = fs\<rparr>"
  have U: "uploading (os_seeker data) data (\<lambda>p. p) (net_env W) (wd_H W) c (\<lambda>v. frag_bytes (nt_files v)) recorded_sum calm answering clear_net plain_name"
    by (rule uploading.intro[OF os.seek_source_axioms net_service[OF W]])
  have p: "ce_parse (net_env W) (co_HostURL c @ ''/upload/'' @ name @ ''/metadata'') = None" using W name by (simp add: world_ok_def net_env_def)
  have d: "conn_do (net_env W) c ?v q = (Inl (IOError ''connection refused''), ?v1)" for q
    by (simp add: conn_do_def net_env_def net_do_def Let_def)
  have g: "getUploadInfo (net_env W) c ?v name = ((no_info, Some (IOError ''connection refused'')), ?v1)"
    unfolding getUploadInfo_def doJasonGet_def Let_def p d by simp
  have "calm ?v1" "clear_net ?v1" using inv fs by (auto simp: calm_def clear_net_def)
  then obtain r' v' where u: "send_chunks (os_seeker data) (net_env W) (wd_H W) (c\<lparr>co_ChunkSize := co_ChunkSize c\<rparr>) name finfo 0 ?v1 = Some (None, r', v')"
      "uploaded (frag_bytes (nt_files v') name) = uploaded (frag_bytes files name) @ data"
    using uploading.send_chunks_ok[OF U name size, of ?v1 0 "uploaded (frag_bytes files name)" finfo] by auto
  have "sk_Seek (os_seeker data) 0 0 SeekStart = ((0, None), 0)" by (simp add: os_seeker_def os_Seek_def)
  then have "upload_known (os_seeker data) (net_env W) (wd_H W) c name finfo 0 ?v = Some (None, c, r', v')"
    unfolding upload_known_def g using data finfo size u(1) by (simp add: no_info_def)
  with u(2) show ?thesis by blast
qed

section \<open>A world for the witnesses\<close>

text \<open>The metadata of a file in a line of text: the sum and the size. The decoder gives the size and the sum.\<close>

definition demo_stat :: "stat \<Rightarrow> bytes" where
  "demo_stat st = b64_encode (st_MD5 st) @ CHR '' '' # fmt_d (st_Size st)"

definition demo_int :: "string \<Rightarrow> int option" where
  "demo_int s = (if s \<noteq> [] \<and> hd s = CHR ''-'' then map_option (\<lambda>n. - int n) (parse_nat (tl s)) else map_option int (parse_nat s))"

definition demo_world :: "(int \<times> string) world" where
  "demo_world = \<lparr>wd_host = ''http://b'', wd_parse = (\<lambda>u. None), wd_V = NobodyValidator, wd_J = demo_json,
     wd_H = \<lparr>h_md5 = (\<lambda>b. if b = [] then emptyMD5 else rev b), h_sha256 = (\<lambda>b. b)\<rparr>, wd_now = 3, wd_tmpl = (\<lambda>st. []), wd_js = demo_stat,
     wd_dec = (\<lambda>(bs, e). case split2 (CHR '' '') (concat bs) of
        [m, n] \<Rightarrow> (case demo_int n of None \<Rightarrow> Inl ErrJSON | Some k \<Rightarrow> Inr (k, m)) | _ \<Rightarrow> Inl ErrJSON),
     wd_jason = \<lparr>jo_int64 = (\<lambda>j k. Inr (fst j)), jo_string = (\<lambda>j k. Inr (snd j)), jo_strings = (\<lambda>j k. Inl ErrJSON),
       jo_objects = (\<lambda>j k. Inl ErrJSON), jo_object = (\<lambda>j k. Inl ErrJSON), jo_ints = (\<lambda>j. Inl ErrJSON)\<rparr>\<rparr>"

definition demo_conn :: conn where
  "demo_conn = \<lparr>co_HostURL = ''http://b'', co_ChunkSize = 2, co_Token = ''''\<rparr>"

lemma demo_int_fmt: "demo_int (fmt_d n) = Some n"
proof (cases "n < 0")
  case True
  then show ?thesis by (simp add: demo_int_def fmt_d_def parse_nat_digits)
next
  case False
  obtain d where "d < 10" "hd (nat_digits (nat n)) = digit_char d" using nat_digits_set[of "hd (nat_digits (nat n))" "nat n"] by auto
  then show ?thesis using False digit_char_not_sign by (simp add: demo_int_def fmt_d_def parse_nat_digits)
qed

lemma b64_encode_space: "CHR '' '' \<notin> set (b64_encode bs)"
proof -
  have "b64_val (CHR '' '') = None" by (simp add: b64_val_def)
  then have "b64_char n \<noteq> CHR '' ''" if "n < 64" for n using b64_val_char[OF that] by auto
  then show ?thesis by (induction bs rule: b64_encode.induct) (auto simp: b64_bits dest: sym)
qed

lemma demo_world_ok: "world_ok demo_world demo_conn"
proof -
  have "wd_dec demo_world ([wd_js demo_world st], None) = Inr (st_Size st, b64_encode (st_MD5 st))" for st
    using split2_append[OF b64_encode_space] by (simp add: demo_world_def demo_stat_def demo_int_fmt)
  moreover have "emptyMD5 \<noteq> []" by (simp add: emptyMD5_def)
  moreover have "RoleWrite \<le> RoleAdmin" by (simp add: less_eq_role_def)
  ultimately show ?thesis by (auto simp: world_ok_def demo_world_def demo_conn_def NobodyValidator_def or_zero_def)
qed

interpretation demonet: upload_service "net_env demo_world" "wd_H demo_world" demo_conn "\<lambda>v. frag_bytes (nt_files v)" recorded_sum calm answering
  clear_net plain_name
  by (rule net_service[OF demo_world_ok])

section \<open>Properties\<close>



end
