(* ===== verification/Client_Sync.thy ===== *)
theory Client_Sync
  imports Client_Commands Client_Upload Transaction_Correct
begin

text \<open>
  Synchronising a tree with an item: the commands that the client makes from its lists (src/cmd/bclient), run by the specification of a commit, give
  every local file a slot with its content and leave the rest of the item as it was. And what happens to files whose content was deleted on the server.
\<close>

section \<open>Lists\<close>

lemma AddFiles_ok: "gmap_ok (fl_Files fl) \<Longrightarrow> gmap_ok (fl_Files (AddFiles fs fl)) \<and> fl_Blobs (AddFiles fs fl) = fl_Blobs fl"
  by (induction fs arbitrary: fl) simp_all

lemma list_blobs_get:
  "gget (list_blobs J bs m) k = Some b \<Longrightarrow>
     gget m k = Some b \<or> (\<exists>x \<in> set bs. b = or_zero 0 (jo_int64 J x ''ID'') \<and> k = hex_encode (json_md5 J x))"
  by (induction bs arbitrary: m) (fastforce split: if_splits)+

lemma list_slots_ok:
  assumes "gmap_ok slots" and "\<forall>s \<in> set slots. 1 \<le> or_zero 0 (snd s) \<and> or_zero 0 (snd s) \<le> int (length blobs)"
  shows "\<exists>f'. list_slots J blobs slots f = Inr f' \<and>
    (\<forall>k. case gget slots k of
        None \<Rightarrow> gget (fl_Files f') k = gget (fl_Files f) k \<and> gget (fl_Blobs f') k = gget (fl_Blobs f) k
      | Some v \<Rightarrow> cf_BlobID (file_at f' k) = or_zero 0 v \<and> cf_MD5 (file_at f' k) = json_md5 J (blobs ! nat (or_zero 0 v - 1)))"
  using assms
proof (induction slots arbitrary: f)
  case (Cons s slots)
  obtain key v where s: "s = (key, v)" by (rule prod.exhaust)
  let ?b = "or_zero 0 v"
  let ?info = "(file_at f key)\<lparr>cf_BlobID := ?b, cf_MD5 := json_md5 J (blobs ! nat (?b - 1)),
     cf_MimeType := or_zero '''' (jo_string J (blobs ! nat (?b - 1)) ''MimeType'')\<rparr>"
  let ?f = "f\<lparr>fl_Files := gset key ?info (fl_Files f), fl_Blobs := gset key ?b (fl_Blobs f)\<rparr>"
  have d: "gmap_ok slots" "gget slots key = None" using Cons.prems(1) by (auto simp: gmap_ok_def s gget_def map_of_eq_None_iff)
  obtain f' where IH: "list_slots J blobs slots ?f = Inr f'"
      "\<forall>k. case gget slots k of
        None \<Rightarrow> gget (fl_Files f') k = gget (fl_Files ?f) k \<and> gget (fl_Blobs f') k = gget (fl_Blobs ?f) k
      | Some v \<Rightarrow> cf_BlobID (file_at f' k) = or_zero 0 v \<and> cf_MD5 (file_at f' k) = json_md5 J (blobs ! nat (or_zero 0 v - 1))"
    using Cons.IH[OF d(1), of ?f] Cons.prems(2) by auto
  have "\<not> (?b < 1 \<or> ?b > int (length blobs))" using Cons.prems(2) by (auto simp: s)
  then have "list_slots J blobs (s # slots) f = Inr f'" using IH(1) by (simp add: s Let_def)
  moreover have "case gget (s # slots) k of
        None \<Rightarrow> gget (fl_Files f') k = gget (fl_Files f) k \<and> gget (fl_Blobs f') k = gget (fl_Blobs f) k
      | Some v \<Rightarrow> cf_BlobID (file_at f' k) = or_zero 0 v \<and> cf_MD5 (file_at f' k) = json_md5 J (blobs ! nat (or_zero 0 v - 1))" for k
    using IH(2)[rule_format, of k] d(2) by (cases "k = key") (auto simp: s file_at_def split: option.splits)
  ultimately show ?case by blast
qed simp

section \<open>What the client sees of an item\<close>

text \<open>A blob of the item by its number, with the sum of its content.\<close>

definition blob_with :: "hashes \<Rightarrow> bytes option list \<Rightarrow> int \<Rightarrow> bytes \<Rightarrow> bool" where
  "blob_with H cs b m = (1 \<le> b \<and> b \<le> int (length cs) \<and> (\<exists>c. cs ! nat (b - 1) = Some c \<and> h_md5 H c = m))"

definition newest_slots :: "aitem \<Rightarrow> (string, int) gomap" where
  "newest_slots a = (if snd a = [] then [] else last (snd a))"

text \<open>The JSON of an item, as the server writes it and jason reads it: blobs with their numbers and sums, and the slots of the newest version.\<close>

definition shows_item :: "'j jason \<Rightarrow> hashes \<Rightarrow> 'j \<Rightarrow> aitem \<Rightarrow> bool" where
  "shows_item J H json a =
     (\<exists>bs vs. jo_objects J json ''Blobs'' = Inr bs \<and> length bs = length (fst a) \<and>
        (\<forall>i < length bs. or_zero 0 (jo_int64 J (bs ! i) ''ID'') = int i + 1 \<and>
           (\<forall>c. fst a ! i = Some c \<longrightarrow> or_zero '''' (jo_string J (bs ! i) ''MD5'') = b64_encode (h_md5 H c))) \<and>
        jo_objects J json ''Versions'' = Inr vs \<and> length vs = length (snd a) \<and>
        (vs \<noteq> [] \<longrightarrow> (\<exists>obj m. jo_object J (last vs) ''Slots'' = Inr obj \<and> jo_ints J (Some obj) = Inr m \<and> gmap_ok m \<and>
           (\<forall>k. gget (newest_slots a) k = map_option (or_zero 0) (gget m k)))))"

definition remote_view :: "hashes \<Rightarrow> bytes set \<Rightarrow> aitem \<Rightarrow> filelist option \<Rightarrow> bool" where
  "remote_view H sums a remote =
     (case remote of
        None \<Rightarrow> True
      | Some rem \<Rightarrow>
          (\<forall>k. cf_MD5 (file_at rem k) \<noteq> [] \<longrightarrow>
             gget (newest_slots a) k = Some (cf_BlobID (file_at rem k)) \<and> blob_with H (fst a) (cf_BlobID (file_at rem k)) (cf_MD5 (file_at rem k))) \<and>
          (\<forall>m \<in> sums. blob_at (fl_Blobs rem) (hex_encode m) > 0 \<longrightarrow> blob_with H (fst a) (blob_at (fl_Blobs rem) (hex_encode m)) m))"

lemma json_sum:
  assumes "or_zero '''' (jo_string J x ''MD5'') = b64_encode m"
  shows "json_md5 J x = m"
  by (simp add: json_md5_def assms)

lemma build_view:
  assumes sh: "shows_item J H json a" and live: "None \<notin> set (fst a)"
    and slots: "\<forall>k b. gget (newest_slots a) k = Some b \<longrightarrow> 1 \<le> b \<and> b \<le> int (length (fst a))"
    and names: "\<forall>m \<in> sums. gget (newest_slots a) (hex_encode m) = None"
  shows "\<exists>rem. BuildListFromJSON J json (fl_New root) = Inr rem \<and> remote_view H sums a (Some rem)"
proof -
  obtain bs vs where J: "jo_objects J json ''Blobs'' = Inr bs" "length bs = length (fst a)"
      "\<forall>i < length bs. or_zero 0 (jo_int64 J (bs ! i) ''ID'') = int i + 1 \<and>
         (\<forall>c. fst a ! i = Some c \<longrightarrow> or_zero '''' (jo_string J (bs ! i) ''MD5'') = b64_encode (h_md5 H c))"
      "jo_objects J json ''Versions'' = Inr vs" "length vs = length (snd a)"
      "vs \<noteq> [] \<longrightarrow> (\<exists>obj m. jo_object J (last vs) ''Slots'' = Inr obj \<and> jo_ints J (Some obj) = Inr m \<and> gmap_ok m \<and>
         (\<forall>k. gget (newest_slots a) k = map_option (or_zero 0) (gget m k)))"
    using sh unfolding shows_item_def by blast
  have at: "blob_with H (fst a) (int i + 1) (json_md5 J (bs ! i))" if i: "i < length bs" for i
  proof -
    obtain c where c: "fst a ! i = Some c" using live i J(2) by (metis not_Some_eq nth_mem)
    then have "json_md5 J (bs ! i) = h_md5 H c" using J(3) i by (auto intro: json_sum)
    then show ?thesis using c i J(2) by (simp add: blob_with_def)
  qed
  let ?f = "(fl_New root)\<lparr>fl_Blobs := list_blobs J bs []\<rparr>"
  have sums: "blob_with H (fst a) b m" if "gget (list_blobs J bs []) (hex_encode m) = Some b" for b m
  proof -
    from list_blobs_get[OF that] obtain x where x: "x \<in> set bs" "b = or_zero 0 (jo_int64 J x ''ID'')" "hex_encode m = hex_encode (json_md5 J x)" by auto
    then obtain i where "i < length bs" "x = bs ! i" by (metis in_set_conv_nth)
    then show ?thesis using at[of i] J(3) x(2) hex_encode_inj[OF x(3)] by simp
  qed
  show ?thesis
  proof (cases "vs = []")
    case True
    then have "BuildListFromJSON J json (fl_New root) = Inr ?f" by (simp add: BuildListFromJSON_def J or_zero_def fl_New_def)
    moreover have "remote_view H sums a (Some ?f)"
      using sums by (auto simp: remote_view_def file_at_def no_cfile_def fl_New_def blob_at_def split: option.splits)
    ultimately show ?thesis by blast
  next
    case False
    then obtain obj m where m: "jo_object J (last vs) ''Slots'' = Inr obj" "jo_ints J (Some obj) = Inr m" "gmap_ok m"
        "\<And>k. gget (newest_slots a) k = map_option (or_zero 0) (gget m k)" using J(6) by blast
    have range: "1 \<le> or_zero 0 v \<and> or_zero 0 v \<le> int (length bs)" if "gget m k = Some v" for k v
      using slots[rule_format, of k "or_zero 0 v"] that J(2) by (simp add: m(4))
    then have "\<forall>s \<in> set m. 1 \<le> or_zero 0 (snd s) \<and> or_zero 0 (snd s) \<le> int (length bs)" using m(3) by (metis gget_unique prod.collapse)
    from list_slots_ok[OF m(3) this, of J ?f] obtain rem where r: "list_slots J bs m ?f = Inr rem"
      "\<And>k. case gget m k of
        None \<Rightarrow> gget (fl_Files rem) k = gget (fl_Files ?f) k \<and> gget (fl_Blobs rem) k = gget (fl_Blobs ?f) k
      | Some v \<Rightarrow> cf_BlobID (file_at rem k) = or_zero 0 v \<and> cf_MD5 (file_at rem k) = json_md5 J (bs ! nat (or_zero 0 v - 1))" by blast
    have b: "BuildListFromJSON J json (fl_New root) = Inr rem"
      using False m(1,2) r(1) by (simp add: BuildListFromJSON_def J(1,4) or_zero_def opt_object_def fl_New_def)
    have "gget (newest_slots a) k = Some (cf_BlobID (file_at rem k)) \<and> blob_with H (fst a) (cf_BlobID (file_at rem k)) (cf_MD5 (file_at rem k))"
      if k: "cf_MD5 (file_at rem k) \<noteq> []" for k
    proof (cases "gget m k")
      case None
      then have "gget (fl_Files rem) k = None" using r(2)[of k] by (simp add: fl_New_def)
      then show ?thesis using k by (simp add: file_at_def no_cfile_def)
    next
      case (Some v)
      let ?i = "nat (or_zero 0 v - 1)"
      have "?i < length bs" "int ?i + 1 = or_zero 0 v" using range[OF Some] by auto
      with at[of ?i] r(2)[of k] Some show ?thesis by (simp add: m(4))
    qed
    moreover have "blob_with H (fst a) (blob_at (fl_Blobs rem) (hex_encode s)) s" if s: "s \<in> sums" "blob_at (fl_Blobs rem) (hex_encode s) > 0" for s
    proof -
      have "gget m (hex_encode s) = None" using names s(1) m(4)[of "hex_encode s"] by auto
      then have "gget (fl_Blobs rem) (hex_encode s) = gget (list_blobs J bs []) (hex_encode s)" using r(2)[of "hex_encode s"] by simp
      then show ?thesis using s(2) sums by (auto simp: blob_at_def split: option.splits)
    qed
    ultimately have "remote_view H sums a (Some rem)" by (simp add: remote_view_def)
    with b show ?thesis by blast
  qed
qed

section \<open>The commands in a commit\<close>

lemma spec_cmds_append: "spec_cmds H ups xs st = (True, st1) \<Longrightarrow> spec_cmds H ups (xs @ ys) st = spec_cmds H ups ys st1"
  by (induction xs arbitrary: st) (auto simp: Let_def split: prod.splits if_splits)

lemma blob_with_append: "blob_with H cs b m \<Longrightarrow> blob_with H (cs @ added) b m"
  by (auto simp: blob_with_def nth_append)

lemma fmt_d_positive: "0 < b \<Longrightarrow> CHR ''-'' \<notin> set (fmt_d b)"
  using not_digit_in_digits(1)[of "CHR ''-''" "nat b"] digit_char_not_sign by (simp add: fmt_d_def) metis

lemma cmd_slot:
  assumes "gget bm fid = Some b \<or> gget bm fid = None \<and> parse_int fid = Some b" and "b \<noteq> 0"
  shows "spec_cmd H ups [''slot'', name, fid] ((cs, slots, dels), bm) = (True, (cs, gset name b slots, dels), bm)"
  using assms by (auto simp: spec_cmd_def WellFormed_def)

lemma cmd_mimetype: "parse_int b = Some n \<Longrightarrow> spec_cmd H ups [''mimetype'', b, t] st = (True, st)"
  by (cases st) (simp add: spec_cmd_def WellFormed_def)

lemma spec_find_with:
  assumes "spec_known H cs sz md5 []" and "md5 \<noteq> []"
  shows "blob_with H cs (spec_find H cs sz md5 []) md5"
proof -
  let ?P = "spec_match H sz md5 []" and ?i = "length (takeWhile (\<lambda>x. \<not> spec_match H sz md5 [] x) cs)"
  obtain x where "x \<in> set cs" "?P x" using assms(1) by (auto simp: spec_known_def)
  then have i: "?i < length cs" by (metis length_takeWhile_le nat_less_le takeWhile_eq_all_conv takeWhile_eq_take take_all_iff order_refl)
  then have "?P (cs ! ?i)" using nth_length_takeWhile[OF i] by simp
  then obtain d where d: "cs ! ?i = Some d" "md5 = h_md5 H d" using assms(2) unfolding spec_match_def by (auto split: option.splits)
  have "spec_find H cs sz md5 [] = int ?i + 1" by (simp add: spec_find_def)
  then show ?thesis using i d unfolding blob_with_def by simp
qed

lemma cmd_add:
  assumes "ups fid = Some (c, md5, [])" and "md5 = [] \<or> md5 = h_md5 H c"
  shows "\<exists>b added. spec_cmd H ups [''add'', fid] ((cs, slots, dels), bm) = (True, (cs @ added, slots, dels), gset fid b bm) \<and>
    blob_with H (cs @ added) b (h_md5 H c)"
proof (cases "spec_known H cs (int (length c)) md5 []")
  case True
  then have m: "md5 = h_md5 H c" "md5 \<noteq> []" using assms(2) by (auto simp: spec_known_def)
  have "spec_cmd H ups [''add'', fid] ((cs, slots, dels), bm) = (True, (cs @ [], slots, dels), gset fid (spec_find H cs (int (length c)) md5 []) bm)"
    using assms(1) True by (simp add: spec_cmd_def WellFormed_def spec_add_def Let_def)
  moreover have "blob_with H (cs @ []) (spec_find H cs (int (length c)) md5 []) (h_md5 H c)" using spec_find_with[OF True m(2)] m(1) by simp
  ultimately show ?thesis by blast
next
  case False
  have "spec_cmd H ups [''add'', fid] ((cs, slots, dels), bm) = (True, (cs @ [Some c], slots, dels), gset fid (int (length cs) + 1) bm)"
    using assms False by (auto simp: spec_cmd_def WellFormed_def spec_add_def sums_ok_def Let_def)
  moreover have "blob_with H (cs @ [Some c]) (int (length cs) + 1) (h_md5 H c)" by (simp add: blob_with_def nth_append)
  ultimately show ?thesis by blast
qed

text \<open>Between two files: blobs are only added, and the uploads that the client has counted are in the map of the transaction.\<close>

definition sync_inv :: "hashes \<Rightarrow> string \<Rightarrow> aitem \<Rightarrow> bytes option list \<Rightarrow> (string, int) gomap \<Rightarrow> (string, int) gomap \<Rightarrow> bool" where
  "sync_inv H item a cs bm blobs =
     ((\<exists>added. cs = fst a @ added) \<and>
      (\<forall>m. blob_at blobs (hex_encode m) \<noteq> 0 \<longrightarrow> (\<exists>b. gget bm (item @ ''-'' @ hex_encode m) = Some b \<and> blob_with H cs b m)) \<and>
      (\<forall>k. gget bm k \<noteq> None \<longrightarrow> CHR ''-'' \<in> set k))"

text \<open>The file of a new blob has been uploaded.\<close>

definition upload_there :: "hashes \<Rightarrow> afiles \<Rightarrow> string \<Rightarrow> bytes \<Rightarrow> bool" where
  "upload_there H ups item m = (\<exists>c md5. ups (item @ ''-'' @ hex_encode m) = Some (c, md5, []) \<and> h_md5 H c = m \<and> (md5 = [] \<or> md5 = m))"

lemma resolve_remote_run:
  assumes rv: "remote_view H sums a remote" and inv: "sync_inv H item a cs bm blobs" and len: "int (length (fst a)) < 2 ^ 63"
    and r: "resolve_remote remote name info = Some acts" and m: "cf_MD5 info \<in> sums" and slot: "gget slots name = gget (newest_slots a) name"
  shows "\<exists>slots'. spec_cmds H ups (MakeTransactionCommands item acts) ((cs, slots, dels), bm) = (True, (cs, slots', dels), bm) \<and>
    (\<exists>b. gget slots' name = Some b \<and> blob_with H cs b (cf_MD5 info)) \<and> (\<forall>k. k \<noteq> name \<longrightarrow> gget slots' k = gget slots k)"
proof -
  obtain rem where rem: "remote = Some rem" using r by (auto simp: resolve_remote_def split: option.splits)
  obtain added where cs: "cs = fst a @ added" using inv by (auto simp: sync_inv_def)
  have num: "parse_int (fmt_d b) = Some b" "gget bm (fmt_d b) = None" "b \<noteq> 0" if "blob_with H (fst a) b s" for b s
    using that len parse_int_fmt_d[of b] fmt_d_positive[of b] inv by (auto simp: blob_with_def int64_ok_def sync_inv_def)
  let ?ri = "file_at rem name" and ?b = "blob_at (fl_Blobs rem) (hex_encode (cf_MD5 info))"
  show ?thesis
  proof (cases "length (cf_MD5 ?ri) \<noteq> 0 \<and> cf_MD5 info = cf_MD5 ?ri")
    case True
    then have v: "gget slots name = Some (cf_BlobID ?ri)" "blob_with H (fst a) (cf_BlobID ?ri) (cf_MD5 info)" using rv slot by (simp_all add: remote_view_def rem)
    have "acts = [] \<or> acts = [no_action\<lparr>ac_What := AUpdateMimeType, ac_BlobID := cf_BlobID ?ri, ac_MimeType := cf_MimeType info\<rparr>]"
      using r True by (auto simp: resolve_remote_def rem Let_def split: if_splits)
    then have "spec_cmds H ups (MakeTransactionCommands item acts) ((cs, slots, dels), bm) = (True, (cs, slots, dels), bm)"
      using cmd_mimetype[OF num(1)[OF v(2)]] by (auto simp: MakeTransactionCommands_def action_commands_def no_action_def)
    then show ?thesis using v blob_with_append[OF v(2)] cs by blast
  next
    case False
    then have acts: "acts = [no_action\<lparr>ac_What := AUpdateFile, ac_Name := name, ac_BlobID := ?b\<rparr>]" "?b > 0"
      using r by (auto simp: resolve_remote_def rem Let_def split: if_splits)
    have v: "blob_with H (fst a) ?b (cf_MD5 info)" using rv m acts(2) by (simp add: remote_view_def rem)
    have "spec_cmds H ups (MakeTransactionCommands item acts) ((cs, slots, dels), bm) = (True, (cs, gset name ?b slots, dels), bm)"
      using cmd_slot[OF disjI2[OF conjI[OF num(2,1)[OF v]]] num(3)[OF v]] acts by (simp add: MakeTransactionCommands_def action_commands_def no_action_def)
    then show ?thesis using blob_with_append[OF v] cs by (intro exI[of _ "gset name ?b slots"]) auto
  qed
qed

text \<open>A file whose content is not on the server: its blob is added, unless an earlier file has the same content, and the slot is set to it.\<close>

definition new_file_actions :: "string \<Rightarrow> cfile \<Rightarrow> bool \<Rightarrow> action list" where
  "new_file_actions name info fresh =
     (if fresh then [no_action\<lparr>ac_What := ANewBlob, ac_Source := cf_AbsPath info, ac_MD5 := cf_MD5 info, ac_MimeType := cf_MimeType info\<rparr>] else []) @
     [no_action\<lparr>ac_What := AUpdateFile, ac_MD5 := cf_MD5 info, ac_Name := name\<rparr>]"

lemma new_file_run:
  fixes info :: cfile
  defines "hx \<equiv> hex_encode (cf_MD5 info)"
  assumes inv: "sync_inv H item a cs bm blobs" and up: "upload_there H ups item (cf_MD5 info)"
  shows "\<exists>added b bm'. spec_cmds H ups (MakeTransactionCommands item (new_file_actions name info (blob_at blobs hx = 0))) ((cs, slots, dels), bm) =
      (True, (cs @ added, gset name b slots, dels), bm') \<and> blob_with H (cs @ added) b (cf_MD5 info) \<and>
    sync_inv H item a (cs @ added) bm' (if blob_at blobs hx = 0 then gset hx (- 1) blobs else blobs)"
proof (cases "blob_at blobs hx = 0")
  case False
  then obtain b where b: "gget bm (item @ ''-'' @ hx) = Some b" "blob_with H cs b (cf_MD5 info)" using inv by (auto simp: sync_inv_def hx_def)
  then have "b \<noteq> 0" by (simp add: blob_with_def)
  from cmd_slot[OF disjI1[OF b(1)] this] False have
    "spec_cmds H ups (MakeTransactionCommands item (new_file_actions name info (blob_at blobs hx = 0))) ((cs, slots, dels), bm) =
      (True, (cs @ [], gset name b slots, dels), bm)"
    by (simp add: new_file_actions_def MakeTransactionCommands_def action_commands_def no_action_def hx_def)
  then show ?thesis using b(2) False inv by (intro exI[of _ "[]"] exI[of _ b] exI[of _ bm]) simp
next
  case True
  let ?fid = "item @ ''-'' @ hx"
  obtain c md5 where u: "ups ?fid = Some (c, md5, [])" "h_md5 H c = cf_MD5 info" "md5 = [] \<or> md5 = h_md5 H c"
    using up unfolding upload_there_def hx_def by (metis (no_types, lifting))
  obtain b added where ad: "spec_cmd H ups [''add'', ?fid] ((cs, slots, dels), bm) = (True, (cs @ added, slots, dels), gset ?fid b bm)"
      "blob_with H (cs @ added) b (cf_MD5 info)" using cmd_add[where ups = ups and fid = ?fid, OF u(1,3), of cs slots dels bm] u(2) by auto
  then have "b \<noteq> 0" by (simp add: blob_with_def)
  then have "spec_cmd H ups [''slot'', name, ?fid] ((cs @ added, slots, dels), gset ?fid b bm) = (True, (cs @ added, gset name b slots, dels), gset ?fid b bm)"
    by (intro cmd_slot) simp_all
  then have "spec_cmds H ups (MakeTransactionCommands item (new_file_actions name info (blob_at blobs hx = 0))) ((cs, slots, dels), bm) =
      (True, (cs @ added, gset name b slots, dels), gset ?fid b bm)"
    using True ad(1) by (simp add: new_file_actions_def MakeTransactionCommands_def action_commands_def no_action_def hx_def)
  moreover have "sync_inv H item a (cs @ added) (gset ?fid b bm) (gset hx (- 1) blobs)"
    unfolding sync_inv_def
  proof (intro conjI allI impI)
    show "\<exists>added'. cs @ added = fst a @ added'" using inv by (auto simp: sync_inv_def)
    show "CHR ''-'' \<in> set k" if "gget (gset ?fid b bm) k \<noteq> None" for k using that inv by (auto simp: sync_inv_def split: if_splits)
    fix m
    assume m: "blob_at (gset hx (- 1) blobs) (hex_encode m) \<noteq> 0"
    show "\<exists>b'. gget (gset ?fid b bm) (item @ ''-'' @ hex_encode m) = Some b' \<and> blob_with H (cs @ added) b' m"
    proof (cases "hex_encode m = hx")
      case True
      then have "m = cf_MD5 info" using hex_encode_inj unfolding hx_def by blast
      then show ?thesis using ad(2) True by auto
    next
      case False
      then have "blob_at blobs (hex_encode m) \<noteq> 0" using m by (simp add: blob_at_def)
      then obtain b' where "gget bm (item @ ''-'' @ hex_encode m) = Some b'" "blob_with H cs b' m" using inv by (auto simp: sync_inv_def)
      then show ?thesis using False by (auto intro: blob_with_append)
    qed
  qed
  ultimately show ?thesis using ad(2) True by auto
qed

lemma MakeTransactionCommands_append: "MakeTransactionCommands item (xs @ ys) = MakeTransactionCommands item xs @ MakeTransactionCommands item ys"
  by (simp add: MakeTransactionCommands_def)

lemma resolve_run:
  assumes rv: "remote_view H sums a remote" and len: "int (length (fst a)) < 2 ^ 63"
  shows "sync_inv H item a cs bm blobs \<Longrightarrow> distinct (map fst fs) \<Longrightarrow> \<forall>f \<in> set fs. cf_MD5 (snd f) \<in> sums \<Longrightarrow>
    \<forall>f \<in> set fs. gget slots (fst f) = gget (newest_slots a) (fst f) \<Longrightarrow>
    \<forall>f \<in> set fs. resolve_remote remote (fst f) (snd f) = None \<longrightarrow> upload_there H ups item (cf_MD5 (snd f)) \<Longrightarrow>
    \<exists>added slots' bm' . spec_cmds H ups (MakeTransactionCommands item (fst (resolve_files remote fs blobs))) ((cs, slots, dels), bm) =
        (True, (cs @ added, slots', dels), bm') \<and>
      (\<forall>f \<in> set fs. \<exists>b. gget slots' (fst f) = Some b \<and> blob_with H (cs @ added) b (cf_MD5 (snd f))) \<and>
      (\<forall>k. k \<notin> fst ` set fs \<longrightarrow> gget slots' k = gget slots k)"
proof (induction fs arbitrary: cs slots bm blobs)
  case Nil
  then show ?case by (auto simp: MakeTransactionCommands_def)
next
  case (Cons f fs)
  obtain name info where f: "f = (name, info)" by (rule prod.exhaust)
  let ?hx = "hex_encode (cf_MD5 info)"
  obtain acts blobs1 added1 slots1 bm1 b where step:
      "fst (resolve_files remote (f # fs) blobs) = acts @ fst (resolve_files remote fs blobs1)"
      "spec_cmds H ups (MakeTransactionCommands item acts) ((cs, slots, dels), bm) = (True, (cs @ added1, slots1, dels), bm1)"
      "gget slots1 name = Some b" "blob_with H (cs @ added1) b (cf_MD5 info)" "\<forall>k. k \<noteq> name \<longrightarrow> gget slots1 k = gget slots k"
      "sync_inv H item a (cs @ added1) bm1 blobs1"
  proof (cases "resolve_remote remote name info")
    case (Some acts)
    have "cf_MD5 info \<in> sums" "gget slots name = gget (newest_slots a) name" using Cons.prems(3,4) by (simp_all add: f)
    from resolve_remote_run[OF rv Cons.prems(1) len Some this, of ups dels] obtain slots' b where
      "spec_cmds H ups (MakeTransactionCommands item acts) ((cs, slots, dels), bm) = (True, (cs @ [], slots', dels), bm)"
      "gget slots' name = Some b" "blob_with H (cs @ []) b (cf_MD5 info)" "\<forall>k. k \<noteq> name \<longrightarrow> gget slots' k = gget slots k" by auto
    moreover have "fst (resolve_files remote (f # fs) blobs) = acts @ fst (resolve_files remote fs blobs)"
      using Some by (simp add: f split: prod.splits)
    ultimately show thesis using that[of acts blobs "[]" slots' bm b] Cons.prems(1) by simp
  next
    case None
    let ?blobs = "if blob_at blobs ?hx = 0 then gset ?hx (- 1) blobs else blobs" and ?acts = "new_file_actions name info (blob_at blobs ?hx = 0)"
    have "upload_there H ups item (cf_MD5 info)" using Cons.prems(5) None by (simp add: f)
    from new_file_run[OF Cons.prems(1) this, of name slots dels] obtain added b bm' where
      "spec_cmds H ups (MakeTransactionCommands item ?acts) ((cs, slots, dels), bm) = (True, (cs @ added, gset name b slots, dels), bm')"
      "blob_with H (cs @ added) b (cf_MD5 info)" "sync_inv H item a (cs @ added) bm' ?blobs" by blast
    moreover have "fst (resolve_files remote (f # fs) blobs) = ?acts @ fst (resolve_files remote fs ?blobs)"
      using None by (simp add: f new_file_actions_def Let_def split: prod.splits)
    ultimately show thesis using that[of ?acts ?blobs added "gset name b slots" bm' b] by simp
  qed
  have d: "distinct (map fst fs)" "name \<notin> fst ` set fs" using Cons.prems(2) by (auto simp: f)
  have p: "\<forall>f \<in> set fs. cf_MD5 (snd f) \<in> sums" "\<forall>f \<in> set fs. resolve_remote remote (fst f) (snd f) = None \<longrightarrow> upload_there H ups item (cf_MD5 (snd f))"
    using Cons.prems(3,5) by simp_all
  have "gget slots1 (fst g) = gget (newest_slots a) (fst g)" if g: "g \<in> set fs" for g
  proof -
    have "fst g \<noteq> name" using d(2) g by blast
    then show ?thesis using step(5) Cons.prems(4) g by simp
  qed
  then have same: "\<forall>f \<in> set fs. gget slots1 (fst f) = gget (newest_slots a) (fst f)" by blast
  from Cons.IH[OF step(6) d(1) p(1) same p(2)] obtain added2 slots2 bm2 where IH:
      "spec_cmds H ups (MakeTransactionCommands item (fst (resolve_files remote fs blobs1))) ((cs @ added1, slots1, dels), bm1) =
        (True, ((cs @ added1) @ added2, slots2, dels), bm2)"
      "\<forall>f \<in> set fs. \<exists>b. gget slots2 (fst f) = Some b \<and> blob_with H ((cs @ added1) @ added2) b (cf_MD5 (snd f))"
      "\<forall>k. k \<notin> fst ` set fs \<longrightarrow> gget slots2 k = gget slots1 k" by blast
  have "spec_cmds H ups (MakeTransactionCommands item (fst (resolve_files remote (f # fs) blobs))) ((cs, slots, dels), bm) =
      (True, (cs @ added1 @ added2, slots2, dels), bm2)"
    unfolding step(1) MakeTransactionCommands_append spec_cmds_append[OF step(2)] using IH(1) by simp
  moreover have "\<forall>g \<in> set (f # fs). \<exists>b. gget slots2 (fst g) = Some b \<and> blob_with H (cs @ added1 @ added2) b (cf_MD5 (snd g))"
    using IH(2,3) step(3) blob_with_append[OF step(4), of added2] d(2) by (auto simp: f)
  moreover have "\<forall>k. k \<notin> fst ` set (f # fs) \<longrightarrow> gget slots2 k = gget slots k" using IH(3) step(5) by (simp add: f)
  ultimately show ?case by blast
qed

lemma new_blob_listed:
  "f \<in> set fs \<Longrightarrow> resolve_remote remote (fst f) (snd f) = None \<Longrightarrow>
     blob_at blobs (hex_encode (cf_MD5 (snd f))) \<noteq> 0 \<or>
     (\<exists>t \<in> set (fst (resolve_files remote fs blobs)). ac_What t = ANewBlob \<and> ac_MD5 t = cf_MD5 (snd f))"
proof (induction fs arbitrary: blobs)
  case (Cons g fs)
  obtain name info where g: "g = (name, info)" by (rule prod.exhaust)
  let ?hx = "hex_encode (cf_MD5 info)"
  let ?blobs = "if resolve_remote remote name info = None \<and> blob_at blobs ?hx = 0 then gset ?hx (- 1) blobs else blobs"
  obtain acts where r: "fst (resolve_files remote (g # fs) blobs) = acts @ fst (resolve_files remote fs ?blobs)"
    and acts: "resolve_remote remote name info = None \<Longrightarrow> acts = new_file_actions name info (blob_at blobs ?hx = 0)"
  proof (cases "resolve_remote remote name info")
    case None
    show thesis by (rule that[of "new_file_actions name info (blob_at blobs ?hx = 0)"])
      (use None in \<open>simp_all add: g new_file_actions_def Let_def split: prod.splits\<close>)
  next
    case (Some acts)
    show thesis by (rule that[of acts]) (use Some in \<open>simp_all add: g split: prod.splits\<close>)
  qed
  let ?m = "cf_MD5 (snd f)"
  have here: ?case if "resolve_remote remote name info = None" "cf_MD5 info = ?m" "blob_at blobs ?hx = 0"
    using that acts r by (auto simp: new_file_actions_def)
  show ?case
  proof (cases "f = g")
    case True
    then show ?thesis using here Cons.prems(2) by (cases "blob_at blobs ?hx = 0") (simp_all add: g)
  next
    case False
    then have "f \<in> set fs" using Cons.prems(1) by simp
    from Cons.IH[OF this Cons.prems(2), of ?blobs] show ?thesis
    proof
      assume b: "blob_at ?blobs (hex_encode ?m) \<noteq> 0"
      show ?thesis
      proof (cases "resolve_remote remote name info = None \<and> blob_at blobs ?hx = 0 \<and> ?hx = hex_encode ?m")
        case True
        then have "cf_MD5 info = ?m" using hex_encode_inj by blast
        with True show ?thesis using here by simp
      next
        case False
        then have "blob_at blobs (hex_encode ?m) \<noteq> 0" using b by (auto simp: blob_at_def split: if_splits)
        then show ?thesis by simp
      qed
    qed (use r in auto)
  qed
qed simp

section \<open>What the client does not see\<close>

text \<open>The newest blob with a sum is the one in the list, also when it has been deleted: the sum stays in its record. A file with that content is then not
  uploaded, and its slot is set to the deleted blob.\<close>

lemma list_blobs_newest: "blob_at (list_blobs J (bs @ [x]) m) (hex_encode (json_md5 J x)) = or_zero 0 (jo_int64 J x ''ID'')"
  by (induction bs arbitrary: m) (simp_all add: blob_at_def)

lemma deleted_content_not_uploaded:
  assumes b: "blob_at (fl_Blobs rem) (hex_encode (cf_MD5 info)) = b" "0 < b" "int64_ok b" and new: "cf_MD5 (file_at rem name) \<noteq> cf_MD5 info"
  shows "spec_commit H ups (MakeTransactionCommands item (fst (resolve_files (Some rem) [(name, info)] []))) [] ([None], vs) =
    (True, [None], vs @ [gset name b (if vs = [] then [] else last vs)])"
proof -
  have "fst (resolve_files (Some rem) [(name, info)] []) = [no_action\<lparr>ac_What := AUpdateFile, ac_Name := name, ac_BlobID := b\<rparr>]"
    using b new by (auto simp: resolve_remote_def Let_def)
  then have "MakeTransactionCommands item (fst (resolve_files (Some rem) [(name, info)] [])) = [[''slot'', name, fmt_d b]]"
    using b(2) by (simp add: MakeTransactionCommands_def action_commands_def no_action_def)
  moreover have "spec_cmd H ups [''slot'', name, fmt_d b] (([None], slots, []), []) = (True, ([None], gset name b slots, []), [])" for slots
    using cmd_slot[of "[]" "fmt_d b" b] parse_int_fmt_d[OF b(3)] b(2) by simp
  ultimately show ?thesis by (simp add: spec_commit_def spec_open_def spec_kill_def)
qed

text \<open>The scan of the directory from which the client was started finds nothing, because its name is a dot.\<close>

lemma scan_dot: "ScanFilesystem tree ''.'' = []"
proof -
  have "path_Base ''.'' = ''.''" by (simp add: path_Base_def Let_def)
  then have v: "fst (scan_visit ''.'' isdir err) = []" "scan_visit ''.'' True None = ([], SkipDir)" for isdir err
    by (simp_all add: scan_visit_def has_prefix_def Let_def split: option.splits)
  show ?thesis
  proof (cases "tree ''.''")
    case (FDir es)
    then show ?thesis using v by (cases es) (simp_all add: ScanFilesystem_def Let_def split: prod.splits)
  qed (use v in \<open>simp_all add: ScanFilesystem_def\<close>)
qed

text \<open>A download of two files or more that cannot be read never returns: workers that fail end, and the second error finds the channel full.\<close>

lemma failed_downloads_hang:
  assumes "\<And>f o1 v. \<exists>e o2 v2. cmd_download O1 E c item f pathPrefix o1 v = (Some e, o2, v2) \<and> \<not> is_panic e"
  shows "2 \<le> length fs + length errs \<Longrightarrow> get_queue O1 E c item pathPrefix fs n errs o1 v = None"
proof (induction fs arbitrary: n errs o1 v)
  case (Cons f fs)
  obtain e o2 v2 where "cmd_download O1 E c item f pathPrefix o1 v = (Some e, o2, v2)" "\<not> is_panic e" using assms by blast
  with Cons.IH[of "e # errs" "n - 1" o2 v2] Cons.prems show ?case by simp
qed simp

text \<open>The upload of the blobs reports no error only when no upload had one.\<close>

lemma UploadBlobs_reports: "UploadBlobs L E H fg item stop ts (Some e) c v = Some (err, c', v') \<Longrightarrow> err \<noteq> None"
  by (induction L E H fg item stop ts "Some e" c v rule: UploadBlobs.induct) (auto split: if_splits option.splits prod.splits)

section \<open>Properties\<close>


text \<open>For the witness: JSON values, read as jason does, an item with one blob in one slot, and three files of which one is unchanged and two are new and
  have the same content.\<close>

datatype jvalue = JNum int | JStr string | JArr "jvalue list" | JObj "(string \<times> jvalue) list"

definition jfield :: "jvalue \<Rightarrow> string \<Rightarrow> jvalue option" where
  "jfield j k = (case j of JObj fs \<Rightarrow> map_of fs k | _ \<Rightarrow> None)"

definition jnum :: "jvalue \<Rightarrow> int result" where
  "jnum j = (case j of JNum n \<Rightarrow> Inr n | _ \<Rightarrow> Inl ErrJSON)"

definition demo_jason :: "jvalue jason" where
  "demo_jason = \<lparr>jo_int64 = (\<lambda>j k. case jfield j k of Some v \<Rightarrow> jnum v | _ \<Rightarrow> Inl ErrJSON),
     jo_string = (\<lambda>j k. case jfield j k of Some (JStr s) \<Rightarrow> Inr s | _ \<Rightarrow> Inl ErrJSON),
     jo_strings = (\<lambda>j k. Inl ErrJSON),
     jo_objects = (\<lambda>j k. case jfield j k of Some (JArr vs) \<Rightarrow> Inr vs | _ \<Rightarrow> Inl ErrJSON),
     jo_object = (\<lambda>j k. case jfield j k of Some v \<Rightarrow> Inr v | _ \<Rightarrow> Inl ErrJSON),
     jo_ints = (\<lambda>j. case j of Some (JObj fs) \<Rightarrow> Inr (map (\<lambda>(k, v). (k, jnum v)) fs) | _ \<Rightarrow> Inl ErrJSON)\<rparr>"

definition demo_H :: hashes where
  "demo_H = \<lparr>h_md5 = rev, h_sha256 = (\<lambda>b. b)\<rparr>"

definition demo_item_json :: jvalue where
  "demo_item_json = JObj [(''Blobs'', JArr [JObj [(''ID'', JNum 1), (''MD5'', JStr (b64_encode ''dlo''))]]),
     (''Versions'', JArr [JObj [(''Slots'', JObj [(''a'', JNum 1)])]])]"

definition demo_found :: "cfile list" where
  "demo_found = [no_cfile\<lparr>cf_Name := ''a'', cf_MD5 := ''dlo''\<rparr>, no_cfile\<lparr>cf_Name := ''b'', cf_MD5 := ''wen''\<rparr>, no_cfile\<lparr>cf_Name := ''c'', cf_MD5 := ''wen''\<rparr>]"

definition demo_ups :: afiles where
  "demo_ups fid = (if fid = ''i-'' @ hex_encode ''wen'' then Some (''new'', ''wen'', []) else None)"


end
