(* ===== verification/Util_Commands.thy ===== *)
theory Util_Commands
  imports Client_Files Item_Session
begin

text \<open>
  The tool butil, src/cmd/butil/main.go, which works on the item store of a directory without a server: reading, adding and deleting, and
  the repair of items whose list of blobs has gaps. The local files are the environment of the client (\<open>local_env\<close>), with the sizes that
  \<open>Lstat\<close> gives. Printing an item is a list of lines; the layout of columns (package text/tabwriter) is an argument. A result \<open>None\<close> is a file whose reading never ends.
\<close>

section \<open>Reading\<close>

text \<open>The value of \<open>strconv.Atoi\<close> where its error is dropped: nothing for a syntax error, the nearest number for one that is out of range.\<close>

definition Atoi_value :: "string \<Rightarrow> int" where
  "Atoi_value s =
     (case parse_int s of
        Some n \<Rightarrow> n
      | None \<Rightarrow>
          (case s of
             [] \<Rightarrow> 0
           | c # cs \<Rightarrow>
               (case parse_nat (if c = CHR ''-'' \<or> c = CHR ''+'' then cs else s) of
                  None \<Rightarrow> 0
                | Some n \<Rightarrow> if c = CHR ''-'' then - (2 ^ 63) else 2 ^ 63 - 1)))"

definition doblob :: "('s, 'w, 'c) item_env \<Rightarrow> ('s, 'c) item_store \<Rightarrow> string \<Rightarrow> string \<Rightarrow> bytes \<times> ('s, 'c) item_store" where
  "doblob E st iid blob =
     (let bid = Atoi_value blob;
          (res, st1) = items_Blob E st iid bid
      in (case res of
            Inl e \<Rightarrow> iid @ '' / '' @ fmt_d bid @ '': Error '' @ err_Error e @ [newline]
          | Inr ((data, err), size1) \<Rightarrow> data, st1))"

text \<open>The slots of a version in the order of their names.\<close>

definition sortBySlot :: "(string, int) gomap \<Rightarrow> (string \<times> int) list" where
  "sortBySlot m = sort_key fst m"

definition pad5 :: "int \<Rightarrow> string" where
  "pad5 n = (let s = fmt_d n in replicate (5 - length s) (CHR '' '') @ s)"

text \<open>\<open>tab\<close> is the text that a tabwriter makes of rows of two cells; \<open>show_time\<close> is the verb \<open>%v\<close> on a time.\<close>

definition print_version :: "((string \<times> string) list \<Rightarrow> string list) \<Rightarrow> (time \<Rightarrow> string) \<Rightarrow> bool \<Rightarrow> version \<Rightarrow> string list" where
  "print_version tab show_time verbose vers =
     ''---'' # tab [(''Version:'', fmt_d (ver_ID vers)), (''SaveDate:'', show_time (ver_SaveDate vers)), (''Creator:'', ver_Creator vers), (''Note:'', ver_Note vers)] @
     (if verbose then '' Blob  Slot'' # map (\<lambda>(slot, blob). pad5 blob @ ''  '' @ slot) (sortBySlot (ver_Slots vers)) else [])"

definition print_blob :: "((string \<times> string) list \<Rightarrow> string list) \<Rightarrow> (time \<Rightarrow> string) \<Rightarrow> blob \<Rightarrow> string list" where
  "print_blob tab show_time b =
     ''---'' # tab [(''Blob:'', fmt_d (blob_ID b)), (''SaveDate:'', show_time (blob_SaveDate b)), (''Creator:'', blob_Creator b), (''Size:'', fmt_d (blob_Size b)),
        (''Bundle:'', fmt_d (blob_Bundle b)), (''MD5:'', hex_encode (blob_MD5 b)), (''SHA256:'', hex_encode (blob_SHA256 b)),
        (''DeleteDate:'', show_time (blob_DeleteDate b)), (''Deleter:'', blob_Deleter b), (''DeleteNote:'', blob_DeleteNote b)]"

definition printitem :: "((string \<times> string) list \<Rightarrow> string list) \<Rightarrow> (time \<Rightarrow> string) \<Rightarrow> bool \<Rightarrow> item \<Rightarrow> string list" where
  "printitem tab show_time verbose item =
     [''Item: '' @ item_ID item, ''Num Versions: '' @ fmt_d (int (length (item_Versions item))),
      ''Num Blobs: '' @ fmt_d (int (length (item_Blobs item))), ''Num Bundles: '' @ fmt_d (item_MaxBundle item)] @
     concat (map (print_version tab show_time verbose) (item_Versions item)) @
     (if verbose then concat (map (print_blob tab show_time) (item_Blobs item)) else [])"

text \<open>An error ends the command.\<close>

fun doitem ::
  "('s, 'w, 'c) item_env \<Rightarrow> (item \<Rightarrow> string list) \<Rightarrow> string list \<Rightarrow> ('s, 'c) item_store \<Rightarrow> string list \<times> ('s, 'c) item_store" where
  "doitem E pr [] st = ([], st)"
| "doitem E pr (iid # ids) st =
     (case items_Item E st iid of
        (Inl e, st1) \<Rightarrow> ([iid @ '': Error '' @ err_Error e], st1)
      | (Inr item, st1) \<Rightarrow> (let (ls, st2) = doitem E pr ids st1 in (pr item @ ls, st2)))"

definition dolist :: "('s, 'w, 'c) item_env \<Rightarrow> ('s, 'c) item_store \<Rightarrow> string list" where
  "dolist E st = items_List E st"

section \<open>Adding files\<close>

definition deriveSlotName :: "string \<Rightarrow> string \<Rightarrow> string" where
  "deriveSlotName parentpath fname =
     (let slot = trim_prefix fname parentpath;
          slot1 = (if slot = '''' then path_Base fname else slot)
      in trim_prefix slot1 ''/'')"

text \<open>The bytes of an open file and the error that reading ends with.\<close>

definition read_all :: "'r local_env \<Rightarrow> 'r \<Rightarrow> (bytes \<times> error option) option" where
  "read_all L r = map_option fst (seeker_copy (le_seeker L) copy_buffer r [])"

definition findBlobByFile :: "'r local_env \<Rightarrow> hashes \<Rightarrow> item \<Rightarrow> string \<Rightarrow> int \<Rightarrow> int option" where
  "findBlobByFile L H item fname sz =
     (if \<not> list_ex (\<lambda>b. blob_Size b = sz) (item_Blobs item) then Some 0
      else
        (case le_open L fname of
           Inl e \<Rightarrow> Some 0
         | Inr r \<Rightarrow>
             (case read_all L r of
                None \<Rightarrow> None
              | Some (data, Some e) \<Rightarrow> Some 0
              | Some (data, None) \<Rightarrow>
                  (let h = fst (CheckSHA256 H (snd (hw_Write NewHashWriterPlain data (length data, None))) []) in
                   Some (case find (\<lambda>b. blob_SHA256 b = h) (item_Blobs item) of None \<Rightarrow> 0 | Some b \<Rightarrow> blob_ID b)))))"

definition addfile ::
  "'r local_env \<Rightarrow> ('s, 'w, 'c) item_env \<Rightarrow> time \<Rightarrow> item option \<Rightarrow> string \<Rightarrow> string \<Rightarrow> int \<Rightarrow> ('s, 'c) item_store \<times> 'w item_writer \<Rightarrow>
     (error option \<times> ('s, 'c) item_store \<times> 'w item_writer) option" where
  "addfile L E now item fname slotname sz st =
     (case (case item of None \<Rightarrow> Some 0 | Some it \<Rightarrow> findBlobByFile L (e_H E) it fname sz) of
        None \<Rightarrow> None
      | Some bid \<Rightarrow>
          if bid \<noteq> 0 then Some (None, fst st, SetSlot (snd st) slotname bid)
          else
            (case le_open L fname of
               Inl e \<Rightarrow> Some (Some e, st)
             | Inr r \<Rightarrow>
                 (case read_all L r of
                    None \<Rightarrow> None
                  | Some content \<Rightarrow>
                      (case Writer_WriteBlob E now (fst st) (snd st) content sz [] [] of
                         ((bid1, Some e), st1, wr1) \<Rightarrow> Some (Some e, st1, wr1)
                       | ((bid1, None), st1, wr1) \<Rightarrow> Some (None, st1, SetSlot wr1 slotname bid1)))))"

fun found_path :: "found \<Rightarrow> string" where
  "found_path (Plain p) = p"
| "found_path (Manifest p) = p"

text \<open>The files of a walk in its order, until an error.\<close>

fun add_paths ::
  "'r local_env \<Rightarrow> (string \<Rightarrow> int) \<Rightarrow> ('s, 'w, 'c) item_env \<Rightarrow> time \<Rightarrow> item option \<Rightarrow> string \<Rightarrow> string list \<Rightarrow> ('s, 'c) item_store \<times> 'w item_writer \<Rightarrow>
     (error option \<times> ('s, 'c) item_store \<times> 'w item_writer) option" where
  "add_paths L fsize E now item name [] st = Some (None, st)"
| "add_paths L fsize E now item name (path # paths) st =
     (case addfile L E now item path (deriveSlotName name path) (fsize path) st of
        None \<Rightarrow> None
      | Some (Some e, st1) \<Rightarrow> Some (Some e, st1)
      | Some (None, st1) \<Rightarrow> add_paths L fsize E now item name paths st1)"

fun add_trees ::
  "'r local_env \<Rightarrow> (string \<Rightarrow> int) \<Rightarrow> ('s, 'w, 'c) item_env \<Rightarrow> time \<Rightarrow> item option \<Rightarrow> string list \<Rightarrow> ('s, 'c) item_store \<times> 'w item_writer \<Rightarrow>
     (error option \<times> ('s, 'c) item_store \<times> 'w item_writer) option" where
  "add_trees L fsize E now item [] st = Some (None, st)"
| "add_trees L fsize E now item (name # names) st =
     (let (fs, r) = walk name (le_tree L name) in
      case add_paths L fsize E now item name (map found_path fs) st of
        None \<Rightarrow> None
      | Some (Some e, st1) \<Rightarrow> Some (Some e, st1)
      | Some (None, st1) \<Rightarrow>
          (case r of WalkError e \<Rightarrow> Some (Some e, st1) | _ \<Rightarrow> add_trees L fsize E now item names st1))"

text \<open>The part of \<open>doadd\<close> after the item has been read. The writer is closed in every case, and the error of closing it is dropped. The result is the error that is printed.\<close>

definition add_session ::
  "'r local_env \<Rightarrow> (string \<Rightarrow> int) \<Rightarrow> ('s, 'w, 'c) item_env \<Rightarrow> time \<Rightarrow> string \<Rightarrow> string \<Rightarrow> string list \<Rightarrow> bool \<Rightarrow> item option \<Rightarrow> ('s, 'c) item_store \<Rightarrow>
     (error option \<times> ('s, 'c) item_store) option" where
  "add_session L fsize E now creator iid files isset item st =
     (case items_Open E now st iid creator of
        (Inl e, st1) \<Rightarrow> Some (Some e, st1)
      | (Inr wr, st1) \<Rightarrow>
          (case add_trees L fsize E now item files (st1, if isset then ClearSlots wr else wr) of
             None \<Rightarrow> None
           | Some (err, st2, wr2) \<Rightarrow> Some (err, fst (snd (Writer_Close E now st2 wr2)))))"

definition doadd ::
  "'r local_env \<Rightarrow> (string \<Rightarrow> int) \<Rightarrow> ('s, 'w, 'c) item_env \<Rightarrow> time \<Rightarrow> string \<Rightarrow> string \<Rightarrow> string list \<Rightarrow> bool \<Rightarrow> ('s, 'c) item_store \<Rightarrow>
     (error option \<times> ('s, 'c) item_store) option" where
  "doadd L fsize E now creator iid files isset st =
     (case items_Item E st iid of
        (res, st1) \<Rightarrow>
          (case res of
             Inl e \<Rightarrow> if e \<noteq> ErrNoItem then Some (Some e, st1) else add_session L fsize E now creator iid files isset None st1
           | Inr it \<Rightarrow> add_session L fsize E now creator iid files isset (Some it) st1))"

section \<open>Deleting\<close>

fun parse_ids :: "string list \<Rightarrow> int list result" where
  "parse_ids [] = Inr []"
| "parse_ids (s # ss) =
     (case parse_int s of None \<Rightarrow> Inl (ErrNumSyntax s) | Some n \<Rightarrow> (case parse_ids ss of Inl e \<Rightarrow> Inl e | Inr ns \<Rightarrow> Inr (n # ns)))"

definition dodelete ::
  "('s, 'w, 'c) item_env \<Rightarrow> time \<Rightarrow> string \<Rightarrow> string \<Rightarrow> string list \<Rightarrow> ('s, 'c) item_store \<Rightarrow> error option \<times> ('s, 'c) item_store" where
  "dodelete E now creator iid delblobs st =
     (case parse_ids delblobs of
        Inl e \<Rightarrow> (Some e, st)
      | Inr delbid \<Rightarrow>
          (case items_Open E now st iid creator of
             (Inl e, st1) \<Rightarrow> (Some e, st1)
           | (Inr wr, st1) \<Rightarrow>
               (let (err, st2, wr2) = Writer_Close E now st1 (fold (\<lambda>b w. DeleteBlob w b) delbid wr) in (err, st2))))"

section \<open>Items with gaps in their list of blobs\<close>

definition has_gaps :: "item \<Rightarrow> bool" where
  "has_gaps item = (item_Blobs item \<noteq> [] \<and> int (length (item_Blobs item)) \<noteq> blob_ID (last (item_Blobs item)))"

fun identify_loop :: "('s, 'w, 'c) item_env \<Rightarrow> string list \<Rightarrow> ('s, 'c) item_store \<Rightarrow> string list \<times> ('s, 'c) item_store" where
  "identify_loop E [] st = ([], st)"
| "identify_loop E (iid # ids) st =
     (case items_Item E st iid of
        (Inl e, st1) \<Rightarrow> ([err_Error e], st1)
      | (Inr item, st1) \<Rightarrow> (let (ls, st2) = identify_loop E ids st1 in (if has_gaps item then iid # ls else ls, st2)))"

definition doidentifymissingblobs :: "('s, 'w, 'c) item_env \<Rightarrow> ('s, 'c) item_store \<Rightarrow> string list \<times> ('s, 'c) item_store" where
  "doidentifymissingblobs E st = identify_loop E (items_List E st) st"

definition zeroMD5 :: bytes where
  "zeroMD5 = emptyMD5"

text \<open>The digest is written in hexadecimal, eight bytes in a string.\<close>

definition zeroSHA256 :: bytes where
  "zeroSHA256 = fst (hex_decode (''e3b0c44298fc1c14'' @ ''9afbf4c8996fb924'' @ ''27ae41e4649b934c'' @ ''a495991b7852b855''))"

text \<open>The loop over the expected numbers: a missing blob is taken to be in the bundle of the next one in the list.\<close>

fun find_missing :: "int list \<Rightarrow> blob list \<Rightarrow> (int \<times> int) list result" where
  "find_missing [] bs = Inr []"
| "find_missing (expected # es) [] = Inl (Panic ''index out of range'')"
| "find_missing (expected # es) (b # bs) =
     (if blob_ID b = expected then find_missing es bs
      else (case find_missing es (b # bs) of Inl e \<Rightarrow> Inl e | Inr ms \<Rightarrow> Inr ((expected, blob_Bundle b) # ms)))"

definition missing_blob :: "time \<Rightarrow> string \<Rightarrow> int \<times> int \<Rightarrow> blob" where
  "missing_blob now creator mp =
     \<lparr>blob_ID = fst mp, blob_SaveDate = now, blob_Creator = creator, blob_Size = 0, blob_Bundle = snd mp, blob_MD5 = zeroMD5, blob_SHA256 = zeroSHA256,
      blob_MimeType = '''', blob_DeleteDate = 0, blob_Deleter = '''', blob_DeleteNote = ''''\<rparr>"

definition fixed_blobs :: "time \<Rightarrow> string \<Rightarrow> blob list \<Rightarrow> blob list result" where
  "fixed_blobs now creator bs =
     (case find_missing [1..blob_ID (last bs)] bs of
        Inl e \<Rightarrow> Inl e
      | Inr ms \<Rightarrow> Inr (sort_key blob_ID (bs @ map (missing_blob now creator) ms)))"

definition fixmissingblob ::
  "('s, 'w, 'c) item_env \<Rightarrow> time \<Rightarrow> string \<Rightarrow> string \<Rightarrow> ('s, 'c) item_store \<Rightarrow> error option \<times> ('s, 'c) item_store" where
  "fixmissingblob E now creator iid st =
     (case items_Item E st iid of
        (Inl e, st1) \<Rightarrow> (Some e, st1)
      | (Inr item, st1) \<Rightarrow>
          if \<not> has_gaps item then (None, st1)
          else
            (case fixed_blobs now creator (item_Blobs item) of
               Inl e \<Rightarrow> (Some e, st1)
             | Inr bs \<Rightarrow>
                 (let item1 = item\<lparr>item_Blobs := bs\<rparr>;
                      (s1, bw) = NewBundler E now (is_S st1) item1;
                      (err, s2, bw2) = bun_Close E now s1 bw (item1\<lparr>item_MaxBundle := item_MaxBundle item1 + 1\<rparr>)
                  in (err, st1\<lparr>is_S := s2\<rparr>))))"

text \<open>Errors are printed; a panic ends the program.\<close>

fun dofixmissingblobs :: "('s, 'w, 'c) item_env \<Rightarrow> time \<Rightarrow> string \<Rightarrow> string list \<Rightarrow> ('s, 'c) item_store \<Rightarrow> error option \<times> ('s, 'c) item_store" where
  "dofixmissingblobs E now creator [] st = (None, st)"
| "dofixmissingblobs E now creator (iid # ids) st =
     (case fixmissingblob E now creator iid st of
        (Some (Panic m), st1) \<Rightarrow> (Some (Panic m), st1)
      | (_, st1) \<Rightarrow> dofixmissingblobs E now creator ids st1)"

section \<open>The command line\<close>

text \<open>What a command prints. Missing arguments are an index out of range; a command with another name does nothing.\<close>

datatype util_output = Silent | Content bytes | Lines "string list" | Reports "error option"

definition util_main ::
  "'r local_env \<Rightarrow> (string \<Rightarrow> int) \<Rightarrow> (item \<Rightarrow> string list) \<Rightarrow> ('s, 'w, 'c) item_env \<Rightarrow> time \<Rightarrow> string \<Rightarrow> string list \<Rightarrow> ('s, 'c) item_store \<Rightarrow>
     (util_output \<times> ('s, 'c) item_store) option" where
  "util_main L fsize pr E now creator args st =
     (let panic = Some (Reports (Some (Panic ''index out of range'')), st);
          add = (\<lambda>isset. case args of
                   cmd # iid # files \<Rightarrow> map_option (map_prod Reports (\<lambda>s. s)) (doadd L fsize E now creator iid files isset st)
                 | _ \<Rightarrow> panic)
      in
      case args of
        [] \<Rightarrow> Some (Silent, st)
      | cmd # as \<Rightarrow>
          if cmd = ''blob'' then (case as of iid # blob # _ \<Rightarrow> Some (map_prod Content (\<lambda>s. s) (doblob E st iid blob)) | _ \<Rightarrow> panic)
          else if cmd = ''item'' then Some (map_prod Lines (\<lambda>s. s) (doitem E pr as st))
          else if cmd = ''list'' then Some (Lines (dolist E st), st)
          else if cmd = ''add'' then add False
          else if cmd = ''set'' then add True
          else if cmd = ''delete'' then
            (case as of iid # blobs \<Rightarrow> Some (map_prod Reports (\<lambda>s. s) (dodelete E now creator iid blobs st)) | _ \<Rightarrow> panic)
          else if cmd = ''identify-missing-blobs'' then Some (map_prod Lines (\<lambda>s. s) (doidentifymissingblobs E st))
          else if cmd = ''fix-missing-blobs'' then Some (map_prod Reports (\<lambda>s. s) (dofixmissingblobs E now creator as st))
          else Some (Silent, st))"

section \<open>What the commands do to an item\<close>

text \<open>Adding is a session of a writer that deletes nothing, so that everything that is proved of sessions holds of it.\<close>

definition adding_op :: "item_op \<Rightarrow> bool" where
  "adding_op op = (case op of WBlob c n md5 sha \<Rightarrow> md5 = [] \<and> sha = [] | WSlot s b \<Rightarrow> True | WClear \<Rightarrow> True | _ \<Rightarrow> False)"

definition readable :: "'r local_env \<Rightarrow> bool" where
  "readable L = (\<forall>p r. le_open L p = Inr r \<longrightarrow> (\<exists>data. read_all L r = Some (data, None)))"

lemma addfile_ops:
  assumes L: "readable L"
  shows "\<exists>err ops st'. addfile L E now item fname slot n st = Some (err, st') \<and> st' = fold (item_step E now) ops st \<and> list_all adding_op ops"
proof -
  obtain s wr where st: "st = (s, wr)" by (rule prod.exhaust)
  have "\<exists>bid. (case item of None \<Rightarrow> Some 0 | Some it \<Rightarrow> findBlobByFile L (e_H E) it fname n) = Some bid"
    using L by (fastforce simp: findBlobByFile_def readable_def Let_def split: option.splits sum.splits)
  then obtain bid where bid: "(case item of None \<Rightarrow> Some 0 | Some it \<Rightarrow> findBlobByFile L (e_H E) it fname n) = Some bid" by blast
  consider (known) "bid \<noteq> 0" | (closed) e where "bid = 0" "le_open L fname = Inl e" | (read) r data where "bid = 0" "le_open L fname = Inr r" "read_all L r = Some (data, None)"
    using L unfolding readable_def by (metis sum.exhaust)
  then show ?thesis
  proof cases
    case known
    then show ?thesis by (intro exI[of _ None] exI[of _ "[WSlot slot bid]"] exI[of _ "(s, SetSlot wr slot bid)"]) (simp add: addfile_def bid st adding_op_def)
  next
    case closed
    then show ?thesis by (intro exI[of _ "Some e"] exI[of _ "[]"] exI[of _ st]) (simp add: addfile_def bid)
  next
    case read
    obtain b err s1 wr1 where w: "Writer_WriteBlob E now s wr (data, None) n [] [] = ((b, err), s1, wr1)" by (metis prod.exhaust)
    show ?thesis
    proof (cases err)
      case None
      then show ?thesis using read w
        by (intro exI[of _ None] exI[of _ "[WBlob data n [] [], WSlot slot b]"] exI[of _ "(s1, SetSlot wr1 slot b)"]) (simp add: addfile_def bid st adding_op_def)
    next
      case (Some e)
      then show ?thesis using read w
        by (intro exI[of _ "Some e"] exI[of _ "[WBlob data n [] []]"] exI[of _ "(s1, wr1)"]) (simp add: addfile_def bid st adding_op_def)
    qed
  qed
qed

lemma add_paths_ops:
  assumes L: "readable L"
  shows "\<exists>err ops st'. add_paths L fsize E now item name paths st = Some (err, st') \<and> st' = fold (item_step E now) ops st \<and> list_all adding_op ops"
proof (induction paths arbitrary: st)
  case Nil
  show ?case by (intro exI[of _ None] exI[of _ "[]"] exI[of _ st]) simp
next
  case (Cons p paths)
  obtain err ops st1 where a: "addfile L E now item p (deriveSlotName name p) (fsize p) st = Some (err, st1)" "st1 = fold (item_step E now) ops st" "list_all adding_op ops"
    using addfile_ops[OF L] by blast
  obtain err2 ops2 st2 where b: "add_paths L fsize E now item name paths st1 = Some (err2, st2)" "st2 = fold (item_step E now) ops2 st1" "list_all adding_op ops2"
    using Cons.IH by blast
  show ?case
  proof (cases err)
    case None
    then show ?thesis using a b by (intro exI[of _ err2] exI[of _ "ops @ ops2"] exI[of _ st2]) simp
  next
    case (Some e)
    then show ?thesis using a by (intro exI[of _ err] exI[of _ ops] exI[of _ st1]) simp
  qed
qed

lemma add_trees_ops:
  assumes L: "readable L"
  shows "\<exists>err ops st'. add_trees L fsize E now item names st = Some (err, st') \<and> st' = fold (item_step E now) ops st \<and> list_all adding_op ops"
proof (induction names arbitrary: st)
  case Nil
  show ?case by (intro exI[of _ None] exI[of _ "[]"] exI[of _ st]) simp
next
  case (Cons name names)
  obtain fs r where w: "walk name (le_tree L name) = (fs, r)" by fastforce
  obtain err ops st1 where a: "add_paths L fsize E now item name (map found_path fs) st = Some (err, st1)" "st1 = fold (item_step E now) ops st" "list_all adding_op ops"
    using add_paths_ops[OF L] by blast
  obtain err2 ops2 st2 where b: "add_trees L fsize E now item names st1 = Some (err2, st2)" "st2 = fold (item_step E now) ops2 st1" "list_all adding_op ops2"
    using Cons.IH by blast
  show ?case
  proof (cases "err = None \<and> (\<forall>e. r \<noteq> WalkError e)")
    case True
    then show ?thesis using a b w by (intro exI[of _ err2] exI[of _ "ops @ ops2"] exI[of _ st2]) (simp split: walked.splits)
  next
    case False
    then have "\<exists>e. add_trees L fsize E now item (name # names) st = Some (Some e, st1)" using a(1) w by (cases err) auto
    then show ?thesis using a by blast
  qed
qed

lemma doadd_is_session:
  assumes L: "readable L" and ok: "snd (items_Item E st iid) = st" and it: "\<forall>e. fst (items_Item E st iid) = Inl e \<longrightarrow> e = ErrNoItem"
  shows "\<exists>err ops. doadd L fsize E now creator iid files isset st = Some (err, fst (snd (item_session E now st iid creator ops))) \<and> list_all adding_op ops"
proof -
  obtain item where d: "doadd L fsize E now creator iid files isset st = add_session L fsize E now creator iid files isset item st"
  proof -
    have i: "items_Item E st iid = (fst (items_Item E st iid), st)" using ok by (metis prod.collapse)
    show thesis
    proof (cases "fst (items_Item E st iid)")
      case (Inl e)
      then have "items_Item E st iid = (Inl ErrNoItem, st)" using i it by simp
      then show thesis using that[of None] by (simp add: doadd_def)
    next
      case (Inr item)
      then show thesis using that[of "Some item"] i by (simp add: doadd_def)
    qed
  qed
  obtain res st1 where op: "items_Open E now st iid creator = (res, st1)" by fastforce
  show ?thesis
  proof (cases res)
    case (Inl e)
    then show ?thesis unfolding d by (intro exI[of _ "Some e"] exI[of _ "[]"]) (simp add: add_session_def item_session_def op)
  next
    case (Inr wr)
    obtain err ops st2 wr2 where a: "add_trees L fsize E now item files (st1, if isset then ClearSlots wr else wr) = Some (err, st2, wr2)"
        "(st2, wr2) = fold (item_step E now) ops (st1, if isset then ClearSlots wr else wr)" "list_all adding_op ops"
      using add_trees_ops[OF L, of fsize E now item files "(st1, if isset then ClearSlots wr else wr)"] by (metis prod.exhaust)
    have "fold (item_step E now) ((if isset then [WClear] else []) @ ops) (st1, wr) = (st2, wr2)" using a(2) by simp
    then show ?thesis unfolding d using Inr a
      by (intro exI[of _ err] exI[of _ "(if isset then [WClear] else []) @ ops"]) (simp add: add_session_def item_session_def op adding_op_def split: prod.splits)
  qed
qed

lemma dodelete_is_session:
  assumes "parse_ids delblobs = Inr ids"
  shows "dodelete E now creator iid delblobs st =
    (let (err, st', saved) = item_session E now st iid creator (map WDelete ids) in (err, st'))"
proof -
  have "fold (item_step E now) (map WDelete ids) (s, wr) = (s, fold (\<lambda>b w. DeleteBlob w b) ids wr)" for s wr
    by (induction ids arbitrary: wr) simp_all
  then show ?thesis using assms by (simp add: dodelete_def item_session_def split: prod.splits sum.splits)
qed

text \<open>The repair fills every gap: the numbers are then all from one to the largest.\<close>

lemma find_missing_ok:
  assumes "sorted_wrt (<) (map blob_ID bs)" and "bs \<noteq> []" and "lo \<le> blob_ID (hd bs)"
  shows "\<exists>ms. find_missing [lo..blob_ID (last bs)] bs = Inr ms \<and> map fst ms = filter (\<lambda>i. i \<notin> blob_ID ` set bs) [lo..blob_ID (last bs)]"
  using assms
proof (induction "nat (blob_ID (last bs) + 1 - lo)" arbitrary: bs lo rule: less_induct)
  case less
  obtain b cs where bs: "bs = b # cs" using less.prems(2) by (cases bs) auto
  have le: "blob_ID b \<le> blob_ID (last bs)"
  proof (cases "cs = []")
    case False
    then have "last bs \<in> set cs" by (simp add: bs)
    then show ?thesis using less.prems(1) by (auto simp: bs intro: less_imp_le)
  qed (simp add: bs)
  have lo: "lo \<le> blob_ID b" using less.prems(3) by (simp add: bs)
  have up: "[lo..blob_ID (last bs)] = lo # [lo + 1..blob_ID (last bs)]" using le lo by (simp add: upto_rec1)
  show ?case
  proof (cases "blob_ID b = lo")
    case False
    have "nat (blob_ID (last bs) + 1 - (lo + 1)) < nat (blob_ID (last bs) + 1 - lo)" using le lo by simp
    moreover have "lo + 1 \<le> blob_ID (hd bs)" using lo False by (simp add: bs)
    ultimately obtain ms where ms: "find_missing [lo + 1..blob_ID (last bs)] bs = Inr ms"
        "map fst ms = filter (\<lambda>i. i \<notin> blob_ID ` set bs) [lo + 1..blob_ID (last bs)]" using less.hyps[of bs "lo + 1"] less.prems(1,2) by blast
    have "lo \<notin> blob_ID ` set bs" using less.prems(1) lo False by (auto simp: bs)
    then show ?thesis using ms False unfolding up by (simp add: bs)
  next
    case True
    show ?thesis
    proof (cases "cs = []")
      case True
      then show ?thesis using \<open>blob_ID b = lo\<close> by (simp add: bs)
    next
      case False
      have last: "last bs = last cs" using False by (simp add: bs)
      have "hd cs \<in> set cs" using False by simp
      then have "lo + 1 \<le> blob_ID (hd cs)" using less.prems(1) \<open>blob_ID b = lo\<close> by (fastforce simp: bs)
      moreover have "nat (blob_ID (last cs) + 1 - (lo + 1)) < nat (blob_ID (last bs) + 1 - lo)" using le lo last by simp
      ultimately obtain ms where ms: "find_missing [lo + 1..blob_ID (last cs)] cs = Inr ms"
          "map fst ms = filter (\<lambda>i. i \<notin> blob_ID ` set cs) [lo + 1..blob_ID (last cs)]"
        using less.hyps[of cs "lo + 1"] less.prems(1) False by (auto simp: bs)
      have "filter (\<lambda>i. i \<notin> blob_ID ` set bs) [lo..blob_ID (last bs)] = filter (\<lambda>i. i \<notin> blob_ID ` set cs) [lo + 1..blob_ID (last cs)]"
        unfolding up unfolding last using \<open>blob_ID b = lo\<close> by (auto simp: bs intro: filter_cong)
      then show ?thesis using ms \<open>blob_ID b = lo\<close> unfolding up unfolding last by (simp add: bs)
    qed
  qed
qed

lemma fixed_blobs_ids:
  assumes s: "sorted_wrt (<) (map blob_ID bs)" and "bs \<noteq> []" and "1 \<le> blob_ID (hd bs)"
  shows "\<exists>bs'. fixed_blobs now creator bs = Inr bs' \<and> map blob_ID bs' = [1..blob_ID (last bs)] \<and> set bs \<subseteq> set bs'"
proof -
  let ?max = "blob_ID (last bs)"
  obtain ms where ms: "find_missing [1..?max] bs = Inr ms" "map fst ms = filter (\<lambda>i. i \<notin> blob_ID ` set bs) [1..?max]" using find_missing_ok[OF assms] by blast
  let ?new = "map (missing_blob now creator) ms"
  have new: "map blob_ID ?new = filter (\<lambda>i. i \<notin> blob_ID ` set bs) [1..?max]" using ms(2) by (simp add: missing_blob_def comp_def)
  have range: "blob_ID ` set bs \<subseteq> {1..?max}"
  proof
    fix i
    assume "i \<in> blob_ID ` set bs"
    then have i: "i \<in> set (map blob_ID bs)" by simp
    have so: "sorted (map blob_ID bs)" using s by (simp add: strict_sorted_iff)
    obtain k where k: "k < length bs" "i = map blob_ID bs ! k" using i by (metis in_set_conv_nth length_map)
    have "map blob_ID bs ! 0 \<le> map blob_ID bs ! k" by (rule sorted_nth_mono[OF so]) (use k(1) in simp_all)
    moreover have "map blob_ID bs ! k \<le> map blob_ID bs ! (length bs - 1)" by (rule sorted_nth_mono[OF so]) (use k(1) in simp_all)
    ultimately have "map blob_ID bs ! 0 \<le> i" "i \<le> map blob_ID bs ! (length bs - 1)" using k(2) by simp_all
    then show "i \<in> {1..?max}" using assms(2,3) by (simp add: hd_conv_nth last_conv_nth)
  qed
  have all: "set (map blob_ID (bs @ ?new)) = {1..?max}" unfolding map_append set_append new using range by auto
  have dist: "distinct (map blob_ID (bs @ ?new))"
  proof -
    have "distinct (map blob_ID bs)" using s by (simp add: strict_sorted_iff)
    moreover have "set (map blob_ID bs) \<inter> set (map blob_ID ?new) = {}" unfolding new by auto
    ultimately show ?thesis unfolding map_append distinct_append new by simp
  qed
  have keep: "distinct (map blob_ID (sort_key blob_ID xs)) = distinct (map blob_ID xs)" "set (map blob_ID (sort_key blob_ID xs)) = set (map blob_ID xs)" for xs
    by (metis distinct_map distinct_sort set_sort, simp)
  have "map blob_ID (sort_key blob_ID (bs @ ?new)) = [1..?max]"
  proof (rule sorted_distinct_set_unique)
    show "distinct (map blob_ID (sort_key blob_ID (bs @ ?new)))" unfolding keep by (rule dist)
    show "set (map blob_ID (sort_key blob_ID (bs @ ?new))) = set [1..?max]" unfolding keep all by simp
  qed simp_all
  then show ?thesis using ms(1) by (intro exI[of _ "sort_key blob_ID (bs @ ?new)"]) (simp add: fixed_blobs_def)
qed

end
