(* ===== verification/Server_Setup.thy ===== *)
theory Server_Setup
  imports Location Tokens Go_Errors "HOL-Library.Word"
begin

text \<open>
  The set-up of the server from its configuration, src/cmd/bendo/main.go. The result names the constructors that are called, with their
  arguments. The decoder of the configuration file (package toml), \<open>url.Parse\<close>, \<open>time.ParseDuration\<close>, the reading of the token file, the variables of the environment and
  the success of opening a database are arguments.
\<close>

section \<open>The configuration\<close>

record bendoConfig =
  bc_StoreDir :: string
  bc_Tokenfile :: string
  bc_CacheDir :: string
  bc_CacheSize :: int
  bc_CacheTimeout :: string
  bc_PortNumber :: string
  bc_PProfPort :: string
  bc_Mysql :: string
  bc_CowHost :: string
  bc_CowToken :: string

definition default_config :: bendoConfig where
  "default_config = \<lparr>bc_StoreDir = ''.'', bc_Tokenfile = [], bc_CacheDir = [], bc_CacheSize = 100, bc_CacheTimeout = [],
     bc_PortNumber = ''14000'', bc_PProfPort = ''14001'', bc_Mysql = [], bc_CowHost = [], bc_CowToken = []\<rparr>"

record surroundings =
  en_url :: "string \<Rightarrow> url option"
  en_duration :: "string \<Rightarrow> int option"
  en_file :: "string \<Rightarrow> bytes result"
  en_AccessKey :: string
  en_SecretKey :: string

section \<open>The server before it runs\<close>

datatype cache_choice = NoCache | TimeCache location_store int | LRUCache location_store int

datatype database_choice = MysqlDatabase string | QlDatabase string

record server_setup =
  ss_Items :: "location_store \<times> (string \<times> string) option"
  ss_DisableFixity :: bool
  ss_Validator :: validator
  ss_Cache :: cache_choice
  ss_TxStore :: location_store
  ss_FileStore :: location_store
  ss_Database :: database_choice
  ss_PortNumber :: string
  ss_PProfPort :: string

text \<open>The end of the program instead: \<open>log.Fatalln\<close>, a panic, or the return of \<open>main\<close> after a message.\<close>

datatype exit = Fatal string | Crash | Quit error

definition location_at :: "surroundings \<Rightarrow> string \<Rightarrow> string \<Rightarrow> exit + location_store" where
  "location_at en location addition =
     (case parselocation location (en_url en location) (en_AccessKey en) (en_SecretKey en) addition of
        FatalExit m \<Rightarrow> Inl (Fatal m)
      | NilPanic \<Rightarrow> Inl Crash
      | l \<Rightarrow> Inr l)"

text \<open>The store, the host and the token of the copy-on-write store in front of it, and whether the fixity service is off.\<close>

definition setupItemStore :: "surroundings \<Rightarrow> bendoConfig \<Rightarrow> exit + ((location_store \<times> (string \<times> string) option) \<times> bool)" where
  "setupItemStore en config =
     (case location_at en (bc_StoreDir config) [] of
        Inl x \<Rightarrow> Inl x
      | Inr l \<Rightarrow>
          if l = NoStore then Inl (Fatal ''no storage location'')
          else if bc_CowHost config \<noteq> [] then Inr ((l, Some (bc_CowHost config, bc_CowToken config)), True)
          else Inr ((l, None), False))"

definition setupTokens :: "surroundings \<Rightarrow> bendoConfig \<Rightarrow> exit + validator" where
  "setupTokens en config =
     (if bc_Tokenfile config \<noteq> [] then
        (case NewListValidatorFile (en_file en (bc_Tokenfile config)) of
           Inl e \<Rightarrow> Inl (Fatal (err_Error e))
         | Inr v \<Rightarrow> Inr v)
      else Inr NobodyValidator)"

text \<open>The size in bytes is a product of 64-bit integers. A duration that does not parse is 0.\<close>

definition cache_bytes :: "int \<Rightarrow> int" where
  "cache_bytes mb = sint (word_of_int (mb * 1000000) :: 64 word)"

definition setupCache :: "surroundings \<Rightarrow> bendoConfig \<Rightarrow> exit + cache_choice" where
  "setupCache en config =
     (let timeout = (case en_duration en (bc_CacheTimeout config) of None \<Rightarrow> 0 | Some d \<Rightarrow> d);
          size1 = cache_bytes (bc_CacheSize config)
      in if bc_CacheDir config = [] \<or> size1 = 0 then Inr NoCache
         else
           (case location_at en (bc_CacheDir config) ''blobcache'' of
              Inl x \<Rightarrow> Inl x
            | Inr v \<Rightarrow>
                if v = NoStore then Inl (Fatal ''no location for cache'')
                else if timeout \<noteq> 0 then Inr (TimeCache v timeout)
                else Inr (LRUCache v size1)))"

definition setupTransactionStore :: "surroundings \<Rightarrow> bendoConfig \<Rightarrow> exit + location_store" where
  "setupTransactionStore en config = location_at en (bc_CacheDir config) ''transaction''"

definition setupUploadStore :: "surroundings \<Rightarrow> bendoConfig \<Rightarrow> exit + location_store" where
  "setupUploadStore en config = location_at en (bc_CacheDir config) ''upload''"

definition choose_database :: "bendoConfig \<Rightarrow> database_choice" where
  "choose_database config =
     (if bc_Mysql config \<noteq> [] then MysqlDatabase (bc_Mysql config)
      else if bc_CacheDir config \<noteq> [] then QlDatabase (path_Join [bc_CacheDir config, ''bendo.ql''])
      else QlDatabase ''memory'')"

definition setupDatabase :: "(database_choice \<Rightarrow> bool) \<Rightarrow> bendoConfig \<Rightarrow> exit + database_choice" where
  "setupDatabase opens config = (let db = choose_database config in if opens db then Inr db else Inl (Fatal ''problem setting up database''))"

definition setup_server :: "surroundings \<Rightarrow> (database_choice \<Rightarrow> bool) \<Rightarrow> bendoConfig \<Rightarrow> exit + server_setup" where
  "setup_server en opens config =
     (case setupTokens en config of Inl x \<Rightarrow> Inl x | Inr v \<Rightarrow>
     (case setupItemStore en config of Inl x \<Rightarrow> Inl x | Inr (l, nofix) \<Rightarrow>
     (case setupCache en config of Inl x \<Rightarrow> Inl x | Inr c \<Rightarrow>
     (case setupTransactionStore en config of Inl x \<Rightarrow> Inl x | Inr tx \<Rightarrow>
     (case setupUploadStore en config of Inl x \<Rightarrow> Inl x | Inr up \<Rightarrow>
     (case setupDatabase opens config of Inl x \<Rightarrow> Inl x | Inr db \<Rightarrow>
        Inr \<lparr>ss_Items = l, ss_DisableFixity = nofix, ss_Validator = v, ss_Cache = c, ss_TxStore = tx, ss_FileStore = up, ss_Database = db,
             ss_PortNumber = bc_PortNumber config, ss_PProfPort = bc_PProfPort config\<rparr>))))))"

text \<open>The decoder changes the fields that the file names.\<close>

definition bendo_main ::
  "surroundings \<Rightarrow> (database_choice \<Rightarrow> bool) \<Rightarrow> (string \<Rightarrow> bendoConfig \<Rightarrow> bendoConfig result) \<Rightarrow> string \<Rightarrow> exit + server_setup" where
  "bendo_main en opens decode configFile =
     (case (if configFile \<noteq> [] then decode configFile default_config else Inr default_config) of
        Inl e \<Rightarrow> Inl (Quit e)
      | Inr config \<Rightarrow> setup_server en opens config)"


section \<open>What the configuration decides\<close>

lemma location_empty [simp]: "location_at en [] addition = Inr MemoryStore"
  by (simp add: location_at_def parselocation_def)

text \<open>Without a cache directory nothing that is being uploaded or committed survives the program, and the default configuration has none.\<close>

lemma memory_only:
  "setup_server en opens config = Inr s \<Longrightarrow> bc_CacheDir config = [] \<Longrightarrow> bc_Mysql config = [] \<Longrightarrow>
   ss_TxStore s = MemoryStore \<and> ss_FileStore s = MemoryStore \<and> ss_Cache s = NoCache \<and> ss_Database s = QlDatabase ''memory''"
  by (auto simp: setup_server_def setupCache_def setupTransactionStore_def setupUploadStore_def setupDatabase_def choose_database_def Let_def
      split: sum.splits prod.splits if_splits)

text \<open>The fixity service is off exactly with a copy-on-write store.\<close>

lemma fixity_off:
  "setup_server en opens config = Inr s \<Longrightarrow> (ss_DisableFixity s \<longleftrightarrow> bc_CowHost config \<noteq> []) \<and> fst (ss_Items s) \<noteq> NoStore"
  by (auto simp: setup_server_def setupItemStore_def split: sum.splits prod.splits if_splits)

text \<open>A timeout that does not parse gives the cache that is bounded by size.\<close>

lemma misspelled_timeout:
  "setup_server en opens config = Inr s \<Longrightarrow> en_duration en (bc_CacheTimeout config) = None \<Longrightarrow> ss_Cache s \<noteq> TimeCache v d"
  by (auto simp: setup_server_def setupCache_def Let_def split: sum.splits prod.splits if_splits)

lemma cache_bytes_exact:
  assumes "0 \<le> mb" and "mb \<le> 9000000000000"
  shows "cache_bytes mb = mb * 1000000"
proof -
  have "mb * 1000000 \<le> 9000000000000 * 1000000" by (rule mult_right_mono) (use assms in simp_all)
  then show ?thesis using assms unfolding cache_bytes_def sint_sbintrunc' by (simp add: signed_take_bit_int_eq_self_iff)
qed

text \<open>The three stores below one directory are apart: the names end in different letters.\<close>

lemma split_all_snoc: "c \<notin> set a \<Longrightarrow> split_all c (p @ c # a) = split_all c p @ [a]"
proof (induction p)
  case Nil
  have "split_all c a = [a]" if "c \<notin> set a" for a using that by (induction a) auto
  then show ?case using Nil by simp
next
  case (Cons x p)
  have "split_all c p \<noteq> []" by (cases p) (simp_all split: list.splits)
  then show ?case using Cons by (cases "split_all c p") auto
qed

lemma clean_onto_snoc: "a \<notin> {'''', ''.'', ''..''} \<Longrightarrow> clean_onto acc (cs @ [a]) = clean_onto acc cs @ [a]"
  by (induction cs arbitrary: acc) auto

lemma last_join_slash: "xs \<noteq> [] \<Longrightarrow> last xs \<noteq> [] \<Longrightarrow> join_slash xs \<noteq> [] \<and> last (join_slash xs) = last (last xs)"
  by (induction xs rule: join_slash.induct) (auto split: if_splits)

definition plain_name :: "string \<Rightarrow> bool" where
  "plain_name a = (a \<notin> {'''', ''.'', ''..''} \<and> CHR ''/'' \<notin> set a)"

lemma last_path_Join:
  assumes "plain_name a"
  shows "path_Join [p, a] \<noteq> [] \<and> last (path_Join [p, a]) = last a"
proof -
  have clean: "path_Clean s \<noteq> [] \<and> last (path_Clean s) = last a" if s: "clean_onto [] (split_all CHR ''/'' s) = cs @ [a]" for s cs
  proof -
    have d: "dropWhile (\<lambda>c. c = ''..'') (cs @ [a]) = dropWhile (\<lambda>c. c = ''..'') cs @ [a]"
      using assms by (induction cs) (auto simp: plain_name_def)
    have "a \<noteq> []" using assms by (simp add: plain_name_def)
    then have "join_slash (xs @ [a]) \<noteq> [] \<and> last (join_slash (xs @ [a])) = last a" for xs using last_join_slash[of "xs @ [a]"] by simp
    then show ?thesis by (simp add: path_Clean_def s d Let_def)
  qed
  show ?thesis
  proof (cases "p = []")
    case True
    have "split_all CHR ''/'' a = [a]" using split_all_snoc[of "CHR ''/''" a "[]"] assms by (simp add: plain_name_def)
    then show ?thesis using clean[of a "[]"] True assms by (simp add: path_Join_def plain_name_def)
  next
    case False
    have "clean_onto [] (split_all CHR ''/'' (p @ ''/'' @ a)) = clean_onto [] (split_all CHR ''/'' p) @ [a]"
      using assms by (simp add: split_all_snoc clean_onto_snoc plain_name_def)
    then show ?thesis using clean False assms by (simp add: path_Join_def plain_name_def)
  qed
qed

lemma last_with_slash: "p \<noteq> [] \<Longrightarrow> with_slash p = p @ ''/'' \<or> with_slash p = p \<and> last p = CHR ''/''"
  by (cases p rule: rev_cases) (auto simp: with_slash_def has_suffix_def has_prefix_def)

lemma with_slash_apart:
  assumes "plain_name a" and "plain_name b" and "last a \<noteq> last b"
  shows "with_slash (path_Join [p, a]) \<noteq> with_slash (path_Join [q, b])"
proof -
  have l: "with_slash (path_Join [p, a]) = path_Join [p, a] @ ''/''" if "plain_name a" for p a
  proof -
    have "last (path_Join [p, a]) = last a" "path_Join [p, a] \<noteq> []" using last_path_Join[OF that] by simp_all
    moreover have "last a \<noteq> CHR ''/''" using that by (metis empty_iff insert_iff last_in_set plain_name_def)
    ultimately show ?thesis using last_with_slash by metis
  qed
  show ?thesis unfolding l[OF assms(1)] l[OF assms(2)] using last_path_Join[OF assms(1), of p] last_path_Join[OF assms(2), of q] assms(3)
    by (metis append_same_eq)
qed

lemma locations_apart:
  assumes a: "plain_name a" and b: "plain_name b" and ab: "last a \<noteq> last b" and dir: "dir \<noteq> []"
    and v: "location_at en dir a = Inr v" "v \<noteq> NoStore" and w: "location_at en dir b = Inr w"
  shows "v \<noteq> w"
proof -
  have ne: "a \<noteq> []" "b \<noteq> []" using a b by (simp_all add: plain_name_def)
  have f: "path_Join [p, a] \<noteq> path_Join [p, b]" for p using last_path_Join[OF a, of p] last_path_Join[OF b, of p] ab by metis
  have s: "snd (splitBucketPrefix p a) \<noteq> snd (splitBucketPrefix p b)" if "p \<noteq> []" for p
    using that ne with_slash_apart[OF a b ab] by (simp add: splitBucketPrefix_def Let_def)
  obtain u where u: "en_url en dir = Some u" using v(1) dir by (cases "en_url en dir") (simp_all add: location_at_def parselocation_def)
  have p: "u_Path u \<noteq> []" if "fst (splitBucketPrefix (u_Path u) a) \<noteq> []" using that by (auto simp: splitBucketPrefix_def)
  show ?thesis using v w dir u f[of "u_Path u"] s[of "u_Path u"] p
    by (auto simp: location_at_def parselocation_def split: if_splits prod.splits)
qed

theorem stores_apart:
  assumes "setup_server en opens config = Inr s" and dir: "bc_CacheDir config \<noteq> []" and "ss_TxStore s \<noteq> NoStore"
  shows "ss_FileStore s \<noteq> ss_TxStore s \<and> ss_Cache s \<notin> range (TimeCache (ss_TxStore s)) \<union> range (TimeCache (ss_FileStore s)) \<union> range (LRUCache (ss_TxStore s)) \<union> range (LRUCache (ss_FileStore s))"
proof -
  have n: "plain_name ''blobcache''" "plain_name ''transaction''" "plain_name ''upload''" by (simp_all add: plain_name_def)
  have tx: "location_at en (bc_CacheDir config) ''transaction'' = Inr (ss_TxStore s)" and up: "location_at en (bc_CacheDir config) ''upload'' = Inr (ss_FileStore s)"
    and ca: "setupCache en config = Inr (ss_Cache s)"
    using assms(1) by (auto simp: setup_server_def setupTransactionStore_def setupUploadStore_def split: sum.splits prod.splits)
  have "ss_TxStore s \<noteq> ss_FileStore s" by (rule locations_apart[OF n(2,3) _ dir tx assms(3) up]) simp
  moreover have "v \<noteq> ss_TxStore s \<and> v \<noteq> ss_FileStore s" if "ss_Cache s = TimeCache v d \<or> ss_Cache s = LRUCache v d" for v d
  proof -
    have v: "location_at en (bc_CacheDir config) ''blobcache'' = Inr v" "v \<noteq> NoStore"
      using that ca by (auto simp: setupCache_def Let_def split: sum.splits if_splits)
    show ?thesis using locations_apart[OF n(1,2) _ dir v tx] locations_apart[OF n(1,3) _ dir v up] by simp
  qed
  ultimately show ?thesis by auto
qed

end
